(* ===== verification/Prelude.thy ===== *)
theory Prelude
  imports Main "HOL-Library.Word"
begin

text \<open>
  The shared layer of the development: Go's fixed-width integers and byte slices, the
  big-endian encodings of \<open>encoding/binary\<close>, results with an error branch, and the three
  interfaces the components are stated against: a wire format (encode/decode), a state
  machine with an invariant, and a first-seen filter.
\<close>

unbundle bit_operations_syntax

section \<open>Go's data\<close>

type_synonym byte = "8 word"
type_synonym bytes = "byte list"
type_synonym u16 = "16 word"
type_synonym u32 = "32 word"
type_synonym u64 = "64 word"

text \<open>Instants and durations: nanoseconds, as in package \<open>time\<close>.\<close>

type_synonym gotime = int
type_synonym duration = int

abbreviation time_Second :: duration where
  "time_Second \<equiv> 1000000000"

abbreviation time_Millisecond :: duration where
  "time_Millisecond \<equiv> 1000000"

text \<open>
  The facts about the encodings that every parser and printer uses, and the invariants'
  introduction facts, are collected under two names.
\<close>

named_theorems wire_simps \<open>lengths and round trips of the byte encodings\<close>
named_theorems slice_simps \<open>slices of concatenated byte strings\<close>

text \<open>\<open>data[i:j]\<close>. Go panics when \<open>j\<close> exceeds the capacity; every use below is behind
  the length test the source makes first.\<close>

definition gslice :: "nat \<Rightarrow> nat \<Rightarrow> 'a list \<Rightarrow> 'a list" where
  "gslice i j xs = take (j - i) (drop i xs)"

text \<open>\<open>binary.BigEndian.PutUintN\<close> and \<open>UintN\<close>, for \<open>n\<close> bytes.\<close>

primrec be_bytes :: "nat \<Rightarrow> 'a::len word \<Rightarrow> bytes" where
  "be_bytes 0 w = []"
| "be_bytes (Suc n) w = be_bytes n (drop_bit 8 w) @ [ucast w]"

definition be_word :: "bytes \<Rightarrow> 'a::len word" where
  "be_word bs = foldl (\<lambda>a b. push_bit 8 a OR ucast b) 0 bs"

abbreviation put_u16 :: "u16 \<Rightarrow> bytes" where "put_u16 \<equiv> be_bytes 2"
abbreviation put_u32 :: "u32 \<Rightarrow> bytes" where "put_u32 \<equiv> be_bytes 4"
abbreviation put_u64 :: "u64 \<Rightarrow> bytes" where "put_u64 \<equiv> be_bytes 8"
abbreviation get_u16 :: "bytes \<Rightarrow> u16" where "get_u16 \<equiv> be_word"
abbreviation get_u32 :: "bytes \<Rightarrow> u32" where "get_u32 \<equiv> be_word"
abbreviation get_u64 :: "bytes \<Rightarrow> u64" where "get_u64 \<equiv> be_word"

text \<open>\<open>make([]byte, n)\<close>: \<open>n\<close> zero bytes.\<close>

definition zeros :: "nat \<Rightarrow> bytes" where
  "zeros n = replicate n 0"

text \<open>
  Running a stateful filter (an operation that answers yes or no and updates its state) over
  a sequence: the keys it answered yes to, in order, and the state it is left in.
\<close>

primrec accepted_of :: "('w \<Rightarrow> 'k \<Rightarrow> bool \<times> 'w) \<Rightarrow> 'w \<Rightarrow> 'k list \<Rightarrow> 'k list" where
  "accepted_of f w [] = []"
| "accepted_of f w (k # ks) =
     (if fst (f w k) then k # accepted_of f (snd (f w k)) ks
      else accepted_of f (snd (f w k)) ks)"

text \<open>Running a machine over a sequence of events.\<close>

primrec run :: "('s \<Rightarrow> 'e \<Rightarrow> 's) \<Rightarrow> 's \<Rightarrow> 'e list \<Rightarrow> 's" where
  "run step s [] = s"
| "run step s (e # es) = run step (step s e) es"

section \<open>Slices\<close>

lemma length_slice [simp]: "length (gslice i j xs) = min (j - i) (length xs - i)"
  by (simp add: gslice_def)

lemma slice_append_left [slice_simps]:
  "j \<le> length xs \<Longrightarrow> gslice i j (xs @ ys) = gslice i j xs"
  by (auto simp: gslice_def)

lemma slice_append_right [slice_simps]:
  "length xs \<le> i \<Longrightarrow> gslice i j (xs @ ys) = gslice (i - length xs) (j - length xs) ys"
  by (auto simp: gslice_def)

lemma slice_whole [slice_simps]: "length xs \<le> j \<Longrightarrow> gslice 0 j xs = xs"
  by (simp add: gslice_def)

lemma drop_append_ge [slice_simps]:
  "length xs \<le> n \<Longrightarrow> drop n (xs @ ys) = drop (n - length xs) ys"
  by simp

lemma slice_append_slice: "i \<le> j \<Longrightarrow> j \<le> k \<Longrightarrow> gslice i j xs @ gslice j k xs = gslice i k xs"
proof -
  assume ij: "i \<le> j" and jk: "j \<le> k"
  have "gslice j k xs = take (k - j) (drop (j - i) (drop i xs))"
    using ij by (simp add: gslice_def)
  moreover have "gslice i k xs = take ((j - i) + (k - j)) (drop i xs)"
    using ij jk by (simp add: gslice_def)
  ultimately show ?thesis by (simp add: gslice_def take_add)
qed

lemma slice_to_drop: "gslice i j xs @ drop j xs = drop i xs" if "i \<le> j"
proof -
  have "drop j xs = drop (j - i) (drop i xs)" using that by simp
  then show ?thesis by (simp add: gslice_def del: drop_drop)
qed

lemma gslice_single: "i < length xs \<Longrightarrow> gslice i (Suc i) xs = [xs ! i]"
  by (simp add: gslice_def take_Suc_conv_app_nth)

lemma nth_prefix [slice_simps]: "length pre = off \<Longrightarrow> (pre @ x # ys) ! off = x"
  by auto

lemma length_zeros [simp]: "length (zeros n) = n"
  by (simp add: zeros_def)

lemma set_zeros: "b \<in> set (zeros n) \<Longrightarrow> b = 0"
  by (simp add: zeros_def)

section \<open>Big-endian encodings\<close>

lemma length_be_bytes [simp, wire_simps]: "length (be_bytes n w) = n"
  by (induction n arbitrary: w) auto

lemma be_word_snoc: "be_word (bs @ [b]) = push_bit 8 (be_word bs) OR ucast b"
  by (simp add: be_word_def)

lemma be_word_Nil: "be_word [] = 0"
  by (simp add: be_word_def)

lemma be_word_be_bytes_take: "be_word (be_bytes n w) = (take_bit (8 * n) w :: 'a::len word)"
proof (induction n arbitrary: w)
  case 0
  show ?case by (simp add: be_word_Nil)
next
  case (Suc n)
  have "be_word (be_bytes (Suc n) w) =
    (push_bit 8 (take_bit (8 * n) (drop_bit 8 w)) OR ucast (ucast w :: byte) :: 'a word)"
    by (simp add: be_word_snoc Suc.IH)
  also have "\<dots> = take_bit (8 * Suc n) w"
    by (rule bit_word_eqI) (auto simp: bit_simps dest: bit_imp_le_length)
  finally show ?case .
qed

lemma be_word_be_bytes [wire_simps]:
  "LENGTH('a) \<le> 8 * n \<Longrightarrow> be_word (be_bytes n w) = (w :: 'a::len word)"
  by (simp add: be_word_be_bytes_take take_bit_word_eq_self)

lemma get_put_u16 [simp]: "get_u16 (put_u16 w) = w"
  by (rule be_word_be_bytes) simp

lemma get_put_u32 [simp]: "get_u32 (put_u32 w) = w"
  by (rule be_word_be_bytes) simp

lemma get_put_u64 [simp]: "get_u64 (put_u64 w) = w"
  by (rule be_word_be_bytes) simp

lemma be_word_take_bit: "take_bit (8 * length bs) (be_word bs) = (be_word bs :: 'a::len word)"
proof (induction bs rule: rev_induct)
  case Nil
  show ?case by (simp add: be_word_Nil)
next
  case (snoc b bs)
  have step: "bit (be_word bs :: 'a word) k \<Longrightarrow> k < 8 * length bs" for k
    by (metis snoc.IH bit_take_bit_iff)
  show ?case
    by (rule bit_word_eqI) (auto simp: be_word_snoc bit_simps dest: step bit_imp_le_length)
qed

lemma be_bytes_be_word:
  "8 * length bs \<le> LENGTH('a) \<Longrightarrow> be_bytes (length bs) (be_word bs :: 'a::len word) = bs"
proof (induction bs rule: rev_induct)
  case Nil
  show ?case by simp
next
  case (snoc b bs)
  have small: "bit (be_word bs :: 'a word) k \<Longrightarrow> k < 8 * length bs" for k
    by (metis be_word_take_bit bit_take_bit_iff)
  have fits: "8 * length bs + 8 \<le> LENGTH('a)" using snoc.prems by simp
  have hi: "drop_bit 8 (push_bit 8 (be_word bs) OR ucast b) = (be_word bs :: 'a word)"
    using fits by (intro bit_word_eqI) (auto simp: bit_simps dest: small bit_imp_le_length)
  have lo: "ucast (push_bit 8 (be_word bs :: 'a word) OR ucast b) = b"
    using fits by (intro bit_word_eqI) (auto simp: bit_simps dest: bit_imp_le_length)
  have "be_bytes (length (bs @ [b])) (be_word (bs @ [b]) :: 'a word) =
      be_bytes (length bs) (drop_bit 8 (push_bit 8 (be_word bs) OR ucast b :: 'a word)) @
      [ucast (push_bit 8 (be_word bs) OR ucast b :: 'a word)]"
    by (simp only: be_word_snoc length_append list.size be_bytes.simps add_0_right add_Suc_right)
  also have "\<dots> = bs @ [b]"
    unfolding hi lo using snoc.IH fits by simp
  finally show ?case .
qed

lemma put_get_u16 [simp]: "length bs = 2 \<Longrightarrow> put_u16 (get_u16 bs) = bs"
  using be_bytes_be_word [of bs, where 'a = 16] by simp

lemma put_get_u32 [simp]: "length bs = 4 \<Longrightarrow> put_u32 (get_u32 bs) = bs"
  using be_bytes_be_word [of bs, where 'a = 32] by simp

lemma put_get_u64 [simp]: "length bs = 8 \<Longrightarrow> put_u64 (get_u64 bs) = bs"
  using be_bytes_be_word [of bs, where 'a = 64] by simp

text \<open>\<open>uint16(n)\<close> of a length: exact below \<open>2^16\<close>.\<close>

lemma unat_of_nat_u16: "n < 65536 \<Longrightarrow> unat (of_nat n :: u16) = n"
  by (simp add: unat_of_nat take_bit_nat_eq_self)

lemma unat_of_nat_u8: "n < 256 \<Longrightarrow> unat (of_nat n :: byte) = n"
  by (simp add: unat_of_nat take_bit_nat_eq_self)

section \<open>Interfaces\<close>

text \<open>
  A wire format: a printer that may refuse a message, a parser that may refuse a datagram,
  and the messages that fit the Go types (array lengths, integer widths). A component that
  parses relies on these laws; every codec of the program provides them.
\<close>

locale wire_format =
  fixes enc :: "'m \<Rightarrow> 'e + bytes"
    and dec :: "bytes \<Rightarrow> 'e + 'm"
    and wf :: "'m \<Rightarrow> bool"
  assumes dec_enc: "wf m \<Longrightarrow> enc m = Inr w \<Longrightarrow> dec w = Inr m"
begin

lemma enc_inj:
  assumes "wf m" "wf m'" "enc m = Inr w" "enc m' = Inr w"
  shows "m = m'"
  using dec_enc [OF assms(1,3)] dec_enc [OF assms(2,4)] by simp

lemma enc_cong_iff:
  assumes "wf m" "wf m'" "enc m = Inr w" "enc m' = Inr w'"
  shows "w = w' \<longleftrightarrow> m = m'"
  using assms enc_inj by auto

end

text \<open>
  A canonical format: whatever the parser accepts is a message of the Go types and is the
  printer's own output, so no two datagrams mean the same message.
\<close>

locale canonical_format = wire_format +
  assumes dec_wf: "dec w = Inr m \<Longrightarrow> wf m"
    and enc_dec: "dec w = Inr m \<Longrightarrow> enc m = Inr w"
begin

lemma dec_inj: "dec w = Inr m \<Longrightarrow> dec w' = Inr m \<Longrightarrow> w = w'"
  by (metis enc_dec Inr_inject)

lemma dec_iff: "dec w = Inr m \<longleftrightarrow> wf m \<and> enc m = Inr w"
  by (blast intro: dec_enc dec_wf enc_dec)

end

text \<open>A machine with an invariant its step keeps, and with a size the invariant bounds.\<close>

locale invariant_machine =
  fixes step :: "'s \<Rightarrow> 'e \<Rightarrow> 's"
    and invar :: "'s \<Rightarrow> bool"
  assumes invar_step: "invar s \<Longrightarrow> invar (step s e)"
begin

lemma invar_run: "invar s \<Longrightarrow> invar (run step s es)"
  by (induction es arbitrary: s) (auto intro: invar_step)

end

locale bounded_machine = invariant_machine +
  fixes measure_of :: "'a \<Rightarrow> nat"
    and capacity :: "'a \<Rightarrow> nat"
  assumes invar_bound: "invar s \<Longrightarrow> measure_of s \<le> capacity s"
begin

lemma bound_run: "invar s \<Longrightarrow> measure_of (run step s es) \<le> capacity (run step s es)"
  by (rule invar_bound) (rule invar_run)

end

text \<open>
  A first-seen filter: \<open>fresh w k\<close> says that \<open>k\<close> would be accepted in state \<open>w\<close>. After a key
  was offered it is never fresh again, and offering keys never refreshes another one. Then
  no sequence of offers, in any order and with any repetition, has a key accepted twice.
\<close>

locale first_seen_filter =
  fixes offer :: "'w \<Rightarrow> 'k \<Rightarrow> bool \<times> 'w"
    and fresh :: "'w \<Rightarrow> 'k \<Rightarrow> bool"
    and invar :: "'w \<Rightarrow> bool"
  assumes accept_fresh: "invar w \<Longrightarrow> fst (offer w k) \<longleftrightarrow> fresh w k"
    and offered_stale: "invar w \<Longrightarrow> \<not> fresh (snd (offer w k)) k"
    and fresh_antimono: "invar w \<Longrightarrow> fresh (snd (offer w k)) j \<Longrightarrow> fresh w j"
    and invar_offer: "invar w \<Longrightarrow> invar (snd (offer w k))"
begin

lemma stale_never_accepted:
  "invar w \<Longrightarrow> \<not> fresh w k \<Longrightarrow> k \<notin> set (accepted_of offer w ks)"
proof (induction ks arbitrary: w)
  case Nil
  then show ?case by simp
next
  case (Cons j ks)
  have "k \<notin> set (accepted_of offer (snd (offer w j)) ks)"
    using Cons.prems fresh_antimono by (intro Cons.IH) (auto intro: invar_offer)
  moreover have "fst (offer w j) \<Longrightarrow> j \<noteq> k" using Cons.prems accept_fresh by auto
  ultimately show ?case by auto
qed

lemma accepted_once: "invar w \<Longrightarrow> distinct (accepted_of offer w ks)"
proof (induction ks arbitrary: w)
  case Nil
  then show ?case by simp
next
  case (Cons j ks)
  then show ?case using stale_never_accepted offered_stale invar_offer by auto
qed

end

end
