(* ===== verification/Protocol.thy ===== *)
theory Protocol
  imports Prelude
begin

text \<open>
  The data of package \<open>tgp\<close> (\<open>internal/tgp/protocol.go\<close>): identifiers, flags, the two packet
  headers, the session states, and the package's error values. A Go array of bytes is a
  byte list; \<open>wf_outer\<close> and \<open>wf_inner\<close> say that the lists have the arrays' lengths.
\<close>

section \<open>Errors\<close>

datatype tgp_error =
    ErrPacketTooShort
  | ErrInvalidMagic
  | ErrInvalidLength
  | ErrSequenceOverflow
  | ErrDatagramTooLarge
  | ErrDatagramSizeRange
  | ErrNilCodec
  | ErrKeyLength
  | ErrAuthentication
  | ErrInvalidFECParams
  | ErrFECResourceLimit
  | ErrFECShardTooLarge
  | ErrReedSolomon
  | ErrFECVerification
  | ErrInvalidTunnelData
  | ErrInvalidPathControl
  | ErrInvalidHandshake
  | ErrUnexpectedMessage
  | ErrHandshakeTimeout
  | ErrInvalidRole
  | ErrInvalidPublicKey
  | ErrECDH
  | ErrHKDF
  | ErrNilKeyPair
  | ErrSessionClosed
  | ErrMigrationDisabled
  | ErrNilAddress
  | ErrRemoteRefused
  | ErrContext
  | ErrTransport
  | ErrKeyGeneration

text \<open>\<open>net.Addr\<close>: what the program reads of an address is its network and its text.\<close>

record NetAddr =
  addrNetwork :: string
  addrString :: string

section \<open>Constants and identifiers\<close>

type_synonym SessionID = bytes
type_synonym StreamID = u16

definition TGP_Magic :: bytes where
  "TGP_Magic = [0x54, 0x47, 0x50, 0x01]"

definition FlagControl :: byte where "FlagControl = push_bit 0 1"
definition FlagFEC :: byte where "FlagFEC = push_bit 1 1"
definition FlagMigrate :: byte where "FlagMigrate = push_bit 2 1"
definition FlagClose :: byte where "FlagClose = push_bit 3 1"
definition FlagMultipath :: byte where "FlagMultipath = push_bit 4 1"
definition FlagEncrypted :: byte where "FlagEncrypted = push_bit 7 1"

section \<open>Headers and packets\<close>

record OuterHeader =
  ContentType :: byte
  VersionMajor :: byte
  VersionMinor :: byte
  Epoch :: u16
  SequenceNum :: bytes
  Length :: u16

record InnerHeader =
  Magic :: bytes
  Flags :: byte
  SessionID :: SessionID
  StreamID :: StreamID
  PacketNumber :: u64
  FECGroup :: u32
  FECIndex :: byte
  FECTotal :: byte
  FECDataShards :: byte
  PayloadLength :: u16

record Packet =
  Outer :: OuterHeader
  Inner :: InnerHeader
  Payload :: bytes
  ReceivedAt :: gotime
  SourceAddr :: "NetAddr option"

definition wf_outer :: "OuterHeader \<Rightarrow> bool" where
  "wf_outer h \<longleftrightarrow> length (SequenceNum h) = 6"

definition wf_inner :: "InnerHeader \<Rightarrow> bool" where
  "wf_inner h \<longleftrightarrow> length (Magic h) = 4 \<and> length (SessionID h) = 16"

section \<open>Session states\<close>

datatype SessionState =
    SessionHandshaking
  | SessionEstablished
  | SessionMigrating
  | SessionClosing
  | SessionClosed

text \<open>\<open>sameAddr\<close> (session.go): two nil addresses are the same, otherwise both texts agree.\<close>

definition sameAddr :: "NetAddr option \<Rightarrow> NetAddr option \<Rightarrow> bool" where
  "sameAddr left right =
     (if left = None \<or> right = None then left = right
      else addrNetwork (the left) = addrNetwork (the right) \<and>
           addrString (the left) = addrString (the right))"

lemma flag_values:
  "FlagControl = 1" "FlagFEC = 2" "FlagMigrate = 4" "FlagClose = 8" "FlagMultipath = 16"
  "FlagEncrypted = 128"
  by (simp_all add: FlagControl_def FlagFEC_def FlagMigrate_def FlagClose_def
      FlagMultipath_def FlagEncrypted_def)

lemma length_TGP_Magic [simp]: "length TGP_Magic = 4"
  by (simp add: TGP_Magic_def)

lemma sameAddr_iff: "sameAddr a b \<longleftrightarrow> a = b"
  by (cases a; cases b) (auto simp: sameAddr_def)

end
