(* ===== verification/Codec.thy ===== *)
theory Codec
  imports Protocol
begin

text \<open>
  The packet codec (\<open>internal/tgp/codec.go\<close>): header layout, the DTLS-like outer header, and
  sealing and opening of datagrams. ChaCha20-Poly1305 (\<open>golang.org/x/crypto\<close>) is a parameter,
  the record \<open>aead\<close>; \<open>aead_laws\<close> is what its documentation promises for keys of 32 and nonces of 12
  bytes: what was sealed opens to the plaintext under the same key, nonce and additional data, and a
  sealed text is 16 bytes longer than its plaintext.
\<close>

section \<open>Sizes\<close>

definition outerHeaderSize :: nat where "outerHeaderSize = 13"
definition innerHeaderSize :: nat where "innerHeaderSize = 43"
definition MinTGPDatagramSize :: int where "MinTGPDatagramSize = 1232"
definition DefaultTGPDatagramSize :: int where "DefaultTGPDatagramSize = 1352"
definition MaxTGPDatagramSize :: int where "MaxTGPDatagramSize = 1452"
definition aeadOverheadSize :: nat where "aeadOverheadSize = 16"
definition maxTGPDataPayloadSize :: nat where
  "maxTGPDataPayloadSize = nat MaxTGPDatagramSize - outerHeaderSize - innerHeaderSize - aeadOverheadSize"
definition maxDTLSSequence :: u64 where "maxDTLSSequence = push_bit 48 1 - 1"
definition trafficKeySize :: nat where "trafficKeySize = 32"

section \<open>The AEAD parameter\<close>

record aead =
  aead_seal :: "bytes \<Rightarrow> bytes \<Rightarrow> bytes \<Rightarrow> bytes \<Rightarrow> bytes"
  aead_open :: "bytes \<Rightarrow> bytes \<Rightarrow> bytes \<Rightarrow> bytes \<Rightarrow> bytes option"

definition aead_laws :: "aead \<Rightarrow> bool" where
  "aead_laws A \<longleftrightarrow>
     (\<forall>key nonce plaintext ad. length key = 32 \<and> length nonce = 12 \<longrightarrow>
        aead_open A key nonce (aead_seal A key nonce plaintext ad) ad = Some plaintext \<and>
        length (aead_seal A key nonce plaintext ad) = length plaintext + aeadOverheadSize)"

section \<open>Construction\<close>

record Codec =
  codecKey :: bytes
  maxDatagramSize :: int

definition normalizeMaxDatagramSize :: "int \<Rightarrow> tgp_error + int" where
  "normalizeMaxDatagramSize limit =
     (let limit = (if limit = 0 then DefaultTGPDatagramSize else limit)
      in if limit < MinTGPDatagramSize \<or> limit > MaxTGPDatagramSize then Inl ErrDatagramSizeRange
         else Inr limit)"

text \<open>\<open>chacha20poly1305.New\<close> refuses keys that are not 32 bytes long.\<close>

definition NewCodecWithMaxDatagramSize :: "bytes \<Rightarrow> int \<Rightarrow> tgp_error + Codec" where
  "NewCodecWithMaxDatagramSize key limit =
     (case normalizeMaxDatagramSize limit of
        Inl e \<Rightarrow> Inl e
      | Inr limit \<Rightarrow>
          if length key \<noteq> trafficKeySize then Inl ErrKeyLength
          else Inr \<lparr>codecKey = key, maxDatagramSize = limit\<rparr>)"

definition NewCodec :: "bytes \<Rightarrow> tgp_error + Codec" where
  "NewCodec key = NewCodecWithMaxDatagramSize key 0"

text \<open>What a constructed codec looks like: its limit is in the protocol's range.\<close>

definition wf_codec :: "Codec \<Rightarrow> bool" where
  "wf_codec c \<longleftrightarrow> length (codecKey c) = trafficKeySize \<and>
     MinTGPDatagramSize \<le> maxDatagramSize c \<and> maxDatagramSize c \<le> MaxTGPDatagramSize"

section \<open>Headers\<close>

definition NewOuterHeader :: "u64 \<Rightarrow> int \<Rightarrow> tgp_error + OuterHeader" where
  "NewOuterHeader sequence encryptedLength =
     (if sequence > maxDTLSSequence then Inl ErrSequenceOverflow
      else if encryptedLength < 0 \<or> encryptedLength > 0xffff then Inl ErrInvalidLength
      else Inr \<lparr>ContentType = 0x17, VersionMajor = 0xfe, VersionMinor = 0xff, Epoch = 0,
                SequenceNum =
                  [ucast (drop_bit 40 sequence), ucast (drop_bit 32 sequence),
                   ucast (drop_bit 24 sequence), ucast (drop_bit 16 sequence),
                   ucast (drop_bit 8 sequence), ucast sequence],
                Length = of_int encryptedLength\<rparr>)"

definition NewDataHeader :: "SessionID \<Rightarrow> StreamID \<Rightarrow> u64 \<Rightarrow> int \<Rightarrow> tgp_error + InnerHeader" where
  "NewDataHeader sessionID streamID packetNumber payloadLength =
     (if payloadLength < 0 \<or> payloadLength > 0xffff then Inl ErrInvalidLength
      else Inr \<lparr>Magic = TGP_Magic, Flags = FlagEncrypted, SessionID = sessionID,
                StreamID = streamID, PacketNumber = packetNumber, FECGroup = 0, FECIndex = 0,
                FECTotal = 0, FECDataShards = 0, PayloadLength = of_int payloadLength\<rparr>)"

definition marshalOuterHeader :: "OuterHeader \<Rightarrow> bytes" where
  "marshalOuterHeader h =
     [ContentType h, VersionMajor h, VersionMinor h] @ put_u16 (Epoch h) @ SequenceNum h @
     put_u16 (Length h)"

definition parseOuterHeader :: "bytes \<Rightarrow> tgp_error + OuterHeader" where
  "parseOuterHeader data =
     (if length data < outerHeaderSize then Inl ErrPacketTooShort
      else Inr \<lparr>ContentType = data ! 0, VersionMajor = data ! 1, VersionMinor = data ! 2,
                Epoch = get_u16 (gslice 3 5 data), SequenceNum = gslice 5 11 data,
                Length = get_u16 (gslice 11 13 data)\<rparr>)"

definition marshalInnerHeader :: "InnerHeader \<Rightarrow> bytes" where
  "marshalInnerHeader h =
     Magic h @ [Flags h, 0, 0] @ SessionID h @ put_u16 (StreamID h) @
     put_u64 (PacketNumber h) @ put_u32 (FECGroup h) @
     [FECIndex h, FECTotal h, FECDataShards h, 0] @ put_u16 (PayloadLength h)"

definition parseInnerHeader :: "bytes \<Rightarrow> tgp_error + InnerHeader" where
  "parseInnerHeader data =
     (if length data < innerHeaderSize then Inl ErrPacketTooShort
      else if gslice 0 4 data \<noteq> TGP_Magic then Inl ErrInvalidMagic
      else Inr \<lparr>Magic = gslice 0 4 data, Flags = data ! 4, SessionID = gslice 7 23 data,
                StreamID = get_u16 (gslice 23 25 data),
                PacketNumber = get_u64 (gslice 25 33 data),
                FECGroup = get_u32 (gslice 33 37 data), FECIndex = data ! 37,
                FECTotal = data ! 38, FECDataShards = data ! 39,
                PayloadLength = get_u16 (gslice 41 43 data)\<rparr>)"

definition nonceFromOuter :: "OuterHeader \<Rightarrow> bytes" where
  "nonceFromOuter h =
     put_u16 (Epoch h) @ SequenceNum h @ [ContentType h, VersionMajor h, VersionMinor h, 0]"

section \<open>Sealing and opening\<close>

text \<open>The receiver is a pointer: \<open>None\<close> is the nil codec.\<close>

definition Seal :: "aead \<Rightarrow> Codec option \<Rightarrow> u64 \<Rightarrow> InnerHeader \<Rightarrow> bytes \<Rightarrow> tgp_error + bytes" where
  "Seal A codec sequence inner payload =
     (case codec of
        None \<Rightarrow> Inl ErrNilCodec
      | Some c \<Rightarrow>
          if length payload > 0xffff then Inl ErrInvalidLength
          else
            let wireSize = outerHeaderSize + innerHeaderSize + length payload + aeadOverheadSize
            in if int wireSize > maxDatagramSize c then Inl ErrDatagramTooLarge
               else
                 let inner = inner\<lparr>PayloadLength := of_nat (length payload),
                                   Flags := Flags inner OR FlagEncrypted\<rparr>;
                     plaintext = marshalInnerHeader inner @ payload;
                     encryptedLength = length plaintext + aeadOverheadSize
                 in case NewOuterHeader sequence (int encryptedLength) of
                      Inl e \<Rightarrow> Inl e
                    | Inr outer \<Rightarrow>
                        let outerBytes = marshalOuterHeader outer; nonce = nonceFromOuter outer
                        in Inr (outerBytes @ aead_seal A (codecKey c) nonce plaintext outerBytes))"

definition Open :: "aead \<Rightarrow> Codec option \<Rightarrow> gotime \<Rightarrow> bytes \<Rightarrow> tgp_error + Packet" where
  "Open A codec now wire =
     (case codec of
        None \<Rightarrow> Inl ErrNilCodec
      | Some c \<Rightarrow>
          if int (length wire) > maxDatagramSize c then Inl ErrDatagramTooLarge
          else if length wire < outerHeaderSize + aeadOverheadSize + innerHeaderSize
          then Inl ErrPacketTooShort
          else case parseOuterHeader (gslice 0 outerHeaderSize wire) of
            Inl e \<Rightarrow> Inl e
          | Inr outer \<Rightarrow>
              if unat (Length outer) \<noteq> length wire - outerHeaderSize then Inl ErrInvalidLength
              else case aead_open A (codecKey c) (nonceFromOuter outer)
                          (drop outerHeaderSize wire) (gslice 0 outerHeaderSize wire) of
                None \<Rightarrow> Inl ErrAuthentication
              | Some plaintext \<Rightarrow>
                  if length plaintext < innerHeaderSize then Inl ErrPacketTooShort
                  else case parseInnerHeader (gslice 0 innerHeaderSize plaintext) of
                    Inl e \<Rightarrow> Inl e
                  | Inr inner \<Rightarrow>
                      if unat (PayloadLength inner) \<noteq> length plaintext - innerHeaderSize
                      then Inl ErrInvalidLength
                      else Inr \<lparr>Outer = outer, Inner = inner,
                                Payload = drop innerHeaderSize plaintext,
                                ReceivedAt = now, SourceAddr = None\<rparr>)"

text \<open>The header a sealed datagram carries: the caller's, with length and encryption flag set.\<close>

definition sealedInner :: "InnerHeader \<Rightarrow> bytes \<Rightarrow> InnerHeader" where
  "sealedInner inner payload =
     inner\<lparr>PayloadLength := of_nat (length payload), Flags := Flags inner OR FlagEncrypted\<rparr>"

text \<open>A concrete AEAD that satisfies the laws (an all-zero tag), for closed examples.\<close>

definition demo_aead :: aead where
  "demo_aead = \<lparr>aead_seal = (\<lambda>key nonce plaintext ad. plaintext @ zeros 16),
     aead_open = (\<lambda>key nonce ciphertext ad.
       if 16 \<le> length ciphertext \<and> drop (length ciphertext - 16) ciphertext = zeros 16
       then Some (take (length ciphertext - 16) ciphertext) else None)\<rparr>"

definition demo_codec :: Codec where
  "demo_codec = \<lparr>codecKey = zeros 32, maxDatagramSize = 1352\<rparr>"

lemmas tgp_sizes =
  outerHeaderSize_def innerHeaderSize_def aeadOverheadSize_def MinTGPDatagramSize_def
  DefaultTGPDatagramSize_def MaxTGPDatagramSize_def trafficKeySize_def

lemma maxTGPDataPayloadSize_eq: "maxTGPDataPayloadSize = 1380"
  by (simp add: maxTGPDataPayloadSize_def tgp_sizes)

lemma maxDTLSSequence_eq: "maxDTLSSequence = 281474976710655"
  by (simp add: maxDTLSSequence_def)


section \<open>Header round trips\<close>

lemma length_marshalOuterHeader [simp]:
  "wf_outer h \<Longrightarrow> length (marshalOuterHeader h) = outerHeaderSize"
  by (simp add: marshalOuterHeader_def wf_outer_def outerHeaderSize_def)

lemma length_marshalInnerHeader [simp]:
  "wf_inner h \<Longrightarrow> length (marshalInnerHeader h) = innerHeaderSize"
  by (simp add: marshalInnerHeader_def wf_inner_def innerHeaderSize_def)

lemma parse_marshal_outer: "wf_outer h \<Longrightarrow> parseOuterHeader (marshalOuterHeader h) = Inr h"
  by (simp add: parseOuterHeader_def marshalOuterHeader_def wf_outer_def outerHeaderSize_def
      gslice_def)

lemma parse_marshal_inner:
  "wf_inner h \<Longrightarrow> Magic h = TGP_Magic \<Longrightarrow> parseInnerHeader (marshalInnerHeader h) = Inr h"
  by (simp add: parseInnerHeader_def marshalInnerHeader_def wf_inner_def innerHeaderSize_def
      gslice_def nth_append)

lemma parseOuterHeader_wf: "parseOuterHeader data = Inr h \<Longrightarrow> wf_outer h"
  by (auto simp: parseOuterHeader_def wf_outer_def outerHeaderSize_def split: if_splits)

lemma parseInnerHeader_wf: "parseInnerHeader data = Inr h \<Longrightarrow> wf_inner h \<and> Magic h = TGP_Magic"
  by (auto simp: parseInnerHeader_def wf_inner_def innerHeaderSize_def split: if_splits)

lemma gslice_0_3: "3 \<le> length data \<Longrightarrow> gslice 0 3 data = [data ! 0, data ! 1, data ! 2]"
  by (rule nth_equalityI) (auto simp: gslice_def less_Suc_eq numeral_3_eq_3 numeral_2_eq_2)

lemma marshal_parse_outer:
  assumes "length data = outerHeaderSize" "parseOuterHeader data = Inr h"
  shows "marshalOuterHeader h = data"
proof -
  have len: "length data = 13" using assms(1) by (simp add: outerHeaderSize_def)
  have "marshalOuterHeader h =
      gslice 0 3 data @ gslice 3 5 data @ gslice 5 11 data @ gslice 11 13 data"
    using assms(2) len
    by (auto simp: parseOuterHeader_def marshalOuterHeader_def outerHeaderSize_def gslice_0_3)
  also have "\<dots> = data"
    using len by (simp add: slice_append_slice slice_whole)
  finally show ?thesis .
qed


section \<open>Sealing\<close>

lemma normalizeMaxDatagramSize_Inr:
  "normalizeMaxDatagramSize n = Inr m \<longleftrightarrow>
     (n = 0 \<and> m = DefaultTGPDatagramSize \<or>
      n \<noteq> 0 \<and> m = n \<and> MinTGPDatagramSize \<le> n \<and> n \<le> MaxTGPDatagramSize)"
  by (auto simp: normalizeMaxDatagramSize_def tgp_sizes Let_def)

lemma normalizeMaxDatagramSize_range:
  "normalizeMaxDatagramSize n = Inr m \<Longrightarrow> MinTGPDatagramSize \<le> m \<and> m \<le> MaxTGPDatagramSize"
  by (auto simp: normalizeMaxDatagramSize_Inr tgp_sizes)

lemma NewCodec_wf: "NewCodecWithMaxDatagramSize key n = Inr c \<Longrightarrow> wf_codec c"
  by (auto simp: NewCodecWithMaxDatagramSize_def wf_codec_def
      dest!: normalizeMaxDatagramSize_range split: sum.splits if_splits)

lemma wf_sealedInner [simp]: "wf_inner (sealedInner inner payload) \<longleftrightarrow> wf_inner inner"
  by (simp add: wf_inner_def sealedInner_def)

lemma NewOuterHeader_seq:
  "NewOuterHeader s n = Inr h \<Longrightarrow>
     SequenceNum h = be_bytes 6 s \<and> wf_outer h \<and> unat (Length h) = nat n \<and> s \<le> maxDTLSSequence"
proof -
  assume h: "NewOuterHeader s n = Inr h"
  then have n: "0 \<le> n" "n \<le> 0xffff" and s: "s \<le> maxDTLSSequence"
    by (auto simp: NewOuterHeader_def split: if_splits)
  have "unat (of_int n :: u16) = nat n"
    using n by (simp add: unsigned_of_int take_bit_int_eq_self)
  with h s show ?thesis
    by (auto simp: NewOuterHeader_def wf_outer_def eval_nat_numeral drop_bit_drop_bit
        split: if_splits)
qed

lemma length_nonce: "NewOuterHeader s n = Inr h \<Longrightarrow> length (nonceFromOuter h) = 12"
  using NewOuterHeader_seq [of s n h] by (simp add: nonceFromOuter_def wf_outer_def)

text \<open>The complete behaviour of \<^const>\<open>Seal\<close> on a constructed codec, one line per branch.\<close>

lemma Seal_cases:
  assumes c: "wf_codec c" and i: "wf_inner inner"
  shows "Seal A (Some c) s inner payload =
    (if length payload > 0xffff then Inl ErrInvalidLength
     else if int (length payload + 72) > maxDatagramSize c then Inl ErrDatagramTooLarge
     else case NewOuterHeader s (int (length payload + 59)) of
       Inl e \<Rightarrow> Inl e
     | Inr outer \<Rightarrow> Inr (marshalOuterHeader outer @
         aead_seal A (codecKey c) (nonceFromOuter outer)
           (marshalInnerHeader (sealedInner inner payload) @ payload)
           (marshalOuterHeader outer)))"
proof -
  have "length (marshalInnerHeader (sealedInner inner payload)) = 43"
    using i by (simp add: innerHeaderSize_def)
  moreover have "int (outerHeaderSize + innerHeaderSize + length payload + aeadOverheadSize)
      = int (length payload + 72)"
    by (simp add: tgp_sizes)
  ultimately show ?thesis
    by (simp add: Seal_def Let_def sealedInner_def [symmetric] aeadOverheadSize_def add.commute
        split: sum.splits)
qed

lemma NewOuterHeader_ok:
  "s \<le> maxDTLSSequence \<Longrightarrow> 0 \<le> n \<Longrightarrow> n \<le> 0xffff \<Longrightarrow> \<exists>h. NewOuterHeader s n = Inr h"
  by (simp add: NewOuterHeader_def)

text \<open>Within its limit a codec can seal exactly the first \<open>2^48\<close> sequence numbers.\<close>

lemma Seal_defined_iff:
  assumes c: "wf_codec c" and i: "wf_inner inner"
  shows "(\<exists>w. Seal A (Some c) s inner payload = Inr w) \<longleftrightarrow>
     int (length payload + 72) \<le> maxDatagramSize c \<and> s \<le> maxDTLSSequence"
proof (cases "int (length payload + 72) \<le> maxDatagramSize c")
  case True
  then have "length payload \<le> 1380" using c by (simp add: wf_codec_def tgp_sizes)
  then show ?thesis using True NewOuterHeader_ok [of s "int (length payload + 59)"]
      NewOuterHeader_seq [of s "int (length payload + 59)"]
    by (auto simp: Seal_cases [OF c i] split: sum.splits)
next
  case False
  then show ?thesis by (simp add: Seal_cases [OF c i])
qed

lemma Seal_InrE:
  assumes c: "wf_codec c" and i: "wf_inner inner"
    and s: "Seal A (Some c) s inner payload = Inr w"
  obtains outer where "NewOuterHeader s (int (length payload + 59)) = Inr outer"
    "length payload \<le> 0xffff" "int (length payload + 72) \<le> maxDatagramSize c"
    "w = marshalOuterHeader outer @ aead_seal A (codecKey c) (nonceFromOuter outer)
           (marshalInnerHeader (sealedInner inner payload) @ payload) (marshalOuterHeader outer)"
  using s that unfolding Seal_cases [OF c i] by (auto split: if_splits sum.splits)

lemma Seal_length:
  assumes A: "aead_laws A" and c: "wf_codec c" and i: "wf_inner inner"
    and s: "Seal A (Some c) s inner payload = Inr w"
  shows "length w = length payload + 72 \<and> int (length w) \<le> maxDatagramSize c"
proof -
  obtain outer where o: "NewOuterHeader s (int (length payload + 59)) = Inr outer"
    and b: "int (length payload + 72) \<le> maxDatagramSize c"
    and w: "w = marshalOuterHeader outer @ aead_seal A (codecKey c) (nonceFromOuter outer)
           (marshalInnerHeader (sealedInner inner payload) @ payload) (marshalOuterHeader outer)"
    by (rule Seal_InrE [OF c i s])
  show ?thesis
    using NewOuterHeader_seq [OF o] length_nonce [OF o] A c i b by (simp add: w aead_laws_def wf_codec_def tgp_sizes)
qed

section \<open>Opening what was sealed\<close>

lemma Open_sealed:
  assumes A: "aead_laws A" and c: "wf_codec c"
    and i: "wf_inner inner" and m: "Magic inner = TGP_Magic"
    and s: "Seal A (Some c) s inner payload = Inr w"
  shows "\<exists>outer. NewOuterHeader s (int (length payload + 59)) = Inr outer \<and>
    Open A (Some c) now w = Inr \<lparr>Outer = outer, Inner = sealedInner inner payload,
      Payload = payload, ReceivedAt = now, SourceAddr = None\<rparr>"
proof -
  obtain outer where o: "NewOuterHeader s (int (length payload + 59)) = Inr outer"
    and p: "length payload \<le> 0xffff"
    and w: "w = marshalOuterHeader outer @ aead_seal A (codecKey c) (nonceFromOuter outer)
           (marshalInnerHeader (sealedInner inner payload) @ payload) (marshalOuterHeader outer)"
    by (rule Seal_InrE [OF c i s])
  let ?h = "sealedInner inner payload"
  have wo: "wf_outer outer" and lo: "unat (Length outer) = length payload + 59"
    using NewOuterHeader_seq [OF o] by auto
  have lw: "length w = length payload + 72" "int (length w) \<le> maxDatagramSize c"
    using Seal_length [OF A c i s] by auto
  have hd: "gslice 0 outerHeaderSize w = marshalOuterHeader outer"
      "drop outerHeaderSize w = aead_seal A (codecKey c) (nonceFromOuter outer)
         (marshalInnerHeader ?h @ payload) (marshalOuterHeader outer)"
    using wo by (simp_all add: w gslice_def)
  have pl: "unat (PayloadLength ?h) = length payload"
    using p by (simp add: sealedInner_def unat_of_nat_u16)
  have inn: "parseInnerHeader (marshalInnerHeader ?h) = Inr ?h"
    using i m by (intro parse_marshal_inner) (auto simp: sealedInner_def wf_inner_def)
  have ih: "gslice 0 innerHeaderSize (marshalInnerHeader ?h @ payload) = marshalInnerHeader ?h"
      "drop innerHeaderSize (marshalInnerHeader ?h @ payload) = payload"
      "length (marshalInnerHeader ?h @ payload) = innerHeaderSize + length payload"
    using i by (simp_all add: gslice_def)
  have op: "aead_open A (codecKey c) (nonceFromOuter outer)
      (drop outerHeaderSize w) (gslice 0 outerHeaderSize w) =
      Some (marshalInnerHeader ?h @ payload)"
    using A c length_nonce [OF o] unfolding hd by (simp add: aead_laws_def wf_codec_def trafficKeySize_def)
  have par: "parseOuterHeader (gslice 0 outerHeaderSize w) = Inr outer"
    using wo by (simp add: hd(1) parse_marshal_outer)
  have g: "\<not> maxDatagramSize c < int (length w)"
      "\<not> length w < outerHeaderSize + aeadOverheadSize + innerHeaderSize"
      "unat (Length outer) = length w - outerHeaderSize"
    using lw lo by (simp_all add: tgp_sizes)
  have "Open A (Some c) now w = Inr \<lparr>Outer = outer, Inner = ?h,
      Payload = payload, ReceivedAt = now, SourceAddr = None\<rparr>"
    using i by (simp add: Open_def op par g ih inn pl del: length_append)
  with o show ?thesis by blast
qed

section \<open>Nonces\<close>

lemma nonce_determines_sequence:
  assumes h: "NewOuterHeader s n = Inr h" and h': "NewOuterHeader s' n' = Inr h'"
    and eq: "nonceFromOuter h = nonceFromOuter h'"
  shows "s = s'"
proof -
  have "SequenceNum h = SequenceNum h'"
    using eq NewOuterHeader_seq [OF h] NewOuterHeader_seq [OF h']
    by (simp add: nonceFromOuter_def wf_outer_def)
  then have "be_bytes 6 s = be_bytes 6 s'"
    using NewOuterHeader_seq [OF h] NewOuterHeader_seq [OF h'] by simp
  then have "take_bit 48 s = take_bit 48 s'"
    using be_word_be_bytes_take [of 6 s] be_word_be_bytes_take [of 6 s'] by simp
  moreover have "take_bit 48 t = t" if "t \<le> maxDTLSSequence" for t :: u64
  proof -
    have "unat t < 2 ^ 48"
      using that by (simp add: maxDTLSSequence_eq word_le_nat_alt)
    then show ?thesis
      by (simp add: word_unat_eq_iff unsigned_take_bit_eq take_bit_nat_eq_self)
  qed
  ultimately show ?thesis using NewOuterHeader_seq [OF h] NewOuterHeader_seq [OF h'] by simp
qed


section \<open>The codec as an interface\<close>

interpretation outer_format: canonical_format
  "\<lambda>h. Inr (marshalOuterHeader h) :: tgp_error + bytes"
  "\<lambda>data. if length data = outerHeaderSize then parseOuterHeader data else Inl ErrPacketTooShort"
  wf_outer
  by unfold_locales
    (auto simp: parse_marshal_outer marshal_parse_outer parseOuterHeader_wf split: if_splits)

interpretation inner_format: wire_format
  "\<lambda>h. Inr (marshalInnerHeader h) :: tgp_error + bytes" parseInnerHeader
  "\<lambda>h. wf_inner h \<and> Magic h = TGP_Magic"
  by unfold_locales (auto simp: parse_marshal_inner)

lemma demo_aead_laws: "aead_laws demo_aead"
  by (simp add: aead_laws_def demo_aead_def aeadOverheadSize_def)

lemma demo_codec_wf: "wf_codec demo_codec"
  by (simp add: wf_codec_def demo_codec_def tgp_sizes)

section \<open>Properties\<close>

text \<open>
  Round trip of the packet codec. Whatever a constructed codec seals under an AEAD that
  keeps its laws, the same codec opens: the payload comes back unchanged and the header comes
  back as the caller gave it, with its length field and the encryption flag set by the codec.
\<close>

theorem open_seal_roundtrip:
  assumes "aead_laws A" and "NewCodecWithMaxDatagramSize key limit = Inr c"
    and "wf_inner inner" and "Magic inner = TGP_Magic"
    and "Seal A (Some c) s inner payload = Inr wire"
  shows "\<exists>p. Open A (Some c) now wire = Inr p \<and> Payload p = payload \<and>
      Inner p = inner\<lparr>PayloadLength := of_nat (length payload), Flags := Flags inner OR FlagEncrypted\<rparr>"
  using Open_sealed [OF assms(1) NewCodec_wf [OF assms(2)] assms(3,4,5), of now]
  by (auto simp: sealedInner_def)

theorem open_seal_roundtrip_witness:
  "\<exists>wire p. Seal demo_aead (Some demo_codec) 7 (\<lparr>Magic = TGP_Magic, Flags = 0,
       SessionID = zeros 16, StreamID = 3, PacketNumber = 7, FECGroup = 1, FECIndex = 0,
       FECTotal = 3, FECDataShards = 2, PayloadLength = 0\<rparr>) [1, 2, 3] = Inr wire \<and>
     Open demo_aead (Some demo_codec) 0 wire = Inr p \<and> Payload p = [1, 2, 3]"
proof -
  let ?h = "\<lparr>Magic = TGP_Magic, Flags = 0, SessionID = zeros 16, StreamID = 3, PacketNumber = 7,
    FECGroup = 1, FECIndex = 0, FECTotal = 3, FECDataShards = 2, PayloadLength = 0\<rparr>"
  have n: "NewCodecWithMaxDatagramSize (zeros 32) 0 = Inr demo_codec"
    by (simp add: NewCodecWithMaxDatagramSize_def normalizeMaxDatagramSize_def demo_codec_def
        tgp_sizes)
  have h: "wf_inner ?h" "Magic ?h = TGP_Magic" by (simp_all add: wf_inner_def)
  have "\<exists>w. Seal demo_aead (Some demo_codec) 7 ?h [1, 2, 3] = Inr w"
    unfolding Seal_defined_iff [OF demo_codec_wf h(1)]
    by (simp add: demo_codec_def maxDTLSSequence_eq)
  then obtain w where w: "Seal demo_aead (Some demo_codec) 7 ?h [1, 2, 3] = Inr w" by blast
  from open_seal_roundtrip [OF demo_aead_laws n h w, of 0] w show ?thesis by blast
qed

text \<open>
  Exact domain and size of sealing. On a constructed codec, sealing succeeds for exactly the
  payloads whose wire size (payload plus 72 bytes of headers and tag) is within the codec's
  limit and for exactly the sequence numbers below \<open>2^48\<close>; the datagram then has that wire
  size, so it never exceeds the limit.
\<close>

theorem seal_domain_and_size:
  assumes "aead_laws A" and "NewCodecWithMaxDatagramSize key limit = Inr c" and "wf_inner inner"
  shows "((\<exists>w. Seal A (Some c) s inner payload = Inr w) \<longleftrightarrow>
       int (length payload + 72) \<le> maxDatagramSize c \<and> unat s < 2 ^ 48) \<and>
     (\<forall>w. Seal A (Some c) s inner payload = Inr w \<longrightarrow>
       length w = length payload + 72 \<and> int (length w) \<le> maxDatagramSize c)"
proof -
  have c: "wf_codec c" by (rule NewCodec_wf [OF assms(2)])
  have "s \<le> maxDTLSSequence \<longleftrightarrow> unat s < 2 ^ 48"
    by (auto simp: maxDTLSSequence_eq word_le_nat_alt)
  then show ?thesis
    using Seal_defined_iff [OF c assms(3)] Seal_length [OF assms(1) c assms(3)] by auto
qed

theorem seal_domain_and_size_witness:
  "\<exists>w. Seal demo_aead (Some demo_codec) 1 (\<lparr>Magic = TGP_Magic, Flags = 0, SessionID = zeros 16,
     StreamID = 0, PacketNumber = 1, FECGroup = 0, FECIndex = 0, FECTotal = 0, FECDataShards = 0,
     PayloadLength = 0\<rparr>) (zeros 1280) = Inr w \<and> length w = 1352"
proof -
  let ?h = "\<lparr>Magic = TGP_Magic, Flags = 0, SessionID = zeros 16, StreamID = 0, PacketNumber = 1,
    FECGroup = 0, FECIndex = 0, FECTotal = 0, FECDataShards = 0, PayloadLength = 0\<rparr>"
  have n: "NewCodecWithMaxDatagramSize (zeros 32) 0 = Inr demo_codec"
    by (simp add: NewCodecWithMaxDatagramSize_def normalizeMaxDatagramSize_def demo_codec_def
        tgp_sizes)
  have h: "wf_inner ?h" by (simp add: wf_inner_def)
  show ?thesis
    using seal_domain_and_size [OF demo_aead_laws n h, of 1 "zeros 1280"]
    by (auto simp: demo_codec_def)
qed

end
