(* ===== verification/Crypto.thy ===== *)
theory Crypto
  imports Codec
begin

text \<open>
  Key pairs and traffic keys (\<open>internal/tgp/crypto.go\<close>). The primitives of Go's \<open>crypto\<close> packages
  (X25519, HKDF-SHA256, HMAC-SHA256, SHA-256) are the fields of the record \<open>crypto\<close>, so every
  theorem holds for whatever functions they compute; \<open>crypto_laws\<close> is what the code relies on:
  output lengths, and that both ends of a Diffie-Hellman exchange compute the same secret.
\<close>

record crypto =
  x25519_public :: "bytes \<Rightarrow> bytes"
  x25519_ecdh :: "bytes \<Rightarrow> bytes \<Rightarrow> bytes option"
  hkdf_key :: "bytes \<Rightarrow> bytes \<Rightarrow> bytes \<Rightarrow> nat \<Rightarrow> bytes option"
  hmac_sha256 :: "bytes \<Rightarrow> bytes \<Rightarrow> bytes"
  sha256_sum :: "bytes \<Rightarrow> bytes"

definition crypto_laws :: "crypto \<Rightarrow> bool" where
  "crypto_laws C \<longleftrightarrow>
     (\<forall>k. length (x25519_public C k) = 32) \<and>
     (\<forall>a b. x25519_ecdh C a (x25519_public C b) = x25519_ecdh C b (x25519_public C a)) \<and>
     (\<forall>secret salt info n okm. hkdf_key C secret salt info n = Some okm \<longrightarrow> length okm = n) \<and>
     (\<forall>k m. length (hmac_sha256 C k m) = 32) \<and> (\<forall>m. length (sha256_sum C m) = 32)"

text \<open>\<open>[]byte(s)\<close> of a string.\<close>

definition str_bytes :: "string \<Rightarrow> bytes" where
  "str_bytes s = map (\<lambda>c. of_nat (of_char c)) s"

definition publicKeySize :: nat where "publicKeySize = 32"

text \<open>A role is a \<open>uint8\<close>: 1 is the client, 2 the server.\<close>

definition RoleClient :: byte where "RoleClient = 1"
definition RoleServer :: byte where "RoleServer = 2"

text \<open>A key pair is the private key; \<open>None\<close> is the nil pointer.\<close>

type_synonym KeyPair = "bytes option"

record TrafficKeys =
  SendKey :: bytes
  RecvKey :: bytes

definition KeyPair_PublicKey :: "crypto \<Rightarrow> KeyPair \<Rightarrow> bytes" where
  "KeyPair_PublicKey C k =
     (case k of None \<Rightarrow> zeros publicKeySize | Some private \<Rightarrow> x25519_public C private)"

definition trafficKeySalt :: "crypto \<Rightarrow> bytes \<Rightarrow> bytes \<Rightarrow> bytes" where
  "trafficKeySalt C sessionID authKey =
     (if authKey = [] then sessionID else sha256_sum C (sessionID @ authKey))"

definition DeriveTrafficKeysWithAuth ::
  "crypto \<Rightarrow> KeyPair \<Rightarrow> bytes \<Rightarrow> SessionID \<Rightarrow> byte \<Rightarrow> bytes \<Rightarrow> tgp_error + TrafficKeys" where
  "DeriveTrafficKeysWithAuth C k peer sessionID role authKey =
     (case k of
        None \<Rightarrow> Inl ErrNilKeyPair
      | Some private \<Rightarrow>
          if length peer \<noteq> publicKeySize then Inl ErrInvalidPublicKey
          else case x25519_ecdh C private peer of
            None \<Rightarrow> Inl ErrECDH
          | Some shared \<Rightarrow>
              (case hkdf_key C shared (trafficKeySalt C sessionID authKey)
                      (str_bytes ''tachyon-tgp-v1 traffic keys'') (trafficKeySize * 2) of
                 None \<Rightarrow> Inl ErrHKDF
               | Some okm \<Rightarrow>
                   let clientToServer = take trafficKeySize okm;
                       serverToClient = drop trafficKeySize okm
                   in if role = RoleClient
                      then Inr \<lparr>SendKey = clientToServer, RecvKey = serverToClient\<rparr>
                      else if role = RoleServer
                      then Inr \<lparr>SendKey = serverToClient, RecvKey = clientToServer\<rparr>
                      else Inl ErrInvalidRole))"

definition DeriveTrafficKeys ::
  "crypto \<Rightarrow> KeyPair \<Rightarrow> bytes \<Rightarrow> SessionID \<Rightarrow> byte \<Rightarrow> tgp_error + TrafficKeys" where
  "DeriveTrafficKeys C k peer sessionID role = DeriveTrafficKeysWithAuth C k peer sessionID role []"

text \<open>A concrete instance of the laws, for closed examples: it hides nothing.\<close>

definition demo_crypto :: crypto where
  "demo_crypto = \<lparr>x25519_public = (\<lambda>k. take 32 (k @ zeros 32)),
     x25519_ecdh = (\<lambda>a p. Some (map2 (\<lambda>x y. x XOR y) (take 32 (a @ zeros 32)) p)),
     hkdf_key = (\<lambda>secret salt info n. Some (take n (secret @ salt @ zeros n))),
     hmac_sha256 = (\<lambda>k m. take 32 (k @ zeros 32)),
     sha256_sum = (\<lambda>m. take 32 (m @ zeros 32))\<rparr>"

lemma demo_crypto_laws: "crypto_laws demo_crypto"
proof -
  have "map2 (XOR) xs ys = map2 (XOR) ys (xs :: bytes)" for xs ys
    by (subst zip_commute) (auto simp: xor.commute intro: map_cong)
  then show ?thesis by (auto simp: crypto_laws_def demo_crypto_def)
qed

lemma crypto_lengths:
  assumes "crypto_laws C"
  shows "length (x25519_public C k) = 32" "length (hmac_sha256 C key m) = 32"
  using assms by (auto simp: crypto_laws_def)

lemma role_values [simp]: "RoleClient = 1" "RoleServer = 2"
  by (simp_all add: RoleClient_def RoleServer_def)

lemma derived_lengths:
  assumes "crypto_laws C" "DeriveTrafficKeysWithAuth C k peer sid role auth = Inr keys"
  shows "length (SendKey keys) = trafficKeySize \<and> length (RecvKey keys) = trafficKeySize"
proof -
  have l: "hkdf_key C a b c n = Some okm \<Longrightarrow> length okm = n" for a b c n okm
    using assms(1) by (auto simp: crypto_laws_def)
  show ?thesis
    using assms(2)
    by (auto simp: DeriveTrafficKeysWithAuth_def trafficKeySize_def Let_def
        split: option.splits if_splits dest!: l)
qed

lemma derive_mirror:
  assumes "crypto_laws C"
  shows "DeriveTrafficKeysWithAuth C (Some a) (KeyPair_PublicKey C (Some b)) sid RoleClient auth =
      Inr \<lparr>SendKey = k, RecvKey = k'\<rparr> \<longleftrightarrow>
    DeriveTrafficKeysWithAuth C (Some b) (KeyPair_PublicKey C (Some a)) sid RoleServer auth =
      Inr \<lparr>SendKey = k', RecvKey = k\<rparr>"
proof -
  have "x25519_ecdh C a (x25519_public C b) = x25519_ecdh C b (x25519_public C a)"
    using assms by (auto simp: crypto_laws_def)
  then show ?thesis using crypto_lengths(1) [OF assms]
    by (auto simp: DeriveTrafficKeysWithAuth_def KeyPair_PublicKey_def publicKeySize_def Let_def
        split: option.splits)
qed

text \<open>
  Key agreement. Two ends that derive from each other's public keys, with the same session id
  and the same authentication key, one as the client and one as the server, get mirrored keys:
  what one sends with, the other receives with. And if one end can derive keys, so can the other.
\<close>

theorem traffic_keys_agree:
  assumes "crypto_laws C"
  shows "DeriveTrafficKeysWithAuth C (Some a) (KeyPair_PublicKey C (Some b)) sid RoleClient auth =
      Inr \<lparr>SendKey = k, RecvKey = k'\<rparr> \<longleftrightarrow>
    DeriveTrafficKeysWithAuth C (Some b) (KeyPair_PublicKey C (Some a)) sid RoleServer auth =
      Inr \<lparr>SendKey = k', RecvKey = k\<rparr>"
  by (rule derive_mirror [OF assms])

theorem traffic_keys_agree_witness:
  "DeriveTrafficKeysWithAuth demo_crypto (Some (replicate 32 5))
      (KeyPair_PublicKey demo_crypto (Some (replicate 32 6))) (zeros 16) RoleServer [] =
    Inr \<lparr>SendKey = zeros 32, RecvKey = replicate 32 3\<rparr>"
proof -
  have "DeriveTrafficKeysWithAuth demo_crypto (Some (replicate 32 6))
      (KeyPair_PublicKey demo_crypto (Some (replicate 32 5))) (zeros 16) RoleClient [] =
    Inr \<lparr>SendKey = replicate 32 3, RecvKey = zeros 32\<rparr>" by code_simp
  then show ?thesis unfolding traffic_keys_agree [OF demo_crypto_laws] .
qed

end
