(* ===== verification/PathControl.thy ===== *)
theory PathControl
  imports Crypto
begin

text \<open>
  Path control (\<open>internal/tgp/path_control.go\<close>): the authenticated request, challenge and response
  that prove a new network path of a session, and the stateless cookie in a challenge.
\<close>

section \<open>Definitions\<close>

definition pathControlNonceSize :: nat where "pathControlNonceSize = 16"
definition pathControlTagSize :: nat where "pathControlTagSize = 32"
definition pathRequestSize :: nat where
  "pathRequestSize = 4 + 1 + 16 + pathControlNonceSize + pathControlTagSize"
definition pathChallengeSize :: nat where "pathChallengeSize = pathRequestSize + pathControlNonceSize"
definition pathRequestLifetime :: duration where "pathRequestLifetime = 10 * time_Second"
definition pathControlMagic :: bytes where "pathControlMagic = [0x54, 0x47, 0x50, 0x02]"

definition pathControlRequest :: byte where "pathControlRequest = 1"
definition pathControlChallenge :: byte where "pathControlChallenge = 2"
definition pathControlResponse :: byte where "pathControlResponse = 3"

lemmas path_consts = pathControlNonceSize_def pathControlTagSize_def pathRequestSize_def
  pathChallengeSize_def pathRequestLifetime_def pathControlMagic_def pathControlRequest_def
  pathControlChallenge_def pathControlResponse_def

record pathControlMessage =
  pcType :: byte
  pcSession :: SessionID
  pcClientNonce :: bytes
  pcServerNonce :: bytes
  pcTag :: bytes

text \<open>\<open>sourceAddrKey\<close> (relay.go): a source address as a map key.\<close>

record sourceAddrKey =
  srcNetwork :: string
  srcAddress :: string

definition derivePathAuthKey :: "crypto \<Rightarrow> bytes \<Rightarrow> SessionID \<Rightarrow> bytes" where
  "derivePathAuthKey C clientToServer sessionID =
     hmac_sha256 C clientToServer (str_bytes ''tachyon-tgp-v1 path authentication'' @ sessionID)"

text \<open>\<open>t.Unix()\<close>: whole seconds since the epoch.\<close>

definition unixSeconds :: "gotime \<Rightarrow> int" where
  "unixSeconds t = t div time_Second"

text \<open>\<open>random\<close> is what \<open>rand.Read\<close> delivers for the second half.\<close>

definition newPathRequestNonce :: "gotime \<Rightarrow> bytes \<Rightarrow> bytes" where
  "newPathRequestNonce now random = put_u64 (of_int (unixSeconds now)) @ random"

text \<open>The time check of a request nonce and of a cookie: not beyond one second ahead, not older
  than \<open>maxAge\<close>, and no second count that an \<open>int64\<close> cannot hold.\<close>

definition issuedRecently :: "bytes \<Rightarrow> gotime \<Rightarrow> duration \<Rightarrow> bool" where
  "issuedRecently issued now maxAge =
     (let issuedUnix = get_u64 issued; issuedAt = uint issuedUnix * time_Second
      in if issuedUnix > 0x7fffffffffffffff then False
         else \<not> issuedAt > now + time_Second \<and> now - issuedAt \<le> maxAge)"

definition verifyPathRequestTime :: "bytes \<Rightarrow> gotime \<Rightarrow> duration \<Rightarrow> bool" where
  "verifyPathRequestTime nonce now maxAge = issuedRecently (gslice 0 8 nonce) now maxAge"

definition pathCookieTag :: "crypto \<Rightarrow> bytes \<Rightarrow> SessionID \<Rightarrow> sourceAddrKey \<Rightarrow> bytes \<Rightarrow> bytes \<Rightarrow> bytes" where
  "pathCookieTag C key sessionID source clientNonce issued =
     hmac_sha256 C key (str_bytes ''tachyon-tgp-v1 path cookie'' @ sessionID @ clientNonce @ issued @
       str_bytes (srcNetwork source) @ [0] @ str_bytes (srcAddress source))"

definition newPathCookie :: "crypto \<Rightarrow> bytes \<Rightarrow> SessionID \<Rightarrow> sourceAddrKey \<Rightarrow> bytes \<Rightarrow> gotime \<Rightarrow> bytes" where
  "newPathCookie C key sessionID source clientNonce issuedAt =
     (let issued = put_u64 (of_int (unixSeconds issuedAt))
      in issued @ take 8 (pathCookieTag C key sessionID source clientNonce issued))"

definition verifyPathCookie ::
  "crypto \<Rightarrow> bytes \<Rightarrow> bytes \<Rightarrow> SessionID \<Rightarrow> sourceAddrKey \<Rightarrow> bytes \<Rightarrow> gotime \<Rightarrow> duration \<Rightarrow> bool" where
  "verifyPathCookie C cookie key sessionID source clientNonce now maxAge =
     (if \<not> issuedRecently (gslice 0 8 cookie) now maxAge then False
      else drop 8 cookie = take 8 (pathCookieTag C key sessionID source clientNonce (gslice 0 8 cookie)))"

definition pathControlTag :: "crypto \<Rightarrow> bytes \<Rightarrow> bytes \<Rightarrow> bytes" where
  "pathControlTag C key body = hmac_sha256 C key body"

definition pathTypeValid :: "byte \<Rightarrow> bool" where
  "pathTypeValid t \<longleftrightarrow> t = pathControlRequest \<or> t = pathControlChallenge \<or> t = pathControlResponse"

definition marshalPathControl ::
  "crypto \<Rightarrow> byte \<Rightarrow> SessionID \<Rightarrow> bytes \<Rightarrow> bytes \<Rightarrow> bytes \<Rightarrow> tgp_error + bytes" where
  "marshalPathControl C msgType sessionID clientNonce serverNonce key =
     (if \<not> pathTypeValid msgType then Inl ErrInvalidPathControl
      else
        let body = pathControlMagic @ [msgType] @ sessionID @ clientNonce @
                   (if msgType \<noteq> pathControlRequest then serverNonce else [])
        in Inr (body @ pathControlTag C key body))"

definition parsePathControl :: "bytes \<Rightarrow> tgp_error + pathControlMessage" where
  "parsePathControl wire =
     (if length wire \<noteq> pathRequestSize \<and> length wire \<noteq> pathChallengeSize
      then Inl ErrInvalidPathControl
      else if gslice 0 4 wire \<noteq> pathControlMagic then Inl ErrInvalidPathControl
      else
        let msgType = wire ! 4
        in if \<not> pathTypeValid msgType then Inl ErrInvalidPathControl
           else if msgType = pathControlRequest \<and> length wire \<noteq> pathRequestSize
           then Inl ErrInvalidPathControl
           else if msgType \<noteq> pathControlRequest \<and> length wire \<noteq> pathChallengeSize
           then Inl ErrInvalidPathControl
           else
             let tagAt = (if msgType \<noteq> pathControlRequest then 53 else 37)
             in Inr \<lparr>pcType = msgType, pcSession = gslice 5 21 wire,
                     pcClientNonce = gslice 21 37 wire,
                     pcServerNonce = (if msgType \<noteq> pathControlRequest then gslice 37 53 wire
                                      else zeros pathControlNonceSize),
                     pcTag = drop tagAt wire\<rparr>)"

definition verifyPathControl :: "crypto \<Rightarrow> pathControlMessage \<Rightarrow> bytes \<Rightarrow> bool" where
  "verifyPathControl C msg key =
     (case marshalPathControl C (pcType msg) (pcSession msg) (pcClientNonce msg) (pcServerNonce msg) key of
        Inl _ \<Rightarrow> False
      | Inr wire \<Rightarrow> pcTag msg = drop (length wire - pathControlTagSize) wire)"

section \<open>Exactness\<close>

text \<open>The messages of the Go types: array lengths, and no server nonce in a request.\<close>

definition wf_path :: "pathControlMessage \<Rightarrow> bool" where
  "wf_path m \<longleftrightarrow> pathTypeValid (pcType m) \<and> length (pcSession m) = 16 \<and>
     length (pcClientNonce m) = 16 \<and> length (pcServerNonce m) = 16 \<and>
     (pcType m = pathControlRequest \<longrightarrow> pcServerNonce m = zeros 16) \<and> length (pcTag m) = 32"

text \<open>Printing a message with the tag it carries, whatever key made it.\<close>

definition pathWire :: "pathControlMessage \<Rightarrow> tgp_error + bytes" where
  "pathWire m = Inr (pathControlMagic @ [pcType m] @ pcSession m @ pcClientNonce m @
     (if pcType m \<noteq> pathControlRequest then pcServerNonce m else []) @ pcTag m)"

lemma parse_pathWire: "wf_path m \<Longrightarrow> pathWire m = Inr w \<Longrightarrow> parsePathControl w = Inr m"
  by (auto simp: wf_path_def pathWire_def parsePathControl_def Let_def path_consts pathTypeValid_def
      gslice_def nth_append)

lemma parsePathControl_wf: "parsePathControl w = Inr m \<Longrightarrow> wf_path m"
  by (auto simp: wf_path_def parsePathControl_def Let_def path_consts pathTypeValid_def
      split: if_splits)

lemma pathWire_parse:
  assumes "parsePathControl w = Inr m"
  shows "pathWire m = Inr w"
proof -
  have l: "length w = 69 \<or> length w = 85" and magic: "gslice 0 4 w = pathControlMagic"
    and ty: "pcType m = w ! 4" and r: "pcType m = pathControlRequest \<longleftrightarrow> length w = 69"
    and f: "pcSession m = gslice 5 21 w" "pcClientNonce m = gslice 21 37 w"
      "pcType m \<noteq> pathControlRequest \<Longrightarrow> pcServerNonce m = gslice 37 53 w"
      "pcTag m = drop (if pcType m = pathControlRequest then 37 else 53) w"
    using assms by (auto simp: parsePathControl_def Let_def path_consts pathTypeValid_def split: if_splits)
  have t: "[pcType m] = gslice 4 5 w" using l gslice_single [of 4 w] by (auto simp: ty)
  have "gslice 0 4 w @ gslice 4 5 w @ gslice 5 21 w @ gslice 21 37 w @ drop 37 w = w"
    by (simp add: slice_to_drop)
  moreover have "gslice 37 53 w @ drop 53 w = drop 37 w" by (simp add: slice_to_drop)
  ultimately show ?thesis by (auto simp: pathWire_def magic [symmetric] t f)
qed

interpretation path_format: canonical_format pathWire parsePathControl wf_path
  by unfold_locales (auto intro: parse_pathWire parsePathControl_wf pathWire_parse)

text \<open>
  Path control is authenticated exactly. A datagram parses and passes the tag check under a key
  if and only if it is what \<open>marshalPathControl\<close> makes, under that key, of the message's fields. So a
  forged or altered message passes only with a forged tag, and nothing the peer sends is refused.
\<close>

theorem path_control_exact:
  assumes "crypto_laws C"
  shows "(\<exists>m. parsePathControl w = Inr m \<and> verifyPathControl C m key \<and> pcType m = ty \<and>
      pcSession m = sid \<and> pcClientNonce m = cn \<and> (ty \<noteq> pathControlRequest \<longrightarrow> pcServerNonce m = sn)) \<longleftrightarrow>
    length sid = 16 \<and> length cn = 16 \<and> (ty \<noteq> pathControlRequest \<longrightarrow> length sn = 16) \<and>
    marshalPathControl C ty sid cn sn key = Inr w"
    (is "?L \<longleftrightarrow> ?R")
proof
  have hl: "length (hmac_sha256 C k b) = 32" for k b using crypto_lengths [OF assms] by simp
  note defs = marshalPathControl_def verifyPathControl_def pathControlTag_def path_consts Let_def
  show ?R if l: ?L
  proof -
    obtain m where m: "parsePathControl w = Inr m" "verifyPathControl C m key" "pcType m = ty"
      "pcSession m = sid" "pcClientNonce m = cn" "ty \<noteq> pathControlRequest \<longrightarrow> pcServerNonce m = sn"
      using l by blast
    have wf: "wf_path m" and w: "pathWire m = Inr w" using m(1) path_format.dec_iff by auto
    have "pathTypeValid ty" using wf m by (simp add: wf_path_def)
    then show ?R using wf w m(2-) hl by (auto simp: defs pathWire_def wf_path_def split: if_splits)
  qed
  show ?L if r: ?R
  proof -
    have ty: "pathTypeValid ty" using r by (auto simp: marshalPathControl_def split: if_splits)
    let ?b = "pathControlMagic @ [ty] @ sid @ cn @ (if ty \<noteq> pathControlRequest then sn else [])"
    let ?m = "\<lparr>pcType = ty, pcSession = sid, pcClientNonce = cn,
      pcServerNonce = (if ty \<noteq> pathControlRequest then sn else zeros 16), pcTag = pathControlTag C key ?b\<rparr>"
    have wf: "wf_path ?m" using r ty hl by (auto simp: wf_path_def pathControlTag_def)
    have "pathWire ?m = Inr w" using r ty by (auto simp: pathWire_def marshalPathControl_def Let_def)
    then have p: "parsePathControl w = Inr ?m" using parse_pathWire [OF wf] by blast
    have mw: "marshalPathControl C ty sid cn (if ty \<noteq> pathControlRequest then sn else zeros 16) key =
        Inr (?b @ pathControlTag C key ?b)"
      using ty by (simp add: marshalPathControl_def Let_def)
    have "length (pathControlTag C key ?b) = pathControlTagSize"
      by (simp add: pathControlTag_def hl pathControlTagSize_def)
    then have v: "verifyPathControl C ?m key" by (simp add: verifyPathControl_def mw del: append_assoc)
    show ?L using p v by (intro exI [of _ ?m]) auto
  qed
qed

theorem path_control_exact_witness:
  "\<exists>w m. marshalPathControl demo_crypto 2 (replicate 16 1) (replicate 16 2) (replicate 16 3) (zeros 32) = Inr w \<and>
    parsePathControl w = Inr m \<and> verifyPathControl demo_crypto m (zeros 32) \<and> pcServerNonce m = replicate 16 3"
proof -
  obtain w where w: "marshalPathControl demo_crypto 2 (replicate 16 1) (replicate 16 2) (replicate 16 3)
      (zeros 32) = Inr w"
    by (simp add: marshalPathControl_def path_consts pathTypeValid_def Let_def)
  then show ?thesis
    using path_control_exact [OF demo_crypto_laws, of w "zeros 32" 2 "replicate 16 1" "replicate 16 2"
        "replicate 16 3"] by (auto simp: path_consts)
qed

section \<open>Cookies\<close>

lemma issuedRecently_window:
  assumes "length issued = 8" "0 \<le> t" "t < 2 ^ 63" "issued = put_u64 (of_int t)"
  shows "issuedRecently issued now maxAge \<longleftrightarrow>
    t * time_Second \<le> now + time_Second \<and> now - t * time_Second \<le> maxAge"
proof -
  have u: "uint (of_int t :: u64) = t"
    using assms by (simp add: unsigned_of_int take_bit_int_eq_self)
  then have "\<not> (of_int t :: u64) > 0x7fffffffffffffff" using assms by (simp add: word_less_def)
  then show ?thesis using u by (auto simp: issuedRecently_def Let_def assms(4) not_less)
qed

text \<open>
  A cookie opens the window it was issued for, and only for its path. A cookie made at a time
  between the epoch and \<open>2^62\<close> seconds after it is accepted for the same session, source address and
  client nonce exactly from one second before its issue second until \<open>maxAge\<close> after it; and whenever
  any 16 bytes are accepted for some session, source and nonce, their second half is the beginning
  of the tag over exactly these.
\<close>

theorem path_cookie_window:
  assumes "crypto_laws C" and "0 \<le> issuedAt" and "unixSeconds issuedAt < 2 ^ 62"
  shows "(verifyPathCookie C (newPathCookie C key sid src cn issuedAt) key sid src cn now maxAge \<longleftrightarrow>
      unixSeconds issuedAt * time_Second \<le> now + time_Second \<and>
      now - unixSeconds issuedAt * time_Second \<le> maxAge) \<and>
    (verifyPathCookie C cookie key sid src cn now maxAge \<longrightarrow>
      drop 8 cookie = take 8 (pathCookieTag C key sid src cn (take 8 cookie)))"
proof -
  let ?i = "put_u64 (of_int (unixSeconds issuedAt))"
  have s: "gslice 0 8 (newPathCookie C key sid src cn issuedAt) = ?i"
      "drop 8 (newPathCookie C key sid src cn issuedAt) = take 8 (pathCookieTag C key sid src cn ?i)"
    by (simp_all add: newPathCookie_def Let_def gslice_def)
  have "0 \<le> unixSeconds issuedAt" using assms(2) by (simp add: unixSeconds_def pos_imp_zdiv_nonneg_iff)
  then have "issuedRecently ?i now maxAge \<longleftrightarrow> unixSeconds issuedAt * time_Second \<le> now + time_Second \<and>
      now - unixSeconds issuedAt * time_Second \<le> maxAge"
    using assms(3) by (intro issuedRecently_window) auto
  moreover have "drop 8 cookie = take 8 (pathCookieTag C key sid src cn (take 8 cookie))"
    if "verifyPathCookie C cookie key sid src cn now maxAge"
    using that by (simp add: verifyPathCookie_def gslice_def split: if_splits)
  ultimately show ?thesis by (auto simp: verifyPathCookie_def s)
qed

theorem path_cookie_window_witness:
  "verifyPathCookie demo_crypto (newPathCookie demo_crypto (zeros 32) (zeros 16)
     \<lparr>srcNetwork = ''udp'', srcAddress = ''a''\<rparr> (zeros 16) (7 * time_Second + 5)) (zeros 32) (zeros 16)
     \<lparr>srcNetwork = ''udp'', srcAddress = ''a''\<rparr> (zeros 16) (9 * time_Second) (5 * time_Second)"
  using path_cookie_window [OF demo_crypto_laws, of "7 * time_Second + 5" "zeros 32" "zeros 16"
      "\<lparr>srcNetwork = ''udp'', srcAddress = ''a''\<rparr>" "zeros 16" "9 * time_Second" "5 * time_Second"]
  by (simp add: unixSeconds_def)

end
