(* ===== verification/Tunnel.thy ===== *)
theory Tunnel
  imports Codec
begin

text \<open>
  The tunnel datagram (\<open>internal/tgp/tunnel.go\<close>): the game endpoint pair, the lease identity
  and the game payload that travel inside a TGP packet, with the payload budget of the
  captured-UDP path. \<open>netip.Addr\<close> is the datatype \<open>Addr\<close>: the zero (invalid) address, an IPv4
  address, or an IPv6 address with its zone.
\<close>

section \<open>Addresses\<close>

datatype Addr = AddrZero | Addr4 bytes | Addr6 bytes string

definition Addr_IsValid :: "Addr \<Rightarrow> bool" where
  "Addr_IsValid a = (a \<noteq> AddrZero)"

fun Addr_Is4 :: "Addr \<Rightarrow> bool" where
  "Addr_Is4 (Addr4 _) = True"
| "Addr_Is4 _ = False"

fun Addr_Is6 :: "Addr \<Rightarrow> bool" where
  "Addr_Is6 (Addr6 _ _) = True"
| "Addr_Is6 _ = False"

fun Addr_AsSlice :: "Addr \<Rightarrow> bytes" where
  "Addr_AsSlice AddrZero = []"
| "Addr_AsSlice (Addr4 b) = b"
| "Addr_AsSlice (Addr6 b _) = b"

text \<open>\<open>Addr.Unmap\<close>: the IPv4 address inside an IPv4-mapped IPv6 address.\<close>

definition Addr_Unmap :: "Addr \<Rightarrow> Addr" where
  "Addr_Unmap a = (case a of Addr6 b z \<Rightarrow> if gslice 0 12 b = zeros 10 @ [0xff, 0xff] then Addr4 (drop 12 b) else a | _ \<Rightarrow> a)"

text \<open>\<open>netip.AddrPort\<close>.\<close>

record AddrPort =
  apAddr :: Addr
  apPort :: u16

text \<open>The lengths of Go's arrays.\<close>

fun wf_addr :: "Addr \<Rightarrow> bool" where
  "wf_addr AddrZero = True"
| "wf_addr (Addr4 b) = (length b = 4)"
| "wf_addr (Addr6 b _) = (length b = 16)"

fun zoneless :: "Addr \<Rightarrow> bool" where
  "zoneless (Addr6 _ z) = (z = [])"
| "zoneless _ = True"

section \<open>Data\<close>

definition tunnelMagicV1 :: bytes where "tunnelMagicV1 = [0x54, 0x47, 0x44, 0x01]"
definition tunnelMagicV2 :: bytes where "tunnelMagicV2 = [0x54, 0x47, 0x44, 0x02]"

definition fecLengthPrefixSize :: nat where "fecLengthPrefixSize = 2"

definition CapturedUDPV2IPv4Overhead :: nat where
  "CapturedUDPV2IPv4Overhead = outerHeaderSize + innerHeaderSize + aeadOverheadSize +
     fecLengthPrefixSize + 4 + 16 + 8 + 16 + 1 + 4 + 2 + 1 + 4 + 2"

definition CapturedUDPV2IPv6Overhead :: nat where
  "CapturedUDPV2IPv6Overhead = outerHeaderSize + innerHeaderSize + aeadOverheadSize +
     fecLengthPrefixSize + 4 + 16 + 8 + 16 + 1 + 16 + 2 + 1 + 16 + 2"

record TunnelIdentity =
  FlowID :: bytes
  Generation :: u64
  LeaseNonce :: bytes

record TunnelDatagram =
  Identity :: TunnelIdentity
  LocalIP :: Addr
  LocalPort :: u16
  RemoteIP :: Addr
  RemotePort :: u16
  tunnelPayload :: bytes

definition zeroIdentity :: TunnelIdentity where
  "zeroIdentity = \<lparr>FlowID = zeros 16, Generation = 0, LeaseNonce = zeros 16\<rparr>"

definition Identity_IsZero :: "TunnelIdentity \<Rightarrow> bool" where
  "Identity_IsZero identity = (identity = zeroIdentity)"

definition Identity_valid :: "TunnelIdentity \<Rightarrow> bool" where
  "Identity_valid identity \<longleftrightarrow> FlowID identity \<noteq> zeros 16 \<and> Generation identity \<noteq> 0 \<and>
     LeaseNonce identity \<noteq> zeros 16"

section \<open>Operations\<close>

definition MaxCapturedUDPV2Payload :: "int \<Rightarrow> Addr \<Rightarrow> Addr \<Rightarrow> tgp_error + int" where
  "MaxCapturedUDPV2Payload limit localIP remoteIP =
     (case normalizeMaxDatagramSize limit of
        Inl e \<Rightarrow> Inl e
      | Inr limit \<Rightarrow>
          if \<not> Addr_IsValid localIP \<or> \<not> Addr_IsValid remoteIP \<or>
             Addr_Is4 localIP \<noteq> Addr_Is4 remoteIP
          then Inl ErrInvalidTunnelData
          else
            let overhead = (if Addr_Is4 localIP then CapturedUDPV2IPv4Overhead
                            else CapturedUDPV2IPv6Overhead)
            in if limit \<le> int overhead then Inl ErrDatagramTooLarge
               else Inr (limit - int overhead))"

definition MarshalTunnelDatagram :: "TunnelDatagram \<Rightarrow> tgp_error + bytes" where
  "MarshalTunnelDatagram d =
     (if \<not> Addr_IsValid (LocalIP d) then Inl ErrInvalidTunnelData
      else if \<not> Addr_IsValid (RemoteIP d) then Inl ErrInvalidTunnelData
      else
        let localAddr = Addr_AsSlice (LocalIP d); remoteAddr = Addr_AsSlice (RemoteIP d)
        in if length localAddr \<noteq> 4 \<and> length localAddr \<noteq> 16 then Inl ErrInvalidTunnelData
           else if length remoteAddr \<noteq> 4 \<and> length remoteAddr \<noteq> 16 then Inl ErrInvalidTunnelData
           else if \<not> Identity_IsZero (Identity d) \<and> \<not> Identity_valid (Identity d)
           then Inl ErrInvalidTunnelData
           else
             let magic = (if Identity_IsZero (Identity d) then tunnelMagicV1 else tunnelMagicV2);
                 ident = (if Identity_IsZero (Identity d) then []
                          else FlowID (Identity d) @ put_u64 (Generation (Identity d)) @
                               LeaseNonce (Identity d))
             in Inr (magic @ ident @
                     [of_nat (length localAddr)] @ localAddr @ put_u16 (LocalPort d) @
                     [of_nat (length remoteAddr)] @ remoteAddr @ put_u16 (RemotePort d) @
                     tunnelPayload d))"

text \<open>The magic and identity part of the parser: the identity and the offset behind it.\<close>

definition parseTunnelIdentity :: "bytes \<Rightarrow> tgp_error + nat \<times> TunnelIdentity" where
  "parseTunnelIdentity data =
     (if gslice 0 4 data = tunnelMagicV1 then Inr (4, zeroIdentity)
      else if gslice 0 4 data = tunnelMagicV2 then
        if length data < 4 + (16 + 8 + 16) + 1 + 2 + 1 + 2 then Inl ErrInvalidTunnelData
        else
          let identity = \<lparr>FlowID = gslice 4 20 data, Generation = get_u64 (gslice 20 28 data),
                          LeaseNonce = gslice 28 44 data\<rparr>
          in if \<not> Identity_valid identity then Inl ErrInvalidTunnelData
             else Inr (44, identity)
      else Inl ErrInvalidTunnelData)"

definition addrOfSlice :: "bytes \<Rightarrow> Addr" where
  "addrOfSlice raw = (if length raw = 4 then Addr4 raw else Addr6 raw [])"

definition ParseTunnelDatagram :: "bytes \<Rightarrow> tgp_error + TunnelDatagram" where
  "ParseTunnelDatagram data =
     (if length data < 4 + 1 + 2 + 1 + 2 then Inl ErrInvalidTunnelData
      else case parseTunnelIdentity data of
        Inl e \<Rightarrow> Inl e
      | Inr (offset, identity) \<Rightarrow>
          let localLen = unat (data ! offset)
          in if localLen \<noteq> 4 \<and> localLen \<noteq> 16 then Inl ErrInvalidTunnelData
             else if length data < offset + 1 + localLen + 2 + 1 + 2 then Inl ErrInvalidTunnelData
             else
               let localPortOffset = offset + 1 + localLen;
                   remoteLenOffset = localPortOffset + 2;
                   remoteLen = unat (data ! remoteLenOffset)
               in if remoteLen \<noteq> 4 \<and> remoteLen \<noteq> 16 then Inl ErrInvalidTunnelData
                  else
                    let remoteOffset = remoteLenOffset + 1;
                        remotePortOffset = remoteOffset + remoteLen
                    in if length data < remotePortOffset + 2 then Inl ErrInvalidTunnelData
                       else Inr \<lparr>Identity = identity,
                              LocalIP = addrOfSlice (gslice (offset + 1) localPortOffset data),
                              LocalPort = get_u16 (gslice localPortOffset (localPortOffset + 2) data),
                              RemoteIP = addrOfSlice (gslice remoteOffset remotePortOffset data),
                              RemotePort = get_u16 (gslice remotePortOffset (remotePortOffset + 2) data),
                              tunnelPayload = drop (remotePortOffset + 2) data\<rparr>)"

definition wf_tunnel :: "TunnelDatagram \<Rightarrow> bool" where
  "wf_tunnel d \<longleftrightarrow>
     length (FlowID (Identity d)) = 16 \<and> length (LeaseNonce (Identity d)) = 16 \<and>
     (Identity_IsZero (Identity d) \<or> Identity_valid (Identity d)) \<and>
     Addr_IsValid (LocalIP d) \<and> wf_addr (LocalIP d) \<and> zoneless (LocalIP d) \<and>
     Addr_IsValid (RemoteIP d) \<and> wf_addr (RemoteIP d) \<and> zoneless (RemoteIP d)"

section \<open>Round trip\<close>

text \<open>The header part in front of the endpoints.\<close>

definition tunnelPrefix :: "TunnelIdentity \<Rightarrow> bytes" where
  "tunnelPrefix i = (if Identity_IsZero i then tunnelMagicV1
     else tunnelMagicV2 @ FlowID i @ put_u64 (Generation i) @ LeaseNonce i)"

lemma addr_slice:
  assumes "Addr_IsValid a" "wf_addr a" "zoneless a"
  shows "addrOfSlice (Addr_AsSlice a) = a \<and>
    (length (Addr_AsSlice a) = 4 \<or> length (Addr_AsSlice a) = 16)"
  using assms by (cases a) (auto simp: addrOfSlice_def Addr_IsValid_def)

lemma addrOfSlice_ok:
  assumes "length raw = 4 \<or> length raw = 16"
  shows "Addr_IsValid (addrOfSlice raw) \<and> wf_addr (addrOfSlice raw) \<and> zoneless (addrOfSlice raw)
    \<and> Addr_AsSlice (addrOfSlice raw) = raw"
  using assms by (auto simp: addrOfSlice_def Addr_IsValid_def)

lemma tunnelMagic_facts [simp]:
  "length tunnelMagicV1 = 4" "length tunnelMagicV2 = 4" "tunnelMagicV1 \<noteq> tunnelMagicV2"
  "tunnelMagicV2 \<noteq> tunnelMagicV1"
  by (simp_all add: tunnelMagicV1_def tunnelMagicV2_def)

lemma Marshal_wf:
  assumes "wf_tunnel d"
  shows "MarshalTunnelDatagram d = Inr (tunnelPrefix (Identity d) @
    of_nat (length (Addr_AsSlice (LocalIP d))) # Addr_AsSlice (LocalIP d) @ put_u16 (LocalPort d) @
    of_nat (length (Addr_AsSlice (RemoteIP d))) # Addr_AsSlice (RemoteIP d) @
    put_u16 (RemotePort d) @ tunnelPayload d)"
  using assms addr_slice [of "LocalIP d"] addr_slice [of "RemoteIP d"]
  by (auto simp: MarshalTunnelDatagram_def wf_tunnel_def tunnelPrefix_def Let_def)

lemma parse_prefix:
  assumes "length (FlowID i) = 16" "length (LeaseNonce i) = 16"
    and "Identity_IsZero i \<or> Identity_valid i" and "6 \<le> length rest"
  shows "parseTunnelIdentity (tunnelPrefix i @ rest) = Inr (length (tunnelPrefix i), i)"
proof (cases "Identity_IsZero i")
  case True
  then show ?thesis
    by (simp add: parseTunnelIdentity_def tunnelPrefix_def slice_simps Identity_IsZero_def)
next
  case False
  with assms have "gslice 4 20 (tunnelPrefix i @ rest) = FlowID i"
    "gslice 20 28 (tunnelPrefix i @ rest) = put_u64 (Generation i)"
    "gslice 28 44 (tunnelPrefix i @ rest) = LeaseNonce i"
    by (simp_all add: tunnelPrefix_def slice_simps)
  with False assms show ?thesis
    by (simp add: parseTunnelIdentity_def tunnelPrefix_def slice_simps Let_def Identity_valid_def)
qed

lemma parse_endpoints:
  fixes pre :: bytes
  assumes p: "parseTunnelIdentity (pre @ body) = Inr (length pre, i)" and pl: "4 \<le> length pre"
    and b: "body = of_nat (length l) # l @ put_u16 lp @ of_nat (length r) # r @ put_u16 rp @ pay"
    and l: "length l = 4 \<or> length l = 16" and r: "length r = 4 \<or> length r = 16"
  shows "ParseTunnelDatagram (pre @ body) = Inr \<lparr>Identity = i, LocalIP = addrOfSlice l,
    LocalPort = lp, RemoteIP = addrOfSlice r, RemotePort = rp, tunnelPayload = pay\<rparr>"
proof -
  let ?n = "length pre"
  have ll: "unat ((pre @ body) ! ?n) = length l"
    using l by (auto simp: b slice_simps unat_of_nat_u8)
  have rl: "unat ((pre @ body) ! (?n + 1 + length l + 2)) = length r"
  proof -
    have "(pre @ body) ! (?n + 1 + length l + 2) = of_nat (length r)"
      by (simp add: b nth_append)
    then show ?thesis using r by (auto simp: unat_of_nat_u8)
  qed
  have s1: "gslice (?n + 1) (?n + 1 + length l) (pre @ body) = l"
    by (simp add: b gslice_def)
  have s2: "gslice (?n + 1 + length l) (?n + 1 + length l + 2) (pre @ body) = put_u16 lp"
    by (simp add: b gslice_def)
  have s3: "gslice (?n + 1 + length l + 2 + 1) (?n + 1 + length l + 2 + 1 + length r) (pre @ body) = r"
    by (simp add: b gslice_def drop_Cons')
  have s4: "gslice (?n + 1 + length l + 2 + 1 + length r) (?n + 1 + length l + 2 + 1 + length r + 2)
      (pre @ body) = put_u16 rp"
    by (simp add: b gslice_def drop_Cons')
  have s5: "drop (?n + 1 + length l + 2 + 1 + length r + 2) (pre @ body) = pay"
    by (simp add: b drop_Cons')
  have len: "length (pre @ body) = ?n + 1 + length l + 2 + 1 + length r + 2 + length pay"
    by (simp add: b)
  show ?thesis
    unfolding ParseTunnelDatagram_def Let_def
    using l r pl by (simp only: p sum.case prod.case ll rl s1 s2 s3 s4 s5 len get_put_u16) auto
qed


lemma Parse_Marshal:
  assumes "wf_tunnel d" "MarshalTunnelDatagram d = Inr w"
  shows "ParseTunnelDatagram w = Inr d"
proof -
  let ?l = "Addr_AsSlice (LocalIP d)" and ?r = "Addr_AsSlice (RemoteIP d)"
  let ?body = "of_nat (length ?l) # ?l @ put_u16 (LocalPort d) @ of_nat (length ?r) # ?r @
    put_u16 (RemotePort d) @ tunnelPayload d"
  have w: "w = tunnelPrefix (Identity d) @ ?body"
    using assms Marshal_wf [OF assms(1)] by simp
  have l: "addrOfSlice ?l = LocalIP d" "length ?l = 4 \<or> length ?l = 16"
    and r: "addrOfSlice ?r = RemoteIP d" "length ?r = 4 \<or> length ?r = 16"
    using assms(1) addr_slice by (auto simp: wf_tunnel_def)
  have p: "parseTunnelIdentity (tunnelPrefix (Identity d) @ ?body) =
      Inr (length (tunnelPrefix (Identity d)), Identity d)"
    using assms(1) l(2) by (intro parse_prefix) (auto simp: wf_tunnel_def)
  have "4 \<le> length (tunnelPrefix (Identity d))" by (simp add: tunnelPrefix_def)
  from parse_endpoints [OF p this refl l(2) r(2)] show ?thesis
    by (simp add: w l(1) r(1))
qed

lemma parseTunnelIdentity_Inr:
  assumes p: "parseTunnelIdentity data = Inr (off, i)" and len: "10 \<le> length data"
  shows "tunnelPrefix i = gslice 0 off data \<and> off + 6 \<le> length data \<and> length (FlowID i) = 16 \<and>
    length (LeaseNonce i) = 16 \<and> (Identity_IsZero i \<or> Identity_valid i)"
proof (cases "gslice 0 4 data = tunnelMagicV1")
  case True
  with p len show ?thesis
    by (auto simp: parseTunnelIdentity_def tunnelPrefix_def Identity_IsZero_def zeroIdentity_def)
next
  case False
  let ?i = "\<lparr>FlowID = gslice 4 20 data, Generation = get_u64 (gslice 20 28 data),
    LeaseNonce = gslice 28 44 data\<rparr>"
  have m: "gslice 0 4 data = tunnelMagicV2" and l: "50 \<le> length data"
    and v: "Identity_valid ?i" and i: "i = ?i" "off = 44"
    using p False by (auto simp: parseTunnelIdentity_def Let_def split: if_splits)
  have nz: "\<not> Identity_IsZero ?i"
    using v by (auto simp: Identity_IsZero_def Identity_valid_def zeroIdentity_def)
  have "tunnelPrefix ?i = gslice 0 4 data @ gslice 4 20 data @ gslice 20 28 data @ gslice 28 44 data"
    using nz l by (simp add: tunnelPrefix_def m)
  also have "\<dots> = gslice 0 44 data" by (simp add: slice_append_slice)
  finally show ?thesis using v l by (simp add: i)
qed

lemma Marshal_Parse:
  assumes p: "ParseTunnelDatagram data = Inr d"
  shows "wf_tunnel d \<and> MarshalTunnelDatagram d = Inr data"
proof -
  have len: "10 \<le> length data" using p by (auto simp: ParseTunnelDatagram_def split: if_splits)
  obtain off i where pi: "parseTunnelIdentity data = Inr (off, i)"
    using p by (auto simp: ParseTunnelDatagram_def split: if_splits sum.splits)
  note pre = parseTunnelIdentity_Inr [OF pi len]
  define ll where "ll = unat (data ! off)"
  define lpo where "lpo = off + 1 + ll"
  define rl where "rl = unat (data ! (lpo + 2))"
  define rpo where "rpo = lpo + 3 + rl"
  have facts: "ll = 4 \<or> ll = 16" "rl = 4 \<or> rl = 16" "rpo + 2 \<le> length data"
    and d: "d = \<lparr>Identity = i, LocalIP = addrOfSlice (gslice (off + 1) lpo data),
      LocalPort = get_u16 (gslice lpo (lpo + 2) data),
      RemoteIP = addrOfSlice (gslice (lpo + 3) rpo data),
      RemotePort = get_u16 (gslice rpo (rpo + 2) data), tunnelPayload = drop (rpo + 2) data\<rparr>"
    using p pi len
    by (auto simp: ParseTunnelDatagram_def Let_def ll_def lpo_def rl_def rpo_def eval_nat_numeral
        split: if_splits)
  have lens: "length (gslice (off + 1) lpo data) = ll" "length (gslice (lpo + 3) rpo data) = rl"
      "length (gslice lpo (lpo + 2) data) = 2" "length (gslice rpo (rpo + 2) data) = 2"
    using facts by (auto simp: lpo_def rpo_def)
  have wf: "wf_tunnel d"
    using pre facts lens addrOfSlice_ok [of "gslice (off + 1) lpo data"]
      addrOfSlice_ok [of "gslice (lpo + 3) rpo data"]
    by (simp add: d wf_tunnel_def)
  have bytes: "[of_nat ll] = gslice off (off + 1) data" "[of_nat rl] = gslice (lpo + 2) (lpo + 3) data"
    using facts pre gslice_single [of off data] gslice_single [of "lpo + 2" data]
    by (auto simp: ll_def rl_def lpo_def rpo_def)
  have "MarshalTunnelDatagram d = Inr (gslice 0 off data @ [of_nat ll] @ gslice (off + 1) lpo data @
      gslice lpo (lpo + 2) data @ [of_nat rl] @ gslice (lpo + 3) rpo data @
      gslice rpo (rpo + 2) data @ drop (rpo + 2) data)"
    using Marshal_wf [OF wf] facts pre lens addrOfSlice_ok [of "gslice (off + 1) lpo data"]
      addrOfSlice_ok [of "gslice (lpo + 3) rpo data"]
    by (simp add: d)
  also have "\<dots> = Inr data"
    by (simp add: bytes slice_append_slice slice_to_drop lpo_def rpo_def del: append_assoc
        add: append_assoc [symmetric])
  finally show ?thesis using wf by blast
qed

interpretation tunnel_format: canonical_format MarshalTunnelDatagram ParseTunnelDatagram wf_tunnel
  by unfold_locales (auto intro: Parse_Marshal dest: Marshal_Parse)

lemma wf_tunnel_marshals: "wf_tunnel d \<Longrightarrow> \<exists>w. MarshalTunnelDatagram d = Inr w"
  using Marshal_wf by blast

lemma Marshal_length:
  assumes "wf_tunnel d" "MarshalTunnelDatagram d = Inr w"
  shows "length w = (if Identity_IsZero (Identity d) then 4 else 44) +
    length (Addr_AsSlice (LocalIP d)) + length (Addr_AsSlice (RemoteIP d)) + 6 +
    length (tunnelPayload d)"
  using assms Marshal_wf [OF assms(1)] by (auto simp: tunnelPrefix_def wf_tunnel_def)

lemma addr_slice_len: "wf_addr a \<Longrightarrow> Addr_IsValid a \<Longrightarrow> length (Addr_AsSlice a) = (if Addr_Is4 a then 4 else 16)"
  by (cases a) (auto simp: Addr_IsValid_def)

section \<open>Properties\<close>

text \<open>
  The tunnel format is exact: the parser accepts a byte string and returns a datagram if and
  only if that datagram is well-formed (a zero or complete lease identity, two valid addresses
  without zone) and the byte string is what the printer makes of it. So nothing is lost between
  the two ends of the tunnel, every accepted byte string has one meaning, and every datagram one
  encoding.
\<close>

theorem tunnel_format_exact:
  "ParseTunnelDatagram w = Inr d \<longleftrightarrow> wf_tunnel d \<and> MarshalTunnelDatagram d = Inr w"
  by (rule tunnel_format.dec_iff)

end
