(* ===== verification/GoMap.thy ===== *)
theory GoMap
  imports Prelude "HOL-Library.AList"
begin

text \<open>
  Go's built-in maps. A map is an association list with at most one entry per key
  (\<open>gm_ok\<close>); \<open>len(m)\<close> is its length, \<open>m[k]\<close> is \<open>map_of m k\<close>, and \<open>range m\<close> visits the entries
  in the list's order. Go leaves that order open: the theorems about loops over a map that
  depend on the order say so.
\<close>

type_synonym ('k, 'v) gomap = "('k \<times> 'v) list"

definition gm_ok :: "('k, 'v) gomap \<Rightarrow> bool" where
  "gm_ok m \<longleftrightarrow> distinct (map fst m)"

abbreviation gm_get :: "('k, 'v) gomap \<Rightarrow> 'k \<Rightarrow> 'v option" where
  "gm_get \<equiv> map_of"

definition gm_set :: "('k, 'v) gomap \<Rightarrow> 'k \<Rightarrow> 'v \<Rightarrow> ('k, 'v) gomap" where
  "gm_set m k v = AList.update k v m"

definition gm_del :: "('k, 'v) gomap \<Rightarrow> 'k \<Rightarrow> ('k, 'v) gomap" where
  "gm_del m k = AList.delete k m"

text \<open>Deleting, in a loop over the map, the entries that satisfy a test.\<close>

definition gm_keep :: "('k \<Rightarrow> 'v \<Rightarrow> bool) \<Rightarrow> ('k, 'v) gomap \<Rightarrow> ('k, 'v) gomap" where
  "gm_keep P m = filter (\<lambda>(k, v). P k v) m"

abbreviation gm_has :: "('k, 'v) gomap \<Rightarrow> 'k \<Rightarrow> bool" where
  "gm_has m k \<equiv> map_of m k \<noteq> None"

lemma gm_ok_Nil [simp]: "gm_ok []"
  by (simp add: gm_ok_def)

lemma gm_ok_set [simp]: "gm_ok m \<Longrightarrow> gm_ok (gm_set m k v)"
  by (simp add: gm_ok_def gm_set_def distinct_update)

lemma gm_ok_del [simp]: "gm_ok m \<Longrightarrow> gm_ok (gm_del m k)"
  by (simp add: gm_ok_def gm_del_def distinct_delete)

lemma gm_ok_keep [simp]: "gm_ok m \<Longrightarrow> gm_ok (gm_keep P m)"
  by (auto simp: gm_ok_def gm_keep_def intro: distinct_map_filter)

lemma gm_get_set: "gm_get (gm_set m k v) j = (if j = k then Some v else gm_get m j)"
  by (simp add: gm_set_def update_conv')

lemma gm_get_set_same [simp]: "gm_get (gm_set m k v) k = Some v"
  by (simp add: gm_get_set)

lemma gm_get_set_other [simp]: "j \<noteq> k \<Longrightarrow> gm_get (gm_set m k v) j = gm_get m j"
  by (simp add: gm_get_set)

lemma gm_get_del: "gm_get (gm_del m k) j = (if j = k then None else gm_get m j)"
  by (simp add: gm_del_def delete_conv')

lemma gm_get_del_same [simp]: "gm_get (gm_del m k) k = None"
  by (simp add: gm_get_del)

lemma gm_get_del_other [simp]: "j \<noteq> k \<Longrightarrow> gm_get (gm_del m k) j = gm_get m j"
  by (simp add: gm_get_del)

lemma gm_get_keep:
  "gm_ok m \<Longrightarrow> gm_get (gm_keep P m) k =
     (case gm_get m k of None \<Rightarrow> None | Some v \<Rightarrow> if P k v then Some v else None)"
proof (induction m)
  case Nil
  then show ?case by (simp add: gm_keep_def)
next
  case (Cons e m)
  obtain j v where e: "e = (j, v)" by fastforce
  have ok: "gm_ok m" and nk: "j \<notin> fst ` set m" using Cons.prems by (auto simp: gm_ok_def e)
  have none: "gm_get m j = None" using nk by (simp add: map_of_eq_None_iff)
  have "gm_keep P (e # m) = (if P j v then (j, v) # gm_keep P m else gm_keep P m)"
    by (simp add: gm_keep_def e)
  then show ?case using Cons.IH [OF ok] none by (auto simp: e split: option.splits)
qed

lemma gm_get_keep_None [simp]: "gm_ok m \<Longrightarrow> gm_get m k = None \<Longrightarrow> gm_get (gm_keep P m) k = None"
  by (simp add: gm_get_keep)

lemma gm_get_keep_SomeD:
  "gm_ok m \<Longrightarrow> gm_get (gm_keep P m) k = Some v \<Longrightarrow> gm_get m k = Some v \<and> P k v"
  by (auto simp: gm_get_keep split: option.splits if_splits)

lemma gm_dom: "dom (gm_get m) = fst ` set m"
  by (simp add: dom_map_of_conv_image_fst)

lemma gm_card: "gm_ok m \<Longrightarrow> length m = card (dom (gm_get m))"
  by (metis gm_dom gm_ok_def distinct_card length_map list.set_map)

lemma gm_finite [simp]: "finite (dom (gm_get m))"
  by (simp add: gm_dom)

lemma gm_len_set:
  assumes "gm_ok m"
  shows "length (gm_set m k v) = (if gm_get m k = None then Suc (length m) else length m)"
proof -
  have "dom (gm_get (gm_set m k v)) = insert k (dom (gm_get m))"
    by (auto simp: gm_get_set split: if_splits)
  then show ?thesis using assms by (simp add: gm_card card_insert_if domIff)
qed

lemma gm_len_del_le: "length (gm_del m k) \<le> length m"
  by (simp add: gm_del_def length_delete_le)

lemma gm_len_del:
  assumes "gm_ok m" "gm_get m k = Some v"
  shows "Suc (length (gm_del m k)) = length m"
proof -
  have "dom (gm_get (gm_del m k)) = dom (gm_get m) - {k}"
    by (auto simp: gm_get_del split: if_splits)
  moreover have "k \<in> dom (gm_get m)" using assms(2) by blast
  ultimately show ?thesis using assms(1) by (simp add: gm_card card_Suc_Diff1 del: card_Diff_insert)
qed

lemma gm_len_keep_le: "length (gm_keep P m) \<le> length m"
  by (simp add: gm_keep_def)

lemma gm_in_set: "gm_ok m \<Longrightarrow> (k, v) \<in> set m \<longleftrightarrow> gm_get m k = Some v"
  by (auto simp: gm_ok_def map_of_eq_Some_iff)

lemma gm_set_elems: "(j, w) \<in> set (gm_set m k v) \<Longrightarrow> (j, w) = (k, v) \<or> (j, w) \<in> set m"
proof (induction m)
  case Nil
  then show ?case by (simp add: gm_set_def)
next
  case (Cons e m)
  then show ?case by (cases e) (auto simp: gm_set_def split: if_splits)
qed

lemma gm_del_elems: "e \<in> set (gm_del m k) \<Longrightarrow> e \<in> set m"
  by (auto simp: gm_del_def AList.delete_eq)

lemma gm_keep_elems: "e \<in> set (gm_keep P m) \<Longrightarrow> e \<in> set m"
  by (auto simp: gm_keep_def)

text \<open>
  The map interface the components are programmed against: reads after writes, sizes, and
  that every write keeps a map a map. The built-in map provides it.
\<close>

locale go_map =
  fixes get :: "'m \<Rightarrow> 'k \<Rightarrow> 'v option"
    and set_at :: "'m \<Rightarrow> 'k \<Rightarrow> 'v \<Rightarrow> 'm"
    and del_at :: "'m \<Rightarrow> 'k \<Rightarrow> 'm"
    and len :: "'m \<Rightarrow> nat"
    and ok :: "'m \<Rightarrow> bool"
  assumes get_set_at: "ok m \<Longrightarrow> get (set_at m k v) = (get m)(k \<mapsto> v)"
    and get_del_at: "ok m \<Longrightarrow> get (del_at m k) = (get m)(k := None)"
    and ok_set_at: "ok m \<Longrightarrow> ok (set_at m k v)"
    and ok_del_at: "ok m \<Longrightarrow> ok (del_at m k)"
    and len_dom: "ok m \<Longrightarrow> finite (dom (get m)) \<and> len m = card (dom (get m))"
begin

lemma len_set_at_le: "ok m \<Longrightarrow> len (set_at m k v) \<le> Suc (len m)"
  by (simp add: len_dom ok_set_at get_set_at card_insert_if)

lemma len_del_at_le: "ok m \<Longrightarrow> len (del_at m k) \<le> len m"
  by (simp add: len_dom ok_del_at get_del_at card_Diff1_le)

lemma bounded_insert:
  "ok m \<Longrightarrow> len m < n \<Longrightarrow> len (set_at m k v) \<le> n"
  using len_set_at_le [of m k v] by simp

lemma len_agree: "ok m \<Longrightarrow> ok m' \<Longrightarrow> dom (get m) \<subseteq> dom (get m') \<Longrightarrow> len m \<le> len m'"
  by (simp add: len_dom card_mono)

end

interpretation gm: go_map gm_get gm_set gm_del length gm_ok
  by unfold_locales (auto simp: gm_get_set gm_get_del gm_card)

end
