(* ===== verification/FEC.thy ===== *)
theory FEC
  imports Tunnel GoMap
begin

text \<open>
  Forward error correction (\<open>internal/tgp/fec.go\<close>, \<open>fec_adaptive.go\<close>): framing of data shards,
  the Reed-Solomon codec wrapper, the receive buffer that groups shards and recovers lost
  ones, and the adaptive parity controller.

  The Reed-Solomon encoder (\<open>github.com/klauspost/reedsolomon\<close>) is a parameter, the record
  \<open>rs\<close>; \<open>rs_codes\<close> and \<open>rs_keeps\<close> state its documented contract. A nil shard is the empty list: every shard
  the buffer stores comes from \<open>append([]byte(nil), \<dots>)\<close>, which yields nil for an empty payload,
  and the encoder reads zero-length shards as missing.
\<close>

section \<open>The Reed-Solomon parameter\<close>

text \<open>
  \<open>rs_encode d p shards\<close> fills the \<open>p\<close> parity shards; \<open>rs_reconstruct d p shards\<close> fills the
  empty ones; \<open>rs_verify d p shards\<close> checks the parity. \<open>None\<close> is an error of the library.
\<close>

record rs =
  rs_encode :: "nat \<Rightarrow> nat \<Rightarrow> bytes list \<Rightarrow> bytes list option"
  rs_reconstruct :: "nat \<Rightarrow> nat \<Rightarrow> bytes list \<Rightarrow> bytes list option"
  rs_verify :: "nat \<Rightarrow> nat \<Rightarrow> bytes list \<Rightarrow> bool option"

text \<open>
  \<open>erasure_of full got\<close>: \<open>got\<close> is \<open>full\<close> with some shards missing. The contract has two
  parts. \<open>codeword R d p n full\<close>: the shards \<open>full\<close> have one size \<open>n\<close>, verify, and are
  reconstructed exactly from any \<open>d\<close> of them; encoding a well-shaped input gives such shards
  and keeps the data shards (\<open>rs_codes R d p\<close>). And whatever reconstruction returns has as many shards as it was
  given, keeps those that were present, and none is longer than the longest given (\<open>rs_keeps\<close>).
\<close>

definition erasure_of :: "bytes list \<Rightarrow> bytes list \<Rightarrow> bool" where
  "erasure_of full got \<longleftrightarrow> length got = length full \<and>
     (\<forall>i<length full. got ! i = [] \<or> got ! i = full ! i)"

definition present :: "bytes list \<Rightarrow> nat" where
  "present shards = length (filter (\<lambda>s. s \<noteq> []) shards)"

definition codeword :: "rs \<Rightarrow> nat \<Rightarrow> nat \<Rightarrow> nat \<Rightarrow> bytes list \<Rightarrow> bool" where
  "codeword R d p n full \<longleftrightarrow> length full = d + p \<and> (\<forall>s\<in>set full. length s = n) \<and> 0 < n \<and>
     (\<forall>got. erasure_of full got \<longrightarrow> d \<le> present got \<longrightarrow> rs_reconstruct R d p got = Some full) \<and>
     rs_verify R d p full = Some True"

definition rs_codes :: "rs \<Rightarrow> nat \<Rightarrow> nat \<Rightarrow> bool" where
  "rs_codes R d p \<longleftrightarrow>
     (\<forall>n shards. 0 < n \<longrightarrow> length shards = d + p \<longrightarrow> (\<forall>s\<in>set shards. length s = n) \<longrightarrow>
        (\<exists>full. rs_encode R d p shards = Some full \<and> codeword R d p n full \<and>
           take d full = take d shards))"

definition rs_keeps :: "rs \<Rightarrow> bool" where
  "rs_keeps R \<longleftrightarrow>
     (\<forall>d p got full m. rs_reconstruct R d p got = Some full \<longrightarrow> (\<forall>s\<in>set got. length s \<le> m) \<longrightarrow>
        length full = length got \<and> (\<forall>s\<in>set full. length s \<le> m) \<and>
        (\<forall>i<length got. got ! i \<noteq> [] \<longrightarrow> full ! i = got ! i))"

text \<open>A concrete instance, single parity by exclusive or, for closed examples.\<close>

fun xor_all :: "bytes list \<Rightarrow> bytes" where
  "xor_all [] = []"
| "xor_all [x] = x"
| "xor_all (x # xs) = map2 (\<lambda>a b. a XOR b) x (xor_all xs)"

definition xor_rs :: rs where
  "xor_rs = \<lparr>
     rs_encode = (\<lambda>d p shards.
       if p = 1 \<and> length shards = Suc d then Some (take d shards @ [xor_all (take d shards)])
       else None),
     rs_reconstruct = (\<lambda>d p got.
       case filter (\<lambda>i. got ! i = []) [0..<length got] of
         [] \<Rightarrow> Some got
       | [i] \<Rightarrow> Some (got[i := xor_all (filter (\<lambda>s. s \<noteq> []) got)])
       | _ \<Rightarrow> None),
     rs_verify = (\<lambda>d p shards. Some (drop d shards = [xor_all (take d shards)]))\<rparr>"

section \<open>Limits\<close>

definition MaxFECDataShards :: int where "MaxFECDataShards = 32"
definition MaxFECParityShards :: int where "MaxFECParityShards = 16"
definition MaxFECTotalShards :: int where
  "MaxFECTotalShards = MaxFECDataShards + MaxFECParityShards"
definition MaxFECReceiveGroups :: int where "MaxFECReceiveGroups = 64"
definition MaxFECCompletedGroups :: nat where "MaxFECCompletedGroups = 4096"
definition MaxFECReceiveBufferedByte :: int where
  "MaxFECReceiveBufferedByte = push_bit 20 4"
definition fecReceiveGroupLifetime :: duration where
  "fecReceiveGroupLifetime = 30 * time_Second"

lemmas fec_limits = MaxFECDataShards_def MaxFECParityShards_def MaxFECTotalShards_def
  MaxFECReceiveGroups_def MaxFECCompletedGroups_def fecReceiveGroupLifetime_def

section \<open>Parameters\<close>

definition validateFECParams :: "int \<Rightarrow> int \<Rightarrow> tgp_error option" where
  "validateFECParams dataShards parityShards =
     (if dataShards < 1 \<or> parityShards < 1 then Some ErrInvalidFECParams
      else if dataShards > MaxFECDataShards then Some ErrInvalidFECParams
      else if parityShards > MaxFECParityShards then Some ErrInvalidFECParams
      else if dataShards + parityShards > MaxFECTotalShards then Some ErrInvalidFECParams
      else None)"

record FECOptions =
  optDataShards :: int
  optParityShards :: int
  MaxReceiveGroups :: int
  GroupTimeout :: duration
  Dynamic :: bool
  AdaptWindow :: int

definition FECOptions_enabled :: "FECOptions \<Rightarrow> bool" where
  "FECOptions_enabled o1 \<longleftrightarrow> optDataShards o1 > 0 \<and> optParityShards o1 > 0"

definition validateFECOptions :: "FECOptions \<Rightarrow> tgp_error option" where
  "validateFECOptions o1 =
     (if optDataShards o1 = 0 \<and> optParityShards o1 = 0 then None
      else if optDataShards o1 < 1 \<or> optDataShards o1 > MaxFECDataShards
      then Some ErrInvalidFECParams
      else if optParityShards o1 < 0 \<or> optParityShards o1 > MaxFECParityShards
      then Some ErrInvalidFECParams
      else if optParityShards o1 > 0 \<and>
              validateFECParams (optDataShards o1) (optParityShards o1) \<noteq> None
      then validateFECParams (optDataShards o1) (optParityShards o1)
      else if MaxReceiveGroups o1 < 0 \<or> MaxReceiveGroups o1 > MaxFECReceiveGroups
      then Some ErrInvalidFECParams
      else None)"

section \<open>Framing\<close>

definition frameFECData :: "bytes \<Rightarrow> nat \<Rightarrow> tgp_error + bytes" where
  "frameFECData payload shardSize =
     (if length payload + fecLengthPrefixSize > maxTGPDataPayloadSize \<or>
         shardSize > maxTGPDataPayloadSize
      then Inl ErrFECShardTooLarge
      else if shardSize < length payload + fecLengthPrefixSize then Inl ErrInvalidFECParams
      else Inr (put_u16 (of_nat (length payload)) @ payload @
                zeros (shardSize - fecLengthPrefixSize - length payload)))"

definition decodeFECDataShard :: "bytes \<Rightarrow> tgp_error + bytes" where
  "decodeFECDataShard shard =
     (if length shard < fecLengthPrefixSize then Inl ErrInvalidFECParams
      else
        let payloadLen = unat (get_u16 (gslice 0 fecLengthPrefixSize shard))
        in if payloadLen > length shard - fecLengthPrefixSize then Inl ErrInvalidFECParams
           else Inr (gslice fecLengthPrefixSize (fecLengthPrefixSize + payloadLen) shard))"

definition normalizeFECShardLengths :: "bytes list \<Rightarrow> bytes list" where
  "normalizeFECShardLengths shards =
     (let maxSize = foldl (\<lambda>m s. if length s > m then length s else m) 0 shards
      in map (\<lambda>s. if s = [] \<or> length s = maxSize then s else s @ zeros (maxSize - length s)) shards)"

section \<open>The codec\<close>

text \<open>The first loop of \<open>Encode\<close>: every payload must fit; the shard size is the largest frame.\<close>

fun fecShardSize :: "nat \<Rightarrow> bytes list \<Rightarrow> tgp_error + nat" where
  "fecShardSize shardSize [] = Inr shardSize"
| "fecShardSize shardSize (s # data) =
     (if length s + fecLengthPrefixSize > maxTGPDataPayloadSize then Inl ErrFECShardTooLarge
      else fecShardSize (if length s + fecLengthPrefixSize > shardSize
                         then length s + fecLengthPrefixSize else shardSize) data)"

text \<open>The second loop: frame the payloads, and empty payloads up to \<open>dataShards\<close>.\<close>

fun frameAll :: "bytes list \<Rightarrow> nat \<Rightarrow> tgp_error + bytes list" where
  "frameAll [] shardSize = Inr []"
| "frameAll (x # xs) shardSize =
     (case frameFECData x shardSize of
        Inl e \<Rightarrow> Inl e
      | Inr f \<Rightarrow> (case frameAll xs shardSize of Inl e \<Rightarrow> Inl e | Inr fs \<Rightarrow> Inr (f # fs)))"

definition FEC_Encode :: "rs \<Rightarrow> bytes list \<Rightarrow> int \<Rightarrow> int \<Rightarrow> tgp_error + bytes list" where
  "FEC_Encode R data dataShards parityShards =
     (case validateFECParams dataShards parityShards of
        Some e \<Rightarrow> Inl e
      | None \<Rightarrow>
          if int (length data) > dataShards then Inl ErrInvalidFECParams
          else case fecShardSize fecLengthPrefixSize data of
            Inl e \<Rightarrow> Inl e
          | Inr shardSize \<Rightarrow>
              (case frameAll (data @ replicate (nat dataShards - length data) []) shardSize of
                 Inl e \<Rightarrow> Inl e
               | Inr framed \<Rightarrow>
                   (case rs_encode R (nat dataShards) (nat parityShards)
                           (framed @ replicate (nat parityShards) (zeros shardSize)) of
                      None \<Rightarrow> Inl ErrReedSolomon
                    | Some shards \<Rightarrow> Inr shards)))"

text \<open>\<open>Reconstruct\<close> works in place: the shards as it leaves them come back with the verdict.\<close>

definition FEC_Reconstruct ::
  "rs \<Rightarrow> bytes list \<Rightarrow> int \<Rightarrow> int \<Rightarrow> tgp_error option \<times> bytes list" where
  "FEC_Reconstruct R shards dataShards parityShards =
     (case validateFECParams dataShards parityShards of
        Some e \<Rightarrow> (Some e, shards)
      | None \<Rightarrow>
          if int (length shards) \<noteq> dataShards + parityShards then (Some ErrInvalidFECParams, shards)
          else if \<exists>s\<in>set shards. length s > maxTGPDataPayloadSize
          then (Some ErrFECShardTooLarge, shards)
          else
            let normal = normalizeFECShardLengths shards
            in case rs_reconstruct R (nat dataShards) (nat parityShards) normal of
                 None \<Rightarrow> (Some ErrReedSolomon, normal)
               | Some full \<Rightarrow>
                   (case rs_verify R (nat dataShards) (nat parityShards) full of
                      None \<Rightarrow> (Some ErrReedSolomon, full)
                    | Some True \<Rightarrow> (None, full)
                    | Some False \<Rightarrow> (Some ErrFECVerification, full)))"

section \<open>The receive buffer\<close>

record FECReceiveResult =
  Payloads :: "bytes list"
  Ready :: bool
  RecoveredShards :: nat

record FECGroupState =
  GroupID :: u32
  DataShards :: nat
  Shards :: "bytes list"
  Delivered :: "bool list"
  groupReceivedAt :: gotime
  Recovered :: bool

record completedFECGroup =
  completedID :: u32
  completedAt :: gotime

record FECReceiveBuffer =
  groups :: "(u32, FECGroupState) gomap"
  completedGroups :: "(u32, gotime) gomap"
  completedOrder :: "completedFECGroup list"
  completedHead :: nat
  completedMaintenanceOps :: u64
  maxGroups :: nat
  maxBufferedBytes :: int
  bufferedBytes :: int

definition emptyResult :: FECReceiveResult where
  "emptyResult = \<lparr>Payloads = [], Ready = False, RecoveredShards = 0\<rparr>"

definition NewFECReceiveBuffer :: "int \<Rightarrow> FECReceiveBuffer" where
  "NewFECReceiveBuffer n =
     (let n = (if n \<le> 0 then MaxFECReceiveGroups else n);
          n = (if n > MaxFECReceiveGroups then MaxFECReceiveGroups else n)
      in \<lparr>groups = [], completedGroups = [], completedOrder = [], completedHead = 0,
          completedMaintenanceOps = 0, maxGroups = nat n,
          maxBufferedBytes = MaxFECReceiveBufferedByte, bufferedBytes = 0\<rparr>)"

definition PendingGroups :: "FECReceiveBuffer \<Rightarrow> nat" where
  "PendingGroups b = length (groups b)"

definition BufferedBytes :: "FECReceiveBuffer \<Rightarrow> int" where
  "BufferedBytes b = bufferedBytes b"

text \<open>
  \<open>releaseGroupShards\<close> subtracts the lengths one by one and clamps once, at the end. The
  group's own slots are cleared; every caller drops the group.
\<close>

definition releaseGroupShards :: "FECGroupState \<Rightarrow> FECReceiveBuffer \<Rightarrow> FECReceiveBuffer" where
  "releaseGroupShards g b =
     (let n = foldl (\<lambda>n s. n - int (length s)) (bufferedBytes b) (Shards g)
      in b\<lparr>bufferedBytes := (if n < 0 then 0 else n)\<rparr>)"

definition popCompletedGroup :: "FECReceiveBuffer \<Rightarrow> FECReceiveBuffer" where
  "popCompletedGroup b =
     (if completedHead b \<ge> length (completedOrder b) then b
      else
        let entry = completedOrder b ! completedHead b;
            head = Suc (completedHead b);
            completed = (if gm_get (completedGroups b) (completedID entry) = Some (completedAt entry)
                         then gm_del (completedGroups b) (completedID entry) else completedGroups b);
            b = b\<lparr>completedHead := head, completedGroups := completed\<rparr>
        in if head = length (completedOrder b) then b\<lparr>completedOrder := [], completedHead := 0\<rparr>
           else if head \<ge> MaxFECCompletedGroups \<and> head * 2 \<ge> length (completedOrder b)
           then let remaining = length (completedOrder b) - head
                in b\<lparr>completedOrder := drop head (completedOrder b), completedHead := 0,
                     completedMaintenanceOps := completedMaintenanceOps b + of_nat remaining\<rparr>
           else b)"

definition rememberCompletedGroup :: "u32 \<Rightarrow> gotime \<Rightarrow> FECReceiveBuffer \<Rightarrow> FECReceiveBuffer" where
  "rememberCompletedGroup gid now b =
     (if gm_has (completedGroups b) gid then b
      else
        let b = (if length (completedGroups b) \<ge> MaxFECCompletedGroups then popCompletedGroup b else b)
        in b\<lparr>completedGroups := gm_set (completedGroups b) gid now,
             completedOrder := completedOrder b @ [\<lparr>completedID = gid, completedAt = now\<rparr>]\<rparr>)"

text \<open>
  The two loops of \<open>purgeExpiredGroups\<close>. The second one stops by itself: every iteration but
  the last takes one entry off the queue.
\<close>

definition purgePending :: "gotime \<Rightarrow> FECReceiveBuffer \<Rightarrow> FECReceiveBuffer" where
  "purgePending now b =
     foldl (\<lambda>b (gid, g). if now - groupReceivedAt g \<ge> fecReceiveGroupLifetime
                        then (releaseGroupShards g b)\<lparr>groups := gm_del (groups b) gid\<rparr> else b)
       b (groups b)"

lemma popCompletedGroup_measure:
  "completedHead b < length (completedOrder b) \<Longrightarrow>
   length (completedOrder (popCompletedGroup b)) - completedHead (popCompletedGroup b) <
   length (completedOrder b) - completedHead b"
  by (auto simp: popCompletedGroup_def Let_def)

function purgeCompleted :: "gotime \<Rightarrow> FECReceiveBuffer \<Rightarrow> FECReceiveBuffer" where
  "purgeCompleted now b =
     (if completedHead b < length (completedOrder b) then
        let entry = completedOrder b ! completedHead b;
            b' = b\<lparr>completedMaintenanceOps := completedMaintenanceOps b + 1\<rparr>
        in if now - completedAt entry < fecReceiveGroupLifetime then b'
           else purgeCompleted now (popCompletedGroup b')
      else b)"
  by pat_completeness auto
termination
proof (relation "measure (\<lambda>(now, b). length (completedOrder b) - completedHead b)", goal_cases)
  case (2 now b entry b')
  then show ?case using popCompletedGroup_measure [of b'] by simp
qed simp

declare purgeCompleted.simps [simp del]

definition purgeExpiredGroups :: "gotime \<Rightarrow> FECReceiveBuffer \<Rightarrow> FECReceiveBuffer" where
  "purgeExpiredGroups now b = purgeCompleted now (purgePending now b)"

definition completeGroupIfDelivered :: "gotime \<Rightarrow> FECGroupState \<Rightarrow> FECReceiveBuffer \<Rightarrow> FECReceiveBuffer" where
  "completeGroupIfDelivered now g b =
     (if \<exists>x\<in>set (Delivered g). \<not> x then b
      else let b = releaseGroupShards g b
           in rememberCompletedGroup (GroupID g) now (b\<lparr>groups := gm_del (groups b) (GroupID g)\<rparr>))"

text \<open>\<open>group\<close>: the pending group of the header, or a new one while there is room.\<close>

definition fecGroup :: "gotime \<Rightarrow> InnerHeader \<Rightarrow> FECReceiveBuffer \<Rightarrow>
    tgp_error + FECGroupState \<times> FECReceiveBuffer" where
  "fecGroup now h b =
     (case gm_get (groups b) (FECGroup h) of
        Some g \<Rightarrow> Inr (g, b)
      | None \<Rightarrow>
          if length (groups b) \<ge> maxGroups b then Inl ErrFECResourceLimit
          else
            let g = \<lparr>GroupID = FECGroup h, DataShards = unat (FECDataShards h),
                     Shards = replicate (unat (FECTotal h)) [],
                     Delivered = replicate (unat (FECDataShards h)) False,
                     groupReceivedAt = now, Recovered = False\<rparr>
            in Inr (g, b\<lparr>groups := gm_set (groups b) (FECGroup h) g\<rparr>))"

definition hasEnoughFECShards :: "FECGroupState \<Rightarrow> bool" where
  "hasEnoughFECShards g \<longleftrightarrow> present (Shards g) \<ge> DataShards g"

definition missingDataShardIndexes :: "FECGroupState \<Rightarrow> nat list" where
  "missingDataShardIndexes g = filter (\<lambda>i. Shards g ! i = []) [0..<DataShards g]"

text \<open>The group is a pointer into the buffer: storing it back is the write through it.\<close>

abbreviation putGroup :: "FECGroupState \<Rightarrow> FECReceiveBuffer \<Rightarrow> FECReceiveBuffer" where
  "putGroup g b \<equiv> b\<lparr>groups := gm_set (groups b) (GroupID g) g\<rparr>"

text \<open>The delivery loop after a reconstruction: an undecodable shard ends it with the error.\<close>

fun deliverMissing :: "bytes list \<Rightarrow> nat list \<Rightarrow> bool list \<Rightarrow> (tgp_error + bytes list) \<times> bool list" where
  "deliverMissing shards [] delivered = (Inr [], delivered)"
| "deliverMissing shards (i # is) delivered =
     (case decodeFECDataShard (shards ! i) of
        Inl e \<Rightarrow> (Inl e, delivered)
      | Inr payload \<Rightarrow>
          (case deliverMissing shards is (delivered[i := True]) of
             (Inl e, d) \<Rightarrow> (Inl e, d)
           | (Inr payloads, d) \<Rightarrow> (Inr (payload # payloads), d)))"

text \<open>The recovery part of \<open>AddPacket\<close>, from \<open>hasEnoughFECShards\<close> on.\<close>

definition recoverGroup :: "rs \<Rightarrow> gotime \<Rightarrow> FECGroupState \<Rightarrow> FECReceiveBuffer \<Rightarrow>
    (tgp_error + FECReceiveResult) \<times> FECReceiveBuffer" where
  "recoverGroup R now g b =
     (if \<not> hasEnoughFECShards g then (Inr emptyResult, b)
      else
        let missing = missingDataShardIndexes g
        in if missing = [] then (Inr emptyResult, b)
           else case FEC_Reconstruct R (Shards g) (int (DataShards g))
                       (int (length (Shards g)) - int (DataShards g)) of
             (Some e, shards) \<Rightarrow> (Inl e, putGroup (g\<lparr>Shards := shards\<rparr>) b)
           | (None, shards) \<Rightarrow>
               let g = g\<lparr>Shards := shards, Recovered := True\<rparr>
               in case deliverMissing shards missing (Delivered g) of
                    (Inl e, delivered) \<Rightarrow> (Inl e, putGroup (g\<lparr>Delivered := delivered\<rparr>) b)
                  | (Inr payloads, delivered) \<Rightarrow>
                      let g = g\<lparr>Delivered := delivered\<rparr>
                      in (Inr \<lparr>Payloads = payloads, Ready = (length payloads > 0),
                               RecoveredShards = length payloads\<rparr>,
                          completeGroupIfDelivered now g (putGroup g b)))"

text \<open>The part of \<open>AddPacket\<close> that stores the shard and delivers it when it carries data.\<close>

definition storeShard :: "rs \<Rightarrow> gotime \<Rightarrow> Packet \<Rightarrow> FECGroupState \<Rightarrow> FECReceiveBuffer \<Rightarrow>
    (tgp_error + FECReceiveResult) \<times> FECReceiveBuffer" where
  "storeShard R now packet g b =
     (let h = Inner packet; index = unat (FECIndex h)
      in if Shards g ! index \<noteq> [] then (Inr emptyResult, b)
         else if bufferedBytes b + int (length (Payload packet)) > maxBufferedBytes b
         then (Inl ErrFECResourceLimit, b)
         else
           let g = g\<lparr>Shards := (Shards g)[index := Payload packet]\<rparr>;
               b = putGroup g (b\<lparr>bufferedBytes := bufferedBytes b + int (length (Payload packet))\<rparr>)
           in if index < DataShards g \<and> Flags h AND FlagFEC = 0 then
                (case decodeFECDataShard (Shards g ! index) of
                   Inl e \<Rightarrow> (Inl e, b)
                 | Inr payload \<Rightarrow>
                     if Delivered g ! index then (Inr emptyResult, b)
                     else
                       let g = g\<lparr>Delivered := (Delivered g)[index := True]\<rparr>
                       in (Inr \<lparr>Payloads = [payload], Ready = True, RecoveredShards = 0\<rparr>,
                           completeGroupIfDelivered now g (putGroup g b)))
              else recoverGroup R now g b)"

text \<open>\<open>AddPacket\<close>. \<open>now\<close> is the instant of the call; the receiver is not nil.\<close>

definition AddPacket :: "rs \<Rightarrow> gotime \<Rightarrow> FECReceiveBuffer \<Rightarrow> Packet \<Rightarrow>
    (tgp_error + FECReceiveResult) \<times> FECReceiveBuffer" where
  "AddPacket R now b packet =
     (let h = Inner packet
      in if FECTotal h = 0 \<or> FECDataShards h = 0 then
           (if length (Payload packet) > maxTGPDataPayloadSize then (Inl ErrFECShardTooLarge, b)
            else (Inr \<lparr>Payloads = [Payload packet], Ready = True, RecoveredShards = 0\<rparr>, b))
         else if FECDataShards h \<ge> FECTotal h then (Inl ErrInvalidFECParams, b)
         else case validateFECParams (uint (FECDataShards h))
                     (uint (FECTotal h) - uint (FECDataShards h)) of
           Some e \<Rightarrow> (Inl e, b)
         | None \<Rightarrow>
             if length (Payload packet) > maxTGPDataPayloadSize then (Inl ErrFECShardTooLarge, b)
             else if FECIndex h \<ge> FECTotal h then (Inl ErrInvalidFECParams, b)
             else
               let b = purgeExpiredGroups now b
               in if gm_has (completedGroups b) (FECGroup h) then (Inr emptyResult, b)
                  else case fecGroup now h b of
                    Inl e \<Rightarrow> (Inl e, b)
                  | Inr (g, b) \<Rightarrow>
                      if DataShards g \<noteq> unat (FECDataShards h) \<or>
                         length (Shards g) \<noteq> unat (FECTotal h)
                      then (Inl ErrInvalidFECParams, b)
                      else storeShard R now packet g b)"

end
