(* ===== verification/FEC_Receive.thy ===== *)
theory FEC_Receive
  imports FEC
begin

text \<open>
  Proofs about the receive side of FEC: framing round trips, the memory of completed groups as
  a bounded first-in first-out queue (the ring with its head index refines it), the
  resource invariant of the buffer, and recovery of lost shards.
\<close>

section \<open>Framing\<close>

lemma fec_sizes: "fecLengthPrefixSize = 2" "maxTGPDataPayloadSize = 1380"
  by (simp_all add: fecLengthPrefixSize_def maxTGPDataPayloadSize_eq)

lemma frameFECData_Inr:
  "frameFECData payload n = Inr f \<longleftrightarrow>
     length payload + 2 \<le> n \<and> n \<le> 1380 \<and>
     f = put_u16 (of_nat (length payload)) @ payload @ zeros (n - 2 - length payload)"
  by (auto simp: frameFECData_def fec_sizes)

lemma frameFECData_length: "frameFECData payload n = Inr f \<Longrightarrow> length f = n"
  by (auto simp: frameFECData_Inr)

lemma decode_framed:
  assumes "length payload < 65536"
  shows "decodeFECDataShard (put_u16 (of_nat (length payload)) @ payload @ rest) = Inr payload"
proof -
  have "unat (get_u16 (put_u16 (of_nat (length payload)))) = length payload"
    using assms by (simp add: unat_of_nat_u16)
  then show ?thesis
    by (simp add: decodeFECDataShard_def fec_sizes gslice_def Let_def)
qed

lemma decode_frame_pad:
  "frameFECData payload n = Inr f \<Longrightarrow> decodeFECDataShard (f @ zeros k) = Inr payload"
  using decode_framed [of payload "zeros (n - 2 - length payload) @ zeros k"]
  by (auto simp: frameFECData_Inr)

lemma decode_frame: "frameFECData payload n = Inr f \<Longrightarrow> decodeFECDataShard f = Inr payload"
  using decode_frame_pad [of payload n f 0] by (simp add: zeros_def)

text \<open>Padding the smallest frame gives the frame of the larger size.\<close>

lemma zeros_add: "zeros m @ zeros n = zeros (m + n)"
  by (simp add: zeros_def replicate_add)

lemma frame_pad:
  assumes "frameFECData payload (length payload + 2) = Inr f" "frameFECData payload n = Inr f'"
  shows "f @ zeros (n - length f) = f'"
  using assms by (auto simp: frameFECData_Inr zeros_add)

section \<open>The memory of completed groups\<close>

definition completedQueue :: "FECReceiveBuffer \<Rightarrow> (u32, gotime) gomap" where
  "completedQueue b =
     map (\<lambda>e. (completedID e, completedAt e)) (drop (completedHead b) (completedOrder b))"

definition completed_inv :: "FECReceiveBuffer \<Rightarrow> bool" where
  "completed_inv b \<longleftrightarrow>
     gm_ok (completedGroups b) \<and> gm_ok (completedQueue b) \<and>
     gm_get (completedGroups b) = gm_get (completedQueue b) \<and>
     length (completedQueue b) \<le> MaxFECCompletedGroups \<and>
     completedHead b < MaxFECCompletedGroups \<and> completedHead b \<le> length (completedOrder b)"

lemma completedQueue_frame [simp]:
  "completedQueue (b\<lparr>groups := gs\<rparr>) = completedQueue b"
  "completedQueue (b\<lparr>bufferedBytes := n\<rparr>) = completedQueue b"
  "completedQueue (b\<lparr>completedMaintenanceOps := m\<rparr>) = completedQueue b"
  "completedQueue (b\<lparr>completedGroups := c\<rparr>) = completedQueue b"
  by (simp_all add: completedQueue_def)

lemma completed_inv_frame [simp]:
  "completed_inv (b\<lparr>groups := gs\<rparr>) = completed_inv b"
  "completed_inv (b\<lparr>bufferedBytes := n\<rparr>) = completed_inv b"
  "completed_inv (b\<lparr>completedMaintenanceOps := m\<rparr>) = completed_inv b"
  by (simp_all add: completed_inv_def)

lemma completed_len: "completed_inv b \<Longrightarrow> length (completedGroups b) = length (completedQueue b)"
  by (simp add: completed_inv_def gm_card)

lemma pop_queue:
  assumes "completedHead b < length (completedOrder b)"
  shows "completedQueue (popCompletedGroup b) = tl (completedQueue b)"
  using assms
  by (auto simp: popCompletedGroup_def completedQueue_def Let_def drop_Suc tl_drop map_tl [symmetric])

lemma pop_id: "\<not> completedHead b < length (completedOrder b) \<Longrightarrow> popCompletedGroup b = b"
  by (simp add: popCompletedGroup_def)

lemma queue_Cons:
  assumes "completedHead b < length (completedOrder b)"
  shows "completedQueue b = (completedID (completedOrder b ! completedHead b),
    completedAt (completedOrder b ! completedHead b)) # tl (completedQueue b)"
  using assms by (simp add: completedQueue_def Cons_nth_drop_Suc [symmetric])

lemma pop_completed:
  assumes "completed_inv b" "completedHead b < length (completedOrder b)"
  shows "completedGroups (popCompletedGroup b) =
    gm_del (completedGroups b) (completedID (completedOrder b ! completedHead b))"
proof -
  have "gm_get (completedGroups b) (completedID (completedOrder b ! completedHead b)) =
      Some (completedAt (completedOrder b ! completedHead b))"
    using assms(1) by (simp add: completed_inv_def) (subst queue_Cons [OF assms(2)], simp)
  then show ?thesis using assms(2) by (simp add: popCompletedGroup_def Let_def)
qed

lemma pop_head:
  assumes "completed_inv b" "completedHead b < length (completedOrder b)"
  shows "completedHead (popCompletedGroup b) < MaxFECCompletedGroups \<and>
    completedHead (popCompletedGroup b) \<le> length (completedOrder (popCompletedGroup b))"
proof -
  have "length (completedOrder b) - completedHead b \<le> MaxFECCompletedGroups"
    and "completedHead b < MaxFECCompletedGroups"
    using assms by (auto simp: completed_inv_def completedQueue_def)
  then show ?thesis using assms(2)
    by (auto simp: popCompletedGroup_def Let_def MaxFECCompletedGroups_def)
qed

lemma completed_inv_pop: "completed_inv b \<Longrightarrow> completed_inv (popCompletedGroup b)"
proof (cases "completedHead b < length (completedOrder b)")
  case True
  assume inv: "completed_inv b"
  let ?q = "completedQueue b" and ?e = "completedOrder b ! completedHead b"
  have q: "?q = (completedID ?e, completedAt ?e) # tl ?q" by (rule queue_Cons [OF True])
  have okq: "gm_ok ?q" and ok: "gm_ok (completedGroups b)"
    and eq: "gm_get (completedGroups b) = gm_get ?q" and len: "length ?q \<le> MaxFECCompletedGroups"
    using inv by (auto simp: completed_inv_def)
  have "gm_ok ((completedID ?e, completedAt ?e) # tl ?q)" using okq q by simp
  then have tl: "gm_ok (tl ?q)" "gm_get (tl ?q) (completedID ?e) = None"
    by (auto simp: gm_ok_def map_of_eq_None_iff)
  have "gm_get (gm_del (completedGroups b) (completedID ?e)) = gm_get (tl ?q)"
  proof
    fix k
    have "gm_get ?q k = (if k = completedID ?e then Some (completedAt ?e) else gm_get (tl ?q) k)"
      by (subst q) simp
    then show "gm_get (gm_del (completedGroups b) (completedID ?e)) k = gm_get (tl ?q) k"
      using tl(2) by (simp add: gm_get_del eq)
  qed
  then show ?thesis
    using pop_head [OF inv True] ok tl(1) len
    by (simp add: completed_inv_def pop_completed [OF inv True] pop_queue [OF True])
next
  case False
  then show "completed_inv b \<Longrightarrow> ?thesis" by (simp add: pop_id)
qed

text \<open>Remembering a group appends it to the queue and drops the oldest entry of a full one.\<close>

lemma remember_queue:
  assumes inv: "completed_inv b" and new: "gm_get (completedGroups b) gid = None"
  shows "completedQueue (rememberCompletedGroup gid now b) =
    (if length (completedQueue b) \<ge> MaxFECCompletedGroups then tl (completedQueue b)
     else completedQueue b) @ [(gid, now)]"
proof -
  have app: "completedQueue (x\<lparr>completedGroups := c,
      completedOrder := completedOrder x @ [\<lparr>completedID = gid, completedAt = now\<rparr>]\<rparr>) =
      completedQueue x @ [(gid, now)]"
    if "completedHead x \<le> length (completedOrder x)" for x c
    using that by (simp add: completedQueue_def)
  show ?thesis
  proof (cases "length (completedGroups b) \<ge> MaxFECCompletedGroups")
    case True
    then have "0 < length (completedQueue b)"
      using completed_len [OF inv] by (cases "completedQueue b") (auto simp: MaxFECCompletedGroups_def)
    then have h: "completedHead b < length (completedOrder b)" by (simp add: completedQueue_def)
    show ?thesis using True new completed_len [OF inv] pop_head [OF inv h]
      by (simp add: rememberCompletedGroup_def Let_def app pop_queue [OF h])
  next
    case False
    then show ?thesis using new completed_len [OF inv] inv
      by (simp add: rememberCompletedGroup_def Let_def app completed_inv_def)
  qed
qed

lemma gm_ok_append1: "gm_ok m \<Longrightarrow> gm_get m k = None \<Longrightarrow> gm_ok (m @ [(k, v)])"
  by (simp add: gm_ok_def map_of_eq_None_iff)

lemma gm_get_append1: "gm_get m k = None \<Longrightarrow> gm_get (m @ [(k, v)]) = (gm_get m)(k \<mapsto> v)"
  by (rule ext) (auto simp: map_add_def split: option.splits)

lemma completed_inv_append:
  assumes inv: "completed_inv b" and new: "gm_get (completedGroups b) gid = None"
    and len: "length (completedQueue b) < MaxFECCompletedGroups"
  shows "completed_inv (b\<lparr>completedGroups := gm_set (completedGroups b) gid now,
    completedOrder := completedOrder b @ [\<lparr>completedID = gid, completedAt = now\<rparr>]\<rparr>)"
proof -
  have q: "completedQueue (b\<lparr>completedGroups := gm_set (completedGroups b) gid now,
      completedOrder := completedOrder b @ [\<lparr>completedID = gid, completedAt = now\<rparr>]\<rparr>) =
      completedQueue b @ [(gid, now)]"
    using inv by (simp add: completedQueue_def completed_inv_def)
  have none: "gm_get (completedQueue b) gid = None" using inv new by (simp add: completed_inv_def)
  have eq: "gm_get (gm_set (completedGroups b) gid now) =
      (gm_get (completedQueue b))(gid \<mapsto> now)"
    using inv by (auto simp: gm_get_set completed_inv_def)
  show ?thesis unfolding completed_inv_def q
    using inv len none
    by (simp add: completed_inv_def eq gm_ok_append1 gm_get_append1 del: map_of_append)
qed

lemma remember_eq:
  assumes "gm_get (completedGroups b) gid = None"
  shows "rememberCompletedGroup gid now b =
    (let b = (if length (completedGroups b) \<ge> MaxFECCompletedGroups then popCompletedGroup b else b)
     in b\<lparr>completedGroups := gm_set (completedGroups b) gid now,
          completedOrder := completedOrder b @ [\<lparr>completedID = gid, completedAt = now\<rparr>]\<rparr>)"
  using assms by (simp add: rememberCompletedGroup_def)

lemma completed_inv_remember: "completed_inv b \<Longrightarrow> completed_inv (rememberCompletedGroup gid now b)"
proof (cases "gm_get (completedGroups b) gid")
  case None
  assume inv: "completed_inv b"
  show ?thesis
  proof (cases "length (completedGroups b) \<ge> MaxFECCompletedGroups")
    case True
    then have l: "length (completedQueue b) = MaxFECCompletedGroups"
      using inv completed_len [OF inv] by (simp add: completed_inv_def)
    then have h: "completedHead b < length (completedOrder b)"
      by (simp add: completedQueue_def MaxFECCompletedGroups_def)
    have "completed_inv (popCompletedGroup b)" by (rule completed_inv_pop [OF inv])
    moreover have "gm_get (completedGroups (popCompletedGroup b)) gid = None"
      using None by (simp add: pop_completed [OF inv h] gm_get_del)
    moreover have "length (completedQueue (popCompletedGroup b)) < MaxFECCompletedGroups"
      using l by (simp add: pop_queue [OF h] MaxFECCompletedGroups_def)
    ultimately show ?thesis
      using True by (simp add: remember_eq [OF None] Let_def completed_inv_append)
  next
    case False
    then show ?thesis using inv None completed_len [OF inv]
      by (simp add: remember_eq [OF None] Let_def completed_inv_append)
  qed
next
  case (Some t)
  then show "completed_inv b \<Longrightarrow> ?thesis" by (simp add: rememberCompletedGroup_def)
qed

text \<open>The purge loop keeps whatever its two steps (counting and popping) keep.\<close>

lemma purgeCompleted_keeps:
  assumes ops: "\<And>b m. P b \<Longrightarrow> P (b\<lparr>completedMaintenanceOps := m\<rparr>)"
    and pop: "\<And>b. P b \<Longrightarrow> P (popCompletedGroup b)" and b: "P b"
  shows "P (purgeCompleted now b)"
  using b
proof (induction now b rule: purgeCompleted.induct)
  case (1 now b)
  let ?b = "b\<lparr>completedMaintenanceOps := completedMaintenanceOps b + 1\<rparr>"
  have "P (popCompletedGroup ?b)" using "1.prems" by (intro pop ops)
  with "1" ops show ?case by (subst purgeCompleted.simps) (auto simp: Let_def)
qed

lemma completed_inv_purge: "completed_inv b \<Longrightarrow> completed_inv (purgeCompleted now b)"
  by (rule purgeCompleted_keeps) (auto intro: completed_inv_pop)

section \<open>The resource invariant\<close>

definition group_ok :: "FECGroupState \<Rightarrow> bool" where
  "group_ok g \<longleftrightarrow> 1 \<le> DataShards g \<and> DataShards g < length (Shards g) \<and>
     int (length (Shards g)) \<le> MaxFECTotalShards \<and> length (Delivered g) = DataShards g \<and>
     (\<forall>s\<in>set (Shards g). length s \<le> maxTGPDataPayloadSize)"

definition pending_inv :: "FECReceiveBuffer \<Rightarrow> bool" where
  "pending_inv b \<longleftrightarrow> gm_ok (groups b) \<and>
     (\<forall>k g. gm_get (groups b) k = Some g \<longrightarrow> GroupID g = k \<and> group_ok g) \<and>
     length (groups b) \<le> maxGroups b \<and> int (maxGroups b) \<le> MaxFECReceiveGroups \<and>
     0 \<le> bufferedBytes b \<and> bufferedBytes b \<le> maxBufferedBytes b \<and>
     maxBufferedBytes b = MaxFECReceiveBufferedByte"

definition fec_inv :: "FECReceiveBuffer \<Rightarrow> bool" where
  "fec_inv b \<longleftrightarrow> pending_inv b \<and> completed_inv b \<and>
     dom (gm_get (groups b)) \<inter> dom (gm_get (completedGroups b)) = {}"

text \<open>\<open>b'\<close> holds no more than \<open>b\<close>, and the same completed groups.\<close>

definition shrunk :: "FECReceiveBuffer \<Rightarrow> FECReceiveBuffer \<Rightarrow> bool" where
  "shrunk b b' \<longleftrightarrow>
     (gm_ok (groups b) \<longrightarrow> gm_ok (groups b')) \<and> gm_get (groups b') \<subseteq>\<^sub>m gm_get (groups b) \<and>
     length (groups b') \<le> length (groups b) \<and>
     (0 \<le> bufferedBytes b \<longrightarrow> 0 \<le> bufferedBytes b' \<and> bufferedBytes b' \<le> bufferedBytes b) \<and>
     maxGroups b' = maxGroups b \<and> maxBufferedBytes b' = maxBufferedBytes b \<and>
     completedGroups b' = completedGroups b \<and> completedOrder b' = completedOrder b \<and>
     completedHead b' = completedHead b"

lemma shrunk_refl [simp]: "shrunk b b"
  by (simp add: shrunk_def)

lemma shrunk_trans: "shrunk a b \<Longrightarrow> shrunk b c \<Longrightarrow> shrunk a c"
  by (auto simp: shrunk_def intro: map_le_trans)

lemma pending_inv_shrunk: "shrunk b b' \<Longrightarrow> pending_inv b \<Longrightarrow> pending_inv b'"
  by (auto simp: shrunk_def pending_inv_def map_le_def domI) (metis domI)+

lemma fec_inv_shrunk: "shrunk b b' \<Longrightarrow> fec_inv b \<Longrightarrow> fec_inv b'"
proof -
  assume s: "shrunk b b'" and i: "fec_inv b"
  have "completed_inv b'"
    using s i by (simp add: shrunk_def fec_inv_def completed_inv_def completedQueue_def)
  moreover have "dom (gm_get (groups b')) \<subseteq> dom (gm_get (groups b))"
    using s by (auto simp: shrunk_def dest: map_le_implies_dom_le)
  ultimately show ?thesis
    using s i pending_inv_shrunk [OF s] by (auto simp: fec_inv_def shrunk_def)
qed

lemma release_eq:
  "releaseGroupShards g b =
     b\<lparr>bufferedBytes := max 0 (bufferedBytes b - int (sum_list (map length (Shards g))))\<rparr>"
proof -
  have "foldl (\<lambda>n s. n - int (length s)) n ss = n - int (sum_list (map length ss))" for n and ss :: "bytes list"
    by (induction ss arbitrary: n) auto
  then show ?thesis by (simp add: releaseGroupShards_def Let_def)
qed

lemma gm_get_del_le: "gm_get (gm_del m k) \<subseteq>\<^sub>m gm_get m"
  by (auto simp: map_le_def gm_get_del)

lemma shrunk_release: "shrunk b ((releaseGroupShards g b)\<lparr>groups := gm_del (groups b) k\<rparr>)"
  by (simp add: shrunk_def release_eq gm_get_del_le gm_len_del_le)

lemma shrunk_purgePending: "shrunk b (purgePending now b)"
proof -
  have "shrunk b (foldl (\<lambda>b (gid, g). if now - groupReceivedAt g \<ge> fecReceiveGroupLifetime
      then (releaseGroupShards g b)\<lparr>groups := gm_del (groups b) gid\<rparr> else b) b L)" for L
  proof (induction L arbitrary: b)
    case Nil
    show ?case by simp
  next
    case (Cons e L)
    then show ?case by (cases e) (auto intro: shrunk_trans shrunk_release)
  qed
  then show ?thesis by (simp add: purgePending_def)
qed

text \<open>The fields that only the completed-group operations write.\<close>

lemma pop_frame [simp]:
  "groups (popCompletedGroup b) = groups b" "bufferedBytes (popCompletedGroup b) = bufferedBytes b"
  "maxGroups (popCompletedGroup b) = maxGroups b"
  "maxBufferedBytes (popCompletedGroup b) = maxBufferedBytes b"
  by (simp_all add: popCompletedGroup_def Let_def)

lemma remember_frame [simp]:
  "groups (rememberCompletedGroup gid now b) = groups b"
  "bufferedBytes (rememberCompletedGroup gid now b) = bufferedBytes b"
  "maxGroups (rememberCompletedGroup gid now b) = maxGroups b"
  "maxBufferedBytes (rememberCompletedGroup gid now b) = maxBufferedBytes b"
  by (simp_all add: rememberCompletedGroup_def Let_def)

lemma purgeCompleted_frame [simp]:
  "groups (purgeCompleted now b) = groups b"
  "bufferedBytes (purgeCompleted now b) = bufferedBytes b"
  "maxGroups (purgeCompleted now b) = maxGroups b"
  "maxBufferedBytes (purgeCompleted now b) = maxBufferedBytes b"
  by (rule purgeCompleted_keeps; simp)+

lemma pop_completed_dom:
  "gm_ok (completedGroups b) \<Longrightarrow>
     dom (gm_get (completedGroups (popCompletedGroup b))) \<subseteq> dom (gm_get (completedGroups b)) \<and>
     gm_ok (completedGroups (popCompletedGroup b))"
  by (auto simp: popCompletedGroup_def Let_def gm_get_del split: if_splits)

lemma purgeCompleted_dom:
  assumes "gm_ok (completedGroups b)"
  shows "dom (gm_get (completedGroups (purgeCompleted now b))) \<subseteq> dom (gm_get (completedGroups b))"
proof -
  have "gm_ok (completedGroups (purgeCompleted now b)) \<and>
    dom (gm_get (completedGroups (purgeCompleted now b))) \<subseteq> dom (gm_get (completedGroups b))"
  proof (rule purgeCompleted_keeps)
    fix x :: FECReceiveBuffer
    assume "gm_ok (completedGroups x) \<and>
      dom (gm_get (completedGroups x)) \<subseteq> dom (gm_get (completedGroups b))"
    then show "gm_ok (completedGroups (popCompletedGroup x)) \<and>
      dom (gm_get (completedGroups (popCompletedGroup x))) \<subseteq> dom (gm_get (completedGroups b))"
      by (meson pop_completed_dom subset_trans)
  qed (use assms in simp_all)
  then show ?thesis by blast
qed

lemma remember_dom:
  assumes "gm_ok (completedGroups b)"
  shows "dom (gm_get (completedGroups (rememberCompletedGroup gid now b))) \<subseteq>
     insert gid (dom (gm_get (completedGroups b)))"
proof -
  have "dom (gm_get (gm_set m gid now)) = insert gid (dom (gm_get m))" for m
    by (auto simp: gm_get_set split: if_splits)
  then show ?thesis using pop_completed_dom [OF assms]
    by (simp add: rememberCompletedGroup_def Let_def) blast
qed

lemma fec_inv_purge: "fec_inv b \<Longrightarrow> fec_inv (purgeExpiredGroups now b)"
proof -
  assume "fec_inv b"
  then have i: "fec_inv (purgePending now b)" by (rule fec_inv_shrunk [OF shrunk_purgePending])
  let ?b = "purgePending now b"
  have "gm_ok (completedGroups ?b)" using i by (simp add: fec_inv_def completed_inv_def)
  from purgeCompleted_dom [OF this, of now] i
  have "dom (gm_get (groups ?b)) \<inter> dom (gm_get (completedGroups (purgeCompleted now ?b))) = {}"
    unfolding fec_inv_def by blast
  then show ?thesis using i
    by (simp add: purgeExpiredGroups_def fec_inv_def completed_inv_purge pending_inv_def)
qed

text \<open>Writing a well-shaped group back keeps the invariant.\<close>

lemma fec_inv_putGroup:
  assumes i: "fec_inv b" and k: "gm_has (groups b) (GroupID g)" and g: "group_ok g"
  shows "fec_inv (putGroup g b)"
proof -
  have "dom (gm_get (gm_set (groups b) (GroupID g) g)) = dom (gm_get (groups b))"
    using k by (auto simp: gm_get_set split: if_splits)
  moreover have "length (gm_set (groups b) (GroupID g) g) = length (groups b)"
    using i k by (auto simp: gm_len_set fec_inv_def pending_inv_def)
  ultimately show ?thesis using i g
    by (auto simp: fec_inv_def pending_inv_def gm_get_set)
qed

lemma fec_inv_complete:
  assumes i: "fec_inv b"
  shows "fec_inv (completeGroupIfDelivered now g b)"
proof (cases "\<exists>x\<in>set (Delivered g). \<not> x")
  case True
  then show ?thesis using i by (simp add: completeGroupIfDelivered_def)
next
  case False
  let ?b = "(releaseGroupShards g b)\<lparr>groups := gm_del (groups b) (GroupID g)\<rparr>"
  have ib: "fec_inv ?b" by (rule fec_inv_shrunk [OF shrunk_release i])
  have eq: "completeGroupIfDelivered now g b = rememberCompletedGroup (GroupID g) now ?b"
    using False by (auto simp: completeGroupIfDelivered_def release_eq Let_def)
  have "gm_ok (completedGroups ?b)" using ib by (simp add: fec_inv_def completed_inv_def)
  note d = remember_dom [OF this, of "GroupID g" now]
  have nd: "GroupID g \<notin> dom (gm_get (groups ?b))" by (simp add: domIff)
  have "dom (gm_get (groups ?b)) \<inter> dom (gm_get (completedGroups ?b)) = {}"
    using ib by (simp only: fec_inv_def)
  with d nd have "dom (gm_get (groups ?b)) \<inter>
      dom (gm_get (completedGroups (rememberCompletedGroup (GroupID g) now ?b))) = {}"
    by blast
  moreover have "pending_inv (rememberCompletedGroup gid now x)" if "pending_inv x" for gid x
    using that by (simp add: pending_inv_def)
  moreover have "pending_inv ?b" "completed_inv ?b" using ib by (simp_all only: fec_inv_def)
  ultimately show ?thesis
    unfolding eq fec_inv_def remember_frame by (blast intro: completed_inv_remember)
qed


lemma group_okD:
  assumes "fec_inv b" "gm_get (groups b) k = Some g"
  shows "GroupID g = k" "group_ok g"
  using assms by (auto simp: fec_inv_def pending_inv_def)

lemma deliverMissing_length:
  "length (snd (deliverMissing shards is delivered)) = length delivered"
proof (induction "is" arbitrary: delivered)
  case Nil
  show ?case by simp
next
  case (Cons i "is")
  have "length (snd (deliverMissing shards is (delivered[i := True]))) = length delivered"
    using Cons.IH [of "delivered[i := True]"] by simp
  then show ?case by (auto split: sum.splits prod.splits)
qed

lemma normalize_length [simp]: "length (normalizeFECShardLengths shards) = length shards"
  by (simp add: normalizeFECShardLengths_def Let_def)

lemma maxSize_bound:
  fixes ss :: "bytes list"
  assumes "\<forall>s\<in>set ss. length s \<le> m"
  shows "k \<le> m \<Longrightarrow> foldl (\<lambda>m s. if length s > m then length s else m) k ss \<le> m"
  using assms by (induction ss arbitrary: k) auto

lemma normalize_bound:
  assumes "\<forall>s\<in>set shards. length s \<le> m"
  shows "\<forall>s\<in>set (normalizeFECShardLengths shards). length s \<le> m"
  using assms maxSize_bound [OF assms, of 0]
  by (auto simp: normalizeFECShardLengths_def Let_def)

text \<open>\<open>rs_shape\<close> is the part of the contract the invariant needs.\<close>

lemma rs_shape:
  assumes "rs_keeps R" "rs_reconstruct R d p got = Some full" "\<forall>s\<in>set got. length s \<le> m"
  shows "length full = length got \<and> (\<forall>s\<in>set full. length s \<le> m)"
  using assms unfolding rs_keeps_def by blast

lemma FEC_Reconstruct_shape:
  assumes R: "rs_keeps R" and s: "\<forall>s\<in>set shards. length s \<le> m"
    and r: "FEC_Reconstruct R shards d p = (e, shards')"
  shows "length shards' = length shards \<and> (\<forall>s\<in>set shards'. length s \<le> m)"
proof -
  note n = normalize_bound [OF s]
  show ?thesis
  proof (cases "rs_reconstruct R (nat d) (nat p) (normalizeFECShardLengths shards)")
    case None
    then show ?thesis using r s n
      by (auto simp: FEC_Reconstruct_def Let_def split: option.splits if_splits)
  next
    case (Some full)
    have "length full = length shards \<and> (\<forall>s\<in>set full. length s \<le> m)"
      using rs_shape [OF R Some n] by simp
    then show ?thesis using r s Some
      by (auto simp: FEC_Reconstruct_def Let_def split: option.splits if_splits bool.splits)
  qed
qed

lemma group_ok_Shards:
  assumes "group_ok g" "length shards = length (Shards g)"
    "\<forall>s\<in>set shards. length s \<le> maxTGPDataPayloadSize"
  shows "group_ok (g\<lparr>Shards := shards\<rparr>)"
  using assms by (simp add: group_ok_def)

lemma fec_inv_recover:
  assumes R: "rs_keeps R" and i: "fec_inv b" and g: "gm_has (groups b) (GroupID g)" "group_ok g"
  shows "fec_inv (snd (recoverGroup R now g b))"
proof -
  obtain e shards where r: "FEC_Reconstruct R (Shards g) (int (DataShards g))
      (int (length (Shards g)) - int (DataShards g)) = (e, shards)" by fastforce
  obtain res delivered where d: "deliverMissing shards (missingDataShardIndexes g) (Delivered g) =
      (res, delivered)" by fastforce
  have sh: "group_ok (g\<lparr>Shards := shards\<rparr>)"
    using FEC_Reconstruct_shape [OF R _ r] g(2) by (intro group_ok_Shards) (auto simp: group_ok_def)
  have del: "group_ok (g\<lparr>Shards := shards, Recovered := True, Delivered := delivered\<rparr>)"
    using sh deliverMissing_length [of shards "missingDataShardIndexes g" "Delivered g"]
    by (simp add: group_ok_def d)
  have put: "fec_inv (putGroup x b)" if "group_ok x" "GroupID x = GroupID g" for x
    using fec_inv_putGroup [OF i, of x] that g(1) by simp
  show ?thesis
    using i put [OF sh] put [OF del]
    by (auto simp: recoverGroup_def Let_def r d split: option.splits sum.splits
        intro!: fec_inv_complete)
qed

lemma group_ok_store:
  assumes "group_ok g" "length x \<le> maxTGPDataPayloadSize"
  shows "group_ok (g\<lparr>Shards := (Shards g)[i := x]\<rparr>)"
  using assms set_update_subset_insert [of "Shards g" i x] by (auto simp: group_ok_def)

lemma fec_inv_store:
  assumes R: "rs_keeps R" and i: "fec_inv b" and g: "gm_has (groups b) (GroupID g)" "group_ok g"
    and p: "length (Payload packet) \<le> maxTGPDataPayloadSize"
  shows "fec_inv (snd (storeShard R now packet g b))"
proof -
  define index where "index = unat (FECIndex (Inner packet))"
  let ?b = "b\<lparr>bufferedBytes := bufferedBytes b + int (length (Payload packet))\<rparr>"
  let ?g = "g\<lparr>Shards := (Shards g)[index := Payload packet]\<rparr>"
  have g': "group_ok ?g" by (rule group_ok_store [OF g(2) p])
  have b': "fec_inv ?b" if "\<not> bufferedBytes b + int (length (Payload packet)) > maxBufferedBytes b"
    using i that by (simp add: fec_inv_def pending_inv_def)
  have put: "fec_inv (putGroup x ?b)"
    if "\<not> bufferedBytes b + int (length (Payload packet)) > maxBufferedBytes b"
      "group_ok x" "GroupID x = GroupID g" for x
    using fec_inv_putGroup [OF b' [OF that(1)], of x] that g(1) by simp
  have put2: "fec_inv (putGroup y (putGroup x ?b))"
    if "\<not> bufferedBytes b + int (length (Payload packet)) > maxBufferedBytes b"
      "group_ok x" "GroupID x = GroupID g" "group_ok y" "GroupID y = GroupID g" for x y
    using fec_inv_putGroup [OF put [OF that(1-3)], of y] that by simp
  have del: "group_ok (?g\<lparr>Delivered := (Delivered ?g)[index := True]\<rparr>)"
    using g' by (simp add: group_ok_def)
  have rec: "fec_inv (snd (recoverGroup R now ?g (putGroup ?g ?b)))"
    if "\<not> bufferedBytes b + int (length (Payload packet)) > maxBufferedBytes b"
    using fec_inv_recover [OF R put [OF that g'], of ?g now] g' by simp
  show ?thesis
    unfolding storeShard_def Let_def index_def [symmetric]
    using i rec put [OF _ g'] put2 [OF _ g' _ del]
    by (auto split: sum.splits intro!: fec_inv_complete)
qed

lemma fec_inv_group:
  assumes i: "fec_inv b" and r: "fecGroup now h b = Inr (g, b')"
    and v: "validateFECParams (uint (FECDataShards h)) (uint (FECTotal h) - uint (FECDataShards h)) = None"
    and c: "gm_get (completedGroups b) (FECGroup h) = None"
  shows "fec_inv b' \<and> gm_get (groups b') (FECGroup h) = Some g"
proof (cases "gm_get (groups b) (FECGroup h)")
  case (Some x)
  then show ?thesis using r i by (simp add: fecGroup_def)
next
  case None
  have room: "length (groups b) < maxGroups b"
    and b': "b' = b\<lparr>groups := gm_set (groups b) (FECGroup h) g\<rparr>"
    and g: "g = \<lparr>GroupID = FECGroup h, DataShards = unat (FECDataShards h),
       Shards = replicate (unat (FECTotal h)) [],
       Delivered = replicate (unat (FECDataShards h)) False,
       groupReceivedAt = now, Recovered = False\<rparr>"
    using r None by (auto simp: fecGroup_def Let_def split: if_splits)
  have u: "uint (FECDataShards h) = int (unat (FECDataShards h))"
    "uint (FECTotal h) = int (unat (FECTotal h))" by simp_all
  have gok: "group_ok g"
    using v unfolding u by (simp add: g group_ok_def validateFECParams_def fec_limits
        del: of_nat_unat split: if_splits)
  have len: "length (gm_set (groups b) (FECGroup h) g) \<le> maxGroups b"
    using room i None by (simp add: gm_len_set fec_inv_def pending_inv_def)
  have "dom (gm_get (gm_set (groups b) (FECGroup h) g)) = insert (FECGroup h) (dom (gm_get (groups b)))"
    by (auto simp: gm_get_set split: if_splits)
  moreover have "GroupID g = FECGroup h" by (simp add: g)
  ultimately have "fec_inv b'"
    using i gok len c by (auto simp: b' fec_inv_def pending_inv_def gm_get_set)
  then show ?thesis by (simp add: b')
qed

lemma fec_inv_AddPacket:
  assumes R: "rs_keeps R" and i: "fec_inv b"
  shows "fec_inv (snd (AddPacket R now b packet))"
proof -
  let ?h = "Inner packet" and ?b = "purgeExpiredGroups now b"
  have ib: "fec_inv ?b" by (rule fec_inv_purge [OF i])
  have "fec_inv (snd (storeShard R now packet g b'))"
    if "fecGroup now ?h ?b = Inr (g, b')" "gm_get (completedGroups ?b) (FECGroup ?h) = None"
      "validateFECParams (uint (FECDataShards ?h)) (uint (FECTotal ?h) - uint (FECDataShards ?h)) = None"
      "length (Payload packet) \<le> maxTGPDataPayloadSize" for g b'
  proof -
    note f = fec_inv_group [OF ib that(1,3,2)]
    have "GroupID g = FECGroup ?h" "group_ok g" using f group_okD by blast+
    then show ?thesis using f that(4) by (intro fec_inv_store [OF R]) auto
  qed
  moreover have "fec_inv b'" if "fecGroup now ?h ?b = Inr (g, b')"
      "gm_get (completedGroups ?b) (FECGroup ?h) = None"
      "validateFECParams (uint (FECDataShards ?h)) (uint (FECTotal ?h) - uint (FECDataShards ?h)) = None"
    for g b'
    using fec_inv_group [OF ib that(1,3,2)] by blast
  ultimately show ?thesis
    using i ib unfolding AddPacket_def Let_def by (auto split: option.splits sum.splits)
qed

end
