(* ===== verification/FEC_Recovery.thy ===== *)
theory FEC_Recovery
  imports FEC_Receive
begin

text \<open>
  End to end over one FEC group: what \<open>Encode\<close> produces on the sender, which shards the
  receiver may hold of it, and that a parity shard that completes the quorum brings back
  every missing payload. The last section is about the arrivals that do not.
\<close>

section \<open>What the sender encodes\<close>

abbreviation payload_at :: "bytes list \<Rightarrow> nat \<Rightarrow> bytes" where
  "payload_at data i \<equiv> if i < length data then data ! i else []"

lemma fecShardSize_Inr:
  "fecShardSize k data = Inr n \<Longrightarrow>
     k \<le> n \<and> (\<forall>s\<in>set data. length s + 2 \<le> n) \<and> (k \<le> 1380 \<longrightarrow> n \<le> 1380)"
  by (induction data arbitrary: k) (fastforce simp: fec_sizes split: if_splits)+

lemma fecShardSize_ok:
  "\<forall>s\<in>set data. length s + 2 \<le> 1380 \<Longrightarrow> \<exists>n. fecShardSize k data = Inr n"
  by (induction data arbitrary: k) (auto simp: fec_sizes)

lemma frameAll_Inr:
  "frameAll xs n = Inr fs \<Longrightarrow>
     length fs = length xs \<and> (\<forall>i<length xs. frameFECData (xs ! i) n = Inr (fs ! i))"
proof (induction xs arbitrary: fs)
  case Nil
  then show ?case by simp
next
  case (Cons x xs)
  then obtain f fs' where "frameFECData x n = Inr f" "frameAll xs n = Inr fs'" "fs = f # fs'"
    by (auto split: sum.splits)
  then show ?case using Cons.IH [of fs'] by (auto simp: nth_Cons split: nat.splits)
qed

lemma frameAll_ok:
  "n \<le> 1380 \<Longrightarrow> \<forall>x\<in>set xs. length x + 2 \<le> n \<Longrightarrow> \<exists>fs. frameAll xs n = Inr fs"
proof (induction xs)
  case Nil
  then show ?case by simp
next
  case (Cons x xs)
  then have "frameFECData x n = Inr (put_u16 (of_nat (length x)) @ x @ zeros (n - 2 - length x))"
    by (auto simp: frameFECData_Inr)
  with Cons show ?case by auto
qed

lemma rs_codesD:
  assumes "rs_codes R d p" "0 < n" "length shards = d + p" "\<forall>s\<in>set shards. length s = n"
  obtains full where "rs_encode R d p shards = Some full" "codeword R d p n full"
    "take d full = take d shards"
  using assms unfolding rs_codes_def by blast

lemma validateFECParams_None:
  "validateFECParams d p = None \<longleftrightarrow> 1 \<le> d \<and> d \<le> 32 \<and> 1 \<le> p \<and> p \<le> 16"
  by (auto simp: validateFECParams_def fec_limits)

lemma FEC_Encode_codeword:
  assumes R: "rs_codes R d p" and e: "FEC_Encode R data (int d) (int p) = Inr full"
  obtains n where "codeword R d p n full" "n \<le> 1380" "length data \<le> d"
    "validateFECParams (int d) (int p) = None"
    "\<And>i. i < d \<Longrightarrow> frameFECData (payload_at data i) n = Inr (full ! i)"
proof -
  obtain n framed where v: "validateFECParams (int d) (int p) = None" and l: "length data \<le> d"
    and n: "fecShardSize fecLengthPrefixSize data = Inr n"
    and f: "frameAll (data @ replicate (d - length data) []) n = Inr framed"
    and enc: "rs_encode R d p (framed @ replicate p (zeros n)) = Some full"
    using e by (auto simp: FEC_Encode_def split: option.splits sum.splits if_splits)
  have n2: "2 \<le> n" "n \<le> 1380"
    using fecShardSize_Inr [OF n] by (auto simp: fec_sizes)
  have lf: "length framed = d" using frameAll_Inr [OF f] l by simp
  have fr: "frameFECData (payload_at data i) n = Inr (framed ! i)" if "i < d" for i
    using frameAll_Inr [OF f] that l by (auto simp: nth_append)
  have "length s = n" if "s \<in> set framed" for s
    using that fr lf frameFECData_length by (metis in_set_conv_nth)
  then have all: "\<forall>s\<in>set (framed @ replicate p (zeros n)). length s = n" by auto
  obtain full' where "rs_encode R d p (framed @ replicate p (zeros n)) = Some full'"
    and cw: "codeword R d p n full'" and tk: "take d full' = take d (framed @ replicate p (zeros n))"
    by (rule rs_codesD [OF R _ _ all]) (use n2 lf in auto)
  with enc have "full' = full" by simp
  moreover have "full ! i = framed ! i" if "i < d" for i
    using tk that lf \<open>full' = full\<close> by (metis append_eq_conv_conj nth_take)
  ultimately show ?thesis using that cw n2 l v fr by simp
qed

lemma FEC_Encode_ok:
  assumes R: "rs_codes R d p" and v: "validateFECParams (int d) (int p) = None" and l: "length data \<le> d"
    and s: "\<forall>x\<in>set data. length x + 2 \<le> maxTGPDataPayloadSize"
  shows "\<exists>full. FEC_Encode R data (int d) (int p) = Inr full"
proof -
  obtain n where n: "fecShardSize fecLengthPrefixSize data = Inr n"
    using fecShardSize_ok [of data fecLengthPrefixSize] s by (auto simp: fec_sizes)
  have n2: "2 \<le> n" "n \<le> 1380" "\<forall>x\<in>set data. length x + 2 \<le> n"
    using fecShardSize_Inr [OF n] by (auto simp: fec_sizes)
  obtain framed where f: "frameAll (data @ replicate (d - length data) []) n = Inr framed"
  proof -
    have "\<forall>x\<in>set (data @ replicate (d - length data) []). length x + 2 \<le> n"
      using n2 by (auto simp: set_replicate_conv_if)
    then show ?thesis using frameAll_ok [OF n2(2)] that by blast
  qed
  have "length s = n" if "s \<in> set framed" for s
    using that frameAll_Inr [OF f] frameFECData_length by (metis in_set_conv_nth)
  then have all: "\<forall>s\<in>set (framed @ replicate p (zeros n)). length s = n" by auto
  have lf: "length framed = d" using frameAll_Inr [OF f] l by simp
  obtain full where "rs_encode R d p (framed @ replicate p (zeros n)) = Some full"
    by (rule rs_codesD [OF R _ _ all]) (use n2 lf in auto)
  with v l n f show ?thesis by (auto simp: FEC_Encode_def)
qed

section \<open>What the receiver holds\<close>

text \<open>
  Data shards travel in their smallest frame, parity shards at full size. \<open>holds data full g\<close>:
  every slot of the group is empty or carries its shard of this group, in either form.
\<close>

definition shard_of :: "bytes list \<Rightarrow> bytes list \<Rightarrow> nat \<Rightarrow> nat \<Rightarrow> bytes \<Rightarrow> bool" where
  "shard_of data full d i s \<longleftrightarrow> s = full ! i \<or>
     i < d \<and> frameFECData (payload_at data i) (length (payload_at data i) + 2) = Inr s"

definition holds :: "bytes list \<Rightarrow> bytes list \<Rightarrow> FECGroupState \<Rightarrow> bool" where
  "holds data full g \<longleftrightarrow> length (Shards g) = length full \<and>
     (\<forall>i<length full. Shards g ! i = [] \<or> shard_of data full (DataShards g) i (Shards g ! i))"

lemma maxSize_ge:
  fixes ss :: "bytes list"
  shows "k \<le> foldl (\<lambda>m s. if length s > m then length s else m) k ss"
    "s \<in> set ss \<Longrightarrow> length s \<le> foldl (\<lambda>m s. if length s > m then length s else m) k ss"
proof -
  have mono: "j \<le> foldl (\<lambda>m s. if length s > m then length s else m) j ss" for j and ss :: "bytes list"
  proof (induction ss arbitrary: j)
    case (Cons x ss)
    then show ?case by (auto intro: order_trans [OF less_imp_le])
  qed simp
  then show "k \<le> foldl (\<lambda>m s. if length s > m then length s else m) k ss" .
  show "s \<in> set ss \<Longrightarrow> length s \<le> foldl (\<lambda>m s. if length s > m then length s else m) k ss"
  proof (induction ss arbitrary: k)
    case (Cons x ss)
    then show ?case using mono [of "length x" ss] mono [of k ss] by (auto split: if_splits)
  qed simp
qed

lemma normalize_eq:
  assumes b: "\<forall>s\<in>set shards. length s \<le> n" and x: "x \<in> set shards" "length x = n"
  shows "normalizeFECShardLengths shards =
    map (\<lambda>s. if s = [] then [] else s @ zeros (n - length s)) shards"
proof -
  have "foldl (\<lambda>m s. if length s > m then length s else m) 0 shards = n"
    using maxSize_bound [OF b, of 0] maxSize_ge(2) [OF x(1), of 0] x(2) by simp
  then show ?thesis by (simp add: normalizeFECShardLengths_def zeros_def)
qed

lemma normalize_erasure:
  assumes cw: "codeword R d p n full" and h: "holds data full g" and d: "DataShards g = d"
    and fr: "\<And>i. i < d \<Longrightarrow> frameFECData (payload_at data i) n = Inr (full ! i)"
    and x: "x \<in> set (Shards g)" "length x = n"
  shows "erasure_of full (normalizeFECShardLengths (Shards g)) \<and>
    present (normalizeFECShardLengths (Shards g)) = present (Shards g)"
proof -
  have len: "length (Shards g) = length full" using h by (simp add: holds_def)
  have small: "length s \<le> n" "s = [] \<or> s @ zeros (n - length s) = full ! i"
    if s: "s = Shards g ! i" and i: "i < length full" for s i
  proof -
    have full: "length (full ! i) = n" using cw i by (simp add: codeword_def)
    consider "s = []" | "s = full ! i" |
      "i < d" "frameFECData (payload_at data i) (length (payload_at data i) + 2) = Inr s"
      using h i s d by (auto simp: holds_def shard_of_def)
    then show "length s \<le> n" "s = [] \<or> s @ zeros (n - length s) = full ! i"
    proof (atomize (full), cases)
      case 3
      then show "length s \<le> n \<and> (s = [] \<or> s @ zeros (n - length s) = full ! i)"
        using frame_pad [OF 3(2) fr [OF 3(1)]] frameFECData_length [OF 3(2)] fr [OF 3(1)]
        by (auto simp: frameFECData_Inr)
    qed (use full in \<open>simp_all add: zeros_def\<close>)
  qed
  have b: "\<forall>s\<in>set (Shards g). length s \<le> n"
    using small(1) len by (metis in_set_conv_nth)
  note eq = normalize_eq [OF b x]
  have "erasure_of full (normalizeFECShardLengths (Shards g))"
    unfolding erasure_of_def eq using small(2) len by (auto split: if_splits)
  moreover have "present (normalizeFECShardLengths (Shards g)) = present (Shards g)"
    unfolding present_def eq by (simp add: filter_map comp_def)
  ultimately show ?thesis by blast
qed

lemma present_update:
  "j < length shards \<Longrightarrow> shards ! j = [] \<Longrightarrow> s \<noteq> [] \<Longrightarrow>
     present (shards[j := s]) = Suc (present shards)"
proof (induction shards arbitrary: j)
  case (Cons x shards)
  then show ?case by (cases j) (auto simp: present_def)
qed simp

lemma deliverMissing_ok:
  "(\<And>i. i \<in> set is \<Longrightarrow> decodeFECDataShard (shards ! i) = Inr (f i)) \<Longrightarrow>
     deliverMissing shards is delivered =
       (Inr (map f is), foldl (\<lambda>d i. d[i := True]) delivered is)"
  by (induction "is" arbitrary: delivered) auto

lemma foldl_update_nth:
  "i < length d \<Longrightarrow> foldl (\<lambda>d i. d[i := True]) d is ! i \<longleftrightarrow> i \<in> set is \<or> d ! i"
proof (induction "is" arbitrary: d)
  case Nil
  then show ?case by simp
next
  case (Cons j "is")
  have "foldl (\<lambda>d i. d[i := True]) (d[j := True]) is ! i \<longleftrightarrow> i \<in> set is \<or> d[j := True] ! i"
    using Cons by simp
  moreover have "d[j := True] ! i \<longleftrightarrow> i = j \<or> d ! i"
    using Cons.prems by (cases "i = j") simp_all
  ultimately show ?case by auto
qed

lemma length_foldl_update [simp]: "length (foldl (\<lambda>d i. d[i := True]) d is) = length d"
  by (induction "is" arbitrary: d) auto


section \<open>Recovery\<close>

lemma present_ge1: "codeword R d p n full \<Longrightarrow> i < d + p \<Longrightarrow> full ! i \<noteq> [] \<and> length (full ! i) = n"
  by (auto simp: codeword_def) (metis length_0_conv nth_mem not_gr_zero)

lemma recoverGroup_ok:
  assumes R: "rs_codes R d p" and e: "FEC_Encode R data (int d) (int p) = Inr full"
    and d: "DataShards g = d" and h: "holds data full g" and dl: "length (Delivered g) = d"
    and q: "d \<le> present (Shards g)" and j: "d \<le> j" "j < d + p" "Shards g ! j \<noteq> []"
    and m: "missingDataShardIndexes g \<noteq> []"
    and others: "\<And>i. i < d \<Longrightarrow> Shards g ! i \<noteq> [] \<Longrightarrow> Delivered g ! i"
  shows "\<exists>g' b'. recoverGroup R now g b =
      (Inr \<lparr>Payloads = map (payload_at data) (missingDataShardIndexes g), Ready = True,
            RecoveredShards = length (missingDataShardIndexes g)\<rparr>, b') \<and>
      GroupID g' = GroupID g \<and> Shards g' = full \<and>
      b' = rememberCompletedGroup (GroupID g) now
             ((releaseGroupShards g' b)\<lparr>groups := gm_del (gm_set (groups b) (GroupID g) g') (GroupID g)\<rparr>)"
proof -
  obtain n where cw: "codeword R d p n full" and n: "n \<le> 1380"
    and v: "validateFECParams (int d) (int p) = None"
    and fr: "\<And>i. i < d \<Longrightarrow> frameFECData (payload_at data i) n = Inr (full ! i)"
    using FEC_Encode_codeword [OF R e] by metis
  have len: "length (Shards g) = d + p" "length full = d + p"
    using h cw by (simp_all add: holds_def codeword_def)
  have "Shards g ! j = full ! j" using h j d len by (auto simp: holds_def shard_of_def)
  then have x: "full ! j \<in> set (Shards g)" "length (full ! j) = n"
    using j len present_ge1 [OF cw, of j] by (metis nth_mem, simp)
  note er = normalize_erasure [OF cw h d fr x]
  have rec: "rs_reconstruct R d p (normalizeFECShardLengths (Shards g)) = Some full"
    using cw er q by (auto simp: codeword_def)
  have small: "\<not> (\<exists>s\<in>set (Shards g). length s > maxTGPDataPayloadSize)"
  proof
    assume "\<exists>s\<in>set (Shards g). length s > maxTGPDataPayloadSize"
    then obtain i where "i < d + p" "length (Shards g ! i) > 1380"
      by (metis in_set_conv_nth len(1) fec_sizes(2))
    then show False using h d len n present_ge1 [OF cw, of i]
      by (auto simp: holds_def shard_of_def frameFECData_Inr)
  qed
  have fec: "FEC_Reconstruct R (Shards g) (int d) (int (length (Shards g)) - int d) = (None, full)"
    using v len small rec cw by (simp add: FEC_Reconstruct_def codeword_def Let_def)
  let ?m = "missingDataShardIndexes g"
  have dec: "decodeFECDataShard (full ! i) = Inr (payload_at data i)" if "i \<in> set ?m" for i
  proof -
    have "i < d" using that d by (auto simp: missingDataShardIndexes_def)
    from decode_frame [OF fr [OF this]] show ?thesis .
  qed
  let ?g = "g\<lparr>Shards := full, Recovered := True, Delivered := foldl (\<lambda>d i. d[i := True]) (Delivered g) ?m\<rparr>"
  have alld: "\<forall>x\<in>set (Delivered ?g). x"
  proof
    fix x assume "x \<in> set (Delivered ?g)"
    then obtain i where "i < d" "x = Delivered ?g ! i"
      using dl by (auto simp: in_set_conv_nth)
    then show x using others [of i] dl d
      by (auto simp: foldl_update_nth missingDataShardIndexes_def)
  qed
  have "recoverGroup R now g b = (Inr \<lparr>Payloads = map (payload_at data) ?m, Ready = True,
      RecoveredShards = length ?m\<rparr>, completeGroupIfDelivered now ?g (putGroup ?g b))"
    using m q d fec by (simp add: recoverGroup_def hasEnoughFECShards_def Let_def
        deliverMissing_ok [OF dec])
  moreover have "completeGroupIfDelivered now ?g (putGroup ?g b) =
      rememberCompletedGroup (GroupID g) now
        ((releaseGroupShards ?g b)\<lparr>groups := gm_del (gm_set (groups b) (GroupID g) ?g) (GroupID g)\<rparr>)"
    using alld by (auto simp: completeGroupIfDelivered_def release_eq Let_def)
  ultimately show ?thesis by (intro exI [of _ ?g]) simp
qed


lemma purgePending_keeps:
  assumes "gm_ok (groups b)" "gm_get (groups b) k = Some g"
    and fresh: "now - groupReceivedAt g < fecReceiveGroupLifetime"
  shows "gm_get (groups (purgePending now b)) k = Some g"
proof -
  have "gm_get (groups (foldl (\<lambda>b (gid, g). if now - groupReceivedAt g \<ge> fecReceiveGroupLifetime
      then (releaseGroupShards g b)\<lparr>groups := gm_del (groups b) gid\<rparr> else b) b L)) k =
      gm_get (groups b) k"
    if "\<forall>g'. (k, g') \<in> set L \<longrightarrow> g' = g" for L and b :: FECReceiveBuffer
    using that
  proof (induction L arbitrary: b)
    case (Cons e L)
    obtain k' g' where e: "e = (k', g')" by fastforce
    show ?case using Cons fresh by (cases "k' = k") (auto simp: e gm_get_del)
  qed simp
  moreover have "\<forall>g'. (k, g') \<in> set (groups b) \<longrightarrow> g' = g"
    using assms by (auto simp: gm_in_set)
  ultimately show ?thesis using assms(2) by (simp add: purgePending_def)
qed

lemma purgeExpired_facts:
  assumes i: "fec_inv b" and g: "gm_get (groups b) k = Some g"
    and fresh: "now - groupReceivedAt g < fecReceiveGroupLifetime"
  shows "gm_get (groups (purgeExpiredGroups now b)) k = Some g"
    "gm_get (completedGroups (purgeExpiredGroups now b)) k = None"
    "bufferedBytes (purgeExpiredGroups now b) \<le> bufferedBytes b"
    "maxBufferedBytes (purgeExpiredGroups now b) = maxBufferedBytes b"
proof -
  show g': "gm_get (groups (purgeExpiredGroups now b)) k = Some g"
    using purgePending_keeps [OF _ g fresh] i
    by (simp add: purgeExpiredGroups_def fec_inv_def pending_inv_def)
  have "dom (gm_get (groups (purgeExpiredGroups now b))) \<inter>
      dom (gm_get (completedGroups (purgeExpiredGroups now b))) = {}"
    using fec_inv_purge [OF i, of now] by (simp only: fec_inv_def)
  with domI [of "gm_get (groups (purgeExpiredGroups now b))", OF g']
  have "k \<notin> dom (gm_get (completedGroups (purgeExpiredGroups now b)))" by blast
  then show "gm_get (completedGroups (purgeExpiredGroups now b)) k = None" by (simp add: domIff)
  have "0 \<le> bufferedBytes b" using i by (simp add: fec_inv_def pending_inv_def)
  with shrunk_purgePending [of b now] show "bufferedBytes (purgeExpiredGroups now b) \<le> bufferedBytes b"
    "maxBufferedBytes (purgeExpiredGroups now b) = maxBufferedBytes b"
    by (auto simp: shrunk_def purgeExpiredGroups_def)
qed

text \<open>The shape of a packet that carries shard \<open>j\<close> of a \<open>d\<close>+\<open>p\<close> group.\<close>

definition shard_packet :: "u32 \<Rightarrow> nat \<Rightarrow> nat \<Rightarrow> nat \<Rightarrow> bytes \<Rightarrow> Packet \<Rightarrow> bool" where
  "shard_packet gid d p j s packet \<longleftrightarrow> FECGroup (Inner packet) = gid \<and>
     FECTotal (Inner packet) = of_nat (d + p) \<and> FECDataShards (Inner packet) = of_nat d \<and>
     FECIndex (Inner packet) = of_nat j \<and> Payload packet = s"

lemma AddPacket_known_group:
  assumes i: "fec_inv b" and g: "gm_get (groups b) gid = Some g"
    and fresh: "now - groupReceivedAt g < fecReceiveGroupLifetime"
    and v: "validateFECParams (int d) (int p) = None" and j: "j < d + p"
    and sh: "shard_packet gid d p j s packet" and s: "length s \<le> maxTGPDataPayloadSize"
    and dg: "DataShards g = d" "length (Shards g) = d + p"
  shows "AddPacket R now b packet = storeShard R now packet g (purgeExpiredGroups now b)"
proof -
  have dp: "1 \<le> d" "d \<le> 32" "1 \<le> p" "p \<le> 16" using v by (simp_all add: validateFECParams_None)
  let ?h = "Inner packet"
  have u: "unat (FECTotal ?h) = d + p" "unat (FECDataShards ?h) = d" "unat (FECIndex ?h) = j"
    using sh dp j by (simp_all add: shard_packet_def unat_of_nat_u8 flip: of_nat_add)
  then have ui: "uint (FECTotal ?h) = int (d + p)" "uint (FECDataShards ?h) = int d"
    by (metis of_nat_unat)+
  have guards: "FECTotal ?h \<noteq> 0" "FECDataShards ?h \<noteq> 0" "\<not> FECDataShards ?h \<ge> FECTotal ?h"
    "\<not> FECIndex ?h \<ge> FECTotal ?h"
    using u dp j by (auto simp: word_le_nat_alt unat_eq_0 [symmetric])
  have pl: "\<not> length (Payload packet) > maxTGPDataPayloadSize" "FECGroup ?h = gid"
    using sh s by (simp_all add: shard_packet_def)
  have grp: "fecGroup now ?h (purgeExpiredGroups now b) = Inr (g, purgeExpiredGroups now b)"
    using purgeExpired_facts [OF i g fresh] pl by (simp add: fecGroup_def)
  show ?thesis
    using guards pl grp v dg u purgeExpired_facts(2) [OF i g fresh]
    by (simp add: AddPacket_def Let_def ui)
qed

lemma parity_recovers:
  assumes R: "rs_codes R d p" and e: "FEC_Encode R data (int d) (int p) = Inr full" and i: "fec_inv b"
    and g: "gm_get (groups b) gid = Some g"
    and fresh: "now - groupReceivedAt g < fecReceiveGroupLifetime"
    and d: "DataShards g = d" and h: "holds data full g"
    and others: "\<And>i. i < d \<Longrightarrow> Shards g ! i \<noteq> [] \<Longrightarrow> Delivered g ! i"
    and j: "d \<le> j" "j < d + p" "Shards g ! j = []" and q: "d \<le> Suc (present (Shards g))"
    and m: "missingDataShardIndexes g \<noteq> []"
    and sh: "shard_packet gid d p j (full ! j) packet"
    and room: "bufferedBytes b + int (length (full ! j)) \<le> maxBufferedBytes b"
  shows "fst (AddPacket R now b packet) = Inr \<lparr>
      Payloads = map (payload_at data) (missingDataShardIndexes g), Ready = True,
      RecoveredShards = length (missingDataShardIndexes g)\<rparr> \<and>
    gm_get (groups (snd (AddPacket R now b packet))) gid = None \<and>
    gm_has (completedGroups (snd (AddPacket R now b packet))) gid"
proof -
  obtain n where cw: "codeword R d p n full" and n: "n \<le> 1380"
    and v: "validateFECParams (int d) (int p) = None"
    using FEC_Encode_codeword [OF R e] by metis
  have len: "length (Shards g) = d + p" using h cw by (simp add: holds_def codeword_def)
  have fj: "full ! j \<noteq> []" "length (full ! j) = n" using present_ge1 [OF cw j(2)] by auto
  let ?b = "purgeExpiredGroups now b" and ?g = "g\<lparr>Shards := (Shards g)[j := full ! j]\<rparr>"
  let ?b' = "putGroup ?g (?b\<lparr>bufferedBytes := bufferedBytes ?b + int (length (full ! j))\<rparr>)"
  have add: "AddPacket R now b packet = storeShard R now packet g ?b"
    using fj n by (intro AddPacket_known_group [OF i g fresh v j(2) sh _ d len]) (simp add: fec_sizes)
  have uj: "unat (FECIndex (Inner packet)) = j" "Payload packet = full ! j"
    using sh j v by (auto simp: shard_packet_def unat_of_nat_u8 validateFECParams_None)
  have store: "storeShard R now packet g ?b = recoverGroup R now ?g ?b'"
    using j d room purgeExpired_facts(3,4) [OF i g fresh] by (simp add: storeShard_def uj Let_def)
  have gid: "GroupID g = gid" "length (Delivered g) = d"
    using group_okD [OF i g] d by (auto simp: group_ok_def)
  have mg: "missingDataShardIndexes ?g = missingDataShardIndexes g"
    using j d by (auto simp: missingDataShardIndexes_def intro!: filter_cong)
  have hold: "holds data full ?g"
    unfolding holds_def
  proof (intro conjI allI impI)
    fix i assume "i < length full"
    then show "Shards ?g ! i = [] \<or> shard_of data full (DataShards ?g) i (Shards ?g ! i)"
      using h len j by (cases "i = j") (auto simp: holds_def shard_of_def)
  qed (use h in \<open>simp add: holds_def\<close>)
  have pres: "present ((Shards g)[j := full ! j]) = Suc (present (Shards g))"
    using j len fj by (simp add: present_update)
  obtain g' where rg: "recoverGroup R now ?g ?b' = (Inr \<lparr>
      Payloads = map (payload_at data) (missingDataShardIndexes g), Ready = True,
      RecoveredShards = length (missingDataShardIndexes g)\<rparr>,
      rememberCompletedGroup gid now ((releaseGroupShards g' ?b')\<lparr>groups :=
        gm_del (gm_set (groups ?b') gid g') gid\<rparr>))"
    using recoverGroup_ok [OF R e _ hold _ _ j(1,2), of now ?b'] d gid q pres j len m others fj mg
    by auto
  show ?thesis
    unfolding add store rg by (simp add: rememberCompletedGroup_def Let_def)
qed


section \<open>The concrete code keeps the contract\<close>

lemma length_xor_all: "\<forall>s\<in>set ss. length s \<le> m \<Longrightarrow> length (xor_all ss) \<le> m"
  by (induction ss rule: xor_all.induct) auto

lemma xor_rs_keeps: "rs_keeps xor_rs"
proof -
  have "length full = length got \<and> (\<forall>s\<in>set full. length s \<le> m) \<and>
      (\<forall>i<length got. got ! i \<noteq> [] \<longrightarrow> full ! i = got ! i)"
    if r: "rs_reconstruct xor_rs d p got = Some full" and m: "\<forall>s\<in>set got. length s \<le> m"
    for d p got full m
  proof -
    let ?miss = "filter (\<lambda>i. got ! i = []) [0..<length got]"
    consider "?miss = []" "full = got"
      | i where "?miss = [i]" "full = got[i := xor_all (filter (\<lambda>s. s \<noteq> []) got)]"
      using r by (auto simp: xor_rs_def split: list.splits)
    then show ?thesis
    proof cases
      case 2
      have "i \<in> set ?miss" by (simp add: 2(1))
      then have "got ! i = []" by simp
      moreover have "length (xor_all (filter (\<lambda>s. s \<noteq> []) got)) \<le> m"
        using m by (intro length_xor_all) auto
      moreover have "got[i := x] ! k = got ! k" if "got ! i = []" "got ! k \<noteq> []" for x k
        using that by (cases "k = i") auto
      ultimately show ?thesis using m set_update_subset_insert [of got i "xor_all (filter (\<lambda>s. s \<noteq> []) got)"]
        by (auto simp: 2(2))
    qed (use m in simp)
  qed
  then show ?thesis unfolding rs_keeps_def by blast
qed

lemma map2_xor_cancel:
  fixes a b :: bytes
  assumes "length a = length b"
  shows "map2 (XOR) a (map2 (XOR) a b) = b" "map2 (XOR) b (map2 (XOR) a b) = a"
    "map2 (XOR) (map2 (XOR) a b) b = a"
  using assms by (induction a b rule: list_induct2) (simp_all add: xor.left_commute xor.assoc)

lemma xor_rs_codes_2_1: "rs_codes xor_rs 2 1"
proof -
  have "\<exists>full. rs_encode xor_rs 2 1 shards = Some full \<and> codeword xor_rs 2 1 n full \<and>
      take 2 full = take 2 shards"
    if n: "0 < n" and l: "length shards = 2 + 1" and s: "\<forall>s\<in>set shards. length s = n" for n shards
  proof -
    obtain a b c where abc: "shards = [a, b, c]"
      using l by (auto simp: eval_nat_numeral length_Suc_conv)
    have ab: "length a = n" "length b = n" using s by (auto simp: abc)
    let ?x = "map2 (XOR) a b"
    have ne: "a \<noteq> []" "b \<noteq> []" "?x \<noteq> []" using ab n by auto
    have rec: "rs_reconstruct xor_rs 2 1 got = Some [a, b, ?x]"
      if e: "erasure_of [a, b, ?x] got" and q: "2 \<le> present got" for got
    proof -
      have "length got = 3" using e by (simp add: erasure_of_def)
      then obtain x y z where g: "got = [x, y, z]"
        by (auto simp: eval_nat_numeral length_Suc_conv)
      have "x = [] \<or> x = a" "y = [] \<or> y = b" "z = [] \<or> z = ?x"
        using e by (auto simp: erasure_of_def g All_less_Suc eval_nat_numeral)
      moreover have "[0..<length [x, y, z]] = [0, 1, 2]" by (simp add: upt_rec)
      ultimately show ?thesis using q ab ne
        by (elim disjE) (simp_all add: g present_def xor_rs_def map2_xor_cancel)
    qed
    have "codeword xor_rs 2 1 n [a, b, ?x]"
      using ab n rec by (auto simp: codeword_def xor_rs_def)
    moreover have "rs_encode xor_rs 2 1 shards = Some [a, b, ?x]" by (simp add: xor_rs_def abc)
    ultimately show ?thesis by (auto simp: abc)
  qed
  then show ?thesis unfolding rs_codes_def by blast
qed


section \<open>Runs\<close>

text \<open>Feeding a sequence of packets, each with its arrival time, and collecting the verdicts.\<close>

fun addAll :: "rs \<Rightarrow> FECReceiveBuffer \<Rightarrow> (gotime \<times> Packet) list \<Rightarrow>
    (tgp_error + FECReceiveResult) list \<times> FECReceiveBuffer" where
  "addAll R b [] = ([], b)"
| "addAll R b ((now, packet) # ps) =
     (case AddPacket R now b packet of
        (r, b') \<Rightarrow> (case addAll R b' ps of (rs, b'') \<Rightarrow> (r # rs, b'')))"

text \<open>The bytes the pending groups really hold.\<close>

definition heldBytes :: "FECReceiveBuffer \<Rightarrow> nat" where
  "heldBytes b = sum_list (map (\<lambda>(k, g). sum_list (map length (Shards g))) (groups b))"

text \<open>A packet as the sender's \<open>configure\<close> functions set its FEC fields.\<close>

definition fecPacket :: "u32 \<Rightarrow> byte \<Rightarrow> byte \<Rightarrow> byte \<Rightarrow> byte \<Rightarrow> bytes \<Rightarrow> Packet" where
  "fecPacket gid idx tot ds fl payload =
     \<lparr>Outer = \<lparr>ContentType = 0x17, VersionMajor = 0xfe, VersionMinor = 0xff, Epoch = 0,
               SequenceNum = zeros 6, Length = 0\<rparr>,
      Inner = \<lparr>Magic = TGP_Magic, Flags = fl, SessionID = zeros 16, StreamID = 0,
               PacketNumber = 0, FECGroup = gid, FECIndex = idx, FECTotal = tot,
               FECDataShards = ds, PayloadLength = of_nat (length payload)\<rparr>,
      Payload = payload, ReceivedAt = 0, SourceAddr = None\<rparr>"

lemma addAll_run:
  "snd (addAll R b es) = run (\<lambda>b e. snd (AddPacket R (fst e) b (snd e))) b es"
  by (induction R b es rule: addAll.induct) (auto split: prod.splits)

lemma fec_inv_New: "fec_inv (NewFECReceiveBuffer n)"
  by (auto simp: NewFECReceiveBuffer_def fec_inv_def pending_inv_def completed_inv_def
      completedQueue_def fec_limits MaxFECReceiveBufferedByte_def Let_def)

interpretation fec_buffer: bounded_machine
  "\<lambda>b e. snd (AddPacket R (fst e) b (snd e))" "\<lambda>b. rs_keeps R \<and> fec_inv b" PendingGroups maxGroups
  for R
proof unfold_locales
  fix s :: FECReceiveBuffer
  assume "rs_keeps R \<and> fec_inv s"
  then show "PendingGroups s \<le> maxGroups s" by (simp add: PendingGroups_def fec_inv_def pending_inv_def)
qed (simp add: fec_inv_AddPacket)

lemma sum_list_le: "\<forall>x\<in>set xs. f x \<le> (m::nat) \<Longrightarrow> sum_list (map f xs) \<le> length xs * m"
  by (induction xs) auto

lemma heldBytes_bound:
  assumes "fec_inv b"
  shows "heldBytes b \<le> 64 * (48 * 1380)"
proof -
  have g: "sum_list (map length (Shards g)) \<le> 48 * 1380" if "(k, g) \<in> set (groups b)" for k g
  proof -
    have "group_ok g" using that assms group_okD by (metis fec_inv_def pending_inv_def gm_in_set)
    then have "length (Shards g) \<le> 48" "\<forall>s\<in>set (Shards g). length s \<le> 1380"
      by (auto simp: group_ok_def fec_limits fec_sizes)
    with sum_list_le [of "Shards g" length 1380] show ?thesis by auto
  qed
  have "length (groups b) \<le> 64"
    using assms by (auto simp: fec_inv_def pending_inv_def fec_limits)
  moreover have "heldBytes b \<le> length (groups b) * (48 * 1380)"
    unfolding heldBytes_def using g by (intro sum_list_le) auto
  ultimately show ?thesis by (meson le_trans mult_le_mono1)
qed

section \<open>Properties\<close>

text \<open>
  The receive buffer is bounded whatever a peer sends. Starting from a new buffer, after any
  sequence of packets at any times (valid, malformed, inconsistent, replayed): at most 64
  groups are pending, the byte counter stays within 0 and 4 MiB, the memory of completed
  groups has at most 4096 entries and its order queue fewer than 8192 slots, and the pending
  groups hold at most 64 groups of 48 shards of 1380 bytes.
\<close>

theorem fec_resource_bounds:
  assumes "rs_keeps R"
  shows "PendingGroups (snd (addAll R (NewFECReceiveBuffer n) es)) \<le> 64 \<and>
    0 \<le> BufferedBytes (snd (addAll R (NewFECReceiveBuffer n) es)) \<and>
    BufferedBytes (snd (addAll R (NewFECReceiveBuffer n) es)) \<le> 4194304 \<and>
    length (completedGroups (snd (addAll R (NewFECReceiveBuffer n) es))) \<le> 4096 \<and>
    length (completedOrder (snd (addAll R (NewFECReceiveBuffer n) es))) < 8192 \<and>
    heldBytes (snd (addAll R (NewFECReceiveBuffer n) es)) \<le> 64 * (48 * 1380)"
proof -
  define b where "b = snd (addAll R (NewFECReceiveBuffer n) es)"
  have i: "fec_inv b"
    using fec_buffer.invar_run [of R "NewFECReceiveBuffer n" es] assms fec_inv_New
    by (simp add: b_def addAll_run)
  then have p: "pending_inv b" and c: "completed_inv b" by (simp_all add: fec_inv_def)
  have "PendingGroups b \<le> maxGroups b"
    using fec_buffer.bound_run [of R "NewFECReceiveBuffer n" es] assms fec_inv_New
    by (simp add: b_def addAll_run)
  then show ?thesis
    unfolding b_def [symmetric]
    using p c completed_len [OF c] heldBytes_bound [OF i]
    by (auto simp: pending_inv_def completed_inv_def completedQueue_def BufferedBytes_def
        fec_limits MaxFECReceiveBufferedByte_def)
qed

theorem fec_resource_bounds_witness:
  "PendingGroups (snd (addAll xor_rs (NewFECReceiveBuffer 0)
     [(0, fecPacket 1 0 3 2 0x80 [0, 1, 9]), (5, fecPacket 2 7 3 2 0 [])])) \<le> 64"
  using fec_resource_bounds [OF xor_rs_keeps] by blast

text \<open>
  C3. Loss recovery. A group was encoded from its payloads; the receiver holds some of its
  shards (data shards in their short frames or padded, parity shards), has delivered the data
  shards it holds, and the group has not expired. When a parity shard arrives that makes the
  number of held shards at least the number of data shards, exactly the payloads of the
  missing data shards come out, in index order and unpadded; the group leaves the pending
  set and is remembered as completed.
\<close>

theorem fec_parity_recovers_losses:
  assumes "rs_codes R d p" and "FEC_Encode R data (int d) (int p) = Inr full" and "fec_inv b"
    and "gm_get (groups b) gid = Some g"
    and "now - groupReceivedAt g < fecReceiveGroupLifetime"
    and "DataShards g = d" and "holds data full g"
    and "\<And>i. i < d \<Longrightarrow> Shards g ! i \<noteq> [] \<Longrightarrow> Delivered g ! i"
    and "d \<le> j" and "j < d + p" and "Shards g ! j = []" and "d \<le> Suc (present (Shards g))"
    and "missingDataShardIndexes g \<noteq> []"
    and "shard_packet gid d p j (full ! j) packet"
    and "bufferedBytes b + int (length (full ! j)) \<le> maxBufferedBytes b"
  shows "fst (AddPacket R now b packet) = Inr \<lparr>
      Payloads = map (payload_at data) (missingDataShardIndexes g), Ready = True,
      RecoveredShards = length (missingDataShardIndexes g)\<rparr> \<and>
    gm_get (groups (snd (AddPacket R now b packet))) gid = None \<and>
    gm_has (completedGroups (snd (AddPacket R now b packet))) gid"
  by (rule parity_recovers; fact assms)

theorem fec_parity_recovers_losses_witness:
  "fst (AddPacket xor_rs 1 (snd (addAll xor_rs (NewFECReceiveBuffer 0)
       [(0, fecPacket 7 0 3 2 0x80 [0, 2, 1, 2])])) (fecPacket 7 2 3 2 0x82 [0, 3, 2, 2])) =
     Inr \<lparr>Payloads = [[3]], Ready = True, RecoveredShards = 1\<rparr>"
proof -
  let ?b = "snd (addAll xor_rs (NewFECReceiveBuffer 0) [(0, fecPacket 7 0 3 2 0x80 [0, 2, 1, 2])])"
  let ?g = "\<lparr>GroupID = 7, DataShards = 2, Shards = [[0, 2, 1, 2], [], []],
    Delivered = [True, False], groupReceivedAt = 0, Recovered = False\<rparr>"
  let ?full = "[[0, 2, 1, 2], [0, 1, 3, 0], [0, 3, 2, 2]] :: bytes list"
  have b: "?b = (NewFECReceiveBuffer 0)\<lparr>groups := [(7, ?g)], bufferedBytes := 4\<rparr>" by code_simp
  have i: "fec_inv ?b"
    unfolding addAll_run
    using fec_buffer.invar_run [of xor_rs "NewFECReceiveBuffer 0"] xor_rs_keeps fec_inv_New by blast
  have e: "FEC_Encode xor_rs [[1, 2], [3]] (int 2) (int 1) = Inr ?full" by code_simp
  have fr: "frameFECData [1, 2] 4 = Inr [0, 2, 1, 2]" by code_simp
  have h: "holds [[1, 2], [3]] ?full ?g"
    by (auto simp: holds_def shard_of_def less_Suc_eq numeral_3_eq_3)
  have m: "missingDataShardIndexes ?g = [1]" by code_simp
  have g: "gm_get (groups ?b) 7 = Some ?g" unfolding b by simp
  have t: "1 - groupReceivedAt ?g < fecReceiveGroupLifetime" by (simp add: fec_limits)
  have del: "Delivered ?g ! i" if "i < 2" "Shards ?g ! i \<noteq> []" for i
    using that by (auto simp: less_Suc_eq numeral_2_eq_2)
  have q: "2 \<le> Suc (present (Shards ?g))" by (simp add: present_def)
  have pk: "shard_packet 7 2 1 2 (?full ! 2) (fecPacket 7 2 3 2 0x82 [0, 3, 2, 2])"
    by (simp add: shard_packet_def fecPacket_def)
  have room: "bufferedBytes ?b + int (length (?full ! 2)) \<le> maxBufferedBytes ?b"
    unfolding b by (simp add: NewFECReceiveBuffer_def MaxFECReceiveBufferedByte_def Let_def)
  have "fst (AddPacket xor_rs 1 ?b (fecPacket 7 2 3 2 0x82 [0, 3, 2, 2])) = Inr \<lparr>
      Payloads = map (payload_at [[1, 2], [3]]) (missingDataShardIndexes ?g), Ready = True,
      RecoveredShards = length (missingDataShardIndexes ?g)\<rparr>"
    using fec_parity_recovers_losses [OF xor_rs_codes_2_1 e i g t _ h del _ _ _ q _ pk room] m
    by simp
  then show ?thesis by (simp add: m)
qed

text \<open>
  Framing round trip. A data shard decodes to its payload, whether it is the short frame a
  data packet carries, the frame at the group's shard size, or either one padded further with
  zeros by the length normalisation.
\<close>

theorem fec_frame_roundtrip:
  assumes "frameFECData payload n = Inr shard"
  shows "decodeFECDataShard (shard @ zeros k) = Inr payload \<and> length shard = n"
  using assms by (simp add: decode_frame_pad frameFECData_length)

theorem fec_frame_roundtrip_witness:
  "decodeFECDataShard ([0, 2, 1, 2, 0] @ zeros 3) = Inr [1, 2]"
proof -
  have "frameFECData [1, 2] 5 = Inr [0, 2, 1, 2, 0]" by code_simp
  from fec_frame_roundtrip [OF this, of 3] show ?thesis by blast
qed

text \<open>
  A quorum that ends with a data shard is not used. The two-of-three group of the payloads
  \<open>[1, 2]\<close> and \<open>[3]\<close>: its parity shard arrives first, then data shard 0, and data shard 1 is lost.
  The buffer then holds enough shards to reconstruct, but the data branch of \<open>AddPacket\<close>
  returns before the quorum test: only shard 0 is delivered, shard 1 stays missing and the
  group stays pending. The same two shards in the other order recover it (the last conjunct).
\<close>

theorem late_data_shard_not_recovered:
  "fst (addAll xor_rs (NewFECReceiveBuffer 0)
       [(0, fecPacket 1 2 3 2 0x82 [0, 3, 2, 2]), (1, fecPacket 1 0 3 2 0x80 [0, 2, 1, 2])]) =
     [Inr emptyResult, Inr \<lparr>Payloads = [[1, 2]], Ready = True, RecoveredShards = 0\<rparr>] \<and>
   map (\<lambda>(k, g). (hasEnoughFECShards g, missingDataShardIndexes g)) (groups (snd (addAll xor_rs
       (NewFECReceiveBuffer 0)
       [(0, fecPacket 1 2 3 2 0x82 [0, 3, 2, 2]), (1, fecPacket 1 0 3 2 0x80 [0, 2, 1, 2])]))) =
     [(True, [1])] \<and>
   fst (addAll xor_rs (NewFECReceiveBuffer 0)
       [(0, fecPacket 1 0 3 2 0x80 [0, 2, 1, 2]), (1, fecPacket 1 2 3 2 0x82 [0, 3, 2, 2])]) =
     [Inr \<lparr>Payloads = [[1, 2]], Ready = True, RecoveredShards = 0\<rparr>,
      Inr \<lparr>Payloads = [[3]], Ready = True, RecoveredShards = 1\<rparr>]"
  by (intro conjI; code_simp)

text \<open>
  A flushed partial group stays pending. When a two-of-three group with the single payload
  \<open>[1, 2]\<close> is flushed, the sender sends the padding shard 1 and the parity shard 2, both with the
  FEC flag. Although every shard arrives, the padding shard is never marked delivered, so the
  group is not completed: it occupies one of the 64 group slots until it expires.
\<close>

theorem flushed_group_stays_pending:
  "FEC_Encode xor_rs [[1, 2]] 2 1 = Inr [[0, 2, 1, 2], [0, 0, 0, 0], [0, 2, 1, 2]] \<and>
   PendingGroups (snd (addAll xor_rs (NewFECReceiveBuffer 0)
       [(0, fecPacket 1 0 3 2 0x80 [0, 2, 1, 2]), (1, fecPacket 1 1 3 2 0x82 [0, 0, 0, 0]),
        (2, fecPacket 1 2 3 2 0x82 [0, 2, 1, 2])])) = 1 \<and>
   gm_get (completedGroups (snd (addAll xor_rs (NewFECReceiveBuffer 0)
       [(0, fecPacket 1 0 3 2 0x80 [0, 2, 1, 2]), (1, fecPacket 1 1 3 2 0x82 [0, 0, 0, 0]),
        (2, fecPacket 1 2 3 2 0x82 [0, 2, 1, 2])]))) 1 = None"
  by (intro conjI; code_simp)

text \<open>
  The byte counter can fall below what is held. Group 1 holds one shard of 4 bytes; group 2
  receives 8 bytes and recovers a third shard of 4 bytes, which is never added to the counter
  but is subtracted when the group is released. The counter ends at 0 while group 1 still
  holds 4 bytes.
\<close>

theorem recovered_bytes_undercounted:
  "BufferedBytes (snd (addAll xor_rs (NewFECReceiveBuffer 0)
       [(0, fecPacket 1 0 3 2 0x80 [0, 2, 7, 7]), (1, fecPacket 2 0 3 2 0x80 [0, 2, 1, 2]),
        (2, fecPacket 2 2 3 2 0x82 [0, 3, 2, 2])])) = 0 \<and>
   heldBytes (snd (addAll xor_rs (NewFECReceiveBuffer 0)
       [(0, fecPacket 1 0 3 2 0x80 [0, 2, 7, 7]), (1, fecPacket 2 0 3 2 0x80 [0, 2, 1, 2]),
        (2, fecPacket 2 2 3 2 0x82 [0, 3, 2, 2])])) = 4"
  by (intro conjI; code_simp)

end
