(* ===== verification/FECAdaptive.thy ===== *)
theory FECAdaptive
  imports FEC Complex_Main
begin

text \<open>
  The adaptive parity controller (\<open>internal/tgp/fec_adaptive.go\<close>). The source computes the loss
  rate in \<open>float64\<close>; the model keeps it as the exact quotient of the two counters. Both counters
  are reset at every decision and stay far below \<open>2^50\<close>, where rounding \<open>recovered/delivered\<close>
  cannot move it across the thresholds 0.10 and 0.03, and \<open>0.50\<close> and \<open>0.25\<close> times a shard count
  are exact.
\<close>

definition defaultFECAdaptWindow :: int where "defaultFECAdaptWindow = 32"

record FECAdaptiveController =
  adaptDataShards :: int
  adaptMaxParity :: int
  adaptWindow :: int
  adaptDelivered :: int
  adaptRecovered :: int
  adaptLossRate :: rat

definition NewFECAdaptiveController :: "int \<Rightarrow> int \<Rightarrow> int \<Rightarrow> FECAdaptiveController" where
  "NewFECAdaptiveController dataShards maxParity window =
     (let dataShards = (if dataShards < 1 then 1 else dataShards);
          maxParity = (if maxParity < 1 then dataShards else maxParity);
          maxParity = (if maxParity > dataShards then dataShards else maxParity);
          window = (if window \<le> 0 then defaultFECAdaptWindow else window)
      in \<lparr>adaptDataShards = dataShards, adaptMaxParity = maxParity, adaptWindow = window,
          adaptDelivered = 0, adaptRecovered = 0, adaptLossRate = 0\<rparr>)"

definition clampInt :: "int \<Rightarrow> int \<Rightarrow> int \<Rightarrow> int" where
  "clampInt v lo hi = (if v < lo then lo else if v > hi then hi else v)"

text \<open>\<open>int(math.Ceil(float64(d)*0.50))\<close> and \<open>0.25\<close>, on the integers.\<close>

definition parityForLoss :: "FECAdaptiveController \<Rightarrow> rat \<Rightarrow> int" where
  "parityForLoss c loss =
     (if loss \<ge> 1 / 10 then adaptMaxParity c
      else if loss \<ge> 3 / 100 then clampInt ((adaptDataShards c + 1) div 2) 1 (adaptMaxParity c)
      else clampInt ((adaptDataShards c + 3) div 4) 1 (adaptMaxParity c))"

text \<open>\<open>Observe\<close> on a controller that is not nil: parity, loss rate, whether a decision was made.\<close>

definition Observe :: "FECAdaptiveController \<Rightarrow> int \<Rightarrow> int \<Rightarrow>
    (int \<times> rat \<times> bool) \<times> FECAdaptiveController" where
  "Observe c delivered recovered =
     (if delivered \<le> 0 then ((0, 0, False), c)
      else
        let recovered = (if recovered < 0 then 0 else recovered);
            c = c\<lparr>adaptDelivered := adaptDelivered c + delivered,
                  adaptRecovered := adaptRecovered c + recovered\<rparr>
        in if adaptDelivered c < adaptWindow c then ((0, adaptLossRate c, False), c)
           else
             let loss = Fract (adaptRecovered c) (adaptDelivered c);
                 parity = parityForLoss c loss
             in ((parity, loss, True),
                 c\<lparr>adaptLossRate := loss, adaptDelivered := 0, adaptRecovered := 0\<rparr>))"

definition LossRate :: "FECAdaptiveController \<Rightarrow> rat" where
  "LossRate c = adaptLossRate c"

definition wf_adapt :: "FECAdaptiveController \<Rightarrow> bool" where
  "wf_adapt c \<longleftrightarrow> 1 \<le> adaptMaxParity c \<and> adaptMaxParity c \<le> adaptDataShards c \<and>
     1 \<le> adaptWindow c \<and> 0 \<le> adaptDelivered c \<and> adaptDelivered c < adaptWindow c \<and>
     0 \<le> adaptRecovered c"

lemma wf_NewFECAdaptiveController: "wf_adapt (NewFECAdaptiveController d p w)"
  by (auto simp: wf_adapt_def NewFECAdaptiveController_def Let_def defaultFECAdaptWindow_def)

lemma wf_Observe: "wf_adapt c \<Longrightarrow> wf_adapt (snd (Observe c d r))"
  by (auto simp: wf_adapt_def Observe_def Let_def)

lemma parityForLoss_range:
  "wf_adapt c \<Longrightarrow> 1 \<le> parityForLoss c loss \<and> parityForLoss c loss \<le> adaptMaxParity c"
  by (auto simp: wf_adapt_def parityForLoss_def clampInt_def)

lemma Observe_keeps:
  "adaptMaxParity (snd (Observe c d r)) = adaptMaxParity c"
  "adaptDataShards (snd (Observe c d r)) = adaptDataShards c"
  "adaptWindow (snd (Observe c d r)) = adaptWindow c"
  by (simp_all add: Observe_def Let_def)

lemma Observe_parity_range:
  assumes "wf_adapt c" "fst (Observe c d r) = (parity, loss, True)"
  shows "1 \<le> parity \<and> parity \<le> adaptMaxParity c"
  using assms
  by (auto simp: Observe_def Let_def wf_adapt_def parityForLoss_def clampInt_def split: if_splits)

text \<open>More loss never asks for less parity.\<close>

lemma parityForLoss_mono:
  assumes "wf_adapt c" "l \<le> l'"
  shows "parityForLoss c l \<le> parityForLoss c l'"
proof -
  have d: "(adaptDataShards c + 3) div 4 \<le> (adaptDataShards c + 1) div 2"
    using assms(1) by (auto simp: wf_adapt_def)
  consider "l' \<ge> 1/10" | "l' < 1/10" "l' \<ge> 3/100" | "l' < 3/100" by linarith
  then show ?thesis
  proof cases
    case 1
    then show ?thesis using parityForLoss_range [OF assms(1), of l] by (simp add: parityForLoss_def)
  next
    case 2
    then have "\<not> l \<ge> 1/10" using assms(2) by linarith
    then show ?thesis using 2 d assms(1) by (auto simp: parityForLoss_def clampInt_def wf_adapt_def)
  next
    case 3
    then have "\<not> l \<ge> 1/10" "\<not> l \<ge> 3/100" using assms(2) by linarith+
    then show ?thesis using 3 by (simp add: parityForLoss_def)
  qed
qed

end
