(* ===== verification/Dedup.thy ===== *)
theory Dedup
  imports GoMap
begin

text \<open>
  The replay window of a session (\<open>packetDedupWindow\<close> in \<open>internal/tgp/session.go\<close>) and the
  sender's pacer (\<open>internal/tgp/pacer.go\<close>). The window is shown to be a first-seen filter: no
  packet number passes twice, however packets are reordered or repeated.
\<close>

section \<open>The window\<close>

record packetDedupWindow =
  dedupMax :: u64
  highest :: u64
  initialized :: bool
  seen :: "(u64, unit) gomap"

definition defaultDedupWindow :: int where "defaultDedupWindow = 4096"

definition newPacketDedupWindow :: "int \<Rightarrow> packetDedupWindow" where
  "newPacketDedupWindow n =
     (let n = (if n \<le> 0 then defaultDedupWindow else n)
      in \<lparr>dedupMax = of_int n, highest = 0, initialized = False, seen = []\<rparr>)"

text \<open>The last part of \<open>SeenFirst\<close>: refuse a number in the table, record any other.\<close>

definition recordSeen :: "packetDedupWindow \<Rightarrow> u64 \<Rightarrow> bool \<times> packetDedupWindow" where
  "recordSeen w packetNumber =
     (if gm_has (seen w) packetNumber then (False, w)
      else (True, w\<lparr>seen := gm_set (seen w) packetNumber ()\<rparr>))"

definition SeenFirst :: "packetDedupWindow \<Rightarrow> u64 \<Rightarrow> bool \<times> packetDedupWindow" where
  "SeenFirst w packetNumber =
     (if \<not> initialized w
      then (True, w\<lparr>initialized := True, highest := packetNumber,
                    seen := gm_set (seen w) packetNumber ()\<rparr>)
      else if packetNumber > highest w then
        let oldest = (if packetNumber \<ge> dedupMax w then packetNumber - dedupMax w + 1 else 0)
        in recordSeen (w\<lparr>highest := packetNumber, seen := gm_keep (\<lambda>k _. \<not> k < oldest) (seen w)\<rparr>)
             packetNumber
      else if highest w - packetNumber \<ge> dedupMax w then (False, w)
      else recordSeen w packetNumber)"

section \<open>The pacer\<close>

text \<open>
  \<open>Consume\<close> is a loop of attempts; between two attempts the goroutine sleeps until \<open>next\<close> (or the
  context ends). One attempt at time \<open>now\<close>: a token is issued (\<open>None\<close>) or the caller waits that
  long. The rate is a float in the source; its interval in nanoseconds is what matters here.
\<close>

record TokenBucketPacer =
  interval :: duration
  lastToken :: gotime

definition consumeAttempt :: "TokenBucketPacer \<Rightarrow> gotime \<Rightarrow> duration option \<times> TokenBucketPacer" where
  "consumeAttempt p now =
     (let due = lastToken p + interval p
      in if \<not> now < due then (None, p\<lparr>lastToken := now\<rparr>)
         else (Some (due - now), p))"

text \<open>The instants at which attempts at the given clock readings issue a token.\<close>

fun tokensAt :: "TokenBucketPacer \<Rightarrow> gotime list \<Rightarrow> gotime list" where
  "tokensAt p [] = []"
| "tokensAt p (now # ts) =
     (case consumeAttempt p now of
        (None, p') \<Rightarrow> now # tokensAt p' ts
      | (Some _, p') \<Rightarrow> tokensAt p' ts)"

section \<open>The window is a first-seen filter\<close>

text \<open>In a started window, every recorded number lies in the window below \<open>highest\<close>.\<close>

definition dedup_inv :: "packetDedupWindow \<Rightarrow> bool" where
  "dedup_inv w \<longleftrightarrow> 0 < dedupMax w \<and> gm_ok (seen w) \<and>
     (if initialized w
      then \<forall>k. gm_has (seen w) k \<longrightarrow> k \<le> highest w \<and> unat (highest w) < unat k + unat (dedupMax w)
      else seen w = [])"

definition dedup_fresh :: "packetDedupWindow \<Rightarrow> u64 \<Rightarrow> bool" where
  "dedup_fresh w k \<longleftrightarrow> \<not> initialized w \<or> k > highest w \<or>
     (unat (highest w) < unat k + unat (dedupMax w) \<and> \<not> gm_has (seen w) k)"

lemma too_old_iff:
  fixes h k m :: u64
  assumes "k \<le> h"
  shows "h - k \<ge> m \<longleftrightarrow> unat k + unat m \<le> unat h"
  using assms by unat_arith

lemma pruned_iff:
  fixes h k m :: u64
  assumes "0 < m"
  shows "k < (if h \<ge> m then h - m + 1 else 0) \<longleftrightarrow> unat k + unat m \<le> unat h"
  using assms by (cases "h \<ge> m"; simp) unat_arith+


lemma dedup_kept:
  assumes "dedup_inv w" "packetNumber > highest w"
  shows "gm_has (gm_keep (\<lambda>k _. \<not> k < (if packetNumber \<ge> dedupMax w
           then packetNumber - dedupMax w + 1 else 0)) (seen w)) k \<longleftrightarrow>
    gm_has (seen w) k \<and> unat packetNumber < unat k + unat (dedupMax w)"
proof -
  have "0 < dedupMax w" "gm_ok (seen w)" using assms by (auto simp: dedup_inv_def)
  then show ?thesis
    by (auto simp: gm_get_keep pruned_iff not_le split: option.splits)
qed

text \<open>The window after an offer, with the table described by what it contains.\<close>

lemma SeenFirst_conj:
  assumes i: "dedup_inv w" and s: "initialized w"
  shows "fst (SeenFirst w n) = dedup_fresh w n \<and> dedupMax (snd (SeenFirst w n)) = dedupMax w \<and>
      initialized (snd (SeenFirst w n)) \<and> highest (snd (SeenFirst w n)) = max (highest w) n \<and>
      gm_ok (seen (snd (SeenFirst w n))) \<and>
      (gm_has (seen (snd (SeenFirst w n))) k \<longleftrightarrow>
        (k = n \<and> unat (highest w) < unat n + unat (dedupMax w)) \<or>
        (gm_has (seen w) k \<and> unat (max (highest w) n) < unat k + unat (dedupMax w)))"
proof -
  have ok: "0 < dedupMax w" "gm_ok (seen w)"
    and win: "\<And>k. gm_has (seen w) k \<Longrightarrow> k \<le> highest w \<and> unat (highest w) < unat k + unat (dedupMax w)"
    using i s by (auto simp: dedup_inv_def)
  show ?thesis
  proof (cases "n > highest w")
    case True
    let ?keep = "gm_keep (\<lambda>k _. \<not> k < (if n \<ge> dedupMax w then n - dedupMax w + 1 else 0)) (seen w)"
    have nn: "\<not> gm_has ?keep n" using win [of n] True dedup_kept [OF i True, of n] by auto
    have eq: "SeenFirst w n = (True, w\<lparr>highest := n, seen := gm_set ?keep n ()\<rparr>)"
      using s True nn by (simp add: SeenFirst_def recordSeen_def Let_def)
    have lt: "unat (highest w) < unat n + unat (dedupMax w)" "max (highest w) n = n"
      using True by (simp add: word_less_nat_alt trans_less_add1, simp add: max.absorb2 less_imp_le)
    show ?thesis
      using True s ok lt dedup_kept [OF i True, of k]
      by (cases "k = n") (simp_all add: eq dedup_fresh_def)
  next
    case False
    then have le: "n \<le> highest w" "max (highest w) n = highest w" by (simp_all add: max_def)
    show ?thesis
      using False s ok le win [of k] win [of n] too_old_iff [OF le(1), of "dedupMax w"]
      by (cases "k = n")
        (auto simp: SeenFirst_def recordSeen_def dedup_fresh_def not_le)
  qed
qed

lemma SeenFirst_state:
  assumes "dedup_inv w" and "initialized w"
  shows "fst (SeenFirst w n) = dedup_fresh w n"
    and "dedupMax (snd (SeenFirst w n)) = dedupMax w"
    and "initialized (snd (SeenFirst w n))"
    and "highest (snd (SeenFirst w n)) = max (highest w) n"
    and "gm_ok (seen (snd (SeenFirst w n)))"
    and "gm_has (seen (snd (SeenFirst w n))) k \<longleftrightarrow>
      (k = n \<and> unat (highest w) < unat n + unat (dedupMax w)) \<or>
      (gm_has (seen w) k \<and> unat (max (highest w) n) < unat k + unat (dedupMax w))"
  using SeenFirst_conj [OF assms] by blast+

lemma SeenFirst_start:
  assumes "dedup_inv w" "\<not> initialized w"
  shows "SeenFirst w n = (True, w\<lparr>initialized := True, highest := n, seen := gm_set (seen w) n ()\<rparr>)"
  using assms by (simp add: SeenFirst_def)

lemma dedup_inv_SeenFirst: "dedup_inv w \<Longrightarrow> dedup_inv (snd (SeenFirst w n))"
proof (cases "initialized w")
  case True
  assume i: "dedup_inv w"
  note st = SeenFirst_state [OF i True, of n]
  have pos: "0 < dedupMax w" using i by (simp add: dedup_inv_def)
  have "k \<le> max (highest w) n \<and> unat (max (highest w) n) < unat k + unat (dedupMax w)"
    if "gm_has (seen (snd (SeenFirst w n))) k" for k
  proof -
    have "0 < unat (dedupMax w)" using pos by (simp add: word_less_nat_alt)
    then have "unat (max (highest w) n) < unat n + unat (dedupMax w)"
      if "unat (highest w) < unat n + unat (dedupMax w)" using that by (simp add: max_def)
    moreover have "k \<le> highest w" if "gm_has (seen w) k" using i True that by (simp add: dedup_inv_def)
    ultimately show ?thesis using that st(6) [of k] by (metis max.coboundedI1 max.cobounded2)
  qed
  then show ?thesis using st(2-5) pos by (simp add: dedup_inv_def)
next
  case False
  assume i: "dedup_inv w"
  then have pos: "0 < dedupMax w" "seen w = []" using False by (simp_all add: dedup_inv_def)
  then have "0 < unat (dedupMax w)" by (simp add: word_less_nat_alt)
  then have "dedup_inv (w\<lparr>initialized := True, highest := n, seen := gm_set [] n ()\<rparr>)"
    using pos(1) by (simp add: dedup_inv_def gm_get_set)
  then show ?thesis by (simp add: SeenFirst_start [OF i False] pos(2))
qed

interpretation dedup: first_seen_filter SeenFirst dedup_fresh dedup_inv
proof unfold_locales
  fix w k j
  assume i: "dedup_inv w"
  show "dedup_inv (snd (SeenFirst w k))" by (rule dedup_inv_SeenFirst [OF i])
  show "fst (SeenFirst w k) = dedup_fresh w k"
    using SeenFirst_state(1) [OF i] SeenFirst_start [OF i] by (cases "initialized w") (auto simp: dedup_fresh_def)
  show "\<not> dedup_fresh (snd (SeenFirst w k)) k"
  proof (cases "initialized w")
    case True
    note st = SeenFirst_state [OF i True, of k]
    have "k \<le> max (highest w) k" "unat (highest w) \<le> unat (max (highest w) k)"
      by (simp_all add: word_le_nat_alt [symmetric])
    then show ?thesis
      using st(2-4) st(6) [of k] by (auto simp: dedup_fresh_def not_less simp del: max.bounded_iff)
  next
    case False
    then show ?thesis using SeenFirst_start [OF i False] by (simp add: dedup_fresh_def)
  qed
  assume f: "dedup_fresh (snd (SeenFirst w k)) j"
  show "dedup_fresh w j"
  proof (cases "initialized w")
    case True
    note st = SeenFirst_state [OF i True, of k]
    have "unat (highest w) \<le> unat (max (highest w) k)"
      by (simp add: word_le_nat_alt [symmetric])
    then show ?thesis using f True st(2-4) st(6) [of j]
      by (auto simp: dedup_fresh_def)
  qed (simp add: dedup_fresh_def)
qed


section \<open>Windows after a run\<close>

abbreviation window_after :: "packetDedupWindow \<Rightarrow> u64 list \<Rightarrow> packetDedupWindow" where
  "window_after w ks \<equiv> run (\<lambda>w k. snd (SeenFirst w k)) w ks"

lemma dedup_inv_new:
  assumes "n < 2 ^ 63"
  shows "dedup_inv (newPacketDedupWindow n)"
proof -
  define m where "m = (if n \<le> 0 then defaultDedupWindow else n)"
  have "0 < m" "m < 2 ^ 63" using assms by (auto simp: m_def defaultDedupWindow_def)
  then have "0 < (of_int m :: u64)"
    by (simp add: word_less_def unsigned_of_int take_bit_int_eq_self)
  then show ?thesis by (simp add: dedup_inv_def newPacketDedupWindow_def Let_def m_def [symmetric])
qed

interpretation dedup_window: bounded_machine "\<lambda>w k. snd (SeenFirst w k)" dedup_inv
  "\<lambda>w. length (seen w)" "\<lambda>w. unat (dedupMax w)"
proof unfold_locales
  fix w :: packetDedupWindow
  assume i: "dedup_inv w"
  show "length (seen w) \<le> unat (dedupMax w)"
  proof (cases "initialized w")
    case True
    let ?win = "{unat (highest w) + 1 - unat (dedupMax w)..<unat (highest w) + 1}"
    have "unat ` dom (gm_get (seen w)) \<subseteq> ?win"
      using i True by (auto simp: dedup_inv_def word_le_nat_alt domIff)
    then have "card (unat ` dom (gm_get (seen w))) \<le> card ?win" by (intro card_mono) auto
    moreover have "card (unat ` dom (gm_get (seen w))) = length (seen w)"
    proof -
      have "inj_on unat (dom (gm_get (seen w)))" by (auto intro!: inj_onI simp: word_unat_eq_iff)
      then show ?thesis using i by (simp add: dedup_inv_def gm_card card_image)
    qed
    ultimately show ?thesis by simp
  next
    case False
    then show ?thesis using i by (simp add: dedup_inv_def)
  qed
qed (rule dedup_inv_SeenFirst)

lemma window_after_facts:
  assumes "dedup_inv w"
  shows "dedup_inv (window_after w ks) \<and> dedupMax (window_after w ks) = dedupMax w \<and>
    (initialized (window_after w ks) \<longrightarrow>
       initialized w \<and> highest (window_after w ks) = highest w \<or> highest (window_after w ks) \<in> set ks) \<and>
    (\<forall>k. gm_has (seen (window_after w ks)) k \<longrightarrow> gm_has (seen w) k \<or> k \<in> set ks)"
  using assms
proof (induction ks arbitrary: w)
  case Nil
  then show ?case by simp
next
  case (Cons k ks)
  let ?w = "snd (SeenFirst w k)"
  have i: "dedup_inv ?w" by (rule dedup_inv_SeenFirst [OF Cons.prems])
  have step: "dedupMax ?w = dedupMax w" "initialized w \<and> highest ?w = highest w \<or> highest ?w = k"
    "gm_has (seen ?w) j \<Longrightarrow> gm_has (seen w) j \<or> j = k" for j
    using SeenFirst_state [OF Cons.prems, of k] SeenFirst_start [OF Cons.prems, of k]
    by (cases "initialized w"; auto simp: gm_get_set max_def split: if_splits)+
  show ?case using Cons.IH [OF i] step by auto
qed

section \<open>Properties\<close>

text \<open>
  The replay window accepts no number twice and loses none inside its window. Over any
  sequence of packet numbers, in any order and with any repetitions, the accepted numbers are
  distinct; and a number that was not offered before is accepted if every number offered
  before it is less than one window above it.
\<close>

theorem replay_window_once_and_complete:
  assumes "n < 2 ^ 63"
  shows "distinct (accepted_of SeenFirst (newPacketDedupWindow n) ks) \<and>
    (k \<notin> set ks \<and> (\<forall>j\<in>set ks. unat j < unat k + unat (dedupMax (newPacketDedupWindow n))) \<longrightarrow>
      fst (SeenFirst (window_after (newPacketDedupWindow n) ks) k))"
proof -
  let ?w = "newPacketDedupWindow n"
  have i: "dedup_inv ?w" by (rule dedup_inv_new [OF assms])
  note f = window_after_facts [OF i, of ks]
  have new: "\<not> initialized ?w" "\<not> gm_has (seen ?w) k"
    by (simp_all add: newPacketDedupWindow_def Let_def)
  have "dedup_fresh (window_after ?w ks) k"
    if "k \<notin> set ks" "\<forall>j\<in>set ks. unat j < unat k + unat (dedupMax ?w)"
    using that f new unfolding dedup_fresh_def by metis
  then show ?thesis
    using dedup.accepted_once [OF i] dedup.accept_fresh [of "window_after ?w ks" k] f by blast
qed

theorem replay_window_once_and_complete_witness:
  "distinct (accepted_of SeenFirst (newPacketDedupWindow 4) [9, 7, 9, 8, 7, 3, 12, 8]) \<and>
   fst (SeenFirst (window_after (newPacketDedupWindow 4) [9, 7, 9, 8]) 6)"
proof -
  have "dedupMax (newPacketDedupWindow 4) = 4" by code_simp
  then show ?thesis
    using replay_window_once_and_complete [of 4 "[9, 7, 9, 8, 7, 3, 12, 8]"]
      replay_window_once_and_complete [of 4 "[9, 7, 9, 8]" 6] by simp
qed

text \<open>
  The replay table is bounded: after any run it records at most as many numbers as the
  window is wide (4096 in a session).
\<close>

theorem replay_table_bounded:
  assumes "n < 2 ^ 63"
  shows "length (seen (window_after (newPacketDedupWindow n) ks)) \<le>
    nat (if n \<le> 0 then 4096 else n)"
proof -
  have i: "dedup_inv (newPacketDedupWindow n)" by (rule dedup_inv_new [OF assms])
  have "unat (dedupMax (newPacketDedupWindow n)) = nat (if n \<le> 0 then 4096 else n)"
    using assms by (auto simp: newPacketDedupWindow_def defaultDedupWindow_def unsigned_of_int
        take_bit_int_eq_self)
  then show ?thesis
    using dedup_window.bound_run [OF i, of ks] window_after_facts [OF i, of ks] by simp
qed

theorem replay_table_bounded_witness:
  "length (seen (window_after (newPacketDedupWindow 2) [5, 1, 6, 7, 7, 9])) \<le> 2"
  using replay_table_bounded [of 2 "[5, 1, 6, 7, 7, 9]"] by simp

text \<open>
  No bursts: whatever the clock readings at which senders ask, two successive tokens are at
  least one interval apart, and the first comes at least one interval after the last one
  issued before.
\<close>

theorem pacer_spacing:
  "successively (\<lambda>a b. a + interval p \<le> b) (lastToken p # tokensAt p ts)"
proof (induction p ts rule: tokensAt.induct)
  case (1 p)
  show ?case by simp
next
  case (2 p now ts)
  show ?case
  proof (cases "now < lastToken p + interval p")
    case True
    then have "consumeAttempt p now = (Some (lastToken p + interval p - now), p)"
      by (simp add: consumeAttempt_def Let_def)
    then show ?thesis using 2 by simp
  next
    case False
    then have c: "consumeAttempt p now = (None, p\<lparr>lastToken := now\<rparr>)"
      by (simp add: consumeAttempt_def Let_def)
    have "successively (\<lambda>a b. a + interval p \<le> b) (now # tokensAt (p\<lparr>lastToken := now\<rparr>) ts)"
      using "2"(1) [OF c [symmetric] refl] by simp
    then show ?thesis using c False by simp
  qed
qed

end
