(* ===== verification/Session.thy ===== *)
theory Session
  imports FEC_Recovery FECAdaptive Dedup
begin

text \<open>
  The datagram session (\<open>internal/tgp/session.go\<close>): sending with and without FEC, the flush of
  partial FEC groups, the read loop with its replay filter and migration rule, receiving from a
  stream, migration and closing.

  A session's operations run in several goroutines over state guarded by mutexes; here each
  operation is one transition of the session record, and a run is any interleaving of them. What
  the surroundings decide is an argument: the clock, the pacer's and the transport's answers
  (\<open>wireOutcome\<close>), and the transport's optional interfaces (\<open>Transport\<close>). The datagrams handed to
  \<open>WritePacket\<close> are recorded in the state, in order.
\<close>

section \<open>Data\<close>

definition defaultStreamQueue :: nat where "defaultStreamQueue = 64"

text \<open>A buffered channel: its capacity and the values in it.\<close>

record chan =
  chanCap :: nat
  chanBuf :: "bytes list"

record fecSendGroup =
  groupId :: u32
  createdAt :: gotime
  payloads :: "bytes list"

record fecRepairShard =
  repairIndex :: nat
  repairPayload :: bytes

record fecRepairBatch =
  batchStream :: StreamID
  batchGroup :: u32
  batchTotal :: int
  batchDataShards :: int
  batchShards :: "fecRepairShard list"

record handshakeReplayState =
  replayHello :: bytes
  replayAck :: bytes
  replayPeer :: "NetAddr option"
  replayExpiresAt :: gotime
  replayRemaining :: int

text \<open>\<open>packetLossPPM\<close> holds the loss rate in millionths; the model keeps the rate.\<close>

record sessionCounters =
  bytesSent :: u64
  bytesReceived :: u64
  fecRecovered :: u64
  oversizedDatagrams :: u64
  packetLoss :: rat
  migrations :: u32

text \<open>
  The optional interfaces of a transport, as the session finds them at a call: \<open>sourceAuthorizer\<close>,
  \<open>managedReturnPath\<close> and \<open>sourceActivityObserver\<close>.
\<close>

record Transport =
  IsSourceAuthorized :: "(NetAddr option \<Rightarrow> bool) option"
  ManagesReturnPath :: "bool option"
  ObservesSources :: bool

record SessionOptions =
  optID :: SessionID
  optTransport :: "Transport option"
  optRemoteAddr :: "NetAddr option"
  optSendKey :: bytes
  optRecvKey :: bytes
  optStreamQueue :: int
  optFEC :: FECOptions
  optMaxDatagramSize :: int
  optDisableMigration :: bool
  optValidateRemote :: "(NetAddr \<Rightarrow> bool) option"
  optHandshakeReplay :: "handshakeReplayState option"

record DatagramSession =
  sId :: SessionID
  sSendCodec :: Codec
  sRecvCodec :: Codec
  sState :: SessionState
  sRemote :: NetAddr
  sStreams :: "(StreamID, chan) gomap"
  sDedup :: packetDedupWindow
  sFecRx :: FECReceiveBuffer
  sFec :: FECOptions
  sFecAdapt :: "FECAdaptiveController option"
  sDisableMigration :: bool
  sValidateRemote :: "(NetAddr \<Rightarrow> bool) option"
  sHandshakeReplay :: "handshakeReplayState option"
  sCloseErr :: "tgp_error option"
  sFecTx :: "(StreamID, fecSendGroup) gomap"
  sFecGroup :: u32
  sPacketNo :: u64
  sStats :: sessionCounters
  sCtxDone :: bool
  sDone :: bool
  sSent :: "(bytes \<times> NetAddr) list"
  sAcks :: "(bytes \<times> NetAddr option) list"
  sObserved :: "NetAddr option list"

section \<open>Construction\<close>

text \<open>
  \<open>NewDatagramSession\<close>, without an external FEC buffer. The second component is the queue size the
  read loop is started with.
\<close>

definition NewDatagramSession :: "SessionOptions \<Rightarrow> tgp_error + DatagramSession \<times> nat" where
  "NewDatagramSession opts =
     (case optTransport opts of
        None \<Rightarrow> Inl ErrTransport
      | Some _ \<Rightarrow>
      (case optRemoteAddr opts of
        None \<Rightarrow> Inl ErrNilAddress
      | Some remote \<Rightarrow>
          if (case optValidateRemote opts of None \<Rightarrow> False | Some ok \<Rightarrow> \<not> ok remote)
          then Inl ErrRemoteRefused
          else
      (case validateFECOptions (optFEC opts) of
        Some e \<Rightarrow> Inl e
      | None \<Rightarrow>
      (case NewCodecWithMaxDatagramSize (optSendKey opts) (optMaxDatagramSize opts) of
        Inl e \<Rightarrow> Inl e
      | Inr sendCodec \<Rightarrow>
      (case NewCodecWithMaxDatagramSize (optRecvKey opts) (optMaxDatagramSize opts) of
        Inl e \<Rightarrow> Inl e
      | Inr recvCodec \<Rightarrow>
          let queueSize = (if optStreamQueue opts \<le> 0 then defaultStreamQueue
                           else nat (optStreamQueue opts));
              fec = optFEC opts;
              fecAdapt =
                (if FECOptions_enabled fec \<and> Dynamic fec then
                   let maxParity = optDataShards fec;
                       maxParity = (if maxParity > MaxFECParityShards then MaxFECParityShards
                                    else maxParity)
                   in Some (NewFECAdaptiveController (optDataShards fec) maxParity (AdaptWindow fec))
                 else None)
          in Inr (\<lparr>sId = optID opts, sSendCodec = sendCodec, sRecvCodec = recvCodec,
                   sState = SessionEstablished, sRemote = remote,
                   sStreams = gm_set [] 0 \<lparr>chanCap = queueSize, chanBuf = []\<rparr>,
                   sDedup = newPacketDedupWindow defaultDedupWindow,
                   sFecRx = NewFECReceiveBuffer (MaxReceiveGroups fec), sFec = fec,
                   sFecAdapt = fecAdapt, sDisableMigration = optDisableMigration opts,
                   sValidateRemote = optValidateRemote opts,
                   sHandshakeReplay = optHandshakeReplay opts, sCloseErr = None, sFecTx = [],
                   sFecGroup = 0, sPacketNo = 0,
                   sStats = \<lparr>bytesSent = 0, bytesReceived = 0, fecRecovered = 0,
                             oversizedDatagrams = 0, packetLoss = 0, migrations = 0\<rparr>,
                   sCtxDone = False, sDone = False, sSent = [], sAcks = [], sObserved = []\<rparr>,
                  queueSize))))))"

section \<open>Sending\<close>

text \<open>What the pacer and the transport answer to one wire payload.\<close>

datatype wireOutcome = PacerError | WriteError | Written

definition sendWirePayload ::
  "aead \<Rightarrow> wireOutcome \<Rightarrow> DatagramSession \<Rightarrow> StreamID \<Rightarrow> bytes \<Rightarrow> (InnerHeader \<Rightarrow> InnerHeader) \<Rightarrow>
   u64 \<Rightarrow> tgp_error option \<times> DatagramSession" where
  "sendWirePayload A out s streamID payload configure accountedBytes =
     (if out = PacerError then (Some ErrContext, s)
      else
        let no = sPacketNo s + 1; s = s\<lparr>sPacketNo := no\<rparr>
        in case NewDataHeader (sId s) streamID no (int (length payload)) of
             Inl e \<Rightarrow> (Some e, s)
           | Inr header \<Rightarrow>
               (case Seal A (Some (sSendCodec s)) no (configure header) payload of
                  Inl e \<Rightarrow> (Some e, s)
                | Inr wire \<Rightarrow>
                    let s = s\<lparr>sSent := sSent s @ [(wire, sRemote s)]\<rparr>
                    in if out = WriteError then (Some ErrTransport, s)
                       else (None,
                         if accountedBytes > 0
                         then s\<lparr>sStats := (sStats s)\<lparr>bytesSent := bytesSent (sStats s) + accountedBytes\<rparr>\<rparr>
                         else s)))"

text \<open>The \<open>configure\<close> closures of data and of repair shards.\<close>

definition configureData :: "u32 \<Rightarrow> nat \<Rightarrow> int \<Rightarrow> int \<Rightarrow> InnerHeader \<Rightarrow> InnerHeader" where
  "configureData gid index shardsTotal dataShards header =
     header\<lparr>FECGroup := gid, FECIndex := of_nat index, FECTotal := of_int shardsTotal,
            FECDataShards := of_int dataShards\<rparr>"

definition configureParity :: "u32 \<Rightarrow> nat \<Rightarrow> int \<Rightarrow> int \<Rightarrow> InnerHeader \<Rightarrow> InnerHeader" where
  "configureParity gid index shardsTotal dataShards header =
     header\<lparr>Flags := Flags header OR FlagFEC, FECGroup := gid, FECIndex := of_nat index,
            FECTotal := of_int shardsTotal, FECDataShards := of_int dataShards\<rparr>"

text \<open>
  \<open>nextFECShards\<close>: the framed payload, the parity shards when it completes its group, the group's
  id, the index, the shard total and the data shard count.
\<close>

record nextShards =
  nsData :: bytes
  nsParity :: "bytes list"
  nsGroup :: u32
  nsIndex :: nat
  nsTotal :: int
  nsDataShards :: int

text \<open>The group of a stream, after the two \<open>if\<close>s that may start a new one.\<close>

definition openSendGroup ::
  "gotime \<Rightarrow> StreamID \<Rightarrow> int \<Rightarrow> DatagramSession \<Rightarrow> fecSendGroup \<times> DatagramSession" where
  "openSendGroup now streamID dataShards s =
     (let fresh = \<lparr>groupId = sFecGroup s + 1, createdAt = now, payloads = []\<rparr>;
          s' = s\<lparr>sFecGroup := sFecGroup s + 1, sFecTx := gm_set (sFecTx s) streamID fresh\<rparr>
      in case gm_get (sFecTx s) streamID of
           None \<Rightarrow> (fresh, s')
         | Some grp \<Rightarrow> if int (length (payloads grp)) \<ge> dataShards then (fresh, s') else (grp, s))"

definition nextFECShards ::
  "rs \<Rightarrow> gotime \<Rightarrow> DatagramSession \<Rightarrow> StreamID \<Rightarrow> bytes \<Rightarrow>
   (tgp_error + nextShards) \<times> DatagramSession" where
  "nextFECShards R now s streamID payload =
     (let dataShards = optDataShards (sFec s); parityShards = optParityShards (sFec s)
      in case validateFECParams dataShards parityShards of
           Some e \<Rightarrow> (Inl e, s)
         | None \<Rightarrow>
             if dataShards + parityShards > 0xff then (Inl ErrInvalidFECParams, s)
             else case openSendGroup now streamID dataShards s of
               (grp, s) \<Rightarrow>
                 let index = length (payloads grp);
                     grp = grp\<lparr>payloads := payloads grp @ [payload]\<rparr>;
                     s = s\<lparr>sFecTx := gm_set (sFecTx s) streamID grp\<rparr>
                 in case frameFECData payload (length payload + fecLengthPrefixSize) of
                      Inl e \<Rightarrow> (Inl e, s)
                    | Inr dataPayload \<Rightarrow>
                        let result = \<lparr>nsData = dataPayload, nsParity = [], nsGroup = groupId grp,
                              nsIndex = index, nsTotal = dataShards + parityShards,
                              nsDataShards = dataShards\<rparr>
                        in if int (length (payloads grp)) = dataShards then
                             (case FEC_Encode R (payloads grp) dataShards parityShards of
                                Inl e \<Rightarrow> (Inl e, s)
                              | Inr shards \<Rightarrow>
                                  (Inr (result\<lparr>nsParity := drop (nat dataShards) shards\<rparr>),
                                   s\<lparr>sFecTx := gm_del (sFecTx s) streamID\<rparr>))
                           else (Inr result, s))"

text \<open>
  Sending the repair shards of one group in order, until an error: the loop of
  \<open>sendPacketWithFEC\<close> over the parity shards and that of \<open>sendFECRepairBatch\<close>. \<open>io k\<close> is what pacer
  and transport answer to the \<open>k\<close>-th shard.
\<close>

fun sendRepairs :: "aead \<Rightarrow> (nat \<Rightarrow> wireOutcome) \<Rightarrow> DatagramSession \<Rightarrow> StreamID \<Rightarrow> u32 \<Rightarrow> int \<Rightarrow> int \<Rightarrow>
    fecRepairShard list \<Rightarrow> tgp_error option \<times> DatagramSession" where
  "sendRepairs A io s streamID gid shardsTotal dataShards [] = (None, s)"
| "sendRepairs A io s streamID gid shardsTotal dataShards (shard # shards) =
     (case sendWirePayload A (io 0) s streamID (repairPayload shard)
             (configureParity gid (repairIndex shard) shardsTotal dataShards) 0 of
        (Some e, s) \<Rightarrow> (Some e, s)
      | (None, s) \<Rightarrow> sendRepairs A (\<lambda>k. io (Suc k)) s streamID gid shardsTotal dataShards shards)"

text \<open>Shards \<open>from\<close>, \<open>from + 1\<close>, \<dots> with their indices.\<close>

definition numberedShards :: "nat \<Rightarrow> bytes list \<Rightarrow> fecRepairShard list" where
  "numberedShards start shards =
     map (\<lambda>(i, p). \<lparr>repairIndex = i, repairPayload = p\<rparr>) (enumerate start shards)"

definition sendPacketWithFEC ::
  "aead \<Rightarrow> rs \<Rightarrow> (nat \<Rightarrow> wireOutcome) \<Rightarrow> gotime \<Rightarrow> DatagramSession \<Rightarrow> StreamID \<Rightarrow> bytes \<Rightarrow>
   tgp_error option \<times> DatagramSession" where
  "sendPacketWithFEC A R io now s streamID payload =
     (case nextFECShards R now s streamID payload of
        (Inl e, s) \<Rightarrow> (Some e, s)
      | (Inr n, s) \<Rightarrow>
          (case sendWirePayload A (io 0) s streamID (nsData n)
                  (configureData (nsGroup n) (nsIndex n) (nsTotal n) (nsDataShards n))
                  (of_nat (length payload)) of
             (Some e, s) \<Rightarrow> (Some e, s)
           | (None, s) \<Rightarrow>
               sendRepairs A (\<lambda>k. io (Suc k)) s streamID (nsGroup n) (nsTotal n) (nsDataShards n)
                 (numberedShards (nat (nsDataShards n)) (nsParity n))))"

definition SendPacket ::
  "aead \<Rightarrow> rs \<Rightarrow> (nat \<Rightarrow> wireOutcome) \<Rightarrow> gotime \<Rightarrow> DatagramSession \<Rightarrow> StreamID \<Rightarrow> bytes \<Rightarrow>
   tgp_error option \<times> DatagramSession" where
  "SendPacket A R io now s streamID payload =
     (if sState s = SessionClosed then (Some ErrSessionClosed, s)
      else if FECOptions_enabled (sFec s) then sendPacketWithFEC A R io now s streamID payload
      else sendWirePayload A (io 0) s streamID payload (\<lambda>header. header) (of_nat (length payload)))"

section \<open>Flushing partial groups\<close>

definition repairBatch :: "int \<Rightarrow> int \<Rightarrow> StreamID \<Rightarrow> fecSendGroup \<Rightarrow> bytes list \<Rightarrow> fecRepairBatch" where
  "repairBatch dataShards parityShards streamID grp shards =
     \<lparr>batchStream = streamID, batchGroup = groupId grp, batchTotal = dataShards + parityShards,
      batchDataShards = dataShards,
      batchShards = numberedShards (length (payloads grp)) (drop (length (payloads grp)) shards)\<rparr>"

text \<open>The loop over the open groups: the repair batches and the groups that stay open.\<close>

fun collectBatches :: "rs \<Rightarrow> gotime \<Rightarrow> FECOptions \<Rightarrow> (StreamID, fecSendGroup) gomap \<Rightarrow>
    fecRepairBatch list \<times> (StreamID, fecSendGroup) gomap" where
  "collectBatches R now fec [] = ([], [])"
| "collectBatches R now fec ((streamID, grp) # rest) =
     (let dataShards = optDataShards fec; parityShards = optParityShards fec
      in case collectBatches R now fec rest of
           (batches, kept) \<Rightarrow>
             if payloads grp = [] \<or> int (length (payloads grp)) \<ge> dataShards
             then (batches, (streamID, grp) # kept)
             else if now - createdAt grp < GroupTimeout fec then (batches, (streamID, grp) # kept)
             else case FEC_Encode R (payloads grp) dataShards parityShards of
                 Inl e \<Rightarrow> (batches, (streamID, grp) # kept)
               | Inr shards \<Rightarrow>
                   (repairBatch dataShards parityShards streamID grp shards # batches, kept))"

definition expiredFECRepairBatches ::
  "rs \<Rightarrow> gotime \<Rightarrow> DatagramSession \<Rightarrow> fecRepairBatch list \<times> DatagramSession" where
  "expiredFECRepairBatches R now s =
     (if \<not> FECOptions_enabled (sFec s) \<or> GroupTimeout (sFec s) \<le> 0 then ([], s)
      else if validateFECParams (optDataShards (sFec s)) (optParityShards (sFec s)) \<noteq> None
      then ([], s)
      else case collectBatches R now (sFec s) (sFecTx s) of
        (batches, kept) \<Rightarrow> (batches, s\<lparr>sFecTx := kept\<rparr>))"

definition sendFECRepairBatch :: "aead \<Rightarrow> (nat \<Rightarrow> wireOutcome) \<Rightarrow> DatagramSession \<Rightarrow> fecRepairBatch \<Rightarrow>
    tgp_error option \<times> DatagramSession" where
  "sendFECRepairBatch A io s batch =
     sendRepairs A io s (batchStream batch) (batchGroup batch) (batchTotal batch)
       (batchDataShards batch) (batchShards batch)"

text \<open>One tick of \<open>fecFlushLoop\<close>: the error of a batch is dropped and the next one is sent.\<close>

fun sendBatches :: "aead \<Rightarrow> (nat \<Rightarrow> nat \<Rightarrow> wireOutcome) \<Rightarrow> DatagramSession \<Rightarrow> fecRepairBatch list \<Rightarrow>
    DatagramSession" where
  "sendBatches A io s [] = s"
| "sendBatches A io s (batch # batches) =
     sendBatches A (\<lambda>k. io (Suc k)) (snd (sendFECRepairBatch A (io 0) s batch)) batches"

definition fecFlushTick :: "aead \<Rightarrow> rs \<Rightarrow> (nat \<Rightarrow> nat \<Rightarrow> wireOutcome) \<Rightarrow> gotime \<Rightarrow> DatagramSession \<Rightarrow>
    DatagramSession" where
  "fecFlushTick A R io now s =
     (if sCtxDone s then s
      else case expiredFECRepairBatches R now s of (batches, s) \<Rightarrow> sendBatches A io s batches)"

section \<open>Streams, migration, closing\<close>

definition streamWithSize :: "StreamID \<Rightarrow> nat \<Rightarrow> DatagramSession \<Rightarrow> chan \<times> DatagramSession" where
  "streamWithSize streamID queueSize s =
     (case gm_get (sStreams s) streamID of
        Some ch \<Rightarrow> (ch, s)
      | None \<Rightarrow>
          let ch = \<lparr>chanCap = queueSize, chanBuf = []\<rparr>
          in (ch, s\<lparr>sStreams := gm_set (sStreams s) streamID ch\<rparr>))"

text \<open>
  \<open>RecvPacket\<close> selects among the cases that are ready; which one is the scheduler's choice. \<open>None\<close>:
  the chosen case is not ready, the call waits.
\<close>

datatype recvCase = RecvPayload | RecvDone | RecvContext

definition RecvPacket :: "recvCase \<Rightarrow> DatagramSession \<Rightarrow> StreamID \<Rightarrow>
    (tgp_error + bytes) option \<times> DatagramSession" where
  "RecvPacket choice s streamID =
     (case streamWithSize streamID defaultStreamQueue s of
        (ch, s) \<Rightarrow>
          (case choice of
             RecvPayload \<Rightarrow>
               (case chanBuf ch of
                  [] \<Rightarrow> (None, s)
                | p # ps \<Rightarrow> (Some (Inr p),
                     s\<lparr>sStreams := gm_set (sStreams s) streamID (ch\<lparr>chanBuf := ps\<rparr>)\<rparr>))
           | RecvDone \<Rightarrow> (if sDone s then (Some (Inl ErrSessionClosed), s) else (None, s))
           | RecvContext \<Rightarrow> (Some (Inl ErrContext), s)))"

text \<open>\<open>ctxErr\<close> is \<open>ctx.Err()\<close> of the caller's context.\<close>

definition Migrate :: "bool \<Rightarrow> DatagramSession \<Rightarrow> NetAddr option \<Rightarrow> tgp_error option \<times> DatagramSession" where
  "Migrate ctxErr s newAddr =
     (case newAddr of
        None \<Rightarrow> (Some ErrNilAddress, s)
      | Some a \<Rightarrow>
          if ctxErr then (Some ErrContext, s)
          else if (case sValidateRemote s of None \<Rightarrow> False | Some ok \<Rightarrow> \<not> ok a)
          then (Some ErrRemoteRefused, s)
          else if sState s = SessionClosed then (Some ErrSessionClosed, s)
          else if sDisableMigration s then (Some ErrMigrationDisabled, s)
          else (None, s\<lparr>sRemote := a, sState := SessionEstablished,
                        sStats := (sStats s)\<lparr>migrations := migrations (sStats s) + 1\<rparr>\<rparr>))"

text \<open>\<open>terminate\<close> runs once; \<open>err\<close> is what \<open>transport.Close\<close> returns.\<close>

definition terminate :: "tgp_error option \<Rightarrow> DatagramSession \<Rightarrow> DatagramSession" where
  "terminate err s =
     (if sDone s then s
      else s\<lparr>sState := SessionClosed, sCtxDone := True, sCloseErr := err, sDone := True\<rparr>)"

section \<open>The read loop\<close>

text \<open>\<open>None\<close>: not handled. \<open>Some ok\<close>: the ack was written again, \<open>ok\<close> says whether that succeeded.\<close>

definition replayHandshakeAck :: "gotime \<Rightarrow> bool \<Rightarrow> DatagramSession \<Rightarrow> bytes \<Rightarrow> NetAddr option \<Rightarrow>
    bool option \<times> DatagramSession" where
  "replayHandshakeAck now writeOk s wire from =
     (case sHandshakeReplay s of
        None \<Rightarrow> (None, s)
      | Some replay \<Rightarrow>
          if replayRemaining replay \<le> 0 \<or> now > replayExpiresAt replay then (None, s)
          else if \<not> sameAddr from (replayPeer replay) \<or> wire \<noteq> replayHello replay then (None, s)
          else (Some writeOk,
                s\<lparr>sHandshakeReplay := Some (replay\<lparr>replayRemaining := replayRemaining replay - 1\<rparr>),
                  sAcks := sAcks s @ [(replayAck replay, from)]\<rparr>))"

definition sourceEligibleForReplay :: "Transport \<Rightarrow> DatagramSession \<Rightarrow> NetAddr option \<Rightarrow> bool" where
  "sourceEligibleForReplay T s from =
     (if from = None then True
      else if sState s = SessionClosed then False
      else if sameAddr (Some (sRemote s)) from then True
      else if sDisableMigration s then False
      else case IsSourceAuthorized T of None \<Rightarrow> True | Some authorized \<Rightarrow> authorized from)"

definition acceptSource :: "Transport \<Rightarrow> DatagramSession \<Rightarrow> NetAddr option \<Rightarrow> bool \<times> DatagramSession" where
  "acceptSource T s from =
     (if from = None then (True, s)
      else if sState s = SessionClosed then (False, s)
      else if sameAddr (Some (sRemote s)) from then (True, s)
      else if sDisableMigration s then (False, s)
      else if ManagesReturnPath T = Some True then (True, s)
      else case Migrate (sCtxDone s) s from of (err, s) \<Rightarrow> (err = None, s))"

definition observeFECDelivery :: "nat \<Rightarrow> nat \<Rightarrow> DatagramSession \<Rightarrow> DatagramSession" where
  "observeFECDelivery delivered recovered s =
     (case sFecAdapt s of
        None \<Rightarrow> s
      | Some c \<Rightarrow>
          (case Observe c (int delivered) (int recovered) of
             ((parity, loss, updated), c) \<Rightarrow>
               let s = s\<lparr>sFecAdapt := Some c, sStats := (sStats s)\<lparr>packetLoss := loss\<rparr>\<rparr>
               in if updated \<and> parity \<noteq> optParityShards (sFec s)
                  then s\<lparr>sFec := (sFec s)\<lparr>optParityShards := parity\<rparr>\<rparr> else s))"

text \<open>Handing one payload to its stream: dropped when the queue is full.\<close>

definition deliverPayload :: "StreamID \<Rightarrow> nat \<Rightarrow> DatagramSession \<Rightarrow> bytes \<Rightarrow> DatagramSession" where
  "deliverPayload streamID queueSize s payload =
     (let s = s\<lparr>sStats := (sStats s)\<lparr>bytesReceived :=
                  bytesReceived (sStats s) + of_nat (length payload)\<rparr>\<rparr>
      in case streamWithSize streamID queueSize s of
           (ch, s) \<Rightarrow>
             if length (chanBuf ch) < chanCap ch
             then s\<lparr>sStreams := gm_set (sStreams s) streamID (ch\<lparr>chanBuf := chanBuf ch @ [payload]\<rparr>)\<rparr>
             else s)"

text \<open>The body of the loop behind \<open>Open\<close>, for an authenticated packet.\<close>

definition readPacket :: "rs \<Rightarrow> Transport \<Rightarrow> gotime \<Rightarrow> nat \<Rightarrow> DatagramSession \<Rightarrow> Packet \<Rightarrow>
    NetAddr option \<Rightarrow> DatagramSession" where
  "readPacket R T now queueSize s packet from =
     (if SessionID (Inner packet) \<noteq> sId s then s
      else if \<not> sourceEligibleForReplay T s from then s
      else case SeenFirst (sDedup s) (PacketNumber (Inner packet)) of
        (first, w) \<Rightarrow>
          let s = s\<lparr>sDedup := w\<rparr>
          in if \<not> first then s
             else case acceptSource T s from of
               (accepted, s) \<Rightarrow>
                 if \<not> accepted then s
                 else case AddPacket R now (sFecRx s) (packet\<lparr>SourceAddr := from\<rparr>) of
                   (result, rx) \<Rightarrow>
                     let s = s\<lparr>sFecRx := rx\<rparr>
                     in case result of
                          Inl e \<Rightarrow> s
                        | Inr result \<Rightarrow>
                            let s = (if ObservesSources T then s\<lparr>sObserved := sObserved s @ [from]\<rparr>
                                     else s)
                            in if \<not> Ready result then s
                               else
                                 let s = (if RecoveredShards result > 0
                                       then s\<lparr>sStats := (sStats s)\<lparr>fecRecovered :=
                                         fecRecovered (sStats s) + of_nat (RecoveredShards result)\<rparr>\<rparr>
                                       else s);
                                     s = observeFECDelivery (length (Payloads result))
                                           (RecoveredShards result) s
                                 in foldl (deliverPayload (StreamID (Inner packet)) queueSize) s
                                      (Payloads result))"

text \<open>
  One turn of the read loop with a datagram; \<open>False\<close> ends the loop (and the deferred \<open>terminate\<close>
  runs). \<open>writeOk\<close> answers a write of the handshake ack.
\<close>

definition readStep :: "aead \<Rightarrow> rs \<Rightarrow> Transport \<Rightarrow> gotime \<Rightarrow> bool \<Rightarrow> nat \<Rightarrow> DatagramSession \<Rightarrow> bytes \<Rightarrow>
    NetAddr option \<Rightarrow> bool \<times> DatagramSession" where
  "readStep A R T now writeOk queueSize s wire from =
     (case replayHandshakeAck now writeOk s wire from of
        (Some ok, s) \<Rightarrow> (ok, s)
      | (None, s) \<Rightarrow>
          (case Open A (Some (sRecvCodec s)) now wire of
             Inl e \<Rightarrow>
               (True,
                if e = ErrDatagramTooLarge
                then s\<lparr>sStats := (sStats s)\<lparr>oversizedDatagrams := oversizedDatagrams (sStats s) + 1\<rparr>\<rparr>
                else s)
           | Inr packet \<Rightarrow> (True, readPacket R T now queueSize s packet from)))"

section \<open>Runs\<close>

datatype sessionEvent =
    EvSend "nat \<Rightarrow> wireOutcome" gotime StreamID bytes
  | EvFlush "nat \<Rightarrow> nat \<Rightarrow> wireOutcome" gotime
  | EvDatagram Transport gotime bool bytes "NetAddr option" "tgp_error option"
  | EvReadError "tgp_error option"
  | EvRecv recvCase StreamID
  | EvMigrate bool "NetAddr option"
  | EvClose "tgp_error option"

text \<open>A transition of the session; \<open>q\<close> is the queue size of its read loop.\<close>

fun sessionStep :: "aead \<Rightarrow> rs \<Rightarrow> nat \<Rightarrow> DatagramSession \<Rightarrow> sessionEvent \<Rightarrow> DatagramSession" where
  "sessionStep A R q s (EvSend io now streamID payload) = snd (SendPacket A R io now s streamID payload)"
| "sessionStep A R q s (EvFlush io now) = fecFlushTick A R io now s"
| "sessionStep A R q s (EvDatagram T now writeOk wire from err) =
     (case readStep A R T now writeOk q s wire from of
        (True, s) \<Rightarrow> s
      | (False, s) \<Rightarrow> terminate err s)"
| "sessionStep A R q s (EvReadError err) = terminate err s"
| "sessionStep A R q s (EvRecv choice streamID) = snd (RecvPacket choice s streamID)"
| "sessionStep A R q s (EvMigrate ctxErr newAddr) = snd (Migrate ctxErr s newAddr)"
| "sessionStep A R q s (EvClose err) = terminate err s"

end
