(* ===== verification/Handshake.thy ===== *)
theory Handshake
  imports PathControl Session
begin

text \<open>
  The handshake (\<open>internal/tgp/handshake.go\<close>): the two messages, their authentication and
  freshness, the accepting side as a loop over received datagrams, and the dialling side with its
  retries. Randomness (key pairs, session ids, nonces), clock readings and the transport's answers
  are arguments.
\<close>

section \<open>Messages\<close>

definition handshakeNonceSize :: nat where "handshakeNonceSize = 16"
definition handshakeBaseBodySize :: nat where
  "handshakeBaseBodySize = 4 + 1 + 16 + publicKeySize + 2 + 8 + handshakeNonceSize"
definition handshakeAuthTagSize :: nat where "handshakeAuthTagSize = 32"
definition handshakeSequence :: u64 where "handshakeSequence = 0"
definition handshakeInitialRetry :: duration where "handshakeInitialRetry = 100 * time_Millisecond"
definition handshakeMaxRetry :: duration where "handshakeMaxRetry = 800 * time_Millisecond"
definition MaxHandshakeAttempts :: nat where "MaxHandshakeAttempts = 4"
definition handshakeReplayLimit :: int where "handshakeReplayLimit = int MaxHandshakeAttempts - 1"
definition MaxHandshakeTimeout :: duration where "MaxHandshakeTimeout = 30 * time_Second"
definition handshakeMagic :: bytes where "handshakeMagic = [0x54, 0x47, 0x48, 0x04]"
definition handshakeHello :: byte where "handshakeHello = 1"
definition handshakeHelloAck :: byte where "handshakeHelloAck = 2"

lemmas hs_consts = handshakeNonceSize_def handshakeBaseBodySize_def handshakeAuthTagSize_def
  handshakeSequence_def handshakeInitialRetry_def handshakeMaxRetry_def MaxHandshakeAttempts_def
  handshakeReplayLimit_def MaxHandshakeTimeout_def handshakeMagic_def handshakeHello_def
  handshakeHelloAck_def publicKeySize_def

text \<open>\<open>unixMilli\<close> is an \<open>int64\<close>.\<close>

record handshakeMessage =
  hsType :: byte
  hsSession :: SessionID
  hsPublic :: bytes
  hsMaxDatagram :: int
  hsUnixMilli :: int
  hsNonce :: bytes
  hsAuthTag :: bytes

definition handshakeAuthTag ::
  "crypto \<Rightarrow> bytes \<Rightarrow> byte \<Rightarrow> SessionID \<Rightarrow> bytes \<Rightarrow> int \<Rightarrow> int \<Rightarrow> bytes \<Rightarrow> bytes \<Rightarrow> bytes" where
  "handshakeAuthTag C authKey msgType sessionID publicKey limit unixMilli nonce peerPublic =
     hmac_sha256 C authKey (handshakeMagic @ [msgType] @ sessionID @ publicKey @
       put_u16 (of_int limit) @ put_u64 (of_int unixMilli) @ nonce @ peerPublic)"

definition marshalHandshake ::
  "crypto \<Rightarrow> byte \<Rightarrow> SessionID \<Rightarrow> bytes \<Rightarrow> int \<Rightarrow> int \<Rightarrow> bytes \<Rightarrow> bytes \<Rightarrow> bytes \<Rightarrow> tgp_error + bytes" where
  "marshalHandshake C msgType sessionID publicKey limit unixMilli nonce authKey peerPublic =
     (case normalizeMaxDatagramSize limit of
        Inl e \<Rightarrow> Inl e
      | Inr limit \<Rightarrow>
          if unixMilli \<le> 0 \<or> nonce = zeros handshakeNonceSize then Inl ErrInvalidHandshake
          else
            let body = handshakeMagic @ [msgType] @ sessionID @ publicKey @
                       put_u16 (of_int limit) @ put_u64 (of_int unixMilli) @ nonce @
                       (if authKey \<noteq> [] then handshakeAuthTag C authKey msgType sessionID publicKey
                          limit unixMilli nonce peerPublic else [])
            in case NewOuterHeader handshakeSequence (int (length body)) of
                 Inl e \<Rightarrow> Inl e
               | Inr outer \<Rightarrow> Inr (marshalOuterHeader outer @ body))"

definition parseHandshake :: "bytes \<Rightarrow> tgp_error + handshakeMessage" where
  "parseHandshake wire =
     (if length wire \<noteq> outerHeaderSize + handshakeBaseBodySize \<and>
         length wire \<noteq> outerHeaderSize + handshakeBaseBodySize + handshakeAuthTagSize
      then Inl ErrInvalidHandshake
      else case parseOuterHeader (gslice 0 outerHeaderSize wire) of
        Inl e \<Rightarrow> Inl e
      | Inr outer \<Rightarrow>
          if ContentType outer \<noteq> 0x17 \<or> VersionMajor outer \<noteq> 0xfe \<or> VersionMinor outer \<noteq> 0xff \<or>
             unat (Length outer) \<noteq> length wire - outerHeaderSize
          then Inl ErrInvalidHandshake
          else
            let body = drop outerHeaderSize wire
            in if gslice 0 4 body \<noteq> handshakeMagic then Inl ErrInvalidHandshake
               else
                 let msgType = body ! 4
                 in if msgType \<noteq> handshakeHello \<and> msgType \<noteq> handshakeHelloAck
                    then Inl ErrUnexpectedMessage
                    else Inr \<lparr>hsType = msgType, hsSession = gslice 5 21 body,
                              hsPublic = gslice 21 53 body,
                              hsMaxDatagram = uint (get_u16 (gslice 53 55 body)),
                              hsUnixMilli = sint (get_u64 (gslice 55 63 body)),
                              hsNonce = gslice 63 (63 + handshakeNonceSize) body,
                              hsAuthTag = (if length body = handshakeBaseBodySize + handshakeAuthTagSize
                                           then drop handshakeBaseBodySize body else [])\<rparr>)"

text \<open>\<open>None\<close> is success.\<close>

definition verifyHandshakeAuth :: "crypto \<Rightarrow> handshakeMessage \<Rightarrow> bytes \<Rightarrow> bytes \<Rightarrow> tgp_error option" where
  "verifyHandshakeAuth C msg authKey peerPublic =
     (if authKey = [] then (if hsAuthTag msg \<noteq> [] then Some ErrInvalidHandshake else None)
      else if length (hsAuthTag msg) \<noteq> handshakeAuthTagSize then Some ErrInvalidHandshake
      else if hsAuthTag msg \<noteq> handshakeAuthTag C authKey (hsType msg) (hsSession msg) (hsPublic msg)
                (hsMaxDatagram msg) (hsUnixMilli msg) (hsNonce msg) peerPublic
      then Some ErrInvalidHandshake
      else None)"

text \<open>\<open>time.UnixMilli\<close>, and \<open>t.UnixMilli()\<close>.\<close>

definition timeUnixMilli :: "int \<Rightarrow> gotime" where
  "timeUnixMilli ms = ms * time_Millisecond"

definition unixMillis :: "gotime \<Rightarrow> int" where
  "unixMillis t = t div time_Millisecond"

definition validateHandshakeHelloFreshness :: "handshakeMessage \<Rightarrow> gotime \<Rightarrow> tgp_error option" where
  "validateHandshakeHelloFreshness msg now =
     (if hsType msg \<noteq> handshakeHello \<or> hsNonce msg = zeros handshakeNonceSize \<or> hsUnixMilli msg \<le> 0
      then Some ErrInvalidHandshake
      else
        let expiresAt = timeUnixMilli (hsUnixMilli msg)
        in if \<not> expiresAt > now \<or> expiresAt > now + MaxHandshakeTimeout then Some ErrInvalidHandshake
           else None)"

text \<open>\<open>t.Sub(u)\<close> saturates at the ends of \<open>int64\<close>.\<close>

definition timeSub :: "gotime \<Rightarrow> gotime \<Rightarrow> duration" where
  "timeSub t u = max (- (2 ^ 63)) (min (2 ^ 63 - 1) (t - u))"

definition estimateRelayClockOffset :: "gotime \<Rightarrow> gotime \<Rightarrow> int \<Rightarrow> tgp_error + duration" where
  "estimateRelayClockOffset helloSentAt ackReceivedAt relayUnixMilli =
     (if relayUnixMilli \<le> 0 \<or> ackReceivedAt < helloSentAt then Inl ErrInvalidHandshake
      else Inr (timeSub (timeUnixMilli relayUnixMilli) ackReceivedAt))"

section \<open>The accepting side\<close>

record SessionRuntimeOptions =
  roFEC :: FECOptions
  roMaxDatagramSize :: int
  roDisableMigration :: bool
  roAuthKey :: bytes
  roValidateRemote :: "(NetAddr \<Rightarrow> bool) option"

text \<open>What one received datagram does to an acceptor: skip it, give up, or answer and start.\<close>

datatype acceptOutcome =
    AcceptSkip
  | AcceptFail tgp_error
  | AcceptAck bytes SessionOptions

text \<open>
  The body of the loop of \<open>AcceptSessionWithOptions\<close> up to the write of the ack; \<open>now\<close> and \<open>ackNow\<close>
  are its two clock readings.
\<close>

definition acceptHello ::
  "crypto \<Rightarrow> Transport \<Rightarrow> SessionRuntimeOptions \<Rightarrow> KeyPair \<Rightarrow> int \<Rightarrow> gotime \<Rightarrow> gotime \<Rightarrow> bytes \<Rightarrow>
   NetAddr option \<Rightarrow> acceptOutcome" where
  "acceptHello C T opts keyPair localMax now ackNow wire from =
     (case parseHandshake wire of
        Inl _ \<Rightarrow> AcceptSkip
      | Inr msg \<Rightarrow>
          if hsType msg \<noteq> handshakeHello \<or> validateHandshakeHelloFreshness msg now \<noteq> None then AcceptSkip
          else if verifyHandshakeAuth C msg (roAuthKey opts) (zeros publicKeySize) \<noteq> None then AcceptSkip
          else if hsMaxDatagram msg < MinTGPDatagramSize \<or> hsMaxDatagram msg > MaxTGPDatagramSize
          then AcceptSkip
          else
            let effective = min localMax (hsMaxDatagram msg)
            in case DeriveTrafficKeysWithAuth C keyPair (hsPublic msg) (hsSession msg) RoleServer
                      (roAuthKey opts) of
                 Inl e \<Rightarrow> AcceptFail e
               | Inr keys \<Rightarrow>
                   (case marshalHandshake C handshakeHelloAck (hsSession msg)
                           (KeyPair_PublicKey C keyPair) effective (unixMillis ackNow) (hsNonce msg)
                           (roAuthKey opts) (hsPublic msg) of
                      Inl e \<Rightarrow> AcceptFail e
                    | Inr ack \<Rightarrow>
                        AcceptAck ack
                          \<lparr>optID = hsSession msg, optTransport = Some T, optRemoteAddr = from,
                           optSendKey = SendKey keys, optRecvKey = RecvKey keys, optStreamQueue = 0,
                           optFEC = roFEC opts, optMaxDatagramSize = effective,
                           optDisableMigration = roDisableMigration opts, optValidateRemote = None,
                           optHandshakeReplay = Some \<lparr>replayHello = wire, replayAck = ack,
                             replayPeer = from, replayExpiresAt = timeUnixMilli (hsUnixMilli msg),
                             replayRemaining = handshakeReplayLimit\<rparr>\<rparr>))"

text \<open>What \<open>ReadPacket\<close> and the later write of the ack give: one input of the loop.\<close>

datatype acceptInput =
    AcceptReadError tgp_error
  | AcceptRead gotime gotime bytes "NetAddr option" "tgp_error option"

text \<open>\<open>None\<close>: the loop is still waiting for datagrams.\<close>

fun acceptLoop :: "crypto \<Rightarrow> Transport \<Rightarrow> SessionRuntimeOptions \<Rightarrow> KeyPair \<Rightarrow> int \<Rightarrow> acceptInput list \<Rightarrow>
    (tgp_error + DatagramSession \<times> nat) option" where
  "acceptLoop C T opts keyPair localMax [] = None"
| "acceptLoop C T opts keyPair localMax (AcceptReadError e # inputs) = Some (Inl e)"
| "acceptLoop C T opts keyPair localMax (AcceptRead now ackNow wire from writeErr # inputs) =
     (case acceptHello C T opts keyPair localMax now ackNow wire from of
        AcceptSkip \<Rightarrow> acceptLoop C T opts keyPair localMax inputs
      | AcceptFail e \<Rightarrow> Some (Inl e)
      | AcceptAck ack so \<Rightarrow>
          (case writeErr of
             Some e \<Rightarrow> Some (Inl e)
           | None \<Rightarrow> Some (NewDatagramSession so)))"

definition AcceptSessionWithOptions :: "crypto \<Rightarrow> Transport option \<Rightarrow> SessionRuntimeOptions \<Rightarrow>
    KeyPair \<Rightarrow> acceptInput list \<Rightarrow> (tgp_error + DatagramSession \<times> nat) option" where
  "AcceptSessionWithOptions C transport opts keyPair inputs =
     (case transport of
        None \<Rightarrow> Some (Inl ErrTransport)
      | Some T \<Rightarrow>
          (case normalizeMaxDatagramSize (roMaxDatagramSize opts) of
             Inl e \<Rightarrow> Some (Inl e)
           | Inr localMax \<Rightarrow> acceptLoop C T opts keyPair localMax inputs))"

section \<open>The dialling side\<close>

text \<open>\<open>handshakeDeadlineContext\<close>: the deadline of the whole handshake.\<close>

definition handshakeDeadline :: "gotime option \<Rightarrow> gotime \<Rightarrow> gotime" where
  "handshakeDeadline ctxDeadline now =
     (let maxDeadline = now + MaxHandshakeTimeout
      in case ctxDeadline of
           Some d \<Rightarrow> if \<not> d > maxDeadline then d else maxDeadline
         | None \<Rightarrow> maxDeadline)"

text \<open>\<open>handshakeDeadlineError\<close>: \<open>ctxErr\<close> is whether the handshake context has ended.\<close>

definition handshakeDeadlineError :: "gotime \<Rightarrow> gotime \<Rightarrow> bool \<Rightarrow> bool" where
  "handshakeDeadlineError deadline now ctxErr \<longleftrightarrow> \<not> now < deadline \<or> ctxErr"

text \<open>The dialler's own side: its secrets, its limit, the address it dials.\<close>

record dialParams =
  dpRemote :: NetAddr
  dpKeyPair :: KeyPair
  dpSession :: SessionID
  dpNonce :: bytes
  dpLocalMax :: int
  dpDeadline :: gotime
  dpOpts :: SessionRuntimeOptions
  dpTransport :: Transport

text \<open>
  One datagram read while waiting for the ack: ignored, fatal, or the session's options with the
  estimated clock offset. \<open>enable\<close> is what \<open>EnablePathAuthentication\<close> of the transport answers
  (\<open>None\<close> where the transport has no such method).
\<close>

datatype ackOutcome =
    AckIgnore
  | AckFail tgp_error
  | AckSession SessionOptions duration

definition handleAck :: "crypto \<Rightarrow> dialParams \<Rightarrow> (SessionID \<Rightarrow> bytes \<Rightarrow> NetAddr option \<Rightarrow> duration \<Rightarrow> tgp_error option) option \<Rightarrow>
    gotime \<Rightarrow> gotime \<Rightarrow> bytes \<Rightarrow> NetAddr option \<Rightarrow> ackOutcome" where
  "handleAck C d enable helloSentAt ackReceivedAt wire from =
     (let auth = roAuthKey (dpOpts d); clientPublic = KeyPair_PublicKey C (dpKeyPair d)
      in if \<not> sameAddr from (Some (dpRemote d)) then AckIgnore
         else case parseHandshake wire of
           Inl _ \<Rightarrow> AckIgnore
         | Inr msg \<Rightarrow>
             if hsType msg \<noteq> handshakeHelloAck \<or> hsSession msg \<noteq> dpSession d then AckIgnore
             else if hsNonce msg \<noteq> dpNonce d then AckIgnore
             else if verifyHandshakeAuth C msg auth clientPublic \<noteq> None then AckIgnore
             else if hsMaxDatagram msg < MinTGPDatagramSize \<or> hsMaxDatagram msg > dpLocalMax d
             then AckIgnore
             else case estimateRelayClockOffset helloSentAt ackReceivedAt (hsUnixMilli msg) of
               Inl _ \<Rightarrow> AckIgnore
             | Inr clockOffset \<Rightarrow>
                 (case DeriveTrafficKeysWithAuth C (dpKeyPair d) (hsPublic msg) (dpSession d) RoleClient auth of
                    Inl e \<Rightarrow> AckFail e
                  | Inr keys \<Rightarrow>
                      let so = \<lparr>optID = dpSession d, optTransport = Some (dpTransport d),
                            optRemoteAddr = from, optSendKey = SendKey keys,
                            optRecvKey = RecvKey keys, optStreamQueue = 0,
                            optFEC = roFEC (dpOpts d), optMaxDatagramSize = hsMaxDatagram msg,
                            optDisableMigration = roDisableMigration (dpOpts d),
                            optValidateRemote = roValidateRemote (dpOpts d),
                            optHandshakeReplay = None\<rparr>
                      in if roDisableMigration (dpOpts d) then AckSession so clockOffset
                         else case enable of
                           None \<Rightarrow> AckSession so clockOffset
                         | Some f \<Rightarrow>
                             (case f (dpSession d) (derivePathAuthKey C (SendKey keys) (dpSession d))
                                     from clockOffset of
                                None \<Rightarrow> AckSession so clockOffset
                              | Some e \<Rightarrow> AckFail e)))"

text \<open>One turn of the waiting loop: clock before the read, the read's result, clock after it.\<close>

datatype readResult =
    ReadPacketOk bytes "NetAddr option"
  | ReadTimeout
  | ReadError tgp_error

record dialTurn =
  dtNow :: gotime
  dtCtxErr :: bool
  dtRead :: readResult
  dtReceivedAt :: gotime
  dtCtxErrAfter :: bool
  dtWaitOk :: bool
  dtAfterWait :: gotime
  dtCtxErrWait :: bool

datatype waitOutcome = WaitMore | WaitRetry | WaitFail tgp_error | WaitSession SessionOptions duration

fun waitForAck :: "crypto \<Rightarrow> dialParams \<Rightarrow> (SessionID \<Rightarrow> bytes \<Rightarrow> NetAddr option \<Rightarrow> duration \<Rightarrow> tgp_error option) option \<Rightarrow>
    gotime \<Rightarrow> gotime \<Rightarrow> dialTurn list \<Rightarrow> waitOutcome" where
  "waitForAck C d enable helloSentAt attemptDeadline [] = WaitMore"
| "waitForAck C d enable helloSentAt attemptDeadline (t # turns) =
     (if handshakeDeadlineError (dpDeadline d) (dtNow t) (dtCtxErr t) then WaitFail ErrHandshakeTimeout
      else if \<not> dtNow t < attemptDeadline then WaitRetry
      else case dtRead t of
        ReadPacketOk wire from \<Rightarrow>
          (case handleAck C d enable helloSentAt (dtReceivedAt t) wire from of
             AckIgnore \<Rightarrow> waitForAck C d enable helloSentAt attemptDeadline turns
           | AckFail e \<Rightarrow> WaitFail e
           | AckSession so offset \<Rightarrow> WaitSession so offset)
      | ReadTimeout \<Rightarrow>
          if handshakeDeadlineError (dpDeadline d) (dtReceivedAt t) (dtCtxErrAfter t)
          then WaitFail ErrHandshakeTimeout
          else if \<not> dtWaitOk t then WaitFail ErrHandshakeTimeout
          else if handshakeDeadlineError (dpDeadline d) (dtAfterWait t) (dtCtxErrWait t)
          then WaitFail ErrHandshakeTimeout
          else WaitRetry
      | ReadError e \<Rightarrow>
          if handshakeDeadlineError (dpDeadline d) (dtReceivedAt t) (dtCtxErrAfter t)
          then WaitFail ErrHandshakeTimeout
          else WaitFail e)"

text \<open>One attempt: the check, the write of the hello, and the turns of its waiting loop.\<close>

record dialAttempt =
  daCheck :: gotime
  daCtxErr :: bool
  daSentAt :: gotime
  daWriteErr :: "tgp_error option"
  daWriteExpired :: bool
  daTurns :: "dialTurn list"

text \<open>
  The attempts, from number \<open>attempt\<close> on. The result carries the number of hellos written;
  \<open>None\<close>: the dialler is still waiting.
\<close>

fun dialAttempts :: "crypto \<Rightarrow> dialParams \<Rightarrow> (SessionID \<Rightarrow> bytes \<Rightarrow> NetAddr option \<Rightarrow> duration \<Rightarrow> tgp_error option) option \<Rightarrow>
    nat \<Rightarrow> duration \<Rightarrow> dialAttempt list \<Rightarrow> nat \<times> (tgp_error + DatagramSession \<times> nat) option" where
  "dialAttempts C d enable attempt retryDelay as =
     (if attempt > MaxHandshakeAttempts then (0, Some (Inl ErrHandshakeTimeout))
      else case as of
        [] \<Rightarrow> (0, None)
      | a # as \<Rightarrow>
          if handshakeDeadlineError (dpDeadline d) (daCheck a) (daCtxErr a)
          then (0, Some (Inl ErrHandshakeTimeout))
          else case daWriteErr a of
            Some e \<Rightarrow> (1, Some (Inl (if daWriteExpired a then ErrHandshakeTimeout else e)))
          | None \<Rightarrow>
              let attemptDeadline = min (daSentAt a + retryDelay) (dpDeadline d)
              in case waitForAck C d enable (daSentAt a) attemptDeadline (daTurns a) of
                   WaitMore \<Rightarrow> (1, None)
                 | WaitFail e \<Rightarrow> (1, Some (Inl e))
                 | WaitSession so offset \<Rightarrow> (1, Some (NewDatagramSession so))
                 | WaitRetry \<Rightarrow>
                     (case dialAttempts C d enable (Suc attempt) (min (retryDelay * 2) handshakeMaxRetry) as of
                        (n, r) \<Rightarrow> (Suc n, r)))"

declare dialAttempts.simps [simp del]

text \<open>
  \<open>dialSessionWithTransportClock\<close>: \<open>startedAt\<close> is the first clock reading, \<open>private\<close>, \<open>sid\<close> and \<open>nonce\<close> are
  what the generators delivered; when one of them fails, the source returns before anything else
  happens. The hello is part of the result.
\<close>

definition dialSession :: "crypto \<Rightarrow> Transport \<Rightarrow> NetAddr \<Rightarrow> SessionRuntimeOptions \<Rightarrow> gotime option \<Rightarrow> gotime \<Rightarrow>
    bytes \<Rightarrow> SessionID \<Rightarrow> bytes \<Rightarrow>
    (SessionID \<Rightarrow> bytes \<Rightarrow> NetAddr option \<Rightarrow> duration \<Rightarrow> tgp_error option) option \<Rightarrow> dialAttempt list \<Rightarrow>
    bytes \<times> nat \<times> (tgp_error + DatagramSession \<times> nat) option" where
  "dialSession C T remoteAddr opts ctxDeadline startedAt private sid nonce enable as =
     (let deadline = handshakeDeadline ctxDeadline startedAt
      in case normalizeMaxDatagramSize (roMaxDatagramSize opts) of
           Inl e \<Rightarrow> ([], 0, Some (Inl e))
         | Inr localMax \<Rightarrow>
             (case marshalHandshake C handshakeHello sid (KeyPair_PublicKey C (Some private)) localMax
                     (unixMillis deadline) nonce (roAuthKey opts) (zeros publicKeySize) of
                Inl e \<Rightarrow> ([], 0, Some (Inl e))
              | Inr hello \<Rightarrow>
                  (hello, dialAttempts C
                     \<lparr>dpRemote = remoteAddr, dpKeyPair = Some private, dpSession = sid, dpNonce = nonce,
                      dpLocalMax = localMax, dpDeadline = deadline, dpOpts = opts, dpTransport = T\<rparr>
                     enable 1 handshakeInitialRetry as)))"

end
