(* ===== verification/Relay.thy ===== *)
theory Relay
  imports Handshake
begin

text \<open>
  The relay (\<open>internal/tgp/relay.go\<close>): the router that owns the socket and hands datagrams to the
  sessions by source address, the proof of additional paths, tombstones of ended sessions, and the
  loop that accepts sessions.

  A \<open>relaySessionTransport\<close> is shared by pointer between the router's two maps and its session. A
  pointer is a number; \<open>rtHeap\<close> gives the object behind it. The functions that release the router's
  mutex in between take the state change the other goroutines make meanwhile as an argument
  (\<open>between\<close>). The token count of a path request bucket is a \<open>float64\<close> in the source and an exact
  rational here.
\<close>

section \<open>Data\<close>

definition defaultRelayMaxSessions :: nat where "defaultRelayMaxSessions = 1024"
definition defaultRelaySessionQueueSize :: nat where "defaultRelaySessionQueueSize = 256"
definition defaultRelayHandlerConcurrency :: nat where "defaultRelayHandlerConcurrency = 1024"
definition defaultRelayHandshakeQueueSize :: nat where "defaultRelayHandshakeQueueSize = 64"
definition defaultRelayMaxPathsPerSession :: nat where "defaultRelayMaxPathsPerSession = 8"
definition defaultRelayUsedPathCookies :: nat where "defaultRelayUsedPathCookies = 64"
definition pathRequestTokenBurst :: rat where "pathRequestTokenBurst = 8"
definition pathRequestTokensPerSecond :: rat where "pathRequestTokensPerSecond = 2"
definition pathChallengeLifetime :: duration where "pathChallengeLifetime = 5 * time_Second"
definition pathAuthorizationLifetime :: duration where "pathAuthorizationLifetime = 45 * time_Second"
definition maxHandshakeTombstones :: nat where "maxHandshakeTombstones = 4096"

lemmas relay_consts = defaultRelayMaxSessions_def defaultRelaySessionQueueSize_def
  defaultRelayHandlerConcurrency_def defaultRelayHandshakeQueueSize_def
  defaultRelayMaxPathsPerSession_def defaultRelayUsedPathCookies_def pathRequestTokenBurst_def
  pathRequestTokensPerSecond_def pathChallengeLifetime_def pathAuthorizationLifetime_def
  maxHandshakeTombstones_def

record relayPacketEnvelope =
  envPacket :: bytes
  envFrom :: "NetAddr option"

record relayPathState =
  pathAddr :: "NetAddr option"
  authenticatedAt :: gotime
  lastSeen :: gotime

record relaySessionTransport =
  rsId :: SessionID
  rsPaths :: "(sourceAddrKey, relayPathState) gomap"
  rsActive :: sourceAddrKey
  rsUsedCookies :: "(bytes, gotime) gomap"
  rsPathKey :: bytes
  rsTokens :: rat
  rsRefillAt :: gotime
  rsAllow :: bool
  rsPackets :: "relayPacketEnvelope list"
  rsCap :: nat
  rsDone :: bool

type_synonym ref = nat

record relayTransportRouter =
  rtSessions :: "(SessionID, ref) gomap"
  rtSources :: "(sourceAddrKey, ref) gomap"
  rtHeap :: "ref \<Rightarrow> relaySessionTransport"
  rtNext :: ref
  rtReplays :: "(SessionID, handshakeReplayState) gomap"
  rtTombstones :: "(SessionID, gotime) gomap"
  rtQueueSize :: nat
  rtHandshakes :: "relayPacketEnvelope list"
  rtHandshakeCap :: nat
  rtDroppedHandshakes :: u64
  rtDroppedData :: u64
  rtDroppedUnknownData :: u64
  rtDroppedPathControl :: u64
  rtPathRequestAuthChecks :: u64
  rtClosed :: bool
  rtWrites :: "(bytes \<times> NetAddr option) list"

abbreviation "rtUpd r p s \<equiv> r\<lparr>rtHeap := (rtHeap r)(p := s)\<rparr>"

definition newSourceAddrKey :: "NetAddr option \<Rightarrow> sourceAddrKey option" where
  "newSourceAddrKey addr =
     (case addr of
        None \<Rightarrow> None
      | Some a \<Rightarrow>
          if addrNetwork a = [] \<or> addrString a = [] then None
          else Some \<lparr>srcNetwork = addrNetwork a, srcAddress = addrString a\<rparr>)"

text \<open>The object a pointer not yet allocated would show; it is never reached.\<close>

definition noTransport :: relaySessionTransport where
  "noTransport = \<lparr>rsId = [], rsPaths = [], rsActive = \<lparr>srcNetwork = [], srcAddress = []\<rparr>,
     rsUsedCookies = [], rsPathKey = [], rsTokens = 0, rsRefillAt = 0, rsAllow = False,
     rsPackets = [], rsCap = 0, rsDone = False\<rparr>"

definition newRelayTransportRouter :: "int \<Rightarrow> int \<Rightarrow> relayTransportRouter" where
  "newRelayTransportRouter sessionQueueSize handshakeQueueSize =
     \<lparr>rtSessions = [], rtSources = [], rtHeap = (\<lambda>_. noTransport), rtNext = 0, rtReplays = [],
      rtTombstones = [],
      rtQueueSize = (if sessionQueueSize \<le> 0 then defaultRelaySessionQueueSize else nat sessionQueueSize),
      rtHandshakes = [],
      rtHandshakeCap = (if handshakeQueueSize \<le> 0 then defaultRelayHandshakeQueueSize
                        else nat handshakeQueueSize),
      rtDroppedHandshakes = 0, rtDroppedData = 0, rtDroppedUnknownData = 0, rtDroppedPathControl = 0,
      rtPathRequestAuthChecks = 0, rtClosed = False, rtWrites = []\<rparr>"

abbreviation dropPath :: "relayTransportRouter \<Rightarrow> relayTransportRouter" where
  "dropPath r \<equiv> r\<lparr>rtDroppedPathControl := rtDroppedPathControl r + 1\<rparr>"

section \<open>Tombstones and handshake replays\<close>

definition pruneHandshakeTombstones :: "gotime \<Rightarrow> relayTransportRouter \<Rightarrow> relayTransportRouter" where
  "pruneHandshakeTombstones now r =
     r\<lparr>rtTombstones := gm_keep (\<lambda>i expiresAt. now < expiresAt) (rtTombstones r)\<rparr>"

text \<open>The search for the entry that expires first.\<close>

fun oldestTombstone :: "(SessionID \<times> gotime) option \<Rightarrow> (SessionID, gotime) gomap \<Rightarrow> (SessionID \<times> gotime) option" where
  "oldestTombstone best [] = best"
| "oldestTombstone best ((candidate, expiry) # rest) =
     oldestTombstone
       (case best of
          None \<Rightarrow> Some (candidate, expiry)
        | Some (i, e) \<Rightarrow> if expiry < e then Some (candidate, expiry) else best) rest"

definition addHandshakeTombstone :: "gotime \<Rightarrow> SessionID \<Rightarrow> gotime \<Rightarrow> relayTransportRouter \<Rightarrow> relayTransportRouter" where
  "addHandshakeTombstone now i expiresAt r =
     (let r = pruneHandshakeTombstones now r;
          r = (if length (rtTombstones r) \<ge> maxHandshakeTombstones
               then (case oldestTombstone None (rtTombstones r) of
                       None \<Rightarrow> r
                     | Some (oldest, _) \<Rightarrow> r\<lparr>rtTombstones := gm_del (rtTombstones r) oldest\<rparr>)
               else r)
      in r\<lparr>rtTombstones := gm_set (rtTombstones r) i expiresAt\<rparr>)"

definition handshakeTombstoned :: "gotime \<Rightarrow> SessionID \<Rightarrow> relayTransportRouter \<Rightarrow> bool \<times> relayTransportRouter" where
  "handshakeTombstoned now i r =
     (let r = pruneHandshakeTombstones now r
      in (case gm_get (rtTombstones r) i of None \<Rightarrow> False | Some expiresAt \<Rightarrow> now < expiresAt, r))"

definition registerHandshakeReplay :: "SessionID \<Rightarrow> bytes \<Rightarrow> bytes \<Rightarrow> NetAddr option \<Rightarrow> gotime \<Rightarrow>
    relayTransportRouter \<Rightarrow> relayTransportRouter" where
  "registerHandshakeReplay i hello ack peer expiresAt r =
     (if rtClosed r then r
      else r\<lparr>rtReplays := gm_set (rtReplays r) i
               \<lparr>replayHello = hello, replayAck = ack, replayPeer = peer, replayExpiresAt = expiresAt,
                replayRemaining = handshakeReplayLimit\<rparr>\<rparr>)"

text \<open>The router's \<open>replayHandshakeAck\<close>; \<open>writeOk\<close> answers the write.\<close>

definition routerReplayAck :: "gotime \<Rightarrow> bool \<Rightarrow> SessionID \<Rightarrow> relayPacketEnvelope \<Rightarrow>
    relayTransportRouter \<Rightarrow> bool \<times> relayTransportRouter" where
  "routerReplayAck now writeOk i env r =
     (case gm_get (rtReplays r) i of
        None \<Rightarrow> (False, r)
      | Some replay \<Rightarrow>
          if replayRemaining replay \<le> 0 \<or> \<not> now < replayExpiresAt replay
          then (False, r\<lparr>rtReplays := gm_del (rtReplays r) i\<rparr>)
          else if \<not> sameAddr (envFrom env) (replayPeer replay) \<or> envPacket env \<noteq> replayHello replay
          then (False, r)
          else
            let r = r\<lparr>rtReplays := gm_set (rtReplays r) i
                        (replay\<lparr>replayRemaining := replayRemaining replay - 1\<rparr>),
                      rtWrites := rtWrites r @ [(replayAck replay, envFrom env)]\<rparr>
            in (True, if writeOk then r else r\<lparr>rtDroppedHandshakes := rtDroppedHandshakes r + 1\<rparr>))"

section \<open>Registration\<close>

definition registerWithPathAuth :: "gotime \<Rightarrow> SessionID \<Rightarrow> NetAddr option \<Rightarrow> bytes \<Rightarrow> bool \<Rightarrow>
    relayTransportRouter \<Rightarrow> (tgp_error + ref) \<times> relayTransportRouter" where
  "registerWithPathAuth now i addr pathKey allowAdditionalPaths r =
     (if rtClosed r then (Inl ErrSessionClosed, r)
      else
        let r = pruneHandshakeTombstones now r
        in if (case gm_get (rtTombstones r) i of None \<Rightarrow> False | Some e \<Rightarrow> now < e)
           then (Inl ErrInvalidHandshake, r)
           else if gm_has (rtSessions r) i then (Inl ErrInvalidHandshake, r)
           else case newSourceAddrKey addr of
             None \<Rightarrow> (Inl ErrNilAddress, r)
           | Some addrKey \<Rightarrow>
               if gm_has (rtSources r) addrKey then (Inl ErrInvalidHandshake, r)
               else
                 let session = \<lparr>rsId = i,
                       rsPaths = [(addrKey, \<lparr>pathAddr = addr, authenticatedAt = now, lastSeen = now\<rparr>)],
                       rsActive = addrKey, rsUsedCookies = [], rsPathKey = pathKey,
                       rsTokens = pathRequestTokenBurst, rsRefillAt = now,
                       rsAllow = allowAdditionalPaths, rsPackets = [], rsCap = rtQueueSize r,
                       rsDone = False\<rparr>;
                     p = rtNext r
                 in (Inr p, r\<lparr>rtHeap := (rtHeap r)(p := session), rtNext := Suc p,
                              rtSessions := gm_set (rtSessions r) i p,
                              rtSources := gm_set (rtSources r) addrKey p\<rparr>))"

definition register :: "gotime \<Rightarrow> SessionID \<Rightarrow> NetAddr option \<Rightarrow> relayTransportRouter \<Rightarrow>
    (tgp_error + ref) \<times> relayTransportRouter" where
  "register now i addr r = registerWithPathAuth now i addr (zeros trafficKeySize) False r"

definition unregister :: "gotime \<Rightarrow> SessionID \<Rightarrow> ref \<Rightarrow> relayTransportRouter \<Rightarrow> relayTransportRouter" where
  "unregister now i p r =
     (let r = (if gm_get (rtSessions r) i = Some p
               then addHandshakeTombstone now i (now + MaxHandshakeTimeout)
                      (r\<lparr>rtSessions := gm_del (rtSessions r) i, rtReplays := gm_del (rtReplays r) i\<rparr>)
               else r)
      in r\<lparr>rtSources := gm_keep (\<lambda>source owner.
             \<not> (gm_has (rsPaths (rtHeap r p)) source \<and> owner = p)) (rtSources r)\<rparr>)"

text \<open>\<open>relaySessionTransport.Close\<close>, once.\<close>

definition transportClose :: "gotime \<Rightarrow> ref \<Rightarrow> relayTransportRouter \<Rightarrow> relayTransportRouter" where
  "transportClose now p r =
     (if rsDone (rtHeap r p) then r
      else let r = unregister now (rsId (rtHeap r p)) p r
           in rtUpd r p ((rtHeap r p)\<lparr>rsDone := True\<rparr>))"

definition routerClose :: "gotime \<Rightarrow> relayTransportRouter \<Rightarrow> relayTransportRouter" where
  "routerClose now r =
     (if rtClosed r then r
      else
        let sessions = map snd (rtSessions r);
            r = r\<lparr>rtClosed := True, rtSessions := [], rtSources := []\<rparr>
        in foldl (\<lambda>r p. transportClose now p r) r sessions)"

section \<open>Data and paths\<close>

definition routeData :: "relayPacketEnvelope \<Rightarrow> relayTransportRouter \<Rightarrow> relayTransportRouter" where
  "routeData env r =
     (case newSourceAddrKey (envFrom env) of
        None \<Rightarrow> r\<lparr>rtDroppedUnknownData := rtDroppedUnknownData r + 1\<rparr>
      | Some addrKey \<Rightarrow>
          (case gm_get (rtSources r) addrKey of
             None \<Rightarrow> r\<lparr>rtDroppedUnknownData := rtDroppedUnknownData r + 1\<rparr>
           | Some p \<Rightarrow>
               let session = rtHeap r p
               in if length (rsPackets session) < rsCap session
                  then rtUpd r p (session\<lparr>rsPackets := rsPackets session @ [env]\<rparr>)
                  else r\<lparr>rtDroppedData := rtDroppedData r + 1\<rparr>))"

definition consumePathRequestToken :: "gotime \<Rightarrow> relaySessionTransport \<Rightarrow> bool \<times> relaySessionTransport" where
  "consumePathRequestToken now session =
     (let session = (if now > rsRefillAt session
            then session\<lparr>rsTokens := min pathRequestTokenBurst (rsTokens session +
                             Fract (now - rsRefillAt session) time_Second * pathRequestTokensPerSecond),
                         rsRefillAt := now\<rparr>
            else session)
      in if rsTokens session < 1 then (False, session)
         else (True, session\<lparr>rsTokens := rsTokens session - 1\<rparr>))"

definition purgeUsedPathCookies :: "gotime \<Rightarrow> relaySessionTransport \<Rightarrow> relaySessionTransport" where
  "purgeUsedPathCookies now session =
     session\<lparr>rsUsedCookies := gm_keep (\<lambda>cookie expiresAt. now < expiresAt) (rsUsedCookies session)\<rparr>"

text \<open>A path that \<open>purgeExpiredPathsLocked\<close> deletes.\<close>

definition pathExpired :: "gotime \<Rightarrow> relaySessionTransport \<Rightarrow> sourceAddrKey \<Rightarrow> relayPathState \<Rightarrow> bool" where
  "pathExpired now session source path \<longleftrightarrow>
     \<not> (source = rsActive session \<or> now - lastSeen path < pathAuthorizationLifetime)"

definition purgeExpiredPaths :: "gotime \<Rightarrow> ref \<Rightarrow> relayTransportRouter \<Rightarrow> relayTransportRouter" where
  "purgeExpiredPaths now p r =
     (let session = rtHeap r p
      in r\<lparr>rtHeap := (rtHeap r)(p := session\<lparr>rsPaths :=
              gm_keep (\<lambda>source path. \<not> pathExpired now session source path) (rsPaths session)\<rparr>),
           rtSources := gm_keep (\<lambda>source owner.
              \<not> (owner = p \<and> (case gm_get (rsPaths session) source of
                   None \<Rightarrow> False | Some path \<Rightarrow> pathExpired now session source path))) (rtSources r)\<rparr>)"

fun oldestInactive :: "sourceAddrKey \<Rightarrow> (sourceAddrKey \<times> gotime) option \<Rightarrow>
    (sourceAddrKey, relayPathState) gomap \<Rightarrow> (sourceAddrKey \<times> gotime) option" where
  "oldestInactive active best [] = best"
| "oldestInactive active best ((source, path) # rest) =
     oldestInactive active
       (if source = active then best
        else case best of
          None \<Rightarrow> Some (source, lastSeen path)
        | Some (s, t) \<Rightarrow> if lastSeen path < t then Some (source, lastSeen path) else best) rest"

definition evictOldestInactivePath :: "ref \<Rightarrow> relayTransportRouter \<Rightarrow> bool \<times> relayTransportRouter" where
  "evictOldestInactivePath p r =
     (let session = rtHeap r p
      in case oldestInactive (rsActive session) None (rsPaths session) of
           None \<Rightarrow> (False, r)
         | Some (source, _) \<Rightarrow>
             (True, r\<lparr>rtHeap := (rtHeap r)(p := session\<lparr>rsPaths := gm_del (rsPaths session) source\<rparr>),
                      rtSources := (if gm_get (rtSources r) source = Some p
                                    then gm_del (rtSources r) source else rtSources r)\<rparr>))"

text \<open>Another session owns the source address.\<close>

definition ownedByOther :: "relayTransportRouter \<Rightarrow> sourceAddrKey \<Rightarrow> ref \<Rightarrow> bool" where
  "ownedByOther r source p =
     (case gm_get (rtSources r) source of None \<Rightarrow> False | Some owner \<Rightarrow> owner \<noteq> p)"

definition handlePathRequest :: "crypto \<Rightarrow> gotime \<Rightarrow> bool \<Rightarrow> (relayTransportRouter \<Rightarrow> relayTransportRouter) \<Rightarrow>
    NetAddr option \<Rightarrow> sourceAddrKey \<Rightarrow> pathControlMessage \<Rightarrow> relayTransportRouter \<Rightarrow> relayTransportRouter" where
  "handlePathRequest C now writeOk between from source msg r =
     (case gm_get (rtSessions r) (pcSession msg) of
        None \<Rightarrow> r
      | Some p \<Rightarrow>
          let pathKey = rsPathKey (rtHeap r p); r = between r
          in if \<not> verifyPathRequestTime (pcClientNonce msg) now pathRequestLifetime then dropPath r
             else
               let r = r\<lparr>rtPathRequestAuthChecks := rtPathRequestAuthChecks r + 1\<rparr>
               in if \<not> verifyPathControl C msg pathKey then dropPath r
                  else if gm_get (rtSessions r) (pcSession msg) \<noteq> Some p \<or>
                          \<not> rsAllow (rtHeap r p) \<or> rsActive (rtHeap r p) = source then dropPath r
                  else if ownedByOther r source p then dropPath r
                  else case consumePathRequestToken now (rtHeap r p) of
                    (False, session) \<Rightarrow> dropPath (rtUpd r p session)
                  | (True, session) \<Rightarrow>
                      let r = rtUpd r p session;
                          serverNonce = newPathCookie C pathKey (pcSession msg) source (pcClientNonce msg) now
                      in case marshalPathControl C pathControlChallenge (pcSession msg) (pcClientNonce msg)
                                serverNonce pathKey of
                           Inl _ \<Rightarrow> dropPath r
                         | Inr challenge \<Rightarrow>
                             let r = r\<lparr>rtWrites := rtWrites r @ [(challenge, from)]\<rparr>
                             in if writeOk then r else dropPath r)"

text \<open>The last part of \<open>handlePathResponse\<close>: the path becomes the session's active one.\<close>

definition adoptPath :: "gotime \<Rightarrow> NetAddr option \<Rightarrow> sourceAddrKey \<Rightarrow> bytes \<Rightarrow> ref \<Rightarrow>
    relayTransportRouter \<Rightarrow> relayTransportRouter" where
  "adoptPath now from source cookie p r =
     (let session = rtHeap r p;
          session = (case gm_get (rsPaths session) (rsActive session) of
              Some previous \<Rightarrow>
                if rsActive session \<noteq> source
                then session\<lparr>rsPaths := gm_set (rsPaths session) (rsActive session)
                                          (previous\<lparr>lastSeen := now\<rparr>)\<rparr>
                else session
            | None \<Rightarrow> session);
          session = session\<lparr>
            rsUsedCookies := gm_set (rsUsedCookies session) cookie (now + pathChallengeLifetime),
            rsPaths := gm_set (rsPaths session) source
                         \<lparr>pathAddr = from, authenticatedAt = now, lastSeen = now\<rparr>,
            rsActive := source\<rparr>
      in r\<lparr>rtHeap := (rtHeap r)(p := session), rtSources := gm_set (rtSources r) source p\<rparr>)"

text \<open>Its second critical section, for a response that was verified.\<close>

definition commitPathResponse :: "gotime \<Rightarrow> NetAddr option \<Rightarrow> sourceAddrKey \<Rightarrow> pathControlMessage \<Rightarrow> ref \<Rightarrow>
    relayTransportRouter \<Rightarrow> relayTransportRouter" where
  "commitPathResponse now from source msg p r =
     (if gm_get (rtSessions r) (pcSession msg) \<noteq> Some p then dropPath r
      else if ownedByOther r source p then dropPath r
      else
        let r = rtUpd r p (purgeUsedPathCookies now (rtHeap r p))
        in if gm_has (rsUsedCookies (rtHeap r p)) (pcServerNonce msg) \<or>
              length (rsUsedCookies (rtHeap r p)) \<ge> defaultRelayUsedPathCookies then dropPath r
           else
             let r = purgeExpiredPaths now p r
             in if \<not> gm_has (rsPaths (rtHeap r p)) source \<and>
                   length (rsPaths (rtHeap r p)) \<ge> defaultRelayMaxPathsPerSession
                then (case evictOldestInactivePath p r of
                        (False, r) \<Rightarrow> dropPath r
                      | (True, r) \<Rightarrow> adoptPath now from source (pcServerNonce msg) p r)
                else adoptPath now from source (pcServerNonce msg) p r)"

definition handlePathResponse :: "crypto \<Rightarrow> gotime \<Rightarrow> (relayTransportRouter \<Rightarrow> relayTransportRouter) \<Rightarrow>
    NetAddr option \<Rightarrow> sourceAddrKey \<Rightarrow> pathControlMessage \<Rightarrow> relayTransportRouter \<Rightarrow> relayTransportRouter" where
  "handlePathResponse C now between from source msg r =
     (case gm_get (rtSessions r) (pcSession msg) of
        None \<Rightarrow> dropPath r
      | Some p \<Rightarrow>
          if \<not> rsAllow (rtHeap r p) then dropPath r
          else if ownedByOther r source p then dropPath r
          else
            let pathKey = rsPathKey (rtHeap r p); r = between r
            in if \<not> verifyPathControl C msg pathKey \<or>
                  \<not> verifyPathCookie C (pcServerNonce msg) pathKey (pcSession msg) source
                       (pcClientNonce msg) now pathChallengeLifetime then dropPath r
               else commitPathResponse now from source msg p r)"

definition handlePathControl :: "crypto \<Rightarrow> gotime \<Rightarrow> bool \<Rightarrow> (relayTransportRouter \<Rightarrow> relayTransportRouter) \<Rightarrow>
    relayPacketEnvelope \<Rightarrow> pathControlMessage \<Rightarrow> relayTransportRouter \<Rightarrow> relayTransportRouter" where
  "handlePathControl C now writeOk between env msg r =
     (case newSourceAddrKey (envFrom env) of
        None \<Rightarrow> dropPath r
      | Some source \<Rightarrow>
          if pcType msg = pathControlRequest
          then handlePathRequest C now writeOk between (envFrom env) source msg r
          else if pcType msg = pathControlResponse
          then handlePathResponse C now between (envFrom env) source msg r
          else dropPath r)"

text \<open>One turn of \<open>readLoop\<close>; \<open>False\<close> ends it. \<open>seeDone\<close>: the select took the closed \<open>done\<close> channel.\<close>

definition routerRead :: "crypto \<Rightarrow> gotime \<Rightarrow> bool \<Rightarrow> bool \<Rightarrow> (relayTransportRouter \<Rightarrow> relayTransportRouter) \<Rightarrow>
    relayPacketEnvelope \<Rightarrow> relayTransportRouter \<Rightarrow> bool \<times> relayTransportRouter" where
  "routerRead C now writeOk seeDone between env r =
     (case parsePathControl (envPacket env) of
        Inr msg \<Rightarrow> (True, handlePathControl C now writeOk between env msg r)
      | Inl _ \<Rightarrow>
          (case parseHandshake (envPacket env) of
             Inr msg \<Rightarrow>
               if hsType msg = handshakeHello then
                 (case routerReplayAck now writeOk (hsSession msg) env r of
                    (True, r) \<Rightarrow> (True, r)
                  | (False, r) \<Rightarrow>
                      if rtClosed r \<and> (seeDone \<or> length (rtHandshakes r) \<ge> rtHandshakeCap r) then (False, r)
                      else if length (rtHandshakes r) < rtHandshakeCap r
                      then (True, r\<lparr>rtHandshakes := rtHandshakes r @ [env]\<rparr>)
                      else (True, r\<lparr>rtDroppedHandshakes := rtDroppedHandshakes r + 1\<rparr>))
               else (True, routeData env r)
           | Inl _ \<Rightarrow> (True, routeData env r)))"

section \<open>The transport of a session\<close>

text \<open>\<open>WritePacket\<close> sends to the active path, whatever address the session names.\<close>

definition transportWrite :: "ref \<Rightarrow> bytes \<Rightarrow> bool \<Rightarrow> relayTransportRouter \<Rightarrow>
    tgp_error option \<times> relayTransportRouter" where
  "transportWrite p pkt writeOk r =
     (let session = rtHeap r p
      in case gm_get (rsPaths session) (rsActive session) of
           None \<Rightarrow> (Some ErrSessionClosed, r)
         | Some path \<Rightarrow>
             (case pathAddr path of
                None \<Rightarrow> (Some ErrSessionClosed, r)
              | Some a \<Rightarrow> (if writeOk then None else Some ErrTransport,
                          r\<lparr>rtWrites := rtWrites r @ [(pkt, Some a)]\<rparr>)))"

text \<open>\<open>ReadPacket\<close>, when the packet case of the select is taken.\<close>

definition transportRead :: "ref \<Rightarrow> relayTransportRouter \<Rightarrow> relayPacketEnvelope option \<times> relayTransportRouter" where
  "transportRead p r =
     (case rsPackets (rtHeap r p) of
        [] \<Rightarrow> (None, r)
      | env # rest \<Rightarrow> (Some env, rtUpd r p ((rtHeap r p)\<lparr>rsPackets := rest\<rparr>)))"

definition transportAuthorized :: "gotime \<Rightarrow> ref \<Rightarrow> NetAddr option \<Rightarrow> relayTransportRouter \<Rightarrow>
    bool \<times> relayTransportRouter" where
  "transportAuthorized now p addr r =
     (case newSourceAddrKey addr of
        None \<Rightarrow> (False, r)
      | Some key \<Rightarrow>
          let r = purgeExpiredPaths now p r in (gm_has (rsPaths (rtHeap r p)) key, r))"

definition transportObserve :: "gotime \<Rightarrow> ref \<Rightarrow> NetAddr option \<Rightarrow> relayTransportRouter \<Rightarrow> relayTransportRouter" where
  "transportObserve now p addr r =
     (case newSourceAddrKey addr of
        None \<Rightarrow> r
      | Some key \<Rightarrow>
          (case gm_get (rsPaths (rtHeap r p)) key of
             None \<Rightarrow> r
           | Some path \<Rightarrow>
               rtUpd r p ((rtHeap r p)\<lparr>rsPaths := gm_set (rsPaths (rtHeap r p)) key (path\<lparr>lastSeen := now\<rparr>)\<rparr>)))"

section \<open>The relay\<close>

record Relay =
  rlFEC :: FECOptions
  rlMaxDatagramSize :: int
  rlDisableMigration :: bool
  rlAuthKey :: bytes
  rlMaxSessions :: nat
  rlSessionQueueSize :: nat
  rlHandlerConcurrency :: nat
  rlHandshakeQueueSize :: nat
  rlHandlerTokens :: nat
  rlSessions :: "(SessionID, ref) gomap"
  rlClosed :: bool

record RelayOptions =
  roListenAddr :: string
  roHasTransport :: bool
  roRelayFEC :: FECOptions
  roRelayMaxDatagram :: int
  roRelayDisableMigration :: bool
  roRelayAuthKey :: bytes
  roMaxSessions :: int
  roSessionQueueSize :: int
  roHandlerConcurrency :: int
  roHandshakeQueueSize :: int

definition NewRelay :: "RelayOptions \<Rightarrow> tgp_error + Relay" where
  "NewRelay opts =
     (if \<not> roHasTransport opts \<and> roListenAddr opts = [] then Inl ErrTransport
      else case validateFECOptions (roRelayFEC opts) of
        Some e \<Rightarrow> Inl e
      | None \<Rightarrow>
          (case normalizeMaxDatagramSize (roRelayMaxDatagram opts) of
             Inl e \<Rightarrow> Inl e
           | Inr limit \<Rightarrow>
               Inr \<lparr>rlFEC = roRelayFEC opts, rlMaxDatagramSize = limit,
                    rlDisableMigration = roRelayDisableMigration opts, rlAuthKey = roRelayAuthKey opts,
                    rlMaxSessions = (if roMaxSessions opts > 0 then nat (roMaxSessions opts)
                                     else defaultRelayMaxSessions),
                    rlSessionQueueSize = (if roSessionQueueSize opts > 0 then nat (roSessionQueueSize opts)
                                          else defaultRelaySessionQueueSize),
                    rlHandlerConcurrency = (if roHandlerConcurrency opts > 0
                      then nat (roHandlerConcurrency opts) else defaultRelayHandlerConcurrency),
                    rlHandshakeQueueSize = (if roHandshakeQueueSize opts > 0
                      then nat (roHandshakeQueueSize opts) else defaultRelayHandshakeQueueSize),
                    rlHandlerTokens = 0, rlSessions = [], rlClosed = False\<rparr>))"

definition addSession :: "SessionID \<Rightarrow> ref \<Rightarrow> Relay \<Rightarrow> bool \<times> Relay" where
  "addSession i p rl =
     (if rlClosed rl \<or> length (rlSessions rl) \<ge> rlMaxSessions rl then (False, rl)
      else (True, rl\<lparr>rlSessions := gm_set (rlSessions rl) i p\<rparr>))"

definition removeSession :: "SessionID \<Rightarrow> ref \<Rightarrow> Relay \<Rightarrow> Relay" where
  "removeSession i p rl =
     (if gm_get (rlSessions rl) i = Some p then rl\<lparr>rlSessions := gm_del (rlSessions rl) i\<rparr> else rl)"

definition hasSession :: "SessionID \<Rightarrow> Relay \<Rightarrow> bool" where
  "hasSession i rl = gm_has (rlSessions rl) i"

definition canAcceptSession :: "Relay \<Rightarrow> bool" where
  "canAcceptSession rl \<longleftrightarrow> \<not> rlClosed rl \<and> length (rlSessions rl) < rlMaxSessions rl"

text \<open>\<open>dispatchPacket\<close> takes a handler token or drops the packet; the handler gives it back.\<close>

definition dispatchPacket :: "Relay \<Rightarrow> bool \<times> Relay" where
  "dispatchPacket rl =
     (if rlHandlerTokens rl < rlHandlerConcurrency rl
      then (True, rl\<lparr>rlHandlerTokens := Suc (rlHandlerTokens rl)\<rparr>) else (False, rl))"

definition handlerReturned :: "Relay \<Rightarrow> Relay" where
  "handlerReturned rl = rl\<lparr>rlHandlerTokens := rlHandlerTokens rl - 1\<rparr>"

definition relayClose :: "gotime \<Rightarrow> Relay \<times> relayTransportRouter \<Rightarrow> Relay \<times> relayTransportRouter" where
  "relayClose now x =
     (case x of (rl, r) \<Rightarrow>
        let sessions = map snd (rlSessions rl); rl = rl\<lparr>rlSessions := [], rlClosed := True\<rparr>;
            r = routerClose now r
        in (rl, foldl (\<lambda>r p. transportClose now p r) r sessions))"

text \<open>What one hello from the queue does to \<open>acceptSession\<close>.\<close>

datatype relayOutcome =
    RelaySkip
  | RelayFail tgp_error
  | RelayAccepted ref DatagramSession

text \<open>
  The body of the loop. The clock readings: freshness, tombstone check, registration, ack, and a
  close on failure; \<open>writeOk\<close> answers the write of the ack.
\<close>

record acceptTimes =
  atFresh :: gotime
  atTombstone :: gotime
  atRegister :: gotime
  atAck :: gotime
  atClose :: gotime

definition relayTransportView :: Transport where
  "relayTransportView = \<lparr>IsSourceAuthorized = Some (\<lambda>_. False), ManagesReturnPath = Some True,
     ObservesSources = True\<rparr>"

definition acceptEnvelope :: "crypto \<Rightarrow> KeyPair \<Rightarrow> acceptTimes \<Rightarrow> bool \<Rightarrow> Relay \<Rightarrow> relayPacketEnvelope \<Rightarrow>
    relayTransportRouter \<Rightarrow> relayOutcome \<times> relayTransportRouter" where
  "acceptEnvelope C keyPair tm writeOk rl env r =
     (case parseHandshake (envPacket env) of
        Inl _ \<Rightarrow> (RelaySkip, r)
      | Inr msg \<Rightarrow>
          if hsType msg \<noteq> handshakeHello \<or> validateHandshakeHelloFreshness msg (atFresh tm) \<noteq> None
          then (RelaySkip, r)
          else if verifyHandshakeAuth C msg (rlAuthKey rl) (zeros publicKeySize) \<noteq> None then (RelaySkip, r)
          else case handshakeTombstoned (atTombstone tm) (hsSession msg) r of
            (True, r) \<Rightarrow> (RelaySkip, r)
          | (False, r) \<Rightarrow>
              if hsMaxDatagram msg < MinTGPDatagramSize \<or> hsMaxDatagram msg > MaxTGPDatagramSize
              then (RelaySkip, r)
              else if hasSession (hsSession msg) rl then (RelaySkip, r)
              else if \<not> canAcceptSession rl then (RelaySkip, r)
              else
                let effective = min (rlMaxDatagramSize rl) (hsMaxDatagram msg)
                in case DeriveTrafficKeysWithAuth C keyPair (hsPublic msg) (hsSession msg) RoleServer
                          (rlAuthKey rl) of
                     Inl e \<Rightarrow> (RelayFail e, r)
                   | Inr keys \<Rightarrow>
                       let pathKey = derivePathAuthKey C (RecvKey keys) (hsSession msg)
                       in case registerWithPathAuth (atRegister tm) (hsSession msg) (envFrom env) pathKey
                                 (\<not> rlDisableMigration rl) r of
                            (Inl e, r) \<Rightarrow> (RelayFail e, r)
                          | (Inr p, r) \<Rightarrow>
                              (case marshalHandshake C handshakeHelloAck (hsSession msg)
                                      (KeyPair_PublicKey C keyPair) effective (unixMillis (atAck tm))
                                      (hsNonce msg) (rlAuthKey rl) (hsPublic msg) of
                                 Inl e \<Rightarrow> (RelayFail e, transportClose (atClose tm) p r)
                               | Inr ack \<Rightarrow>
                                   (case transportWrite p ack writeOk r of
                                      (Some e, r) \<Rightarrow> (RelayFail e, transportClose (atClose tm) p r)
                                    | (None, r) \<Rightarrow>
                                        let r = registerHandshakeReplay (hsSession msg) (envPacket env) ack
                                                  (envFrom env) (timeUnixMilli (hsUnixMilli msg)) r
                                        in case NewDatagramSession
                                             \<lparr>optID = hsSession msg, optTransport = Some relayTransportView,
                                              optRemoteAddr = envFrom env, optSendKey = SendKey keys,
                                              optRecvKey = RecvKey keys, optStreamQueue = 0,
                                              optFEC = rlFEC rl, optMaxDatagramSize = effective,
                                              optDisableMigration = rlDisableMigration rl,
                                              optValidateRemote = None, optHandshakeReplay = None\<rparr> of
                                             Inl e \<Rightarrow> (RelayFail e, transportClose (atClose tm) p r)
                                           | Inr (session, q) \<Rightarrow> (RelayAccepted p session, r))))"

text \<open>
  The loop of \<open>ListenAndServe\<close> over the hellos it takes from the queue: \<open>Some e\<close> is the error it
  returns with, \<open>None\<close> that it goes on. Every \<open>acceptSession\<close> begins with a key pair of its own: \<open>draws\<close> are
  the results of \<open>NewKeyPair\<close>, \<open>None\<close> its failure. An accepted session is added, or closed when there is no
  room.
\<close>

fun serveHellos :: "crypto \<Rightarrow> (nat \<Rightarrow> KeyPair option) \<Rightarrow> (acceptTimes \<times> bool \<times> relayPacketEnvelope) list \<Rightarrow>
    Relay \<Rightarrow> relayTransportRouter \<Rightarrow> tgp_error option \<times> Relay \<times> relayTransportRouter" where
  "serveHellos C draws [] rl r =
     (case draws 0 of None \<Rightarrow> (Some ErrKeyGeneration, rl, r) | Some keyPair \<Rightarrow> (None, rl, r))"
| "serveHellos C draws ((tm, writeOk, env) # rest) rl r =
     (case draws 0 of
        None \<Rightarrow> (Some ErrKeyGeneration, rl, r)
      | Some keyPair \<Rightarrow>
          (case acceptEnvelope C keyPair tm writeOk rl env r of
             (RelaySkip, r) \<Rightarrow> serveHellos C draws rest rl r
           | (RelayFail e, r) \<Rightarrow> (Some e, rl, r)
           | (RelayAccepted p session, r) \<Rightarrow>
               (case addSession (sId session) p rl of
                  (False, rl) \<Rightarrow> serveHellos C (draws \<circ> Suc) rest rl (transportClose (atClose tm) p r)
                | (True, rl) \<Rightarrow> serveHellos C (draws \<circ> Suc) rest rl r)))"

end
