(* ===== verification/Relay_Router.thy ===== *)
theory Relay_Router
  imports Relay
begin

text \<open>
  The relay's router as a machine of interleaved operations: its maps stay consistent and bounded,
  and a new path of a session needs a verified response.
\<close>

section \<open>The router as a machine\<close>

text \<open>
  What other goroutines do to the router. A pointer that was never handed out does nothing.
\<close>

datatype routerOp =
    OpRegister gotime SessionID "NetAddr option" bytes bool
  | OpReplayEntry SessionID bytes bytes "NetAddr option" gotime
  | OpTombstoned gotime SessionID
  | OpNextHandshake
  | OpClose gotime ref
  | OpRouterClose gotime
  | OpWrite ref bytes bool
  | OpRead ref
  | OpAuthorized gotime ref "NetAddr option"
  | OpObserve gotime ref "NetAddr option"

fun routerOpStep :: "relayTransportRouter \<Rightarrow> routerOp \<Rightarrow> relayTransportRouter" where
  "routerOpStep r (OpRegister now i addr key allow) = snd (registerWithPathAuth now i addr key allow r)"
| "routerOpStep r (OpReplayEntry i hello ack peer e) = registerHandshakeReplay i hello ack peer e r"
| "routerOpStep r (OpTombstoned now i) = snd (handshakeTombstoned now i r)"
| "routerOpStep r OpNextHandshake = r\<lparr>rtHandshakes := drop 1 (rtHandshakes r)\<rparr>"
| "routerOpStep r (OpClose now p) = (if p < rtNext r then transportClose now p r else r)"
| "routerOpStep r (OpRouterClose now) = routerClose now r"
| "routerOpStep r (OpWrite p pkt ok) = (if p < rtNext r then snd (transportWrite p pkt ok r) else r)"
| "routerOpStep r (OpRead p) = (if p < rtNext r then snd (transportRead p r) else r)"
| "routerOpStep r (OpAuthorized now p a) = (if p < rtNext r then snd (transportAuthorized now p a r) else r)"
| "routerOpStep r (OpObserve now p a) = (if p < rtNext r then transportObserve now p a r else r)"

text \<open>
  A step of the router: one of these, or the read loop handling a datagram, with operations of the
  others in between its two critical sections.
\<close>

datatype routerEvent =
    Other routerOp
  | Datagram gotime bool bool "routerOp list" relayPacketEnvelope

fun routerStep :: "crypto \<Rightarrow> relayTransportRouter \<Rightarrow> routerEvent \<Rightarrow> relayTransportRouter" where
  "routerStep C r (Other op) = routerOpStep r op"
| "routerStep C r (Datagram now writeOk seeDone ops env) =
     snd (routerRead C now writeOk seeDone (\<lambda>r. run routerOpStep r ops) env r)"

section \<open>The invariant\<close>

definition transport_inv :: "relaySessionTransport \<Rightarrow> bool" where
  "transport_inv s \<longleftrightarrow> gm_ok (rsPaths s) \<and> gm_ok (rsUsedCookies s) \<and> gm_has (rsPaths s) (rsActive s) \<and>
     (\<forall>k path. gm_get (rsPaths s) k = Some path \<longrightarrow> newSourceAddrKey (pathAddr path) = Some k) \<and>
     length (rsPaths s) \<le> defaultRelayMaxPathsPerSession \<and>
     length (rsUsedCookies s) \<le> defaultRelayUsedPathCookies \<and>
     0 \<le> rsTokens s \<and> rsTokens s \<le> pathRequestTokenBurst \<and> length (rsPackets s) \<le> rsCap s"

text \<open>
  The source map holds exactly the paths of the registered sessions. The rest bounds the tables.
\<close>

definition router_inv :: "relayTransportRouter \<Rightarrow> bool" where
  "router_inv r \<longleftrightarrow> gm_ok (rtSessions r) \<and> gm_ok (rtSources r) \<and> gm_ok (rtTombstones r) \<and>
     (\<forall>i p. gm_get (rtSessions r) i = Some p \<longrightarrow> p < rtNext r \<and> rsId (rtHeap r p) = i) \<and>
     (\<forall>k p. gm_get (rtSources r) k = Some p \<longleftrightarrow>
        gm_get (rtSessions r) (rsId (rtHeap r p)) = Some p \<and> gm_has (rsPaths (rtHeap r p)) k) \<and>
     (\<forall>p < rtNext r. transport_inv (rtHeap r p)) \<and>
     length (rtTombstones r) \<le> maxHandshakeTombstones \<and> length (rtHandshakes r) \<le> rtHandshakeCap r"

lemma router_invD:
  assumes "router_inv r"
  shows "gm_ok (rtSessions r)" "gm_ok (rtSources r)" "gm_ok (rtTombstones r)"
    "gm_get (rtSessions r) i = Some p \<Longrightarrow> p < rtNext r \<and> rsId (rtHeap r p) = i"
    "gm_get (rtSources r) k = Some p \<longleftrightarrow>
        gm_get (rtSessions r) (rsId (rtHeap r p)) = Some p \<and> gm_has (rsPaths (rtHeap r p)) k"
    "p < rtNext r \<Longrightarrow> transport_inv (rtHeap r p)"
    "length (rtTombstones r) \<le> maxHandshakeTombstones" "length (rtHandshakes r) \<le> rtHandshakeCap r"
  using assms unfolding router_inv_def by blast+

lemma router_inv_frame [simp]:
  "router_inv (r\<lparr>rtReplays := a\<rparr>) = router_inv r" "router_inv (r\<lparr>rtWrites := w\<rparr>) = router_inv r"
  "router_inv (r\<lparr>rtDroppedHandshakes := n\<rparr>) = router_inv r"
  "router_inv (r\<lparr>rtDroppedData := n\<rparr>) = router_inv r"
  "router_inv (r\<lparr>rtDroppedUnknownData := n\<rparr>) = router_inv r"
  "router_inv (r\<lparr>rtDroppedPathControl := n\<rparr>) = router_inv r"
  "router_inv (r\<lparr>rtPathRequestAuthChecks := n\<rparr>) = router_inv r"
  by (simp_all add: router_inv_def)

text \<open>One session object changes, and the source map with it.\<close>

lemma router_inv_object:
  assumes "router_inv r" "transport_inv s" "rsId s = rsId (rtHeap r p)" "gm_ok m"
    and "\<And>k. gm_get m k = Some p \<longleftrightarrow>
      gm_get (rtSessions r) (rsId (rtHeap r p)) = Some p \<and> gm_has (rsPaths s) k"
    and "\<And>k q. q \<noteq> p \<Longrightarrow> gm_get m k = Some q \<longleftrightarrow> gm_get (rtSources r) k = Some q"
  shows "router_inv (r\<lparr>rtHeap := (rtHeap r)(p := s), rtSources := m\<rparr>)"
proof -
  have "(gm_get m k = Some q) = (gm_get (rtSessions r) (rsId (((rtHeap r)(p := s)) q)) = Some q \<and>
      gm_has (rsPaths (((rtHeap r)(p := s)) q)) k)" for k q
    using assms(3,5,6) router_invD(5) [OF assms(1)] by (cases "q = p") auto
  then show ?thesis
    using assms(2-4) router_invD [OF assms(1)] unfolding router_inv_def by (simp add: fun_upd_apply)
qed

lemma router_inv_upd:
  assumes "router_inv r" "transport_inv s" "rsId s = rsId (rtHeap r p)"
    and "\<And>k. gm_has (rsPaths s) k \<longleftrightarrow> gm_has (rsPaths (rtHeap r p)) k"
  shows "router_inv (rtUpd r p s)"
proof -
  have "router_inv (r\<lparr>rtHeap := (rtHeap r)(p := s), rtSources := rtSources r\<rparr>)"
    using assms router_invD(2,5) [OF assms(1)] by (intro router_inv_object) auto
  then show ?thesis by simp
qed

lemma router_inv_tombstones:
  assumes "router_inv r" "gm_ok m" "length m \<le> maxHandshakeTombstones"
  shows "router_inv (r\<lparr>rtTombstones := m\<rparr>)"
  using assms by (auto simp: router_inv_def)

section \<open>Every operation keeps it\<close>

lemma gm_has_del [simp]: "gm_has (gm_del m k) j \<longleftrightarrow> j \<noteq> k \<and> gm_has m j"
  by (simp add: gm_get_del)

lemma gm_has_set [simp]: "gm_has (gm_set m k v) j \<longleftrightarrow> j = k \<or> gm_has m j"
  by (simp add: gm_get_set)

lemma prune_inv: "router_inv r \<Longrightarrow> router_inv (pruneHandshakeTombstones now r)"
  unfolding pruneHandshakeTombstones_def
  by (rule router_inv_tombstones) (auto simp: router_invD intro: order.trans [OF gm_len_keep_le])

lemma oldestTombstone_in:
  "set_option best \<subseteq> S \<Longrightarrow> set m \<subseteq> S \<Longrightarrow> oldestTombstone best m = Some y \<Longrightarrow> y \<in> S"
  by (induction best m rule: oldestTombstone.induct) (auto split: option.splits if_splits)

lemma oldestTombstone_Some: "m \<noteq> [] \<or> best \<noteq> None \<Longrightarrow> oldestTombstone best m \<noteq> None"
  by (induction best m rule: oldestTombstone.induct) (auto split: option.splits if_splits)

lemma addTombstone_inv:
  assumes "router_inv r"
  shows "router_inv (addHandshakeTombstone now i e r)"
proof -
  let ?r = "pruneHandshakeTombstones now r"
  have inv: "router_inv ?r" using assms by (rule prune_inv)
  note ok = router_invD(3) [OF inv] and le = router_invD(7) [OF inv]
  show ?thesis
  proof (cases "length (rtTombstones ?r) \<ge> maxHandshakeTombstones")
    case True
    then have ne: "rtTombstones ?r \<noteq> []" by (auto simp: relay_consts)
    then obtain j t where o: "oldestTombstone None (rtTombstones ?r) = Some (j, t)"
      using oldestTombstone_Some [of "rtTombstones ?r" None] by (cases "oldestTombstone None (rtTombstones ?r)") auto
    then have "(j, t) \<in> set (rtTombstones ?r)" using oldestTombstone_in [of None] by blast
    then have g: "gm_get (rtTombstones ?r) j = Some t" using gm_in_set [OF ok] by blast
    have "length (gm_set (gm_del (rtTombstones ?r) j) i e) \<le> maxHandshakeTombstones"
      using gm_len_del [OF ok g] le gm.len_set_at_le [of "gm_del (rtTombstones ?r) j" i e] ok by simp
    then show ?thesis
      using True o router_inv_tombstones [OF inv, of "gm_set (gm_del (rtTombstones ?r) j) i e"] ok
      by (simp add: addHandshakeTombstone_def Let_def)
  next
    case False
    then show ?thesis
      using router_inv_tombstones [OF inv, of "gm_set (rtTombstones ?r) i e"] ok
        gm.len_set_at_le [OF ok, of i e]
      by (simp add: addHandshakeTombstone_def Let_def)
  qed
qed

lemma register_inv:
  assumes "router_inv r"
  shows "router_inv (snd (registerWithPathAuth now i addr key allow r))"
proof -
  let ?r = "pruneHandshakeTombstones now r"
  have inv: "router_inv ?r" using assms by (rule prune_inv)
  have next_eq: "rtNext ?r = rtNext r" "rtHeap ?r = rtHeap r" "rtSessions ?r = rtSessions r"
    "rtSources ?r = rtSources r" by (simp_all add: pruneHandshakeTombstones_def)
  note D = router_invD [OF inv]
  have fresh: "gm_get (rtSessions r) j \<noteq> Some (rtNext r)" for j using D(4) [of j "rtNext r"] next_eq by auto
  have fresh': "gm_get (rtSources r) k \<noteq> Some (rtNext r)" for k
    using D(5) [of k "rtNext r"] fresh next_eq by auto
  show ?thesis
  proof (cases "rtClosed r \<or> (case gm_get (rtTombstones ?r) i of None \<Rightarrow> False | Some e \<Rightarrow> now < e) \<or>
      gm_has (rtSessions ?r) i \<or> newSourceAddrKey addr = None \<or>
      (\<exists>k. newSourceAddrKey addr = Some k \<and> gm_has (rtSources ?r) k)")
    case True
    then show ?thesis using inv assms by (auto simp: registerWithPathAuth_def Let_def split: option.splits)
  next
    case False
    then obtain k where k: "newSourceAddrKey addr = Some k" and n: "gm_get (rtSources r) k = None"
        "gm_get (rtSessions r) i = None" "\<not> rtClosed r"
        "\<not> (case gm_get (rtTombstones ?r) i of None \<Rightarrow> False | Some e \<Rightarrow> now < e)"
      by (auto simp: next_eq)
    let ?s = "\<lparr>rsId = i, rsPaths = [(k, \<lparr>pathAddr = addr, authenticatedAt = now, lastSeen = now\<rparr>)],
      rsActive = k, rsUsedCookies = [], rsPathKey = key, rsTokens = pathRequestTokenBurst,
      rsRefillAt = now, rsAllow = allow, rsPackets = [], rsCap = rtQueueSize r, rsDone = False\<rparr>"
    let ?p = "rtNext r"
    have e: "snd (registerWithPathAuth now i addr key allow r) =
        ?r\<lparr>rtHeap := (rtHeap r)(?p := ?s), rtNext := Suc ?p, rtSessions := gm_set (rtSessions r) i ?p,
           rtSources := gm_set (rtSources r) k ?p\<rparr>"
      using k n by (simp add: registerWithPathAuth_def Let_def next_eq pruneHandshakeTombstones_def)
    have s: "transport_inv ?s" by (simp add: transport_inv_def gm_ok_def relay_consts k)
    have h: "gm_get (rtSessions r) j = Some p \<Longrightarrow> p < ?p \<and> rsId (rtHeap r p) = j" for j p
      using D(4) next_eq by metis
    have so: "(gm_get (gm_set (rtSources r) k ?p) k' = Some q) =
      (gm_get (gm_set (rtSessions r) i ?p) (rsId (((rtHeap r)(?p := ?s)) q)) = Some q \<and>
       gm_has (rsPaths (((rtHeap r)(?p := ?s)) q)) k')" for k' q
    proof (cases "q = ?p")
      case True
      then show ?thesis using fresh' by (simp add: gm_get_set)
    next
      case False
      then show ?thesis using D(5) [of k' q] n h [of "rsId (rtHeap r q)" q]
        by (auto simp: gm_get_set next_eq)
    qed
    have ss: "gm_get (gm_set (rtSessions r) i ?p) j = Some q \<Longrightarrow>
        q < Suc ?p \<and> rsId (((rtHeap r)(?p := ?s)) q) = j" for j q
      using h [of j q] by (cases "j = i") (auto simp: gm_get_set)
    have tt: "q < Suc ?p \<Longrightarrow> transport_inv (((rtHeap r)(?p := ?s)) q)" for q
      using s D(6) [of q] next_eq by (cases "q = ?p") auto
    show ?thesis unfolding e router_inv_def
      using ss so tt D(1,2,3,7,8) next_eq by (simp del: fun_upd_apply)
  qed
qed


lemma tombstone_frame:
  "rtHeap (addHandshakeTombstone now i e r) = rtHeap r" "rtNext (addHandshakeTombstone now i e r) = rtNext r"
  "rtSessions (addHandshakeTombstone now i e r) = rtSessions r"
  "rtSources (addHandshakeTombstone now i e r) = rtSources r"
  "rtHandshakes (addHandshakeTombstone now i e r) = rtHandshakes r"
  "rtHandshakeCap (addHandshakeTombstone now i e r) = rtHandshakeCap r"
  by (auto simp: addHandshakeTombstone_def pruneHandshakeTombstones_def Let_def split: option.splits)

lemma tombstone_bound:
  assumes "router_inv r"
  shows "gm_ok (rtTombstones (addHandshakeTombstone now i e r))"
    "length (rtTombstones (addHandshakeTombstone now i e r)) \<le> maxHandshakeTombstones"
  using addTombstone_inv [OF assms] by (simp_all add: router_invD)

lemma tombstone_other_fields:
  "rtTombstones (addHandshakeTombstone now i e (r\<lparr>rtSessions := a, rtReplays := b\<rparr>)) =
   rtTombstones (addHandshakeTombstone now i e r)"
  by (auto simp: addHandshakeTombstone_def pruneHandshakeTombstones_def Let_def split: option.splits)

lemma unregister_frame:
  "rtHeap (unregister now i p r) = rtHeap r" "rtNext (unregister now i p r) = rtNext r"
  by (auto simp: unregister_def Let_def tombstone_frame)

lemma unregister_inv:
  assumes inv: "router_inv r" and p: "p < rtNext r"
  shows "router_inv (unregister now (rsId (rtHeap r p)) p r)"
proof -
  let ?i = "rsId (rtHeap r p)" and ?u = "unregister now (rsId (rtHeap r p)) p r"
  let ?m = "gm_keep (\<lambda>k q. \<not> (gm_has (rsPaths (rtHeap r p)) k \<and> q = p)) (rtSources r)"
  note D = router_invD [OF inv]
  have m: "gm_get ?m k = Some q \<longleftrightarrow> q \<noteq> p \<and> gm_get (rtSources r) k = Some q" for k q
    using D(5) [of k p] by (auto simp: gm_get_keep [OF D(2)] split: option.splits)
  have other: "q \<noteq> p \<Longrightarrow> gm_get (rtSessions r) (rsId (rtHeap r q)) = Some q \<Longrightarrow> rsId (rtHeap r q) \<noteq> ?i"
    if "gm_get (rtSessions r) ?i = Some p" for q using that by auto
  show ?thesis
  proof (cases "gm_get (rtSessions r) ?i = Some p")
    case True
    have f: "rtSources ?u = ?m" "rtSessions ?u = gm_del (rtSessions r) ?i" "rtHeap ?u = rtHeap r"
        "rtNext ?u = rtNext r" "rtHandshakes ?u = rtHandshakes r" "rtHandshakeCap ?u = rtHandshakeCap r"
        "rtTombstones ?u = rtTombstones (addHandshakeTombstone now ?i (now + MaxHandshakeTimeout) r)"
      using True by (simp_all add: unregister_def Let_def tombstone_frame tombstone_other_fields)
    have so: "gm_get ?m k = Some q \<longleftrightarrow> gm_get (gm_del (rtSessions r) ?i) (rsId (rtHeap r q)) = Some q \<and>
        gm_has (rsPaths (rtHeap r q)) k" for k q
      using m [of k q] D(5) [of k q] other [OF True, of q] by (cases "q = p") (auto simp: gm_get_del)
    show ?thesis unfolding router_inv_def f
      using so D tombstone_bound [OF inv] by (simp add: gm_get_del)
  next
    case False
    then have "?m = rtSources r" using D(5) [of _ p] gm_in_set [OF D(2)]
      by (auto simp: gm_keep_def intro!: filter_True)
    then have "?u = r" using False by (simp add: unregister_def Let_def)
    then show ?thesis using inv by simp
  qed
qed

lemma transportClose_inv:
  assumes "router_inv r" "p < rtNext r"
  shows "router_inv (transportClose now p r)"
proof -
  let ?u = "unregister now (rsId (rtHeap r p)) p r"
  have "transport_inv ((rtHeap r p)\<lparr>rsDone := True\<rparr>)"
    using router_invD(6) [OF assms] by (simp add: transport_inv_def)
  then have "router_inv (rtUpd ?u p ((rtHeap ?u p)\<lparr>rsDone := True\<rparr>))"
    by (intro router_inv_upd unregister_inv assms) (simp_all add: unregister_frame)
  then show ?thesis using assms(1) by (simp add: transportClose_def Let_def)
qed

lemma transportClose_next: "rtNext (transportClose now p r) = rtNext r"
  by (simp add: transportClose_def Let_def unregister_frame)

lemma close_all_inv:
  "router_inv r \<Longrightarrow> (\<forall>p \<in> set ps. p < rtNext r) \<Longrightarrow>
   router_inv (foldl (\<lambda>r p. transportClose now p r) r ps)"
proof (induction ps arbitrary: r)
  case (Cons a ps)
  then show ?case using Cons.IH [of "transportClose now a r"] transportClose_inv [of r a]
    by (simp add: transportClose_next)
qed simp

lemma routerClose_inv:
  assumes "router_inv r"
  shows "router_inv (routerClose now r)"
proof (cases "rtClosed r")
  case False
  have "p < rtNext r" if "(i, p) \<in> set (rtSessions r)" for i p
    using that router_invD(4) [OF assms, of i p] gm_in_set [OF router_invD(1) [OF assms]] by auto
  moreover have "router_inv (r\<lparr>rtClosed := True, rtSessions := [], rtSources := []\<rparr>)"
    using router_invD [OF assms] by (simp add: router_inv_def)
  ultimately show ?thesis using False
    by (auto simp: routerClose_def Let_def intro!: close_all_inv)
qed (simp add: routerClose_def assms)

lemma routeData_inv:
  assumes "router_inv r"
  shows "router_inv (routeData env r)"
proof -
  have "router_inv (rtUpd r p ((rtHeap r p)\<lparr>rsPackets := rsPackets (rtHeap r p) @ [env]\<rparr>))"
    if "gm_get (rtSources r) k = Some p" "length (rsPackets (rtHeap r p)) < rsCap (rtHeap r p)" for k p
  proof -
    have "p < rtNext r" using that router_invD(4,5) [OF assms] by blast
    then have "transport_inv (rtHeap r p)" by (rule router_invD(6) [OF assms])
    then show ?thesis using that by (intro router_inv_upd assms) (simp_all add: transport_inv_def)
  qed
  then show ?thesis using assms by (auto simp: routeData_def Let_def split: option.splits)
qed

lemma consume_bounds:
  assumes "0 \<le> rsTokens s" "rsTokens s \<le> pathRequestTokenBurst" "consumePathRequestToken now s = (b, s')"
  shows "0 \<le> rsTokens s' \<and> rsTokens s' \<le> pathRequestTokenBurst"
proof -
  have "0 \<le> Fract (now - rsRefillAt s) time_Second" if "now > rsRefillAt s"
    using that by (simp add: zero_le_Fract_iff)
  then show ?thesis using assms
    by (auto simp: consumePathRequestToken_def Let_def relay_consts split: if_splits)
qed

lemma consume_frame:
  assumes "consumePathRequestToken now s = (b, s')"
  shows "rsId s' = rsId s" "rsPaths s' = rsPaths s" "rsActive s' = rsActive s"
    "rsUsedCookies s' = rsUsedCookies s" "rsPackets s' = rsPackets s" "rsCap s' = rsCap s"
  using assms by (auto simp: consumePathRequestToken_def Let_def split: if_splits)

lemma consume_inv:
  "transport_inv s \<Longrightarrow> consumePathRequestToken now s = (b, s') \<Longrightarrow> transport_inv s'"
  using consume_bounds [of s now b s'] by (simp add: transport_inv_def consume_frame)

lemma purgeCookies_inv: "transport_inv s \<Longrightarrow> transport_inv (purgeUsedPathCookies now s)"
  using gm_len_keep_le [of "\<lambda>cookie expiresAt. now < expiresAt" "rsUsedCookies s"]
  by (simp add: purgeUsedPathCookies_def transport_inv_def)

lemma keepPaths_inv:
  assumes "transport_inv s" "\<And>path. P (rsActive s) path"
  shows "transport_inv (s\<lparr>rsPaths := gm_keep P (rsPaths s)\<rparr>)"
  using assms gm_len_keep_le [of P "rsPaths s"]
  by (auto simp: transport_inv_def gm_get_keep split: option.splits)

lemma delPath_inv:
  assumes "transport_inv s" "k \<noteq> rsActive s"
  shows "transport_inv (s\<lparr>rsPaths := gm_del (rsPaths s) k\<rparr>)"
  using assms gm_len_del_le [of "rsPaths s" k]
  by (auto simp: transport_inv_def gm_get_del split: if_splits)

lemma purgePaths_inv:
  assumes inv: "router_inv r" and p: "p < rtNext r"
  shows "router_inv (purgeExpiredPaths now p r)"
proof -
  let ?s = "rtHeap r p"
  have t: "transport_inv ?s" by (rule router_invD(6) [OF inv p])
  then have ok: "gm_ok (rsPaths ?s)" by (simp add: transport_inv_def)
  note D = router_invD [OF inv]
  let ?m = "gm_keep (\<lambda>k q. \<not> (q = p \<and> (case gm_get (rsPaths ?s) k of None \<Rightarrow> False
    | Some path \<Rightarrow> pathExpired now ?s k path))) (rtSources r)"
  let ?t = "?s\<lparr>rsPaths := gm_keep (\<lambda>k path. \<not> pathExpired now ?s k path) (rsPaths ?s)\<rparr>"
  have own: "gm_get ?m k = Some p \<longleftrightarrow> gm_get (rtSessions r) (rsId ?s) = Some p \<and> gm_has (rsPaths ?t) k" for k
    using D(5) [of k p] by (auto simp: gm_get_keep [OF ok] gm_get_keep [OF D(2)] split: option.splits)
  have other: "q \<noteq> p \<Longrightarrow> gm_get ?m k = Some q \<longleftrightarrow> gm_get (rtSources r) k = Some q" for k q
    by (auto simp: gm_get_keep [OF D(2)] split: option.splits)
  have "transport_inv ?t" by (rule keepPaths_inv [OF t]) (simp add: pathExpired_def)
  then have "router_inv (r\<lparr>rtHeap := (rtHeap r)(p := ?t), rtSources := ?m\<rparr>)"
    using own other D(2) by (intro router_inv_object [OF inv]) auto
  then show ?thesis unfolding purgeExpiredPaths_def Let_def .
qed

lemma purgePaths_frame:
  "rtNext (purgeExpiredPaths now p r) = rtNext r" "rtSessions (purgeExpiredPaths now p r) = rtSessions r"
  "rsActive (rtHeap (purgeExpiredPaths now p r) q) = rsActive (rtHeap r q)"
  "rsUsedCookies (rtHeap (purgeExpiredPaths now p r) q) = rsUsedCookies (rtHeap r q)"
  "rsId (rtHeap (purgeExpiredPaths now p r) q) = rsId (rtHeap r q)"
  by (simp_all add: purgeExpiredPaths_def Let_def)

lemma oldestInactive_in:
  "set_option (map_option fst best) \<subseteq> S \<Longrightarrow> (\<forall>j \<in> fst ` set m. j \<noteq> a \<longrightarrow> j \<in> S) \<Longrightarrow>
   oldestInactive a best m = Some (k, t) \<Longrightarrow> k \<in> S"
  by (induction a best m rule: oldestInactive.induct) (auto split: option.splits if_splits)

lemma oldestInactive_key:
  assumes "oldestInactive a None m = Some (k, t)"
  shows "k \<noteq> a \<and> gm_has m k"
  using oldestInactive_in [of None "fst ` set m - {a}" m a k t] assms
  using gm_dom [of m] by (auto simp: dom_def)

lemma evict_inv:
  assumes inv: "router_inv r" and p: "p < rtNext r" and e: "evictOldestInactivePath p r = (b, r')"
  shows "router_inv r'"
proof (cases "oldestInactive (rsActive (rtHeap r p)) None (rsPaths (rtHeap r p))")
  case None
  then show ?thesis using e inv by (simp add: evictOldestInactivePath_def Let_def)
next
  case (Some y)
  obtain k t where y: "y = (k, t)" by force
  have k: "k \<noteq> rsActive (rtHeap r p)" using oldestInactive_key Some y by blast
  note D = router_invD [OF inv]
  let ?m = "if gm_get (rtSources r) k = Some p then gm_del (rtSources r) k else rtSources r"
  let ?t = "(rtHeap r p)\<lparr>rsPaths := gm_del (rsPaths (rtHeap r p)) k\<rparr>"
  have own: "gm_get ?m j = Some p \<longleftrightarrow>
      gm_get (rtSessions r) (rsId (rtHeap r p)) = Some p \<and> gm_has (rsPaths ?t) j" for j
    using D(5) [of j p] D(5) [of k p] by (auto simp: gm_get_del)
  have other: "q \<noteq> p \<Longrightarrow> gm_get ?m j = Some q \<longleftrightarrow> gm_get (rtSources r) j = Some q" for j q
    by (auto simp: gm_get_del)
  have "router_inv (r\<lparr>rtHeap := (rtHeap r)(p := ?t), rtSources := ?m\<rparr>)"
    by (rule router_inv_object [OF inv delPath_inv [OF D(6) [OF p] k]]) (use own other D(2) in auto)
  then show ?thesis using e Some y by (simp add: evictOldestInactivePath_def Let_def)
qed

lemma evict_frame:
  assumes "evictOldestInactivePath p r = (b, r')"
  shows "rtNext r' = rtNext r" "rtSessions r' = rtSessions r"
    "rsUsedCookies (rtHeap r' q) = rsUsedCookies (rtHeap r q)" "rsId (rtHeap r' q) = rsId (rtHeap r q)"
    "gm_get (rtSources r') k = Some q \<Longrightarrow> gm_get (rtSources r) k = Some q"
  using assms by (auto simp: evictOldestInactivePath_def Let_def gm_get_del split: option.splits if_splits)

lemma evict_shrinks:
  assumes "router_inv r" "p < rtNext r" "evictOldestInactivePath p r = (True, r')"
  shows "length (rsPaths (rtHeap r' p)) < defaultRelayMaxPathsPerSession"
proof -
  obtain k t where k: "oldestInactive (rsActive (rtHeap r p)) None (rsPaths (rtHeap r p)) = Some (k, t)"
    and r': "rsPaths (rtHeap r' p) = gm_del (rsPaths (rtHeap r p)) k"
    using assms(3) by (auto simp: evictOldestInactivePath_def Let_def split: option.splits)
  have t: "transport_inv (rtHeap r p)" by (rule router_invD(6) [OF assms(1,2)])
  obtain v where "gm_get (rsPaths (rtHeap r p)) k = Some v" using oldestInactive_key [OF k] by auto
  then show ?thesis using gm_len_del t r' by (fastforce simp: transport_inv_def)
qed

text \<open>The path that was active before keeps its place, with a later time.\<close>

lemma adopt_object:
  assumes "transport_inv s" "newSourceAddrKey from = Some k"
    "gm_has (rsPaths s) k \<or> length (rsPaths s) < defaultRelayMaxPathsPerSession"
    "length (rsUsedCookies s) < defaultRelayUsedPathCookies"
    and "gm_get (rsPaths s) (rsActive s) = Some previous"
    and "m = (if rsActive s \<noteq> k then gm_set (rsPaths s) (rsActive s) (previous\<lparr>lastSeen := now\<rparr>) else rsPaths s)"
  shows "transport_inv (s\<lparr>rsUsedCookies := gm_set (rsUsedCookies s) c e,
      rsPaths := gm_set m k \<lparr>pathAddr = from, authenticatedAt = now, lastSeen = now\<rparr>, rsActive := k\<rparr>)"
proof -
  have ok: "gm_ok (rsPaths s)" "gm_ok (rsUsedCookies s)" using assms(1) by (simp_all add: transport_inv_def)
  have m: "gm_ok m" "length m = length (rsPaths s)" "gm_get m k = None \<longleftrightarrow> gm_get (rsPaths s) k = None"
    using ok assms(5,6) by (auto simp: gm_len_set gm_get_set)
  have "length (gm_set m k v) \<le> defaultRelayMaxPathsPerSession" for v
    using assms(1,3) m by (auto simp: gm_len_set transport_inv_def)
  moreover have "length (gm_set (rsUsedCookies s) c e) \<le> defaultRelayUsedPathCookies"
    by (rule gm.bounded_insert [OF ok(2) assms(4)])
  moreover have "newSourceAddrKey (pathAddr path) = Some j" if "gm_get m j = Some path" for j path
    using that assms(1,5,6) by (auto simp: transport_inv_def gm_get_set split: if_splits)
  ultimately show ?thesis using assms(1,2) m(1) ok
    by (auto simp: transport_inv_def gm_get_set split: if_splits)
qed

lemma adoptPath_inv:
  assumes inv: "router_inv r" and p: "gm_get (rtSessions r) (rsId (rtHeap r p)) = Some p"
    and k: "newSourceAddrKey from = Some k" and o: "\<not> ownedByOther r k p"
    and l: "gm_has (rsPaths (rtHeap r p)) k \<or> length (rsPaths (rtHeap r p)) < defaultRelayMaxPathsPerSession"
    and c: "length (rsUsedCookies (rtHeap r p)) < defaultRelayUsedPathCookies"
  shows "router_inv (adoptPath now from k cookie p r)"
proof -
  let ?s = "rtHeap r p"
  note D = router_invD [OF inv]
  have t: "transport_inv ?s" using D(4) [OF p] D(6) by blast
  then obtain previous where a: "gm_get (rsPaths ?s) (rsActive ?s) = Some previous"
    by (auto simp: transport_inv_def)
  let ?m = "if rsActive ?s \<noteq> k then gm_set (rsPaths ?s) (rsActive ?s) (previous\<lparr>lastSeen := now\<rparr>) else rsPaths ?s"
  let ?t = "?s\<lparr>rsUsedCookies := gm_set (rsUsedCookies ?s) cookie (now + pathChallengeLifetime),
    rsPaths := gm_set ?m k \<lparr>pathAddr = from, authenticatedAt = now, lastSeen = now\<rparr>, rsActive := k\<rparr>"
  have e: "adoptPath now from k cookie p r =
      r\<lparr>rtHeap := (rtHeap r)(p := ?t), rtSources := gm_set (rtSources r) k p\<rparr>"
    using a by (simp add: adoptPath_def Let_def)
  have own: "gm_get (gm_set (rtSources r) k p) j = Some p \<longleftrightarrow>
      gm_get (rtSessions r) (rsId ?s) = Some p \<and> gm_has (rsPaths ?t) j" for j
    using D(5) [of j p] p a by (auto simp: gm_get_set)
  have other: "q \<noteq> p \<Longrightarrow> gm_get (gm_set (rtSources r) k p) j = Some q \<longleftrightarrow> gm_get (rtSources r) j = Some q" for j q
    using o by (auto simp: gm_get_set ownedByOther_def split: option.splits)
  show ?thesis unfolding e
    by (rule router_inv_object [OF inv adopt_object [OF t k l c a refl]]) (use own other D(2) in auto)
qed

lemma commit_inv:
  assumes inv: "router_inv r" and k: "newSourceAddrKey from = Some k"
  shows "router_inv (commitPathResponse now from k msg p r)"
proof (cases "gm_get (rtSessions r) (pcSession msg) = Some p \<and> \<not> ownedByOther r k p")
  case False
  then show ?thesis using inv by (auto simp: commitPathResponse_def)
next
  case True
  then have p: "p < rtNext r" and i: "rsId (rtHeap r p) = pcSession msg"
    using router_invD(4) [OF inv] by blast+
  define r1 where "r1 = rtUpd r p (purgeUsedPathCookies now (rtHeap r p))"
  define r2 where "r2 = purgeExpiredPaths now p r1"
  have inv1: "router_inv r1" unfolding r1_def
    using purgeCookies_inv [OF router_invD(6) [OF inv p]]
    by (intro router_inv_upd inv) (simp_all add: purgeUsedPathCookies_def)
  have n1: "rtNext r1 = rtNext r" "rtSessions r1 = rtSessions r" "rtSources r1 = rtSources r"
      "rsId (rtHeap r1 p) = pcSession msg"
    by (simp_all add: r1_def purgeUsedPathCookies_def i)
  have inv2: "router_inv r2" unfolding r2_def using p n1 by (intro purgePaths_inv inv1) simp
  have n2: "rtNext r2 = rtNext r" "rtSessions r2 = rtSessions r" "rsId (rtHeap r2 p) = pcSession msg"
    "rsUsedCookies (rtHeap r2 p) = rsUsedCookies (rtHeap r1 p)"
    by (simp_all add: r2_def purgePaths_frame n1)
  have o2: "\<not> ownedByOther r2 k p"
    using True gm_get_keep_SomeD [OF router_invD(2) [OF inv1]] n1
    by (auto simp: r2_def purgeExpiredPaths_def Let_def ownedByOther_def split: option.splits)
  have adopt: "router_inv (adoptPath now from k (pcServerNonce msg) p r')"
    if "router_inv r'" "rtSessions r' = rtSessions r" "rsId (rtHeap r' p) = pcSession msg"
      "\<not> ownedByOther r' k p" "length (rsUsedCookies (rtHeap r' p)) < defaultRelayUsedPathCookies"
      "gm_has (rsPaths (rtHeap r' p)) k \<or> length (rsPaths (rtHeap r' p)) < defaultRelayMaxPathsPerSession"
    for r' using that True k by (intro adoptPath_inv) auto
  have evict: "router_inv r'" "rtSessions r' = rtSessions r" "rsId (rtHeap r' p) = pcSession msg"
      "\<not> ownedByOther r' k p" "rsUsedCookies (rtHeap r' p) = rsUsedCookies (rtHeap r1 p)"
    if "evictOldestInactivePath p r2 = (b, r')" for b r'
    using evict_inv [OF inv2 _ that] evict_frame [OF that] p n2 o2
    by (auto simp: ownedByOther_def split: option.splits)
  have e: "commitPathResponse now from k msg p r =
      (if gm_has (rsUsedCookies (rtHeap r1 p)) (pcServerNonce msg) \<or>
          length (rsUsedCookies (rtHeap r1 p)) \<ge> defaultRelayUsedPathCookies then dropPath r1
       else if \<not> gm_has (rsPaths (rtHeap r2 p)) k \<and> length (rsPaths (rtHeap r2 p)) \<ge> defaultRelayMaxPathsPerSession
       then (case evictOldestInactivePath p r2 of
               (False, r) \<Rightarrow> dropPath r | (True, r) \<Rightarrow> adoptPath now from k (pcServerNonce msg) p r)
       else adoptPath now from k (pcServerNonce msg) p r2)"
    using True by (simp add: commitPathResponse_def r1_def r2_def Let_def)
  show ?thesis
  proof (cases "evictOldestInactivePath p r2")
    case (Pair b r')
    then show ?thesis unfolding e
      using inv1 adopt [of r2] adopt [of r'] evict [OF Pair] inv2 n2 o2 evict_shrinks [OF inv2 _, of p r'] p
      by (cases b) (simp_all add: not_le)
  qed
qed

lemma request_inv:
  assumes "router_inv (between r)" "router_inv r"
  shows "router_inv (handlePathRequest C now writeOk between from k msg r)"
proof (cases "gm_get (rtSessions r) (pcSession msg)")
  case None
  then show ?thesis using assms(2) by (simp add: handlePathRequest_def)
next
  case (Some p)
  define b where "b = (between r)\<lparr>rtPathRequestAuthChecks := rtPathRequestAuthChecks (between r) + 1\<rparr>"
  have inv: "router_inv b" using assms(1) by (simp add: b_def)
  have upd: "router_inv (rtUpd b p s)"
    if "gm_get (rtSessions b) (pcSession msg) = Some p" "consumePathRequestToken now (rtHeap b p) = (c, s)" for c s
  proof -
    have "transport_inv (rtHeap b p)" using that(1) router_invD(4,6) [OF inv] by blast
    from consume_inv [OF this that(2)] show ?thesis
      by (intro router_inv_upd inv) (simp_all add: consume_frame [OF that(2)])
  qed
  show ?thesis unfolding handlePathRequest_def Some Let_def option.case b_def [symmetric]
    using assms(1) inv upd by (auto split: prod.splits bool.splits sum.splits)
qed

lemma response_inv:
  assumes "router_inv (between r)" "router_inv r" "newSourceAddrKey from = Some k"
  shows "router_inv (handlePathResponse C now between from k msg r)"
  using assms commit_inv [OF assms(1,3)]
  by (auto simp: handlePathResponse_def Let_def split: option.splits)

lemma routerRead_inv:
  assumes "router_inv (between r)" "router_inv r"
  shows "router_inv (snd (routerRead C now writeOk seeDone between env r))"
proof -
  have c: "router_inv (handlePathControl C now writeOk between env msg r)" for msg
    using request_inv [of between r] response_inv [of between r] assms
    by (auto simp: handlePathControl_def split: option.splits)
  have h: "router_inv r'" if "routerReplayAck now writeOk i env r = (b, r')" for i b r'
    using that assms(2)
    by (auto simp: routerReplayAck_def Let_def split: option.splits if_splits)
  have q: "router_inv (r'\<lparr>rtHandshakes := rtHandshakes r' @ [env]\<rparr>)"
    if "router_inv r'" "length (rtHandshakes r') < rtHandshakeCap r'" for r'
    using that by (simp add: router_inv_def)
  show ?thesis
    using c h q routeData_inv [OF assms(2)]
    by (auto simp: routerRead_def split: sum.splits prod.splits bool.splits)
qed

lemma routerOp_inv:
  assumes "router_inv r"
  shows "router_inv (routerOpStep r op)"
proof (cases op)
  case (OpRead p)
  then show ?thesis
    using assms router_invD(6) [OF assms, of p]
    by (auto simp: transportRead_def transport_inv_def intro!: router_inv_upd split: list.splits)
next
  case (OpObserve now p a)
  have "router_inv (rtUpd r p ((rtHeap r p)\<lparr>rsPaths := gm_set (rsPaths (rtHeap r p)) k (path\<lparr>lastSeen := now\<rparr>)\<rparr>))"
    if "p < rtNext r" "gm_get (rsPaths (rtHeap r p)) k = Some path" for k path
    using that assms router_invD(6) [OF assms that(1)]
    by (intro router_inv_upd) (auto simp: transport_inv_def gm_len_set gm_get_set)
  then show ?thesis using OpObserve assms by (auto simp: transportObserve_def split: option.splits)
next
  case OpNextHandshake
  then show ?thesis using assms by (auto simp: router_inv_def)
qed (use assms in \<open>auto simp: registerHandshakeReplay_def handshakeTombstoned_def transportWrite_def
      transportAuthorized_def Let_def register_inv prune_inv transportClose_inv routerClose_inv
      purgePaths_inv split: option.splits\<close>)

interpretation router_ops: invariant_machine routerOpStep router_inv
  by unfold_locales (rule routerOp_inv)

interpretation router: invariant_machine "routerStep C" router_inv for C
proof unfold_locales
  fix r e assume "router_inv r"
  then show "router_inv (routerStep C r e)"
    by (cases e) (auto simp: routerOp_inv intro!: routerRead_inv router_ops.invar_run)
qed

lemma new_router_inv: "router_inv (newRelayTransportRouter q h)"
  by (simp add: router_inv_def newRelayTransportRouter_def)

section \<open>A router with one session\<close>

text \<open>For closed examples: one registered session, and a response from another address.\<close>

definition demo_home :: NetAddr where "demo_home = \<lparr>addrNetwork = ''udp'', addrString = ''10.0.0.1:1''\<rparr>"
definition demo_away :: NetAddr where "demo_away = \<lparr>addrNetwork = ''udp'', addrString = ''10.0.0.2:2''\<rparr>"

definition demo_response :: bytes where
  "demo_response = (case marshalPathControl demo_crypto pathControlResponse (zeros 16) (zeros 16)
     (newPathCookie demo_crypto (zeros 32) (zeros 16) \<lparr>srcNetwork = ''udp'', srcAddress = ''10.0.0.2:2''\<rparr>
       (zeros 16) (7 * time_Second)) (zeros 32) of Inr w \<Rightarrow> w | Inl _ \<Rightarrow> [])"

definition demo_key :: sourceAddrKey where
  "demo_key = \<lparr>srcNetwork = ''udp'', srcAddress = ''10.0.0.2:2''\<rparr>"

definition demo_event :: routerEvent where
  "demo_event = Datagram (8 * time_Second) True False [] \<lparr>envPacket = demo_response, envFrom = Some demo_away\<rparr>"

definition demo_register :: routerEvent where
  "demo_register = Other (OpRegister 0 (zeros 16) (Some demo_home) (zeros 32) True)"

definition demo_router :: relayTransportRouter where
  "demo_router = run (routerStep demo_crypto) (newRelayTransportRouter 0 0) [demo_register]"

section \<open>Properties of the router\<close>

text \<open>A registered session has at most eight source addresses.\<close>

lemma router_sources_bound:
  assumes inv: "router_inv r"
  shows "length (rtSources r) \<le> defaultRelayMaxPathsPerSession * length (rtSessions r)"
proof -
  note D = router_invD [OF inv]
  let ?paths = "\<lambda>p. dom (gm_get (rsPaths (rtHeap r p)))" and ?ps = "ran (gm_get (rtSessions r))"
  have paths: "card (?paths p) \<le> defaultRelayMaxPathsPerSession" if "p \<in> ?ps" for p
  proof -
    obtain i where "gm_get (rtSessions r) i = Some p" using \<open>p \<in> ?ps\<close> by (auto simp: ran_def)
    then have "transport_inv (rtHeap r p)" using D(4) D(6) by blast
    then show ?thesis using gm_card [of "rsPaths (rtHeap r p)"] by (simp add: transport_inv_def)
  qed
  have image: "?ps = (\<lambda>i. the (gm_get (rtSessions r) i)) ` dom (gm_get (rtSessions r))"
    by (force simp: ran_def image_iff)
  have "dom (gm_get (rtSources r)) \<subseteq> (\<Union>p \<in> ?ps. ?paths p)"
  proof
    fix k assume "k \<in> dom (gm_get (rtSources r))"
    then obtain p where "gm_get (rtSources r) k = Some p" by blast
    then have "gm_get (rtSessions r) (rsId (rtHeap r p)) = Some p" "gm_has (rsPaths (rtHeap r p)) k"
      using D(5) by blast+
    then show "k \<in> (\<Union>p \<in> ?ps. ?paths p)" by (blast intro: ranI)
  qed
  then have "card (dom (gm_get (rtSources r))) \<le> card (\<Union>p \<in> ?ps. ?paths p)"
    by (intro card_mono) (simp_all add: image)
  also have "\<dots> \<le> (\<Sum>p \<in> ?ps. card (?paths p))" by (intro card_UN_le) (simp add: image)
  also have "\<dots> \<le> card ?ps * defaultRelayMaxPathsPerSession" using sum_bounded_above [OF paths] by simp
  also have "\<dots> \<le> length (rtSessions r) * defaultRelayMaxPathsPerSession"
    using gm_card [OF D(1)] by (simp add: image card_image_le)
  finally show ?thesis using gm_card [OF D(2)] by (simp add: mult.commute)
qed

text \<open>
  C5. The router's tables agree. Whatever datagrams arrive and however the other goroutines
  interleave: a source address is routed to a session object exactly if that object is the registered
  one for its id and holds the address as a path (so no two sessions share a source); a registered
  session has its active path, and writing through it never fails for want of an address; it holds at
  most 8 paths and 64 spent cookies and no more packets than its queue. There are at most 8 source
  addresses per registered session, 4096 tombstones, and as many waiting handshakes as their queue
  holds. How many sessions are registered, and so how many handshake replays are kept, is not limited
  by the router but by its caller's admission.
\<close>

theorem router_tables_consistent:
  assumes "r = run (routerStep C) (newRelayTransportRouter q h) es"
  shows "(gm_get (rtSources r) k = Some p \<longleftrightarrow>
      gm_get (rtSessions r) (rsId (rtHeap r p)) = Some p \<and> gm_has (rsPaths (rtHeap r p)) k) \<and>
    (gm_get (rtSessions r) i = Some p \<longrightarrow>
      rsId (rtHeap r p) = i \<and> gm_get (rtSources r) (rsActive (rtHeap r p)) = Some p \<and>
      (\<exists>a. newSourceAddrKey (Some a) = Some (rsActive (rtHeap r p)) \<and>
        transportWrite p pkt True r = (None, r\<lparr>rtWrites := rtWrites r @ [(pkt, Some a)]\<rparr>)) \<and>
      length (rsPaths (rtHeap r p)) \<le> defaultRelayMaxPathsPerSession \<and>
      length (rsUsedCookies (rtHeap r p)) \<le> defaultRelayUsedPathCookies \<and>
      length (rsPackets (rtHeap r p)) \<le> rsCap (rtHeap r p)) \<and>
    length (rtSources r) \<le> defaultRelayMaxPathsPerSession * length (rtSessions r) \<and>
    length (rtTombstones r) \<le> maxHandshakeTombstones \<and> length (rtHandshakes r) \<le> rtHandshakeCap r"
proof -
  have inv: "router_inv r" unfolding assms by (rule router.invar_run) (rule new_router_inv)
  note D = router_invD [OF inv]
  have act: "gm_get (rtSources r) (rsActive (rtHeap r p)) = Some p \<and>
      (\<exists>a. newSourceAddrKey (Some a) = Some (rsActive (rtHeap r p)) \<and>
        transportWrite p pkt True r = (None, r\<lparr>rtWrites := rtWrites r @ [(pkt, Some a)]\<rparr>))"
    if g: "gm_get (rtSessions r) i = Some p"
  proof -
    have t: "transport_inv (rtHeap r p)" using D(4) [OF g] D(6) by blast
    then obtain path where path: "gm_get (rsPaths (rtHeap r p)) (rsActive (rtHeap r p)) = Some path"
      and k: "newSourceAddrKey (pathAddr path) = Some (rsActive (rtHeap r p))"
      by (auto simp: transport_inv_def)
    then obtain a where "pathAddr path = Some a" by (cases "pathAddr path") (auto simp: newSourceAddrKey_def)
    then show ?thesis using path k D(4) [OF g] D(5) [of "rsActive (rtHeap r p)" p] g
      by (auto simp: transportWrite_def Let_def)
  qed
  show ?thesis
    using act D(4) [of i p] D(5) [of k p] D(6) [of p] D(7,8) router_sources_bound [OF inv]
    unfolding transport_inv_def by blast
qed

lemma purgePaths_sources:
  "gm_ok (rtSources r) \<Longrightarrow> gm_get (rtSources (purgeExpiredPaths now p r)) k = Some q \<Longrightarrow>
   gm_get (rtSources r) k = Some q"
  by (auto simp: purgeExpiredPaths_def Let_def dest: gm_get_keep_SomeD)

lemma commit_sources:
  assumes "gm_ok (rtSources r)" "gm_get (rtSources (commitPathResponse now from k msg p r)) j = Some q"
  shows "gm_get (rtSources r) j = Some q \<or>
    j = k \<and> q = p \<and> gm_get (rtSessions r) (pcSession msg) = Some p \<and> \<not> ownedByOther r k p"
proof -
  have adopt: "gm_get (rtSources (adoptPath now from k c p r')) j =
      (if j = k then Some p else gm_get (rtSources r') j)" for c r'
    by (simp add: adoptPath_def Let_def gm_get_set)
  show ?thesis using assms(2) evict_frame(5) purgePaths_sources [of "rtUpd r p s" for s] assms(1)
    by (auto simp: commitPathResponse_def Let_def adopt split: if_splits prod.splits bool.splits
        dest!: evict_frame(5) purgePaths_sources)
qed

lemma request_sources [simp]:
  "rtSources (handlePathRequest C now writeOk between from k msg r) =
   (if gm_has (rtSessions r) (pcSession msg) then rtSources (between r) else rtSources r)"
  by (auto simp: handlePathRequest_def Let_def split: option.splits prod.splits bool.splits sum.splits)

lemma read_sources:
  assumes "routerRead C now writeOk seeDone between env r = (b, r')" "gm_ok (rtSources (between r))"
    and "gm_get (rtSources r') k = Some p" "gm_get (rtSources r) k \<noteq> Some p"
    and "gm_get (rtSources (between r)) k \<noteq> Some p"
  obtains msg where "parsePathControl (envPacket env) = Inr msg" "pcType msg = pathControlResponse"
    "newSourceAddrKey (envFrom env) = Some k" "gm_get (rtSessions r) (pcSession msg) = Some p"
    "verifyPathControl C msg (rsPathKey (rtHeap r p))"
    "verifyPathCookie C (pcServerNonce msg) (rsPathKey (rtHeap r p)) (pcSession msg) k
       (pcClientNonce msg) now pathChallengeLifetime"
    "rsAllow (rtHeap r p)"
proof -
  have f: "rtSources (routeData env r) = rtSources r"
    "routerReplayAck now writeOk i env r = (b, r2) \<Longrightarrow> rtSources r2 = rtSources r" for i b r2
    by (auto simp: routeData_def routerReplayAck_def Let_def split: option.splits if_splits)
  obtain msg where m: "parsePathControl (envPacket env) = Inr msg"
    and r': "r' = handlePathControl C now writeOk between env msg r"
    using assms(1,3,4) f
    by (auto simp: routerRead_def split: sum.splits if_splits prod.splits bool.splits)
  obtain k' where k': "newSourceAddrKey (envFrom env) = Some k'" and ty: "pcType msg = pathControlResponse"
    and h: "r' = handlePathResponse C now between (envFrom env) k' msg r"
    using assms(3-5) r' by (auto simp: handlePathControl_def split: option.splits if_splits)
  obtain q where q: "gm_get (rtSessions r) (pcSession msg) = Some q" "rsAllow (rtHeap r q)"
    "verifyPathControl C msg (rsPathKey (rtHeap r q))"
    "verifyPathCookie C (pcServerNonce msg) (rsPathKey (rtHeap r q)) (pcSession msg) k'
       (pcClientNonce msg) now pathChallengeLifetime"
    and e: "r' = commitPathResponse now (envFrom env) k' msg q (between r)"
    using assms(3-5) h by (auto simp: handlePathResponse_def Let_def split: option.splits if_splits)
  have "k = k' \<and> p = q" using commit_sources [OF assms(2)] assms(3,5) e by blast
  then show ?thesis using that m ty k' q by blast
qed

theorem router_tables_consistent_witness:
  "\<exists>r. r = run (routerStep demo_crypto) (newRelayTransportRouter 0 0) [demo_register, demo_event] \<and>
    gm_get (rtSessions r) (zeros 16) = Some 0 \<and> rsActive (rtHeap r 0) = demo_key \<and>
    gm_get (rtSources r) demo_key = Some 0 \<and> length (rsPaths (rtHeap r 0)) \<le> 8"
proof -
  let ?r = "run (routerStep demo_crypto) (newRelayTransportRouter 0 0) [demo_register, demo_event]"
  have s: "gm_get (rtSessions ?r) (zeros 16) = Some 0" and a: "rsActive (rtHeap ?r 0) = demo_key"
    by code_simp+
  from router_tables_consistent [where r = ?r, OF refl, of demo_key 0 "zeros 16"] s a show ?thesis
    by (auto simp: relay_consts)
qed

text \<open>
  C6. A path needs a proof. When the read loop starts routing a source address to a session that it
  was not routed to before, the datagram came from that address and is a path response of the
  session, with a tag made under the session's path key and a cookie of this source that is at most
  five seconds old; and the session allows additional paths.
\<close>

theorem path_needs_proof:
  assumes "r = run (routerStep C) (newRelayTransportRouter q h) es"
    and "r' = routerStep C r (Datagram now writeOk seeDone ops env)"
    and "gm_get (rtSources r') k = Some p" and "gm_get (rtSources r) k \<noteq> Some p"
    and "gm_get (rtSources (run routerOpStep r ops)) k \<noteq> Some p"
  shows "\<exists>msg. parsePathControl (envPacket env) = Inr msg \<and> pcType msg = pathControlResponse \<and>
    newSourceAddrKey (envFrom env) = Some k \<and> gm_get (rtSessions r) (pcSession msg) = Some p \<and>
    verifyPathControl C msg (rsPathKey (rtHeap r p)) \<and>
    verifyPathCookie C (pcServerNonce msg) (rsPathKey (rtHeap r p)) (pcSession msg) k
      (pcClientNonce msg) now (5 * time_Second) \<and> rsAllow (rtHeap r p)"
proof -
  have "router_inv r" unfolding assms(1) by (rule router.invar_run) (rule new_router_inv)
  then have ok: "gm_ok (rtSources (run routerOpStep r ops))"
    by (intro router_invD(2) router_ops.invar_run)
  obtain b where "routerRead C now writeOk seeDone (\<lambda>r. run routerOpStep r ops) env r = (b, r')"
    using assms(2) by (cases "routerRead C now writeOk seeDone (\<lambda>r. run routerOpStep r ops) env r") auto
  from read_sources [where between = "\<lambda>r. run routerOpStep r ops", OF this ok assms(3-5)] show ?thesis
    unfolding pathChallengeLifetime_def by metis
qed

theorem path_needs_proof_witness:
  "\<exists>msg. parsePathControl demo_response = Inr msg \<and> pcType msg = pathControlResponse \<and>
    newSourceAddrKey (Some demo_away) = Some demo_key \<and> gm_get (rtSessions demo_router) (pcSession msg) = Some 0 \<and>
    verifyPathControl demo_crypto msg (rsPathKey (rtHeap demo_router 0)) \<and>
    verifyPathCookie demo_crypto (pcServerNonce msg) (rsPathKey (rtHeap demo_router 0)) (pcSession msg) demo_key
      (pcClientNonce msg) (8 * time_Second) (5 * time_Second) \<and> rsAllow (rtHeap demo_router 0)"
proof -
  have new: "gm_get (rtSources (routerStep demo_crypto demo_router demo_event)) demo_key = Some 0" by code_simp
  have old: "gm_get (rtSources demo_router) demo_key \<noteq> Some 0"
      "gm_get (rtSources (run routerOpStep demo_router [])) demo_key \<noteq> Some 0" by code_simp+
  from path_needs_proof [OF demo_router_def refl new [unfolded demo_event_def] old] show ?thesis by simp
qed

end
