(* ===== verification/Session_Frame.thy ===== *)
theory Session_Frame
  imports Session
begin

text \<open>
  What the operations of a session leave alone, and how a property of the session is carried
  through them: one preservation rule per composite operation (\<open>SendPacket_keeps\<close>,
  \<open>fecFlushTick_keeps\<close>, \<open>readPacket_keeps\<close>), whose premises are the elementary updates.
\<close>

section \<open>What each operation leaves alone\<close>

text \<open>The configuration of a session, and the fields only senders and only receivers write.\<close>

definition configView where
  "configView s = (sId s, sSendCodec s, sRecvCodec s, sDisableMigration s, sValidateRemote s)"

definition txView where
  "txView s = (sPacketNo s, sSent s, sFecTx s, sFecGroup s)"

definition rxView where
  "rxView s = (sState s, sRemote s, sStreams s, sDedup s, sFecRx s, sFec s, sFecAdapt s,
     sHandshakeReplay s, sCloseErr s, sCtxDone s, sDone s, sAcks s, sObserved s)"

lemmas views = configView_def txView_def rxView_def

lemma sendWirePayload_frame [simp]:
  "configView (snd (sendWirePayload A out s i p cf n)) = configView s"
  "rxView (snd (sendWirePayload A out s i p cf n)) = rxView s"
  "sFecTx (snd (sendWirePayload A out s i p cf n)) = sFecTx s"
  by (auto simp: sendWirePayload_def views Let_def split: sum.splits)

text \<open>What every single send keeps, the sending loops keep.\<close>

lemma sendRepairs_keeps:
  assumes step: "\<And>out s p cf n. P s \<Longrightarrow> P (snd (sendWirePayload A out s i p cf n))" and "P s"
  shows "P (snd (sendRepairs A io s i g t d shards))"
  using assms(2)
proof (induction shards arbitrary: io s)
  case Nil
  then show ?case by simp
next
  case (Cons sh shs)
  let ?r = "sendWirePayload A (io 0) s i (repairPayload sh) (configureParity g (repairIndex sh) t d) 0"
  have "P (snd ?r)" by (rule step) (rule Cons.prems)
  then show ?case using Cons.IH [of "snd ?r" "\<lambda>k. io (Suc k)"]
    by (cases ?r; cases "fst ?r") auto
qed

lemma sendBatches_keeps:
  assumes step: "\<And>out s i p cf n. P s \<Longrightarrow> P (snd (sendWirePayload A out s i p cf n))" and "P s"
  shows "P (sendBatches A io s batches)"
  using assms(2)
proof (induction batches arbitrary: io s)
  case Nil
  then show ?case by simp
next
  case (Cons b bs)
  have "P (snd (sendFECRepairBatch A (io 0) s b))"
    unfolding sendFECRepairBatch_def using step Cons.prems by (rule sendRepairs_keeps)
  then show ?case by (simp add: Cons.IH)
qed

lemma nextFECShards_frame [simp]:
  "configView (snd (nextFECShards R now s i p)) = configView s"
  "rxView (snd (nextFECShards R now s i p)) = rxView s"
  "sPacketNo (snd (nextFECShards R now s i p)) = sPacketNo s"
  "sSent (snd (nextFECShards R now s i p)) = sSent s"
  by (auto simp: nextFECShards_def openSendGroup_def views Let_def
      split: option.splits sum.splits if_splits)

lemma expiredFECRepairBatches_frame [simp]:
  "configView (snd (expiredFECRepairBatches R now s)) = configView s"
  "rxView (snd (expiredFECRepairBatches R now s)) = rxView s"
  "sPacketNo (snd (expiredFECRepairBatches R now s)) = sPacketNo s"
  "sSent (snd (expiredFECRepairBatches R now s)) = sSent s"
  by (auto simp: expiredFECRepairBatches_def views split: prod.splits)

text \<open>A property that survives opening a group and single sends survives the sending operations.\<close>

lemma SendPacket_keeps:
  assumes step: "\<And>out s p cf n. P s \<Longrightarrow> P (snd (sendWirePayload A out s i p cf n))"
    and grp: "\<And>s p. P s \<Longrightarrow> P (snd (nextFECShards R now s i p))" and "P s"
  shows "P (snd (SendPacket A R io now s i p))"
proof -
  have "P (snd (sendPacketWithFEC A R io now s i p))"
  proof (cases "nextFECShards R now s i p")
    case (Pair r s')
    then have s': "P s'" using grp [OF assms(3), of p] by simp
    show ?thesis
    proof (cases r)
      case (Inr n)
      let ?d = "sendWirePayload A (io 0) s' i (nsData n)
        (configureData (nsGroup n) (nsIndex n) (nsTotal n) (nsDataShards n)) (of_nat (length p))"
      have "P (snd ?d)" by (rule step) (rule s')
      then have "P (snd (sendRepairs A io' (snd ?d) i g t d sh))" for io' g t d sh
        using step by (rule sendRepairs_keeps [rotated])
      then show ?thesis using \<open>P (snd ?d)\<close> Pair Inr
        by (cases ?d; cases "fst ?d") (auto simp: sendPacketWithFEC_def)
    qed (use Pair s' in \<open>simp add: sendPacketWithFEC_def\<close>)
  qed
  then show ?thesis using assms by (simp add: SendPacket_def)
qed

lemma fecFlushTick_keeps:
  assumes step: "\<And>out s i p cf n. P s \<Longrightarrow> P (snd (sendWirePayload A out s i p cf n))"
    and grp: "\<And>s. P s \<Longrightarrow> P (snd (expiredFECRepairBatches R now s))" and "P s"
  shows "P (fecFlushTick A R io now s)"
proof (cases "expiredFECRepairBatches R now s")
  case (Pair batches s')
  then have "P (sendBatches A io s' batches)"
    using grp [OF assms(3)] by (intro sendBatches_keeps [of P] step) auto
  then show ?thesis using assms(3) Pair by (simp add: fecFlushTick_def)
qed

lemma SendPacket_frame [simp]:
  "configView (snd (SendPacket A R io now s i p)) = configView s"
  "rxView (snd (SendPacket A R io now s i p)) = rxView s"
  by (rule SendPacket_keeps; simp)+

lemma fecFlushTick_frame [simp]:
  "configView (fecFlushTick A R io now s) = configView s"
  "rxView (fecFlushTick A R io now s) = rxView s"
  by (rule fecFlushTick_keeps; simp)+

text \<open>The receiving side.\<close>

lemma streamWithSize_frame [simp]:
  "configView (snd (streamWithSize i q s)) = configView s"
  "txView (snd (streamWithSize i q s)) = txView s"
  by (auto simp: streamWithSize_def views Let_def split: option.splits)

lemma RecvPacket_frame [simp]:
  "configView (snd (RecvPacket c s i)) = configView s"
  "txView (snd (RecvPacket c s i)) = txView s"
  by (auto simp: RecvPacket_def streamWithSize_def views Let_def
      split: option.splits recvCase.splits list.splits)

lemma Migrate_frame [simp]:
  "configView (snd (Migrate e s a)) = configView s"
  "txView (snd (Migrate e s a)) = txView s"
  by (auto simp: Migrate_def views split: option.splits)

lemma terminate_frame [simp]:
  "configView (terminate e s) = configView s"
  "txView (terminate e s) = txView s"
  by (auto simp: terminate_def views)

lemma acceptSource_frame [simp]:
  "configView (snd (acceptSource T s f)) = configView s"
  "txView (snd (acceptSource T s f)) = txView s"
  using Migrate_frame [of "sCtxDone s" s f]
  by (auto simp: acceptSource_def split: prod.splits simp del: Migrate_frame)

lemma observeFECDelivery_frame [simp]:
  "configView (observeFECDelivery d r s) = configView s"
  "txView (observeFECDelivery d r s) = txView s"
  by (auto simp: observeFECDelivery_def views Let_def split: option.splits prod.splits)

lemma deliverPayload_frame [simp]:
  "configView (deliverPayload i q s p) = configView s"
  "txView (deliverPayload i q s p) = txView s"
  by (auto simp: deliverPayload_def streamWithSize_def views Let_def split: option.splits)

lemma foldl_keeps: "(\<And>s p. f (g s p) = f s) \<Longrightarrow> f (foldl g s ps) = f s"
  by (induction ps arbitrary: s) auto

lemma replayHandshakeAck_frame [simp]:
  "configView (snd (replayHandshakeAck now ok s w f)) = configView s"
  "txView (snd (replayHandshakeAck now ok s w f)) = txView s"
  by (auto simp: replayHandshakeAck_def views split: option.splits)

text \<open>What the parts of the loop body keep, the body keeps.\<close>

lemma readPacket_keeps:
  assumes "P s"
    and dedup: "\<And>s. P s \<Longrightarrow> P (s\<lparr>sDedup := snd (SeenFirst (sDedup s) (PacketNumber (Inner p)))\<rparr>)"
    and accept: "\<And>s. P s \<Longrightarrow> P (snd (acceptSource T s f))"
    and fec: "\<And>s p. P s \<Longrightarrow> P (s\<lparr>sFecRx := snd (AddPacket R now (sFecRx s) p)\<rparr>)"
    and obs: "\<And>s l. P s \<Longrightarrow> P (s\<lparr>sObserved := l\<rparr>)"
    and stats: "\<And>s st. P s \<Longrightarrow> P (s\<lparr>sStats := st\<rparr>)"
    and adapt: "\<And>s d r. P s \<Longrightarrow> P (observeFECDelivery d r s)"
    and deliver: "\<And>s pl. P s \<Longrightarrow> P (deliverPayload (StreamID (Inner p)) q s pl)"
  shows "P (readPacket R T now q s p f)"
proof -
  let ?s1 = "s\<lparr>sDedup := snd (SeenFirst (sDedup s) (PacketNumber (Inner p)))\<rparr>"
  let ?s2 = "snd (acceptSource T ?s1 f)"
  let ?s3 = "?s2\<lparr>sFecRx := snd (AddPacket R now (sFecRx ?s2) (p\<lparr>SourceAddr := f\<rparr>))\<rparr>"
  have p: "P ?s1" "P ?s2" "P ?s3" using assms(1) dedup accept fec by simp_all
  have o: "P (?s3\<lparr>sObserved := l\<rparr>)" "P (?s3\<lparr>sObserved := l, sStats := st\<rparr>)" "P (?s3\<lparr>sStats := st\<rparr>)"
    for l st using p obs stats by simp_all
  have d: "P s' \<Longrightarrow> P (foldl (deliverPayload (StreamID (Inner p)) q) s' ps)" for s' ps
    by (induction ps arbitrary: s') (auto intro: deliver)
  show ?thesis
    unfolding readPacket_def using assms(1) p o
    by (auto simp: Let_def split: prod.splits sum.splits intro!: d adapt)
qed

lemma view_updates [simp]:
  "configView (s\<lparr>sDedup := w\<rparr>) = configView s" "txView (s\<lparr>sDedup := w\<rparr>) = txView s"
  "configView (s\<lparr>sFecRx := b\<rparr>) = configView s" "txView (s\<lparr>sFecRx := b\<rparr>) = txView s"
  "configView (s\<lparr>sObserved := l\<rparr>) = configView s" "txView (s\<lparr>sObserved := l\<rparr>) = txView s"
  "configView (s\<lparr>sStats := st\<rparr>) = configView s" "txView (s\<lparr>sStats := st\<rparr>) = txView s"
  by (simp_all add: views)

lemma readPacket_config [simp]: "configView (readPacket R T now q s p f) = configView s"
  by (rule readPacket_keeps [where P = "\<lambda>s'. configView s' = configView s"]) simp_all

lemma readPacket_tx [simp]: "txView (readPacket R T now q s p f) = txView s"
  by (rule readPacket_keeps [where P = "\<lambda>s'. txView s' = txView s"]) simp_all

lemma readStep_frame [simp]:
  "configView (snd (readStep A R T now ok q s w f)) = configView s"
  "txView (snd (readStep A R T now ok q s w f)) = txView s"
  using replayHandshakeAck_frame [of now ok s w f]
  by (auto simp: readStep_def simp del: replayHandshakeAck_frame
      split: prod.splits option.splits sum.splits)

lemma sessionStep_config [simp]: "configView (sessionStep A R q s ev) = configView s"
proof (cases ev)
  case (EvDatagram T now ok w f err)
  then show ?thesis using readStep_frame(1) [of A R T now ok q s w f]
    by (auto split: prod.splits bool.splits simp del: readStep_frame)
qed simp_all

lemma run_config [simp]: "configView (run (sessionStep A R q) s es) = configView s"
  by (induction es arbitrary: s) simp_all

end
