(* ===== verification/Session_Nonce.thy ===== *)
theory Session_Nonce
  imports Session_Frame
begin

text \<open>
  Nonces: a session never seals two datagrams under the same nonce, whatever the interleaving of
  sends, flushes and receives and whatever the pacer and the transport answer.
\<close>

section \<open>Nonces\<close>

text \<open>The nonce a datagram was sealed under, read from its outer header.\<close>

definition wireNonce :: "bytes \<Rightarrow> bytes" where
  "wireNonce wire = (case parseOuterHeader wire of Inl _ \<Rightarrow> [] | Inr h \<Rightarrow> nonceFromOuter h)"

lemma wireNonce_sealed:
  assumes "NewOuterHeader no n = Inr outer"
  shows "wireNonce (marshalOuterHeader outer @ rest) = nonceFromOuter outer"
proof -
  have w: "wf_outer outer" using NewOuterHeader_seq [OF assms] by blast
  have "length (SequenceNum outer) = 6" using w by (simp add: wf_outer_def)
  then have "parseOuterHeader (marshalOuterHeader outer @ rest) = Inr outer"
    by (simp add: parseOuterHeader_def marshalOuterHeader_def outerHeaderSize_def gslice_def nth_append)
  then show ?thesis by (simp add: wireNonce_def)
qed

text \<open>The nonce of packet number \<open>no\<close>: only the number enters it.\<close>

definition nonceOf :: "u64 \<Rightarrow> bytes" where
  "nonceOf no = put_u16 0 @ be_bytes 6 no @ [0x17, 0xfe, 0xff, 0]"

lemma nonceOf_outer: "NewOuterHeader no n = Inr outer \<Longrightarrow> nonceFromOuter outer = nonceOf no"
  using NewOuterHeader_seq [of no n outer]
  by (auto simp: nonceFromOuter_def nonceOf_def NewOuterHeader_def split: if_splits)

lemma nonceOf_inj:
  assumes "nonceOf a = nonceOf b" "a \<le> maxDTLSSequence" "b \<le> maxDTLSSequence"
  shows "a = b"
proof -
  have "be_bytes 6 a = be_bytes 6 b" using assms(1) by (simp add: nonceOf_def)
  then have "take_bit 48 a = take_bit 48 b"
    using be_word_be_bytes_take [of 6 a] be_word_be_bytes_take [of 6 b] by simp
  moreover have "take_bit 48 x = x" if "x \<le> maxDTLSSequence" for x :: u64
  proof -
    have "unat x < 2 ^ 48" using that by (simp add: maxDTLSSequence_eq word_le_nat_alt)
    then show ?thesis by (metis take_bit_nat_eq_self unsigned_take_bit_eq word_unat_eq_iff)
  qed
  ultimately show ?thesis using assms by simp
qed

text \<open>
  The datagrams sent so far carry the nonces of a strictly increasing sequence of packet numbers,
  none above the counter; the counter was incremented at most \<open>k\<close> times.
\<close>

definition nonce_inv :: "nat \<Rightarrow> DatagramSession \<Rightarrow> bool" where
  "nonce_inv k s \<longleftrightarrow> unat (sPacketNo s) \<le> k \<and> wf_codec (sSendCodec s) \<and> length (sId s) = 16 \<and>
     (\<exists>ns. map (\<lambda>(w, a). wireNonce w) (sSent s) = map nonceOf ns \<and> sorted_wrt (<) ns \<and>
        (\<forall>n\<in>set ns. n \<le> sPacketNo s \<and> n \<le> maxDTLSSequence))"

lemma nonce_inv_distinct:
  assumes "nonce_inv k s"
  shows "distinct (map (\<lambda>(w, a). wireNonce w) (sSent s))"
proof -
  obtain ns where ns: "map (\<lambda>(w, a). wireNonce w) (sSent s) = map nonceOf ns" "sorted_wrt (<) ns"
    "\<forall>n\<in>set ns. n \<le> maxDTLSSequence" using assms by (auto simp: nonce_inv_def)
  have "distinct ns" using ns(2) by (simp add: strict_sorted_iff)
  moreover have "inj_on nonceOf (set ns)" using ns(3) nonceOf_inj by (auto intro!: inj_onI)
  ultimately show ?thesis unfolding ns(1) by (simp add: distinct_map)
qed

lemma nonce_inv_send:
  assumes i: "nonce_inv k s" and k: "Suc k < 2 ^ 64" and cf: "\<And>h. wf_inner h \<Longrightarrow> wf_inner (cf h)"
  shows "nonce_inv (Suc k) (snd (sendWirePayload A out s i p cf n))"
proof -
  define no where "no = sPacketNo s + 1"
  have u: "unat no = Suc (unat (sPacketNo s))"
    using i k unfolding nonce_inv_def no_def by (auto simp: unat_word_ariths)
  then have lt: "sPacketNo s < no" by (simp add: word_less_nat_alt)
  obtain ns where ns: "map (\<lambda>(w, a). wireNonce w) (sSent s) = map nonceOf ns" "sorted_wrt (<) ns"
    "\<forall>n\<in>set ns. n \<le> sPacketNo s \<and> n \<le> maxDTLSSequence"
    using i by (auto simp: nonce_inv_def)
  have base: "nonce_inv (Suc k) s" "nonce_inv (Suc k) (s\<lparr>sPacketNo := no, sStats := st\<rparr>)" for st
    using i u ns lt unfolding nonce_inv_def by (auto intro!: exI [of _ ns])
  have more: "nonce_inv (Suc k) (s\<lparr>sPacketNo := no, sSent := sSent s @ [(w, a)], sStats := st\<rparr>)"
    if h: "NewDataHeader (sId s) i no (int (length p)) = Inr h"
      and w: "Seal A (Some (sSendCodec s)) no (cf h) p = Inr w" for h w a st
  proof -
    have wi: "wf_inner (cf h)" using h i by (intro cf) (auto simp: NewDataHeader_def wf_inner_def nonce_inv_def split: if_splits)
    have wc: "wf_codec (sSendCodec s)" using i by (simp add: nonce_inv_def)
    obtain outer where o: "NewOuterHeader no (int (length p + 59)) = Inr outer"
      and w': "\<exists>rest. w = marshalOuterHeader outer @ rest"
      using Seal_InrE [OF wc wi w] by metis
    have "no \<le> maxDTLSSequence" using NewOuterHeader_seq [OF o] by blast
    moreover have "wireNonce w = nonceOf no" using w' wireNonce_sealed [OF o] nonceOf_outer [OF o] by auto
    moreover have "\<forall>n\<in>set ns. n < no \<and> n \<le> no" using ns(3) lt by fastforce
    ultimately show ?thesis
      using i u ns lt unfolding nonce_inv_def
      by (auto intro!: exI [of _ "ns @ [no]"] simp: sorted_wrt_append)
  qed
  show ?thesis
    unfolding sendWirePayload_def Let_def no_def [symmetric]
    using base(1) base(2) [of "sStats s"] more [where st = "sStats s"] more
    by (auto split: sum.splits)
qed


lemma nonce_inv_mono: "nonce_inv k s \<Longrightarrow> k \<le> k' \<Longrightarrow> nonce_inv k' s"
  by (auto simp: nonce_inv_def)

lemma nonce_inv_views:
  assumes "configView s' = configView s" "sPacketNo s' = sPacketNo s" "sSent s' = sSent s"
  shows "nonce_inv k s' = nonce_inv k s"
  using assms by (simp add: nonce_inv_def configView_def)

lemma wf_configure: "wf_inner h \<Longrightarrow> wf_inner (configureData g i t d h)"
  "wf_inner h \<Longrightarrow> wf_inner (configureParity g i t d h)"
  by (simp_all add: wf_inner_def configureData_def configureParity_def)

lemma nonce_inv_repairs:
  assumes "nonce_inv k s" "k + length shards < 2 ^ 64"
  shows "nonce_inv (k + length shards) (snd (sendRepairs A io s i g t d shards))"
  using assms
proof (induction shards arbitrary: io s k)
  case Nil
  then show ?case by simp
next
  case (Cons sh shs)
  let ?r = "sendWirePayload A (io 0) s i (repairPayload sh) (configureParity g (repairIndex sh) t d) 0"
  have r: "nonce_inv (Suc k) (snd ?r)"
    using Cons.prems by (intro nonce_inv_send) (auto simp: wf_configure)
  then have "nonce_inv (Suc k + length shs)
      (snd (sendRepairs A (\<lambda>k. io (Suc k)) (snd ?r) i g t d shs))"
    using Cons.prems by (intro Cons.IH) auto
  then show ?case using nonce_inv_mono [OF r, of "k + length (sh # shs)"]
    by (cases ?r; cases "fst ?r") auto
qed

text \<open>The Reed-Solomon encoder writes into the shards it is given: it returns as many.\<close>

definition rs_sized :: "rs \<Rightarrow> bool" where
  "rs_sized R \<longleftrightarrow> (\<forall>d p shards full. rs_encode R d p shards = Some full \<longrightarrow> length full = length shards)"

lemma frameAll_length: "frameAll xs n = Inr fs \<Longrightarrow> length fs = length xs"
  by (induction xs n arbitrary: fs rule: frameAll.induct) (auto split: sum.splits)

lemma FEC_Encode_length:
  assumes "rs_sized R" "FEC_Encode R data d p = Inr shards"
  shows "length shards = nat d + nat p \<and> 1 \<le> d \<and> d \<le> 32 \<and> 1 \<le> p \<and> p \<le> 16"
  using assms
  by (auto simp: FEC_Encode_def rs_sized_def validateFECParams_def fec_limits
      dest!: frameAll_length split: option.splits if_splits sum.splits)

lemma nextFECShards_parity:
  assumes "rs_sized R" "nextFECShards R now s i p = (Inr n, s')"
  shows "length (nsParity n) \<le> 16"
  using assms(2)
  by (auto simp: nextFECShards_def Let_def split: option.splits if_splits prod.splits sum.splits
      dest!: FEC_Encode_length [OF assms(1)])

lemma nonce_inv_SendPacket:
  assumes R: "rs_sized R" and i: "nonce_inv k s" and k: "k + 17 < 2 ^ 64"
  shows "nonce_inv (k + 17) (snd (SendPacket A R io now s j p))"
proof -
  have plain: "nonce_inv (k + 17) (snd (sendWirePayload A (io 0) s j p (\<lambda>h. h) n))" for n
    by (rule nonce_inv_mono [OF nonce_inv_send [OF i]]) (use k in auto)
  have "nonce_inv (k + 17) (snd (sendPacketWithFEC A R io now s j p))"
  proof (cases "nextFECShards R now s j p")
    case (Pair r s')
    have s': "nonce_inv k s'"
      using nonce_inv_views [of s' s k] nextFECShards_frame [of R now s j p] i Pair by simp
    show ?thesis
    proof (cases r)
      case (Inl e)
      then show ?thesis using Pair s' nonce_inv_mono by (fastforce simp: sendPacketWithFEC_def)
    next
      case (Inr n)
      let ?d = "sendWirePayload A (io 0) s' j (nsData n)
        (configureData (nsGroup n) (nsIndex n) (nsTotal n) (nsDataShards n)) (of_nat (length p))"
      let ?sh = "numberedShards (nat (nsDataShards n)) (nsParity n)"
      have l: "length ?sh \<le> 16"
        using nextFECShards_parity [OF R] Pair Inr by (simp add: numberedShards_def)
      have d: "nonce_inv (Suc k) (snd ?d)" using k s' by (intro nonce_inv_send) (auto simp: wf_configure)
      then have "nonce_inv (Suc k + length ?sh) (snd (sendRepairs A io' (snd ?d) j g t dd ?sh))"
        for io' g t dd using k l by (intro nonce_inv_repairs) auto
      then have "nonce_inv (k + 17) (snd (sendRepairs A io' (snd ?d) j g t dd ?sh))" for io' g t dd
        by (rule nonce_inv_mono) (use l in simp)
      then show ?thesis using nonce_inv_mono [OF d, of "k + 17"] Pair Inr
        by (cases ?d; cases "fst ?d") (auto simp: sendPacketWithFEC_def)
    qed
  qed
  then show ?thesis using plain nonce_inv_mono [OF i, of "k + 17"] by (simp add: SendPacket_def)
qed

text \<open>The open groups: at most one per stream, so at most \<open>2^16\<close>.\<close>

lemma gm_len_u16: "gm_ok (m :: (16 word, 'v) gomap) \<Longrightarrow> length m \<le> 65536"
proof -
  assume "gm_ok m"
  then have "length m = card (dom (gm_get m))" by (rule gm_card)
  also have "\<dots> \<le> card (UNIV :: 16 word set)" by (intro card_mono) auto
  finally show ?thesis by (simp add: card_word)
qed

lemma collectBatches_kept:
  "collectBatches R now fec m = (batches, kept) \<Longrightarrow>
     set kept \<subseteq> set m \<and> (gm_ok m \<longrightarrow> gm_ok kept) \<and> length batches \<le> length m"
proof (induction R now fec m arbitrary: batches kept rule: collectBatches.induct)
  case (2 R now fec i g rest)
  obtain b k where bk: "collectBatches R now fec rest = (b, k)" by fastforce
  note IH = "2.IH" [OF refl refl bk]
  have "fst ` set k \<subseteq> fst ` set rest" using IH by blast
  then show ?case
    using "2.prems" IH bk by (auto simp: Let_def gm_ok_def split: if_splits sum.splits)
qed simp

lemma repairBatch_size:
  assumes "rs_sized R" "FEC_Encode R data d p = Inr shards"
  shows "length (batchShards (repairBatch d p i g shards)) \<le> 48"
  using FEC_Encode_length [OF assms] by (auto simp: repairBatch_def numberedShards_def)

lemma collectBatches_size:
  assumes "rs_sized R"
  shows "collectBatches R now fec m = (batches, kept) \<Longrightarrow> b \<in> set batches \<Longrightarrow>
    length (batchShards b) \<le> 48"
proof (induction m arbitrary: batches kept)
  case (Cons e rest)
  obtain i g where e: "e = (i, g)" by fastforce
  obtain bs k where bk: "collectBatches R now fec rest = (bs, k)" by fastforce
  show ?case
    using Cons.prems Cons.IH [OF bk] bk repairBatch_size [OF assms]
    by (auto simp: e Let_def split: if_splits sum.splits)
qed simp

lemma nonce_inv_batches:
  assumes "nonce_inv k s" "\<forall>b\<in>set batches. length (batchShards b) \<le> 48"
    and "k + 48 * length batches < 2 ^ 64"
  shows "nonce_inv (k + 48 * length batches) (sendBatches A io s batches)"
  using assms
proof (induction batches arbitrary: io s k)
  case Nil
  then show ?case by simp
next
  case (Cons b bs)
  have "nonce_inv (k + length (batchShards b)) (snd (sendFECRepairBatch A (io 0) s b))"
    unfolding sendFECRepairBatch_def using Cons.prems by (intro nonce_inv_repairs) auto
  then have "nonce_inv (k + 48) (snd (sendFECRepairBatch A (io 0) s b))"
    using Cons.prems by (auto intro: nonce_inv_mono)
  then have "nonce_inv (k + 48 + 48 * length bs)
      (sendBatches A (\<lambda>k. io (Suc k)) (snd (sendFECRepairBatch A (io 0) s b)) bs)"
    using Cons.prems by (intro Cons.IH) auto
  then show ?case by (simp add: algebra_simps)
qed

lemma expiredFECRepairBatches_bounds:
  assumes "rs_sized R" "gm_ok (sFecTx s)" "expiredFECRepairBatches R now s = (batches, s')"
  shows "length batches \<le> 65536 \<and> (\<forall>b\<in>set batches. length (batchShards b) \<le> 48) \<and>
    gm_ok (sFecTx s')"
  using assms(2,3) collectBatches_kept collectBatches_size [OF assms(1)] gm_len_u16 [OF assms(2)]
  by (fastforce simp: expiredFECRepairBatches_def split: if_splits prod.splits)

lemma nonce_inv_flush:
  assumes R: "rs_sized R" and g: "gm_ok (sFecTx s)" and i: "nonce_inv k s"
    and k: "k + 48 * 65536 < 2 ^ 64"
  shows "nonce_inv (k + 48 * 65536) (fecFlushTick A R io now s)"
proof (cases "expiredFECRepairBatches R now s")
  case (Pair batches s')
  note b = expiredFECRepairBatches_bounds [OF R g Pair]
  have "nonce_inv k s'"
    using nonce_inv_views [of s' s k] expiredFECRepairBatches_frame [of R now s] i Pair by simp
  then have "nonce_inv (k + 48 * length batches) (sendBatches A io s' batches)"
    using b k by (intro nonce_inv_batches) auto
  then have "nonce_inv (k + 48 * 65536) (sendBatches A io s' batches)"
    by (rule nonce_inv_mono) (use b in auto)
  then show ?thesis using nonce_inv_mono [OF i] Pair by (simp add: fecFlushTick_def)
qed

lemma gm_ok_nextFECShards: "gm_ok (sFecTx s) \<Longrightarrow> gm_ok (sFecTx (snd (nextFECShards R now s i p)))"
  by (auto simp: nextFECShards_def openSendGroup_def Let_def
      split: option.splits sum.splits if_splits)

lemma gm_ok_sessionStep:
  assumes "rs_sized R" "gm_ok (sFecTx s)"
  shows "gm_ok (sFecTx (sessionStep A R q s ev))"
proof -
  have exp: "gm_ok (sFecTx s) \<Longrightarrow> gm_ok (sFecTx (snd (expiredFECRepairBatches R now s)))" for s now
    using expiredFECRepairBatches_bounds [OF assms(1), of s now] by (metis prod.collapse)
  have tx: "txView s' = txView s \<Longrightarrow> gm_ok (sFecTx s')" for s' using assms(2) by (simp add: txView_def)
  show ?thesis
  proof (cases ev)
    case (EvSend io now i p)
    then show ?thesis
      using SendPacket_keeps [where P = "\<lambda>s. gm_ok (sFecTx s)"] assms(2) gm_ok_nextFECShards by simp
  next
    case (EvFlush io now)
    then show ?thesis
      using fecFlushTick_keeps [where P = "\<lambda>s. gm_ok (sFecTx s)"] assms(2) exp by simp
  next
    case (EvDatagram T now ok w f err)
    then show ?thesis using readStep_frame(2) [of A R T now ok q s w f]
      by (cases "readStep A R T now ok q s w f"; cases "fst (readStep A R T now ok q s w f)")
        (auto intro!: tx)
  qed (simp_all add: tx)
qed

lemma nonce_inv_step:
  assumes "rs_sized R" "gm_ok (sFecTx s)" "nonce_inv k s" "k + 2 ^ 22 < 2 ^ 64"
  shows "nonce_inv (k + 2 ^ 22) (sessionStep A R q s ev)"
proof -
  have tx: "txView s' = txView s \<Longrightarrow> configView s' = configView s \<Longrightarrow> nonce_inv (k + 2 ^ 22) s'" for s'
    using nonce_inv_views [of s' s] nonce_inv_mono [OF assms(3)] by (simp add: txView_def)
  show ?thesis
  proof (cases ev)
    case (EvSend io now i p)
    have "nonce_inv (k + 2 ^ 22) (snd (SendPacket A R io now s i p))"
      by (rule nonce_inv_mono [OF nonce_inv_SendPacket [OF assms(1,3)]]) (use assms(4) in auto)
    then show ?thesis using EvSend by simp
  next
    case (EvFlush io now)
    have "nonce_inv (k + 2 ^ 22) (fecFlushTick A R io now s)"
      by (rule nonce_inv_mono [OF nonce_inv_flush [OF assms(1,2,3)]]) (use assms(4) in auto)
    then show ?thesis using EvFlush by simp
  next
    case (EvDatagram T now ok w f err)
    then show ?thesis using readStep_frame [of A R T now ok q s w f]
      by (cases "readStep A R T now ok q s w f"; cases "fst (readStep A R T now ok q s w f)")
        (auto intro!: tx [simplified])
  qed (simp_all add: tx [simplified])
qed

lemma nonce_inv_run:
  assumes "rs_sized R" "gm_ok (sFecTx s)" "nonce_inv k s" "k + 2 ^ 22 * length es < 2 ^ 64"
  shows "nonce_inv (k + 2 ^ 22 * length es) (run (sessionStep A R q) s es)"
  using assms(2-)
proof (induction es arbitrary: s k)
  case Nil
  then show ?case by simp
next
  case (Cons e es)
  have "nonce_inv (k + 2 ^ 22) (sessionStep A R q s e)"
    using Cons.prems by (intro nonce_inv_step assms(1)) auto
  then have "nonce_inv (k + 2 ^ 22 + 2 ^ 22 * length es) (run (sessionStep A R q) (sessionStep A R q s e) es)"
    using Cons.prems by (intro Cons.IH gm_ok_sessionStep assms(1)) auto
  then show ?case by (simp add: algebra_simps)
qed

lemma nonce_inv_new:
  assumes "NewDatagramSession opts = Inr (s, q)" "length (optID opts) = 16"
  shows "nonce_inv 0 s \<and> gm_ok (sFecTx s)"
  using assms NewCodec_wf
  by (auto simp: NewDatagramSession_def nonce_inv_def Let_def
      split: option.splits sum.splits if_splits)

section \<open>Concrete sessions\<close>

text \<open>Options for closed examples: a bare transport, a fixed remote, and the given FEC options.\<close>

definition demo_remote :: NetAddr where
  "demo_remote = \<lparr>addrNetwork = ''udp'', addrString = ''192.0.2.1:443''\<rparr>"

definition demo_transport :: Transport where
  "demo_transport = \<lparr>IsSourceAuthorized = None, ManagesReturnPath = None, ObservesSources = False\<rparr>"

definition no_fec :: FECOptions where
  "no_fec = \<lparr>optDataShards = 0, optParityShards = 0, MaxReceiveGroups = 0, GroupTimeout = 0,
     Dynamic = False, AdaptWindow = 0\<rparr>"

definition demo_options :: "FECOptions \<Rightarrow> SessionOptions" where
  "demo_options fec = \<lparr>optID = zeros 16, optTransport = Some demo_transport,
     optRemoteAddr = Some demo_remote, optSendKey = zeros 32, optRecvKey = zeros 32,
     optStreamQueue = 0, optFEC = fec, optMaxDatagramSize = 0, optDisableMigration = False,
     optValidateRemote = None, optHandshakeReplay = None\<rparr>"

definition demo_session :: "FECOptions \<Rightarrow> DatagramSession" where
  "demo_session fec = \<lparr>sId = zeros 16, sSendCodec = demo_codec, sRecvCodec = demo_codec,
     sState = SessionEstablished, sRemote = demo_remote,
     sStreams = [(0, \<lparr>chanCap = 64, chanBuf = []\<rparr>)],
     sDedup = \<lparr>dedupMax = 4096, highest = 0, initialized = False, seen = []\<rparr>,
     sFecRx = NewFECReceiveBuffer (MaxReceiveGroups fec), sFec = fec,
     sFecAdapt = (if FECOptions_enabled fec \<and> Dynamic fec
       then Some (NewFECAdaptiveController (optDataShards fec)
              (if optDataShards fec > 16 then 16 else optDataShards fec) (AdaptWindow fec)) else None),
     sDisableMigration = False, sValidateRemote = None, sHandshakeReplay = None, sCloseErr = None,
     sFecTx = [], sFecGroup = 0, sPacketNo = 0,
     sStats = \<lparr>bytesSent = 0, bytesReceived = 0, fecRecovered = 0, oversizedDatagrams = 0,
               packetLoss = 0, migrations = 0\<rparr>,
     sCtxDone = False, sDone = False, sSent = [], sAcks = [], sObserved = []\<rparr>"

lemma demo_session_new:
  assumes "validateFECOptions fec = None"
  shows "NewDatagramSession (demo_options fec) = Inr (demo_session fec, 64)"
proof -
  have "NewCodecWithMaxDatagramSize (zeros 32) 0 = Inr demo_codec" by code_simp
  then show ?thesis using assms
    by (simp add: demo_session_def NewDatagramSession_def demo_options_def defaultStreamQueue_def
        Let_def gm_set_def newPacketDedupWindow_def defaultDedupWindow_def fec_limits)
qed

lemma xor_rs_sized: "rs_sized xor_rs"
  by (auto simp: rs_sized_def xor_rs_def split: if_splits)

section \<open>Properties\<close>

text \<open>
  C1. Nonces are unique. In any run of up to \<open>2^40\<close> operations of a new session (sends with and
  without FEC, flushes, datagrams received, migrations, and any pacer or transport errors), all
  datagrams handed to the transport carry pairwise different nonces, while the sealing key never
  changes. The session draws at most \<open>2^22\<close> packet numbers per operation, so the 64-bit counter
  does not wrap, and the codec refuses numbers beyond 48 bits.
\<close>

theorem session_nonces_unique:
  assumes "rs_sized R" and "NewDatagramSession opts = Inr (s, q)" and "length (optID opts) = 16"
    and "length es < 2 ^ 40"
  shows "distinct (map (\<lambda>(wire, a). wireNonce wire) (sSent (run (sessionStep A R q) s es))) \<and>
    sSendCodec (run (sessionStep A R q) s es) = sSendCodec s"
proof -
  have "nonce_inv (0 + 2 ^ 22 * length es) (run (sessionStep A R q) s es)"
    using assms nonce_inv_new by (intro nonce_inv_run) auto
  then show ?thesis using nonce_inv_distinct run_config [of A R q s es] by (simp add: configView_def)
qed
theorem session_nonces_unique_witness:
  "distinct (map (\<lambda>(wire, a). wireNonce wire) (sSent (run (sessionStep demo_aead xor_rs 64)
     (demo_session no_fec)
     [EvSend (\<lambda>_. Written) 0 7 [1, 2], EvSend (\<lambda>_. WriteError) 1 7 [3], EvSend (\<lambda>_. Written) 2 0 []])))"
proof -
  have "validateFECOptions no_fec = None" by code_simp
  note new = demo_session_new [OF this]
  show ?thesis
    by (rule session_nonces_unique [OF xor_rs_sized new, THEN conjunct1])
      (simp_all add: demo_options_def)
qed

end
