(* ===== verification/Session_Safety.thy ===== *)
theory Session_Safety
  imports Session_Nonce
begin

text \<open>
  Replay protection, migration and closing of a session: a packet number is processed at most once
  in the life of a session, the remote address follows only authenticated fresh packets, a pinned
  session never moves, and a closed session stays closed and silent.
\<close>

section \<open>Replays\<close>

lemma SeenFirst_stale:
  assumes i: "dedup_inv w" and st: "\<not> dedup_fresh w k"
  shows "SeenFirst w k = (False, w)"
proof -
  have "\<not> fst (SeenFirst w k)" using dedup.accept_fresh [OF i] st by blast
  moreover have "initialized w" "\<not> k > highest w" using st i
    by (auto simp: dedup_fresh_def dedup_inv_def)
  ultimately show ?thesis by (auto simp: SeenFirst_def recordSeen_def Let_def split: if_splits)
qed

lemma deliverPayload_dedup [simp]: "sDedup (deliverPayload i q s p) = sDedup s"
  by (auto simp: deliverPayload_def streamWithSize_def Let_def split: option.splits)

lemma observeFECDelivery_dedup [simp]: "sDedup (observeFECDelivery d r s) = sDedup s"
  by (auto simp: observeFECDelivery_def Let_def split: option.splits prod.splits)

lemma Migrate_dedup [simp]: "sDedup (snd (Migrate e s a)) = sDedup s"
  by (auto simp: Migrate_def split: option.splits)

lemma acceptSource_dedup [simp]: "sDedup (snd (acceptSource T s f)) = sDedup s"
  using Migrate_dedup [of "sCtxDone s" s f] by (auto simp: acceptSource_def split: prod.splits simp del: Migrate_dedup)

lemma readPacket_dedup:
  "sDedup (readPacket R T now q s p f) =
     (if SessionID (Inner p) = sId s \<and> sourceEligibleForReplay T s f
      then snd (SeenFirst (sDedup s) (PacketNumber (Inner p))) else sDedup s)"
proof -
  have d: "sDedup (foldl (deliverPayload i q) s' ps) = sDedup s'" for i s' ps
    by (rule foldl_keeps) simp
  show ?thesis
    using acceptSource_dedup [of T "s\<lparr>sDedup := snd (SeenFirst (sDedup s) (PacketNumber (Inner p)))\<rparr>" f]
    by (auto simp: readPacket_def Let_def d simp del: acceptSource_dedup split: prod.splits sum.splits)
qed

text \<open>Whatever happens, the window stays a window and a stale number stays stale.\<close>

definition stale_inv :: "u64 set \<Rightarrow> DatagramSession \<Rightarrow> bool" where
  "stale_inv K s \<longleftrightarrow> dedup_inv (sDedup s) \<and> (\<forall>k\<in>K. \<not> dedup_fresh (sDedup s) k)"

lemma stale_inv_eq: "sDedup s' = sDedup s \<Longrightarrow> stale_inv K s' = stale_inv K s"
  by (simp add: stale_inv_def)

lemma stale_inv_readPacket: "stale_inv K s \<Longrightarrow> stale_inv K (readPacket R T now q s p f)"
  using dedup.invar_offer dedup.fresh_antimono by (auto simp: stale_inv_def readPacket_dedup)

lemma stale_inv_readStep: "stale_inv K s \<Longrightarrow> stale_inv K (snd (readStep A R T now ok q s w f))"
  by (auto simp: readStep_def replayHandshakeAck_def stale_inv_eq [of "_\<lparr>sStats := _\<rparr>"] stale_inv_readPacket
     split: option.splits sum.splits prod.splits if_splits) (auto simp: stale_inv_def)

lemma rxView_dedup: "rxView s' = rxView s \<Longrightarrow> sDedup s' = sDedup s"
  by (simp add: rxView_def)

lemma RecvPacket_dedup [simp]: "sDedup (snd (RecvPacket c s i)) = sDedup s"
  by (auto simp: RecvPacket_def streamWithSize_def Let_def
      split: option.splits recvCase.splits list.splits)

lemma terminate_dedup [simp]: "sDedup (terminate e s) = sDedup s"
  by (simp add: terminate_def)

lemma stale_inv_step: "stale_inv K s \<Longrightarrow> stale_inv K (sessionStep A R q s ev)"
proof -
  assume i: "stale_inv K s"
  have e: "sDedup s' = sDedup s \<Longrightarrow> stale_inv K s'" for s' using i by (simp add: stale_inv_def)
  show ?thesis
  proof (cases ev)
    case (EvDatagram T now ok w f err)
    then show ?thesis using stale_inv_readStep [OF i, of A R T now ok q w f]
      by (cases "readStep A R T now ok q s w f"; cases "fst (readStep A R T now ok q s w f)")
        (auto simp: stale_inv_def)
  next
    case (EvSend io now j p)
    have "sDedup (snd (SendPacket A R io now s j p)) = sDedup s" by (rule rxView_dedup) simp
    then show ?thesis using EvSend by (simp add: e)
  next
    case (EvFlush io now)
    have "sDedup (fecFlushTick A R io now s) = sDedup s" by (rule rxView_dedup) simp
    then show ?thesis using EvFlush by (simp add: e)
  qed (simp_all add: e)
qed

interpretation session_replay: invariant_machine "sessionStep A R q" "stale_inv K" for A R q K
  by unfold_locales (rule stale_inv_step)

lemma stale_inv_new: "NewDatagramSession opts = Inr (s, q) \<Longrightarrow> stale_inv {} s"
  using dedup_inv_new [of defaultDedupWindow]
  by (auto simp: NewDatagramSession_def stale_inv_def Let_def defaultDedupWindow_def
      split: option.splits sum.splits if_splits)

lemma readPacket_stale:
  assumes "stale_inv {PacketNumber (Inner p)} s"
  shows "readPacket R T now q s p f = s"
  using assms SeenFirst_stale by (simp add: readPacket_def stale_inv_def)


section \<open>Migration and closing\<close>

text \<open>The life-cycle fields: only migration and closing write them.\<close>

definition lifeView where
  "lifeView s = (sState s, sRemote s, sCtxDone s, sDone s)"

lemma life_updates [simp]:
  "lifeView (s\<lparr>sDedup := w\<rparr>) = lifeView s" "lifeView (s\<lparr>sFecRx := b\<rparr>) = lifeView s"
  "lifeView (s\<lparr>sObserved := l\<rparr>) = lifeView s" "lifeView (s\<lparr>sStats := st\<rparr>) = lifeView s"
  "lifeView (deliverPayload i q s p) = lifeView s" "lifeView (observeFECDelivery d r s) = lifeView s"
  "lifeView (snd (RecvPacket c s i)) = lifeView s"
  "lifeView (snd (replayHandshakeAck now ok s wire f)) = lifeView s"
  by (auto simp: lifeView_def deliverPayload_def observeFECDelivery_def streamWithSize_def
      RecvPacket_def replayHandshakeAck_def Let_def
      split: option.splits prod.splits recvCase.splits list.splits)

lemma rxView_life: "rxView s' = rxView s \<Longrightarrow> lifeView s' = lifeView s"
  by (simp add: rxView_def lifeView_def)

lemma acceptSource_life:
  "lifeView (snd (acceptSource T s f)) = lifeView s \<or>
   (\<exists>a. f = Some a \<and> lifeView (snd (acceptSource T s f)) = (SessionEstablished, a, sCtxDone s, sDone s) \<and>
      \<not> sCtxDone s \<and> \<not> sDisableMigration s \<and> sState s \<noteq> SessionClosed \<and> sRemote s \<noteq> a \<and>
      (\<forall>ok. sValidateRemote s = Some ok \<longrightarrow> ok a) \<and> ManagesReturnPath T \<noteq> Some True)"
  by (auto simp: acceptSource_def Migrate_def lifeView_def sameAddr_iff split: option.splits)

lemma readPacket_life:
  "lifeView (readPacket R T now q s p f) =
     (if SessionID (Inner p) = sId s \<and> sourceEligibleForReplay T s f \<and>
         fst (SeenFirst (sDedup s) (PacketNumber (Inner p)))
      then lifeView (snd (acceptSource T
        (s\<lparr>sDedup := snd (SeenFirst (sDedup s) (PacketNumber (Inner p)))\<rparr>) f)) else lifeView s)"
proof -
  have d: "lifeView (foldl (deliverPayload i q) s' ps) = lifeView s'" for i s' ps
    by (rule foldl_keeps) simp
  show ?thesis by (auto simp: readPacket_def Let_def d split: prod.splits sum.splits)
qed

lemma readStep_life:
  "lifeView (snd (readStep A R T now ok q s wire f)) = lifeView s \<or>
   (\<exists>a p. f = Some a \<and> Open A (Some (sRecvCodec s)) now wire = Inr p \<and>
      SessionID (Inner p) = sId s \<and> fst (SeenFirst (sDedup s) (PacketNumber (Inner p))) \<and>
      lifeView (snd (readStep A R T now ok q s wire f)) = (SessionEstablished, a, sCtxDone s, sDone s) \<and>
      \<not> sCtxDone s \<and> \<not> sDisableMigration s \<and> sState s \<noteq> SessionClosed \<and> sRemote s \<noteq> a \<and>
      (\<forall>ok. IsSourceAuthorized T = Some ok \<longrightarrow> ok f) \<and>
      (\<forall>ok. sValidateRemote s = Some ok \<longrightarrow> ok a) \<and> ManagesReturnPath T \<noteq> Some True)"
proof (cases "fst (replayHandshakeAck now ok s wire f)")
  case (Some b)
  then show ?thesis using life_updates(8) [of now ok s wire f]
    by (cases "replayHandshakeAck now ok s wire f") (simp add: readStep_def)
next
  case None
  then have r: "replayHandshakeAck now ok s wire f = (None, s)"
    by (auto simp: replayHandshakeAck_def split: option.splits)
  show ?thesis
  proof (cases "Open A (Some (sRecvCodec s)) now wire")
    case (Inl e)
    then show ?thesis by (simp add: readStep_def r)
  next
    case (Inr p)
    let ?s = "s\<lparr>sDedup := snd (SeenFirst (sDedup s) (PacketNumber (Inner p)))\<rparr>"
    have "sourceEligibleForReplay T s f \<Longrightarrow> f = Some a \<Longrightarrow> sRemote s \<noteq> a \<Longrightarrow>
        \<forall>ok. IsSourceAuthorized T = Some ok \<longrightarrow> ok f" for a
      by (auto simp: sourceEligibleForReplay_def sameAddr_iff split: if_splits)
    then show ?thesis
      using acceptSource_life [of T ?s f] Inr by (auto simp: readStep_def r readPacket_life)
  qed
qed


section \<open>Pinned and closed sessions\<close>

text \<open>A closed session: the three signs of closing go together.\<close>

definition life_inv :: "DatagramSession \<Rightarrow> bool" where
  "life_inv s \<longleftrightarrow> (sDone s \<longleftrightarrow> sState s = SessionClosed) \<and> (sCtxDone s \<longleftrightarrow> sDone s)"

lemma lifeView_inv: "lifeView s' = lifeView s \<Longrightarrow> life_inv s' = life_inv s"
  by (simp add: lifeView_def life_inv_def)

lemma Migrate_life:
  "lifeView (snd (Migrate e s a)) = lifeView s \<or>
   (\<not> sDisableMigration s \<and> sState s \<noteq> SessionClosed \<and>
    lifeView (snd (Migrate e s a)) = (SessionEstablished, the a, sCtxDone s, sDone s))"
  by (auto simp: Migrate_def lifeView_def split: option.splits)

text \<open>One step: nothing of the life cycle changes, or the session closes, or an open session
  that allows migration takes a new remote.\<close>

lemma sessionStep_life:
  "lifeView (sessionStep A R q s ev) = lifeView s \<or>
   (\<exists>r. lifeView (sessionStep A R q s ev) = (SessionClosed, r, True, True) \<and>
      (sDisableMigration s \<longrightarrow> r = sRemote s) \<and> \<not> sDone s) \<or>
   (\<exists>a. \<not> sDisableMigration s \<and> sState s \<noteq> SessionClosed \<and>
      lifeView (sessionStep A R q s ev) = (SessionEstablished, a, sCtxDone s, sDone s))"
proof (cases ev)
  case (EvSend io now j p)
  have "lifeView (snd (SendPacket A R io now s j p)) = lifeView s" by (rule rxView_life) simp
  then show ?thesis by (simp only: EvSend sessionStep.simps simp_thms)
next
  case (EvFlush io now)
  have "lifeView (fecFlushTick A R io now s) = lifeView s" by (rule rxView_life) simp
  then show ?thesis by (simp only: EvFlush sessionStep.simps simp_thms)
next
  case (EvDatagram T now ok w f err)
  obtain b s' where rs: "readStep A R T now ok q s w f = (b, s')" by fastforce
  have l: "lifeView s' = lifeView s \<or> (\<exists>a. \<not> sDisableMigration s \<and> sState s \<noteq> SessionClosed \<and>
      lifeView s' = (SessionEstablished, a, sCtxDone s, sDone s))"
    using readStep_life [of A R T now ok q s w f] rs by auto
  show ?thesis
  proof (cases b)
    case True
    then show ?thesis using l by (auto simp: EvDatagram rs)
  next
    case False
    then show ?thesis using l by (cases "sDone s'") (auto simp: EvDatagram rs terminate_def lifeView_def)
  qed
next
  case (EvMigrate e a)
  then show ?thesis using Migrate_life [of e s a] by auto
next
  case (EvRecv c j)
  then show ?thesis by simp
qed (auto simp: terminate_def lifeView_def)

lemma readPacket_replay [simp]: "sHandshakeReplay (readPacket R T now q s p f) = sHandshakeReplay s"
proof (rule readPacket_keeps [where P = "\<lambda>s'. sHandshakeReplay s' = sHandshakeReplay s"])
  fix s' :: DatagramSession
  assume "sHandshakeReplay s' = sHandshakeReplay s"
  then show "sHandshakeReplay (snd (acceptSource T s' f)) = sHandshakeReplay s"
    by (auto simp: acceptSource_def Migrate_def split: option.splits)
qed (auto simp: deliverPayload_def streamWithSize_def observeFECDelivery_def Let_def
       split: option.splits prod.splits)

lemma life_inv_step: "life_inv s \<Longrightarrow> life_inv (sessionStep A R q s ev)"
  using sessionStep_life [of A R q s ev] by (auto simp: life_inv_def lifeView_def)

text \<open>A pinned session keeps its remote, and every datagram it sends goes there.\<close>

definition pinned :: "NetAddr \<Rightarrow> DatagramSession \<Rightarrow> bool" where
  "pinned a s \<longleftrightarrow> sDisableMigration s \<and> sRemote s = a \<and> (\<forall>(w, b)\<in>set (sSent s). b = a)"

lemma pinned_send: "pinned a s \<Longrightarrow> pinned a (snd (sendWirePayload A out s i p cf n))"
  by (auto simp: pinned_def sendWirePayload_def Let_def split: sum.splits)

lemma pinned_views:
  assumes "pinned a s" "configView s' = configView s" "sSent s' = sSent s" "sRemote s' = sRemote s"
  shows "pinned a s'"
  using assms by (simp add: pinned_def configView_def)

lemma rxView_remote: "rxView s' = rxView s \<Longrightarrow> sRemote s' = sRemote s"
  by (simp add: rxView_def)

lemma pinned_step: assumes "pinned a s" shows "pinned a (sessionStep A R q s ev)"
proof -
  have tx: "pinned a s'" if "s' = sessionStep A R q s ev" "txView s' = txView s" for s'
  proof -
    have "sRemote s' = sRemote s"
      using sessionStep_life [of A R q s ev] assms that(1) by (auto simp: pinned_def lifeView_def)
    then show ?thesis using that pinned_views [OF assms] by (simp add: txView_def)
  qed
  show ?thesis
  proof (cases ev)
    case (EvSend io now j p)
    have "pinned a (snd (nextFECShards R now s j p))" if "pinned a s" for s p
      using that by (rule pinned_views) (simp, simp, rule rxView_remote, simp)
    then show ?thesis using SendPacket_keeps [where P = "pinned a"] pinned_send assms EvSend by simp
  next
    case (EvFlush io now)
    have "pinned a (snd (expiredFECRepairBatches R now s))" if "pinned a s" for s
      using that by (rule pinned_views) (simp, simp, rule rxView_remote, simp)
    then show ?thesis using fecFlushTick_keeps [where P = "pinned a"] pinned_send assms EvFlush by simp
  next
    case (EvDatagram T now ok w f err)
    have "txView (sessionStep A R q s ev) = txView s"
      using readStep_frame(2) [of A R T now ok q s w f]
      by (auto simp: EvDatagram simp del: readStep_frame split: prod.splits bool.splits)
    then show ?thesis using tx by blast
  qed (rule tx [OF refl], simp)+
qed

interpretation pinned_session: invariant_machine "sessionStep A R q" "pinned a" for A R q a
  by unfold_locales (rule pinned_step)


text \<open>After closing: nothing is sent any more and the state stays closed.\<close>

definition closed_with :: "(bytes \<times> NetAddr) list \<Rightarrow> u64 \<Rightarrow> NetAddr \<Rightarrow> DatagramSession \<Rightarrow> bool" where
  "closed_with sent no a s \<longleftrightarrow> sDone s \<and> life_inv s \<and> sSent s = sent \<and> sPacketNo s = no \<and> sRemote s = a"

lemma closed_step: assumes "closed_with sent no a s" shows "closed_with sent no a (sessionStep A R q s ev)"
proof -
  have c: "sState s = SessionClosed" "sCtxDone s" "sDone s" using assms by (auto simp: closed_with_def life_inv_def)
  have life: "lifeView (sessionStep A R q s ev) = lifeView s"
    using sessionStep_life [of A R q s ev] c by auto
  moreover have "sSent (sessionStep A R q s ev) = sSent s \<and> sPacketNo (sessionStep A R q s ev) = sPacketNo s"
  proof (cases ev)
    case (EvDatagram T now ok w f err)
    then show ?thesis
      using readStep_frame(2) [of A R T now ok q s w f]
      by (auto simp: txView_def terminate_def simp del: readStep_frame split: prod.splits bool.splits)
  next
    case (EvRecv ch i)
    then show ?thesis using RecvPacket_frame(2) [of ch s i] by (simp add: txView_def)
  next
    case (EvMigrate e b)
    then show ?thesis using Migrate_frame(2) [of e s b] by (simp add: txView_def)
  qed (simp_all add: SendPacket_def fecFlushTick_def terminate_def c)
  ultimately show ?thesis
    using assms c by (simp add: closed_with_def lifeView_def life_inv_def)
qed

interpretation closed_session: invariant_machine "sessionStep A R q" "closed_with sent no a" for A R q sent no a
  by unfold_locales (rule closed_step)

interpretation session_life: invariant_machine "sessionStep A R q" life_inv for A R q
  by unfold_locales (rule life_inv_step)


section \<open>A concrete datagram\<close>

text \<open>Packet 1 of the example session, with payload \<open>[7]\<close> on stream 3.\<close>

definition demo_header :: InnerHeader where
  "demo_header = \<lparr>Magic = TGP_Magic, Flags = FlagEncrypted, SessionID = zeros 16, StreamID = 3,
     PacketNumber = 1, FECGroup = 0, FECIndex = 0, FECTotal = 0, FECDataShards = 0,
     PayloadLength = 1\<rparr>"

definition demo_wire :: bytes where
  "demo_wire = (case Seal demo_aead (Some demo_codec) 1 demo_header [7] of Inr w \<Rightarrow> w)"

definition demo_other :: NetAddr where
  "demo_other = \<lparr>addrNetwork = ''udp'', addrString = ''198.51.100.9:7000''\<rparr>"

definition demo_packet :: "gotime \<Rightarrow> Packet" where
  "demo_packet now = \<lparr>Outer = (case NewOuterHeader 1 60 of Inr h \<Rightarrow> h),
     Inner = sealedInner demo_header [7], Payload = [7], ReceivedAt = now, SourceAddr = None\<rparr>"

lemma demo_no_fec: "validateFECOptions no_fec = None"
  by code_simp

lemma demo_open: "Open demo_aead (Some demo_codec) now demo_wire = Inr (demo_packet now)"
proof -
  have wi: "wf_inner demo_header" "Magic demo_header = TGP_Magic"
    by (simp_all add: demo_header_def wf_inner_def)
  obtain w where w: "Seal demo_aead (Some demo_codec) 1 demo_header [7] = Inr w"
    using Seal_defined_iff [OF demo_codec_wf wi(1), of demo_aead 1 "[7]"]
    by (auto simp: demo_codec_def maxDTLSSequence_eq)
  then have "demo_wire = w" by (simp add: demo_wire_def)
  with Open_sealed [OF demo_aead_laws demo_codec_wf wi w, of now] show ?thesis
    by (auto simp: demo_packet_def)
qed

lemma demo_session_facts:
  "sRecvCodec (demo_session no_fec) = demo_codec" "sId (demo_session no_fec) = zeros 16"
  "sHandshakeReplay (demo_session no_fec) = None" "sRemote (demo_session no_fec) = demo_remote"
  "sState (demo_session no_fec) = SessionEstablished" "\<not> sDisableMigration (demo_session no_fec)"
  "\<not> sCtxDone (demo_session no_fec)" "sValidateRemote (demo_session no_fec) = None"
  "\<not> initialized (sDedup (demo_session no_fec))"
  by (simp_all add: demo_session_def)

lemma demo_packet_facts:
  "SessionID (Inner (demo_packet now)) = zeros 16" "PacketNumber (Inner (demo_packet now)) = 1"
  by (simp_all add: demo_packet_def sealedInner_def demo_header_def)

lemma demo_no_replay: "sHandshakeReplay s = None \<Longrightarrow> replayHandshakeAck now ok s wire f = (None, s)"
  by (simp add: replayHandshakeAck_def)

section \<open>Properties\<close>

text \<open>
  C2. Replay protection over a session's life. Once a session has processed a datagram whose
  packet is authentic, addressed to it and from an eligible source, then after any further
  operations every datagram that opens to a packet with the same number leaves the whole session
  state unchanged: nothing is delivered, counted, migrated or handed to the FEC buffer. (The one
  datagram handled before the packet path, a repeated handshake hello, is excluded by
  hypothesis.)
\<close>

theorem replayed_packet_is_ignored:
  assumes "NewDatagramSession opts = Inr (s0, q)"
    and "s1 = run (sessionStep A R q) s0 es1"
    and "replayHandshakeAck now ok s1 wire from = (None, s1)"
    and "Open A (Some (sRecvCodec s1)) now wire = Inr p"
    and "SessionID (Inner p) = sId s1" and "sourceEligibleForReplay T s1 from"
    and "s2 = run (sessionStep A R q) (snd (readStep A R T now ok q s1 wire from)) es2"
    and "replayHandshakeAck now' ok' s2 wire' from' = (None, s2)"
    and "Open A (Some (sRecvCodec s2)) now' wire' = Inr p'"
    and "PacketNumber (Inner p') = PacketNumber (Inner p)"
  shows "readStep A R T' now' ok' q s2 wire' from' = (True, s2)"
proof -
  have i: "stale_inv {} s1"
    unfolding assms(2) by (rule session_replay.invar_run) (rule stale_inv_new [OF assms(1)])
  let ?s = "readPacket R T now q s1 p from"
  have "stale_inv {PacketNumber (Inner p)} ?s"
    using i dedup.invar_offer dedup.offered_stale assms(5,6) by (simp add: stale_inv_def readPacket_dedup)
  moreover have "snd (readStep A R T now ok q s1 wire from) = ?s"
    using assms(3,4) by (simp add: readStep_def)
  ultimately have "stale_inv {PacketNumber (Inner p')} s2"
    unfolding assms(7) using session_replay.invar_run assms(10) by simp
  then show ?thesis using assms(8,9) by (simp add: readStep_def readPacket_stale)
qed

theorem replayed_packet_is_ignored_witness:
  "readStep demo_aead xor_rs demo_transport 9 True 64
     (snd (readStep demo_aead xor_rs demo_transport 5 True 64 (demo_session no_fec) demo_wire
       (Some demo_remote))) demo_wire (Some demo_other) =
   (True, snd (readStep demo_aead xor_rs demo_transport 5 True 64 (demo_session no_fec) demo_wire
       (Some demo_remote)))"
proof -
  let ?s = "demo_session no_fec"
  let ?t = "snd (readStep demo_aead xor_rs demo_transport 5 True 64 ?s demo_wire (Some demo_remote))"
  have o: "Open demo_aead (Some (sRecvCodec ?s)) 5 demo_wire = Inr (demo_packet 5)"
    by (simp add: demo_session_facts demo_open)
  have "sRecvCodec ?t = demo_codec"
    using readStep_frame(1) [of demo_aead xor_rs demo_transport 5 True 64 ?s]
    by (simp add: configView_def demo_session_facts)
  then have o': "Open demo_aead (Some (sRecvCodec ?t)) 9 demo_wire = Inr (demo_packet 9)"
    by (simp add: demo_open)
  have r: "replayHandshakeAck 5 True ?s demo_wire (Some demo_remote) = (None, ?s)"
    by (rule demo_no_replay) (simp add: demo_session_facts)
  have r': "replayHandshakeAck 9 True ?t demo_wire (Some demo_other) = (None, ?t)"
    by (rule demo_no_replay) (simp add: readStep_def demo_no_replay demo_open demo_session_facts)
  have e: "sourceEligibleForReplay demo_transport ?s (Some demo_remote)"
    by (simp add: sourceEligibleForReplay_def demo_session_facts sameAddr_iff)
  show ?thesis
    by (rule replayed_packet_is_ignored [where ?es1.0 = "[]" and ?es2.0 = "[]",
          OF demo_session_new [OF demo_no_fec] _ r o _ e _ r' o']) (simp_all add: demo_packet_facts demo_session_facts)
qed

text \<open>
  C37. Migration needs an authentic, fresh packet and permission. When one turn of the read loop
  changes the remote address, the new remote is the datagram's source; the datagram opened under
  the receive key, carried the session's id and a packet number the replay window accepted;
  migration is enabled and the session open; the transport's authorizer, if there is one, accepts
  the source; the configured validation accepts it; and the transport does not manage the return
  path itself.
\<close>

theorem migration_is_authenticated:
  assumes "sRemote (snd (readStep A R T now ok q s wire from)) \<noteq> sRemote s"
  shows "\<exists>a p. from = Some a \<and> sRemote (snd (readStep A R T now ok q s wire from)) = a \<and>
    Open A (Some (sRecvCodec s)) now wire = Inr p \<and> SessionID (Inner p) = sId s \<and>
    fst (SeenFirst (sDedup s) (PacketNumber (Inner p))) \<and>
    \<not> sDisableMigration s \<and> sState s \<noteq> SessionClosed \<and>
    (\<forall>ok. IsSourceAuthorized T = Some ok \<longrightarrow> ok from) \<and>
    (\<forall>ok. sValidateRemote s = Some ok \<longrightarrow> ok a) \<and> ManagesReturnPath T \<noteq> Some True"
  using assms readStep_life [of A R T now ok q s wire "from"] by (auto simp: lifeView_def)

theorem migration_is_authenticated_witness:
  "\<exists>a p. Some demo_other = Some a \<and>
    Open demo_aead (Some (sRecvCodec (demo_session no_fec))) 5 demo_wire = Inr p \<and>
    fst (SeenFirst (sDedup (demo_session no_fec)) (PacketNumber (Inner p)))"
proof -
  have ne: "demo_other \<noteq> demo_remote" by (simp add: demo_other_def demo_remote_def)
  have "sRemote (snd (readStep demo_aead xor_rs demo_transport 5 True 64 (demo_session no_fec)
      demo_wire (Some demo_other))) = demo_other"
    using readPacket_life [of xor_rs demo_transport 5 64 "demo_session no_fec" "demo_packet 5" "Some demo_other"] ne
    by (simp add: readStep_def demo_no_replay demo_session_facts demo_open demo_packet_facts lifeView_def
        sourceEligibleForReplay_def acceptSource_def Migrate_def SeenFirst_def demo_transport_def sameAddr_iff)
  moreover note ne
  ultimately have "sRemote (snd (readStep demo_aead xor_rs demo_transport 5 True 64 (demo_session no_fec)
      demo_wire (Some demo_other))) \<noteq> sRemote (demo_session no_fec)"
    by (simp add: demo_session_facts)
  from migration_is_authenticated [OF this] show ?thesis by blast
qed

text \<open>
  A session with migration disabled is pinned: over any run its remote stays the configured
  address, and every datagram it sends goes there.
\<close>

theorem migration_disabled_pins_remote:
  assumes "NewDatagramSession opts = Inr (s, q)" and "optDisableMigration opts"
  shows "Some (sRemote (run (sessionStep A R q) s es)) = optRemoteAddr opts \<and>
    (\<forall>(wire, a)\<in>set (sSent (run (sessionStep A R q) s es)). Some a = optRemoteAddr opts)"
proof -
  have "pinned (sRemote s) s" and r: "optRemoteAddr opts = Some (sRemote s)"
    using assms by (auto simp: NewDatagramSession_def pinned_def Let_def
        split: option.splits sum.splits if_splits)
  then have "pinned (sRemote s) (run (sessionStep A R q) s es)" by (intro pinned_session.invar_run)
  then show ?thesis using r by (auto simp: pinned_def)
qed

theorem migration_disabled_pins_remote_witness:
  "Some (sRemote (run (sessionStep demo_aead xor_rs 64)
      ((demo_session no_fec)\<lparr>sDisableMigration := True\<rparr>)
      [EvDatagram demo_transport 5 True demo_wire (Some demo_other) None,
       EvMigrate False (Some demo_other), EvSend (\<lambda>_. Written) 6 0 [1]])) = Some demo_remote"
proof -
  let ?o = "(demo_options no_fec)\<lparr>optDisableMigration := True\<rparr>"
  have "NewCodecWithMaxDatagramSize (zeros 32) 0 = Inr demo_codec" by code_simp
  then have "NewDatagramSession ?o = Inr ((demo_session no_fec)\<lparr>sDisableMigration := True\<rparr>, 64)"
    using demo_no_fec
    by (simp add: demo_session_def NewDatagramSession_def demo_options_def defaultStreamQueue_def
        Let_def gm_set_def newPacketDedupWindow_def defaultDedupWindow_def fec_limits)
  from migration_disabled_pins_remote [OF this, THEN conjunct1] show ?thesis
    by (simp add: demo_options_def del: run.simps)
qed

text \<open>
  Closing is final. Once a session has terminated, after any further operations it is still
  closed, it has sent nothing more and its remote has not changed; sending reports the closed
  session, migration is refused, and a waiting receiver can always see the close.
\<close>

theorem closed_is_terminal:
  assumes "NewDatagramSession opts = Inr (s0, q)"
    and "s = terminate err (run (sessionStep A R q) s0 es)"
    and "s' = run (sessionStep A R q) s es'"
  shows "sState s' = SessionClosed \<and> sSent s' = sSent s \<and> sRemote s' = sRemote s \<and>
    fst (SendPacket A R io now s' i payload) = Some ErrSessionClosed \<and>
    fst (Migrate False s' a) \<noteq> None \<and> fst (RecvPacket RecvDone s' i) = Some (Inl ErrSessionClosed)"
proof -
  have "life_inv s0" using assms(1)
    by (auto simp: NewDatagramSession_def life_inv_def Let_def split: option.splits sum.splits if_splits)
  then have "life_inv (run (sessionStep A R q) s0 es)" by (rule session_life.invar_run)
  then have "closed_with (sSent s) (sPacketNo s) (sRemote s) s"
    by (auto simp: assms(2) terminate_def closed_with_def life_inv_def)
  then have c: "closed_with (sSent s) (sPacketNo s) (sRemote s) s'"
    unfolding assms(3) by (rule closed_session.invar_run)
  then have d: "sState s' = SessionClosed" "sDone s'" by (auto simp: closed_with_def life_inv_def)
  then show ?thesis using c
    by (auto simp: closed_with_def SendPacket_def Migrate_def RecvPacket_def streamWithSize_def Let_def
        split: option.splits)
qed

theorem closed_is_terminal_witness:
  "sState (run (sessionStep demo_aead xor_rs 64) (terminate None (demo_session no_fec))
     [EvSend (\<lambda>_. Written) 0 0 [1], EvMigrate False (Some demo_other)]) = SessionClosed"
proof -
  have "sState (run (sessionStep demo_aead xor_rs 64)
      (terminate None (run (sessionStep demo_aead xor_rs 64) (demo_session no_fec) []))
      [EvSend (\<lambda>_. Written) 0 0 [1], EvMigrate False (Some demo_other)]) = SessionClosed"
    by (rule closed_is_terminal [OF demo_session_new [OF demo_no_fec] refl refl, THEN conjunct1])
  then show ?thesis by (simp only: run.simps(1))
qed

end
