(* ===== verification/Session_Bounds.thy ===== *)
theory Session_Bounds
  imports Session_Safety
begin

text \<open>
  Invariants of a session's memory and of its FEC parameters: the queues, tables and groups it
  keeps are bounded in every run, and the adaptive controller never leaves the code's limits.
\<close>

section \<open>Bounded memory\<close>

definition streams_ok :: "nat \<Rightarrow> (StreamID, chan) gomap \<Rightarrow> bool" where
  "streams_ok q m \<longleftrightarrow> gm_ok m \<and>
     (\<forall>i ch. gm_get m i = Some ch \<longrightarrow> length (chanBuf ch) \<le> chanCap ch \<and> chanCap ch \<le> max q 64)"

definition rx_inv :: "nat \<Rightarrow> DatagramSession \<Rightarrow> bool" where
  "rx_inv q s \<longleftrightarrow> streams_ok q (sStreams s) \<and> fec_inv (sFecRx s) \<and> dedup_inv (sDedup s) \<and>
     dedupMax (sDedup s) = 4096"

definition tx_inv :: "DatagramSession \<Rightarrow> bool" where
  "tx_inv s \<longleftrightarrow> gm_ok (sFecTx s) \<and>
     (\<forall>i g. gm_get (sFecTx s) i = Some g \<longrightarrow> length (payloads g) \<le> 32)"

lemma rx_inv_rxView: "rxView s' = rxView s \<Longrightarrow> rx_inv q s' = rx_inv q s"
  by (simp add: rxView_def rx_inv_def)

lemma tx_inv_txView: "tx_inv s \<Longrightarrow> txView s' = txView s \<Longrightarrow> tx_inv s'"
  by (simp add: txView_def tx_inv_def)

lemma streams_ok_set:
  "streams_ok q m \<Longrightarrow> length (chanBuf ch) \<le> chanCap ch \<Longrightarrow> chanCap ch \<le> max q 64 \<Longrightarrow>
   streams_ok q (gm_set m i ch)"
  by (auto simp: streams_ok_def gm_get_set)

lemma rx_inv_streamWithSize:
  assumes "rx_inv q s" "n \<le> max q 64" "streamWithSize i n s = (ch, s')"
  shows "rx_inv q s' \<and> length (chanBuf ch) \<le> chanCap ch \<and> chanCap ch \<le> max q 64"
proof (cases "gm_get (sStreams s) i")
  case None
  then show ?thesis using assms by (auto simp: streamWithSize_def Let_def rx_inv_def streams_ok_set)
next
  case (Some c)
  then show ?thesis using assms by (auto simp: streamWithSize_def rx_inv_def streams_ok_def)
qed

lemma rx_inv_deliver: "rx_inv q s \<Longrightarrow> rx_inv q (deliverPayload i q s p)"
  using rx_inv_streamWithSize [of q "s\<lparr>sStats := st\<rparr>" q i for st]
  by (fastforce simp: deliverPayload_def Let_def rx_inv_def intro: streams_ok_set split: prod.splits)

lemma rx_inv_RecvPacket: "rx_inv q s \<Longrightarrow> rx_inv q (snd (RecvPacket c s i))"
  using rx_inv_streamWithSize [of q s 64 i]
  by (fastforce simp: RecvPacket_def rx_inv_def defaultStreamQueue_def intro: streams_ok_set
      split: prod.splits recvCase.splits list.splits)

lemma SeenFirst_max: "dedupMax (snd (SeenFirst w k)) = dedupMax w"
  by (auto simp: SeenFirst_def recordSeen_def Let_def)

lemma rx_inv_acceptSource: "rx_inv q s \<Longrightarrow> rx_inv q (snd (acceptSource T s f))"
  by (auto simp: acceptSource_def Migrate_def rx_inv_def split: option.splits)

lemma rx_inv_updates:
  assumes "rx_inv q s"
  shows "rx_inv q (s\<lparr>sDedup := snd (SeenFirst (sDedup s) k)\<rparr>)"
    "rs_keeps R \<Longrightarrow> rx_inv q (s\<lparr>sFecRx := snd (AddPacket R now (sFecRx s) p)\<rparr>)"
    "rx_inv q (s\<lparr>sObserved := l\<rparr>)" "rx_inv q (s\<lparr>sStats := st\<rparr>)"
    "rx_inv q (observeFECDelivery d r s)" "rx_inv q (terminate e s)" "rx_inv q (snd (Migrate b s a))"
    "rx_inv q (snd (replayHandshakeAck now ok s w f))"
  using assms
  by (auto simp: rx_inv_def SeenFirst_max dedup_inv_SeenFirst fec_inv_AddPacket observeFECDelivery_def
      terminate_def Migrate_def replayHandshakeAck_def Let_def split: option.splits prod.splits)

lemma rx_inv_readPacket:
  assumes "rs_keeps R" "rx_inv q s"
  shows "rx_inv q (readPacket R T now q s p f)"
  using assms(2)
  by (rule readPacket_keeps) (auto intro: rx_inv_updates assms(1) rx_inv_acceptSource rx_inv_deliver)

lemma rx_inv_readStep:
  assumes "rs_keeps R" "rx_inv q s"
  shows "rx_inv q (snd (readStep A R T now ok q s w f))"
  using rx_inv_updates(8) [OF assms(2), of now ok w f] rx_inv_readPacket [OF assms(1)]
  by (auto simp: readStep_def intro: rx_inv_updates(4) split: prod.splits option.splits sum.splits)

lemma rx_inv_step:
  assumes "rs_keeps R" "rx_inv q s"
  shows "rx_inv q (sessionStep A R q s ev)"
proof (cases ev)
  case (EvDatagram T now ok w f err)
  then show ?thesis using rx_inv_readStep [OF assms, of A T now ok w f]
    by (cases "readStep A R T now ok q s w f"; cases "fst (readStep A R T now ok q s w f)")
      (auto intro: rx_inv_updates)
next
  case (EvSend io now i p)
  then show ?thesis using rx_inv_rxView [OF SendPacket_frame(2)] assms(2) by simp
next
  case (EvFlush io now)
  then show ?thesis using rx_inv_rxView [OF fecFlushTick_frame(2)] assms(2) by simp
qed (use assms(2) in \<open>simp_all add: rx_inv_updates rx_inv_RecvPacket\<close>)

lemma tx_inv_set: "tx_inv s \<Longrightarrow> length (payloads g) \<le> 32 \<Longrightarrow> tx_inv (s\<lparr>sFecTx := gm_set (sFecTx s) i g\<rparr>)"
  by (auto simp: tx_inv_def gm_get_set)

lemma tx_inv_del: "tx_inv s \<Longrightarrow> tx_inv (s\<lparr>sFecTx := gm_del (sFecTx s) i\<rparr>)"
  by (auto simp: tx_inv_def gm_get_del split: if_splits)

lemma tx_inv_open:
  assumes "tx_inv s" "openSendGroup now i d s = (g, s')" "1 \<le> d" "d \<le> 32"
  shows "tx_inv s' \<and> length (payloads g) < 32"
  using assms by (auto simp: openSendGroup_def Let_def tx_inv_def gm_get_set split: option.splits if_splits)

lemma tx_inv_next: "tx_inv s \<Longrightarrow> tx_inv (snd (nextFECShards R now s i p))"
proof (cases "validateFECParams (optDataShards (sFec s)) (optParityShards (sFec s))")
  case None
  assume i: "tx_inv s"
  obtain g s' where o: "openSendGroup now i (optDataShards (sFec s)) s = (g, s')" by fastforce
  let ?g = "g\<lparr>payloads := payloads g @ [p]\<rparr>"
  have "tx_inv s'" "length (payloads ?g) \<le> 32"
    using tx_inv_open [OF i o] None by (auto simp: validateFECParams_None)
  then have "tx_inv (s'\<lparr>sFecTx := gm_set (sFecTx s') i ?g\<rparr>)" by (rule tx_inv_set)
  then show ?thesis using i None o tx_inv_del [of "s'\<lparr>sFecTx := gm_set (sFecTx s') i ?g\<rparr>" i]
    by (auto simp: nextFECShards_def Let_def split: sum.splits)
qed (simp add: nextFECShards_def)

lemma tx_inv_expired: "tx_inv s \<Longrightarrow> tx_inv (snd (expiredFECRepairBatches R now s))"
proof -
  assume i: "tx_inv s"
  have "gm_ok kept \<and> (\<forall>j g. (j, g) \<in> set kept \<longrightarrow> length (payloads g) \<le> 32)"
    if "collectBatches R now (sFec s) (sFecTx s) = (b, kept)" for b kept
    using collectBatches_kept [OF that] i by (metis gm_in_set subsetD tx_inv_def)
  then show ?thesis using i
    by (auto simp: expiredFECRepairBatches_def tx_inv_def gm_in_set [symmetric] split: prod.splits)
qed

lemma tx_inv_wire: "tx_inv s \<Longrightarrow> tx_inv (snd (sendWirePayload A out s i p cf n))"
  by (simp add: tx_inv_def)

lemma tx_inv_step: assumes "tx_inv s" shows "tx_inv (sessionStep A R q s ev)"
proof (cases ev)
  case (EvSend io now i p)
  then show ?thesis using SendPacket_keeps [where P = tx_inv] assms tx_inv_wire tx_inv_next by simp
next
  case (EvFlush io now)
  then show ?thesis using fecFlushTick_keeps [where P = tx_inv] assms tx_inv_wire tx_inv_expired by simp
next
  case (EvDatagram T now ok w f err)
  then show ?thesis using readStep_frame(2) [of A R T now ok q s w f] assms
    by (cases "readStep A R T now ok q s w f"; cases "fst (readStep A R T now ok q s w f)")
      (auto intro: tx_inv_txView)
qed (use tx_inv_txView [OF assms] in simp_all)

definition mem_inv :: "nat \<Rightarrow> DatagramSession \<Rightarrow> bool" where
  "mem_inv q s \<longleftrightarrow> rx_inv q s \<and> tx_inv s"

interpretation session_memory: invariant_machine "sessionStep A R q" "\<lambda>s. rs_keeps R \<and> mem_inv q s" for A R q
  by unfold_locales (simp add: mem_inv_def rx_inv_step tx_inv_step)

lemma mem_inv_new: "NewDatagramSession opts = Inr (s, q) \<Longrightarrow> mem_inv q s"
  using dedup_inv_new [of defaultDedupWindow] fec_inv_New
  by (auto simp: NewDatagramSession_def mem_inv_def rx_inv_def tx_inv_def streams_ok_def gm_get_set
      newPacketDedupWindow_def Let_def defaultDedupWindow_def
      split: option.splits sum.splits if_splits)

text \<open>
  A session's memory is bounded whatever a peer and the caller do. In any run: at most 65536
  streams exist and each queues no more payloads than its capacity, which is the configured queue
  size or 64; the FEC buffer has at most 64 pending groups that hold at most 64 groups of 48
  shards of 1380 bytes; the replay table has at most 4096 entries; and at most 65536 send groups
  are open, each with at most 32 payloads.
\<close>

theorem session_memory_bounded:
  assumes "rs_keeps R" and "NewDatagramSession opts = Inr (s0, q)"
    and "s = run (sessionStep A R q) s0 es"
  shows "length (sStreams s) \<le> 65536 \<and>
    (\<forall>i ch. gm_get (sStreams s) i = Some ch \<longrightarrow> length (chanBuf ch) \<le> max q 64) \<and>
    PendingGroups (sFecRx s) \<le> 64 \<and> heldBytes (sFecRx s) \<le> 64 * (48 * 1380) \<and>
    length (seen (sDedup s)) \<le> 4096 \<and> length (sFecTx s) \<le> 65536 \<and>
    (\<forall>i g. gm_get (sFecTx s) i = Some g \<longrightarrow> length (payloads g) \<le> 32)"
proof -
  have "rs_keeps R \<and> mem_inv q s"
    unfolding assms(3) by (rule session_memory.invar_run) (use assms mem_inv_new in blast)
  then have i: "streams_ok q (sStreams s)" "fec_inv (sFecRx s)" "dedup_inv (sDedup s)"
      "dedupMax (sDedup s) = 4096" "tx_inv s"
    by (auto simp: mem_inv_def rx_inv_def)
  have "PendingGroups (sFecRx s) \<le> 64"
    using i(2) by (auto simp: PendingGroups_def fec_inv_def pending_inv_def fec_limits)
  moreover have "length (seen (sDedup s)) \<le> 4096"
    using dedup_window.invar_bound [OF i(3)] i(4) by simp
  ultimately show ?thesis
    using i heldBytes_bound [OF i(2)] gm_len_u16 [of "sStreams s"] gm_len_u16 [of "sFecTx s"]
    by (auto simp: streams_ok_def tx_inv_def intro: le_trans)
qed

theorem session_memory_bounded_witness:
  "length (sStreams (run (sessionStep demo_aead xor_rs 64) (demo_session no_fec)
     [EvRecv RecvPayload 9, EvDatagram demo_transport 5 True demo_wire (Some demo_remote) None])) \<le> 65536"
  by (rule session_memory_bounded [OF xor_rs_keeps demo_session_new [OF demo_no_fec] refl, THEN conjunct1])


section \<open>FEC parameters\<close>

text \<open>The parameters in use stay valid and the controller stays a controller of this session.\<close>

definition fec_params_ok :: "int \<Rightarrow> DatagramSession \<Rightarrow> bool" where
  "fec_params_ok d s \<longleftrightarrow> optDataShards (sFec s) = d \<and>
     validateFECParams d (optParityShards (sFec s)) = None \<and>
     (\<forall>c. sFecAdapt s = Some c \<longrightarrow> wf_adapt c \<and> adaptMaxParity c \<le> 16)"

lemma fec_params_observe: "fec_params_ok d s \<Longrightarrow> fec_params_ok d (observeFECDelivery n r s)"
proof (cases "sFecAdapt s")
  case (Some c)
  assume i: "fec_params_ok d s"
  then have c: "wf_adapt c" "adaptMaxParity c \<le> 16" using Some by (auto simp: fec_params_ok_def)
  obtain parity loss upd c' where o: "Observe c (int n) (int r) = ((parity, loss, upd), c')"
    by (metis prod.exhaust)
  have "wf_adapt c'" "adaptMaxParity c' \<le> 16"
    using wf_Observe [OF c(1), of "int n" "int r"] Observe_keeps(1) [of c "int n" "int r"] c(2)
    by (simp_all add: o)
  moreover have "upd \<Longrightarrow> 1 \<le> parity \<and> parity \<le> 16"
    using Observe_parity_range [OF c(1), of "int n" "int r" parity loss] c(2) o by simp
  ultimately show ?thesis
    using i Some o by (auto simp: observeFECDelivery_def fec_params_ok_def validateFECParams_None Let_def)
qed (simp add: observeFECDelivery_def)

lemma fec_params_rxView: "rxView s' = rxView s \<Longrightarrow> fec_params_ok d s \<Longrightarrow> fec_params_ok d s'"
  by (simp add: rxView_def fec_params_ok_def)

lemma fec_params_other:
  assumes "fec_params_ok d s"
  shows "fec_params_ok d (snd (acceptSource T s f))" "fec_params_ok d (deliverPayload i q s p)"
    "fec_params_ok d (terminate e s)" "fec_params_ok d (snd (Migrate b s a))"
    "fec_params_ok d (snd (RecvPacket c s i))" "fec_params_ok d (snd (replayHandshakeAck now ok s w f))"
    "fec_params_ok d (s\<lparr>sStats := st\<rparr>)"
  using assms
  by (auto simp: fec_params_ok_def acceptSource_def deliverPayload_def streamWithSize_def terminate_def
      Migrate_def RecvPacket_def replayHandshakeAck_def Let_def
      split: option.splits prod.splits recvCase.splits list.splits)

lemma fec_params_readPacket: "fec_params_ok d s \<Longrightarrow> fec_params_ok d (readPacket R T now q s p f)"
  by (rule readPacket_keeps [where P = "fec_params_ok d"])
    (auto intro: fec_params_observe fec_params_other, auto simp: fec_params_ok_def)

lemma fec_params_step: assumes "fec_params_ok d s" shows "fec_params_ok d (sessionStep A R q s ev)"
proof (cases ev)
  case (EvDatagram T now ok w f err)
  have "fec_params_ok d (snd (readStep A R T now ok q s w f))"
    using fec_params_other(6) [OF assms, of now ok w f]
    by (auto simp: readStep_def intro: fec_params_readPacket fec_params_other(7)
        split: prod.splits option.splits sum.splits)
  then show ?thesis using EvDatagram
    by (cases "readStep A R T now ok q s w f"; cases "fst (readStep A R T now ok q s w f)")
      (auto intro: fec_params_other)
next
  case (EvSend io now i p)
  have "fec_params_ok d (snd (SendPacket A R io now s i p))"
    by (rule fec_params_rxView [OF SendPacket_frame(2) assms])
  then show ?thesis by (simp add: EvSend)
next
  case (EvFlush io now)
  have "fec_params_ok d (fecFlushTick A R io now s)"
    by (rule fec_params_rxView [OF fecFlushTick_frame(2) assms])
  then show ?thesis by (simp add: EvFlush)
qed (use assms in \<open>simp_all add: fec_params_other\<close>)

interpretation session_fec_params: invariant_machine "sessionStep A R q" "fec_params_ok d" for A R q d
  by unfold_locales (rule fec_params_step)

lemma fec_params_new:
  assumes "NewDatagramSession opts = Inr (s, q)" "FECOptions_enabled (optFEC opts)"
  shows "fec_params_ok (optDataShards (optFEC opts)) s"
proof -
  let ?d = "optDataShards (optFEC opts)"
  have v: "validateFECOptions (optFEC opts) = None" and f: "sFec s = optFEC opts"
    and a: "sFecAdapt s = (if Dynamic (optFEC opts) then Some (NewFECAdaptiveController ?d
      (if ?d > MaxFECParityShards then MaxFECParityShards else ?d) (AdaptWindow (optFEC opts))) else None)"
    using assms by (auto simp: NewDatagramSession_def Let_def split: option.splits sum.splits if_splits)
  have "validateFECParams ?d (optParityShards (optFEC opts)) = None"
    using v assms(2) by (auto simp: validateFECOptions_def FECOptions_enabled_def split: if_splits)
  moreover have "adaptMaxParity (NewFECAdaptiveController d (if d > MaxFECParityShards
      then MaxFECParityShards else d) w) \<le> 16" if "1 \<le> d" for d w
    using that by (auto simp: NewFECAdaptiveController_def Let_def fec_limits)
  ultimately show ?thesis using f a wf_NewFECAdaptiveController
    by (auto simp: fec_params_ok_def validateFECParams_None)
qed

text \<open>
  Adaptive parity stays within the code's limits. In a session whose FEC is enabled, in any
  run and whatever loss is observed, FEC stays enabled, the number of data shards stays the
  configured one and the parity in use stays between 1 and 16: the parameter test in front of
  every send never fails.
\<close>

theorem adaptive_parity_valid:
  assumes "NewDatagramSession opts = Inr (s0, q)" and "FECOptions_enabled (optFEC opts)"
    and "s = run (sessionStep A R q) s0 es"
  shows "FECOptions_enabled (sFec s) \<and> optDataShards (sFec s) = optDataShards (optFEC opts) \<and>
    validateFECParams (optDataShards (sFec s)) (optParityShards (sFec s)) = None \<and>
    1 \<le> optParityShards (sFec s) \<and> optParityShards (sFec s) \<le> 16"
proof -
  have "fec_params_ok (optDataShards (optFEC opts)) s"
    unfolding assms(3) by (rule session_fec_params.invar_run) (rule fec_params_new [OF assms(1,2)])
  then show ?thesis by (auto simp: fec_params_ok_def FECOptions_enabled_def validateFECParams_None)
qed

definition demo_fec :: FECOptions where
  "demo_fec = \<lparr>optDataShards = 2, optParityShards = 1, MaxReceiveGroups = 0, GroupTimeout = 0,
     Dynamic = True, AdaptWindow = 1\<rparr>"

lemma demo_fec_ok: "validateFECOptions demo_fec = None"
  by code_simp

theorem adaptive_parity_valid_witness:
  "optParityShards (sFec (run (sessionStep demo_aead xor_rs 64) (demo_session demo_fec)
     [EvSend (\<lambda>_. Written) 0 0 [1]])) \<le> 16"
proof -
  have "FECOptions_enabled (optFEC (demo_options demo_fec))" by code_simp
  from adaptive_parity_valid [OF demo_session_new [OF demo_fec_ok] this refl] show ?thesis by blast
qed

end
