(* ===== verification/Session_Delivery.thy ===== *)
theory Session_Delivery
  imports Session_Bounds
begin

text \<open>
  From one session to the other: a payload sent without FEC arrives in the peer's queue, a send
  group carries the Reed-Solomon encoding of its payloads, and two ways in which the sending side
  loses payloads it should not lose.
\<close>

section \<open>From sender to receiver\<close>

lemma NewDataHeader_ok:
  assumes "length p \<le> 1380" "length i = 16"
  obtains h where "NewDataHeader i st no (int (length p)) = Inr h" "wf_inner h" "Magic h = TGP_Magic"
    "SessionID h = i" "StreamID h = st" "PacketNumber h = no" "FECTotal h = 0" "FECDataShards h = 0"
  using assms by (auto simp: NewDataHeader_def wf_inner_def)

text \<open>One wire payload as it leaves the sender and as the receiver opens it.\<close>

lemma sendWirePayload_opens:
  assumes A: "aead_laws A" and c: "wf_codec (sSendCodec s)" and i: "length (sId s) = 16"
    and no: "sPacketNo s + 1 \<le> maxDTLSSequence"
    and fits: "int (length p + 72) \<le> maxDatagramSize (sSendCodec s)"
  obtains wire outer h where
    "sendWirePayload A Written s st p (\<lambda>h. h) n =
       (None, s\<lparr>sPacketNo := sPacketNo s + 1, sSent := sSent s @ [(wire, sRemote s)],
          sStats := (if n > 0 then (sStats s)\<lparr>bytesSent := bytesSent (sStats s) + n\<rparr> else sStats s)\<rparr>)"
    "\<forall>t. Open A (Some (sSendCodec s)) t wire = Inr \<lparr>Outer = outer, Inner = sealedInner h p,
       Payload = p, ReceivedAt = t, SourceAddr = None\<rparr>"
    "SessionID h = sId s" "StreamID h = st" "PacketNumber h = sPacketNo s + 1"
    "FECTotal h = 0" "FECDataShards h = 0"
proof -
  have lp: "length p \<le> 1380" using fits c by (simp add: wf_codec_def tgp_sizes)
  obtain h where h: "NewDataHeader (sId s) st (sPacketNo s + 1) (int (length p)) = Inr h" "wf_inner h"
      "Magic h = TGP_Magic" "SessionID h = sId s" "StreamID h = st" "PacketNumber h = sPacketNo s + 1"
      "FECTotal h = 0" "FECDataShards h = 0"
    using NewDataHeader_ok [OF lp i] by metis
  obtain wire where w: "Seal A (Some (sSendCodec s)) (sPacketNo s + 1) h p = Inr wire"
    using Seal_defined_iff [OF c h(2), of A "sPacketNo s + 1" p] fits no by auto
  obtain outer where o: "NewOuterHeader (sPacketNo s + 1) (int (length p + 59)) = Inr outer"
    using Open_sealed [OF A c h(2,3) w] by blast
  then have "\<forall>t. Open A (Some (sSendCodec s)) t wire = Inr \<lparr>Outer = outer, Inner = sealedInner h p,
       Payload = p, ReceivedAt = t, SourceAddr = None\<rparr>"
    using Open_sealed [OF A c h(2,3) w] by fastforce
  moreover have "sendWirePayload A Written s st p (\<lambda>h. h) n =
       (None, s\<lparr>sPacketNo := sPacketNo s + 1, sSent := sSent s @ [(wire, sRemote s)],
          sStats := (if n > 0 then (sStats s)\<lparr>bytesSent := bytesSent (sStats s) + n\<rparr> else sStats s)\<rparr>)"
    using h(1) w by (simp add: sendWirePayload_def Let_def)
  ultimately show thesis using that h(4-) by blast
qed

lemma observeFECDelivery_streams [simp]: "sStreams (observeFECDelivery d r s) = sStreams s"
  by (auto simp: observeFECDelivery_def Let_def split: option.splits prod.splits)

lemma plain_packet_delivered:
  assumes p: "SessionID (Inner p) = sId s" "FECTotal (Inner p) = 0" "length (Payload p) \<le> 1380"
    and s: "sState s \<noteq> SessionClosed" "dedup_inv (sDedup s)"
      "dedup_fresh (sDedup s) (PacketNumber (Inner p))"
    and ch: "gm_get (sStreams s) (StreamID (Inner p)) = Some ch" "length (chanBuf ch) < chanCap ch"
  shows "gm_get (sStreams (readPacket R T now q s p (Some (sRemote s)))) (StreamID (Inner p)) =
    Some (ch\<lparr>chanBuf := chanBuf ch @ [Payload p]\<rparr>)"
proof -
  have first: "fst (SeenFirst (sDedup s) (PacketNumber (Inner p)))"
    using dedup.accept_fresh [OF s(2)] s(3) by blast
  have add: "AddPacket R now b (p\<lparr>SourceAddr := f\<rparr>) =
      (Inr \<lparr>Payloads = [Payload p], Ready = True, RecoveredShards = 0\<rparr>, b)" for b f
    using p by (simp add: AddPacket_def maxTGPDataPayloadSize_eq)
  obtain w where w: "SeenFirst (sDedup s) (PacketNumber (Inner p)) = (True, w)"
    using first by (metis prod.collapse)
  show ?thesis
    using w p(1) s ch
    by (simp add: readPacket_def sourceEligibleForReplay_def acceptSource_def sameAddr_iff add
        deliverPayload_def streamWithSize_def Let_def split: prod.splits)
qed

text \<open>
  End to end without FEC. A sender whose session is open and has packet numbers left sends a
  payload that fits its datagram limit; the datagram reaches a receiver with the matching key and
  session id, from the receiver's remote, and the receiver has not seen the number and has room on
  the stream. Then the send succeeds with exactly one datagram, addressed to the sender's remote,
  and after the read the payload is at the end of the receiver's queue of that stream, unchanged.
\<close>

theorem plain_send_is_delivered:
  assumes "aead_laws A" and "wf_codec (sSendCodec a)" and "length (sId a) = 16"
    and "sState a \<noteq> SessionClosed" and "\<not> FECOptions_enabled (sFec a)"
    and "sPacketNo a + 1 \<le> maxDTLSSequence"
    and "int (length payload + 72) \<le> maxDatagramSize (sSendCodec a)"
    and "sRecvCodec b = sSendCodec a" and "sId b = sId a" and "sState b \<noteq> SessionClosed"
    and "sHandshakeReplay b = None"
    and "dedup_inv (sDedup b)" and "dedup_fresh (sDedup b) (sPacketNo a + 1)"
    and "gm_get (sStreams b) i = Some ch" and "length (chanBuf ch) < chanCap ch"
  shows "\<exists>wire. fst (SendPacket A R (\<lambda>_. Written) now a i payload) = None \<and>
    sSent (snd (SendPacket A R (\<lambda>_. Written) now a i payload)) = sSent a @ [(wire, sRemote a)] \<and>
    gm_get (sStreams (snd (readStep A R T now' ok q b wire (Some (sRemote b))))) i =
      Some (ch\<lparr>chanBuf := chanBuf ch @ [payload]\<rparr>)"
proof -
  obtain wire outer h where w: "sendWirePayload A Written a i payload (\<lambda>h. h) (of_nat (length payload)) =
       (None, a\<lparr>sPacketNo := sPacketNo a + 1, sSent := sSent a @ [(wire, sRemote a)],
          sStats := (if (of_nat (length payload) :: u64) > 0
            then (sStats a)\<lparr>bytesSent := bytesSent (sStats a) + of_nat (length payload)\<rparr> else sStats a)\<rparr>)"
    and op: "\<forall>t. Open A (Some (sSendCodec a)) t wire = Inr \<lparr>Outer = outer, Inner = sealedInner h payload,
       Payload = payload, ReceivedAt = t, SourceAddr = None\<rparr>"
    and h: "SessionID h = sId a" "StreamID h = i" "PacketNumber h = sPacketNo a + 1"
      "FECTotal h = 0" "FECDataShards h = 0"
    by (rule sendWirePayload_opens [OF assms(1,2,3,6,7), where st = i and n = "of_nat (length payload)"])
  let ?p = "\<lparr>Outer = outer, Inner = sealedInner h payload, Payload = payload, ReceivedAt = now',
    SourceAddr = None\<rparr>"
  have si: "SessionID (sealedInner h payload) = sId a" "StreamID (sealedInner h payload) = i"
      "PacketNumber (sealedInner h payload) = sPacketNo a + 1" "FECTotal (sealedInner h payload) = 0"
    using h by (simp_all add: sealedInner_def)
  have lp: "length payload \<le> 1380" using assms(2,7) by (simp add: wf_codec_def tgp_sizes)
  have "gm_get (sStreams (readPacket R T now' q b ?p (Some (sRemote b)))) (StreamID (Inner ?p)) =
      Some (ch\<lparr>chanBuf := chanBuf ch @ [Payload ?p]\<rparr>)"
    by (rule plain_packet_delivered) (use assms si lp in simp_all)
  then show ?thesis
    using w assms(4,5,8,11) op si by (auto simp: SendPacket_def readStep_def replayHandshakeAck_def)
qed

theorem plain_send_is_delivered_witness:
  "\<exists>wire. fst (SendPacket demo_aead xor_rs (\<lambda>_. Written) 0 (demo_session no_fec) 0 [1, 2]) = None \<and>
    gm_get (sStreams (snd (readStep demo_aead xor_rs demo_transport 3 True 64 (demo_session no_fec)
      wire (Some (sRemote (demo_session no_fec)))))) 0 = Some \<lparr>chanCap = 64, chanBuf = [[1, 2]]\<rparr>"
proof -
  let ?s = "demo_session no_fec"
  have "dedup_inv (sDedup ?s)" "dedup_fresh (sDedup ?s) (sPacketNo ?s + 1)"
    by (simp_all add: demo_session_def dedup_inv_def dedup_fresh_def)
  moreover have "\<not> FECOptions_enabled (sFec ?s)" by code_simp
  moreover have "sPacketNo ?s + 1 \<le> maxDTLSSequence" "length (sId ?s) = 16"
      "gm_get (sStreams ?s) 0 = Some \<lparr>chanCap = 64, chanBuf = []\<rparr>" "sSendCodec ?s = demo_codec"
    by (simp_all add: demo_session_def maxDTLSSequence_eq)
  ultimately show ?thesis
    using plain_send_is_delivered [OF demo_aead_laws, of ?s "[1, 2]" ?s 0 "\<lparr>chanCap = 64, chanBuf = []\<rparr>"
        xor_rs 0 demo_transport 3 True 64] demo_codec_wf
    by (auto simp: demo_session_facts demo_codec_def)
qed

section \<open>Send groups\<close>

text \<open>Offering payloads one after the other on a stream: the answers and the final session.\<close>

fun shardAll :: "rs \<Rightarrow> gotime \<Rightarrow> DatagramSession \<Rightarrow> StreamID \<Rightarrow> bytes list \<Rightarrow>
    (tgp_error + nextShards) list \<times> DatagramSession" where
  "shardAll R now s i [] = ([], s)"
| "shardAll R now s i (p # ps) =
     (case nextFECShards R now s i p of
        (r, s) \<Rightarrow> (case shardAll R now s i ps of (rs, s) \<Rightarrow> (r # rs, s)))"

text \<open>The data shard number \<open>k\<close> of group \<open>g\<close>, with the given parity shards.\<close>

definition dataShard :: "u32 \<Rightarrow> int \<Rightarrow> int \<Rightarrow> nat \<Rightarrow> bytes \<Rightarrow> bytes list \<Rightarrow> nextShards" where
  "dataShard g d par k p parity = \<lparr>nsData = put_u16 (of_nat (length p)) @ p, nsParity = parity,
     nsGroup = g, nsIndex = k, nsTotal = d + par, nsDataShards = d\<rparr>"

lemma frame_self:
  "length p \<le> 1378 \<Longrightarrow> frameFECData p (length p + fecLengthPrefixSize) = Inr (put_u16 (of_nat (length p)) @ p)"
  by (simp add: frameFECData_def maxTGPDataPayloadSize_eq fecLengthPrefixSize_def zeros_def)

lemma next_in_group:
  assumes v: "validateFECParams d par = None" "optDataShards (sFec s) = d" "optParityShards (sFec s) = par"
    and g: "gm_get (sFecTx s) i = Some g" "int (length (payloads g)) < d" and p: "length p \<le> 1378"
  shows "int (Suc (length (payloads g))) < d \<Longrightarrow>
      nextFECShards R now s i p = (Inr (dataShard (groupId g) d par (length (payloads g)) p []),
        s\<lparr>sFecTx := gm_set (sFecTx s) i (g\<lparr>payloads := payloads g @ [p]\<rparr>)\<rparr>)"
    and "int (Suc (length (payloads g))) = d \<Longrightarrow> FEC_Encode R (payloads g @ [p]) d par = Inr full \<Longrightarrow>
      nextFECShards R now s i p =
        (Inr (dataShard (groupId g) d par (length (payloads g)) p (drop (nat d) full)),
         s\<lparr>sFecTx := gm_del (gm_set (sFecTx s) i (g\<lparr>payloads := payloads g @ [p]\<rparr>)) i\<rparr>)"
proof -
  have o: "openSendGroup now i d s = (g, s)" using g by (simp add: openSendGroup_def Let_def)
  have r: "\<not> 0xff < d + par" using v(1) by (simp add: validateFECParams_None)
  note unf = nextFECShards_def v o r frame_self [OF p] dataShard_def Let_def
  show "nextFECShards R now s i p = (Inr (dataShard (groupId g) d par (length (payloads g)) p []),
        s\<lparr>sFecTx := gm_set (sFecTx s) i (g\<lparr>payloads := payloads g @ [p]\<rparr>)\<rparr>)"
    if "int (Suc (length (payloads g))) < d"
    using that by (simp add: unf)
  show "nextFECShards R now s i p =
        (Inr (dataShard (groupId g) d par (length (payloads g)) p (drop (nat d) full)),
         s\<lparr>sFecTx := gm_del (gm_set (sFecTx s) i (g\<lparr>payloads := payloads g @ [p]\<rparr>)) i\<rparr>)"
    if "int (Suc (length (payloads g))) = d" "FEC_Encode R (payloads g @ [p]) d par = Inr full"
    using that by (simp add: unf)
qed

text \<open>The rest of a group: the remaining payloads get the following indices.\<close>

lemma shardAll_group:
  assumes v: "validateFECParams d par = None"
  shows "optDataShards (sFec s) = d \<Longrightarrow> optParityShards (sFec s) = par \<Longrightarrow>
    gm_get (sFecTx s) i = Some g \<Longrightarrow> ps \<noteq> [] \<Longrightarrow> \<forall>p\<in>set ps. length p \<le> 1378 \<Longrightarrow>
    int (length (payloads g @ ps)) = d \<Longrightarrow> FEC_Encode R (payloads g @ ps) d par = Inr full \<Longrightarrow>
    fst (shardAll R now s i ps) =
      map (\<lambda>(k, p). Inr (dataShard (groupId g) d par k p
        (if int (Suc k) = d then drop (nat d) full else []))) (enumerate (length (payloads g)) ps) \<and>
    gm_get (sFecTx (snd (shardAll R now s i ps))) i = None"
proof (induction ps arbitrary: s g)
  case (Cons p ps)
  have lt: "int (length (payloads g)) < d" and lp: "length p \<le> 1378"
    using Cons.prems by auto
  note nx = next_in_group [OF v Cons.prems(1,2,3) lt lp, of R]
  show ?case
  proof (cases "ps = []")
    case True
    then show ?thesis using nx(2) Cons.prems by simp
  next
    case False
    let ?g = "g\<lparr>payloads := payloads g @ [p]\<rparr>"
    let ?s = "s\<lparr>sFecTx := gm_set (sFecTx s) i ?g\<rparr>"
    have more: "int (Suc (length (payloads g))) < d" using Cons.prems(6) False by (cases ps) auto
    have "fst (shardAll R now ?s i ps) =
      map (\<lambda>(k, p). Inr (dataShard (groupId ?g) d par k p
        (if int (Suc k) = d then drop (nat d) full else []))) (enumerate (length (payloads ?g)) ps) \<and>
      gm_get (sFecTx (snd (shardAll R now ?s i ps))) i = None"
      using Cons.prems False by (intro Cons.IH) auto
    then show ?thesis using nx(1) [OF more] more by (auto split: prod.splits)
  qed
qed simp

lemma first_of_group:
  assumes v: "validateFECParams d par = None" "optDataShards (sFec s) = d" "optParityShards (sFec s) = par"
    and g: "gm_get (sFecTx s) i = None"
  shows "nextFECShards R now s i p = nextFECShards R now
    (s\<lparr>sFecGroup := sFecGroup s + 1, sFecTx := gm_set (sFecTx s) i
       \<lparr>groupId = sFecGroup s + 1, createdAt = now, payloads = []\<rparr>\<rparr>) i p"
proof -
  let ?s = "s\<lparr>sFecGroup := sFecGroup s + 1, sFecTx := gm_set (sFecTx s) i
       \<lparr>groupId = sFecGroup s + 1, createdAt = now, payloads = []\<rparr>\<rparr>"
  have "\<not> d \<le> 0" using v(1) by (simp add: validateFECParams_None)
  then have "openSendGroup now i d s = openSendGroup now i d ?s"
    using g by (simp add: openSendGroup_def Let_def)
  moreover have "\<not> 0xff < d + par" using v(1) by (simp add: validateFECParams_None)
  ultimately show ?thesis using v by (simp add: nextFECShards_def)
qed

text \<open>
  A send group carries exactly the code of its payloads. Offering as many payloads as there
  are data shards on a stream with no open group, none longer than 1378 bytes: every payload is
  framed as the data shard with the next index of one new group, only the last one brings parity
  shards, these are the parity part of the Reed-Solomon encoding of all the payloads in order, and
  the group is closed.
\<close>

theorem send_group_is_encoding:
  assumes "validateFECParams (optDataShards (sFec s)) (optParityShards (sFec s)) = None"
    and "gm_get (sFecTx s) i = None" and "int (length ps) = optDataShards (sFec s)"
    and "\<forall>p\<in>set ps. length p \<le> 1378"
    and "FEC_Encode R ps (optDataShards (sFec s)) (optParityShards (sFec s)) = Inr full"
  shows "fst (shardAll R now s i ps) =
      map (\<lambda>(k, p). Inr \<lparr>nsData = put_u16 (of_nat (length p)) @ p,
          nsParity = (if Suc k = length ps then drop (length ps) full else []),
          nsGroup = sFecGroup s + 1, nsIndex = k,
          nsTotal = optDataShards (sFec s) + optParityShards (sFec s),
          nsDataShards = optDataShards (sFec s)\<rparr>) (enumerate 0 ps) \<and>
    gm_get (sFecTx (snd (shardAll R now s i ps))) i = None"
proof -
  let ?g = "\<lparr>groupId = sFecGroup s + 1, createdAt = now, payloads = []\<rparr>"
  let ?s = "s\<lparr>sFecGroup := sFecGroup s + 1, sFecTx := gm_set (sFecTx s) i ?g\<rparr>"
  have ne: "ps \<noteq> []" using assms(1,3) by (auto simp: validateFECParams_None)
  then have "shardAll R now s i ps = shardAll R now ?s i ps"
    using first_of_group [OF assms(1) refl refl assms(2)] by (cases ps) simp_all
  moreover have "fst (shardAll R now ?s i ps) =
      map (\<lambda>(k, p). Inr (dataShard (groupId ?g) (optDataShards (sFec s)) (optParityShards (sFec s)) k p
        (if int (Suc k) = optDataShards (sFec s) then drop (nat (optDataShards (sFec s))) full else [])))
        (enumerate (length (payloads ?g)) ps) \<and>
      gm_get (sFecTx (snd (shardAll R now ?s i ps))) i = None"
    using assms ne by (intro shardAll_group) auto
  moreover have "nat (optDataShards (sFec s)) = length ps"
      "\<And>k. int (Suc k) = optDataShards (sFec s) \<longleftrightarrow> Suc k = length ps"
    using assms(3) by auto
  ultimately show ?thesis by (simp add: dataShard_def cong: if_cong)
qed


theorem send_group_is_encoding_witness:
  "fst (shardAll xor_rs 0 (demo_session demo_fec) 4 [[1, 2], [3]]) =
    [Inr \<lparr>nsData = [0, 2, 1, 2], nsParity = [], nsGroup = 1, nsIndex = 0, nsTotal = 3, nsDataShards = 2\<rparr>,
     Inr \<lparr>nsData = [0, 1, 3], nsParity = [[0, 3, 2, 2]], nsGroup = 1, nsIndex = 1, nsTotal = 3,
          nsDataShards = 2\<rparr>]"
proof -
  have f: "sFec (demo_session demo_fec) = demo_fec" "sFecTx (demo_session demo_fec) = []"
      "sFecGroup (demo_session demo_fec) = 0" "optDataShards demo_fec = 2" "optParityShards demo_fec = 1"
    by (simp_all add: demo_session_def demo_fec_def)
  have e: "FEC_Encode xor_rs [[1, 2], [3]] 2 1 = Inr [[0, 2, 1, 2], [0, 1, 3, 0], [0, 3, 2, 2]]"
    by code_simp
  have v: "validateFECParams 2 1 = None" by code_simp
  have b: "put_u16 2 = [0, 2]" "put_u16 1 = [0, 1]" by code_simp+
  show ?thesis
    using send_group_is_encoding [of "demo_session demo_fec" 4 "[[1, 2], [3]]" xor_rs, unfolded f, OF v]
    by (simp add: e b)
qed

section \<open>Two defects of the sending side\<close>

definition demo_fec3 :: FECOptions where
  "demo_fec3 = \<lparr>optDataShards = 3, optParityShards = 1, MaxReceiveGroups = 0, GroupTimeout = 0,
     Dynamic = True, AdaptWindow = 1\<rparr>"

lemma fecShardSize_big:
  "\<exists>x\<in>set xs. length x + 2 > 1380 \<Longrightarrow> fecShardSize n xs = Inl ErrFECShardTooLarge"
  by (induction xs arbitrary: n) (auto simp: maxTGPDataPayloadSize_eq fecLengthPrefixSize_def)

lemma FEC_Encode_big:
  assumes "\<exists>x\<in>set xs. length x + 2 > 1380" "validateFECParams d p = None" "int (length xs) \<le> d"
  shows "FEC_Encode R xs d p = Inl ErrFECShardTooLarge"
  using assms fecShardSize_big by (simp add: FEC_Encode_def)

text \<open>
  A refused payload takes a later one with it. With two data shards, a payload too large for a
  shard is refused, but it has already been appended to its group. The next payload on the stream,
  whatever its size, then completes the group, the encoding of the whole group fails, and the
  payload is refused as well without being sent.
\<close>

theorem oversized_payload_poisons_group:
  assumes "sState s \<noteq> SessionClosed" and "optDataShards (sFec s) = 2"
    and "validateFECParams 2 (optParityShards (sFec s)) = None"
    and "gm_get (sFecTx s) i = None" and "length big + 2 > 1380"
  shows "fst (SendPacket A R io now s i big) = Some ErrFECShardTooLarge \<and>
    fst (SendPacket A R io' now' (snd (SendPacket A R io now s i big)) i payload) =
      Some ErrFECShardTooLarge \<and>
    sSent (snd (SendPacket A R io' now' (snd (SendPacket A R io now s i big)) i payload)) = sSent s"
proof -
  let ?g = "\<lparr>groupId = sFecGroup s + 1, createdAt = now, payloads = [big]\<rparr>"
  let ?t = "s\<lparr>sFecGroup := sFecGroup s + 1, sFecTx := gm_set (gm_set (sFecTx s) i
    (?g\<lparr>payloads := []\<rparr>)) i ?g\<rparr>"
  have en: "FECOptions_enabled (sFec s)" "optParityShards (sFec s) \<le> 16"
    using assms(2,3) by (auto simp: FECOptions_enabled_def validateFECParams_None)
  have frame: "frameFECData big (length big + fecLengthPrefixSize) = Inl ErrFECShardTooLarge"
    using assms(5) by (simp add: frameFECData_def maxTGPDataPayloadSize_eq fecLengthPrefixSize_def)
  have first: "SendPacket A R io now s i big = (Some ErrFECShardTooLarge, ?t)"
    using assms(1-4) en frame
    by (simp add: SendPacket_def sendPacketWithFEC_def nextFECShards_def openSendGroup_def Let_def)
  have enc: "FEC_Encode R [big, payload] 2 (optParityShards (sFec s)) = Inl ErrFECShardTooLarge"
    using assms(3,5) by (intro FEC_Encode_big) auto
  have open2: "openSendGroup now' i 2 ?t = (?g, ?t)" by (simp add: openSendGroup_def Let_def)
  have fr2: "frameFECData payload (length payload + fecLengthPrefixSize) = Inl ErrFECShardTooLarge \<or>
      (\<exists>d. frameFECData payload (length payload + fecLengthPrefixSize) = Inr d)"
    by (auto simp: frameFECData_def)
  have "\<exists>u. SendPacket A R io' now' ?t i payload = (Some ErrFECShardTooLarge, u) \<and> sSent u = sSent s"
    using assms(1-3) en fr2 enc open2
    by (auto simp: SendPacket_def sendPacketWithFEC_def nextFECShards_def Let_def)
  then show ?thesis by (auto simp: first)
qed

theorem oversized_payload_poisons_group_witness:
  "fst (SendPacket demo_aead xor_rs (\<lambda>_. Written) 1 (snd (SendPacket demo_aead xor_rs (\<lambda>_. Written) 0
     (demo_session demo_fec) 0 (zeros 1400))) 0 [1]) = Some ErrFECShardTooLarge"
proof -
  have f: "sFec (demo_session demo_fec) = demo_fec" "sFecTx (demo_session demo_fec) = []"
      "sState (demo_session demo_fec) = SessionEstablished" "optDataShards demo_fec = 2"
      "optParityShards demo_fec = 1"
    by (simp_all add: demo_session_def demo_fec_def)
  have v: "validateFECParams 2 1 = None" by code_simp
  from oversized_payload_poisons_group [of "demo_session demo_fec" 0 "zeros 1400", unfolded f, OF _ _ v]
  show ?thesis by simp
qed

text \<open>
  A change of parity splits a group. With three data shards and adaptive parity, the first
  payload of a group goes out with total 4; the observed loss then raises the parity to 3, and the
  second payload of the same group goes out with total 6. A receiver that has the first shard
  refuses the second one for its inconsistent metadata: its payload is lost although it arrived.
\<close>

theorem parity_change_splits_group:
  "fst (nextFECShards xor_rs 0 (demo_session demo_fec3) 0 [1]) =
     Inr \<lparr>nsData = [0, 1, 1], nsParity = [], nsGroup = 1, nsIndex = 0, nsTotal = 4, nsDataShards = 3\<rparr> \<and>
   fst (nextFECShards xor_rs 0 (observeFECDelivery 1 1
       (snd (nextFECShards xor_rs 0 (demo_session demo_fec3) 0 [1]))) 0 [2]) =
     Inr \<lparr>nsData = [0, 1, 2], nsParity = [], nsGroup = 1, nsIndex = 1, nsTotal = 6, nsDataShards = 3\<rparr> \<and>
   fst (addAll xor_rs (NewFECReceiveBuffer 0)
       [(0, fecPacket 1 0 4 3 0x80 [0, 1, 1]), (1, fecPacket 1 1 6 3 0x80 [0, 1, 2])]) =
     [Inr \<lparr>Payloads = [[1]], Ready = True, RecoveredShards = 0\<rparr>, Inl ErrInvalidFECParams]"
  by (intro conjI; code_simp)

end
