(* ===== verification/Handshake_Props.thy ===== *)
theory Handshake_Props
  imports Handshake Session_Delivery
begin

text \<open>
  Correctness of the handshake: exact authentication of its messages, the dialler's bound, and that a
  completed handshake leaves two sessions that fit together.
\<close>

section \<open>Messages\<close>

text \<open>The fields a message may have on the wire.\<close>

definition wf_hs :: "SessionID \<Rightarrow> bytes \<Rightarrow> int \<Rightarrow> bytes \<Rightarrow> bool" where
  "wf_hs sid pub ms nonce \<longleftrightarrow> length sid = 16 \<and> length pub = 32 \<and> 0 < ms \<and> ms < 2 ^ 63 \<and>
     length nonce = 16 \<and> nonce \<noteq> zeros 16"

text \<open>The body of a message with the given fields and tag.\<close>

definition hsBody :: "byte \<Rightarrow> SessionID \<Rightarrow> bytes \<Rightarrow> int \<Rightarrow> int \<Rightarrow> bytes \<Rightarrow> bytes \<Rightarrow> bytes" where
  "hsBody ty sid pub mx ms nonce tag = handshakeMagic @ [ty] @ sid @ pub @ put_u16 (of_int mx) @
     put_u64 (of_int ms) @ nonce @ tag"

definition hsTag where
  "hsTag C auth ty sid pub mx ms nonce peer =
     (if auth \<noteq> [] then handshakeAuthTag C auth ty sid pub mx ms nonce peer else [])"

lemma length_hsTag:
  "crypto_laws C \<Longrightarrow> length (hsTag C auth ty sid pub mx ms nonce peer) = (if auth \<noteq> [] then 32 else 0)"
  using crypto_lengths by (simp add: hsTag_def handshakeAuthTag_def)

lemma sint_of_int_u64: "0 \<le> ms \<Longrightarrow> ms < 2 ^ 63 \<Longrightarrow> sint (of_int ms :: u64) = ms"
  by (simp add: signed_of_int signed_take_bit_int_eq_self)

lemma uint_of_int_u16: "0 \<le> n \<Longrightarrow> n < 65536 \<Longrightarrow> uint (of_int n :: u16) = n"
  by (simp add: unsigned_of_int take_bit_int_eq_self)

text \<open>Parsing a body behind any outer header that announces its length.\<close>

lemma parse_hsBody:
  assumes wf: "wf_hs sid pub ms nonce" and ty: "ty = handshakeHello \<or> ty = handshakeHelloAck"
    and mx: "0 \<le> mx" "mx < 65536" and tag: "length tag = 0 \<or> length tag = 32"
    and o: "wf_outer outer" "ContentType outer = 0x17" "VersionMajor outer = 0xfe" "VersionMinor outer = 0xff"
      "unat (Length outer) = length (hsBody ty sid pub mx ms nonce tag)"
  shows "parseHandshake (marshalOuterHeader outer @ hsBody ty sid pub mx ms nonce tag) =
    Inr \<lparr>hsType = ty, hsSession = sid, hsPublic = pub, hsMaxDatagram = mx, hsUnixMilli = ms,
         hsNonce = nonce, hsAuthTag = tag\<rparr>"
proof -
  let ?b = "hsBody ty sid pub mx ms nonce tag" and ?h = "marshalOuterHeader outer"
  have lh: "length ?h = 13" using o(1) by (simp add: outerHeaderSize_def)
  have lb: "length ?b = 79 + length tag" using wf by (simp add: hsBody_def wf_hs_def hs_consts)
  have b: "gslice 0 4 ?b = handshakeMagic" "?b ! 4 = ty" "gslice 5 21 ?b = sid" "gslice 21 53 ?b = pub"
      "gslice 53 55 ?b = put_u16 (of_int mx)" "gslice 55 63 ?b = put_u64 (of_int ms)"
      "gslice 63 79 ?b = nonce" "drop 79 ?b = tag"
    using wf by (simp_all add: hsBody_def wf_hs_def hs_consts gslice_def nth_append)
  have w: "gslice 0 13 (?h @ ?b) = ?h" "drop 13 (?h @ ?b) = ?b" using lh by (simp_all add: gslice_def)
  have po: "parseOuterHeader ?h = Inr outer" using o(1) by (rule parse_marshal_outer)
  have nums: "sint (of_int ms :: u64) = ms" "uint (of_int mx :: u16) = mx"
    using wf mx by (simp_all add: wf_hs_def sint_of_int_u64 uint_of_int_u16)
  show ?thesis
    using tag ty lb lh o b nums
    by (auto simp: parseHandshake_def Let_def outerHeaderSize_def handshakeBaseBodySize_def
        publicKeySize_def handshakeNonceSize_def handshakeAuthTagSize_def w po)
qed

lemma marshalHandshake_Inr:
  assumes "wf_hs sid pub ms nonce" "crypto_laws C"
  shows "marshalHandshake C ty sid pub mx0 ms nonce auth peer = Inr w \<longleftrightarrow>
    (\<exists>mx outer. normalizeMaxDatagramSize mx0 = Inr mx \<and>
       NewOuterHeader 0 (int (79 + (if auth \<noteq> [] then 32 else 0))) = Inr outer \<and>
       w = marshalOuterHeader outer @ hsBody ty sid pub mx ms nonce (hsTag C auth ty sid pub mx ms nonce peer))"
  using assms length_hsTag [OF assms(2), of auth]
  by (auto simp: marshalHandshake_def wf_hs_def hs_consts hsBody_def hsTag_def Let_def
      split: sum.splits if_splits)

lemma handshake_outer:
  assumes "n = 79 \<or> n = (111 :: nat)"
  obtains outer where "NewOuterHeader 0 (int n) = Inr outer" "wf_outer outer" "ContentType outer = 0x17"
    "VersionMajor outer = 0xfe" "VersionMinor outer = 0xff" "unat (Length outer) = n"
proof -
  have "\<exists>outer. NewOuterHeader 0 (int n) = Inr outer"
    using assms NewOuterHeader_ok [of 0 "int n"] by (auto simp: maxDTLSSequence_eq)
  then obtain outer where o: "NewOuterHeader 0 (int n) = Inr outer" by blast
  moreover have "wf_outer outer" "unat (Length outer) = n" using NewOuterHeader_seq [OF o] by auto
  moreover have "ContentType outer = 0x17" "VersionMajor outer = 0xfe" "VersionMinor outer = 0xff"
    using o by (auto simp: NewOuterHeader_def split: if_splits)
  ultimately show thesis using that by blast
qed

lemma marshal_parse_handshake:
  assumes C: "crypto_laws C" and wf: "wf_hs sid pub ms nonce"
    and ty: "ty = handshakeHello \<or> ty = handshakeHelloAck"
    and mx: "normalizeMaxDatagramSize mx0 = Inr mx"
  shows "\<exists>w. marshalHandshake C ty sid pub mx0 ms nonce auth peer = Inr w \<and>
    parseHandshake w = Inr \<lparr>hsType = ty, hsSession = sid, hsPublic = pub, hsMaxDatagram = mx,
      hsUnixMilli = ms, hsNonce = nonce, hsAuthTag = hsTag C auth ty sid pub mx ms nonce peer\<rparr>"
proof -
  let ?tag = "hsTag C auth ty sid pub mx ms nonce peer"
  let ?n = "79 + (if auth \<noteq> [] then 32 else 0) :: nat"
  have r: "0 \<le> mx" "mx < 65536" using normalizeMaxDatagramSize_range [OF mx] by (auto simp: tgp_sizes)
  obtain outer where o: "NewOuterHeader 0 (int ?n) = Inr outer" "wf_outer outer"
      "ContentType outer = 0x17" "VersionMajor outer = 0xfe" "VersionMinor outer = 0xff"
      "unat (Length outer) = ?n"
    by (rule handshake_outer [of ?n]) auto
  have lb: "length (hsBody ty sid pub mx ms nonce ?tag) = ?n"
    using wf length_hsTag [OF C] by (auto simp: hsBody_def wf_hs_def hs_consts)
  have "parseHandshake (marshalOuterHeader outer @ hsBody ty sid pub mx ms nonce ?tag) =
      Inr \<lparr>hsType = ty, hsSession = sid, hsPublic = pub, hsMaxDatagram = mx,
      hsUnixMilli = ms, hsNonce = nonce, hsAuthTag = ?tag\<rparr>"
    using o lb length_hsTag [OF C] by (intro parse_hsBody wf ty r) auto
  then show ?thesis using marshalHandshake_Inr [OF wf C] mx o(1) by blast
qed

lemma verify_hsTag:
  assumes "crypto_laws C"
  shows "verifyHandshakeAuth C \<lparr>hsType = ty, hsSession = sid, hsPublic = pub, hsMaxDatagram = mx,
    hsUnixMilli = ms, hsNonce = nonce, hsAuthTag = hsTag C auth ty sid pub mx ms nonce peer\<rparr> auth peer = None"
  using crypto_lengths(2) [OF assms]
  by (simp add: verifyHandshakeAuth_def hsTag_def handshakeAuthTag_def handshakeAuthTagSize_def)

lemma verified_hsTag:
  assumes "verifyHandshakeAuth C msg auth peer = None"
  shows "hsAuthTag msg = hsTag C auth (hsType msg) (hsSession msg) (hsPublic msg) (hsMaxDatagram msg)
    (hsUnixMilli msg) (hsNonce msg) peer"
  using assms by (auto simp: verifyHandshakeAuth_def hsTag_def split: if_splits)

lemma parse_body_parts:
  assumes "parseHandshake w = Inr msg"
  shows "drop 13 w = hsBody (hsType msg) (hsSession msg) (hsPublic msg) (hsMaxDatagram msg)
      (hsUnixMilli msg) (hsNonce msg) (hsAuthTag msg) \<and>
    (hsType msg = handshakeHello \<or> hsType msg = handshakeHelloAck) \<and>
    length (hsSession msg) = 16 \<and> length (hsPublic msg) = 32 \<and> length (hsNonce msg) = 16 \<and>
    hsUnixMilli msg < 2 ^ 63"
proof -
  let ?b = "drop 13 w"
  have l: "length ?b = 79 \<or> length ?b = 111"
    and f: "gslice 0 4 ?b = handshakeMagic" "hsType msg = ?b ! 4"
      "?b ! 4 = handshakeHello \<or> ?b ! 4 = handshakeHelloAck" "hsSession msg = gslice 5 21 ?b"
      "hsPublic msg = gslice 21 53 ?b" "hsMaxDatagram msg = uint (get_u16 (gslice 53 55 ?b))"
      "hsUnixMilli msg = sint (get_u64 (gslice 55 63 ?b))" "hsNonce msg = gslice 63 79 ?b"
      "hsAuthTag msg = drop 79 ?b"
    using assms
    by (auto simp: parseHandshake_def Let_def outerHeaderSize_def handshakeBaseBodySize_def
        publicKeySize_def handshakeNonceSize_def handshakeAuthTagSize_def split: if_splits sum.splits)
  have t: "[?b ! 4] = gslice 4 5 ?b" using l gslice_single [of 4 ?b] by auto
  have n: "put_u16 (of_int (hsMaxDatagram msg)) = gslice 53 55 ?b"
      "put_u64 (of_int (hsUnixMilli msg)) = gslice 55 63 ?b"
    using l by (auto simp: f)
  have "hsBody (hsType msg) (hsSession msg) (hsPublic msg) (hsMaxDatagram msg) (hsUnixMilli msg)
      (hsNonce msg) (hsAuthTag msg) = gslice 0 4 ?b @ gslice 4 5 ?b @ gslice 5 21 ?b @ gslice 21 53 ?b @
      gslice 53 55 ?b @ gslice 55 63 ?b @ gslice 63 79 ?b @ drop 79 ?b"
    unfolding hsBody_def n f(1) [symmetric] by (simp add: f t del: drop_drop)
  also have "\<dots> = ?b" by (simp add: slice_to_drop del: drop_drop)
  finally have "?b = hsBody (hsType msg) (hsSession msg) (hsPublic msg) (hsMaxDatagram msg)
    (hsUnixMilli msg) (hsNonce msg) (hsAuthTag msg)" ..
  moreover have "sint (get_u64 (gslice 55 63 ?b)) < 2 ^ 63"
    using sint_lt [of "get_u64 (gslice 55 63 ?b)"] by simp
  ultimately show ?thesis using f l by (auto simp del: drop_drop)
qed


section \<open>One hello, one ack\<close>

lemma fresh_hello:
  assumes "0 < ms" "nonce \<noteq> zeros 16" "now < timeUnixMilli ms" "timeUnixMilli ms \<le> now + MaxHandshakeTimeout"
  shows "validateHandshakeHelloFreshness \<lparr>hsType = handshakeHello, hsSession = sid, hsPublic = pub,
    hsMaxDatagram = mx, hsUnixMilli = ms, hsNonce = nonce, hsAuthTag = tag\<rparr> now = None"
  using assms by (simp add: validateHandshakeHelloFreshness_def handshakeNonceSize_def Let_def)

text \<open>What the acceptor makes of a fresh hello.\<close>

lemma acceptHello_fresh:
  assumes C: "crypto_laws C" and wf: "wf_hs sid (x25519_public C a) ms nonce"
    and mx: "normalizeMaxDatagramSize cmax = Inr cmax" "normalizeMaxDatagramSize smax = Inr smax"
    and hello: "marshalHandshake C handshakeHello sid (x25519_public C a) cmax ms nonce (roAuthKey o1)
      (zeros publicKeySize) = Inr hello"
    and fresh: "now < timeUnixMilli ms" "timeUnixMilli ms \<le> now + MaxHandshakeTimeout"
    and ack: "0 < unixMillis ackNow" "unixMillis ackNow < 2 ^ 63"
    and keys: "DeriveTrafficKeysWithAuth C (Some b) (x25519_public C a) sid RoleServer (roAuthKey o1) = Inr keys"
  obtains w so where "acceptHello C T o1 (Some b) smax now ackNow hello from = AcceptAck w so"
    "parseHandshake w = Inr \<lparr>hsType = handshakeHelloAck, hsSession = sid, hsPublic = x25519_public C b,
      hsMaxDatagram = min smax cmax, hsUnixMilli = unixMillis ackNow, hsNonce = nonce,
      hsAuthTag = hsTag C (roAuthKey o1) handshakeHelloAck sid (x25519_public C b) (min smax cmax)
        (unixMillis ackNow) nonce (x25519_public C a)\<rparr>"
    "so = \<lparr>optID = sid, optTransport = Some T, optRemoteAddr = from, optSendKey = SendKey keys,
      optRecvKey = RecvKey keys, optStreamQueue = 0, optFEC = roFEC o1,
      optMaxDatagramSize = min smax cmax, optDisableMigration = roDisableMigration o1,
      optValidateRemote = None, optHandshakeReplay = Some \<lparr>replayHello = hello, replayAck = w,
        replayPeer = from, replayExpiresAt = timeUnixMilli ms, replayRemaining = handshakeReplayLimit\<rparr>\<rparr>"
proof -
  have p: "parseHandshake hello = Inr \<lparr>hsType = handshakeHello, hsSession = sid,
      hsPublic = x25519_public C a, hsMaxDatagram = cmax, hsUnixMilli = ms, hsNonce = nonce,
      hsAuthTag = hsTag C (roAuthKey o1) handshakeHello sid (x25519_public C a) cmax ms nonce (zeros publicKeySize)\<rparr>"
    using marshal_parse_handshake [OF C wf _ mx(1), of handshakeHello "roAuthKey o1" "zeros publicKeySize"] hello
    by auto
  have range: "1232 \<le> cmax" "cmax \<le> 1452" "1232 \<le> smax" "smax \<le> 1452"
    using mx [THEN normalizeMaxDatagramSize_range] by (auto simp: tgp_sizes)
  then have eff: "normalizeMaxDatagramSize (min smax cmax) = Inr (min smax cmax)"
    by (auto simp: normalizeMaxDatagramSize_Inr tgp_sizes)
  have wf': "wf_hs sid (x25519_public C b) (unixMillis ackNow) nonce"
    using wf ack crypto_lengths(1) [OF C] by (simp add: wf_hs_def)
  obtain w where w: "marshalHandshake C handshakeHelloAck sid (x25519_public C b) (min smax cmax)
        (unixMillis ackNow) nonce (roAuthKey o1) (x25519_public C a) = Inr w"
    "parseHandshake w = Inr \<lparr>hsType = handshakeHelloAck, hsSession = sid, hsPublic = x25519_public C b,
      hsMaxDatagram = min smax cmax, hsUnixMilli = unixMillis ackNow, hsNonce = nonce,
      hsAuthTag = hsTag C (roAuthKey o1) handshakeHelloAck sid (x25519_public C b) (min smax cmax)
        (unixMillis ackNow) nonce (x25519_public C a)\<rparr>"
    using marshal_parse_handshake [OF C wf' _ eff] by blast
  have fr: "validateHandshakeHelloFreshness \<lparr>hsType = handshakeHello, hsSession = sid,
      hsPublic = x25519_public C a, hsMaxDatagram = cmax, hsUnixMilli = ms, hsNonce = nonce,
      hsAuthTag = tag\<rparr> now = None" for tag
    using wf fresh by (intro fresh_hello) (auto simp: wf_hs_def)
  have "acceptHello C T o1 (Some b) smax now ackNow hello from = AcceptAck w
     \<lparr>optID = sid, optTransport = Some T, optRemoteAddr = from, optSendKey = SendKey keys,
      optRecvKey = RecvKey keys, optStreamQueue = 0, optFEC = roFEC o1,
      optMaxDatagramSize = min smax cmax, optDisableMigration = roDisableMigration o1,
      optValidateRemote = None, optHandshakeReplay = Some \<lparr>replayHello = hello, replayAck = w,
        replayPeer = from, replayExpiresAt = timeUnixMilli ms, replayRemaining = handshakeReplayLimit\<rparr>\<rparr>"
    using range keys w(1) fr verify_hsTag [OF C]
    by (simp add: acceptHello_def p Let_def KeyPair_PublicKey_def tgp_sizes)
  then show thesis using that w(2) by blast
qed

text \<open>What the dialler makes of that ack.\<close>

lemma handleAck_matching:
  assumes C: "crypto_laws C" and ack: "parseHandshake w = Inr \<lparr>hsType = handshakeHelloAck,
      hsSession = dpSession d, hsPublic = pub, hsMaxDatagram = mx, hsUnixMilli = ams, hsNonce = dpNonce d,
      hsAuthTag = hsTag C (roAuthKey (dpOpts d)) handshakeHelloAck (dpSession d) pub mx ams (dpNonce d)
        (KeyPair_PublicKey C (dpKeyPair d))\<rparr>"
    and mx: "1232 \<le> mx" "mx \<le> dpLocalMax d" and t: "0 < ams" "sentAt \<le> recvAt"
    and keys: "DeriveTrafficKeysWithAuth C (dpKeyPair d) pub (dpSession d) RoleClient
      (roAuthKey (dpOpts d)) = Inr keys"
  shows "handleAck C d None sentAt recvAt w (Some (dpRemote d)) = AckSession
    \<lparr>optID = dpSession d, optTransport = Some (dpTransport d), optRemoteAddr = Some (dpRemote d),
     optSendKey = SendKey keys, optRecvKey = RecvKey keys, optStreamQueue = 0,
     optFEC = roFEC (dpOpts d), optMaxDatagramSize = mx,
     optDisableMigration = roDisableMigration (dpOpts d),
     optValidateRemote = roValidateRemote (dpOpts d), optHandshakeReplay = None\<rparr>
    (timeSub (timeUnixMilli ams) recvAt)"
  using assms verify_hsTag [OF C]
  by (simp add: handleAck_def sameAddr_iff tgp_sizes estimateRelayClockOffset_def Let_def)


lemma NewDatagramSession_ok:
  assumes "optTransport opts \<noteq> None" "optRemoteAddr opts = Some r" "optValidateRemote opts = None"
    and "validateFECOptions (optFEC opts) = None" "length (optSendKey opts) = trafficKeySize"
    and "length (optRecvKey opts) = trafficKeySize"
    and "normalizeMaxDatagramSize (optMaxDatagramSize opts) = Inr mx"
  shows "\<exists>s q. NewDatagramSession opts = Inr (s, q) \<and> sId s = optID opts \<and> sRemote s = r \<and>
    sSendCodec s = \<lparr>codecKey = optSendKey opts, maxDatagramSize = mx\<rparr> \<and>
    sRecvCodec s = \<lparr>codecKey = optRecvKey opts, maxDatagramSize = mx\<rparr>"
  using assms by (auto simp: NewDatagramSession_def NewCodecWithMaxDatagramSize_def Let_def)

lemma dialAttempts_bound:
  "fst (dialAttempts C d enable attempt delay as) \<le> 5 - attempt"
proof (induction C d enable attempt delay as rule: dialAttempts.induct)
  case (1 C d enable attempt delay as)
  show ?case
  proof (cases "attempt > MaxHandshakeAttempts \<or> as = []")
    case True
    then show ?thesis by (subst dialAttempts.simps) (auto split: list.splits)
  next
    case False
    then obtain a as' where as: "as = a # as'" and le: "\<not> MaxHandshakeAttempts < attempt"
      by (cases as) auto
    note IH = "1.IH" [OF le as]
    show ?thesis
      using le IH unfolding as
      by (subst dialAttempts.simps)
        (auto simp: MaxHandshakeAttempts_def Let_def split: option.splits waitOutcome.splits prod.splits)
  qed
qed

lemma waitForAck_ends:
  "t \<in> set turns \<Longrightarrow> attemptDeadline \<le> dtNow t \<Longrightarrow>
   waitForAck C d enable sentAt attemptDeadline turns \<noteq> WaitMore"
  by (induction turns) (auto split: readResult.splits ackOutcome.splits)

lemma dialAttempts_ends:
  "5 \<le> attempt + length as \<Longrightarrow> delay \<le> handshakeMaxRetry \<Longrightarrow>
   \<forall>a\<in>set as. \<exists>t\<in>set (daTurns a). daSentAt a + handshakeMaxRetry \<le> dtNow t \<Longrightarrow>
   snd (dialAttempts C d enable attempt delay as) \<noteq> None"
proof (induction C d enable attempt delay as rule: dialAttempts.induct)
  case (1 C d enable attempt delay as)
  show ?case
  proof (cases "attempt > MaxHandshakeAttempts")
    case True
    then show ?thesis by (simp add: dialAttempts.simps)
  next
    case False
    then obtain a as' where as: "as = a # as'" using "1.prems"(1) by (cases as) (auto simp: MaxHandshakeAttempts_def)
    obtain t where t: "t \<in> set (daTurns a)" "daSentAt a + handshakeMaxRetry \<le> dtNow t"
      using "1.prems"(3) as by auto
    have w: "waitForAck C d enable (daSentAt a) (min (daSentAt a + delay) (dpDeadline d)) (daTurns a) \<noteq> WaitMore"
      using t "1.prems"(2) by (intro waitForAck_ends [OF t(1)]) auto
    have IH: "snd (dialAttempts C d enable (Suc attempt) (min (delay * 2) handshakeMaxRetry) as') \<noteq> None"
      if "\<not> handshakeDeadlineError (dpDeadline d) (daCheck a) (daCtxErr a)" "daWriteErr a = None"
        "waitForAck C d enable (daSentAt a) (min (daSentAt a + delay) (dpDeadline d)) (daTurns a) = WaitRetry"
      using "1.IH" [OF False as that(1,2) refl that(3)] "1.prems" as by auto
    show ?thesis using w IH False unfolding as
      by (subst dialAttempts.simps)
        (auto simp: Let_def split: option.splits waitOutcome.splits prod.splits)
  qed
qed

section \<open>Concrete dials\<close>

definition demo_turn :: "gotime \<Rightarrow> dialTurn" where
  "demo_turn t = \<lparr>dtNow = t, dtCtxErr = False, dtRead = ReadTimeout, dtReceivedAt = t, dtCtxErrAfter = False,
     dtWaitOk = True, dtAfterWait = t, dtCtxErrWait = False\<rparr>"

definition demo_attempt :: "gotime \<Rightarrow> dialAttempt" where
  "demo_attempt t = \<lparr>daCheck = t, daCtxErr = False, daSentAt = t, daWriteErr = None, daWriteExpired = False,
     daTurns = [demo_turn (t + time_Second)]\<rparr>"

definition demo_runtime :: SessionRuntimeOptions where
  "demo_runtime = \<lparr>roFEC = no_fec, roMaxDatagramSize = 0, roDisableMigration = True, roAuthKey = [],
     roValidateRemote = None\<rparr>"

section \<open>Properties\<close>

text \<open>
  Handshake messages are authenticated exactly. What \<open>marshalHandshake\<close> makes of well-formed
  fields parses back to them and passes the authentication check; and whatever parses, passes the
  check, has a datagram limit in the protocol's range, a positive time and a nonce, carries exactly
  the body that \<open>marshalHandshake\<close> makes of its fields under that key (only the outer header's epoch
  and sequence number are free).
\<close>

theorem handshake_exact:
  assumes "crypto_laws C"
  shows "(wf_hs sid pub ms nonce \<and> (ty = handshakeHello \<or> ty = handshakeHelloAck) \<and>
      MinTGPDatagramSize \<le> mx \<and> mx \<le> MaxTGPDatagramSize \<longrightarrow>
      (\<exists>w msg. marshalHandshake C ty sid pub mx ms nonce auth peer = Inr w \<and> parseHandshake w = Inr msg \<and>
        hsType msg = ty \<and> hsSession msg = sid \<and> hsPublic msg = pub \<and> hsMaxDatagram msg = mx \<and>
        hsUnixMilli msg = ms \<and> hsNonce msg = nonce \<and> verifyHandshakeAuth C msg auth peer = None)) \<and>
    (parseHandshake wire = Inr m \<and> verifyHandshakeAuth C m auth peer = None \<and>
      MinTGPDatagramSize \<le> hsMaxDatagram m \<and> hsMaxDatagram m \<le> MaxTGPDatagramSize \<and>
      0 < hsUnixMilli m \<and> hsNonce m \<noteq> zeros 16 \<longrightarrow>
      (\<exists>w. marshalHandshake C (hsType m) (hsSession m) (hsPublic m) (hsMaxDatagram m) (hsUnixMilli m)
        (hsNonce m) auth peer = Inr w \<and> drop outerHeaderSize wire = drop outerHeaderSize w))"
proof (intro conjI impI)
  assume h: "wf_hs sid pub ms nonce \<and> (ty = handshakeHello \<or> ty = handshakeHelloAck) \<and>
      MinTGPDatagramSize \<le> mx \<and> mx \<le> MaxTGPDatagramSize"
  then have "normalizeMaxDatagramSize mx = Inr mx" by (auto simp: normalizeMaxDatagramSize_Inr tgp_sizes)
  with h show "\<exists>w msg. marshalHandshake C ty sid pub mx ms nonce auth peer = Inr w \<and> parseHandshake w = Inr msg \<and>
        hsType msg = ty \<and> hsSession msg = sid \<and> hsPublic msg = pub \<and> hsMaxDatagram msg = mx \<and>
        hsUnixMilli msg = ms \<and> hsNonce msg = nonce \<and> verifyHandshakeAuth C msg auth peer = None"
    using marshal_parse_handshake [OF assms, of sid pub ms nonce ty mx mx auth peer]
      verify_hsTag [OF assms, of ty sid pub mx ms nonce auth peer] by auto
next
  assume h: "parseHandshake wire = Inr m \<and> verifyHandshakeAuth C m auth peer = None \<and>
      MinTGPDatagramSize \<le> hsMaxDatagram m \<and> hsMaxDatagram m \<le> MaxTGPDatagramSize \<and>
      0 < hsUnixMilli m \<and> hsNonce m \<noteq> zeros 16"
  then have p: "parseHandshake wire = Inr m" and v: "verifyHandshakeAuth C m auth peer = None" by auto
  note b = parse_body_parts [OF p]
  have wf: "wf_hs (hsSession m) (hsPublic m) (hsUnixMilli m) (hsNonce m)"
    using b h by (simp add: wf_hs_def)
  have mx: "normalizeMaxDatagramSize (hsMaxDatagram m) = Inr (hsMaxDatagram m)"
    using h by (auto simp: normalizeMaxDatagramSize_Inr tgp_sizes)
  obtain outer where o: "NewOuterHeader 0 (int (79 + (if auth \<noteq> [] then 32 else 0))) = Inr outer" "wf_outer outer"
    by (rule handshake_outer [of "79 + (if auth \<noteq> [] then 32 else 0)"]) auto
  then show "\<exists>w. marshalHandshake C (hsType m) (hsSession m) (hsPublic m) (hsMaxDatagram m) (hsUnixMilli m)
        (hsNonce m) auth peer = Inr w \<and> drop outerHeaderSize wire = drop outerHeaderSize w"
    using b verified_hsTag [OF v] marshalHandshake_Inr [OF wf assms] mx by (auto simp: outerHeaderSize_def)
qed

theorem handshake_exact_witness:
  "\<exists>w msg. marshalHandshake demo_crypto handshakeHello (replicate 16 1) (replicate 32 2) 1300 77 (replicate 16 3)
      [9] (zeros 32) = Inr w \<and> parseHandshake w = Inr msg \<and> hsUnixMilli msg = 77 \<and>
    verifyHandshakeAuth demo_crypto msg [9] (zeros 32) = None"
proof -
  have n: "replicate 16 3 \<noteq> zeros 16" by code_simp
  show ?thesis
    using handshake_exact [OF demo_crypto_laws, THEN conjunct1, THEN mp, of "replicate 16 1" "replicate 32 2" 77
        "replicate 16 3" handshakeHello 1300 "[9]" "zeros 32"] n
    by (auto simp: wf_hs_def tgp_sizes)
qed

text \<open>
  C38. The dialler gives up. Whatever the network does, a dial writes at most four hellos, and once
  the inputs of four attempts are there it has an answer: a session or an error.
\<close>

theorem dial_gives_up:
  "fst (snd (dialSession C T remote opts ctxDeadline startedAt private sid nonce enable as)) \<le> 4 \<and>
   (4 \<le> length as \<and> (\<forall>a\<in>set as. \<exists>t\<in>set (daTurns a). daSentAt a + handshakeMaxRetry \<le> dtNow t) \<longrightarrow>
     snd (snd (dialSession C T remote opts ctxDeadline startedAt private sid nonce enable as)) \<noteq> None)"
proof -
  have "fst (dialAttempts C d enable 1 handshakeInitialRetry as) \<le> 4" for d
    using dialAttempts_bound [of C d enable 1 handshakeInitialRetry as] by simp
  moreover have "snd (dialAttempts C d enable 1 handshakeInitialRetry as) \<noteq> None"
    if "4 \<le> length as" "\<forall>a\<in>set as. \<exists>t\<in>set (daTurns a). daSentAt a + handshakeMaxRetry \<le> dtNow t" for d
    using that by (intro dialAttempts_ends) (auto simp: handshakeInitialRetry_def handshakeMaxRetry_def)
  ultimately show ?thesis by (auto simp: dialSession_def Let_def split: sum.splits)
qed

theorem dial_gives_up_witness:
  "snd (snd (dialSession demo_crypto demo_transport demo_remote demo_runtime None 0 (zeros 32) (zeros 16)
     (replicate 16 1) None [demo_attempt 0, demo_attempt time_Second, demo_attempt (2 * time_Second),
       demo_attempt (3 * time_Second)])) \<noteq> None"
  by (rule dial_gives_up [THEN conjunct2, THEN mp])
    (simp add: demo_attempt_def demo_turn_def handshakeMaxRetry_def)

text \<open>
  C4. The handshake establishes matching sessions. A dialler's hello reaches an acceptor with the
  same authentication key before it expires, and the acceptor's ack comes back. Then the acceptor
  answers and the dialler accepts the answer, both construct their sessions, and the two sessions
  have the same id, mirrored keys (each end opens what the other seals), and the same datagram
  limit, the smaller one of the two configured limits.
\<close>

theorem handshake_establishes_matching_sessions:
  assumes "crypto_laws C" and "wf_hs sid (x25519_public C a) ms nonce"
    and "normalizeMaxDatagramSize cmax = Inr cmax" and "normalizeMaxDatagramSize smax = Inr smax"
    and "marshalHandshake C handshakeHello sid (x25519_public C a) cmax ms nonce (roAuthKey sopts)
      (zeros publicKeySize) = Inr hello"
    and "now < timeUnixMilli ms" and "timeUnixMilli ms \<le> now + MaxHandshakeTimeout"
    and "0 < unixMillis ackNow" and "unixMillis ackNow < 2 ^ 63"
    and "DeriveTrafficKeysWithAuth C (Some b) (x25519_public C a) sid RoleServer (roAuthKey sopts) =
      Inr \<lparr>SendKey = k', RecvKey = k\<rparr>"
    and "dpKeyPair d = Some a" and "dpSession d = sid" and "dpNonce d = nonce" and "dpLocalMax d = cmax"
    and "roAuthKey (dpOpts d) = roAuthKey sopts" and "sentAt \<le> recvAt"
    and "validateFECOptions (roFEC sopts) = None" and "validateFECOptions (roFEC (dpOpts d)) = None"
    and "roValidateRemote (dpOpts d) = None"
  shows "\<exists>ack so co offset server client q q'.
    acceptHello C T sopts (Some b) smax now ackNow hello (Some peer) = AcceptAck ack so \<and>
    handleAck C d None sentAt recvAt ack (Some (dpRemote d)) = AckSession co offset \<and>
    NewDatagramSession so = Inr (server, q) \<and> NewDatagramSession co = Inr (client, q') \<and>
    sId server = sid \<and> sId client = sid \<and>
    sSendCodec client = sRecvCodec server \<and> sSendCodec server = sRecvCodec client \<and>
    codecKey (sSendCodec client) = k \<and> codecKey (sSendCodec server) = k' \<and>
    maxDatagramSize (sSendCodec client) = min smax cmax"
proof -
  let ?keys = "\<lparr>SendKey = k', RecvKey = k\<rparr>" and ?mx = "min smax cmax"
  obtain ack so where acc: "acceptHello C T sopts (Some b) smax now ackNow hello (Some peer) = AcceptAck ack so"
    and pa: "parseHandshake ack = Inr \<lparr>hsType = handshakeHelloAck, hsSession = sid,
      hsPublic = x25519_public C b, hsMaxDatagram = ?mx, hsUnixMilli = unixMillis ackNow, hsNonce = nonce,
      hsAuthTag = hsTag C (roAuthKey sopts) handshakeHelloAck sid (x25519_public C b) ?mx
        (unixMillis ackNow) nonce (x25519_public C a)\<rparr>"
    and so: "so = \<lparr>optID = sid, optTransport = Some T, optRemoteAddr = Some peer, optSendKey = k',
      optRecvKey = k, optStreamQueue = 0, optFEC = roFEC sopts, optMaxDatagramSize = ?mx,
      optDisableMigration = roDisableMigration sopts, optValidateRemote = None,
      optHandshakeReplay = Some \<lparr>replayHello = hello, replayAck = ack, replayPeer = Some peer,
        replayExpiresAt = timeUnixMilli ms, replayRemaining = handshakeReplayLimit\<rparr>\<rparr>"
    by (rule acceptHello_fresh [OF assms(1-10), of T "Some peer"]) auto
  have range: "1232 \<le> ?mx" "?mx \<le> cmax" "normalizeMaxDatagramSize ?mx = Inr ?mx"
    using assms(3,4) [THEN normalizeMaxDatagramSize_range]
    by (auto simp: tgp_sizes normalizeMaxDatagramSize_Inr)
  have ck: "DeriveTrafficKeysWithAuth C (Some a) (x25519_public C b) sid RoleClient (roAuthKey sopts) =
      Inr \<lparr>SendKey = k, RecvKey = k'\<rparr>"
    using derive_mirror [OF assms(1)] assms(10) by (simp add: KeyPair_PublicKey_def)
  have hand: "handleAck C d None sentAt recvAt ack (Some (dpRemote d)) = AckSession
      \<lparr>optID = sid, optTransport = Some (dpTransport d), optRemoteAddr = Some (dpRemote d),
       optSendKey = k, optRecvKey = k', optStreamQueue = 0, optFEC = roFEC (dpOpts d),
       optMaxDatagramSize = ?mx, optDisableMigration = roDisableMigration (dpOpts d),
       optValidateRemote = roValidateRemote (dpOpts d), optHandshakeReplay = None\<rparr>
      (timeSub (timeUnixMilli (unixMillis ackNow)) recvAt)"
    using handleAck_matching [OF assms(1), of ack d "x25519_public C b" ?mx "unixMillis ackNow" sentAt
        recvAt "\<lparr>SendKey = k, RecvKey = k'\<rparr>"] pa range assms ck
    by (simp add: KeyPair_PublicKey_def)
  have kl: "length k = trafficKeySize" "length k' = trafficKeySize"
    using derived_lengths [OF assms(1,10)] by auto
  obtain server q where sv: "NewDatagramSession so = Inr (server, q)" "sId server = sid"
      "sSendCodec server = \<lparr>codecKey = k', maxDatagramSize = ?mx\<rparr>"
      "sRecvCodec server = \<lparr>codecKey = k, maxDatagramSize = ?mx\<rparr>"
    using NewDatagramSession_ok [of so peer ?mx] kl range(3) assms(17) so by auto
  let ?co = "\<lparr>optID = sid, optTransport = Some (dpTransport d), optRemoteAddr = Some (dpRemote d),
       optSendKey = k, optRecvKey = k', optStreamQueue = 0, optFEC = roFEC (dpOpts d),
       optMaxDatagramSize = ?mx, optDisableMigration = roDisableMigration (dpOpts d),
       optValidateRemote = roValidateRemote (dpOpts d), optHandshakeReplay = None\<rparr>"
  obtain client q' where cl: "NewDatagramSession ?co = Inr (client, q')" "sId client = sid"
      "sSendCodec client = \<lparr>codecKey = k, maxDatagramSize = ?mx\<rparr>"
      "sRecvCodec client = \<lparr>codecKey = k', maxDatagramSize = ?mx\<rparr>"
    using NewDatagramSession_ok [of ?co "dpRemote d" ?mx] kl range(3) assms(18,19) by auto
  show ?thesis using acc hand sv cl by auto
qed

theorem handshake_establishes_matching_sessions_witness:
  "\<exists>hello ack so co offset server client q q'.
    acceptHello demo_crypto demo_transport demo_runtime (Some (replicate 32 6)) 1352 0 time_Second hello
      (Some demo_other) = AcceptAck ack so \<and>
    handleAck demo_crypto \<lparr>dpRemote = demo_remote, dpKeyPair = Some (replicate 32 5), dpSession = zeros 16,
      dpNonce = replicate 16 1, dpLocalMax = 1300, dpDeadline = 10 * time_Second, dpOpts = demo_runtime,
      dpTransport = demo_transport\<rparr> None 0 time_Second ack (Some demo_remote) = AckSession co offset \<and>
    NewDatagramSession so = Inr (server, q) \<and> NewDatagramSession co = Inr (client, q') \<and>
    sSendCodec client = sRecvCodec server \<and> maxDatagramSize (sSendCodec client) = 1300"
proof -
  let ?C = demo_crypto
  let ?d = "\<lparr>dpRemote = demo_remote, dpKeyPair = Some (replicate 32 5), dpSession = zeros 16,
      dpNonce = replicate 16 1, dpLocalMax = 1300, dpDeadline = 10 * time_Second, dpOpts = demo_runtime,
      dpTransport = demo_transport\<rparr>"
  have n: "replicate 16 1 \<noteq> zeros 16" by code_simp
  have wf: "wf_hs (zeros 16) (x25519_public ?C (replicate 32 5)) 10000 (replicate 16 1)"
    using n crypto_lengths(1) [OF demo_crypto_laws] by (simp add: wf_hs_def)
  have norm: "normalizeMaxDatagramSize 1300 = Inr 1300" "normalizeMaxDatagramSize 1352 = Inr 1352"
    by code_simp+
  obtain hello where h: "marshalHandshake ?C handshakeHello (zeros 16) (x25519_public ?C (replicate 32 5)) 1300
      10000 (replicate 16 1) (roAuthKey demo_runtime) (zeros publicKeySize) = Inr hello"
    using marshal_parse_handshake [OF demo_crypto_laws wf _ norm(1)] by blast
  have k: "DeriveTrafficKeysWithAuth ?C (Some (replicate 32 6)) (x25519_public ?C (replicate 32 5)) (zeros 16)
      RoleServer (roAuthKey demo_runtime) = Inr \<lparr>SendKey = zeros 32, RecvKey = replicate 32 3\<rparr>"
    by code_simp
  have f: "validateFECOptions (roFEC demo_runtime) = None" by code_simp
  have "\<exists>ack so co offset server client q q'.
    acceptHello ?C demo_transport demo_runtime (Some (replicate 32 6)) 1352 0 time_Second hello
      (Some demo_other) = AcceptAck ack so \<and>
    handleAck ?C ?d None 0 time_Second ack (Some (dpRemote ?d)) = AckSession co offset \<and>
    NewDatagramSession so = Inr (server, q) \<and> NewDatagramSession co = Inr (client, q') \<and>
    sId server = zeros 16 \<and> sId client = zeros 16 \<and>
    sSendCodec client = sRecvCodec server \<and> sSendCodec server = sRecvCodec client \<and>
    codecKey (sSendCodec client) = replicate 32 3 \<and> codecKey (sSendCodec server) = zeros 32 \<and>
    maxDatagramSize (sSendCodec client) = min 1352 1300"
    by (rule handshake_establishes_matching_sessions [OF demo_crypto_laws wf norm h _ _ _ _ k])
      (simp_all add: f demo_runtime_def timeUnixMilli_def unixMillis_def MaxHandshakeTimeout_def no_fec_def
        validateFECOptions_def)
  moreover have "min 1352 (1300 :: int) = 1300" by simp
  ultimately show ?thesis by (simp only: dialParams.select_convs) blast
qed

end
