(* ===== verification/Relay_Props.thy ===== *)
theory Relay_Props
  imports Relay_Router Handshake_Props
begin

text \<open>
  More properties of the relay: a path cookie is spent once, path requests are rate limited, and
  what the relay admits and how many sessions it holds.
\<close>

section \<open>Spent cookies\<close>

text \<open>The part of a session object that only the read loop changes.\<close>

definition cookieView :: "relayTransportRouter \<Rightarrow> ref \<Rightarrow> (bytes, gotime) gomap \<times> sourceAddrKey" where
  "cookieView r p = (rsUsedCookies (rtHeap r p), rsActive (rtHeap r p))"

lemma close_view:
  "rtNext (transportClose now q r) = rtNext r \<and> cookieView (transportClose now q r) p = cookieView r p"
  by (simp add: transportClose_def Let_def unregister_frame cookieView_def)

lemma close_all_view:
  "rtNext (foldl (\<lambda>r q. transportClose now q r) r qs) = rtNext r \<and>
   cookieView (foldl (\<lambda>r q. transportClose now q r) r qs) p = cookieView r p"
  by (induction qs arbitrary: r) (simp_all add: close_view)

lemma op_view:
  assumes "p < rtNext r"
  shows "p < rtNext (routerOpStep r op) \<and> cookieView (routerOpStep r op) p = cookieView r p"
proof (cases op)
  case (OpRouterClose now)
  then show ?thesis using assms close_all_view [of now "r\<lparr>rtClosed := True, rtSessions := [], rtSources := []\<rparr>"]
    by (auto simp: routerClose_def Let_def cookieView_def)
next
  case (OpClose now q)
  then show ?thesis using assms by (simp add: close_view)
qed (use assms in \<open>auto simp: registerWithPathAuth_def registerHandshakeReplay_def handshakeTombstoned_def
      pruneHandshakeTombstones_def transportWrite_def transportAuthorized_def transportRead_def
      transportObserve_def purgePaths_frame Let_def cookieView_def
      split: option.splits list.splits\<close>)

lemma ops_view:
  "p < rtNext r \<Longrightarrow> p < rtNext (run routerOpStep r ops) \<and> cookieView (run routerOpStep r ops) p = cookieView r p"
proof (induction ops arbitrary: r)
  case (Cons op ops)
  then show ?case using op_view [of p r op] by simp
qed simp

lemma adopt_view:
  "cookieView (adoptPath now from k c p r) q =
     (if q = p then (gm_set (fst (cookieView r p)) c (now + pathChallengeLifetime), k) else cookieView r q)"
  by (simp add: adoptPath_def Let_def cookieView_def split: option.splits)

lemma evict_view: "evictOldestInactivePath p r = (b, r') \<Longrightarrow> cookieView r' q = cookieView r q"
  by (auto simp: evictOldestInactivePath_def Let_def cookieView_def split: option.splits)

lemma purge_view: "cookieView (purgeExpiredPaths now p r) q = cookieView r q"
  by (simp add: cookieView_def purgePaths_frame)

lemma purgeCookies_view:
  "cookieView (rtUpd r p (purgeUsedPathCookies now (rtHeap r p))) q =
     (if q = p then (gm_keep (\<lambda>_ e. now < e) (rsUsedCookies (rtHeap r p)), rsActive (rtHeap r p)) else cookieView r q)"
  by (simp add: cookieView_def purgeUsedPathCookies_def)

lemma dropPath_view [simp]: "cookieView (dropPath r) q = cookieView r q"
  by (simp add: cookieView_def)

text \<open>What a verified response does to the spent cookies and the active path of any session object.\<close>

lemma commit_view:
  assumes m_def: "m = gm_keep (\<lambda>_ e. now < e) (rsUsedCookies (rtHeap r p))"
    and s_def: "s = commitPathResponse now from k msg p r"
  shows "cookieView s q = cookieView r q \<or>
    q = p \<and> (cookieView s q = (m, rsActive (rtHeap r p)) \<or>
      gm_get m (pcServerNonce msg) = None \<and>
      cookieView s q = (gm_set m (pcServerNonce msg) (now + pathChallengeLifetime), k))"
proof -
  define r1 where "r1 = rtUpd r p (purgeUsedPathCookies now (rtHeap r p))"
  have v: "cookieView r1 q = (if q = p then (m, rsActive (rtHeap r p)) else cookieView r q)" for q
    unfolding r1_def m_def by (rule purgeCookies_view)
  have c: "rsUsedCookies (rtHeap r1 p) = m" by (simp add: r1_def m_def purgeUsedPathCookies_def)
  show ?thesis unfolding s_def commitPathResponse_def r1_def [symmetric] Let_def c
    by (auto simp: v adopt_view purge_view evict_view split: prod.splits bool.splits)
qed

lemma commit_sources_rejected:
  assumes "gm_has (gm_keep (\<lambda>_ e. now < e) (rsUsedCookies (rtHeap r p))) (pcServerNonce msg)"
  shows "rtSources (commitPathResponse now from k msg p r) = rtSources r"
  using assms by (auto simp: commitPathResponse_def Let_def purgeUsedPathCookies_def)

text \<open>A datagram handled before a cookie's entry expires leaves the entry.\<close>

lemma request_view:
  assumes "p < rtNext r"
  shows "rtNext r \<le> rtNext (handlePathRequest C now w (\<lambda>r. run routerOpStep r ops) from k msg r)"
    "cookieView (handlePathRequest C now w (\<lambda>r. run routerOpStep r ops) from k msg r) p = cookieView r p"
proof -
  have v: "rsUsedCookies s = rsUsedCookies (rtHeap r' q) \<and> rsActive s = rsActive (rtHeap r' q)"
    if "consumePathRequestToken now (rtHeap r' q) = (b, s)" for r' q b s
    using consume_frame [OF that] by simp
  have n: "rtNext r \<le> rtNext (run routerOpStep r ops)"
    using ops_view [of "rtNext r - 1" r ops] assms by linarith
  show "rtNext r \<le> rtNext (handlePathRequest C now w (\<lambda>r. run routerOpStep r ops) from k msg r)"
    using n by (auto simp: handlePathRequest_def Let_def split: option.splits prod.splits bool.splits sum.splits)
  show "cookieView (handlePathRequest C now w (\<lambda>r. run routerOpStep r ops) from k msg r) p = cookieView r p"
    using ops_view [OF assms, of ops] unfolding handlePathRequest_def Let_def
    by (auto simp: cookieView_def split: option.splits prod.splits bool.splits sum.splits dest!: v)
qed

lemma commit_next: "rtNext (commitPathResponse now from k msg p r) = rtNext r"
  by (auto simp: commitPathResponse_def Let_def purgePaths_frame adoptPath_def evict_frame
      split: prod.splits bool.splits dest: evict_frame(1))

lemma response_view:
  assumes "p < rtNext r"
    and s_def: "s = handlePathResponse C now (\<lambda>r. run routerOpStep r ops) from k msg r"
    and m_def: "m = gm_keep (\<lambda>_ e. now < e) (rsUsedCookies (rtHeap r p))"
  shows "rtNext r \<le> rtNext s"
    "cookieView s p = cookieView r p \<or> cookieView s p = (m, rsActive (rtHeap r p)) \<or>
      gm_get (rtSessions r) (pcSession msg) = Some p \<and> gm_get m (pcServerNonce msg) = None \<and>
      verifyPathCookie C (pcServerNonce msg) (rsPathKey (rtHeap r p)) (pcSession msg) k
        (pcClientNonce msg) now pathChallengeLifetime \<and>
      cookieView s p = (gm_set m (pcServerNonce msg) (now + pathChallengeLifetime), k)"
proof -
  have n: "rtNext r \<le> rtNext (run routerOpStep r ops)"
    using ops_view [of "rtNext r - 1" r ops] assms(1) by linarith
  then show "rtNext r \<le> rtNext s"
    by (auto simp: s_def handlePathResponse_def Let_def commit_next split: option.splits)
  let ?r = "run routerOpStep r ops"
  have v: "cookieView ?r p = cookieView r p" using ops_view [OF assms(1)] by blast
  then have m: "m = gm_keep (\<lambda>_ e. now < e) (rsUsedCookies (rtHeap ?r p))"
      "rsActive (rtHeap ?r p) = rsActive (rtHeap r p)"
    by (simp_all add: m_def cookieView_def)
  show "cookieView s p = cookieView r p \<or> cookieView s p = (m, rsActive (rtHeap r p)) \<or>
      gm_get (rtSessions r) (pcSession msg) = Some p \<and> gm_get m (pcServerNonce msg) = None \<and>
      verifyPathCookie C (pcServerNonce msg) (rsPathKey (rtHeap r p)) (pcSession msg) k
        (pcClientNonce msg) now pathChallengeLifetime \<and>
      cookieView s p = (gm_set m (pcServerNonce msg) (now + pathChallengeLifetime), k)"
  proof (cases "gm_get (rtSessions r) (pcSession msg)")
    case None
    then show ?thesis by (simp add: s_def handlePathResponse_def)
  next
    case (Some q)
    show ?thesis
      using commit_view [of _ now ?r q _ "from" k msg p, OF refl refl] v m
      by (auto simp: s_def handlePathResponse_def Some Let_def)
  qed
qed

lemma read_view:
  assumes "p < rtNext r"
    and s_def: "s = routerStep C r (Datagram now w d ops env)"
    and m_def: "m = gm_keep (\<lambda>_ e. now < e) (rsUsedCookies (rtHeap r p))"
  shows "p < rtNext s"
    "cookieView s p = cookieView r p \<or> cookieView s p = (m, rsActive (rtHeap r p)) \<or>
      (\<exists>msg k. parsePathControl (envPacket env) = Inr msg \<and> pcType msg = pathControlResponse \<and>
        newSourceAddrKey (envFrom env) = Some k \<and>
        gm_get (rtSessions r) (pcSession msg) = Some p \<and> gm_get m (pcServerNonce msg) = None \<and>
        verifyPathCookie C (pcServerNonce msg) (rsPathKey (rtHeap r p)) (pcSession msg) k
          (pcClientNonce msg) now pathChallengeLifetime \<and>
        cookieView s p = (gm_set m (pcServerNonce msg) (now + pathChallengeLifetime), k))"
proof -
  have f: "rtNext (routeData env r) = rtNext r \<and> cookieView (routeData env r) p = cookieView r p"
    by (auto simp: routeData_def Let_def cookieView_def split: option.splits)
  have g: "rtNext r2 = rtNext r \<and> cookieView r2 p = cookieView r p"
    if "routerReplayAck now w i env r = (b, r2)" for i b r2
    using that by (auto simp: routerReplayAck_def Let_def cookieView_def split: option.splits if_splits)
  have c: "cookieView (r2\<lparr>rtHandshakes := x\<rparr>) p = cookieView r2 p"
    "cookieView (r2\<lparr>rtDroppedHandshakes := y\<rparr>) p = cookieView r2 p" for r2 x y
    by (simp_all add: cookieView_def)
  note q = request_view [OF assms(1)] and a = response_view [OF assms(1) refl m_def]
  show "p < rtNext s" unfolding s_def using assms(1) f less_le_trans [OF assms(1) q(1)] less_le_trans [OF assms(1) a(1)]
    by (auto simp: routerRead_def handlePathControl_def split: sum.splits option.splits prod.splits bool.splits dest!: g)
  show "cookieView s p = cookieView r p \<or> cookieView s p = (m, rsActive (rtHeap r p)) \<or>
      (\<exists>msg k. parsePathControl (envPacket env) = Inr msg \<and> pcType msg = pathControlResponse \<and>
        newSourceAddrKey (envFrom env) = Some k \<and>
        gm_get (rtSessions r) (pcSession msg) = Some p \<and> gm_get m (pcServerNonce msg) = None \<and>
        verifyPathCookie C (pcServerNonce msg) (rsPathKey (rtHeap r p)) (pcSession msg) k
          (pcClientNonce msg) now pathChallengeLifetime \<and>
        cookieView s p = (gm_set m (pcServerNonce msg) (now + pathChallengeLifetime), k))"
  proof (cases "parsePathControl (envPacket env)")
    case (Inl e)
    then show ?thesis using f
      by (auto simp: s_def routerRead_def c split: sum.splits prod.splits bool.splits dest!: g)
  next
    case (Inr msg)
    then show ?thesis using q(2) a(2)
      by (auto simp: s_def routerRead_def handlePathControl_def split: option.splits)
  qed
qed

text \<open>The read loop's clock at an event is not after \<open>t\<close>.\<close>

fun eventUpTo :: "gotime \<Rightarrow> routerEvent \<Rightarrow> bool" where
  "eventUpTo t (Other op) = True"
| "eventUpTo t (Datagram now w d ops env) = (now \<le> t)"

lemma cookies_ok: "router_inv r \<Longrightarrow> p < rtNext r \<Longrightarrow> gm_ok (rsUsedCookies (rtHeap r p))"
  using router_invD(6) by (auto simp: transport_inv_def)

lemma spent_step:
  assumes "router_inv r" "p < rtNext r" "gm_get (rsUsedCookies (rtHeap r p)) c = Some e"
    "eventUpTo t ev" "t < e"
  shows "p < rtNext (routerStep C r ev) \<and> gm_get (rsUsedCookies (rtHeap (routerStep C r ev) p)) c = Some e"
proof (cases ev)
  case (Other op)
  then show ?thesis using op_view [OF assms(2), of op] assms(3) by (simp add: cookieView_def)
next
  case (Datagram now w d ops env)
  let ?m = "gm_keep (\<lambda>_ e. now < e) (rsUsedCookies (rtHeap r p))"
  have m: "gm_get ?m c = Some e"
    using assms Datagram by (simp add: gm_get_keep [OF cookies_ok [OF assms(1,2)]])
  show ?thesis using read_view [OF assms(2) refl refl, of C now w d ops env] m assms(3) Datagram
    by (auto simp: cookieView_def gm_get_set)
qed

lemma spent_run:
  assumes "router_inv r" "p < rtNext r" "gm_get (rsUsedCookies (rtHeap r p)) c = Some e"
    "\<forall>ev \<in> set es. eventUpTo t ev" "t < e"
  shows "gm_get (rsUsedCookies (rtHeap (run (routerStep C) r es) p)) c = Some e"
  using assms
proof (induction es arbitrary: r)
  case (Cons ev es)
  then show ?case using spent_step [of r p c e t ev C] router.invar_step [of r C ev] by simp
qed simp

lemma run_view: "p < rtNext r \<Longrightarrow> p < rtNext (run (routerStep C) r es)"
proof (induction es arbitrary: r)
  case (Cons ev es)
  have "p < rtNext (routerStep C r ev)"
    using Cons.prems op_view [of p r] read_view(1) [OF _ refl refl, of p r] by (cases ev) simp_all
  then show ?case using Cons.IH by simp
qed simp

text \<open>
  A path cookie is spent once. Let a session hold a spent cookie since \<open>now\<close>, that is, with the
  expiry five seconds later, and let the cookie have been issued before. Then whatever happens until
  later, with the read loop's clock not running backwards, no datagram that carries the cookie for
  this session moves the session's return path: either the entry is still there, or the cookie is too
  old. (Issued in the nanosecond it is spent or later, a cookie could pass again after five seconds.)
\<close>

theorem path_cookie_spent_once:
  assumes "r = run (routerStep C) (newRelayTransportRouter q h) es" and "p < rtNext r"
    and "gm_get (rsUsedCookies (rtHeap r p)) cookie = Some (now + 5 * time_Second)"
    and "uint (get_u64 (take 8 cookie)) * time_Second < now"
    and "r' = run (routerStep C) r es'" and "\<forall>ev \<in> set es'. eventUpTo later ev"
    and "parsePathControl (envPacket env) = Inr msg" and "pcServerNonce msg = cookie"
  shows "rsActive (rtHeap (routerStep C r' (Datagram later writeOk seeDone ops env)) p) = rsActive (rtHeap r' p)"
proof (rule ccontr)
  let ?s = "routerStep C r' (Datagram later writeOk seeDone ops env)"
  assume ne: "rsActive (rtHeap ?s p) \<noteq> rsActive (rtHeap r' p)"
  have inv: "router_inv r" unfolding assms(1) by (rule router.invar_run) (rule new_router_inv)
  have inv': "router_inv r'" unfolding assms(5) by (rule router.invar_run [OF inv])
  have p: "p < rtNext r'" unfolding assms(5) by (rule run_view [OF assms(2)])
  have v: "verifyPathCookie C cookie (rsPathKey (rtHeap r' p)) (pcSession msg) k (pcClientNonce msg) later
      pathChallengeLifetime \<Longrightarrow> later < now + 5 * time_Second" for k
    using assms(4) by (auto simp: verifyPathCookie_def issuedRecently_def Let_def gslice_def relay_consts
        split: if_splits)
  have "gm_get (gm_keep (\<lambda>_ e. later < e) (rsUsedCookies (rtHeap r' p))) cookie = Some (now + 5 * time_Second)"
    if "later < now + 5 * time_Second"
    using spent_run [OF inv assms(2,3,6) that, of C, folded assms(5)] that
    by (simp add: gm_get_keep [OF cookies_ok [OF inv' p]])
  then show False
    using read_view(2) [OF p refl refl, of C later writeOk seeDone ops env] assms(7,8) ne v
    by (auto simp: cookieView_def)
qed

theorem path_cookie_spent_once_witness:
  "\<exists>r. r = run (routerStep demo_crypto) (newRelayTransportRouter 0 0) [demo_register, demo_event] \<and>
    rsActive (rtHeap r 0) = demo_key \<and>
    rsActive (rtHeap (routerStep demo_crypto r (Datagram (9 * time_Second) True False []
      \<lparr>envPacket = demo_response, envFrom = Some demo_home\<rparr>)) 0) = demo_key"
proof -
  let ?r = "run (routerStep demo_crypto) (newRelayTransportRouter 0 0) [demo_register, demo_event]"
  define c where "c = newPathCookie demo_crypto (zeros 32) (zeros 16) demo_key (zeros 16) (7 * time_Second)"
  have a: "rsActive (rtHeap ?r 0) = demo_key" and n: "0 < rtNext ?r"
    and u: "gm_get (rsUsedCookies (rtHeap ?r 0)) c = Some (8 * time_Second + 5 * time_Second)"
    and i: "uint (get_u64 (take 8 c)) * time_Second < 8 * time_Second"
    and m: "parsePathControl demo_response = Inr \<lparr>pcType = 3, pcSession = zeros 16, pcClientNonce = zeros 16,
       pcServerNonce = c, pcTag = zeros 32\<rparr>"
    unfolding c_def by code_simp+
  show ?thesis
    using a path_cookie_spent_once [where r = ?r and r' = ?r and p = 0 and cookie = c and es' = "[]"
        and now = "8 * time_Second" and later = "9 * time_Second" and ops = "[]" and C = demo_crypto
        and env = "\<lparr>envPacket = demo_response, envFrom = Some demo_home\<rparr>"
        and msg = "\<lparr>pcType = 3, pcSession = zeros 16, pcClientNonce = zeros 16, pcServerNonce = c,
          pcTag = zeros 32\<rparr>", OF refl n u i] m
    by (simp del: routerStep.simps)
qed

section \<open>The rate of path requests\<close>

text \<open>How many of the requests at the given times get a token.\<close>

fun grantedTokens :: "relaySessionTransport \<Rightarrow> gotime list \<Rightarrow> nat" where
  "grantedTokens s [] = 0"
| "grantedTokens s (now # rest) =
     (case consumePathRequestToken now s of (b, s') \<Rightarrow> (if b then 1 else 0) + grantedTokens s' rest)"

text \<open>Tokens granted and left never exceed tokens held and refilled.\<close>

lemma consume_budget:
  assumes "consumePathRequestToken now s = (b, s')"
  shows "(if b then 1 else 0) + rsTokens s' \<le> rsTokens s + Fract (rsRefillAt s' - rsRefillAt s) time_Second * 2 \<and>
    rsRefillAt s' = max now (rsRefillAt s)"
  using assms by (auto simp: consumePathRequestToken_def Let_def relay_consts Fract_of_int_quotient
      split: if_splits)

lemma granted_budget:
  assumes "\<forall>t \<in> set ts. t \<le> until" "rsRefillAt s \<le> until" "0 \<le> rsTokens s" "rsTokens s \<le> pathRequestTokenBurst"
  shows "of_nat (grantedTokens s ts) \<le> rsTokens s + Fract (until - rsRefillAt s) time_Second * 2"
  using assms
proof (induction ts arbitrary: s)
  case Nil
  then show ?case by (simp add: zero_le_Fract_iff)
next
  case (Cons now ts)
  obtain b s' where c: "consumePathRequestToken now s = (b, s')" by force
  have "of_nat (grantedTokens s' ts) \<le> rsTokens s' + Fract (until - rsRefillAt s') time_Second * 2"
    using Cons.prems consume_budget [OF c] consume_bounds [OF _ _ c] by (intro Cons.IH) auto
  moreover have "Fract (until - rsRefillAt s') time_Second + Fract (rsRefillAt s' - rsRefillAt s) time_Second =
      Fract (until - rsRefillAt s) time_Second"
    by (simp add: Fract_of_int_quotient diff_divide_distrib)
  moreover have "rat_of_nat (grantedTokens s (now # ts)) = (if b then 1 else 0) + of_nat (grantedTokens s' ts)"
    by (simp add: c)
  ultimately show ?case using consume_budget [OF c] by linarith
qed

text \<open>
  Path requests are rate limited. From a freshly registered session on, among any requests up to
  a time, in any order of their clock readings, at most eight plus two per second since the
  registration are answered with a challenge; the rest costs no more than the tag check.
\<close>

theorem path_requests_rate_limited:
  assumes "registerWithPathAuth start i addr key allow r = (Inr p, r')"
    and "\<forall>t \<in> set ts. t \<le> until" and "start \<le> until"
  shows "of_nat (grantedTokens (rtHeap r' p) ts) \<le> 8 + 2 * Fract (until - start) time_Second"
proof -
  have "rsTokens (rtHeap r' p) = 8 \<and> rsRefillAt (rtHeap r' p) = start"
    using assms(1) by (auto simp: registerWithPathAuth_def Let_def relay_consts split: if_splits option.splits)
  then show ?thesis using granted_budget [OF assms(2), of "rtHeap r' p"] assms(3) by (simp add: relay_consts)
qed

theorem path_requests_rate_limited_witness:
  "grantedTokens (rtHeap demo_router 0) (replicate 20 time_Second) \<le> 10"
proof -
  have "registerWithPathAuth 0 (zeros 16) (Some demo_home) (zeros 32) True (newRelayTransportRouter 0 0) =
      (Inr 0, demo_router)"
    by (simp add: demo_router_def demo_register_def registerWithPathAuth_def newRelayTransportRouter_def
        pruneHandshakeTombstones_def gm_keep_def newSourceAddrKey_def demo_home_def Let_def)
  from path_requests_rate_limited [OF this, of "replicate 20 time_Second" time_Second]
  show ?thesis by (simp add: Fract_of_int_quotient)
qed

section \<open>The relay as a machine\<close>

text \<open>
  What changes the relay's own state: hellos, each with what \<open>NewKeyPair\<close> last returned, ending sessions,
  handlers, closing.
\<close>

datatype relayEvent =
    Hello "KeyPair option" acceptTimes bool relayPacketEnvelope
  | SessionEnded SessionID ref
  | PacketReceived
  | HandlerDone
  | CloseRelay gotime

fun relayStep :: "crypto \<Rightarrow> Relay \<times> relayTransportRouter \<Rightarrow> relayEvent \<Rightarrow> Relay \<times> relayTransportRouter" where
  "relayStep C (rl, r) (Hello pair tm w env) = snd (serveHellos C (\<lambda>_. pair) [(tm, w, env)] rl r)"
| "relayStep C (rl, r) (SessionEnded i p) = (removeSession i p rl, r)"
| "relayStep C (rl, r) PacketReceived = (snd (dispatchPacket rl), r)"
| "relayStep C (rl, r) HandlerDone = (handlerReturned rl, r)"
| "relayStep C (rl, r) (CloseRelay now) = relayClose now (rl, r)"

definition relay_inv :: "Relay \<Rightarrow> bool" where
  "relay_inv rl \<longleftrightarrow> gm_ok (rlSessions rl) \<and> length (rlSessions rl) \<le> rlMaxSessions rl \<and>
     rlHandlerTokens rl \<le> rlHandlerConcurrency rl"

lemma addSession_inv: "relay_inv rl \<Longrightarrow> relay_inv (snd (addSession i p rl))"
  by (auto simp: addSession_def relay_inv_def not_le intro: gm.bounded_insert)

lemma removeSession_inv: "relay_inv rl \<Longrightarrow> relay_inv (removeSession i p rl)"
  using gm_len_del_le [of "rlSessions rl" i] by (auto simp: removeSession_def relay_inv_def)

lemma serve_inv: "relay_inv rl \<Longrightarrow> relay_inv (fst (snd (serveHellos C draws es rl r)))"
proof (induction es arbitrary: draws rl r)
  case Nil
  then show ?case by (simp split: option.split)
next
  case (Cons e es)
  obtain tm w env where e: "e = (tm, w, env)" by (cases e)
  show ?case
  proof (cases "draws 0")
    case (Some keyPair)
    obtain o' r' where o': "acceptEnvelope C keyPair tm w rl env r = (o', r')" by force
    show ?thesis
    proof (cases o')
      case (RelayAccepted p session)
      obtain b rl' where a: "addSession (sId session) p rl = (b, rl')" by force
      then have "relay_inv rl'" using addSession_inv [OF Cons.prems, of "sId session" p] by simp
      then show ?thesis using Cons.IH RelayAccepted Some e o' a by (cases b) auto
    qed (use Cons e o' Some in auto)
  qed (use Cons.prems e in simp)
qed

interpretation relay: invariant_machine "relayStep C" "\<lambda>x. relay_inv (fst x)" for C
proof unfold_locales
  fix x :: "Relay \<times> relayTransportRouter" and e assume "relay_inv (fst x)"
  then show "relay_inv (fst (relayStep C x e))"
    using serve_inv [of "fst x" C] removeSession_inv [of "fst x"]
    by (cases x; cases e)
      (auto simp del: serveHellos.simps simp: dispatchPacket_def handlerReturned_def relayClose_def
        relay_inv_def Let_def)
qed

text \<open>
  The relay's load is bounded. Whatever hellos arrive and however sessions and handlers end, the
  relay never holds more sessions than its limit nor runs more handlers than its concurrency.
\<close>

theorem relay_load_bounded:
  assumes "NewRelay opts = Inr rl" and "run (relayStep C) (rl, r) es = (rl', r')"
  shows "length (rlSessions rl') \<le> rlMaxSessions rl' \<and> rlHandlerTokens rl' \<le> rlHandlerConcurrency rl'"
proof -
  have "relay_inv rl" using assms(1) by (auto simp: NewRelay_def relay_inv_def split: if_splits option.splits sum.splits)
  then show ?thesis using relay.invar_run [of "(rl, r)" C es] assms(2) by (simp add: relay_inv_def)
qed

definition demo_relay_options :: RelayOptions where
  "demo_relay_options = \<lparr>roListenAddr = [], roHasTransport = True, roRelayFEC = no_fec, roRelayMaxDatagram = 0,
     roRelayDisableMigration = False, roRelayAuthKey = [], roMaxSessions = 3, roSessionQueueSize = 0,
     roHandlerConcurrency = 1, roHandshakeQueueSize = 0\<rparr>"

definition demo_relay :: Relay where
  "demo_relay = \<lparr>rlFEC = no_fec, rlMaxDatagramSize = 1352, rlDisableMigration = False, rlAuthKey = [],
     rlMaxSessions = 3, rlSessionQueueSize = 256, rlHandlerConcurrency = 1, rlHandshakeQueueSize = 64,
     rlHandlerTokens = 0, rlSessions = [], rlClosed = False\<rparr>"

lemma demo_relay_new: "NewRelay demo_relay_options = Inr demo_relay"
  by code_simp

theorem relay_load_bounded_witness:
  "rlHandlerTokens (fst (run (relayStep demo_crypto) (demo_relay, demo_router)
     [PacketReceived, PacketReceived])) \<le> 1"
proof -
  obtain rl' r' where e: "run (relayStep demo_crypto) (demo_relay, demo_router)
      [PacketReceived, PacketReceived] = (rl', r')" by force
  moreover have "rlHandlerConcurrency rl' = 1" using e
    by (auto simp: dispatchPacket_def demo_relay_def split: if_splits)
  ultimately show ?thesis using relay_load_bounded [OF demo_relay_new e] by simp
qed

text \<open>
  Whom the relay admits. If a hello becomes a session, it was a well-formed, fresh hello with a
  valid authentication tag, for a session id that is not in use and an address that no session uses;
  there was room; and the session has the keys agreed with the hello's public key, the smaller of the
  two datagram limits, the hello's address as its remote and its routed source, and an
  acknowledgement that binds the hello's nonce and public key was sent there.
\<close>

theorem relay_admission:
  assumes "acceptEnvelope C keyPair tm writeOk rl env r = (RelayAccepted p session, r')"
  shows "\<exists>msg keys k remote ack. parseHandshake (envPacket env) = Inr msg \<and> hsType msg = handshakeHello \<and>
    validateHandshakeHelloFreshness msg (atFresh tm) = None \<and>
    verifyHandshakeAuth C msg (rlAuthKey rl) (zeros publicKeySize) = None \<and>
    \<not> gm_has (rlSessions rl) (hsSession msg) \<and> length (rlSessions rl) < rlMaxSessions rl \<and>
    envFrom env = Some remote \<and> newSourceAddrKey (envFrom env) = Some k \<and> \<not> gm_has (rtSources r) k \<and>
    DeriveTrafficKeysWithAuth C keyPair (hsPublic msg) (hsSession msg) RoleServer (rlAuthKey rl) = Inr keys \<and>
    sId session = hsSession msg \<and> sRemote session = remote \<and>
    NewCodecWithMaxDatagramSize (SendKey keys) (min (rlMaxDatagramSize rl) (hsMaxDatagram msg)) =
      Inr (sSendCodec session) \<and>
    NewCodecWithMaxDatagramSize (RecvKey keys) (min (rlMaxDatagramSize rl) (hsMaxDatagram msg)) =
      Inr (sRecvCodec session) \<and>
    gm_get (rtSources r') k = Some p \<and>
    marshalHandshake C handshakeHelloAck (hsSession msg) (KeyPair_PublicKey C keyPair)
      (min (rlMaxDatagramSize rl) (hsMaxDatagram msg)) (unixMillis (atAck tm)) (hsNonce msg) (rlAuthKey rl)
      (hsPublic msg) = Inr ack \<and> (ack, Some remote) \<in> set (rtWrites r')"
proof -
  have reg: "\<exists>k. newSourceAddrKey addr = Some k \<and> \<not> gm_has (rtSources r) k \<and> gm_get (rtSources r2) k = Some p \<and>
      gm_get (rsPaths (rtHeap r2 p)) (rsActive (rtHeap r2 p)) =
        Some \<lparr>pathAddr = addr, authenticatedAt = now, lastSeen = now\<rparr>"
    if "registerWithPathAuth now i addr key allow r1 = (Inr p, r2)" "rtSources r1 = rtSources r"
    for now i addr key allow r1 r2 p
    using that by (auto simp: registerWithPathAuth_def Let_def pruneHandshakeTombstones_def
        split: if_splits option.splits)
  have tb: "rtSources r1 = rtSources r" if "handshakeTombstoned now i r = (b, r1)" for now i b r1
    using that by (auto simp: handshakeTombstoned_def Let_def pruneHandshakeTombstones_def)
  let ?mx = "\<lambda>msg. min (rlMaxDatagramSize rl) (hsMaxDatagram msg)"
  obtain msg r1 keys r2 ack r3 q where h: "parseHandshake (envPacket env) = Inr msg"
      "hsType msg = handshakeHello" "validateHandshakeHelloFreshness msg (atFresh tm) = None"
      "verifyHandshakeAuth C msg (rlAuthKey rl) (zeros publicKeySize) = None"
      "\<not> hasSession (hsSession msg) rl" "canAcceptSession rl"
      "DeriveTrafficKeysWithAuth C keyPair (hsPublic msg) (hsSession msg) RoleServer (rlAuthKey rl) = Inr keys"
    and t: "handshakeTombstoned (atTombstone tm) (hsSession msg) r = (False, r1)"
    and g: "registerWithPathAuth (atRegister tm) (hsSession msg) (envFrom env)
      (derivePathAuthKey C (RecvKey keys) (hsSession msg)) (\<not> rlDisableMigration rl) r1 = (Inr p, r2)"
    and ack: "marshalHandshake C handshakeHelloAck (hsSession msg) (KeyPair_PublicKey C keyPair) (?mx msg)
      (unixMillis (atAck tm)) (hsNonce msg) (rlAuthKey rl) (hsPublic msg) = Inr ack"
    and w: "transportWrite p ack writeOk r2 = (None, r3)"
    and r': "r' = registerHandshakeReplay (hsSession msg) (envPacket env) ack (envFrom env)
      (timeUnixMilli (hsUnixMilli msg)) r3"
    and n: "NewDatagramSession \<lparr>optID = hsSession msg, optTransport = Some relayTransportView,
      optRemoteAddr = envFrom env, optSendKey = SendKey keys, optRecvKey = RecvKey keys, optStreamQueue = 0,
      optFEC = rlFEC rl, optMaxDatagramSize = ?mx msg, optDisableMigration = rlDisableMigration rl,
      optValidateRemote = None, optHandshakeReplay = None\<rparr> = Inr (session, q)"
    using assms unfolding acceptEnvelope_def Let_def
    by (simp split: sum.splits if_splits prod.splits bool.splits option.splits)
  obtain remote where rem: "envFrom env = Some remote"
    using n by (cases "envFrom env") (auto simp: NewDatagramSession_def)
  obtain k where k: "newSourceAddrKey (envFrom env) = Some k" "\<not> gm_has (rtSources r) k"
      "gm_get (rtSources r2) k = Some p"
    and act: "gm_get (rsPaths (rtHeap r2 p)) (rsActive (rtHeap r2 p)) =
      Some \<lparr>pathAddr = envFrom env, authenticatedAt = atRegister tm, lastSeen = atRegister tm\<rparr>"
    using reg [OF g tb [OF t]] by blast
  have r3: "r3 = r2\<lparr>rtWrites := rtWrites r2 @ [(ack, Some remote)]\<rparr>"
    using w act rem by (auto simp: transportWrite_def Let_def split: if_splits)
  have s: "sId session = hsSession msg" "sRemote session = remote"
      "NewCodecWithMaxDatagramSize (SendKey keys) (?mx msg) = Inr (sSendCodec session)"
      "NewCodecWithMaxDatagramSize (RecvKey keys) (?mx msg) = Inr (sRecvCodec session)"
    using n rem by (auto simp: NewDatagramSession_def Let_def split: option.splits sum.splits)
  have "gm_get (rtSources r') k = Some p" "(ack, Some remote) \<in> set (rtWrites r')"
    using k(3) by (simp_all add: r' r3 registerHandshakeReplay_def)
  then show ?thesis using h ack k(1,2) rem s
    by (auto simp: hasSession_def canAcceptSession_def)
qed

definition demo_hello :: "SessionID \<Rightarrow> bytes" where
  "demo_hello i = (case marshalHandshake demo_crypto handshakeHello i (replicate 32 5) 1300 5000 (replicate 16 3) []
     (zeros 32) of Inr w \<Rightarrow> w | Inl _ \<Rightarrow> [])"

definition demo_times :: acceptTimes where
  "demo_times = \<lparr>atFresh = time_Second, atTombstone = time_Second, atRegister = time_Second, atAck = time_Second,
     atClose = time_Second\<rparr>"

theorem relay_admission_witness:
  "\<exists>p session r' remote. acceptEnvelope demo_crypto (Some (replicate 32 6)) demo_times True demo_relay
      \<lparr>envPacket = demo_hello (replicate 16 1), envFrom = Some demo_away\<rparr> demo_router =
        (RelayAccepted p session, r') \<and> sRemote session = remote \<and> remote = demo_away"
proof -
  let ?a = "acceptEnvelope demo_crypto (Some (replicate 32 6)) demo_times True demo_relay
      \<lparr>envPacket = demo_hello (replicate 16 1), envFrom = Some demo_away\<rparr> demo_router"
  have "case fst ?a of RelayAccepted p session \<Rightarrow> True | _ \<Rightarrow> False" by code_simp
  then obtain p session r' where e: "?a = (RelayAccepted p session, r')"
    by (cases ?a) (auto split: relayOutcome.splits)
  from relay_admission [OF e] e show ?thesis by auto
qed

text \<open>
  C40. A hello from an address in use stops the relay. A valid hello for a new session id, from an
  address that already has a session (a client that restarts on the same port, or anybody who holds
  the authentication key), is not skipped: registering it fails and the accept loop, and with it
  \<open>ListenAndServe\<close>, returns this error whatever hellos follow.
\<close>

theorem relay_stops_on_reused_source:
  assumes "parseHandshake (envPacket env) = Inr msg" and "hsType msg = handshakeHello"
    and "validateHandshakeHelloFreshness msg (atFresh tm) = None"
    and "verifyHandshakeAuth C msg (rlAuthKey rl) (zeros publicKeySize) = None"
    and "\<not> fst (handshakeTombstoned (atTombstone tm) (hsSession msg) r)"
    and "MinTGPDatagramSize \<le> hsMaxDatagram msg" and "hsMaxDatagram msg \<le> MaxTGPDatagramSize"
    and "\<not> hasSession (hsSession msg) rl" and "canAcceptSession rl" and "\<not> rtClosed r"
    and "DeriveTrafficKeysWithAuth C keyPair (hsPublic msg) (hsSession msg) RoleServer (rlAuthKey rl) = Inr keys"
    and "newSourceAddrKey (envFrom env) = Some k" and "gm_has (rtSources r) k" and "draws 0 = Some keyPair"
  shows "fst (serveHellos C draws ((tm, writeOk, env) # rest) rl r) = Some ErrInvalidHandshake"
proof -
  obtain r1 where t: "handshakeTombstoned (atTombstone tm) (hsSession msg) r = (False, r1)"
    using assms(5) by (cases "handshakeTombstoned (atTombstone tm) (hsSession msg) r") auto
  have r1: "rtSources r1 = rtSources r" "rtClosed r1 = rtClosed r"
    using t by (auto simp: handshakeTombstoned_def Let_def pruneHandshakeTombstones_def)
  have "\<exists>r2. registerWithPathAuth now i (envFrom env) key allow r1 = (Inl ErrInvalidHandshake, r2)" for now i key allow
    using assms(10,12,13) r1 by (auto simp: registerWithPathAuth_def Let_def pruneHandshakeTombstones_def)
  then obtain r2 where "registerWithPathAuth (atRegister tm) (hsSession msg) (envFrom env)
      (derivePathAuthKey C (RecvKey keys) (hsSession msg)) (\<not> rlDisableMigration rl) r1 = (Inl ErrInvalidHandshake, r2)"
    by blast
  then show ?thesis using assms(1-4,6-9,11,14) t by (simp add: acceptEnvelope_def Let_def)
qed

theorem relay_stops_on_reused_source_witness:
  "fst (serveHellos demo_crypto (\<lambda>_. Some (Some (replicate 32 6)))
     [(demo_times, True, \<lparr>envPacket = demo_hello (replicate 16 1), envFrom = Some demo_home\<rparr>),
      (demo_times, True, \<lparr>envPacket = demo_hello (replicate 16 2), envFrom = Some demo_away\<rparr>)]
     demo_relay demo_router) = Some ErrInvalidHandshake"
proof -
  define msg where "msg = \<lparr>hsType = handshakeHello, hsSession = replicate 16 1, hsPublic = replicate 32 5,
    hsMaxDatagram = 1300, hsUnixMilli = 5000, hsNonce = replicate 16 3, hsAuthTag = []\<rparr>"
  have m: "parseHandshake (envPacket \<lparr>envPacket = demo_hello (replicate 16 1), envFrom = Some demo_home\<rparr>) = Inr msg"
    and f: "hsType msg = handshakeHello" "validateHandshakeHelloFreshness msg (atFresh demo_times) = None"
      "verifyHandshakeAuth demo_crypto msg (rlAuthKey demo_relay) (zeros publicKeySize) = None"
      "\<not> fst (handshakeTombstoned (atTombstone demo_times) (hsSession msg) demo_router)"
      "MinTGPDatagramSize \<le> hsMaxDatagram msg" "hsMaxDatagram msg \<le> MaxTGPDatagramSize"
      "\<not> hasSession (hsSession msg) demo_relay" "canAcceptSession demo_relay" "\<not> rtClosed demo_router"
    unfolding msg_def by code_simp+
  obtain keys where k: "DeriveTrafficKeysWithAuth demo_crypto (Some (replicate 32 6)) (hsPublic msg) (hsSession msg)
      RoleServer (rlAuthKey demo_relay) = Inr keys"
    unfolding msg_def by (simp add: DeriveTrafficKeysWithAuth_def demo_crypto_def publicKeySize_def Let_def)
  have s: "newSourceAddrKey (envFrom \<lparr>envPacket = demo_hello (replicate 16 1), envFrom = Some demo_home\<rparr>) =
        Some \<lparr>srcNetwork = ''udp'', srcAddress = ''10.0.0.1:1''\<rparr>"
      "gm_has (rtSources demo_router) \<lparr>srcNetwork = ''udp'', srcAddress = ''10.0.0.1:1''\<rparr>"
    by code_simp+
  show ?thesis by (rule relay_stops_on_reused_source [OF m f k s refl])
qed

end
