(* ===== verification/Registry.thy ===== *)
theory Registry
  imports Tunnel GoMap Complex_Main
begin

text \<open>
  The captured-UDP registry (\<open>internal/capturedudp/registry.go\<close>): the trust boundary between the
  capture helper and the core. It holds the transport attachment, the one controller with its
  capability, the policy generations, the flow leases, the rate limits and the budget of buffers that
  are still out.

  Objects shared by pointer live in the registry's own stores: \<open>rgAttachments\<close> and \<open>rgBuffers\<close> list
  every attachment and every buffer lease in the order of their creation, and a pointer is an index.
  What the random source and the clock deliver are arguments. Token buckets count in exact rationals
  where the source has \<open>float64\<close>. A panic is the value \<open>None\<close>.
\<close>

section \<open>Constants and errors\<close>

definition HardMaxFlows :: int where "HardMaxFlows = 65536"
definition HardMaxDatagramSize :: int where
  "HardMaxDatagramSize = MaxTGPDatagramSize - int CapturedUDPV2IPv4Overhead"
definition HardMaxBufferedBytes :: int where "HardMaxBufferedBytes = 64 * 2 ^ 20"
definition HardMaxFlowTTL :: duration where "HardMaxFlowTTL = 3600 * time_Second"
definition MinFlowTTL :: duration where "MinFlowTTL = time_Second"
definition HardMaxPacketsPerSecond :: int where "HardMaxPacketsPerSecond = 200000"
definition HardMaxPacketBurst :: int where "HardMaxPacketBurst = 20000"
definition HardMaxBytesPerSecond :: int where "HardMaxBytesPerSecond = 256 * 2 ^ 20"
definition HardMaxByteBurst :: int where "HardMaxByteBurst = 64 * 2 ^ 20"
definition HardMaxControlOpsPerSecond :: int where "HardMaxControlOpsPerSecond = 10000"
definition HardMaxControlBurst :: int where "HardMaxControlBurst = 1000"
definition HardMaxOutstandingObjects :: int where "HardMaxOutstandingObjects = 8192"
definition HardMaxObjectsPerDirection :: int where "HardMaxObjectsPerDirection = 4096"
definition HardMaxOutstandingMetadata :: int where "HardMaxOutstandingMetadata = 2 ^ 20"
definition HardMaxMetadataPerDirection :: int where "HardMaxMetadataPerDirection = 768 * 2 ^ 10"
definition MinPayloadReservation :: int where "MinPayloadReservation = 64"
definition defaultMaxFlows :: int where "defaultMaxFlows = 4096"
definition defaultBufferedBytes :: int where "defaultBufferedBytes = 8 * 2 ^ 20"
definition defaultFlowTTL :: duration where "defaultFlowTTL = 120 * time_Second"
definition defaultPacketsPerSecond :: int where "defaultPacketsPerSecond = 20000"
definition defaultPacketBurst :: int where "defaultPacketBurst = 2000"
definition defaultBytesPerSecond :: int where "defaultBytesPerSecond = 32 * 2 ^ 20"
definition defaultByteBurst :: int where "defaultByteBurst = 8 * 2 ^ 20"
definition defaultControlOpsPerSecond :: int where "defaultControlOpsPerSecond = 2000"
definition defaultControlBurst :: int where "defaultControlBurst = 200"
definition estimatedFlowMetaSize :: int where "estimatedFlowMetaSize = 256"
definition hardFlowMetadataBytes :: int where "hardFlowMetadataBytes = 16 * 2 ^ 20"
definition outstandingObjectMetaSize :: int where "outstandingObjectMetaSize = 160"

lemmas registry_consts = HardMaxFlows_def HardMaxDatagramSize_def HardMaxBufferedBytes_def
  HardMaxFlowTTL_def MinFlowTTL_def HardMaxPacketsPerSecond_def HardMaxPacketBurst_def
  HardMaxBytesPerSecond_def HardMaxByteBurst_def HardMaxControlOpsPerSecond_def
  HardMaxControlBurst_def HardMaxOutstandingObjects_def HardMaxObjectsPerDirection_def
  HardMaxOutstandingMetadata_def HardMaxMetadataPerDirection_def MinPayloadReservation_def
  defaultMaxFlows_def defaultBufferedBytes_def defaultFlowTTL_def defaultPacketsPerSecond_def
  defaultPacketBurst_def defaultBytesPerSecond_def defaultByteBurst_def
  defaultControlOpsPerSecond_def defaultControlBurst_def estimatedFlowMetaSize_def
  hardFlowMetadataBytes_def outstandingObjectMetaSize_def CapturedUDPV2IPv4Overhead_def

datatype cap_error =
    CapErrAuthentication
  | CapErrClosed
  | ErrInvalidFlow
  | ErrUnknownFlow
  | ErrDuplicateFlow
  | ErrInvalidGeneration
  | ErrStaleGeneration
  | ErrGenerationNotActive
  | ErrSequenceReplay
  | CapErrDatagramTooLarge
  | ErrFlowLimit
  | ErrBufferBudget
  | ErrTransportNotVerified
  | ErrTransportMismatch
  | ErrTransportActive
  | ErrControllerActive
  | ErrControllerRevoked
  | ErrTransactionActive
  | ErrUnknownTransaction
  | ErrMissingLeaseIdentity
  | ErrRateLimit
  | ErrAttachmentStale
  | ErrOutstandingBudget
  | ErrLimits
  | ErrRandom

section \<open>Limits\<close>

record Limits =
  MaxFlows :: int
  limMaxTGPDatagramSize :: int
  limMaxDatagramSize :: int
  MaxBufferedBytes :: int
  FlowTTL :: duration
  PacketsPerSecond :: int
  PacketBurst :: int
  BytesPerSecond :: int
  ByteBurst :: int
  ControlOpsPerSecond :: int
  ControlBurst :: int

text \<open>\<open>x <= 0\<close> stands for the default.\<close>

abbreviation orDefault :: "int \<Rightarrow> int \<Rightarrow> int" where
  "orDefault x d \<equiv> if x \<le> 0 then d else x"

definition Limits_normalized :: "Limits \<Rightarrow> cap_error + Limits" where
  "Limits_normalized l =
     (let l = l\<lparr>MaxFlows := orDefault (MaxFlows l) defaultMaxFlows,
                limMaxTGPDatagramSize := orDefault (limMaxTGPDatagramSize l) DefaultTGPDatagramSize\<rparr>
      in if limMaxTGPDatagramSize l < MinTGPDatagramSize \<or> limMaxTGPDatagramSize l > MaxTGPDatagramSize
         then Inl ErrLimits
         else
           let maxPayload = limMaxTGPDatagramSize l - int CapturedUDPV2IPv4Overhead;
               l = l\<lparr>limMaxDatagramSize := orDefault (limMaxDatagramSize l) maxPayload,
                     MaxBufferedBytes := orDefault (MaxBufferedBytes l) defaultBufferedBytes,
                     FlowTTL := orDefault (FlowTTL l) defaultFlowTTL\<rparr>
           in if MaxFlows l > HardMaxFlows \<or> MaxFlows l * estimatedFlowMetaSize > hardFlowMetadataBytes
              then Inl ErrLimits
              else if limMaxDatagramSize l > HardMaxDatagramSize \<or> limMaxDatagramSize l > maxPayload
              then Inl ErrLimits
              else
                let minimumBufferedBytes = max (limMaxDatagramSize l) MinPayloadReservation
                in if MaxBufferedBytes l > HardMaxBufferedBytes \<or> MaxBufferedBytes l < minimumBufferedBytes
                   then Inl ErrLimits
                   else if FlowTTL l < MinFlowTTL \<or> FlowTTL l > HardMaxFlowTTL then Inl ErrLimits
                   else
                     let l = l\<lparr>PacketsPerSecond := orDefault (PacketsPerSecond l) defaultPacketsPerSecond,
                               PacketBurst := orDefault (PacketBurst l) defaultPacketBurst,
                               BytesPerSecond := orDefault (BytesPerSecond l) defaultBytesPerSecond,
                               ByteBurst := orDefault (ByteBurst l) defaultByteBurst,
                               ControlOpsPerSecond := orDefault (ControlOpsPerSecond l) defaultControlOpsPerSecond,
                               ControlBurst := orDefault (ControlBurst l) defaultControlBurst\<rparr>
                     in if PacketsPerSecond l > HardMaxPacketsPerSecond \<or> PacketBurst l > HardMaxPacketBurst \<or>
                           BytesPerSecond l > HardMaxBytesPerSecond \<or> ByteBurst l > HardMaxByteBurst \<or>
                           ControlOpsPerSecond l > HardMaxControlOpsPerSecond \<or>
                           ControlBurst l > HardMaxControlBurst
                        then Inl ErrLimits
                        else if ByteBurst l < limMaxDatagramSize l then Inl ErrLimits
                        else Inr l)"

section \<open>State\<close>

datatype attachmentState = attachmentNew | attachmentAttached | attachmentDetached | attachmentClosed

text \<open>\<open>attOwn\<close>: the attachment was made by this registry.\<close>

record TransportAttachment =
  attOwn :: bool
  attId :: bytes
  peerVerified :: bool
  attState :: attachmentState

record FlowSpec =
  specID :: bytes
  specGeneration :: u64
  specFamily :: byte
  specLocal :: AddrPort
  specRemote :: AddrPort

record flowLease =
  flSpec :: FlowSpec
  flNonce :: bytes
  hasSequence :: bool
  flSequence :: u64
  lastActivity :: gotime

text \<open>What \<open>OpenFlow\<close> returns, a captured datagram, and a resolved reply.\<close>

record FlowLease =
  leaseFlow :: bytes
  leaseGeneration :: u64
  leaseNonce :: bytes
  leaseExpires :: gotime

record Datagram =
  dgFlow :: bytes
  dgGeneration :: u64
  dgNonce :: bytes
  dgSequence :: u64
  dgPayload :: bytes

record Delivery =
  dvFlow :: bytes
  dvGeneration :: u64
  dvNonce :: bytes
  dvPayload :: bytes

record preparedGeneration =
  pgId :: bytes
  pgGeneration :: u64

record tokenBucket =
  tbRate :: rat
  tbBurst :: rat
  tbTokens :: rat
  tbLast :: gotime

definition newTokenBucket :: "int \<Rightarrow> int \<Rightarrow> gotime \<Rightarrow> tokenBucket" where
  "newTokenBucket rate burst now =
     \<lparr>tbRate = of_int rate, tbBurst = of_int burst, tbTokens = of_int burst, tbLast = now\<rparr>"

definition refill :: "gotime \<Rightarrow> tokenBucket \<Rightarrow> tokenBucket" where
  "refill now bucket =
     (if \<not> now > tbLast bucket then bucket
      else
        let tokens = tbTokens bucket + Fract (now - tbLast bucket) time_Second * tbRate bucket
        in bucket\<lparr>tbTokens := (if tokens > tbBurst bucket then tbBurst bucket else tokens),
                  tbLast := now\<rparr>)"

datatype bufferDirection = bufferAccepted | bufferDelivery

record bufferLease =
  blBytes :: int
  blMetadata :: int
  blDirection :: bufferDirection
  blReleased :: bool

record Stats =
  AuthenticationFailures :: u64
  ControllersConnected :: u64
  ControllerDisconnects :: u64
  GenerationsPrepared :: u64
  GenerationsCommitted :: u64
  GenerationsAborted :: u64
  GenerationsDisabled :: u64
  FlowsOpened :: u64
  FlowsClosed :: u64
  FlowsEvicted :: u64
  FlowsExpired :: u64
  DatagramsAccepted :: u64
  RepliesResolved :: u64
  DataRateLimited :: u64
  ControlRateLimited :: u64
  Rejected :: u64

type_synonym pointer = nat

record Registry =
  rgLimits :: Limits
  rgClosed :: bool
  rgAttachments :: "TransportAttachment list"
  rgAttachment :: "pointer option"
  rgToken :: bytes
  rgTokenIssued :: bool
  rgController :: bytes
  rgControllerAlive :: bool
  rgPacketBucket :: tokenBucket
  rgByteBucket :: tokenBucket
  rgControlBucket :: tokenBucket
  rgPrepared :: "preparedGeneration option"
  rgActiveGeneration :: u64
  rgLastGeneration :: u64
  rgFlows :: "(bytes, flowLease) gomap"
  rgBufferedBytes :: int
  rgOutstandingObjects :: int
  rgOutstandingMetadata :: int
  rgObjects :: "bufferDirection \<Rightarrow> int"
  rgMetadata :: "bufferDirection \<Rightarrow> int"
  rgBuffers :: "bufferLease list"
  rgStats :: Stats

definition zeroStats :: Stats where
  "zeroStats = \<lparr>AuthenticationFailures = 0, ControllersConnected = 0, ControllerDisconnects = 0,
     GenerationsPrepared = 0, GenerationsCommitted = 0, GenerationsAborted = 0, GenerationsDisabled = 0,
     FlowsOpened = 0, FlowsClosed = 0, FlowsEvicted = 0, FlowsExpired = 0, DatagramsAccepted = 0,
     RepliesResolved = 0, DataRateLimited = 0, ControlRateLimited = 0, Rejected = 0\<rparr>"

definition zeroBucket :: tokenBucket where
  "zeroBucket = \<lparr>tbRate = 0, tbBurst = 0, tbTokens = 0, tbLast = 0\<rparr>"

definition newRegistry :: "Limits \<Rightarrow> cap_error + Registry" where
  "newRegistry options =
     (case Limits_normalized options of
        Inl e \<Rightarrow> Inl e
      | Inr limits \<Rightarrow>
          Inr \<lparr>rgLimits = limits, rgClosed = False, rgAttachments = [], rgAttachment = None,
               rgToken = zeros 32, rgTokenIssued = False, rgController = zeros 16,
               rgControllerAlive = False, rgPacketBucket = zeroBucket, rgByteBucket = zeroBucket,
               rgControlBucket = zeroBucket, rgPrepared = None, rgActiveGeneration = 0,
               rgLastGeneration = 0, rgFlows = [], rgBufferedBytes = 0, rgOutstandingObjects = 0,
               rgOutstandingMetadata = 0, rgObjects = (\<lambda>_. 0), rgMetadata = (\<lambda>_. 0), rgBuffers = [],
               rgStats = zeroStats\<rparr>)"

text \<open>Counting.\<close>

abbreviation rejected :: "Registry \<Rightarrow> Registry" where
  "rejected r \<equiv> r\<lparr>rgStats := (rgStats r)\<lparr>Rejected := Rejected (rgStats r) + 1\<rparr>\<rparr>"

abbreviation authFailed :: "Registry \<Rightarrow> Registry" where
  "authFailed r \<equiv> r\<lparr>rgStats := (rgStats r)\<lparr>AuthenticationFailures := AuthenticationFailures (rgStats r) + 1\<rparr>\<rparr>"

text \<open>\<open>readRandom\<close>: the bytes the source delivers; all zero is refused.\<close>

definition readRandom :: "bytes option \<Rightarrow> cap_error + bytes" where
  "readRandom source =
     (case source of
        None \<Rightarrow> Inl ErrRandom
      | Some destination \<Rightarrow>
          if foldl (OR) 0 destination = 0 then Inl ErrRandom else Inr destination)"

section \<open>Attachments and the controller\<close>

definition newTransportAttachment :: "bytes option \<Rightarrow> bool \<Rightarrow> Registry \<Rightarrow> (cap_error + pointer) \<times> Registry" where
  "newTransportAttachment random verified r =
     (case readRandom random of
        Inl e \<Rightarrow> (Inl e, r)
      | Inr aid \<Rightarrow>
          if rgClosed r then (Inl CapErrClosed, r)
          else (Inr (length (rgAttachments r)),
                r\<lparr>rgAttachments := rgAttachments r @
                   [\<lparr>attOwn = True, attId = aid, peerVerified = verified, attState = attachmentNew\<rparr>]\<rparr>))"

definition destroyAttachment :: "pointer \<Rightarrow> attachmentState \<Rightarrow> Registry \<Rightarrow> Registry" where
  "destroyAttachment a st r =
     r\<lparr>rgAttachments := (rgAttachments r)[a := (rgAttachments r ! a)
        \<lparr>attId := zeros 32, peerVerified := False, attState := st\<rparr>]\<rparr>"

definition evictFlows :: "bool \<Rightarrow> Registry \<Rightarrow> Registry" where
  "evictFlows expired r =
     (let count = length (rgFlows r);
          r = (if count \<noteq> 0
               then (if expired
                     then r\<lparr>rgStats := (rgStats r)\<lparr>FlowsExpired := FlowsExpired (rgStats r) + of_nat count\<rparr>\<rparr>
                     else r\<lparr>rgStats := (rgStats r)\<lparr>FlowsEvicted := FlowsEvicted (rgStats r) + of_nat count\<rparr>\<rparr>)
               else r)
      in r\<lparr>rgFlows := []\<rparr>)"

definition revokeController :: "bool \<Rightarrow> Registry \<Rightarrow> Registry" where
  "revokeController countDisconnect r =
     (let r = (if rgControllerAlive r \<and> countDisconnect
               then r\<lparr>rgStats := (rgStats r)\<lparr>ControllerDisconnects := ControllerDisconnects (rgStats r) + 1\<rparr>\<rparr>
               else r)
      in evictFlows False (r\<lparr>rgToken := zeros 32, rgTokenIssued := False, rgController := zeros 16,
            rgControllerAlive := False, rgPrepared := None, rgActiveGeneration := 0\<rparr>))"

text \<open>A nil pointer is \<open>None\<close>; an attachment of another registry has \<open>attOwn\<close> false.\<close>

definition AttachTransport :: "bytes option \<Rightarrow> pointer option \<Rightarrow> Registry \<Rightarrow> (cap_error + bytes) \<times> Registry" where
  "AttachTransport random attachment r =
     (if rgClosed r then
        (Inl CapErrClosed,
         case attachment of
           None \<Rightarrow> r
         | Some a \<Rightarrow> if attOwn (rgAttachments r ! a) \<and> attState (rgAttachments r ! a) = attachmentNew
                     then destroyAttachment a attachmentClosed r else r)
      else case attachment of
        None \<Rightarrow> (Inl ErrTransportMismatch, r)
      | Some a \<Rightarrow>
          if \<not> attOwn (rgAttachments r ! a) then (Inl ErrTransportMismatch, r)
          else if attState (rgAttachments r ! a) \<noteq> attachmentNew \<or> attId (rgAttachments r ! a) = zeros 32
          then (Inl ErrAttachmentStale, r)
          else if \<not> peerVerified (rgAttachments r ! a) then (Inl ErrTransportNotVerified, r)
          else if rgAttachment r \<noteq> None \<or> rgControllerAlive r then (Inl ErrTransportActive, r)
          else case readRandom random of
            Inl e \<Rightarrow> (Inl e, r)
          | Inr token \<Rightarrow>
              (Inr token, r\<lparr>rgAttachments := (rgAttachments r)[a := (rgAttachments r ! a)\<lparr>attState := attachmentAttached\<rparr>],
                            rgAttachment := Some a, rgToken := token, rgTokenIssued := True\<rparr>))"

definition detachTransport :: "pointer option \<Rightarrow> Registry \<Rightarrow> cap_error option \<times> Registry" where
  "detachTransport attachment r =
     (case attachment of
        None \<Rightarrow> (Some ErrTransportMismatch, r)
      | Some a \<Rightarrow>
          if \<not> attOwn (rgAttachments r ! a) then (Some ErrTransportMismatch, r)
          else if rgClosed r then
            (Some CapErrClosed, if attState (rgAttachments r ! a) = attachmentNew
                                then destroyAttachment a attachmentClosed r else r)
          else if attState (rgAttachments r ! a) = attachmentNew then (Some ErrTransportMismatch, r)
          else if attState (rgAttachments r ! a) \<noteq> attachmentAttached \<or> attId (rgAttachments r ! a) = zeros 32
          then (Some ErrAttachmentStale, r)
          else if rgAttachment r \<noteq> Some a then (Some ErrTransportMismatch, r)
          else (None, destroyAttachment a attachmentDetached ((revokeController True r)\<lparr>rgAttachment := None\<rparr>)))"

text \<open>The controller: its capability and the attachment it is bound to.\<close>

record Controller =
  ctrlId :: bytes
  ctrlAttachment :: pointer
  ctrlCloseOnce :: bool

definition Authenticate :: "bytes option \<Rightarrow> gotime \<Rightarrow> pointer option \<Rightarrow> bytes \<Rightarrow> Registry \<Rightarrow>
    (cap_error + Controller) \<times> Registry" where
  "Authenticate random now attachment token r =
     (if rgClosed r then (Inl CapErrClosed, r)
      else case attachment of
        None \<Rightarrow> (Inl ErrTransportMismatch, authFailed r)
      | Some a \<Rightarrow>
          if \<not> attOwn (rgAttachments r ! a) \<or> rgAttachment r \<noteq> Some a
          then (Inl ErrTransportMismatch, authFailed r)
          else if attState (rgAttachments r ! a) \<noteq> attachmentAttached \<or> attId (rgAttachments r ! a) = zeros 32
          then (Inl ErrAttachmentStale, authFailed r)
          else if \<not> peerVerified (rgAttachments r ! a) then (Inl ErrTransportNotVerified, authFailed r)
          else if rgControllerAlive r then (Inl ErrControllerActive, r)
          else if \<not> rgTokenIssued r \<or> rgToken r \<noteq> token then (Inl CapErrAuthentication, authFailed r)
          else case readRandom random of
            Inl e \<Rightarrow> (Inl e, r)
          | Inr cid \<Rightarrow>
              (Inr \<lparr>ctrlId = cid, ctrlAttachment = a, ctrlCloseOnce = False\<rparr>,
               r\<lparr>rgToken := zeros 32, rgTokenIssued := False, rgController := cid,
                 rgControllerAlive := True,
                 rgPacketBucket := newTokenBucket (PacketsPerSecond (rgLimits r)) (PacketBurst (rgLimits r)) now,
                 rgByteBucket := newTokenBucket (BytesPerSecond (rgLimits r)) (ByteBurst (rgLimits r)) now,
                 rgControlBucket := newTokenBucket (ControlOpsPerSecond (rgLimits r)) (ControlBurst (rgLimits r)) now,
                 rgStats := (rgStats r)\<lparr>ControllersConnected := ControllersConnected (rgStats r) + 1\<rparr>\<rparr>))"

definition disconnectController :: "bytes \<Rightarrow> pointer option \<Rightarrow> Registry \<Rightarrow> cap_error option \<times> Registry" where
  "disconnectController cid attachment r =
     (if rgClosed r then (Some CapErrClosed, r)
      else case attachment of
        None \<Rightarrow> (Some ErrControllerRevoked, r)
      | Some a \<Rightarrow>
          if \<not> rgControllerAlive r \<or> rgController r \<noteq> cid \<or> rgAttachment r \<noteq> Some a \<or>
             attState (rgAttachments r ! a) \<noteq> attachmentAttached \<or> attId (rgAttachments r ! a) = zeros 32
          then (Some ErrControllerRevoked, r)
          else (None, destroyAttachment a attachmentDetached ((revokeController True r)\<lparr>rgAttachment := None\<rparr>)))"

text \<open>\<open>Controller.Close\<close>, once.\<close>

definition controllerClose :: "Controller option \<Rightarrow> Registry \<Rightarrow> cap_error option \<times> Controller option \<times> Registry" where
  "controllerClose controller r =
     (case controller of
        None \<Rightarrow> (None, None, r)
      | Some c \<Rightarrow>
          if ctrlCloseOnce c then (None, Some c, r)
          else case disconnectController (ctrlId c) (Some (ctrlAttachment c)) r of
            (e, r) \<Rightarrow> (e, Some (c\<lparr>ctrlCloseOnce := True\<rparr>), r))"

definition registryClose :: "Registry \<Rightarrow> Registry" where
  "registryClose r =
     (if rgClosed r then r
      else
        let r = revokeController False (r\<lparr>rgClosed := True\<rparr>);
            r = (case rgAttachment r of None \<Rightarrow> r | Some a \<Rightarrow> destroyAttachment a attachmentClosed r)
        in r\<lparr>rgAttachment := None\<rparr>)"

definition requireController :: "bytes \<Rightarrow> Registry \<Rightarrow> cap_error option" where
  "requireController cid r =
     (if rgClosed r then Some CapErrClosed
      else if \<not> rgControllerAlive r \<or> rgController r \<noteq> cid then Some ErrControllerRevoked
      else None)"

section \<open>Rates and buffers\<close>

definition consumeControl :: "gotime \<Rightarrow> Registry \<Rightarrow> cap_error option \<times> Registry" where
  "consumeControl now r =
     (let bucket = refill now (rgControlBucket r); r = r\<lparr>rgControlBucket := bucket\<rparr>
      in if tbTokens bucket < 1
         then (Some ErrRateLimit,
               r\<lparr>rgStats := (rgStats r)\<lparr>ControlRateLimited := ControlRateLimited (rgStats r) + 1,
                                       Rejected := Rejected (rgStats r) + 1\<rparr>\<rparr>)
         else (None, r\<lparr>rgControlBucket := bucket\<lparr>tbTokens := tbTokens bucket - 1\<rparr>\<rparr>))"

definition consumeData :: "gotime \<Rightarrow> int \<Rightarrow> Registry \<Rightarrow> cap_error option \<times> Registry" where
  "consumeData now payloadSize r =
     (let byteCharge = (if payloadSize = 0 then 1 else payloadSize);
          packets = refill now (rgPacketBucket r); octets = refill now (rgByteBucket r);
          r = r\<lparr>rgPacketBucket := packets, rgByteBucket := octets\<rparr>
      in if tbTokens packets < 1 \<or> tbTokens octets < of_int byteCharge
         then (Some ErrRateLimit,
               r\<lparr>rgStats := (rgStats r)\<lparr>DataRateLimited := DataRateLimited (rgStats r) + 1,
                                       Rejected := Rejected (rgStats r) + 1\<rparr>\<rparr>)
         else (None, r\<lparr>rgPacketBucket := packets\<lparr>tbTokens := tbTokens packets - 1\<rparr>,
                       rgByteBucket := octets\<lparr>tbTokens := tbTokens octets - of_int byteCharge\<rparr>\<rparr>))"

definition reserveBuffer :: "bufferDirection \<Rightarrow> int \<Rightarrow> Registry \<Rightarrow> (cap_error + pointer) \<times> Registry" where
  "reserveBuffer direction sz r =
     (if sz < 0 \<or> sz > limMaxDatagramSize (rgLimits r) then (Inl CapErrDatagramTooLarge, r)
      else
        let reservedBytes = max sz MinPayloadReservation
        in if rgBufferedBytes r > MaxBufferedBytes (rgLimits r) - reservedBytes then (Inl ErrBufferBudget, r)
           else if rgOutstandingObjects r \<ge> HardMaxOutstandingObjects \<or>
                   rgObjects r direction \<ge> HardMaxObjectsPerDirection \<or>
                   rgOutstandingMetadata r > HardMaxOutstandingMetadata - outstandingObjectMetaSize \<or>
                   rgMetadata r direction > HardMaxMetadataPerDirection - outstandingObjectMetaSize
           then (Inl ErrOutstandingBudget, r)
           else
             (Inr (length (rgBuffers r)),
              r\<lparr>rgBufferedBytes := rgBufferedBytes r + reservedBytes,
                rgOutstandingObjects := rgOutstandingObjects r + 1,
                rgOutstandingMetadata := rgOutstandingMetadata r + outstandingObjectMetaSize,
                rgObjects := (rgObjects r)(direction := rgObjects r direction + 1),
                rgMetadata := (rgMetadata r)(direction := rgMetadata r direction + outstandingObjectMetaSize),
                rgBuffers := rgBuffers r @ [\<lparr>blBytes = reservedBytes, blMetadata = outstandingObjectMetaSize,
                   blDirection = direction, blReleased = False\<rparr>]\<rparr>))"

text \<open>\<open>None\<close> is the panic.\<close>

definition releaseBuffer :: "bufferDirection \<Rightarrow> int \<Rightarrow> int \<Rightarrow> Registry \<Rightarrow> Registry option" where
  "releaseBuffer direction reservedBytes metadata r =
     (if reservedBytes \<le> 0 \<or> metadata \<le> 0 \<or> rgBufferedBytes r < reservedBytes \<or>
         rgOutstandingObjects r \<le> 0 \<or> rgOutstandingMetadata r < metadata \<or>
         rgObjects r direction \<le> 0 \<or> rgMetadata r direction < metadata
      then None
      else Some (r\<lparr>rgBufferedBytes := rgBufferedBytes r - reservedBytes,
                   rgOutstandingObjects := rgOutstandingObjects r - 1,
                   rgOutstandingMetadata := rgOutstandingMetadata r - metadata,
                   rgObjects := (rgObjects r)(direction := rgObjects r direction - 1),
                   rgMetadata := (rgMetadata r)(direction := rgMetadata r direction - metadata)\<rparr>))"

text \<open>\<open>bufferLease.release\<close>, once.\<close>

definition bufferRelease :: "pointer \<Rightarrow> Registry \<Rightarrow> Registry option" where
  "bufferRelease b r =
     (let lease = rgBuffers r ! b
      in if blReleased lease then Some r
         else releaseBuffer (blDirection lease) (blBytes lease) (blMetadata lease)
                (r\<lparr>rgBuffers := (rgBuffers r)[b := lease\<lparr>blReleased := True\<rparr>]\<rparr>))"

section \<open>Generations\<close>

record Transaction =
  txId :: bytes
  txGeneration :: u64

text \<open>The two checks every control operation starts with.\<close>

definition controlGuard :: "bytes \<Rightarrow> gotime \<Rightarrow> Registry \<Rightarrow> cap_error option \<times> Registry" where
  "controlGuard cid now r =
     (case requireController cid r of Some e \<Rightarrow> (Some e, r) | None \<Rightarrow> consumeControl now r)"

definition prepareGeneration :: "bytes option \<Rightarrow> gotime \<Rightarrow> bytes \<Rightarrow> u64 \<Rightarrow> Registry \<Rightarrow>
    (cap_error + Transaction) \<times> Registry" where
  "prepareGeneration random now cid generation r =
     (case controlGuard cid now r of
        (Some e, r) \<Rightarrow> (Inl e, r)
      | (None, r) \<Rightarrow>
          if generation = 0 then (Inl ErrInvalidGeneration, rejected r)
          else if rgPrepared r \<noteq> None then (Inl ErrTransactionActive, r)
          else if generation \<le> rgLastGeneration r \<or> generation = rgActiveGeneration r
          then (Inl ErrStaleGeneration, rejected r)
          else case readRandom random of
            Inl e \<Rightarrow> (Inl e, r)
          | Inr tid \<Rightarrow>
              (Inr \<lparr>txId = tid, txGeneration = generation\<rparr>,
               r\<lparr>rgPrepared := Some \<lparr>pgId = tid, pgGeneration = generation\<rparr>,
                 rgStats := (rgStats r)\<lparr>GenerationsPrepared := GenerationsPrepared (rgStats r) + 1\<rparr>\<rparr>))"

definition preparedIs :: "Transaction \<Rightarrow> Registry \<Rightarrow> bool" where
  "preparedIs t r =
     (case rgPrepared r of None \<Rightarrow> False | Some p \<Rightarrow> pgId p = txId t \<and> pgGeneration p = txGeneration t)"

definition commitGeneration :: "gotime \<Rightarrow> bytes \<Rightarrow> Transaction \<Rightarrow> Registry \<Rightarrow> cap_error option \<times> Registry" where
  "commitGeneration now cid t r =
     (case controlGuard cid now r of
        (Some e, r) \<Rightarrow> (Some e, r)
      | (None, r) \<Rightarrow>
          if \<not> preparedIs t r then (Some ErrUnknownTransaction, rejected r)
          else
            let r = evictFlows False r
            in (None, r\<lparr>rgActiveGeneration := txGeneration t, rgLastGeneration := txGeneration t,
                  rgPrepared := None,
                  rgStats := (rgStats r)\<lparr>GenerationsCommitted := GenerationsCommitted (rgStats r) + 1\<rparr>\<rparr>))"

definition abortGeneration :: "gotime \<Rightarrow> bytes \<Rightarrow> Transaction \<Rightarrow> Registry \<Rightarrow> cap_error option \<times> Registry" where
  "abortGeneration now cid t r =
     (case controlGuard cid now r of
        (Some e, r) \<Rightarrow> (Some e, r)
      | (None, r) \<Rightarrow>
          if \<not> preparedIs t r then (Some ErrUnknownTransaction, rejected r)
          else (None, r\<lparr>rgPrepared := None,
                  rgStats := (rgStats r)\<lparr>GenerationsAborted := GenerationsAborted (rgStats r) + 1\<rparr>\<rparr>))"

definition disableGeneration :: "gotime \<Rightarrow> bytes \<Rightarrow> u64 \<Rightarrow> Registry \<Rightarrow> cap_error option \<times> Registry" where
  "disableGeneration now cid generation r =
     (case controlGuard cid now r of
        (Some e, r) \<Rightarrow> (Some e, r)
      | (None, r) \<Rightarrow>
          if generation = 0 \<or> generation \<noteq> rgActiveGeneration r
          then (Some ErrGenerationNotActive, rejected r)
          else
            let r = evictFlows False (r\<lparr>rgPrepared := None\<rparr>)
            in (None, r\<lparr>rgActiveGeneration := 0,
                  rgStats := (rgStats r)\<lparr>GenerationsDisabled := GenerationsDisabled (rgStats r) + 1\<rparr>\<rparr>))"

section \<open>Flows\<close>

fun Addr_Is4In6 :: "Addr \<Rightarrow> bool" where
  "Addr_Is4In6 (Addr6 b _) = (gslice 0 12 b = zeros 10 @ [0xff, 0xff])"
| "Addr_Is4In6 _ = False"

definition validateFlowSpec :: "FlowSpec \<Rightarrow> cap_error option" where
  "validateFlowSpec spec =
     (if specID spec = zeros 16 \<or> specGeneration spec = 0 then Some ErrInvalidFlow
      else if \<not> Addr_IsValid (apAddr (specLocal spec)) \<or> \<not> Addr_IsValid (apAddr (specRemote spec)) \<or>
              apPort (specLocal spec) = 0 \<or> apPort (specRemote spec) = 0 then Some ErrInvalidFlow
      else if Addr_Is4 (apAddr (specLocal spec)) \<noteq> Addr_Is4 (apAddr (specRemote spec)) then Some ErrInvalidFlow
      else if specFamily spec = 4
      then (if \<not> Addr_Is4 (apAddr (specLocal spec)) then Some ErrInvalidFlow else None)
      else if specFamily spec = 6
      then (if \<not> Addr_Is6 (apAddr (specLocal spec)) \<or> Addr_Is4In6 (apAddr (specLocal spec))
            then Some ErrInvalidFlow else None)
      else Some ErrInvalidFlow)"

definition flowExpired :: "bytes \<Rightarrow> flowLease \<Rightarrow> gotime \<Rightarrow> Registry \<Rightarrow> bool \<times> Registry" where
  "flowExpired fid lease now r =
     (if now - lastActivity lease < FlowTTL (rgLimits r) then (False, r)
      else (True, r\<lparr>rgFlows := gm_del (rgFlows r) fid,
                    rgStats := (rgStats r)\<lparr>FlowsExpired := FlowsExpired (rgStats r) + 1\<rparr>\<rparr>))"

definition expireFlows :: "gotime \<Rightarrow> Registry \<Rightarrow> Registry" where
  "expireFlows now r = foldl (\<lambda>r (fid, lease). snd (flowExpired fid lease now r)) r (rgFlows r)"

definition openFlow :: "bytes option \<Rightarrow> gotime \<Rightarrow> bytes \<Rightarrow> FlowSpec \<Rightarrow> Registry \<Rightarrow>
    (cap_error + FlowLease) \<times> Registry" where
  "openFlow random now cid spec r =
     (case controlGuard cid now r of
        (Some e, r) \<Rightarrow> (Inl e, r)
      | (None, r) \<Rightarrow>
          (case validateFlowSpec spec of
             Some e \<Rightarrow> (Inl e, rejected r)
           | None \<Rightarrow>
               let r = expireFlows now r
               in if specGeneration spec \<noteq> rgActiveGeneration r \<or> rgActiveGeneration r = 0
                  then (Inl ErrGenerationNotActive, rejected r)
                  else if gm_has (rgFlows r) (specID spec) then (Inl ErrDuplicateFlow, rejected r)
                  else if int (length (rgFlows r)) \<ge> MaxFlows (rgLimits r) then (Inl ErrFlowLimit, rejected r)
                  else case readRandom random of
                    Inl e \<Rightarrow> (Inl e, r)
                  | Inr nonce \<Rightarrow>
                      (Inr \<lparr>leaseFlow = specID spec, leaseGeneration = specGeneration spec,
                            leaseNonce = nonce, leaseExpires = now + FlowTTL (rgLimits r)\<rparr>,
                       r\<lparr>rgFlows := gm_set (rgFlows r) (specID spec)
                            \<lparr>flSpec = spec, flNonce = nonce, hasSequence = False, flSequence = 0,
                             lastActivity = now\<rparr>,
                         rgStats := (rgStats r)\<lparr>FlowsOpened := FlowsOpened (rgStats r) + 1\<rparr>\<rparr>)))"

definition closeFlow :: "gotime \<Rightarrow> bytes \<Rightarrow> u64 \<Rightarrow> bytes \<Rightarrow> bytes \<Rightarrow> Registry \<Rightarrow> cap_error option \<times> Registry" where
  "closeFlow now cid generation fid nonce r =
     (case controlGuard cid now r of
        (Some e, r) \<Rightarrow> (Some e, r)
      | (None, r) \<Rightarrow>
          (case gm_get (rgFlows r) fid of
             None \<Rightarrow> (Some ErrUnknownFlow, rejected r)
           | Some lease \<Rightarrow>
               if generation \<noteq> rgActiveGeneration r \<or> specGeneration (flSpec lease) \<noteq> generation \<or>
                  flNonce lease \<noteq> nonce
               then (Some ErrUnknownFlow, rejected r)
               else (None, r\<lparr>rgFlows := gm_del (rgFlows r) fid,
                       rgStats := (rgStats r)\<lparr>FlowsClosed := FlowsClosed (rgStats r) + 1\<rparr>\<rparr>)))"

section \<open>Datagrams\<close>

text \<open>The look-up of the lease by its full identity; an expired lease is removed on the way.\<close>

definition findLease :: "gotime \<Rightarrow> bytes \<Rightarrow> u64 \<Rightarrow> bytes \<Rightarrow> Registry \<Rightarrow> flowLease option \<times> Registry" where
  "findLease now fid generation nonce r =
     (case gm_get (rgFlows r) fid of
        None \<Rightarrow> (None, r)
      | Some lease \<Rightarrow>
          (case flowExpired fid lease now r of
             (True, r) \<Rightarrow> (None, r)
           | (False, r) \<Rightarrow>
               if generation \<noteq> rgActiveGeneration r \<or> specGeneration (flSpec lease) \<noteq> generation \<or>
                  flNonce lease \<noteq> nonce
               then (None, r) else (Some lease, r)))"

definition overBudget :: "int \<Rightarrow> Addr \<Rightarrow> Addr \<Rightarrow> bytes \<Rightarrow> bool" where
  "overBudget limit localIP remoteIP payload =
     (case MaxCapturedUDPV2Payload limit localIP remoteIP of
        Inl _ \<Rightarrow> True
      | Inr payloadLimit \<Rightarrow> int (length payload) > payloadLimit)"

definition acceptDatagram :: "gotime \<Rightarrow> bytes \<Rightarrow> Datagram \<Rightarrow> Registry \<Rightarrow>
    (cap_error + TunnelDatagram \<times> pointer) \<times> Registry" where
  "acceptDatagram now cid d r =
     (case requireController cid r of
        Some e \<Rightarrow> (Inl e, r)
      | None \<Rightarrow>
          if int (length (dgPayload d)) > limMaxDatagramSize (rgLimits r)
          then (Inl CapErrDatagramTooLarge, rejected r)
          else case consumeData now (int (length (dgPayload d))) r of
            (Some e, r) \<Rightarrow> (Inl e, r)
          | (None, r) \<Rightarrow>
              (case findLease now (dgFlow d) (dgGeneration d) (dgNonce d) r of
                 (None, r) \<Rightarrow> (Inl ErrUnknownFlow, rejected r)
               | (Some lease, r) \<Rightarrow>
                   let loc = specLocal (flSpec lease); rem = specRemote (flSpec lease)
                   in if overBudget (limMaxTGPDatagramSize (rgLimits r)) (apAddr loc) (apAddr rem) (dgPayload d)
                      then (Inl CapErrDatagramTooLarge, rejected r)
                      else if hasSequence lease \<and> dgSequence d \<le> flSequence lease
                      then (Inl ErrSequenceReplay, rejected r)
                      else case reserveBuffer bufferAccepted (int (length (dgPayload d))) r of
                        (Inl e, r) \<Rightarrow> (Inl e, rejected r)
                      | (Inr b, r) \<Rightarrow>
                          (Inr (\<lparr>Identity = \<lparr>FlowID = dgFlow d, Generation = dgGeneration d,
                                   LeaseNonce = dgNonce d\<rparr>,
                                 LocalIP = apAddr loc, LocalPort = apPort loc,
                                 RemoteIP = apAddr rem, RemotePort = apPort rem,
                                 tunnelPayload = dgPayload d\<rparr>, b),
                           r\<lparr>rgFlows := gm_set (rgFlows r) (dgFlow d)
                                (lease\<lparr>hasSequence := True, flSequence := dgSequence d, lastActivity := now\<rparr>),
                             rgStats := (rgStats r)\<lparr>DatagramsAccepted := DatagramsAccepted (rgStats r) + 1\<rparr>\<rparr>)))"

definition resolveReply :: "gotime \<Rightarrow> bytes \<Rightarrow> TunnelDatagram \<Rightarrow> Registry \<Rightarrow>
    (cap_error + Delivery \<times> pointer) \<times> Registry" where
  "resolveReply now cid d r =
     (case requireController cid r of
        Some e \<Rightarrow> (Inl e, r)
      | None \<Rightarrow>
          if int (length (tunnelPayload d)) > limMaxDatagramSize (rgLimits r)
          then (Inl CapErrDatagramTooLarge, rejected r)
          else case consumeData now (int (length (tunnelPayload d))) r of
            (Some e, r) \<Rightarrow> (Inl e, r)
          | (None, r) \<Rightarrow>
              if Identity_IsZero (Identity d) then (Inl ErrMissingLeaseIdentity, rejected r)
              else if overBudget (limMaxTGPDatagramSize (rgLimits r)) (LocalIP d) (RemoteIP d) (tunnelPayload d)
              then (Inl CapErrDatagramTooLarge, rejected r)
              else case findLease now (FlowID (Identity d)) (Generation (Identity d)) (LeaseNonce (Identity d)) r of
                (None, r) \<Rightarrow> (Inl ErrUnknownFlow, rejected r)
              | (Some lease, r) \<Rightarrow>
                  if \<lparr>apAddr = LocalIP d, apPort = LocalPort d\<rparr> \<noteq> specLocal (flSpec lease) \<or>
                     \<lparr>apAddr = RemoteIP d, apPort = RemotePort d\<rparr> \<noteq> specRemote (flSpec lease)
                  then (Inl ErrUnknownFlow, rejected r)
                  else case reserveBuffer bufferDelivery (int (length (tunnelPayload d))) r of
                    (Inl e, r) \<Rightarrow> (Inl e, rejected r)
                  | (Inr b, r) \<Rightarrow>
                      (Inr (\<lparr>dvFlow = FlowID (Identity d), dvGeneration = Generation (Identity d),
                             dvNonce = LeaseNonce (Identity d), dvPayload = tunnelPayload d\<rparr>, b),
                       r\<lparr>rgFlows := gm_set (rgFlows r) (FlowID (Identity d)) (lease\<lparr>lastActivity := now\<rparr>),
                         rgStats := (rgStats r)\<lparr>RepliesResolved := RepliesResolved (rgStats r) + 1\<rparr>\<rparr>))"

section \<open>Health\<close>

record Health =
  Ready :: bool
  TransportAttached :: bool
  TransportPeerVerified :: bool
  ControllerConnected :: bool
  ActiveGeneration :: u64
  PreparedGeneration :: u64
  OpenFlows :: nat
  healthBufferedBytes :: int
  OutstandingObjects :: int
  OutstandingMetadata :: int
  AcceptedOutstanding :: int
  DeliveriesOutstanding :: int

definition registryHealth :: "Registry \<Rightarrow> Health" where
  "registryHealth r =
     (let attached = rgAttachment r \<noteq> None;
          verified = (case rgAttachment r of None \<Rightarrow> False | Some a \<Rightarrow> peerVerified (rgAttachments r ! a))
      in \<lparr>Ready = (\<not> rgClosed r \<and> attached \<and> verified \<and> rgControllerAlive r \<and> rgActiveGeneration r \<noteq> 0),
          TransportAttached = attached, TransportPeerVerified = verified,
          ControllerConnected = rgControllerAlive r, ActiveGeneration = rgActiveGeneration r,
          PreparedGeneration = (case rgPrepared r of None \<Rightarrow> 0 | Some p \<Rightarrow> pgGeneration p),
          OpenFlows = length (rgFlows r), healthBufferedBytes = rgBufferedBytes r,
          OutstandingObjects = rgOutstandingObjects r, OutstandingMetadata = rgOutstandingMetadata r,
          AcceptedOutstanding = rgObjects r bufferAccepted,
          DeliveriesOutstanding = rgObjects r bufferDelivery\<rparr>)"

end
