(* ===== verification/Registry_Inv.thy ===== *)
theory Registry_Inv
  imports Registry
begin

text \<open>
  The captured-UDP registry as a machine: its invariants and the accounting of buffers.
\<close>

section \<open>The machine\<close>

datatype registryEvent =
    EvNewAttachment "bytes option" bool
  | EvAttach "bytes option" pointer
  | EvDetach pointer
  | EvAuthenticate "bytes option" gotime pointer bytes
  | EvDisconnect bytes pointer
  | EvCloseRegistry
  | EvPrepare "bytes option" gotime bytes u64
  | EvCommit gotime bytes Transaction
  | EvAbort gotime bytes Transaction
  | EvDisable gotime bytes u64
  | EvOpenFlow "bytes option" gotime bytes FlowSpec
  | EvCloseFlow gotime bytes u64 bytes bytes
  | EvAccept gotime bytes Datagram
  | EvReply gotime bytes TunnelDatagram
  | EvRelease pointer
  | EvReap gotime

text \<open>
  A pointer never handed out does nothing. The reaper is the last event. A panic would stop the
  program; here it leaves the state, and below it is shown not to happen.
\<close>

fun registryStep :: "Registry \<Rightarrow> registryEvent \<Rightarrow> Registry" where
  "registryStep r (EvNewAttachment random v) = snd (newTransportAttachment random v r)"
| "registryStep r (EvAttach random a) =
     (if a < length (rgAttachments r) then snd (AttachTransport random (Some a) r) else r)"
| "registryStep r (EvDetach a) =
     (if a < length (rgAttachments r) then snd (detachTransport (Some a) r) else r)"
| "registryStep r (EvAuthenticate random now a token) =
     (if a < length (rgAttachments r) then snd (Authenticate random now (Some a) token r) else r)"
| "registryStep r (EvDisconnect cid a) =
     (if a < length (rgAttachments r) then snd (disconnectController cid (Some a) r) else r)"
| "registryStep r EvCloseRegistry = registryClose r"
| "registryStep r (EvPrepare random now cid g) = snd (prepareGeneration random now cid g r)"
| "registryStep r (EvCommit now cid t) = snd (commitGeneration now cid t r)"
| "registryStep r (EvAbort now cid t) = snd (abortGeneration now cid t r)"
| "registryStep r (EvDisable now cid g) = snd (disableGeneration now cid g r)"
| "registryStep r (EvOpenFlow random now cid spec) = snd (openFlow random now cid spec r)"
| "registryStep r (EvCloseFlow now cid g fid nonce) = snd (closeFlow now cid g fid nonce r)"
| "registryStep r (EvAccept now cid d) = snd (acceptDatagram now cid d r)"
| "registryStep r (EvReply now cid d) = snd (resolveReply now cid d r)"
| "registryStep r (EvRelease b) =
     (if b < length (rgBuffers r) then (case bufferRelease b r of None \<Rightarrow> r | Some r \<Rightarrow> r) else r)"
| "registryStep r (EvReap now) = expireFlows now r"

section \<open>What the helpers leave alone\<close>

definition bufView where
  "bufView r = (rgBufferedBytes r, rgOutstandingObjects r, rgOutstandingMetadata r, rgObjects r,
     rgMetadata r, rgBuffers r, rgLimits r)"

definition regLife where
  "regLife r = (rgClosed r, rgAttachments r, rgAttachment r, rgTokenIssued r, rgControllerAlive r,
     rgController r, rgPrepared r, rgActiveGeneration r, rgLastGeneration r, rgFlows r, rgLimits r)"

lemma controlGuard_views:
  assumes "controlGuard cid now r = (e, r')"
  shows "bufView r' = bufView r \<and> regLife r' = regLife r \<and>
    (e = None \<longrightarrow> \<not> rgClosed r \<and> rgControllerAlive r \<and> rgController r = cid)"
  using assms by (auto simp: controlGuard_def consumeControl_def requireController_def Let_def bufView_def
      regLife_def split: option.splits if_splits)

lemma consumeData_views:
  assumes "consumeData now n r = (e, r')"
  shows "bufView r' = bufView r \<and> regLife r' = regLife r"
  using assms by (auto simp: consumeData_def Let_def bufView_def regLife_def split: if_splits)

lemma evict_views:
  "bufView (evictFlows b r) = bufView r" "rgFlows (evictFlows b r) = []"
  "rgClosed (evictFlows b r) = rgClosed r" "rgAttachments (evictFlows b r) = rgAttachments r"
  "rgAttachment (evictFlows b r) = rgAttachment r" "rgTokenIssued (evictFlows b r) = rgTokenIssued r"
  "rgControllerAlive (evictFlows b r) = rgControllerAlive r" "rgController (evictFlows b r) = rgController r"
  "rgPrepared (evictFlows b r) = rgPrepared r" "rgActiveGeneration (evictFlows b r) = rgActiveGeneration r"
  "rgLastGeneration (evictFlows b r) = rgLastGeneration r" "rgLimits (evictFlows b r) = rgLimits r"
  by (simp_all add: evictFlows_def Let_def bufView_def)

lemma revoke_views:
  "bufView (revokeController b r) = bufView r" "rgFlows (revokeController b r) = []"
  "rgClosed (revokeController b r) = rgClosed r" "rgAttachments (revokeController b r) = rgAttachments r"
  "rgAttachment (revokeController b r) = rgAttachment r" "\<not> rgTokenIssued (revokeController b r)"
  "\<not> rgControllerAlive (revokeController b r)" "rgController (revokeController b r) = zeros 16"
  "rgPrepared (revokeController b r) = None" "rgActiveGeneration (revokeController b r) = 0"
  "rgLastGeneration (revokeController b r) = rgLastGeneration r" "rgLimits (revokeController b r) = rgLimits r"
  by (simp_all add: revokeController_def evict_views Let_def) (simp_all add: bufView_def)

lemma flowExpired_views:
  assumes "flowExpired fid l now r = (b, r')"
  shows "bufView r' = bufView r \<and> rgFlows r' = (if b then gm_del (rgFlows r) fid else rgFlows r) \<and>
    regLife (r'\<lparr>rgFlows := f\<rparr>) = regLife (r\<lparr>rgFlows := f\<rparr>) \<and>
    (b \<longleftrightarrow> \<not> now - lastActivity l < FlowTTL (rgLimits r))"
  using assms by (auto simp: flowExpired_def bufView_def regLife_def split: if_splits)

lemma gm_del_absent: "k \<notin> fst ` set m \<Longrightarrow> gm_del m k = m"
  by (simp add: gm_del_def delete_id)

lemma gm_del_append: "gm_del (m @ m') k = gm_del m k @ gm_del m' k"
  by (simp add: gm_del_def AList.delete_eq)

lemma gm_keep_keys: "fst ` set (gm_keep P m) \<subseteq> fst ` set m"
  by (auto simp: gm_keep_def)

text \<open>Expiring in a loop over the map removes exactly the expired entries.\<close>

lemma expire_fold:
  "gm_ok (fs @ fs') \<Longrightarrow> rgFlows r = gm_keep (\<lambda>_ l. now - lastActivity l < FlowTTL (rgLimits r)) fs @ fs' \<Longrightarrow>
   (let r' = foldl (\<lambda>r (fid, lease). snd (flowExpired fid lease now r)) r fs' in
     rgFlows r' = gm_keep (\<lambda>_ l. now - lastActivity l < FlowTTL (rgLimits r)) (fs @ fs') \<and>
     bufView r' = bufView r \<and> regLife (r'\<lparr>rgFlows := f\<rparr>) = regLife (r\<lparr>rgFlows := f\<rparr>))"
proof (induction fs' arbitrary: fs r)
  case Nil
  then show ?case by simp
next
  case (Cons x fs')
  obtain fid l where x: "x = (fid, l)" by force
  obtain b r' where e: "flowExpired fid l now r = (b, r')" by force
  note v = flowExpired_views [OF e]
  let ?P = "\<lambda>_ l. now - lastActivity l < FlowTTL (rgLimits r)"
  have nk: "fid \<notin> fst ` set fs" "fid \<notin> fst ` set fs'" using Cons.prems(1) x by (auto simp: gm_ok_def)
  have lim: "rgLimits r' = rgLimits r" using v by (simp add: regLife_def)
  have "gm_del (gm_keep ?P fs) fid = gm_keep ?P fs"
    using nk(1) gm_keep_keys [of ?P fs] by (intro gm_del_absent) blast
  moreover have "gm_del (x # fs') fid = fs'" using gm_del_absent [OF nk(2)] x by (simp add: gm_del_def)
  ultimately have "gm_del (rgFlows r) fid = gm_keep ?P fs @ fs'"
    by (simp add: Cons.prems(2) gm_del_append)
  then have "rgFlows r' = gm_keep ?P (fs @ [x]) @ fs'"
    using v Cons.prems(2) x by (auto simp: gm_keep_def)
  then have "let r'' = foldl (\<lambda>r (fid, lease). snd (flowExpired fid lease now r)) r' fs' in
     rgFlows r'' = gm_keep ?P ((fs @ [x]) @ fs') \<and>
     bufView r'' = bufView r' \<and> regLife (r''\<lparr>rgFlows := f\<rparr>) = regLife (r'\<lparr>rgFlows := f\<rparr>)"
    using Cons.IH [of "fs @ [x]" r'] Cons.prems(1) lim by simp
  then show ?case using e x v by (simp add: Let_def)
qed

lemma expire_views:
  assumes "gm_ok (rgFlows r)"
  shows "rgFlows (expireFlows now r) = gm_keep (\<lambda>_ l. now - lastActivity l < FlowTTL (rgLimits r)) (rgFlows r)"
    "bufView (expireFlows now r) = bufView r"
    "regLife ((expireFlows now r)\<lparr>rgFlows := f\<rparr>) = regLife (r\<lparr>rgFlows := f\<rparr>)"
  using expire_fold [of "[]" "rgFlows r" r now] assms
  by (simp_all add: expireFlows_def Let_def gm_keep_def)

lemma findLease_views:
  assumes "findLease now fid g nonce r = (x, r')"
  shows "bufView r' = bufView r \<and> (rgFlows r' = rgFlows r \<or> rgFlows r' = gm_del (rgFlows r) fid) \<and>
    regLife (r'\<lparr>rgFlows := f\<rparr>) = regLife (r\<lparr>rgFlows := f\<rparr>) \<and>
    (\<forall>l. x = Some l \<longrightarrow> r' = r \<and> gm_get (rgFlows r) fid = Some l \<and> g = rgActiveGeneration r \<and>
       specGeneration (flSpec l) = g \<and> flNonce l = nonce \<and> now - lastActivity l < FlowTTL (rgLimits r))"
  using assms by (auto simp: findLease_def flowExpired_def bufView_def regLife_def
      split: option.splits if_splits)

lemma reserve_views:
  assumes "reserveBuffer d n r = (x, r')"
  shows "regLife r' = regLife r"
  using assms by (auto simp: reserveBuffer_def Let_def regLife_def split: if_splits)

section \<open>The accounting of buffers\<close>

definition liveSum :: "(bufferLease \<Rightarrow> int) \<Rightarrow> bufferLease list \<Rightarrow> int" where
  "liveSum f bs = sum_list (map (\<lambda>b. if blReleased b then 0 else f b) bs)"

text \<open>
  The counters are exactly the sums over the leases that are still out, in all and by direction, and
  they stay within the budgets.
\<close>

definition buf_inv :: "Registry \<Rightarrow> bool" where
  "buf_inv r \<longleftrightarrow>
     (\<forall>b \<in> set (rgBuffers r). 0 < blBytes b \<and> blMetadata b = outstandingObjectMetaSize) \<and>
     rgBufferedBytes r = liveSum blBytes (rgBuffers r) \<and>
     rgOutstandingObjects r = liveSum (\<lambda>_. 1) (rgBuffers r) \<and>
     rgOutstandingMetadata r = liveSum blMetadata (rgBuffers r) \<and>
     (\<forall>d. rgObjects r d = liveSum (\<lambda>b. if blDirection b = d then 1 else 0) (rgBuffers r)) \<and>
     (\<forall>d. rgMetadata r d = liveSum (\<lambda>b. if blDirection b = d then blMetadata b else 0) (rgBuffers r)) \<and>
     rgBufferedBytes r \<le> max 0 (MaxBufferedBytes (rgLimits r)) \<and> rgOutstandingObjects r \<le> HardMaxOutstandingObjects \<and>
     rgOutstandingMetadata r \<le> HardMaxOutstandingMetadata \<and>
     (\<forall>d. rgObjects r d \<le> HardMaxObjectsPerDirection \<and> rgMetadata r d \<le> HardMaxMetadataPerDirection)"

lemma buf_inv_view: "bufView r = bufView r' \<Longrightarrow> buf_inv r = buf_inv r'"
  by (simp add: buf_inv_def bufView_def)

lemma liveSum_append: "liveSum f (bs @ [b]) = liveSum f bs + (if blReleased b then 0 else f b)"
  by (simp add: liveSum_def)

lemma liveSum_release:
  assumes "i < length bs" "\<not> blReleased (bs ! i)"
  shows "liveSum f (bs[i := (bs ! i)\<lparr>blReleased := True\<rparr>]) = liveSum f bs - f (bs ! i)"
  using assms
proof (induction bs arbitrary: i)
  case (Cons b bs)
  then show ?case by (cases i) (simp_all add: liveSum_def)
qed simp

lemma liveSum_nonneg: "(\<And>b. b \<in> set bs \<Longrightarrow> 0 \<le> f b) \<Longrightarrow> 0 \<le> liveSum f bs"
  by (induction bs) (simp_all add: liveSum_def)

lemma liveSum_ge:
  assumes "i < length bs" "\<not> blReleased (bs ! i)" "\<And>b. b \<in> set bs \<Longrightarrow> 0 \<le> f b"
  shows "f (bs ! i) \<le> liveSum f bs"
  using assms
proof (induction bs arbitrary: i)
  case (Cons b bs)
  have "0 \<le> liveSum f bs" using Cons.prems(3) by (intro liveSum_nonneg) simp
  then show ?case using Cons by (cases i) (fastforce simp: liveSum_def)+
qed simp

lemma reserve_inv:
  assumes "buf_inv r" "reserveBuffer d n r = (x, r')"
  shows "buf_inv r'"
proof -
  have m: "0 < max n MinPayloadReservation" by (simp add: registry_consts)
  have "liveSum f (rgBuffers r @ [b]) = liveSum f (rgBuffers r) + f b" if "\<not> blReleased b" for f b
    using that by (simp add: liveSum_append)
  then show ?thesis using assms m
    by (auto simp: buf_inv_def reserveBuffer_def Let_def liveSum_append registry_consts split: if_splits)
qed

lemma release_inv:
  assumes inv: "buf_inv r" and b: "b < length (rgBuffers r)"
  shows "\<exists>r'. bufferRelease b r = Some r' \<and> buf_inv r' \<and> regLife r' = regLife r"
proof (cases "blReleased (rgBuffers r ! b)")
  case True
  then show ?thesis using inv by (simp add: bufferRelease_def)
next
  case False
  let ?bs = "rgBuffers r" and ?l = "rgBuffers r ! b"
  have mem: "?l \<in> set ?bs" using b by simp
  have pos: "0 < blBytes ?l" "blMetadata ?l = outstandingObjectMetaSize" using inv mem by (auto simp: buf_inv_def)
  have nn: "c \<in> set ?bs \<Longrightarrow> 0 \<le> blBytes c \<and> 0 \<le> blMetadata c" for c
    using inv by (force simp: buf_inv_def registry_consts)
  note ge = liveSum_ge [OF b False] and rel = liveSum_release [OF b False]
  have g: "blBytes ?l \<le> rgBufferedBytes r" "1 \<le> rgOutstandingObjects r" "blMetadata ?l \<le> rgOutstandingMetadata r"
      "1 \<le> rgObjects r (blDirection ?l)" "blMetadata ?l \<le> rgMetadata r (blDirection ?l)"
    using inv ge [of blBytes] ge [of "\<lambda>_. 1"] ge [of blMetadata]
      ge [of "\<lambda>c. if blDirection c = blDirection ?l then 1 else 0"]
      ge [of "\<lambda>c. if blDirection c = blDirection ?l then blMetadata c else 0"] nn
    by (simp_all add: buf_inv_def)
  let ?r = "r\<lparr>rgBuffers := ?bs[b := ?l\<lparr>blReleased := True\<rparr>],
    rgBufferedBytes := rgBufferedBytes r - blBytes ?l, rgOutstandingObjects := rgOutstandingObjects r - 1,
    rgOutstandingMetadata := rgOutstandingMetadata r - blMetadata ?l,
    rgObjects := (rgObjects r)(blDirection ?l := rgObjects r (blDirection ?l) - 1),
    rgMetadata := (rgMetadata r)(blDirection ?l := rgMetadata r (blDirection ?l) - blMetadata ?l)\<rparr>"
  have e: "bufferRelease b r = Some ?r"
    using False g pos by (simp add: bufferRelease_def releaseBuffer_def Let_def registry_consts)
  have ok: "0 < blBytes c \<and> blMetadata c = outstandingObjectMetaSize"
    if "c \<in> set (?bs[b := ?l\<lparr>blReleased := True\<rparr>])" for c
    using that set_update_subset_insert [of ?bs b] inv pos by (fastforce simp: buf_inv_def)
  have count: "rgObjects r d = liveSum (\<lambda>c. if blDirection c = d then 1 else 0) ?bs"
    "rgMetadata r d = liveSum (\<lambda>c. if blDirection c = d then blMetadata c else 0) ?bs"
    "rgObjects r d \<le> 4096" "rgMetadata r d \<le> 768 * 2 ^ 10" for d
    using inv unfolding buf_inv_def registry_consts by blast+
  have le: "liveSum (\<lambda>c. if blDirection c = d then 1 else 0) ?bs \<le> 4096"
    "liveSum (\<lambda>c. if blDirection c = d then blMetadata c else 0) ?bs \<le> 786432" for d
    using count [of d] by simp_all
  note le' = order_trans [OF le(1), of 4097] order_trans [OF le(2), of 786592]
  have "buf_inv ?r" using ok inv pos
    by (simp add: buf_inv_def rel) (simp add: registry_consts le le')
  then show ?thesis using e by (simp add: regLife_def)
qed

section \<open>Attachments, controller, generations, flows\<close>

definition flows_inv :: "u64 \<Rightarrow> int \<Rightarrow> (bytes, flowLease) gomap \<Rightarrow> bool" where
  "flows_inv active limit flows \<longleftrightarrow> gm_ok flows \<and> int (length flows) \<le> max 0 limit \<and>
     (\<forall>fid l. gm_get flows fid = Some l \<longrightarrow> specID (flSpec l) = fid \<and> specGeneration (flSpec l) = active \<and>
        active \<noteq> 0 \<and> validateFlowSpec (flSpec l) = None)"

definition att_inv :: "bool \<Rightarrow> TransportAttachment list \<Rightarrow> pointer option \<Rightarrow> bool \<Rightarrow> bool \<Rightarrow> bool" where
  "att_inv shut atts current issued alive \<longleftrightarrow>
     (case current of
        None \<Rightarrow> \<not> issued \<and> \<not> alive
      | Some a \<Rightarrow> a < length atts \<and> attOwn (atts ! a) \<and> peerVerified (atts ! a) \<and> \<not> shut \<and> \<not> (issued \<and> alive)) \<and>
     (\<forall>b < length atts. attState (atts ! b) = attachmentAttached \<longleftrightarrow> current = Some b)"

definition gen_inv :: "bool \<Rightarrow> u64 \<Rightarrow> u64 \<Rightarrow> preparedGeneration option \<Rightarrow> bool" where
  "gen_inv alive active lst prepared \<longleftrightarrow> (active = 0 \<or> alive \<and> active = lst) \<and>
     (case prepared of None \<Rightarrow> True | Some p \<Rightarrow> alive \<and> lst < pgGeneration p)"

definition life_ok :: "Registry \<Rightarrow> bool" where
  "life_ok r \<longleftrightarrow>
     att_inv (rgClosed r) (rgAttachments r) (rgAttachment r) (rgTokenIssued r) (rgControllerAlive r) \<and>
     gen_inv (rgControllerAlive r) (rgActiveGeneration r) (rgLastGeneration r) (rgPrepared r) \<and>
     flows_inv (rgActiveGeneration r) (MaxFlows (rgLimits r)) (rgFlows r)"

lemma life_ok_view: "regLife r = regLife r' \<Longrightarrow> life_ok r = life_ok r'"
  by (simp add: life_ok_def regLife_def)

lemma flows_inv_Nil [simp]: "flows_inv g n []"
  by (simp add: flows_inv_def)

lemma flows_inv_del: "flows_inv g n m \<Longrightarrow> flows_inv g n (gm_del m k)"
  using gm_len_del_le [of m k] by (auto simp: flows_inv_def gm_get_del split: if_splits)

lemma flows_inv_keep: "flows_inv g n m \<Longrightarrow> flows_inv g n (gm_keep P m)"
  using gm_len_keep_le [of P m]
  by (auto simp: flows_inv_def gm_get_keep split: option.splits if_splits)

lemma flows_inv_touch:
  "flows_inv g n m \<Longrightarrow> gm_get m k = Some l \<Longrightarrow> flSpec l' = flSpec l \<Longrightarrow> flows_inv g n (gm_set m k l')"
  by (auto simp: flows_inv_def gm_get_set gm_len_set)

lemma flows_inv_open:
  "flows_inv g n m \<Longrightarrow> int (length m) < n \<Longrightarrow> specID (flSpec l) = k \<Longrightarrow> specGeneration (flSpec l) = g \<Longrightarrow>
   g \<noteq> 0 \<Longrightarrow> validateFlowSpec (flSpec l) = None \<Longrightarrow> flows_inv g n (gm_set m k l)"
  using gm.len_set_at_le [of m k l] by (auto simp: flows_inv_def gm_get_set)

lemma life_ok_flows:
  assumes "life_ok r" "regLife (r'\<lparr>rgFlows := []\<rparr>) = regLife (r\<lparr>rgFlows := []\<rparr>)"
    "flows_inv (rgActiveGeneration r) (MaxFlows (rgLimits r)) (rgFlows r')"
  shows "life_ok r'"
  using assms by (simp add: life_ok_def regLife_def)

lemma att_new:
  "att_inv c atts x t al \<Longrightarrow> attState n = attachmentNew \<Longrightarrow> att_inv c (atts @ [n]) x t al"
  by (auto simp: att_inv_def nth_append less_Suc_eq split: option.splits)

lemma att_attach:
  assumes "att_inv c atts None t al" "a < length atts" "attOwn (atts ! a)" "peerVerified (atts ! a)" "\<not> c"
  shows "att_inv c (atts[a := (atts ! a)\<lparr>attState := attachmentAttached\<rparr>]) (Some a) True False"
  using assms by (auto simp: att_inv_def nth_list_update)

lemma att_drop:
  assumes "att_inv c atts (Some a) t al" "st \<noteq> attachmentAttached"
  shows "att_inv c' (atts[a := (atts ! a)\<lparr>attId := i, peerVerified := False, attState := st\<rparr>]) None False False"
  using assms by (auto simp: att_inv_def nth_list_update)

lemma att_destroy:
  assumes "att_inv c atts x t al" "attState (atts ! a) = attachmentNew" "st \<noteq> attachmentAttached"
  shows "att_inv c (atts[a := (atts ! a)\<lparr>attId := i, peerVerified := False, attState := st\<rparr>]) x t al"
proof (cases "a < length atts")
  case True
  have "x \<noteq> Some a" using assms(1,2) True by (auto simp: att_inv_def)
  then show ?thesis using assms True
    by (auto simp: att_inv_def nth_list_update split: option.splits if_splits)
next
  case False
  then have "atts[a := y] = atts" for y by (simp add: list_update_beyond)
  then show ?thesis using assms(1) by simp
qed

lemma att_closed: "att_inv c atts None t al \<Longrightarrow> att_inv c' atts None False False"
  by (simp add: att_inv_def)

lemma att_auth: "att_inv c atts (Some a) t al \<Longrightarrow> att_inv c atts (Some a) False True"
  by (simp add: att_inv_def)

lemma gen_revoked [simp]: "gen_inv al 0 l None"
  by (simp add: gen_inv_def)

lemma gen_alive: "gen_inv al g l p \<Longrightarrow> gen_inv True g l p"
  by (auto simp: gen_inv_def split: option.splits)

lemma drop_attachment_inv:
  assumes "life_ok r" "rgAttachment r = Some a" "st \<noteq> attachmentAttached"
  shows "life_ok (destroyAttachment a st ((revokeController b r)\<lparr>rgAttachment := None\<rparr>))"
  using assms by (simp add: life_ok_def destroyAttachment_def revoke_views) (blast intro: att_drop)

lemma destroy_new_inv:
  assumes "life_ok r" "attState (rgAttachments r ! a) = attachmentNew" "st \<noteq> attachmentAttached"
  shows "life_ok (destroyAttachment a st r)"
  using assms by (simp add: life_ok_def destroyAttachment_def att_destroy)

lemma attach_inv:
  assumes "life_ok r" "a < length (rgAttachments r)"
  shows "life_ok (snd (AttachTransport random (Some a) r))"
proof -
  have "life_ok (r\<lparr>rgAttachments := (rgAttachments r)[a := (rgAttachments r ! a)\<lparr>attState := attachmentAttached\<rparr>],
      rgAttachment := Some a, rgToken := token, rgTokenIssued := True\<rparr>)"
    if "attOwn (rgAttachments r ! a)" "peerVerified (rgAttachments r ! a)" "\<not> rgClosed r" "rgAttachment r = None"
      "\<not> rgControllerAlive r" for token
    using assms that by (auto simp: life_ok_def intro: att_attach)
  then show ?thesis using assms destroy_new_inv [of r a attachmentClosed]
    by (simp add: AttachTransport_def split: sum.splits)
qed

lemma newAttachment_inv: "life_ok r \<Longrightarrow> life_ok (snd (newTransportAttachment random v r))"
  by (auto simp: newTransportAttachment_def life_ok_def split: sum.splits intro: att_new)

lemma detach_inv: "life_ok r \<Longrightarrow> life_ok (snd (detachTransport x r))"
  by (simp add: detachTransport_def destroy_new_inv drop_attachment_inv split: option.splits)

lemma disconnect_inv: "life_ok r \<Longrightarrow> life_ok (snd (disconnectController cid x r))"
  by (simp add: disconnectController_def drop_attachment_inv split: option.splits)

lemma registryClose_eq:
  assumes "\<not> rgClosed r"
  shows "registryClose r = (case rgAttachment r of
      None \<Rightarrow> (revokeController False r)\<lparr>rgClosed := True\<rparr>
    | Some a \<Rightarrow> (destroyAttachment a attachmentClosed
        ((revokeController False r)\<lparr>rgAttachment := None\<rparr>))\<lparr>rgClosed := True\<rparr>)"
proof -
  have "revokeController False (r\<lparr>rgClosed := True\<rparr>) = (revokeController False r)\<lparr>rgClosed := True\<rparr>"
    by (simp add: revokeController_def evictFlows_def Let_def)
  moreover have "q\<lparr>rgAttachment := None\<rparr> = q" if "rgAttachment q = None" for q :: Registry
    using that by simp
  ultimately show ?thesis
    using assms by (simp add: registryClose_def Let_def revoke_views destroyAttachment_def split: option.splits)
qed

lemma close_inv:
  assumes "life_ok r"
  shows "life_ok (registryClose r)"
proof (cases "rgClosed r")
  case False
  have "life_ok (q\<lparr>rgClosed := True\<rparr>)" if "life_ok q" "rgAttachment q = None" for q
    using that att_closed [of "rgClosed q" "rgAttachments q" "rgTokenIssued q" "rgControllerAlive q" True]
    by (auto simp: life_ok_def att_inv_def)
  moreover have "life_ok (revokeController False r)" if "rgAttachment r = None"
    using that assms by (auto simp: life_ok_def revoke_views intro: att_closed)
  moreover note drop_attachment_inv [OF assms]
  ultimately show ?thesis
    by (simp add: registryClose_eq [OF False] revoke_views destroyAttachment_def split: option.splits)
qed (simp add: registryClose_def assms)

lemma life_ok_stats [simp]: "life_ok (r\<lparr>rgStats := st\<rparr>) = life_ok r"
  by (simp add: life_ok_def)

lemma authenticate_inv:
  assumes "life_ok r"
  shows "life_ok (snd (Authenticate random now x token r))"
proof -
  have "life_ok (r\<lparr>rgToken := t, rgTokenIssued := False, rgController := c, rgControllerAlive := True,
      rgPacketBucket := b1, rgByteBucket := b2, rgControlBucket := b3\<rparr>)"
    if "rgAttachment r = Some a" for a t c b1 b2 b3
    using that assms by (auto simp: life_ok_def intro: gen_alive att_auth)
  then show ?thesis using assms by (simp add: Authenticate_def split: option.splits sum.splits)
qed

text \<open>Operations that start with the control checks.\<close>

lemma guard_inv:
  assumes "life_ok r" "controlGuard cid now r = (e, r')"
  shows "life_ok r'" "e = None \<Longrightarrow> rgControllerAlive r'"
  using controlGuard_views [OF assms(2)] assms(1) life_ok_view [of r' r] by (auto simp: regLife_def)

lemma prepare_inv:
  assumes "life_ok r"
  shows "life_ok (snd (prepareGeneration random now cid g r))"
proof -
  obtain e r1 where c: "controlGuard cid now r = (e, r1)" by force
  have "gen_inv True (rgActiveGeneration q) (rgLastGeneration q) (Some \<lparr>pgId = t, pgGeneration = g\<rparr>)"
    if "rgLastGeneration q < g" "gen_inv True (rgActiveGeneration q) (rgLastGeneration q) None" for q t
    using that by (simp add: gen_inv_def)
  then show ?thesis using guard_inv [OF assms c]
    by (cases e) (auto simp: prepareGeneration_def c life_ok_def not_le split: sum.splits)
qed

lemma commit_gen_inv:
  assumes "life_ok r"
  shows "life_ok (snd (commitGeneration now cid t r))"
proof -
  obtain e r1 where c: "controlGuard cid now r = (e, r1)" by force
  have "gen_inv True (txGeneration t) (txGeneration t) None" by (simp add: gen_inv_def)
  then show ?thesis using guard_inv [OF assms c]
    by (cases e) (simp_all add: commitGeneration_def c life_ok_def evict_views Let_def)
qed

lemma abort_inv:
  assumes "life_ok r"
  shows "life_ok (snd (abortGeneration now cid t r))"
proof -
  obtain e r1 where c: "controlGuard cid now r = (e, r1)" by force
  have "gen_inv al g l p \<Longrightarrow> gen_inv al g l None" for al g l p by (simp add: gen_inv_def)
  then show ?thesis using guard_inv [OF assms c]
    by (cases e) (simp_all add: abortGeneration_def c life_ok_def, blast)
qed

lemma disable_inv:
  assumes "life_ok r"
  shows "life_ok (snd (disableGeneration now cid g r))"
proof -
  obtain e r1 where c: "controlGuard cid now r = (e, r1)" by force
  show ?thesis using guard_inv [OF assms c]
    by (cases e) (simp_all add: disableGeneration_def c life_ok_def evict_views Let_def)
qed

lemma expire_inv:
  assumes "life_ok r"
  shows "life_ok (expireFlows now r)"
proof -
  have ok: "gm_ok (rgFlows r)" using assms by (simp add: life_ok_def flows_inv_def)
  show ?thesis using assms
    by (intro life_ok_flows [OF assms]) (auto simp: expire_views [OF ok] flows_inv_keep life_ok_def)
qed

lemma openFlow_inv:
  assumes "life_ok r"
  shows "life_ok (snd (openFlow random now cid spec r))"
proof -
  obtain e r1 where c: "controlGuard cid now r = (e, r1)" by force
  note g = guard_inv [OF assms c]
  let ?x = "expireFlows now r1"
  have x: "life_ok ?x" by (rule expire_inv [OF g(1)])
  have "life_ok (?x\<lparr>rgFlows := gm_set (rgFlows ?x) (specID spec) \<lparr>flSpec = spec, flNonce = n, hasSequence = False,
      flSequence = 0, lastActivity = now\<rparr>, rgStats := st\<rparr>)"
    if "specGeneration spec = rgActiveGeneration ?x" "rgActiveGeneration ?x \<noteq> 0" "validateFlowSpec spec = None"
      "\<not> MaxFlows (rgLimits ?x) \<le> int (length (rgFlows ?x))" for n st
    using that x by (simp add: life_ok_def flows_inv_open)
  then show ?thesis using g x
    by (cases e) (simp_all add: openFlow_def c Let_def life_ok_def split: option.splits sum.splits)
qed

lemma closeFlow_inv:
  assumes "life_ok r"
  shows "life_ok (snd (closeFlow now cid g fid nonce r))"
proof -
  obtain e r1 where c: "controlGuard cid now r = (e, r1)" by force
  show ?thesis using guard_inv [OF assms c]
    by (cases e) (simp_all add: closeFlow_def c life_ok_def flows_inv_del split: option.splits)
qed

lemma data_inv:
  assumes "life_ok r" "consumeData now n r = (e, r')"
  shows "life_ok r'"
  using consumeData_views [OF assms(2)] assms(1) life_ok_view [of r' r] by simp

lemma find_inv:
  assumes "life_ok r" "findLease now fid g nonce r = (x, r')"
  shows "life_ok r'"
proof -
  note v = findLease_views [OF assms(2), of "[]"]
  have "flows_inv (rgActiveGeneration r) (MaxFlows (rgLimits r)) (rgFlows r)"
    using assms(1) by (simp add: life_ok_def)
  then have "flows_inv (rgActiveGeneration r) (MaxFlows (rgLimits r)) (rgFlows r')"
    using v flows_inv_del by metis
  then show ?thesis using v by (intro life_ok_flows [OF assms(1)]) auto
qed

lemma reserve_life:
  assumes "life_ok r" "reserveBuffer d n r = (x, r')"
  shows "life_ok r'"
  using assms reserve_views [OF assms(2)] life_ok_view [of r' r] by simp

text \<open>A datagram in either direction: charged, its lease found, a buffer reserved, the lease touched.\<close>

lemma leased_inv:
  assumes "life_ok r" "consumeData now n r = (e, r1)" "findLease now fid g nonce r1 = (Some l, r2)"
    "reserveBuffer d k r2 = (x, r3)" "flSpec l' = flSpec l"
  shows "life_ok (r3\<lparr>rgFlows := gm_set (rgFlows r3) fid l'\<rparr>)"
proof -
  have i2: "life_ok r2" by (rule find_inv [OF data_inv [OF assms(1,2)] assms(3)])
  have g: "gm_get (rgFlows r2) fid = Some l" using findLease_views [OF assms(3), of "[]"] by auto
  show ?thesis
    using i2 reserve_views [OF assms(4)] flows_inv_touch [OF _ g assms(5)] by (auto simp: life_ok_def regLife_def)
qed

lemma reserved_inv:
  assumes "life_ok r" "consumeData now n r = (e, r1)" "findLease now fid g nonce r1 = (y, r2)"
    "reserveBuffer d k r2 = (x, r3)"
  shows "life_ok r3"
  by (rule reserve_life [OF find_inv [OF data_inv [OF assms(1,2)] assms(3)] assms(4)])

lemmas datagram_inv = data_inv find_inv

lemma accept_inv:
  assumes "life_ok r"
  shows "life_ok (snd (acceptDatagram now cid d r))"
  using assms by (auto simp: acceptDatagram_def Let_def split: option.splits prod.splits sum.splits
      dest: datagram_inv intro: leased_inv [OF assms] reserved_inv [OF assms])

lemma reply_inv:
  assumes "life_ok r"
  shows "life_ok (snd (resolveReply now cid d r))"
  using assms by (auto simp: resolveReply_def Let_def split: option.splits prod.splits sum.splits
      dest: datagram_inv intro: leased_inv [OF assms] reserved_inv [OF assms])

lemma liveSum_Nil [simp]: "liveSum f [] = 0"
  by (simp add: liveSum_def)

section \<open>Every event\<close>

lemma buf_inv_stats [simp]: "buf_inv (r\<lparr>rgStats := st\<rparr>) = buf_inv r" "buf_inv (r\<lparr>rgFlows := f\<rparr>) = buf_inv r"
  by (simp_all add: buf_inv_def)

lemma data_buf: "consumeData now n r = (e, r') \<Longrightarrow> buf_inv r' = buf_inv r"
  using consumeData_views buf_inv_view by blast

lemma find_buf: "findLease now fid g nonce r = (x, r') \<Longrightarrow> buf_inv r' = buf_inv r"
  using findLease_views buf_inv_view by blast

lemma accept_buf: "buf_inv r \<Longrightarrow> buf_inv (snd (acceptDatagram now cid d r))"
  by (auto simp: acceptDatagram_def Let_def data_buf find_buf split: option.splits prod.splits sum.splits
      dest: reserve_inv [rotated])

lemma reply_buf: "buf_inv r \<Longrightarrow> buf_inv (snd (resolveReply now cid d r))"
  by (auto simp: resolveReply_def Let_def data_buf find_buf split: option.splits prod.splits sum.splits
      dest: reserve_inv [rotated])

lemma guard_buf: "controlGuard cid now r = (e, r') \<Longrightarrow> bufView r' = bufView r"
  using controlGuard_views by blast

lemma control_buf:
  assumes "gm_ok (rgFlows r)"
  shows "bufView (snd (prepareGeneration random now cid g r)) = bufView r"
    "bufView (snd (commitGeneration now cid t r)) = bufView r"
    "bufView (snd (abortGeneration now cid t r)) = bufView r"
    "bufView (snd (disableGeneration now cid g r)) = bufView r"
    "bufView (snd (closeFlow now cid g fid nonce r)) = bufView r"
    "bufView (snd (openFlow random now cid spec r)) = bufView r"
proof -
  obtain e r1 where c: "controlGuard cid now r = (e, r1)" by force
  have b: "bufView r1 = bufView r" by (rule guard_buf [OF c])
  have f: "bufView (q\<lparr>rgStats := st\<rparr>) = bufView q" "bufView (q\<lparr>rgFlows := fl\<rparr>) = bufView q"
    "bufView (q\<lparr>rgPrepared := pr\<rparr>) = bufView q" "bufView (q\<lparr>rgActiveGeneration := g'\<rparr>) = bufView q"
    "bufView (q\<lparr>rgLastGeneration := g'\<rparr>) = bufView q" for q st fl pr g'
    by (simp_all add: bufView_def)
  have ok: "gm_ok (rgFlows r1)" using controlGuard_views [OF c] assms by (simp add: regLife_def)
  show "bufView (snd (prepareGeneration random now cid g r)) = bufView r"
    by (cases e) (simp_all add: prepareGeneration_def c b f split: sum.splits)
  show "bufView (snd (commitGeneration now cid t r)) = bufView r"
    by (cases e) (simp_all add: commitGeneration_def c b f evict_views Let_def)
  show "bufView (snd (abortGeneration now cid t r)) = bufView r"
    by (cases e) (simp_all add: abortGeneration_def c b f)
  show "bufView (snd (disableGeneration now cid g r)) = bufView r"
    by (cases e) (simp_all add: disableGeneration_def c b f evict_views Let_def)
  show "bufView (snd (closeFlow now cid g fid nonce r)) = bufView r"
    by (cases e) (simp_all add: closeFlow_def c b f split: option.splits)
  show "bufView (snd (openFlow random now cid spec r)) = bufView r"
    by (cases e) (simp_all add: openFlow_def c b f Let_def expire_views(2) [OF ok] split: option.splits sum.splits)
qed

lemma attachment_buf:
  "bufView (snd (newTransportAttachment random v r)) = bufView r"
  "bufView (snd (AttachTransport random x r)) = bufView r"
  "bufView (snd (detachTransport x r)) = bufView r"
  "bufView (snd (Authenticate random now x token r)) = bufView r"
  "bufView (snd (disconnectController cid x r)) = bufView r"
  "bufView (registryClose r) = bufView r"
proof -
  have f: "bufView (q\<lparr>rgStats := st\<rparr>) = bufView q" "bufView (q\<lparr>rgAttachments := ats\<rparr>) = bufView q"
    "bufView (q\<lparr>rgAttachment := x\<rparr>) = bufView q" "bufView (q\<lparr>rgClosed := c\<rparr>) = bufView q" for q st ats x c
    by (simp_all add: bufView_def)
  have d: "bufView (destroyAttachment a st q) = bufView q" for a st q
    by (simp add: destroyAttachment_def bufView_def)
  show "bufView (snd (newTransportAttachment random v r)) = bufView r"
    by (simp add: newTransportAttachment_def f split: sum.splits)
  show "bufView (snd (AttachTransport random x r)) = bufView r"
    by (simp add: AttachTransport_def f d split: sum.splits option.splits) (simp add: bufView_def)
  show "bufView (snd (detachTransport x r)) = bufView r"
    by (simp add: detachTransport_def f d revoke_views split: option.splits)
  show "bufView (snd (Authenticate random now x token r)) = bufView r"
    by (simp add: Authenticate_def bufView_def split: sum.splits option.splits)
  show "bufView (snd (disconnectController cid x r)) = bufView r"
    by (simp add: disconnectController_def f d revoke_views split: option.splits)
  show "bufView (registryClose r) = bufView r"
    by (cases "rgClosed r") (simp_all add: registryClose_def [of r] f d revoke_views Let_def split: option.splits)
qed

definition registry_inv :: "Registry \<Rightarrow> bool" where
  "registry_inv r \<longleftrightarrow> life_ok r \<and> buf_inv r"

lemma registry_inv_step:
  assumes "registry_inv r"
  shows "registry_inv (registryStep r ev)"
proof -
  have l: "life_ok r" and b: "buf_inv r" and ok: "gm_ok (rgFlows r)"
    using assms by (simp_all add: registry_inv_def life_ok_def flows_inv_def)
  have rel: "life_ok (registryStep r (EvRelease i)) \<and> buf_inv (registryStep r (EvRelease i))" for i
  proof (cases "i < length (rgBuffers r)")
    case True
    obtain r' where "bufferRelease i r = Some r'" "buf_inv r'" "regLife r' = regLife r"
      using release_inv [OF b True] by blast
    then show ?thesis using l life_ok_view [of r' r] True by simp
  qed (use l b in simp)
  have "life_ok (registryStep r ev)"
  proof (cases ev)
    case (EvRelease i)
    then show ?thesis using rel by blast
  qed (use l in \<open>simp_all add: newAttachment_inv attach_inv detach_inv authenticate_inv disconnect_inv close_inv
      prepare_inv commit_gen_inv abort_inv disable_inv openFlow_inv closeFlow_inv accept_inv reply_inv expire_inv\<close>)
  moreover have "buf_inv (registryStep r ev)"
  proof (cases ev)
    case (EvRelease i)
    then show ?thesis using rel by blast
  qed (use b in \<open>simp_all add: accept_buf reply_buf buf_inv_view [OF control_buf(1) [OF ok]]
      buf_inv_view [OF control_buf(2) [OF ok]] buf_inv_view [OF control_buf(3) [OF ok]]
      buf_inv_view [OF control_buf(4) [OF ok]] buf_inv_view [OF control_buf(5) [OF ok]]
      buf_inv_view [OF control_buf(6) [OF ok]] buf_inv_view [OF expire_views(2) [OF ok]]
      buf_inv_view [OF attachment_buf(1)] buf_inv_view [OF attachment_buf(2)] buf_inv_view [OF attachment_buf(3)]
      buf_inv_view [OF attachment_buf(4)] buf_inv_view [OF attachment_buf(5)] buf_inv_view [OF attachment_buf(6)]\<close>)
  ultimately show ?thesis by (simp add: registry_inv_def)
qed

interpretation registry: invariant_machine registryStep registry_inv
  by unfold_locales (rule registry_inv_step)

lemma new_registry_inv: "newRegistry l = Inr r \<Longrightarrow> registry_inv r"
  by (auto simp: newRegistry_def registry_inv_def life_ok_def buf_inv_def att_inv_def registry_consts
      split: sum.splits)

section \<open>A registry with one flow\<close>

definition demo_limits :: Limits where
  "demo_limits = \<lparr>MaxFlows = 0, limMaxTGPDatagramSize = 0, limMaxDatagramSize = 0, MaxBufferedBytes = 0, FlowTTL = 0,
     PacketsPerSecond = 0, PacketBurst = 0, BytesPerSecond = 0, ByteBurst = 0, ControlOpsPerSecond = 0,
     ControlBurst = 0\<rparr>"

definition demo_registry :: Registry where
  "demo_registry = (case newRegistry demo_limits of Inr r \<Rightarrow> r)"

definition demo_spec :: "u64 \<Rightarrow> FlowSpec" where
  "demo_spec g = \<lparr>specID = replicate 16 4, specGeneration = g, specFamily = 4,
     specLocal = \<lparr>apAddr = Addr4 [10, 0, 0, 1], apPort = 5000\<rparr>,
     specRemote = \<lparr>apAddr = Addr4 [1, 1, 1, 1], apPort = 53\<rparr>\<rparr>"

definition demo_controller :: bytes where "demo_controller = replicate 16 3"

definition demo_datagram :: "u64 \<Rightarrow> u64 \<Rightarrow> Datagram" where
  "demo_datagram g n = \<lparr>dgFlow = replicate 16 4, dgGeneration = g, dgNonce = replicate 16 7, dgSequence = n,
     dgPayload = [1, 2, 3]\<rparr>"

text \<open>Attach, authenticate, commit generation 1 and open a flow in it.\<close>

definition demo_opening :: "registryEvent list" where
  "demo_opening = [EvNewAttachment (Some (replicate 32 1)) True, EvAttach (Some (replicate 32 2)) 0,
     EvAuthenticate (Some demo_controller) 0 0 (replicate 32 2),
     EvPrepare (Some (replicate 16 5)) 0 demo_controller 1,
     EvCommit 0 demo_controller \<lparr>txId = replicate 16 5, txGeneration = 1\<rparr>,
     EvOpenFlow (Some (replicate 16 7)) 0 demo_controller (demo_spec 1)]"

lemma demo_registry_new: "newRegistry demo_limits = Inr demo_registry"
proof -
  have "case newRegistry demo_limits of Inr r \<Rightarrow> True | Inl e \<Rightarrow> False" by code_simp
  then show ?thesis by (auto simp: demo_registry_def split: sum.splits)
qed

section \<open>Properties\<close>

text \<open>
  C7. Authority over flows. After any events: a controller is connected only over the attached
  transport, whose peer was verified, of a registry that is not closed; without a controller there is
  no active generation, no prepared one and no flow; every flow is well-formed, belongs to the active
  generation, which is the last one committed, and there are at most as many as the limit.
\<close>

theorem registry_authority:
  assumes "newRegistry l = Inr r0" and "r = run registryStep r0 es"
  shows "(rgControllerAlive r \<longrightarrow> \<not> rgClosed r \<and> (\<exists>a < length (rgAttachments r). rgAttachment r = Some a \<and>
      peerVerified (rgAttachments r ! a) \<and> attState (rgAttachments r ! a) = attachmentAttached)) \<and>
    (\<not> rgControllerAlive r \<longrightarrow> rgActiveGeneration r = 0 \<and> rgPrepared r = None \<and> rgFlows r = []) \<and>
    (gm_get (rgFlows r) fid = Some lease \<longrightarrow> validateFlowSpec (flSpec lease) = None \<and> specID (flSpec lease) = fid \<and>
      specGeneration (flSpec lease) = rgActiveGeneration r \<and> rgActiveGeneration r = rgLastGeneration r) \<and>
    int (length (rgFlows r)) \<le> max 0 (MaxFlows (rgLimits r))"
proof -
  have inv: "life_ok r" using registry.invar_run [OF new_registry_inv [OF assms(1)]] assms(2)
    by (simp add: registry_inv_def)
  then have a: "att_inv (rgClosed r) (rgAttachments r) (rgAttachment r) (rgTokenIssued r) (rgControllerAlive r)"
    and g: "gen_inv (rgControllerAlive r) (rgActiveGeneration r) (rgLastGeneration r) (rgPrepared r)"
    and f: "flows_inv (rgActiveGeneration r) (MaxFlows (rgLimits r)) (rgFlows r)" by (simp_all add: life_ok_def)
  have 1: "rgControllerAlive r \<longrightarrow> \<not> rgClosed r \<and> (\<exists>a < length (rgAttachments r). rgAttachment r = Some a \<and>
      peerVerified (rgAttachments r ! a) \<and> attState (rgAttachments r ! a) = attachmentAttached)"
    using a by (cases "rgAttachment r") (auto simp: att_inv_def)
  have none: "rgFlows r = []" if "rgActiveGeneration r = 0"
  proof (rule ccontr)
    assume "rgFlows r \<noteq> []"
    then obtain k v fs where "rgFlows r = (k, v) # fs" by (cases "rgFlows r") auto
    then have "gm_get (rgFlows r) k = Some v" by simp
    then show False using f that unfolding flows_inv_def by blast
  qed
  have 2: "\<not> rgControllerAlive r \<longrightarrow> rgActiveGeneration r = 0 \<and> rgPrepared r = None \<and> rgFlows r = []"
    using g none by (auto simp: gen_inv_def split: option.splits)
  have 3: "gm_get (rgFlows r) fid = Some lease \<longrightarrow> validateFlowSpec (flSpec lease) = None \<and>
      specID (flSpec lease) = fid \<and> specGeneration (flSpec lease) = rgActiveGeneration r \<and>
      rgActiveGeneration r = rgLastGeneration r"
    using f g unfolding flows_inv_def gen_inv_def by blast
  have 4: "int (length (rgFlows r)) \<le> max 0 (MaxFlows (rgLimits r))" using f by (simp add: flows_inv_def)
  show ?thesis using 1 2 3 4 by blast
qed

theorem registry_authority_witness:
  "rgControllerAlive (run registryStep demo_registry demo_opening) \<and>
   \<not> rgClosed (run registryStep demo_registry demo_opening) \<and>
   int (length (rgFlows (run registryStep demo_registry demo_opening))) \<le> max 0 4096"
proof -
  have a: "rgControllerAlive (run registryStep demo_registry demo_opening)" by code_simp
  have m: "MaxFlows (rgLimits (run registryStep demo_registry demo_opening)) = 4096" by code_simp
  from registry_authority [OF demo_registry_new refl, of demo_opening] a m show ?thesis by auto
qed

text \<open>
  C10. Buffers balance. After any events the byte counter, and the object and metadata counters in all
  and by direction, are exactly the sums over the leases handed out and not yet released; the bytes are
  within the configured budget, the objects at most 8192 and 4096 per direction, the metadata at most
  1 MiB and 768 KiB per direction; so releasing any lease, in any order and any number of times, never
  meets the panic.
\<close>

theorem registry_buffers_balance:
  assumes "newRegistry l = Inr r0" and "r = run registryStep r0 es"
  shows "rgBufferedBytes r = liveSum blBytes (rgBuffers r) \<and>
    rgOutstandingObjects r = liveSum (\<lambda>_. 1) (rgBuffers r) \<and>
    rgOutstandingMetadata r = liveSum blMetadata (rgBuffers r) \<and>
    rgObjects r d = liveSum (\<lambda>b. if blDirection b = d then 1 else 0) (rgBuffers r) \<and>
    rgMetadata r d = liveSum (\<lambda>b. if blDirection b = d then blMetadata b else 0) (rgBuffers r) \<and>
    rgBufferedBytes r \<le> max 0 (MaxBufferedBytes (rgLimits r)) \<and>
    rgOutstandingObjects r \<le> 8192 \<and> rgObjects r d \<le> 4096 \<and>
    rgOutstandingMetadata r \<le> 2 ^ 20 \<and> rgMetadata r d \<le> 768 * 2 ^ 10 \<and>
    (b < length (rgBuffers r) \<longrightarrow> bufferRelease b r \<noteq> None)"
proof -
  have inv: "buf_inv r" using registry.invar_run [OF new_registry_inv [OF assms(1)]] assms(2)
    by (simp add: registry_inv_def)
  show ?thesis using release_inv [OF inv, of b] inv by (auto simp: buf_inv_def registry_consts)
qed

theorem registry_buffers_balance_witness:
  "\<exists>r. r = run registryStep demo_registry (demo_opening @ [EvAccept 0 demo_controller (demo_datagram 1 9)]) \<and>
    length (rgBuffers r) = 1 \<and> rgBufferedBytes r = 64 \<and> bufferRelease 0 r \<noteq> None"
proof -
  let ?r = "run registryStep demo_registry (demo_opening @ [EvAccept 0 demo_controller (demo_datagram 1 9)])"
  have l: "length (rgBuffers ?r) = 1" and b: "rgBufferedBytes ?r = 64" by code_simp+
  from registry_buffers_balance [where r = ?r and b = 0, OF demo_registry_new refl] l b show ?thesis by auto
qed

end
