(* ===== verification/Registry_Props.thy ===== *)
theory Registry_Props
  imports Registry_Inv
begin

text \<open>
  More properties of the captured-UDP registry: sequence numbers are not replayed, and neither a
  revoked capability nor a retired policy generation comes back.
\<close>

section \<open>Sequence numbers\<close>

text \<open>Every lease for this flow with this nonce has accepted a number at least \<open>n\<close>.\<close>

definition seq_inv :: "bytes \<Rightarrow> bytes \<Rightarrow> u64 \<Rightarrow> (bytes, flowLease) gomap \<Rightarrow> bool" where
  "seq_inv fid nonce n m \<longleftrightarrow>
     (\<forall>l. gm_get m fid = Some l \<and> flNonce l = nonce \<longrightarrow> hasSequence l \<and> n \<le> flSequence l)"

lemma seq_del: "seq_inv f n k m \<Longrightarrow> seq_inv f n k (gm_del m j)"
  by (simp add: seq_inv_def gm_get_del)

lemma seq_keep: "gm_ok m \<Longrightarrow> seq_inv f n k m \<Longrightarrow> seq_inv f n k (gm_keep P m)"
  by (auto simp: seq_inv_def gm_get_keep split: option.splits)

lemma seq_Nil [simp]: "seq_inv f n k []"
  by (simp add: seq_inv_def)

text \<open>What an event does to the flows.\<close>

lemma guard_flows: "controlGuard cid now r = (e, r') \<Longrightarrow> rgFlows r' = rgFlows r"
  using controlGuard_views by (simp add: regLife_def)

lemma find_flows:
  "findLease now fid g nonce r = (x, r') \<Longrightarrow> rgFlows r' = rgFlows r \<or> rgFlows r' = gm_del (rgFlows r) fid"
  using findLease_views by blast

text \<open>The two outcomes of a captured datagram, and of a reply.\<close>

lemma data_flows: "consumeData now n r = (e, r') \<Longrightarrow> regLife r' = regLife r"
  using consumeData_views by blast

lemma find_Some:
  assumes "findLease now fid g nonce r = (Some l, r')"
  shows "r' = r" "gm_get (rgFlows r) fid = Some l" "flNonce l = nonce" "g = rgActiveGeneration r"
    "specGeneration (flSpec l) = g" "now - lastActivity l < FlowTTL (rgLimits r)"
  using findLease_views [OF assms, of "[]"] by auto

lemma accept_Inr:
  assumes "acceptDatagram now cid d r = (Inr (t, b), r')"
  obtains l where "requireController cid r = None" "gm_get (rgFlows r) (dgFlow d) = Some l"
    "flNonce l = dgNonce d" "dgGeneration d = rgActiveGeneration r" "specGeneration (flSpec l) = dgGeneration d"
    "now - lastActivity l < FlowTTL (rgLimits r)" "hasSequence l \<longrightarrow> flSequence l < dgSequence d"
    "\<not> overBudget (limMaxTGPDatagramSize (rgLimits r)) (apAddr (specLocal (flSpec l)))
       (apAddr (specRemote (flSpec l))) (dgPayload d)"
    "t = \<lparr>Identity = \<lparr>FlowID = dgFlow d, Generation = dgGeneration d, LeaseNonce = dgNonce d\<rparr>,
       LocalIP = apAddr (specLocal (flSpec l)), LocalPort = apPort (specLocal (flSpec l)),
       RemoteIP = apAddr (specRemote (flSpec l)), RemotePort = apPort (specRemote (flSpec l)),
       tunnelPayload = dgPayload d\<rparr>"
    "rgFlows r' = gm_set (rgFlows r) (dgFlow d)
       (l\<lparr>hasSequence := True, flSequence := dgSequence d, lastActivity := now\<rparr>)"
proof -
  obtain e1 r1 where c: "consumeData now (int (length (dgPayload d))) r = (e1, r1)" by force
  obtain x r2 where f: "findLease now (dgFlow d) (dgGeneration d) (dgNonce d) r1 = (x, r2)" by force
  obtain y r3 where v: "reserveBuffer bufferAccepted (int (length (dgPayload d))) r2 = (y, r3)" by force
  have k: "requireController cid r = None" "e1 = None" using assms
    by (auto simp: acceptDatagram_def c split: option.splits if_splits)
  then obtain l where x: "x = Some l" using assms
    by (cases x) (auto simp: acceptDatagram_def c f split: if_splits)
  then obtain b' where y: "y = Inr b'" using assms k
    by (cases y) (auto simp: acceptDatagram_def c f v Let_def split: if_splits)
  note F = find_Some [OF f [unfolded x]]
  have v1: "rgFlows r1 = rgFlows r" "rgLimits r1 = rgLimits r" "rgActiveGeneration r1 = rgActiveGeneration r"
    using data_flows [OF c] by (auto simp: regLife_def)
  have v3: "rgFlows r3 = rgFlows r1" using reserve_views [OF v] F(1) by (auto simp: regLife_def)
  show ?thesis
  proof (rule that [of l])
    show "requireController cid r = None" by (rule k(1))
    show "hasSequence l \<longrightarrow> flSequence l < dgSequence d"
      using assms k x y by (auto simp: acceptDatagram_def c f v Let_def not_le split: if_splits)
    show "\<not> overBudget (limMaxTGPDatagramSize (rgLimits r)) (apAddr (specLocal (flSpec l)))
       (apAddr (specRemote (flSpec l))) (dgPayload d)"
      using assms k x y F(1) v1(2) by (auto simp: acceptDatagram_def c f v Let_def split: if_splits)
    show "rgFlows r' = gm_set (rgFlows r) (dgFlow d)
       (l\<lparr>hasSequence := True, flSequence := dgSequence d, lastActivity := now\<rparr>)"
      using assms k x y v1(1) v3 by (auto simp: acceptDatagram_def c f v Let_def split: if_splits)
    show "t = \<lparr>Identity = \<lparr>FlowID = dgFlow d, Generation = dgGeneration d, LeaseNonce = dgNonce d\<rparr>,
       LocalIP = apAddr (specLocal (flSpec l)), LocalPort = apPort (specLocal (flSpec l)),
       RemoteIP = apAddr (specRemote (flSpec l)), RemotePort = apPort (specRemote (flSpec l)),
       tunnelPayload = dgPayload d\<rparr>"
      using assms k x y by (auto simp: acceptDatagram_def c f v Let_def split: if_splits)
  qed (use F v1 in simp_all)
qed

lemma accept_Inl:
  assumes "acceptDatagram now cid d r = (Inl e, r')"
  shows "rgFlows r' = rgFlows r \<or> rgFlows r' = gm_del (rgFlows r) (dgFlow d)"
proof -
  obtain e1 r1 where c: "consumeData now (int (length (dgPayload d))) r = (e1, r1)" by force
  obtain x r2 where f: "findLease now (dgFlow d) (dgGeneration d) (dgNonce d) r1 = (x, r2)" by force
  obtain y r3 where v: "reserveBuffer bufferAccepted (int (length (dgPayload d))) r2 = (y, r3)" by force
  have "rgFlows r1 = rgFlows r" "rgFlows r3 = rgFlows r2"
    "rgFlows r2 = rgFlows r1 \<or> rgFlows r2 = gm_del (rgFlows r1) (dgFlow d)"
    using data_flows [OF c] reserve_views [OF v] find_flows [OF f] by (auto simp: regLife_def)
  then show ?thesis using assms
    by (cases "requireController cid r"; cases e1; cases x; cases y)
      (auto simp: acceptDatagram_def c f v Let_def split: if_splits)
qed

lemma reply_flows:
  assumes "resolveReply now cid d r = (z, r')"
  shows "rgFlows r' = rgFlows r \<or> rgFlows r' = gm_del (rgFlows r) (FlowID (Identity d)) \<or>
    (\<exists>l. gm_get (rgFlows r) (FlowID (Identity d)) = Some l \<and>
      rgFlows r' = gm_set (rgFlows r) (FlowID (Identity d)) (l\<lparr>lastActivity := now\<rparr>))"
proof -
  obtain e1 r1 where c: "consumeData now (int (length (tunnelPayload d))) r = (e1, r1)" by force
  obtain x r2 where f: "findLease now (FlowID (Identity d)) (Generation (Identity d)) (LeaseNonce (Identity d)) r1 = (x, r2)"
    by force
  obtain y r3 where v: "reserveBuffer bufferDelivery (int (length (tunnelPayload d))) r2 = (y, r3)" by force
  have F: "rgFlows r1 = rgFlows r" "rgFlows r3 = rgFlows r2"
    "rgFlows r2 = rgFlows r1 \<or> rgFlows r2 = gm_del (rgFlows r1) (FlowID (Identity d))"
    using data_flows [OF c] reserve_views [OF v] find_flows [OF f] by (auto simp: regLife_def)
  have S: "gm_get (rgFlows r) (FlowID (Identity d)) = Some l \<and> r2 = r1" if "x = Some l" for l
    using find_Some [OF f [unfolded that]] F by simp
  have V: "reserveBuffer bufferDelivery (int (length (tunnelPayload d))) r1 = (y, r3)" if "x = Some l" for l
    using v S that by simp
  show ?thesis
    using F S V assms
    by (cases "requireController cid r"; cases e1; cases x; cases y)
      (auto simp: resolveReply_def c f v Let_def split: if_splits)
qed

text \<open>The control operations: nothing, all flows gone, one flow gone, or one opened with a fresh nonce.\<close>

lemma control_flows:
  shows "rgFlows (snd (prepareGeneration random now cid g r)) = rgFlows r"
    "rgFlows (snd (abortGeneration now cid t r)) = rgFlows r"
    "rgFlows (snd (commitGeneration now cid t r)) \<in> {rgFlows r, []}"
    "rgFlows (snd (disableGeneration now cid g r)) \<in> {rgFlows r, []}"
    "rgFlows (snd (closeFlow now cid g fid nonce r)) \<in> {rgFlows r, gm_del (rgFlows r) fid}"
proof -
  obtain e r1 where c: "controlGuard cid now r = (e, r1)" by force
  note G = guard_flows [OF c]
  show "rgFlows (snd (prepareGeneration random now cid g r)) = rgFlows r"
    using G by (cases e) (simp_all add: prepareGeneration_def c split: sum.splits)
  show "rgFlows (snd (abortGeneration now cid t r)) = rgFlows r"
    using G by (cases e) (simp_all add: abortGeneration_def c)
  show "rgFlows (snd (commitGeneration now cid t r)) \<in> {rgFlows r, []}"
    using G by (cases e) (simp_all add: commitGeneration_def c Let_def evict_views)
  show "rgFlows (snd (disableGeneration now cid g r)) \<in> {rgFlows r, []}"
    using G by (cases e) (simp_all add: disableGeneration_def c Let_def evict_views)
  show "rgFlows (snd (closeFlow now cid g fid nonce r)) \<in> {rgFlows r, gm_del (rgFlows r) fid}"
    using G by (cases e) (simp_all add: closeFlow_def c split: option.splits)
qed

lemma open_flows:
  assumes "gm_ok (rgFlows r)"
  shows "\<exists>P. rgFlows (snd (openFlow random now cid spec r)) = gm_keep P (rgFlows r) \<or>
    (\<exists>n. random = Some n \<and>
      rgFlows (snd (openFlow random now cid spec r)) = gm_set (gm_keep P (rgFlows r)) (specID spec)
        \<lparr>flSpec = spec, flNonce = n, hasSequence = False, flSequence = 0, lastActivity = now\<rparr>)"
proof -
  obtain e r1 where c: "controlGuard cid now r = (e, r1)" by force
  have G: "rgFlows r1 = rgFlows r" "gm_ok (rgFlows r1)" using guard_flows [OF c] assms by simp_all
  have t: "gm_keep (\<lambda>_ _. True) m = m" for m :: "(bytes, flowLease) gomap" by (simp add: gm_keep_def)
  have n: "readRandom random = Inr n \<Longrightarrow> random = Some n" for n
    by (auto simp: readRandom_def split: option.splits if_splits)
  let ?P = "\<lambda>_ l. now - lastActivity l < FlowTTL (rgLimits r1)"
  have x: "rgFlows (expireFlows now r1) = gm_keep ?P (rgFlows r)" using expire_views(1) [OF G(2)] G(1) by simp
  show ?thesis
  proof (cases "e = None \<and> validateFlowSpec spec = None")
    case True
    then show ?thesis using n
      by (intro exI [of _ ?P]) (auto simp: openFlow_def c Let_def x split: sum.splits)
  next
    case False
    then show ?thesis using G(1)
      by (intro exI [of _ "\<lambda>_ _. True"]) (auto simp: openFlow_def c t split: option.splits)
  qed
qed

lemma attachment_flows:
  "rgFlows (snd (newTransportAttachment random v r)) = rgFlows r"
  "rgFlows (snd (AttachTransport random x r)) = rgFlows r"
  "rgFlows (snd (Authenticate random now x token r)) = rgFlows r"
  "rgFlows (snd (detachTransport x r)) \<in> {rgFlows r, []}"
  "rgFlows (snd (disconnectController cid x r)) \<in> {rgFlows r, []}"
  "rgFlows (registryClose r) \<in> {rgFlows r, []}"
  by (simp_all add: newTransportAttachment_def AttachTransport_def Authenticate_def detachTransport_def
      disconnectController_def registryClose_def destroyAttachment_def revoke_views Let_def
      split: sum.splits option.splits)

text \<open>The random source never repeats a nonce in these events.\<close>

fun drawsNonce :: "bytes \<Rightarrow> registryEvent \<Rightarrow> bool" where
  "drawsNonce nonce (EvOpenFlow random now cid spec) = (random = Some nonce)"
| "drawsNonce nonce _ = False"

lemma seq_step:
  assumes inv: "registry_inv r" and s: "seq_inv fid nonce n (rgFlows r)" and fresh: "\<not> drawsNonce nonce ev"
  shows "seq_inv fid nonce n (rgFlows (registryStep r ev))"
proof -
  have ok: "gm_ok (rgFlows r)" using inv by (simp add: registry_inv_def life_ok_def flows_inv_def)
  have pick: "x \<in> {rgFlows r, []} \<Longrightarrow> seq_inv fid nonce n x" "x \<in> {rgFlows r, gm_del (rgFlows r) j} \<Longrightarrow> seq_inv fid nonce n x"
    for x j using s seq_del by auto
  show ?thesis
  proof (cases ev)
    case (EvAccept now cid d)
    obtain z r' where z: "acceptDatagram now cid d r = (z, r')" by force
    show ?thesis
    proof (cases z)
      case (Inl e)
      then show ?thesis using accept_Inl [OF z [unfolded Inl]] s seq_del [OF s] EvAccept z by auto
    next
      case (Inr y)
      obtain t b where y: "y = (t, b)" by force
      obtain l where "gm_get (rgFlows r) (dgFlow d) = Some l" "hasSequence l \<longrightarrow> flSequence l < dgSequence d"
        "rgFlows r' = gm_set (rgFlows r) (dgFlow d) (l\<lparr>hasSequence := True, flSequence := dgSequence d, lastActivity := now\<rparr>)"
        using accept_Inr [OF z [unfolded Inr y]] by metis
      then show ?thesis using s EvAccept z by (auto simp: seq_inv_def gm_get_set)
    qed
  next
    case (EvReply now cid d)
    obtain z r' where z: "resolveReply now cid d r = (z, r')" by force
    have e: "registryStep r ev = r'" using EvReply z by simp
    have t: "seq_inv fid nonce n (gm_set (rgFlows r) j (l\<lparr>lastActivity := now\<rparr>))"
      if "gm_get (rgFlows r) j = Some l" for j l
      using s that by (auto simp: seq_inv_def gm_get_set)
    show ?thesis unfolding e using reply_flows [OF z] s seq_del [OF s] t by auto
  next
    case (EvOpenFlow random now cid spec)
    obtain P where "rgFlows (registryStep r ev) = gm_keep P (rgFlows r) \<or>
        (\<exists>m. random = Some m \<and>
          rgFlows (registryStep r ev) = gm_set (gm_keep P (rgFlows r)) (specID spec)
            \<lparr>flSpec = spec, flNonce = m, hasSequence = False, flSequence = 0, lastActivity = now\<rparr>)"
      using open_flows [OF ok, of random now cid spec] EvOpenFlow by auto
    moreover have "seq_inv fid nonce n (gm_keep P (rgFlows r))" by (rule seq_keep [OF ok s])
    ultimately show ?thesis using fresh EvOpenFlow by (auto simp: seq_inv_def gm_get_set split: if_splits)
  next
    case (EvReap now)
    then show ?thesis using seq_keep [OF ok s] expire_views(1) [OF ok] by simp
  next
    case (EvRelease b)
    have "buf_inv r" using inv by (simp add: registry_inv_def)
    then show ?thesis using EvRelease s release_inv [of r b] by (auto simp: regLife_def)
  next
    case (EvCloseFlow now cid g fid' nonce')
    then show ?thesis using pick(2) [OF control_flows(5)] by simp
  qed (use s pick attachment_flows control_flows in \<open>auto simp del: insert_iff\<close>)
qed

lemma seq_run:
  "registry_inv r \<Longrightarrow> seq_inv fid nonce n (rgFlows r) \<Longrightarrow> \<forall>ev \<in> set es. \<not> drawsNonce nonce ev \<Longrightarrow>
   seq_inv fid nonce n (rgFlows (run registryStep r es))"
proof (induction es arbitrary: r)
  case (Cons ev es)
  then show ?case using registry_inv_step [of r ev] seq_step [of r fid nonce n ev] by simp
qed simp

text \<open>
  C8. Captured datagrams cannot be replayed. Once the registry has accepted a datagram of a lease
  with some sequence number, it accepts no datagram with the same flow and lease nonce and an equal
  or smaller number, whatever happens in between, as long as the random source does not draw that
  nonce again for a new lease.
\<close>

theorem captured_sequence_not_replayed:
  assumes "newRegistry l = Inr r0" and "r = run registryStep r0 es"
    and "acceptDatagram now cid d r = (Inr (t, b), r1)"
    and "\<forall>ev \<in> set es'. \<not> drawsNonce (dgNonce d) ev" and "r2 = run registryStep r1 es'"
    and "dgFlow d' = dgFlow d" and "dgNonce d' = dgNonce d" and "dgSequence d' \<le> dgSequence d"
  shows "\<exists>e. fst (acceptDatagram now' cid' d' r2) = Inl e"
proof -
  have inv: "registry_inv r" using registry.invar_run [OF new_registry_inv [OF assms(1)]] assms(2) by simp
  have inv1: "registry_inv r1" using registry_inv_step [OF inv, of "EvAccept now cid d"] assms(3) by simp
  have "seq_inv (dgFlow d) (dgNonce d) (dgSequence d) (rgFlows r1)"
  proof -
    obtain l where "rgFlows r1 = gm_set (rgFlows r) (dgFlow d)
        (l\<lparr>hasSequence := True, flSequence := dgSequence d, lastActivity := now\<rparr>)"
      using accept_Inr [OF assms(3)] by metis
    then show ?thesis by (simp add: seq_inv_def)
  qed
  then have s: "seq_inv (dgFlow d) (dgNonce d) (dgSequence d) (rgFlows r2)"
    using seq_run [OF inv1 _ assms(4)] assms(5) by simp
  show ?thesis
  proof (cases "acceptDatagram now' cid' d' r2")
    case (Pair z r3)
    show ?thesis
    proof (cases z)
      case (Inr y)
      obtain t' b' where y: "y = (t', b')" by force
      obtain l where "gm_get (rgFlows r2) (dgFlow d') = Some l" "flNonce l = dgNonce d'"
        "hasSequence l \<longrightarrow> flSequence l < dgSequence d'"
        using accept_Inr [OF Pair [unfolded Inr y]] by metis
      then show ?thesis using s assms(6-8) unfolding seq_inv_def by fastforce
    qed (simp add: Pair)
  qed
qed

theorem captured_sequence_not_replayed_witness:
  "\<exists>e. fst (acceptDatagram 5 demo_controller (demo_datagram 1 8)
     (run registryStep (snd (acceptDatagram 0 demo_controller (demo_datagram 1 9)
        (run registryStep demo_registry demo_opening))) [EvReap 3])) = Inl e"
proof -
  let ?r = "run registryStep demo_registry demo_opening"
  have "case fst (acceptDatagram 0 demo_controller (demo_datagram 1 9) ?r) of Inr x \<Rightarrow> True | Inl e \<Rightarrow> False"
    by code_simp
  then obtain t b r1 where a: "acceptDatagram 0 demo_controller (demo_datagram 1 9) ?r = (Inr (t, b), r1)"
    by (cases "acceptDatagram 0 demo_controller (demo_datagram 1 9) ?r") (auto split: sum.splits)
  show ?thesis unfolding a
    by (simp del: registryStep.simps run.simps, rule captured_sequence_not_replayed [OF demo_registry_new refl a _ refl])
      (simp_all add: demo_datagram_def)
qed

section \<open>Capabilities and generations that have ended\<close>

definition ctlView where "ctlView r = (rgClosed r, rgControllerAlive r, rgController r)"

definition genView where "genView r = (rgActiveGeneration r, rgLastGeneration r, rgPrepared r)"

lemma life_ctl: "regLife r = regLife r' \<Longrightarrow> ctlView r = ctlView r' \<and> genView r = genView r'"
  by (simp add: regLife_def ctlView_def genView_def)

lemma flows_ctl: "regLife (r\<lparr>rgFlows := f\<rparr>) = regLife (r'\<lparr>rgFlows := f\<rparr>) \<Longrightarrow> ctlView r = ctlView r' \<and> genView r = genView r'"
  by (simp add: regLife_def ctlView_def genView_def)

lemma ctl_updates:
  "ctlView (r\<lparr>rgStats := st\<rparr>) = ctlView r" "ctlView (r\<lparr>rgFlows := f\<rparr>) = ctlView r"
  "genView (r\<lparr>rgStats := st\<rparr>) = genView r" "genView (r\<lparr>rgFlows := f\<rparr>) = genView r"
  by (simp_all add: ctlView_def genView_def)

lemma data_ctl:
  "consumeData now n r = (e, r') \<Longrightarrow> ctlView r' = ctlView r \<and> genView r' = genView r"
  "findLease now fid g nonce r = (x, r') \<Longrightarrow> ctlView r' = ctlView r \<and> genView r' = genView r"
  "reserveBuffer dir n r = (y, r') \<Longrightarrow> ctlView r' = ctlView r \<and> genView r' = genView r"
  "controlGuard cid now r = (e, r') \<Longrightarrow> ctlView r' = ctlView r \<and> genView r' = genView r"
  using consumeData_views findLease_views reserve_views controlGuard_views life_ctl flows_ctl by metis+

lemma datagram_ctl:
  "ctlView (snd (acceptDatagram now cid d r)) = ctlView r \<and> genView (snd (acceptDatagram now cid d r)) = genView r"
  "ctlView (snd (resolveReply now cid t r)) = ctlView r \<and> genView (snd (resolveReply now cid t r)) = genView r"
  by (auto simp: acceptDatagram_def resolveReply_def Let_def ctl_updates split: option.splits prod.splits sum.splits
      dest!: data_ctl)

lemma flow_ctl:
  assumes "gm_ok (rgFlows r)"
  shows "ctlView (snd (openFlow random now cid spec r)) = ctlView r \<and>
      genView (snd (openFlow random now cid spec r)) = genView r"
    "ctlView (snd (closeFlow now cid g fid nonce r)) = ctlView r \<and>
      genView (snd (closeFlow now cid g fid nonce r)) = genView r"
    "ctlView (expireFlows now r) = ctlView r \<and> genView (expireFlows now r) = genView r"
proof -
  have x: "ctlView (expireFlows now q) = ctlView q \<and> genView (expireFlows now q) = genView q" if "gm_ok (rgFlows q)" for q
    using flows_ctl [OF expire_views(3) [OF that, where f = "[]"]] .
  show "ctlView (expireFlows now r) = ctlView r \<and> genView (expireFlows now r) = genView r" by (rule x [OF assms])
  obtain e r1 where c: "controlGuard cid now r = (e, r1)" by force
  note G = data_ctl(4) [OF c]
  have "gm_ok (rgFlows r1)" using guard_flows [OF c] assms by simp
  note X = x [OF this]
  show "ctlView (snd (openFlow random now cid spec r)) = ctlView r \<and>
      genView (snd (openFlow random now cid spec r)) = genView r"
    using G X by (cases e) (simp_all add: openFlow_def c Let_def ctl_updates split: option.splits sum.splits)
  show "ctlView (snd (closeFlow now cid g fid nonce r)) = ctlView r \<and>
      genView (snd (closeFlow now cid g fid nonce r)) = genView r"
    using G by (cases e) (simp_all add: closeFlow_def c ctl_updates split: option.splits)
qed

lemma generation_ctl:
  "ctlView (snd (prepareGeneration random now cid g r)) = ctlView r"
  "ctlView (snd (commitGeneration now cid t r)) = ctlView r"
  "ctlView (snd (abortGeneration now cid t r)) = ctlView r"
  "ctlView (snd (disableGeneration now cid g r)) = ctlView r"
proof -
  obtain e r1 where c: "controlGuard cid now r = (e, r1)" by force
  have G: "rgClosed r1 = rgClosed r" "rgControllerAlive r1 = rgControllerAlive r" "rgController r1 = rgController r"
    using data_ctl(4) [OF c] by (simp_all add: ctlView_def)
  show "ctlView (snd (prepareGeneration random now cid g r)) = ctlView r"
    using G by (cases e) (simp_all add: prepareGeneration_def c ctlView_def split: sum.splits)
  show "ctlView (snd (commitGeneration now cid t r)) = ctlView r"
    using G by (cases e) (simp_all add: commitGeneration_def c ctlView_def evict_views Let_def)
  show "ctlView (snd (abortGeneration now cid t r)) = ctlView r"
    using G by (cases e) (simp_all add: abortGeneration_def c ctlView_def)
  show "ctlView (snd (disableGeneration now cid g r)) = ctlView r"
    using G by (cases e) (simp_all add: disableGeneration_def c ctlView_def evict_views Let_def)
qed

fun drawsController :: "bytes \<Rightarrow> registryEvent \<Rightarrow> bool" where
  "drawsController cid (EvAuthenticate random now a token) = (random = Some cid)"
| "drawsController cid _ = False"

lemma attachment_ctl:
  "ctlView (snd (newTransportAttachment random v r)) = ctlView r"
  "ctlView (snd (AttachTransport random x r)) = ctlView r"
  "ctlView (snd (detachTransport x r)) = ctlView r \<or> \<not> rgControllerAlive (snd (detachTransport x r))"
  "ctlView (snd (disconnectController cid x r)) = ctlView r \<or> \<not> rgControllerAlive (snd (disconnectController cid x r))"
  "ctlView (registryClose r) = ctlView r \<or> \<not> rgControllerAlive (registryClose r)"
  by (simp_all add: newTransportAttachment_def AttachTransport_def detachTransport_def disconnectController_def
      registryClose_def destroyAttachment_def revoke_views Let_def ctlView_def split: sum.splits option.splits)

lemma release_life:
  assumes "registry_inv r"
  shows "regLife (registryStep r (EvRelease b)) = regLife r"
proof (cases "b < length (rgBuffers r)")
  case True
  have "buf_inv r" using assms by (simp add: registry_inv_def)
  from release_inv [OF this True] show ?thesis using True by auto
qed simp

text \<open>Only authentication makes a controller live.\<close>

lemma ctl_step:
  assumes inv: "registry_inv r"
  obtains (same) "ctlView (registryStep r ev) = ctlView r"
  | (revoked) "\<not> rgControllerAlive (registryStep r ev)"
  | (authenticated) random now a token where "ev = EvAuthenticate random now a token"
      "random = Some (rgController (registryStep r ev))"
proof -
  have ok: "gm_ok (rgFlows r)" using inv by (simp add: registry_inv_def life_ok_def flows_inv_def)
  have n: "readRandom random = Inr x \<Longrightarrow> random = Some x" for random x
    by (auto simp: readRandom_def split: option.splits if_splits)
  have "ctlView (registryStep r ev) = ctlView r \<or> \<not> rgControllerAlive (registryStep r ev) \<or>
    (\<exists>random now a token. ev = EvAuthenticate random now a token \<and> random = Some (rgController (registryStep r ev)))"
  proof (cases ev)
    case (EvAuthenticate random now a token)
    then show ?thesis by (auto simp: Authenticate_def ctlView_def split: sum.splits dest!: n)
  next
    case (EvRelease b)
    then show ?thesis using life_ctl [OF release_life [OF inv, of b]] by blast
  next
    case (EvDetach a)
    then show ?thesis using attachment_ctl(3) [of "Some a" r] by simp
  next
    case (EvDisconnect cid a)
    then show ?thesis using attachment_ctl(4) [of cid "Some a" r] by simp
  next
    case EvCloseRegistry
    then show ?thesis using attachment_ctl(5) [of r] by simp
  qed (simp_all add: generation_ctl attachment_ctl flow_ctl [OF ok] datagram_ctl)
  then show ?thesis using same revoked authenticated by blast
qed

lemma dead_step:
  assumes "registry_inv r" "requireController cid r \<noteq> None" "\<not> drawsController cid ev"
  shows "requireController cid (registryStep r ev) \<noteq> None"
  using assms(1)
proof (cases rule: ctl_step [of r ev])
  case same
  then show ?thesis using assms(2) by (auto simp: requireController_def ctlView_def split: if_splits)
next
  case revoked
  then show ?thesis by (simp add: requireController_def)
next
  case (authenticated random now a token)
  have "random \<noteq> Some cid" using assms(3) authenticated(1) by simp
  then show ?thesis using authenticated(2) by (simp add: requireController_def)
qed

lemma dead_run:
  "registry_inv r \<Longrightarrow> requireController cid r \<noteq> None \<Longrightarrow> \<forall>ev \<in> set es. \<not> drawsController cid ev \<Longrightarrow>
   requireController cid (run registryStep r es) \<noteq> None"
proof (induction es arbitrary: r)
  case (Cons ev es)
  then show ?case using registry_inv_step [of r ev] dead_step [of r cid ev] by simp
qed simp

text \<open>
  C9. A revoked capability stays revoked. Once a controller id is not the live one (because it
  disconnected, its transport was detached, or the registry closed), no operation under it succeeds
  any more, whatever happens, as long as authentication does not draw the same id again.
\<close>

theorem revoked_controller_stays_revoked:
  assumes "newRegistry l = Inr r0" and "r = run registryStep r0 es" and "requireController cid r \<noteq> None"
    and "\<forall>ev \<in> set es'. \<not> drawsController cid ev" and "r' = run registryStep r es'"
  shows "\<exists>e. (e = CapErrClosed \<or> e = ErrControllerRevoked) \<and>
    acceptDatagram now cid d r' = (Inl e, r') \<and> resolveReply now cid t r' = (Inl e, r') \<and>
    openFlow random now cid spec r' = (Inl e, r') \<and> closeFlow now cid g fid nonce r' = (Some e, r') \<and>
    prepareGeneration random now cid g r' = (Inl e, r') \<and> commitGeneration now cid tx r' = (Some e, r') \<and>
    abortGeneration now cid tx r' = (Some e, r') \<and> disableGeneration now cid g r' = (Some e, r')"
proof -
  have inv: "registry_inv r" using registry.invar_run [OF new_registry_inv [OF assms(1)]] assms(2) by simp
  obtain e where e: "requireController cid r' = Some e"
    using dead_run [OF inv assms(3,4)] assms(5) by auto
  then have k: "e = CapErrClosed \<or> e = ErrControllerRevoked"
    by (auto simp: requireController_def split: if_splits)
  have c: "controlGuard cid now r' = (Some e, r')" using e by (simp add: controlGuard_def)
  show ?thesis using e c k
    by (intro exI [of _ e])
      (simp add: acceptDatagram_def resolveReply_def openFlow_def closeFlow_def prepareGeneration_def
        commitGeneration_def abortGeneration_def disableGeneration_def)
qed

theorem revoked_controller_stays_revoked_witness:
  "\<exists>e r'. r' = run registryStep (run registryStep demo_registry (demo_opening @ [EvDetach 0])) [EvReap 3] \<and>
     acceptDatagram 5 demo_controller (demo_datagram 1 10) r' = (Inl e, r')"
proof -
  let ?r = "run registryStep demo_registry (demo_opening @ [EvDetach 0])"
  have d: "requireController demo_controller ?r \<noteq> None" by code_simp
  have "\<forall>ev \<in> set [EvReap 3]. \<not> drawsController demo_controller ev" by simp
  from revoked_controller_stays_revoked [OF demo_registry_new refl d this refl] show ?thesis by metis
qed

text \<open>The generation cannot be the active one again: it is not, and newer ones have been committed.\<close>

definition retired :: "u64 \<Rightarrow> Registry \<Rightarrow> bool" where
  "retired g r \<longleftrightarrow> g \<noteq> 0 \<and> g \<le> rgLastGeneration r \<and> g \<noteq> rgActiveGeneration r"

lemma retired_view: "genView r' = genView r \<Longrightarrow> retired g r' = retired g r"
  by (simp add: retired_def genView_def)

lemma retired_generations:
  assumes inv: "life_ok r" and g: "retired g r"
  shows "retired g (snd (prepareGeneration random now cid x r))" "retired g (snd (commitGeneration now cid t r))"
    "retired g (snd (abortGeneration now cid t r))" "retired g (snd (disableGeneration now cid x r))"
proof -
  obtain e r1 where c: "controlGuard cid now r = (e, r1)" by force
  have g1: "retired g r1" using data_ctl(4) [OF c] g retired_view by blast
  have p: "rgLastGeneration r1 < pgGeneration p" if "rgPrepared r1 = Some p" for p
    using guard_inv(1) [OF inv c] that by (simp add: life_ok_def gen_inv_def)
  show "retired g (snd (prepareGeneration random now cid x r))"
    using g1 by (cases e) (simp_all add: prepareGeneration_def c retired_def split: sum.splits)
  show "retired g (snd (commitGeneration now cid t r))"
    using g1 p by (cases e) (auto simp: commitGeneration_def c retired_def preparedIs_def evict_views Let_def
        split: option.splits)
  show "retired g (snd (abortGeneration now cid t r))"
    using g1 by (cases e) (simp_all add: abortGeneration_def c retired_def)
  show "retired g (snd (disableGeneration now cid x r))"
    using g1 by (cases e) (simp_all add: disableGeneration_def c retired_def evict_views Let_def)
qed

lemma retired_attachments:
  assumes g: "retired g r"
  shows "retired g (snd (newTransportAttachment random v r))" "retired g (snd (AttachTransport random x r))"
    "retired g (snd (detachTransport x r))" "retired g (snd (disconnectController cid x r))"
    "retired g (registryClose r)" "retired g (snd (Authenticate random now x token r))"
  using g by (simp_all add: newTransportAttachment_def AttachTransport_def detachTransport_def
      disconnectController_def registryClose_def destroyAttachment_def Authenticate_def revoke_views Let_def
      retired_def split: sum.splits option.splits)

lemma retired_step:
  assumes inv: "registry_inv r" and g: "retired g r"
  shows "retired g (registryStep r ev)"
proof -
  have l: "life_ok r" and ok: "gm_ok (rgFlows r)"
    using inv by (simp_all add: registry_inv_def life_ok_def flows_inv_def)
  show ?thesis
  proof (cases ev)
    case (EvRelease b)
    then show ?thesis using life_ctl [OF release_life [OF inv, of b]] retired_view g by blast
  qed (use g in \<open>simp_all add: retired_generations [OF l g] retired_attachments [OF g]
      retired_view [OF conjunct2 [OF flow_ctl(1) [OF ok]]] retired_view [OF conjunct2 [OF flow_ctl(2) [OF ok]]]
      retired_view [OF conjunct2 [OF flow_ctl(3) [OF ok]]] retired_view [OF conjunct2 [OF datagram_ctl(1)]]
      retired_view [OF conjunct2 [OF datagram_ctl(2)]]\<close>)
qed

interpretation registry_retired: invariant_machine registryStep "\<lambda>r. registry_inv r \<and> retired g r" for g
  by unfold_locales (auto intro: registry_inv_step retired_step)

text \<open>
  C11. A policy generation never comes back. Once a generation is no longer active although one at
  least as new has been committed, it is never active again, no flow can be opened in it and no
  datagram of it is accepted.
\<close>

theorem retired_generation_stays_retired:
  assumes "newRegistry l = Inr r0" and "r = run registryStep r0 es"
    and "g \<noteq> 0" and "g \<le> rgLastGeneration r" and "g \<noteq> rgActiveGeneration r"
    and "r' = run registryStep r es'" and "dgGeneration d = g" and "specGeneration spec = g"
  shows "rgActiveGeneration r' \<noteq> g \<and> (\<exists>e. fst (acceptDatagram now cid d r') = Inl e) \<and>
    (\<exists>e. fst (openFlow random now cid spec r') = Inl e)"
proof -
  have "registry_inv r \<and> retired g r"
    using registry.invar_run [OF new_registry_inv [OF assms(1)]] assms(2-5) by (simp add: retired_def)
  from registry_retired.invar_run [OF this, of es'] have inv: "registry_inv r'" and g: "retired g r'"
    using assms(6) by simp_all
  have ok: "gm_ok (rgFlows r')" using inv by (simp add: registry_inv_def life_ok_def flows_inv_def)
  have a: "\<exists>e. fst (acceptDatagram now cid d r') = Inl e"
  proof (cases "acceptDatagram now cid d r'")
    case (Pair z q)
    then show ?thesis using accept_Inr [of now cid d r'] g assms(7) by (cases z) (auto simp: retired_def)
  qed
  obtain e r1 where c: "controlGuard cid now r' = (e, r1)" by force
  have G: "gm_ok (rgFlows r1)" "genView r1 = genView r'" using guard_flows [OF c] data_ctl(4) [OF c] ok by simp_all
  have "genView (expireFlows now r1) = genView r'" using flow_ctl(3) [OF G(1)] G(2) by simp
  then have "specGeneration spec \<noteq> rgActiveGeneration (expireFlows now r1)"
    using g assms(8) by (simp add: genView_def retired_def)
  then have o: "\<exists>e. fst (openFlow random now cid spec r') = Inl e"
    by (cases e) (auto simp: openFlow_def c Let_def split: option.splits)
  show ?thesis using g a o by (auto simp: retired_def)
qed

theorem retired_generation_stays_retired_witness:
  "\<exists>e. fst (acceptDatagram 5 demo_controller (demo_datagram 1 10)
     (run registryStep (run registryStep demo_registry (demo_opening @ [EvDisable 0 demo_controller 1])) [EvReap 3])) = Inl e"
proof -
  let ?r = "run registryStep demo_registry (demo_opening @ [EvDisable 0 demo_controller 1])"
  have g: "(1 :: u64) \<noteq> 0" "1 \<le> rgLastGeneration ?r" "1 \<noteq> rgActiveGeneration ?r" by code_simp+
  have "dgGeneration (demo_datagram 1 10) = 1" "specGeneration (demo_spec 1) = 1"
    by (simp_all add: demo_datagram_def demo_spec_def)
  from retired_generation_stays_retired [OF demo_registry_new refl g refl this] show ?thesis by blast
qed

end
