(* ===== verification/Multipath.thy ===== *)
theory Multipath
  imports Relay
begin

text \<open>
  The multipath transport of the client (\<open>internal/tgp/multipath_transport.go\<close>): one read loop per
  path into a shared channel, writes to every live path, the shutdown, and the client's side of path
  authentication.

  The sockets of the paths are outside: what they deliver, whether their writes succeed and what
  closing them returns are arguments. The goroutines are the steps of the relation \<open>mp_step\<close>.
\<close>

section \<open>State\<close>

text \<open>\<open>MpIO\<close> is an error of a path or of a context.\<close>

datatype mp_error =
    ErrMultipathTransportClosed
  | MpIO nat
  | MpAllReadPathsFailed "mp_error list"
  | MpWriteFailed "(nat \<times> mp_error) list"
  | MpRequestsFailed "mp_error list"
  | MpNoPaths
  | MpNilAddress
  | MpUnroutable
  | MpNotConfigured
  | MpRandom
  | MpMarshal

definition pathAuthenticationRefreshInterval :: duration where
  "pathAuthenticationRefreshInterval = 10 * time_Second"

record clientPathAuthentication =
  caSession :: SessionID
  caKey :: bytes
  caRemote :: NetAddr
  caClockOffset :: duration
  caNonces :: "bytes list"
  caAuthorized :: "(sourceAddrKey, unit) gomap"

text \<open>Where a read loop is: in \<open>ReadPacket\<close>, in the \<open>select\<close> with a packet, in its deferred calls,
  or gone. And how far \<open>Close\<close> has come.\<close>

datatype readLoopState =
    LoopReading
  | LoopHolding bytes "NetAddr option"
  | LoopEnding
  | LoopEnded

datatype closeStage = CloseIdle | ClosePaths nat | CloseDone

text \<open>\<open>mpWrites\<close> lists what the paths were handed: path, packet and destination.\<close>

record MultipathTransport =
  mpPaths :: nat
  mpPathClosed :: "bool list"
  mpCancelled :: bool
  mpReads :: "(bytes \<times> NetAddr option) list"
  mpReadsClosed :: bool
  mpLoops :: "readLoopState list"
  mpClose :: closeStage
  mpAlive :: "bool list"
  mpErrors :: "mp_error option list"
  mpPathCloseErr :: "mp_error option list"
  mpTerminal :: "mp_error option"
  mpCloseErr :: "mp_error list"
  mpClosing :: bool
  mpAuth :: "clientPathAuthentication option"
  mpWrites :: "(nat \<times> bytes \<times> NetAddr option) list"

text \<open>\<open>errors.Join\<close> drops the nil errors.\<close>

definition joined :: "mp_error option list \<Rightarrow> mp_error list" where
  "joined es = map the (filter (\<lambda>e. e \<noteq> None) es)"

text \<open>\<open>NewMultipathTransport\<close>; \<open>paths\<close> says which of the given transports are not nil.\<close>

definition NewMultipathTransport :: "bool list \<Rightarrow> mp_error + MultipathTransport" where
  "NewMultipathTransport paths =
     (let n = length (filter id paths)
      in if n = 0 then Inl MpNoPaths
         else Inr \<lparr>mpPaths = n, mpPathClosed = replicate n False, mpCancelled = False, mpReads = [],
                   mpReadsClosed = False, mpLoops = replicate n LoopReading, mpClose = CloseIdle,
                   mpAlive = replicate n True, mpErrors = replicate n None,
                   mpPathCloseErr = replicate n None, mpTerminal = None, mpCloseErr = [],
                   mpClosing = False, mpAuth = None, mpWrites = []\<rparr>)"

section \<open>Paths\<close>

definition pathTerminated :: "nat \<Rightarrow> mp_error \<Rightarrow> MultipathTransport \<Rightarrow> MultipathTransport" where
  "pathTerminated index err t =
     (if index \<ge> length (mpAlive t) \<or> \<not> mpAlive t ! index then t
      else
        let t = t\<lparr>mpAlive := (mpAlive t)[index := False], mpErrors := (mpErrors t)[index := Some err]\<rparr>;
            remaining = length (filter id (mpAlive t));
            t = (if remaining = 0 \<and> \<not> mpClosing t \<and> mpTerminal t = None
                 then t\<lparr>mpTerminal := Some (MpAllReadPathsFailed (joined (mpErrors t)))\<rparr> else t)
        in if remaining = 0 then t\<lparr>mpCancelled := True\<rparr> else t)"

text \<open>\<open>err\<close> is what closing the socket returns.\<close>

definition closePath :: "nat \<Rightarrow> mp_error option \<Rightarrow> MultipathTransport \<Rightarrow> MultipathTransport" where
  "closePath index err t =
     (if index \<ge> mpPaths t \<or> mpPathClosed t ! index then t
      else t\<lparr>mpPathClosed := (mpPathClosed t)[index := True],
             mpPathCloseErr := (mpPathCloseErr t)[index := err]\<rparr>)"

definition finishReads :: "MultipathTransport \<Rightarrow> MultipathTransport" where
  "finishReads t =
     (let t = (if mpTerminal t = None then t\<lparr>mpTerminal := Some ErrMultipathTransportClosed\<rparr> else t)
      in t\<lparr>mpReadsClosed := True\<rparr>)"

definition activePathIndexes :: "MultipathTransport \<Rightarrow> nat list \<times> mp_error option" where
  "activePathIndexes t =
     (let indexes = filter (\<lambda>i. mpAlive t ! i) [0..<length (mpAlive t)]
      in if indexes = [] then ([], mpTerminal t) else (indexes, None))"

definition readTerminalError :: "MultipathTransport \<Rightarrow> mp_error" where
  "readTerminalError t =
     (case mpTerminal t of Some e \<Rightarrow> e | None \<Rightarrow> ErrMultipathTransportClosed)"

text \<open>\<open>Close\<close> up to the first socket, and after the last: it waits for \<open>readDone\<close> in between.\<close>

definition closeStart :: "MultipathTransport \<Rightarrow> MultipathTransport" where
  "closeStart t =
     t\<lparr>mpClosing := True,
       mpTerminal := (if mpTerminal t = None then Some ErrMultipathTransportClosed else mpTerminal t),
       mpCancelled := True, mpClose := ClosePaths 0\<rparr>"

definition closeEnd :: "MultipathTransport \<Rightarrow> MultipathTransport" where
  "closeEnd t = t\<lparr>mpCloseErr := joined (mpPathCloseErr t), mpClose := CloseDone\<rparr>"

section \<open>Writing\<close>

text \<open>
  \<open>awaitWriteResults\<close> over what happens: a result is taken from the channel, or the \<open>select\<close> sees that
  one of the two contexts is done, with the results that are in the channel by then.
\<close>

type_synonym writeResult = "nat \<times> mp_error option"

datatype awaitEvent =
    AwResult writeResult
  | AwCallerDone mp_error "writeResult list"
  | AwTransportDone "writeResult list"

fun drainPublished :: "nat \<Rightarrow> nat \<Rightarrow> writeResult list \<Rightarrow> bool" where
  "drainPublished n completed [] = False"
| "drainPublished n completed ((i, e) # rest) =
     (if completed < n
      then (if e = None then True else drainPublished n (Suc completed) rest) else False)"

text \<open>
  \<open>None\<close>: still waiting. \<open>Some None\<close>: the nil error. \<open>callerErr\<close> and \<open>cancelled\<close> are what the two
  contexts say after the last result, and \<open>later\<close> is the transport then.
\<close>

fun awaitWriteResults :: "MultipathTransport \<Rightarrow> mp_error option \<Rightarrow> bool \<Rightarrow> nat list \<Rightarrow>
    nat \<Rightarrow> (nat \<Rightarrow> mp_error option) \<Rightarrow> awaitEvent list \<Rightarrow> mp_error option option" where
  "awaitWriteResults later callerErr cancelled indexes completed failures evs =
     (if completed < length indexes
      then (case evs of
              [] \<Rightarrow> None
            | AwResult (i, e) # rest \<Rightarrow>
                if e = None then Some None
                else awaitWriteResults later callerErr cancelled indexes (Suc completed)
                       (failures(i := e)) rest
            | AwCallerDone err published # rest \<Rightarrow>
                if drainPublished (length indexes) completed published then Some None else Some (Some err)
            | AwTransportDone published # rest \<Rightarrow>
                if drainPublished (length indexes) completed published then Some None
                else Some (Some (readTerminalError later)))
      else if callerErr \<noteq> None then Some callerErr
      else if cancelled then Some (Some (readTerminalError later))
      else Some (Some (MpWriteFailed (map (\<lambda>i. (i, the (failures i)))
                                         (filter (\<lambda>i. failures i \<noteq> None) indexes)))))"

declare awaitWriteResults.simps [simp del]

text \<open>\<open>WritePacket\<close>: every live path gets a copy of the packet.\<close>

definition multipathWrite :: "mp_error option \<Rightarrow> MultipathTransport \<Rightarrow> mp_error option \<Rightarrow> bool \<Rightarrow> awaitEvent list \<Rightarrow>
    bytes \<Rightarrow> NetAddr option \<Rightarrow> MultipathTransport \<Rightarrow> mp_error option option \<times> MultipathTransport" where
  "multipathWrite ctxErr later callerErr cancelled evs pkt addr t =
     (if mpPaths t = 0 then (Some (Some MpNoPaths), t)
      else if addr = None then (Some (Some MpNilAddress), t)
      else if ctxErr \<noteq> None then (Some ctxErr, t)
      else case activePathIndexes t of
        ([], terminalErr) \<Rightarrow> (Some terminalErr, t)
      | (indexes, _) \<Rightarrow>
          (awaitWriteResults later callerErr cancelled indexes 0 (\<lambda>_. None) evs,
           t\<lparr>mpWrites := mpWrites t @ map (\<lambda>i. (i, pkt, addr)) indexes\<rparr>))"

text \<open>\<open>ReadPacket\<close>, when its \<open>select\<close> takes the channel; \<open>None\<close>: nothing is there yet.\<close>

definition multipathRead :: "MultipathTransport \<Rightarrow>
    ((mp_error + bytes \<times> NetAddr option) \<times> MultipathTransport) option" where
  "multipathRead t =
     (case mpReads t of
        x # rest \<Rightarrow> Some (Inr x, t\<lparr>mpReads := rest\<rparr>)
      | [] \<Rightarrow> if mpReadsClosed t then Some (Inl (readTerminalError t), t) else None)"

section \<open>Path authentication\<close>

definition multipathAuthorized :: "NetAddr option \<Rightarrow> MultipathTransport \<Rightarrow> bool" where
  "multipathAuthorized addr t =
     (case newSourceAddrKey addr of
        None \<Rightarrow> False
      | Some k \<Rightarrow> (case mpAuth t of None \<Rightarrow> False | Some auth \<Rightarrow> gm_has (caAuthorized auth) k))"

text \<open>\<open>True\<close>: the packet was path control and is consumed.\<close>

definition clientPathControl :: "crypto \<Rightarrow> nat \<Rightarrow> bytes \<Rightarrow> NetAddr option \<Rightarrow> MultipathTransport \<Rightarrow>
    bool \<times> MultipathTransport" where
  "clientPathControl C index packet from t =
     (case parsePathControl packet of
        Inl _ \<Rightarrow> (False, t)
      | Inr msg \<Rightarrow>
          if pcType msg \<noteq> pathControlChallenge then (True, t)
          else case mpAuth t of
            None \<Rightarrow> (True, t)
          | Some auth \<Rightarrow>
              if index \<ge> length (caNonces auth) then (True, t)
              else case newSourceAddrKey from of
                None \<Rightarrow> (True, t)
              | Some sourceKey \<Rightarrow>
                  if \<not> gm_has (caAuthorized auth) sourceKey \<or> pcSession msg \<noteq> caSession auth \<or>
                     pcClientNonce msg \<noteq> caNonces auth ! index \<or> \<not> verifyPathControl C msg (caKey auth)
                  then (True, t)
                  else case marshalPathControl C pathControlResponse (caSession auth) (pcClientNonce msg)
                              (pcServerNonce msg) (caKey auth) of
                    Inl _ \<Rightarrow> (True, t)
                  | Inr response \<Rightarrow> (True, t\<lparr>mpWrites := mpWrites t @ [(index, response, from)]\<rparr>))"

text \<open>The first loop of \<open>refreshPathAuthentication\<close>: a fresh nonce and a request for each path. The
  clock and what the random source delivers are given for each path.\<close>

fun refreshRequests :: "crypto \<Rightarrow> (nat \<Rightarrow> gotime) \<Rightarrow> (nat \<Rightarrow> bytes option) \<Rightarrow> clientPathAuthentication \<Rightarrow>
    nat list \<Rightarrow> mp_error option \<times> clientPathAuthentication \<times> (nat \<times> bytes) list" where
  "refreshRequests C clock random auth [] = (None, auth, [])"
| "refreshRequests C clock random auth (index # rest) =
     (case random index of
        None \<Rightarrow> (Some MpRandom, auth, [])
      | Some rnd \<Rightarrow>
          let nonce = newPathRequestNonce (clock index + caClockOffset auth) rnd
          in case marshalPathControl C pathControlRequest (caSession auth) nonce
                    (zeros pathControlNonceSize) (caKey auth) of
               Inl _ \<Rightarrow> (Some MpMarshal, auth, [])
             | Inr wire \<Rightarrow>
                 (case refreshRequests C clock random
                         (if index < length (caNonces auth)
                          then auth\<lparr>caNonces := (caNonces auth)[index := nonce]\<rparr> else auth) rest of
                    (e, auth, requests) \<Rightarrow> (e, auth, (index, wire) # requests)))"

definition refreshPathAuthentication :: "crypto \<Rightarrow> (nat \<Rightarrow> gotime) \<Rightarrow> (nat \<Rightarrow> bytes option) \<Rightarrow>
    (nat \<Rightarrow> mp_error option) \<Rightarrow> MultipathTransport \<Rightarrow> mp_error option \<times> MultipathTransport" where
  "refreshPathAuthentication C clock random writeErr t =
     (case mpAuth t of
        None \<Rightarrow> (Some MpNotConfigured, t)
      | Some auth \<Rightarrow>
          (case refreshRequests C clock random auth [0..<mpPaths t] of
             (Some e, auth, _) \<Rightarrow> (Some e, t\<lparr>mpAuth := Some auth\<rparr>)
           | (None, auth, requests) \<Rightarrow>
               let t = t\<lparr>mpAuth := Some auth,
                         mpWrites := mpWrites t @
                           map (\<lambda>(i, wire). (i, wire, Some (caRemote auth))) requests\<rparr>;
                   failures = joined (map (\<lambda>(i, wire). writeErr i) requests)
               in if length failures < length requests then (None, t)
                  else (Some (MpRequestsFailed failures), t)))"

definition EnablePathAuthentication :: "crypto \<Rightarrow> (nat \<Rightarrow> gotime) \<Rightarrow> (nat \<Rightarrow> bytes option) \<Rightarrow>
    (nat \<Rightarrow> mp_error option) \<Rightarrow> SessionID \<Rightarrow> bytes \<Rightarrow> NetAddr option \<Rightarrow> duration \<Rightarrow>
    MultipathTransport \<Rightarrow> mp_error option \<times> MultipathTransport" where
  "EnablePathAuthentication C clock random writeErr sessionID key remote clockOffset t =
     (case remote of
        None \<Rightarrow> (Some MpNilAddress, t)
      | Some a \<Rightarrow>
          (case newSourceAddrKey remote of
             None \<Rightarrow> (Some MpUnroutable, t)
           | Some remoteKey \<Rightarrow>
               refreshPathAuthentication C clock random writeErr
                 (t\<lparr>mpAuth := Some \<lparr>caSession = sessionID, caKey = key, caRemote = a,
                     caClockOffset = clockOffset,
                     caNonces = replicate (mpPaths t) (zeros pathControlNonceSize),
                     caAuthorized = gm_set [] remoteKey ()\<rparr>\<rparr>)))"

section \<open>Read loops\<close>

text \<open>One packet of a path: path control is answered, everything else waits for the channel.\<close>

definition loopReceive :: "crypto \<Rightarrow> nat \<Rightarrow> bytes \<Rightarrow> NetAddr option \<Rightarrow> MultipathTransport \<Rightarrow> MultipathTransport" where
  "loopReceive C index packet from t =
     (case clientPathControl C index packet from t of
        (True, t) \<Rightarrow> t
      | (False, t) \<Rightarrow> t\<lparr>mpLoops := (mpLoops t)[index := LoopHolding packet from]\<rparr>)"

definition loopFail :: "nat \<Rightarrow> mp_error \<Rightarrow> MultipathTransport \<Rightarrow> MultipathTransport" where
  "loopFail index err t =
     (let t = pathTerminated index err t in t\<lparr>mpLoops := (mpLoops t)[index := LoopEnding]\<rparr>)"

definition loopPush :: "nat \<Rightarrow> bytes \<Rightarrow> NetAddr option \<Rightarrow> MultipathTransport \<Rightarrow> MultipathTransport" where
  "loopPush index packet from t =
     t\<lparr>mpReads := mpReads t @ [(packet, from)], mpLoops := (mpLoops t)[index := LoopReading]\<rparr>"

definition loopEnd :: "nat \<Rightarrow> mp_error option \<Rightarrow> MultipathTransport \<Rightarrow> MultipathTransport" where
  "loopEnd index err t =
     (let t = closePath index err t in t\<lparr>mpLoops := (mpLoops t)[index := LoopEnded]\<rparr>)"

text \<open>
  What the goroutines and callers of one transport do. The steps of \<open>shutdown_step\<close> need no packet:
  a read that returns an error, a loop in its \<open>select\<close> or its deferred calls, and \<open>Close\<close>.
\<close>

inductive shutdown_step :: "MultipathTransport \<Rightarrow> MultipathTransport \<Rightarrow> bool" where
  sd_fail: "i < mpPaths t \<Longrightarrow> mpLoops t ! i = LoopReading \<Longrightarrow> shutdown_step t (loopFail i err t)"
| sd_stop: "i < mpPaths t \<Longrightarrow> mpLoops t ! i = LoopHolding p f \<Longrightarrow> mpCancelled t \<Longrightarrow>
    shutdown_step t (t\<lparr>mpLoops := (mpLoops t)[i := LoopEnding]\<rparr>)"
| sd_end: "i < mpPaths t \<Longrightarrow> mpLoops t ! i = LoopEnding \<Longrightarrow> shutdown_step t (loopEnd i cerr t)"
| sd_finish: "\<forall>i<mpPaths t. mpLoops t ! i = LoopEnded \<Longrightarrow> \<not> mpReadsClosed t \<Longrightarrow>
    shutdown_step t (finishReads t)"
| sd_path: "mpClose t = ClosePaths k \<Longrightarrow> k < mpPaths t \<Longrightarrow>
    shutdown_step t ((closePath k cerr t)\<lparr>mpClose := ClosePaths (Suc k)\<rparr>)"
| sd_done: "mpClose t = ClosePaths (mpPaths t) \<Longrightarrow> mpReadsClosed t \<Longrightarrow> shutdown_step t (closeEnd t)"

inductive mp_step :: "crypto \<Rightarrow> MultipathTransport \<Rightarrow> MultipathTransport \<Rightarrow> bool" for C where
  st_shutdown: "shutdown_step t t' \<Longrightarrow> mp_step C t t'"
| st_receive: "i < mpPaths t \<Longrightarrow> mpLoops t ! i = LoopReading \<Longrightarrow> mp_step C t (loopReceive C i packet f t)"
| st_push: "i < mpPaths t \<Longrightarrow> mpLoops t ! i = LoopHolding packet f \<Longrightarrow> length (mpReads t) < mpPaths t \<Longrightarrow>
    mp_step C t (loopPush i packet f t)"
| st_close: "mpClose t = CloseIdle \<Longrightarrow> mp_step C t (closeStart t)"
| st_read: "multipathRead t = Some (res, t') \<Longrightarrow> mp_step C t t'"
| st_write: "multipathWrite ctxErr later callerErr cancelled evs pkt addr t = (res, t') \<Longrightarrow> mp_step C t t'"
| st_enable: "EnablePathAuthentication C clock random writeErr sid key remote off t = (e, t') \<Longrightarrow> mp_step C t t'"
| st_refresh: "refreshPathAuthentication C clock random writeErr t = (e, t') \<Longrightarrow> mp_step C t t'"

end
