(* ===== verification/Multipath_Props.thy ===== *)
theory Multipath_Props
  imports Multipath
begin

text \<open>
  The multipath transport: its invariant, the outcome of writes, and the end of \<open>Close\<close>.
\<close>

section \<open>The invariant\<close>

text \<open>
  A transport without a live path, a cancelled one and a closing one all have their terminal error;
  a loop that ended has closed its path; the channel is closed only when every loop is gone.
\<close>

definition mp_inv :: "MultipathTransport \<Rightarrow> bool" where
  "mp_inv t \<longleftrightarrow> 0 < mpPaths t \<and> length (mpPathClosed t) = mpPaths t \<and> length (mpLoops t) = mpPaths t \<and>
     length (mpAlive t) = mpPaths t \<and> length (mpErrors t) = mpPaths t \<and>
     length (mpPathCloseErr t) = mpPaths t \<and> length (mpReads t) \<le> mpPaths t \<and>
     (True \<in> set (mpAlive t) \<or> mpCancelled t) \<and> (mpCancelled t \<longrightarrow> mpTerminal t \<noteq> None) \<and>
     (mpClosing t \<longleftrightarrow> mpClose t \<noteq> CloseIdle) \<and> (mpClosing t \<longrightarrow> mpCancelled t) \<and>
     (\<forall>i<mpPaths t. mpLoops t ! i = LoopEnded \<longrightarrow> mpPathClosed t ! i) \<and>
     (mpReadsClosed t \<longrightarrow> (\<forall>i<mpPaths t. mpLoops t ! i = LoopEnded) \<and> mpTerminal t \<noteq> None) \<and>
     (\<forall>k. mpClose t = ClosePaths k \<longrightarrow> k \<le> mpPaths t \<and> (\<forall>i<k. mpPathClosed t ! i)) \<and>
     (mpClose t = CloseDone \<longrightarrow> mpReadsClosed t \<and> (\<forall>i<mpPaths t. mpPathClosed t ! i))"

lemma mp_inv_new:
  assumes "NewMultipathTransport paths = Inr t"
  shows "mp_inv t"
  using assms by (auto simp: NewMultipathTransport_def Let_def mp_inv_def split: if_splits)

lemma filter_id_empty: "filter id xs = [] \<longleftrightarrow> True \<notin> set xs"
  by (auto simp: filter_empty_conv)

lemma pathTerminated_facts:
  assumes "t' = pathTerminated i err t"
  shows "mpPaths t' = mpPaths t" "mpPathClosed t' = mpPathClosed t" "mpLoops t' = mpLoops t"
    "length (mpAlive t') = length (mpAlive t)" "length (mpErrors t') = length (mpErrors t)"
    "mpPathCloseErr t' = mpPathCloseErr t" "mpReads t' = mpReads t" "mpClosing t' = mpClosing t"
    "mpClose t' = mpClose t" "mpReadsClosed t' = mpReadsClosed t" "mpCancelled t \<Longrightarrow> mpCancelled t'"
    "mpTerminal t \<noteq> None \<Longrightarrow> mpTerminal t' = mpTerminal t"
    "mpAuth t' = mpAuth t" "mpWrites t' = mpWrites t"
  using assms by (auto simp: pathTerminated_def Let_def)

lemma pathTerminated_alive:
  assumes "mp_inv t" and "t' = pathTerminated i err t"
  shows "True \<in> set (mpAlive t') \<or> mpCancelled t'" "mpCancelled t' \<longrightarrow> mpTerminal t' \<noteq> None"
  using assms filter_id_empty [of "(mpAlive t)[i := False]"]
  by (auto simp: pathTerminated_def mp_inv_def Let_def)

lemma mp_inv_fail:
  assumes "mp_inv t" and "i < mpPaths t" and "mpLoops t ! i = LoopReading"
  shows "mp_inv (loopFail i err t)"
proof -
  define t' where t': "t' = pathTerminated i err t"
  note f = pathTerminated_facts [OF t'] pathTerminated_alive [OF assms(1) t']
  have "mp_inv (t'\<lparr>mpLoops := (mpLoops t')[i := LoopEnding]\<rparr>)"
    using assms f unfolding mp_inv_def by (auto simp: nth_list_update)
  then show ?thesis by (simp add: loopFail_def t' Let_def)
qed

lemma mp_inv_loop:
  assumes "mp_inv t" and "i < mpPaths t" and "mpLoops t ! i \<noteq> LoopEnded" and "st \<noteq> LoopEnded"
  shows "mp_inv (t\<lparr>mpLoops := (mpLoops t)[i := st]\<rparr>)"
  using assms unfolding mp_inv_def by (auto simp: nth_list_update)

lemma mp_inv_frame:
  assumes "mp_inv t"
  shows "mp_inv (t\<lparr>mpWrites := w\<rparr>)" "mp_inv (t\<lparr>mpAuth := a\<rparr>)" "mp_inv (t\<lparr>mpAuth := a, mpWrites := w\<rparr>)"
  using assms unfolding mp_inv_def by simp_all

lemma mp_inv_closePath:
  assumes "mp_inv t" and "t' = closePath i e t"
  shows "mp_inv t'" and "i < mpPaths t \<Longrightarrow> mpPathClosed t' ! i" and "mpPaths t' = mpPaths t"
    "mpLoops t' = mpLoops t" "mpClose t' = mpClose t" "mpReadsClosed t' = mpReadsClosed t"
    "mpTerminal t' = mpTerminal t"
  using assms unfolding mp_inv_def by (auto simp: closePath_def nth_list_update)

lemma mp_inv_end:
  assumes "mp_inv t" and "i < mpPaths t"
  shows "mp_inv (loopEnd i e t)"
proof -
  define t' where t': "t' = closePath i e t"
  note f = mp_inv_closePath [OF assms(1) t']
  have "mp_inv (t'\<lparr>mpLoops := (mpLoops t')[i := LoopEnded]\<rparr>)"
    using f(1,2) assms(2) unfolding f(3) [symmetric] mp_inv_def by (auto simp: nth_list_update)
  then show ?thesis by (simp add: loopEnd_def t' Let_def)
qed

lemma mp_inv_finish:
  assumes "mp_inv t" and "\<forall>i<mpPaths t. mpLoops t ! i = LoopEnded"
  shows "mp_inv (finishReads t)"
  using assms unfolding mp_inv_def by (auto simp: finishReads_def Let_def)

lemma mp_inv_closing:
  assumes "mp_inv t"
  shows "mpClose t = CloseIdle \<Longrightarrow> mp_inv (closeStart t)"
    "mpClose t = ClosePaths k \<Longrightarrow> k < mpPaths t \<Longrightarrow> mp_inv ((closePath k e t)\<lparr>mpClose := ClosePaths (Suc k)\<rparr>)"
    "mpClose t = ClosePaths (mpPaths t) \<Longrightarrow> mpReadsClosed t \<Longrightarrow> mp_inv (closeEnd t)"
proof -
  show "mp_inv (closeStart t)" if "mpClose t = CloseIdle"
    using assms that unfolding mp_inv_def by (simp add: closeStart_def)
  show "mp_inv (closeEnd t)" if "mpClose t = ClosePaths (mpPaths t)" "mpReadsClosed t"
    using assms that unfolding mp_inv_def by (simp add: closeEnd_def)
  show "mp_inv ((closePath k e t)\<lparr>mpClose := ClosePaths (Suc k)\<rparr>)" if k: "mpClose t = ClosePaths k" "k < mpPaths t"
  proof -
    define t' where t': "t' = closePath k e t"
    note f = mp_inv_closePath [OF assms t']
    have "mp_inv (t'\<lparr>mpClose := ClosePaths (Suc k)\<rparr>)"
      using f k unfolding mp_inv_def by (auto simp: less_Suc_eq)
    then show ?thesis by (simp add: t')
  qed
qed

lemma mp_inv_shutdown:
  assumes "shutdown_step t t'" and "mp_inv t"
  shows "mp_inv t'"
  using assms
proof (cases rule: shutdown_step.cases)
  case (sd_fail i err) then show ?thesis using mp_inv_fail assms(2) by simp
next
  case (sd_stop i p f) then show ?thesis using mp_inv_loop assms(2) by simp
qed (use assms(2) in \<open>auto intro: mp_inv_end mp_inv_finish mp_inv_closing\<close>)

lemma clientPathControl_frame:
  "snd (clientPathControl C i packet f t) = t \<or>
   (\<exists>r. snd (clientPathControl C i packet f t) = t\<lparr>mpWrites := mpWrites t @ [(i, r, f)]\<rparr>)"
  by (auto simp: clientPathControl_def split: sum.splits option.splits)

lemma mp_inv_receive:
  assumes "mp_inv t" and "i < mpPaths t" and "mpLoops t ! i = LoopReading"
  shows "mp_inv (loopReceive C i packet f t)"
proof -
  obtain b t' where c: "clientPathControl C i packet f t = (b, t')" by (cases "clientPathControl C i packet f t")
  have "t' = t \<or> (\<exists>r. t' = t\<lparr>mpWrites := mpWrites t @ [(i, r, f)]\<rparr>)"
    using clientPathControl_frame [of C i packet f t] c by simp
  then have "mp_inv t'" and "mpPaths t' = mpPaths t" and "mpLoops t' = mpLoops t"
    using mp_inv_frame(1) [OF assms(1)] assms(1) by auto
  then show ?thesis using assms(2,3) mp_inv_loop [of t' i "LoopHolding packet f"]
    by (cases b) (auto simp: loopReceive_def c)
qed

lemma refresh_frame:
  assumes "refreshPathAuthentication C clock random writeErr t = (e, t')"
  shows "\<exists>a w. t' = t\<lparr>mpAuth := a, mpWrites := mpWrites t @ w\<rparr>"
proof -
  have 1: "\<exists>a' w. t\<lparr>mpAuth := a\<rparr> = t\<lparr>mpAuth := a', mpWrites := mpWrites t @ w\<rparr>" for a
    by (intro exI [of _ a] exI [of _ "[]"]) simp
  have 2: "\<exists>a w. t = t\<lparr>mpAuth := a, mpWrites := mpWrites t @ w\<rparr>"
    by (intro exI [of _ "mpAuth t"] exI [of _ "[]"]) simp
  show ?thesis using assms 1 2 unfolding refreshPathAuthentication_def Let_def
    by (auto split: option.splits prod.splits if_splits)
qed

lemma enable_frame:
  assumes "EnablePathAuthentication C clock random writeErr sid key remote off t = (e, t')"
  shows "\<exists>a w. t' = t\<lparr>mpAuth := a, mpWrites := mpWrites t @ w\<rparr>"
proof (cases "t' = t")
  case True then show ?thesis by (intro exI [of _ "mpAuth t"] exI [of _ "[]"]) simp
next
  case False
  then obtain auth where "refreshPathAuthentication C clock random writeErr (t\<lparr>mpAuth := auth\<rparr>) = (e, t')"
    using assms by (auto simp: EnablePathAuthentication_def split: option.splits)
  from refresh_frame [OF this] show ?thesis by auto
qed

lemma write_frame:
  assumes "multipathWrite ctxErr later callerErr cancelled evs pkt addr t = (res, t')"
  shows "\<exists>w. t' = t\<lparr>mpWrites := mpWrites t @ w\<rparr>"
proof -
  have "\<exists>w. t = t\<lparr>mpWrites := mpWrites t @ w\<rparr>" by (intro exI [of _ "[]"]) simp
  then show ?thesis using assms
    by (auto simp: multipathWrite_def split: if_splits prod.splits list.splits)
qed

lemma mp_inv_reads:
  assumes "mp_inv t" and "length xs \<le> length (mpReads t)"
  shows "mp_inv (t\<lparr>mpReads := xs\<rparr>)"
  using assms unfolding mp_inv_def by simp

lemma mp_inv_step:
  assumes "mp_step C t t'" and "mp_inv t"
  shows "mp_inv t'"
  using assms
proof (cases rule: mp_step.cases)
  case st_shutdown then show ?thesis by (intro mp_inv_shutdown [OF _ assms(2)])
next
  case (st_receive i packet f) then show ?thesis using mp_inv_receive assms(2) by simp
next
  case (st_push i packet f)
  have "mp_inv ((t\<lparr>mpLoops := (mpLoops t)[i := LoopReading]\<rparr>)\<lparr>mpReads := mpReads t @ [(packet, f)]\<rparr>)"
    using mp_inv_loop [OF assms(2), of i LoopReading] st_push unfolding mp_inv_def by simp
  moreover have "loopPush i packet f t = (t\<lparr>mpLoops := (mpLoops t)[i := LoopReading]\<rparr>)\<lparr>mpReads := mpReads t @ [(packet, f)]\<rparr>"
    by (cases t) (simp add: loopPush_def)
  ultimately show ?thesis by (simp add: st_push)
next
  case st_close then show ?thesis using mp_inv_closing(1) [OF assms(2)] by simp
next
  case (st_read res)
  then have "t' = t \<or> (\<exists>x. mpReads t = x # mpReads t' \<and> t' = t\<lparr>mpReads := mpReads t'\<rparr>)"
    by (auto simp: multipathRead_def split: list.splits if_splits)
  then show ?thesis using mp_inv_reads [OF assms(2), of "mpReads t'"] assms(2)
    by (metis length_Cons lessI less_imp_le)
next
  case st_write from write_frame [OF this] show ?thesis using mp_inv_frame(1) [OF assms(2)] by auto
next
  case st_enable from enable_frame [OF this] show ?thesis using mp_inv_frame(3) [OF assms(2)] by auto
next
  case st_refresh from refresh_frame [OF this] show ?thesis using mp_inv_frame(3) [OF assms(2)] by auto
qed

lemma mp_inv_steps: "(mp_step C)\<^sup>*\<^sup>* t t' \<Longrightarrow> mp_inv t \<Longrightarrow> mp_inv t'"
  by (induction rule: rtranclp_induct) (auto intro: mp_inv_step)

section \<open>Shutting down\<close>

fun loopRank :: "readLoopState \<Rightarrow> nat" where
  "loopRank LoopReading = 2"
| "loopRank (LoopHolding _ _) = 2"
| "loopRank LoopEnding = 1"
| "loopRank LoopEnded = 0"

fun closeRank :: "nat \<Rightarrow> closeStage \<Rightarrow> nat" where
  "closeRank n CloseIdle = n + 1"
| "closeRank n (ClosePaths k) = n + 1 - k"
| "closeRank n CloseDone = 0"

definition shutdownRank :: "MultipathTransport \<Rightarrow> nat" where
  "shutdownRank t = sum_list (map loopRank (mpLoops t)) + closeRank (mpPaths t) (mpClose t) +
     (if mpReadsClosed t then 0 else 1)"

lemma shutdownRank_loop:
  assumes "mp_inv t" and "i < mpPaths t" and "loopRank st < loopRank (mpLoops t ! i)"
  shows "sum_list (map loopRank ((mpLoops t)[i := st])) < sum_list (map loopRank (mpLoops t))"
proof -
  have i: "i < length (map loopRank (mpLoops t))" using assms by (simp add: mp_inv_def)
  have "loopRank (mpLoops t ! i) \<le> sum_list (map loopRank (mpLoops t))"
    using i member_le_sum_list [of "loopRank (mpLoops t ! i)" "map loopRank (mpLoops t)"] by (simp add: nth_mem)
  then show ?thesis using i assms(3) sum_list_update [OF i, of "loopRank st"] by (simp add: map_update)
qed

lemma shutdown_step_ranked:
  assumes "shutdown_step t t'" and inv: "mp_inv t"
  shows "shutdownRank t' < shutdownRank t"
  using assms(1)
proof (cases rule: shutdown_step.cases)
  case (sd_fail i err)
  have "mpLoops (pathTerminated i err t) = mpLoops t" "mpPaths (pathTerminated i err t) = mpPaths t"
    "mpClose (pathTerminated i err t) = mpClose t" "mpReadsClosed (pathTerminated i err t) = mpReadsClosed t"
    using pathTerminated_facts [OF refl, where i = i and err = err and t = t] by simp_all
  then show ?thesis using shutdownRank_loop [OF inv, of i LoopEnding] sd_fail
    by (simp add: shutdownRank_def loopFail_def Let_def)
next
  case (sd_stop i p f)
  then show ?thesis using shutdownRank_loop [OF inv, of i LoopEnding] by (simp add: shutdownRank_def)
next
  case (sd_end i cerr)
  then show ?thesis using shutdownRank_loop [OF inv, of i LoopEnded] mp_inv_closePath(3-6) [OF inv refl, where i = i and e = cerr]
    by (simp add: shutdownRank_def loopEnd_def Let_def)
next
  case sd_finish then show ?thesis by (simp add: shutdownRank_def finishReads_def Let_def)
next
  case (sd_path k cerr)
  then show ?thesis using mp_inv_closePath(3-6) [OF inv refl, where i = k and e = cerr] by (simp add: shutdownRank_def)
next
  case sd_done then show ?thesis by (simp add: shutdownRank_def closeEnd_def)
qed

lemma shutdown_ranked:
  assumes "(shutdown_step ^^ n) t t'" and "mp_inv t"
  shows "n + shutdownRank t' \<le> shutdownRank t \<and> mp_inv t'"
  using assms
proof (induction n arbitrary: t')
  case (Suc n)
  then obtain u where u: "(shutdown_step ^^ n) t u" "shutdown_step u t'" by auto
  then show ?case using Suc.IH [OF u(1) Suc.prems(2)] shutdown_step_ranked [OF u(2)] mp_inv_shutdown [OF u(2)]
    by auto
qed simp

lemma shutdown_progress:
  assumes inv: "mp_inv t" and "mpCancelled t" and "\<not> mpReadsClosed t \<or> mpClose t \<notin> {CloseIdle, CloseDone}"
  shows "\<exists>t'. shutdown_step t t'"
proof (cases "\<exists>i<mpPaths t. mpLoops t ! i \<noteq> LoopEnded")
  case True
  then obtain i where "i < mpPaths t" "mpLoops t ! i \<noteq> LoopEnded" by blast
  then show ?thesis using assms(2) by (cases "mpLoops t ! i") (blast intro: shutdown_step.intros)+
next
  case ended: False
  show ?thesis
  proof (cases "mpReadsClosed t")
    case False then show ?thesis using ended by (blast intro: sd_finish)
  next
    case True
    then obtain k where "mpClose t = ClosePaths k" using assms(3) by (cases "mpClose t") auto
    moreover have "k \<le> mpPaths t" using inv calculation by (simp add: mp_inv_def)
    ultimately show ?thesis using True sd_done [of t] sd_path [of t k None]
      by (cases "k = mpPaths t") (simp_all, blast+)
  qed
qed

lemma shutdownRank_le:
  assumes "mp_inv t"
  shows "shutdownRank t \<le> 3 * mpPaths t + 2"
proof -
  have one: "loopRank st \<le> 2" for st by (cases st) auto
  have all: "sum_list (map loopRank xs) \<le> 2 * length xs" for xs
  proof (induction xs)
    case (Cons x xs) then show ?case using one [of x] by simp
  qed simp
  from all [of "mpLoops t"] have "sum_list (map loopRank (mpLoops t)) \<le> 2 * mpPaths t"
    using assms by (simp add: mp_inv_def)
  moreover have "closeRank (mpPaths t) (mpClose t) \<le> mpPaths t + 1" by (cases "mpClose t") auto
  ultimately show ?thesis by (simp add: shutdownRank_def)
qed

text \<open>The terminal error, once set, is the one every later caller sees.\<close>

lemma mp_terminal_step:
  assumes "mp_step C t t'" and "mpTerminal t = Some e"
  shows "mpTerminal t' = Some e"
  using assms(1)
proof (cases rule: mp_step.cases)
  case st_shutdown
  then show ?thesis
    by cases (use assms(2) pathTerminated_facts(12) [OF refl, where t = t] in
      \<open>auto simp: loopFail_def loopEnd_def closePath_def finishReads_def closeEnd_def Let_def\<close>)
next
  case (st_receive i packet f)
  then show ?thesis using clientPathControl_frame [of C i packet f t] assms(2)
    by (auto simp: loopReceive_def split: prod.splits bool.splits)
next
  case st_write from write_frame [OF this] show ?thesis using assms(2) by auto
next
  case st_enable from enable_frame [OF this] show ?thesis using assms(2) by auto
next
  case st_refresh from refresh_frame [OF this] show ?thesis using assms(2) by auto
qed (use assms(2) in \<open>auto simp: loopPush_def closeStart_def multipathRead_def split: list.splits if_splits\<close>)

lemma mp_terminal_steps: "(mp_step C)\<^sup>*\<^sup>* t t' \<Longrightarrow> mpTerminal t = Some e \<Longrightarrow> mpTerminal t' = Some e"
  by (induction rule: rtranclp_induct) (auto intro: mp_terminal_step)

section \<open>Waiting for the writes\<close>

text \<open>The results the call takes into account.\<close>

fun awaitResults :: "awaitEvent list \<Rightarrow> writeResult list" where
  "awaitResults [] = []"
| "awaitResults (AwResult r # evs) = r # awaitResults evs"
| "awaitResults (AwCallerDone _ rs # evs) = rs"
| "awaitResults (AwTransportDone rs # evs) = rs"

lemma drain_iff:
  "completed + length rs \<le> n \<Longrightarrow> drainPublished n completed rs \<longleftrightarrow> (\<exists>i. (i, None) \<in> set rs)"
  by (induction n completed rs rule: drainPublished.induct) auto

lemma await_outcome:
  assumes "completed + length (awaitResults evs) \<le> length indexes"
    and "awaitWriteResults later ce ca indexes completed failures evs = Some res"
  shows "res = None \<longleftrightarrow> (\<exists>i. (i, None) \<in> set (awaitResults evs))"
  using assms
proof (induction evs arbitrary: completed failures)
  case Nil then show ?case
    by (auto simp: awaitWriteResults.simps [of later ce ca indexes completed failures] split: if_splits)
next
  case (Cons ev evs)
  note step = awaitWriteResults.simps [of later ce ca indexes completed failures "ev # evs"]
  show ?case
  proof (cases ev)
    case (AwResult r)
    then obtain i e where r: "ev = AwResult (i, e)" by (cases r) auto
    then show ?thesis using Cons.prems(1) Cons.prems(2) [unfolded step]
        Cons.IH [of "Suc completed"]
      by (cases e) (auto split: if_splits)
  next
    case (AwCallerDone err rs)
    then show ?thesis using Cons.prems(1) Cons.prems(2) [unfolded step] drain_iff [of completed rs "length indexes"]
      by (cases rs) (auto split: if_splits)
  next
    case (AwTransportDone rs)
    then show ?thesis using Cons.prems(1) Cons.prems(2) [unfolded step] drain_iff [of completed rs "length indexes"]
      by (cases rs) (auto split: if_splits)
  qed
qed

lemma await_returns:
  assumes "length indexes \<le> completed + length evs"
  shows "awaitWriteResults later ce ca indexes completed failures evs \<noteq> None"
  using assms
proof (induction evs arbitrary: completed failures)
  case Nil then show ?case by (simp add: awaitWriteResults.simps [of later ce ca indexes completed failures])
next
  case (Cons ev evs)
  then show ?case
    by (auto simp: awaitWriteResults.simps [of later ce ca indexes completed failures "ev # evs"]
        split: awaitEvent.splits)
qed


lemma active_indexes:
  assumes "mp_inv t"
  shows "set (fst (activePathIndexes t)) = {i. i < mpPaths t \<and> mpAlive t ! i}"
    "distinct (fst (activePathIndexes t))"
    "fst (activePathIndexes t) = [] \<Longrightarrow> \<exists>e. snd (activePathIndexes t) = Some e"
proof -
  show "set (fst (activePathIndexes t)) = {i. i < mpPaths t \<and> mpAlive t ! i}"
    using assms by (auto simp: activePathIndexes_def Let_def mp_inv_def filter_empty_conv)
  show "distinct (fst (activePathIndexes t))" by (simp add: activePathIndexes_def Let_def)
  show "\<exists>e. snd (activePathIndexes t) = Some e" if "fst (activePathIndexes t) = []"
    using assms that by (auto simp: activePathIndexes_def Let_def mp_inv_def in_set_conv_nth filter_empty_conv split: if_splits)
qed

section \<open>Properties\<close>

text \<open>
  C21. A multipath write reports the truth. Whatever the transport has been through, and however the
  results of the paths, the caller's context and the transport's context interleave, a write that
  returns reports success if and only if one of the paths that were alive has taken the packet in the
  results it looked at; without a live path it returns the terminal error. Each live path is handed the
  packet once. And once as many results as live paths have come, or a context is done, it returns.
\<close>

theorem multipath_write_honest:
  assumes "NewMultipathTransport paths = Inr t0" and "(mp_step C)\<^sup>*\<^sup>* t0 t"
    and w: "multipathWrite None later callerErr cancelled evs pkt (Some a) t = (outcome, t')"
    and r: "distinct (map fst (awaitResults evs))"
      "fst ` set (awaitResults evs) \<subseteq> {i. i < mpPaths t \<and> mpAlive t ! i}"
  shows "(\<forall>res. outcome = Some res \<longrightarrow>
      (res = None \<longleftrightarrow> (\<exists>i<mpPaths t. mpAlive t ! i \<and> (i, None) \<in> set (awaitResults evs)))) \<and>
    ((\<forall>i<mpPaths t. \<not> mpAlive t ! i) \<longrightarrow> (\<exists>e. outcome = Some (Some e) \<and> mpTerminal t = Some e)) \<and>
    (\<exists>ws. mpWrites t' = mpWrites t @ ws \<and> distinct ws \<and>
      set ws = (\<lambda>i. (i, pkt, Some a)) ` {i. i < mpPaths t \<and> mpAlive t ! i}) \<and>
    (card {i. i < mpPaths t \<and> mpAlive t ! i} \<le> length evs \<longrightarrow> outcome \<noteq> None)"
proof -
  have inv: "mp_inv t" using mp_inv_steps [OF assms(2)] mp_inv_new [OF assms(1)] by blast
  obtain indexes term' where i: "activePathIndexes t = (indexes, term')" by fastforce
  have live: "set indexes = {i. i < mpPaths t \<and> mpAlive t ! i}" "distinct indexes"
    "indexes = [] \<Longrightarrow> \<exists>e. term' = Some e \<and> mpTerminal t = Some e"
    using active_indexes [OF inv] i by (auto simp: activePathIndexes_def Let_def split: if_splits)
  have pos: "mpPaths t \<noteq> 0" using inv by (simp add: mp_inv_def)
  have card: "card {i. i < mpPaths t \<and> mpAlive t ! i} = length indexes"
    using distinct_card [OF live(2)] live(1) by simp
  have ws: "distinct (map (\<lambda>i. (i, pkt, Some a)) indexes)"
    using live(2) by (simp add: distinct_map inj_on_def)
  have len: "length (awaitResults evs) \<le> length indexes"
    using card_mono [OF _ r(2)] distinct_card [OF r(1)] card by simp
  show ?thesis
  proof (cases indexes)
    case Nil
    then have "{i. i < mpPaths t \<and> mpAlive t ! i} = {}" using live(1) by simp
    then show ?thesis using w live(3) [OF Nil] r(2) pos i Nil by (auto simp: multipathWrite_def)
  next
    case (Cons x xs)
    then have o: "outcome = awaitWriteResults later callerErr cancelled indexes 0 (\<lambda>_. None) evs"
      and t': "mpWrites t' = mpWrites t @ map (\<lambda>i. (i, pkt, Some a)) indexes"
      using w pos i by (auto simp: multipathWrite_def)
    have "x < mpPaths t \<and> mpAlive t ! x" using live(1) Cons by auto
    moreover have "(\<exists>i. (i, None) \<in> set (awaitResults evs)) \<longleftrightarrow>
        (\<exists>i<mpPaths t. mpAlive t ! i \<and> (i, None) \<in> set (awaitResults evs))" using r(2) by force
    moreover have "res = None \<longleftrightarrow> (\<exists>i. (i, None) \<in> set (awaitResults evs))" if "outcome = Some res" for res
      using await_outcome [of 0 evs indexes] len that o by simp
    ultimately show ?thesis using await_returns [of indexes 0 evs] o t' ws card live(1) by auto
  qed
qed


text \<open>Two paths: one write is refused by the first and taken by the second.\<close>

definition demo_multipath :: MultipathTransport where
  "demo_multipath = (case NewMultipathTransport [True, False, True] of Inr t \<Rightarrow> t)"

theorem multipath_write_honest_witness:
  "\<exists>t'. multipathWrite None demo_multipath None False [AwResult (0, Some (MpIO 5)), AwResult (1, None)] [7]
      (Some \<lparr>addrNetwork = ''udp'', addrString = ''r''\<rparr>) demo_multipath = (Some None, t') \<and>
    (\<exists>i<2. mpAlive demo_multipath ! i \<and> (i, None) \<in> set [(0, Some (MpIO 5)), (1::nat, None)])"
proof -
  let ?w = "multipathWrite None demo_multipath None False [AwResult (0, Some (MpIO 5)), AwResult (1, None)] [7]
      (Some \<lparr>addrNetwork = ''udp'', addrString = ''r''\<rparr>) demo_multipath"
  have n: "NewMultipathTransport [True, False, True] = Inr demo_multipath"
    by (simp add: demo_multipath_def NewMultipathTransport_def)
  have m: "mpPaths demo_multipath = 2" "mpAlive demo_multipath = [True, True]"
    by (simp_all add: demo_multipath_def NewMultipathTransport_def numeral_2_eq_2)
  have o: "fst ?w = Some None" by code_simp
  have e: "?w = (fst ?w, snd ?w)" by simp
  from multipath_write_honest [OF n rtranclp.rtrancl_refl e]
  show ?thesis using o by (auto simp: m nth_Cons less_2_cases_iff intro!: exI [of _ "snd ?w"] prod_eqI split: nat.splits)
qed

text \<open>Closing has begun, and stays begun.\<close>

lemma shutdown_keeps_closing:
  assumes "shutdown_step t t'" and "mpClose t \<noteq> CloseIdle"
  shows "mpClose t' \<noteq> CloseIdle \<and> mpPaths t' = mpPaths t"
  using assms(1)
proof (cases rule: shutdown_step.cases)
  case (sd_fail i err)
  then show ?thesis using assms(2) pathTerminated_facts(1,9) [OF refl, where i = i and err = err and t = t]
    by (simp add: loopFail_def Let_def)
qed (use assms(2) in \<open>auto simp: loopEnd_def closePath_def finishReads_def closeEnd_def Let_def\<close>)

lemma shutdowns_keep_closing:
  "(shutdown_step ^^ n) t t' \<Longrightarrow> mpClose t \<noteq> CloseIdle \<Longrightarrow> mpClose t' \<noteq> CloseIdle \<and> mpPaths t' = mpPaths t"
proof (induction n arbitrary: t')
  case (Suc n)
  then show ?case using shutdown_keeps_closing by (metis relpowp_Suc_E)
qed simp

text \<open>
  C22. \<open>Close\<close> comes to its end. Once it has been called, the read loops, the goroutine that waits for
  them and \<open>Close\<close> itself can together take at most three steps for each path and two more, in any
  order; and they can only come to rest with \<open>Close\<close> returned, every path closed and the channel closed,
  where every reader gets the terminal error.
\<close>

theorem multipath_close_completes:
  assumes "NewMultipathTransport paths = Inr t0" and "(mp_step C)\<^sup>*\<^sup>* t0 t" and "mpClose t \<noteq> CloseIdle"
    and "(shutdown_step ^^ n) t t'"
  shows "n \<le> 3 * mpPaths t + 2 \<and>
    ((\<nexists>u. shutdown_step t' u) \<longrightarrow> mpClose t' = CloseDone \<and> (\<forall>i<mpPaths t. mpPathClosed t' ! i) \<and>
      (mpReads t' = [] \<longrightarrow> (\<exists>e. mpTerminal t = Some e \<and> multipathRead t' = Some (Inl e, t'))))"
proof -
  have inv: "mp_inv t" using mp_inv_steps [OF assms(2)] mp_inv_new [OF assms(1)] by blast
  note r = shutdown_ranked [OF assms(4) inv]
  note c = shutdowns_keep_closing [OF assms(4,3)]
  have t: "mpTerminal t \<noteq> None" using inv assms(3) by (simp add: mp_inv_def)
  have "(mp_step C)\<^sup>*\<^sup>* t t'" using assms(4) st_shutdown [of _ _ C]
    by (metis mono_rtranclp predicate2I relpowp_imp_rtranclp)
  then have t': "mpTerminal t' = mpTerminal t" using t mp_terminal_steps by fastforce
  have "mpCancelled t'" using r c by (simp add: mp_inv_def)
  then have d: "mpClose t' = CloseDone \<and> mpReadsClosed t'" if "\<nexists>u. shutdown_step t' u"
    using shutdown_progress [of t'] r c that by blast
  moreover have "\<forall>i<mpPaths t. mpPathClosed t' ! i" if "mpClose t' = CloseDone"
    using r c that by (simp add: mp_inv_def)
  moreover have "\<exists>e. mpTerminal t = Some e \<and> multipathRead t' = Some (Inl e, t')"
    if "mpReads t' = []" "mpReadsClosed t'"
    using that t t' by (auto simp: multipathRead_def readTerminalError_def)
  ultimately show ?thesis using r shutdownRank_le [OF inv] by auto
qed

theorem multipath_close_completes_witness:
  "\<exists>t. (mp_step demo_crypto)\<^sup>*\<^sup>* demo_multipath t \<and> mpClose t = ClosePaths 0 \<and>
    (\<forall>n t'. (shutdown_step ^^ n) t t' \<longrightarrow> n \<le> 8)"
proof -
  have n: "NewMultipathTransport [True, False, True] = Inr demo_multipath"
    by (simp add: demo_multipath_def NewMultipathTransport_def)
  have i: "mpClose demo_multipath = CloseIdle" "mpPaths demo_multipath = 2"
    by (simp_all add: demo_multipath_def NewMultipathTransport_def)
  have s: "(mp_step demo_crypto)\<^sup>*\<^sup>* demo_multipath (closeStart demo_multipath)" using st_close [OF i(1)] by blast
  have c: "mpClose (closeStart demo_multipath) = ClosePaths 0" "mpPaths (closeStart demo_multipath) = 2"
    by (simp_all add: closeStart_def i)
  from multipath_close_completes [OF n s] c s show ?thesis by (intro exI [of _ "closeStart demo_multipath"]) auto
qed

end
