(* ===== verification/Path_Proof.thy ===== *)
theory Path_Proof
  imports Relay_Router Multipath_Props
begin

text \<open>
  The two sides of path control together: a client with path authentication enabled and the relay's
  router, from the request to the adopted path.
\<close>

section \<open>Messages\<close>

lemma marshal_parses:
  assumes "crypto_laws C" and "pathTypeValid ty" and "length sid = 16" and "length cn = 16" and "length sn = 16"
  shows "\<exists>w m. marshalPathControl C ty sid cn sn key = Inr w \<and> parsePathControl w = Inr m \<and>
    pcType m = ty \<and> pcSession m = sid \<and> pcClientNonce m = cn \<and>
    (ty \<noteq> pathControlRequest \<longrightarrow> pcServerNonce m = sn) \<and> verifyPathControl C m key"
proof -
  have hl: "length (hmac_sha256 C k b) = 32" for k b using crypto_lengths [OF assms(1)] by simp
  let ?b = "pathControlMagic @ [ty] @ sid @ cn @ (if ty \<noteq> pathControlRequest then sn else [])"
  let ?m = "\<lparr>pcType = ty, pcSession = sid, pcClientNonce = cn,
    pcServerNonce = (if ty \<noteq> pathControlRequest then sn else zeros 16), pcTag = pathControlTag C key ?b\<rparr>"
  have wf: "wf_path ?m" using assms hl by (auto simp: wf_path_def pathControlTag_def)
  define w where w: "w = ?b @ pathControlTag C key ?b"
  have m: "marshalPathControl C ty sid cn sn key = Inr w"
    using assms(2) by (simp add: marshalPathControl_def w Let_def)
  have "pathWire ?m = Inr w" by (simp add: pathWire_def w)
  then have "parsePathControl w = Inr ?m" using parse_pathWire [OF wf] by blast
  moreover have "verifyPathControl C ?m key"
  proof -
    have "marshalPathControl C ty sid cn (pcServerNonce ?m) key = Inr w"
      using assms(2) by (simp add: marshalPathControl_def w Let_def)
    moreover have "drop (length w - pathControlTagSize) w = pathControlTag C key ?b"
      by (simp add: w pathControlTagSize_def pathControlTag_def hl)
    ultimately show ?thesis by (simp add: verifyPathControl_def)
  qed
  ultimately show ?thesis using m by (intro exI [of _ w] exI [of _ ?m]) simp
qed


section \<open>The client's part\<close>

lemma refreshRequests_facts:
  assumes "refreshRequests C clock random auth is = (None, auth', reqs)" and "distinct is"
    and "\<forall>i\<in>set is. i < length (caNonces auth)"
  shows "caSession auth' = caSession auth \<and> caKey auth' = caKey auth \<and> caRemote auth' = caRemote auth \<and>
    caAuthorized auth' = caAuthorized auth \<and> length (caNonces auth') = length (caNonces auth) \<and>
    (\<forall>j. j \<notin> set is \<longrightarrow> caNonces auth' ! j = caNonces auth ! j) \<and>
    (\<forall>i\<in>set is. \<exists>rnd wire. random i = Some rnd \<and> (i, wire) \<in> set reqs \<and>
      caNonces auth' ! i = newPathRequestNonce (clock i + caClockOffset auth) rnd \<and>
      marshalPathControl C pathControlRequest (caSession auth) (caNonces auth' ! i)
        (zeros pathControlNonceSize) (caKey auth) = Inr wire)"
  using assms
proof (induction "is" arbitrary: auth reqs)
  case (Cons i rest)
  then obtain rnd where r: "random i = Some rnd" by (cases "random i") auto
  let ?n = "newPathRequestNonce (clock i + caClockOffset auth) rnd"
  let ?a = "auth\<lparr>caNonces := (caNonces auth)[i := ?n]\<rparr>"
  obtain wire where w: "marshalPathControl C pathControlRequest (caSession auth) ?n (zeros pathControlNonceSize)
      (caKey auth) = Inr wire"
    using Cons.prems(1) r by (auto simp: Let_def split: sum.splits)
  have len: "i < length (caNonces auth)" using Cons.prems(3) by simp
  obtain reqs' where q: "refreshRequests C clock random ?a rest = (None, auth', reqs')" "reqs = (i, wire) # reqs'"
    using Cons.prems(1) r w len by (auto simp: Let_def split: prod.splits)
  have i: "i \<notin> set rest" "distinct rest" using Cons.prems(2) by auto
  note ih = Cons.IH [OF q(1) i(2)]
  have "\<forall>j\<in>set rest. j < length (caNonces ?a)" using Cons.prems(3) by simp
  note ih = Cons.IH [OF q(1) i(2) this]
  then have "caNonces auth' ! i = ?n" using i(1) len by simp
  then show ?case using ih r w q(2) i(1) len by (auto simp: nth_list_update)
qed simp

lemma enabled_request:
  assumes "EnablePathAuthentication C clock random writeErr sid key (Some relay) off t = (None, t')"
    and "i < mpPaths t"
  shows "\<exists>auth rnd wire k. mpAuth t' = Some auth \<and> newSourceAddrKey (Some relay) = Some k \<and>
    gm_has (caAuthorized auth) k \<and> caSession auth = sid \<and> caKey auth = key \<and> random i = Some rnd \<and>
    i < length (caNonces auth) \<and> caNonces auth ! i = newPathRequestNonce (clock i + off) rnd \<and>
    marshalPathControl C pathControlRequest sid (caNonces auth ! i) (zeros 16) key = Inr wire \<and>
    (i, wire, Some relay) \<in> set (mpWrites t')"
proof -
  obtain k where k: "newSourceAddrKey (Some relay) = Some k"
    using assms(1) by (auto simp: EnablePathAuthentication_def split: option.splits)
  let ?a = "\<lparr>caSession = sid, caKey = key, caRemote = relay, caClockOffset = off,
    caNonces = replicate (mpPaths t) (zeros pathControlNonceSize), caAuthorized = gm_set [] k ()\<rparr>"
  have "refreshPathAuthentication C clock random writeErr (t\<lparr>mpAuth := Some ?a\<rparr>) = (None, t')"
    using assms(1) k by (simp add: EnablePathAuthentication_def)
  then obtain auth reqs where r: "refreshRequests C clock random ?a [0..<mpPaths t] = (None, auth, reqs)"
    and t': "mpAuth t' = Some auth"
      "mpWrites t' = mpWrites t @ map (\<lambda>(i, wire). (i, wire, Some (caRemote auth))) reqs"
    by (auto simp: refreshPathAuthentication_def Let_def split: prod.splits option.splits if_splits)
  note f = refreshRequests_facts [OF r]
  obtain rnd wire where w: "random i = Some rnd" "(i, wire) \<in> set reqs"
      "caNonces auth ! i = newPathRequestNonce (clock i + off) rnd"
      "marshalPathControl C pathControlRequest sid (caNonces auth ! i) (zeros pathControlNonceSize) key = Inr wire"
    using f assms(2) by force
  have "gm_has (caAuthorized auth) k" using f by (simp add: gm_get_set)
  moreover have "(i, wire, Some relay) \<in> set (mpWrites t')" using w(2) t'(2) f by force
  ultimately show ?thesis using f k t'(1) w assms(2) by (auto simp: pathControlNonceSize_def)
qed

lemma client_answers:
  assumes "mpAuth t = Some auth" and "i < length (caNonces auth)" and "newSourceAddrKey (Some relay) = Some k"
    and "gm_has (caAuthorized auth) k" and "parsePathControl packet = Inr msg"
    and "pcType msg = pathControlChallenge" and "pcSession msg = caSession auth"
    and "pcClientNonce msg = caNonces auth ! i" and "verifyPathControl C msg (caKey auth)"
    and "marshalPathControl C pathControlResponse (caSession auth) (pcClientNonce msg) (pcServerNonce msg)
      (caKey auth) = Inr response"
  shows "loopReceive C i packet (Some relay) t = t\<lparr>mpWrites := mpWrites t @ [(i, response, Some relay)]\<rparr>"
  using assms by (simp add: loopReceive_def clientPathControl_def)

section \<open>The relay's part\<close>

lemma request_granted:
  assumes "parsePathControl packet = Inr msg" and "pcType msg = pathControlRequest"
    and "newSourceAddrKey from = Some k" and "gm_get (rtSessions r) (pcSession msg) = Some p"
    and "verifyPathRequestTime (pcClientNonce msg) now pathRequestLifetime"
    and "verifyPathControl C msg (rsPathKey (rtHeap r p))" and "rsAllow (rtHeap r p)"
    and "rsActive (rtHeap r p) \<noteq> k" and "\<not> ownedByOther r k p"
    and "consumePathRequestToken now (rtHeap r p) = (True, session)"
    and "marshalPathControl C pathControlChallenge (pcSession msg) (pcClientNonce msg)
      (newPathCookie C (rsPathKey (rtHeap r p)) (pcSession msg) k (pcClientNonce msg) now)
      (rsPathKey (rtHeap r p)) = Inr challenge"
  shows "routerStep C r (Datagram now True seeDone [] \<lparr>envPacket = packet, envFrom = from\<rparr>) =
    (rtUpd r p session)\<lparr>rtPathRequestAuthChecks := rtPathRequestAuthChecks r + 1,
      rtWrites := rtWrites r @ [(challenge, from)]\<rparr>"
  using assms by (simp add: routerRead_def handlePathControl_def handlePathRequest_def Let_def ownedByOther_def)

lemma consume_with_token:
  assumes "1 \<le> rsTokens s"
  shows "\<exists>s'. consumePathRequestToken now s = (True, s') \<and> rsPathKey s' = rsPathKey s \<and> rsAllow s' = rsAllow s"
proof -
  have "0 \<le> Fract (now - rsRefillAt s) time_Second" if "now > rsRefillAt s"
    using that by (simp add: zero_le_Fract_iff)
  then have "1 \<le> rsTokens s + Fract (now - rsRefillAt s) time_Second * pathRequestTokensPerSecond"
    if "now > rsRefillAt s" using that assms by (simp add: relay_consts)
  then show ?thesis using assms by (auto simp: consumePathRequestToken_def Let_def relay_consts not_less min_def)
qed

lemma oldestInactive_found:
  assumes "oldestInactive a best m = None"
  shows "best = None \<and> (\<forall>(k, v)\<in>set m. k = a)"
  using assms
  by (induction a best m rule: oldestInactive.induct) (auto split: option.splits if_splits)

lemma evict_found:
  assumes "router_inv r" and "p < rtNext r" and "1 < length (rsPaths (rtHeap r p))"
  shows "fst (evictOldestInactivePath p r)"
proof (cases "oldestInactive (rsActive (rtHeap r p)) None (rsPaths (rtHeap r p))")
  case None
  have "gm_ok (rsPaths (rtHeap r p))" using router_invD(6) [OF assms(1,2)] by (simp add: transport_inv_def)
  then have d: "distinct (map fst (rsPaths (rtHeap r p)))" by (simp add: gm_ok_def)
  have "fst ` set (rsPaths (rtHeap r p)) \<subseteq> {rsActive (rtHeap r p)}" using oldestInactive_found [OF None] by auto
  then have "card (fst ` set (rsPaths (rtHeap r p))) \<le> 1" by (metis card.empty card_insert_le_m1 card_mono finite.simps empty_iff is_singletonI is_singleton_altdef le_refl less_one linorder_not_le order_trans)
  then show ?thesis using distinct_card [OF d] assms(3) by simp
qed (auto simp: evictOldestInactivePath_def Let_def split: prod.splits)


lemma response_adopted:
  assumes inv: "router_inv r" and "parsePathControl packet = Inr msg" and "pcType msg = pathControlResponse"
    and k: "newSourceAddrKey from = Some k" and p: "gm_get (rtSessions r) (pcSession msg) = Some p"
    and "verifyPathControl C msg (rsPathKey (rtHeap r p))" and "rsAllow (rtHeap r p)" and "\<not> ownedByOther r k p"
    and "verifyPathCookie C (pcServerNonce msg) (rsPathKey (rtHeap r p)) (pcSession msg) k (pcClientNonce msg)
      now pathChallengeLifetime"
    and c: "\<not> gm_has (rsUsedCookies (rtHeap r p)) (pcServerNonce msg)"
      "length (rsUsedCookies (rtHeap r p)) < defaultRelayUsedPathCookies"
    and r': "r' = routerStep C r (Datagram now writeOk seeDone [] \<lparr>envPacket = packet, envFrom = from\<rparr>)"
  shows "gm_get (rtSources r') k = Some p \<and> rsActive (rtHeap r' p) = k \<and>
    (\<exists>path. gm_get (rsPaths (rtHeap r' p)) k = Some path \<and> pathAddr path = from)"
proof -
  have lt: "p < rtNext r" using router_invD(4) [OF inv p] by simp
  have eq: "r' = commitPathResponse now from k msg p r"
    using assms(2-9) r' by (simp add: routerRead_def handlePathControl_def handlePathResponse_def Let_def
        ownedByOther_def pathControlRequest_def pathControlResponse_def)
  define r1 where r1: "r1 = rtUpd r p (purgeUsedPathCookies now (rtHeap r p))"
  define r2 where r2: "r2 = purgeExpiredPaths now p r1"
  have ok: "gm_ok (rsUsedCookies (rtHeap r p))" using router_invD(6) [OF inv lt] by (simp add: transport_inv_def)
  have "\<not> gm_has (rsUsedCookies (rtHeap r1 p)) (pcServerNonce msg)"
    using c(1) by (auto simp: r1 purgeUsedPathCookies_def gm_get_keep [OF ok] split: option.splits)
  moreover have "length (rsUsedCookies (rtHeap r1 p)) < defaultRelayUsedPathCookies"
    using c(2) gm_len_keep_le [of "\<lambda>cookie expiresAt. now < expiresAt" "rsUsedCookies (rtHeap r p)"]
    by (simp add: r1 purgeUsedPathCookies_def)
  ultimately have c': "r' = (if \<not> gm_has (rsPaths (rtHeap r2 p)) k \<and>
        length (rsPaths (rtHeap r2 p)) \<ge> defaultRelayMaxPathsPerSession
      then (case evictOldestInactivePath p r2 of (False, r) \<Rightarrow> dropPath r
            | (True, r) \<Rightarrow> adoptPath now from k (pcServerNonce msg) p r)
      else adoptPath now from k (pcServerNonce msg) p r2)"
    using p assms(8) unfolding eq commitPathResponse_def r1 [symmetric] r2 Let_def by (simp add: not_le)
  have i1: "router_inv r1"
    unfolding r1 by (rule router_inv_upd [OF inv]) (use purgeCookies_inv router_invD(6) [OF inv lt] in
        \<open>auto simp: purgeUsedPathCookies_def\<close>)
  have lt1: "p < rtNext r1" by (simp add: r1 lt)
  have i2: "router_inv r2" unfolding r2 by (rule purgePaths_inv [OF i1 lt1])
  have lt2: "p < rtNext r2" by (simp add: r2 purgePaths_frame lt1)
  have ad: "gm_get (rtSources (adoptPath now from k c p q)) k = Some p \<and> rsActive (rtHeap (adoptPath now from k c p q) p) = k
     \<and> (\<exists>path. gm_get (rsPaths (rtHeap (adoptPath now from k c p q) p)) k = Some path \<and> pathAddr path = from)"
    for c q by (simp add: adoptPath_def Let_def gm_get_set)
  have "fst (evictOldestInactivePath p r2)" if "length (rsPaths (rtHeap r2 p)) \<ge> defaultRelayMaxPathsPerSession"
    using evict_found [OF i2 lt2] that by (simp add: relay_consts)
  then show ?thesis using ad c' by (cases "evictOldestInactivePath p r2") (auto split: if_splits)
qed


section \<open>The exchange\<close>

text \<open>
  C20. A new path can always be proved. The client enables path authentication with the session and
  the key that the relay has, and its requests go out. Suppose the request of path \<open>i\<close> reaches the
  relay from a source address that no other session owns, the session allows more paths and has a
  token left, and the request is between a second early and ten seconds old by the relay's clock. Then
  the relay answers with a challenge; the client, on receiving it from the relay's address, answers
  with a response; and when that arrives from the same source within four seconds, and the session's
  table of spent cookies is not full, the relay routes the source to the session and sends to that
  address from then on.
\<close>

theorem path_proof_completes:
  assumes C: "crypto_laws C" and r: "r = run (routerStep C) (newRelayTransportRouter q h) es"
    and p: "gm_get (rtSessions r) sid = Some p" "length sid = 16" "rsAllow (rtHeap r p)" "1 \<le> rsTokens (rtHeap r p)"
    and c: "EnablePathAuthentication C clock random writeErr sid (rsPathKey (rtHeap r p)) (Some relay) off t = (None, t1)"
      "i < mpPaths t" "\<And>rnd. random i = Some rnd \<Longrightarrow> length rnd = 8"
    and k: "newSourceAddrKey (Some src) = Some k" "rsActive (rtHeap r p) \<noteq> k" "\<not> ownedByOther r k p"
    and tm: "0 \<le> clock i + off" "0 \<le> now1" "unixSeconds (clock i + off) < 2 ^ 62" "unixSeconds now1 < 2 ^ 62"
      "unixSeconds (clock i + off) * time_Second \<le> now1 + time_Second"
      "now1 - unixSeconds (clock i + off) * time_Second \<le> 10 * time_Second" "now1 \<le> now2" "now2 \<le> now1 + 4 * time_Second"
    and fresh: "\<And>cn. \<not> gm_has (rsUsedCookies (rtHeap r p)) (newPathCookie C (rsPathKey (rtHeap r p)) sid k cn now1)"
      "length (rsUsedCookies (rtHeap r p)) < defaultRelayUsedPathCookies"
  shows "\<exists>request challenge response. (i, request, Some relay) \<in> set (mpWrites t1) \<and>
    (let r1 = routerStep C r (Datagram now1 True d1 [] \<lparr>envPacket = request, envFrom = Some src\<rparr>);
         r2 = routerStep C r1 (Datagram now2 ok d2 [] \<lparr>envPacket = response, envFrom = Some src\<rparr>)
     in rtWrites r1 = rtWrites r @ [(challenge, Some src)] \<and>
        loopReceive C i challenge (Some relay) t1 = t1\<lparr>mpWrites := mpWrites t1 @ [(i, response, Some relay)]\<rparr> \<and>
        gm_get (rtSources r2) k = Some p \<and> rsActive (rtHeap r2 p) = k \<and>
        rtWrites (snd (transportWrite p pkt w r2)) = rtWrites r2 @ [(pkt, Some src)])"
proof -
  let ?K = "rsPathKey (rtHeap r p)"
  have inv: "router_inv r" unfolding r by (rule router.invar_run) (rule new_router_inv)
  obtain auth rnd request rk where a: "mpAuth t1 = Some auth" "newSourceAddrKey (Some relay) = Some rk"
    "gm_has (caAuthorized auth) rk" "caSession auth = sid" "caKey auth = ?K" "random i = Some rnd"
    "i < length (caNonces auth)" "caNonces auth ! i = newPathRequestNonce (clock i + off) rnd"
    and req: "marshalPathControl C pathControlRequest sid (caNonces auth ! i) (zeros 16) ?K = Inr request"
    and out: "(i, request, Some relay) \<in> set (mpWrites t1)"
    using enabled_request [OF c(1,2)] by blast
  let ?cn = "caNonces auth ! i"
  have cn: "length ?cn = 16" using a(6,8) c(3) by (simp add: newPathRequestNonce_def)
  have types: "pathTypeValid pathControlRequest" "pathTypeValid pathControlChallenge" "pathTypeValid pathControlResponse"
    by (simp_all add: pathTypeValid_def)
  obtain m1 where m1: "parsePathControl request = Inr m1" "pcType m1 = pathControlRequest" "pcSession m1 = sid"
    "pcClientNonce m1 = ?cn" "verifyPathControl C m1 ?K"
    using marshal_parses [OF C types(1) p(2) cn, of "zeros 16" ?K] req by auto
  let ?sn = "newPathCookie C ?K sid k ?cn now1"
  have sn: "length ?sn = 16" using crypto_lengths [OF C] by (simp add: newPathCookie_def pathCookieTag_def Let_def)
  obtain challenge m2 where m2: "marshalPathControl C pathControlChallenge sid ?cn ?sn ?K = Inr challenge"
    "parsePathControl challenge = Inr m2" "pcType m2 = pathControlChallenge" "pcSession m2 = sid"
    "pcClientNonce m2 = ?cn" "pcServerNonce m2 = ?sn" "verifyPathControl C m2 ?K"
    using marshal_parses [OF C types(2) p(2) cn sn, of ?K] by (auto simp: path_consts)
  obtain response m3 where m3: "marshalPathControl C pathControlResponse sid ?cn ?sn ?K = Inr response"
    "parsePathControl response = Inr m3" "pcType m3 = pathControlResponse" "pcSession m3 = sid"
    "pcClientNonce m3 = ?cn" "pcServerNonce m3 = ?sn" "verifyPathControl C m3 ?K"
    using marshal_parses [OF C types(3) p(2) cn sn, of ?K] by (auto simp: path_consts)
  have t1: "verifyPathRequestTime ?cn now1 pathRequestLifetime"
  proof -
    have "gslice 0 8 ?cn = put_u64 (of_int (unixSeconds (clock i + off)))"
      by (simp add: a(8) newPathRequestNonce_def gslice_def)
    moreover have "0 \<le> unixSeconds (clock i + off)" using tm(1) by (simp add: unixSeconds_def pos_imp_zdiv_nonneg_iff)
    ultimately show ?thesis using issuedRecently_window [of "gslice 0 8 ?cn" "unixSeconds (clock i + off)" now1] tm
      by (simp add: verifyPathRequestTime_def pathRequestLifetime_def)
  qed
  obtain s where s: "consumePathRequestToken now1 (rtHeap r p) = (True, s)" "rsPathKey s = ?K" "rsAllow s"
    using consume_with_token [OF p(4), of now1] p(3) by auto
  define r1 where r1: "r1 = (rtUpd r p s)\<lparr>rtPathRequestAuthChecks := rtPathRequestAuthChecks r + 1,
    rtWrites := rtWrites r @ [(challenge, Some src)]\<rparr>"
  have step1: "routerStep C r (Datagram now1 True d1 [] \<lparr>envPacket = request, envFrom = Some src\<rparr>) = r1"
    unfolding r1 using m1 m2(1) k p t1 s(1) by (intro request_granted [OF m1(1,2) k(1)]) auto
  have inv1: "router_inv r1" unfolding step1 [symmetric] by (rule router.invar_step [OF inv])
  have t2: "verifyPathCookie C ?sn ?K sid k ?cn now2 pathChallengeLifetime"
  proof -
    have "gslice 0 8 ?sn = put_u64 (of_int (unixSeconds now1))" "drop 8 ?sn = take 8 (pathCookieTag C ?K sid k ?cn (gslice 0 8 ?sn))"
      by (simp_all add: newPathCookie_def Let_def gslice_def)
    moreover have "0 \<le> unixSeconds now1" using tm(2) by (simp add: unixSeconds_def pos_imp_zdiv_nonneg_iff)
    moreover have "unixSeconds now1 * time_Second \<le> now1" "now1 < unixSeconds now1 * time_Second + time_Second"
      using div_mult_mod_eq [of now1 time_Second] pos_mod_bound [of time_Second now1] pos_mod_sign [of time_Second now1]
      by (simp_all add: unixSeconds_def)
    ultimately show ?thesis using issuedRecently_window [of "gslice 0 8 ?sn" "unixSeconds now1" now2 pathChallengeLifetime] tm
      by (simp add: verifyPathCookie_def relay_consts)
  qed
  define r2 where r2: "r2 = routerStep C r1 (Datagram now2 ok d2 [] \<lparr>envPacket = response, envFrom = Some src\<rparr>)"
  have ad: "gm_get (rtSources r2) k = Some p \<and> rsActive (rtHeap r2 p) = k \<and>
    (\<exists>path. gm_get (rsPaths (rtHeap r2 p)) k = Some path \<and> pathAddr path = Some src)"
    using m3 k p t2 s consume_frame [OF s(1)] fresh
    by (intro response_adopted [OF inv1 m3(2,3) k(1) _ _ _ _ _ _ _ r2]) (auto simp: r1 ownedByOther_def)
  have "loopReceive C i challenge (Some relay) t1 = t1\<lparr>mpWrites := mpWrites t1 @ [(i, response, Some relay)]\<rparr>"
    using a m2 m3(1) by (intro client_answers [OF a(1,7,2,3) m2(2,3)]) auto
  moreover have "rtWrites (snd (transportWrite p pkt w r2)) = rtWrites r2 @ [(pkt, Some src)]"
    using ad by (auto simp: transportWrite_def Let_def)
  moreover have "rtWrites r1 = rtWrites r @ [(challenge, Some src)]" by (simp add: r1)
  ultimately show ?thesis using out ad step1 r2 unfolding Let_def by (metis (no_types, lifting))
qed


text \<open>The first path of a fresh transport is proved to a relay that knows another address.\<close>

definition demo_enabled :: "mp_error option \<times> MultipathTransport" where
  "demo_enabled = EnablePathAuthentication demo_crypto (\<lambda>_. 7 * time_Second) (\<lambda>_. Some (zeros 8)) (\<lambda>_. None)
     (zeros 16) (zeros 32) (Some \<lparr>addrNetwork = ''udp'', addrString = ''r''\<rparr>) 0 demo_multipath"

theorem path_proof_completes_witness:
  "\<exists>request challenge response.
    (0, request, Some \<lparr>addrNetwork = ''udp'', addrString = ''r''\<rparr>) \<in> set (mpWrites (snd demo_enabled)) \<and>
    (let r1 = routerStep demo_crypto demo_router (Datagram (7 * time_Second) True False []
           \<lparr>envPacket = request, envFrom = Some demo_away\<rparr>);
         r2 = routerStep demo_crypto r1 (Datagram (8 * time_Second) True False []
           \<lparr>envPacket = response, envFrom = Some demo_away\<rparr>)
     in rtWrites r1 = rtWrites demo_router @ [(challenge, Some demo_away)] \<and> rsActive (rtHeap r2 0) = demo_key)"
proof -
  have 1: "gm_get (rtSessions demo_router) (zeros 16) = Some 0" "rsAllow (rtHeap demo_router 0)"
    "1 \<le> rsTokens (rtHeap demo_router 0)" "rsPathKey (rtHeap demo_router 0) = zeros 32"
    "rsActive (rtHeap demo_router 0) \<noteq> demo_key" "rsUsedCookies (rtHeap demo_router 0) = []"
    "\<not> ownedByOther demo_router demo_key 0"
    by code_simp+
  have 2: "fst demo_enabled = None" "newSourceAddrKey (Some demo_away) = Some demo_key" by code_simp+
  have 3: "0 < mpPaths demo_multipath" by code_simp
  have e: "EnablePathAuthentication demo_crypto (\<lambda>_. 7 * time_Second) (\<lambda>_. Some (zeros 8)) (\<lambda>_. None)
     (zeros 16) (rsPathKey (rtHeap demo_router 0)) (Some \<lparr>addrNetwork = ''udp'', addrString = ''r''\<rparr>) 0 demo_multipath =
     (None, snd demo_enabled)"
    using 2(1) by (simp add: demo_enabled_def 1(4) prod_eq_iff)
  have u: "unixSeconds 7000000000 = 7" by (simp add: unixSeconds_def)
  have "\<exists>request challenge response.
    (0, request, Some \<lparr>addrNetwork = ''udp'', addrString = ''r''\<rparr>) \<in> set (mpWrites (snd demo_enabled)) \<and>
    (let r1 = routerStep demo_crypto demo_router (Datagram (7 * time_Second) True False []
           \<lparr>envPacket = request, envFrom = Some demo_away\<rparr>);
         r2 = routerStep demo_crypto r1 (Datagram (8 * time_Second) True False []
           \<lparr>envPacket = response, envFrom = Some demo_away\<rparr>)
     in rtWrites r1 = rtWrites demo_router @ [(challenge, Some demo_away)] \<and>
        loopReceive demo_crypto 0 challenge (Some \<lparr>addrNetwork = ''udp'', addrString = ''r''\<rparr>) (snd demo_enabled) =
          (snd demo_enabled)\<lparr>mpWrites := mpWrites (snd demo_enabled) @
            [(0, response, Some \<lparr>addrNetwork = ''udp'', addrString = ''r''\<rparr>)]\<rparr> \<and>
        gm_get (rtSources r2) demo_key = Some 0 \<and> rsActive (rtHeap r2 0) = demo_key \<and>
        rtWrites (snd (transportWrite 0 [] True r2)) = rtWrites r2 @ [([], Some demo_away)])"
    by (rule path_proof_completes [OF demo_crypto_laws demo_router_def 1(1) _ 1(2,3) e 3 _ 2(2) 1(5,7)])
      (simp_all add: u 1(6) relay_consts)
  then show ?thesis unfolding Let_def by blast
qed

end
