(* ===== verification/GoStrings.thy ===== *)
theory GoStrings
  imports Prelude
begin

text \<open>
  The functions of Go's packages \<open>strings\<close>, \<open>strconv\<close> and \<open>path\<close> that the program uses, and a stable
  sort. Strings are lists of ASCII characters: case folding and white space are those of ASCII, where
  Go knows the rest of Unicode as well.
\<close>

section \<open>Strings\<close>

definition isSpace :: "char \<Rightarrow> bool" where
  "isSpace c \<longleftrightarrow> (of_char c :: nat) \<in> {9, 10, 11, 12, 13, 32}"

definition trimSpace :: "string \<Rightarrow> string" where
  "trimSpace s = rev (dropWhile isSpace (rev (dropWhile isSpace s)))"

definition toLowerChar :: "char \<Rightarrow> char" where
  "toLowerChar c = (let n = of_char c :: nat in if 65 \<le> n \<and> n \<le> 90 then char_of (n + 32) else c)"

definition toLower :: "string \<Rightarrow> string" where
  "toLower s = map toLowerChar s"

definition equalFold :: "string \<Rightarrow> string \<Rightarrow> bool" where
  "equalFold s t \<longleftrightarrow> toLower s = toLower t"

definition hasPrefix :: "string \<Rightarrow> string \<Rightarrow> bool" where
  "hasPrefix s p \<longleftrightarrow> take (length p) s = p"

definition hasSuffix :: "string \<Rightarrow> string \<Rightarrow> bool" where
  "hasSuffix s p \<longleftrightarrow> hasPrefix (rev s) (rev p)"

definition trimPrefix :: "string \<Rightarrow> string \<Rightarrow> string" where
  "trimPrefix s p = (if hasPrefix s p then drop (length p) s else s)"

definition trimSuffix :: "string \<Rightarrow> string \<Rightarrow> string" where
  "trimSuffix s p = (if hasSuffix s p then take (length s - length p) s else s)"

fun containsStr :: "string \<Rightarrow> string \<Rightarrow> bool" where
  "containsStr [] sub = (sub = [])"
| "containsStr (c # s) sub = (hasPrefix (c # s) sub \<or> containsStr s sub)"

text \<open>\<open>strings.Split\<close> by one character.\<close>

fun splitOn :: "char \<Rightarrow> string \<Rightarrow> string list" where
  "splitOn sep [] = [[]]"
| "splitOn sep (c # s) =
     (if c = sep then [] # splitOn sep s
      else case splitOn sep s of [] \<Rightarrow> [[c]] | part # rest \<Rightarrow> (c # part) # rest)"

section \<open>Numbers\<close>

definition digitVal :: "char \<Rightarrow> nat option" where
  "digitVal c = (let n = of_char c :: nat in if 48 \<le> n \<and> n \<le> 57 then Some (n - 48) else None)"

fun digitsVal :: "nat \<Rightarrow> string \<Rightarrow> nat option" where
  "digitsVal acc [] = Some acc"
| "digitsVal acc (c # s) =
     (case digitVal c of None \<Rightarrow> None | Some d \<Rightarrow> digitsVal (10 * acc + d) s)"

text \<open>\<open>strconv.ParseUint(s, 10, bits)\<close>; \<open>None\<close> is an error.\<close>

definition parseUint :: "nat \<Rightarrow> string \<Rightarrow> nat option" where
  "parseUint bits s =
     (if s = [] then None
      else case digitsVal 0 s of None \<Rightarrow> None | Some n \<Rightarrow> if n < 2 ^ bits then Some n else None)"

text \<open>\<open>strconv.Atoi\<close>: an optional sign, and the range of \<open>int\<close>.\<close>

definition parseAtoi :: "string \<Rightarrow> int option" where
  "parseAtoi s =
     (let neg = (s \<noteq> [] \<and> hd s = CHR ''-'');
          digits = (if s \<noteq> [] \<and> (hd s = CHR ''-'' \<or> hd s = CHR ''+'') then tl s else s)
      in if digits = [] then None
         else case digitsVal 0 digits of
           None \<Rightarrow> None
         | Some n \<Rightarrow>
             if neg then (if n \<le> 2 ^ 63 then Some (- int n) else None)
             else (if n < 2 ^ 63 then Some (int n) else None))"

section \<open>Slash paths\<close>

definition joinSlash :: "string list \<Rightarrow> string" where
  "joinSlash parts = (case parts of [] \<Rightarrow> [] | p # rest \<Rightarrow> p @ concat (map (\<lambda>q. CHR ''/'' # q) rest))"

text \<open>\<open>path.Clean\<close>, component by component.\<close>

definition cleanPath :: "string \<Rightarrow> string" where
  "cleanPath p =
     (let rooted = (p \<noteq> [] \<and> hd p = CHR ''/'');
          parts = filter (\<lambda>c. c \<noteq> [] \<and> c \<noteq> ''.'') (splitOn (CHR ''/'') p);
          out = foldl (\<lambda>st c.
            if c = ''..''
            then (if st \<noteq> [] \<and> last st \<noteq> ''..'' then butlast st else if rooted then st else st @ [c])
            else st @ [c]) [] parts;
          res = (if rooted then CHR ''/'' # joinSlash out else joinSlash out)
      in if res = [] then ''.'' else res)"

section \<open>A stable sort\<close>

text \<open>\<open>sort.SliceStable\<close> with the order of a key.\<close>

definition sliceStable :: "('a \<Rightarrow> 'k::linorder) \<Rightarrow> 'a list \<Rightarrow> 'a list" where
  "sliceStable key xs = sort_key key xs"

lemma find_filter: "find P xs = (case filter P xs of [] \<Rightarrow> None | x # _ \<Rightarrow> Some x)"
  by (induction xs) auto

text \<open>The reference without sorting: the element of least key with a property, of several the earliest.\<close>

primrec bestBy :: "('a \<Rightarrow> 'k::linorder) \<Rightarrow> ('a \<Rightarrow> bool) \<Rightarrow> 'a list \<Rightarrow> 'a option" where
  "bestBy key P [] = None"
| "bestBy key P (x # xs) =
     (case bestBy key P xs of
        None \<Rightarrow> if P x then Some x else None
      | Some y \<Rightarrow> if P x \<and> key x \<le> key y then Some x else Some y)"

lemma find_best: "find P (sliceStable key xs) = bestBy key P xs"
proof -
  have "(case sort_key key (filter P xs) of [] \<Rightarrow> None | x # _ \<Rightarrow> Some x) = bestBy key P xs" for xs
    by (induction xs) (auto split: list.splits option.splits)
  then show ?thesis by (simp add: sliceStable_def find_filter filter_sort)
qed

section \<open>Facts about trimming and folding\<close>

lemma dropWhile_idem: "dropWhile P (dropWhile P xs) = dropWhile P xs"
  by (induction xs) auto

lemma dropWhile_fixed: "dropWhile P xs = xs \<longleftrightarrow> xs = [] \<or> \<not> P (hd xs)"
  by (cases xs) (auto, metis dropWhile.simps(2) hd_dropWhile list.sel(1) list.simps(3))

lemma trimSpace_idem [simp]: "trimSpace (trimSpace s) = trimSpace s"
proof -
  define u where "u = dropWhile isSpace s"
  define v where "v = rev (dropWhile isSpace (rev u))"
  have v: "trimSpace s = v" by (simp add: trimSpace_def u_def v_def)
  have "v = [] \<or> \<not> isSpace (hd v)"
  proof (cases "v = []")
    case False
    have "rev u = takeWhile isSpace (rev u) @ dropWhile isSpace (rev u)" by simp
    then have "u = rev (dropWhile isSpace (rev u)) @ rev (takeWhile isSpace (rev u))"
      by (metis rev_append rev_rev_ident)
    then have "u \<noteq> []" "hd u = hd v" using False unfolding v_def by (metis append_is_Nil_conv, metis hd_append2)
    then show ?thesis by (metis u_def hd_dropWhile)
  qed simp
  then have "dropWhile isSpace v = v" by (simp add: dropWhile_fixed)
  moreover have "dropWhile isSpace (rev v) = rev v" by (simp add: v_def dropWhile_idem)
  ultimately show ?thesis unfolding v by (simp add: trimSpace_def)
qed

lemma equalFold_refl [simp]: "equalFold s s" by (simp add: equalFold_def)

lemma dropWhile_length_eq: "length (dropWhile P xs) = length xs \<longleftrightarrow> dropWhile P xs = xs"
  by (metis append_eq_conv_conj dropWhile_eq_drop drop_eq_Nil2 length_drop linorder_linear takeWhile_dropWhile_id append_Nil
      diff_is_0_eq' length_0_conv takeWhile_eq_take diff_diff_cancel length_takeWhile_le)

lemma trimSpace_fixed: "trimSpace s = s \<longleftrightarrow> s = [] \<or> \<not> isSpace (hd s) \<and> \<not> isSpace (last s)"
proof (cases "s = []")
  case False
  show ?thesis
  proof
    assume t: "trimSpace s = s"
    have le: "length (dropWhile isSpace s) \<le> length s" "length (trimSpace s) \<le> length (dropWhile isSpace s)"
      by (simp_all add: trimSpace_def length_dropWhile_le) (metis length_dropWhile_le length_rev)
    then have "length (dropWhile isSpace s) = length s" using t by simp
    then have a: "dropWhile isSpace s = s" by (simp add: dropWhile_length_eq)
    then have "dropWhile isSpace (rev s) = rev s" using t by (simp add: trimSpace_def rev_swap)
    then show "s = [] \<or> \<not> isSpace (hd s) \<and> \<not> isSpace (last s)"
      using a False by (simp add: dropWhile_fixed hd_rev)
  next
    assume "s = [] \<or> \<not> isSpace (hd s) \<and> \<not> isSpace (last s)"
    then have "dropWhile isSpace s = s" "dropWhile isSpace (rev s) = rev s"
      using False by (simp_all add: dropWhile_fixed hd_rev)
    then show "trimSpace s = s" by (simp add: trimSpace_def)
  qed
qed (simp add: trimSpace_def)

lemma isSpace_toLower [simp]: "isSpace (toLowerChar c) = isSpace c"
  by (auto simp: isSpace_def toLowerChar_def Let_def)

lemma trimmed_fold:
  assumes "toLower a = toLower b" and "trimSpace a = a"
  shows "trimSpace b = b"
proof (cases "b = []")
  case False
  then have a: "a \<noteq> []" using assms(1) by (auto simp: toLower_def)
  have "toLowerChar (hd a) = toLowerChar (hd b)" "toLowerChar (last a) = toLowerChar (last b)"
    using assms(1) a False by (metis hd_map toLower_def, metis last_map toLower_def)
  then have "isSpace (hd a) = isSpace (hd b)" "isSpace (last a) = isSpace (last b)"
    by (metis isSpace_toLower)+
  then show ?thesis using assms(2) a False by (simp add: trimSpace_fixed)
qed (simp add: trimSpace_def)

end
