(* ===== verification/Packet.thy ===== *)
theory Packet
  imports Tunnel
begin

text \<open>
  Packets of the captured traffic: the parser of the pipeline (\<open>internal/pipeline/packet.go\<close>), the
  builder of the packets that are written back (\<open>internal/app/packet_writeback.go\<close>), and the flow key
  and process types of \<open>internal/pidtrack/process.go\<close> they share.
\<close>

section \<open>Flows and processes\<close>

text \<open>
  The textual syntax of package \<open>net/netip\<close> is a parameter of the model: what \<open>Addr.String\<close>,
  \<open>ParseAddr\<close> and \<open>ParsePrefix\<close> do. The law states that an address without a zone is read back from
  its text.
\<close>

record Prefix =
  prefixAddr :: Addr
  prefixBits :: nat

record netip =
  addrText :: "Addr \<Rightarrow> string"
  parseAddr :: "string \<Rightarrow> Addr option"
  parsePrefix :: "string \<Rightarrow> Prefix option"

definition netip_laws :: "netip \<Rightarrow> bool" where
  "netip_laws N \<longleftrightarrow>
     (\<forall>a. a \<noteq> AddrZero \<and> wf_addr a \<and> zoneless a \<longrightarrow> parseAddr N (addrText N a) = Some a)"

definition TransportTCP :: string where "TransportTCP = ''tcp''"
definition TransportUDP :: string where "TransportUDP = ''udp''"

record FlowKey =
  fkTransport :: string
  fkLocalIP :: string
  fkLocalPort :: u16
  fkRemoteIP :: string
  fkRemotePort :: u16

record ProcessSummary =
  psPID :: int
  psName :: string
  psExecutablePath :: string

record ProcessInfo =
  piPID :: int
  piParentPID :: int
  piName :: string
  piExecutablePath :: string
  piSHA256 :: string
  piCommandLine :: "string list"
  piAncestors :: "ProcessSummary list"
  piTags :: "string \<rightharpoonup> string"

section \<open>Parsing\<close>

datatype packet_error =
    ErrPacketTooShort
  | ErrUnsupportedIP
  | ErrUnsupportedProtocol
  | ErrFamiliesDiffer
  | ErrPacketTooLarge

definition transportFromIPProtocol :: "byte \<Rightarrow> packet_error + string" where
  "transportFromIPProtocol proto =
     (if proto = 6 then Inr TransportTCP
      else if proto = 17 then Inr TransportUDP
      else Inl ErrUnsupportedProtocol)"

text \<open>The header length of an IPv4 packet.\<close>

definition ipv4HeaderLen :: "bytes \<Rightarrow> nat" where
  "ipv4HeaderLen packet = unat (packet ! 0 AND 0x0f) * 4"

definition parseIPv4Flow :: "netip \<Rightarrow> bytes \<Rightarrow> packet_error + FlowKey" where
  "parseIPv4Flow N packet =
     (if length packet < 20 then Inl ErrPacketTooShort
      else
        let ihl = ipv4HeaderLen packet
        in if ihl < 20 \<or> length packet < ihl + 4 then Inl ErrPacketTooShort
           else case transportFromIPProtocol (packet ! 9) of
             Inl e \<Rightarrow> Inl e
           | Inr transport \<Rightarrow>
               Inr \<lparr>fkTransport = transport,
                    fkLocalIP = addrText N (Addr4 (gslice 12 16 packet)),
                    fkLocalPort = get_u16 (gslice ihl (ihl + 2) packet),
                    fkRemoteIP = addrText N (Addr4 (gslice 16 20 packet)),
                    fkRemotePort = get_u16 (gslice (ihl + 2) (ihl + 4) packet)\<rparr>)"

definition parseIPv6Flow :: "netip \<Rightarrow> bytes \<Rightarrow> packet_error + FlowKey" where
  "parseIPv6Flow N packet =
     (if length packet < 44 then Inl ErrPacketTooShort
      else case transportFromIPProtocol (packet ! 6) of
        Inl e \<Rightarrow> Inl e
      | Inr transport \<Rightarrow>
          Inr \<lparr>fkTransport = transport,
               fkLocalIP = addrText N (Addr6 (gslice 8 24 packet) []),
               fkLocalPort = get_u16 (gslice 40 42 packet),
               fkRemoteIP = addrText N (Addr6 (gslice 24 40 packet) []),
               fkRemotePort = get_u16 (gslice 42 44 packet)\<rparr>)"

definition ParseFlow :: "netip \<Rightarrow> bytes \<Rightarrow> packet_error + FlowKey" where
  "ParseFlow N packet =
     (if length packet < 1 then Inl ErrPacketTooShort
      else if drop_bit 4 (packet ! 0) = 4 then parseIPv4Flow N packet
      else if drop_bit 4 (packet ! 0) = 6 then parseIPv6Flow N packet
      else Inl ErrUnsupportedIP)"

definition extractIPv4UDPPayload :: "netip \<Rightarrow> bytes \<Rightarrow> packet_error + FlowKey \<times> bytes" where
  "extractIPv4UDPPayload N packet =
     (case parseIPv4Flow N packet of
        Inl e \<Rightarrow> Inl e
      | Inr flow \<Rightarrow>
          if fkTransport flow \<noteq> TransportUDP then Inl ErrUnsupportedProtocol
          else
            let ihl = ipv4HeaderLen packet
            in if length packet < ihl + 8 then Inl ErrPacketTooShort
               else
                 let udpLen = unat (get_u16 (gslice (ihl + 4) (ihl + 6) packet))
                 in if udpLen < 8 \<or> length packet < ihl + udpLen then Inl ErrPacketTooShort
                    else Inr (flow, gslice (ihl + 8) (ihl + udpLen) packet))"

definition extractIPv6UDPPayload :: "netip \<Rightarrow> bytes \<Rightarrow> packet_error + FlowKey \<times> bytes" where
  "extractIPv6UDPPayload N packet =
     (case parseIPv6Flow N packet of
        Inl e \<Rightarrow> Inl e
      | Inr flow \<Rightarrow>
          if fkTransport flow \<noteq> TransportUDP then Inl ErrUnsupportedProtocol
          else if length packet < 48 then Inl ErrPacketTooShort
          else
            let udpLen = unat (get_u16 (gslice 44 46 packet))
            in if udpLen < 8 \<or> length packet < 40 + udpLen then Inl ErrPacketTooShort
               else Inr (flow, gslice 48 (40 + udpLen) packet))"

definition ExtractUDPPayload :: "netip \<Rightarrow> bytes \<Rightarrow> packet_error + FlowKey \<times> bytes" where
  "ExtractUDPPayload N packet =
     (if length packet < 1 then Inl ErrPacketTooShort
      else if drop_bit 4 (packet ! 0) = 4 then extractIPv4UDPPayload N packet
      else if drop_bit 4 (packet ! 0) = 6 then extractIPv6UDPPayload N packet
      else Inl ErrUnsupportedIP)"

section \<open>Checksums\<close>

definition udpProtocol :: nat where "udpProtocol = 17"

fun checksumBytes :: "u32 \<Rightarrow> bytes \<Rightarrow> u32" where
  "checksumBytes acc (a # b # data) = checksumBytes (acc + ucast (get_u16 [a, b])) data"
| "checksumBytes acc [a] = acc + push_bit 8 (ucast a)"
| "checksumBytes acc [] = acc"

function finishChecksum :: "u32 \<Rightarrow> u16" where
  "finishChecksum acc =
     (if acc > 0xffff then finishChecksum ((acc AND 0xffff) + drop_bit 16 acc) else NOT (ucast acc))"
  by auto

lemma fold_carry:
  fixes x :: u32
  shows "unat ((x AND 0xffff) + drop_bit 16 x) = unat x mod 65536 + unat x div 65536"
proof -
  have "x AND 0xffff = take_bit 16 x" by (simp add: take_bit_eq_mask mask_eq_exp_minus_1)
  moreover have "unat (take_bit 16 x) = take_bit 16 (unat x)" by (rule unsigned_take_bit_eq)
  ultimately have lo: "unat (x AND 0xffff) = unat x mod 65536" by (simp only: take_bit_nat_def) simp
  have hi: "unat (drop_bit 16 x) = unat x div 65536"
    unfolding unat_drop_bit_eq by (simp add: drop_bit_eq_div)
  have "unat x < 4294967296" using unsigned_less [of x] by simp
  then have "unat x div 65536 < 65536" by simp
  moreover have "unat x mod 65536 < 65536" by simp
  ultimately have "unat x mod 65536 + unat x div 65536 < 4294967296" by simp
  then show ?thesis by (simp add: unat_word_ariths lo hi)
qed

termination finishChecksum
proof (relation "measure unat")
  fix x :: u32
  assume "0xffff < x"
  then have "0xffff < unat x" by (simp add: word_less_nat_alt)
  then have "0 < unat x div 65536" by simp
  then have "unat x mod 65536 + unat x div 65536 < unat x"
    using div_mult_mod_eq [of "unat x" 65536] by linarith
  then show "((x AND 0xffff) + drop_bit 16 x, x) \<in> measure unat" by (simp only: in_measure fold_carry)
qed simp

declare finishChecksum.simps [simp del]

definition internetChecksum :: "bytes \<Rightarrow> u16" where
  "internetChecksum data = finishChecksum (checksumBytes 0 data)"

definition udpChecksumIPv4 :: "Addr \<Rightarrow> Addr \<Rightarrow> bytes \<Rightarrow> u16" where
  "udpChecksumIPv4 src dst udp =
     (let acc = checksumBytes 0 (Addr_AsSlice src);
          acc = checksumBytes acc (Addr_AsSlice dst);
          acc = acc + of_nat udpProtocol;
          acc = acc + of_nat (length udp)
      in finishChecksum (checksumBytes acc udp))"

definition udpChecksumIPv6 :: "Addr \<Rightarrow> Addr \<Rightarrow> bytes \<Rightarrow> u16" where
  "udpChecksumIPv6 src dst udp =
     (let acc = checksumBytes 0 (Addr_AsSlice src);
          acc = checksumBytes acc (Addr_AsSlice dst);
          acc = acc + (of_nat (drop_bit 16 (length udp)) + of_nat (length udp AND 0xffff));
          acc = acc + of_nat udpProtocol
      in finishChecksum (checksumBytes acc udp))"

section \<open>Building\<close>

text \<open>The eight header bytes, with the checksum still zero, and the payload.\<close>

definition writeUDPHeader :: "u16 \<Rightarrow> u16 \<Rightarrow> bytes \<Rightarrow> bytes" where
  "writeUDPHeader srcPort dstPort payload =
     put_u16 srcPort @ put_u16 dstPort @ put_u16 (of_nat (8 + length payload)) @ [0, 0] @ payload"

text \<open>\<open>binary.BigEndian.PutUint16\<close> into a packet at an offset.\<close>

definition putU16At :: "nat \<Rightarrow> u16 \<Rightarrow> bytes \<Rightarrow> bytes" where
  "putU16At k v packet = take k packet @ put_u16 v @ drop (k + 2) packet"

definition buildIPv4UDPPacket :: "AddrPort \<Rightarrow> AddrPort \<Rightarrow> bytes \<Rightarrow> packet_error + bytes" where
  "buildIPv4UDPPacket src dst payload =
     (if \<not> Addr_Is4 (apAddr src) \<or> \<not> Addr_Is4 (apAddr dst) then Inl ErrFamiliesDiffer
      else
        let totalLen = 20 + 8 + length payload
        in if totalLen > 0xffff then Inl ErrPacketTooLarge
           else
             let header = [0x45, 0] @ put_u16 (of_nat totalLen) @ [0, 0, 0, 0] @ [64, of_nat udpProtocol] @
                          [0, 0] @ Addr_AsSlice (apAddr src) @ Addr_AsSlice (apAddr dst);
                 header = putU16At 10 (internetChecksum header) header;
                 udp = writeUDPHeader (apPort src) (apPort dst) payload;
                 checksum = udpChecksumIPv4 (apAddr src) (apAddr dst) udp;
                 checksum = (if checksum = 0 then 0xffff else checksum)
             in Inr (header @ putU16At 6 checksum udp))"

definition buildIPv6UDPPacket :: "AddrPort \<Rightarrow> AddrPort \<Rightarrow> bytes \<Rightarrow> packet_error + bytes" where
  "buildIPv6UDPPacket src dst payload =
     (if \<not> Addr_Is6 (apAddr src) \<or> \<not> Addr_Is6 (apAddr dst) then Inl ErrFamiliesDiffer
      else
        let udpLen = 8 + length payload
        in if udpLen > 0xffff then Inl ErrPacketTooLarge
           else
             let header = [0x60, 0, 0, 0] @ put_u16 (of_nat udpLen) @ [of_nat udpProtocol, 64] @
                          Addr_AsSlice (apAddr src) @ Addr_AsSlice (apAddr dst);
                 udp = writeUDPHeader (apPort src) (apPort dst) payload;
                 checksum = udpChecksumIPv6 (apAddr src) (apAddr dst) udp;
                 checksum = (if checksum = 0 then 0xffff else checksum)
             in Inr (header @ putU16At 6 checksum udp))"

definition buildUDPPacket :: "AddrPort \<Rightarrow> AddrPort \<Rightarrow> bytes \<Rightarrow> packet_error + bytes" where
  "buildUDPPacket src dst payload =
     (if Addr_Is4 (apAddr src) \<and> Addr_Is4 (apAddr dst) then buildIPv4UDPPacket src dst payload
      else if Addr_Is6 (apAddr src) \<and> Addr_Is6 (apAddr dst) then buildIPv6UDPPacket src dst payload
      else Inl ErrFamiliesDiffer)"


section \<open>What checksums compute\<close>

text \<open>The sum of the big-endian 16-bit words, and its ones' complement reduction.\<close>

fun wordSum :: "bytes \<Rightarrow> nat" where
  "wordSum (a # b # data) = 256 * unat a + unat b + wordSum data"
| "wordSum [a] = 256 * unat a"
| "wordSum [] = 0"

definition reduced :: "nat \<Rightarrow> nat" where
  "reduced n = (if n = 0 then 0 else (n - 1) mod 65535 + 1)"

lemma reduced_cong:
  assumes "0 < n" and "0 < m" and "n mod 65535 = m mod 65535"
  shows "reduced n = reduced m"
proof -
  obtain q1 q2 where "n + 65535 * q1 = m + 65535 * q2" using assms(3) by (auto simp: nat_mod_eq_iff)
  then have "(n - 1) + 65535 * q1 = (m - 1) + 65535 * q2" using assms(1,2) by linarith
  then have "(n - 1) mod 65535 = (m - 1) mod 65535" using nat_mod_eq_iff by blast
  then show ?thesis using assms by (simp add: reduced_def)
qed

lemma unat_pair: "unat (ucast (get_u16 [a, b] :: u16) :: u32) = 256 * unat a + unat b"
proof -
  have ab: "unat a < 256" "unat b < 256" using unsigned_less [of a] unsigned_less [of b] by simp_all
  have "push_bit 8 (ucast a) AND ucast b = (0 :: u16)" by (rule bit_word_eqI) (auto simp: bit_simps dest: bit_imp_le_length)
  then have "(get_u16 [a, b] :: u16) = push_bit 8 (ucast a) + ucast b"
    by (simp add: be_word_def disjunctive_add_eq_or)
  also have "push_bit 8 (ucast a) = (256 :: u16) * ucast a" by (simp add: push_bit_eq_mult)
  finally have "unat (get_u16 [a, b] :: u16) = 256 * unat a + unat b"
    using ab by (simp add: unat_word_ariths unsigned_ucast_eq take_bit_nat_eq_self)
  then show ?thesis using ab by (simp add: unsigned_ucast_eq take_bit_nat_eq_self)
qed

lemma checksumBytes_sum:
  "unat s + wordSum data < 2 ^ 32 \<Longrightarrow> unat (checksumBytes s data) = unat s + wordSum data"
proof (induction s data rule: checksumBytes.induct)
  case (1 s a b data)
  then have "unat (s + ucast (get_u16 [a, b] :: u16)) = unat s + (256 * unat a + unat b)"
    by (simp add: unat_word_ariths unat_pair)
  then show ?case using 1 by simp
next
  case (2 s a)
  have "unat a < 256" using unsigned_less [of a] by simp
  then have "unat (push_bit 8 (ucast a :: u32)) = 256 * unat a"
    by (simp add: push_bit_eq_mult unat_word_ariths unsigned_ucast_eq take_bit_nat_eq_self)
  then show ?case using 2 by (simp add: unat_word_ariths)
qed simp

lemma unat_not_u16: "unat (NOT (y :: u16)) = 65535 - unat y"
proof -
  have "int (unat (NOT y)) = take_bit 16 (NOT (uint y))" by (simp add: unsigned_not_eq)
  also have "\<dots> = mask 16 - take_bit 16 (uint y)" by (rule take_bit_not_eq_mask_diff)
  also have "take_bit 16 (uint y) = int (unat y)" by (subst bintr_uint) simp_all
  finally have "int (unat (NOT y)) = 65535 - int (unat y)" by (simp add: mask_eq_exp_minus_1)
  then show ?thesis by linarith
qed

lemma finishChecksum_reduced: "unat (finishChecksum x) = 65535 - reduced (unat x)"
proof (induction x rule: finishChecksum.induct)
  case (1 x)
  show ?case
  proof (cases "0xffff < x")
    case True
    then have x: "0xffff < unat x" by (simp add: word_less_nat_alt)
    have "unat x = (unat x mod 65536 + unat x div 65536) + 65535 * (unat x div 65536)"
      using div_mult_mod_eq [of "unat x" 65536] by linarith
    then have m: "(unat x mod 65536 + unat x div 65536) mod 65535 = unat x mod 65535"
      by (metis mod_mult_self2)
    have "0 < unat x div 65536" using x by simp
    then have "reduced (unat x mod 65536 + unat x div 65536) = reduced (unat x)"
      using x m by (intro reduced_cong) auto
    then show ?thesis using 1 True fold_carry [of x] by (simp add: finishChecksum.simps [of x])
  next
    case False
    then have "unat x \<le> 65535" by (simp add: word_less_nat_alt not_less)
    moreover have "unat (ucast x :: u16) = unat x"
      using calculation by (simp add: unsigned_ucast_eq take_bit_nat_eq_self)
    ultimately show ?thesis using False
      by (simp add: finishChecksum.simps [of x] unat_not_u16 reduced_def)
  qed
qed


lemma unat_byte: "unat (a :: byte) < 256" using unsigned_less [where 'a = nat, of a] by simp
lemma unat_u16: "unat (w :: u16) < 65536" using unsigned_less [where 'a = nat, of w] by simp

lemma wordSum_append: "even (length xs) \<Longrightarrow> wordSum (xs @ ys) = wordSum xs + wordSum ys"
  by (induction xs rule: wordSum.induct) auto

lemma wordSum_bound: "2 * wordSum xs \<le> 65535 * (length xs + 1)"
proof (induction xs rule: wordSum.induct)
  case (1 a b data)
  then show ?case using unat_byte [of a] unat_byte [of b] by simp
next
  case (2 a) then show ?case using unat_byte [of a] by simp
qed simp

lemma wordSum_le: "length xs \<le> n \<Longrightarrow> 2 * wordSum xs \<le> 65535 * (n + 1)"
  by (rule order_trans [OF wordSum_bound]) simp

lemma wordSum_put [simp]: "wordSum (put_u16 w) = unat w"
proof -
  have e: "put_u16 w = [ucast (drop_bit 8 w), ucast w]" by (simp add: numeral_2_eq_2)
  have "get_u16 (put_u16 w) = w" by (rule get_put_u16)
  moreover have "unat (get_u16 (put_u16 w) :: u16) < 65536" using unsigned_less [of "get_u16 (put_u16 w) :: u16"] by simp
  ultimately have "unat (ucast w :: u32) = wordSum (put_u16 w)"
    using unat_pair [of "ucast (drop_bit 8 w)" "ucast w"] by (simp add: e)
  moreover have "unat (ucast w :: u32) = unat w"
    using unat_u16 [of w] by (simp add: unsigned_ucast_eq take_bit_nat_eq_self)
  ultimately show ?thesis by simp
qed

lemma length_put [simp]: "length (put_u16 w) = 2" by (simp add: numeral_2_eq_2)

text \<open>
  Filling in the checksum makes the whole sum reduce to \<open>0xffff\<close>, also when a zero checksum is
  replaced.
\<close>

lemma reduced_le: "reduced n \<le> 65535"
proof -
  have "(n - 1) mod 65535 < 65535" by (rule mod_less_divisor) simp
  then show ?thesis by (cases "n = 0") (simp_all add: reduced_def Suc_le_eq)
qed

lemma reduced_filled: "reduced (s + (65535 - reduced s)) = 65535"
proof -
  have r: "reduced s \<le> 65535" by (simp add: reduced_le)
  have m: "s mod 65535 = reduced s mod 65535"
  proof (cases s)
    case (Suc n)
    then show ?thesis using mod_Suc_eq [of n 65535] by (simp add: reduced_def)
  qed (simp add: reduced_def)
  have "(s + (65535 - reduced s)) mod 65535 = (reduced s + (65535 - reduced s)) mod 65535"
    using m mod_add_cong by blast
  then have "(s + (65535 - reduced s)) mod 65535 = 65535 mod 65535" using r by simp
  moreover have "0 < s + (65535 - reduced s)" by (cases "s = 0") (auto simp: reduced_def)
  ultimately have "reduced (s + (65535 - reduced s)) = reduced 65535" by (intro reduced_cong) auto
  then show ?thesis by (simp add: reduced_def)
qed

lemma reduced_wrapped: "reduced s = 65535 \<Longrightarrow> reduced (s + 65535) = 65535"
  using reduced_cong [of "s + 65535" s] by (cases "s = 0") (auto simp: reduced_def)

lemma finish_zero_iff: "finishChecksum x = 0 \<longleftrightarrow> reduced (unat x) = 65535"
proof -
  have "reduced (unat x) \<le> 65535" by (rule reduced_le)
  then show ?thesis using finishChecksum_reduced [of x] unat_eq_zero [of "finishChecksum x"] by auto
qed


section \<open>The packets that are built\<close>

lemma as_slice_len: "wf_addr a \<Longrightarrow> Addr_Is4 a \<Longrightarrow> length (Addr_AsSlice a) = 4"
    "wf_addr a \<Longrightarrow> Addr_Is6 a \<Longrightarrow> length (Addr_AsSlice a) = 16"
  by (cases a; simp)+

definition ipv4Header :: "nat \<Rightarrow> bytes \<Rightarrow> bytes \<Rightarrow> u16 \<Rightarrow> bytes" where
  "ipv4Header totalLen s d c =
     [0x45, 0] @ put_u16 (of_nat totalLen) @ [0, 0, 0, 0] @ [64, 17] @ put_u16 c @ s @ d"

definition ipv6Header :: "nat \<Rightarrow> bytes \<Rightarrow> bytes \<Rightarrow> bytes" where
  "ipv6Header udpLen s d = [0x60, 0, 0, 0] @ put_u16 (of_nat udpLen) @ [17, 64] @ s @ d"

definition udpDatagram :: "u16 \<Rightarrow> u16 \<Rightarrow> u16 \<Rightarrow> bytes \<Rightarrow> bytes" where
  "udpDatagram sp dp c payload =
     put_u16 sp @ put_u16 dp @ put_u16 (of_nat (8 + length payload)) @ put_u16 c @ payload"

lemma put_zero: "put_u16 0 = [0, 0]" by (simp add: numeral_2_eq_2)

lemma writeUDPHeader_eq: "writeUDPHeader sp dp payload = udpDatagram sp dp 0 payload"
  by (simp add: writeUDPHeader_def udpDatagram_def put_zero)

lemma fill_udp: "putU16At 6 c (udpDatagram sp dp 0 payload) = udpDatagram sp dp c payload"
  by (simp add: putU16At_def udpDatagram_def put_zero)

lemma zero_ipv4:
  "[0x45, 0] @ put_u16 (of_nat n) @ [0, 0, 0, 0] @ [64, of_nat udpProtocol] @ [0, 0] @ s @ d = ipv4Header n s d 0"
  by (simp add: ipv4Header_def udpProtocol_def put_zero)

lemma fill_ipv4: "putU16At 10 c (ipv4Header n s d 0) = ipv4Header n s d c"
  by (simp add: putU16At_def ipv4Header_def put_zero)

lemma head_ipv6:
  "[0x60, 0, 0, 0] @ put_u16 (of_nat n) @ [of_nat udpProtocol, 64] @ s @ d = ipv6Header n s d"
  by (simp add: ipv6Header_def udpProtocol_def)

lemma buildIPv4_eq:
  "buildIPv4UDPPacket src dst payload =
     (if \<not> Addr_Is4 (apAddr src) \<or> \<not> Addr_Is4 (apAddr dst) then Inl ErrFamiliesDiffer
      else if 65507 < length payload then Inl ErrPacketTooLarge
      else Inr (ipv4Header (28 + length payload) (Addr_AsSlice (apAddr src)) (Addr_AsSlice (apAddr dst))
             (internetChecksum (ipv4Header (28 + length payload) (Addr_AsSlice (apAddr src)) (Addr_AsSlice (apAddr dst)) 0)) @
           (let k = udpChecksumIPv4 (apAddr src) (apAddr dst) (udpDatagram (apPort src) (apPort dst) 0 payload)
            in udpDatagram (apPort src) (apPort dst) (if k = 0 then 0xffff else k) payload)))"
  unfolding buildIPv4UDPPacket_def Let_def writeUDPHeader_eq fill_udp zero_ipv4 fill_ipv4 by simp

lemma buildIPv6_eq:
  "buildIPv6UDPPacket src dst payload =
     (if \<not> Addr_Is6 (apAddr src) \<or> \<not> Addr_Is6 (apAddr dst) then Inl ErrFamiliesDiffer
      else if 65527 < length payload then Inl ErrPacketTooLarge
      else Inr (ipv6Header (8 + length payload) (Addr_AsSlice (apAddr src)) (Addr_AsSlice (apAddr dst)) @
           (let k = udpChecksumIPv6 (apAddr src) (apAddr dst) (udpDatagram (apPort src) (apPort dst) 0 payload)
            in udpDatagram (apPort src) (apPort dst) (if k = 0 then 0xffff else k) payload)))"
  unfolding buildIPv6UDPPacket_def Let_def writeUDPHeader_eq fill_udp head_ipv6 by simp

lemma wordSum_udp:
  "wordSum (udpDatagram sp dp c payload) = wordSum (udpDatagram sp dp 0 payload) + unat c"
  by (simp add: udpDatagram_def wordSum_append)

lemma length_udp: "length (udpDatagram sp dp c payload) = 8 + length payload"
  by (simp add: udpDatagram_def)

text \<open>The sum over the pseudo header and the datagram does not overflow.\<close>

lemma udp_sum:
  assumes "length s \<le> 16" and "length d \<le> 16" and "length udp \<le> 65535"
  shows "unat (checksumBytes (checksumBytes (checksumBytes 0 s) d + of_nat udpProtocol + of_nat (length udp)) udp) =
      wordSum s + wordSum d + 17 + length udp + wordSum udp"
    "unat (checksumBytes (checksumBytes (checksumBytes 0 s) d +
        (of_nat (drop_bit 16 (length udp)) + of_nat (length udp AND 0xffff)) + of_nat udpProtocol) udp) =
      wordSum s + wordSum d + 17 + length udp + wordSum udp"
proof -
  have "wordSum s \<le> 557048" using wordSum_le [OF assms(1)] by simp
  moreover have "wordSum d \<le> 557048" using wordSum_le [OF assms(2)] by simp
  moreover have "wordSum udp \<le> 2147450880" using wordSum_le [OF assms(3)] by simp
  ultimately have b: "wordSum s \<le> 557048" "wordSum d \<le> 557048" "wordSum udp \<le> 2147450880" by simp_all
  have sd: "unat (checksumBytes (checksumBytes 0 s) d) = wordSum s + wordSum d"
    using b by (simp add: checksumBytes_sum)
  have 1: "unat (checksumBytes (checksumBytes 0 s) d + of_nat udpProtocol + of_nat (length udp)) =
      wordSum s + wordSum d + 17 + length udp"
    using b assms by (simp add: unat_word_ariths sd udpProtocol_def unat_of_nat)
  then show "unat (checksumBytes (checksumBytes (checksumBytes 0 s) d + of_nat udpProtocol + of_nat (length udp)) udp) =
      wordSum s + wordSum d + 17 + length udp + wordSum udp"
    using b assms by (subst checksumBytes_sum) simp_all
  have "length udp AND 0xffff = take_bit 16 (length udp)" by (simp add: take_bit_eq_mask mask_eq_exp_minus_1)
  also have "\<dots> = length udp" using assms(3) by (intro take_bit_nat_eq_self) simp
  finally have "length udp AND 0xffff = length udp" .
  moreover have "drop_bit 16 (length udp) = 0" using assms(3) by (simp add: drop_bit_eq_div)
  ultimately show "unat (checksumBytes (checksumBytes (checksumBytes 0 s) d +
        (of_nat (drop_bit 16 (length udp)) + of_nat (length udp AND 0xffff)) + of_nat udpProtocol) udp) =
      wordSum s + wordSum d + 17 + length udp + wordSum udp"
    using 1 b assms by (subst checksumBytes_sum) (simp_all add: add.commute add.left_commute)
qed

text \<open>What the builder does with a checksum, and what the receiver finds.\<close>

lemma checksum_fills:
  fixes x :: "u16 \<Rightarrow> u32"
  assumes x: "\<And>c. unat (x c) = s + unat c" and c: "c = (if finishChecksum (x 0) = 0 then 0xffff else finishChecksum (x 0))"
  shows "finishChecksum (x c) = 0" and "c \<noteq> 0"
proof -
  have s: "unat (x 0) = s" using x by simp
  show "c \<noteq> 0" using c by simp
  show "finishChecksum (x c) = 0"
  proof (cases "finishChecksum (x 0) = 0")
    case True
    then have "reduced s = 65535" "unat c = 65535" using finish_zero_iff [of "x 0"] s c by simp_all
    then show ?thesis using reduced_wrapped [of s] x by (simp add: finish_zero_iff)
  next
    case False
    then have "unat c = 65535 - reduced s" using c s by (simp add: finishChecksum_reduced)
    then show ?thesis using reduced_filled [of s] x by (simp add: finish_zero_iff)
  qed
qed

lemma header_checksum_zero:
  assumes "length s = 4" and "length d = 4"
  shows "internetChecksum (ipv4Header n s d (internetChecksum (ipv4Header n s d 0))) = 0"
proof -
  have w: "wordSum (ipv4Header n s d c) = wordSum (ipv4Header n s d 0) + unat c" for c
    by (simp add: ipv4Header_def wordSum_append)
  have l: "length (ipv4Header n s d c) = 20" for c using assms by (simp add: ipv4Header_def)
  have b: "wordSum (ipv4Header n s d c) < 2 ^ 32" for c using wordSum_bound [of "ipv4Header n s d c"] l [of c] by simp
  have x: "unat (checksumBytes 0 (ipv4Header n s d c)) = wordSum (ipv4Header n s d 0) + unat c" for c
    using b [of c] checksumBytes_sum [of 0 "ipv4Header n s d c"] w [of c] by simp
  let ?c = "finishChecksum (checksumBytes 0 (ipv4Header n s d 0))"
  have "unat ?c = 65535 - reduced (wordSum (ipv4Header n s d 0))" using x [of 0] by (simp add: finishChecksum_reduced)
  then show ?thesis using x [of ?c] reduced_filled [of "wordSum (ipv4Header n s d 0)"]
    by (simp add: internetChecksum_def finish_zero_iff)
qed


lemma build4_form:
  assumes "buildIPv4UDPPacket src dst payload = Inr pkt" and "wf_addr (apAddr src)" and "wf_addr (apAddr dst)"
  shows "\<exists>h c. pkt = ipv4Header (28 + length payload) (Addr_AsSlice (apAddr src)) (Addr_AsSlice (apAddr dst)) h @
      udpDatagram (apPort src) (apPort dst) c payload \<and> c \<noteq> 0 \<and> length payload \<le> 65507 \<and>
    internetChecksum (ipv4Header (28 + length payload) (Addr_AsSlice (apAddr src)) (Addr_AsSlice (apAddr dst)) h) = 0 \<and>
    udpChecksumIPv4 (apAddr src) (apAddr dst) (udpDatagram (apPort src) (apPort dst) c payload) = 0"
proof -
  let ?u = "\<lambda>c. udpDatagram (apPort src) (apPort dst) c payload"
  let ?s = "Addr_AsSlice (apAddr src)" and ?d = "Addr_AsSlice (apAddr dst)"
  have g: "Addr_Is4 (apAddr src)" "Addr_Is4 (apAddr dst)" "length payload \<le> 65507"
    using assms(1) by (auto simp: buildIPv4_eq split: if_splits)
  have l: "length ?s = 4" "length ?d = 4" using as_slice_len(1) assms(2,3) g by simp_all
  define x where "x c = checksumBytes (checksumBytes (checksumBytes 0 ?s) ?d + of_nat udpProtocol + of_nat (length (?u c))) (?u c)" for c
  have u: "udpChecksumIPv4 (apAddr src) (apAddr dst) (?u c) = finishChecksum (x c)" for c
    by (simp add: udpChecksumIPv4_def x_def Let_def)
  have xs: "unat (x c) = (wordSum ?s + wordSum ?d + 17 + (8 + length payload) + wordSum (?u 0)) + unat c" for c
    unfolding x_def using udp_sum(1) [of ?s ?d "?u c"] l g(3) wordSum_udp [of "apPort src" "apPort dst" c payload]
    by (simp add: length_udp)
  obtain c where c: "c = (if finishChecksum (x 0) = 0 then 0xffff else finishChecksum (x 0))" by simp
  note fc = checksum_fills [OF xs c]
  have "pkt = ipv4Header (28 + length payload) ?s ?d (internetChecksum (ipv4Header (28 + length payload) ?s ?d 0)) @ ?u c"
    using assms(1) g by (simp add: buildIPv4_eq u Let_def c)
  moreover have "udpChecksumIPv4 (apAddr src) (apAddr dst) (?u c) = 0" by (simp add: u fc(1))
  ultimately show ?thesis using fc(2) header_checksum_zero [OF l] g(3) by blast
qed

lemma build6_form:
  assumes "buildIPv6UDPPacket src dst payload = Inr pkt" and "wf_addr (apAddr src)" and "wf_addr (apAddr dst)"
  shows "\<exists>c. pkt = ipv6Header (8 + length payload) (Addr_AsSlice (apAddr src)) (Addr_AsSlice (apAddr dst)) @
      udpDatagram (apPort src) (apPort dst) c payload \<and> c \<noteq> 0 \<and> length payload \<le> 65527 \<and>
    udpChecksumIPv6 (apAddr src) (apAddr dst) (udpDatagram (apPort src) (apPort dst) c payload) = 0"
proof -
  let ?u = "\<lambda>c. udpDatagram (apPort src) (apPort dst) c payload"
  let ?s = "Addr_AsSlice (apAddr src)" and ?d = "Addr_AsSlice (apAddr dst)"
  have g: "Addr_Is6 (apAddr src)" "Addr_Is6 (apAddr dst)" "length payload \<le> 65527"
    using assms(1) by (auto simp: buildIPv6_eq split: if_splits)
  have l: "length ?s = 16" "length ?d = 16" using as_slice_len(2) assms(2,3) g by simp_all
  define x where "x c = checksumBytes (checksumBytes (checksumBytes 0 ?s) ?d +
      (of_nat (drop_bit 16 (length (?u c))) + of_nat (length (?u c) AND 0xffff)) + of_nat udpProtocol) (?u c)" for c
  have u: "udpChecksumIPv6 (apAddr src) (apAddr dst) (?u c) = finishChecksum (x c)" for c
    by (simp add: udpChecksumIPv6_def x_def Let_def)
  have xs: "unat (x c) = (wordSum ?s + wordSum ?d + 17 + (8 + length payload) + wordSum (?u 0)) + unat c" for c
    unfolding x_def using udp_sum(2) [of ?s ?d "?u c"] l g(3) wordSum_udp [of "apPort src" "apPort dst" c payload]
    by (simp add: length_udp)
  obtain c where c: "c = (if finishChecksum (x 0) = 0 then 0xffff else finishChecksum (x 0))" by simp
  note fc = checksum_fills [OF xs c]
  have "pkt = ipv6Header (8 + length payload) ?s ?d @ ?u c"
    using assms(1) g by (simp add: buildIPv6_eq u Let_def c)
  moreover have "udpChecksumIPv6 (apAddr src) (apAddr dst) (?u c) = 0" by (simp add: u fc(1))
  ultimately show ?thesis using fc(2) g(3) by blast
qed

section \<open>Properties\<close>

text \<open>The address as a parser gives it back: the zone does not travel.\<close>

definition withoutZone :: "Addr \<Rightarrow> Addr" where
  "withoutZone a = (case a of Addr6 b _ \<Rightarrow> Addr6 b [] | _ \<Rightarrow> a)"

lemma extract4:
  assumes "length s = 4" and "length d = 4" and "length payload \<le> 65507"
    and "pkt = ipv4Header (28 + length payload) s d h @ udpDatagram sp dp c payload"
    and flow_def: "flow = \<lparr>fkTransport = TransportUDP, fkLocalIP = addrText N (Addr4 s), fkLocalPort = sp,
      fkRemoteIP = addrText N (Addr4 d), fkRemotePort = dp\<rparr>"
  shows "ParseFlow N pkt = Inr flow \<and> ExtractUDPPayload N pkt = Inr (flow, payload)"
proof -
  have n: "unat (of_nat (8 + length payload) :: u16) = 8 + length payload"
    using assms(3) by (intro unat_of_nat_u16) simp
  have f: "pkt ! 0 = 0x45" "pkt ! 9 = 17" "length pkt = 28 + length payload"
    "gslice 12 16 pkt = s" "gslice 16 20 pkt = d" "gslice 20 22 pkt = put_u16 sp" "gslice 22 24 pkt = put_u16 dp"
    "gslice 24 26 pkt = put_u16 (of_nat (8 + length payload))" "gslice 28 (28 + length payload) pkt = payload"
    using assms(1,2) unfolding assms(4)
    by (simp_all add: ipv4Header_def udpDatagram_def gslice_def nth_append nth_Cons')
  have p: "parseIPv4Flow N pkt = Inr flow"
    using f by (simp add: parseIPv4Flow_def ipv4HeaderLen_def transportFromIPProtocol_def flow_def TransportUDP_def
        TransportTCP_def Let_def)
  have "extractIPv4UDPPayload N pkt = Inr (flow, payload)"
    using f n by (simp add: extractIPv4UDPPayload_def p ipv4HeaderLen_def flow_def Let_def)
  then show ?thesis using p f by (simp add: ParseFlow_def ExtractUDPPayload_def)
qed

lemma extract6:
  assumes "length s = 16" and "length d = 16" and "length payload \<le> 65527"
    and "pkt = ipv6Header (8 + length payload) s d @ udpDatagram sp dp c payload"
    and flow_def: "flow = \<lparr>fkTransport = TransportUDP, fkLocalIP = addrText N (Addr6 s []), fkLocalPort = sp,
      fkRemoteIP = addrText N (Addr6 d []), fkRemotePort = dp\<rparr>"
  shows "ParseFlow N pkt = Inr flow \<and> ExtractUDPPayload N pkt = Inr (flow, payload)"
proof -
  have n: "unat (of_nat (8 + length payload) :: u16) = 8 + length payload"
    using assms(3) by (intro unat_of_nat_u16) simp
  have f: "pkt ! 0 = 0x60" "pkt ! 6 = 17" "length pkt = 48 + length payload"
    "gslice 8 24 pkt = s" "gslice 24 40 pkt = d" "gslice 40 42 pkt = put_u16 sp" "gslice 42 44 pkt = put_u16 dp"
    "gslice 44 46 pkt = put_u16 (of_nat (8 + length payload))" "gslice 48 (48 + length payload) pkt = payload"
    using assms(1,2) unfolding assms(4)
    by (simp_all add: ipv6Header_def udpDatagram_def gslice_def nth_append nth_Cons')
  have p: "parseIPv6Flow N pkt = Inr flow"
    using f by (simp add: parseIPv6Flow_def transportFromIPProtocol_def flow_def TransportUDP_def TransportTCP_def)
  have "extractIPv6UDPPayload N pkt = Inr (flow, payload)"
    using f n by (simp add: extractIPv6UDPPayload_def p flow_def Let_def)
  then show ?thesis using p f by (simp add: ParseFlow_def ExtractUDPPayload_def)
qed

text \<open>The flow a parser reads from a packet between two endpoints.\<close>

definition flowBetween :: "netip \<Rightarrow> AddrPort \<Rightarrow> AddrPort \<Rightarrow> FlowKey" where
  "flowBetween N src dst = \<lparr>fkTransport = TransportUDP,
     fkLocalIP = addrText N (withoutZone (apAddr src)), fkLocalPort = apPort src,
     fkRemoteIP = addrText N (withoutZone (apAddr dst)), fkRemotePort = apPort dst\<rparr>"

lemma parse_built:
  assumes "wf_addr (apAddr src)" and "wf_addr (apAddr dst)" and b: "buildUDPPacket src dst payload = Inr pkt"
  shows "ParseFlow N pkt = Inr (flowBetween N src dst) \<and>
    ExtractUDPPayload N pkt = Inr (flowBetween N src dst, payload)"
proof -
  consider (4) "Addr_Is4 (apAddr src)" "Addr_Is4 (apAddr dst)" "buildIPv4UDPPacket src dst payload = Inr pkt"
    | (6) "Addr_Is6 (apAddr src)" "Addr_Is6 (apAddr dst)" "buildIPv6UDPPacket src dst payload = Inr pkt"
    using b by (auto simp: buildUDPPacket_def split: if_splits)
  then show ?thesis
  proof cases
    case 4
    obtain s d where a: "apAddr src = Addr4 s" "apAddr dst = Addr4 d" "length s = 4" "length d = 4"
      using 4(1,2) assms(1,2) by (cases "apAddr src"; cases "apAddr dst") auto
    from build4_form [OF 4(3) assms(1,2)] obtain h c where "length payload \<le> 65507"
      "pkt = ipv4Header (28 + length payload) s d h @ udpDatagram (apPort src) (apPort dst) c payload"
      by (auto simp: a)
    from extract4 [OF a(3,4) this refl] show ?thesis by (simp add: flowBetween_def withoutZone_def a)
  next
    case 6
    obtain s d z y where a: "apAddr src = Addr6 s z" "apAddr dst = Addr6 d y" "length s = 16" "length d = 16"
      using 6(1,2) assms(1,2) by (cases "apAddr src"; cases "apAddr dst") auto
    from build6_form [OF 6(3) assms(1,2)] obtain c where "length payload \<le> 65527"
      "pkt = ipv6Header (8 + length payload) s d @ udpDatagram (apPort src) (apPort dst) c payload"
      by (auto simp: a)
    from extract6 [OF a(3,4) this refl] show ?thesis by (simp add: flowBetween_def withoutZone_def a)
  qed
qed

text \<open>
  Packets round trip. A packet is built exactly for two addresses of one family and a payload that
  fits (65507 bytes for IPv4, 65527 for IPv6); and the pipeline's parser reads from it the same
  endpoints, but for the zones, and the same payload, whatever the checksums are.
\<close>

theorem udp_packet_roundtrip:
  assumes "wf_addr (apAddr src)" and "wf_addr (apAddr dst)"
  shows "((\<exists>pkt. buildUDPPacket src dst payload = Inr pkt) \<longleftrightarrow>
      Addr_Is4 (apAddr src) \<and> Addr_Is4 (apAddr dst) \<and> length payload \<le> 65507 \<or>
      Addr_Is6 (apAddr src) \<and> Addr_Is6 (apAddr dst) \<and> length payload \<le> 65527) \<and>
    (\<forall>pkt. buildUDPPacket src dst payload = Inr pkt \<longrightarrow> ParseFlow N pkt = Inr (flowBetween N src dst) \<and>
      ExtractUDPPayload N pkt = Inr (flowBetween N src dst, payload))"
proof -
  have x: "\<not> (Addr_Is4 a \<and> Addr_Is6 a)" for a by (cases a) auto
  have d: "(\<exists>pkt. buildUDPPacket src dst payload = Inr pkt) \<longleftrightarrow>
      Addr_Is4 (apAddr src) \<and> Addr_Is4 (apAddr dst) \<and> length payload \<le> 65507 \<or>
      Addr_Is6 (apAddr src) \<and> Addr_Is6 (apAddr dst) \<and> length payload \<le> 65527"
    using x by (auto simp: buildUDPPacket_def buildIPv4_eq buildIPv6_eq)
  with d show ?thesis using parse_built [OF assms] by blast
qed

text \<open>
  The checksums verify. In every packet that is built the IPv4 header sums to zero under the
  header checksum, the datagram sums to zero under the checksum with the pseudo header, and the UDP
  checksum on the wire is never zero, which would mean that there is none.
\<close>

theorem udp_checksums_verify:
  assumes "wf_addr (apAddr src)" and "wf_addr (apAddr dst)" and "buildUDPPacket src dst payload = Inr pkt"
  shows "(Addr_Is4 (apAddr src) \<longrightarrow> internetChecksum (take 20 pkt) = 0 \<and>
      udpChecksumIPv4 (apAddr src) (apAddr dst) (drop 20 pkt) = 0 \<and> get_u16 (gslice 26 28 pkt) \<noteq> 0) \<and>
    (Addr_Is6 (apAddr src) \<longrightarrow>
      udpChecksumIPv6 (apAddr src) (apAddr dst) (drop 40 pkt) = 0 \<and> get_u16 (gslice 46 48 pkt) \<noteq> 0)"
proof -
  have x: "\<not> (Addr_Is4 a \<and> Addr_Is6 a)" for a by (cases a) auto
  consider (4) "Addr_Is4 (apAddr src)" "Addr_Is4 (apAddr dst)" "buildIPv4UDPPacket src dst payload = Inr pkt"
    | (6) "Addr_Is6 (apAddr src)" "Addr_Is6 (apAddr dst)" "buildIPv6UDPPacket src dst payload = Inr pkt"
    using assms(3) by (auto simp: buildUDPPacket_def split: if_splits)
  then show ?thesis
  proof cases
    case 4
    let ?s = "Addr_AsSlice (apAddr src)" and ?d = "Addr_AsSlice (apAddr dst)"
    from build4_form [OF 4(3) assms(1,2)] obtain h c where
      p: "pkt = ipv4Header (28 + length payload) ?s ?d h @ udpDatagram (apPort src) (apPort dst) c payload"
      and f: "c \<noteq> 0" "internetChecksum (ipv4Header (28 + length payload) ?s ?d h) = 0"
        "udpChecksumIPv4 (apAddr src) (apAddr dst) (udpDatagram (apPort src) (apPort dst) c payload) = 0"
      by blast
    have l: "length (ipv4Header (28 + length payload) ?s ?d h) = 20"
      using as_slice_len(1) assms(1,2) 4 by (simp add: ipv4Header_def)
    have "gslice 26 28 pkt = put_u16 c" unfolding p gslice_def by (simp add: l udpDatagram_def)
    then show ?thesis using f l x [of "apAddr src"] 4(1) by (simp add: p)
  next
    case 6
    let ?s = "Addr_AsSlice (apAddr src)" and ?d = "Addr_AsSlice (apAddr dst)"
    from build6_form [OF 6(3) assms(1,2)] obtain c where
      p: "pkt = ipv6Header (8 + length payload) ?s ?d @ udpDatagram (apPort src) (apPort dst) c payload"
      and f: "c \<noteq> 0"
        "udpChecksumIPv6 (apAddr src) (apAddr dst) (udpDatagram (apPort src) (apPort dst) c payload) = 0"
      by blast
    have l: "length (ipv6Header (8 + length payload) ?s ?d) = 40"
      using as_slice_len(2) assms(1,2) 6 by (simp add: ipv6Header_def)
    have "gslice 46 48 pkt = put_u16 c" unfolding p gslice_def by (simp add: l udpDatagram_def)
    then show ?thesis using f l x [of "apAddr src"] 6(1) by (simp add: p)
  qed
qed

text \<open>A payload between two IPv4 endpoints; \<open>demo_netip\<close> writes an address as its bytes.\<close>

definition demo_netip :: netip where
  "demo_netip = \<lparr>addrText = (\<lambda>a. map (\<lambda>b. char_of (unat b)) (Addr_AsSlice a)),
     parseAddr = (\<lambda>t. if length t = 4 then Some (Addr4 (map (\<lambda>c. of_nat (of_char c)) t))
                  else if length t = 16 then Some (Addr6 (map (\<lambda>c. of_nat (of_char c)) t) []) else None),
     parsePrefix = (\<lambda>t. None)\<rparr>"

lemma demo_netip_laws: "netip_laws demo_netip"
proof -
  have "of_nat (of_char (char_of (unat b) :: char)) = b" for b :: byte
    using unat_byte [of b] by simp
  then have m: "map ((\<lambda>c. of_nat (of_char c)) \<circ> (\<lambda>b. char_of (unat b))) xs = xs" for xs :: bytes
    by (simp add: comp_def)
  have "parseAddr demo_netip (addrText demo_netip a) = Some a"
    if "a \<noteq> AddrZero" "wf_addr a" "zoneless a" for a
    using that by (cases a) (simp_all add: demo_netip_def m)
  then show ?thesis by (simp add: netip_laws_def)
qed

definition demo_src :: AddrPort where "demo_src = \<lparr>apAddr = Addr4 [10, 0, 0, 1], apPort = 5000\<rparr>"
definition demo_dst :: AddrPort where "demo_dst = \<lparr>apAddr = Addr4 [1, 2, 3, 4], apPort = 53\<rparr>"

definition demo_packet :: bytes where
  "demo_packet = (case buildUDPPacket demo_src demo_dst [7, 8, 9] of Inr p \<Rightarrow> p)"

lemma demo_packet_built: "buildUDPPacket demo_src demo_dst [7, 8, 9] = Inr demo_packet"
  by (simp add: demo_packet_def buildUDPPacket_def buildIPv4_eq demo_src_def demo_dst_def)

theorem udp_packet_roundtrip_witness:
  "ExtractUDPPayload demo_netip demo_packet = Inr (flowBetween demo_netip demo_src demo_dst, [7, 8, 9])"
  using udp_packet_roundtrip [of demo_src demo_dst "[7, 8, 9]" demo_netip] demo_packet_built
  by (simp add: demo_src_def demo_dst_def)

theorem udp_checksums_verify_witness:
  "internetChecksum (take 20 demo_packet) = 0 \<and> length demo_packet = 31"
proof -
  have "length demo_packet = 31"
    by (simp add: demo_packet_def buildUDPPacket_def buildIPv4_eq demo_src_def demo_dst_def ipv4Header_def
        length_udp Let_def)
  then show ?thesis using udp_checksums_verify [OF _ _ demo_packet_built] by (simp add: demo_src_def demo_dst_def)
qed

end
