(* ===== verification/Routing.thy ===== *)
theory Routing
  imports GoStrings Packet "HOL-Library.Product_Lexorder"
begin

text \<open>
  The game routing engine (\<open>internal/routing/profile.go\<close>): profiles that match processes, and the
  decision for a process and a flow.
\<close>

section \<open>Profiles\<close>

text \<open>The policies are strings in the source, and may come from a file.\<close>

definition UDPPolicyAuto :: string where "UDPPolicyAuto = ''auto''"
definition UDPPolicyTGP :: string where "UDPPolicyTGP = ''tgp''"
definition UDPPolicyDirect :: string where "UDPPolicyDirect = ''direct''"
definition UDPPolicyBlock :: string where "UDPPolicyBlock = ''block''"
definition TCPPolicyAuto :: string where "TCPPolicyAuto = ''auto''"
definition TCPPolicyDirect :: string where "TCPPolicyDirect = ''direct''"
definition TCPPolicyBlock :: string where "TCPPolicyBlock = ''block''"

lemmas policy_defs = UDPPolicyAuto_def UDPPolicyTGP_def UDPPolicyDirect_def UDPPolicyBlock_def
  TCPPolicyAuto_def TCPPolicyDirect_def TCPPolicyBlock_def

datatype DecisionKind = DecisionDefault | DecisionGame | DecisionProxy | DecisionDirect | DecisionBlock

record MatchRule =
  mrProcessNames :: "string list"
  mrPaths :: "string list"
  mrPathPrefixes :: "string list"
  mrSHA256 :: "string list"
  mrSteamAppIDs :: "nat list"

record GameProfile =
  gpID :: string
  gpDisplayName :: string
  gpEnabled :: bool
  gpManual :: bool
  gpPriority :: int
  gpMatch :: MatchRule
  gpUDPPolicy :: string
  gpTCPPolicy :: string

record SteamPolicy =
  spEnabled :: bool
  spTrackChildProcesses :: bool
  spAccelerateGameUDP :: bool
  spAccelerateSteamDownloads :: bool

record LauncherPolicy =
  lpSteam :: SteamPolicy

record Engine =
  enProfiles :: "GameProfile list"
  enLaunchers :: LauncherPolicy

record GameDecision =
  gdKind :: DecisionKind
  gdUDPPolicy :: string
  gdTCPPolicy :: string
  gdProfileID :: string
  gdReason :: string

definition defaultUDPPolicy :: "string \<Rightarrow> string" where
  "defaultUDPPolicy policy = (if policy = [] then UDPPolicyTGP else policy)"

definition defaultTCPPolicy :: "string \<Rightarrow> string" where
  "defaultTCPPolicy policy = (if policy = [] then TCPPolicyAuto else policy)"

definition RequiresProcessAttributionForTGP :: "Engine \<Rightarrow> bool" where
  "RequiresProcessAttributionForTGP e =
     (if list_ex (\<lambda>profile. gpEnabled profile \<and> defaultUDPPolicy (gpUDPPolicy profile) = UDPPolicyTGP)
           (enProfiles e) then True
      else spEnabled (lpSteam (enLaunchers e)) \<and> spTrackChildProcesses (lpSteam (enLaunchers e)) \<and>
           spAccelerateGameUDP (lpSteam (enLaunchers e)))"

section \<open>Matching a process\<close>

definition containsFold :: "string list \<Rightarrow> string \<Rightarrow> bool" where
  "containsFold values target = list_ex (\<lambda>value. equalFold value target) values"

definition containsUint32 :: "nat list \<Rightarrow> nat \<Rightarrow> bool" where
  "containsUint32 values target = list_ex (\<lambda>value. value = target) values"

definition normalizePath :: "string \<Rightarrow> string" where
  "normalizePath path =
     (let path = trimSpace path
      in if path = [] then []
         else toLower (cleanPath (map (\<lambda>c. if c = CHR 0x5C then CHR ''/'' else c) path)))"

definition pathEqualsAny :: "string list \<Rightarrow> string \<Rightarrow> bool" where
  "pathEqualsAny values target = list_ex (\<lambda>value. normalizePath value = normalizePath target) values"

definition pathPrefixMatch :: "string \<Rightarrow> string \<Rightarrow> bool" where
  "pathPrefixMatch prefix target =
     (if prefix = [] \<or> target = [] then False
      else if prefix = target then True
      else hasPrefix target (trimSuffix prefix ''/'' @ ''/''))"

definition pathHasPrefixAny :: "string list \<Rightarrow> string \<Rightarrow> bool" where
  "pathHasPrefixAny prefixes target =
     list_ex (\<lambda>prefix. pathPrefixMatch (normalizePath prefix) (normalizePath target)) prefixes"

text \<open>The loop over the command line.\<close>

fun steamArg :: "string list \<Rightarrow> nat option" where
  "steamArg [] = None"
| "steamArg (arg # rest) =
     (case (if equalFold arg ''-steam_appid'' \<and> rest \<noteq> [] then parseUint 32 (hd rest) else None) of
        Some parsed \<Rightarrow> Some parsed
      | None \<Rightarrow>
          (case (if hasPrefix (toLower arg) ''-steam_appid=''
                 then parseUint 32 (trimPrefix (toLower arg) ''-steam_appid='') else None) of
             Some parsed \<Rightarrow> Some parsed
           | None \<Rightarrow> steamArg rest))"

definition steamAppID :: "ProcessInfo \<Rightarrow> nat option" where
  "steamAppID proc =
     (case (case piTags proc ''steam_app_id'' of
              None \<Rightarrow> None | Some raw \<Rightarrow> if raw \<noteq> [] then parseUint 32 raw else None) of
        Some parsed \<Rightarrow> Some parsed
      | None \<Rightarrow> steamArg (piCommandLine proc))"

definition Matches :: "MatchRule \<Rightarrow> ProcessInfo \<Rightarrow> bool" where
  "Matches m proc =
     (if mrProcessNames m \<noteq> [] \<and> containsFold (mrProcessNames m) (piName proc) then True
      else if mrPaths m \<noteq> [] \<and> pathEqualsAny (mrPaths m) (piExecutablePath proc) then True
      else if mrPathPrefixes m \<noteq> [] \<and> pathHasPrefixAny (mrPathPrefixes m) (piExecutablePath proc) then True
      else if mrSHA256 m \<noteq> [] \<and> containsFold (mrSHA256 m) (piSHA256 proc) then True
      else if mrSteamAppIDs m \<noteq> []
      then (case steamAppID proc of None \<Rightarrow> False | Some appID \<Rightarrow> containsUint32 (mrSteamAppIDs m) appID)
      else False)"

definition isSteamGameProcess :: "ProcessInfo \<Rightarrow> bool" where
  "isSteamGameProcess proc =
     (let name = toLower (piName proc)
      in if name = ''steam.exe'' \<or> name = ''steamwebhelper.exe'' \<or> name = ''steamservice.exe'' then False
         else if steamAppID proc \<noteq> None then True
         else if containsStr (normalizePath (piExecutablePath proc)) ''/steamapps/common/'' then True
         else list_ex (\<lambda>ancestor. let ancestorName = toLower (psName ancestor)
                in ancestorName = ''steam.exe'' \<or> ancestorName = ''steam'') (piAncestors proc))"

section \<open>Decision\<close>

definition gameDecision :: "GameProfile \<Rightarrow> string \<Rightarrow> GameDecision" where
  "gameDecision profile reason =
     \<lparr>gdKind = DecisionGame, gdUDPPolicy = defaultUDPPolicy (gpUDPPolicy profile),
      gdTCPPolicy = defaultTCPPolicy (gpTCPPolicy profile), gdProfileID = gpID profile, gdReason = reason\<rparr>"

text \<open>Manual profiles first, then by falling priority.\<close>

definition profileOrder :: "GameProfile \<Rightarrow> bool \<times> int" where
  "profileOrder p = (\<not> gpManual p, - gpPriority p)"

definition sortedProfiles :: "Engine \<Rightarrow> GameProfile list" where
  "sortedProfiles e = sliceStable profileOrder (enProfiles e)"

definition engineDecide :: "Engine \<Rightarrow> ProcessInfo \<Rightarrow> FlowKey \<Rightarrow> GameDecision" where
  "engineDecide e proc flow =
     (case find (\<lambda>p. gpEnabled p \<and> gpManual p \<and> Matches (gpMatch p) proc) (sortedProfiles e) of
        Some profile \<Rightarrow> gameDecision profile ''manual game profile''
      | None \<Rightarrow>
          if spEnabled (lpSteam (enLaunchers e)) \<and> spTrackChildProcesses (lpSteam (enLaunchers e)) \<and>
             isSteamGameProcess proc \<and> fkTransport flow = TransportUDP \<and>
             spAccelerateGameUDP (lpSteam (enLaunchers e))
          then \<lparr>gdKind = DecisionGame, gdUDPPolicy = UDPPolicyTGP, gdTCPPolicy = TCPPolicyAuto,
                gdProfileID = [], gdReason = ''steam game process''\<rparr>
          else case find (\<lambda>p. gpEnabled p \<and> \<not> gpManual p \<and> Matches (gpMatch p) proc) (sortedProfiles e) of
            Some profile \<Rightarrow> gameDecision profile ''automatic game profile''
          | None \<Rightarrow> \<lparr>gdKind = DecisionDefault, gdUDPPolicy = UDPPolicyAuto, gdTCPPolicy = TCPPolicyAuto,
                     gdProfileID = [], gdReason = ''no routing profile matched''\<rparr>)"

section \<open>The order of profiles\<close>

text \<open>The reference: among the profiles with a property the one of highest priority, of several the earliest.\<close>

primrec bestProfile :: "(GameProfile \<Rightarrow> bool) \<Rightarrow> GameProfile list \<Rightarrow> GameProfile option" where
  "bestProfile P [] = None"
| "bestProfile P (p # ps) =
     (case bestProfile P ps of
        None \<Rightarrow> if P p then Some p else None
      | Some q \<Rightarrow> if P p \<and> gpPriority q \<le> gpPriority p then Some p else Some q)"

lemma find_sorted_profile:
  assumes "\<And>q. P q \<Longrightarrow> gpManual q = m"
  shows "find P (sortedProfiles e) = bestProfile P (enProfiles e)"
proof -
  have "(case sort_key profileOrder (filter P ps) of [] \<Rightarrow> None | x # _ \<Rightarrow> Some x) = bestProfile P ps" for ps
  proof (induction ps)
    case (Cons p ps)
    have k: "profileOrder p \<le> profileOrder q \<longleftrightarrow> gpPriority q \<le> gpPriority p" if "P p" "P q" for q
      using assms that by (auto simp: profileOrder_def less_eq_prod_def)
    have "P q" if "sort_key profileOrder (filter P ps) = q # qs" for q qs
    proof -
      have "q \<in> set (sort_key profileOrder (filter P ps))" by (simp add: that)
      then show ?thesis by simp
    qed
    then show ?case using Cons.IH k [of "hd (sort_key profileOrder (filter P ps))"]
      by (cases "sort_key profileOrder (filter P ps)") (auto split: option.splits)
  qed simp
  then show ?thesis by (simp add: sortedProfiles_def sliceStable_def find_filter filter_sort)
qed

definition manualMatch :: "ProcessInfo \<Rightarrow> GameProfile \<Rightarrow> bool" where
  "manualMatch proc p \<longleftrightarrow> gpEnabled p \<and> gpManual p \<and> Matches (gpMatch p) proc"

definition autoMatch :: "ProcessInfo \<Rightarrow> GameProfile \<Rightarrow> bool" where
  "autoMatch proc p \<longleftrightarrow> gpEnabled p \<and> \<not> gpManual p \<and> Matches (gpMatch p) proc"

definition steamApplies :: "Engine \<Rightarrow> ProcessInfo \<Rightarrow> bool" where
  "steamApplies e proc \<longleftrightarrow> (let s = lpSteam (enLaunchers e)
     in spEnabled s \<and> spTrackChildProcesses s \<and> spAccelerateGameUDP s \<and> isSteamGameProcess proc)"

text \<open>
  Which profile decides. The decision of the engine is that of a reference without sorting: an
  enabled manual profile that matches the process decides before anything else; without one the Steam
  policy decides for UDP flows of Steam games; after it an enabled automatic profile that matches; and
  otherwise the decision is the default. Among the profiles of one kind the one of highest priority
  decides, and of several the one configured first.
\<close>

theorem profile_decision_order:
  "engineDecide e proc flow =
     (case bestProfile (manualMatch proc) (enProfiles e) of
        Some p \<Rightarrow> gameDecision p ''manual game profile''
      | None \<Rightarrow>
          if steamApplies e proc \<and> fkTransport flow = ''udp''
          then \<lparr>gdKind = DecisionGame, gdUDPPolicy = ''tgp'', gdTCPPolicy = ''auto'', gdProfileID = [],
                gdReason = ''steam game process''\<rparr>
          else case bestProfile (autoMatch proc) (enProfiles e) of
            Some p \<Rightarrow> gameDecision p ''automatic game profile''
          | None \<Rightarrow> \<lparr>gdKind = DecisionDefault, gdUDPPolicy = ''auto'', gdTCPPolicy = ''auto'',
                     gdProfileID = [], gdReason = ''no routing profile matched''\<rparr>)"
proof -
  have m: "find (\<lambda>p. gpEnabled p \<and> gpManual p \<and> Matches (gpMatch p) proc) (sortedProfiles e) =
      bestProfile (manualMatch proc) (enProfiles e)"
    unfolding manualMatch_def [abs_def] by (rule find_sorted_profile [where m = True]) simp
  have a: "find (\<lambda>p. gpEnabled p \<and> \<not> gpManual p \<and> Matches (gpMatch p) proc) (sortedProfiles e) =
      bestProfile (autoMatch proc) (enProfiles e)"
    unfolding autoMatch_def [abs_def] by (rule find_sorted_profile [where m = False]) simp
  have "(spEnabled (lpSteam (enLaunchers e)) \<and> spTrackChildProcesses (lpSteam (enLaunchers e)) \<and>
      isSteamGameProcess proc \<and> fkTransport flow = TransportUDP \<and> spAccelerateGameUDP (lpSteam (enLaunchers e))) =
      (steamApplies e proc \<and> fkTransport flow = ''udp'')"
    by (auto simp: steamApplies_def TransportUDP_def Let_def)
  then show ?thesis unfolding engineDecide_def m a policy_defs by (simp only:)
qed

end
