(* ===== verification/Routing_Service.thy ===== *)
theory Routing_Service
  imports Routing
begin

text \<open>
  The profile store and service (\<open>internal/routing/store.go\<close>, \<open>service.go\<close>). The service is written
  against the interface \<open>Store\<close>, here the functions \<open>load\<close> and \<open>save\<close>; the memory store implements it.
  The file store does the same behind a file system and JSON and is not modelled.
\<close>

section \<open>Configurations\<close>

datatype routing_error =
    ErrProfileNotFound
  | ErrDuplicateID
  | ErrInvalidProfile
  | RtContext

record RoutingConfig =
  rcGameProfiles :: "GameProfile list"
  rcLaunchers :: LauncherPolicy

definition defaultRoutingConfig :: RoutingConfig where
  "defaultRoutingConfig = \<lparr>rcGameProfiles = [], rcLaunchers = \<lparr>lpSteam = \<lparr>spEnabled = True,
     spTrackChildProcesses = True, spAccelerateGameUDP = True, spAccelerateSteamDownloads = False\<rparr>\<rparr>\<rparr>"

definition configEngine :: "RoutingConfig \<Rightarrow> Engine" where
  "configEngine c = \<lparr>enProfiles = rcGameProfiles c, enLaunchers = rcLaunchers c\<rparr>"

definition validUDPPolicy :: "string \<Rightarrow> bool" where
  "validUDPPolicy policy = (policy \<in> set [UDPPolicyAuto, UDPPolicyTGP, UDPPolicyDirect, UDPPolicyBlock])"

definition validTCPPolicy :: "string \<Rightarrow> bool" where
  "validTCPPolicy policy = (policy \<in> set [TCPPolicyAuto, TCPPolicyDirect, TCPPolicyBlock])"

definition ValidateProfile :: "GameProfile \<Rightarrow> routing_error option" where
  "ValidateProfile p =
     (if trimSpace (gpID p) = [] then Some ErrInvalidProfile
      else if trimSpace (gpDisplayName p) = [] then Some ErrInvalidProfile
      else
        let p = p\<lparr>gpUDPPolicy := (if gpUDPPolicy p = [] then UDPPolicyTGP else gpUDPPolicy p),
                  gpTCPPolicy := (if gpTCPPolicy p = [] then TCPPolicyAuto else gpTCPPolicy p)\<rparr>
        in if \<not> validUDPPolicy (gpUDPPolicy p) then Some ErrInvalidProfile
           else if \<not> validTCPPolicy (gpTCPPolicy p) then Some ErrInvalidProfile
           else if mrProcessNames (gpMatch p) = [] \<and> mrPaths (gpMatch p) = [] \<and> mrPathPrefixes (gpMatch p) = [] \<and>
                   mrSHA256 (gpMatch p) = [] \<and> mrSteamAppIDs (gpMatch p) = [] then Some ErrInvalidProfile
           else None)"

text \<open>The loop of \<open>validateConfig\<close> with the set of the ids seen so far.\<close>

fun validateProfiles :: "string list \<Rightarrow> GameProfile list \<Rightarrow> routing_error option" where
  "validateProfiles ids [] = None"
| "validateProfiles ids (profile # rest) =
     (case ValidateProfile profile of
        Some e \<Rightarrow> Some e
      | None \<Rightarrow>
          let key = toLower (gpID profile)
          in if key \<in> set ids then Some ErrDuplicateID else validateProfiles (key # ids) rest)"

definition validateRoutingConfig :: "RoutingConfig \<Rightarrow> routing_error option" where
  "validateRoutingConfig cfg = validateProfiles [] (rcGameProfiles cfg)"

section \<open>The memory store\<close>

text \<open>
  Slices are values here. In Go the store and its callers share the arrays below the top level of a
  configuration, and \<open>trimStrings\<close> writes its result over the caller's array: the effect of an operation
  on slices that the caller still holds is not modelled.
\<close>

record MemoryStore =
  msCfg :: RoutingConfig

text \<open>\<open>ctx\<close> is the error of the caller's context, if it is done.\<close>

definition memLoad :: "routing_error option \<Rightarrow> MemoryStore \<Rightarrow> routing_error + RoutingConfig" where
  "memLoad ctx s = (case ctx of Some e \<Rightarrow> Inl e | None \<Rightarrow> Inr (msCfg s))"

definition memSave :: "routing_error option \<Rightarrow> RoutingConfig \<Rightarrow> MemoryStore \<Rightarrow> routing_error option \<times> MemoryStore" where
  "memSave ctx cfg s =
     (case ctx of
        Some e \<Rightarrow> (Some e, s)
      | None \<Rightarrow>
          (case validateRoutingConfig cfg of
             Some e \<Rightarrow> (Some e, s)
           | None \<Rightarrow> (None, s\<lparr>msCfg := cfg\<rparr>)))"

section \<open>The service\<close>

definition trimStrings :: "string list \<Rightarrow> string list" where
  "trimStrings values = filter (\<lambda>v. v \<noteq> []) (map trimSpace values)"

definition normalizeProfile :: "GameProfile \<Rightarrow> GameProfile" where
  "normalizeProfile p = p\<lparr>
     gpID := trimSpace (gpID p),
     gpDisplayName := trimSpace (gpDisplayName p),
     gpUDPPolicy := (if gpUDPPolicy p = [] then UDPPolicyTGP else gpUDPPolicy p),
     gpTCPPolicy := (if gpTCPPolicy p = [] then TCPPolicyAuto else gpTCPPolicy p),
     gpMatch := (gpMatch p)\<lparr>mrProcessNames := trimStrings (mrProcessNames (gpMatch p)),
       mrPaths := trimStrings (mrPaths (gpMatch p)), mrPathPrefixes := trimStrings (mrPathPrefixes (gpMatch p)),
       mrSHA256 := trimStrings (mrSHA256 (gpMatch p))\<rparr>\<rparr>"

text \<open>\<open>None\<close> is the index -1.\<close>

fun findProfileIndex :: "GameProfile list \<Rightarrow> string \<Rightarrow> nat option" where
  "findProfileIndex [] pid = None"
| "findProfileIndex (p # ps) pid =
     (if equalFold (gpID p) pid then Some 0 else map_option Suc (findProfileIndex ps pid))"

type_synonym 's store_load = "'s \<Rightarrow> routing_error + RoutingConfig"
type_synonym 's store_save = "RoutingConfig \<Rightarrow> 's \<Rightarrow> routing_error option \<times> 's"

definition ListGameProfiles :: "'s store_load \<Rightarrow> 's \<Rightarrow> routing_error + GameProfile list" where
  "ListGameProfiles load s = (case load s of Inl e \<Rightarrow> Inl e | Inr cfg \<Rightarrow> Inr (rcGameProfiles cfg))"

definition serviceEngine :: "'s store_load \<Rightarrow> 's \<Rightarrow> routing_error + Engine" where
  "serviceEngine load s = (case load s of Inl e \<Rightarrow> Inl e | Inr cfg \<Rightarrow> Inr (configEngine cfg))"

definition AddGameProfile :: "'s store_load \<Rightarrow> 's store_save \<Rightarrow> GameProfile \<Rightarrow> 's \<Rightarrow>
    (routing_error + GameProfile) \<times> 's" where
  "AddGameProfile load save profile s =
     (let profile = normalizeProfile profile
      in case ValidateProfile profile of
           Some e \<Rightarrow> (Inl e, s)
         | None \<Rightarrow>
             (case load s of
                Inl e \<Rightarrow> (Inl e, s)
              | Inr cfg \<Rightarrow>
                  if findProfileIndex (rcGameProfiles cfg) (gpID profile) \<noteq> None then (Inl ErrDuplicateID, s)
                  else case save (cfg\<lparr>rcGameProfiles := rcGameProfiles cfg @ [profile]\<rparr>) s of
                    (Some e, s) \<Rightarrow> (Inl e, s)
                  | (None, s) \<Rightarrow> (Inr profile, s)))"

definition UpdateGameProfile :: "'s store_load \<Rightarrow> 's store_save \<Rightarrow> string \<Rightarrow> GameProfile \<Rightarrow> 's \<Rightarrow>
    (routing_error + GameProfile) \<times> 's" where
  "UpdateGameProfile load save pid profile s =
     (if trimSpace pid = [] then (Inl ErrProfileNotFound, s)
      else
        let profile = normalizeProfile (profile\<lparr>gpID := pid\<rparr>)
        in case ValidateProfile profile of
             Some e \<Rightarrow> (Inl e, s)
           | None \<Rightarrow>
               (case load s of
                  Inl e \<Rightarrow> (Inl e, s)
                | Inr cfg \<Rightarrow>
                    (case findProfileIndex (rcGameProfiles cfg) pid of
                       None \<Rightarrow> (Inl ErrProfileNotFound, s)
                     | Some idx \<Rightarrow>
                         (case save (cfg\<lparr>rcGameProfiles := (rcGameProfiles cfg)[idx := profile]\<rparr>) s of
                            (Some e, s) \<Rightarrow> (Inl e, s)
                          | (None, s) \<Rightarrow> (Inr profile, s)))))"

definition RemoveGameProfile :: "'s store_load \<Rightarrow> 's store_save \<Rightarrow> string \<Rightarrow> 's \<Rightarrow> routing_error option \<times> 's" where
  "RemoveGameProfile load save pid s =
     (case load s of
        Inl e \<Rightarrow> (Some e, s)
      | Inr cfg \<Rightarrow>
          (case findProfileIndex (rcGameProfiles cfg) pid of
             None \<Rightarrow> (Some ErrProfileNotFound, s)
           | Some idx \<Rightarrow>
               save (cfg\<lparr>rcGameProfiles := take idx (rcGameProfiles cfg) @ drop (idx + 1) (rcGameProfiles cfg)\<rparr>) s))"

section \<open>The abstract service\<close>

text \<open>Profiles by the id in lower case, and what the operations do to them.\<close>

type_synonym profiles = "string \<rightharpoonup> GameProfile"

definition profilesOf :: "GameProfile list \<Rightarrow> profiles" where
  "profilesOf ps = map_of (map (\<lambda>p. (toLower (gpID p), p)) ps)"

definition specAdd :: "GameProfile \<Rightarrow> profiles \<Rightarrow> (routing_error + GameProfile) \<times> profiles" where
  "specAdd profile m =
     (let q = normalizeProfile profile; k = toLower (gpID q)
      in case ValidateProfile q of
           Some e \<Rightarrow> (Inl e, m)
         | None \<Rightarrow> if m k \<noteq> None then (Inl ErrDuplicateID, m) else (Inr q, m(k \<mapsto> q)))"

definition specUpdate :: "string \<Rightarrow> GameProfile \<Rightarrow> profiles \<Rightarrow> (routing_error + GameProfile) \<times> profiles" where
  "specUpdate pid profile m =
     (let q = normalizeProfile (profile\<lparr>gpID := pid\<rparr>)
      in if trimSpace pid = [] then (Inl ErrProfileNotFound, m)
         else case ValidateProfile q of
           Some e \<Rightarrow> (Inl e, m)
         | None \<Rightarrow> if m (toLower pid) = None then (Inl ErrProfileNotFound, m) else (Inr q, m(toLower pid \<mapsto> q)))"

definition specRemove :: "string \<Rightarrow> profiles \<Rightarrow> routing_error option \<times> profiles" where
  "specRemove pid m =
     (if m (toLower pid) = None then (Some ErrProfileNotFound, m) else (None, m(toLower pid := None)))"

section \<open>The interface of the store\<close>

locale profile_store =
  fixes load :: "'s store_load" and save :: "'s store_save"
  assumes load_saved: "save cfg s = (None, s') \<Longrightarrow> load s' = Inr cfg"
    and save_refused: "save cfg s = (Some e, s') \<Longrightarrow> s' = s"
    and save_iff: "load s = Inr c \<Longrightarrow> fst (save cfg s) = validateRoutingConfig cfg"
begin

lemma save_ok:
  assumes "load s = Inr c" and "validateRoutingConfig cfg = None"
  shows "\<exists>s'. save cfg s = (None, s') \<and> load s' = Inr cfg"
  using save_iff [OF assms(1), of cfg] assms(2) load_saved by (metis prod.collapse)

end

interpretation mem: profile_store "memLoad None" "memSave None"
  by unfold_locales (auto simp: memLoad_def memSave_def split: option.splits)

section \<open>Lists of profiles as maps\<close>

text \<open>What the service keeps: valid profiles whose ids are trimmed and differ up to case.\<close>

definition wf_profiles :: "GameProfile list \<Rightarrow> bool" where
  "wf_profiles ps \<longleftrightarrow> distinct (map (toLower \<circ> gpID) ps) \<and>
     (\<forall>p\<in>set ps. ValidateProfile p = None \<and> trimSpace (gpID p) = gpID p)"

lemma validateProfiles_None:
  "validateProfiles ids ps = None \<longleftrightarrow> distinct (map (toLower \<circ> gpID) ps) \<and>
     set (map (toLower \<circ> gpID) ps) \<inter> set ids = {} \<and> (\<forall>p\<in>set ps. ValidateProfile p = None)"
  by (induction ps arbitrary: ids) (auto simp: Let_def split: option.splits if_splits)

lemma wf_valid: "wf_profiles ps \<Longrightarrow> validateRoutingConfig (c\<lparr>rcGameProfiles := ps\<rparr>) = None"
  by (simp add: validateRoutingConfig_def validateProfiles_None wf_profiles_def)

lemma findIndex_None: "findProfileIndex ps pid = None \<longleftrightarrow> profilesOf ps (toLower pid) = None"
  by (induction ps) (auto simp: profilesOf_def equalFold_def)

lemma findIndex_Some:
  "findProfileIndex ps pid = Some i \<Longrightarrow> i < length ps \<and> toLower (gpID (ps ! i)) = toLower pid"
  by (induction ps arbitrary: i) (auto simp: equalFold_def split: if_splits)


lemma profilesOf_mem:
  assumes "wf_profiles ps"
  shows "profilesOf ps k = Some p \<longleftrightarrow> p \<in> set ps \<and> toLower (gpID p) = k"
proof -
  have "distinct (map fst (map (\<lambda>p. (toLower (gpID p), p)) ps))" using assms by (simp add: wf_profiles_def comp_def)
  from map_of_eq_Some_iff [OF this] show ?thesis unfolding profilesOf_def by auto
qed

lemma profilesOf_eqI:
  assumes "wf_profiles ps" and "\<And>k p. m k = Some p \<longleftrightarrow> p \<in> set ps \<and> toLower (gpID p) = k"
  shows "profilesOf ps = m"
proof (rule ext)
  fix k show "profilesOf ps k = m k"
    using profilesOf_mem [OF assms(1), of k] assms(2) [of k] by (cases "profilesOf ps k"; cases "m k") auto
qed

lemma normalize_trimmed: "trimSpace (gpID (normalizeProfile p)) = gpID (normalizeProfile p)"
  by (simp add: normalizeProfile_def)

lemma append_profile:
  assumes "wf_profiles ps" and "ValidateProfile q = None" and "trimSpace (gpID q) = gpID q"
    and "profilesOf ps (toLower (gpID q)) = None"
  shows "wf_profiles (ps @ [q]) \<and> profilesOf (ps @ [q]) = (profilesOf ps)(toLower (gpID q) \<mapsto> q)"
proof -
  have n: "\<forall>p\<in>set ps. toLower (gpID p) \<noteq> toLower (gpID q)"
    using profilesOf_mem [OF assms(1), of "toLower (gpID q)"] assms(4) by auto
  have wf: "wf_profiles (ps @ [q])" using assms(1-3) n by (auto simp: wf_profiles_def)
  then show ?thesis using n profilesOf_mem [OF assms(1)] by (auto intro!: profilesOf_eqI split: if_splits)
qed

lemma other_index:
  assumes "wf_profiles ps" and "i < length ps" and "p \<in> set ps"
  shows "p = ps ! i \<longleftrightarrow> toLower (gpID p) = toLower (gpID (ps ! i))"
  using assms by (metis comp_apply distinct_map inj_onD nth_mem wf_profiles_def)

lemma replace_profile:
  assumes wf: "wf_profiles ps" and "ValidateProfile q = None" and "trimSpace (gpID q) = gpID q"
    and i: "i < length ps" and k: "toLower (gpID q) = toLower (gpID (ps ! i))"
  shows "wf_profiles (ps[i := q]) \<and> profilesOf (ps[i := q]) = (profilesOf ps)(toLower (gpID q) \<mapsto> q)"
proof -
  have d: "distinct ps" using wf by (auto simp: wf_profiles_def distinct_map)
  note st = set_update_distinct [OF d i]
  have "map (toLower \<circ> gpID) (ps[i := q]) = map (toLower \<circ> gpID) ps"
    using k i by (metis comp_apply list_update_id map_update)
  then have wf': "wf_profiles (ps[i := q])" using wf assms(2,3) by (auto simp: wf_profiles_def st)
  have "((profilesOf ps)(toLower (gpID q) \<mapsto> q)) j = Some p \<longleftrightarrow> p \<in> set (ps[i := q]) \<and> toLower (gpID p) = j" for j p
    using profilesOf_mem [OF wf, of j p] other_index [OF wf i, of p] k by (auto simp: st)
  then show ?thesis using wf' profilesOf_eqI [OF wf'] by blast
qed

lemma drop_profile:
  assumes wf: "wf_profiles ps" and i: "i < length ps"
  shows "wf_profiles (take i ps @ drop (i + 1) ps) \<and>
    profilesOf (take i ps @ drop (i + 1) ps) = (profilesOf ps)(toLower (gpID (ps ! i)) := None)"
proof -
  let ?f = "toLower \<circ> gpID" and ?q = "take i ps @ drop (i + 1) ps"
  have e: "ps = take i ps @ ps ! i # drop (i + 1) ps" using id_take_nth_drop [OF i] by (simp only: Suc_eq_plus1)
  have "distinct (map ?f (take i ps @ ps ! i # drop (i + 1) ps))" using wf e by (simp add: wf_profiles_def)
  then have d: "distinct (map ?f ?q)" "ps ! i \<notin> set ?q" by auto
  have st: "set ps = insert (ps ! i) (set ?q)" using e by (metis (no_types) Un_insert_right list.simps(15) set_append)
  have wf': "wf_profiles ?q" using wf d st by (auto simp: wf_profiles_def)
  have "((profilesOf ps)(toLower (gpID (ps ! i)) := None)) j = Some p \<longleftrightarrow> p \<in> set ?q \<and> toLower (gpID p) = j" for j p
    using profilesOf_mem [OF wf, of j p] other_index [OF wf i, of p] d(2) st by auto
  then show ?thesis using wf' profilesOf_eqI [OF wf'] by blast
qed

section \<open>The service implements the abstract one\<close>

context profile_store
begin

lemma add_refines:
  assumes "load s = Inr c" and wf: "wf_profiles (rcGameProfiles c)"
  shows "\<exists>s' c'. AddGameProfile load save p s = (fst (specAdd p (profilesOf (rcGameProfiles c))), s') \<and>
    load s' = Inr c' \<and> wf_profiles (rcGameProfiles c') \<and> rcLaunchers c' = rcLaunchers c \<and>
    profilesOf (rcGameProfiles c') = snd (specAdd p (profilesOf (rcGameProfiles c)))"
proof -
  let ?q = "normalizeProfile p" and ?ps = "rcGameProfiles c"
  consider "ValidateProfile ?q \<noteq> None" | "ValidateProfile ?q = None" "profilesOf ?ps (toLower (gpID ?q)) \<noteq> None"
    | (new) "ValidateProfile ?q = None" "profilesOf ?ps (toLower (gpID ?q)) = None" by blast
  then show ?thesis
  proof cases
    case new
    from append_profile [OF wf new(1) normalize_trimmed new(2)]
    have a: "wf_profiles (?ps @ [?q])" "profilesOf (?ps @ [?q]) = (profilesOf ?ps)(toLower (gpID ?q) \<mapsto> ?q)" by auto
    obtain s' where "save (c\<lparr>rcGameProfiles := ?ps @ [?q]\<rparr>) s = (None, s')" "load s' = Inr (c\<lparr>rcGameProfiles := ?ps @ [?q]\<rparr>)"
      using save_ok [OF assms(1) wf_valid [OF a(1)]] by blast
    then show ?thesis using new a assms(1) findIndex_None [of ?ps "gpID ?q"]
      by (auto simp: AddGameProfile_def specAdd_def Let_def)
  qed (use assms findIndex_None [of ?ps "gpID ?q"] in \<open>auto simp: AddGameProfile_def specAdd_def Let_def\<close>)
qed

lemma update_refines:
  assumes "load s = Inr c" and wf: "wf_profiles (rcGameProfiles c)"
  shows "\<exists>s' c'. UpdateGameProfile load save pid p s = (fst (specUpdate pid p (profilesOf (rcGameProfiles c))), s') \<and>
    load s' = Inr c' \<and> wf_profiles (rcGameProfiles c') \<and> rcLaunchers c' = rcLaunchers c \<and>
    profilesOf (rcGameProfiles c') = snd (specUpdate pid p (profilesOf (rcGameProfiles c)))"
proof (cases "trimSpace pid \<noteq> [] \<and> ValidateProfile (normalizeProfile (p\<lparr>gpID := pid\<rparr>)) = None \<and>
    profilesOf (rcGameProfiles c) (toLower pid) \<noteq> None")
  case True
  let ?q = "normalizeProfile (p\<lparr>gpID := pid\<rparr>)" and ?ps = "rcGameProfiles c"
  obtain i where i: "findProfileIndex ?ps pid = Some i" using True findIndex_None [of ?ps pid] by fastforce
  note f = findIndex_Some [OF i]
  have "trimSpace (gpID (?ps ! i)) = gpID (?ps ! i)" using wf f by (simp add: wf_profiles_def)
  then have "trimSpace pid = pid" using f trimmed_fold by blast
  then have k: "gpID ?q = pid" by (simp add: normalizeProfile_def)
  from replace_profile [OF wf _ normalize_trimmed, of "p\<lparr>gpID := pid\<rparr>" i] True f k
  have a: "wf_profiles (?ps[i := ?q])" "profilesOf (?ps[i := ?q]) = (profilesOf ?ps)(toLower pid \<mapsto> ?q)" by auto
  obtain s' where "save (c\<lparr>rcGameProfiles := ?ps[i := ?q]\<rparr>) s = (None, s')" "load s' = Inr (c\<lparr>rcGameProfiles := ?ps[i := ?q]\<rparr>)"
    using save_ok [OF assms(1) wf_valid [OF a(1)]] by blast
  then show ?thesis using True a assms(1) i by (auto simp: UpdateGameProfile_def specUpdate_def Let_def)
next
  case False
  then show ?thesis using assms findIndex_None [of "rcGameProfiles c" pid]
    by (auto simp: UpdateGameProfile_def specUpdate_def Let_def split: option.splits)
qed

lemma remove_refines:
  assumes "load s = Inr c" and wf: "wf_profiles (rcGameProfiles c)"
  shows "\<exists>s' c'. RemoveGameProfile load save pid s = (fst (specRemove pid (profilesOf (rcGameProfiles c))), s') \<and>
    load s' = Inr c' \<and> wf_profiles (rcGameProfiles c') \<and> rcLaunchers c' = rcLaunchers c \<and>
    profilesOf (rcGameProfiles c') = snd (specRemove pid (profilesOf (rcGameProfiles c)))"
proof (cases "findProfileIndex (rcGameProfiles c) pid")
  case None
  then show ?thesis using assms findIndex_None [of "rcGameProfiles c" pid]
    by (auto simp: RemoveGameProfile_def specRemove_def)
next
  case (Some i)
  let ?ps = "rcGameProfiles c"
  note f = findIndex_Some [OF Some]
  have a: "wf_profiles (take i ?ps @ drop (i + 1) ?ps)"
      "profilesOf (take i ?ps @ drop (i + 1) ?ps) = (profilesOf ?ps)(toLower pid := None)"
    using drop_profile [OF wf, of i] f by auto
  obtain s' where "save (c\<lparr>rcGameProfiles := take i ?ps @ drop (i + 1) ?ps\<rparr>) s = (None, s')"
      "load s' = Inr (c\<lparr>rcGameProfiles := take i ?ps @ drop (i + 1) ?ps\<rparr>)"
    using save_ok [OF assms(1) wf_valid [OF a(1)]] by blast
  then show ?thesis using a assms(1) Some findIndex_None [of ?ps pid]
    by (auto simp: RemoveGameProfile_def specRemove_def)
qed

end

text \<open>The map a store holds, and the stores an operation on \<open>s\<close> may leave behind.\<close>

definition storeMap :: "MemoryStore \<Rightarrow> profiles" where
  "storeMap s = profilesOf (rcGameProfiles (msCfg s))"

definition keptStore :: "MemoryStore \<Rightarrow> MemoryStore \<Rightarrow> bool" where
  "keptStore s s' \<longleftrightarrow> wf_profiles (rcGameProfiles (msCfg s')) \<and> rcLaunchers (msCfg s') = rcLaunchers (msCfg s)"

text \<open>
  C35. The profile service implements a map. On a memory store whose profiles are valid, with trimmed
  ids that differ up to case, adding, updating and removing return what the abstract operation on the map
  from lower-case ids to profiles returns, error or not, leave a store with the same qualities and the
  same launcher policy, and its new map is the abstract one; and listing returns every profile of the map
  exactly once.
\<close>

theorem profile_service_refines_map:
  assumes "wf_profiles (rcGameProfiles (msCfg s))"
  shows "(\<exists>s'. AddGameProfile (memLoad None) (memSave None) p s = (fst (specAdd p (storeMap s)), s') \<and>
      storeMap s' = snd (specAdd p (storeMap s)) \<and> keptStore s s') \<and>
    (\<exists>s'. UpdateGameProfile (memLoad None) (memSave None) pid p s = (fst (specUpdate pid p (storeMap s)), s') \<and>
      storeMap s' = snd (specUpdate pid p (storeMap s)) \<and> keptStore s s') \<and>
    (\<exists>s'. RemoveGameProfile (memLoad None) (memSave None) pid s = (fst (specRemove pid (storeMap s)), s') \<and>
      storeMap s' = snd (specRemove pid (storeMap s)) \<and> keptStore s s') \<and>
    (\<exists>ps. ListGameProfiles (memLoad None) s = Inr ps \<and> distinct (map (toLower \<circ> gpID) ps) \<and>
      (\<forall>k q. storeMap s k = Some q \<longleftrightarrow> q \<in> set ps \<and> toLower (gpID q) = k))"
proof -
  have l: "memLoad None t = Inr (msCfg t)" for t by (simp add: memLoad_def)
  have "ListGameProfiles (memLoad None) s = Inr (rcGameProfiles (msCfg s)) \<and>
      distinct (map (toLower \<circ> gpID) (rcGameProfiles (msCfg s))) \<and>
      (\<forall>k q. storeMap s k = Some q \<longleftrightarrow> q \<in> set (rcGameProfiles (msCfg s)) \<and> toLower (gpID q) = k)"
    using assms profilesOf_mem [OF assms] by (simp add: ListGameProfiles_def l storeMap_def wf_profiles_def)
  then show ?thesis
    using mem.add_refines [OF l assms, of p] mem.update_refines [OF l assms, of pid p]
      mem.remove_refines [OF l assms, of pid] unfolding storeMap_def keptStore_def by (intro conjI; simp add: l; blast)
qed

text \<open>A store with one profile.\<close>

definition demo_profile :: "string \<Rightarrow> GameProfile" where
  "demo_profile pid = \<lparr>gpID = pid, gpDisplayName = ''Game'', gpEnabled = True, gpManual = True, gpPriority = 5,
     gpMatch = \<lparr>mrProcessNames = [''game.exe''], mrPaths = [], mrPathPrefixes = [], mrSHA256 = [], mrSteamAppIDs = []\<rparr>,
     gpUDPPolicy = [], gpTCPPolicy = []\<rparr>"

definition demo_store :: MemoryStore where
  "demo_store = \<lparr>msCfg = defaultRoutingConfig\<lparr>rcGameProfiles := [demo_profile ''Cs2'']\<rparr>\<rparr>"

theorem profile_service_refines_map_witness:
  "fst (AddGameProfile (memLoad None) (memSave None) (demo_profile '' cs2'') demo_store) = Inl ErrDuplicateID \<and>
   (\<exists>ps. ListGameProfiles (memLoad None) demo_store = Inr ps \<and> demo_profile ''Cs2'' \<in> set ps) \<and>
   fst (RemoveGameProfile (memLoad None) (memSave None) ''CS2'' demo_store) = None"
proof -
  have w: "wf_profiles (rcGameProfiles (msCfg demo_store))" unfolding wf_profiles_def by code_simp
  have "fst (specAdd (demo_profile '' cs2'') (storeMap demo_store)) = Inl ErrDuplicateID"
    "fst (specRemove ''CS2'' (storeMap demo_store)) = None"
    "storeMap demo_store (toLower ''Cs2'') = Some (demo_profile ''Cs2'')" by code_simp+
  then show ?thesis using profile_service_refines_map [OF w, of "demo_profile '' cs2''" "''CS2''"] by auto
qed

end
