(* ===== verification/Pipeline.thy ===== *)
theory Pipeline
  imports Routing_Service GoMap
begin

text \<open>
  From a captured packet to its fate: the process tracker (\<open>internal/pidtrack/tracker.go\<close>), the router and
  the packet loop of the pipeline (\<open>internal/pipeline/router.go\<close>, \<open>pipeline.go\<close>), and the client's
  packet handler (\<open>internal/app/client_handler.go\<close>).

  The platform's socket tables are a parameter: what each lookup of the provider returns. So are the
  TUN device and the TGP sender.
\<close>

section \<open>The process tracker\<close>

definition CacheTTL :: duration where "CacheTTL = 100 * time_Millisecond"
definition RetryDelay :: duration where "RetryDelay = 50 * time_Millisecond"
definition MaxRetries :: nat where "MaxRetries = 3"

record cacheKey =
  ckTransport :: string
  ckLocalIP :: string
  ckLocalPort :: u16

record cacheEntry =
  ceInfo :: ProcessInfo
  ceExpires :: gotime

record Tracker =
  tkCache :: "(cacheKey, cacheEntry) gomap"

definition zeroProcess :: ProcessInfo where
  "zeroProcess = \<lparr>piPID = 0, piParentPID = 0, piName = [], piExecutablePath = [], piSHA256 = [],
     piCommandLine = [], piAncestors = [], piTags = (\<lambda>_. None)\<rparr>"

definition flowCacheKey :: "FlowKey \<Rightarrow> cacheKey" where
  "flowCacheKey flow = \<lparr>ckTransport = fkTransport flow, ckLocalIP = fkLocalIP flow, ckLocalPort = fkLocalPort flow\<rparr>"

text \<open>
  The retry loop from attempt \<open>i\<close>, with \<open>n\<close> attempts left. \<open>provider i\<close> is what attempt \<open>i\<close> finds, if
  anything; \<open>ctxDone i\<close> says that the caller's context ends the wait before it.
\<close>

datatype lookupResult = LookupFound ProcessInfo | LookupMissing | LookupCancelled

fun lookupAttempts :: "(nat \<Rightarrow> bool) \<Rightarrow> (nat \<Rightarrow> ProcessInfo option) \<Rightarrow> nat \<Rightarrow> nat \<Rightarrow> lookupResult" where
  "lookupAttempts ctxDone provider i 0 = LookupMissing"
| "lookupAttempts ctxDone provider i (Suc n) =
     (if i > 0 \<and> ctxDone i then LookupCancelled
      else case provider i of
        Some info \<Rightarrow> LookupFound info
      | None \<Rightarrow> lookupAttempts ctxDone provider (Suc i) n)"

text \<open>\<open>Inl ()\<close> is the error of the context.\<close>

definition LookupFlow :: "(nat \<Rightarrow> bool) \<Rightarrow> (nat \<Rightarrow> ProcessInfo option) \<Rightarrow> gotime \<Rightarrow> gotime \<Rightarrow> FlowKey \<Rightarrow>
    Tracker \<Rightarrow> (unit + ProcessInfo) \<times> Tracker" where
  "LookupFlow ctxDone provider now later flow t =
     (let key = flowCacheKey flow
      in case (case gm_get (tkCache t) key of
                 None \<Rightarrow> None | Some e \<Rightarrow> if now < ceExpires e then Some (ceInfo e) else None) of
           Some info \<Rightarrow> (Inr info, t)
         | None \<Rightarrow>
             (case lookupAttempts ctxDone provider 0 MaxRetries of
                LookupCancelled \<Rightarrow> (Inl (), t)
              | LookupMissing \<Rightarrow> (Inr zeroProcess, t)
              | LookupFound info \<Rightarrow>
                  (Inr info, t\<lparr>tkCache := gm_set (tkCache t) key \<lparr>ceInfo = info, ceExpires = later + CacheTTL\<rparr>\<rparr>)))"

definition Evict :: "FlowKey \<Rightarrow> Tracker \<Rightarrow> Tracker" where
  "Evict flow t = t\<lparr>tkCache := gm_del (tkCache t) (flowCacheKey flow)\<rparr>"

definition PurgeExpired :: "gotime \<Rightarrow> Tracker \<Rightarrow> Tracker" where
  "PurgeExpired now t = t\<lparr>tkCache := gm_keep (\<lambda>k e. \<not> now > ceExpires e) (tkCache t)\<rparr>"

section \<open>The router\<close>

definition ActionTGP :: string where "ActionTGP = ''tgp''"
definition ActionDirect :: string where "ActionDirect = ''direct''"
definition ActionDrop :: string where "ActionDrop = ''drop''"

lemmas action_defs = ActionTGP_def ActionDirect_def ActionDrop_def

record RouteRule =
  rrPriority :: int
  rrProcessName :: string
  rrDomain :: string
  rrCIDR :: string
  rrGeoIPCountry :: string
  rrProtocol :: string
  rrAction :: string

record RouterConfig =
  rcDefaultAction :: string
  rcRules :: "RouteRule list"
  crGameProfiles :: "GameProfile list option"
  crLaunchers :: "LauncherPolicy option"

record Decision =
  deAction :: string
  deReason :: string
  deRuleIndex :: nat
  deProcessKnown :: bool
  deProcess :: ProcessInfo
  deFlow :: FlowKey

record Router =
  roRules :: "(nat \<times> RouteRule) list"
  roDefaultAction :: string
  roGameEngine :: Engine

definition normalizeAction :: "string \<Rightarrow> string \<Rightarrow> string" where
  "normalizeAction raw fallback =
     (let a = toLower (trimSpace raw)
      in if a = ''tgp'' then ActionTGP
         else if a = ''direct'' then ActionDirect
         else if a = ''drop'' \<or> a = ''block'' then ActionDrop
         else fallback)"

definition ruleOrder :: "nat \<times> RouteRule \<Rightarrow> int" where
  "ruleOrder r = - rrPriority (snd r)"

definition NewRouter :: "RouterConfig \<Rightarrow> Engine \<Rightarrow> Router" where
  "NewRouter cfg gameEngine =
     \<lparr>roRules = sliceStable ruleOrder (enumerate 0 (rcRules cfg)),
      roDefaultAction = normalizeAction (rcDefaultAction cfg) ActionDirect,
      roGameEngine = gameEngine\<rparr>"

definition SetGameEngine :: "Engine \<Rightarrow> Router \<Rightarrow> Router" where
  "SetGameEngine gameEngine r = r\<lparr>roGameEngine := gameEngine\<rparr>"

text \<open>\<open>netip.Prefix.Contains\<close>: no zones, one family, and the leading bits agree.\<close>

definition addrBits :: "Addr \<Rightarrow> bool list" where
  "addrBits a = concat (map (\<lambda>b. map (\<lambda>i. bit b (7 - i)) [0..<8]) (Addr_AsSlice a))"

definition prefixContains :: "Prefix \<Rightarrow> Addr \<Rightarrow> bool" where
  "prefixContains p a \<longleftrightarrow> zoneless a \<and> Addr_IsValid a \<and> Addr_IsValid (prefixAddr p) \<and>
     Addr_Is4 (prefixAddr p) = Addr_Is4 a \<and>
     take (prefixBits p) (addrBits (prefixAddr p)) = take (prefixBits p) (addrBits a)"

definition cidrContains :: "netip \<Rightarrow> string \<Rightarrow> string \<Rightarrow> bool" where
  "cidrContains N cidr ip =
     (case parsePrefix N cidr of
        None \<Rightarrow> False
      | Some prefix \<Rightarrow> (case parseAddr N ip of None \<Rightarrow> False | Some addr \<Rightarrow> prefixContains prefix addr))"

definition routeRuleMatches :: "netip \<Rightarrow> RouteRule \<Rightarrow> FlowKey \<Rightarrow> ProcessInfo \<Rightarrow> bool" where
  "routeRuleMatches N rule flow proc =
     (if rrProtocol rule \<noteq> [] \<and> \<not> equalFold (rrProtocol rule) (fkTransport flow) then False
      else if rrProcessName rule \<noteq> [] \<and> \<not> equalFold (rrProcessName rule) (piName proc) then False
      else if rrCIDR rule \<noteq> [] \<and> \<not> cidrContains N (rrCIDR rule) (fkRemoteIP flow) then False
      else if rrDomain rule \<noteq> [] then False
      else if rrGeoIPCountry rule \<noteq> [] then False
      else rrProtocol rule \<noteq> [] \<or> rrProcessName rule \<noteq> [] \<or> rrCIDR rule \<noteq> [])"

definition actionFromPolicies :: "string \<Rightarrow> GameDecision \<Rightarrow> string" where
  "actionFromPolicies transport decision =
     (if transport = TransportUDP \<and> gdUDPPolicy decision = UDPPolicyTGP then ActionTGP
      else if transport = TransportUDP \<and> gdUDPPolicy decision = UDPPolicyDirect then ActionDirect
      else if transport = TransportUDP \<and> gdUDPPolicy decision = UDPPolicyBlock then ActionDrop
      else if transport = TransportTCP \<and> gdTCPPolicy decision = TCPPolicyDirect then ActionDirect
      else if transport = TransportTCP \<and> gdTCPPolicy decision = TCPPolicyBlock then ActionDrop
      else [])"

definition routerDecide :: "netip \<Rightarrow> Router \<Rightarrow> FlowKey \<Rightarrow> ProcessInfo \<Rightarrow> Decision" where
  "routerDecide N r flow proc =
     (let game = engineDecide (roGameEngine r) proc flow;
          action = actionFromPolicies (fkTransport flow) game
      in if gdKind game = DecisionGame \<and> action \<noteq> []
         then \<lparr>deAction = action, deReason = gdReason game, deRuleIndex = 0, deProcessKnown = True,
               deProcess = proc, deFlow = flow\<rparr>
         else case find (\<lambda>(i, rule). routeRuleMatches N rule flow proc) (roRules r) of
           Some (i, rule) \<Rightarrow>
             \<lparr>deAction = normalizeAction (rrAction rule) (roDefaultAction r),
              deReason = ''config route rule matched'', deRuleIndex = i, deProcessKnown = True,
              deProcess = proc, deFlow = flow\<rparr>
         | None \<Rightarrow>
             \<lparr>deAction = roDefaultAction r, deReason = ''default action'', deRuleIndex = 0,
              deProcessKnown = True, deProcess = proc, deFlow = flow\<rparr>)"

definition unknownProcessReason :: "string \<Rightarrow> bool \<Rightarrow> string" where
  "unknownProcessReason action processSensitiveTGP =
     (if action = ActionDrop \<and> processSensitiveTGP
      then ''process unknown; process-sensitive TGP policy blocks fallback''
      else ''process unknown; process-independent route decision'')"

text \<open>Whether some TGP policy depends on the process.\<close>

definition requiresProcess :: "Router \<Rightarrow> bool" where
  "requiresProcess r \<longleftrightarrow> RequiresProcessAttributionForTGP (roGameEngine r) \<or>
     list_ex (\<lambda>(i, rule). trimSpace (rrProcessName rule) \<noteq> [] \<and>
       normalizeAction (rrAction rule) (roDefaultAction r) = ActionTGP) (roRules r)"

definition DecideUnknownProcess :: "netip \<Rightarrow> Router \<Rightarrow> FlowKey \<Rightarrow> Decision" where
  "DecideUnknownProcess N r flow =
     (let required = requiresProcess r;
          block = (\<lambda>action. if action = ActionTGP \<and> required then ActionDrop else action)
      in case find (\<lambda>(i, rule). trimSpace (rrProcessName rule) = [] \<and> routeRuleMatches N rule flow zeroProcess)
                (roRules r) of
           Some (i, rule) \<Rightarrow>
             let action = block (normalizeAction (rrAction rule) (roDefaultAction r))
             in \<lparr>deAction = action, deReason = unknownProcessReason action required, deRuleIndex = i,
                 deProcessKnown = False, deProcess = zeroProcess, deFlow = flow\<rparr>
         | None \<Rightarrow>
             let action = block (roDefaultAction r)
             in \<lparr>deAction = action, deReason = unknownProcessReason action required, deRuleIndex = 0,
                 deProcessKnown = False, deProcess = zeroProcess, deFlow = flow\<rparr>)"

section \<open>The client's packet handler\<close>

datatype handler_error =
    ErrTGPForwarderUnavailable
  | ErrNotUDP
  | ErrPacket packet_error
  | ErrAddrText
  | ErrTunnel tgp_error
  | ErrSend
  | ErrDirectTrafficCaptured
  | ErrUnsupportedClientAction

text \<open>The errors that are wrapped in \<open>FatalHandlerError\<close>.\<close>

definition fatalError :: "handler_error \<Rightarrow> bool" where
  "fatalError e \<longleftrightarrow> e = ErrTGPForwarderUnavailable \<or> e = ErrDirectTrafficCaptured \<or> e = ErrUnsupportedClientAction"

text \<open>The tunnel payload the handler makes of a captured packet.\<close>

definition tunnelOfPacket :: "netip \<Rightarrow> bytes \<Rightarrow> handler_error + bytes" where
  "tunnelOfPacket N packet =
     (case ExtractUDPPayload N packet of
        Inl e \<Rightarrow> Inl (ErrPacket e)
      | Inr (flow, udpPayload) \<Rightarrow>
          (case parseAddr N (fkLocalIP flow) of
             None \<Rightarrow> Inl ErrAddrText
           | Some localIP \<Rightarrow>
               (case parseAddr N (fkRemoteIP flow) of
                  None \<Rightarrow> Inl ErrAddrText
                | Some remoteIP \<Rightarrow>
                    (case MarshalTunnelDatagram \<lparr>Identity = zeroIdentity, LocalIP = localIP,
                            LocalPort = fkLocalPort flow, RemoteIP = remoteIP,
                            RemotePort = fkRemotePort flow, tunnelPayload = udpPayload\<rparr> of
                       Inl e \<Rightarrow> Inl (ErrTunnel e)
                     | Inr tunnel \<Rightarrow> Inr tunnel))))"

text \<open>\<open>sender\<close>: whether there is a TGP sender. The result lists what it was given; \<open>sendOk\<close> says whether
  it succeeds.\<close>

definition clientHandlePacket :: "netip \<Rightarrow> bool \<Rightarrow> bool \<Rightarrow> Decision \<Rightarrow> bytes \<Rightarrow> handler_error option \<times> bytes list" where
  "clientHandlePacket N sender sendOk decision packet =
     (if deAction decision = ActionTGP then
        if \<not> sender then (Some ErrTGPForwarderUnavailable, [])
        else if fkTransport (deFlow decision) \<noteq> TransportUDP then (Some ErrNotUDP, [])
        else case tunnelOfPacket N packet of
          Inl e \<Rightarrow> (Some e, [])
        | Inr tunnel \<Rightarrow> (if sendOk then None else Some ErrSend, [tunnel])
      else if deAction decision = ActionDrop then (None, [])
      else if deAction decision = ActionDirect then (Some ErrDirectTrafficCaptured, [])
      else (Some ErrUnsupportedClientAction, []))"

section \<open>The pipeline\<close>

record PipelineStats =
  psPacketsRead :: u64
  psBytesRead :: u64
  psBytesTGP :: u64
  psBytesDirect :: u64
  psBytesDrop :: u64
  psUnsupported :: u64
  psLookupErrors :: u64
  psDecidedTGP :: u64
  psDecidedDirect :: u64
  psDecidedDrop :: u64
  psHandlerErrors :: u64

record Pipeline =
  ppTracker :: Tracker
  ppRouter :: Router
  ppStats :: PipelineStats

definition countDecision :: "string \<Rightarrow> nat \<Rightarrow> PipelineStats \<Rightarrow> PipelineStats" where
  "countDecision action packetBytes s =
     (if action = ActionTGP
      then s\<lparr>psDecidedTGP := psDecidedTGP s + 1, psBytesTGP := psBytesTGP s + of_nat packetBytes\<rparr>
      else if action = ActionDirect
      then s\<lparr>psDecidedDirect := psDecidedDirect s + 1, psBytesDirect := psBytesDirect s + of_nat packetBytes\<rparr>
      else if action = ActionDrop
      then s\<lparr>psDecidedDrop := psDecidedDrop s + 1, psBytesDrop := psBytesDrop s + of_nat packetBytes\<rparr>
      else s)"

text \<open>What the lookup of one packet meets: the context, the provider and the clock.\<close>

record lookupEnv =
  leCtxDone :: "nat \<Rightarrow> bool"
  leProvider :: "nat \<Rightarrow> ProcessInfo option"
  leNow :: gotime
  leLater :: gotime

definition pipelineHandle :: "netip \<Rightarrow> lookupEnv \<Rightarrow> (Decision \<Rightarrow> bytes \<Rightarrow> handler_error option) \<Rightarrow> bytes \<Rightarrow>
    Pipeline \<Rightarrow> handler_error option \<times> Decision option \<times> Pipeline" where
  "pipelineHandle N env handler packet p =
     (case ParseFlow N packet of
        Inl _ \<Rightarrow> (None, None, p\<lparr>ppStats := (ppStats p)\<lparr>psUnsupported := psUnsupported (ppStats p) + 1\<rparr>\<rparr>)
      | Inr flow \<Rightarrow>
          (case LookupFlow (leCtxDone env) (leProvider env) (leNow env) (leLater env) flow (ppTracker p) of
             (found, tracker) \<Rightarrow>
               let p = p\<lparr>ppTracker := tracker\<rparr>;
                   p = (case found of
                     Inl _ \<Rightarrow> p\<lparr>ppStats := (ppStats p)\<lparr>psLookupErrors := psLookupErrors (ppStats p) + 1\<rparr>\<rparr>
                   | Inr _ \<Rightarrow> p);
                   decision = (case found of
                     Inl _ \<Rightarrow> DecideUnknownProcess N (ppRouter p) flow
                   | Inr proc \<Rightarrow> routerDecide N (ppRouter p) flow proc);
                   p = p\<lparr>ppStats := countDecision (deAction decision) (length packet) (ppStats p)\<rparr>
               in case handler decision packet of
                    Some e \<Rightarrow> (Some e, Some decision,
                      p\<lparr>ppStats := (ppStats p)\<lparr>psHandlerErrors := psHandlerErrors (ppStats p) + 1\<rparr>\<rparr>)
                  | None \<Rightarrow> (None, Some decision, p)))"

text \<open>
  \<open>Run\<close> over what the device delivers: a packet with the lookups and whether the context is done after it, or
  an error with whether it is the end of the stream or the context is done. The result is \<open>Some\<close> with
  the error returned, if any, or \<open>None\<close> while the loop still reads.
\<close>

datatype deviceRead =
    ReadPacket lookupEnv bytes bool
  | ReadFailed bool

datatype run_error = RunContext | RunDevice | RunFatal handler_error

fun pipelineRun :: "netip \<Rightarrow> (Decision \<Rightarrow> bytes \<Rightarrow> handler_error option) \<Rightarrow> deviceRead list \<Rightarrow> Pipeline \<Rightarrow>
    run_error option \<times> Pipeline" where
  "pipelineRun N handler [] p = (None, p)"
| "pipelineRun N handler (ReadFailed ended # reads) p = (Some (if ended then RunContext else RunDevice), p)"
| "pipelineRun N handler (ReadPacket env packet ctxDone # reads) p =
     (if packet = [] then pipelineRun N handler reads p
      else
        let p = p\<lparr>ppStats := (ppStats p)\<lparr>psPacketsRead := psPacketsRead (ppStats p) + 1,
                 psBytesRead := psBytesRead (ppStats p) + of_nat (length packet)\<rparr>\<rparr>
        in case pipelineHandle N env handler packet p of
             (Some e, _, p) \<Rightarrow>
               if \<not> ctxDone \<and> fatalError e then (Some (RunFatal e), p) else pipelineRun N handler reads p
           | (None, _, p) \<Rightarrow> pipelineRun N handler reads p)"

end
