(* ===== verification/Config.thy ===== *)
theory Config
  imports Pipeline Handshake
begin

text \<open>
  The configuration and its validation (\<open>internal/config/config.go\<close>). Strings are the values read from the
  file; the text of addresses is the parameter \<open>netip\<close>, and \<open>resolves\<close> says for which texts
  \<open>net.ResolveUDPAddr\<close> finds an address.
\<close>

section \<open>The schema\<close>

text \<open>A \<open>float64\<close>: a number, an infinity or not a number. Only comparisons with numbers are needed.\<close>

datatype float64 = Num rat | PosInf | NegInf | NaN

fun fLess :: "float64 \<Rightarrow> float64 \<Rightarrow> bool" where
  "fLess (Num a) (Num b) = (a < b)"
| "fLess NegInf b = (b \<noteq> NegInf \<and> b \<noteq> NaN)"
| "fLess a PosInf = (a \<noteq> PosInf \<and> a \<noteq> NaN)"
| "fLess _ _ = False"

definition fLessEq :: "float64 \<Rightarrow> float64 \<Rightarrow> bool" where
  "fLessEq a b \<longleftrightarrow> fLess a b \<or> a = b \<and> a \<noteq> NaN"

record CapturedUDPNamedPipeConfig =
  npName :: string
  npAllowedSIDs :: "string list"
  npMinimumIntegrityRID :: u32
  npOperationTimeout :: duration
  npIdleTimeout :: duration
  npAllowInsecureUserSID :: bool

record CapturedUDPConfig =
  cuMode :: string
  cuNamedPipe :: CapturedUDPNamedPipeConfig

record TUNConfig =
  tcName :: string
  tcAddress :: string
  tcMTU :: int
  tcAutoRoute :: bool
  tcDNSHijack :: bool
  tcTGPOnly :: bool
  tcGameRoutes :: "string list"

record ProxyConfig =
  pxServerAddr :: string
  pxTGPServerAddr :: string
  pxLocalAddrs :: "string list"

record ClientConfig =
  ccTUN :: TUNConfig
  ccRouting :: RouterConfig
  ccProxy :: ProxyConfig
  ccCapturedUDP :: CapturedUDPConfig

record RelayTargetRule =
  rtCIDR :: string
  rtDomain :: string
  rtPorts :: string

record TLSConfig =
  tlsCertFile :: string
  tlsKeyFile :: string

record RelayConfig =
  rlDialTimeout :: duration
  rlIdleTimeout :: duration
  rlMaxSessions :: int
  rlSessionQueueSize :: int
  rlHandlerConcurrency :: int
  rlMaxFlows :: int
  rlMaxFlowsPerSession :: int
  rlAllowedTargets :: "RelayTargetRule list"

record ServerConfig =
  svListen :: string
  svTLS :: TLSConfig
  svRelay :: RelayConfig

record FECConfig =
  fcDataShards :: int
  fcParityShards :: int
  fcGroupTimeout :: duration
  fcDynamic :: bool
  fcAdaptWindow :: int

record PacingConfig =
  pcInitialRatePPS :: float64
  pcMaxRatePPS :: float64

record TGPAuthConfig =
  taPSK :: string
  taAllowUnauthenticated :: bool

record TGPConfig =
  tgFEC :: FECConfig
  tgPacing :: PacingConfig
  tgAuth :: TGPAuthConfig
  tgConnectionMigration :: bool
  tgMultipath :: bool
  tgMaxDatagramSize :: int
  tgHandshakeTimeout :: duration
  tgSessionIdleTimeout :: duration

record IPCConfig =
  ipWebSocketAddr :: string
  ipGRPCAddr :: string
  ipTelemetryIntervalMS :: int

record ObservabilityConfig =
  obLogLevel :: string
  obLogFile :: string
  obMetricsAddr :: string

record Config =
  cfMode :: string
  cfClient :: ClientConfig
  cfServer :: ServerConfig
  cfTGP :: TGPConfig
  cfIPC :: IPCConfig
  cfObservability :: ObservabilityConfig

definition ModeClient :: string where "ModeClient = ''client''"
definition ModeServer :: string where "ModeServer = ''server''"
definition placeholderTGPPSK :: string where "placeholderTGPPSK = ''replace-with-shared-tgp-psk''"
definition DefaultMTU :: int where "DefaultMTU = 1280"
definition WorstCaseTUNOverhead :: int where "WorstCaseTUNOverhead = 68"

section \<open>Defaults\<close>

definition config_defaults :: Config where
  "config_defaults = \<lparr>cfMode = ModeClient,
     cfClient = \<lparr>
       ccTUN = \<lparr>tcName = [], tcAddress = ''198.18.0.1/16'', tcMTU = DefaultMTU, tcAutoRoute = False,
         tcDNSHijack = False, tcTGPOnly = True, tcGameRoutes = []\<rparr>,
       ccRouting = \<lparr>rcDefaultAction = ''direct'', rcRules = [], crGameProfiles = None, crLaunchers = None\<rparr>,
       ccProxy = \<lparr>pxServerAddr = [], pxTGPServerAddr = [], pxLocalAddrs = []\<rparr>,
       ccCapturedUDP = \<lparr>cuMode = ''disabled'', cuNamedPipe = \<lparr>npName = [], npAllowedSIDs = [],
         npMinimumIntegrityRID = 0, npOperationTimeout = 0, npIdleTimeout = 0, npAllowInsecureUserSID = False\<rparr>\<rparr>\<rparr>,
     cfServer = \<lparr>svListen = '':443'', svTLS = \<lparr>tlsCertFile = [], tlsKeyFile = []\<rparr>,
       svRelay = \<lparr>rlDialTimeout = 5 * time_Second, rlIdleTimeout = 60 * time_Second, rlMaxSessions = 1024,
         rlSessionQueueSize = 256, rlHandlerConcurrency = 1024, rlMaxFlows = 4096,
         rlMaxFlowsPerSession = 256, rlAllowedTargets = []\<rparr>\<rparr>,
     cfTGP = \<lparr>tgFEC = \<lparr>fcDataShards = 4, fcParityShards = 2, fcGroupTimeout = 20 * time_Millisecond,
         fcDynamic = True, fcAdaptWindow = 32\<rparr>,
       tgPacing = \<lparr>pcInitialRatePPS = Num 128, pcMaxRatePPS = Num 1000\<rparr>,
       tgAuth = \<lparr>taPSK = [], taAllowUnauthenticated = False\<rparr>,
       tgConnectionMigration = True, tgMultipath = False, tgMaxDatagramSize = DefaultTGPDatagramSize,
       tgHandshakeTimeout = 5 * time_Second, tgSessionIdleTimeout = 60 * time_Second\<rparr>,
     cfIPC = \<lparr>ipWebSocketAddr = ''127.0.0.1:55123'', ipGRPCAddr = ''127.0.0.1:50051'',
       ipTelemetryIntervalMS = 500\<rparr>,
     cfObservability = \<lparr>obLogLevel = ''info'', obLogFile = [], obMetricsAddr = []\<rparr>\<rparr>"

section \<open>Checks\<close>

text \<open>An error names the field, or the field, the index and the part of the entry, its text starts with.\<close>

datatype config_error =
    BadField string
  | BadEntry string nat string

text \<open>The first error of a sequence of checks.\<close>

fun firstError :: "'e option list \<Rightarrow> 'e option" where
  "firstError [] = None"
| "firstError (None # cs) = firstError cs"
| "firstError (Some e # cs) = Some e"

definition reject :: "bool \<Rightarrow> 'e \<Rightarrow> 'e option" where
  "reject bad e = (if bad then Some e else None)"

lemma firstError_None [simp]: "firstError cs = None \<longleftrightarrow> list_all (\<lambda>c. c = None) cs"
  by (induction cs rule: firstError.induct) auto

lemma reject_None [simp]: "reject bad e = None \<longleftrightarrow> \<not> bad" by (simp add: reject_def)

text \<open>The error of the first entry of a list that has one.\<close>

definition eachEntry :: "(nat \<Rightarrow> 'a \<Rightarrow> 'e option) \<Rightarrow> 'a list \<Rightarrow> 'e option" where
  "eachEntry f xs = firstError (map (\<lambda>(i, x). f i x) (enumerate 0 xs))"

lemma eachEntry_None: "eachEntry f xs = None \<longleftrightarrow> (\<forall>i < length xs. f i (xs ! i) = None)"
  by (auto simp: eachEntry_def list_all_length enumerate_eq_zip)

text \<open>\<open>net.SplitHostPort\<close>: the host and the port, split at the last colon.\<close>

definition splitHostPort :: "string \<Rightarrow> (string \<times> string) option" where
  "splitHostPort s =
     (let colon = CHR '':''
      in if colon \<notin> set s then None
         else
           let i = length s - 1 - length (takeWhile (\<lambda>c. c \<noteq> colon) (rev s));
               port = drop (Suc i) s
           in if hd s = CHR ''['' then
                (let end = length (takeWhile (\<lambda>c. c \<noteq> CHR '']'') s)
                 in if CHR '']'' \<notin> set s then None
                    else if Suc end \<noteq> i then None
                    else if CHR ''['' \<in> set (drop 1 s) then None
                    else if CHR '']'' \<in> set (drop (Suc end) s) then None
                    else Some (take (end - 1) (drop 1 s), port))
              else
                (let host = take i s
                 in if colon \<in> set host then None
                    else if CHR ''['' \<in> set s then None
                    else if CHR '']'' \<in> set s then None
                    else Some (host, port)))"

section \<open>Validation of the parts\<close>

definition isLoopback :: "Addr \<Rightarrow> bool" where
  "isLoopback a \<longleftrightarrow> a = Addr4 [127, 0, 0, 1] \<or> a = Addr6 (zeros 15 @ [1]) []"

definition validateLoopback :: "netip \<Rightarrow> string \<Rightarrow> string \<Rightarrow> config_error option" where
  "validateLoopback N name raw =
     (if trimSpace raw = [] then None
      else case splitHostPort (trimSpace raw) of
        None \<Rightarrow> Some (BadField name)
      | Some (host, portText) \<Rightarrow>
          (case parseAddr N host of
             None \<Rightarrow> Some (BadField name)
           | Some addr \<Rightarrow>
               if \<not> isLoopback addr then Some (BadField name)
               else case parseUint 16 portText of
                 None \<Rightarrow> Some (BadField name)
               | Some port \<Rightarrow> reject (port = 0) (BadField name)))"

text \<open>The source ranges over a map, in any order; which of two errors comes first is not fixed.\<close>

definition validateIPCConfig :: "netip \<Rightarrow> IPCConfig \<Rightarrow> config_error option" where
  "validateIPCConfig N c = firstError
     [validateLoopback N ''ipc.websocket_addr'' (ipWebSocketAddr c),
      validateLoopback N ''ipc.grpc_addr'' (ipGRPCAddr c),
      reject (ipTelemetryIntervalMS c < 0 \<or> ipTelemetryIntervalMS c > 60000) (BadField ''ipc.telemetry_interval_ms'')]"

definition isRestrictedHelperSID :: "string \<Rightarrow> bool" where
  "isRestrictedHelperSID sid \<longleftrightarrow> sid = ''S-1-5-18'' \<or> sid = ''S-1-5-19'' \<or> sid = ''S-1-5-20'' \<or>
     hasPrefix sid ''S-1-5-80-''"

definition validateCapturedUDP :: "CapturedUDPConfig \<Rightarrow> config_error option" where
  "validateCapturedUDP c =
     (let mode = toLower (trimSpace (cuMode c)); pipe = cuNamedPipe c
      in if mode = [] \<or> mode = ''disabled'' then None
         else if mode \<noteq> ''named_pipe'' then Some (BadField ''client.captured_udp.mode'')
         else firstError
           [reject (trimSpace (npName pipe) = []) (BadField ''client.captured_udp.named_pipe.name''),
            reject (npAllowedSIDs pipe = []) (BadField ''client.captured_udp.named_pipe.allowed_sids''),
            eachEntry (\<lambda>i rawSID. let sid = trimSpace rawSID
                in reject (sid = [] \<or> \<not> npAllowInsecureUserSID pipe \<and> \<not> isRestrictedHelperSID sid)
                  (BadEntry ''client.captured_udp.named_pipe.allowed_sids'' i [])) (npAllowedSIDs pipe),
            reject (npOperationTimeout pipe < 0 \<or> npOperationTimeout pipe > 30 * time_Second)
              (BadField ''client.captured_udp.named_pipe.operation_timeout''),
            reject (npIdleTimeout pipe < 0 \<or> npIdleTimeout pipe > 24 * 3600 * time_Second)
              (BadField ''client.captured_udp.named_pipe.idle_timeout'')])"

definition validateGameRoutes :: "netip \<Rightarrow> string list \<Rightarrow> config_error option" where
  "validateGameRoutes N routes = eachEntry (\<lambda>i raw.
     let e = BadEntry ''client.tun.game_routes'' i []; value = trimSpace raw
     in if value = [] then Some e
        else case parsePrefix N value of None \<Rightarrow> Some e | Some prefix \<Rightarrow> reject (prefixBits prefix = 0) e) routes"

definition isRouteAction :: "string \<Rightarrow> bool" where
  "isRouteAction raw = (toLower (trimSpace raw) \<in> set [''tgp'', ''direct'', ''drop'', ''block''])"

definition validateRouteRule :: "netip \<Rightarrow> nat \<Rightarrow> RouteRule \<Rightarrow> config_error option" where
  "validateRouteRule N i rule =
     (let e = BadEntry ''client.routing.rules'' i; protocol = toLower (trimSpace (rrProtocol rule))
      in firstError
        [reject (trimSpace (rrDomain rule) \<noteq> []) (e ''domain''),
         reject (trimSpace (rrGeoIPCountry rule) \<noteq> []) (e ''geoip''),
         reject (trimSpace (rrProcessName rule) = [] \<and> trimSpace (rrCIDR rule) = [] \<and> trimSpace (rrProtocol rule) = []) (e []),
         reject (trimSpace (rrCIDR rule) \<noteq> [] \<and> parsePrefix N (trimSpace (rrCIDR rule)) = None) (e ''cidr''),
         reject (protocol \<noteq> [] \<and> protocol \<noteq> ''udp'' \<and> protocol \<noteq> ''tcp'') (e ''protocol''),
         reject (\<not> isRouteAction (rrAction rule)) (e ''action''),
         reject (equalFold (trimSpace (rrAction rule)) ''tgp'' \<and> protocol \<noteq> ''udp'') (e ''action'')])"

definition validateClientRouting :: "netip \<Rightarrow> RouterConfig \<Rightarrow> config_error option" where
  "validateClientRouting N c =
     (let action = trimSpace (rcDefaultAction c)
      in firstError
        [reject (action \<noteq> [] \<and> (\<not> isRouteAction action \<or> equalFold action ''tgp'')) (BadField ''client.routing.default_action''),
         eachEntry (validateRouteRule N) (rcRules c)])"

definition validateClientDataPath :: "netip \<Rightarrow> ClientConfig \<Rightarrow> config_error option" where
  "validateClientDataPath N c = firstError
     [reject (tcAutoRoute (ccTUN c)) (BadField ''client.tun.auto_route''),
      reject (tcDNSHijack (ccTUN c)) (BadField ''client.tun.dns_hijack''),
      reject (\<not> tcTGPOnly (ccTUN c)) (BadField ''client.tun.tgp_only''),
      validateGameRoutes N (tcGameRoutes (ccTUN c)),
      validateClientRouting N (ccRouting c)]"

definition parsePortNumber :: "string \<Rightarrow> int option" where
  "parsePortNumber raw =
     (case parseAtoi (trimSpace raw) of
        None \<Rightarrow> None | Some port \<Rightarrow> if port < 1 \<or> port > 65535 then None else Some port)"

text \<open>One part of a port list: whether it is a port or a range.\<close>

definition validPortRange :: "string \<Rightarrow> bool" where
  "validPortRange part =
     (let item = trimSpace part; bounds = splitOn (CHR ''-'') item
      in if item = [] \<or> length bounds > 2 then False
         else case parsePortNumber (bounds ! 0) of
           None \<Rightarrow> False
         | Some start \<Rightarrow>
             (if length bounds = 2
              then (case parsePortNumber (bounds ! 1) of None \<Rightarrow> False | Some end \<Rightarrow> \<not> start > end)
              else True))"

definition validatePortRanges :: "string \<Rightarrow> bool" where
  "validatePortRanges raw =
     (let value = trimSpace raw
      in if value = [] then True else list_all validPortRange (splitOn (CHR '','') value))"

definition validateRelayTarget :: "netip \<Rightarrow> nat \<Rightarrow> RelayTargetRule \<Rightarrow> config_error option" where
  "validateRelayTarget N i rule =
     (let e = BadEntry ''server.relay.allowed_targets'' i; cidr = trimSpace (rtCIDR rule);
          domain = trimSpace (rtDomain rule)
      in firstError
        [reject (cidr = [] \<and> domain = []) (e []),
         (if cidr = [] then None
          else case parsePrefix N cidr of
            None \<Rightarrow> Some (e ''cidr'') | Some prefix \<Rightarrow> reject (prefixBits prefix = 0) (e ''cidr'')),
         reject (domain \<noteq> [] \<and> CHR '':'' \<in> set domain) (e ''domain''),
         reject (trimSpace (rtPorts rule) = []) (e ''ports''),
         reject (\<not> validatePortRanges (rtPorts rule)) (e ''ports'')])"

definition validateRelayTargets :: "netip \<Rightarrow> RelayTargetRule list \<Rightarrow> config_error option" where
  "validateRelayTargets N rules = eachEntry (validateRelayTarget N) rules"

definition validateRelayLimits :: "RelayConfig \<Rightarrow> config_error option" where
  "validateRelayLimits c = firstError
     [reject (rlMaxSessions c < 0) (BadField ''server.relay.max_sessions''),
      reject (rlSessionQueueSize c < 0) (BadField ''server.relay.session_queue_size''),
      reject (rlHandlerConcurrency c < 0) (BadField ''server.relay.handler_concurrency''),
      reject (rlMaxFlows c < 0) (BadField ''server.relay.max_flows''),
      reject (rlMaxFlowsPerSession c < 0) (BadField ''server.relay.max_flows_per_session'')]"

definition countLocalAddrs :: "string list \<Rightarrow> nat" where
  "countLocalAddrs addrs = length (filter (\<lambda>addr. trimSpace addr \<noteq> []) addrs)"

definition validateLocalAddrs :: "(string \<Rightarrow> bool) \<Rightarrow> string list \<Rightarrow> config_error option" where
  "validateLocalAddrs resolves addrs = eachEntry (\<lambda>i addr.
     reject (trimSpace addr = [] \<or> \<not> resolves (trimSpace addr)) (BadEntry ''client.proxy.local_addrs'' i [])) addrs"

text \<open>The loop with the identifiers ids so far.\<close>

fun validateGameProfiles :: "string list \<Rightarrow> GameProfile list \<Rightarrow> config_error option" where
  "validateGameProfiles ids [] = None"
| "validateGameProfiles ids (profile # rest) =
     (if ValidateProfile profile \<noteq> None then Some (BadField ''client.routing.game_profiles'')
      else let key = toLower (trimSpace (gpID profile))
        in if key \<in> set ids then Some (BadField ''client.routing.game_profiles'')
           else validateGameProfiles (key # ids) rest)"

section \<open>Validation\<close>

text \<open>The datagram limit and the MTU that count, zero standing for the default.\<close>

definition effectiveDatagramSize :: "TGPConfig \<Rightarrow> int" where
  "effectiveDatagramSize c =
     (if tgMaxDatagramSize c = 0 then DefaultTGPDatagramSize else tgMaxDatagramSize c)"

definition effectiveMTU :: "TUNConfig \<Rightarrow> int" where
  "effectiveMTU c = (if tcMTU c = 0 then DefaultMTU else tcMTU c)"

text \<open>The value of a sum of Go's \<open>int\<close>, which wraps around at 64 bits.\<close>

definition goInt :: "int \<Rightarrow> int" where
  "goInt x = (x + 2 ^ 63) mod 2 ^ 64 - 2 ^ 63"

definition validateClient :: "netip \<Rightarrow> (string \<Rightarrow> bool) \<Rightarrow> Config \<Rightarrow> config_error option" where
  "validateClient N resolves c =
     (let client = cfClient c; tunMTU = effectiveMTU (ccTUN client)
      in firstError
        [validateIPCConfig N (cfIPC c),
         reject (pxServerAddr (ccProxy client) = []) (BadField ''client.proxy.server_addr''),
         validateLocalAddrs resolves (pxLocalAddrs (ccProxy client)),
         reject (tgMultipath (cfTGP c) \<and> countLocalAddrs (pxLocalAddrs (ccProxy client)) < 2) (BadField ''tgp.multipath''),
         reject (tgMultipath (cfTGP c) \<and> \<not> tgConnectionMigration (cfTGP c)) (BadField ''tgp.multipath''),
         validateGameProfiles [] (case crGameProfiles (ccRouting client) of None \<Rightarrow> [] | Some ps \<Rightarrow> ps),
         validateClientDataPath N client,
         validateCapturedUDP (ccCapturedUDP client),
         reject (tunMTU < 576) (BadField ''client.tun.mtu''),
         reject (goInt (tunMTU + WorstCaseTUNOverhead) > effectiveDatagramSize (cfTGP c)) (BadField ''client.tun.mtu'')])"

definition validateServer :: "netip \<Rightarrow> Config \<Rightarrow> config_error option" where
  "validateServer N c = firstError
     [reject (svListen (cfServer c) = []) (BadField ''server.listen''),
      validateRelayTargets N (rlAllowedTargets (svRelay (cfServer c))),
      validateRelayLimits (svRelay (cfServer c))]"

definition validateTGP :: "Config \<Rightarrow> config_error option" where
  "validateTGP c =
     (let t = cfTGP c; fec = tgFEC t; psk = trimSpace (taPSK (tgAuth t))
      in firstError
        [reject (fcDataShards fec < 1) (BadField ''tgp.fec.data_shards''),
         reject (fcDataShards fec > MaxFECDataShards) (BadField ''tgp.fec.data_shards''),
         reject (fcParityShards fec < 0 \<or> fcParityShards fec > MaxFECParityShards) (BadField ''tgp.fec.parity_shards''),
         reject (fcDataShards fec + fcParityShards fec > MaxFECTotalShards) (BadField ''tgp.fec''),
         reject (fLessEq (pcInitialRatePPS (tgPacing t)) (Num 0)) (BadField ''tgp.pacing.initial_rate_pps''),
         reject (fLess (pcMaxRatePPS (tgPacing t)) (Num 0)) (BadField ''tgp.pacing.max_rate_pps''),
         reject (tgHandshakeTimeout t < 0 \<or> tgHandshakeTimeout t > MaxHandshakeTimeout) (BadField ''tgp.handshake_timeout''),
         reject (equalFold psk placeholderTGPPSK) (BadField ''tgp.auth.psk''),
         reject (psk \<noteq> [] \<and> length psk < 16) (BadField ''tgp.auth.psk''),
         reject (cfMode c = ModeServer \<and> psk = [] \<and> \<not> taAllowUnauthenticated (tgAuth t)) (BadField ''tgp.auth.psk'')])"

definition Validate :: "netip \<Rightarrow> (string \<Rightarrow> bool) \<Rightarrow> Config \<Rightarrow> config_error option" where
  "Validate N resolves c = firstError
     [reject (cfMode c \<noteq> ModeClient \<and> cfMode c \<noteq> ModeServer) (BadField ''mode''),
      reject (effectiveDatagramSize (cfTGP c) < MinTGPDatagramSize \<or>
        effectiveDatagramSize (cfTGP c) > MaxTGPDatagramSize) (BadField ''tgp.max_datagram_size''),
      (if cfMode c = ModeClient then validateClient N resolves c else None),
      (if cfMode c = ModeServer then validateServer N c else None),
      validateTGP c]"

section \<open>What the application makes of it\<close>

definition parseTUNPrefixes :: "netip \<Rightarrow> string \<Rightarrow> Prefix list option" where
  "parseTUNPrefixes N raw =
     (let parts = filter (\<lambda>value. value \<noteq> []) (map trimSpace (splitOn (CHR '','') raw));
          prefixes = map (parsePrefix N) parts
      in if None \<in> set prefixes \<or> prefixes = [] then None else Some (map the prefixes))"

definition clientHTTPAddr :: "string \<Rightarrow> IPCConfig \<Rightarrow> string" where
  "clientHTTPAddr env c =
     (if trimSpace env \<noteq> [] then trimSpace env
      else if trimSpace (ipWebSocketAddr c) \<noteq> [] then trimSpace (ipWebSocketAddr c)
      else ''127.0.0.1:55123'')"

definition clientHTTPAllowedOrigins :: "string \<Rightarrow> string list" where
  "clientHTTPAllowedOrigins env =
     (if trimSpace env = [] then []
      else filter (\<lambda>origin. origin \<noteq> []) (map trimSpace (splitOn (CHR '','') (trimSpace env))))"

definition clientTGPRemoteAddr :: "ProxyConfig \<Rightarrow> string" where
  "clientTGPRemoteAddr c =
     (if trimSpace (pxTGPServerAddr c) \<noteq> [] then trimSpace (pxTGPServerAddr c) else trimSpace (pxServerAddr c))"

definition clientTGPLocalAddrs :: "ProxyConfig \<Rightarrow> bool \<Rightarrow> string list" where
  "clientTGPLocalAddrs c multipath =
     (let addrs = filter (\<lambda>value. value \<noteq> []) (map trimSpace (pxLocalAddrs c))
      in if \<not> multipath \<and> length addrs > 1 then take 1 addrs else addrs)"

definition tgpFECOptions :: "FECConfig \<Rightarrow> FECOptions" where
  "tgpFECOptions c = \<lparr>optDataShards = fcDataShards c, optParityShards = fcParityShards c, MaxReceiveGroups = 0,
     GroupTimeout = fcGroupTimeout c, Dynamic = fcDynamic c, AdaptWindow = fcAdaptWindow c\<rparr>"

definition tgpPacerPPS :: "PacingConfig \<Rightarrow> float64" where
  "tgpPacerPPS c =
     (if fLess (Num 0) (pcMaxRatePPS c) \<and> fLess (pcMaxRatePPS c) (pcInitialRatePPS c)
      then pcMaxRatePPS c else pcInitialRatePPS c)"

definition tgpAuthKey :: "TGPAuthConfig \<Rightarrow> bytes" where
  "tgpAuthKey c = map (\<lambda>ch. of_nat (of_char ch)) (trimSpace (taPSK c))"

definition routingRuntimeConfig :: "RouterConfig \<Rightarrow> RoutingConfig" where
  "routingRuntimeConfig c =
     \<lparr>rcGameProfiles = (case crGameProfiles c of None \<Rightarrow> rcGameProfiles defaultRoutingConfig | Some ps \<Rightarrow> ps),
      rcLaunchers = (case crLaunchers c of None \<Rightarrow> rcLaunchers defaultRoutingConfig | Some l \<Rightarrow> l)\<rparr>"

end
