(* ===== verification/ServerRelay.thy ===== *)
theory ServerRelay
  imports Config Session GoMap
begin

text \<open>
  The server's packet handler (\<open>internal/app/server_handler.go\<close>): the list of allowed targets and the
  pool of UDP flows to them. The resolver is the parameter \<open>lookupIP\<close>; sockets are numbers, and what
  the dialler, the sockets and the sessions do are events.
\<close>

section \<open>The list of allowed targets\<close>

record portRange =
  prStart :: u16
  prEnd :: u16

record targetACLRule =
  arPrefixes :: "Prefix list"
  arPorts :: "portRange list"

datatype acl_error =
    ACLCIDR nat
  | ACLDomain nat
  | ACLPorts nat
  | ACLNoPrefix nat

definition parseACLPort :: "string \<Rightarrow> u16 option" where
  "parseACLPort raw =
     (case parseAtoi (trimSpace raw) of
        None \<Rightarrow> None | Some port \<Rightarrow> if port < 1 \<or> port > 65535 then None else Some (of_int port))"

definition parseACLRange :: "string \<Rightarrow> portRange option" where
  "parseACLRange part =
     (let item = trimSpace part; bounds = splitOn (CHR ''-'') item
      in if item = [] \<or> length bounds > 2 then None
         else case parseACLPort (bounds ! 0) of
           None \<Rightarrow> None
         | Some start \<Rightarrow>
             (case (if length bounds = 2 then parseACLPort (bounds ! 1) else Some start) of
                None \<Rightarrow> None
              | Some end \<Rightarrow> if start > end then None else Some \<lparr>prStart = start, prEnd = end\<rparr>))"

text \<open>The loop of \<open>parseACLPortRanges\<close>, which stops at the first part that is wrong.\<close>

fun parseACLRanges :: "string list \<Rightarrow> portRange list option" where
  "parseACLRanges [] = Some []"
| "parseACLRanges (part # parts) =
     (case parseACLRange part of
        None \<Rightarrow> None
      | Some r \<Rightarrow> (case parseACLRanges parts of None \<Rightarrow> None | Some rs \<Rightarrow> Some (r # rs)))"

definition parseACLPortRanges :: "string \<Rightarrow> portRange list option" where
  "parseACLPortRanges raw = parseACLRanges (splitOn (CHR '','') raw)"

text \<open>\<open>netip.Prefix.Masked\<close>: the bits behind the prefix are cleared.\<close>

definition maskBytes :: "nat \<Rightarrow> bytes \<Rightarrow> bytes" where
  "maskBytes n bs = map (\<lambda>(i, b). if 8 * i + 8 \<le> n then b else if n \<le> 8 * i then 0
     else push_bit (8 * i + 8 - n) (drop_bit (8 * i + 8 - n) b)) (enumerate 0 bs)"

definition Masked :: "Prefix \<Rightarrow> Prefix" where
  "Masked p = p\<lparr>prefixAddr := (case prefixAddr p of
     AddrZero \<Rightarrow> AddrZero | Addr4 b \<Rightarrow> Addr4 (maskBytes (prefixBits p) b)
   | Addr6 b z \<Rightarrow> Addr6 (maskBytes (prefixBits p) b) [])\<rparr>"

text \<open>\<open>netip.PrefixFrom\<close> drops the zone.\<close>

definition addrPrefix :: "Addr \<Rightarrow> Prefix" where
  "addrPrefix a = \<lparr>prefixAddr = (case a of Addr6 b z \<Rightarrow> Addr6 b [] | _ \<Rightarrow> a),
     prefixBits = (if Addr_Is4 a then 32 else 128)\<rparr>"

definition resolveACLDomain :: "netip \<Rightarrow> (string \<Rightarrow> Addr list option) \<Rightarrow> string \<Rightarrow> Prefix list option" where
  "resolveACLDomain N lookupIP domain =
     (case parseAddr N domain of
        Some addr \<Rightarrow> Some [addrPrefix addr]
      | None \<Rightarrow>
          (case lookupIP domain of
             None \<Rightarrow> None | Some addrs \<Rightarrow> if addrs = [] then None else Some (map addrPrefix addrs)))"

definition compileACLRule :: "netip \<Rightarrow> (string \<Rightarrow> Addr list option) \<Rightarrow> nat \<Rightarrow> RelayTargetRule \<Rightarrow> acl_error + targetACLRule" where
  "compileACLRule N lookupIP idx rule =
     (let cidr = trimSpace (rtCIDR rule); domain = trimSpace (rtDomain rule)
      in case (if cidr = [] then Some []
               else case parsePrefix N cidr of
                 None \<Rightarrow> None
               | Some prefix \<Rightarrow> if prefixBits prefix = 0 then None else Some [Masked prefix]) of
           None \<Rightarrow> Inl (ACLCIDR idx)
         | Some direct \<Rightarrow>
             (case (if domain = [] then Some [] else resolveACLDomain N lookupIP domain) of
                None \<Rightarrow> Inl (ACLDomain idx)
              | Some resolved \<Rightarrow>
                  if trimSpace (rtPorts rule) = [] then Inl (ACLPorts idx)
                  else case parseACLPortRanges (rtPorts rule) of
                    None \<Rightarrow> Inl (ACLPorts idx)
                  | Some ports \<Rightarrow>
                      if direct @ resolved = [] then Inl (ACLNoPrefix idx)
                      else Inr \<lparr>arPrefixes = direct @ resolved, arPorts = ports\<rparr>))"

fun compileACLRules :: "netip \<Rightarrow> (string \<Rightarrow> Addr list option) \<Rightarrow> nat \<Rightarrow> RelayTargetRule list \<Rightarrow> acl_error + targetACLRule list" where
  "compileACLRules N lookupIP idx [] = Inr []"
| "compileACLRules N lookupIP idx (rule # rules) =
     (case compileACLRule N lookupIP idx rule of
        Inl e \<Rightarrow> Inl e
      | Inr compiled \<Rightarrow>
          (case compileACLRules N lookupIP (Suc idx) rules of
             Inl e \<Rightarrow> Inl e | Inr acl \<Rightarrow> Inr (compiled # acl)))"

definition newTargetACL :: "netip \<Rightarrow> (string \<Rightarrow> Addr list option) \<Rightarrow> RelayTargetRule list \<Rightarrow> acl_error + targetACLRule list" where
  "newTargetACL N lookupIP rules = compileACLRules N lookupIP 0 rules"

definition portAllowed :: "targetACLRule \<Rightarrow> u16 \<Rightarrow> bool" where
  "portAllowed r port = list_ex (\<lambda>item. prStart item \<le> port \<and> port \<le> prEnd item) (arPorts r)"

text \<open>\<open>None\<close> is a nil list.\<close>

definition Allows :: "targetACLRule list option \<Rightarrow> AddrPort \<Rightarrow> bool" where
  "Allows acl target =
     (case acl of
        None \<Rightarrow> False
      | Some rules \<Rightarrow>
          if \<not> Addr_IsValid (apAddr target) \<or> rules = [] then False
          else list_ex (\<lambda>rule. portAllowed rule (apPort target) \<and>
                 list_ex (\<lambda>prefix. prefixContains prefix (apAddr target)) (arPrefixes rule)) rules)"

section \<open>The pool of flows\<close>

record udpRelayKey =
  ukSession :: SessionID
  ukIdentity :: TunnelIdentity
  ukLocal :: AddrPort
  ukRemote :: AddrPort

text \<open>A connection is the number of its socket; the pool's own state, and which sockets were closed.\<close>

record udpRelayPool =
  upMaxFlows :: int
  upMaxFlowsPerSession :: int
  upDialTimeout :: duration
  upIdleTimeout :: duration
  upFlows :: "(udpRelayKey, nat) gomap"
  upFlowCounts :: "(SessionID, int) gomap"
  upPendingFlows :: int
  upPendingFlowCounts :: "(SessionID, int) gomap"
  upClosed :: bool
  upClosedConns :: "nat list"

record udpRelayPoolOptions =
  uoDialTimeout :: duration
  uoIdleTimeout :: duration
  uoMaxFlows :: int
  uoMaxFlowsPerSession :: int

definition newUDPRelayPool :: "udpRelayPoolOptions \<Rightarrow> udpRelayPool" where
  "newUDPRelayPool opts =
     \<lparr>upMaxFlows = (if uoMaxFlows opts \<le> 0 then 4096 else uoMaxFlows opts),
      upMaxFlowsPerSession = (if uoMaxFlowsPerSession opts \<le> 0 then 256 else uoMaxFlowsPerSession opts),
      upDialTimeout = (if uoDialTimeout opts \<le> 0 then 5 * time_Second else uoDialTimeout opts),
      upIdleTimeout = (if uoIdleTimeout opts \<le> 0 then 60 * time_Second else uoIdleTimeout opts),
      upFlows = [], upFlowCounts = [], upPendingFlows = 0, upPendingFlowCounts = [], upClosed = False,
      upClosedConns = []\<rparr>"

text \<open>Reading a counter of a map: a missing entry is zero.\<close>

definition countOf :: "(SessionID, int) gomap \<Rightarrow> SessionID \<Rightarrow> int" where
  "countOf m sid = (case gm_get m sid of None \<Rightarrow> 0 | Some n \<Rightarrow> n)"

definition countDown :: "(SessionID, int) gomap \<Rightarrow> SessionID \<Rightarrow> (SessionID, int) gomap" where
  "countDown m sid = (if countOf m sid \<le> 1 then gm_del m sid else gm_set m sid (countOf m sid - 1))"

definition flowLimitAllowsWithPending :: "SessionID \<Rightarrow> udpRelayPool \<Rightarrow> bool" where
  "flowLimitAllowsWithPending sid p =
     (if upMaxFlows p > 0 \<and> int (length (upFlows p)) + upPendingFlows p \<ge> upMaxFlows p then False
      else if upMaxFlowsPerSession p > 0 \<and>
              countOf (upFlowCounts p) sid + countOf (upPendingFlowCounts p) sid \<ge> upMaxFlowsPerSession p then False
      else True)"

definition flowLimitAllows :: "SessionID \<Rightarrow> udpRelayPool \<Rightarrow> bool" where
  "flowLimitAllows sid p =
     (if upMaxFlows p > 0 \<and> int (length (upFlows p)) \<ge> upMaxFlows p then False
      else if upMaxFlowsPerSession p > 0 \<and> countOf (upFlowCounts p) sid \<ge> upMaxFlowsPerSession p then False
      else True)"

definition reserveFlow :: "SessionID \<Rightarrow> udpRelayPool \<Rightarrow> bool \<times> udpRelayPool" where
  "reserveFlow sid p =
     (if \<not> flowLimitAllowsWithPending sid p then (False, p)
      else (True, p\<lparr>upPendingFlows := upPendingFlows p + 1,
        upPendingFlowCounts := gm_set (upPendingFlowCounts p) sid (countOf (upPendingFlowCounts p) sid + 1)\<rparr>))"

definition releaseReservedFlow :: "SessionID \<Rightarrow> udpRelayPool \<Rightarrow> udpRelayPool" where
  "releaseReservedFlow sid p =
     (let p = (if upPendingFlows p > 0 then p\<lparr>upPendingFlows := upPendingFlows p - 1\<rparr> else p)
      in p\<lparr>upPendingFlowCounts := countDown (upPendingFlowCounts p) sid\<rparr>)"

definition closeConn :: "nat \<Rightarrow> udpRelayPool \<Rightarrow> udpRelayPool" where
  "closeConn conn p = (if conn \<in> set (upClosedConns p) then p else p\<lparr>upClosedConns := conn # upClosedConns p\<rparr>)"

datatype pool_error = ErrPoolClosed | ErrUDPRelayFlowLimit | ErrPoolDial

text \<open>The first critical section of \<open>flow\<close>: an error, a flow, or a reservation to dial with.\<close>

datatype flow_start = FlowFailed pool_error | FlowExists nat | FlowDial

definition flowStart :: "udpRelayKey \<Rightarrow> udpRelayPool \<Rightarrow> flow_start \<times> udpRelayPool" where
  "flowStart key p =
     (if upClosed p then (FlowFailed ErrPoolClosed, p)
      else case gm_get (upFlows p) key of
        Some conn \<Rightarrow> (FlowExists conn, p)
      | None \<Rightarrow>
          (case reserveFlow (ukSession key) p of
             (False, p) \<Rightarrow> (FlowFailed ErrUDPRelayFlowLimit, p)
           | (True, p) \<Rightarrow> (FlowDial, p)))"

text \<open>The dial failed: the deferred release.\<close>

definition flowDialFailed :: "udpRelayKey \<Rightarrow> udpRelayPool \<Rightarrow> (pool_error + nat) \<times> udpRelayPool" where
  "flowDialFailed key p = (Inl ErrPoolDial, releaseReservedFlow (ukSession key) p)"

text \<open>The second critical section, with the connection that was dialled.\<close>

definition flowCommit :: "udpRelayKey \<Rightarrow> nat \<Rightarrow> udpRelayPool \<Rightarrow> (pool_error + nat) \<times> udpRelayPool" where
  "flowCommit key conn p =
     (let p = releaseReservedFlow (ukSession key) p
      in if upClosed p then (Inl ErrPoolClosed, closeConn conn p)
         else case gm_get (upFlows p) key of
           Some existing \<Rightarrow> (Inr existing, closeConn conn p)
         | None \<Rightarrow>
             if \<not> flowLimitAllows (ukSession key) p then (Inl ErrUDPRelayFlowLimit, closeConn conn p)
             else (Inr conn, p\<lparr>upFlows := gm_set (upFlows p) key conn,
               upFlowCounts := gm_set (upFlowCounts p) (ukSession key) (countOf (upFlowCounts p) (ukSession key) + 1)\<rparr>))"

text \<open>
  The end of a flow's read loop: \<open>remove\<close> and \<open>close\<close>. Here and in \<open>Close\<close> the connections are closed after
  the lock is released, in one step with the critical section: no operation of the pool reads whether a
  connection is closed, so the closing can be moved there.
\<close>

definition removeFlow :: "udpRelayKey \<Rightarrow> nat \<Rightarrow> udpRelayPool \<Rightarrow> udpRelayPool" where
  "removeFlow key conn p =
     (if gm_get (upFlows p) key = Some conn
      then p\<lparr>upFlows := gm_del (upFlows p) key, upFlowCounts := countDown (upFlowCounts p) (ukSession key)\<rparr>
      else p)"

definition flowReadEnds :: "udpRelayKey \<Rightarrow> nat \<Rightarrow> udpRelayPool \<Rightarrow> udpRelayPool" where
  "flowReadEnds key conn p = closeConn conn (removeFlow key conn p)"

definition poolClose :: "udpRelayPool \<Rightarrow> udpRelayPool" where
  "poolClose p =
     (let flows = map snd (upFlows p);
          p = p\<lparr>upFlows := [], upFlowCounts := [], upPendingFlows := 0, upPendingFlowCounts := [], upClosed := True\<rparr>
      in fold closeConn flows p)"

text \<open>What a flow sends back for a payload it read.\<close>

definition sendResponse :: "udpRelayKey \<Rightarrow> bytes \<Rightarrow> tgp_error + bytes" where
  "sendResponse key payload = MarshalTunnelDatagram
     \<lparr>Identity = ukIdentity key, LocalIP = apAddr (ukLocal key), LocalPort = apPort (ukLocal key),
      RemoteIP = apAddr (ukRemote key), RemotePort = apPort (ukRemote key), tunnelPayload = payload\<rparr>"

section \<open>The handler\<close>

datatype relay_error =
    RelayTunnel tgp_error
  | ErrRelayTargetDenied
  | RelayNoSession
  | RelayForward

definition relayKey :: "SessionID \<Rightarrow> TunnelDatagram \<Rightarrow> udpRelayKey" where
  "relayKey sid d = \<lparr>ukSession = sid, ukIdentity = Identity d,
     ukLocal = \<lparr>apAddr = LocalIP d, apPort = LocalPort d\<rparr>,
     ukRemote = \<lparr>apAddr = RemoteIP d, apPort = RemotePort d\<rparr>\<rparr>"

text \<open>
  \<open>ForwardUDP\<close>: the packet must have a session; \<open>sendOk\<close> says whether a flow is found or dialled and takes
  the payload. The result lists the flow key and payload that were given to a flow.
\<close>

definition ForwardUDP :: "bool \<Rightarrow> bool \<Rightarrow> SessionID \<Rightarrow> TunnelDatagram \<Rightarrow>
    relay_error option \<times> (udpRelayKey \<times> bytes) list" where
  "ForwardUDP hasSession sendOk sid d =
     (if \<not> hasSession then (Some RelayNoSession, [])
      else (if sendOk then None else Some RelayForward, [(relayKey sid d, tunnelPayload d)]))"

text \<open>\<open>relay\<close>: whether the handler has a pool, what it has in production; without one it forwards nothing.\<close>

definition HandleRelayPacket :: "targetACLRule list option \<Rightarrow> bool \<Rightarrow> bool \<Rightarrow> bool \<Rightarrow> SessionID \<Rightarrow> bytes \<Rightarrow>
    relay_error option \<times> (udpRelayKey \<times> bytes) list" where
  "HandleRelayPacket acl relay hasSession sendOk sid payload =
     (case ParseTunnelDatagram payload of
        Inl e \<Rightarrow> (Some (RelayTunnel e), [])
      | Inr d \<Rightarrow>
          if \<not> Allows acl \<lparr>apAddr = RemoteIP d, apPort = RemotePort d\<rparr> then (Some ErrRelayTargetDenied, [])
          else if \<not> relay then (None, [])
          else ForwardUDP hasSession sendOk sid d)"

end
