(* ===== verification/Packet_Wire.thy ===== *)
theory Packet_Wire
  imports Packet
begin

text \<open>
  What a UDP packet is on the wire, stated without the parser: an IPv4 header of any length with its
  options, or an IPv6 header that UDP follows at once, then a UDP header whose length field counts the
  payload, then bytes that belong to neither. The parser of the pipeline accepts exactly these.
\<close>

inductive udpOnWire :: "AddrPort \<Rightarrow> AddrPort \<Rightarrow> bytes \<Rightarrow> bytes \<Rightarrow> bool" where
  IPv4: "drop_bit 4 version = 4 \<Longrightarrow> 5 \<le> unat (version AND 0x0f) \<Longrightarrow> length front = 8 \<Longrightarrow> length checksum = 2 \<Longrightarrow>
    length s = 4 \<Longrightarrow> length d = 4 \<Longrightarrow> 20 + length options = 4 * unat (version AND 0x0f) \<Longrightarrow>
    length payload \<le> 65527 \<Longrightarrow>
    udpOnWire \<lparr>apAddr = Addr4 s, apPort = sp\<rparr> \<lparr>apAddr = Addr4 d, apPort = dp\<rparr> payload
      ((version # front @ [17] @ checksum @ s @ d @ options) @ udpDatagram sp dp c payload @ trailer)"
| IPv6: "drop_bit 4 version = 6 \<Longrightarrow> length front = 5 \<Longrightarrow> length s = 16 \<Longrightarrow> length d = 16 \<Longrightarrow>
    length payload \<le> 65527 \<Longrightarrow>
    udpOnWire \<lparr>apAddr = Addr6 s [], apPort = sp\<rparr> \<lparr>apAddr = Addr6 d [], apPort = dp\<rparr> payload
      ((version # front @ [17, hops] @ s @ d) @ udpDatagram sp dp c payload @ trailer)"

section \<open>The parser reads them\<close>

lemma udp_fields:
  assumes "length h = k" and "length payload \<le> 65527" and "pkt = h @ udpDatagram sp dp c payload @ trailer"
  shows "k + 8 + length payload \<le> length pkt" "gslice k (k + 2) pkt = put_u16 sp"
    "gslice (k + 2) (k + 4) pkt = put_u16 dp"
    "unat (get_u16 (gslice (k + 4) (k + 6) pkt)) = 8 + length payload"
    "gslice (k + 8) (k + (8 + length payload)) pkt = payload"
proof -
  have n: "unat (of_nat (8 + length payload) :: u16) = 8 + length payload"
    using assms(2) by (intro unat_of_nat_u16) simp
  have g: "gslice (k + i) (k + j) pkt = gslice i j (udpDatagram sp dp c payload @ trailer)" for i j
    unfolding assms(3) gslice_def using assms(1) by simp
  show "k + 8 + length payload \<le> length pkt" using assms by (simp add: udpDatagram_def)
  show "gslice k (k + 2) pkt = put_u16 sp"
    using g [of 0 2] by (simp add: udpDatagram_def gslice_def)
  show "gslice (k + 2) (k + 4) pkt = put_u16 dp" "gslice (k + 8) (k + (8 + length payload)) pkt = payload"
    unfolding g by (simp_all add: udpDatagram_def gslice_def)
  have "gslice (k + 4) (k + 6) pkt = put_u16 (of_nat (8 + length payload))"
    unfolding g by (simp add: udpDatagram_def gslice_def)
  then show "unat (get_u16 (gslice (k + 4) (k + 6) pkt)) = 8 + length payload" using n by simp
qed

lemma wire_parsed:
  assumes "udpOnWire src dst payload pkt"
  shows "ParseFlow N pkt = Inr (flowBetween N src dst) \<and>
    ExtractUDPPayload N pkt = Inr (flowBetween N src dst, payload)"
  using assms
proof cases
  case (IPv4 version front checksum s d options sp dp c trailer)
  let ?h = "version # front @ [17] @ checksum @ s @ d @ options" and ?k = "ipv4HeaderLen pkt"
  have v: "pkt ! 0 = version" using IPv4 by simp
  have k: "?k = 4 * unat (version AND 0x0f)" "20 \<le> ?k" using IPv4(5,10) v by (simp_all add: ipv4HeaderLen_def)
  have l: "length ?h = ?k" using IPv4 k(1) by simp
  note u = udp_fields [OF l IPv4(11) IPv4(3)]
  have f: "pkt ! 9 = 17" "gslice 12 16 pkt = s" "gslice 16 20 pkt = d"
    using IPv4(6-9) unfolding IPv4(3) by (simp_all add: gslice_def nth_append nth_Cons')
  have p: "parseIPv4Flow N pkt = Inr (flowBetween N src dst)"
    using f k u by (simp add: parseIPv4Flow_def transportFromIPProtocol_def flowBetween_def TransportUDP_def
        TransportTCP_def Let_def IPv4(1,2) withoutZone_def)
  have "extractIPv4UDPPayload N pkt = Inr (flowBetween N src dst, payload)"
    using k u by (simp add: extractIPv4UDPPayload_def p flowBetween_def Let_def)
  then show ?thesis using p v IPv4(3,4) by (simp add: ParseFlow_def ExtractUDPPayload_def)
next
  case (IPv6 version front s d sp dp hops c trailer)
  let ?h = "version # front @ [17, hops] @ s @ d"
  have v: "pkt ! 0 = version" using IPv6 by simp
  have l: "length ?h = 40" using IPv6 by simp
  note u = udp_fields [OF l IPv6(8) IPv6(3)]
  have f: "pkt ! 6 = 17" "gslice 8 24 pkt = s" "gslice 24 40 pkt = d"
    using IPv6(5-7) unfolding IPv6(3) by (simp_all add: gslice_def nth_append nth_Cons')
  have p: "parseIPv6Flow N pkt = Inr (flowBetween N src dst)"
    using f u by (simp add: parseIPv6Flow_def transportFromIPProtocol_def flowBetween_def TransportUDP_def
        TransportTCP_def IPv6(1,2) withoutZone_def)
  have "extractIPv6UDPPayload N pkt = Inr (flowBetween N src dst, payload)"
    using u by (simp add: extractIPv6UDPPayload_def p flowBetween_def Let_def)
  then show ?thesis using p v IPv6(3,4) by (simp add: ParseFlow_def ExtractUDPPayload_def)
qed

section \<open>It reads nothing else\<close>

lemma udp_split:
  assumes "k + m \<le> length pkt" and "8 \<le> m" and "m = unat (get_u16 (gslice (k + 4) (k + 6) pkt))"
    and "payload = gslice (k + 8) (k + m) pkt"
  shows "drop k pkt = udpDatagram (get_u16 (gslice k (k + 2) pkt)) (get_u16 (gslice (k + 2) (k + 4) pkt))
      (get_u16 (gslice (k + 6) (k + 8) pkt)) payload @ drop (k + m) pkt \<and> length payload \<le> 65527"
proof -
  have l: "8 + length payload = m" using assms(1,2) by (simp add: assms(4))
  have "m < 2 ^ 16" using unsigned_less [of "get_u16 (gslice (k + 4) (k + 6) pkt)"] assms(3) by simp
  then have b: "length payload \<le> 65527" using l by simp
  have w: "put_u16 (of_nat m) = gslice (k + 4) (k + 6) pkt"
    using assms(1,2) unfolding assms(3) by (simp add: of_nat_unat)
  have r: "put_u16 (get_u16 (gslice k (k + 2) pkt)) = gslice k (k + 2) pkt"
    "put_u16 (get_u16 (gslice (k + 2) (k + 4) pkt)) = gslice (k + 2) (k + 4) pkt"
    "put_u16 (get_u16 (gslice (k + 6) (k + 8) pkt)) = gslice (k + 6) (k + 8) pkt"
    using assms(1,2) by (auto intro!: put_get_u16)
  have "drop k pkt = gslice k (k + 2) pkt @ gslice (k + 2) (k + 4) pkt @ gslice (k + 4) (k + 6) pkt @
      gslice (k + 6) (k + 8) pkt @ payload @ drop (k + m) pkt"
    using assms(2) unfolding assms(4) by (simp add: slice_to_drop)
  then show ?thesis using b by (simp only: udpDatagram_def l w r append_assoc)
qed

lemma parsed_wire:
  assumes "ExtractUDPPayload N pkt = Inr (flow, payload)"
  shows "\<exists>src dst. udpOnWire src dst payload pkt \<and> flow = flowBetween N src dst"
proof -
  consider (4) "drop_bit 4 (pkt ! 0) = 4" "extractIPv4UDPPayload N pkt = Inr (flow, payload)"
    | (6) "drop_bit 4 (pkt ! 0) = 6" "extractIPv6UDPPayload N pkt = Inr (flow, payload)"
    using assms by (auto simp: ExtractUDPPayload_def split: if_splits)
  then show ?thesis
  proof cases
    case 4
    define k where "k = ipv4HeaderLen pkt"
    define m where "m = unat (get_u16 (gslice (k + 4) (k + 6) pkt))"
    have p: "parseIPv4Flow N pkt = Inr flow" "fkTransport flow = TransportUDP" "8 \<le> m" "k + m \<le> length pkt"
      "payload = gslice (k + 8) (k + m) pkt"
      using 4(2) by (auto simp: extractIPv4UDPPayload_def Let_def k_def m_def split: sum.splits if_splits)
    have h: "20 \<le> k" "20 \<le> length pkt" "transportFromIPProtocol (pkt ! 9) = Inr TransportUDP"
      "flow = \<lparr>fkTransport = TransportUDP, fkLocalIP = addrText N (Addr4 (gslice 12 16 pkt)),
         fkLocalPort = get_u16 (gslice k (k + 2) pkt), fkRemoteIP = addrText N (Addr4 (gslice 16 20 pkt)),
         fkRemotePort = get_u16 (gslice (k + 2) (k + 4) pkt)\<rparr>"
      using p(1,2) by (auto simp: parseIPv4Flow_def Let_def k_def split: if_splits sum.splits)
    have "pkt ! 9 = 17" using h(3) by (auto simp: transportFromIPProtocol_def TransportUDP_def TransportTCP_def split: if_splits)
    then have nine: "[17] = gslice 9 10 pkt" using h(2) gslice_single [of 9 pkt] by simp
    have "pkt = pkt ! 0 # drop 1 pkt" using h(2) by (cases pkt) auto
    also have "drop 1 pkt = gslice 1 9 pkt @ [17] @ gslice 10 12 pkt @ gslice 12 16 pkt @ gslice 16 20 pkt @
        gslice 20 k pkt @ drop k pkt"
      unfolding nine using h(1) by (simp add: slice_to_drop)
    finally have e: "pkt = (pkt ! 0 # gslice 1 9 pkt @ [17] @ gslice 10 12 pkt @ gslice 12 16 pkt @ gslice 16 20 pkt @
        gslice 20 k pkt) @ drop k pkt" by simp
    note u = udp_split [OF p(4,3) m_def p(5)]
    have "udpOnWire \<lparr>apAddr = Addr4 (gslice 12 16 pkt), apPort = get_u16 (gslice k (k + 2) pkt)\<rparr>
        \<lparr>apAddr = Addr4 (gslice 16 20 pkt), apPort = get_u16 (gslice (k + 2) (k + 4) pkt)\<rparr> payload pkt"
      using h(1,2) p(3,4) u 4(1)
      by (subst e, subst conjunct1 [OF u], intro udpOnWire.IPv4) (simp_all add: k_def ipv4HeaderLen_def)
    then show ?thesis
      using h(4) by (intro exI conjI) (assumption, simp add: flowBetween_def withoutZone_def)
  next
    case 6
    define m where "m = unat (get_u16 (gslice (40 + 4) (40 + 6) pkt))"
    have p: "parseIPv6Flow N pkt = Inr flow" "fkTransport flow = TransportUDP" "8 \<le> m" "40 + m \<le> length pkt"
      "payload = gslice (40 + 8) (40 + m) pkt"
      using 6(2) by (auto simp: extractIPv6UDPPayload_def Let_def m_def split: sum.splits if_splits)
    have h: "44 \<le> length pkt" "transportFromIPProtocol (pkt ! 6) = Inr TransportUDP"
      "flow = \<lparr>fkTransport = TransportUDP, fkLocalIP = addrText N (Addr6 (gslice 8 24 pkt) []),
         fkLocalPort = get_u16 (gslice 40 42 pkt), fkRemoteIP = addrText N (Addr6 (gslice 24 40 pkt) []),
         fkRemotePort = get_u16 (gslice 42 44 pkt)\<rparr>"
      using p(1,2) by (auto simp: parseIPv6Flow_def split: if_splits sum.splits)
    have "pkt ! 6 = 17" using h(2) by (auto simp: transportFromIPProtocol_def TransportUDP_def TransportTCP_def split: if_splits)
    then have six: "[17, pkt ! 7] = gslice 6 7 pkt @ gslice 7 8 pkt"
      using h(1) gslice_single [of 6 pkt] gslice_single [of 7 pkt] by simp
    have "pkt = pkt ! 0 # drop 1 pkt" using h(1) by (cases pkt) auto
    also have "drop 1 pkt = gslice 1 6 pkt @ [17, pkt ! 7] @ gslice 8 24 pkt @ gslice 24 40 pkt @ drop 40 pkt"
      unfolding six by (simp add: slice_to_drop)
    finally have e: "pkt = (pkt ! 0 # gslice 1 6 pkt @ [17, pkt ! 7] @ gslice 8 24 pkt @ gslice 24 40 pkt) @ drop 40 pkt"
      by simp
    note u = udp_split [OF p(4,3) m_def p(5)]
    have "udpOnWire \<lparr>apAddr = Addr6 (gslice 8 24 pkt) [], apPort = get_u16 (gslice 40 (40 + 2) pkt)\<rparr>
        \<lparr>apAddr = Addr6 (gslice 24 40 pkt) [], apPort = get_u16 (gslice (40 + 2) (40 + 4) pkt)\<rparr> payload pkt"
      using h(1) p(3,4) u 6(1)
      by (subst e, subst conjunct1 [OF u], intro udpOnWire.IPv6) simp_all
    then show ?thesis
      using h(3) by (intro exI conjI) (assumption, simp add: flowBetween_def withoutZone_def)
  qed
qed

end
