(* ===== verification/Pipeline_Props.thy ===== *)
theory Pipeline_Props
  imports Pipeline Packet_Wire
begin

text \<open>
  Properties of the pipeline: the order of rules, what happens to packets without a known process, the
  accounting, and the way of a packet into the tunnel and of a reply back.
\<close>

section \<open>The router\<close>

text \<open>What the game engine says about a flow, the empty string if nothing.\<close>

definition gameAction :: "Engine \<Rightarrow> ProcessInfo \<Rightarrow> FlowKey \<Rightarrow> string" where
  "gameAction e proc flow =
     (let game = engineDecide e proc flow
      in if gdKind game = DecisionGame then actionFromPolicies (fkTransport flow) game else [])"

lemma normalize_range:
  "fallback \<in> {ActionTGP, ActionDirect, ActionDrop} \<Longrightarrow>
    normalizeAction raw fallback \<in> {ActionTGP, ActionDirect, ActionDrop}"
  by (simp add: normalizeAction_def Let_def)

lemma policies_range: "actionFromPolicies tr d \<in> {[], ActionTGP, ActionDirect, ActionDrop}"
  by (simp add: actionFromPolicies_def)

text \<open>
  Which rule decides. A game profile decides when its policy says something about the transport;
  otherwise the rule of highest priority that matches, and of several the one configured first; and
  without one the default, which is to go direct when the configuration names no known action. The
  decision is one of the three actions.
\<close>

theorem router_decision_order:
  "deAction (routerDecide N (NewRouter cfg e) flow proc) =
     (let default = normalizeAction (rcDefaultAction cfg) ''direct''
      in if gameAction e proc flow \<noteq> [] then gameAction e proc flow
         else case bestBy ruleOrder (\<lambda>(i, rule). routeRuleMatches N rule flow proc) (enumerate 0 (rcRules cfg)) of
           Some (i, rule) \<Rightarrow> normalizeAction (rrAction rule) default
         | None \<Rightarrow> default) \<and>
   deAction (routerDecide N (NewRouter cfg e) flow proc) \<in> {''tgp'', ''direct'', ''drop''}"
proof -
  have d: "deAction (routerDecide N (NewRouter cfg e) flow proc) =
     (let default = normalizeAction (rcDefaultAction cfg) ''direct''
      in if gameAction e proc flow \<noteq> [] then gameAction e proc flow
         else case bestBy ruleOrder (\<lambda>(i, rule). routeRuleMatches N rule flow proc) (enumerate 0 (rcRules cfg)) of
           Some (i, rule) \<Rightarrow> normalizeAction (rrAction rule) default
         | None \<Rightarrow> default)"
    by (simp add: routerDecide_def NewRouter_def gameAction_def find_best Let_def ActionDirect_def split: option.splits prod.splits)
  have g: "gameAction e proc flow \<in> {[], ActionTGP, ActionDirect, ActionDrop}"
    using policies_range [of "fkTransport flow" "engineDecide e proc flow"] by (auto simp: gameAction_def Let_def)
  have n: "normalizeAction raw (normalizeAction (rcDefaultAction cfg) ''direct'') \<in> {ActionTGP, ActionDirect, ActionDrop}" 
     "normalizeAction (rcDefaultAction cfg) ''direct'' \<in> {ActionTGP, ActionDirect, ActionDrop}" for raw
    using normalize_range by (simp_all add: ActionDirect_def [symmetric])
  have "deAction (routerDecide N (NewRouter cfg e) flow proc) \<in> {ActionTGP, ActionDirect, ActionDrop}"
    unfolding d Let_def using g n by (auto split: option.splits prod.splits)
  then show ?thesis using d by (simp add: action_defs)
qed

section \<open>Unknown processes\<close>

lemma find_SomeD: "find P xs = Some x \<Longrightarrow> x \<in> set xs \<and> P x"
  by (auto simp: find_Some_iff)

lemma engine_no_tgp:
  assumes "\<not> RequiresProcessAttributionForTGP e"
  shows "gdUDPPolicy (engineDecide e proc flow) \<noteq> UDPPolicyTGP"
proof -
  have g: "gdUDPPolicy (gameDecision p reason) \<noteq> UDPPolicyTGP"
    if "find (\<lambda>p. gpEnabled p \<and> P p) (sortedProfiles e) = Some p" for P p reason
  proof -
    have p: "p \<in> set (enProfiles e)" "gpEnabled p"
      using find_SomeD [OF that] by (simp_all add: sortedProfiles_def sliceStable_def)
    have "\<not> list_ex (\<lambda>q. gpEnabled q \<and> defaultUDPPolicy (gpUDPPolicy q) = UDPPolicyTGP) (enProfiles e)"
      using assms unfolding RequiresProcessAttributionForTGP_def by metis
    then show ?thesis using p by (simp add: gameDecision_def list_ex_iff)
  qed
  have steam: "\<not> (spEnabled (lpSteam (enLaunchers e)) \<and> spTrackChildProcesses (lpSteam (enLaunchers e)) \<and>
      isSteamGameProcess proc \<and> fkTransport flow = TransportUDP \<and> spAccelerateGameUDP (lpSteam (enLaunchers e)))"
    using assms unfolding RequiresProcessAttributionForTGP_def by metis
  show ?thesis
  proof (cases "find (\<lambda>p. gpEnabled p \<and> gpManual p \<and> Matches (gpMatch p) proc) (sortedProfiles e)")
    case (Some p) with g [OF Some] show ?thesis by (simp add: engineDecide_def)
  next
    case m: None
    show ?thesis
    proof (cases "find (\<lambda>p. gpEnabled p \<and> \<not> gpManual p \<and> Matches (gpMatch p) proc) (sortedProfiles e)")
      case (Some p)
      show ?thesis unfolding engineDecide_def m if_not_P [OF steam] Some option.case by (rule g [OF Some])
    next
      case None
      show ?thesis unfolding engineDecide_def m if_not_P [OF steam] None option.case
        by (simp add: UDPPolicyAuto_def UDPPolicyTGP_def)
    qed
  qed
qed

text \<open>
  Unknown processes fail closed. When a flow whose process is unknown is decided to go to TGP, no
  policy could have told processes apart about TGP: the game engine sends no flow of any process to
  TGP, and no rule that names a process has the action TGP.
\<close>

theorem unknown_process_fails_closed:
  assumes "deAction (DecideUnknownProcess N r flow) = ''tgp''"
  shows "gameAction (roGameEngine r) proc flow' \<noteq> ''tgp'' \<and>
    (\<forall>(i, rule)\<in>set (roRules r). trimSpace (rrProcessName rule) \<noteq> [] \<longrightarrow>
       normalizeAction (rrAction rule) (roDefaultAction r) \<noteq> ''tgp'')"
proof -
  have r: "\<not> requiresProcess r"
    using assms by (auto simp: DecideUnknownProcess_def Let_def action_defs split: option.splits if_splits)
  then have "gdUDPPolicy (engineDecide (roGameEngine r) proc flow') \<noteq> UDPPolicyTGP"
    by (intro engine_no_tgp) (simp add: requiresProcess_def)
  then have "gameAction (roGameEngine r) proc flow' \<noteq> ActionTGP"
    by (auto simp: gameAction_def actionFromPolicies_def Let_def action_defs)
  then show ?thesis using r by (auto simp: requiresProcess_def list_ex_iff action_defs)
qed


text \<open>
  A flow without a process is not an unknown process. When the tracker finds no owner in any of its
  three attempts it returns the zero process without an error, so the pipeline takes the ordinary
  decision for that process, marked as known, and never the one for unknown processes.
\<close>

theorem missing_process_is_not_unknown:
  assumes "ParseFlow N packet = Inr flow" and "gm_get (tkCache (ppTracker p)) (flowCacheKey flow) = None"
    and "\<forall>i<3. leProvider env i = None" and "\<forall>i<3. \<not> leCtxDone env i"
    and "pipelineHandle N env handler packet p = (e, d, p')"
  shows "d = Some (routerDecide N (ppRouter p) flow zeroProcess) \<and>
    deProcessKnown (routerDecide N (ppRouter p) flow zeroProcess) \<and>
    psLookupErrors (ppStats p') = psLookupErrors (ppStats p)"
proof -
  have l: "lookupAttempts (leCtxDone env) (leProvider env) 0 MaxRetries = LookupMissing"
    using assms(3,4) by (simp add: MaxRetries_def numeral_3_eq_3)
  have f: "LookupFlow (leCtxDone env) (leProvider env) (leNow env) (leLater env) flow (ppTracker p) =
      (Inr zeroProcess, ppTracker p)"
    using assms(2) by (simp add: LookupFlow_def l Let_def)
  have k: "deProcessKnown (routerDecide N (ppRouter p) flow zeroProcess)"
    by (simp add: routerDecide_def Let_def split: option.splits prod.splits)
  show ?thesis using assms(5) k
    by (auto simp: pipelineHandle_def assms(1) f Let_def countDecision_def split: option.splits)
qed

text \<open>A rule sends all UDP to TGP, another the game; an unknown process should then be blocked.\<close>

definition demo_rule :: RouteRule where
  "demo_rule = \<lparr>rrPriority = 0, rrProcessName = [], rrDomain = [], rrCIDR = [], rrGeoIPCountry = [],
     rrProtocol = ''udp'', rrAction = ''tgp''\<rparr>"

definition demo_router_config :: RouterConfig where
  "demo_router_config = \<lparr>rcDefaultAction = ''drop'',
     rcRules = [demo_rule, demo_rule\<lparr>rrPriority := 5, rrProcessName := ''game.exe''\<rparr>],
     crGameProfiles = None, crLaunchers = None\<rparr>"

definition demo_pipeline :: Pipeline where
  "demo_pipeline = \<lparr>ppTracker = \<lparr>tkCache = []\<rparr>,
     ppRouter = NewRouter demo_router_config (configEngine defaultRoutingConfig),
     ppStats = \<lparr>psPacketsRead = 0, psBytesRead = 0, psBytesTGP = 0, psBytesDirect = 0, psBytesDrop = 0,
       psUnsupported = 0, psLookupErrors = 0, psDecidedTGP = 0, psDecidedDirect = 0, psDecidedDrop = 0,
       psHandlerErrors = 0\<rparr>\<rparr>"

definition demo_env :: lookupEnv where
  "demo_env = \<lparr>leCtxDone = (\<lambda>_. False), leProvider = (\<lambda>_. None), leNow = 0, leLater = 0\<rparr>"

theorem missing_process_is_not_unknown_witness:
  "\<exists>d. fst (snd (pipelineHandle demo_netip demo_env (\<lambda>_ _. None) demo_packet demo_pipeline)) = Some d \<and>
     deAction d = ''tgp'' \<and> deProcessKnown d \<and>
     deAction (DecideUnknownProcess demo_netip (ppRouter demo_pipeline) (flowBetween demo_netip demo_src demo_dst)) = ''drop''"
proof -
  have b: "buildUDPPacket demo_src demo_dst [7, 8, 9] = Inr demo_packet" by (rule demo_packet_built)
  obtain e d p' where h: "pipelineHandle demo_netip demo_env (\<lambda>_ _. None) demo_packet demo_pipeline = (e, d, p')"
    by (cases "pipelineHandle demo_netip demo_env (\<lambda>_ _. None) demo_packet demo_pipeline") auto
  have f: "ParseFlow demo_netip demo_packet = Inr (flowBetween demo_netip demo_src demo_dst)"
    using parse_built [OF _ _ b] by (simp add: demo_src_def demo_dst_def)
  have "deAction (routerDecide demo_netip (ppRouter demo_pipeline) (flowBetween demo_netip demo_src demo_dst) zeroProcess) = ''tgp''"
    "deAction (DecideUnknownProcess demo_netip (ppRouter demo_pipeline) (flowBetween demo_netip demo_src demo_dst)) = ''drop''"
    by code_simp+
  then show ?thesis using missing_process_is_not_unknown [OF f _ _ _ h] h
    by (simp add: demo_pipeline_def demo_env_def)
qed


text \<open>A rule without process sends to TGP while no profile depends on the process.\<close>

definition demo_open_router :: Router where
  "demo_open_router = NewRouter \<lparr>rcDefaultAction = ''drop'', rcRules = [demo_rule], crGameProfiles = None, crLaunchers = None\<rparr>
     \<lparr>enProfiles = [], enLaunchers = \<lparr>lpSteam = \<lparr>spEnabled = True, spTrackChildProcesses = True,
        spAccelerateGameUDP = False, spAccelerateSteamDownloads = False\<rparr>\<rparr>\<rparr>"

theorem unknown_process_fails_closed_witness:
  "deAction (DecideUnknownProcess demo_netip demo_open_router (flowBetween demo_netip demo_src demo_dst)) = ''tgp'' \<and>
    gameAction (roGameEngine demo_open_router) zeroProcess (flowBetween demo_netip demo_src demo_dst) \<noteq> ''tgp''"
proof -
  have d: "deAction (DecideUnknownProcess demo_netip demo_open_router (flowBetween demo_netip demo_src demo_dst)) = ''tgp''"
    by code_simp
  from unknown_process_fails_closed [OF d] d show ?thesis by blast
qed

section \<open>Accounting\<close>

text \<open>Every packet read is counted once under what became of it, and so are its bytes.\<close>

definition accounted :: "PipelineStats \<Rightarrow> bool" where
  "accounted s \<longleftrightarrow>
     psPacketsRead s = psUnsupported s + psDecidedTGP s + psDecidedDirect s + psDecidedDrop s"

definition routerActions :: "Router \<Rightarrow> bool" where
  "routerActions r \<longleftrightarrow> roDefaultAction r \<in> {ActionTGP, ActionDirect, ActionDrop}"

lemma NewRouter_actions: "routerActions (NewRouter cfg e)"
  using normalize_range [of ActionDirect] by (simp add: routerActions_def NewRouter_def)

lemma routerDecide_range:
  assumes "routerActions r"
  shows "deAction (routerDecide N r flow proc) \<in> {ActionTGP, ActionDirect, ActionDrop}"
proof -
  have n: "normalizeAction raw (roDefaultAction r) \<in> {ActionTGP, ActionDirect, ActionDrop}" for raw
    using assms normalize_range unfolding routerActions_def by blast
  show ?thesis
    using n policies_range [of "fkTransport flow" "engineDecide (roGameEngine r) proc flow"] assms
    by (auto simp: routerDecide_def Let_def routerActions_def split: option.splits)
qed

lemma decideUnknown_range:
  assumes "routerActions r"
  shows "deAction (DecideUnknownProcess N r flow) \<in> {ActionTGP, ActionDirect, ActionDrop}"
proof -
  have n: "normalizeAction raw (roDefaultAction r) \<in> {ActionTGP, ActionDirect, ActionDrop}" for raw
    using assms normalize_range unfolding routerActions_def by blast
  have b: "(if action = ActionTGP \<and> requiresProcess r then ActionDrop else action) \<in> {ActionTGP, ActionDirect, ActionDrop}"
    if "action \<in> {ActionTGP, ActionDirect, ActionDrop}" for action
    using that by simp
  show ?thesis
  proof (cases "find (\<lambda>(i, rule). trimSpace (rrProcessName rule) = [] \<and> routeRuleMatches N rule flow zeroProcess) (roRules r)")
    case None
    show ?thesis using b [OF assms [unfolded routerActions_def]]
      by (simp add: DecideUnknownProcess_def Let_def None)
  next
    case (Some x)
    show ?thesis using b [OF n] by (cases x) (simp add: DecideUnknownProcess_def Let_def Some)
  qed
qed

text \<open>One packet adds one to the counters of outcomes and nothing to the packets read.\<close>

definition outcomes :: "PipelineStats \<Rightarrow> u64" where
  "outcomes s = psUnsupported s + psDecidedTGP s + psDecidedDirect s + psDecidedDrop s"

lemma countDecision_counts:
  assumes "action \<in> {ActionTGP, ActionDirect, ActionDrop}"
  shows "outcomes (countDecision action n s) = outcomes s + 1 \<and>
    psPacketsRead (countDecision action n s) = psPacketsRead s"
  using assms by (auto simp: countDecision_def outcomes_def action_defs)

lemma pipelineHandle_counts:
  assumes "routerActions (ppRouter p)" and "pipelineHandle N env handler packet p = (e, d, p')"
  shows "ppRouter p' = ppRouter p \<and> outcomes (ppStats p') = outcomes (ppStats p) + 1 \<and>
    psPacketsRead (ppStats p') = psPacketsRead (ppStats p)"
proof (cases "ParseFlow N packet")
  case (Inl x)
  then show ?thesis using assms(2) by (auto simp: pipelineHandle_def outcomes_def)
next
  case (Inr flow)
  obtain found tracker where l: "LookupFlow (leCtxDone env) (leProvider env) (leNow env) (leLater env) flow (ppTracker p) =
      (found, tracker)" by fastforce
  show ?thesis
  proof (cases found)
    case (Inl x)
    have r: "deAction (DecideUnknownProcess N (ppRouter p) flow) \<in> {ActionTGP, ActionDirect, ActionDrop}"
      by (rule decideUnknown_range [OF assms(1)])
    show ?thesis using assms(2) countDecision_counts [OF r]
      by (auto simp: pipelineHandle_def Inr l Inl Let_def outcomes_def split: option.splits)
  next
    case (Inr proc)
    have r: "deAction (routerDecide N (ppRouter p) flow proc) \<in> {ActionTGP, ActionDirect, ActionDrop}"
      by (rule routerDecide_range [OF assms(1)])
    show ?thesis using assms(2) countDecision_counts [OF r]
      by (auto simp: pipelineHandle_def \<open>ParseFlow N packet = Inr flow\<close> l Inr Let_def outcomes_def
          split: option.splits)
  qed
qed

lemma accounted_outcomes: "accounted s \<longleftrightarrow> psPacketsRead s = outcomes s"
  by (simp add: accounted_def outcomes_def)

lemma pipelineRun_accounted:
  assumes "routerActions (ppRouter p)" "accounted (ppStats p)"
  shows "accounted (ppStats (snd (pipelineRun N handler reads p)))"
  using assms
proof (induction reads arbitrary: p)
  case (Cons r reads)
  show ?case
  proof (cases r)
    case (ReadPacket env packet ctxDone)
    let ?p = "p\<lparr>ppStats := (ppStats p)\<lparr>psPacketsRead := psPacketsRead (ppStats p) + 1,
                   psBytesRead := psBytesRead (ppStats p) + of_nat (length packet)\<rparr>\<rparr>"
    obtain e d p' where h: "pipelineHandle N env handler packet ?p = (e, d, p')"
      by (cases "pipelineHandle N env handler packet ?p") auto
    have c: "routerActions (ppRouter p')" "accounted (ppStats p')"
      using pipelineHandle_counts [OF _ h] Cons.prems by (auto simp: accounted_outcomes outcomes_def)
    show ?thesis using Cons.IH [OF c] Cons.IH [OF Cons.prems] c
      by (cases e) (simp_all add: ReadPacket h Let_def)
  qed (use Cons.prems in simp)
qed simp

text \<open>
  C36. The accounting of the pipeline. Whatever the device delivers, whatever the lookups find and the
  handler returns, every non-empty packet read is counted exactly once: as unsupported, or as decided
  for TGP, direct or drop. A router made from any configuration never decides anything else.
\<close>

theorem pipeline_accounting:
  assumes "ppRouter p = NewRouter cfg e" and "psPacketsRead (ppStats p) =
      psUnsupported (ppStats p) + psDecidedTGP (ppStats p) + psDecidedDirect (ppStats p) + psDecidedDrop (ppStats p)"
    and "pipelineRun N handler reads p = (stopped, p')"
  shows "psPacketsRead (ppStats p') = psUnsupported (ppStats p') + psDecidedTGP (ppStats p') +
    psDecidedDirect (ppStats p') + psDecidedDrop (ppStats p')"
  using pipelineRun_accounted [of p N handler reads] NewRouter_actions [of cfg e] assms
  by (simp add: accounted_def)

theorem pipeline_accounting_witness:
  "\<exists>stopped p'. pipelineRun demo_netip (\<lambda>_ _. None) [ReadPacket demo_env [] False, ReadPacket demo_env [1, 2] False, ReadFailed True]
      demo_pipeline = (stopped, p') \<and> psPacketsRead (ppStats p') = 1 \<and> psUnsupported (ppStats p') = 1 \<and>
    psDecidedTGP (ppStats p') + psDecidedDirect (ppStats p') + psDecidedDrop (ppStats p') = 0"
proof -
  obtain s p' where r: "pipelineRun demo_netip (\<lambda>_ _. None)
      [ReadPacket demo_env [] False, ReadPacket demo_env [1, 2] False, ReadFailed True] demo_pipeline = (s, p')"
    by fastforce
  then have "psPacketsRead (ppStats p') = 1" "psUnsupported (ppStats p') = 1"
    by (auto simp: pipelineHandle_def ParseFlow_def demo_pipeline_def Let_def)
  moreover have "psPacketsRead (ppStats p') = psUnsupported (ppStats p') + psDecidedTGP (ppStats p') +
      psDecidedDirect (ppStats p') + psDecidedDrop (ppStats p')"
    by (rule pipeline_accounting [OF _ _ r]) (simp_all add: demo_pipeline_def)
  ultimately have "psDecidedTGP (ppStats p') + psDecidedDirect (ppStats p') + psDecidedDrop (ppStats p') = 0"
    by (simp add: add.assoc)
  with r \<open>psPacketsRead (ppStats p') = 1\<close> \<open>psUnsupported (ppStats p') = 1\<close> show ?thesis by blast
qed

section \<open>Into the tunnel and back\<close>

lemma withoutZone_facts [simp]:
  "zoneless (withoutZone a)" "wf_addr (withoutZone a) = wf_addr a" "Addr_IsValid (withoutZone a) = Addr_IsValid a"
  "withoutZone (withoutZone a) = withoutZone a" "withoutZone a = AddrZero \<longleftrightarrow> a = AddrZero"
  by (cases a; simp add: withoutZone_def Addr_IsValid_def)+

lemma built_valid:
  "buildUDPPacket src dst payload = Inr pkt \<Longrightarrow> apAddr src \<noteq> AddrZero \<and> apAddr dst \<noteq> AddrZero"
  by (auto simp: buildUDPPacket_def split: if_splits)

lemma tunnel_built:
  assumes "netip_laws N" and "wf_addr (apAddr src)" and "wf_addr (apAddr dst)"
    and "buildUDPPacket src dst payload = Inr pkt"
    and d_def: "d = \<lparr>Identity = zeroIdentity, LocalIP = withoutZone (apAddr src), LocalPort = apPort src,
      RemoteIP = withoutZone (apAddr dst), RemotePort = apPort dst, tunnelPayload = payload\<rparr>"
  shows "wf_tunnel d \<and> (\<exists>t. MarshalTunnelDatagram d = Inr t \<and> tunnelOfPacket N pkt = Inr t)"
proof -
  have v: "apAddr src \<noteq> AddrZero" "apAddr dst \<noteq> AddrZero" using built_valid [OF assms(4)] by auto
  then have w: "wf_tunnel d" using assms(2,3)
    by (simp add: d_def wf_tunnel_def zeroIdentity_def Identity_IsZero_def Addr_IsValid_def)
  obtain t where t: "MarshalTunnelDatagram d = Inr t" using wf_tunnel_marshals [OF w] by blast
  have p: "parseAddr N (addrText N (withoutZone a)) = Some (withoutZone a)" if "a \<noteq> AddrZero" "wf_addr a" for a
    using assms(1) that by (simp add: netip_laws_def)
  have "tunnelOfPacket N pkt = Inr t"
    using parse_built [OF assms(2,3,4)] t by (simp add: tunnelOfPacket_def flowBetween_def p v assms(2,3) d_def)
  with w t show ?thesis by blast
qed

text \<open>The endpoints of a packet on the wire, and what the handler makes of it.\<close>

lemma wire_addrs:
  assumes "udpOnWire src dst payload pkt"
  shows "wf_addr (apAddr src)" "wf_addr (apAddr dst)" "apAddr src \<noteq> AddrZero" "apAddr dst \<noteq> AddrZero"
    "withoutZone (apAddr src) = apAddr src" "withoutZone (apAddr dst) = apAddr dst"
    "zoneless (apAddr src)" "zoneless (apAddr dst)"
  using assms by (cases, auto simp: withoutZone_def)+

lemma tunnel_on_wire:
  assumes "netip_laws N" and w: "udpOnWire src dst payload pkt"
    and d_def: "d = \<lparr>Identity = zeroIdentity, LocalIP = apAddr src, LocalPort = apPort src,
      RemoteIP = apAddr dst, RemotePort = apPort dst, tunnelPayload = payload\<rparr>"
  shows "wf_tunnel d \<and> (\<exists>t. MarshalTunnelDatagram d = Inr t \<and> tunnelOfPacket N pkt = Inr t)"
proof -
  note a = wire_addrs [OF w]
  have wf: "wf_tunnel d" using a
    by (simp add: d_def wf_tunnel_def zeroIdentity_def Identity_IsZero_def Addr_IsValid_def)
  obtain t where t: "MarshalTunnelDatagram d = Inr t" using wf_tunnel_marshals [OF wf] by blast
  have p: "parseAddr N (addrText N (apAddr src)) = Some (apAddr src)" "parseAddr N (addrText N (apAddr dst)) = Some (apAddr dst)"
    using assms(1) a by (simp_all add: netip_laws_def)
  have "tunnelOfPacket N pkt = Inr t"
    using wire_parsed [OF w, of N] t by (simp add: tunnelOfPacket_def flowBetween_def p a d_def)
  with wf t show ?thesis by blast
qed

text \<open>A packet that is built between two addresses without zone is one on the wire.\<close>

lemma built_on_wire:
  assumes "netip_laws N" and a: "wf_addr (apAddr src)" "wf_addr (apAddr dst)" "zoneless (apAddr src)" "zoneless (apAddr dst)"
    and "buildUDPPacket src dst payload = Inr pkt"
  shows "udpOnWire src dst payload pkt"
proof -
  have v: "apAddr src \<noteq> AddrZero" "apAddr dst \<noteq> AddrZero" using built_valid [OF assms(6)] by auto
  have "ExtractUDPPayload N pkt = Inr (flowBetween N src dst, payload)"
    using parse_built [OF a(1,2) assms(6)] by blast
  then obtain src' dst' where o: "udpOnWire src' dst' payload pkt" "flowBetween N src dst = flowBetween N src' dst'"
    using parsed_wire by blast
  have inj: "x = y" if "addrText N x = addrText N y" "x \<noteq> AddrZero" "wf_addr x" "zoneless x" "y \<noteq> AddrZero" "wf_addr y"
    "zoneless y" for x y
  proof -
    note law = assms(1) [unfolded netip_laws_def, rule_format]
    have "parseAddr N (addrText N x) = Some x" by (rule law) (intro conjI that)
    moreover have "parseAddr N (addrText N y) = Some y" by (rule law) (intro conjI that)
    ultimately show ?thesis using that(1) by (metis option.inject)
  qed
  have z: "withoutZone x = x" if "zoneless x" for x using that by (cases x) (auto simp: withoutZone_def)
  note w = wire_addrs [OF o(1)]
  have f: "addrText N (apAddr src) = addrText N (apAddr src')" "apPort src = apPort src'"
    "addrText N (apAddr dst) = addrText N (apAddr dst')" "apPort dst = apPort dst'"
    using o(2) by (simp_all add: flowBetween_def z a w)
  have "apAddr src = apAddr src'" by (rule inj [OF f(1) v(1) a(1,3) w(3,1,7)])
  moreover have "apAddr dst = apAddr dst'" by (rule inj [OF f(3) v(2) a(2,4) w(4,2,8)])
  ultimately have "src = src'" "dst = dst'" using f(2,4) by simp_all
  then show ?thesis using o(1) by simp
qed

lemma addrPort_parts: "\<lparr>apAddr = apAddr x, apPort = apPort x\<rparr> = x"
  by simp

text \<open>
  C34. A captured packet goes into the tunnel and the answer comes back. Whatever packet is captured: if it
  is a UDP packet on the wire (an IPv4 header with any options, or an IPv6 header directly before UDP,
  then a datagram whose length field counts the payload, then any further bytes), the client's handler
  passes exactly one tunnel datagram on, which the relay parses to the two endpoints, without lease
  identity, and the payload; and the packet built from an answer for the datagram's endpoints is a UDP
  packet from the remote endpoint to the application with the answer as its payload. Any other packet is
  refused and nothing is passed on.
\<close>

theorem capture_tunnel_roundtrip:
  assumes "netip_laws N" and "deAction decision = ''tgp''" and "fkTransport (deFlow decision) = ''udp''"
  shows "(udpOnWire src dst payload pkt \<longrightarrow>
      (\<exists>t d. clientHandlePacket N True True decision pkt = (None, [t]) \<and> ParseTunnelDatagram t = Inr d \<and>
        Identity d = zeroIdentity \<and> LocalIP d = apAddr src \<and> LocalPort d = apPort src \<and>
        RemoteIP d = apAddr dst \<and> RemotePort d = apPort dst \<and> tunnelPayload d = payload \<and>
        (\<forall>reply answer. buildUDPPacket \<lparr>apAddr = RemoteIP d, apPort = RemotePort d\<rparr>
            \<lparr>apAddr = LocalIP d, apPort = LocalPort d\<rparr> reply = Inr answer \<longrightarrow> udpOnWire dst src reply answer))) \<and>
    ((\<nexists>src dst payload. udpOnWire src dst payload pkt) \<longrightarrow>
      (\<exists>e. clientHandlePacket N True True decision pkt = (Some e, [])))"
proof (intro conjI impI)
  assume w: "udpOnWire src dst payload pkt"
  let ?d = "\<lparr>Identity = zeroIdentity, LocalIP = apAddr src, LocalPort = apPort src, RemoteIP = apAddr dst,
    RemotePort = apPort dst, tunnelPayload = payload\<rparr>"
  obtain t where wf: "wf_tunnel ?d" and t: "MarshalTunnelDatagram ?d = Inr t" and "tunnelOfPacket N pkt = Inr t"
    using tunnel_on_wire [OF assms(1) w refl] by blast
  then have "clientHandlePacket N True True decision pkt = (None, [t])"
    using assms(2,3) by (simp add: clientHandlePacket_def ActionTGP_def TransportUDP_def)
  then show "\<exists>t d. clientHandlePacket N True True decision pkt = (None, [t]) \<and> ParseTunnelDatagram t = Inr d \<and>
      Identity d = zeroIdentity \<and> LocalIP d = apAddr src \<and> LocalPort d = apPort src \<and>
      RemoteIP d = apAddr dst \<and> RemotePort d = apPort dst \<and> tunnelPayload d = payload \<and>
      (\<forall>reply answer. buildUDPPacket \<lparr>apAddr = RemoteIP d, apPort = RemotePort d\<rparr>
          \<lparr>apAddr = LocalIP d, apPort = LocalPort d\<rparr> reply = Inr answer \<longrightarrow> udpOnWire dst src reply answer)"
    using Parse_Marshal [OF wf t] wire_addrs [OF w] built_on_wire [OF assms(1)]
    by (intro exI [of _ t] exI [of _ ?d]) (simp add: addrPort_parts)
next
  assume "\<nexists>src dst payload. udpOnWire src dst payload pkt"
  then obtain e where "ExtractUDPPayload N pkt = Inl e"
    using parsed_wire [of N pkt] by (cases "ExtractUDPPayload N pkt") fastforce+
  then show "\<exists>e. clientHandlePacket N True True decision pkt = (Some e, [])"
    using assms(2,3) by (simp add: clientHandlePacket_def tunnelOfPacket_def ActionTGP_def TransportUDP_def)
qed

text \<open>A packet with four bytes of options and a byte after the datagram.\<close>

definition demo_optioned :: bytes where
  "demo_optioned = (0x46 # replicate 8 0 @ [17] @ [0, 0] @ [10, 0, 0, 1] @ [1, 2, 3, 4] @ [1, 1, 1, 0]) @
     udpDatagram 5000 53 0 [7, 8, 9] @ [0]"

lemma demo_optioned_wire: "udpOnWire demo_src demo_dst [7, 8, 9] demo_optioned"
  unfolding demo_optioned_def demo_src_def demo_dst_def by (rule udpOnWire.IPv4) simp_all

theorem capture_tunnel_roundtrip_witness:
  "\<exists>t d. clientHandlePacket demo_netip True True
      (routerDecide demo_netip (ppRouter demo_pipeline) (flowBetween demo_netip demo_src demo_dst) zeroProcess)
      demo_optioned = (None, [t]) \<and> ParseTunnelDatagram t = Inr d \<and> tunnelPayload d = [7, 8, 9] \<and>
    LocalIP d = Addr4 [10, 0, 0, 1]"
proof -
  have "deAction (routerDecide demo_netip (ppRouter demo_pipeline) (flowBetween demo_netip demo_src demo_dst) zeroProcess) = ''tgp''"
    "fkTransport (deFlow (routerDecide demo_netip (ppRouter demo_pipeline) (flowBetween demo_netip demo_src demo_dst) zeroProcess)) = ''udp''"
    by code_simp+
  from capture_tunnel_roundtrip [OF demo_netip_laws this, of demo_src demo_dst "[7, 8, 9]" demo_optioned] demo_optioned_wire
  show ?thesis by (simp add: demo_src_def demo_dst_def) blast
qed

end
