(* ===== verification/Config_Props.thy ===== *)
theory Config_Props
  imports Config Pipeline_Props
begin

text \<open>
  What a validated configuration guarantees: TGP only carries UDP, and the subsystems accept what
  they are given; and exactly when every packet the TUN device delivers fits into one datagram of the
  session, which the client's configuration alone does not guarantee.
\<close>

section \<open>Routing\<close>

lemma flow_transport:
  assumes "ParseFlow N packet = Inr flow"
  shows "fkTransport flow = ''udp'' \<or> fkTransport flow = ''tcp''"
proof -
  have t: "tr = ''udp'' \<or> tr = ''tcp''" if "transportFromIPProtocol b = Inr tr" for b tr
    using that by (auto simp: transportFromIPProtocol_def TransportTCP_def TransportUDP_def split: if_splits)
  show ?thesis using assms
    by (auto simp: ParseFlow_def parseIPv4Flow_def parseIPv6Flow_def Let_def split: if_splits sum.splits dest: t)
qed

lemma toLower_simps [simp]: "toLower [] = []" "toLower s = [] \<longleftrightarrow> s = []"
  by (simp_all add: toLower_def)

lemma toLower_words: "toLower ''udp'' = ''udp''" "toLower ''tcp'' = ''tcp''" "toLower ''tgp'' = ''tgp''"
  by code_simp+

lemma trim_words: "trimSpace ''tcp'' = ''tcp''" "trimSpace ''udp'' = ''udp''"
  by code_simp+

text \<open>What the validation of a rule and of the default action leaves.\<close>

lemma valid_rule_tgp:
  assumes "validateRouteRule N i rule = None" and "normalizeAction (rrAction rule) fallback = ActionTGP"
  shows "toLower (trimSpace (rrProtocol rule)) = ''udp''"
proof -
  have a: "isRouteAction (rrAction rule)"
    and p: "equalFold (trimSpace (rrAction rule)) ''tgp'' \<longrightarrow> toLower (trimSpace (rrProtocol rule)) = ''udp''"
    using assms(1) by (auto simp: validateRouteRule_def Let_def)
  have "toLower (trimSpace (rrAction rule)) \<in> {''tgp'', ''direct'', ''drop'', ''block''}"
    using a by (simp add: isRouteAction_def)
  then have "toLower (trimSpace (rrAction rule)) = ''tgp''"
    using assms(2) by (elim insertE) (simp_all add: normalizeAction_def action_defs)
  then show ?thesis using p by (simp add: equalFold_def toLower_words)
qed

lemma valid_default:
  assumes "validateClientRouting N c = None"
  shows "normalizeAction (rcDefaultAction c) ActionDirect \<noteq> ActionTGP"
proof -
  have "trimSpace (rcDefaultAction c) \<noteq> [] \<longrightarrow> toLower (trimSpace (rcDefaultAction c)) \<noteq> ''tgp''"
    using assms by (auto simp: validateClientRouting_def Let_def equalFold_def toLower_words)
  then show ?thesis by (auto simp: normalizeAction_def Let_def action_defs)
qed

lemma routed_to_udp:
  assumes "validateRouteRule N i rule = None" and "routeRuleMatches N rule flow proc"
    and "normalizeAction (rrAction rule) fallback = ActionTGP" and "ParseFlow N packet = Inr flow"
  shows "fkTransport flow = ''udp''"
proof (rule ccontr)
  assume "fkTransport flow \<noteq> ''udp''"
  then have t: "fkTransport flow = ''tcp''" using flow_transport [OF assms(4)] by blast
  have p: "toLower (trimSpace (rrProtocol rule)) = ''udp''" by (rule valid_rule_tgp [OF assms(1,3)])
  then have "rrProtocol rule \<noteq> []" by (auto simp: trimSpace_def)
  then have "toLower (rrProtocol rule) = ''tcp''"
    using assms(2) t by (auto simp: routeRuleMatches_def equalFold_def toLower_words split: if_splits)
  moreover from this have "trimSpace (rrProtocol rule) = rrProtocol rule"
    using trimmed_fold [of "''tcp''" "rrProtocol rule"] by (simp add: toLower_words trim_words)
  ultimately show False using p by simp
qed

text \<open>A decision of the router for the action of the game engine, a rule or the default.\<close>

lemma decide_tgp:
  assumes "deAction (routerDecide N (NewRouter cfg e) flow proc) = ActionTGP"
  shows "fkTransport flow = ''udp'' \<or> normalizeAction (rcDefaultAction cfg) ActionDirect = ActionTGP \<or>
    (\<exists>i rule. i < length (rcRules cfg) \<and> rule = rcRules cfg ! i \<and> routeRuleMatches N rule flow proc \<and>
       normalizeAction (rrAction rule) (normalizeAction (rcDefaultAction cfg) ActionDirect) = ActionTGP)"
proof (cases "gdKind (engineDecide e proc flow) = DecisionGame \<and> actionFromPolicies (fkTransport flow) (engineDecide e proc flow) \<noteq> []")
  case True
  then have "actionFromPolicies (fkTransport flow) (engineDecide e proc flow) = ActionTGP"
    using assms by (simp add: routerDecide_def NewRouter_def Let_def)
  then show ?thesis by (auto simp: actionFromPolicies_def TransportUDP_def action_defs split: if_splits)
next
  case False
  let ?m = "\<lambda>(i, rule). routeRuleMatches N rule flow proc"
  show ?thesis
  proof (cases "find ?m (roRules (NewRouter cfg e))")
    case None
    then show ?thesis using assms False by (auto simp: routerDecide_def NewRouter_def Let_def)
  next
    case (Some x)
    obtain i rule where x: "x = (i, rule)" by (cases x)
    have "(i, rule) \<in> set (enumerate 0 (rcRules cfg))" "routeRuleMatches N rule flow proc"
      using find_SomeD [OF Some] by (auto simp: x NewRouter_def sliceStable_def)
    moreover have "normalizeAction (rrAction rule) (normalizeAction (rcDefaultAction cfg) ActionDirect) = ActionTGP"
      using assms False Some x by (auto simp: routerDecide_def NewRouter_def Let_def)
    ultimately show ?thesis by (auto simp: in_set_enumerate_eq)
  qed
qed

lemma unknown_tgp:
  assumes "deAction (DecideUnknownProcess N (NewRouter cfg e) flow) = ActionTGP"
  shows "normalizeAction (rcDefaultAction cfg) ActionDirect = ActionTGP \<or>
    (\<exists>i rule. i < length (rcRules cfg) \<and> rule = rcRules cfg ! i \<and> routeRuleMatches N rule flow zeroProcess \<and>
       normalizeAction (rrAction rule) (normalizeAction (rcDefaultAction cfg) ActionDirect) = ActionTGP)"
proof -
  let ?m = "\<lambda>(i, rule). trimSpace (rrProcessName rule) = [] \<and> routeRuleMatches N rule flow zeroProcess"
  show ?thesis
  proof (cases "find ?m (roRules (NewRouter cfg e))")
    case None
    then show ?thesis using assms
      by (auto simp: DecideUnknownProcess_def NewRouter_def Let_def action_defs split: if_splits)
  next
    case (Some x)
    obtain i rule where x: "x = (i, rule)" by (cases x)
    have "(i, rule) \<in> set (enumerate 0 (rcRules cfg))" "routeRuleMatches N rule flow zeroProcess"
      using find_SomeD [OF Some] by (auto simp: x NewRouter_def sliceStable_def)
    moreover have "normalizeAction (rrAction rule) (normalizeAction (rcDefaultAction cfg) ActionDirect) = ActionTGP"
      using assms Some x by (auto simp: DecideUnknownProcess_def NewRouter_def Let_def action_defs split: if_splits)
    ultimately show ?thesis by (auto simp: in_set_enumerate_eq)
  qed
qed

lemma validated_client:
  assumes "Validate N resolves c = None" and "cfMode c = ''client''"
  shows "validateClient N resolves c = None"
  using assms by (auto simp: Validate_def ModeClient_def)

lemma validated_routing:
  assumes "Validate N resolves c = None" and "cfMode c = ''client''"
  shows "validateClientRouting N (ccRouting (cfClient c)) = None"
  using validated_client [OF assms] by (auto simp: validateClient_def Let_def validateClientDataPath_def)

text \<open>
  C26. Only UDP goes to TGP. With a validated client configuration, whatever game profiles are active and
  whatever process is found, a packet is decided to go to TGP only when it is a UDP packet; so the
  client's packet handler never refuses one because of its transport.
\<close>

theorem validated_routing_is_udp_only:
  assumes "Validate N resolves c = None" and "cfMode c = ''client''" and "ParseFlow N packet = Inr flow"
    and "decision = routerDecide N (NewRouter (ccRouting (cfClient c)) e) flow proc \<or>
      decision = DecideUnknownProcess N (NewRouter (ccRouting (cfClient c)) e) flow"
    and "deAction decision = ''tgp''"
  shows "fkTransport flow = ''udp''"
proof -
  let ?cfg = "ccRouting (cfClient c)"
  note v = validated_routing [OF assms(1,2)]
  have r: "validateRouteRule N i (rcRules ?cfg ! i) = None" if "i < length (rcRules ?cfg)" for i
    using v that by (simp add: validateClientRouting_def Let_def eachEntry_None)
  have "\<exists>proc. fkTransport flow = ''udp'' \<or>
    (\<exists>i rule. i < length (rcRules ?cfg) \<and> rule = rcRules ?cfg ! i \<and> routeRuleMatches N rule flow proc \<and>
       normalizeAction (rrAction rule) (normalizeAction (rcDefaultAction ?cfg) ActionDirect) = ActionTGP)"
    using assms(4,5) decide_tgp [of N ?cfg e flow proc] unknown_tgp [of N ?cfg e flow] valid_default [OF v]
    by (auto simp: ActionTGP_def)
  then show ?thesis using routed_to_udp [OF r _ _ assms(3)] by blast
qed


section \<open>Sizes\<close>

text \<open>The payload of a parsed packet, and the address family of its flow.\<close>

lemma extract_bounds:
  assumes "netip_laws N" and "ExtractUDPPayload N pkt = Inr (flow, payload)"
  shows "\<exists>l r. parseAddr N (fkLocalIP flow) = Some l \<and> parseAddr N (fkRemoteIP flow) = Some r \<and>
    zoneless l \<and> zoneless r \<and> wf_addr l \<and> wf_addr r \<and>
    (Addr_Is4 l \<and> Addr_Is4 r \<and> length payload + 28 \<le> length pkt \<or>
     Addr_Is6 l \<and> Addr_Is6 r \<and> length payload + 48 \<le> length pkt)"
proof -
  have a: "parseAddr N (addrText N a) = Some a" if "a \<noteq> AddrZero" "wf_addr a" "zoneless a" for a
    using assms(1) that by (simp add: netip_laws_def)
  have g: "length (gslice i j pkt) = j - i" if "i \<le> j" "j \<le> length pkt" for i j using that by (simp add: gslice_def)
  consider (4) "extractIPv4UDPPayload N pkt = Inr (flow, payload)"
    | (6) "extractIPv6UDPPayload N pkt = Inr (flow, payload)"
    using assms(2) by (auto simp: ExtractUDPPayload_def split: if_splits)
  then show ?thesis
  proof cases
    case 4
    then obtain p: "parseIPv4Flow N pkt = Inr flow" and l: "length payload + 8 + ipv4HeaderLen pkt \<le> length pkt"
      by (auto simp: extractIPv4UDPPayload_def Let_def gslice_def split: sum.splits if_splits)
    have h: "20 \<le> ipv4HeaderLen pkt" "20 \<le> length pkt" "fkLocalIP flow = addrText N (Addr4 (gslice 12 16 pkt))"
      "fkRemoteIP flow = addrText N (Addr4 (gslice 16 20 pkt))"
      using p by (auto simp: parseIPv4Flow_def Let_def split: if_splits sum.splits)
    show ?thesis using l h g [of 12 16] g [of 16 20] by (simp add: a)
  next
    case 6
    then obtain p: "parseIPv6Flow N pkt = Inr flow" and l: "length payload + 48 \<le> length pkt"
      by (auto simp: extractIPv6UDPPayload_def Let_def gslice_def split: sum.splits if_splits)
    have h: "44 \<le> length pkt" "fkLocalIP flow = addrText N (Addr6 (gslice 8 24 pkt) [])"
      "fkRemoteIP flow = addrText N (Addr6 (gslice 24 40 pkt) [])"
      using p by (auto simp: parseIPv6Flow_def Let_def split: if_splits sum.splits)
    show ?thesis using l h g [of 8 24] g [of 24 40] by (simp add: a)
  qed
qed

lemma tunnel_overhead:
  assumes "netip_laws N" and "tunnelOfPacket N pkt = Inr t"
  shows "length t + 6 \<le> length pkt"
proof -
  obtain flow payload where e: "ExtractUDPPayload N pkt = Inr (flow, payload)"
    using assms(2) by (auto simp: tunnelOfPacket_def split: sum.splits)
  obtain l r where a: "parseAddr N (fkLocalIP flow) = Some l" "parseAddr N (fkRemoteIP flow) = Some r"
    "zoneless l" "zoneless r" "wf_addr l" "wf_addr r"
    and b: "Addr_Is4 l \<and> Addr_Is4 r \<and> length payload + 28 \<le> length pkt \<or>
     Addr_Is6 l \<and> Addr_Is6 r \<and> length payload + 48 \<le> length pkt"
    using extract_bounds [OF assms(1) e] by blast
  let ?d = "\<lparr>Identity = zeroIdentity, LocalIP = l, LocalPort = fkLocalPort flow, RemoteIP = r,
    RemotePort = fkRemotePort flow, tunnelPayload = payload\<rparr>"
  have v: "Addr_IsValid l" "Addr_IsValid r" using b by (cases l; cases r; simp add: Addr_IsValid_def)+
  then have w: "wf_tunnel ?d" using a by (simp add: wf_tunnel_def zeroIdentity_def Identity_IsZero_def)
  have "MarshalTunnelDatagram ?d = Inr t" using assms(2) by (simp add: tunnelOfPacket_def e a split: sum.splits)
  note m = Marshal_length [OF w this]
  have "\<not> Addr_Is4 x" if "Addr_Is6 x" for x using that by (cases x) auto
  then show ?thesis using m b a v by (auto simp: addr_slice_len Identity_IsZero_def)
qed

lemma validated_sizes:
  assumes "Validate N resolves c = None" and "cfMode c = ''client''" and "tcMTU (ccTUN (cfClient c)) < 2 ^ 62"
  shows "576 \<le> effectiveMTU (ccTUN (cfClient c))"
    and "effectiveMTU (ccTUN (cfClient c)) + 68 \<le> effectiveDatagramSize (cfTGP c)"
    and "normalizeMaxDatagramSize (tgMaxDatagramSize (cfTGP c)) = Inr (effectiveDatagramSize (cfTGP c))"
proof -
  show m: "576 \<le> effectiveMTU (ccTUN (cfClient c))"
    using validated_client [OF assms(1,2)] by (auto simp: validateClient_def Let_def)
  have "effectiveMTU (ccTUN (cfClient c)) < 2 ^ 62" using assms(3) by (simp add: effectiveMTU_def DefaultMTU_def)
  then have "goInt (effectiveMTU (ccTUN (cfClient c)) + 68) = effectiveMTU (ccTUN (cfClient c)) + 68"
    using m by (simp add: goInt_def)
  then show "effectiveMTU (ccTUN (cfClient c)) + 68 \<le> effectiveDatagramSize (cfTGP c)"
    using validated_client [OF assms(1,2)] by (auto simp: validateClient_def Let_def WorstCaseTUNOverhead_def)
  have "\<not> (effectiveDatagramSize (cfTGP c) < MinTGPDatagramSize \<or> effectiveDatagramSize (cfTGP c) > MaxTGPDatagramSize)"
    using assms(1) by (auto simp: Validate_def)
  then show "normalizeMaxDatagramSize (tgMaxDatagramSize (cfTGP c)) = Inr (effectiveDatagramSize (cfTGP c))"
    by (auto simp: normalizeMaxDatagramSize_def effectiveDatagramSize_def)
qed

text \<open>What the sending side does with a tunnel encoding: framed as an FEC data shard and sealed.\<close>

definition sealsTunnel :: "aead \<Rightarrow> Codec \<Rightarrow> u64 \<Rightarrow> InnerHeader \<Rightarrow> bytes \<Rightarrow> bool" where
  "sealsTunnel A codec s inner t =
     (case frameFECData t (length t + fecLengthPrefixSize) of
        Inl e \<Rightarrow> False
      | Inr shard \<Rightarrow> (case Seal A (Some codec) s inner shard of Inl e \<Rightarrow> False | Inr wire \<Rightarrow> True))"

lemma sealsTunnel_iff:
  assumes "NewCodecWithMaxDatagramSize key limit = Inr codec" and "limit \<noteq> 0" and "wf_inner inner" and "s \<le> maxDTLSSequence"
  shows "sealsTunnel A codec s inner t \<longleftrightarrow> int (length t) + 74 \<le> limit"
proof -
  have n: "normalizeMaxDatagramSize limit = Inr limit" and c: "maxDatagramSize codec = limit"
    using assms(1,2) by (auto simp: NewCodecWithMaxDatagramSize_def normalizeMaxDatagramSize_def split: sum.splits if_splits)
  have le: "limit \<le> 1452" using normalizeMaxDatagramSize_range [OF n] by (simp add: tgp_sizes)
  note seal = Seal_defined_iff [OF NewCodec_wf [OF assms(1)] assms(3), of A s "put_u16 (of_nat (length t)) @ t"]
  show ?thesis
  proof (cases "length t \<le> 1378")
    case True
    then have f: "frameFECData t (length t + fecLengthPrefixSize) = Inr (put_u16 (of_nat (length t)) @ t)"
      by (simp add: frameFECData_def maxTGPDataPayloadSize_eq fecLengthPrefixSize_def zeros_def)
    show ?thesis using seal assms(4) by (auto simp: sealsTunnel_def f c split: sum.splits)
  next
    case False
    then have "frameFECData t (length t + fecLengthPrefixSize) = Inl ErrFECShardTooLarge"
      by (simp add: frameFECData_def maxTGPDataPayloadSize_eq fecLengthPrefixSize_def)
    then show ?thesis using False le by (simp add: sealsTunnel_def)
  qed
qed

text \<open>An IPv6 packet of a given size, whose tunnel encoding is only six bytes shorter.\<close>

definition widePacket :: "nat \<Rightarrow> bytes" where
  "widePacket n = (0x60 # zeros 5 @ [17, 64] @ zeros 16 @ zeros 16) @ udpDatagram 1 2 0 (zeros (n - 48)) @ []"

lemma widePacket_tunnel:
  assumes "netip_laws N" and "48 \<le> n" and "n \<le> 65535"
  shows "length (widePacket n) = n \<and> (\<exists>t. tunnelOfPacket N (widePacket n) = Inr t \<and> length t + 6 = n)"
proof -
  let ?src = "\<lparr>apAddr = Addr6 (zeros 16) [], apPort = 1\<rparr>" and ?dst = "\<lparr>apAddr = Addr6 (zeros 16) [], apPort = 2\<rparr>"
  let ?d = "\<lparr>Identity = zeroIdentity, LocalIP = apAddr ?src, LocalPort = apPort ?src, RemoteIP = apAddr ?dst,
    RemotePort = apPort ?dst, tunnelPayload = zeros (n - 48)\<rparr>"
  have "udpOnWire ?src ?dst (zeros (n - 48)) (widePacket n)"
    unfolding widePacket_def using assms(3) by (intro udpOnWire.IPv6) simp_all
  from tunnel_on_wire [OF assms(1) this refl] obtain t where wf: "wf_tunnel ?d"
    and t: "MarshalTunnelDatagram ?d = Inr t" "tunnelOfPacket N (widePacket n) = Inr t" by blast
  have "length t + 6 = n" using Marshal_length [OF wf t(1)] assms(2) by (simp add: zeroIdentity_def Identity_IsZero_def)
  then show ?thesis using t(2) assms(2) by (simp add: widePacket_def udpDatagram_def)
qed

text \<open>
  C27. What the device delivers fits if the relay allows it. A session between a validated client and a
  validated relay works with the smaller of their two datagram limits. A UDP packet of at most the TUN
  device's MTU, and 68 bytes below the relay's limit, becomes a tunnel datagram that can be framed as an
  FEC data shard and sealed into one datagram of that size. So nothing the device delivers is refused
  because of its length exactly if the relay's limit is at least the client's MTU and 68 bytes: the
  client's own validation checks only its own limit. The hypothesis on the MTU excludes values whose sum
  with the overhead would wrap around.
\<close>

theorem validated_packet_fits:
  assumes "netip_laws N" and "Validate N resolves c = None" and "cfMode c = ''client''"
    and "tcMTU (ccTUN (cfClient c)) < 2 ^ 62" and "Validate N resolves' relay = None"
    and "NewCodecWithMaxDatagramSize key
      (min (effectiveDatagramSize (cfTGP c)) (effectiveDatagramSize (cfTGP relay))) = Inr codec"
    and "wf_inner inner" and "s \<le> maxDTLSSequence"
  shows "(int (length pkt) \<le> effectiveMTU (ccTUN (cfClient c)) \<and>
      int (length pkt) + 68 \<le> effectiveDatagramSize (cfTGP relay) \<and> tunnelOfPacket N pkt = Inr t \<longrightarrow>
        sealsTunnel A codec s inner t) \<and>
    ((\<forall>pkt t. int (length pkt) \<le> effectiveMTU (ccTUN (cfClient c)) \<and> tunnelOfPacket N pkt = Inr t \<longrightarrow>
        sealsTunnel A codec s inner t) \<longleftrightarrow>
      effectiveMTU (ccTUN (cfClient c)) + 68 \<le> effectiveDatagramSize (cfTGP relay))"
proof -
  let ?mtu = "effectiveMTU (ccTUN (cfClient c))" and ?own = "effectiveDatagramSize (cfTGP c)"
    and ?peer = "effectiveDatagramSize (cfTGP relay)"
  note z = validated_sizes [OF assms(2,3,4)]
  have own: "?own \<le> 1452" using normalizeMaxDatagramSize_range [OF z(3)] by (simp add: tgp_sizes)
  have "MinTGPDatagramSize \<le> ?peer" using assms(5) by (auto simp: Validate_def)
  then have nz: "min ?own ?peer \<noteq> 0" using z(1,2) by (simp add: tgp_sizes)
  note iff = sealsTunnel_iff [OF assms(6) nz assms(7,8)]
  have fits: "sealsTunnel A codec s inner t"
    if "int (length pkt) \<le> ?mtu" "int (length pkt) + 68 \<le> ?peer" "tunnelOfPacket N pkt = Inr t" for pkt t
    unfolding iff using tunnel_overhead [OF assms(1) that(3)] that(1,2) z(2) by linarith
  have "?mtu + 68 \<le> ?peer"
    if all: "\<forall>pkt t. int (length pkt) \<le> ?mtu \<and> tunnelOfPacket N pkt = Inr t \<longrightarrow> sealsTunnel A codec s inner t"
  proof -
    have "48 \<le> nat ?mtu" "nat ?mtu \<le> 65535" using z(1,2) own by linarith+
    from widePacket_tunnel [OF assms(1) this] obtain t where t: "length (widePacket (nat ?mtu)) = nat ?mtu"
      "tunnelOfPacket N (widePacket (nat ?mtu)) = Inr t" "length t + 6 = nat ?mtu" by blast
    have m: "int (nat ?mtu) = ?mtu" using z(1) by simp
    have "int (length t) + 74 \<le> min ?own ?peer" using all [rule_format, of "widePacket (nat ?mtu)" t] t(1,2) m
      unfolding iff by simp
    moreover have "int (length t) + 6 = ?mtu" using t(3) m by linarith
    ultimately show ?thesis by linarith
  qed
  moreover have "sealsTunnel A codec s inner t"
    if "?mtu + 68 \<le> ?peer" "int (length pkt) \<le> ?mtu" "tunnelOfPacket N pkt = Inr t" for pkt t
    using that by (intro fits [of pkt]) linarith+
  ultimately show ?thesis using fits [of pkt t] by blast
qed

text \<open>
  A smaller relay limit. With the default client, whose MTU is 1280 and whose own limit suffices, a relay
  whose configured limit is 1280 passes its validation; the session's limit is then 1280 and an IPv6
  packet of the MTU's length is refused.
\<close>

theorem smaller_relay_limit_refuses:
  assumes "netip_laws N" and "Validate N resolves c = None" and "cfMode c = ''client''"
    and "tcMTU (ccTUN (cfClient c)) < 2 ^ 62" and "Validate N resolves' relay = None"
    and "effectiveDatagramSize (cfTGP relay) < effectiveMTU (ccTUN (cfClient c)) + 68"
    and "NewCodecWithMaxDatagramSize key
      (min (effectiveDatagramSize (cfTGP c)) (effectiveDatagramSize (cfTGP relay))) = Inr codec"
    and "wf_inner inner" and "s \<le> maxDTLSSequence"
  shows "\<exists>t. tunnelOfPacket N (widePacket (nat (effectiveMTU (ccTUN (cfClient c))))) = Inr t \<and>
    \<not> sealsTunnel A codec s inner t"
proof -
  let ?mtu = "effectiveMTU (ccTUN (cfClient c))"
  note z = validated_sizes [OF assms(2,3,4)]
  have "?mtu \<le> 1384" using normalizeMaxDatagramSize_range [OF z(3)] z(2) by (simp add: tgp_sizes)
  then have "48 \<le> nat ?mtu" "nat ?mtu \<le> 65535" using z(1) by linarith+
  from widePacket_tunnel [OF assms(1) this] obtain t where
    t: "tunnelOfPacket N (widePacket (nat ?mtu)) = Inr t" "length t + 6 = nat ?mtu" by blast
  have "MinTGPDatagramSize \<le> effectiveDatagramSize (cfTGP relay)" using assms(5) by (auto simp: Validate_def)
  then have "min (effectiveDatagramSize (cfTGP c)) (effectiveDatagramSize (cfTGP relay)) \<noteq> 0"
    using z(1,2) by (simp add: tgp_sizes)
  note iff = sealsTunnel_iff [OF assms(7) this assms(8,9), of A t]
  have "int (length t) + 6 = ?mtu" using t(2) z(1) by linarith
  then have "\<not> sealsTunnel A codec s inner t" unfolding iff using assms(6) by linarith
  with t(1) show ?thesis by blast
qed


section \<open>What the subsystems are given\<close>

lemma toLower_idem [simp]: "toLower (toLower s) = toLower s"
proof -
  have "toLowerChar (toLowerChar c) = toLowerChar c" for c
    by (auto simp: toLowerChar_def Let_def)
  then show ?thesis by (simp add: toLower_def)
qed

lemma trimSpace_toLower: "trimSpace (toLower s) = toLower (trimSpace s)"
  by (simp add: trimSpace_def toLower_def rev_map dropWhile_map comp_def)

text \<open>Identifiers that differ without white space and case differ up to case.\<close>

lemma validated_profiles:
  assumes "validateGameProfiles ids ps = None" and "\<forall>k \<in> set ids'. toLower (trimSpace k) \<in> set ids"
    and "\<forall>k \<in> set ids'. toLower k = k"
  shows "validateProfiles ids' ps = None"
  using assms
proof (induction ps arbitrary: ids ids')
  case (Cons q ps)
  let ?k = "toLower (gpID q)"
  have fold: "toLower ?k = ?k" and t: "toLower (trimSpace ?k) = toLower (trimSpace (gpID q))"
    by (simp_all add: trimSpace_toLower)
  have v: "ValidateProfile q = None" "toLower (trimSpace (gpID q)) \<notin> set ids"
    "validateGameProfiles (toLower (trimSpace (gpID q)) # ids) ps = None"
    using Cons.prems(1) by (auto simp: Let_def split: if_splits)
  have "?k \<notin> set ids'" using v(2) Cons.prems(2) t by auto
  moreover have "validateProfiles (?k # ids') ps = None"
    using Cons.prems(2,3) fold t by (intro Cons.IH [OF v(3)]) auto
  ultimately show ?case using v(1) by (simp add: Let_def)
qed simp

text \<open>
  C28. A validated configuration is accepted. What the application makes of a validated configuration is
  what the subsystems demand: the FEC options pass \<open>validateFECOptions\<close>; with them, keys of 32 bytes and
  the smaller of this side's datagram limit and that of a peer whose configuration is validated,
  \<open>NewDatagramSession\<close> makes a session with that limit, over any transport to any address that the remote
  policy accepts; the pacer's rate is positive or not a number; the handshake timeout is one that the
  session manager accepts; the authentication key is absent or has at least 16 bytes, and a server has one
  unless it is told to do without; and the game profiles of a client are accepted by the profile store,
  so their ids differ up to case. Of the TUN section only the MTU, the game routes and the flags are
  checked: the address is not, see below.
\<close>

theorem validated_config_is_accepted:
  assumes "Validate N resolves c = None" and "Validate N resolves' peer = None"
    and fec_def: "fec = tgpFECOptions (tgFEC (cfTGP c))" and key_def: "key = tgpAuthKey (tgAuth (cfTGP c))"
    and limit_def: "limit = min (effectiveDatagramSize (cfTGP c)) (effectiveDatagramSize (cfTGP peer))"
  shows "validateFECOptions fec = None \<and>
    (optFEC opts = fec \<and> length (optSendKey opts) = 32 \<and> length (optRecvKey opts) = 32 \<and>
      optMaxDatagramSize opts = limit \<and> optTransport opts = Some T \<and> optRemoteAddr opts = Some a \<and>
      (\<forall>accepts. optValidateRemote opts = Some accepts \<longrightarrow> accepts a) \<longrightarrow>
        (\<exists>session q. NewDatagramSession opts = Inr (session, q) \<and> maxDatagramSize (sSendCodec session) = limit)) \<and>
    \<not> fLessEq (tgpPacerPPS (tgPacing (cfTGP c))) (Num 0) \<and>
    0 \<le> tgHandshakeTimeout (cfTGP c) \<and> tgHandshakeTimeout (cfTGP c) \<le> MaxHandshakeTimeout \<and>
    (key = [] \<or> 16 \<le> length key) \<and>
    (cfMode c = ''server'' \<and> \<not> taAllowUnauthenticated (tgAuth (cfTGP c)) \<longrightarrow> 16 \<le> length key) \<and>
    (cfMode c = ''client'' \<longrightarrow> validateRoutingConfig (routingRuntimeConfig (ccRouting (cfClient c))) = None)"
proof -
  have t: "validateTGP c = None" using assms(1) by (simp add: Validate_def)
  have fec: "validateFECOptions fec = None"
    using t by (auto simp: validateTGP_def Let_def fec_def tgpFECOptions_def validateFECOptions_def
        validateFECParams_def MaxFECReceiveGroups_def)
  have range: "MinTGPDatagramSize \<le> effectiveDatagramSize (cfTGP d)" "effectiveDatagramSize (cfTGP d) \<le> MaxTGPDatagramSize"
    if "Validate N r d = None" for d r
    using that by (auto simp: Validate_def)
  have "normalizeMaxDatagramSize limit = Inr limit"
    using range [OF assms(1)] range [OF assms(2)]
    by (auto simp: limit_def normalizeMaxDatagramSize_def min_def tgp_sizes)
  then have session: "\<exists>session q. NewDatagramSession opts = Inr (session, q) \<and> maxDatagramSize (sSendCodec session) = limit"
    if "optFEC opts = fec" "length (optSendKey opts) = 32" "length (optRecvKey opts) = 32" "optMaxDatagramSize opts = limit"
      "optTransport opts = Some T" "optRemoteAddr opts = Some a"
      "\<forall>accepts. optValidateRemote opts = Some accepts \<longrightarrow> accepts a"
    using that fec by (cases "optValidateRemote opts")
      (simp_all add: NewDatagramSession_def NewCodecWithMaxDatagramSize_def trafficKeySize_def Let_def)
  have rate: "\<not> fLessEq (tgpPacerPPS (tgPacing (cfTGP c))) (Num 0)"
  proof -
    have "\<not> fLessEq r (Num 0)" if "fLess (Num 0) r" for r
      using that by (cases r) (auto simp: fLessEq_def)
    then show ?thesis using t by (auto simp: validateTGP_def Let_def tgpPacerPPS_def)
  qed
  have key: "key = [] \<or> 16 \<le> length key"
    "cfMode c = ''server'' \<and> \<not> taAllowUnauthenticated (tgAuth (cfTGP c)) \<longrightarrow> 16 \<le> length key"
    using t by (auto simp: validateTGP_def Let_def key_def tgpAuthKey_def ModeServer_def)
  have time: "0 \<le> tgHandshakeTimeout (cfTGP c)" "tgHandshakeTimeout (cfTGP c) \<le> MaxHandshakeTimeout"
    using t by (auto simp: validateTGP_def Let_def)
  have "validateRoutingConfig (routingRuntimeConfig (ccRouting (cfClient c))) = None" if "cfMode c = ''client''"
  proof -
    have "validateGameProfiles [] (case crGameProfiles (ccRouting (cfClient c)) of None \<Rightarrow> [] | Some ps \<Rightarrow> ps) = None"
      using validated_client [OF assms(1) that] by (simp add: validateClient_def Let_def)
    from validated_profiles [OF this, of "[]"] show ?thesis
      by (simp add: validateRoutingConfig_def routingRuntimeConfig_def defaultRoutingConfig_def cong: option.case_cong)
  qed
  then show ?thesis using fec session rate key time by blast
qed

text \<open>
  The address of the TUN device is not validated. Validation accepts or refuses a configuration whatever
  \<open>client.tun.address\<close> is; without one the client does not start.
\<close>

theorem tun_address_unchecked:
  "Validate N resolves (c\<lparr>cfClient := (cfClient c)\<lparr>ccTUN := (ccTUN (cfClient c))\<lparr>tcAddress := []\<rparr>\<rparr>\<rparr>) =
     Validate N resolves c \<and> parseTUNPrefixes N [] = None"
  by (simp add: Validate_def validateClient_def validateServer_def validateTGP_def validateClientDataPath_def
      effectiveMTU_def Let_def parseTUNPrefixes_def trimSpace_def)

text \<open>
  White space makes a rule dead. Validation reads the fields of a rule without the white space around
  them, so it accepts a rule with a padded protocol exactly when it accepts the rule without the
  padding; the router compares the fields as they are, and never matches the padded rule.
\<close>

theorem padded_rule_never_matches:
  assumes "ParseFlow N packet = Inr flow" and "padded = rule\<lparr>rrProtocol := '' '' @ rrProtocol rule\<rparr>"
  shows "validateRouteRule N i padded = validateRouteRule N i rule \<and> \<not> routeRuleMatches N padded flow proc"
proof -
  have sp: "isSpace CHR '' ''" by code_simp
  then have t: "trimSpace ('' '' @ s) = trimSpace s" for s by (simp add: trimSpace_def)
  have "\<not> equalFold ('' '' @ s) w" if "w = ''udp'' \<or> w = ''tcp''" for s w
  proof
    assume "equalFold ('' '' @ s) w"
    then have "toLowerChar CHR '' '' = toLowerChar (hd w)" using that by (auto simp: equalFold_def toLower_def)
    moreover have "toLowerChar CHR '' '' = CHR '' ''" "toLowerChar CHR ''u'' = CHR ''u''" "toLowerChar CHR ''t'' = CHR ''t''"
      by code_simp+
    ultimately show False using that by auto
  qed
  then have "\<not> routeRuleMatches N padded flow proc"
    using flow_transport [OF assms(1)] assms(2) by (simp add: routeRuleMatches_def)
  moreover have "validateRouteRule N i padded = validateRouteRule N i rule"
    using t by (simp add: validateRouteRule_def assms(2) Let_def)
  ultimately show ?thesis by blast
qed

section \<open>An example\<close>

definition demo_config :: Config where
  "demo_config = config_defaults\<lparr>cfClient := (cfClient config_defaults)\<lparr>
     ccProxy := \<lparr>pxServerAddr = ''relay.example:443'', pxTGPServerAddr = [], pxLocalAddrs = []\<rparr>,
     ccRouting := demo_router_config\<lparr>rcDefaultAction := ''drop''\<rparr>\<rparr>,
     cfIPC := \<lparr>ipWebSocketAddr = [], ipGRPCAddr = [], ipTelemetryIntervalMS = 500\<rparr>\<rparr>"

lemma demo_config_valid: "Validate demo_netip (\<lambda>_. True) demo_config = None"
  by code_simp

theorem validated_routing_is_udp_only_witness:
  "fkTransport (flowBetween demo_netip demo_src demo_dst) = ''udp'' \<and>
    deAction (routerDecide demo_netip (NewRouter (ccRouting (cfClient demo_config)) (configEngine defaultRoutingConfig))
      (flowBetween demo_netip demo_src demo_dst) zeroProcess) = ''tgp''"
proof -
  have m: "cfMode demo_config = ''client''" by code_simp
  have f: "ParseFlow demo_netip demo_packet = Inr (flowBetween demo_netip demo_src demo_dst)"
    using parse_built [OF _ _ demo_packet_built] by (simp add: demo_src_def demo_dst_def)
  have d: "deAction (routerDecide demo_netip (NewRouter (ccRouting (cfClient demo_config)) (configEngine defaultRoutingConfig))
      (flowBetween demo_netip demo_src demo_dst) zeroProcess) = ''tgp''"
    by code_simp
  from validated_routing_is_udp_only [OF demo_config_valid m f _ d] d show ?thesis by blast
qed

text \<open>A relay with a datagram limit of 1280 bytes.\<close>

definition demo_relay_config :: Config where
  "demo_relay_config = config_defaults\<lparr>cfMode := ''server'',
     cfTGP := (cfTGP config_defaults)\<lparr>tgMaxDatagramSize := 1280, tgAuth := \<lparr>taPSK = [], taAllowUnauthenticated = True\<rparr>\<rparr>\<rparr>"

lemma demo_relay_valid: "Validate demo_netip (\<lambda>_. True) demo_relay_config = None"
  by code_simp

definition demo_inner :: InnerHeader where
  "demo_inner = \<lparr>Magic = TGP_Magic, Flags = 0, SessionID = zeros 16, StreamID = 0, PacketNumber = 5,
     FECGroup = 0, FECIndex = 0, FECTotal = 0, FECDataShards = 0, PayloadLength = 0\<rparr>"

lemma demo_pair:
  "cfMode demo_config = ''client''" "tcMTU (ccTUN (cfClient demo_config)) < 2 ^ 62"
  "effectiveMTU (ccTUN (cfClient demo_config)) = 1280" "effectiveDatagramSize (cfTGP demo_relay_config) = 1280"
  "NewCodecWithMaxDatagramSize (zeros 32)
     (min (effectiveDatagramSize (cfTGP demo_config)) (effectiveDatagramSize (cfTGP demo_relay_config))) =
   Inr \<lparr>codecKey = zeros 32, maxDatagramSize = 1280\<rparr>"
  by code_simp+

lemma demo_inner_wf: "wf_inner demo_inner" "(5 :: u64) \<le> maxDTLSSequence"
  by (simp_all add: demo_inner_def wf_inner_def maxDTLSSequence_eq)

theorem validated_packet_fits_witness:
  "\<exists>t. tunnelOfPacket demo_netip demo_packet = Inr t \<and>
    sealsTunnel demo_aead \<lparr>codecKey = zeros 32, maxDatagramSize = 1280\<rparr> 5 demo_inner t"
proof -
  have l: "length demo_packet = 31"
    by (simp add: demo_packet_def buildUDPPacket_def buildIPv4_eq demo_src_def demo_dst_def ipv4Header_def
        length_udp Let_def)
  obtain t where t: "tunnelOfPacket demo_netip demo_packet = Inr t"
    using tunnel_built [OF demo_netip_laws _ _ demo_packet_built refl] by (auto simp: demo_src_def demo_dst_def)
  from validated_packet_fits [OF demo_netip_laws demo_config_valid demo_pair(1,2) demo_relay_valid
      demo_pair(5) demo_inner_wf, of demo_packet t demo_aead]
  show ?thesis using t by (simp add: demo_pair l)
qed

theorem smaller_relay_limit_refuses_witness:
  "\<exists>t. tunnelOfPacket demo_netip (widePacket 1280) = Inr t \<and>
    \<not> sealsTunnel demo_aead \<lparr>codecKey = zeros 32, maxDatagramSize = 1280\<rparr> 5 demo_inner t"
  using smaller_relay_limit_refuses [OF demo_netip_laws demo_config_valid demo_pair(1,2) demo_relay_valid _
      demo_pair(5) demo_inner_wf, of demo_aead]
  by (simp add: demo_pair)

theorem validated_config_is_accepted_witness:
  "validateFECOptions (tgpFECOptions (tgFEC (cfTGP demo_config))) = None \<and>
   validateRoutingConfig (routingRuntimeConfig (ccRouting (cfClient demo_config))) = None"
  using validated_config_is_accepted [OF demo_config_valid demo_relay_valid refl refl refl] demo_pair(1) by blast

theorem padded_rule_never_matches_witness:
  "validateRouteRule demo_netip 0 demo_rule = None \<and>
    routeRuleMatches demo_netip demo_rule (flowBetween demo_netip demo_src demo_dst) zeroProcess \<and>
    validateRouteRule demo_netip 0 (demo_rule\<lparr>rrProtocol := '' udp''\<rparr>) = None \<and>
    \<not> routeRuleMatches demo_netip (demo_rule\<lparr>rrProtocol := '' udp''\<rparr>) (flowBetween demo_netip demo_src demo_dst) zeroProcess"
proof -
  have f: "ParseFlow demo_netip demo_packet = Inr (flowBetween demo_netip demo_src demo_dst)"
    using parse_built [OF _ _ demo_packet_built] by (simp add: demo_src_def demo_dst_def)
  have p: "demo_rule\<lparr>rrProtocol := '' udp''\<rparr> = demo_rule\<lparr>rrProtocol := '' '' @ rrProtocol demo_rule\<rparr>"
    by (simp add: demo_rule_def)
  have d: "validateRouteRule demo_netip 0 demo_rule = None"
    "routeRuleMatches demo_netip demo_rule (flowBetween demo_netip demo_src demo_dst) zeroProcess"
    by code_simp+
  from padded_rule_never_matches [OF f p, of 0 zeroProcess] d show ?thesis by simp
qed

end
