(* ===== verification/ServerRelay_ACL.thy ===== *)
theory ServerRelay_ACL
  imports ServerRelay Config_Props
begin

text \<open>
  Properties of the server's packet handler: which targets the list allows, that validated targets
  compile, and that only allowed datagrams are forwarded.
\<close>


section \<open>Prefixes\<close>

definition bitsOf :: "bytes \<Rightarrow> bool list" where
  "bitsOf bs = concat (map (\<lambda>b. map (\<lambda>i. bit b (7 - i)) [0..<8]) bs)"

lemma bitsOf_simps [simp]: "bitsOf [] = []" "bitsOf (b # bs) = map (\<lambda>i. bit b (7 - i)) [0..<8] @ bitsOf bs"
  by (simp_all add: bitsOf_def del: upt_Suc upt_rec_numeral)

lemma addrBits_bitsOf: "addrBits a = bitsOf (Addr_AsSlice a)" by (simp add: addrBits_def bitsOf_def)

lemma length_bitsOf [simp]: "length (bitsOf bs) = 8 * length bs"
  by (induction bs) (simp_all del: upt_rec_numeral)

lemma byte_bits:
  fixes b c :: byte
  assumes "map (\<lambda>i. bit b (7 - i)) [0..<8] = map (\<lambda>i. bit c (7 - i)) [0..<8]"
  shows "b = c"
proof (rule bit_word_eqI)
  fix n assume "n < LENGTH(8)"
  then have "7 - n < 8" "7 - (7 - n) = n" by auto
  then show "bit b n = bit c n"
    using assms by (metis (no_types, lifting) atLeastLessThan_iff atLeastLessThan_upt map_eq_conv zero_le)
qed

lemma bitsOf_inj: "length bs = length cs \<Longrightarrow> bitsOf bs = bitsOf cs \<Longrightarrow> bs = cs"
proof (induction bs cs rule: list_induct2)
  case (Cons b bs c cs)
  then show ?case using byte_bits [of b c] by (simp del: upt_rec_numeral)
qed simp

definition maskByte :: "nat \<Rightarrow> byte \<Rightarrow> byte" where
  "maskByte n b = (if 8 \<le> n then b else if n = 0 then 0 else push_bit (8 - n) (drop_bit (8 - n) b))"

lemma maskBytes_Cons: "maskBytes n (b # bs) = maskByte n b # maskBytes (n - 8) bs"
proof -
  let ?f = "\<lambda>n (i, b :: byte). if 8 * i + 8 \<le> n then b else if n \<le> 8 * i then 0
      else push_bit (8 * i + 8 - n) (drop_bit (8 * i + 8 - n) b)"
  have "?f n (Suc i, x) = ?f (n - 8) (i, x)" for i x
    by (cases "8 \<le> n") (auto simp: algebra_simps)
  then have "map (?f n) (enumerate (Suc 0) bs) = maskBytes (n - 8) bs"
    unfolding maskBytes_def enumerate_Suc_eq map_map by (intro map_cong) (auto simp: apfst_def)
  then show ?thesis by (simp add: maskBytes_def maskByte_def)
qed

lemma maskBytes_Nil [simp]: "maskBytes n [] = []" by (simp add: maskBytes_def)

lemma take_masked: "take n (bitsOf (maskBytes n bs)) = take n (bitsOf bs)"
proof (induction bs arbitrary: n)
  case (Cons b bs)
  have "bit (maskByte n b) (7 - i) = bit b (7 - i)" if "i < 8" "i < n" for i
    using that by (auto simp: maskByte_def bit_simps)
  then have "take n (map (\<lambda>i. bit (maskByte n b) (7 - i)) [0..<8]) = take n (map (\<lambda>i. bit b (7 - i)) [0..<8])"
    by (intro nth_equalityI) (auto simp del: upt_rec_numeral)
  then show ?case using Cons.IH [of "n - 8"] by (simp add: maskBytes_Cons del: upt_rec_numeral)
qed simp

lemma prefixContains_Masked: "prefixContains (Masked p) a = prefixContains p a"
  by (cases "prefixAddr p") (simp_all add: prefixContains_def Masked_def addrBits_bitsOf take_masked Addr_IsValid_def)

lemma prefixContains_addrPrefix:
  assumes "wf_addr a" and "wf_addr b"
  shows "prefixContains (addrPrefix a) b \<longleftrightarrow> b \<noteq> AddrZero \<and> b = withoutZone a"
proof -
  have z: "b = Addr6 cs []" if "b = Addr6 cs z" "zoneless b" for cs z using that by simp
  show ?thesis
    using assms bitsOf_inj [of "Addr_AsSlice a" "Addr_AsSlice b"]
    by (cases a; cases b)
      (auto simp: prefixContains_def addrPrefix_def withoutZone_def addrBits_bitsOf Addr_IsValid_def)
qed

section \<open>The list of allowed targets\<close>

text \<open>The addresses a rule's domain stands for.\<close>

definition domainAddrs :: "netip \<Rightarrow> (string \<Rightarrow> Addr list option) \<Rightarrow> string \<Rightarrow> Addr list" where
  "domainAddrs N lookupIP domain =
     (case parseAddr N domain of Some a \<Rightarrow> [a]
      | None \<Rightarrow> (case lookupIP domain of None \<Rightarrow> [] | Some addrs \<Rightarrow> addrs))"

text \<open>The reference: a rule covers a target when one of its port ranges and its network or domain do.\<close>

definition ruleCovers :: "netip \<Rightarrow> (string \<Rightarrow> Addr list option) \<Rightarrow> RelayTargetRule \<Rightarrow> AddrPort \<Rightarrow> bool" where
  "ruleCovers N lookupIP rule target \<longleftrightarrow>
     (\<exists>ports. parseACLPortRanges (rtPorts rule) = Some ports \<and>
        (\<exists>r\<in>set ports. prStart r \<le> apPort target \<and> apPort target \<le> prEnd r)) \<and>
     (trimSpace (rtCIDR rule) \<noteq> [] \<and> (\<exists>p. parsePrefix N (trimSpace (rtCIDR rule)) = Some p \<and>
        prefixBits p \<noteq> 0 \<and> prefixContains p (apAddr target)) \<or>
      trimSpace (rtDomain rule) \<noteq> [] \<and>
        (\<exists>a\<in>set (domainAddrs N lookupIP (trimSpace (rtDomain rule))). withoutZone a = apAddr target))"

text \<open>The parser and the resolver return addresses of the right length.\<close>

definition addrs_wf :: "netip \<Rightarrow> (string \<Rightarrow> Addr list option) \<Rightarrow> bool" where
  "addrs_wf N lookupIP \<longleftrightarrow> (\<forall>t a. parseAddr N t = Some a \<longrightarrow> wf_addr a) \<and>
     (\<forall>d addrs. lookupIP d = Some addrs \<longrightarrow> (\<forall>a\<in>set addrs. wf_addr a))"

lemma resolve_covers:
  assumes "addrs_wf N lookupIP" and "resolveACLDomain N lookupIP domain = Some ps" and "wf_addr b" and "b \<noteq> AddrZero"
  shows "(\<exists>p\<in>set ps. prefixContains p b) \<longleftrightarrow> (\<exists>a\<in>set (domainAddrs N lookupIP domain). withoutZone a = b)"
proof (cases "parseAddr N domain")
  case None
  then obtain addrs where l: "lookupIP domain = Some addrs" "ps = map addrPrefix addrs"
    using assms(2) by (auto simp: resolveACLDomain_def split: option.splits if_splits)
  have "\<forall>a\<in>set addrs. wf_addr a" using assms(1) l(1) by (auto simp: addrs_wf_def)
  then have "(\<exists>a\<in>set addrs. prefixContains (addrPrefix a) b) \<longleftrightarrow> (\<exists>a\<in>set addrs. withoutZone a = b)"
    using prefixContains_addrPrefix [OF _ assms(3)] assms(4) by fastforce
  then show ?thesis by (simp add: domainAddrs_def None l)
next
  case (Some a)
  then have "wf_addr a" "ps = [addrPrefix a]" using assms(1,2) by (auto simp: addrs_wf_def resolveACLDomain_def)
  then show ?thesis using prefixContains_addrPrefix [OF _ assms(3), of a] assms(4) Some by (auto simp: domainAddrs_def)
qed

lemma compiled_covers:
  assumes "compileACLRule N lookupIP i rule = Inr r" and "addrs_wf N lookupIP" and "wf_addr (apAddr target)"
    and "apAddr target \<noteq> AddrZero"
  shows "portAllowed r (apPort target) \<and> (\<exists>p\<in>set (arPrefixes r). prefixContains p (apAddr target)) \<longleftrightarrow>
    ruleCovers N lookupIP rule target"
proof -
  obtain direct resolved ports where c:
    "(if trimSpace (rtCIDR rule) = [] then Some [] else case parsePrefix N (trimSpace (rtCIDR rule)) of
       None \<Rightarrow> None | Some prefix \<Rightarrow> if prefixBits prefix = 0 then None else Some [Masked prefix]) = Some direct"
    "(if trimSpace (rtDomain rule) = [] then Some [] else resolveACLDomain N lookupIP (trimSpace (rtDomain rule))) = Some resolved"
    "parseACLPortRanges (rtPorts rule) = Some ports"
    and r: "r = \<lparr>arPrefixes = direct @ resolved, arPorts = ports\<rparr>"
    using assms(1) by (auto simp: compileACLRule_def Let_def split: option.splits if_splits)
  have "(\<exists>p\<in>set direct. prefixContains p (apAddr target)) \<longleftrightarrow> trimSpace (rtCIDR rule) \<noteq> [] \<and>
      (\<exists>p. parsePrefix N (trimSpace (rtCIDR rule)) = Some p \<and> prefixBits p \<noteq> 0 \<and> prefixContains p (apAddr target))"
    using c(1) by (auto simp: prefixContains_Masked split: if_splits option.splits)
  moreover have "(\<exists>p\<in>set resolved. prefixContains p (apAddr target)) \<longleftrightarrow> trimSpace (rtDomain rule) \<noteq> [] \<and>
      (\<exists>a\<in>set (domainAddrs N lookupIP (trimSpace (rtDomain rule))). withoutZone a = apAddr target)"
    using c(2) resolve_covers [OF assms(2) _ assms(3,4), of "trimSpace (rtDomain rule)" resolved] by (auto split: if_splits)
  ultimately show ?thesis
    by (auto simp: ruleCovers_def c(3) r portAllowed_def list_ex_iff)
qed

lemma compiled_rules:
  "compileACLRules N lookupIP i rules = Inr acl \<Longrightarrow>
    list_all2 (\<lambda>rule r. \<exists>i. compileACLRule N lookupIP i rule = Inr r) rules acl"
  by (induction rules arbitrary: i acl) (auto split: sum.splits)

lemma acl_covers:
  assumes "newTargetACL N lookupIP rules = Inr acl" and "addrs_wf N lookupIP" and "wf_addr (apAddr target)"
  shows "Allows (Some acl) target \<longleftrightarrow> Addr_IsValid (apAddr target) \<and> (\<exists>rule\<in>set rules. ruleCovers N lookupIP rule target)"
proof (cases "Addr_IsValid (apAddr target)")
  case True
  then have nz: "apAddr target \<noteq> AddrZero" by (auto simp: Addr_IsValid_def)
  have l: "list_all2 (\<lambda>rule r. \<exists>i. compileACLRule N lookupIP i rule = Inr r) rules acl"
    using assms(1) compiled_rules by (auto simp: newTargetACL_def)
  have "list_all2 (\<lambda>rule r. ruleCovers N lookupIP rule target =
      (portAllowed r (apPort target) \<and> (\<exists>p\<in>set (arPrefixes r). prefixContains p (apAddr target)))) rules acl"
    using compiled_covers [OF _ assms(2,3) nz] by (intro list_all2_mono [OF l]) blast
  then have "(\<exists>rule\<in>set rules. ruleCovers N lookupIP rule target) \<longleftrightarrow>
      (\<exists>r\<in>set acl. portAllowed r (apPort target) \<and> (\<exists>p\<in>set (arPrefixes r). prefixContains p (apAddr target)))"
    by (induction rule: list_all2_induct) auto
  then show ?thesis using True by (auto simp: Allows_def list_ex_iff)
qed (simp add: Allows_def)

text \<open>
  C33. The list allows exactly what is configured. The compiled list of targets allows a target if and only
  if it is a valid address and some configured rule covers it: one of its port ranges contains the
  port, and its network, of which masking the address changes nothing, or one of the addresses of its
  domain is the target. A list without rules allows nothing, and no rule with a prefix of length zero
  compiles.
\<close>

theorem acl_allows_exactly:
  assumes "newTargetACL N lookupIP rules = Inr acl" and "addrs_wf N lookupIP" and "wf_addr (apAddr target)"
  shows "(Allows (Some acl) target \<longleftrightarrow> Addr_IsValid (apAddr target) \<and> (\<exists>rule\<in>set rules. ruleCovers N lookupIP rule target)) \<and>
    \<not> Allows None target"
  using acl_covers [OF assms] by (simp add: Allows_def)

section \<open>Validated targets compile\<close>

lemma trim_Cons: "isSpace x \<Longrightarrow> trimSpace (x # s) = trimSpace s"
  by (simp add: trimSpace_def)

lemma trim_snoc:
  assumes "isSpace x"
  shows "trimSpace (s @ [x]) = trimSpace s"
proof (cases "\<forall>y\<in>set s. isSpace y")
  case True
  then have "dropWhile isSpace s = []" "dropWhile isSpace (s @ [x]) = []" using assms by auto
  then show ?thesis by (simp only: trimSpace_def)
next
  case False
  then have "dropWhile isSpace (s @ [x]) = dropWhile isSpace s @ [x]" by (auto simp: dropWhile_append1)
  then show ?thesis using assms by (simp add: trimSpace_def)
qed

lemma trim_parts: "\<exists>a b. s = a @ trimSpace s @ b \<and> (\<forall>x\<in>set a \<union> set b. isSpace x)"
proof -
  define u where "u = dropWhile isSpace s"
  have "s = takeWhile isSpace s @ u" by (simp add: u_def)
  moreover have "rev u = takeWhile isSpace (rev u) @ dropWhile isSpace (rev u)" by simp
  then have "u = trimSpace s @ rev (takeWhile isSpace (rev u))"
    by (metis rev_append rev_rev_ident trimSpace_def u_def)
  ultimately have "s = takeWhile isSpace s @ trimSpace s @ rev (takeWhile isSpace (rev u))" by simp
  then show ?thesis using set_takeWhileD by fastforce
qed

lemma split_nonempty [simp]: "splitOn c s \<noteq> []"
  by (induction s) (auto split: list.splits)

lemma split_Cons: "x \<noteq> c \<Longrightarrow> splitOn c (x # s) = (x # hd (splitOn c s)) # tl (splitOn c s)"
  using split_nonempty [of c s] by (auto split: list.splits)

lemma split_snoc: "x \<noteq> c \<Longrightarrow> splitOn c (s @ [x]) = butlast (splitOn c s) @ [last (splitOn c s) @ [x]]"
proof (induction s)
  case (Cons y s)
  then show ?case using split_nonempty [of c s] by (cases "splitOn c s") (auto split: list.splits)
qed simp

lemma split_trimmed:
  assumes "\<not> isSpace c"
  shows "map trimSpace (splitOn c (trimSpace s)) = map trimSpace (splitOn c s)"
proof -
  have front: "map trimSpace (splitOn c (a @ t)) = map trimSpace (splitOn c t)" if "\<forall>x\<in>set a. isSpace x" for a t
    using that
  proof (induction a)
    case (Cons x a)
    then have "x \<noteq> c" "isSpace x" using assms by auto
    then show ?case using Cons split_nonempty [of c "a @ t"]
      by (cases "splitOn c (a @ t)") (auto simp: split_Cons trim_Cons simp del: splitOn.simps)
  qed simp
  have rear: "map trimSpace (splitOn c (t @ b)) = map trimSpace (splitOn c t)" if "\<forall>x\<in>set b. isSpace x" for b t
    using that
  proof (induction b rule: rev_induct)
    case (snoc x b)
    then have "x \<noteq> c" "isSpace x" using assms by auto
    moreover have "map trimSpace (butlast xs @ [last xs @ [x]]) = map trimSpace xs" if "xs \<noteq> []" for xs
      using that \<open>isSpace x\<close> by (cases xs rule: rev_cases) (auto simp: trim_snoc)
    ultimately show ?case using snoc split_snoc [of x c "t @ b"] by simp
  qed simp
  obtain a b where "s = a @ trimSpace s @ b" "\<forall>x\<in>set a \<union> set b. isSpace x" using trim_parts by blast
  then show ?thesis using front [of a "trimSpace s @ b"] rear [of b "trimSpace s"] by (metis UnCI)
qed

lemma aclPort_of: "parseACLPort raw = map_option of_int (parsePortNumber raw)"
  by (auto simp: parseACLPort_def parsePortNumber_def split: option.splits)

lemma port_range: "parsePortNumber raw = Some n \<Longrightarrow> 1 \<le> n \<and> n \<le> 65535"
  by (auto simp: parsePortNumber_def split: option.splits if_splits)

lemma word_port: "0 \<le> m \<Longrightarrow> m \<le> 65535 \<Longrightarrow> 0 \<le> n \<Longrightarrow> n \<le> 65535 \<Longrightarrow> (of_int m :: u16) > of_int n \<longleftrightarrow> m > n"
  by (simp add: word_less_iff_unsigned [where 'a = int] unsigned_of_int take_bit_int_eq_self)

lemma validRange_iff: "validPortRange part \<longleftrightarrow> parseACLRange part \<noteq> None"
proof -
  let ?b = "splitOn (CHR ''-'') (trimSpace part)"
  have w: "(of_int m :: u16) > of_int n \<longleftrightarrow> m > n"
    if "parsePortNumber x = Some m" "parsePortNumber y = Some n" for x y m n
    using port_range [OF that(1)] port_range [OF that(2)] by (intro word_port) auto
  show ?thesis
    by (auto simp: validPortRange_def parseACLRange_def Let_def aclPort_of w split: option.splits)
qed

lemma range_trim: "parseACLRange (trimSpace part) = parseACLRange part"
  by (simp add: parseACLRange_def)

lemma ranges_None: "parseACLRanges parts = None \<longleftrightarrow> (\<exists>p\<in>set parts. parseACLRange p = None)"
  by (induction parts) (auto split: option.splits)

lemma validPorts_iff:
  assumes "trimSpace raw \<noteq> []"
  shows "validatePortRanges raw \<longleftrightarrow> parseACLPortRanges raw \<noteq> None"
proof -
  have c: "\<not> isSpace (CHR '','')" by code_simp
  have m: "list_all (\<lambda>p. parseACLRange p \<noteq> None) ps = list_all (\<lambda>p. parseACLRange p \<noteq> None) (map trimSpace ps)" for ps
    by (simp add: list.pred_map comp_def range_trim)
  have "validatePortRanges raw \<longleftrightarrow> list_all (\<lambda>p. parseACLRange p \<noteq> None) (splitOn (CHR '','') (trimSpace raw))"
    using assms by (simp add: validatePortRanges_def validRange_iff [abs_def] Let_def)
  also have "\<dots> \<longleftrightarrow> list_all (\<lambda>p. parseACLRange p \<noteq> None) (splitOn (CHR '','') raw)"
    by (subst m, subst (2) m) (simp only: split_trimmed [OF c])
  also have "\<dots> \<longleftrightarrow> parseACLPortRanges raw \<noteq> None"
    by (auto simp: parseACLPortRanges_def ranges_None list_all_iff)
  finally show ?thesis .
qed

lemma compiled_or_unresolved:
  assumes "\<forall>j < length rules. validateRelayTarget N (i + j) (rules ! j) = None"
  shows "(\<exists>acl. compileACLRules N lookupIP i rules = Inr acl) \<or>
    (\<exists>j < length rules. compileACLRules N lookupIP i rules = Inl (ACLDomain (i + j)) \<and>
       resolveACLDomain N lookupIP (trimSpace (rtDomain (rules ! j))) = None)"
  using assms
proof (induction rules arbitrary: i)
  case (Cons rule rules)
  have v: "validateRelayTarget N i rule = None" using Cons.prems [rule_format, of 0] by simp
  have "\<forall>j < length rules. validateRelayTarget N (Suc i + j) (rules ! j) = None"
    using Cons.prems by (metis Suc_mono add_Suc_shift length_Cons nth_Cons_Suc)
  note IH = Cons.IH [OF this]
  have p: "validatePortRanges (rtPorts rule)" "trimSpace (rtPorts rule) \<noteq> []"
    using v by (auto simp: validateRelayTarget_def Let_def)
  obtain ports where ports: "parseACLPortRanges (rtPorts rule) = Some ports" using validPorts_iff p by blast
  have c: "trimSpace (rtCIDR rule) = [] \<or> (\<exists>p. parsePrefix N (trimSpace (rtCIDR rule)) = Some p \<and> prefixBits p \<noteq> 0)"
    "trimSpace (rtCIDR rule) \<noteq> [] \<or> trimSpace (rtDomain rule) \<noteq> []"
    using v by (auto simp: validateRelayTarget_def Let_def split: option.splits if_splits)
  show ?case
  proof (cases "trimSpace (rtDomain rule) \<noteq> [] \<and> resolveACLDomain N lookupIP (trimSpace (rtDomain rule)) = None")
    case True
    then have "compileACLRule N lookupIP i rule = Inl (ACLDomain i)" using c by (auto simp: compileACLRule_def Let_def)
    then show ?thesis using True by (intro disjI2 exI [of _ 0]) simp
  next
    case False
    have ne: "ps \<noteq> []" if "resolveACLDomain N lookupIP d = Some ps" for d ps
      using that by (auto simp: resolveACLDomain_def split: option.splits if_splits)
    have "\<exists>r. compileACLRule N lookupIP i rule = Inr r"
      using False c p(2) ports ne by (auto simp: compileACLRule_def Let_def split: option.splits)
    then obtain r where r: "compileACLRule N lookupIP i rule = Inr r" by blast
    from IH show ?thesis
    proof
      assume "\<exists>acl. compileACLRules N lookupIP (Suc i) rules = Inr acl"
      then show ?thesis using r by auto
    next
      assume "\<exists>j<length rules. compileACLRules N lookupIP (Suc i) rules = Inl (ACLDomain (Suc i + j)) \<and>
        resolveACLDomain N lookupIP (trimSpace (rtDomain (rules ! j))) = None"
      then obtain j where "j < length rules" "compileACLRules N lookupIP (Suc i) rules = Inl (ACLDomain (Suc i + j))"
        "resolveACLDomain N lookupIP (trimSpace (rtDomain (rules ! j))) = None" by blast
      then show ?thesis using r by (intro disjI2 exI [of _ "Suc j"]) simp
    qed
  qed
qed simp

text \<open>
  Validated targets compile. Configuration and handler read the targets with parsers of their own. For
  targets that the validation accepts the list compiles, unless the resolver finds nothing for a domain,
  and then the error names that rule. The converse does not hold: the handler's parser accepts, for
  example, an IPv6 address as a domain, which the validation refuses.
\<close>

theorem validated_targets_compile:
  assumes "validateRelayTargets N rules = None"
  shows "(\<exists>acl. newTargetACL N lookupIP rules = Inr acl) \<or>
    (\<exists>i < length rules. newTargetACL N lookupIP rules = Inl (ACLDomain i) \<and>
       resolveACLDomain N lookupIP (trimSpace (rtDomain (rules ! i))) = None)"
  using compiled_or_unresolved [of rules N 0 lookupIP] assms
  by (simp add: newTargetACL_def validateRelayTargets_def eachEntry_None)

section \<open>The handler\<close>

text \<open>
  C29. The relay forwards only what is allowed. Whatever a client sends, the handler forwards at most the
  one datagram it carries, and only when the compiled list covers its remote endpoint; without rules
  nothing is forwarded; a handler with a pool, as in production, reports an error whenever it forwards
  nothing; and the answer of the target goes back under the identity and endpoints the datagram had.
\<close>

theorem relay_forwards_only_allowed:
  assumes "newTargetACL N lookupIP rules = Inr acl" and "addrs_wf N lookupIP"
    and "HandleRelayPacket (Some acl) relay hasSession sendOk sid payload = (res, forwarded)"
  shows "(relay \<and> forwarded = [] \<longrightarrow> res \<noteq> None) \<and> length forwarded \<le> 1 \<and>
    (\<forall>(key, data)\<in>set forwarded. \<exists>d. ParseTunnelDatagram payload = Inr d \<and> data = tunnelPayload d \<and>
       (\<exists>rule\<in>set rules. ruleCovers N lookupIP rule \<lparr>apAddr = RemoteIP d, apPort = RemotePort d\<rparr>) \<and>
       (\<forall>reply wire. sendResponse key reply = Inr wire \<longrightarrow>
          ParseTunnelDatagram wire = Inr (d\<lparr>tunnelPayload := reply\<rparr>)))"
proof (cases "ParseTunnelDatagram payload")
  case (Inl e)
  then show ?thesis using assms(3) by (auto simp: HandleRelayPacket_def)
next
  case (Inr d)
  let ?t = "\<lparr>apAddr = RemoteIP d, apPort = RemotePort d\<rparr>"
  have w: "wf_tunnel d" using Inr tunnel_format.dec_iff by blast
  have a: "Allows (Some acl) ?t \<longleftrightarrow> Addr_IsValid (apAddr ?t) \<and> (\<exists>rule\<in>set rules. ruleCovers N lookupIP rule ?t)"
    using acl_covers [OF assms(1,2), of ?t] w by (simp add: wf_tunnel_def)
  have "ParseTunnelDatagram wire = Inr (d\<lparr>tunnelPayload := reply\<rparr>)"
    if "sendResponse (relayKey sid d) reply = Inr wire" for reply wire
  proof -
    have e: "\<lparr>Identity = Identity d, LocalIP = LocalIP d, LocalPort = LocalPort d, RemoteIP = RemoteIP d,
        RemotePort = RemotePort d, tunnelPayload = reply\<rparr> = d\<lparr>tunnelPayload := reply\<rparr>" by simp
    have "wf_tunnel (d\<lparr>tunnelPayload := reply\<rparr>)" using w by (simp add: wf_tunnel_def)
    then show ?thesis using that Parse_Marshal by (simp add: sendResponse_def relayKey_def e)
  qed
  then show ?thesis using assms(3) a by (auto simp: HandleRelayPacket_def ForwardUDP_def Inr split: if_splits)
qed

text \<open>One network, two ports.\<close>

definition demo_target_netip :: netip where
  "demo_target_netip = demo_netip\<lparr>parsePrefix := (\<lambda>t. Some \<lparr>prefixAddr = Addr4 [1, 2, 0, 0], prefixBits = 16\<rparr>)\<rparr>"

definition demo_targets :: "RelayTargetRule list" where
  "demo_targets = [\<lparr>rtCIDR = ''1.2.0.0/16'', rtDomain = [], rtPorts = ''53, 80-90''\<rparr>]"

lemma demo_addrs_wf: "addrs_wf demo_target_netip (\<lambda>_. None)"
  by (auto simp: addrs_wf_def demo_target_netip_def demo_netip_def split: if_splits)

lemma demo_targets_compile: "newTargetACL demo_target_netip (\<lambda>_. None) demo_targets =
    Inr [\<lparr>arPrefixes = [\<lparr>prefixAddr = Addr4 [1, 2, 0, 0], prefixBits = 16\<rparr>],
      arPorts = [\<lparr>prStart = 53, prEnd = 53\<rparr>, \<lparr>prStart = 80, prEnd = 90\<rparr>]\<rparr>]"
proof -
  have t: "trimSpace ''53'' = ''53''" "trimSpace '' 80-90'' = ''80-90''" "trimSpace ''80'' = ''80''" "trimSpace ''90'' = ''90''"
    "trimSpace ''1.2.0.0/16'' = ''1.2.0.0/16''" "trimSpace ''53, 80-90'' = ''53, 80-90''" "trimSpace [] = []"
    "splitOn (CHR '','') ''53, 80-90'' = [''53'', '' 80-90'']" "splitOn (CHR ''-'') ''80-90'' = [''80'', ''90'']"
    "splitOn (CHR ''-'') ''53'' = [''53'']"
    by code_simp+
  have n: "parseAtoi ''53'' = Some 53" "parseAtoi ''80'' = Some 80" "parseAtoi ''90'' = Some 90"
    by (simp_all add: parseAtoi_def digitVal_def)
  have m: "Masked \<lparr>prefixAddr = Addr4 [1, 2, 0, 0], prefixBits = 16\<rparr> = \<lparr>prefixAddr = Addr4 [1, 2, 0, 0], prefixBits = 16\<rparr>"
    by (simp add: Masked_def maskBytes_def)
  show ?thesis
    by (simp add: newTargetACL_def demo_targets_def compileACLRule_def demo_target_netip_def t n m parseACLPortRanges_def
        parseACLRange_def parseACLPort_def)
qed

theorem acl_allows_exactly_witness:
  "Allows (Some [\<lparr>arPrefixes = [\<lparr>prefixAddr = Addr4 [1, 2, 0, 0], prefixBits = 16\<rparr>],
      arPorts = [\<lparr>prStart = 53, prEnd = 53\<rparr>, \<lparr>prStart = 80, prEnd = 90\<rparr>]\<rparr>]) demo_dst \<and>
    (\<exists>rule\<in>set demo_targets. ruleCovers demo_target_netip (\<lambda>_. None) rule demo_dst)"
proof -
  have "Allows (Some [\<lparr>arPrefixes = [\<lparr>prefixAddr = Addr4 [1, 2, 0, 0], prefixBits = 16\<rparr>],
      arPorts = [\<lparr>prStart = 53, prEnd = 53\<rparr>, \<lparr>prStart = 80, prEnd = 90\<rparr>]\<rparr>]) demo_dst"
    by (simp add: Allows_def portAllowed_def prefixContains_def demo_dst_def Addr_IsValid_def addrBits_def upt_rec)
  then show ?thesis using acl_allows_exactly [OF demo_targets_compile demo_addrs_wf, of demo_dst]
    by (simp add: demo_dst_def)
qed

theorem validated_targets_compile_witness:
  "validateRelayTargets demo_target_netip demo_targets = None \<and>
    (\<exists>acl. newTargetACL demo_target_netip (\<lambda>_. None) demo_targets = Inr acl)"
proof -
  have t: "trimSpace ''1.2.0.0/16'' = ''1.2.0.0/16''" "trimSpace ''53, 80-90'' = ''53, 80-90''" "trimSpace [] = []"
    by code_simp+
  have "validatePortRanges ''53, 80-90''"
    using demo_targets_compile validPorts_iff [of "''53, 80-90''"]
    by (auto simp: newTargetACL_def demo_targets_def compileACLRule_def t demo_target_netip_def Let_def
        split: option.splits if_splits)
  then have v: "validateRelayTargets demo_target_netip demo_targets = None"
    by (simp add: validateRelayTargets_def eachEntry_None demo_targets_def validateRelayTarget_def t demo_target_netip_def Let_def)
  from validated_targets_compile [OF v, of "\<lambda>_. None"] v demo_targets_compile show ?thesis by simp
qed


theorem relay_forwards_only_allowed_witness:
  "\<exists>wire acl key. MarshalTunnelDatagram \<lparr>Identity = zeroIdentity, LocalIP = apAddr demo_src, LocalPort = 5000,
      RemoteIP = apAddr demo_dst, RemotePort = 53, tunnelPayload = [7, 8, 9]\<rparr> = Inr wire \<and>
    newTargetACL demo_target_netip (\<lambda>_. None) demo_targets = Inr acl \<and>
    HandleRelayPacket (Some acl) True True True (zeros 16) wire = (None, [(key, [7, 8, 9])]) \<and>
    (\<exists>rule\<in>set demo_targets. ruleCovers demo_target_netip (\<lambda>_. None) rule demo_dst)"
proof -
  let ?d = "\<lparr>Identity = zeroIdentity, LocalIP = apAddr demo_src, LocalPort = 5000,
      RemoteIP = apAddr demo_dst, RemotePort = 53, tunnelPayload = [7, 8, 9]\<rparr>"
  let ?acl = "[\<lparr>arPrefixes = [\<lparr>prefixAddr = Addr4 [1, 2, 0, 0], prefixBits = 16\<rparr>],
      arPorts = [\<lparr>prStart = 53, prEnd = 53\<rparr>, \<lparr>prStart = 80, prEnd = 90\<rparr>]\<rparr>]"
  have w: "wf_tunnel ?d"
    by (simp add: wf_tunnel_def zeroIdentity_def Identity_IsZero_def demo_src_def demo_dst_def Addr_IsValid_def)
  obtain wire where m: "MarshalTunnelDatagram ?d = Inr wire" using wf_tunnel_marshals [OF w] by blast
  have p: "ParseTunnelDatagram wire = Inr ?d" by (rule Parse_Marshal [OF w m])
  have t: "\<lparr>apAddr = apAddr demo_dst, apPort = 53\<rparr> = demo_dst" by (simp add: demo_dst_def)
  have "Allows (Some ?acl) demo_dst"
    by (simp add: Allows_def portAllowed_def prefixContains_def demo_dst_def Addr_IsValid_def addrBits_def upt_rec)
  then have h: "HandleRelayPacket (Some ?acl) True True True (zeros 16) wire = (None, [(relayKey (zeros 16) ?d, [7, 8, 9])])"
    by (simp add: HandleRelayPacket_def ForwardUDP_def p t)
  from relay_forwards_only_allowed [OF demo_targets_compile demo_addrs_wf h]
  have "\<exists>rule\<in>set demo_targets. ruleCovers demo_target_netip (\<lambda>_. None) rule demo_dst" using p t by auto
  then show ?thesis using m demo_targets_compile h by blast
qed

end
