(* ===== verification/ServerRelay_Pool.thy ===== *)
theory ServerRelay_Pool
  imports ServerRelay
begin

text \<open>
  The balance of the pool of UDP flows under every interleaving of its critical sections: limits,
  counters and sockets.
\<close>

section \<open>The pool under interleaving\<close>

text \<open>
  A run of the pool: which goroutines are between the two critical sections of \<open>flow\<close>, which read loops
  run, and the number of the next socket. The events are the critical sections in any order.
\<close>

record poolRun =
  prPool :: udpRelayPool
  prDialing :: "udpRelayKey list"
  prLoops :: "(udpRelayKey \<times> nat) list"
  prNext :: nat

datatype poolEvent =
    PoolStart udpRelayKey
  | PoolDialFails nat
  | PoolDialed nat
  | PoolReadEnds nat
  | PoolClose

definition dropNth :: "nat \<Rightarrow> 'a list \<Rightarrow> 'a list" where
  "dropNth i xs = take i xs @ drop (Suc i) xs"

fun poolStep :: "poolEvent \<Rightarrow> poolRun \<Rightarrow> poolRun" where
  "poolStep (PoolStart key) r =
     (case flowStart key (prPool r) of (res, p) \<Rightarrow>
        r\<lparr>prPool := p, prDialing := (if res = FlowDial then prDialing r @ [key] else prDialing r)\<rparr>)"
| "poolStep (PoolDialFails i) r =
     (if i < length (prDialing r)
      then r\<lparr>prPool := snd (flowDialFailed (prDialing r ! i) (prPool r)), prDialing := dropNth i (prDialing r)\<rparr>
      else r)"
| "poolStep (PoolDialed i) r =
     (if i < length (prDialing r)
      then (case flowCommit (prDialing r ! i) (prNext r) (prPool r) of (res, p) \<Rightarrow>
        r\<lparr>prPool := p, prDialing := dropNth i (prDialing r), prNext := Suc (prNext r),
          prLoops := (if res = Inr (prNext r) then (prDialing r ! i, prNext r) # prLoops r else prLoops r)\<rparr>)
      else r)"
| "poolStep (PoolReadEnds i) r =
     (if i < length (prLoops r)
      then (case prLoops r ! i of (key, conn) \<Rightarrow>
        r\<lparr>prPool := flowReadEnds key conn (prPool r), prLoops := dropNth i (prLoops r)\<rparr>)
      else r)"
| "poolStep PoolClose r = r\<lparr>prPool := poolClose (prPool r)\<rparr>"

definition newPoolRun :: "udpRelayPoolOptions \<Rightarrow> poolRun" where
  "newPoolRun opts = \<lparr>prPool = newUDPRelayPool opts, prDialing = [], prLoops = [], prNext = 0\<rparr>"

text \<open>The flows of a session, and the dials of a session that are under way.\<close>

definition flowsOf :: "udpRelayPool \<Rightarrow> SessionID \<Rightarrow> nat" where
  "flowsOf p sid = card {k \<in> dom (gm_get (upFlows p)). ukSession k = sid}"

definition dialsOf :: "udpRelayKey list \<Rightarrow> SessionID \<Rightarrow> nat" where
  "dialsOf keys sid = length (filter (\<lambda>k. ukSession k = sid) keys)"

definition counts_ok :: "udpRelayPool \<Rightarrow> udpRelayKey list \<Rightarrow> bool" where
  "counts_ok p dialing \<longleftrightarrow> gm_ok (upFlows p) \<and> 0 < upMaxFlows p \<and> 0 < upMaxFlowsPerSession p \<and>
     (\<forall>sid. countOf (upFlowCounts p) sid = int (flowsOf p sid)) \<and>
     (if upClosed p then upFlows p = [] \<and> upPendingFlows p = 0 \<and> (\<forall>sid. countOf (upPendingFlowCounts p) sid = 0)
      else upPendingFlows p = int (length dialing) \<and>
        (\<forall>sid. countOf (upPendingFlowCounts p) sid = int (dialsOf dialing sid)) \<and>
        int (length (upFlows p)) + upPendingFlows p \<le> upMaxFlows p \<and>
        (\<forall>sid. countOf (upFlowCounts p) sid + countOf (upPendingFlowCounts p) sid \<le> upMaxFlowsPerSession p))"

lemma open_bounds:
  assumes "counts_ok p dialing" and "\<not> upClosed p"
  shows "int (length (upFlows p)) + upPendingFlows p \<le> upMaxFlows p \<and>
    (\<forall>sid. countOf (upFlowCounts p) sid + countOf (upPendingFlowCounts p) sid \<le> upMaxFlowsPerSession p)"
  using assms(1) unfolding counts_ok_def if_not_P [OF assms(2)] by blast

lemma counts_openI:
  assumes "\<not> upClosed p" and "gm_ok (upFlows p)" and "0 < upMaxFlows p" and "0 < upMaxFlowsPerSession p"
    and "\<And>sid. countOf (upFlowCounts p) sid = int (flowsOf p sid)" and "upPendingFlows p = int (length dialing)"
    and "\<And>sid. countOf (upPendingFlowCounts p) sid = int (dialsOf dialing sid)"
    and "int (length (upFlows p)) + upPendingFlows p \<le> upMaxFlows p"
    and "\<And>sid. countOf (upFlowCounts p) sid + countOf (upPendingFlowCounts p) sid \<le> upMaxFlowsPerSession p"
  shows "counts_ok p dialing"
  unfolding counts_ok_def if_not_P [OF assms(1)] using assms by blast

lemma countOf_set: "countOf (gm_set m k n) j = (if j = k then n else countOf m j)"
  by (simp add: countOf_def gm_get_set)

lemma countOf_down: "0 \<le> countOf m k \<Longrightarrow> countOf (countDown m k) j = (if j = k then max 0 (countOf m k - 1) else countOf m j)"
  by (auto simp: countDown_def countOf_set) (auto simp: countOf_def gm_get_del)

lemma flowsOf_add:
  assumes "gm_get (upFlows p) key = None"
  shows "flowsOf (p\<lparr>upFlows := gm_set (upFlows p) key conn\<rparr>) sid =
    (if sid = ukSession key then Suc (flowsOf p sid) else flowsOf p sid)"
proof -
  let ?S = "{k \<in> dom (gm_get (upFlows p)). ukSession k = sid}"
  have "dom (gm_get (gm_set (upFlows p) key conn)) = insert key (dom (gm_get (upFlows p)))"
    by (auto simp: gm_get_set split: if_splits)
  then have e: "{k \<in> dom (gm_get (upFlows (p\<lparr>upFlows := gm_set (upFlows p) key conn\<rparr>))). ukSession k = sid} =
      (if sid = ukSession key then insert key ?S else ?S)" by auto
  have f: "finite ?S" by (rule finite_subset [OF _ gm_finite [of "upFlows p"]]) auto
  have n: "key \<notin> ?S" using assms by auto
  show ?thesis unfolding flowsOf_def e using card_insert_disjoint [OF f n] by (simp only: split: if_split) simp
qed

lemma flowsOf_del:
  assumes "gm_get (upFlows p) key = Some conn"
  shows "flowsOf (p\<lparr>upFlows := gm_del (upFlows p) key\<rparr>) sid =
    (if sid = ukSession key then flowsOf p sid - 1 else flowsOf p sid)"
proof -
  have d: "dom (gm_get (gm_del (upFlows p) key)) = dom (gm_get (upFlows p)) - {key}"
    by (auto simp: gm_get_del split: if_splits)
  have "{k \<in> dom (gm_get (upFlows p)) - {key}. ukSession k = sid} =
      (if sid = ukSession key then {k \<in> dom (gm_get (upFlows p)). ukSession k = sid} - {key}
       else {k \<in> dom (gm_get (upFlows p)). ukSession k = sid})" by auto
  then show ?thesis using assms by (simp add: flowsOf_def d domIff)
qed

lemma flowsOf_pos: "gm_get (upFlows p) key = Some conn \<Longrightarrow> 0 < flowsOf p (ukSession key)"
  unfolding flowsOf_def by (subst card_gt_0_iff) (auto intro: finite_subset [OF _ gm_finite])

lemma dials_drop:
  assumes "i < length keys"
  shows "length (dropNth i keys) = length keys - 1"
    and "dialsOf (dropNth i keys) sid = (if ukSession (keys ! i) = sid then dialsOf keys sid - 1 else dialsOf keys sid)"
    and "ukSession (keys ! i) = sid \<Longrightarrow> 0 < dialsOf keys sid"
proof -
  have k: "keys = take i keys @ keys ! i # drop (Suc i) keys" using assms by (rule id_take_nth_drop)
  show "length (dropNth i keys) = length keys - 1" using assms by (simp add: dropNth_def)
  have "dialsOf keys sid = dialsOf (take i keys @ keys ! i # drop (Suc i) keys) sid" using k by simp
  then show "dialsOf (dropNth i keys) sid = (if ukSession (keys ! i) = sid then dialsOf keys sid - 1 else dialsOf keys sid)"
    "ukSession (keys ! i) = sid \<Longrightarrow> 0 < dialsOf keys sid"
    by (simp_all add: dialsOf_def dropNth_def)
qed

text \<open>Releasing a reservation leaves room for one flow more.\<close>

lemma release_counts:
  assumes "counts_ok p dialing" and "i < length dialing" and "q = releaseReservedFlow (ukSession (dialing ! i)) p"
  shows "counts_ok q (dropNth i dialing)" and "upFlows q = upFlows p" and "upClosed q = upClosed p"
    and "\<not> upClosed p \<Longrightarrow> flowLimitAllows (ukSession (dialing ! i)) q"
    and "upFlowCounts q = upFlowCounts p" and "upClosedConns q = upClosedConns p"
proof -
  let ?sid = "ukSession (dialing ! i)"
  show f: "upFlows q = upFlows p" "upClosed q = upClosed p" "upFlowCounts q = upFlowCounts p"
    "upClosedConns q = upClosedConns p"
    by (simp_all add: assms(3) releaseReservedFlow_def Let_def)
  have m: "upMaxFlows q = upMaxFlows p" "upMaxFlowsPerSession q = upMaxFlowsPerSession p" "flowsOf q = flowsOf p"
    by (simp_all add: assms(3) releaseReservedFlow_def Let_def flowsOf_def fun_eq_iff)
  have p: "upPendingFlows q = (if upPendingFlows p > 0 then upPendingFlows p - 1 else upPendingFlows p)"
    "upPendingFlowCounts q = countDown (upPendingFlowCounts p) ?sid"
    by (simp_all add: assms(3) releaseReservedFlow_def Let_def)
  have nn: "0 \<le> countOf (upPendingFlowCounts p) sid" for sid
    using assms(1) by (cases "upClosed p") (auto simp: counts_ok_def)
  note d = dials_drop [OF assms(2)]
  show ok: "counts_ok q (dropNth i dialing)"
  proof (cases "upClosed p")
    case True
    then show ?thesis using assms(1) nn by (simp add: counts_ok_def f m p countOf_down)
  next
    case False
    have c: "countOf (upPendingFlowCounts q) sid = int (dialsOf (dropNth i dialing) sid)" for sid
      using assms(1) False d(2,3) [of sid] nn by (auto simp: counts_ok_def p countOf_down)
    have le: "countOf (upPendingFlowCounts q) sid \<le> countOf (upPendingFlowCounts p) sid" for sid
      using nn by (simp add: p countOf_down)
    have "countOf (upFlowCounts p) sid + countOf (upPendingFlowCounts q) sid \<le> upMaxFlowsPerSession p" for sid
      using assms(1) False le [of sid] by (smt (verit) counts_ok_def)
    then show ?thesis using assms(1,2) False d(1) c by (auto simp: counts_ok_def f m p(1))
  qed
  assume o: "\<not> upClosed p"
  have "upPendingFlows p = int (length dialing)" "0 < countOf (upPendingFlowCounts p) ?sid"
    "int (length (upFlows p)) + upPendingFlows p \<le> upMaxFlows p"
    "countOf (upFlowCounts p) ?sid + countOf (upPendingFlowCounts p) ?sid \<le> upMaxFlowsPerSession p"
    using assms(1) o d(3) [of ?sid] by (auto simp: counts_ok_def)
  then show "flowLimitAllows ?sid q" using assms(2) by (simp add: flowLimitAllows_def f m)
qed

lemma closeConn_counts: "counts_ok (closeConn conn p) dialing = counts_ok p dialing"
  by (simp add: closeConn_def counts_ok_def flowsOf_def)

lemma remove_counts:
  assumes "counts_ok p dialing"
  shows "counts_ok (removeFlow key conn p) dialing"
proof (cases "gm_get (upFlows p) key = Some conn")
  case True
  let ?q = "removeFlow key conn p"
  have o: "\<not> upClosed p" using assms True by (auto simp: counts_ok_def)
  have q: "?q = p\<lparr>upFlows := gm_del (upFlows p) key, upFlowCounts := countDown (upFlowCounts p) (ukSession key)\<rparr>"
    using True by (simp add: removeFlow_def)
  have fl: "flowsOf ?q sid = flowsOf (p\<lparr>upFlows := gm_del (upFlows p) key\<rparr>) sid" for sid by (simp add: q flowsOf_def)
  have nn: "0 \<le> countOf (upFlowCounts p) sid" for sid using assms by (auto simp: counts_ok_def)
  have c: "countOf (upFlowCounts ?q) sid = int (flowsOf ?q sid)" for sid
    using assms flowsOf_del [OF True, of sid] flowsOf_pos [OF True] unfolding fl
    by (auto simp: counts_ok_def q countOf_down nn)
  have le: "countOf (upFlowCounts ?q) sid \<le> countOf (upFlowCounts p) sid" for sid
    using nn by (simp add: q countOf_down)
  have "countOf (upFlowCounts ?q) sid + countOf (upPendingFlowCounts p) sid \<le> upMaxFlowsPerSession p" for sid
    using assms o le [of sid] by (smt (verit) counts_ok_def)
  moreover have "length (gm_del (upFlows p) key) \<le> length (upFlows p)" by (rule gm_len_del_le)
  ultimately show ?thesis using assms o c by (auto simp: counts_ok_def q)
qed (use assms in \<open>simp add: removeFlow_def\<close>)

lemma closeConn_frame: "closeConn conn p = p\<lparr>upClosedConns := upClosedConns (closeConn conn p)\<rparr>"
  by (simp add: closeConn_def)

lemma fold_close: "\<exists>cs. fold closeConn conns p = p\<lparr>upClosedConns := cs\<rparr> \<and> set cs = set conns \<union> set (upClosedConns p)"
proof (induction conns arbitrary: p)
  case Nil
  have "p = p\<lparr>upClosedConns := upClosedConns p\<rparr>" by simp
  then show ?case by (metis fold_simps(1) set_empty2 sup_bot_left)
next
  case (Cons c conns)
  obtain cs where f: "fold closeConn conns (closeConn c p) = (closeConn c p)\<lparr>upClosedConns := cs\<rparr>"
    "set cs = set conns \<union> set (upClosedConns (closeConn c p))" using Cons.IH by blast
  have u: "(closeConn c p)\<lparr>upClosedConns := cs\<rparr> = p\<lparr>upClosedConns := cs\<rparr>" by (simp add: closeConn_def)
  have "set (upClosedConns (closeConn c p)) = insert c (set (upClosedConns p))" by (auto simp: closeConn_def)
  then show ?case using f by (intro exI [of _ cs]) (simp add: u)
qed

lemma poolClose_eq:
  "\<exists>cs. poolClose p = p\<lparr>upFlows := [], upFlowCounts := [], upPendingFlows := 0, upPendingFlowCounts := [],
     upClosed := True, upClosedConns := cs\<rparr> \<and> set cs = snd ` set (upFlows p) \<union> set (upClosedConns p)"
  using fold_close [of "map snd (upFlows p)" "p\<lparr>upFlows := [], upFlowCounts := [], upPendingFlows := 0,
    upPendingFlowCounts := [], upClosed := True\<rparr>"] by (simp add: poolClose_def Let_def)

lemma close_counts: "counts_ok p dialing \<Longrightarrow> counts_ok (poolClose p) dialing"
  using poolClose_eq [of p] by (auto simp: counts_ok_def flowsOf_def countOf_def)

lemma start_counts:
  assumes "counts_ok p dialing" and "flowStart key p = (res, q)"
  shows "counts_ok q (if res = FlowDial then dialing @ [key] else dialing) \<and> upClosedConns q = upClosedConns p \<and>
    upFlows q = upFlows p \<and> upClosed q = upClosed p"
proof (cases "upClosed p \<or> gm_get (upFlows p) key \<noteq> None \<or> \<not> flowLimitAllowsWithPending (ukSession key) p")
  case True
  then show ?thesis using assms by (auto simp: flowStart_def reserveFlow_def split: option.splits if_splits)
next
  case False
  have res: "res = FlowDial" and q: "q = p\<lparr>upPendingFlows := upPendingFlows p + 1, upPendingFlowCounts :=
      gm_set (upPendingFlowCounts p) (ukSession key) (countOf (upPendingFlowCounts p) (ukSession key) + 1)\<rparr>"
    using assms(2) False by (auto simp: flowStart_def reserveFlow_def)
  have "flowLimitAllowsWithPending (ukSession key) p" using False by blast
  then have "int (length (upFlows p)) + upPendingFlows p < upMaxFlows p"
    "countOf (upFlowCounts p) (ukSession key) + countOf (upPendingFlowCounts p) (ukSession key) < upMaxFlowsPerSession p"
    using assms(1) by (auto simp: flowLimitAllowsWithPending_def counts_ok_def split: if_splits)
  then show ?thesis using assms(1) False
    by (auto simp: counts_ok_def q res countOf_set dialsOf_def flowsOf_def)
qed

lemma commit_counts:
  assumes "counts_ok p dialing" and "i < length dialing" and "flowCommit (dialing ! i) conn p = (res, q)"
  shows "counts_ok q (dropNth i dialing)" and "res \<noteq> Inl ErrUDPRelayFlowLimit"
    and "upClosed q = upClosed p"
    and "(upFlows q = upFlows p \<and> conn \<in> set (upClosedConns q) \<and> set (upClosedConns q) \<subseteq> insert conn (set (upClosedConns p)) \<and>
        set (upClosedConns p) \<subseteq> set (upClosedConns q) \<and>
        (res = Inr conn \<longrightarrow> gm_get (upFlows p) (dialing ! i) = Some conn)) \<or>
      (upFlows q = gm_set (upFlows p) (dialing ! i) conn \<and> gm_get (upFlows p) (dialing ! i) = None \<and>
        upClosedConns q = upClosedConns p \<and> res = Inr conn)"
proof -
  let ?key = "dialing ! i"
  define r where "r = releaseReservedFlow (ukSession ?key) p"
  note rel = release_counts [OF assms(1,2) r_def]
  have all: "counts_ok q (dropNth i dialing) \<and> res \<noteq> Inl ErrUDPRelayFlowLimit \<and> upClosed q = upClosed p \<and>
    ((upFlows q = upFlows p \<and> conn \<in> set (upClosedConns q) \<and> set (upClosedConns q) \<subseteq> insert conn (set (upClosedConns p)) \<and>
        set (upClosedConns p) \<subseteq> set (upClosedConns q) \<and>
        (res = Inr conn \<longrightarrow> gm_get (upFlows p) ?key = Some conn)) \<or>
      (upFlows q = gm_set (upFlows p) ?key conn \<and> gm_get (upFlows p) ?key = None \<and>
        upClosedConns q = upClosedConns p \<and> res = Inr conn))"
  proof (cases "upClosed p \<or> gm_get (upFlows p) ?key \<noteq> None")
    case True
    then have "q = closeConn conn r \<and> res \<noteq> Inl ErrUDPRelayFlowLimit \<and>
        (res = Inr conn \<longrightarrow> gm_get (upFlows p) ?key = Some conn)"
      using assms(3) rel(2,3) by (auto simp: flowCommit_def r_def [symmetric] Let_def split: option.splits if_splits)
    then show ?thesis using rel closeConn_counts [of conn r] by (auto simp: closeConn_def)
  next
    case False
    then have l: "flowLimitAllows (ukSession ?key) r" using rel(4) by blast
    let ?q = "r\<lparr>upFlows := gm_set (upFlows r) ?key conn,
        upFlowCounts := gm_set (upFlowCounts r) (ukSession ?key) (countOf (upFlowCounts r) (ukSession ?key) + 1)\<rparr>"
    have q: "q = ?q" "res = Inr conn"
      using assms(3) False l rel(2,3) by (auto simp: flowCommit_def r_def [symmetric] Let_def)
    have n: "gm_get (upFlows r) ?key = None" "gm_ok (upFlows r)" using False rel(1,2) by (auto simp: counts_ok_def)
    have fl: "flowsOf ?q sid = flowsOf (r\<lparr>upFlows := gm_set (upFlows r) ?key conn\<rparr>) sid" for sid
      by (simp add: flowsOf_def)
    have c: "countOf (upFlowCounts ?q) sid = int (flowsOf ?q sid)" for sid
      using rel(1) flowsOf_add [OF n(1), of conn sid] unfolding fl by (simp add: counts_ok_def countOf_set)
    have o: "\<not> upClosed r" using False rel(3) by simp
    have "int (length (upFlows r)) + upPendingFlows r < upMaxFlows r"
      "countOf (upFlowCounts r) (ukSession ?key) + countOf (upPendingFlowCounts r) (ukSession ?key) < upMaxFlowsPerSession r"
    proof -
      have p: "counts_ok p dialing" "\<not> upClosed p" using assms(1) False by auto
      have bound: "int (length (upFlows p)) + upPendingFlows p \<le> upMaxFlows p"
        "countOf (upFlowCounts p) (ukSession ?key) + countOf (upPendingFlowCounts p) (ukSession ?key) \<le> upMaxFlowsPerSession p"
        using open_bounds [OF p] by blast+
      have "0 < dialsOf dialing (ukSession ?key)" by (rule dials_drop(3) [OF assms(2) refl])
      moreover have "upMaxFlows r = upMaxFlows p" "upMaxFlowsPerSession r = upMaxFlowsPerSession p"
        "upFlows r = upFlows p" "upFlowCounts r = upFlowCounts p"
        by (simp_all add: r_def releaseReservedFlow_def Let_def)
      moreover have "upPendingFlows r = upPendingFlows p - 1"
        using p assms(2) by (auto simp: counts_ok_def r_def releaseReservedFlow_def Let_def)
      moreover have "countOf (upPendingFlowCounts r) (ukSession ?key) = countOf (upPendingFlowCounts p) (ukSession ?key) - 1"
      proof -
        have "countOf (upPendingFlowCounts p) (ukSession ?key) = int (dialsOf dialing (ukSession ?key))"
          using p by (simp add: counts_ok_def)
        then show ?thesis using \<open>0 < dialsOf dialing (ukSession ?key)\<close>
          by (simp add: r_def releaseReservedFlow_def Let_def countOf_down)
      qed
      ultimately show "int (length (upFlows r)) + upPendingFlows r < upMaxFlows r"
        "countOf (upFlowCounts r) (ukSession ?key) + countOf (upPendingFlowCounts r) (ukSession ?key) < upMaxFlowsPerSession r"
        using bound by simp_all
    qed
    moreover from this(2) have "countOf (upFlowCounts ?q) sid + countOf (upPendingFlowCounts ?q) sid \<le> upMaxFlowsPerSession ?q" for sid
      using open_bounds [OF rel(1) o] by (cases "sid = ukSession ?key") (simp_all add: countOf_set)
    moreover have "upPendingFlows r = int (length (dropNth i dialing)) \<and> 0 < upMaxFlows r \<and> 0 < upMaxFlowsPerSession r \<and>
        (\<forall>sid. countOf (upPendingFlowCounts r) sid = int (dialsOf (dropNth i dialing) sid))"
      using rel(1) unfolding counts_ok_def if_not_P [OF o] by blast
    ultimately have "counts_ok ?q (dropNth i dialing)"
      using c o n by (intro counts_openI) (simp_all add: gm_len_set)
    then show ?thesis using q rel False by simp
  qed
  show "counts_ok q (dropNth i dialing)" "res \<noteq> Inl ErrUDPRelayFlowLimit" "upClosed q = upClosed p"
    "(upFlows q = upFlows p \<and> conn \<in> set (upClosedConns q) \<and> set (upClosedConns q) \<subseteq> insert conn (set (upClosedConns p)) \<and>
        set (upClosedConns p) \<subseteq> set (upClosedConns q) \<and>
        (res = Inr conn \<longrightarrow> gm_get (upFlows p) ?key = Some conn)) \<or>
      (upFlows q = gm_set (upFlows p) ?key conn \<and> gm_get (upFlows p) ?key = None \<and>
        upClosedConns q = upClosedConns p \<and> res = Inr conn)"
    using all by simp_all
qed


definition conns_ok :: "poolRun \<Rightarrow> bool" where
  "conns_ok r \<longleftrightarrow>
     (\<forall>conn < prNext r. conn \<in> set (upClosedConns (prPool r)) \<or> conn \<in> ran (gm_get (upFlows (prPool r)))) \<and>
     (\<forall>key conn. gm_get (upFlows (prPool r)) key = Some conn \<longrightarrow>
        conn < prNext r \<and> conn \<notin> set (upClosedConns (prPool r)) \<and> (key, conn) \<in> set (prLoops r)) \<and>
     (\<forall>(key, conn) \<in> set (prLoops r). conn < prNext r \<and>
        (conn \<in> set (upClosedConns (prPool r)) \<or> gm_get (upFlows (prPool r)) key = Some conn)) \<and>
     (\<forall>conn \<in> set (upClosedConns (prPool r)). conn < prNext r) \<and> distinct (map snd (prLoops r))"

definition pool_inv :: "poolRun \<Rightarrow> bool" where
  "pool_inv r \<longleftrightarrow> counts_ok (prPool r) (prDialing r) \<and> conns_ok r"

lemma new_pool_inv: "pool_inv (newPoolRun opts)"
  by (simp add: pool_inv_def newPoolRun_def newUDPRelayPool_def counts_ok_def conns_ok_def countOf_def flowsOf_def
      dialsOf_def)

lemma conns_frame:
  assumes "conns_ok r" and "upFlows p = upFlows (prPool r)" and "upClosedConns p = upClosedConns (prPool r)"
  shows "conns_ok (r\<lparr>prPool := p, prDialing := ks\<rparr>)"
  using assms by (simp add: conns_ok_def)

lemma pool_inv_start:
  assumes "pool_inv r"
  shows "pool_inv (poolStep (PoolStart key) r)"
proof -
  obtain res p where s: "flowStart key (prPool r) = (res, p)" by fastforce
  have c: "counts_ok (prPool r) (prDialing r)" using assms by (simp add: pool_inv_def)
  show ?thesis using start_counts [OF c s] assms by (simp add: s pool_inv_def conns_frame)
qed

lemma pool_inv_fails:
  assumes "pool_inv r"
  shows "pool_inv (poolStep (PoolDialFails i) r)"
proof (cases "i < length (prDialing r)")
  case True
  have c: "counts_ok (prPool r) (prDialing r)" using assms by (simp add: pool_inv_def)
  note rel = release_counts [OF c True refl]
  show ?thesis using rel True assms by (simp add: flowDialFailed_def pool_inv_def conns_frame)
qed (use assms in simp)

lemma pool_inv_dialed:
  assumes "pool_inv r"
  shows "pool_inv (poolStep (PoolDialed i) r)"
proof (cases "i < length (prDialing r)")
  case True
  let ?key = "prDialing r ! i" and ?n = "prNext r"
  obtain res q where s: "flowCommit ?key ?n (prPool r) = (res, q)" by fastforce
  have c: "counts_ok (prPool r) (prDialing r)" and k: "conns_ok r" using assms by (simp_all add: pool_inv_def)
  note cm = commit_counts [OF c True s]
  have fresh: "gm_get (upFlows (prPool r)) key \<noteq> Some ?n" "?n \<notin> set (upClosedConns (prPool r))"
    "(key, ?n) \<notin> set (prLoops r)" for key
    using k by (auto simp: conns_ok_def)
  from cm(4) show ?thesis
  proof
    assume a: "upFlows q = upFlows (prPool r) \<and> ?n \<in> set (upClosedConns q) \<and>
        set (upClosedConns q) \<subseteq> insert ?n (set (upClosedConns (prPool r))) \<and>
        set (upClosedConns (prPool r)) \<subseteq> set (upClosedConns q) \<and>
        (res = Inr ?n \<longrightarrow> gm_get (upFlows (prPool r)) ?key = Some ?n)"
    then have "res \<noteq> Inr ?n" and cl: "set (upClosedConns q) = insert ?n (set (upClosedConns (prPool r)))"
      using fresh by auto
    then have "conns_ok (r\<lparr>prPool := q, prDialing := dropNth i (prDialing r), prNext := Suc ?n\<rparr>)"
      using k a fresh by (fastforce simp: conns_ok_def less_Suc_eq)
    then show ?thesis using True cm(1) \<open>res \<noteq> Inr ?n\<close> by (simp add: s pool_inv_def)
  next
    assume a: "upFlows q = gm_set (upFlows (prPool r)) ?key ?n \<and> gm_get (upFlows (prPool r)) ?key = None \<and>
        upClosedConns q = upClosedConns (prPool r) \<and> res = Inr ?n"
    have "gm_get (gm_set (upFlows (prPool r)) ?key ?n) = (gm_get (upFlows (prPool r)))(?key \<mapsto> ?n)"
      by (rule ext) (simp add: gm_get_set)
    then have "ran (gm_get (gm_set (upFlows (prPool r)) ?key ?n)) = insert ?n (ran (gm_get (upFlows (prPool r))))"
      using a by simp
    moreover have "?n \<notin> snd ` set (prLoops r)" using k by (fastforce simp: conns_ok_def)
    ultimately have "conns_ok (r\<lparr>prPool := q, prDialing := dropNth i (prDialing r), prNext := Suc ?n,
        prLoops := (?key, ?n) # prLoops r\<rparr>)"
      using k a fresh by (fastforce simp: conns_ok_def less_Suc_eq gm_get_set split: if_splits)
    then show ?thesis using True cm(1) a by (simp add: s pool_inv_def)
  qed
qed (use assms in simp)

lemma dropNth_elems:
  assumes "i < length xs"
  shows "set xs = insert (xs ! i) (set (dropNth i xs))" and "distinct (map f xs) \<Longrightarrow> distinct (map f (dropNth i xs))"
    and "distinct (map f xs) \<Longrightarrow> f (xs ! i) \<notin> f ` set (dropNth i xs)"
proof -
  have k: "xs = take i xs @ xs ! i # drop (Suc i) xs" using assms by (rule id_take_nth_drop)
  have "set xs = set (take i xs @ xs ! i # drop (Suc i) xs)" using k by simp
  then show "set xs = insert (xs ! i) (set (dropNth i xs))" by (auto simp: dropNth_def)
  assume "distinct (map f xs)"
  then have "distinct (map f (take i xs @ xs ! i # drop (Suc i) xs))" using k by simp
  then show "distinct (map f (dropNth i xs))" "f (xs ! i) \<notin> f ` set (dropNth i xs)"
    unfolding dropNth_def by auto
qed

lemma pool_inv_reads:
  assumes "pool_inv r"
  shows "pool_inv (poolStep (PoolReadEnds i) r)"
proof (cases "i < length (prLoops r)")
  case True
  obtain key conn where l: "prLoops r ! i = (key, conn)" by fastforce
  let ?p = "prPool r" and ?q = "flowReadEnds key conn (prPool r)" and ?ls = "dropNth i (prLoops r)"
  have c: "counts_ok ?p (prDialing r)" and k: "conns_ok r" using assms by (simp_all add: pool_inv_def)
  have cq: "counts_ok ?q (prDialing r)" using remove_counts [OF c] by (simp add: flowReadEnds_def closeConn_counts)
  have cl: "set (upClosedConns ?q) = insert conn (set (upClosedConns ?p))"
    by (auto simp: flowReadEnds_def closeConn_def removeFlow_def)
  have fl: "gm_get (upFlows ?q) j = (if gm_get (upFlows ?p) j = Some conn \<and> j = key then None else gm_get (upFlows ?p) j)" for j
    by (simp add: flowReadEnds_def closeConn_def removeFlow_def gm_get_del)
  note d = dropNth_elems(1) [OF True] dropNth_elems(2,3) [OF True, where f = snd]
  have mem: "(key, conn) \<in> set (prLoops r)" and dl: "distinct (map snd (prLoops r))"
    using True l k by (metis nth_mem, simp add: conns_ok_def)
  have only: "j = key" if "gm_get (upFlows ?p) j = Some conn" for j
  proof -
    have "(j, conn) \<in> set (prLoops r)" using k that by (simp add: conns_ok_def)
    then show ?thesis using mem dl by (metis (no_types, lifting) eq_key_imp_eq_value distinct_map inj_onD prod.inject snd_conv)
  qed
  have kept: "gm_get (upFlows ?p) j = Some c \<and> c \<noteq> conn" if "gm_get (upFlows ?q) j = Some c" for j c
  proof (cases "gm_get (upFlows ?p) j = Some conn")
    case True
    then show ?thesis using that fl [of j] only [OF True] by simp
  next
    case False
    then show ?thesis using that fl [of j] by auto
  qed
  have gone: "gm_get (upFlows ?q) j = Some c" if "gm_get (upFlows ?p) j = Some c" "c \<noteq> conn" for j c
    using that by (simp add: fl)
  have 1: "\<forall>c < prNext r. c \<in> set (upClosedConns ?q) \<or> c \<in> ran (gm_get (upFlows ?q))"
  proof (intro allI impI)
    fix c assume "c < prNext r"
    then have "c \<in> set (upClosedConns ?p) \<or> (\<exists>j. gm_get (upFlows ?p) j = Some c)"
      using k by (auto simp: conns_ok_def ran_def)
    then show "c \<in> set (upClosedConns ?q) \<or> c \<in> ran (gm_get (upFlows ?q))"
      using gone unfolding cl by (cases "c = conn") (auto simp: ran_def)
  qed
  have 2: "c < prNext r \<and> c \<notin> set (upClosedConns ?q) \<and> (j, c) \<in> set ?ls" if "gm_get (upFlows ?q) j = Some c" for j c
  proof -
    have "(j, c) \<in> set (prLoops r)" "c < prNext r" "c \<notin> set (upClosedConns ?p)" "c \<noteq> conn"
      using kept [OF that] k unfolding conns_ok_def by blast+
    then show ?thesis unfolding cl using d(1) l by simp
  qed
  have 3: "c < prNext r \<and> (c \<in> set (upClosedConns ?q) \<or> gm_get (upFlows ?q) j = Some c)" if "(j, c) \<in> set ?ls" for j c
  proof -
    have "(j, c) \<in> set (prLoops r)" using that d(1) by simp
    then have "c < prNext r \<and> (c \<in> set (upClosedConns ?p) \<or> gm_get (upFlows ?p) j = Some c)"
      using k unfolding conns_ok_def by blast
    then show ?thesis using gone unfolding cl by (cases "c = conn") auto
  qed
  have "conn < prNext r" using mem k unfolding conns_ok_def by blast
  then have 4: "\<forall>c \<in> set (upClosedConns ?q). c < prNext r" using k unfolding cl by (simp add: conns_ok_def)
  have "conns_ok (r\<lparr>prPool := ?q, prLoops := ?ls\<rparr>)"
  proof -
    have "\<forall>(j, c) \<in> set ?ls. c < prNext r \<and> (c \<in> set (upClosedConns ?q) \<or> gm_get (upFlows ?q) j = Some c)"
      using 3 by blast
    moreover have "\<forall>j c. gm_get (upFlows ?q) j = Some c \<longrightarrow> c < prNext r \<and> c \<notin> set (upClosedConns ?q) \<and> (j, c) \<in> set ?ls"
      using 2 by blast
    ultimately show ?thesis using 1 4 d(2) [OF dl] by (simp add: conns_ok_def)
  qed
  then show ?thesis using True cq by (simp add: l pool_inv_def)
qed (use assms in simp)

lemma pool_inv_close:
  assumes "pool_inv r"
  shows "pool_inv (poolStep PoolClose r)"
proof -
  have c: "counts_ok (prPool r) (prDialing r)" and k: "conns_ok r" using assms by (simp_all add: pool_inv_def)
  have g: "gm_ok (upFlows (prPool r))" using c by (simp add: counts_ok_def)
  obtain cs where q: "poolClose (prPool r) = (prPool r)\<lparr>upFlows := [], upFlowCounts := [], upPendingFlows := 0,
      upPendingFlowCounts := [], upClosed := True, upClosedConns := cs\<rparr>"
    and cs: "set cs = snd ` set (upFlows (prPool r)) \<union> set (upClosedConns (prPool r))" using poolClose_eq by blast
  have r: "c \<in> set cs \<longleftrightarrow> (\<exists>j. gm_get (upFlows (prPool r)) j = Some c) \<or> c \<in> set (upClosedConns (prPool r))" for c
    using gm_in_set [OF g] unfolding cs by (force simp: image_iff)
  have "conns_ok (r\<lparr>prPool := poolClose (prPool r)\<rparr>)"
  proof -
    have "\<forall>c < prNext r. c \<in> set cs" "\<forall>(key, c) \<in> set (prLoops r). c < prNext r \<and> c \<in> set cs"
      "\<forall>c \<in> set cs. c < prNext r"
      using k by (auto simp: conns_ok_def r ran_def)
    then show ?thesis using k by (simp add: conns_ok_def q)
  qed
  then show ?thesis using close_counts [OF c] by (simp add: pool_inv_def)
qed

lemma pool_inv_run: "pool_inv r \<Longrightarrow> pool_inv (fold poolStep events r)"
proof (induction events arbitrary: r)
  case (Cons e events)
  have "pool_inv (poolStep e r)"
    using Cons.prems pool_inv_start pool_inv_fails pool_inv_dialed pool_inv_reads pool_inv_close by (cases e) blast+
  then show ?case using Cons.IH by simp
qed simp


text \<open>
  C30. The limits of the relay hold. Whatever clients ask for and however dials, closing and the ends of
  flows interleave, the pool never has more flows, counting the dials under way, than its limit, nor
  more of one session than the limit per session; the counters are exact; and a dial that was reserved
  is never refused when it completes.
\<close>

theorem relay_flows_bounded:
  assumes "r = fold poolStep events (newPoolRun opts)" and "p = prPool r"
  shows "int (length (upFlows p)) \<le> upMaxFlows p \<and> (\<forall>sid. int (flowsOf p sid) \<le> upMaxFlowsPerSession p) \<and>
    (\<forall>sid. countOf (upFlowCounts p) sid = int (flowsOf p sid)) \<and>
    (upClosed p \<or> int (length (upFlows p) + length (prDialing r)) \<le> upMaxFlows p \<and>
       (\<forall>sid. int (flowsOf p sid + dialsOf (prDialing r) sid) \<le> upMaxFlowsPerSession p)) \<and>
    (\<forall>i < length (prDialing r). fst (flowCommit (prDialing r ! i) conn p) \<noteq> Inl ErrUDPRelayFlowLimit)"
proof -
  have c: "counts_ok p (prDialing r)"
    using pool_inv_run [OF new_pool_inv] unfolding assms pool_inv_def by blast
  have admitted: "fst (flowCommit (prDialing r ! i) conn p) \<noteq> Inl ErrUDPRelayFlowLimit" if "i < length (prDialing r)" for i
    using commit_counts(2) [OF c that, of conn] by (metis prod.collapse)
  show ?thesis
  proof (cases "upClosed p")
    case True
    then have "upFlows p = []" "0 < upMaxFlows p" "0 < upMaxFlowsPerSession p" using c by (auto simp: counts_ok_def)
    then show ?thesis using True c admitted by (simp add: flowsOf_def counts_ok_def)
  next
    case False
    note b = open_bounds [OF c False]
    have e: "upPendingFlows p = int (length (prDialing r))"
      "\<forall>sid. countOf (upPendingFlowCounts p) sid = int (dialsOf (prDialing r) sid)"
      "\<forall>sid. countOf (upFlowCounts p) sid = int (flowsOf p sid)"
      using c unfolding counts_ok_def if_not_P [OF False] by blast+
    have s: "int (flowsOf p sid) + int (dialsOf (prDialing r) sid) \<le> upMaxFlowsPerSession p" for sid
      using b e by metis
    then have "int (flowsOf p sid) \<le> upMaxFlowsPerSession p" for sid by (smt (verit) of_nat_0_le_iff)
    then show ?thesis using b e s admitted by simp
  qed
qed

text \<open>
  C31. No socket is lost. In every interleaving each socket that was dialled is either closed or the one in
  the table under its key, with its read loop running; no socket in the table is closed; and once the
  pool is closed every socket is.
\<close>

theorem relay_sockets_balance:
  assumes "r = fold poolStep events (newPoolRun opts)" and "p = prPool r"
  shows "(\<forall>conn < prNext r. conn \<in> set (upClosedConns p) \<or>
      (\<exists>key. gm_get (upFlows p) key = Some conn \<and> (key, conn) \<in> set (prLoops r))) \<and>
    (\<forall>key conn. gm_get (upFlows p) key = Some conn \<longrightarrow> conn \<notin> set (upClosedConns p)) \<and>
    (upClosed p \<longrightarrow> (\<forall>conn < prNext r. conn \<in> set (upClosedConns p)))"
proof -
  have k: "conns_ok r" and c: "counts_ok p (prDialing r)"
    using pool_inv_run [OF new_pool_inv] unfolding assms pool_inv_def by blast+
  have "conn \<in> set (upClosedConns p) \<or> (\<exists>key. gm_get (upFlows p) key = Some conn \<and> (key, conn) \<in> set (prLoops r))"
    if "conn < prNext r" for conn
    using k that unfolding conns_ok_def assms(2) ran_def by blast
  moreover have "gm_get (upFlows p) key = Some conn \<longrightarrow> conn \<notin> set (upClosedConns p)" for key conn
    using k unfolding conns_ok_def assms(2) by blast
  moreover have "upClosed p \<longrightarrow> upFlows p = []" using c by (simp add: counts_ok_def)
  ultimately show ?thesis by fastforce
qed

text \<open>Two datagrams of one flow, a second flow, a dial that completes after the close.\<close>

definition demo_key :: "u16 \<Rightarrow> udpRelayKey" where
  "demo_key port = \<lparr>ukSession = zeros 16, ukIdentity = zeroIdentity,
     ukLocal = demo_src\<lparr>apPort := port\<rparr>, ukRemote = demo_dst\<rparr>"

definition demo_pool_opts :: udpRelayPoolOptions where
  "demo_pool_opts = \<lparr>uoDialTimeout = 0, uoIdleTimeout = 0, uoMaxFlows = 2, uoMaxFlowsPerSession = 0\<rparr>"

definition demo_pool_events :: "poolEvent list" where
  "demo_pool_events = [PoolStart (demo_key 1), PoolStart (demo_key 1), PoolStart (demo_key 2), PoolDialed 0, PoolDialed 0]"

theorem relay_flows_bounded_witness:
  "length (upFlows (prPool (fold poolStep demo_pool_events (newPoolRun demo_pool_opts)))) = 1 \<and>
    int (length (upFlows (prPool (fold poolStep demo_pool_events (newPoolRun demo_pool_opts))))) \<le> 2"
proof -
  have v: "length (upFlows (prPool (fold poolStep demo_pool_events (newPoolRun demo_pool_opts)))) = 1"
    "upMaxFlows (prPool (fold poolStep demo_pool_events (newPoolRun demo_pool_opts))) = 2"
    by code_simp+
  show ?thesis using relay_flows_bounded [OF refl refl, of demo_pool_events demo_pool_opts] v by simp
qed

theorem relay_sockets_balance_witness:
  "prNext (fold poolStep (demo_pool_events @ [PoolClose]) (newPoolRun demo_pool_opts)) = 2 \<and>
    1 \<in> set (upClosedConns (prPool (fold poolStep (demo_pool_events @ [PoolClose]) (newPoolRun demo_pool_opts))))"
proof -
  have v: "prNext (fold poolStep (demo_pool_events @ [PoolClose]) (newPoolRun demo_pool_opts)) = 2"
    "upClosed (prPool (fold poolStep (demo_pool_events @ [PoolClose]) (newPoolRun demo_pool_opts)))"
    by code_simp+
  show ?thesis
    using relay_sockets_balance [OF refl refl, of "demo_pool_events @ [PoolClose]" demo_pool_opts] v by auto
qed

end
