(* ===== verification/Routes.thy ===== *)
theory Routes
  imports ServerRelay
begin

text \<open>
  Selective routes of the TUN device: the plan and the transaction (\<open>internal/tun/routes.go\<close>), the
  operations of the Windows operator on the routing table (\<open>internal/tun/routes_windows.go\<close>), the
  ownership journal (\<open>internal/tun/routes_windows_journal.go\<close>), and the policy for relay endpoints
  (\<open>internal/app/app.go\<close>).

  The routing table of the system and the stored journal are part of the state. Every call of the
  system, every read and write of the journal and every lock consults the parameter \<open>routeEnv\<close>, which
  says for each call, by its number, whether it fails; so the theorems hold for every sequence of
  failures, and a crash is a sequence in which every call fails from some point on. Nobody else
  changes the routes meanwhile: the journal's lock is held for that.
\<close>

section \<open>The routing table\<close>

record routeRow =
  rowLuid :: u64
  rowIndex :: u32
  rowPrefix :: Addr
  rowPrefixLength :: nat
  rowNextHop :: Addr
  rowMetric :: u32
  rowProtocol :: nat

text \<open>What identifies a row for the system: all but metric and protocol.\<close>

definition rowKey :: "routeRow \<Rightarrow> u64 \<times> u32 \<times> Addr \<times> nat \<times> Addr" where
  "rowKey r = (rowLuid r, rowIndex r, rowPrefix r, rowPrefixLength r, rowNextHop r)"

type_synonym routeTable = "u64 \<times> u32 \<times> Addr \<times> nat \<times> Addr \<rightharpoonup> routeRow"

record windowsRouteJournalEntry =
  jeInterfaceLUID :: u64
  jeInterfaceIndex :: u32
  jeDestination :: string
  jeNextHop :: string
  jeMetric :: u32
  jeProtocol :: nat
  jeTransactionID :: string
  jeBaselineAbsent :: bool
  jeState :: string

record windowsRouteJournalData =
  jdVersion :: nat
  jdEntries :: "windowsRouteJournalEntry list"

record routeEnv =
  reLuid :: u64
  reIndex :: u32
  reNetip :: netip
  rePrefixText :: "Prefix \<Rightarrow> string"
  reFault :: "nat \<Rightarrow> bool"
  reWritten :: "nat \<Rightarrow> bool"
  reCtxDone :: "nat \<Rightarrow> bool"
  reRandom :: "nat \<Rightarrow> bytes"
  reForeignExists :: "u64 \<Rightarrow> u32 \<Rightarrow> bool"

text \<open>
  \<open>reWritten\<close>: whether a write that reports an error has stored its value nevertheless, as when the
  flush or the reading back fails. \<open>rePrefixText\<close> is \<open>netip.Prefix.String\<close>.

  \<open>rwTransition\<close> is the operator's transition, during which it holds the lock. The lock is not
  reentrant: a goroutine that asks for it while its own transition is open waits for ever. Then
  \<open>rwHung\<close> is set, and every later call fails, so the world stays the one it waits in.
\<close>

record routeWorld =
  rwTable :: routeTable
  rwJournal :: windowsRouteJournalData
  rwTransition :: "(Prefix \<times> string) option"
  rwHung :: bool
  rwCalls :: nat

definition windowsRouteJournalVersion :: nat where "windowsRouteJournalVersion = 4"
definition windowsRoutePending :: string where "windowsRoutePending = ''pending''"
definition windowsRouteActive :: string where "windowsRouteActive = ''active''"
definition windowsRouteDeleting :: string where "windowsRouteDeleting = ''deleting''"
definition windowsRouteMetric :: u32 where "windowsRouteMetric = 1"
definition windowsRouteProtocol :: nat where "windowsRouteProtocol = 3"

text \<open>The address as \<open>rawSockaddrInet\<close> writes it.\<close>

definition rawSockaddrInet :: "Addr \<Rightarrow> Addr" where
  "rawSockaddrInet a = (case Addr_Unmap a of Addr6 b z \<Rightarrow> Addr6 b [] | a \<Rightarrow> a)"

definition routeRowOf :: "routeEnv \<Rightarrow> Prefix \<Rightarrow> routeRow" where
  "routeRowOf E prefix =
     (let prefix = Masked prefix
      in \<lparr>rowLuid = reLuid E, rowIndex = reIndex E, rowPrefix = rawSockaddrInet (prefixAddr prefix),
          rowPrefixLength = prefixBits prefix,
          rowNextHop = (if Addr_Is4 (prefixAddr prefix) then Addr4 (zeros 4) else Addr6 (zeros 16) []),
          rowMetric = windowsRouteMetric, rowProtocol = windowsRouteProtocol\<rparr>)"

definition windowsRouteRowsMatch :: "routeRow \<Rightarrow> routeRow \<Rightarrow> bool" where
  "windowsRouteRowsMatch got want \<longleftrightarrow> rowLuid got = rowLuid want \<and> rowIndex got = rowIndex want \<and>
     rowPrefixLength got = rowPrefixLength want \<and> rowPrefix got = rowPrefix want \<and>
     rowNextHop got = rowNextHop want \<and> rowMetric got = rowMetric want \<and> rowProtocol got = rowProtocol want"

section \<open>The operator\<close>

record routeState =
  rsExists :: bool
  rsMatches :: bool

text \<open>One call: whether it fails, and the world after it.\<close>

definition callFails :: "routeEnv \<Rightarrow> routeWorld \<Rightarrow> bool" where
  "callFails E w \<longleftrightarrow> reFault E (rwCalls w) \<or> rwHung w"

definition ctxDone :: "routeEnv \<Rightarrow> routeWorld \<Rightarrow> bool" where
  "ctxDone E w \<longleftrightarrow> reCtxDone E (rwCalls w) \<or> rwHung w"

definition called :: "routeWorld \<Rightarrow> routeWorld" where
  "called w = w\<lparr>rwCalls := Suc (rwCalls w)\<rparr>"

text \<open>\<open>None\<close>: an error.\<close>

definition opRead :: "routeEnv \<Rightarrow> Prefix \<Rightarrow> routeWorld \<Rightarrow> routeState option \<times> routeWorld" where
  "opRead E prefix w =
     (let want = routeRowOf E prefix
      in if ctxDone E w then (None, called w)
         else if callFails E w then (None, called w)
         else case rwTable w (rowKey want) of
           None \<Rightarrow> (Some \<lparr>rsExists = False, rsMatches = False\<rparr>, called w)
         | Some got \<Rightarrow> (Some \<lparr>rsExists = True, rsMatches = windowsRouteRowsMatch got want\<rparr>, called w))"

text \<open>Whether the route was committed, and whether there is an error.\<close>

definition opAdd :: "routeEnv \<Rightarrow> Prefix \<Rightarrow> routeWorld \<Rightarrow> bool \<times> bool \<times> routeWorld" where
  "opAdd E prefix w =
     (let row = routeRowOf E prefix
      in if ctxDone E w then (False, True, called w)
         else if rwTable w (rowKey row) \<noteq> None \<or> callFails E w then (False, True, called w)
         else (True, ctxDone E (called w), (called w)\<lparr>rwTable := (rwTable w)(rowKey row \<mapsto> row)\<rparr>))"

definition opDelete :: "routeEnv \<Rightarrow> Prefix \<Rightarrow> routeWorld \<Rightarrow> bool \<times> bool \<times> routeWorld" where
  "opDelete E prefix w =
     (let want = routeRowOf E prefix
      in if ctxDone E w then (False, True, called w)
         else if callFails E w then (False, True, called w)
         else case rwTable w (rowKey want) of
           None \<Rightarrow> (False, False, called w)
         | Some row \<Rightarrow>
             let w = called w
             in if \<not> windowsRouteRowsMatch row want then (False, True, w)
                else if callFails E w then (False, True, called w)
                else (True, ctxDone E (called w), (called w)\<lparr>rwTable := (rwTable w)(rowKey want := None)\<rparr>))"

section \<open>The journal\<close>

text \<open>Errors of the journal are \<open>True\<close>, and \<open>None\<close> where there is a result.\<close>

definition journalLoad :: "routeEnv \<Rightarrow> routeWorld \<Rightarrow> windowsRouteJournalData option \<times> routeWorld" where
  "journalLoad E w =
     (if callFails E w then (None, called w)
      else if jdVersion (rwJournal w) \<noteq> windowsRouteJournalVersion then (None, called w)
      else if \<not> distinct (map jeTransactionID (jdEntries (rwJournal w))) then (None, called w)
      else (Some (rwJournal w), called w))"

text \<open>
  A save that is refused because the JSON text exceeds 1 MiB is one of the calls that fail with nothing
  written.
\<close>

definition journalSave :: "routeEnv \<Rightarrow> windowsRouteJournalData \<Rightarrow> routeWorld \<Rightarrow> bool \<times> routeWorld" where
  "journalSave E data w =
     (if callFails E w
      then (True, if reWritten E (rwCalls w) \<and> \<not> rwHung w then (called w)\<lparr>rwJournal := data\<rparr> else called w)
      else (False, (called w)\<lparr>rwJournal := data\<rparr>))"

text \<open>Taking the lock: whether it failed.\<close>

definition journalLock :: "routeEnv \<Rightarrow> routeWorld \<Rightarrow> bool \<times> routeWorld" where
  "journalLock E w =
     (if rwTransition w \<noteq> None then (True, (called w)\<lparr>rwHung := True\<rparr>) else (callFails E w, called w))"

text \<open>Releasing the lock: whether that failed.\<close>

definition journalUnlock :: "routeEnv \<Rightarrow> routeWorld \<Rightarrow> bool \<times> routeWorld" where
  "journalUnlock E w = (callFails E w, called w)"

definition windowsRouteNextHop :: "Prefix \<Rightarrow> string" where
  "windowsRouteNextHop prefix = (if Addr_Is4 (prefixAddr prefix) then ''0.0.0.0'' else ''::'')"

text \<open>\<open>hex.EncodeToString\<close> and \<open>hex.DecodeString\<close>.\<close>

definition hexDigit :: "nat \<Rightarrow> char" where
  "hexDigit n = (if n < 10 then char_of (48 + n) else char_of (87 + n))"

definition hexValue :: "char \<Rightarrow> nat option" where
  "hexValue c =
     (let n = of_char c :: nat
      in if 48 \<le> n \<and> n \<le> 57 then Some (n - 48)
         else if 97 \<le> n \<and> n \<le> 102 then Some (n - 87)
         else if 65 \<le> n \<and> n \<le> 70 then Some (n - 55) else None)"

definition hexEncode :: "bytes \<Rightarrow> string" where
  "hexEncode bs = concat (map (\<lambda>b. [hexDigit (unat b div 16), hexDigit (unat b mod 16)]) bs)"

fun hexDecode :: "string \<Rightarrow> bytes option" where
  "hexDecode [] = Some []"
| "hexDecode [c] = None"
| "hexDecode (c # d # cs) =
     (case (hexValue c, hexValue d, hexDecode cs) of
        (Some h, Some l, Some bs) \<Rightarrow> Some (of_nat (16 * h + l) # bs) | _ \<Rightarrow> None)"

definition newWindowsRouteJournalEntry :: "routeEnv \<Rightarrow> Prefix \<Rightarrow> string \<Rightarrow> string \<Rightarrow> windowsRouteJournalEntry" where
  "newWindowsRouteJournalEntry E prefix txn state =
     \<lparr>jeInterfaceLUID = reLuid E, jeInterfaceIndex = reIndex E, jeDestination = rePrefixText E (Masked prefix),
      jeNextHop = windowsRouteNextHop (Masked prefix), jeMetric = windowsRouteMetric,
      jeProtocol = windowsRouteProtocol, jeTransactionID = txn, jeBaselineAbsent = True, jeState = state\<rparr>"

definition canonicalDestination :: "routeEnv \<Rightarrow> string \<Rightarrow> Prefix option" where
  "canonicalDestination E destination =
     (case parsePrefix (reNetip E) destination of
        None \<Rightarrow> None
      | Some prefix \<Rightarrow> if prefix \<noteq> Masked prefix \<or> prefixBits prefix = 0 then None else Some prefix)"

definition validateEntrySignature :: "routeEnv \<Rightarrow> windowsRouteJournalEntry \<Rightarrow> Prefix option" where
  "validateEntrySignature E entry =
     (case canonicalDestination E (jeDestination entry) of
        None \<Rightarrow> None
      | Some prefix \<Rightarrow>
          if jeInterfaceLUID entry = 0 \<or> jeInterfaceIndex entry = 0 then None
          else if jeNextHop entry \<noteq> windowsRouteNextHop prefix \<or> jeMetric entry \<noteq> windowsRouteMetric \<or>
                  jeProtocol entry \<noteq> windowsRouteProtocol then None
          else if \<not> jeBaselineAbsent entry then None
          else (case hexDecode (jeTransactionID entry) of
                  None \<Rightarrow> None | Some txn \<Rightarrow> if length txn \<noteq> 16 then None else Some prefix))"

definition validateEntry :: "routeEnv \<Rightarrow> windowsRouteJournalEntry \<Rightarrow> Prefix option" where
  "validateEntry E entry =
     (case validateEntrySignature E entry of
        None \<Rightarrow> None
      | Some prefix \<Rightarrow>
          if jeInterfaceLUID entry \<noteq> reLuid E \<or> jeInterfaceIndex entry \<noteq> reIndex E then None else Some prefix)"

text \<open>The first entry with a property, and its index.\<close>

definition findEntry :: "(windowsRouteJournalEntry \<Rightarrow> bool) \<Rightarrow> windowsRouteJournalData \<Rightarrow> (nat \<times> windowsRouteJournalEntry) option" where
  "findEntry P data = find (\<lambda>(i, entry). P entry) (enumerate 0 (jdEntries data))"

definition ownEntry :: "routeEnv \<Rightarrow> Prefix \<Rightarrow> string \<Rightarrow> windowsRouteJournalEntry \<Rightarrow> bool" where
  "ownEntry E prefix txn entry \<longleftrightarrow> jeInterfaceLUID entry = reLuid E \<and>
     jeDestination entry = rePrefixText E (Masked prefix) \<and> jeTransactionID entry = txn"

definition setEntryState :: "nat \<Rightarrow> string \<Rightarrow> windowsRouteJournalData \<Rightarrow> windowsRouteJournalData" where
  "setEntryState i state data =
     data\<lparr>jdEntries := (jdEntries data)[i := (jdEntries data ! i)\<lparr>jeState := state\<rparr>]\<rparr>"

definition dropEntry :: "nat \<Rightarrow> windowsRouteJournalData \<Rightarrow> windowsRouteJournalData" where
  "dropEntry i data = data\<lparr>jdEntries := take i (jdEntries data) @ drop (Suc i) (jdEntries data)\<rparr>"

definition newTransactionID :: "routeEnv \<Rightarrow> routeWorld \<Rightarrow> string option \<times> routeWorld" where
  "newTransactionID E w =
     (if callFails E w then (None, called w) else (Some (hexEncode (reRandom E (rwCalls w))), called w))"

text \<open>The destination is owned by nobody, as far as the journal can be read.\<close>

definition destinationFree :: "routeEnv \<Rightarrow> Prefix \<Rightarrow> windowsRouteJournalData \<Rightarrow> bool" where
  "destinationFree E prefix data \<longleftrightarrow> (\<forall>entry \<in> set (jdEntries data).
     canonicalDestination E (jeDestination entry) \<noteq> None \<and> canonicalDestination E (jeDestination entry) \<noteq> Some prefix)"

text \<open>The part of \<open>prepare\<close> under the lock, for a masked prefix. Errors also release the lock.\<close>

definition prepareLocked :: "routeEnv \<Rightarrow> Prefix \<Rightarrow> routeWorld \<Rightarrow> bool \<times> routeWorld" where
  "prepareLocked E prefix w =
     (case opRead E prefix w of
        (None, w) \<Rightarrow> (True, w)
      | (Some baseline, w) \<Rightarrow>
          if rsExists baseline then (True, w)
          else case journalLoad E w of
            (None, w) \<Rightarrow> (True, w)
          | (Some data, w) \<Rightarrow>
              if \<not> destinationFree E prefix data then (True, w)
              else case newTransactionID E w of
                (None, w) \<Rightarrow> (True, w)
              | (Some txn, w) \<Rightarrow>
                  (case journalSave E (data\<lparr>jdEntries :=
                          jdEntries data @ [newWindowsRouteJournalEntry E prefix txn windowsRoutePending]\<rparr>) w of
                     (True, w) \<Rightarrow> (True, w)
                   | (False, w) \<Rightarrow> (False, w\<lparr>rwTransition := Some (prefix, txn)\<rparr>)))"

definition journalPrepare :: "routeEnv \<Rightarrow> Prefix \<Rightarrow> routeWorld \<Rightarrow> bool \<times> routeWorld" where
  "journalPrepare E prefix w =
     (if callFails E w then (True, called w)
      else case journalLock E (called w) of
        (True, w) \<Rightarrow> (True, w)
      | (False, w) \<Rightarrow> prepareLocked E (Masked prefix) w)"

text \<open>The transition is taken by whoever finishes it, which releases the lock.\<close>

definition takeTransition :: "Prefix \<Rightarrow> routeWorld \<Rightarrow> string option \<times> routeWorld" where
  "takeTransition prefix w =
     (case rwTransition w of
        None \<Rightarrow> (None, w)
      | Some (p, txn) \<Rightarrow> if p \<noteq> Masked prefix then (None, w) else (Some txn, w\<lparr>rwTransition := None\<rparr>))"

text \<open>The route of a record that could not be stored: whether it was taken back.\<close>

definition removeRecorded :: "routeEnv \<Rightarrow> Prefix \<Rightarrow> nat \<Rightarrow> windowsRouteJournalData \<Rightarrow> routeWorld \<Rightarrow> bool \<times> routeWorld" where
  "removeRecorded E prefix i data w =
     (case opRead E prefix w of
        (None, w) \<Rightarrow> (False, w)
      | (Some state, w) \<Rightarrow>
          (case (if rsMatches state then opDelete E prefix w else (False, False, w)) of
             (committed, deleteErr, w) \<Rightarrow>
               (case (if \<not> committed \<and> deleteErr then opRead E prefix w
                      else (Some \<lparr>rsExists = False, rsMatches = False\<rparr>, w)) of
                  (None, w) \<Rightarrow> (False, w)
                | (Some verified, w) \<Rightarrow>
                    if rsMatches verified then (False, w)
                    else (True, snd (journalSave E (dropEntry i data) w)))))"

definition rollbackFailedRecord :: "routeEnv \<Rightarrow> Prefix \<Rightarrow> string \<Rightarrow> routeWorld \<Rightarrow> bool \<times> routeWorld" where
  "rollbackFailedRecord E prefix txn w =
     (case journalLoad E w of
        (None, w) \<Rightarrow> (False, w)
      | (Some data, w) \<Rightarrow>
          (case findEntry (ownEntry E prefix txn) data of
             None \<Rightarrow> (False, w)
           | Some (i, entry) \<Rightarrow>
               if validateEntry E entry = None then (False, w)
               else if jeState entry \<noteq> windowsRoutePending \<and> jeState entry \<noteq> windowsRouteActive then (False, w)
               else removeRecorded E prefix i data w))"

text \<open>Whether there is an error, whether the route was taken back, and the world.\<close>

definition recordLocked :: "routeEnv \<Rightarrow> Prefix \<Rightarrow> string \<Rightarrow> routeWorld \<Rightarrow> bool \<times> bool \<times> routeWorld" where
  "recordLocked E prefix txn w =
     (case journalLoad E w of
        (None, w) \<Rightarrow> (True, False, w)
      | (Some data, w) \<Rightarrow>
          (case findEntry (ownEntry E prefix txn) data of
             None \<Rightarrow> (True, False, w)
           | Some (i, entry) \<Rightarrow>
               if validateEntry E entry = None then (True, False, w)
               else if jeState entry \<noteq> windowsRoutePending then (True, False, w)
               else case journalSave E (setEntryState i windowsRouteActive data) w of
                 (False, w) \<Rightarrow> (False, False, w)
               | (True, w) \<Rightarrow> (case rollbackFailedRecord E prefix txn w of (rb, w) \<Rightarrow> (True, rb, w))))"

definition journalRecord :: "routeEnv \<Rightarrow> Prefix \<Rightarrow> routeWorld \<Rightarrow> bool \<times> bool \<times> routeWorld" where
  "journalRecord E prefix w =
     (case takeTransition prefix w of
        (None, w) \<Rightarrow> (True, False, w)
      | (Some txn, w) \<Rightarrow>
          (case recordLocked E prefix txn w of
             (e, rb, w) \<Rightarrow> (case journalUnlock E w of (u, w) \<Rightarrow> (e \<or> u, rb, w))))"

definition prepareDeletionLocked :: "routeEnv \<Rightarrow> Prefix \<Rightarrow> routeWorld \<Rightarrow> bool \<times> routeWorld" where
  "prepareDeletionLocked E prefix w =
     (if ctxDone E w then (True, w)
      else case journalLoad E w of
        (None, w) \<Rightarrow> (True, w)
      | (Some data, w) \<Rightarrow>
          (case findEntry (\<lambda>entry. jeInterfaceLUID entry = reLuid E \<and> jeDestination entry = rePrefixText E prefix) data of
             None \<Rightarrow> (True, w)
           | Some (i, entry) \<Rightarrow>
               if validateEntry E entry = None then (True, w)
               else if jeState entry \<noteq> windowsRouteActive \<and> jeState entry \<noteq> windowsRouteDeleting then (True, w)
               else case journalSave E (setEntryState i windowsRouteDeleting data) w of
                 (True, w) \<Rightarrow> (True, w)
               | (False, w) \<Rightarrow> (False, w\<lparr>rwTransition := Some (prefix, jeTransactionID entry)\<rparr>)))"

definition journalPrepareDeletion :: "routeEnv \<Rightarrow> Prefix \<Rightarrow> routeWorld \<Rightarrow> bool \<times> routeWorld" where
  "journalPrepareDeletion E prefix w =
     (if callFails E w then (True, called w)
      else case journalLock E (called w) of
        (True, w) \<Rightarrow> (True, w)
      | (False, w) \<Rightarrow> prepareDeletionLocked E (Masked prefix) w)"

definition releaseLocked :: "routeEnv \<Rightarrow> Prefix \<Rightarrow> string \<Rightarrow> routeWorld \<Rightarrow> bool \<times> routeWorld" where
  "releaseLocked E prefix txn w =
     (case journalLoad E w of
        (None, w) \<Rightarrow> (True, w)
      | (Some data, w) \<Rightarrow>
          journalSave E (data\<lparr>jdEntries := filter (\<lambda>entry. \<not> ownEntry E prefix txn entry) (jdEntries data)\<rparr>) w)"

definition journalRelease :: "routeEnv \<Rightarrow> Prefix \<Rightarrow> routeWorld \<Rightarrow> bool \<times> routeWorld" where
  "journalRelease E prefix w =
     (case takeTransition prefix w of
        (None, w) \<Rightarrow> (True, w)
      | (Some txn, w) \<Rightarrow>
          (case releaseLocked E prefix txn w of
             (e, w) \<Rightarrow> (case journalUnlock E w of (u, w) \<Rightarrow> (e \<or> u, w))))"

text \<open>The operator of another adapter that no longer exists.\<close>

definition ownerOf :: "routeEnv \<Rightarrow> windowsRouteJournalEntry \<Rightarrow> routeEnv" where
  "ownerOf E entry = E\<lparr>reLuid := jeInterfaceLUID entry, reIndex := jeInterfaceIndex entry\<rparr>"

text \<open>
  Whether an entry may be recovered: \<open>None\<close>, keep it and report an error; \<open>Some False\<close>, keep it; \<open>Some True\<close>,
  go on with it.
\<close>

definition recoverable :: "routeEnv \<Rightarrow> windowsRouteJournalEntry \<Rightarrow> routeWorld \<Rightarrow> bool option \<times> routeWorld" where
  "recoverable E entry w =
     (if validateEntrySignature E entry = None then (None, w)
      else if jeState entry \<noteq> windowsRouteActive \<and> jeState entry \<noteq> windowsRouteDeleting \<and> jeState entry \<noteq> windowsRoutePending
      then (None, w)
      else if jeInterfaceLUID entry = reLuid E then
        (if jeInterfaceIndex entry \<noteq> reIndex E then (None, w) else (Some True, w))
      else if callFails E w then (None, called w)
      else if reForeignExists E (jeInterfaceLUID entry) (jeInterfaceIndex entry) then (Some False, called w)
      else (Some True, called w))"

text \<open>Saving the journal with one entry replaced while the loop is at it.\<close>

definition journalStage :: "routeEnv \<Rightarrow> nat \<Rightarrow> windowsRouteJournalEntry list \<Rightarrow> windowsRouteJournalEntry \<Rightarrow>
    windowsRouteJournalEntry list \<Rightarrow> routeWorld \<Rightarrow> bool \<times> routeWorld" where
  "journalStage E version kept entry rest w =
     journalSave E \<lparr>jdVersion = version, jdEntries = kept @ [entry] @ rest\<rparr> w"

text \<open>The deletion of one entry's route, staged already: whether the entry stays, and the error.\<close>

definition recoverDelete :: "routeEnv \<Rightarrow> Prefix \<Rightarrow> routeWorld \<Rightarrow> bool \<times> bool \<times> routeWorld" where
  "recoverDelete Own prefix w =
     (case opDelete Own prefix w of
        (committed, deleteErr, w) \<Rightarrow>
          if committed \<or> \<not> deleteErr then (False, False, w)
          else (case opRead Own prefix w of
             (None, w) \<Rightarrow> (True, True, w)
           | (Some state, w) \<Rightarrow> (rsMatches state, True, w)))"

text \<open>One entry: what is kept of it, whether there is an error, and the world.\<close>

definition reconcileEntry :: "routeEnv \<Rightarrow> nat \<Rightarrow> windowsRouteJournalEntry list \<Rightarrow> windowsRouteJournalEntry \<Rightarrow>
    windowsRouteJournalEntry list \<Rightarrow> routeWorld \<Rightarrow> windowsRouteJournalEntry list \<times> bool \<times> routeWorld" where
  "reconcileEntry E version kept entry rest w =
     (case recoverable E entry w of
        (None, w) \<Rightarrow> ([entry], True, w)
      | (Some False, w) \<Rightarrow> ([entry], False, w)
      | (Some True, w) \<Rightarrow>
          (case validateEntrySignature E entry of
             None \<Rightarrow> ([entry], True, w)
           | Some prefix \<Rightarrow>
               (case opRead (ownerOf E entry) prefix w of
                  (None, w) \<Rightarrow> ([entry], True, w)
                | (Some state, w) \<Rightarrow>
                    if \<not> rsMatches state then ([], False, w)
                    else
                      (case (if jeState entry = windowsRoutePending
                             then (case journalStage E version kept (entry\<lparr>jeState := windowsRouteActive\<rparr>) rest w of
                                     (failed, w) \<Rightarrow> (failed, entry\<lparr>jeState := windowsRouteActive\<rparr>, w))
                             else (False, entry, w)) of
                         (True, entry, w) \<Rightarrow> ([entry], True, w)
                       | (False, entry, w) \<Rightarrow>
                           let entry = entry\<lparr>jeState := windowsRouteDeleting\<rparr>
                           in (case journalStage E version kept entry rest w of
                                 (True, w) \<Rightarrow> ([entry], True, w)
                               | (False, w) \<Rightarrow>
                                   (case recoverDelete (ownerOf E entry) prefix w of
                                      (keep, e, w) \<Rightarrow> (if keep then [entry] else [], e, w)))))))"

fun reconcileLoop :: "routeEnv \<Rightarrow> nat \<Rightarrow> windowsRouteJournalEntry list \<Rightarrow> windowsRouteJournalEntry list \<Rightarrow>
    routeWorld \<Rightarrow> windowsRouteJournalEntry list \<times> bool \<times> routeWorld" where
  "reconcileLoop E version kept [] w = (kept, False, w)"
| "reconcileLoop E version kept (entry # rest) w =
     (case reconcileEntry E version kept entry rest w of
        (stays, e, w) \<Rightarrow>
          (case reconcileLoop E version (kept @ stays) rest w of (kept, es, w) \<Rightarrow> (kept, e \<or> es, w)))"

definition reconcileLocked :: "routeEnv \<Rightarrow> routeWorld \<Rightarrow> bool \<times> routeWorld" where
  "reconcileLocked E w =
     (case journalLoad E w of
        (None, w) \<Rightarrow> (True, w)
      | (Some data, w) \<Rightarrow>
          (case reconcileLoop E (jdVersion data) [] (jdEntries data) w of
             (kept, e, w) \<Rightarrow> (case journalSave E (data\<lparr>jdEntries := kept\<rparr>) w of (failed, w) \<Rightarrow> (e \<or> failed, w))))"

definition journalReconcile :: "routeEnv \<Rightarrow> routeWorld \<Rightarrow> bool \<times> routeWorld" where
  "journalReconcile E w =
     (if callFails E w then (True, called w)
      else case journalLock E (called w) of
        (True, w) \<Rightarrow> (True, w)
      | (False, w) \<Rightarrow>
          (case reconcileLocked E w of (e, w) \<Rightarrow> (case journalUnlock E w of (u, w) \<Rightarrow> (e \<or> u, w))))"

section \<open>The plan\<close>

datatype plan_error =
    PlanInvalid nat
  | PlanDefaultRoute nat
  | ErrRelayRouteConflict nat

fun planRoutes :: "Addr list \<Rightarrow> nat \<Rightarrow> Prefix list \<Rightarrow> Prefix list \<Rightarrow> plan_error + Prefix list" where
  "planRoutes excluded idx plan [] = Inr plan"
| "planRoutes excluded idx plan (prefix # rest) =
     (if \<not> Addr_IsValid (prefixAddr prefix) then Inl (PlanInvalid idx)
      else
        let prefix = Masked prefix
        in if prefixBits prefix = 0 then Inl (PlanDefaultRoute idx)
           else if list_ex (\<lambda>a. let a = Addr_Unmap a in Addr_IsValid a \<and> prefixContains prefix a) excluded
           then Inl (ErrRelayRouteConflict idx)
           else if prefix \<in> set plan then planRoutes excluded (Suc idx) plan rest
           else planRoutes excluded (Suc idx) (plan @ [prefix]) rest)"

definition PlanSelectiveRoutes :: "Prefix list \<Rightarrow> Addr list \<Rightarrow> plan_error + Prefix list" where
  "PlanSelectiveRoutes destinations excluded = planRoutes excluded 0 [] destinations"

section \<open>Rollback\<close>

text \<open>
  The operator is the one for Windows, which is an ownership store as well. One installed route: whether
  it remains, whether there was an error, and the world after it.
\<close>

definition rollbackDelete :: "routeEnv \<Rightarrow> Prefix \<Rightarrow> routeWorld \<Rightarrow> bool \<times> bool \<times> routeWorld" where
  "rollbackDelete E prefix w =
     (case opDelete E prefix w of
        (committed, deleteErr, w) \<Rightarrow>
          if committed \<or> \<not> deleteErr then (case journalRelease E prefix w of (e, w) \<Rightarrow> (False, e, w))
          else (case opRead E prefix w of
             (None, w) \<Rightarrow> (True, True, w)
           | (Some result, w) \<Rightarrow>
               if rsMatches result then (True, True, snd (snd (journalRecord E prefix w)))
               else (False, True, snd (journalRelease E prefix w))))"

definition rollbackOne :: "routeEnv \<Rightarrow> Prefix \<Rightarrow> routeWorld \<Rightarrow> bool \<times> bool \<times> routeWorld" where
  "rollbackOne E prefix w =
     (case journalPrepareDeletion E prefix w of
        (True, w) \<Rightarrow> (True, True, w)
      | (False, w) \<Rightarrow>
          (case opRead E prefix w of
             (None, w) \<Rightarrow> (True, True, snd (snd (journalRecord E prefix w)))
           | (Some state, w) \<Rightarrow>
               if \<not> rsMatches state then (case journalRelease E prefix w of (e, w) \<Rightarrow> (False, e, w))
               else rollbackDelete E prefix w))"

text \<open>The loop over the installed routes in reverse order: what remains, in the order of the loop.\<close>

fun rollbackLoop :: "routeEnv \<Rightarrow> Prefix list \<Rightarrow> routeWorld \<Rightarrow> Prefix list \<times> bool \<times> routeWorld" where
  "rollbackLoop E [] w = ([], False, w)"
| "rollbackLoop E (prefix # rest) w =
     (case rollbackOne E prefix w of
        (keep, e, w) \<Rightarrow>
          (case rollbackLoop E rest w of
             (remaining, es, w) \<Rightarrow> (if keep then prefix # remaining else remaining, e \<or> es, w)))"

record routeTransaction =
  txOp :: bool
  txInstalled :: "Prefix list"

text \<open>\<open>rollbackLocked\<close>, which \<open>Close\<close> is as well: whether there was an error.\<close>

definition txnRollback :: "routeEnv \<Rightarrow> routeTransaction \<Rightarrow> routeWorld \<Rightarrow> bool \<times> routeTransaction \<times> routeWorld" where
  "txnRollback E t w =
     (if \<not> txOp t then (False, t, w)
      else case rollbackLoop E (rev (txInstalled t)) w of
        (remaining, e, w) \<Rightarrow>
          let t = t\<lparr>txInstalled := rev remaining\<rparr>
          in if txInstalled t = [] then
               (if rwTransition w \<noteq> None \<or> callFails E w then (True, t, called w)
                else (e, t\<lparr>txOp := False\<rparr>, called w))
             else (e, t, w))"

section \<open>Installation\<close>

text \<open>
  One route of the plan. \<open>InstallNext\<close> goes on with the routes installed so far; \<open>InstallFails\<close> is an
  error, to be rolled back.
\<close>

datatype install_step = InstallNext "Prefix list" routeWorld | InstallFails "Prefix list" routeWorld

definition afterAdd :: "routeEnv \<Rightarrow> Prefix \<Rightarrow> bool \<Rightarrow> bool \<Rightarrow> Prefix list \<Rightarrow> routeWorld \<Rightarrow> install_step" where
  "afterAdd E prefix committed addErr installed w =
     (case opRead E prefix w of
        (result, w) \<Rightarrow>
          (case (if \<not> committed then journalRelease E prefix w else (False, w)) of
             (True, w) \<Rightarrow> InstallFails installed w
           | (False, w) \<Rightarrow>
               (case result of
                  None \<Rightarrow> InstallFails installed w
                | Some state \<Rightarrow>
                    if addErr then InstallFails installed w
                    else if \<not> rsMatches state then InstallFails installed w
                    else InstallNext installed w)))"

definition addRoute :: "routeEnv \<Rightarrow> Prefix \<Rightarrow> Prefix list \<Rightarrow> routeWorld \<Rightarrow> install_step" where
  "addRoute E prefix installed w =
     (case opAdd E prefix w of
        (committed, addErr, w) \<Rightarrow>
          if committed then
            (case journalRecord E prefix w of
               (True, rolledBack, w) \<Rightarrow> InstallFails (if rolledBack then installed else installed @ [prefix]) w
             | (False, _, w) \<Rightarrow> afterAdd E prefix True addErr (installed @ [prefix]) w)
          else afterAdd E prefix False addErr installed w)"

definition installOne :: "routeEnv \<Rightarrow> Prefix \<Rightarrow> Prefix list \<Rightarrow> routeWorld \<Rightarrow> install_step" where
  "installOne E prefix installed w =
     (if ctxDone E w then InstallFails installed w
      else case opRead E prefix w of
        (None, w) \<Rightarrow> InstallFails installed w
      | (Some baseline, w) \<Rightarrow>
          if rsExists baseline then
            (if \<not> rsMatches baseline then InstallFails installed w else InstallNext installed w)
          else
            (case journalPrepare E prefix w of
               (True, w) \<Rightarrow> InstallFails installed w
             | (False, w) \<Rightarrow> addRoute E prefix installed w))"

fun installLoop :: "routeEnv \<Rightarrow> Prefix list \<Rightarrow> Prefix list \<Rightarrow> routeWorld \<Rightarrow> install_step" where
  "installLoop E [] installed w = InstallNext installed w"
| "installLoop E (prefix # plan) installed w =
     (case installOne E prefix installed w of
        InstallFails installed w \<Rightarrow> InstallFails installed w
      | InstallNext installed w \<Rightarrow> installLoop E plan installed w)"

text \<open>The transaction, or an error, with whether the rollback had one as well.\<close>

definition installRouteTransaction :: "routeEnv \<Rightarrow> Prefix list \<Rightarrow> routeWorld \<Rightarrow> (bool + routeTransaction) \<times> routeWorld" where
  "installRouteTransaction E plan w =
     (case installLoop E plan [] w of
        InstallNext installed w \<Rightarrow> (Inr \<lparr>txOp = True, txInstalled = installed\<rparr>, w)
      | InstallFails installed w \<Rightarrow>
          (case txnRollback E \<lparr>txOp = True, txInstalled = installed\<rparr> w of (e, _, w) \<Rightarrow> (Inl e, w)))"

definition installPlannedSelectiveRoutes :: "routeEnv \<Rightarrow> Prefix list \<Rightarrow> routeWorld \<Rightarrow> (bool + routeTransaction) \<times> routeWorld" where
  "installPlannedSelectiveRoutes E plan w =
     (case journalReconcile E w of
        (True, w) \<Rightarrow> (Inl (rwTransition w \<noteq> None \<or> callFails E w), called w)
      | (False, w) \<Rightarrow>
          if plan = [] then (Inr \<lparr>txOp = True, txInstalled = []\<rparr>, w) else installRouteTransaction E plan w)"

text \<open>
  \<open>InstallSelectiveRoutes\<close>: the operator needs the adapter's identity, its index, and the open lock.
\<close>

datatype install_error =
    InstallPlan plan_error
  | InstallOperator
  | InstallFailed bool

definition InstallSelectiveRoutes :: "routeEnv \<Rightarrow> Prefix list \<Rightarrow> Addr list \<Rightarrow> routeWorld \<Rightarrow>
    (install_error + routeTransaction) \<times> routeWorld" where
  "InstallSelectiveRoutes E destinations excluded w =
     (case PlanSelectiveRoutes destinations excluded of
        Inl e \<Rightarrow> (Inl (InstallPlan e), w)
      | Inr plan \<Rightarrow>
          if reLuid E = 0 \<or> callFails E w then (Inl InstallOperator, called w)
          else case installPlannedSelectiveRoutes E plan (called w) of
            (Inl e, w) \<Rightarrow> (Inl (InstallFailed e), w)
          | (Inr t, w) \<Rightarrow> (Inr t, w))"

text \<open>
  One run of Core: the routes are installed, \<open>Close\<close> is called some times, and the process ends, which
  abandons its lock.
\<close>

fun closeTimes :: "routeEnv \<Rightarrow> nat \<Rightarrow> routeTransaction \<Rightarrow> routeWorld \<Rightarrow> routeTransaction \<times> routeWorld" where
  "closeTimes E 0 t w = (t, w)"
| "closeTimes E (Suc n) t w = (case txnRollback E t w of (_, t, w) \<Rightarrow> closeTimes E n t w)"

record coreRun =
  crEnv :: routeEnv
  crDestinations :: "Prefix list"
  crExcluded :: "Addr list"
  crCloses :: nat

definition processExit :: "routeWorld \<Rightarrow> routeWorld" where
  "processExit w = w\<lparr>rwTransition := None, rwHung := False\<rparr>"

definition processRun :: "coreRun \<Rightarrow> routeWorld \<Rightarrow> routeWorld" where
  "processRun r w =
     (case InstallSelectiveRoutes (crEnv r) (crDestinations r) (crExcluded r) w of
        (Inl _, w) \<Rightarrow> processExit w
      | (Inr t, w) \<Rightarrow> processExit (snd (closeTimes (crEnv r) (crCloses r) t w)))"

section \<open>The policy for relay endpoints\<close>

text \<open>
  \<open>net.Addr\<close> values are UDP addresses, or of another type (\<open>None\<close>). The port of a UDP address is an
  \<open>int\<close>; its address is read from its bytes and has no zone.
\<close>

record UDPAddr =
  uaIP :: Addr
  uaPort :: int

definition udpIP :: "UDPAddr \<Rightarrow> Addr" where
  "udpIP remote = Addr_Unmap (withoutZone (uaIP remote))"

definition UDPAddrFromAddrPort :: "AddrPort \<Rightarrow> UDPAddr" where
  "UDPAddrFromAddrPort e = \<lparr>uaIP = apAddr e, uaPort = int (unat (apPort e))\<rparr>"

record tgpRelayPolicy =
  trApproved :: "AddrPort list"
  trGameRoutes :: "Prefix list"

datatype policy_error =
    PolicyAddress
  | PolicyPort
  | PolicyRoute plan_error
  | PolicyNoEndpoint
  | PolicyNotApproved

definition validateTGPRemoteRoute :: "Prefix list \<Rightarrow> UDPAddr option \<Rightarrow> policy_error option" where
  "validateTGPRemoteRoute gameRoutes remote =
     (case remote of
        None \<Rightarrow> Some PolicyAddress
      | Some udpAddr \<Rightarrow>
          if uaIP udpAddr = AddrZero then Some PolicyAddress
          else case PlanSelectiveRoutes gameRoutes [udpIP udpAddr] of
            Inl e \<Rightarrow> Some (PolicyRoute e) | Inr _ \<Rightarrow> None)"

fun approveEndpoints :: "Prefix list \<Rightarrow> u16 \<Rightarrow> AddrPort list \<Rightarrow> Addr list \<Rightarrow> policy_error + AddrPort list" where
  "approveEndpoints gameRoutes port approved [] = Inr approved"
| "approveEndpoints gameRoutes port approved (addr # addrs) =
     (let addr = Addr_Unmap addr; endpoint = \<lparr>apAddr = addr, apPort = port\<rparr>
      in if \<not> Addr_IsValid addr then approveEndpoints gameRoutes port approved addrs
         else if endpoint \<in> set approved then approveEndpoints gameRoutes port approved addrs
         else case validateTGPRemoteRoute gameRoutes (Some (UDPAddrFromAddrPort endpoint)) of
           Some e \<Rightarrow> Inl e
         | None \<Rightarrow> approveEndpoints gameRoutes port (approved @ [endpoint]) addrs)"

definition newTGPRelayPolicy :: "string \<Rightarrow> Addr list \<Rightarrow> Prefix list \<Rightarrow> policy_error + tgpRelayPolicy" where
  "newTGPRelayPolicy raw addrs gameRoutes =
     (case splitHostPort (trimSpace raw) of
        None \<Rightarrow> Inl PolicyAddress
      | Some (_, portRaw) \<Rightarrow>
          (case parseAtoi portRaw of
             None \<Rightarrow> Inl PolicyPort
           | Some port \<Rightarrow>
               if port < 1 \<or> port > 65535 then Inl PolicyPort
               else case approveEndpoints gameRoutes (of_int port) [] addrs of
                 Inl e \<Rightarrow> Inl e
               | Inr approved \<Rightarrow>
                   if approved = [] then Inl PolicyNoEndpoint
                   else Inr \<lparr>trApproved = approved, trGameRoutes = gameRoutes\<rparr>))"

text \<open>\<open>Validate\<close> of the policy.\<close>

definition policyValidate :: "tgpRelayPolicy \<Rightarrow> UDPAddr option \<Rightarrow> policy_error option" where
  "policyValidate p remote =
     (case validateTGPRemoteRoute (trGameRoutes p) remote of
        Some e \<Rightarrow> Some e
      | None \<Rightarrow>
          (case remote of
             None \<Rightarrow> Some PolicyAddress
           | Some udpAddr \<Rightarrow>
               if uaIP udpAddr = AddrZero \<or> uaPort udpAddr < 1 \<or> uaPort udpAddr > 65535 then Some PolicyAddress
               else if \<lparr>apAddr = udpIP udpAddr, apPort = of_int (uaPort udpAddr)\<rparr> \<notin> set (trApproved p)
               then Some PolicyNotApproved
               else None))"

definition parseGameRoutePrefixes :: "netip \<Rightarrow> string list \<Rightarrow> Prefix list option" where
  "parseGameRoutePrefixes N raw =
     (let prefixes = map (\<lambda>item. parsePrefix N (trimSpace item)) raw
      in if None \<in> set prefixes then None else Some (map (Masked \<circ> the) prefixes))"

definition resolveTGPRelayAddresses :: "netip \<Rightarrow> (string \<Rightarrow> Addr list option) \<Rightarrow> string \<Rightarrow> Addr list option" where
  "resolveTGPRelayAddresses N lookupIP raw =
     (case splitHostPort (trimSpace raw) of
        None \<Rightarrow> None
      | Some (host, _) \<Rightarrow>
          (case parseAddr N host of
             Some addr \<Rightarrow> Some [Addr_Unmap addr]
           | None \<Rightarrow>
               (case lookupIP host of
                  None \<Rightarrow> None
                | Some addrs \<Rightarrow>
                    let result = rev (remdups (rev (filter Addr_IsValid (map Addr_Unmap addrs))))
                    in if result = [] then None else Some result)))"

end
