(* ===== verification/Routes_Inv.thy ===== *)
theory Routes_Inv
  imports Routes "HOL-Library.Sublist"
begin

text \<open>
  The invariant of the route journal: every route beyond the table before Core is that of an entry of the
  journal. All operations keep it, whatever fails, up to the runs of the process; and the recovery without
  failures, which takes back everything the journal knows.
\<close>

section \<open>Basic facts\<close>

declare split_paired_All [simp del] split_paired_Ex [simp del]

lemma maskBytes_idem [simp]: "maskBytes n (maskBytes n bs) = maskBytes n bs"
proof (rule nth_equalityI)
  show "length (maskBytes n (maskBytes n bs)) = length (maskBytes n bs)" by (simp add: maskBytes_def)
next
  fix i assume "i < length (maskBytes n (maskBytes n bs))"
  then have i: "i < length bs" by (simp add: maskBytes_def)
  have "push_bit m (drop_bit m (push_bit m (drop_bit m b))) = push_bit m (drop_bit m b)" for m and b :: byte
    by (rule bit_eqI) (auto simp: bit_push_bit_iff bit_drop_bit_eq)
  then show "maskBytes n (maskBytes n bs) ! i = maskBytes n bs ! i"
    using i by (simp add: maskBytes_def nth_enumerate_eq)
qed

lemma Masked_idem [simp]: "Masked (Masked p) = Masked p"
  by (cases p) (simp add: Masked_def split: Addr.split)

lemma prefixBits_Masked [simp]: "prefixBits (Masked p) = prefixBits p"
  by (simp add: Masked_def)

definition tkey :: "routeEnv \<Rightarrow> Prefix \<Rightarrow> u64 \<times> u32 \<times> Addr \<times> nat \<times> Addr" where
  "tkey E p = rowKey (routeRowOf E p)"

lemma routeRowOf_Masked [simp]: "routeRowOf E (Masked p) = routeRowOf E p"
  by (simp add: routeRowOf_def)

lemma tkey_Masked [simp]: "tkey E (Masked p) = tkey E p"
  by (simp add: tkey_def)

lemma rows_match: "windowsRouteRowsMatch got want \<longleftrightarrow> got = want"
  by (cases got; cases want) (auto simp: windowsRouteRowsMatch_def)

lemma same_key_same_row: "tkey E p = tkey E q \<Longrightarrow> routeRowOf E p = routeRowOf E q"
  by (simp add: tkey_def rowKey_def routeRowOf_def Let_def)

lemma row_owner:
  assumes "jeInterfaceLUID e = reLuid E" and "jeInterfaceIndex e = reIndex E"
  shows "routeRowOf (ownerOf F e) p = routeRowOf E p"
  using assms by (simp add: routeRowOf_def ownerOf_def Let_def)

lemma called_simps [simp]:
  "rwTable (called w) = rwTable w" "rwJournal (called w) = rwJournal w"
  "rwTransition (called w) = rwTransition w" "rwHung (called w) = rwHung w"
  "rwCalls (called w) = Suc (rwCalls w)"
  by (simp_all add: called_def)

lemma opRead_result:
  assumes "opRead E p w = (r, w')"
  shows "w' = called w \<and> (r = Some s \<longrightarrow> (rsExists s \<longleftrightarrow> rwTable w (tkey E p) \<noteq> None) \<and>
    (rsMatches s \<longleftrightarrow> rwTable w (tkey E p) = Some (routeRowOf E p)))"
  using assms by (auto simp: opRead_def Let_def rows_match tkey_def split: if_splits option.splits)

lemma opAdd_result:
  assumes "opAdd E p w = (c, e, w')"
  shows "rwJournal w' = rwJournal w \<and> rwTransition w' = rwTransition w \<and> rwHung w' = rwHung w \<and>
    rwCalls w' = Suc (rwCalls w) \<and> (c \<longrightarrow> rwTable w (tkey E p) = None) \<and> (\<not> c \<longrightarrow> e) \<and>
    rwTable w' = (if c then (rwTable w)(tkey E p \<mapsto> routeRowOf E p) else rwTable w)"
  using assms by (auto simp: opAdd_def Let_def tkey_def split: if_splits)

lemma opDelete_result:
  assumes "opDelete E p w = (c, e, w')"
  shows "rwJournal w' = rwJournal w \<and> rwTransition w' = rwTransition w \<and> rwHung w' = rwHung w \<and>
    rwCalls w < rwCalls w' \<and> rwTable w' = (if c then (rwTable w)(tkey E p := None) else rwTable w) \<and>
    (\<not> c \<and> \<not> e \<longrightarrow> rwTable w (tkey E p) = None)"
  using assms by (auto simp: opDelete_def Let_def tkey_def split: if_splits option.splits)

lemma journalSave_result:
  assumes "journalSave E d w = (e, w')"
  shows "rwTable w' = rwTable w \<and> rwTransition w' = rwTransition w \<and> rwHung w' = rwHung w \<and>
    rwCalls w' = Suc (rwCalls w) \<and> (rwJournal w' = d \<or> e \<and> rwJournal w' = rwJournal w)"
  using assms by (auto simp: journalSave_def split: if_splits)

lemma journalLoad_result:
  assumes "journalLoad E w = (r, w')"
  shows "w' = called w \<and> (r = Some d \<longrightarrow> d = rwJournal w \<and> distinct (map jeTransactionID (jdEntries d)))"
  using assms by (auto simp: journalLoad_def split: if_splits)

lemma findEntry_result:
  assumes "findEntry P d = Some (i, e)"
  shows "i < length (jdEntries d) \<and> jdEntries d ! i = e \<and> P e"
  using assms by (auto simp: findEntry_def find_Some_iff nth_enumerate_eq)

section \<open>The hexadecimal text\<close>

lemma hexValue_digit [simp]: "n < 16 \<Longrightarrow> hexValue (hexDigit n) = Some n"
  by (auto simp: hexValue_def hexDigit_def Let_def)

lemma hex_roundtrip [simp]: "hexDecode (hexEncode bs) = Some bs"
proof (induction bs)
  case (Cons b bs)
  have "unat b < 256" by (rule unat_byte)
  then have "unat b div 16 < 16" by simp
  moreover have "(of_nat (16 * (unat b div 16) + unat b mod 16) :: byte) = b"
    by (simp only: mult_div_mod_eq) simp
  ultimately show ?case using Cons by (simp add: hexEncode_def)
qed (simp add: hexEncode_def)

lemma hexEncode_inj: "hexEncode a = hexEncode b \<longleftrightarrow> a = b"
  by (metis hex_roundtrip option.inject)

section \<open>The invariant of the journal\<close>

lemma journal_eta [simp]: "\<lparr>jdVersion = jdVersion d, jdEntries = jdEntries d\<rparr> = d"
  by (cases d) simp

definition validState :: "string \<Rightarrow> bool" where
  "validState st \<longleftrightarrow> st = windowsRoutePending \<or> st = windowsRouteActive \<or> st = windowsRouteDeleting"

definition goodEntry :: "routeEnv \<Rightarrow> (u64 \<Rightarrow> u32 \<Rightarrow> bool) \<Rightarrow> routeTable \<Rightarrow> windowsRouteJournalEntry \<Rightarrow> bool" where
  "goodEntry E Q T0 e \<longleftrightarrow> validState (jeState e) \<and> Q (jeInterfaceLUID e) (jeInterfaceIndex e) \<and>
     (\<exists>p. validateEntrySignature E e = Some p \<and> jeDestination e = rePrefixText E p \<and> T0 (tkey (ownerOf E e) p) = None)"

definition coversRow :: "routeEnv \<Rightarrow> windowsRouteJournalEntry \<Rightarrow> routeTable \<Rightarrow> (u64 \<times> u32 \<times> Addr \<times> nat \<times> Addr) \<Rightarrow> bool" where
  "coversRow E e tbl k \<longleftrightarrow> (\<exists>p. validateEntrySignature E e = Some p \<and> k = tkey (ownerOf E e) p \<and>
     tbl k = Some (routeRowOf (ownerOf E e) p))"

definition drawnIDs :: "(nat \<Rightarrow> bytes) \<Rightarrow> nat \<Rightarrow> string list \<Rightarrow> bool" where
  "drawnIDs rnd n ts \<longleftrightarrow> (\<exists>ns. distinct ns \<and> (\<forall>i \<in> set ns. i < n) \<and> ts = map (hexEncode \<circ> rnd) ns)"

text \<open>
  Every row that the table has beyond \<open>T0\<close> is that of an entry of the journal. \<open>Q\<close> says which adapters
  entries are for.
\<close>

definition journalInv :: "routeEnv \<Rightarrow> (u64 \<Rightarrow> u32 \<Rightarrow> bool) \<Rightarrow> routeTable \<Rightarrow> routeTable \<Rightarrow> nat \<Rightarrow> windowsRouteJournalData \<Rightarrow> bool" where
  "journalInv E Q T0 tbl n d \<longleftrightarrow> jdVersion d = windowsRouteJournalVersion \<and>
     drawnIDs (reRandom E) n (map jeTransactionID (jdEntries d)) \<and>
     (\<forall>e \<in> set (jdEntries d). goodEntry E Q T0 e) \<and>
     (\<forall>k. tbl k = T0 k \<or> (\<exists>e \<in> set (jdEntries d). coversRow E e tbl k))"

definition openTransition :: "routeEnv \<Rightarrow> routeWorld \<Rightarrow> bool" where
  "openTransition E w \<longleftrightarrow> (\<forall>p txn. rwTransition w = Some (p, txn) \<longrightarrow> p = Masked p \<and>
     (\<exists>e \<in> set (jdEntries (rwJournal w)). jeTransactionID e = txn \<and> validateEntry E e = Some p \<and>
        jeDestination e = rePrefixText E p))"

definition routeInv :: "routeEnv \<Rightarrow> (u64 \<Rightarrow> u32 \<Rightarrow> bool) \<Rightarrow> routeTable \<Rightarrow> routeWorld \<Rightarrow> bool" where
  "routeInv E Q T0 w \<longleftrightarrow> journalInv E Q T0 (rwTable w) (rwCalls w) (rwJournal w) \<and> openTransition E w"

lemma drawnIDs_mono: "drawnIDs rnd n ts \<Longrightarrow> n \<le> m \<Longrightarrow> drawnIDs rnd m ts"
  unfolding drawnIDs_def by (elim exE, rule_tac x = ns in exI) auto

lemma drawnIDs_subseq: "drawnIDs rnd n ts \<Longrightarrow> subseq us ts \<Longrightarrow> drawnIDs rnd n us"
  unfolding drawnIDs_def subseq_conv_nths
  by (elim exE conjE, rule_tac x = "nths ns N" in exI) (auto simp: nths_map dest: in_set_nthsD)

lemma drawnIDs_append:
  assumes "drawnIDs rnd n ts" and "n \<le> i" and "i < m"
  shows "drawnIDs rnd m (ts @ [hexEncode (rnd i)])"
proof -
  obtain ns where "distinct ns" "\<forall>j \<in> set ns. j < n" "ts = map (hexEncode \<circ> rnd) ns"
    using assms(1) by (auto simp: drawnIDs_def)
  then show ?thesis unfolding drawnIDs_def using assms(2,3) by (intro exI [of _ "ns @ [i]"]) auto
qed

lemma journalInv_later: "journalInv E Q T0 tbl n d \<Longrightarrow> n \<le> m \<Longrightarrow> journalInv E Q T0 tbl m d"
  by (auto simp: journalInv_def intro: drawnIDs_mono)

lemma journalInv_subseq:
  assumes "journalInv E Q T0 tbl n d" and "subseq es (jdEntries d)"
    and "\<And>e k. e \<in> set (jdEntries d) \<Longrightarrow> e \<notin> set es \<Longrightarrow> coversRow E e tbl k \<Longrightarrow> tbl k = T0 k"
  shows "journalInv E Q T0 tbl n (d\<lparr>jdEntries := es\<rparr>)"
proof -
  have "set es \<subseteq> set (jdEntries d)" using assms(2) by (auto simp: subseq_conv_nths dest: in_set_nthsD)
  moreover have "subseq (map jeTransactionID es) (map jeTransactionID (jdEntries d))"
    using assms(2) by (rule subseq_map)
  ultimately show ?thesis
    using assms(1,3) unfolding journalInv_def by (fastforce intro: drawnIDs_subseq)
qed

lemma signature_state [simp]: "validateEntrySignature E (e\<lparr>jeState := st\<rparr>) = validateEntrySignature E e"
  by (simp add: validateEntrySignature_def split: option.split)

lemma owner_state [simp]: "ownerOf E (e\<lparr>jeState := st\<rparr>) = ownerOf E e"
  by (simp add: ownerOf_def)

lemma covers_state [simp]: "coversRow E (e\<lparr>jeState := st\<rparr>) = coversRow E e"
  by (intro ext) (simp add: coversRow_def)

lemma goodEntry_state: "goodEntry E Q T0 e \<Longrightarrow> validState st \<Longrightarrow> goodEntry E Q T0 (e\<lparr>jeState := st\<rparr>)"
  by (simp add: goodEntry_def)

lemma journalInv_state:
  assumes "journalInv E Q T0 tbl n \<lparr>jdVersion = v, jdEntries = xs @ e # ys\<rparr>" and "validState st"
  shows "journalInv E Q T0 tbl n \<lparr>jdVersion = v, jdEntries = xs @ e\<lparr>jeState := st\<rparr> # ys\<rparr>"
  using assms goodEntry_state [of E Q T0 e st] by (auto simp: journalInv_def)

lemma setEntryState_split:
  assumes "i < length (jdEntries d)"
  shows "setEntryState i st d = \<lparr>jdVersion = jdVersion d, jdEntries = take i (jdEntries d) @
      (jdEntries d ! i)\<lparr>jeState := st\<rparr> # drop (Suc i) (jdEntries d)\<rparr>"
  using assms by (cases d) (simp add: setEntryState_def upd_conv_take_nth_drop)

lemma journalInv_setEntryState:
  assumes "journalInv E Q T0 tbl n d" and "i < length (jdEntries d)" and "validState st"
  shows "journalInv E Q T0 tbl n (setEntryState i st d)"
  unfolding setEntryState_split [OF assms(2)]
  by (rule journalInv_state [OF _ assms(3)]) (use assms(1,2) in \<open>cases d; simp add: id_take_nth_drop [symmetric]\<close>)

lemma journalInv_add:
  assumes "journalInv E Q T0 tbl n d" and "e \<in> set (jdEntries d)" and "validateEntry E e = Some p"
  shows "journalInv E Q T0 (tbl(tkey E p \<mapsto> routeRowOf E p)) n d"
proof -
  have "validateEntrySignature E e = Some p \<and> routeRowOf (ownerOf E e) p = routeRowOf E p"
    using assms(3) row_owner [of e E] by (auto simp: validateEntry_def split: option.splits if_splits)
  then have "coversRow E e (tbl(tkey E p \<mapsto> routeRowOf E p)) (tkey E p)"
    by (simp add: coversRow_def tkey_def)
  then show ?thesis
    using assms(1,2) unfolding journalInv_def by (auto simp: coversRow_def tkey_def; metis)
qed

lemma journalInv_delete:
  assumes "journalInv E Q T0 tbl n d" and "T0 k = None"
  shows "journalInv E Q T0 (tbl(k := None)) n d"
proof -
  have "coversRow E e (tbl(k := None)) k' = coversRow E e tbl k'" if "k' \<noteq> k" for e k'
    using that by (auto simp: coversRow_def)
  then show ?thesis using assms unfolding journalInv_def by (metis fun_upd_apply)
qed

lemma journalInv_append:
  assumes "journalInv E Q T0 tbl n d" and "n \<le> i" and "i < m" and "goodEntry E Q T0 e"
    and "jeTransactionID e = hexEncode (reRandom E i)"
  shows "journalInv E Q T0 tbl m (d\<lparr>jdEntries := jdEntries d @ [e]\<rparr>)"
proof -
  have "drawnIDs (reRandom E) m (map jeTransactionID (jdEntries d) @ [jeTransactionID e])"
    using assms(1-3,5) drawnIDs_append [of "reRandom E" n _ i m] by (simp add: journalInv_def)
  then show ?thesis using assms(1,4) by (auto simp: journalInv_def)
qed

lemma validated_row:
  assumes "validateEntry E e = Some p"
  shows "validateEntrySignature E e = Some p \<and> jeInterfaceLUID e = reLuid E \<and> jeInterfaceIndex e = reIndex E \<and>
    routeRowOf (ownerOf F e) p = routeRowOf E p \<and> tkey (ownerOf F e) p = tkey E p \<and> p = Masked p"
proof -
  have v: "validateEntrySignature E e = Some p" "jeInterfaceLUID e = reLuid E" "jeInterfaceIndex e = reIndex E"
    using assms by (auto simp: validateEntry_def split: option.splits if_splits)
  then have "p = Masked p"
    by (auto simp: validateEntrySignature_def canonicalDestination_def split: option.splits if_splits)
  then show ?thesis using v row_owner [of e E F p] by (simp add: tkey_def)
qed

lemma validated_uncovered:
  assumes "validateEntry E e = Some p" and "tbl (tkey E p) \<noteq> Some (routeRowOf E p)"
  shows "\<not> coversRow E e tbl k"
  using assms validated_row [OF assms(1), of E] by (auto simp: coversRow_def)

lemma journalInv_absent:
  assumes "journalInv E Q T0 tbl n d" and "tbl k = None"
  shows "T0 k = None"
proof -
  have "tbl k = T0 k \<or> (\<exists>e \<in> set (jdEntries d). coversRow E e tbl k)"
    using assms(1) unfolding journalInv_def by blast
  then show ?thesis using assms(2) unfolding coversRow_def by auto
qed

lemma journalInv_baseline:
  assumes "journalInv E Q T0 tbl n d" and "e \<in> set (jdEntries d)" and "validateEntry E e = Some p"
  shows "T0 (tkey E p) = None"
proof -
  have "goodEntry E Q T0 e" using assms(1,2) by (simp add: journalInv_def)
  then show ?thesis using validated_row [OF assms(3), of E] by (auto simp: goodEntry_def)
qed

lemma routeInv_same:
  assumes "routeInv E Q T0 w" and "rwTable w' = rwTable w" and "rwJournal w' = rwJournal w"
    and "rwTransition w' = rwTransition w \<or> rwTransition w' = None" and "rwCalls w \<le> rwCalls w'"
  shows "routeInv E Q T0 w'"
proof -
  have "journalInv E Q T0 (rwTable w) (rwCalls w') (rwJournal w)"
    using assms(1,5) journalInv_later unfolding routeInv_def by blast
  moreover have "openTransition E w'"
    using assms(1,3,4) unfolding routeInv_def openTransition_def by auto
  ultimately show ?thesis using assms(2,3) by (simp add: routeInv_def)
qed

lemma routeInv_save:
  assumes "routeInv E Q T0 w" and "journalSave E d w = (e, w')" and "rwTransition w = None"
    and "journalInv E Q T0 (rwTable w) (rwCalls w) d"
  shows "routeInv E Q T0 w' \<and> rwTable w' = rwTable w \<and> rwTransition w' = None \<and> (\<not> e \<longrightarrow> rwJournal w' = d)"
  using assms journalSave_result [OF assms(2)] journalInv_later [of E Q T0 "rwTable w" "rwCalls w" _ "rwCalls w'"]
  by (auto simp: routeInv_def openTransition_def)

lemma routeInv_add:
  assumes "routeInv E Q T0 w" and "opAdd E p w = (c, e, w')" and "x \<in> set (jdEntries (rwJournal w))"
    and "validateEntry E x = Some p"
  shows "routeInv E Q T0 w'"
proof -
  note o = opAdd_result [OF assms(2)]
  have j: "journalInv E Q T0 (rwTable w) (rwCalls w') (rwJournal w)"
    using assms(1) o journalInv_later [of E Q T0 "rwTable w" "rwCalls w"] by (auto simp: routeInv_def)
  have "journalInv E Q T0 (rwTable w') (rwCalls w') (rwJournal w')"
    using j o journalInv_add [OF j assms(3,4)] by (simp split: if_splits)
  then show ?thesis using o assms(1) by (auto simp: routeInv_def openTransition_def)
qed

lemma routeInv_delete:
  assumes "routeInv E Q T0 w" and "opDelete F p w = (c, e, w')" and "T0 (tkey F p) = None"
  shows "routeInv E Q T0 w' \<and> rwTransition w' = rwTransition w \<and> rwJournal w' = rwJournal w \<and>
    (c \<or> \<not> e \<longrightarrow> rwTable w' (tkey F p) = None) \<and>
    (rwTable w (tkey F p) = None \<longrightarrow> rwTable w' (tkey F p) = None)"
proof -
  note o = opDelete_result [OF assms(2)]
  have j: "journalInv E Q T0 (rwTable w) (rwCalls w') (rwJournal w)"
    using assms(1) o journalInv_later [of E Q T0 "rwTable w" "rwCalls w"] by (auto simp: routeInv_def)
  have "journalInv E Q T0 (rwTable w') (rwCalls w') (rwJournal w')"
    using j o journalInv_delete [OF j assms(3)] by (simp split: if_splits)
  then show ?thesis using o assms(1) by (auto simp: routeInv_def openTransition_def)
qed

lemma routeInv_read:
  assumes "routeInv E Q T0 w" and "opRead F p w = (r, w')"
  shows "routeInv E Q T0 w' \<and> rwTable w' = rwTable w \<and> rwTransition w' = rwTransition w \<and> rwJournal w' = rwJournal w"
  using routeInv_same [OF assms(1), of "called w"] opRead_result [OF assms(2)] by simp

lemma routeInv_called: "routeInv E Q T0 w \<Longrightarrow> routeInv E Q T0 (called w)"
  by (erule routeInv_same) simp_all

lemma routeInv_load:
  assumes "routeInv E Q T0 w" and "journalLoad E w = (r, w')"
  shows "routeInv E Q T0 w' \<and> rwTable w' = rwTable w \<and> rwTransition w' = rwTransition w \<and> rwJournal w' = rwJournal w"
  using routeInv_called [OF assms(1)] journalLoad_result [OF assms(2)] by simp

lemma routeInv_unlock:
  assumes "routeInv E Q T0 w" and "journalUnlock E w = (r, w')"
  shows "routeInv E Q T0 w' \<and> rwTable w' = rwTable w \<and> rwTransition w' = rwTransition w \<and> rwJournal w' = rwJournal w"
  using routeInv_called [OF assms(1)] assms(2) by (auto simp: journalUnlock_def)

lemma routeInv_lock:
  assumes "routeInv E Q T0 w" and "journalLock E w = (r, w')"
  shows "routeInv E Q T0 w' \<and> rwTable w' = rwTable w \<and> rwTransition w' = rwTransition w \<and>
    rwJournal w' = rwJournal w \<and> (\<not> r \<longrightarrow> rwTransition w' = None)"
  using routeInv_same [OF assms(1), of w'] assms(2) by (auto simp: journalLock_def split: if_splits option.splits)

section \<open>The operations of the journal\<close>

text \<open>
  What the code relies on: an interface has an index, an identifier has 128 bits, and the text of a
  prefix parses to the prefix.
\<close>

definition routeEnvOK :: "routeEnv \<Rightarrow> bool" where
  "routeEnvOK E \<longleftrightarrow> reLuid E \<noteq> 0 \<and> reIndex E \<noteq> 0 \<and> (\<forall>i. length (reRandom E i) = 16)"

definition prefixTextOK :: "routeEnv \<Rightarrow> Prefix \<Rightarrow> bool" where
  "prefixTextOK E p \<longleftrightarrow> parsePrefix (reNetip E) (rePrefixText E (Masked p)) = Some (Masked p)"

definition envFor :: "(u64 \<Rightarrow> u32 \<Rightarrow> bool) \<Rightarrow> routeEnv \<Rightarrow> bool" where
  "envFor Q E \<longleftrightarrow> routeEnvOK E \<and> Q (reLuid E) (reIndex E)"

lemma newEntry_valid:
  assumes "routeEnvOK E" and "prefixTextOK E p" and "p = Masked p" and "prefixBits p \<noteq> 0"
  shows "validateEntry E (newWindowsRouteJournalEntry E p (hexEncode (reRandom E i)) st) = Some p"
  using assms
  by (simp add: validateEntry_def validateEntrySignature_def canonicalDestination_def routeEnvOK_def
      prefixTextOK_def newWindowsRouteJournalEntry_def)

lemma prepareLocked_inv:
  assumes "routeInv E Q T0 w" and "prepareLocked E p w = (e, w')" and "rwTransition w = None"
    and "envFor Q E" and "prefixTextOK E p" and "p = Masked p" and "prefixBits p \<noteq> 0"
  shows "routeInv E Q T0 w' \<and> rwTable w' = rwTable w \<and>
    (\<not> e \<longrightarrow> rwTable w (tkey E p) = None \<and> (\<exists>txn. rwTransition w' = Some (p, txn)))"
proof -
  obtain r w1 where r: "opRead E p w = (r, w1)" by fastforce
  note i1 = routeInv_read [OF assms(1) r]
  show ?thesis
  proof (cases "r = None \<or> rsExists (the r)")
    case True
    then show ?thesis using assms(2) r i1 by (cases r) (auto simp: prepareLocked_def)
  next
    case False
    then obtain s where s: "r = Some s" "\<not> rsExists s" by auto
    have absent: "rwTable w (tkey E p) = None" using opRead_result [OF r, of s] s by auto
    obtain l w2 where l: "journalLoad E w1 = (l, w2)" by fastforce
    note i2 = routeInv_load [OF conjunct1 [OF i1] l]
    show ?thesis
    proof (cases "l = None \<or> \<not> destinationFree E p (the l)")
      case True
      then show ?thesis using assms(2) r s l i1 i2 by (cases l) (auto simp: prepareLocked_def)
    next
      case False
      then obtain d where d: "l = Some d" "destinationFree E p d" by auto
      have dj: "d = rwJournal w2" using journalLoad_result [OF l, of d] d(1) by simp
      show ?thesis
      proof (cases "callFails E w2")
        case True
        then show ?thesis using assms(2) r s l d i1 i2 routeInv_called [of E Q T0 w2]
          by (auto simp: prepareLocked_def newTransactionID_def)
      next
        case False
        let ?txn = "hexEncode (reRandom E (rwCalls w2))"
        let ?x = "newWindowsRouteJournalEntry E p ?txn windowsRoutePending"
        let ?d = "d\<lparr>jdEntries := jdEntries d @ [?x]\<rparr>"
        obtain f w4 where sv: "journalSave E ?d (called w2) = (f, w4)" by fastforce
        have v: "validateEntry E ?x = Some p" using newEntry_valid [OF _ assms(5-7)] assms(4) by (simp add: envFor_def)
        have base: "T0 (tkey E p) = None"
          using journalInv_absent [of E Q T0 "rwTable w" "rwCalls w" "rwJournal w"] assms(1) absent
          by (simp add: routeInv_def)
        have good: "goodEntry E Q T0 ?x"
          using validated_row [OF v, of E] base assms(4,6)
          by (auto simp: goodEntry_def validState_def newWindowsRouteJournalEntry_def envFor_def)
        have j: "journalInv E Q T0 (rwTable (called w2)) (rwCalls (called w2)) ?d"
        proof -
          have "journalInv E Q T0 (rwTable w2) (rwCalls w2) d" using conjunct1 [OF i2] dj by (simp add: routeInv_def)
          from journalInv_append [OF this le_refl _ good, of "Suc (rwCalls w2)"] show ?thesis
            by (simp add: newWindowsRouteJournalEntry_def)
        qed
        note i4 = routeInv_save [OF routeInv_called [OF conjunct1 [OF i2]] sv _ j]
        have tr: "rwTransition (called w2) = None" using i1 i2 assms(3) by simp
        show ?thesis
        proof (cases f)
          case True
          then show ?thesis using assms(2) r s l d False sv i1 i2 i4 [OF tr]
            by (auto simp: prepareLocked_def newTransactionID_def)
        next
          case nf: False
          have w': "w' = w4\<lparr>rwTransition := Some (p, ?txn)\<rparr>" and e: "\<not> e"
            using assms(2) r s l d False sv nf by (auto simp: prepareLocked_def newTransactionID_def)
          have jw: "rwJournal w4 = ?d" using i4 [OF tr] nf by simp
          have "openTransition E w'"
            unfolding openTransition_def w' using jw v assms(6)
            by (auto simp: newWindowsRouteJournalEntry_def)
          then show ?thesis using i4 [OF tr] i1 i2 w' absent by (auto simp: routeInv_def)
        qed
      qed
    qed
  qed
qed

lemma journalPrepare_inv:
  assumes "routeInv E Q T0 w" and "journalPrepare E p w = (e, w')"
    and "envFor Q E" and "prefixTextOK E p" and "prefixBits p \<noteq> 0"
  shows "routeInv E Q T0 w' \<and> rwTable w' = rwTable w \<and>
    (\<not> e \<longrightarrow> rwTable w (tkey E p) = None \<and> (\<exists>txn. rwTransition w' = Some (Masked p, txn)))"
proof (cases "callFails E w")
  case True
  then show ?thesis using assms(1,2) routeInv_called by (auto simp: journalPrepare_def)
next
  case False
  obtain l w1 where l: "journalLock E (called w) = (l, w1)" by fastforce
  note i1 = routeInv_lock [OF routeInv_called [OF assms(1)] l]
  have m: "prefixTextOK E (Masked p)" "prefixBits (Masked p) \<noteq> 0"
    using assms(4,5) by (simp_all add: prefixTextOK_def)
  show ?thesis
  proof (cases l)
    case True
    then show ?thesis using assms(2) False l i1 by (simp add: journalPrepare_def)
  next
    case nl: False
    have "prepareLocked E (Masked p) w1 = (e, w')" using assms(2) False l nl by (simp add: journalPrepare_def)
    from prepareLocked_inv [OF conjunct1 [OF i1] this _ assms(3) m(1) _ m(2)] show ?thesis using i1 nl by auto
  qed
qed

lemma own_valid:
  assumes "ownEntry E p txn e" and "validateEntry E e \<noteq> None" and "prefixTextOK E p"
  shows "validateEntry E e = Some (Masked p)"
  using assms
  by (auto simp: ownEntry_def validateEntry_def validateEntrySignature_def canonicalDestination_def prefixTextOK_def
      split: option.splits if_splits)

lemma takeTransition_result:
  assumes "takeTransition p w = (r, w')"
  shows "rwTable w' = rwTable w \<and> rwJournal w' = rwJournal w \<and> rwCalls w' = rwCalls w \<and> rwHung w' = rwHung w \<and>
    (r = None \<longrightarrow> w' = w) \<and>
    (\<forall>txn. r = Some txn \<longrightarrow> rwTransition w = Some (Masked p, txn) \<and> rwTransition w' = None)"
  using assms by (auto simp: takeTransition_def split: option.splits prod.splits if_splits)

lemma routeInv_take:
  assumes "routeInv E Q T0 w" and "takeTransition p w = (r, w')"
  shows "routeInv E Q T0 w' \<and> rwTable w' = rwTable w \<and> rwJournal w' = rwJournal w"
proof -
  note t = takeTransition_result [OF assms(2)]
  have "rwTransition w' = rwTransition w \<or> rwTransition w' = None" using t by (cases r) auto
  then show ?thesis using t routeInv_same [OF assms(1), of w'] by simp
qed

lemma subseq_drop_entry: "subseq (take i xs @ drop (Suc i) xs) xs"
proof -
  have "subseq (drop (Suc i) xs) (drop i xs)"
    using suffix_imp_subseq [OF suffix_drop, of "Suc 0" "drop i xs"] by simp
  then show ?thesis using list_emb_append_mono [of "(=)" "take i xs" "take i xs"] by force
qed

lemma in_dropped:
  assumes "x \<in> set xs" and "x \<notin> set (take i xs @ drop (Suc i) xs)"
  shows "i < length xs \<and> x = xs ! i"
proof -
  have "i < length xs" using assms by (cases "i < length xs") auto
  moreover have "set xs = set (take i xs @ xs ! i # drop (Suc i) xs)"
    using id_take_nth_drop [OF calculation] by simp
  ultimately show ?thesis using assms by auto
qed

lemma routeInv_dropEntry:
  assumes "routeInv E Q T0 w" and "rwTransition w = None" and "validateEntry E (jdEntries (rwJournal w) ! i) = Some p"
    and "rwTable w (tkey E p) \<noteq> Some (routeRowOf E p)" and "journalSave E (dropEntry i (rwJournal w)) w = (f, w')"
  shows "routeInv E Q T0 w' \<and> rwTable w' = rwTable w \<and> rwTransition w' = None"
proof -
  have "journalInv E Q T0 (rwTable w) (rwCalls w) (dropEntry i (rwJournal w))"
    unfolding dropEntry_def
  proof (rule journalInv_subseq)
    show "journalInv E Q T0 (rwTable w) (rwCalls w) (rwJournal w)" using assms(1) by (simp add: routeInv_def)
    show "subseq (take i (jdEntries (rwJournal w)) @ drop (Suc i) (jdEntries (rwJournal w))) (jdEntries (rwJournal w))"
      by (rule subseq_drop_entry)
    show "rwTable w k = T0 k" if "e \<in> set (jdEntries (rwJournal w))"
      and "e \<notin> set (take i (jdEntries (rwJournal w)) @ drop (Suc i) (jdEntries (rwJournal w)))"
      and "coversRow E e (rwTable w) k" for e k
      using validated_uncovered [OF assms(3), of "rwTable w"] assms(4) in_dropped [OF that(1,2)] that(3) by blast
  qed
  then show ?thesis using routeInv_save [OF assms(1,5,2)] by simp
qed

lemma removeRecorded_inv:
  assumes "routeInv E Q T0 w" and "rwTransition w = None" and "i < length (jdEntries (rwJournal w))"
    and "validateEntry E (jdEntries (rwJournal w) ! i) = Some (Masked p)"
    and "removeRecorded E p i (rwJournal w) w = (rb, w')"
  shows "routeInv E Q T0 w' \<and> rwTransition w' = None"
proof -
  obtain r w1 where r: "opRead E p w = (r, w1)" by fastforce
  note i1 = routeInv_read [OF assms(1) r]
  have base: "T0 (tkey E p) = None"
    using journalInv_baseline [OF _ nth_mem [OF assms(3)] assms(4), of Q T0 "rwTable w" "rwCalls w"] assms(1)
    by (simp add: routeInv_def)
  show ?thesis
  proof (cases r)
    case None
    then show ?thesis using assms(2,5) r i1 by (auto simp: removeRecorded_def)
  next
    case (Some st)
    obtain c e w2 where d: "(if rsMatches st then opDelete E p w1 else (False, False, w1)) = (c, e, w2)"
      by (cases "if rsMatches st then opDelete E p w1 else (False, False, w1)")
    have i2: "routeInv E Q T0 w2 \<and> rwTransition w2 = None \<and> rwJournal w2 = rwJournal w \<and>
        (c \<or> \<not> e \<longrightarrow> rwTable w2 (tkey E p) \<noteq> Some (routeRowOf E p))"
    proof (cases "rsMatches st")
      case True
      then show ?thesis using routeInv_delete [OF conjunct1 [OF i1] _ base, of c e w2] d i1 assms(2) by auto
    next
      case False
      then show ?thesis using opRead_result [OF r, of st] Some d i1 assms(2) by auto
    qed
    obtain v w3 where v: "(if \<not> c \<and> e then opRead E p w2 else (Some \<lparr>rsExists = False, rsMatches = False\<rparr>, w2)) = (v, w3)"
      by (cases "if \<not> c \<and> e then opRead E p w2 else (Some \<lparr>rsExists = False, rsMatches = False\<rparr>, w2)")
    have i3: "routeInv E Q T0 w3 \<and> rwTransition w3 = None \<and> rwJournal w3 = rwJournal w \<and>
        (\<forall>x. v = Some x \<longrightarrow> \<not> rsMatches x \<longrightarrow> rwTable w3 (tkey E p) \<noteq> Some (routeRowOf E p))"
    proof (cases "\<not> c \<and> e")
      case True
      then have o: "opRead E p w2 = (v, w3)" using v by simp
      then show ?thesis using routeInv_read [OF conjunct1 [OF i2] o] opRead_result [OF o] i2 by auto
    next
      case False
      then show ?thesis using v i2 by auto
    qed
    show ?thesis
    proof (cases "v = None \<or> rsMatches (the v)")
      case True
      then show ?thesis using assms(5) r Some d v i3 by (cases v) (auto simp: removeRecorded_def)
    next
      case False
      then have "w' = snd (journalSave E (dropEntry i (rwJournal w)) w3)"
        using assms(5) r Some d v by (cases v) (auto simp: removeRecorded_def)
      then have sv: "journalSave E (dropEntry i (rwJournal w3)) w3 = (fst (journalSave E (dropEntry i (rwJournal w3)) w3), w')"
        using i3 by simp
      from routeInv_dropEntry [OF _ _ _ _ sv, of Q T0 "Masked p"] show ?thesis
        using i3 assms(4) False by (auto simp: tkey_Masked)
    qed
  qed
qed

lemma findEntry_inv:
  assumes "routeInv E Q T0 w" and "findEntry P (rwJournal w) = Some (i, e)" and "validateEntry E e = Some p"
  shows "i < length (jdEntries (rwJournal w)) \<and> e \<in> set (jdEntries (rwJournal w)) \<and> P e \<and>
    jdEntries (rwJournal w) ! i = e \<and> T0 (tkey E p) = None"
  using findEntry_result [OF assms(2)] journalInv_baseline [OF _ _ assms(3)] assms(1)
  by (auto simp: routeInv_def)

lemma rollbackFailedRecord_inv:
  assumes "routeInv E Q T0 w" and "rwTransition w = None" and "prefixTextOK E p"
    and "rollbackFailedRecord E p txn w = (rb, w')"
  shows "routeInv E Q T0 w' \<and> rwTransition w' = None"
proof -
  obtain l w1 where l: "journalLoad E w = (l, w1)" by fastforce
  note i1 = routeInv_load [OF assms(1) l]
  show ?thesis
  proof (cases l)
    case None
    then show ?thesis using assms(2,4) l i1 by (auto simp: rollbackFailedRecord_def)
  next
    case (Some d)
    have d: "d = rwJournal w1" using journalLoad_result [OF l, of d] Some by simp
    show ?thesis
    proof (cases "\<exists>i e. findEntry (ownEntry E p txn) d = Some (i, e) \<and> validateEntry E e \<noteq> None \<and>
        removeRecorded E p i d w1 = (rb, w')")
      case True
      then obtain i e where f: "findEntry (ownEntry E p txn) d = Some (i, e)" "validateEntry E e \<noteq> None"
        "removeRecorded E p i d w1 = (rb, w')" by blast
      have v: "validateEntry E e = Some (Masked p)"
        using own_valid [OF _ f(2) assms(3)] findEntry_result [OF f(1)] by blast
      show ?thesis
        using removeRecorded_inv [of E Q T0 w1 i p rb w'] findEntry_result [OF f(1)] i1 assms(2) d f(3) v by auto
    next
      case False
      then show ?thesis using assms(2,4) l Some i1
        by (auto simp: rollbackFailedRecord_def split: option.splits prod.splits if_splits)
    qed
  qed
qed

lemma recordLocked_inv:
  assumes "routeInv E Q T0 w" and "rwTransition w = None" and "prefixTextOK E p"
    and "recordLocked E p txn w = (e, rb, w')"
  shows "routeInv E Q T0 w' \<and> rwTransition w' = None"
proof -
  obtain l w1 where l: "journalLoad E w = (l, w1)" by fastforce
  note i1 = routeInv_load [OF assms(1) l]
  show ?thesis
  proof (cases "\<exists>d i x. l = Some d \<and> findEntry (ownEntry E p txn) d = Some (i, x) \<and> validateEntry E x \<noteq> None \<and>
      jeState x = windowsRoutePending")
    case False
    then have "w' = w1" using assms(4) l
      by (auto simp: recordLocked_def split: option.splits prod.splits if_splits)
    then show ?thesis using i1 assms(2) by auto
  next
    case True
    then obtain d i x where x: "l = Some d" "findEntry (ownEntry E p txn) d = Some (i, x)" "validateEntry E x \<noteq> None"
      "jeState x = windowsRoutePending" by blast
    have d: "d = rwJournal w1" using journalLoad_result [OF l, of d] x(1) by simp
    obtain f w2 where sv: "journalSave E (setEntryState i windowsRouteActive d) w1 = (f, w2)" by fastforce
    have j: "journalInv E Q T0 (rwTable w1) (rwCalls w1) (setEntryState i windowsRouteActive d)"
      using journalInv_setEntryState [of E Q T0 "rwTable w1" "rwCalls w1" d i] i1 d findEntry_result [OF x(2)]
      by (auto simp: routeInv_def validState_def)
    have tr: "rwTransition w1 = None" using i1 assms(2) by auto
    note i2 = routeInv_save [OF conjunct1 [OF i1] sv tr j]
    show ?thesis
    proof (cases f)
      case True
      then have "rollbackFailedRecord E p txn w2 = (rb, w')"
        using assms(4) l x sv by (auto simp: recordLocked_def split: prod.splits)
      then show ?thesis using rollbackFailedRecord_inv [OF conjunct1 [OF i2] _ assms(3)] i2 by auto
    next
      case False
      then show ?thesis using assms(4) l x sv i2 by (auto simp: recordLocked_def)
    qed
  qed
qed

lemma journalRecord_inv:
  assumes "routeInv E Q T0 w" and "prefixTextOK E p" and "journalRecord E p w = (e, rb, w')"
  shows "routeInv E Q T0 w'"
proof -
  obtain t w1 where t: "takeTransition p w = (t, w1)" by fastforce
  note i1 = routeInv_take [OF assms(1) t]
  show ?thesis
  proof (cases t)
    case None
    then show ?thesis using assms(3) t i1 by (auto simp: journalRecord_def)
  next
    case (Some txn)
    obtain x y w2 where r: "recordLocked E p txn w1 = (x, y, w2)" by (cases "recordLocked E p txn w1") auto
    obtain u w3 where u: "journalUnlock E w2 = (u, w3)" by fastforce
    have "w' = w3" using assms(3) t Some r u by (auto simp: journalRecord_def)
    moreover have "rwTransition w1 = None" using takeTransition_result [OF t] Some by simp
    ultimately show ?thesis
      using recordLocked_inv [OF conjunct1 [OF i1] _ assms(2) r] routeInv_unlock [OF _ u] by blast
  qed
qed

lemma prepareDeletionLocked_inv:
  assumes "routeInv E Q T0 w" and "rwTransition w = None" and "prefixTextOK E p" and "p = Masked p"
    and "prepareDeletionLocked E p w = (e, w')"
  shows "routeInv E Q T0 w' \<and> rwTable w' = rwTable w \<and>
    (\<not> e \<longrightarrow> T0 (tkey E p) = None \<and> (\<exists>txn. rwTransition w' = Some (p, txn)))"
proof -
  let ?P = "\<lambda>entry. jeInterfaceLUID entry = reLuid E \<and> jeDestination entry = rePrefixText E p"
  obtain l w1 where l: "journalLoad E w = (l, w1)" by fastforce
  note i1 = routeInv_load [OF assms(1) l]
  show ?thesis
  proof (cases "\<not> ctxDone E w \<and> (\<exists>d i x. l = Some d \<and> findEntry ?P d = Some (i, x) \<and> validateEntry E x \<noteq> None \<and>
      (jeState x = windowsRouteActive \<or> jeState x = windowsRouteDeleting))")
    case False
    then have "(w' = w1 \<or> w' = w) \<and> e" using assms(5) l
      by (auto simp: prepareDeletionLocked_def split: option.splits prod.splits if_splits)
    then show ?thesis using i1 assms(1) by auto
  next
    case True
    then obtain d i x where x: "\<not> ctxDone E w" "l = Some d" "findEntry ?P d = Some (i, x)" "validateEntry E x \<noteq> None"
      "jeState x = windowsRouteActive \<or> jeState x = windowsRouteDeleting" by blast
    have d: "d = rwJournal w1" using journalLoad_result [OF l, of d] x(2) by simp
    have own: "ownEntry E p (jeTransactionID x) x"
      using findEntry_result [OF x(3)] assms(4) by (auto simp: ownEntry_def)
    have v: "validateEntry E x = Some p" using own_valid [OF own x(4) assms(3)] assms(4) by simp
    note fi = findEntry_inv [OF conjunct1 [OF i1] _ v, of ?P i]
    obtain f w2 where sv: "journalSave E (setEntryState i windowsRouteDeleting d) w1 = (f, w2)" by fastforce
    have j: "journalInv E Q T0 (rwTable w1) (rwCalls w1) (setEntryState i windowsRouteDeleting d)"
      using journalInv_setEntryState [of E Q T0 "rwTable w1" "rwCalls w1" d i] i1 d findEntry_result [OF x(3)]
      by (auto simp: routeInv_def validState_def)
    have tr: "rwTransition w1 = None" using i1 assms(2) by auto
    note i2 = routeInv_save [OF conjunct1 [OF i1] sv tr j]
    show ?thesis
    proof (cases f)
      case True
      then show ?thesis using assms(5) l x sv i1 i2 by (auto simp: prepareDeletionLocked_def)
    next
      case False
      have w': "w' = w2\<lparr>rwTransition := Some (p, jeTransactionID x)\<rparr>" "\<not> e"
        using assms(5) l x sv False by (auto simp: prepareDeletionLocked_def)
      have ij: "i < length (jdEntries d)" "jdEntries d ! i = x" using findEntry_result [OF x(3)] by auto
      have mem: "x\<lparr>jeState := windowsRouteDeleting\<rparr> \<in> set (jdEntries (rwJournal w2))"
        using i2 False ij by (simp add: setEntryState_def set_update_memI)
      have "validateEntry E (x\<lparr>jeState := windowsRouteDeleting\<rparr>) = Some p"
        using v by (auto simp: validateEntry_def split: option.splits if_splits)
      then have "openTransition E w'" unfolding openTransition_def w'
        using mem findEntry_result [OF x(3)] assms(4)
        by (auto intro!: bexI [of _ "x\<lparr>jeState := windowsRouteDeleting\<rparr>"])
      then show ?thesis using i1 i2 w' fi x(3) d by (auto simp: routeInv_def)
    qed
  qed
qed

lemma releaseLocked_inv:
  assumes "routeInv E Q T0 w" and "rwTransition w = None" and "releaseLocked E p txn w = (e, w')"
    and "x \<in> set (jdEntries (rwJournal w))" and "jeTransactionID x = txn" and "validateEntry E x = Some q"
    and "rwTable w (tkey E q) \<noteq> Some (routeRowOf E q)"
  shows "routeInv E Q T0 w' \<and> rwTransition w' = None \<and> rwTable w' = rwTable w"
proof -
  obtain l w1 where l: "journalLoad E w = (l, w1)" by fastforce
  note i1 = routeInv_load [OF assms(1) l]
  show ?thesis
  proof (cases l)
    case None
    then show ?thesis using assms(2,3) l i1 by (auto simp: releaseLocked_def)
  next
    case (Some d)
    let ?P = "\<lambda>entry. \<not> ownEntry E p txn entry"
    have d: "d = rwJournal w" "distinct (map jeTransactionID (jdEntries d))"
      using journalLoad_result [OF l, of d] Some by auto
    have sv: "journalSave E (d\<lparr>jdEntries := filter ?P (jdEntries d)\<rparr>) w1 = (e, w')"
      using assms(3) l Some by (simp add: releaseLocked_def)
    have j: "journalInv E Q T0 (rwTable w1) (rwCalls w1) d" using i1 d by (auto simp: routeInv_def)
    have "journalInv E Q T0 (rwTable w1) (rwCalls w1) (d\<lparr>jdEntries := filter ?P (jdEntries d)\<rparr>)"
    proof (rule journalInv_subseq [OF j subseq_filter_left])
      show "rwTable w1 k = T0 k" if "y \<in> set (jdEntries d)" "y \<notin> set (filter ?P (jdEntries d))"
        and "coversRow E y (rwTable w1) k" for y k
      proof -
        have "jeTransactionID y = txn" using that(1,2) by (simp add: ownEntry_def)
        then have "y = x" using d assms(4,5) that(1) by (auto simp: distinct_map inj_on_def)
        then show ?thesis using validated_uncovered [OF assms(6), of "rwTable w"] assms(7) that(3) i1 by auto
      qed
    qed
    from routeInv_save [OF conjunct1 [OF i1] sv _ this] show ?thesis using i1 assms(2) by auto
  qed
qed

lemma journalRelease_inv:
  assumes "routeInv E Q T0 w" and "rwTable w (tkey E p) \<noteq> Some (routeRowOf E p)" and "journalRelease E p w = (e, w')"
  shows "routeInv E Q T0 w' \<and> rwTable w' = rwTable w"
proof -
  obtain t w1 where t: "takeTransition p w = (t, w1)" by fastforce
  note i1 = routeInv_take [OF assms(1) t]
  show ?thesis
  proof (cases t)
    case None
    then show ?thesis using assms(3) t i1 by (auto simp: journalRelease_def)
  next
    case (Some txn)
    have tr: "rwTransition w = Some (Masked p, txn)" "rwTransition w1 = None"
      using takeTransition_result [OF t] Some by auto
    obtain x where x: "x \<in> set (jdEntries (rwJournal w))" "jeTransactionID x = txn"
      "validateEntry E x = Some (Masked p)"
      using assms(1) tr(1) unfolding routeInv_def openTransition_def by blast
    obtain f w2 where r: "releaseLocked E p txn w1 = (f, w2)" by fastforce
    obtain u w3 where u: "journalUnlock E w2 = (u, w3)" by fastforce
    have "w' = w3" using assms(3) t Some r u by (auto simp: journalRelease_def)
    moreover have "routeInv E Q T0 w2 \<and> rwTable w2 = rwTable w1"
      using releaseLocked_inv [OF conjunct1 [OF i1] tr(2) r _ x(2,3)] x(1) i1 assms(2) by auto
    ultimately show ?thesis using routeInv_unlock [OF _ u] i1 by auto
  qed
qed

lemma journalPrepareDeletion_inv:
  assumes "routeInv E Q T0 w" and "prefixTextOK E p" and "journalPrepareDeletion E p w = (e, w')"
  shows "routeInv E Q T0 w' \<and> rwTable w' = rwTable w \<and>
    (\<not> e \<longrightarrow> T0 (tkey E p) = None \<and> (\<exists>txn. rwTransition w' = Some (Masked p, txn)))"
proof (cases "callFails E w")
  case True
  then show ?thesis using assms(1,3) routeInv_called by (auto simp: journalPrepareDeletion_def)
next
  case False
  obtain l w1 where l: "journalLock E (called w) = (l, w1)" by fastforce
  note i1 = routeInv_lock [OF routeInv_called [OF assms(1)] l]
  have m: "prefixTextOK E (Masked p)" using assms(2) by (simp add: prefixTextOK_def)
  show ?thesis
  proof (cases l)
    case True
    then show ?thesis using assms(3) False l i1 by (simp add: journalPrepareDeletion_def)
  next
    case nl: False
    have "prepareDeletionLocked E (Masked p) w1 = (e, w')"
      using assms(3) False l nl by (simp add: journalPrepareDeletion_def)
    from prepareDeletionLocked_inv [OF conjunct1 [OF i1] _ m _ this] show ?thesis using i1 nl by auto
  qed
qed

section \<open>Rollback and installation\<close>

lemma rollbackDelete_inv:
  assumes "routeInv E Q T0 w" and "prefixTextOK E p" and "T0 (tkey E p) = None"
    and "rollbackDelete E p w = (keep, e, w')"
  shows "routeInv E Q T0 w'"
proof -
  obtain c de w1 where d: "opDelete E p w = (c, de, w1)" by (cases "opDelete E p w") auto
  note i1 = routeInv_delete [OF assms(1) d assms(3)]
  show ?thesis
  proof (cases "c \<or> \<not> de")
    case True
    obtain f w2 where r: "journalRelease E p w1 = (f, w2)" by fastforce
    have "w' = w2" using assms(4) d True r by (auto simp: rollbackDelete_def)
    then show ?thesis using journalRelease_inv [OF conjunct1 [OF i1] _ r] i1 True by auto
  next
    case False
    obtain v w2 where v: "opRead E p w1 = (v, w2)" by fastforce
    note i2 = routeInv_read [OF conjunct1 [OF i1] v]
    consider "v = None" | s where "v = Some s" "rsMatches s" | s where "v = Some s" "\<not> rsMatches s" by fastforce
    then show ?thesis
    proof cases
      case 1
      then show ?thesis using assms(4) d False v i2 by (auto simp: rollbackDelete_def)
    next
      case 2
      obtain x y w3 where r: "journalRecord E p w2 = (x, y, w3)" by (cases "journalRecord E p w2") auto
      then have "w' = w3" using assms(4) d False v 2 by (auto simp: rollbackDelete_def)
      then show ?thesis using journalRecord_inv [OF conjunct1 [OF i2] assms(2) r] by simp
    next
      case 3
      obtain f w3 where r: "journalRelease E p w2 = (f, w3)" by fastforce
      have "rwTable w2 (tkey E p) \<noteq> Some (routeRowOf E p)" using opRead_result [OF v, of s] 3 by auto
      moreover have "w' = w3" using assms(4) d False v 3 r by (auto simp: rollbackDelete_def)
      ultimately show ?thesis using journalRelease_inv [OF conjunct1 [OF i2] _ r] by simp
    qed
  qed
qed

lemma rollbackOne_inv:
  assumes "routeInv E Q T0 w" and "prefixTextOK E p" and "rollbackOne E p w = (keep, e, w')"
  shows "routeInv E Q T0 w'"
proof -
  obtain f w1 where d: "journalPrepareDeletion E p w = (f, w1)" by fastforce
  note i1 = journalPrepareDeletion_inv [OF assms(1,2) d]
  show ?thesis
  proof (cases f)
    case True
    then show ?thesis using assms(3) d i1 by (auto simp: rollbackOne_def)
  next
    case False
    obtain v w2 where v: "opRead E p w1 = (v, w2)" by fastforce
    note i2 = routeInv_read [OF conjunct1 [OF i1] v]
    consider "v = None" | s where "v = Some s" "rsMatches s" | s where "v = Some s" "\<not> rsMatches s" by fastforce
    then show ?thesis
    proof cases
      case 1
      obtain x y w3 where r: "journalRecord E p w2 = (x, y, w3)" by (cases "journalRecord E p w2") auto
      then have "w' = w3" using assms(3) d False v 1 by (auto simp: rollbackOne_def)
      then show ?thesis using journalRecord_inv [OF conjunct1 [OF i2] assms(2) r] by simp
    next
      case 2
      then have "rollbackDelete E p w2 = (keep, e, w')" using assms(3) d False v by (auto simp: rollbackOne_def)
      then show ?thesis using rollbackDelete_inv [OF conjunct1 [OF i2] assms(2)] i1 False by blast
    next
      case 3
      obtain g w3 where r: "journalRelease E p w2 = (g, w3)" by fastforce
      have "rwTable w2 (tkey E p) \<noteq> Some (routeRowOf E p)" using opRead_result [OF v, of s] 3 by auto
      moreover have "w' = w3" using assms(3) d False v 3 r by (auto simp: rollbackOne_def)
      ultimately show ?thesis using journalRelease_inv [OF conjunct1 [OF i2] _ r] by simp
    qed
  qed
qed

lemma rollbackLoop_inv:
  assumes "routeInv E Q T0 w" and "\<forall>p \<in> set ps. prefixTextOK E p" and "rollbackLoop E ps w = (rest, e, w')"
  shows "routeInv E Q T0 w' \<and> set rest \<subseteq> set ps"
  using assms
proof (induction ps arbitrary: w rest e w')
  case (Cons p ps)
  obtain k f w1 where o: "rollbackOne E p w = (k, f, w1)" by (cases "rollbackOne E p w") auto
  obtain r g w2 where l: "rollbackLoop E ps w1 = (r, g, w2)" by (cases "rollbackLoop E ps w1") auto
  have "routeInv E Q T0 w1" using rollbackOne_inv [OF Cons.prems(1) _ o] Cons.prems(2) by simp
  from Cons.IH [OF this _ l] show ?case using Cons.prems(2,3) o l by (auto split: if_splits)
qed simp

lemma txnRollback_inv:
  assumes "routeInv E Q T0 w" and "\<forall>p \<in> set (txInstalled t). prefixTextOK E p" and "txnRollback E t w = (e, t', w')"
  shows "routeInv E Q T0 w' \<and> set (txInstalled t') \<subseteq> set (txInstalled t)"
proof (cases "txOp t")
  case True
  obtain r f w1 where l: "rollbackLoop E (rev (txInstalled t)) w = (r, f, w1)"
    by (cases "rollbackLoop E (rev (txInstalled t)) w") auto
  have "routeInv E Q T0 w1 \<and> set r \<subseteq> set (txInstalled t)" using rollbackLoop_inv [OF assms(1) _ l] assms(2) by simp
  then show ?thesis using assms(3) True l routeInv_called [of E Q T0 w1]
    by (auto simp: txnRollback_def Let_def split: if_splits)
qed (use assms in \<open>simp add: txnRollback_def\<close>)

lemma opAdd_Masked [simp]: "opAdd E (Masked p) = opAdd E p"
  by (intro ext) (simp add: opAdd_def)

definition stepWorld :: "install_step \<Rightarrow> routeWorld" where
  "stepWorld s = (case s of InstallNext ps w \<Rightarrow> w | InstallFails ps w \<Rightarrow> w)"

definition stepInstalled :: "install_step \<Rightarrow> Prefix list" where
  "stepInstalled s = (case s of InstallNext ps w \<Rightarrow> ps | InstallFails ps w \<Rightarrow> ps)"

lemma step_simps [simp]:
  "stepWorld (InstallNext ps w) = w" "stepWorld (InstallFails ps w) = w"
  "stepInstalled (InstallNext ps w) = ps" "stepInstalled (InstallFails ps w) = ps"
  by (simp_all add: stepWorld_def stepInstalled_def)

lemma afterAdd_inv:
  assumes "routeInv E Q T0 w" and "\<not> c \<longrightarrow> rwTable w (tkey E p) \<noteq> Some (routeRowOf E p)"
  shows "routeInv E Q T0 (stepWorld (afterAdd E p c ae ps w)) \<and> stepInstalled (afterAdd E p c ae ps w) = ps"
proof -
  obtain r w1 where r: "opRead E p w = (r, w1)" by fastforce
  note i1 = routeInv_read [OF assms(1) r]
  obtain f w2 where l: "(if \<not> c then journalRelease E p w1 else (False, w1)) = (f, w2)" by fastforce
  have "routeInv E Q T0 w2" using journalRelease_inv [OF conjunct1 [OF i1], of p f w2] i1 l assms(2)
    by (cases c) auto
  then show ?thesis using r l by (cases f; cases r) (auto simp: afterAdd_def)
qed

lemma addRoute_inv:
  assumes "routeInv E Q T0 w" and "rwTransition w = Some (Masked p, txn)" and "prefixTextOK E p"
    and "rwTable w (tkey E p) = None"
  shows "routeInv E Q T0 (stepWorld (addRoute E p ps w)) \<and> set (stepInstalled (addRoute E p ps w)) \<subseteq> insert p (set ps)"
proof -
  obtain c e w1 where a: "opAdd E p w = (c, e, w1)" by (cases "opAdd E p w") auto
  obtain x where x: "x \<in> set (jdEntries (rwJournal w))" "validateEntry E x = Some (Masked p)"
    using assms(1,2) unfolding routeInv_def openTransition_def by blast
  have i1: "routeInv E Q T0 w1" using routeInv_add [OF assms(1) _ x, of c e w1] a by simp
  show ?thesis
  proof (cases c)
    case True
    obtain f rb w2 where r: "journalRecord E p w1 = (f, rb, w2)" by (cases "journalRecord E p w1") auto
    have i2: "routeInv E Q T0 w2" by (rule journalRecord_inv [OF i1 assms(3) r])
    then show ?thesis using a True r afterAdd_inv [OF i2, of True]
      by (cases f) (auto simp: addRoute_def)
  next
    case False
    then have "rwTable w1 (tkey E p) = None" using opAdd_result [OF a] assms(4) by simp
    then show ?thesis using a False afterAdd_inv [OF i1, of False p] by (auto simp: addRoute_def)
  qed
qed

definition plannable :: "routeEnv \<Rightarrow> Prefix \<Rightarrow> bool" where
  "plannable E p \<longleftrightarrow> prefixTextOK E p \<and> prefixBits p \<noteq> 0"

lemma installOne_inv:
  assumes "routeInv E Q T0 w" and "envFor Q E" and "plannable E p"
  shows "routeInv E Q T0 (stepWorld (installOne E p ps w)) \<and> set (stepInstalled (installOne E p ps w)) \<subseteq> insert p (set ps)"
proof (cases "ctxDone E w")
  case True
  then show ?thesis using assms(1) by (auto simp: installOne_def)
next
  case False
  obtain r w1 where r: "opRead E p w = (r, w1)" by fastforce
  note i1 = routeInv_read [OF assms(1) r]
  show ?thesis
  proof (cases "r = None \<or> rsExists (the r)")
    case True
    then show ?thesis using False r i1 by (cases r) (auto simp: installOne_def)
  next
    case nr: False
    obtain f w2 where pr: "journalPrepare E p w1 = (f, w2)" by fastforce
    note i2 = journalPrepare_inv [OF conjunct1 [OF i1] pr assms(2)]
    have ok: "prefixTextOK E p" "prefixBits p \<noteq> 0" using assms(3) by (auto simp: plannable_def)
    have eq: "installOne E p ps w = (if f then InstallFails ps w2 else addRoute E p ps w2)"
      using False r nr pr by (cases r) (auto simp: installOne_def split: bool.split)
    show ?thesis
    proof (cases f)
      case True
      then show ?thesis using eq i2 [OF ok] by auto
    next
      case False
      then obtain txn where "rwTransition w2 = Some (Masked p, txn)" using i2 [OF ok] by blast
      from addRoute_inv [OF _ this ok(1)] show ?thesis using eq False i2 [OF ok] by auto
    qed
  qed
qed

lemma installLoop_inv:
  assumes "routeInv E Q T0 w" and "envFor Q E" and "\<forall>p \<in> set plan. plannable E p"
  shows "routeInv E Q T0 (stepWorld (installLoop E plan ps w)) \<and>
    set (stepInstalled (installLoop E plan ps w)) \<subseteq> set ps \<union> set plan"
  using assms(1,3)
proof (induction plan arbitrary: ps w)
  case (Cons p plan)
  have o: "routeInv E Q T0 (stepWorld (installOne E p ps w)) \<and>
      set (stepInstalled (installOne E p ps w)) \<subseteq> insert p (set ps)"
    using installOne_inv [OF Cons.prems(1) assms(2)] Cons.prems(2) by simp
  show ?case
  proof (cases "installOne E p ps w")
    case (InstallNext qs w1)
    then show ?thesis using o Cons.IH [of w1 qs] Cons.prems(2) by auto
  next
    case (InstallFails qs w1)
    then show ?thesis using o by auto
  qed
qed simp

lemma installRouteTransaction_inv:
  assumes "routeInv E Q T0 w" and "envFor Q E" and "\<forall>p \<in> set plan. plannable E p"
    and "installRouteTransaction E plan w = (res, w')"
  shows "routeInv E Q T0 w' \<and> (\<forall>t. res = Inr t \<longrightarrow> set (txInstalled t) \<subseteq> set plan)"
proof -
  note i = installLoop_inv [OF assms(1-3), of "[]"]
  show ?thesis
  proof (cases "installLoop E plan [] w")
    case (InstallNext ps w1)
    then show ?thesis using i assms(4) by (auto simp: installRouteTransaction_def)
  next
    case (InstallFails ps w1)
    obtain e t w2 where r: "txnRollback E \<lparr>txOp = True, txInstalled = ps\<rparr> w1 = (e, t, w2)"
      by (cases "txnRollback E \<lparr>txOp = True, txInstalled = ps\<rparr> w1") auto
    have "routeInv E Q T0 w2"
      using txnRollback_inv [OF _ _ r] i assms(3) InstallFails by (auto simp: plannable_def)
    then show ?thesis using InstallFails r assms(4) by (auto simp: installRouteTransaction_def)
  qed
qed

section \<open>Recovery\<close>

lemma journalInv_drop_head:
  assumes "journalInv E Q T0 tbl n \<lparr>jdVersion = v, jdEntries = xs @ e # ys\<rparr>"
    and "validateEntrySignature E e = Some p"
    and "tbl (tkey (ownerOf E e) p) \<noteq> Some (routeRowOf (ownerOf E e) p)"
  shows "journalInv E Q T0 tbl n \<lparr>jdVersion = v, jdEntries = xs @ ys\<rparr>"
proof -
  have "subseq (xs @ ys) (jdEntries \<lparr>jdVersion = v, jdEntries = xs @ e # ys\<rparr>)"
    using list_emb_append_mono [of "(=)" xs xs ys "e # ys"] by (simp add: list_emb_Cons)
  from journalInv_subseq [OF assms(1) this] show ?thesis using assms(2,3) by (auto simp: coversRow_def)
qed

lemma recoverDelete_inv:
  assumes "routeInv E Q T0 w" and "rwTransition w = None" and "T0 (tkey F p) = None"
    and "recoverDelete F p w = (keep, e, w')" and "journalInv E Q T0 (rwTable w) (rwCalls w) d"
  shows "routeInv E Q T0 w' \<and> rwTransition w' = None \<and> journalInv E Q T0 (rwTable w') (rwCalls w') d \<and>
    (\<not> keep \<longrightarrow> rwTable w' (tkey F p) \<noteq> Some (routeRowOf F p))"
proof -
  obtain c de w1 where d: "opDelete F p w = (c, de, w1)" by (cases "opDelete F p w") auto
  note i1 = routeInv_delete [OF assms(1) d assms(3)]
  note o = opDelete_result [OF d]
  have j: "journalInv E Q T0 (rwTable w1) (rwCalls w1) d"
    using journalInv_later [OF assms(5), of "rwCalls w1"] journalInv_delete [of E Q T0 "rwTable w" "rwCalls w1" d, OF _ assms(3)] o
    by (simp split: if_splits)
  show ?thesis
  proof (cases "c \<or> \<not> de")
    case True
    then show ?thesis using assms(2,4) d i1 j by (auto simp: recoverDelete_def)
  next
    case False
    obtain v w2 where v: "opRead F p w1 = (v, w2)" by fastforce
    note i2 = routeInv_read [OF conjunct1 [OF i1] v]
    have "journalInv E Q T0 (rwTable w2) (rwCalls w2) d"
      using journalInv_later [OF j, of "rwCalls w2"] opRead_result [OF v] by simp
    then show ?thesis using assms(2,4) d False v i1 i2 opRead_result [OF v]
      by (cases v) (auto simp: recoverDelete_def)
  qed
qed

text \<open>The loop keeps two things: the stored journal, and the list it is going to store.\<close>

definition loopInv :: "routeEnv \<Rightarrow> (u64 \<Rightarrow> u32 \<Rightarrow> bool) \<Rightarrow> routeTable \<Rightarrow> nat \<Rightarrow> windowsRouteJournalEntry list \<Rightarrow> routeWorld \<Rightarrow> bool" where
  "loopInv E Q T0 v es w \<longleftrightarrow> routeInv E Q T0 w \<and> rwTransition w = None \<and>
     journalInv E Q T0 (rwTable w) (rwCalls w) \<lparr>jdVersion = v, jdEntries = es\<rparr>"

lemma loopInv_called: "loopInv E Q T0 v es w \<Longrightarrow> loopInv E Q T0 v es (called w)"
  by (auto simp: loopInv_def routeInv_called intro: journalInv_later)

lemma loopInv_read: "loopInv E Q T0 v es w \<Longrightarrow> opRead F p w = (r, w') \<Longrightarrow> loopInv E Q T0 v es w' \<and> rwTable w' = rwTable w"
  using opRead_result [of F p w r w'] loopInv_called by auto

lemma loopInv_stage:
  assumes "loopInv E Q T0 v (xs @ e # ys) w" and "journalStage E v xs e ys w = (f, w')"
  shows "loopInv E Q T0 v (xs @ e # ys) w'"
proof -
  have sv: "journalSave E \<lparr>jdVersion = v, jdEntries = xs @ e # ys\<rparr> w = (f, w')"
    using assms(2) by (simp add: journalStage_def)
  have l: "routeInv E Q T0 w" "rwTransition w = None"
    "journalInv E Q T0 (rwTable w) (rwCalls w) \<lparr>jdVersion = v, jdEntries = xs @ e # ys\<rparr>"
    using assms(1) by (auto simp: loopInv_def)
  note r = routeInv_save [OF l(1) sv l(2,3)]
  show ?thesis
    using r journalSave_result [OF sv] journalInv_later [OF l(3), of "rwCalls w'"] by (auto simp: loopInv_def)
qed

lemma loopInv_state:
  assumes "loopInv E Q T0 v (xs @ e # ys) w" and "validState st"
  shows "loopInv E Q T0 v (xs @ e\<lparr>jeState := st\<rparr> # ys) w"
  using assms journalInv_state by (auto simp: loopInv_def)

lemma loopInv_drop:
  assumes "loopInv E Q T0 v (xs @ e # ys) w" and "validateEntrySignature E e = Some p"
    and "rwTable w (tkey (ownerOf E e) p) \<noteq> Some (routeRowOf (ownerOf E e) p)"
  shows "loopInv E Q T0 v (xs @ ys) w"
  using assms journalInv_drop_head [of E Q T0 "rwTable w" "rwCalls w" v xs e ys p] by (auto simp: loopInv_def)

lemma loopInv_baseline:
  assumes "loopInv E Q T0 v (xs @ e # ys) w" and "validateEntrySignature E e = Some p"
  shows "T0 (tkey (ownerOf E e) p) = None"
  using assms by (auto simp: loopInv_def journalInv_def goodEntry_def)

text \<open>The claim of a pending route, and the staging of its deletion.\<close>

definition claimEntry :: "routeEnv \<Rightarrow> nat \<Rightarrow> windowsRouteJournalEntry list \<Rightarrow> windowsRouteJournalEntry \<Rightarrow>
    windowsRouteJournalEntry list \<Rightarrow> routeWorld \<Rightarrow> bool \<times> windowsRouteJournalEntry \<times> routeWorld" where
  "claimEntry E v xs e ys w =
     (if jeState e = windowsRoutePending
      then (case journalStage E v xs (e\<lparr>jeState := windowsRouteActive\<rparr>) ys w of
              (failed, w) \<Rightarrow> (failed, e\<lparr>jeState := windowsRouteActive\<rparr>, w))
      else (False, e, w))"

lemma claimEntry_inv:
  assumes "loopInv E Q T0 v (xs @ e # ys) w" and "claimEntry E v xs e ys w = (f, e', w')"
  shows "loopInv E Q T0 v (xs @ e' # ys) w' \<and> validateEntrySignature E e' = validateEntrySignature E e \<and>
    ownerOf E e' = ownerOf E e"
proof (cases "jeState e = windowsRoutePending")
  case True
  let ?a = "e\<lparr>jeState := windowsRouteActive\<rparr>"
  have "loopInv E Q T0 v (xs @ ?a # ys) w" using loopInv_state [OF assms(1)] by (simp add: validState_def)
  from loopInv_stage [OF this, of f w'] show ?thesis
    using assms(2) True by (auto simp: claimEntry_def split: prod.splits)
qed (use assms in \<open>simp add: claimEntry_def\<close>)

lemma reconcileEntry_unfold:
  "reconcileEntry E v xs e ys w =
     (case recoverable E e w of
        (None, w) \<Rightarrow> ([e], True, w)
      | (Some False, w) \<Rightarrow> ([e], False, w)
      | (Some True, w) \<Rightarrow>
          (case validateEntrySignature E e of
             None \<Rightarrow> ([e], True, w)
           | Some p \<Rightarrow>
               (case opRead (ownerOf E e) p w of
                  (None, w) \<Rightarrow> ([e], True, w)
                | (Some state, w) \<Rightarrow>
                    if \<not> rsMatches state then ([], False, w)
                    else (case claimEntry E v xs e ys w of
                            (True, e, w) \<Rightarrow> ([e], True, w)
                          | (False, e, w) \<Rightarrow>
                              (case journalStage E v xs (e\<lparr>jeState := windowsRouteDeleting\<rparr>) ys w of
                                 (True, w) \<Rightarrow> ([e\<lparr>jeState := windowsRouteDeleting\<rparr>], True, w)
                               | (False, w) \<Rightarrow>
                                   (case recoverDelete (ownerOf E (e\<lparr>jeState := windowsRouteDeleting\<rparr>)) p w of
                                      (keep, d, w) \<Rightarrow>
                                        (if keep then [e\<lparr>jeState := windowsRouteDeleting\<rparr>] else [], d, w)))))))"
  by (simp only: reconcileEntry_def claimEntry_def Let_def)

lemma recoverable_world: "recoverable E e w = (r, w') \<Longrightarrow> w' = w \<or> w' = called w"
  by (auto simp: recoverable_def split: if_splits)

lemma reconcileEntry_inv:
  assumes "loopInv E Q T0 v (xs @ e # ys) w" and "reconcileEntry E v xs e ys w = (stays, f, w')"
  shows "loopInv E Q T0 v ((xs @ stays) @ ys) w'"
proof -
  obtain r w1 where r: "recoverable E e w = (r, w1)" by fastforce
  have i1: "loopInv E Q T0 v (xs @ e # ys) w1"
    using recoverable_world [OF r] assms(1) loopInv_called by auto
  show ?thesis
  proof (cases "r = Some True \<and> validateEntrySignature E e \<noteq> None")
    case False
    then have "stays = [e] \<and> w' = w1"
      using assms(2) r by (auto simp: reconcileEntry_unfold split: option.splits bool.splits)
    then show ?thesis using i1 by simp
  next
    case True
    then obtain p where p: "validateEntrySignature E e = Some p" by auto
    note base = loopInv_baseline [OF i1 p]
    obtain v' w2 where v': "opRead (ownerOf E e) p w1 = (v', w2)" by fastforce
    have i2: "loopInv E Q T0 v (xs @ e # ys) w2" using loopInv_read [OF i1 v'] by simp
    consider "v' = None" | s where "v' = Some s" "\<not> rsMatches s" | s where "v' = Some s" "rsMatches s" by fastforce
    then show ?thesis
    proof cases
      case 1
      then have "stays = [e] \<and> w' = w2" using assms(2) r True p v' by (auto simp: reconcileEntry_unfold)
      then show ?thesis using i2 by simp
    next
      case 2
      then have "stays = [] \<and> w' = w2" using assms(2) r True p v' by (auto simp: reconcileEntry_unfold)
      moreover have "rwTable w2 (tkey (ownerOf E e) p) \<noteq> Some (routeRowOf (ownerOf E e) p)"
        using opRead_result [OF v', of s] 2 by auto
      ultimately show ?thesis using loopInv_drop [OF i2 p] by simp
    next
      case 3
      obtain g e3 w3 where c: "claimEntry E v xs e ys w2 = (g, e3, w3)" by (cases "claimEntry E v xs e ys w2") auto
      note i3 = claimEntry_inv [OF i2 c]
      let ?d = "e3\<lparr>jeState := windowsRouteDeleting\<rparr>"
      obtain h w4 where st: "journalStage E v xs ?d ys w3 = (h, w4)" by fastforce
      have i4: "loopInv E Q T0 v (xs @ ?d # ys) w4"
        using loopInv_stage [OF loopInv_state [OF conjunct1 [OF i3]] st] by (simp add: validState_def)
      obtain keep d w5 where rd: "recoverDelete (ownerOf E ?d) p w4 = (keep, d, w5)"
        by (cases "recoverDelete (ownerOf E ?d) p w4") auto
      have own: "ownerOf E ?d = ownerOf E e" using i3 by simp
      show ?thesis
      proof (cases "g \<or> h")
        case True
        then show ?thesis using assms(2) r \<open>r = Some True \<and> _\<close> p v' 3 c st i3 i4
          by (cases g) (auto simp: reconcileEntry_unfold)
      next
        case False
        then have eq: "stays = (if keep then [?d] else []) \<and> w' = w5"
          using assms(2) r True p v' 3 c st rd by (auto simp: reconcileEntry_unfold)
        have l4: "routeInv E Q T0 w4" "rwTransition w4 = None"
          "journalInv E Q T0 (rwTable w4) (rwCalls w4) \<lparr>jdVersion = v, jdEntries = xs @ ?d # ys\<rparr>"
          using i4 by (auto simp: loopInv_def)
        note i5 = recoverDelete_inv [OF l4(1,2) _ rd l4(3)]
        have l5: "loopInv E Q T0 v (xs @ ?d # ys) w5" using i5 base own by (simp add: loopInv_def)
        show ?thesis
        proof (cases keep)
          case True
          then show ?thesis using l5 eq by simp
        next
          case False
          have "loopInv E Q T0 v (xs @ ys) w5"
            by (rule loopInv_drop [OF l5, of p]) (use i3 p i5 base own False in simp_all)
          then show ?thesis using eq False by simp
        qed
      qed
    qed
  qed
qed

lemma reconcileLoop_inv:
  assumes "loopInv E Q T0 v (xs @ es) w" and "reconcileLoop E v xs es w = (kept, f, w')"
  shows "loopInv E Q T0 v kept w'"
  using assms
proof (induction es arbitrary: xs w f)
  case (Cons e es)
  obtain st g w1 where o: "reconcileEntry E v xs e es w = (st, g, w1)" by (cases "reconcileEntry E v xs e es w") auto
  have "loopInv E Q T0 v ((xs @ st) @ es) w1" by (rule reconcileEntry_inv [OF Cons.prems(1) o])
  from Cons.IH [OF this] show ?case using Cons.prems(2) o by (auto split: prod.splits)
qed simp

lemma journalReconcile_inv:
  assumes "routeInv E Q T0 w" and "journalReconcile E w = (e, w')"
  shows "routeInv E Q T0 w'"
proof (cases "callFails E w")
  case True
  then show ?thesis using assms routeInv_called by (auto simp: journalReconcile_def)
next
  case False
  obtain l w1 where l: "journalLock E (called w) = (l, w1)" by fastforce
  note i1 = routeInv_lock [OF routeInv_called [OF assms(1)] l]
  show ?thesis
  proof (cases l)
    case True
    then show ?thesis using assms(2) False l i1 by (simp add: journalReconcile_def)
  next
    case nl: False
    obtain d w2 where ld: "journalLoad E w1 = (d, w2)" by fastforce
    note i2 = routeInv_load [OF conjunct1 [OF i1] ld]
    obtain f w3 where rl: "reconcileLocked E w1 = (f, w3)" by fastforce
    have i3: "routeInv E Q T0 w3"
    proof (cases d)
      case None
      then show ?thesis using rl ld i2 by (simp add: reconcileLocked_def)
    next
      case (Some data)
      have dj: "data = rwJournal w2" using journalLoad_result [OF ld, of data] Some i2 by simp
      obtain kept g w4 where lp: "reconcileLoop E (jdVersion data) [] (jdEntries data) w2 = (kept, g, w4)"
        by (cases "reconcileLoop E (jdVersion data) [] (jdEntries data) w2") auto
      have "loopInv E Q T0 (jdVersion data) ([] @ jdEntries data) w2"
        using i1 i2 nl dj by (auto simp: loopInv_def routeInv_def)
      from reconcileLoop_inv [OF this lp] have l4: "loopInv E Q T0 (jdVersion data) kept w4" .
      have "w3 = snd (journalSave E (data\<lparr>jdEntries := kept\<rparr>) w4)"
        using rl ld Some lp by (auto simp: reconcileLocked_def split: prod.splits)
      then show ?thesis
        using routeInv_save [of E Q T0 w4 "data\<lparr>jdEntries := kept\<rparr>" "fst (journalSave E (data\<lparr>jdEntries := kept\<rparr>) w4)" w3] l4
        by (cases data) (auto simp: loopInv_def)
    qed
    obtain u w4 where u: "journalUnlock E w3 = (u, w4)" by fastforce
    have "w' = w4" using assms(2) False l nl rl u by (auto simp: journalReconcile_def)
    then show ?thesis using routeInv_unlock [OF i3 u] by simp
  qed
qed

section \<open>Runs\<close>

lemma plan_masked:
  assumes "planRoutes excluded i plan ds = Inr out" and "\<forall>p \<in> set plan. p \<in> Masked ` S \<and> prefixBits p \<noteq> 0"
    and "set ds \<subseteq> S"
  shows "\<forall>p \<in> set out. p \<in> Masked ` S \<and> prefixBits p \<noteq> 0"
  using assms
proof (induction ds arbitrary: i plan)
  case (Cons d ds)
  note IH = Cons.IH
  have m: "Masked d \<in> Masked ` S" using Cons.prems(3) by simp
  have n: "prefixBits (Masked d) \<noteq> 0" using Cons.prems(1) by (auto simp: Let_def split: if_splits)
  show ?case
  proof (cases "Masked d \<in> set plan")
    case True
    then show ?thesis using Cons.prems IH [of "Suc i" plan] by (auto simp: Let_def split: if_splits)
  next
    case False
    then have "planRoutes excluded (Suc i) (plan @ [Masked d]) ds = Inr out"
      using Cons.prems(1) by (auto simp: Let_def split: if_splits)
    then show ?thesis by (rule IH) (use Cons.prems(2,3) m n in simp_all)
  qed
qed simp

lemma plan_plannable:
  assumes "PlanSelectiveRoutes ds excluded = Inr plan" and "\<forall>p \<in> set ds. prefixTextOK E p"
  shows "\<forall>p \<in> set plan. plannable E p"
proof -
  have "\<forall>p \<in> set plan. p \<in> Masked ` set ds \<and> prefixBits p \<noteq> 0"
    using plan_masked [of excluded 0 "[]" ds plan "set ds"] assms(1) by (simp add: PlanSelectiveRoutes_def)
  then show ?thesis using assms(2) by (auto simp: plannable_def prefixTextOK_def)
qed

lemma install_inv:
  assumes "routeInv E Q T0 w" and "envFor Q E" and "\<forall>p \<in> set ds. prefixTextOK E p"
    and "InstallSelectiveRoutes E ds excluded w = (res, w')"
  shows "routeInv E Q T0 w' \<and> (\<forall>t. res = Inr t \<longrightarrow> (\<forall>p \<in> set (txInstalled t). prefixTextOK E p))"
proof (cases "PlanSelectiveRoutes ds excluded")
  case (Inl e)
  then show ?thesis using assms(1,4) by (auto simp: InstallSelectiveRoutes_def)
next
  case (Inr plan)
  note pl = plan_plannable [OF Inr assms(3)]
  show ?thesis
  proof (cases "reLuid E = 0 \<or> callFails E w")
    case True
    then show ?thesis using assms(1,4) Inr routeInv_called by (auto simp: InstallSelectiveRoutes_def)
  next
    case False
    obtain f w1 where rc: "journalReconcile E (called w) = (f, w1)" by fastforce
    have i1: "routeInv E Q T0 w1" by (rule journalReconcile_inv [OF routeInv_called [OF assms(1)] rc])
    show ?thesis
    proof (cases "f \<or> plan = []")
      case True
      then show ?thesis using assms(4) Inr False rc i1 routeInv_called [OF i1]
        by (cases f) (auto simp: InstallSelectiveRoutes_def installPlannedSelectiveRoutes_def)
    next
      case nf: False
      obtain x w2 where it: "installRouteTransaction E plan w1 = (x, w2)" by fastforce
      note i2 = installRouteTransaction_inv [OF i1 assms(2) pl it]
      show ?thesis
      proof (cases x)
        case (Inl e)
        then show ?thesis using assms(4) Inr False rc nf it i2
          by (auto simp: InstallSelectiveRoutes_def installPlannedSelectiveRoutes_def)
      next
        case (Inr t)
        then show ?thesis using assms(4) \<open>PlanSelectiveRoutes ds excluded = Inr plan\<close> False rc nf it i2 pl
          by (auto simp: InstallSelectiveRoutes_def installPlannedSelectiveRoutes_def plannable_def)
      qed
    qed
  qed
qed

lemma closeTimes_inv:
  assumes "routeInv E Q T0 w" and "\<forall>p \<in> set (txInstalled t). prefixTextOK E p"
  shows "routeInv E Q T0 (snd (closeTimes E n t w))"
  using assms
proof (induction n arbitrary: t w)
  case (Suc n)
  obtain e t' w' where r: "txnRollback E t w = (e, t', w')" by (cases "txnRollback E t w") auto
  show ?case using Suc.IH [of w' t'] txnRollback_inv [OF Suc.prems r] Suc.prems(2) r by auto
qed simp

definition sameHost :: "routeEnv \<Rightarrow> routeEnv \<Rightarrow> bool" where
  "sameHost E F \<longleftrightarrow> reNetip E = reNetip F \<and> rePrefixText E = rePrefixText F \<and> reRandom E = reRandom F"

text \<open>The journal between two runs.\<close>

definition restInv :: "routeEnv \<Rightarrow> (u64 \<Rightarrow> u32 \<Rightarrow> bool) \<Rightarrow> routeTable \<Rightarrow> routeWorld \<Rightarrow> bool" where
  "restInv E Q T0 w \<longleftrightarrow> journalInv E Q T0 (rwTable w) (rwCalls w) (rwJournal w) \<and> rwTransition w = None \<and> \<not> rwHung w"

lemma journalInv_host:
  assumes "sameHost E F"
  shows "journalInv E Q T0 tbl n d \<longleftrightarrow> journalInv F Q T0 tbl n d"
proof -
  have v: "validateEntrySignature E = validateEntrySignature F"
    using assms by (intro ext) (simp add: validateEntrySignature_def canonicalDestination_def sameHost_def)
  have "routeRowOf (ownerOf E e) p = routeRowOf (ownerOf F e) p" for e p
    by (simp add: routeRowOf_def ownerOf_def Let_def)
  then show ?thesis
    using assms v by (simp add: journalInv_def goodEntry_def coversRow_def tkey_def sameHost_def)
qed

lemma processRun_inv:
  assumes "restInv E Q T0 w" and "sameHost E (crEnv r)" and "envFor Q (crEnv r)"
    and "\<forall>p \<in> set (crDestinations r). prefixTextOK E p"
  shows "restInv E Q T0 (processRun r w)"
proof -
  let ?F = "crEnv r"
  have i: "routeInv ?F Q T0 w"
    using assms(1) journalInv_host [OF assms(2)] by (simp add: restInv_def routeInv_def openTransition_def)
  have texts: "\<forall>p \<in> set (crDestinations r). prefixTextOK ?F p"
    using assms(2,4) by (simp add: prefixTextOK_def sameHost_def)
  obtain res w1 where r: "InstallSelectiveRoutes ?F (crDestinations r) (crExcluded r) w = (res, w1)" by fastforce
  note i1 = install_inv [OF i assms(3) texts r]
  have ex: "restInv E Q T0 (processExit w2)" if "routeInv ?F Q T0 w2" for w2
    using that journalInv_host [OF assms(2)] by (simp add: restInv_def routeInv_def processExit_def)
  show ?thesis
  proof (cases res)
    case (Inl e)
    then show ?thesis using r i1 ex by (simp add: processRun_def)
  next
    case (Inr t)
    then show ?thesis using r i1 ex closeTimes_inv [of ?F Q T0 w1 t] by (simp add: processRun_def)
  qed
qed

lemma runs_inv:
  assumes "restInv E Q T0 w" and "\<forall>r \<in> set runs. sameHost E (crEnv r) \<and> envFor Q (crEnv r) \<and>
      (\<forall>p \<in> set (crDestinations r). prefixTextOK E p)"
  shows "restInv E Q T0 (fold processRun runs w)"
  using assms by (induction runs arbitrary: w) (auto intro: processRun_inv)

text \<open>
  An environment in which nothing fails: no system call, no context, and no save because of its size, so
  the journals stay below 1 MiB.
\<close>

definition quietEnv :: "routeEnv \<Rightarrow> bool" where
  "quietEnv E \<longleftrightarrow> (\<forall>n. \<not> reFault E n \<and> \<not> reCtxDone E n)"

text \<open>The adapter of an entry is the current one, or another one that is gone.\<close>

definition recoverableOwner :: "routeEnv \<Rightarrow> u64 \<Rightarrow> u32 \<Rightarrow> bool" where
  "recoverableOwner E luid index \<longleftrightarrow>
     (if luid = reLuid E then index = reIndex E else \<not> reForeignExists E luid index)"

lemma quiet_simps:
  assumes "quietEnv E" and "\<not> rwHung w"
  shows "\<not> callFails E w" "\<not> ctxDone E w" "\<not> callFails (ownerOf E e) w" "\<not> ctxDone (ownerOf E e) w"
  using assms by (simp_all add: quietEnv_def callFails_def ctxDone_def ownerOf_def)

lemma quiet_read:
  assumes "quietEnv E" and "\<not> rwHung w"
  shows "opRead (ownerOf E e) p w = (Some \<lparr>rsExists = rwTable w (tkey (ownerOf E e) p) \<noteq> None,
    rsMatches = (rwTable w (tkey (ownerOf E e) p) = Some (routeRowOf (ownerOf E e) p))\<rparr>, called w)"
  using quiet_simps [OF assms] by (auto simp: opRead_def Let_def tkey_def rows_match split: option.splits)

lemma quiet_save:
  assumes "quietEnv E" and "\<not> rwHung w"
  shows "journalSave E d w = (False, (called w)\<lparr>rwJournal := d\<rparr>)"
  using quiet_simps [OF assms] by (simp add: journalSave_def)

lemma quiet_delete:
  assumes "quietEnv E" and "\<not> rwHung w"
    and "rwTable w (tkey (ownerOf E e) p) = Some (routeRowOf (ownerOf E e) p)"
  shows "\<exists>w'. opDelete (ownerOf E e) p w = (True, False, w') \<and> \<not> rwHung w'"
proof -
  have n: "\<not> callFails (ownerOf E e) v \<and> \<not> ctxDone (ownerOf E e) v" if "\<not> rwHung v" for v
    using quiet_simps [OF assms(1) that] by simp
  show ?thesis using assms(2,3) n by (simp add: opDelete_def tkey_def rows_match)
qed

lemma reconcileEntry_quiet:
  assumes "quietEnv E" and "\<not> rwHung w" and "goodEntry E Q T0 e" and "\<And>a b. Q a b \<Longrightarrow> recoverableOwner E a b"
  shows "\<exists>w'. reconcileEntry E v xs e ys w = ([], False, w') \<and> \<not> rwHung w'"
proof -
  obtain p where p: "validateEntrySignature E e = Some p" using assms(3) by (auto simp: goodEntry_def)
  have "recoverableOwner E (jeInterfaceLUID e) (jeInterfaceIndex e)" "validState (jeState e)"
    using assms(3,4) by (auto simp: goodEntry_def)
  then obtain w1 where w1: "recoverable E e w = (Some True, w1)" "\<not> rwHung w1"
    using p quiet_simps [OF assms(1,2)] assms(2)
    by (auto simp: recoverable_def recoverableOwner_def validState_def split: if_splits)
  let ?k = "tkey (ownerOf E e) p"
  have rd: "opRead (ownerOf E e) p w1 = (Some \<lparr>rsExists = rwTable w1 ?k \<noteq> None,
      rsMatches = (rwTable w1 ?k = Some (routeRowOf (ownerOf E e) p))\<rparr>, called w1)"
    by (rule quiet_read [OF assms(1) w1(2)])
  show ?thesis
  proof (cases "rwTable w1 ?k = Some (routeRowOf (ownerOf E e) p)")
    case False
    then show ?thesis using w1 p rd by (simp add: reconcileEntry_unfold)
  next
    case True
    obtain e2 w2 where c: "claimEntry E v xs e ys (called w1) = (False, e2, w2)" "\<not> rwHung w2"
      "rwTable w2 = rwTable w1" "ownerOf E e2 = ownerOf E e"
      using quiet_save [OF assms(1), of "called w1"] w1(2)
      by (cases "jeState e = windowsRoutePending") (auto simp: claimEntry_def journalStage_def)
    let ?d = "e2\<lparr>jeState := windowsRouteDeleting\<rparr>"
    obtain w3 where st: "journalStage E v xs ?d ys w2 = (False, w3)" "\<not> rwHung w3" "rwTable w3 = rwTable w2"
      using quiet_save [OF assms(1) c(2)] c(2) by (auto simp: journalStage_def)
    have "rwTable w3 ?k = Some (routeRowOf (ownerOf E e) p)" using True c(3) st(3) by simp
    from quiet_delete [OF assms(1) st(2) this] obtain w4 where
      d: "opDelete (ownerOf E e) p w3 = (True, False, w4)" "\<not> rwHung w4" by blast
    then show ?thesis using w1 p rd True c st by (auto simp: reconcileEntry_unfold recoverDelete_def)
  qed
qed

lemma reconcileLoop_quiet:
  assumes "quietEnv E" and "\<not> rwHung w" and "\<forall>e \<in> set es. goodEntry E Q T0 e"
    and "\<And>a b. Q a b \<Longrightarrow> recoverableOwner E a b"
  shows "\<exists>w'. reconcileLoop E v xs es w = (xs, False, w') \<and> \<not> rwHung w'"
  using assms(2,3)
proof (induction es arbitrary: w)
  case (Cons e es)
  from reconcileEntry_quiet [OF assms(1) Cons.prems(1) _ assms(4)] Cons.prems(2)
  obtain w1 where o: "reconcileEntry E v xs e es w = ([], False, w1)" "\<not> rwHung w1" by fastforce
  from Cons.IH [OF o(2)] Cons.prems(2) show ?case using o by auto
qed simp

lemma drawn_distinct:
  assumes "drawnIDs rnd n ts" and "inj_on rnd {..<n}"
  shows "distinct ts"
proof -
  obtain ns where ns: "distinct ns" "\<forall>i \<in> set ns. i < n" "ts = map (hexEncode \<circ> rnd) ns"
    using assms(1) by (auto simp: drawnIDs_def)
  have "inj_on (hexEncode \<circ> rnd) (set ns)"
    using ns(2) assms(2) by (auto simp: inj_on_def hexEncode_inj)
  then show ?thesis using ns(1,3) by (simp add: distinct_map)
qed

lemma reconcile_quiet:
  assumes "restInv E Q T0 w" and "quietEnv E" and "inj_on (reRandom E) {..<rwCalls w}"
    and "\<And>a b. Q a b \<Longrightarrow> recoverableOwner E a b" and "journalReconcile E w = (e, w')"
  shows "\<not> e \<and> rwTable w' = T0 \<and> jdEntries (rwJournal w') = []"
proof -
  have h: "\<not> rwHung w" "rwTransition w = None"
    and j: "journalInv E Q T0 (rwTable w) (rwCalls w) (rwJournal w)"
    using assms(1) by (auto simp: restInv_def)
  let ?w = "called (called (called w))" and ?d = "rwJournal w"
  have d: "distinct (map jeTransactionID (jdEntries ?d))" "jdVersion ?d = windowsRouteJournalVersion"
    using j drawn_distinct [OF _ assms(3)] by (auto simp: journalInv_def)
  have lk: "journalLock E (called w) = (False, called (called w))"
    using h quiet_simps(1) [OF assms(2), of "called w"] by (simp add: journalLock_def)
  have ld: "journalLoad E (called (called w)) = (Some ?d, ?w)"
    using h d quiet_simps(1) [OF assms(2), of "called (called w)"] by (simp add: journalLoad_def)
  have good: "\<forall>e \<in> set (jdEntries ?d). goodEntry E Q T0 e" using j by (simp add: journalInv_def)
  obtain w1 where lp: "reconcileLoop E (jdVersion ?d) [] (jdEntries ?d) ?w = ([], False, w1)" "\<not> rwHung w1"
    using reconcileLoop_quiet [OF assms(2) _ good assms(4), of ?w] h by auto
  have "loopInv E Q T0 (jdVersion ?d) ([] @ jdEntries ?d) ?w"
    using j h journalInv_later [OF j] by (simp add: loopInv_def routeInv_def openTransition_def)
  from reconcileLoop_inv [OF this lp(1)] have l1: "loopInv E Q T0 (jdVersion ?d) [] w1" .
  then have t: "rwTable w1 = T0" by (intro ext) (auto simp: loopInv_def journalInv_def)
  have sv: "journalSave E (?d\<lparr>jdEntries := []\<rparr>) w1 = (False, (called w1)\<lparr>rwJournal := ?d\<lparr>jdEntries := []\<rparr>\<rparr>)"
    by (rule quiet_save [OF assms(2) lp(2)])
  let ?w2 = "(called w1)\<lparr>rwJournal := ?d\<lparr>jdEntries := []\<rparr>\<rparr>"
  have "journalUnlock E ?w2 = (False, called ?w2)"
    using quiet_simps(1) [OF assms(2), of ?w2] lp(2) by (simp add: journalUnlock_def)
  then have "journalReconcile E w = (False, called ?w2)"
    using quiet_simps(1) [OF assms(2) h(1)] lk ld lp(1) sv by (simp add: journalReconcile_def reconcileLocked_def)
  then show ?thesis using assms(5) t by auto
qed

end
