(* ===== verification/Routes_Table.thy ===== *)
theory Routes_Table
  imports Routes_Inv
begin

text \<open>
  What the operations do to the routing table alone: the journal's operations leave it, a failed record
  may take its route back, and the transaction knows every route it has added.
\<close>

section \<open>What the operations do to the table\<close>

lemma journalLock_table: "rwTable (snd (journalLock E w)) = rwTable w"
  by (simp add: journalLock_def)

lemma journalSave_table: "rwTable (snd (journalSave E d w)) = rwTable w"
  by (simp add: journalSave_def)

lemma opRead_world: "snd (opRead E p w) = called w"
  by (simp add: opRead_def Let_def split: option.split)

lemma journalLoad_world: "snd (journalLoad E w) = called w"
  by (simp add: journalLoad_def)

lemma newTransactionID_world: "snd (newTransactionID E w) = called w"
  by (simp add: newTransactionID_def)

lemma takeTransition_table: "rwTable (snd (takeTransition p w)) = rwTable w"
  by (simp add: takeTransition_def split: option.split prod.split)

lemma fst_snd_eq: "(a, b) = x \<Longrightarrow> b = snd x"
  by auto

lemmas table_simps = opRead_world journalLoad_world newTransactionID_world journalSave_table journalLock_table
  takeTransition_table

lemma prepare_table: "rwTable (snd (journalPrepare E p w)) = rwTable w"
proof -
  have l: "rwTable (snd (prepareLocked E q v)) = rwTable v" for q v
    unfolding prepareLocked_def
    by (auto simp: Let_def split: option.splits prod.splits bool.splits
        dest!: fst_snd_eq [OF sym] simp: opRead_world journalLoad_world newTransactionID_world journalSave_table)
  show ?thesis
    using l journalLock_table [of E "called w"]
    by (auto simp: journalPrepare_def split: prod.splits bool.splits)
qed

lemma prepareDeletion_table: "rwTable (snd (journalPrepareDeletion E p w)) = rwTable w"
proof -
  have l: "rwTable (snd (prepareDeletionLocked E q v)) = rwTable v" for q v
    unfolding prepareDeletionLocked_def
    by (auto simp: Let_def split: option.splits prod.splits bool.splits
        dest!: fst_snd_eq [OF sym] simp: table_simps)
  show ?thesis
    using l journalLock_table [of E "called w"]
    by (auto simp: journalPrepareDeletion_def split: prod.splits bool.splits)
qed

lemma release_table: "rwTable (snd (journalRelease E p w)) = rwTable w"
proof -
  have l: "rwTable (snd (releaseLocked E p txn v)) = rwTable v" for txn v
    unfolding releaseLocked_def
    by (auto simp: Let_def split: option.splits prod.splits dest!: fst_snd_eq [OF sym] simp: table_simps)
  show ?thesis
    using l takeTransition_table [of p w]
    by (auto simp: journalRelease_def journalUnlock_def split: prod.splits option.splits) (metis snd_conv)+
qed

text \<open>A record that fails may have taken the route back.\<close>

definition tookBack :: "routeEnv \<Rightarrow> Prefix \<Rightarrow> bool \<Rightarrow> routeTable \<Rightarrow> routeTable \<Rightarrow> bool" where
  "tookBack E p rb tbl tbl' \<longleftrightarrow> (tbl' = tbl \<or> tbl' = tbl(tkey E p := None)) \<and> (\<not> rb \<longrightarrow> tbl' = tbl) \<and>
     (rb \<longrightarrow> tbl' (tkey E p) \<noteq> Some (routeRowOf E p))"

lemma removeRecorded_table:
  assumes "removeRecorded E p i d w = (rb, w')"
  shows "tookBack E p rb (rwTable w) (rwTable w')"
proof -
  obtain r w1 where r: "opRead E p w = (r, w1)" by fastforce
  show ?thesis
  proof (cases r)
    case None
    then show ?thesis using assms r opRead_result [OF r] by (auto simp: removeRecorded_def tookBack_def)
  next
    case (Some st)
    note o = opRead_result [OF r, of st]
    obtain c e w2 where d: "(if rsMatches st then opDelete E p w1 else (False, False, w1)) = (c, e, w2)"
      by (cases "if rsMatches st then opDelete E p w1 else (False, False, w1)")
    have t2: "rwTable w2 = (if c then (rwTable w)(tkey E p := None) else rwTable w) \<and>
        (c \<or> \<not> e \<longrightarrow> rwTable w2 (tkey E p) \<noteq> Some (routeRowOf E p))"
      using d o Some opDelete_result [of E p w1 c e w2] by (auto split: if_splits)
    obtain v w3 where v: "(if \<not> c \<and> e then opRead E p w2 else (Some \<lparr>rsExists = False, rsMatches = False\<rparr>, w2)) = (v, w3)"
      by (cases "if \<not> c \<and> e then opRead E p w2 else (Some \<lparr>rsExists = False, rsMatches = False\<rparr>, w2)")
    have t3: "rwTable w3 = rwTable w2 \<and> (\<forall>x. v = Some x \<longrightarrow> \<not> rsMatches x \<longrightarrow>
        rwTable w3 (tkey E p) \<noteq> Some (routeRowOf E p)) \<and> (v = None \<or> (\<exists>x. v = Some x \<and> rsMatches x) \<longrightarrow> \<not> c)"
      using v t2 opRead_result [of E p w2 v w3] by (auto split: if_splits)
    consider "v = None" | x where "v = Some x" "rsMatches x" | x where "v = Some x" "\<not> rsMatches x" by fastforce
    then show ?thesis
    proof cases
      case 3
      then have "rb" "w' = snd (journalSave E (dropEntry i d) w3)"
        using assms r Some d v by (auto simp: removeRecorded_def)
      then show ?thesis using t2 t3 3 by (auto simp: tookBack_def table_simps)
    qed (use assms r Some d v t2 t3 in \<open>auto simp: removeRecorded_def tookBack_def\<close>)
  qed
qed

lemma tookBack_refl: "tookBack E p False tbl tbl"
  by (simp add: tookBack_def)

lemma rollbackFailedRecord_table:
  assumes "rollbackFailedRecord E p txn w = (rb, w')"
  shows "tookBack E p rb (rwTable w) (rwTable w')"
proof -
  obtain l w1 where l: "journalLoad E w = (l, w1)" by fastforce
  have t: "rwTable w1 = rwTable w" using journalLoad_result [OF l] by simp
  show ?thesis
  proof (cases "\<exists>i d. removeRecorded E p i d w1 = (rb, w')")
    case True
    then show ?thesis using removeRecorded_table t by metis
  next
    case False
    then show ?thesis using assms l t
      by (auto simp: rollbackFailedRecord_def tookBack_refl split: option.splits prod.splits if_splits)
  qed
qed

lemma recordLocked_table:
  assumes "recordLocked E p txn w = (e, rb, w')"
  shows "tookBack E p rb (rwTable w) (rwTable w') \<and> (rb \<longrightarrow> e)"
proof -
  obtain l w1 where l: "journalLoad E w = (l, w1)" by fastforce
  have t: "rwTable w1 = rwTable w" using journalLoad_result [OF l] by simp
  show ?thesis
  proof (cases "\<exists>d x. journalSave E d w1 = (True, x) \<and> rollbackFailedRecord E p txn x = (rb, w') \<and> e")
    case True
    then obtain d x where x: "journalSave E d w1 = (True, x)" "rollbackFailedRecord E p txn x = (rb, w')" "e" by blast
    then show ?thesis using rollbackFailedRecord_table [OF x(2)] journalSave_result [OF x(1)] t by simp
  next
    case False
    then show ?thesis using assms l t journalSave_table [of E _ w1]
      by (auto simp: recordLocked_def tookBack_refl split: option.splits prod.splits if_splits bool.splits)
         (metis snd_conv tookBack_refl)+
  qed
qed

lemma record_table:
  assumes "journalRecord E p w = (e, rb, w')"
  shows "tookBack E p rb (rwTable w) (rwTable w') \<and> (rb \<longrightarrow> e)"
proof -
  obtain t w1 where t: "takeTransition p w = (t, w1)" by fastforce
  have t1: "rwTable w1 = rwTable w" using takeTransition_result [OF t] by simp
  show ?thesis
  proof (cases t)
    case None
    then show ?thesis using assms t t1 by (auto simp: journalRecord_def tookBack_refl)
  next
    case (Some txn)
    obtain x y w2 where r: "recordLocked E p txn w1 = (x, y, w2)" by (cases "recordLocked E p txn w1") auto
    then show ?thesis using recordLocked_table [OF r] assms t t1 Some
      by (auto simp: journalRecord_def journalUnlock_def)
  qed
qed

section \<open>The transaction and the table\<close>

text \<open>The routes of the list are all that the table has beyond \<open>T0\<close>.\<close>

definition tableInv :: "routeEnv \<Rightarrow> routeTable \<Rightarrow> Prefix list \<Rightarrow> routeTable \<Rightarrow> bool" where
  "tableInv E T0 ps tbl \<longleftrightarrow> (\<forall>k. tbl k = T0 k \<or> (\<exists>p \<in> set ps. k = tkey E p \<and> tbl k = Some (routeRowOf E p))) \<and>
     (\<forall>p \<in> set ps. T0 (tkey E p) = None)"

lemma tableInv_Nil: "tableInv E T0 [] tbl \<longleftrightarrow> tbl = T0"
  by (auto simp: tableInv_def)

lemma tableInv_set: "set ps = set qs \<Longrightarrow> tableInv E T0 ps tbl = tableInv E T0 qs tbl"
  by (simp add: tableInv_def)

lemma tableInv_absent: "tableInv E T0 ps tbl \<Longrightarrow> tbl k = None \<Longrightarrow> T0 k = None"
  unfolding tableInv_def by (metis option.distinct(1))

lemma tableInv_clear:
  assumes "tableInv E T0 ps tbl" and "p \<in> set ps \<or> T0 (tkey E p) = None"
  shows "tableInv E T0 ps (tbl(tkey E p := None))"
  using assms by (auto simp: tableInv_def)

lemma tableInv_add:
  assumes "tableInv E T0 ps tbl" and "tbl (tkey E p) = None"
  shows "tableInv E T0 (ps @ [p]) (tbl(tkey E p \<mapsto> routeRowOf E p))"
  using assms tableInv_absent [OF assms] by (auto simp: tableInv_def)

lemma tableInv_drop:
  assumes "tableInv E T0 (p # ps) tbl" and "tbl (tkey E p) \<noteq> Some (routeRowOf E p)"
  shows "tableInv E T0 ps tbl"
proof -
  have "tbl k = T0 k \<or> (\<exists>q \<in> set ps. k = tkey E q \<and> tbl k = Some (routeRowOf E q))" for k
  proof (cases "tbl k = T0 k")
    case False
    then obtain q where "q \<in> set (p # ps)" "k = tkey E q" "tbl k = Some (routeRowOf E q)"
      using assms(1) unfolding tableInv_def by blast
    then show ?thesis using assms(2) by auto
  qed simp
  then show ?thesis using assms(1) by (simp add: tableInv_def)
qed

lemma rollbackDelete_table:
  assumes "rollbackDelete E p w = (keep, e, w')"
  shows "(rwTable w' = rwTable w \<or> rwTable w' = (rwTable w)(tkey E p := None)) \<and> (keep \<longrightarrow> e) \<and>
    (\<not> keep \<longrightarrow> rwTable w' (tkey E p) \<noteq> Some (routeRowOf E p))"
proof -
  obtain c de w1 where d: "opDelete E p w = (c, de, w1)" by (cases "opDelete E p w") auto
  note o = opDelete_result [OF d]
  obtain f w2 where r: "journalRelease E p w1 = (f, w2)" by fastforce
  have rt: "rwTable w2 = rwTable w1" using release_table [of E p w1] r by simp
  show ?thesis
  proof (cases "c \<or> \<not> de")
    case True
    then have "keep = False \<and> w' = w2" using assms d r by (auto simp: rollbackDelete_def)
    then show ?thesis using o rt True by auto
  next
    case False
    obtain v w3 where v: "opRead E p w1 = (v, w3)" by fastforce
    have t3: "rwTable w3 = rwTable w" using opRead_result [OF v] o False by auto
    consider "v = None" | s where "v = Some s" "rsMatches s" | s where "v = Some s" "\<not> rsMatches s" by fastforce
    then show ?thesis
    proof cases
      case 1
      then show ?thesis using assms d False v t3 by (auto simp: rollbackDelete_def)
    next
      case 2
      obtain x y w4 where jr: "journalRecord E p w3 = (x, y, w4)" by (cases "journalRecord E p w3") auto
      then have "keep \<and> e \<and> w' = w4" using assms d False v 2 by (auto simp: rollbackDelete_def)
      then show ?thesis using record_table [OF jr] t3 by (auto simp: tookBack_def)
    next
      case 3
      then have "\<not> keep \<and> w' = snd (journalRelease E p w3)"
        using assms d False v by (auto simp: rollbackDelete_def)
      then show ?thesis using release_table [of E p w3] t3 opRead_result [OF v, of s] o False 3 by auto
    qed
  qed
qed

lemma rollbackOne_table:
  assumes "rollbackOne E p w = (keep, e, w')"
  shows "(rwTable w' = rwTable w \<or> rwTable w' = (rwTable w)(tkey E p := None)) \<and> (keep \<longrightarrow> e) \<and>
    (\<not> keep \<longrightarrow> rwTable w' (tkey E p) \<noteq> Some (routeRowOf E p))"
proof -
  obtain f w1 where d: "journalPrepareDeletion E p w = (f, w1)" by fastforce
  have t1: "rwTable w1 = rwTable w" using prepareDeletion_table [of E p w] d by simp
  show ?thesis
  proof (cases f)
    case True
    then show ?thesis using assms d t1 by (auto simp: rollbackOne_def)
  next
    case False
    obtain v w2 where v: "opRead E p w1 = (v, w2)" by fastforce
    have t2: "rwTable w2 = rwTable w" using opRead_result [OF v] t1 by auto
    consider "v = None" | s where "v = Some s" "rsMatches s" | s where "v = Some s" "\<not> rsMatches s" by fastforce
    then show ?thesis
    proof cases
      case 1
      obtain x y w4 where jr: "journalRecord E p w2 = (x, y, w4)" by (cases "journalRecord E p w2") auto
      then have "keep \<and> e \<and> w' = w4" using assms d False v 1 by (auto simp: rollbackOne_def)
      then show ?thesis using record_table [OF jr] t2 by (auto simp: tookBack_def)
    next
      case 2
      then have "rollbackDelete E p w2 = (keep, e, w')" using assms d False v by (auto simp: rollbackOne_def)
      from rollbackDelete_table [OF this] show ?thesis using t2 by simp
    next
      case 3
      then have "\<not> keep \<and> w' = snd (journalRelease E p w2)"
        using assms d False v by (auto simp: rollbackOne_def split: prod.splits)
      then show ?thesis using release_table [of E p w2] t1 t2 opRead_result [OF v, of s] 3 by auto
    qed
  qed
qed

lemma rollbackLoop_table:
  assumes "tableInv E T0 (qs @ ps) (rwTable w)" and "rollbackLoop E ps w = (rest, e, w')"
  shows "tableInv E T0 (qs @ rest) (rwTable w') \<and> (\<not> e \<longrightarrow> rest = [])"
  using assms
proof (induction ps arbitrary: qs w rest e w')
  case (Cons p ps)
  obtain k f w1 where o: "rollbackOne E p w = (k, f, w1)" by (cases "rollbackOne E p w") auto
  obtain r g w2 where l: "rollbackLoop E ps w1 = (r, g, w2)" by (cases "rollbackLoop E ps w1") auto
  note t = rollbackOne_table [OF o]
  have res: "rest = (if k then p # r else r)" "e = (f \<or> g)" "w' = w2" using Cons.prems(2) o l by auto
  have full: "tableInv E T0 (qs @ p # ps) (rwTable w1)"
    using t tableInv_clear [OF Cons.prems(1), of p] Cons.prems(1) by auto
  show ?case
  proof (cases k)
    case True
    have "tableInv E T0 ((qs @ [p]) @ ps) (rwTable w1)" using full by simp
    from Cons.IH [OF this l] show ?thesis using res True t by simp
  next
    case False
    have "tableInv E T0 (p # (qs @ ps)) (rwTable w1)" using full by (simp add: tableInv_def insert_commute)
    then have "tableInv E T0 (qs @ ps) (rwTable w1)" by (rule tableInv_drop) (use t False in simp)
    from Cons.IH [OF this l] show ?thesis using res False by auto
  qed
qed simp

lemma txnRollback_table:
  assumes "tableInv E T0 (txInstalled t) (rwTable w)" and "txOp t" and "txnRollback E t w = (e, t', w')"
  shows "tableInv E T0 (txInstalled t') (rwTable w') \<and> (\<not> e \<longrightarrow> rwTable w' = T0)"
proof -
  obtain r f w1 where l: "rollbackLoop E (rev (txInstalled t)) w = (r, f, w1)"
    by (cases "rollbackLoop E (rev (txInstalled t)) w") auto
  have "tableInv E T0 ([] @ rev (txInstalled t)) (rwTable w)"
    using assms(1) by (simp add: tableInv_def)
  from rollbackLoop_table [OF this l] have "tableInv E T0 (rev r) (rwTable w1) \<and> (\<not> f \<longrightarrow> r = [])"
    by (simp add: tableInv_def)
  then show ?thesis using assms(2,3) l
    by (auto simp: txnRollback_def Let_def tableInv_Nil split: if_splits)
qed

text \<open>What holds after one step, and, where it goes on, after the plan.\<close>

definition stepOK :: "routeEnv \<Rightarrow> routeTable \<Rightarrow> routeTable \<Rightarrow> install_step \<Rightarrow> bool" where
  "stepOK E T0 tbl s \<longleftrightarrow> tableInv E T0 (stepInstalled s) (rwTable (stepWorld s)) \<and>
     (\<forall>ps w. s = InstallNext ps w \<longrightarrow> (\<forall>k. tbl k \<noteq> None \<longrightarrow> rwTable w k = tbl k))"

lemma afterAdd_table:
  "rwTable (stepWorld (afterAdd E p c ae ps w)) = rwTable w \<and> stepInstalled (afterAdd E p c ae ps w) = ps \<and>
   (afterAdd E p c ae ps w = InstallNext qs v \<longrightarrow> rwTable w (tkey E p) = Some (routeRowOf E p))"
proof -
  obtain r w1 where r: "opRead E p w = (r, w1)" by fastforce
  obtain f w2 where l: "(if \<not> c then journalRelease E p w1 else (False, w1)) = (f, w2)" by fastforce
  have t: "rwTable w2 = rwTable w" using l release_table [of E p w1] opRead_result [OF r] by (auto split: if_splits)
  show ?thesis using r l t opRead_result [OF r]
    by (cases f; cases r) (auto simp: afterAdd_def split: if_splits)
qed

lemma addRoute_table:
  assumes "tableInv E T0 ps (rwTable w)" and "rwTable w (tkey E p) = None"
  shows "stepOK E T0 (rwTable w) (addRoute E p ps w) \<and>
    (addRoute E p ps w = InstallNext qs v \<longrightarrow> rwTable v (tkey E p) = Some (routeRowOf E p))"
proof -
  obtain c e w1 where a: "opAdd E p w = (c, e, w1)" by (cases "opAdd E p w") auto
  note o = opAdd_result [OF a]
  show ?thesis
  proof (cases c)
    case False
    have eq: "addRoute E p ps w = afterAdd E p False e ps w1" using a False by (simp add: addRoute_def)
    have t1: "rwTable w1 = rwTable w" using o False by simp
    show ?thesis
    proof (cases "afterAdd E p False e ps w1")
      case (InstallNext ps' w')
      then show ?thesis using afterAdd_table [of E p False e ps w1 ps' w'] eq t1 assms by (simp add: stepOK_def)
    next
      case (InstallFails ps' w')
      then show ?thesis using afterAdd_table [of E p False e ps w1] eq t1 assms by (simp add: stepOK_def)
    qed
  next
    case True
    obtain f rb w2 where r: "journalRecord E p w1 = (f, rb, w2)" by (cases "journalRecord E p w1") auto
    have t1: "rwTable w1 = (rwTable w)(tkey E p \<mapsto> routeRowOf E p)" using o True by simp
    have i1: "tableInv E T0 (ps @ [p]) (rwTable w1)" using tableInv_add [OF assms] t1 by simp
    note t2 = conjunct1 [OF record_table [OF r]]
    show ?thesis
    proof (cases f)
      case fails: True
      have eq: "addRoute E p ps w = InstallFails (if rb then ps else ps @ [p]) w2"
        using a True r fails by (simp add: addRoute_def)
      show ?thesis
      proof (cases rb)
        case True
        then have "rwTable w2 = (rwTable w1)(tkey E p := None)" using t2 t1 by (auto simp: tookBack_def)
        then have "rwTable w2 = rwTable w" using t1 assms(2) by auto
        then show ?thesis using eq True assms(1) by (simp add: stepOK_def)
      next
        case False
        then show ?thesis using eq t2 i1 by (simp add: stepOK_def tookBack_def)
      qed
    next
      case False
      have eq: "addRoute E p ps w = afterAdd E p True e (ps @ [p]) w2"
        using a True r False by (simp add: addRoute_def)
      have "\<not> rb" using record_table [OF r] False by simp
      then have t3: "rwTable w2 = rwTable w1" using t2 by (simp add: tookBack_def)
      show ?thesis
      proof (cases "afterAdd E p True e (ps @ [p]) w2")
        case (InstallNext ps' w')
        then show ?thesis using afterAdd_table [of E p True e "ps @ [p]" w2 ps' w'] eq t1 t3 i1 assms(2)
          by (auto simp: stepOK_def)
      next
        case (InstallFails ps' w')
        then show ?thesis using afterAdd_table [of E p True e "ps @ [p]" w2] eq t3 i1 by (simp add: stepOK_def)
      qed
    qed
  qed
qed

lemma installOne_table:
  assumes "tableInv E T0 ps (rwTable w)"
  shows "stepOK E T0 (rwTable w) (installOne E p ps w) \<and>
    (installOne E p ps w = InstallNext qs v \<longrightarrow> rwTable v (tkey E p) = Some (routeRowOf E p))"
proof (cases "ctxDone E w")
  case True
  then show ?thesis using assms by (simp add: installOne_def stepOK_def)
next
  case False
  obtain r w1 where r: "opRead E p w = (r, w1)" by fastforce
  have t1: "rwTable w1 = rwTable w" using opRead_result [OF r] by simp
  show ?thesis
  proof (cases "r = None \<or> rsExists (the r)")
    case True
    then show ?thesis using False r t1 assms opRead_result [OF r]
      by (cases r) (auto simp: installOne_def stepOK_def)
  next
    case nr: False
    then have absent: "rwTable w (tkey E p) = None" using opRead_result [OF r] by auto
    obtain f w2 where pr: "journalPrepare E p w1 = (f, w2)" by fastforce
    have t2: "rwTable w2 = rwTable w" using prepare_table [of E p w1] pr t1 by simp
    have eq: "installOne E p ps w = (if f then InstallFails ps w2 else addRoute E p ps w2)"
      using False r nr pr by (cases r) (auto simp: installOne_def split: bool.split)
    then show ?thesis using addRoute_table [of E T0 ps w2 p] t2 assms absent
      by (auto simp: stepOK_def)
  qed
qed

lemma installLoop_table:
  assumes "tableInv E T0 ps (rwTable w)"
  shows "stepOK E T0 (rwTable w) (installLoop E plan ps w) \<and>
    (installLoop E plan ps w = InstallNext qs v \<longrightarrow>
       (\<forall>p \<in> set plan. rwTable v (tkey E p) = Some (routeRowOf E p)))"
  using assms
proof (induction plan arbitrary: ps w)
  case (Cons p plan)
  show ?case
  proof (cases "installOne E p ps w")
    case (InstallNext ps1 w1)
    note o = installOne_table [OF Cons.prems, of p ps1 w1]
    have i1: "tableInv E T0 ps1 (rwTable w1)" using o InstallNext by (simp add: stepOK_def)
    have keep: "\<forall>k. rwTable w k \<noteq> None \<longrightarrow> rwTable w1 k = rwTable w k" and at: "rwTable w1 (tkey E p) = Some (routeRowOf E p)"
      using o InstallNext by (auto simp: stepOK_def)
    note l = Cons.IH [OF i1]
    have eq: "installLoop E (p # plan) ps w = installLoop E plan ps1 w1" using InstallNext by simp
    have "stepOK E T0 (rwTable w) (installLoop E plan ps1 w1)"
      using l keep unfolding stepOK_def by metis
    moreover have "installLoop E plan ps1 w1 = InstallNext qs v \<longrightarrow> rwTable v (tkey E p) = Some (routeRowOf E p)"
      using l at unfolding stepOK_def by (metis option.distinct(1))
    ultimately show ?thesis using eq l by simp
  next
    case (InstallFails ps1 w1)
    then show ?thesis using installOne_table [OF Cons.prems, of p] by (simp add: stepOK_def)
  qed
qed (simp add: stepOK_def)

lemma planned_install_table:
  assumes "installPlannedSelectiveRoutes E plan w = (res, w')" and "T0 = rwTable (snd (journalReconcile E w))"
  shows "case res of
      Inr t \<Rightarrow> txOp t \<and> tableInv E T0 (txInstalled t) (rwTable w') \<and>
        (\<forall>p \<in> set plan. rwTable w' (tkey E p) = Some (routeRowOf E p))
    | Inl e \<Rightarrow> (\<not> e \<longrightarrow> rwTable w' = T0)"
proof -
  obtain f w1 where rc: "journalReconcile E w = (f, w1)" by fastforce
  have T0: "T0 = rwTable w1" using assms(2) rc by simp
  show ?thesis
  proof (cases "f \<or> plan = []")
    case True
    then show ?thesis using assms(1) rc T0
      by (cases f) (auto simp: installPlannedSelectiveRoutes_def tableInv_Nil)
  next
    case False
    have eq: "installRouteTransaction E plan w1 = (res, w')"
      using assms(1) rc False by (simp add: installPlannedSelectiveRoutes_def)
    have i0: "tableInv E T0 [] (rwTable w1)" by (simp add: tableInv_Nil T0)
    show ?thesis
    proof (cases "installLoop E plan [] w1")
      case (InstallNext ps w2)
      then show ?thesis using installLoop_table [OF i0, of plan ps w2] eq
        by (auto simp: installRouteTransaction_def stepOK_def)
    next
      case (InstallFails ps w2)
      let ?t = "\<lparr>txOp = True, txInstalled = ps\<rparr>"
      obtain e t w3 where rb: "txnRollback E ?t w2 = (e, t, w3)" by (cases "txnRollback E ?t w2") auto
      have "tableInv E T0 (txInstalled ?t) (rwTable w2)"
        using installLoop_table [OF i0, of plan] InstallFails by (simp add: stepOK_def)
      from txnRollback_table [OF this _ rb] show ?thesis
        using InstallFails rb eq by (auto simp: installRouteTransaction_def)
    qed
  qed
qed

end
