(* ===== verification/Routes_Plan.thy ===== *)
theory Routes_Plan
  imports Routes ServerRelay_ACL
begin

text \<open>
  Exactly which destinations can be planned, and which relay endpoints the policy accepts.
\<close>

section \<open>The plan\<close>

definition routeAllowed :: "Addr list \<Rightarrow> Prefix \<Rightarrow> bool" where
  "routeAllowed excluded d \<longleftrightarrow> Addr_IsValid (prefixAddr d) \<and> prefixBits d \<noteq> 0 \<and>
     (\<forall>a \<in> set excluded. \<not> prefixContains d (Addr_Unmap a))"

lemma contains_valid: "prefixContains d a \<Longrightarrow> Addr_IsValid a"
  by (simp add: prefixContains_def)

lemma Masked_bits [simp]: "prefixBits (Masked d) = prefixBits d"
  by (simp add: Masked_def)

lemma planRoutes_Cons:
  "planRoutes excluded i plan (d # ds) =
     (if routeAllowed excluded d
      then planRoutes excluded (Suc i) (if Masked d \<in> set plan then plan else plan @ [Masked d]) ds
      else Inl (if \<not> Addr_IsValid (prefixAddr d) then PlanInvalid i
                else if prefixBits d = 0 then PlanDefaultRoute i else ErrRelayRouteConflict i))"
  using contains_valid [of d]
  by (auto simp: routeAllowed_def Let_def list_ex_iff prefixContains_Masked)

declare planRoutes.simps(2) [simp del]

lemma planRoutes_ok:
  assumes "\<forall>d \<in> set ds. routeAllowed excluded d"
  shows "\<exists>out. planRoutes excluded i plan ds = Inr out \<and> set out = set plan \<union> Masked ` set ds \<and>
    (distinct plan \<longrightarrow> distinct out)"
  using assms
proof (induction ds arbitrary: i plan)
  case (Cons d ds)
  let ?plan = "if Masked d \<in> set plan then plan else plan @ [Masked d]"
  from Cons.IH [of "Suc i" ?plan] Cons.prems obtain out where
    o: "planRoutes excluded (Suc i) ?plan ds = Inr out" "set out = set ?plan \<union> Masked ` set ds"
    "distinct ?plan \<longrightarrow> distinct out" by auto
  have "planRoutes excluded i plan (d # ds) = Inr out" using o(1) Cons.prems by (simp add: planRoutes_Cons)
  then show ?case using o(2,3) by auto
qed simp

lemma planRoutes_bad:
  assumes "planRoutes excluded i plan ds = Inr out"
  shows "\<forall>d \<in> set ds. routeAllowed excluded d"
  using assms by (induction ds arbitrary: i plan) (auto simp: planRoutes_Cons split: if_splits)

lemma plan_exact:
  "(\<exists>plan. PlanSelectiveRoutes ds excluded = Inr plan) \<longleftrightarrow> (\<forall>d \<in> set ds. routeAllowed excluded d)"
  using planRoutes_ok [of ds excluded 0 "[]"] planRoutes_bad [of excluded 0 "[]" ds]
  by (auto simp: PlanSelectiveRoutes_def)

lemma plan_elements:
  assumes "PlanSelectiveRoutes ds excluded = Inr plan"
  shows "set plan = Masked ` set ds \<and> distinct plan \<and> (\<forall>d \<in> set ds. routeAllowed excluded d)"
proof -
  have a: "\<forall>d \<in> set ds. routeAllowed excluded d" using assms plan_exact by blast
  from planRoutes_ok [OF a, of 0 "[]"] assms a show ?thesis by (simp add: PlanSelectiveRoutes_def)
qed

section \<open>The policy\<close>

lemma Unmap_Unmap [simp]: "Addr_Unmap (Addr_Unmap a) = Addr_Unmap a"
  by (simp add: Addr_Unmap_def split: Addr.split)

lemma Unmap_zero [simp]: "Addr_Unmap a = AddrZero \<longleftrightarrow> a = AddrZero"
  by (cases a) (simp_all add: Addr_Unmap_def)

lemma zoneless_Unmap: "zoneless a \<Longrightarrow> zoneless (Addr_Unmap a)"
  by (cases a) (simp_all add: Addr_Unmap_def)

lemma withoutZone_zoneless: "zoneless a \<Longrightarrow> withoutZone a = a"
  by (cases a) (simp_all add: withoutZone_def)

lemma withoutZone_zero [simp]: "withoutZone a = AddrZero \<longleftrightarrow> a = AddrZero"
  by (cases a) (simp_all add: withoutZone_def)

lemma udpIP_approved:
  assumes "zoneless a"
  shows "udpIP (UDPAddrFromAddrPort \<lparr>apAddr = Addr_Unmap a, apPort = port\<rparr>) = Addr_Unmap a"
  using assms by (simp add: udpIP_def UDPAddrFromAddrPort_def withoutZone_zoneless zoneless_Unmap)

text \<open>A port in range is read back from its 16 bits.\<close>

lemma port_inject:
  fixes m n :: int
  assumes "1 \<le> m" "m \<le> 65535" "1 \<le> n" "n \<le> 65535" "(of_int m :: u16) = of_int n"
  shows "m = n"
proof -
  have "uint (of_int m :: u16) = uint (of_int n :: u16)" using assms(5) by simp
  then show ?thesis using assms(1-4) by (simp add: unsigned_of_int take_bit_int_eq_self)
qed

lemma validateRoute_iff:
  "validateTGPRemoteRoute gameRoutes (Some u) = None \<longleftrightarrow>
     uaIP u \<noteq> AddrZero \<and> (\<forall>d \<in> set gameRoutes. routeAllowed [udpIP u] d)"
  using plan_exact [of gameRoutes "[udpIP u]"]
  by (auto simp: validateTGPRemoteRoute_def split: sum.split)

lemma approve_exact:
  assumes "approveEndpoints gameRoutes port done addrs = Inr approved"
  shows "set approved = set done \<union> (\<lambda>a. \<lparr>apAddr = Addr_Unmap a, apPort = port\<rparr>) ` {a \<in> set addrs. a \<noteq> AddrZero} \<and>
    (\<forall>a \<in> set addrs. a \<noteq> AddrZero \<longrightarrow> \<lparr>apAddr = Addr_Unmap a, apPort = port\<rparr> \<notin> set done \<longrightarrow>
       validateTGPRemoteRoute gameRoutes
         (Some (UDPAddrFromAddrPort \<lparr>apAddr = Addr_Unmap a, apPort = port\<rparr>)) = None)"
  using assms
proof (induction addrs arbitrary: "done")
  case (Cons a addrs)
  let ?e = "\<lparr>apAddr = Addr_Unmap a, apPort = port\<rparr>"
  consider "a = AddrZero" | "a \<noteq> AddrZero" "?e \<in> set done" | "a \<noteq> AddrZero" "?e \<notin> set done" by blast
  then show ?case
  proof cases
    case 1
    then show ?thesis using Cons by (auto simp: Addr_IsValid_def)
  next
    case 2
    then show ?thesis using Cons by (auto simp: Addr_IsValid_def)
  next
    case 3
    then have v: "validateTGPRemoteRoute gameRoutes (Some (UDPAddrFromAddrPort ?e)) = None"
      and r: "approveEndpoints gameRoutes port (done @ [?e]) addrs = Inr approved"
      using Cons.prems by (auto simp: Addr_IsValid_def Let_def split: option.splits)
    from Cons.IH [OF r] show ?thesis using 3 v by auto
  qed
qed simp

lemma policy_parts:
  assumes "newTGPRelayPolicy raw addrs gameRoutes = Inr p"
  shows "\<exists>port. 1 \<le> port \<and> port \<le> 65535 \<and> trGameRoutes p = gameRoutes \<and> trApproved p \<noteq> [] \<and>
    approveEndpoints gameRoutes (of_int port) [] addrs = Inr (trApproved p)"
  using assms
  by (auto simp: newTGPRelayPolicy_def not_less split: option.splits prod.splits if_splits sum.splits)

text \<open>
  C32. The policy for relay endpoints keeps the relay off the tunnel. If the policy is made from resolved
  addresses without zones, the game routes can be planned with all these addresses excluded; an endpoint
  is accepted exactly when its address, unmapped, is one of the resolved ones and its port is the
  configured one; and no planned route contains an accepted endpoint.
\<close>

theorem relay_policy_exact:
  assumes "newTGPRelayPolicy raw addrs gameRoutes = Inr p" and "\<forall>a \<in> set addrs. zoneless a"
  shows "\<exists>port plan. 1 \<le> port \<and> port \<le> 65535 \<and> PlanSelectiveRoutes gameRoutes addrs = Inr plan \<and>
    (\<forall>u. policyValidate p (Some u) = None \<longleftrightarrow>
       udpIP u \<noteq> AddrZero \<and> udpIP u \<in> Addr_Unmap ` set addrs \<and> uaPort u = port) \<and>
    (\<forall>u. policyValidate p (Some u) = None \<longrightarrow> (\<forall>d \<in> set plan. \<not> prefixContains d (udpIP u)))"
proof -
  obtain port where bound: "1 \<le> port" "port \<le> 65535" and port: "trGameRoutes p = gameRoutes" "trApproved p \<noteq> []"
    and ap: "approveEndpoints gameRoutes (of_int port) [] addrs = Inr (trApproved p)"
    using policy_parts [OF assms(1)] by blast
  let ?e = "\<lambda>a. \<lparr>apAddr = Addr_Unmap a, apPort = of_int port\<rparr>"
  have set: "set (trApproved p) = ?e ` {a \<in> set addrs. a \<noteq> AddrZero}"
    and ok: "\<And>a. a \<in> set addrs \<Longrightarrow> a \<noteq> AddrZero \<Longrightarrow> validateTGPRemoteRoute gameRoutes (Some (UDPAddrFromAddrPort (?e a))) = None"
    using approve_exact [OF ap] by auto
  have allowed: "\<forall>d \<in> set gameRoutes. routeAllowed [Addr_Unmap a] d" if "a \<in> set addrs" "a \<noteq> AddrZero" for a
    using ok [OF that] udpIP_approved [of a "of_int port"] assms(2) that(1) by (simp add: validateRoute_iff)
  have all: "\<forall>d \<in> set gameRoutes. routeAllowed addrs d"
  proof
    fix d assume d: "d \<in> set gameRoutes"
    have "\<not> prefixContains d (Addr_Unmap a)" if "a \<in> set addrs" for a
      using allowed [OF that] d contains_valid [of d "Addr_Unmap a"] by (auto simp: routeAllowed_def Addr_IsValid_def)
    moreover have "Addr_IsValid (prefixAddr d) \<and> prefixBits d \<noteq> 0"
    proof -
      from port(2) obtain x where "x \<in> set (trApproved p)" by (cases "trApproved p") auto
      then obtain a where "a \<in> set addrs" "a \<noteq> AddrZero" unfolding set by blast
      from allowed [OF this] d show ?thesis by (auto simp: routeAllowed_def)
    qed
    ultimately show "routeAllowed addrs d" by (simp add: routeAllowed_def)
  qed
  then obtain plan where plan: "PlanSelectiveRoutes gameRoutes addrs = Inr plan" using plan_exact by blast
  have val: "policyValidate p (Some u) = None \<longleftrightarrow>
      udpIP u \<noteq> AddrZero \<and> udpIP u \<in> Addr_Unmap ` set addrs \<and> uaPort u = port" for u
  proof -
    have z: "udpIP u = AddrZero \<longleftrightarrow> uaIP u = AddrZero" by (simp add: udpIP_def)
    have m: "\<lparr>apAddr = udpIP u, apPort = of_int (uaPort u)\<rparr> \<in> set (trApproved p) \<longleftrightarrow>
        udpIP u \<noteq> AddrZero \<and> udpIP u \<in> Addr_Unmap ` set addrs \<and> (of_int (uaPort u) :: u16) = of_int port"
    proof -
      have "x = AddrZero" if "AddrZero = Addr_Unmap x" for x using that [symmetric] by simp
      then show ?thesis unfolding set by (auto simp: image_iff)
    qed
    have "\<forall>d \<in> set gameRoutes. routeAllowed [udpIP u] d" if "udpIP u \<noteq> AddrZero" "udpIP u \<in> Addr_Unmap ` set addrs"
      using that allowed by (auto simp: routeAllowed_def)
    moreover have "policyValidate p (Some u) = None \<longleftrightarrow> uaIP u \<noteq> AddrZero \<and>
        (\<forall>d \<in> set gameRoutes. routeAllowed [udpIP u] d) \<and> 1 \<le> uaPort u \<and> uaPort u \<le> 65535 \<and>
        \<lparr>apAddr = udpIP u, apPort = of_int (uaPort u)\<rparr> \<in> set (trApproved p)"
      using validateRoute_iff [of gameRoutes u] port(1)
      by (auto simp: policyValidate_def not_less split: option.splits)
    ultimately show ?thesis using m z bound port_inject [of "uaPort u" port] by auto
  qed
  have "\<not> prefixContains d (udpIP u)" if h: "policyValidate p (Some u) = None" "d \<in> set plan" for u d
  proof -
    obtain a where a: "a \<in> set addrs" "udpIP u = Addr_Unmap a" using iffD1 [OF val h(1)] by blast
    obtain g where g: "g \<in> set gameRoutes" "d = Masked g" using h(2) plan_elements [OF plan] by auto
    then show ?thesis using all a by (auto simp: routeAllowed_def prefixContains_Masked)
  qed
  then show ?thesis using bound plan val by blast
qed

text \<open>An approved endpoint with a zone is never accepted.\<close>

theorem zoned_relay_refused:
  assumes "newTGPRelayPolicy raw [Addr6 b z] gameRoutes = Inr p" and "z \<noteq> []"
    and "gslice 0 12 b \<noteq> zeros 10 @ [0xff, 0xff]"
  shows "trApproved p \<noteq> [] \<and> policyValidate p (Some u) \<noteq> None"
proof -
  obtain port where ap: "trApproved p \<noteq> []" "approveEndpoints gameRoutes port [] [Addr6 b z] = Inr (trApproved p)"
    using policy_parts [OF assms(1)] by blast
  have "Addr_Unmap (Addr6 b z) = Addr6 b z" using assms(3) by (simp add: Addr_Unmap_def)
  then have s: "set (trApproved p) = {\<lparr>apAddr = Addr6 b z, apPort = port\<rparr>}"
    using approve_exact [OF ap(2)] by auto
  have "udpIP u \<noteq> Addr6 b z"
    using assms(2) by (cases "uaIP u") (auto simp: udpIP_def withoutZone_def Addr_Unmap_def split: if_splits)
  then have "\<lparr>apAddr = udpIP u, apPort = of_int (uaPort u)\<rparr> \<notin> set (trApproved p)" using s by auto
  then show ?thesis using ap(1) by (auto simp: policyValidate_def split: option.splits)
qed

definition demo_game_routes :: "Prefix list" where
  "demo_game_routes = [\<lparr>prefixAddr = Addr4 [10, 1, 2, 0], prefixBits = 24\<rparr>]"

lemma demo_port: "parseAtoi ''443'' = Some 443"
  by (simp add: parseAtoi_def parseUint_def digitVal_def)

lemma demo_policy:
  assumes "splitHostPort (trimSpace raw) = Some (host, ''443'')"
    and "approveEndpoints demo_game_routes 443 [] addrs = Inr approved" and "approved \<noteq> []"
  shows "newTGPRelayPolicy raw addrs demo_game_routes = Inr \<lparr>trApproved = approved, trGameRoutes = demo_game_routes\<rparr>"
  using assms by (simp add: newTGPRelayPolicy_def demo_port)

theorem relay_policy_exact_witness:
  "\<exists>p port plan. newTGPRelayPolicy ''relay:443'' [Addr4 [1, 2, 3, 4]] demo_game_routes = Inr p \<and>
     PlanSelectiveRoutes demo_game_routes [Addr4 [1, 2, 3, 4]] = Inr plan \<and>
     policyValidate p (Some \<lparr>uaIP = Addr4 [1, 2, 3, 4], uaPort = port\<rparr>) = None"
proof -
  have s: "splitHostPort (trimSpace ''relay:443'') = Some (''relay'', ''443'')" by code_simp
  have a: "approveEndpoints demo_game_routes 443 [] [Addr4 [1, 2, 3, 4]] = Inr [\<lparr>apAddr = Addr4 [1, 2, 3, 4], apPort = 443\<rparr>]"
    by code_simp
  from demo_policy [OF s a] obtain p where
    p: "newTGPRelayPolicy ''relay:443'' [Addr4 [1, 2, 3, 4]] demo_game_routes = Inr p" by simp
  from relay_policy_exact [OF p] obtain port plan where
    "PlanSelectiveRoutes demo_game_routes [Addr4 [1, 2, 3, 4]] = Inr plan"
    "\<forall>u. policyValidate p (Some u) = None \<longleftrightarrow>
       udpIP u \<noteq> AddrZero \<and> udpIP u \<in> Addr_Unmap ` set [Addr4 [1, 2, 3, 4]] \<and> uaPort u = port"
    by auto
  moreover have "udpIP \<lparr>uaIP = Addr4 [1, 2, 3, 4], uaPort = port\<rparr> = Addr4 [1, 2, 3, 4]"
    by (simp add: udpIP_def withoutZone_def Addr_Unmap_def)
  ultimately show ?thesis using p by (auto simp: Addr_Unmap_def)
qed

theorem zoned_relay_refused_witness:
  "\<exists>p. newTGPRelayPolicy ''[fe80::1%e]:443'' [Addr6 ([0xfe, 0x80] @ zeros 13 @ [1]) ''e''] demo_game_routes = Inr p \<and>
     policyValidate p (Some \<lparr>uaIP = Addr6 ([0xfe, 0x80] @ zeros 13 @ [1]) ''e'', uaPort = 443\<rparr>) \<noteq> None"
proof -
  let ?a = "Addr6 ([0xfe, 0x80] @ zeros 13 @ [1]) ''e''"
  have s: "splitHostPort (trimSpace ''[fe80::1%e]:443'') = Some (''fe80::1%e'', ''443'')" by code_simp
  have a: "\<exists>ap. approveEndpoints demo_game_routes 443 [] [?a] = Inr ap \<and> ap \<noteq> []"
    by (rule exI [of _ "[\<lparr>apAddr = ?a, apPort = 443\<rparr>]"]) code_simp
  then obtain p where p: "newTGPRelayPolicy ''[fe80::1%e]:443'' [?a] demo_game_routes = Inr p"
    using demo_policy [OF s] by blast
  have "gslice 0 12 ([0xfe, 0x80] @ zeros 13 @ [1]) \<noteq> zeros 10 @ [0xff, 0xff]" by code_simp
  from zoned_relay_refused [OF p _ this, of "\<lparr>uaIP = ?a, uaPort = 443\<rparr>"] p show ?thesis by auto
qed

end
