(* ===== verification/Routes_Quiet.thy ===== *)
theory Routes_Quiet
  imports Routes_Table Routes_Plan
begin

text \<open>
  Runs without failures: the world after each route installed or removed is given exactly, so the
  installation succeeds and the rollback takes everything back.
\<close>

section \<open>Keys\<close>

lemma Masked_wf: "wf_addr (prefixAddr p) \<Longrightarrow> wf_addr (prefixAddr (Masked p))"
  by (cases "prefixAddr p") (simp_all add: Masked_def maskBytes_def)

lemma Masked_zone: "prefixAddr (Masked p) = Addr6 b z \<Longrightarrow> z = []"
  by (auto simp: Masked_def split: Addr.splits)

lemma raw_same:
  assumes "rawSockaddrInet (Addr6 b []) = rawSockaddrInet (Addr6 c [])" and "length b = 16" and "length c = 16"
  shows "b = c"
proof -
  have t: "take 12 x @ drop 12 x = x" and g: "gslice 0 12 x = take 12 x" for x :: bytes
    by (simp_all add: gslice_def)
  show ?thesis
    using assms by (auto simp: rawSockaddrInet_def Addr_Unmap_def g split: if_splits) (metis t)
qed

lemma tkey_inj:
  assumes "tkey E p = tkey E q" and "wf_addr (prefixAddr p)" and "wf_addr (prefixAddr q)"
    and "Addr_IsValid (prefixAddr p)" and "Addr_IsValid (prefixAddr q)"
  shows "Masked p = Masked q"
proof -
  let ?a = "prefixAddr (Masked p)" and ?b = "prefixAddr (Masked q)"
  have k: "rawSockaddrInet ?a = rawSockaddrInet ?b" "prefixBits (Masked p) = prefixBits (Masked q)"
    "Addr_Is4 ?a = Addr_Is4 ?b"
    using assms(1) by (auto simp: tkey_def rowKey_def routeRowOf_def Let_def split: if_splits)
  have w: "wf_addr ?a" "wf_addr ?b" using assms(2,3) Masked_wf by auto
  have v: "?a \<noteq> AddrZero" "?b \<noteq> AddrZero"
    using assms(4,5) by (auto simp: Masked_def Addr_IsValid_def split: Addr.splits)
  have "?a = ?b"
  proof (cases ?a)
    case (Addr4 x)
    then obtain y where y: "?b = Addr4 y" using k(3) v(2) by (cases ?b) auto
    then show ?thesis using k(1) Addr4 by (simp add: rawSockaddrInet_def Addr_Unmap_def)
  next
    case (Addr6 x z)
    then obtain y z' where y: "?b = Addr6 y z'" using k(3) v(2) by (cases ?b) auto
    have "z = []" "z' = []" using Masked_zone [OF Addr6] Masked_zone [OF y] by auto
    then show ?thesis using raw_same [of x y] k(1) w Addr6 y by simp
  qed (use v in simp)
  then show ?thesis using k(2) by (simp add: Prefix.equality)
qed

section \<open>Runs without failures\<close>

definition activeEntry :: "routeEnv \<Rightarrow> Prefix \<Rightarrow> nat \<Rightarrow> windowsRouteJournalEntry" where
  "activeEntry E p n = newWindowsRouteJournalEntry E p (hexEncode (reRandom E n)) windowsRouteActive"

definition addRows :: "routeEnv \<Rightarrow> routeTable \<Rightarrow> Prefix list \<Rightarrow> routeTable" where
  "addRows E T0 ps = foldl (\<lambda>t p. t(tkey E p \<mapsto> routeRowOf E p)) T0 ps"

text \<open>The world in which exactly the routes \<open>ps\<close> are installed over \<open>T0\<close>.\<close>

definition installedWorld :: "routeEnv \<Rightarrow> routeTable \<Rightarrow> Prefix list \<Rightarrow> nat list \<Rightarrow> routeWorld \<Rightarrow> bool" where
  "installedWorld E T0 ps ns w \<longleftrightarrow> \<not> rwHung w \<and> rwTransition w = None \<and> length ns = length ps \<and> distinct ns \<and>
     (\<forall>n \<in> set ns. n < rwCalls w) \<and> rwTable w = addRows E T0 ps \<and>
     rwJournal w = \<lparr>jdVersion = windowsRouteJournalVersion, jdEntries = map2 (activeEntry E) ps ns\<rparr>"

definition goodPrefix :: "routeEnv \<Rightarrow> Prefix \<Rightarrow> bool" where
  "goodPrefix E p \<longleftrightarrow> p = Masked p \<and> plannable E p"

lemma findEntry_last:
  assumes "\<forall>x \<in> set xs. \<not> P x" and "P e"
  shows "findEntry P \<lparr>jdVersion = v, jdEntries = xs @ [e]\<rparr> = Some (length xs, e)"
proof -
  have "find (\<lambda>(i, entry). P entry) (enumerate 0 xs @ [(length xs, e)]) = Some (length xs, e)"
    unfolding find_Some_iff using assms
    by (intro exI [of _ "length xs"]) (auto simp: nth_append nth_enumerate_eq)
  then show ?thesis by (simp add: findEntry_def enumerate_append_eq)
qed

lemma setEntryState_last:
  "setEntryState (length xs) st \<lparr>jdVersion = v, jdEntries = xs @ [e]\<rparr> =
     \<lparr>jdVersion = v, jdEntries = xs @ [e\<lparr>jeState := st\<rparr>]\<rparr>"
  by (simp add: setEntryState_def)

lemma quiet_own:
  assumes "quietEnv E" and "\<not> rwHung w"
  shows "callFails E w = False" "ctxDone E w = False"
  using quiet_simps [OF assms] by auto

lemma quiet_opRead:
  assumes "quietEnv E" and "\<not> rwHung w"
  shows "opRead E p w = (Some \<lparr>rsExists = rwTable w (tkey E p) \<noteq> None,
    rsMatches = (rwTable w (tkey E p) = Some (routeRowOf E p))\<rparr>, called w)"
  using quiet_own [OF assms] by (auto simp: opRead_def Let_def tkey_def rows_match split: option.splits)

lemma quiet_opAdd:
  assumes "quietEnv E" and "\<not> rwHung w" and "rwTable w (tkey E p) = None"
  shows "opAdd E p w = (True, False, (called w)\<lparr>rwTable := (rwTable w)(tkey E p \<mapsto> routeRowOf E p)\<rparr>)"
  using quiet_own [OF assms(1), of w] quiet_own [OF assms(1), of "called w"] assms(2,3)
  by (simp add: opAdd_def Let_def tkey_def)

lemma quiet_opDelete:
  assumes "quietEnv E" and "\<not> rwHung w" and "rwTable w (tkey E p) = Some (routeRowOf E p)"
  shows "opDelete E p w = (True, False, (called (called w))\<lparr>rwTable := (rwTable w)(tkey E p := None)\<rparr>)"
  using quiet_own [OF assms(1), of w] quiet_own [OF assms(1), of "called w"]
    quiet_own [OF assms(1), of "called (called w)"] assms(2,3)
  by (simp add: opDelete_def Let_def tkey_def rows_match)

lemma quiet_load:
  assumes "quietEnv E" and "\<not> rwHung w" and "rwJournal w = \<lparr>jdVersion = windowsRouteJournalVersion, jdEntries = es\<rparr>"
    and "distinct (map jeTransactionID es)"
  shows "journalLoad E w = (Some (rwJournal w), called w)"
  using quiet_own [OF assms(1,2)] assms(3,4) by (simp add: journalLoad_def)

lemma quiet_lock:
  assumes "quietEnv E" and "\<not> rwHung w" and "rwTransition w = None"
  shows "journalLock E w = (False, called w)"
  using quiet_own [OF assms(1,2)] assms(3) by (simp add: journalLock_def)

lemma quiet_unlock:
  assumes "quietEnv E" and "\<not> rwHung w"
  shows "journalUnlock E w = (False, called w)"
  using quiet_own [OF assms] by (simp add: journalUnlock_def)

lemma active_ids: "length ns = length ps \<Longrightarrow>
    map jeTransactionID (map2 (activeEntry E) ps ns) = map (\<lambda>n. hexEncode (reRandom E n)) ns"
  by (rule nth_equalityI) (simp_all add: activeEntry_def newWindowsRouteJournalEntry_def)

lemma ids_distinct:
  assumes "distinct ns" and "\<forall>n \<in> set ns. n < N" and "inj_on (reRandom E) {..<N}"
  shows "distinct (map (\<lambda>n. hexEncode (reRandom E n)) ns)"
  using assms by (auto simp: distinct_map inj_on_def hexEncode_inj)

lemma text_inj:
  assumes "goodPrefix E p" and "goodPrefix E q" and "rePrefixText E p = rePrefixText E q"
  shows "p = q"
proof -
  have "Masked p = p" "Masked q = q" using assms(1,2) by (simp_all add: goodPrefix_def)
  then show ?thesis using assms by (auto simp: goodPrefix_def plannable_def prefixTextOK_def)
qed

lemma canonical_text: "goodPrefix E p \<Longrightarrow> canonicalDestination E (rePrefixText E p) = Some p"
  by (auto simp: goodPrefix_def plannable_def prefixTextOK_def canonicalDestination_def split: option.split)

lemma active_fields [simp]:
  "jeInterfaceLUID (activeEntry E p n) = reLuid E" "jeState (activeEntry E p n) = windowsRouteActive"
  "jeDestination (activeEntry E p n) = rePrefixText E (Masked p)"
  "jeTransactionID (activeEntry E p n) = hexEncode (reRandom E n)"
  by (simp_all add: activeEntry_def newWindowsRouteJournalEntry_def)

lemma in_map2: "x \<in> set (map2 f ps ns) \<Longrightarrow> \<exists>p n. p \<in> set ps \<and> n \<in> set ns \<and> x = f p n"
  by (auto dest: set_zip_leftD set_zip_rightD)

lemma own_last:
  assumes "goodPrefix E p" and "\<forall>q \<in> set ps. goodPrefix E q" and "p \<notin> set ps"
    and "x \<in> set (map2 (activeEntry E) ps ns)"
  shows "jeDestination x \<noteq> rePrefixText E p"
proof -
  obtain q n where q: "q \<in> set ps" "x = activeEntry E q n" using in_map2 [OF assms(4)] by blast
  have "q = Masked q" using assms(2) q(1) by (simp add: goodPrefix_def)
  then show ?thesis using text_inj [OF assms(1), of q] assms(2,3) q by auto
qed

lemma destination_free:
  assumes "goodPrefix E p" and "\<forall>q \<in> set ps. goodPrefix E q" and "p \<notin> set ps"
  shows "destinationFree E p \<lparr>jdVersion = v, jdEntries = map2 (activeEntry E) ps ns\<rparr>"
proof -
  have "canonicalDestination E (jeDestination x) = Some q \<and> q \<noteq> p"
    if "q \<in> set ps" "x = activeEntry E q n" for x q n
    using canonical_text [of E q] assms that by (auto simp: goodPrefix_def)
  then have "canonicalDestination E (jeDestination x) \<noteq> None \<and> canonicalDestination E (jeDestination x) \<noteq> Some p"
    if "x \<in> set (map2 (activeEntry E) ps ns)" for x using in_map2 [OF that] by fastforce
  then show ?thesis by (simp add: destinationFree_def del: set_map)
qed

lemma addRows_snoc: "addRows E T0 (ps @ [p]) = (addRows E T0 ps)(tkey E p \<mapsto> routeRowOf E p)"
  by (simp add: addRows_def)

lemma addRows_other: "k \<notin> tkey E ` set ps \<Longrightarrow> addRows E T0 ps k = T0 k"
  by (induction ps rule: rev_induct) (simp_all add: addRows_snoc, simp add: addRows_def)

text \<open>One route: it is prepared, added, recorded and read back.\<close>

lemma prepare_quiet:
  assumes "quietEnv E" and "installedWorld E T0 ps ns w" and "goodPrefix E p" and "\<forall>q \<in> set ps. goodPrefix E q"
    and "p \<notin> set ps" and "rwTable w (tkey E p) = None" and "inj_on (reRandom E) {..<N}" and "rwCalls w \<le> N"
  shows "\<exists>n w'. journalPrepare E p w = (False, w') \<and> n \<notin> set ns \<and> n < rwCalls w' \<and> rwCalls w' = rwCalls w + 6 \<and>
    \<not> rwHung w' \<and> rwTable w' = rwTable w \<and> rwTransition w' = Some (p, hexEncode (reRandom E n)) \<and> n = rwCalls w + 4 \<and>
    rwJournal w' = \<lparr>jdVersion = windowsRouteJournalVersion, jdEntries = map2 (activeEntry E) ps ns @
      [newWindowsRouteJournalEntry E p (hexEncode (reRandom E n)) windowsRoutePending]\<rparr>"
proof -
  let ?d = "\<lparr>jdVersion = windowsRouteJournalVersion, jdEntries = map2 (activeEntry E) ps ns\<rparr>"
  have w: "\<not> rwHung w" "rwTransition w = None" "rwJournal w = ?d" "length ns = length ps" "distinct ns"
    "\<forall>n \<in> set ns. n < rwCalls w"
    using assms(2) by (auto simp: installedWorld_def)
  have ids: "distinct (map jeTransactionID (map2 (activeEntry E) ps ns))"
    unfolding active_ids [OF w(4)] using ids_distinct [OF w(5) _ assms(7)] w(6) assms(8) by fastforce
  have p: "Masked p = p" using assms(3) by (simp add: goodPrefix_def)
  let ?c = "called w" and ?cc = "called (called w)" and ?c3 = "called (called (called w))"
    and ?c4 = "called (called (called (called w)))"
  have l: "journalLoad E ?c3 = (Some ?d, ?c4)"
    using quiet_load [OF assms(1), of ?c3 "map2 (activeEntry E) ps ns"] w(1,3) ids by simp
  have r: "opRead E p ?cc = (Some \<lparr>rsExists = False, rsMatches = False\<rparr>, ?c3)"
    using quiet_opRead [OF assms(1), of ?cc p] w(1) assms(6) by simp
  have f: "destinationFree E p ?d" by (rule destination_free [OF assms(3-5)])
  have i: "newTransactionID E ?c4 = (Some (hexEncode (reRandom E (rwCalls w + 4))), called ?c4)"
    using quiet_own [OF assms(1), of ?c4] w(1) by (simp add: newTransactionID_def eval_nat_numeral)
  have "journalPrepare E p w = prepareLocked E p ?cc"
    using quiet_own [OF assms(1) w(1)] quiet_lock [OF assms(1), of ?c] w(1,2) p by (simp add: journalPrepare_def)
  also have "\<dots> = (False, (called (called ?c4))\<lparr>rwJournal := \<lparr>jdVersion = windowsRouteJournalVersion,
      jdEntries = map2 (activeEntry E) ps ns @
        [newWindowsRouteJournalEntry E p (hexEncode (reRandom E (rwCalls w + 4))) windowsRoutePending]\<rparr>,
      rwTransition := Some (p, hexEncode (reRandom E (rwCalls w + 4)))\<rparr>)"
    using r l f i quiet_save [OF assms(1), of "called ?c4"] w(1) by (simp add: prepareLocked_def)
  finally show ?thesis using w(1,6) by (intro exI [of _ "rwCalls w + 4"]) auto
qed

lemma record_quiet:
  assumes "quietEnv E" and "\<not> rwHung w" and "routeEnvOK E" and "goodPrefix E p" and "\<forall>q \<in> set ps. goodPrefix E q"
    and "p \<notin> set ps" and "length ns = length ps" and "distinct (n # ns)" and "\<forall>m \<in> set (n # ns). m < N"
    and "inj_on (reRandom E) {..<N}" and "rwTransition w = Some (p, hexEncode (reRandom E n))"
    and "rwJournal w = \<lparr>jdVersion = windowsRouteJournalVersion, jdEntries = map2 (activeEntry E) ps ns @
      [newWindowsRouteJournalEntry E p (hexEncode (reRandom E n)) windowsRoutePending]\<rparr>"
  shows "\<exists>w'. journalRecord E p w = (False, False, w') \<and> \<not> rwHung w' \<and> rwTransition w' = None \<and>
    rwTable w' = rwTable w \<and> rwCalls w' = rwCalls w + 3 \<and>
    rwJournal w' = \<lparr>jdVersion = windowsRouteJournalVersion, jdEntries = map2 (activeEntry E) (ps @ [p]) (ns @ [n])\<rparr>"
proof -
  let ?txn = "hexEncode (reRandom E n)" and ?es = "map2 (activeEntry E) ps ns"
  let ?x = "newWindowsRouteJournalEntry E p ?txn windowsRoutePending"
  let ?d = "\<lparr>jdVersion = windowsRouteJournalVersion, jdEntries = ?es @ [?x]\<rparr>"
  have p: "Masked p = p" "prefixTextOK E p" "p = Masked p" "prefixBits p \<noteq> 0"
    using assms(4) by (auto simp: goodPrefix_def plannable_def)
  have tx: "jeTransactionID ?x = ?txn" by (simp add: newWindowsRouteJournalEntry_def)
  have "distinct (map (\<lambda>n. hexEncode (reRandom E n)) (n # ns))"
    by (rule ids_distinct [OF assms(8,9,10)])
  then have ids: "distinct (map jeTransactionID (?es @ [?x]))"
    using active_ids [OF assms(7), of E] tx by auto
  let ?w = "w\<lparr>rwTransition := None\<rparr>"
  have t: "takeTransition p w = (Some ?txn, ?w)" using assms(11) p(1) by (simp add: takeTransition_def)
  have l: "journalLoad E ?w = (Some ?d, called ?w)"
    using quiet_load [OF assms(1), of ?w "?es @ [?x]"] assms(2,12) ids by simp
  have own: "ownEntry E p ?txn ?x" using p(1) by (simp add: ownEntry_def newWindowsRouteJournalEntry_def)
  have notown: "\<forall>y \<in> set ?es. \<not> ownEntry E p ?txn y"
    using own_last [OF assms(4-6)] p(1) by (auto simp: ownEntry_def simp del: set_map)
  have f: "findEntry (ownEntry E p ?txn) ?d = Some (length ?es, ?x)"
    by (rule findEntry_last [OF notown own])
  have v: "validateEntry E ?x = Some p" by (rule newEntry_valid [OF assms(3) p(2-4)])
  have st: "jeState ?x = windowsRoutePending" by (simp add: newWindowsRouteJournalEntry_def)
  have set: "setEntryState (length ?es) windowsRouteActive ?d =
      \<lparr>jdVersion = windowsRouteJournalVersion, jdEntries = map2 (activeEntry E) (ps @ [p]) (ns @ [n])\<rparr>"
    using setEntryState_last [of ?es windowsRouteActive windowsRouteJournalVersion ?x] assms(7)
    by (simp add: activeEntry_def newWindowsRouteJournalEntry_def)
  let ?w2 = "(called (called ?w))\<lparr>rwJournal := setEntryState (length ?es) windowsRouteActive ?d\<rparr>"
  have sv: "journalSave E (setEntryState (length ?es) windowsRouteActive ?d) (called ?w) = (False, ?w2)"
    using quiet_save [OF assms(1), of "called ?w"] assms(2) by simp
  have "recordLocked E p ?txn ?w = (False, False, ?w2)"
    using l f v st sv by (simp add: recordLocked_def)
  then have "journalRecord E p w = (False, False, called ?w2)"
    using t quiet_unlock [OF assms(1), of ?w2] assms(2) by (simp add: journalRecord_def)
  then show ?thesis using assms(2) set by simp
qed

lemma installOne_quiet:
  assumes "quietEnv E" and "routeEnvOK E" and "installedWorld E T0 ps ns w" and "goodPrefix E p"
    and "\<forall>q \<in> set ps. goodPrefix E q" and "p \<notin> set ps" and "T0 (tkey E p) = None" and "tkey E p \<notin> tkey E ` set ps"
    and "inj_on (reRandom E) {..<N}" and "rwCalls w + 12 \<le> N"
  shows "\<exists>n w'. installOne E p ps w = InstallNext (ps @ [p]) w' \<and> installedWorld E T0 (ps @ [p]) (ns @ [n]) w' \<and>
    rwCalls w' = rwCalls w + 12"
proof -
  have w: "\<not> rwHung w" "rwTable w = addRows E T0 ps" "length ns = length ps" "distinct ns" "\<forall>n \<in> set ns. n < rwCalls w"
    using assms(3) by (auto simp: installedWorld_def)
  have absent: "rwTable w (tkey E p) = None" using w(2) addRows_other [OF assms(8), of T0] assms(7) by simp
  have iw: "installedWorld E T0 ps ns (called w)"
    using assms(3) by (auto simp: installedWorld_def)
  have "rwCalls (called w) \<le> N" using assms(10) by simp
  from prepare_quiet [OF assms(1) iw assms(4-6) _ assms(9) this] absent obtain n w1 where
    pr: "journalPrepare E p (called w) = (False, w1)" and n: "n \<notin> set ns" "n < rwCalls w1" and
    c1: "rwCalls w1 = rwCalls w + 7" "\<not> rwHung w1" "rwTable w1 = rwTable w"
      "rwTransition w1 = Some (p, hexEncode (reRandom E n))" and
    j1: "rwJournal w1 = \<lparr>jdVersion = windowsRouteJournalVersion, jdEntries = map2 (activeEntry E) ps ns @
      [newWindowsRouteJournalEntry E p (hexEncode (reRandom E n)) windowsRoutePending]\<rparr>"
    by auto
  let ?w2 = "(called w1)\<lparr>rwTable := (rwTable w1)(tkey E p \<mapsto> routeRowOf E p)\<rparr>"
  have add: "opAdd E p w1 = (True, False, ?w2)"
    by (rule quiet_opAdd [OF assms(1) c1(2)]) (use c1(3) absent in simp)
  have bound: "\<forall>m \<in> set (n # ns). m < N" using n(2) c1(1) w(5) assms(10) by fastforce
  have "\<exists>w'. journalRecord E p ?w2 = (False, False, w') \<and> \<not> rwHung w' \<and> rwTransition w' = None \<and>
      rwTable w' = rwTable ?w2 \<and> rwCalls w' = rwCalls ?w2 + 3 \<and>
      rwJournal w' = \<lparr>jdVersion = windowsRouteJournalVersion, jdEntries = map2 (activeEntry E) (ps @ [p]) (ns @ [n])\<rparr>"
    by (rule record_quiet [OF assms(1) _ assms(2,4-6) w(3) _ bound assms(9)]) (use c1 j1 n w(4) in simp_all)
  then obtain w3 where rec: "journalRecord E p ?w2 = (False, False, w3)" and
    c3: "\<not> rwHung w3" "rwTransition w3 = None" "rwTable w3 = rwTable ?w2" "rwCalls w3 = rwCalls ?w2 + 3" and
    j3: "rwJournal w3 = \<lparr>jdVersion = windowsRouteJournalVersion, jdEntries = map2 (activeEntry E) (ps @ [p]) (ns @ [n])\<rparr>"
    by blast
  have rd: "opRead E p w3 = (Some \<lparr>rsExists = True, rsMatches = True\<rparr>, called w3)"
    using quiet_opRead [OF assms(1) c3(1), of p] c3(3) by simp
  have "addRoute E p ps w1 = InstallNext (ps @ [p]) (called w3)"
    using add rec rd by (simp add: addRoute_def afterAdd_def)
  then have "installOne E p ps w = InstallNext (ps @ [p]) (called w3)"
    using quiet_own [OF assms(1) w(1)] quiet_opRead [OF assms(1) w(1), of p] absent pr by (simp add: installOne_def)
  moreover have "installedWorld E T0 (ps @ [p]) (ns @ [n]) (called w3)"
    unfolding installedWorld_def using c3 j3 c1 w n by (auto simp: addRows_snoc)
  ultimately show ?thesis using c3(4) c1(1) by auto
qed

lemma installLoop_quiet:
  assumes "quietEnv E" and "routeEnvOK E" and "installedWorld E T0 ps ns w" and "\<forall>q \<in> set (ps @ plan). goodPrefix E q"
    and "distinct (ps @ plan)" and "\<forall>q \<in> set plan. T0 (tkey E q) = None" and "inj_on (tkey E) (set (ps @ plan))"
    and "inj_on (reRandom E) {..<N}" and "rwCalls w + 12 * length plan \<le> N"
  shows "\<exists>ns' w'. installLoop E plan ps w = InstallNext (ps @ plan) w' \<and>
    installedWorld E T0 (ps @ plan) ns' w' \<and> rwCalls w' = rwCalls w + 12 * length plan"
  using assms(3-7,9)
proof (induction plan arbitrary: ps ns w)
  case Nil
  then show ?case by auto
next
  case (Cons p plan)
  have key: "tkey E p \<notin> tkey E ` set ps" using Cons.prems(3,5) by (auto simp: inj_on_def)
  from installOne_quiet [OF assms(1,2) Cons.prems(1) _ _ _ _ key assms(8)] Cons.prems(2,3,4,6)
  obtain n w1 where o: "installOne E p ps w = InstallNext (ps @ [p]) w1"
    "installedWorld E T0 (ps @ [p]) (ns @ [n]) w1" "rwCalls w1 = rwCalls w + 12" by auto
  from Cons.IH [OF o(2)] Cons.prems(2-6) o(3) obtain ns' w' where
    "installLoop E plan (ps @ [p]) w1 = InstallNext ((ps @ [p]) @ plan) w'"
    "installedWorld E T0 ((ps @ [p]) @ plan) ns' w'" "rwCalls w' = rwCalls w1 + 12 * length plan" by auto
  then show ?case using o by auto
qed

lemma reconcile_empty:
  assumes "quietEnv E" and "\<not> rwHung w" and "rwTransition w = None"
    and "rwJournal w = \<lparr>jdVersion = windowsRouteJournalVersion, jdEntries = []\<rparr>"
  shows "\<exists>w'. journalReconcile E w = (False, w') \<and> installedWorld E (rwTable w) [] [] w' \<and> rwCalls w' = rwCalls w + 5"
proof -
  let ?c2 = "called (called w)"
  have l: "journalLoad E ?c2 = (Some (rwJournal w), called ?c2)"
    using quiet_load [OF assms(1), of ?c2 "[]"] assms(2,4) by simp
  let ?w = "(called (called ?c2))\<lparr>rwJournal := rwJournal w\<rparr>"
  have sv: "journalSave E (rwJournal w) (called ?c2) = (False, ?w)"
    using quiet_save [OF assms(1), of "called ?c2"] assms(2) by simp
  have "reconcileLocked E ?c2 = (False, ?w)"
    using l sv assms(4) by (simp add: reconcileLocked_def)
  then have "journalReconcile E w = (False, called ?w)"
    using quiet_own [OF assms(1,2)] quiet_lock [OF assms(1), of "called w"] quiet_unlock [OF assms(1), of ?w] assms(2,3)
    by (simp add: journalReconcile_def)
  then show ?thesis using assms(2-4) by (simp add: installedWorld_def addRows_def)
qed

lemma prepareDeletion_quiet:
  assumes "quietEnv E" and "routeEnvOK E" and "installedWorld E T0 (ps @ [p]) (ns @ [n]) w"
    and "goodPrefix E p" and "\<forall>q \<in> set ps. goodPrefix E q" and "p \<notin> set ps" and "length ns = length ps"
    and "distinct (map (\<lambda>n. hexEncode (reRandom E n)) (ns @ [n]))"
  shows "\<exists>w'. journalPrepareDeletion E p w = (False, w') \<and> \<not> rwHung w' \<and> rwTable w' = rwTable w \<and>
    rwCalls w \<le> rwCalls w' \<and> rwTransition w' = Some (p, hexEncode (reRandom E n)) \<and>
    rwJournal w' = \<lparr>jdVersion = windowsRouteJournalVersion, jdEntries = map2 (activeEntry E) ps ns @
      [(activeEntry E p n)\<lparr>jeState := windowsRouteDeleting\<rparr>]\<rparr>"
proof -
  let ?es = "map2 (activeEntry E) ps ns" and ?x = "activeEntry E p n"
  let ?d = "\<lparr>jdVersion = windowsRouteJournalVersion, jdEntries = ?es @ [?x]\<rparr>"
  let ?P = "\<lambda>entry. jeInterfaceLUID entry = reLuid E \<and> jeDestination entry = rePrefixText E p"
  have w: "\<not> rwHung w" "rwTransition w = None" "rwJournal w = ?d"
    using assms(3,7) by (auto simp: installedWorld_def)
  have p: "Masked p = p" "prefixTextOK E p" "p = Masked p" "prefixBits p \<noteq> 0"
    using assms(4) by (auto simp: goodPrefix_def plannable_def)
  have ids: "distinct (map jeTransactionID (?es @ [?x]))"
    using assms(8) active_ids [OF assms(7), of E] by auto
  let ?c2 = "called (called w)" and ?c3 = "called (called (called w))"
  have l: "journalLoad E ?c2 = (Some ?d, ?c3)"
    using quiet_load [OF assms(1), of ?c2 "?es @ [?x]"] w(1,3) ids by simp
  have f: "findEntry ?P ?d = Some (length ?es, ?x)"
    by (rule findEntry_last) (use own_last [OF assms(4-6)] p(1) in auto)
  have v: "validateEntry E ?x = Some p"
    unfolding activeEntry_def by (rule newEntry_valid [OF assms(2) p(2-4)])
  let ?d' = "setEntryState (length ?es) windowsRouteDeleting ?d"
  have sv: "journalSave E ?d' ?c3 = (False, (called ?c3)\<lparr>rwJournal := ?d'\<rparr>)"
    using quiet_save [OF assms(1), of ?c3] w(1) by simp
  have d': "?d' = \<lparr>jdVersion = windowsRouteJournalVersion, jdEntries = ?es @ [?x\<lparr>jeState := windowsRouteDeleting\<rparr>]\<rparr>"
    by (rule setEntryState_last)
  have "journalPrepareDeletion E p w = prepareDeletionLocked E p ?c2"
    using quiet_own [OF assms(1) w(1)] quiet_lock [OF assms(1), of "called w"] w(1,2) p(1)
    by (simp add: journalPrepareDeletion_def)
  also have "\<dots> = (False, (called ?c3)\<lparr>rwJournal := ?d', rwTransition := Some (p, hexEncode (reRandom E n))\<rparr>)"
    using quiet_own [OF assms(1), of ?c2] w(1) l f v sv
    by (simp add: prepareDeletionLocked_def)
  finally show ?thesis using w(1) d' by simp
qed

lemma release_quiet:
  assumes "quietEnv E" and "\<not> rwHung w" and "goodPrefix E p" and "\<forall>q \<in> set ps. goodPrefix E q" and "p \<notin> set ps"
    and "length ns = length ps" and "distinct (map (\<lambda>n. hexEncode (reRandom E n)) (ns @ [n]))"
    and "rwTransition w = Some (p, hexEncode (reRandom E n))"
    and "rwJournal w = \<lparr>jdVersion = windowsRouteJournalVersion, jdEntries = map2 (activeEntry E) ps ns @
      [(activeEntry E p n)\<lparr>jeState := windowsRouteDeleting\<rparr>]\<rparr>"
  shows "\<exists>w'. journalRelease E p w = (False, w') \<and> \<not> rwHung w' \<and> rwTransition w' = None \<and> rwTable w' = rwTable w \<and>
    rwCalls w \<le> rwCalls w' \<and>
    rwJournal w' = \<lparr>jdVersion = windowsRouteJournalVersion, jdEntries = map2 (activeEntry E) ps ns\<rparr>"
proof -
  let ?es = "map2 (activeEntry E) ps ns" and ?x = "(activeEntry E p n)\<lparr>jeState := windowsRouteDeleting\<rparr>"
  let ?txn = "hexEncode (reRandom E n)"
  let ?d = "\<lparr>jdVersion = windowsRouteJournalVersion, jdEntries = ?es @ [?x]\<rparr>"
  have p: "Masked p = p" using assms(3) by (simp add: goodPrefix_def)
  have ids: "distinct (map jeTransactionID (?es @ [?x]))"
    using assms(7) active_ids [OF assms(6), of E] by auto
  let ?w = "w\<lparr>rwTransition := None\<rparr>"
  have t: "takeTransition p w = (Some ?txn, ?w)" using assms(8) p by (simp add: takeTransition_def)
  have l: "journalLoad E ?w = (Some ?d, called ?w)"
    using quiet_load [OF assms(1), of ?w "?es @ [?x]"] assms(2,9) ids by simp
  have own: "ownEntry E p ?txn ?x" using p by (simp add: ownEntry_def)
  have "filter (\<lambda>entry. \<not> ownEntry E p ?txn entry) ?es = ?es"
    using own_last [OF assms(3-5)] p by (intro filter_True) (auto simp: ownEntry_def simp del: set_map)
  then have f: "filter (\<lambda>entry. \<not> ownEntry E p ?txn entry) (?es @ [?x]) = ?es" using own by simp
  let ?w2 = "(called (called ?w))\<lparr>rwJournal := \<lparr>jdVersion = windowsRouteJournalVersion, jdEntries = ?es\<rparr>\<rparr>"
  have "releaseLocked E p ?txn ?w = (False, ?w2)"
    using l f quiet_save [OF assms(1), of "called ?w"] assms(2) by (simp add: releaseLocked_def)
  then have "journalRelease E p w = (False, called ?w2)"
    using t quiet_unlock [OF assms(1), of ?w2] assms(2) by (simp add: journalRelease_def)
  then show ?thesis using assms(2) by simp
qed

lemma rollbackOne_quiet:
  assumes "quietEnv E" and "routeEnvOK E" and "installedWorld E T0 (ps @ [p]) (ns @ [n]) w"
    and "goodPrefix E p" and "\<forall>q \<in> set ps. goodPrefix E q" and "p \<notin> set ps" and "length ns = length ps"
    and "distinct (map (\<lambda>n. hexEncode (reRandom E n)) (ns @ [n]))" and "T0 (tkey E p) = None"
    and "tkey E p \<notin> tkey E ` set ps"
  shows "\<exists>w'. rollbackOne E p w = (False, False, w') \<and> installedWorld E T0 ps ns w'"
proof -
  from prepareDeletion_quiet [OF assms(1-8)] obtain w1 where
    pd: "journalPrepareDeletion E p w = (False, w1)" and
    c1: "\<not> rwHung w1" "rwTable w1 = rwTable w" "rwCalls w \<le> rwCalls w1" "rwTransition w1 = Some (p, hexEncode (reRandom E n))" and
    j1: "rwJournal w1 = \<lparr>jdVersion = windowsRouteJournalVersion, jdEntries = map2 (activeEntry E) ps ns @
      [(activeEntry E p n)\<lparr>jeState := windowsRouteDeleting\<rparr>]\<rparr>" by blast
  have tb: "rwTable w = (addRows E T0 ps)(tkey E p \<mapsto> routeRowOf E p)"
    using assms(3) by (simp add: installedWorld_def addRows_snoc)
  have rd: "opRead E p w1 = (Some \<lparr>rsExists = True, rsMatches = True\<rparr>, called w1)"
    using quiet_opRead [OF assms(1) c1(1), of p] c1(2) tb by simp
  let ?w2 = "(called (called (called w1)))\<lparr>rwTable := (rwTable w1)(tkey E p := None)\<rparr>"
  have de: "opDelete E p (called w1) = (True, False, ?w2)"
    using quiet_opDelete [OF assms(1), of "called w1" p] c1(1,2) tb by simp
  have "\<exists>w'. journalRelease E p ?w2 = (False, w') \<and> \<not> rwHung w' \<and> rwTransition w' = None \<and> rwTable w' = rwTable ?w2 \<and>
    rwCalls ?w2 \<le> rwCalls w' \<and>
    rwJournal w' = \<lparr>jdVersion = windowsRouteJournalVersion, jdEntries = map2 (activeEntry E) ps ns\<rparr>"
    by (rule release_quiet [OF assms(1) _ assms(4-8)]) (use c1 j1 in simp_all)
  then obtain w3 where rl: "journalRelease E p ?w2 = (False, w3)" and
    c3: "\<not> rwHung w3" "rwTransition w3 = None" "rwTable w3 = rwTable ?w2" "rwCalls ?w2 \<le> rwCalls w3" and
    j3: "rwJournal w3 = \<lparr>jdVersion = windowsRouteJournalVersion, jdEntries = map2 (activeEntry E) ps ns\<rparr>" by blast
  have "rollbackOne E p w = (False, False, w3)"
    using pd rd de rl by (simp add: rollbackOne_def rollbackDelete_def)
  moreover have "addRows E T0 ps (tkey E p) = None" using addRows_other [OF assms(10), of T0] assms(9) by simp
  then have "(rwTable w1)(tkey E p := None) = addRows E T0 ps" using c1(2) tb by auto
  then have "installedWorld E T0 ps ns w3"
    using assms(3,7) c1 c3 j3 by (auto simp: installedWorld_def)
  ultimately show ?thesis by blast
qed

lemma rollbackLoop_quiet:
  assumes "quietEnv E" and "routeEnvOK E" and "installedWorld E T0 ps ns w" and "\<forall>q \<in> set ps. goodPrefix E q"
    and "distinct ps" and "distinct (map (\<lambda>n. hexEncode (reRandom E n)) ns)" and "\<forall>q \<in> set ps. T0 (tkey E q) = None"
    and "inj_on (tkey E) (set ps)"
  shows "\<exists>w'. rollbackLoop E (rev ps) w = ([], False, w') \<and> installedWorld E T0 [] [] w'"
  using assms(3-8)
proof (induction ps arbitrary: ns w rule: rev_induct)
  case Nil
  then show ?case by (auto simp: installedWorld_def)
next
  case (snoc p ps)
  have "length ns = Suc (length ps)" using snoc.prems(1) by (simp add: installedWorld_def)
  then obtain ms n where ns: "ns = ms @ [n]" "length ms = length ps"
    by (metis length_Suc_conv_rev)
  have key: "tkey E p \<notin> tkey E ` set ps" using snoc.prems(3,6) by (auto simp: inj_on_def)
  from rollbackOne_quiet [OF assms(1,2), of T0 ps p ms n w] snoc.prems ns key
  obtain w1 where o: "rollbackOne E p w = (False, False, w1)" "installedWorld E T0 ps ms w1" by auto
  from snoc.IH [OF o(2)] snoc.prems ns obtain w' where
    "rollbackLoop E (rev ps) w1 = ([], False, w')" "installedWorld E T0 [] [] w'" by (auto simp: inj_on_def)
  then show ?case using o by auto
qed

lemma txnRollback_quiet:
  assumes "quietEnv E" and "routeEnvOK E" and "installedWorld E T0 ps ns w" and "\<forall>q \<in> set ps. goodPrefix E q"
    and "distinct ps" and "distinct (map (\<lambda>n. hexEncode (reRandom E n)) ns)" and "\<forall>q \<in> set ps. T0 (tkey E q) = None"
    and "inj_on (tkey E) (set ps)"
  shows "\<exists>w'. txnRollback E \<lparr>txOp = True, txInstalled = ps\<rparr> w = (False, \<lparr>txOp = False, txInstalled = []\<rparr>, w') \<and>
    installedWorld E T0 [] [] w'"
proof -
  from rollbackLoop_quiet [OF assms] obtain w1 where
    l: "rollbackLoop E (rev ps) w = ([], False, w1)" "installedWorld E T0 [] [] w1" by blast
  then have "\<not> callFails E w1" "rwTransition w1 = None"
    using quiet_own [OF assms(1), of w1] by (auto simp: installedWorld_def)
  then show ?thesis using l by (simp add: txnRollback_def installedWorld_def)
qed

end
