(* ===== verification/Routes_Props.thy ===== *)
theory Routes_Props
  imports Routes_Quiet
begin

text \<open>
  Properties of the selective routes: recovery after crashes, the transaction under failures, its success
  without them, and the transition that nobody finishes.
\<close>

declare split_paired_All [simp del] split_paired_Ex [simp del]

section \<open>An example\<close>

definition demo_dest :: Prefix where "demo_dest = \<lparr>prefixAddr = Addr4 [10, 1, 2, 0], prefixBits = 24\<rparr>"

definition demo_routes :: "(nat \<Rightarrow> bool) \<Rightarrow> routeEnv" where
  "demo_routes F = \<lparr>reLuid = 7, reIndex = 3,
     reNetip = demo_netip\<lparr>parsePrefix := (\<lambda>t. if t = ''10.1.2.0/24'' then Some demo_dest else None)\<rparr>,
     rePrefixText = (\<lambda>p. ''10.1.2.0/24''), reFault = F, reWritten = (\<lambda>n. False), reCtxDone = (\<lambda>n. False),
     reRandom = (\<lambda>n. replicate 15 0 @ [of_nat n]), reForeignExists = (\<lambda>l i. False)\<rparr>"

definition demo_world :: routeWorld where
  "demo_world = \<lparr>rwTable = Map.empty, rwJournal = \<lparr>jdVersion = 4, jdEntries = []\<rparr>, rwTransition = None,
     rwHung = False, rwCalls = 0\<rparr>"

text \<open>The process dies right after the route was added, before it is recorded.\<close>

definition demo_crash :: coreRun where
  "demo_crash = \<lparr>crEnv = demo_routes (\<lambda>n. 14 \<le> n), crDestinations = [demo_dest], crExcluded = [Addr4 [1, 2, 3, 4]],
     crCloses = 1\<rparr>"

lemma demo_random: "N \<le> 256 \<Longrightarrow> inj_on (reRandom (demo_routes F)) {..<N}"
proof (rule inj_onI)
  fix i j assume a: "N \<le> 256" "i \<in> {..<N}" "j \<in> {..<N}" "reRandom (demo_routes F) i = reRandom (demo_routes F) j"
  then have "(of_nat i :: byte) = of_nat j" by (simp add: demo_routes_def)
  then have "unat (of_nat i :: byte) = unat (of_nat j :: byte)" by simp
  then show "i = j" using a(1-3) by (simp add: unsigned_of_nat take_bit_nat_eq_self)
qed

lemma demo_route_env: "routeEnvOK (demo_routes F)" "sameHost (demo_routes F) (demo_routes G)" "prefixTextOK (demo_routes F) demo_dest"
  by (simp_all add: routeEnvOK_def demo_routes_def sameHost_def prefixTextOK_def, code_simp)

lemma demo_crash_calls: "rwCalls (processRun demo_crash demo_world) \<le> 256 \<and>
    rwTable (processRun demo_crash demo_world) (rowKey (routeRowOf (demo_routes (\<lambda>n. False)) demo_dest)) \<noteq> None"
  by code_simp

section \<open>Recovery after a crash\<close>

text \<open>
  C23. Whatever fails, and wherever a run of Core ends, the journal knows every route that Core left behind.
  Starting with an empty journal, after any sequence of runs with any failures of the system, the
  registry, the locks and the contexts, one recovery in which nothing fails reports no error, restores
  the routing table to what it was before the first run, and empties the journal. That nothing fails
  includes that the journals the recovery saves stay below 1 MiB. The routes must be of the recovering
  adapter or of adapters that are gone, and no two transaction identifiers collide.
\<close>

theorem crash_recovery:
  assumes "\<forall>r \<in> set runs. sameHost E (crEnv r) \<and> routeEnvOK (crEnv r) \<and>
      (\<forall>p \<in> set (crDestinations r). prefixTextOK E p) \<and>
      recoverableOwner E (reLuid (crEnv r)) (reIndex (crEnv r))"
    and "rwJournal w0 = \<lparr>jdVersion = 4, jdEntries = []\<rparr>" and "rwTransition w0 = None" and "\<not> rwHung w0"
    and "w = fold processRun runs w0" and "inj_on (reRandom E) {..<rwCalls w}" and "quietEnv E"
    and "journalReconcile E w = (e, w')"
  shows "\<not> e \<and> rwTable w' = rwTable w0 \<and> jdEntries (rwJournal w') = []"
proof -
  have "restInv E (recoverableOwner E) (rwTable w0) w0"
    using assms(2-4) by (simp add: restInv_def journalInv_def drawnIDs_def windowsRouteJournalVersion_def)
  then have "restInv E (recoverableOwner E) (rwTable w0) w"
    unfolding assms(5) by (rule runs_inv) (use assms(1) in \<open>simp add: envFor_def\<close>)
  from reconcile_quiet [OF this assms(7,6) _ assms(8)] show ?thesis by simp
qed

theorem crash_recovery_witness:
  "(case journalReconcile (demo_routes (\<lambda>n. False)) (processRun demo_crash demo_world) of
      (e, w) \<Rightarrow> \<not> e \<and> rwTable w = Map.empty \<and> jdEntries (rwJournal w) = []) \<and>
   rwTable (processRun demo_crash demo_world) \<noteq> Map.empty"
proof -
  let ?E = "demo_routes (\<lambda>n. False)" and ?w = "processRun demo_crash demo_world"
  obtain e w' where r: "journalReconcile ?E ?w = (e, w')" by fastforce
  have "\<forall>r \<in> set [demo_crash]. sameHost ?E (crEnv r) \<and> routeEnvOK (crEnv r) \<and>
      (\<forall>p \<in> set (crDestinations r). prefixTextOK ?E p) \<and> recoverableOwner ?E (reLuid (crEnv r)) (reIndex (crEnv r))"
    using demo_route_env by (simp add: demo_crash_def) (simp add: demo_routes_def recoverableOwner_def)
  from crash_recovery [OF this, of demo_world ?w e w'] have "\<not> e \<and> rwTable w' = rwTable demo_world \<and> jdEntries (rwJournal w') = []"
    using r demo_random [of "rwCalls ?w"] demo_crash_calls by (simp add: demo_world_def) (simp add: quietEnv_def demo_routes_def)
  then show ?thesis using r demo_crash_calls by (auto simp: demo_world_def)
qed

section \<open>The transaction\<close>

text \<open>
  C24. The installation is a transaction under every sequence of failures. \<open>T0\<close> is the table as the recovery
  at the start leaves it. If the installation succeeds, every planned prefix has its route, the routes
  beyond \<open>T0\<close> are those the transaction has recorded, at places that were free, and a \<open>Close\<close> without
  error restores \<open>T0\<close>. If it fails and its rollback has no error, the table is \<open>T0\<close>.
\<close>

theorem route_install_atomic:
  assumes "PlanSelectiveRoutes ds excluded = Inr plan" and "InstallSelectiveRoutes E ds excluded w = (res, w1)"
    and "T0 = rwTable (snd (journalReconcile E (called w)))"
  shows "(res = Inl InstallOperator \<longrightarrow> rwTable w1 = rwTable w) \<and>
    (res = Inl (InstallFailed False) \<longrightarrow> rwTable w1 = T0) \<and>
    (\<forall>t. res = Inr t \<longrightarrow>
      (\<forall>p \<in> set plan. rwTable w1 (rowKey (routeRowOf E p)) = Some (routeRowOf E p)) \<and>
      (\<forall>k. rwTable w1 k \<noteq> T0 k \<longrightarrow> T0 k = None \<and> k \<in> (rowKey \<circ> routeRowOf E) ` set (txInstalled t)) \<and>
      (\<forall>t2 w2. txnRollback E t w1 = (False, t2, w2) \<longrightarrow> rwTable w2 = T0))"
proof -
  consider (op) "res = Inl InstallOperator" "rwTable w1 = rwTable w"
    | (failed) e where "res = Inl (InstallFailed e)" "installPlannedSelectiveRoutes E plan (called w) = (Inl e, w1)"
    | (ok) t where "res = Inr t" "installPlannedSelectiveRoutes E plan (called w) = (Inr t, w1)"
    using assms(1,2) by (auto simp: InstallSelectiveRoutes_def split: if_splits prod.splits sum.splits)
  then show ?thesis
  proof cases
    case failed
    then show ?thesis using planned_install_table [OF failed(2) assms(3)] by auto
  next
    case ok
    have t: "txOp t" "tableInv E T0 (txInstalled t) (rwTable w1)"
      "\<forall>p \<in> set plan. rwTable w1 (tkey E p) = Some (routeRowOf E p)"
      using planned_install_table [OF ok(2) assms(3)] by auto
    have "T0 k = None \<and> k \<in> (rowKey \<circ> routeRowOf E) ` set (txInstalled t)" if "rwTable w1 k \<noteq> T0 k" for k
      using t(2) that unfolding tableInv_def tkey_def by auto
    moreover have "rwTable w2 = T0" if "txnRollback E t w1 = (False, t2, w2)" for t2 w2
      using txnRollback_table [OF t(2,1) that] by simp
    ultimately show ?thesis using ok(1) t(3) by (simp add: tkey_def)
  qed simp
qed

lemma demo_installed:
  "fst (InstallSelectiveRoutes (demo_routes (\<lambda>n. False)) [demo_dest] [Addr4 [1, 2, 3, 4]] demo_world) =
     Inr \<lparr>txOp = True, txInstalled = [demo_dest]\<rparr> \<and>
   PlanSelectiveRoutes [demo_dest] [Addr4 [1, 2, 3, 4]] = Inr [demo_dest]"
  by code_simp

theorem route_install_atomic_witness:
  "\<exists>t w. InstallSelectiveRoutes (demo_routes (\<lambda>n. False)) [demo_dest] [Addr4 [1, 2, 3, 4]] demo_world = (Inr t, w) \<and>
     rwTable w (rowKey (routeRowOf (demo_routes (\<lambda>n. False)) demo_dest)) = Some (routeRowOf (demo_routes (\<lambda>n. False)) demo_dest)"
proof -
  let ?E = "demo_routes (\<lambda>n. False)"
  obtain res w where r: "InstallSelectiveRoutes ?E [demo_dest] [Addr4 [1, 2, 3, 4]] demo_world = (res, w)" by fastforce
  have t: "res = Inr \<lparr>txOp = True, txInstalled = [demo_dest]\<rparr>" using demo_installed r by simp
  from route_install_atomic [OF conjunct2 [OF demo_installed] r refl] t
  have "rwTable w (rowKey (routeRowOf ?E demo_dest)) = Some (routeRowOf ?E demo_dest)" by auto
  then show ?thesis using r t by blast
qed

text \<open>
  C25. When nothing fails, and the journal stays below 1 MiB, the installation succeeds and closing undoes it: for destinations that are allowed
  and not in the table, all planned routes are installed and journalled, in order, and \<open>Close\<close> reports no
  error and restores table and journal.
\<close>

theorem quiet_install_and_close:
  assumes "quietEnv E" and "routeEnvOK E" and "\<not> rwHung w" and "rwTransition w = None"
    and "rwJournal w = \<lparr>jdVersion = 4, jdEntries = []\<rparr>"
    and "\<forall>d \<in> set ds. routeAllowed excluded d \<and> wf_addr (prefixAddr d) \<and> prefixTextOK E d \<and>
      rwTable w (rowKey (routeRowOf E d)) = None"
    and "inj_on (reRandom E) {..<rwCalls w + 6 + 12 * length ds}"
  shows "\<exists>plan w1 w2. PlanSelectiveRoutes ds excluded = Inr plan \<and>
    InstallSelectiveRoutes E ds excluded w = (Inr \<lparr>txOp = True, txInstalled = plan\<rparr>, w1) \<and>
    rwTable w1 = addRows E (rwTable w) plan \<and>
    map jeDestination (jdEntries (rwJournal w1)) = map (rePrefixText E) plan \<and>
    txnRollback E \<lparr>txOp = True, txInstalled = plan\<rparr> w1 = (False, \<lparr>txOp = False, txInstalled = []\<rparr>, w2) \<and>
    rwTable w2 = rwTable w \<and> rwJournal w2 = rwJournal w \<and> rwTransition w2 = None"
proof -
  have "\<forall>d \<in> set ds. routeAllowed excluded d" using assms(6) by blast
  then obtain plan where plan: "PlanSelectiveRoutes ds excluded = Inr plan" using plan_exact by blast
  have ps: "set plan = Masked ` set ds" "distinct plan" using plan_elements [OF plan] by auto
  have good: "\<forall>q \<in> set plan. goodPrefix E q"
    using ps(1) assms(6) by (auto simp: goodPrefix_def plannable_def prefixTextOK_def routeAllowed_def)
  have free: "\<forall>q \<in> set plan. rwTable w (tkey E q) = None"
    using ps(1) assms(6) by (auto simp: tkey_def)
  have inj: "inj_on (tkey E) (set plan)"
  proof (rule inj_onI)
    fix p q assume pq: "p \<in> set plan" "q \<in> set plan" "tkey E p = tkey E q"
    then obtain d e where de: "d \<in> set ds" "e \<in> set ds" "p = Masked d" "q = Masked e" using ps(1) by auto
    have "Masked d = Masked e"
      by (rule tkey_inj [of E]) (use pq(3) de assms(6) in \<open>auto simp: routeAllowed_def\<close>)
    then show "p = q" using de by simp
  qed
  have len: "length plan \<le> length ds" using ps by (metis card_image_le card_length distinct_card finite_set le_trans)
  have w1: "\<not> rwHung (called w)" "rwTransition (called w) = None"
    "rwJournal (called w) = \<lparr>jdVersion = windowsRouteJournalVersion, jdEntries = []\<rparr>"
    using assms(3-5) by (simp_all add: windowsRouteJournalVersion_def)
  from reconcile_empty [OF assms(1) w1] obtain w2 where
    rc: "journalReconcile E (called w) = (False, w2)" "installedWorld E (rwTable w) [] [] w2" "rwCalls w2 = rwCalls w + 6"
    by auto
  let ?N = "rwCalls w + 6 + 12 * length ds"
  have "\<exists>ns' w'. installLoop E plan [] w2 = InstallNext ([] @ plan) w' \<and>
    installedWorld E (rwTable w) ([] @ plan) ns' w' \<and> rwCalls w' = rwCalls w2 + 12 * length plan"
    by (rule installLoop_quiet [OF assms(1,2) rc(2) _ _ free _ assms(7)]) (use good ps(2) inj rc(3) len in simp_all)
  then obtain ns w3 where il: "installLoop E plan [] w2 = InstallNext plan w3"
    "installedWorld E (rwTable w) plan ns w3" "rwCalls w3 = rwCalls w2 + 12 * length plan" by auto
  have bound: "\<forall>n \<in> set ns. n < ?N" using il(2,3) rc(3) len by (fastforce simp: installedWorld_def)
  have ids: "distinct (map (\<lambda>n. hexEncode (reRandom E n)) ns)"
    by (rule ids_distinct [OF _ bound assms(7)]) (use il(2) in \<open>simp add: installedWorld_def\<close>)
  have "installRouteTransaction E plan w2 = (Inr \<lparr>txOp = True, txInstalled = plan\<rparr>, w3)"
    using il(1) by (simp add: installRouteTransaction_def)
  then have ip: "installPlannedSelectiveRoutes E plan (called w) = (Inr \<lparr>txOp = True, txInstalled = plan\<rparr>, w3)"
    using rc(1) il(1) by (cases plan) (auto simp: installPlannedSelectiveRoutes_def)
  have "InstallSelectiveRoutes E ds excluded w = (Inr \<lparr>txOp = True, txInstalled = plan\<rparr>, w3)"
    using plan ip quiet_own [OF assms(1,3)] assms(2) by (simp add: InstallSelectiveRoutes_def routeEnvOK_def)
  moreover from txnRollback_quiet [OF assms(1,2) il(2) good ps(2) ids free inj] obtain w4 where
    rb: "txnRollback E \<lparr>txOp = True, txInstalled = plan\<rparr> w3 = (False, \<lparr>txOp = False, txInstalled = []\<rparr>, w4)"
      "installedWorld E (rwTable w) [] [] w4" by blast
  moreover have "map jeDestination (jdEntries (rwJournal w3)) = map (rePrefixText E) plan"
  proof -
    have "length ns = length plan" "jdEntries (rwJournal w3) = map2 (activeEntry E) plan ns"
      using il(2) by (auto simp: installedWorld_def)
    moreover have "Masked (plan ! i) = plan ! i" if "i < length plan" for i
      using good nth_mem [OF that] by (simp add: goodPrefix_def)
    ultimately show ?thesis by (intro nth_equalityI) auto
  qed
  moreover have "rwTable w3 = addRows E (rwTable w) plan" using il(2) by (simp add: installedWorld_def)
  moreover have "rwTable w4 = rwTable w" "rwJournal w4 = rwJournal w" "rwTransition w4 = None"
    using rb(2) assms(5) by (simp_all add: installedWorld_def addRows_def windowsRouteJournalVersion_def)
  ultimately show ?thesis using plan by blast
qed

theorem quiet_install_and_close_witness:
  "\<exists>w1 w2. InstallSelectiveRoutes (demo_routes (\<lambda>n. False)) [demo_dest] [Addr4 [1, 2, 3, 4]] demo_world =
      (Inr \<lparr>txOp = True, txInstalled = [demo_dest]\<rparr>, w1) \<and>
     txnRollback (demo_routes (\<lambda>n. False)) \<lparr>txOp = True, txInstalled = [demo_dest]\<rparr> w1 =
       (False, \<lparr>txOp = False, txInstalled = []\<rparr>, w2) \<and> rwTable w2 = Map.empty"
proof -
  let ?E = "demo_routes (\<lambda>n. False)"
  have q: "quietEnv ?E" by (simp add: quietEnv_def demo_routes_def)
  have d: "\<forall>d \<in> set [demo_dest]. routeAllowed [Addr4 [1, 2, 3, 4]] d \<and> wf_addr (prefixAddr d) \<and> prefixTextOK ?E d \<and>
      rwTable demo_world (rowKey (routeRowOf ?E d)) = None"
    using demo_route_env plan_elements [OF conjunct2 [OF demo_installed]]
    by (simp add: demo_world_def) (simp add: demo_dest_def)
  have i: "inj_on (reRandom ?E) {..<rwCalls demo_world + 6 + 12 * length [demo_dest]}"
    by (rule demo_random) (simp add: demo_world_def)
  from quiet_install_and_close [OF q demo_route_env(1) _ _ _ d i] obtain plan w1 w2 where
    p: "PlanSelectiveRoutes [demo_dest] [Addr4 [1, 2, 3, 4]] = Inr plan"
    "InstallSelectiveRoutes ?E [demo_dest] [Addr4 [1, 2, 3, 4]] demo_world = (Inr \<lparr>txOp = True, txInstalled = plan\<rparr>, w1)"
    "txnRollback ?E \<lparr>txOp = True, txInstalled = plan\<rparr> w1 = (False, \<lparr>txOp = False, txInstalled = []\<rparr>, w2)"
    "rwTable w2 = rwTable demo_world"
    by (auto simp: demo_world_def)
  have "plan = [demo_dest]" using p(1) demo_installed by simp
  then show ?thesis using p by (auto simp: demo_world_def)
qed

section \<open>A deletion that cannot be verified\<close>

lemma read_transition: "opRead E p w = (r, w') \<Longrightarrow> rwTransition w' = rwTransition w"
  using opRead_result [of E p w r w'] by simp

lemma prepareDeletion_transition:
  assumes "journalPrepareDeletion E p w = (False, w')"
  shows "rwTransition w' \<noteq> None"
  using assms
  by (auto simp: journalPrepareDeletion_def prepareDeletionLocked_def split: if_splits prod.splits option.splits bool.splits)

lemma rollbackOne_blocked:
  assumes "\<not> callFails F w" and "rwTransition w \<noteq> None"
  shows "rwHung (snd (snd (rollbackOne F q w)))"
  using assms by (simp add: rollbackOne_def journalPrepareDeletion_def journalLock_def)

lemma rollbackLoop_hung: "rwHung w \<Longrightarrow> rwHung (snd (snd (rollbackLoop F qs w)))"
proof (induction qs arbitrary: w)
  case (Cons q qs)
  have "rollbackOne F q w = (True, True, called w)"
    using Cons.prems by (simp add: rollbackOne_def journalPrepareDeletion_def callFails_def)
  then show ?case using Cons.IH [of "called w"] Cons.prems by (auto split: prod.split)
qed simp

text \<open>
  C39. When the deletion of a route fails in a rollback and the read that is to verify it fails as well,
  nobody finishes the transition: it stays open and keeps the lock of the journal. From then on the
  rollback of any route, and so every further \<open>Close\<close>, waits for ever for the lock it holds itself.
\<close>

theorem unverified_delete_hangs:
  assumes "journalPrepareDeletion E p w = (False, w1)" and "opRead E p w1 = (Some st, w2)" and "rsMatches st"
    and "opDelete E p w2 = (False, True, w3)" and "opRead E p w3 = (None, w4)"
  shows "rollbackOne E p w = (True, True, w4) \<and> rwTransition w4 \<noteq> None \<and>
    (\<forall>F t. \<not> callFails F w4 \<longrightarrow> txOp t \<longrightarrow> txInstalled t \<noteq> [] \<longrightarrow> rwHung (snd (snd (txnRollback F t w4))))"
proof -
  have tr: "rwTransition w4 \<noteq> None"
    using prepareDeletion_transition [OF assms(1)] read_transition [OF assms(2)] read_transition [OF assms(5)]
      opDelete_result [OF assms(4)] by simp
  have "rwHung (snd (snd (txnRollback F t w4)))"
    if f: "\<not> callFails F w4" and t: "txOp t" "txInstalled t \<noteq> []" for F t
  proof -
    obtain q qs where q: "rev (txInstalled t) = q # qs" using t(2) by (cases "rev (txInstalled t)") auto
    have "rwHung (snd (snd (rollbackLoop F (rev (txInstalled t)) w4)))"
    proof -
      obtain k e v where o: "rollbackOne F q w4 = (k, e, v)" by (cases "rollbackOne F q w4") auto
      then have "rwHung v" using rollbackOne_blocked [OF f tr, of q] by simp
      from rollbackLoop_hung [OF this, of F qs] show ?thesis using o q by (auto split: prod.split)
    qed
    then show ?thesis using t(1) by (auto simp: txnRollback_def Let_def split: prod.splits)
  qed
  moreover have "rollbackOne E p w = (True, True, w4)"
    using assms by (simp add: rollbackOne_def rollbackDelete_def)
  ultimately show ?thesis using tr by blast
qed

text \<open>The route is installed; in \<open>Close\<close> the deletion and the read after it fail.\<close>

definition demo_stuck :: routeEnv where "demo_stuck = demo_routes (\<lambda>n. n = 23 \<or> n = 24)"

definition demo_stuck_worlds :: "nat \<Rightarrow> routeWorld" where
  "demo_stuck_worlds i =
     (let w = snd (InstallSelectiveRoutes demo_stuck [demo_dest] [] demo_world);
          w1 = snd (journalPrepareDeletion demo_stuck demo_dest w); w2 = snd (opRead demo_stuck demo_dest w1);
          w3 = snd (snd (opDelete demo_stuck demo_dest w2)); w4 = snd (opRead demo_stuck demo_dest w3)
      in if i = 0 then w else if i = 1 then w1 else if i = 2 then w2 else if i = 3 then w3 else w4)"

lemma demo_stuck_steps:
  "fst (journalPrepareDeletion demo_stuck demo_dest (demo_stuck_worlds 0)) = False \<and>
   fst (opRead demo_stuck demo_dest (demo_stuck_worlds 1)) = Some \<lparr>rsExists = True, rsMatches = True\<rparr> \<and>
   fst (opDelete demo_stuck demo_dest (demo_stuck_worlds 2)) = False \<and>
   fst (snd (opDelete demo_stuck demo_dest (demo_stuck_worlds 2))) = True \<and>
   fst (opRead demo_stuck demo_dest (demo_stuck_worlds 3)) = None \<and>
   callFails demo_stuck (demo_stuck_worlds 4) = False \<and>
   txInstalled (case fst (InstallSelectiveRoutes demo_stuck [demo_dest] [] demo_world) of Inr t \<Rightarrow> t | Inl _ \<Rightarrow>
     \<lparr>txOp = False, txInstalled = []\<rparr>) = [demo_dest]"
  by code_simp

theorem unverified_delete_hangs_witness:
  "rollbackOne demo_stuck demo_dest (demo_stuck_worlds 0) = (True, True, demo_stuck_worlds 4) \<and>
   rwHung (snd (snd (txnRollback demo_stuck \<lparr>txOp = True, txInstalled = [demo_dest]\<rparr> (demo_stuck_worlds 4))))"
proof -
  have w: "snd (journalPrepareDeletion demo_stuck demo_dest (demo_stuck_worlds 0)) = demo_stuck_worlds 1"
    "snd (opRead demo_stuck demo_dest (demo_stuck_worlds 1)) = demo_stuck_worlds 2"
    "snd (snd (opDelete demo_stuck demo_dest (demo_stuck_worlds 2))) = demo_stuck_worlds 3"
    "snd (opRead demo_stuck demo_dest (demo_stuck_worlds 3)) = demo_stuck_worlds 4"
    by (simp_all add: demo_stuck_worlds_def Let_def)
  from unverified_delete_hangs [of demo_stuck demo_dest "demo_stuck_worlds 0" "demo_stuck_worlds 1"
      "\<lparr>rsExists = True, rsMatches = True\<rparr>" "demo_stuck_worlds 2" "demo_stuck_worlds 3" "demo_stuck_worlds 4"]
  show ?thesis using demo_stuck_steps w by (simp add: prod_eq_iff)
qed

end
