(* ===== verification/NamedPipe.thy ===== *)
theory NamedPipe
  imports Registry GoStrings
begin

text \<open>
  The named pipe between the capture helper and the core, the protocol
  (\<open>internal/capturedudp/namedpipe_protocol.go\<close>) and the core's side of it
  (\<open>namedpipe_server.go\<close>): the frames, the bodies of the requests and of their answers, the writer
  that owns the pipe's outgoing bytes, and the loop that serves one controller on top of the
  registry.

  An error value is the list of the errors it wraps, in the order \<open>errors.As\<close> meets them:
  \<open>errors.Is\<close> is membership and \<open>errors.Join\<close> appends. The pipe is the bytes that will arrive and the
  error the stream ends with; what a write does to the pipe, the clock, the random source and the
  outcome of the TGP sender are arguments. Clearing buffers that hold secrets has no effect a model of
  values can show and is left out.
\<close>

section \<open>Errors\<close>

datatype pipeLeaf =
    CapError cap_error
  | TgpError tgp_error
  | ErrNamedPipeProtocol
  | ErrNamedPipeIdentity
  | ErrNamedPipeTimeout
  | ErrNamedPipeIdleTimeout
  | ErrNamedPipeCanceled
  | ErrNamedPipeRemote u16 u16
  | ErrNamedPipeNotReady
  | ErrNamedPipeClientRun
  | CtxDeadlineExceeded
  | CtxCanceled
  | IoEOF
  | IoUnexpectedEOF
  | NetError bool
  | OtherError nat

type_synonym goerr = "pipeLeaf list"

definition errors_Is :: "goerr \<Rightarrow> pipeLeaf \<Rightarrow> bool" where
  "errors_Is err x \<longleftrightarrow> x \<in> set err"

definition errors_Join :: "goerr option \<Rightarrow> goerr option \<Rightarrow> goerr option" where
  "errors_Join a b =
     (case a of None \<Rightarrow> b | Some x \<Rightarrow> (case b of None \<Rightarrow> Some x | Some y \<Rightarrow> Some (x @ y)))"

text \<open>\<open>errors.As(err, &networkError)\<close> and \<open>Timeout()\<close>. The context's deadline error is one of them.\<close>

fun netTimeout :: "goerr \<Rightarrow> bool" where
  "netTimeout [] = False"
| "netTimeout (CtxDeadlineExceeded # _) = True"
| "netTimeout (NetError t # _) = t"
| "netTimeout (_ # err) = netTimeout err"

text \<open>\<open>ctx.Err()\<close>.\<close>

datatype ctxErr = CtxLive | CtxExpired | CtxCancelled

fun ctxError :: "ctxErr \<Rightarrow> goerr option" where
  "ctxError CtxLive = None"
| "ctxError CtxExpired = Some [CtxDeadlineExceeded]"
| "ctxError CtxCancelled = Some [CtxCanceled]"

definition normalizeContextError :: "ctxErr \<Rightarrow> goerr option \<Rightarrow> goerr option" where
  "normalizeContextError ctx err =
     (case err of
        None \<Rightarrow> None
      | Some e \<Rightarrow>
          if netTimeout e then Some (ErrNamedPipeTimeout # e)
          else (case ctx of
                  CtxExpired \<Rightarrow> Some (ErrNamedPipeTimeout # e)
                | CtxCancelled \<Rightarrow> Some (ErrNamedPipeCanceled # e)
                | CtxLive \<Rightarrow> Some e))"

definition isNamedPipeEOF :: "goerr \<Rightarrow> bool" where
  "isNamedPipeEOF err \<longleftrightarrow> errors_Is err IoEOF \<or> errors_Is err IoUnexpectedEOF"

section \<open>Configuration\<close>

definition NamedPipeMaxFramePayload :: nat where "NamedPipeMaxFramePayload = 65536"
definition namedPipeFrameHeaderSize :: nat where "namedPipeFrameHeaderSize = 12"
definition namedPipeDefaultTimeout :: duration where "namedPipeDefaultTimeout = 10 * time_Second"
definition namedPipeMaxTimeout :: duration where "namedPipeMaxTimeout = 30 * time_Second"
definition namedPipeMaxIdleTimeout :: duration where "namedPipeMaxIdleTimeout = 24 * 3600 * time_Second"
definition namedPipeWriteQueueSize :: nat where "namedPipeWriteQueueSize = 32"
definition NamedPipeProtocolVersion :: u16 where "NamedPipeProtocolVersion = 2"
definition SessionTokenSize :: nat where "SessionTokenSize = 32"

record NamedPipeConfig =
  npName :: string
  AllowedSIDs :: "string list"
  MinimumIntegrityRID :: u32
  npOperationTimeout :: duration
  npIdleTimeout :: duration
  AllowInsecureUserSID :: bool

definition pipeNamePrefix :: string where
  "pipeNamePrefix = [char_of (92::nat), char_of (92::nat), CHR ''.'', char_of (92::nat)] @ ''pipe'' @
     [char_of (92::nat)] @ ''Tachyon'' @ [char_of (92::nat)]"

definition pipeNameChar :: "char \<Rightarrow> bool" where
  "pipeNameChar c =
     (let n = of_char c :: nat
      in (97 \<le> n \<and> n \<le> 122) \<or> (65 \<le> n \<and> n \<le> 90) \<or> (48 \<le> n \<and> n \<le> 57) \<or>
         c = CHR ''-'' \<or> c = CHR ''_'' \<or> c = CHR ''.'')"

definition validNamedPipeName :: "string \<Rightarrow> bool" where
  "validNamedPipeName name =
     (if \<not> hasPrefix name pipeNamePrefix then False
      else
        let suffix = trimPrefix name pipeNamePrefix
        in if suffix = [] \<or> length suffix > 96 then False else list_all pipeNameChar suffix)"

text \<open>The loop over the SIDs: trimmed, not empty, at most 184 characters, no two alike.\<close>

fun normalizeSIDs :: "string list \<Rightarrow> string list \<Rightarrow> pipeLeaf + string list" where
  "normalizeSIDs prior [] = Inr []"
| "normalizeSIDs prior (sid # sids) =
     (let sid = trimSpace sid
      in if sid = [] \<or> length sid > 184 then Inl ErrNamedPipeIdentity
         else if sid \<in> set prior then Inl ErrNamedPipeIdentity
         else (case normalizeSIDs (sid # prior) sids of
                 Inl e \<Rightarrow> Inl e
               | Inr rest \<Rightarrow> Inr (sid # rest)))"

definition NamedPipeConfig_normalized :: "NamedPipeConfig \<Rightarrow> pipeLeaf + NamedPipeConfig" where
  "NamedPipeConfig_normalized config =
     (if \<not> validNamedPipeName (npName config) then Inl ErrNamedPipeProtocol
      else if AllowedSIDs config = [] \<or> length (AllowedSIDs config) > 16 then Inl ErrNamedPipeIdentity
      else case normalizeSIDs [] (AllowedSIDs config) of
        Inl e \<Rightarrow> Inl e
      | Inr sids \<Rightarrow>
          let config = config\<lparr>AllowedSIDs := sids,
                npOperationTimeout := (if npOperationTimeout config \<le> 0 then namedPipeDefaultTimeout
                                       else npOperationTimeout config)\<rparr>
          in if npOperationTimeout config > namedPipeMaxTimeout then Inl ErrNamedPipeProtocol
             else if npIdleTimeout config < 0 \<or> npIdleTimeout config > namedPipeMaxIdleTimeout
             then Inl ErrNamedPipeProtocol
             else Inr config)"

section \<open>Messages\<close>

type_synonym messageType = u16

abbreviation pipeMessageHello :: messageType where "pipeMessageHello \<equiv> 1"
abbreviation pipeMessageAuthenticate :: messageType where "pipeMessageAuthenticate \<equiv> 2"
abbreviation pipeMessagePrepareGeneration :: messageType where "pipeMessagePrepareGeneration \<equiv> 3"
abbreviation pipeMessageCommitGeneration :: messageType where "pipeMessageCommitGeneration \<equiv> 4"
abbreviation pipeMessageAbortGeneration :: messageType where "pipeMessageAbortGeneration \<equiv> 5"
abbreviation pipeMessageDisableGeneration :: messageType where "pipeMessageDisableGeneration \<equiv> 6"
abbreviation pipeMessageOpenFlow :: messageType where "pipeMessageOpenFlow \<equiv> 7"
abbreviation pipeMessageDatagram :: messageType where "pipeMessageDatagram \<equiv> 8"
abbreviation pipeMessageDelivery :: messageType where "pipeMessageDelivery \<equiv> 9"
abbreviation pipeMessageCloseFlow :: messageType where "pipeMessageCloseFlow \<equiv> 10"
abbreviation pipeMessageCloseConnection :: messageType where "pipeMessageCloseConnection \<equiv> 11"
abbreviation pipeMessagePing :: messageType where "pipeMessagePing \<equiv> 12"
abbreviation pipeMessagePong :: messageType where "pipeMessagePong \<equiv> 13"
abbreviation pipeMessageResponse :: messageType where "pipeMessageResponse \<equiv> 0x8000"

definition messageType_valid :: "messageType \<Rightarrow> bool" where
  "messageType_valid t \<longleftrightarrow>
     t = pipeMessageHello \<or> t = pipeMessageAuthenticate \<or> t = pipeMessagePrepareGeneration \<or>
     t = pipeMessageCommitGeneration \<or> t = pipeMessageAbortGeneration \<or>
     t = pipeMessageDisableGeneration \<or> t = pipeMessageOpenFlow \<or> t = pipeMessageDatagram \<or>
     t = pipeMessageDelivery \<or> t = pipeMessageCloseFlow \<or> t = pipeMessageCloseConnection \<or>
     t = pipeMessagePing \<or> t = pipeMessagePong \<or> t = pipeMessageResponse"

type_synonym pipeStatus = u16

abbreviation pipeStatusOK :: pipeStatus where "pipeStatusOK \<equiv> 0"
abbreviation pipeStatusProtocol :: pipeStatus where "pipeStatusProtocol \<equiv> 1"
abbreviation pipeStatusAuthentication :: pipeStatus where "pipeStatusAuthentication \<equiv> 2"
abbreviation pipeStatusUnauthorized :: pipeStatus where "pipeStatusUnauthorized \<equiv> 3"
abbreviation pipeStatusInvalid :: pipeStatus where "pipeStatusInvalid \<equiv> 4"
abbreviation pipeStatusConflict :: pipeStatus where "pipeStatusConflict \<equiv> 5"
abbreviation pipeStatusStale :: pipeStatus where "pipeStatusStale \<equiv> 6"
abbreviation pipeStatusLimit :: pipeStatus where "pipeStatusLimit \<equiv> 7"
abbreviation pipeStatusTimeout :: pipeStatus where "pipeStatusTimeout \<equiv> 8"
abbreviation pipeStatusCanceled :: pipeStatus where "pipeStatusCanceled \<equiv> 9"
abbreviation pipeStatusInternal :: pipeStatus where "pipeStatusInternal \<equiv> 10"

definition statusForError :: "goerr option \<Rightarrow> pipeStatus" where
  "statusForError err =
     (case err of
        None \<Rightarrow> pipeStatusOK
      | Some e \<Rightarrow>
          if errors_Is e CtxDeadlineExceeded \<or> errors_Is e ErrNamedPipeTimeout then pipeStatusTimeout
          else if errors_Is e CtxCanceled \<or> errors_Is e ErrNamedPipeCanceled then pipeStatusCanceled
          else if errors_Is e (CapError CapErrAuthentication) \<or>
                  errors_Is e (CapError ErrTransportNotVerified) \<or> errors_Is e ErrNamedPipeIdentity
          then pipeStatusAuthentication
          else if errors_Is e (CapError ErrControllerRevoked) \<or> errors_Is e (CapError ErrTransportMismatch)
          then pipeStatusUnauthorized
          else if errors_Is e (CapError ErrInvalidFlow) \<or> errors_Is e (CapError ErrInvalidGeneration) \<or>
                  errors_Is e (CapError ErrMissingLeaseIdentity) \<or> errors_Is e ErrNamedPipeProtocol
          then pipeStatusInvalid
          else if errors_Is e (CapError ErrDuplicateFlow) \<or> errors_Is e (CapError ErrTransactionActive) \<or>
                  errors_Is e (CapError ErrControllerActive) \<or> errors_Is e (CapError ErrTransportActive)
          then pipeStatusConflict
          else if errors_Is e (CapError ErrUnknownFlow) \<or> errors_Is e (CapError ErrStaleGeneration) \<or>
                  errors_Is e (CapError ErrUnknownTransaction) \<or> errors_Is e (CapError ErrAttachmentStale)
          then pipeStatusStale
          else if errors_Is e (CapError CapErrDatagramTooLarge) \<or> errors_Is e (CapError ErrFlowLimit) \<or>
                  errors_Is e (CapError ErrBufferBudget) \<or> errors_Is e (CapError ErrOutstandingBudget) \<or>
                  errors_Is e (CapError ErrRateLimit)
          then pipeStatusLimit
          else pipeStatusInternal)"

section \<open>Frames\<close>

record namedPipeFrame =
  frType :: messageType
  frPayload :: bytes

definition frameMagic :: bytes where "frameMagic = [0x54, 0x43, 0x55, 0x31]"

definition marshalNamedPipeFrame :: "namedPipeFrame \<Rightarrow> goerr + bytes" where
  "marshalNamedPipeFrame frame =
     (if \<not> messageType_valid (frType frame) then Inl [ErrNamedPipeProtocol]
      else if length (frPayload frame) > NamedPipeMaxFramePayload then Inl [ErrNamedPipeProtocol]
      else Inr (frameMagic @ put_u16 NamedPipeProtocolVersion @ put_u16 (frType frame) @
                put_u32 (of_nat (length (frPayload frame))) @ frPayload frame))"

definition decodeNamedPipeHeader :: "bytes \<Rightarrow> goerr + messageType \<times> nat" where
  "decodeNamedPipeHeader header =
     (if length header \<noteq> namedPipeFrameHeaderSize \<or> gslice 0 4 header \<noteq> frameMagic
      then Inl [ErrNamedPipeProtocol]
      else if get_u16 (gslice 4 6 header) \<noteq> NamedPipeProtocolVersion then Inl [ErrNamedPipeProtocol]
      else
        let messageType = get_u16 (gslice 6 8 header); payloadLength = get_u32 (gslice 8 12 header)
        in if \<not> messageType_valid messageType then Inl [ErrNamedPipeProtocol]
           else if unat payloadLength > NamedPipeMaxFramePayload then Inl [ErrNamedPipeProtocol]
           else Inr (messageType, unat payloadLength))"

definition decodeNamedPipeFrame :: "bytes \<Rightarrow> goerr + namedPipeFrame" where
  "decodeNamedPipeFrame encoded =
     (if length encoded < namedPipeFrameHeaderSize then Inl [ErrNamedPipeProtocol]
      else case decodeNamedPipeHeader (gslice 0 12 encoded) of
        Inl e \<Rightarrow> Inl e
      | Inr (messageType, payloadLength) \<Rightarrow>
          if length encoded \<noteq> namedPipeFrameHeaderSize + payloadLength then Inl [ErrNamedPipeProtocol]
          else Inr \<lparr>frType = messageType, frPayload = drop 12 encoded\<rparr>)"

text \<open>
  \<open>ReadFull\<close> on a stream: the bytes asked for, or the error that ends the stream when it holds fewer.
\<close>

definition ReadFull :: "nat \<Rightarrow> goerr \<Rightarrow> bytes \<Rightarrow> goerr + bytes \<times> bytes" where
  "ReadFull n fault stream = (if n \<le> length stream then Inr (take n stream, drop n stream) else Inl fault)"

definition readNamedPipeFrame :: "goerr \<Rightarrow> bytes \<Rightarrow> goerr + namedPipeFrame \<times> bytes" where
  "readNamedPipeFrame fault stream =
     (case ReadFull namedPipeFrameHeaderSize fault stream of
        Inl e \<Rightarrow> Inl e
      | Inr (header, stream) \<Rightarrow>
          (case decodeNamedPipeHeader header of
             Inl e \<Rightarrow> Inl e
           | Inr (messageType, payloadLength) \<Rightarrow>
               if payloadLength \<noteq> 0 then
                 (case ReadFull payloadLength fault stream of
                    Inl e \<Rightarrow> Inl e
                  | Inr (payload, stream) \<Rightarrow> Inr (\<lparr>frType = messageType, frPayload = payload\<rparr>, stream))
               else Inr (\<lparr>frType = messageType, frPayload = []\<rparr>, stream)))"

text \<open>
  How a stream ends: the transport's error, and what the read's own context and the connection's
  say at that moment.
\<close>

record readEnd =
  reError :: goerr
  reOperation :: ctxErr
  reConnection :: ctxErr

definition readFrameIdle :: "duration \<Rightarrow> readEnd \<Rightarrow> bytes \<Rightarrow> goerr + namedPipeFrame \<times> bytes" where
  "readFrameIdle timeout fin stream =
     (case readNamedPipeFrame (reError fin) stream of
        Inr x \<Rightarrow> Inr x
      | Inl err \<Rightarrow>
          if timeout = 0 then Inl (the (normalizeContextError (reConnection fin) (Some err)))
          else if reOperation fin = CtxExpired \<and> reConnection fin = CtxLive
          then Inl (ErrNamedPipeIdleTimeout # err)
          else Inl (the (normalizeContextError (reOperation fin) (Some err))))"

section \<open>Reading a body\<close>

record pipeDecoder =
  pdPayload :: bytes
  pdOffset :: nat

definition decTake :: "nat \<Rightarrow> pipeDecoder \<Rightarrow> goerr + bytes \<times> pipeDecoder" where
  "decTake n dec =
     (if int (pdOffset dec) > int (length (pdPayload dec)) - int n then Inl [ErrNamedPipeProtocol]
      else Inr (gslice (pdOffset dec) (pdOffset dec + n) (pdPayload dec),
                dec\<lparr>pdOffset := pdOffset dec + n\<rparr>))"

definition decUint8 :: "pipeDecoder \<Rightarrow> goerr + byte \<times> pipeDecoder" where
  "decUint8 dec = (case decTake 1 dec of Inl e \<Rightarrow> Inl e | Inr (v, dec) \<Rightarrow> Inr (v ! 0, dec))"

definition decUint64 :: "pipeDecoder \<Rightarrow> goerr + u64 \<times> pipeDecoder" where
  "decUint64 dec = (case decTake 8 dec of Inl e \<Rightarrow> Inl e | Inr (v, dec) \<Rightarrow> Inr (get_u64 v, dec))"

definition decDone :: "pipeDecoder \<Rightarrow> goerr option" where
  "decDone dec = (if pdOffset dec \<noteq> length (pdPayload dec) then Some [ErrNamedPipeProtocol] else None)"

definition decodeRequest :: "namedPipeFrame \<Rightarrow> goerr + u64 \<times> pipeDecoder" where
  "decodeRequest frame =
     (case decUint64 \<lparr>pdPayload = frPayload frame, pdOffset = 0\<rparr> of
        Inl _ \<Rightarrow> Inl [ErrNamedPipeProtocol]
      | Inr (requestID, dec) \<Rightarrow> if requestID = 0 then Inl [ErrNamedPipeProtocol] else Inr (requestID, dec))"

text \<open>\<open>As4\<close> and \<open>As16\<close> give the address's bytes.\<close>

definition appendAddrPort :: "bytes \<Rightarrow> AddrPort \<Rightarrow> byte \<Rightarrow> goerr + bytes" where
  "appendAddrPort destination address family =
     (if \<not> Addr_IsValid (apAddr address) \<or> apPort address = 0 then Inl [CapError ErrInvalidFlow]
      else if family = 4 then
        (if \<not> Addr_Is4 (apAddr address) then Inl [CapError ErrInvalidFlow]
         else Inr (destination @ Addr_AsSlice (apAddr address) @ put_u16 (apPort address)))
      else if family = 6 then
        (if \<not> Addr_Is6 (apAddr address) \<or> Addr_Is4In6 (apAddr address) then Inl [CapError ErrInvalidFlow]
         else Inr (destination @ Addr_AsSlice (apAddr address) @ put_u16 (apPort address)))
      else Inl [CapError ErrInvalidFlow])"

definition decodeAddrPort :: "pipeDecoder \<Rightarrow> byte \<Rightarrow> goerr + AddrPort \<times> pipeDecoder" where
  "decodeAddrPort dec family =
     (if family \<noteq> 4 \<and> family \<noteq> 6 then Inl [CapError ErrInvalidFlow]
      else case decTake (if family = 4 then 4 else 16) dec of
        Inl e \<Rightarrow> Inl e
      | Inr (addressBytes, dec) \<Rightarrow>
          (case decTake 2 dec of
             Inl e \<Rightarrow> Inl e
           | Inr (portBytes, dec) \<Rightarrow>
               if get_u16 portBytes = 0 then Inl [CapError ErrInvalidFlow]
               else Inr (\<lparr>apAddr = Addr_Unmap (addrOfSlice addressBytes), apPort = get_u16 portBytes\<rparr>, dec)))"

definition decodePipeTransaction :: "pipeDecoder \<Rightarrow> goerr + u64 \<times> bytes" where
  "decodePipeTransaction dec =
     (case decUint64 dec of
        Inl e \<Rightarrow> Inl e
      | Inr (generation, dec) \<Rightarrow>
          (case decTake 16 dec of
             Inl _ \<Rightarrow> Inl [ErrNamedPipeProtocol]
           | Inr (idBytes, dec) \<Rightarrow>
               if decDone dec \<noteq> None then Inl [ErrNamedPipeProtocol] else Inr (generation, idBytes)))"

definition decodePipeFlowSpec :: "pipeDecoder \<Rightarrow> goerr + FlowSpec" where
  "decodePipeFlowSpec dec =
     (case decTake 16 dec of
        Inl e \<Rightarrow> Inl e
      | Inr (flowIDBytes, dec) \<Rightarrow>
     (case decUint64 dec of
        Inl e \<Rightarrow> Inl e
      | Inr (generation, dec) \<Rightarrow>
     (case decUint8 dec of
        Inl e \<Rightarrow> Inl e
      | Inr (family, dec) \<Rightarrow>
     (case decodeAddrPort dec family of
        Inl e \<Rightarrow> Inl e
      | Inr (loc, dec) \<Rightarrow>
     (case decodeAddrPort dec family of
        Inl _ \<Rightarrow> Inl [ErrNamedPipeProtocol]
      | Inr (rem, dec) \<Rightarrow>
          if decDone dec \<noteq> None then Inl [ErrNamedPipeProtocol]
          else Inr \<lparr>specID = flowIDBytes, specGeneration = generation, specFamily = family,
                    specLocal = loc, specRemote = rem\<rparr>)))))"

definition decodePipeDatagram :: "pipeDecoder \<Rightarrow> goerr + Datagram" where
  "decodePipeDatagram dec =
     (case decTake 16 dec of
        Inl e \<Rightarrow> Inl e
      | Inr (flowIDBytes, dec) \<Rightarrow>
     (case decUint64 dec of
        Inl e \<Rightarrow> Inl e
      | Inr (generation, dec) \<Rightarrow>
     (case decTake 16 dec of
        Inl e \<Rightarrow> Inl e
      | Inr (nonceBytes, dec) \<Rightarrow>
     (case decUint64 dec of
        Inl e \<Rightarrow> Inl e
      | Inr (sequence, dec) \<Rightarrow>
     (case decTake (length (pdPayload dec) - pdOffset dec) dec of
        Inl _ \<Rightarrow> Inl [ErrNamedPipeProtocol]
      | Inr (payload, dec) \<Rightarrow>
          if decDone dec \<noteq> None then Inl [ErrNamedPipeProtocol]
          else Inr \<lparr>dgFlow = flowIDBytes, dgGeneration = generation, dgNonce = nonceBytes,
                    dgSequence = sequence, dgPayload = payload\<rparr>)))))"

section \<open>Printing bodies and answers\<close>

definition encodePipeFlowSpec :: "u64 \<Rightarrow> FlowSpec \<Rightarrow> goerr + bytes" where
  "encodePipeFlowSpec requestID spec =
     (let payload = put_u64 requestID @ specID spec @ put_u64 (specGeneration spec) @ [specFamily spec]
      in case appendAddrPort payload (specLocal spec) (specFamily spec) of
        Inl e \<Rightarrow> Inl e
      | Inr payload \<Rightarrow> appendAddrPort payload (specRemote spec) (specFamily spec))"

definition namedPipeResponse :: "u64 \<Rightarrow> messageType \<Rightarrow> pipeStatus \<Rightarrow> bytes \<Rightarrow> namedPipeFrame" where
  "namedPipeResponse requestID operation status data =
     \<lparr>frType = pipeMessageResponse,
      frPayload = put_u64 requestID @ put_u16 operation @ put_u16 status @ data\<rparr>"

definition decodePipeResponse :: "namedPipeFrame \<Rightarrow> goerr + u64 \<times> messageType \<times> pipeStatus \<times> bytes" where
  "decodePipeResponse frame =
     (if frType frame \<noteq> pipeMessageResponse \<or> length (frPayload frame) < 12 then Inl [ErrNamedPipeProtocol]
      else
        let requestID = get_u64 (gslice 0 8 (frPayload frame));
            operation = get_u16 (gslice 8 10 (frPayload frame));
            status = get_u16 (gslice 10 12 (frPayload frame))
        in if requestID = 0 \<or> \<not> messageType_valid operation \<or> operation = pipeMessageResponse
           then Inl [ErrNamedPipeProtocol]
           else Inr (requestID, operation, status, drop 12 (frPayload frame)))"

definition marshalTunnelForPipe :: "TunnelDatagram \<Rightarrow> goerr + bytes" where
  "marshalTunnelForPipe datagram =
     (case MarshalTunnelDatagram datagram of
        Inl e \<Rightarrow> Inl [TgpError e]
      | Inr encoded \<Rightarrow>
          if length encoded > NamedPipeMaxFramePayload - 12 then Inl [CapError CapErrDatagramTooLarge]
          else Inr encoded)"

text \<open>\<open>time.UnixMilli\<close> and \<open>Time.UnixMilli\<close>; the milliseconds travel as \<open>uint64(int64)\<close>.\<close>

definition toUnixMilli :: "gotime \<Rightarrow> u64" where
  "toUnixMilli t = word_of_int (t div time_Millisecond)"

definition ofUnixMilli :: "u64 \<Rightarrow> gotime" where
  "ofUnixMilli m = sint m * time_Millisecond"

text \<open>The bodies that carry a prepared transaction, a lease and a delivery.\<close>

definition transactionData :: "Transaction \<Rightarrow> bytes" where
  "transactionData t = put_u64 (txGeneration t) @ txId t"

definition leaseData :: "FlowLease \<Rightarrow> bytes" where
  "leaseData l = leaseFlow l @ put_u64 (leaseGeneration l) @ leaseNonce l @ put_u64 (toUnixMilli (leaseExpires l))"

definition deliveryFrame :: "Delivery \<Rightarrow> namedPipeFrame" where
  "deliveryFrame d =
     \<lparr>frType = pipeMessageDelivery,
      frPayload = dvFlow d @ put_u64 (dvGeneration d) @ dvNonce d @ dvPayload d\<rparr>"

section \<open>One operation of an authenticated controller\<close>

record opEnv =
  oeRandom :: "bytes option"
  oeNow :: gotime
  oeSend :: "TunnelDatagram \<Rightarrow> goerr option"

record opResult =
  orData :: bytes
  orTerminal :: bool
  orErr :: "goerr option"
  orSent :: "TunnelDatagram list"

abbreviation opFails :: "bool \<Rightarrow> goerr \<Rightarrow> opResult" where
  "opFails terminal e \<equiv> \<lparr>orData = [], orTerminal = terminal, orErr = Some e, orSent = []\<rparr>"

abbreviation opAnswers :: "bytes \<Rightarrow> opResult" where
  "opAnswers data \<equiv> \<lparr>orData = data, orTerminal = False, orErr = None, orSent = []\<rparr>"

text \<open>An operation of the registry that returns only an error.\<close>

definition opReturns :: "cap_error option \<times> Registry \<Rightarrow> (opResult \<times> Registry) option" where
  "opReturns x = (case x of
      (None, r) \<Rightarrow> Some (opAnswers [], r)
    | (Some e, r) \<Rightarrow> Some (opFails False [CapError e], r))"

text \<open>\<open>None\<close> is the panic of a buffer released twice. The \<open>release\<close> result of the code is always nil.\<close>

definition handleNamedPipeOperation :: "opEnv \<Rightarrow> Controller \<Rightarrow> messageType \<Rightarrow> pipeDecoder \<Rightarrow> Registry \<Rightarrow>
    (opResult \<times> Registry) option" where
  "handleNamedPipeOperation env controller messageType dec r =
     (let cid = ctrlId controller; now = oeNow env in
      if messageType = pipeMessagePrepareGeneration then
        (case decUint64 dec of
           Inl _ \<Rightarrow> Some (opFails True [ErrNamedPipeProtocol], r)
         | Inr (generation, dec) \<Rightarrow>
             if decDone dec \<noteq> None then Some (opFails True [ErrNamedPipeProtocol], r)
             else (case prepareGeneration (oeRandom env) now cid generation r of
                     (Inl e, r) \<Rightarrow> Some (opFails False [CapError e], r)
                   | (Inr transaction, r) \<Rightarrow> Some (opAnswers (transactionData transaction), r)))
      else if messageType = pipeMessageCommitGeneration \<or> messageType = pipeMessageAbortGeneration then
        (case decodePipeTransaction dec of
           Inl e \<Rightarrow> Some (opFails True e, r)
         | Inr (generation, tid) \<Rightarrow>
             let transaction = \<lparr>txId = tid, txGeneration = generation\<rparr>
             in if messageType = pipeMessageCommitGeneration
                then opReturns (commitGeneration now cid transaction r)
                else opReturns (abortGeneration now cid transaction r))
      else if messageType = pipeMessageDisableGeneration then
        (case decUint64 dec of
           Inl _ \<Rightarrow> Some (opFails True [ErrNamedPipeProtocol], r)
         | Inr (generation, dec) \<Rightarrow>
             if decDone dec \<noteq> None then Some (opFails True [ErrNamedPipeProtocol], r)
             else opReturns (disableGeneration now cid generation r))
      else if messageType = pipeMessageOpenFlow then
        (case decodePipeFlowSpec dec of
           Inl e \<Rightarrow> Some (opFails True e, r)
         | Inr spec \<Rightarrow>
             (case openFlow (oeRandom env) now cid spec r of
                (Inl e, r) \<Rightarrow> Some (opFails False [CapError e], r)
              | (Inr lease, r) \<Rightarrow> Some (opAnswers (leaseData lease), r)))
      else if messageType = pipeMessageDatagram then
        (case decodePipeDatagram dec of
           Inl e \<Rightarrow> Some (opFails True e, r)
         | Inr datagram \<Rightarrow>
             (case acceptDatagram now cid datagram r of
                (Inl e, r) \<Rightarrow> Some (opFails False [CapError e], r)
              | (Inr (accepted, buffer), r) \<Rightarrow>
                  (case bufferRelease buffer r of
                     None \<Rightarrow> None
                   | Some r \<Rightarrow> Some (\<lparr>orData = [], orTerminal = False, orErr = oeSend env accepted,
                                     orSent = [accepted]\<rparr>, r))))
      else if messageType = pipeMessageCloseFlow then
        (case decUint64 dec of
           Inl e \<Rightarrow> Some (opFails True e, r)
         | Inr (generation, dec) \<Rightarrow>
             (case decTake 16 dec of
                Inl e \<Rightarrow> Some (opFails True e, r)
              | Inr (flowID, dec) \<Rightarrow>
                  (case decTake 16 dec of
                     Inl _ \<Rightarrow> Some (opFails True [ErrNamedPipeProtocol], r)
                   | Inr (nonce, dec) \<Rightarrow>
                       if decDone dec \<noteq> None then Some (opFails True [ErrNamedPipeProtocol], r)
                       else opReturns (closeFlow now cid generation flowID nonce r))))
      else if messageType = pipeMessageCloseConnection then
        (if decDone dec \<noteq> None then Some (opFails True [ErrNamedPipeProtocol], r)
         else Some (\<lparr>orData = [], orTerminal = True, orErr = None, orSent = []\<rparr>, r))
      else if messageType = pipeMessagePing then
        (case decTake (length (pdPayload dec) - pdOffset dec) dec of
           Inl _ \<Rightarrow> Some (opFails True [ErrNamedPipeProtocol], r)
         | Inr (payload, dec) \<Rightarrow>
             if length payload > 32 \<or> decDone dec \<noteq> None then Some (opFails True [ErrNamedPipeProtocol], r)
             else Some (opAnswers payload, r))
      else Some (opFails True [ErrNamedPipeProtocol], r))"

section \<open>The writer\<close>

text \<open>
  One goroutine owns the pipe's outgoing bytes. \<open>wrQueue\<close> is the channel of requests that wait, each
  with the number its caller waits under and its encoded frame; \<open>wrAnswers\<close> lists the results sent,
  \<open>wrFrames\<close> the frames the transport has taken whole.
\<close>

record pipeWriter =
  wrQueue :: "(nat \<times> bytes) list"
  wrClosed :: bool
  wrCancelled :: bool
  wrDone :: bool
  wrFrames :: "bytes list"
  wrAnswers :: "(nat \<times> goerr option) list"

definition newPipeWriter :: pipeWriter where
  "newPipeWriter = \<lparr>wrQueue = [], wrClosed = False, wrCancelled = False, wrDone = False,
     wrFrames = [], wrAnswers = []\<rparr>"

datatype enqueueResult = Enqueued | Refused goerr | Waits

text \<open>One turn of the loop in \<open>enqueue\<close>; \<open>Waits\<close> is the wait on the condition variable.\<close>

definition writerEnqueue :: "ctxErr \<Rightarrow> nat \<Rightarrow> bytes \<Rightarrow> pipeWriter \<Rightarrow> enqueueResult \<times> pipeWriter" where
  "writerEnqueue ctx k wire w =
     (case ctxError ctx of
        Some e \<Rightarrow> (Refused (the (normalizeContextError ctx (Some e))), w)
      | None \<Rightarrow>
          if wrClosed w \<or> wrCancelled w then (Refused [CapError CapErrClosed], w)
          else if length (wrQueue w) < namedPipeWriteQueueSize
          then (Enqueued, w\<lparr>wrQueue := wrQueue w @ [(k, wire)]\<rparr>)
          else (Waits, w))"

text \<open>
  \<open>run\<close> takes one request: \<open>before\<close> and \<open>after\<close> are its context before and after the write, \<open>own\<close> the
  write's own context, and \<open>fault\<close> what \<open>WriteFull\<close> returned.
\<close>

definition writerServe :: "ctxErr \<Rightarrow> ctxErr \<Rightarrow> ctxErr \<Rightarrow> goerr option \<Rightarrow> pipeWriter \<Rightarrow> pipeWriter" where
  "writerServe before after own fault w =
     (case wrQueue w of
        [] \<Rightarrow> w
      | (k, wire) # rest \<Rightarrow>
          let w = w\<lparr>wrQueue := rest\<rparr>
          in case ctxError before of
               Some e \<Rightarrow> w\<lparr>wrAnswers := wrAnswers w @ [(k, normalizeContextError before (Some e))]\<rparr>
             | None \<Rightarrow>
                 let err = (if ctxError after \<noteq> None
                            then normalizeContextError after (errors_Join fault (ctxError after))
                            else normalizeContextError own fault);
                     w = w\<lparr>wrAnswers := wrAnswers w @ [(k, err)],
                           wrFrames := (if fault = None then wrFrames w @ [wire] else wrFrames w)\<rparr>
                 in if err \<noteq> None then w\<lparr>wrCancelled := True\<rparr> else w)"

text \<open>The branch for the cancelled context: closed, the queue drained, the goroutine gone.\<close>

definition writerStop :: "pipeWriter \<Rightarrow> pipeWriter" where
  "writerStop w =
     w\<lparr>wrClosed := True, wrQueue := [], wrDone := True,
       wrAnswers := wrAnswers w @ map (\<lambda>(k, _). (k, Some [CapError CapErrClosed])) (wrQueue w)\<rparr>"

definition writerClose :: "pipeWriter \<Rightarrow> pipeWriter" where
  "writerClose w = (if wrClosed w then w else w\<lparr>wrClosed := True, wrCancelled := True\<rparr>)"

section \<open>Serving a connection\<close>

text \<open>
  What becomes of one frame handed to the writer: it is written; the caller's context ends while the
  frame still waits, and it is not written; the caller's context ends and the frame is written all the
  same; or the transport fails, which cancels the connection.
\<close>

datatype writeOutcome = Written | Expired ctxErr | WrittenLate ctxErr | WriteFault goerr

record pipeConn =
  pcRegistry :: Registry
  pcAttachment :: pointer
  pcController :: "Controller option"
  pcBound :: "Controller option"
  pcLast :: u64
  pcBroken :: bool
  pcFrames :: "namedPipeFrame list"
  pcSent :: "TunnelDatagram list"

definition sessionWriteFrame :: "writeOutcome \<Rightarrow> namedPipeFrame \<Rightarrow> pipeConn \<Rightarrow> goerr option \<times> pipeConn" where
  "sessionWriteFrame outcome frame c =
     (case marshalNamedPipeFrame frame of
        Inl e \<Rightarrow> (Some e, c)
      | Inr wire \<Rightarrow>
          if pcBroken c then (Some [CapError CapErrClosed], c)
          else case outcome of
            Written \<Rightarrow> (None, c\<lparr>pcFrames := pcFrames c @ [frame]\<rparr>)
          | Expired ctx \<Rightarrow>
              (if ctx = CtxLive then (None, c\<lparr>pcFrames := pcFrames c @ [frame]\<rparr>)
               else (normalizeContextError ctx (ctxError ctx), c))
          | WrittenLate ctx \<Rightarrow>
              (normalizeContextError ctx (ctxError ctx), c\<lparr>pcFrames := pcFrames c @ [frame]\<rparr>)
          | WriteFault e \<Rightarrow> (Some e, c\<lparr>pcBroken := True\<rparr>))"

text \<open>\<open>DeliverReply\<close>, which another goroutine calls; the outer \<open>None\<close> is the panic.\<close>

definition DeliverReply :: "gotime \<Rightarrow> writeOutcome \<Rightarrow> TunnelDatagram \<Rightarrow> pipeConn \<Rightarrow>
    (goerr option \<times> pipeConn) option" where
  "DeliverReply now outcome datagram c =
     (case pcBound c of
        None \<Rightarrow> Some (Some [CapError ErrControllerRevoked], c)
      | Some controller \<Rightarrow>
          (case resolveReply now (ctrlId controller) datagram (pcRegistry c) of
             (Inl e, r) \<Rightarrow> Some (Some [CapError e], c\<lparr>pcRegistry := r\<rparr>)
           | (Inr (delivery, buffer), r) \<Rightarrow>
               (case sessionWriteFrame outcome (deliveryFrame delivery) (c\<lparr>pcRegistry := r\<rparr>) of
                  (err, c) \<Rightarrow>
                    (case bufferRelease buffer (pcRegistry c) of
                       None \<Rightarrow> None
                     | Some r \<Rightarrow> Some (err, c\<lparr>pcRegistry := r\<rparr>)))))"

primrec deliverReplies :: "(gotime \<times> writeOutcome \<times> TunnelDatagram) list \<Rightarrow> pipeConn \<Rightarrow> pipeConn option" where
  "deliverReplies [] c = Some c"
| "deliverReplies (x # xs) c =
     (case DeliverReply (fst x) (fst (snd x)) (snd (snd x)) c of
        None \<Rightarrow> None
      | Some (_, c) \<Rightarrow> deliverReplies xs c)"

text \<open>
  What one turn of the loop meets: the replies delivered before its frame is read, the operation's
  surroundings, and the outcome of writing the answer.
\<close>

record turnEnv =
  teReplies :: "(gotime \<times> writeOutcome \<times> TunnelDatagram) list"
  teOp :: opEnv
  teWrite :: writeOutcome

datatype turnResult = Continue pipeConn | Return "goerr option" pipeConn | Panic

definition answerFor :: "u64 \<Rightarrow> messageType \<Rightarrow> opResult \<Rightarrow> namedPipeFrame" where
  "answerFor requestID messageType res =
     (if messageType = pipeMessagePing \<and> orErr res = None
      then \<lparr>frType = pipeMessagePong, frPayload = put_u64 requestID @ orData res\<rparr>
      else namedPipeResponse requestID messageType (statusForError (orErr res)) (orData res))"

text \<open>The first request: nothing but an authentication with the token.\<close>

definition serveAuthentication :: "turnEnv \<Rightarrow> u64 \<Rightarrow> messageType \<Rightarrow> pipeDecoder \<Rightarrow> pipeConn \<Rightarrow> turnResult" where
  "serveAuthentication env requestID messageType dec c =
     (if messageType \<noteq> pipeMessageAuthenticate then
        (case sessionWriteFrame (teWrite env)
                (namedPipeResponse requestID messageType pipeStatusUnauthorized []) c of
           (_, c) \<Rightarrow> Return (Some [CapError CapErrAuthentication]) c)
      else
        let presented = (case decTake SessionTokenSize dec of
                           Inl e \<Rightarrow> Inl e
                         | Inr (token, dec) \<Rightarrow>
                             (case decDone dec of Some e \<Rightarrow> Inl e | None \<Rightarrow> Inr token));
            (decodeErr, c) = (case presented of
                Inl e \<Rightarrow> (Some e, c)
              | Inr token \<Rightarrow>
                  (case Authenticate (oeRandom (teOp env)) (oeNow (teOp env)) (Some (pcAttachment c)) token
                          (pcRegistry c) of
                     (Inl e, r) \<Rightarrow> (Some [CapError e], c\<lparr>pcRegistry := r\<rparr>)
                   | (Inr controller, r) \<Rightarrow>
                       (None, c\<lparr>pcRegistry := r, pcController := Some controller,
                               pcBound := Some controller\<rparr>)))
        in case sessionWriteFrame (teWrite env)
                  (namedPipeResponse requestID messageType (statusForError decodeErr) []) c of
             (Some writeErr, c) \<Rightarrow> Return (Some writeErr) c
           | (None, c) \<Rightarrow> (if decodeErr \<noteq> None then Return decodeErr c else Continue c))"

text \<open>The body of the loop, once a frame was read.\<close>

definition serveFrame :: "turnEnv \<Rightarrow> namedPipeFrame \<Rightarrow> pipeConn \<Rightarrow> turnResult" where
  "serveFrame env frame c =
     (case decodeRequest frame of
        Inl e \<Rightarrow> Return (Some e) c
      | Inr (requestID, dec) \<Rightarrow>
          if requestID \<le> pcLast c then Return (Some [ErrNamedPipeProtocol]) c
          else
            let c = c\<lparr>pcLast := requestID\<rparr>
            in case pcController c of
                 None \<Rightarrow> serveAuthentication env requestID (frType frame) dec c
               | Some controller \<Rightarrow>
                   (case handleNamedPipeOperation (teOp env) controller (frType frame) dec (pcRegistry c) of
                      None \<Rightarrow> Panic
                    | Some (res, r) \<Rightarrow>
                        (case sessionWriteFrame (teWrite env) (answerFor requestID (frType frame) res)
                                (c\<lparr>pcRegistry := r, pcSent := pcSent c @ orSent res\<rparr>) of
                           (Some writeErr, c) \<Rightarrow> Return (Some writeErr) c
                         | (None, c) \<Rightarrow> (if orTerminal res then Return (orErr res) c else Continue c))))"

lemma readNamedPipeFrame_shorter:
  "readNamedPipeFrame e s = Inr (f, s') \<Longrightarrow> length s' < length s"
  by (auto simp: readNamedPipeFrame_def ReadFull_def namedPipeFrameHeaderSize_def
      split: if_splits sum.splits)

lemma readFrameIdle_shorter: "readFrameIdle t fin s = Inr (f, s') \<Longrightarrow> length s' < length s"
  by (auto simp: readFrameIdle_def Let_def split: sum.splits if_splits dest: readNamedPipeFrame_shorter)

text \<open>
  The loop. It ends because every turn takes a whole frame off the stream: a finite stream carries
  finitely many.
\<close>

function serveLoop :: "(nat \<Rightarrow> turnEnv) \<Rightarrow> duration \<Rightarrow> readEnd \<Rightarrow> nat \<Rightarrow> bytes \<Rightarrow> pipeConn \<Rightarrow> turnResult" where
  "serveLoop env idle fin k stream c =
     (case deliverReplies (teReplies (env k)) c of
        None \<Rightarrow> Panic
      | Some c \<Rightarrow>
          (case readFrameIdle idle fin stream of
             Inl err \<Rightarrow> Return (if isNamedPipeEOF err then None else Some err) c
           | Inr (frame, stream) \<Rightarrow>
               (case serveFrame (env k) frame c of
                  Continue c \<Rightarrow> serveLoop env idle fin (Suc k) stream c
                | Return e c \<Rightarrow> Return e c
                | Panic \<Rightarrow> Panic)))"
  by pat_completeness auto

termination
  by (relation "measure (\<lambda>(env, idle, fin, k, stream, c). length stream)")
    (auto dest: readFrameIdle_shorter)

declare serveLoop.simps [simp del]

text \<open>
  \<open>serveNamedPipeController\<close> for an attachment of this registry: the transport is attached, the token
  goes out in the hello frame, the loop runs, and the deferred function ends the session, gives the
  capability back, or the attachment where there is none.
\<close>

definition serveDeferred :: "goerr option \<Rightarrow> pipeConn \<Rightarrow> goerr option \<times> pipeConn" where
  "serveDeferred err c =
     (case pcController c of
        Some controller \<Rightarrow>
          (let c = (if pcBound c = Some controller then c\<lparr>pcBound := None\<rparr> else c)
           in case controllerClose (Some controller) (pcRegistry c) of
                (e, _, r) \<Rightarrow> (errors_Join err (map_option (\<lambda>x. [CapError x]) e), c\<lparr>pcRegistry := r\<rparr>))
      | None \<Rightarrow>
          (case detachTransport (Some (pcAttachment c)) (pcRegistry c) of
             (e, r) \<Rightarrow> (errors_Join err (map_option (\<lambda>x. [CapError x]) e), c\<lparr>pcRegistry := r\<rparr>)))"

definition serveNamedPipeController :: "bytes option \<Rightarrow> writeOutcome \<Rightarrow> (nat \<Rightarrow> turnEnv) \<Rightarrow> duration \<Rightarrow>
    readEnd \<Rightarrow> bytes \<Rightarrow> pointer \<Rightarrow> Registry \<Rightarrow> turnResult" where
  "serveNamedPipeController random helloWrite env idle fin stream attachment r =
     (let c = \<lparr>pcRegistry = r, pcAttachment = attachment, pcController = None, pcBound = None,
               pcLast = 0, pcBroken = False, pcFrames = [], pcSent = []\<rparr>
      in case AttachTransport random (Some attachment) r of
           (Inl e, r) \<Rightarrow> Return (Some [CapError e]) (c\<lparr>pcRegistry := r\<rparr>)
         | (Inr token, r) \<Rightarrow>
             (case (case sessionWriteFrame helloWrite \<lparr>frType = pipeMessageHello, frPayload = token\<rparr>
                           (c\<lparr>pcRegistry := r\<rparr>) of
                      (Some e, c) \<Rightarrow> Return (Some e) c
                    | (None, c) \<Rightarrow> serveLoop env idle fin 0 stream c) of
                Return err c \<Rightarrow> (case serveDeferred err c of (err, c) \<Rightarrow> Return err c)
              | Continue c \<Rightarrow> Continue c
              | Panic \<Rightarrow> Panic))"

end
