(* ===== verification/NamedPipe_Codec.thy ===== *)
theory NamedPipe_Codec
  imports NamedPipe
begin

text \<open>
  The named pipe's formats: frames and streams of frames, and the bodies of requests and answers.
\<close>

section \<open>Frames\<close>

definition wf_frame :: "namedPipeFrame \<Rightarrow> bool" where
  "wf_frame f \<longleftrightarrow> messageType_valid (frType f) \<and> length (frPayload f) \<le> NamedPipeMaxFramePayload"

lemmas pipe_consts = NamedPipeMaxFramePayload_def namedPipeFrameHeaderSize_def
  NamedPipeProtocolVersion_def SessionTokenSize_def

lemma length_frameMagic [simp]: "length frameMagic = 4"
  by (simp add: frameMagic_def)

definition frameHeader :: "messageType \<Rightarrow> nat \<Rightarrow> bytes" where
  "frameHeader t n = frameMagic @ put_u16 NamedPipeProtocolVersion @ put_u16 t @ put_u32 (of_nat n)"

lemma length_frameHeader [simp]: "length (frameHeader t n) = 12"
  by (simp add: frameHeader_def)

lemma marshal_iff:
  "marshalNamedPipeFrame f = Inr w \<longleftrightarrow>
     wf_frame f \<and> w = frameHeader (frType f) (length (frPayload f)) @ frPayload f"
  by (auto simp: marshalNamedPipeFrame_def wf_frame_def frameHeader_def)

lemma unat_len32: "n \<le> NamedPipeMaxFramePayload \<Longrightarrow> unat (of_nat n :: u32) = n"
  by (simp add: pipe_consts unat_of_nat take_bit_nat_eq_self)

lemma header_parts:
  "gslice 0 4 (frameHeader t n) = frameMagic"
  "get_u16 (gslice 4 6 (frameHeader t n)) = NamedPipeProtocolVersion"
  "get_u16 (gslice 6 8 (frameHeader t n)) = t"
  "get_u32 (gslice 8 12 (frameHeader t n)) = of_nat n"
  by (simp_all add: frameHeader_def slice_simps)

lemma decode_header:
  assumes "messageType_valid t" "n \<le> NamedPipeMaxFramePayload"
  shows "decodeNamedPipeHeader (frameHeader t n) = Inr (t, n)"
  using assms by (simp add: decodeNamedPipeHeader_def header_parts namedPipeFrameHeaderSize_def
      unat_len32 Let_def)

lemma decode_header_Inr:
  assumes "decodeNamedPipeHeader h = Inr (t, n)"
  shows "messageType_valid t" "n \<le> NamedPipeMaxFramePayload" "h = frameHeader t n"
proof -
  have len: "length h = 12" and m: "gslice 0 4 h = frameMagic"
    and v: "get_u16 (gslice 4 6 h) = NamedPipeProtocolVersion"
    and t: "t = get_u16 (gslice 6 8 h)" and n: "n = unat (get_u32 (gslice 8 12 h))"
    and ok: "messageType_valid t" "n \<le> NamedPipeMaxFramePayload"
    using assms by (auto simp: decodeNamedPipeHeader_def namedPipeFrameHeaderSize_def Let_def not_less
        split: if_splits)
  show "messageType_valid t" "n \<le> NamedPipeMaxFramePayload" by (fact ok)+
  have "put_u16 NamedPipeProtocolVersion = gslice 4 6 h"
    unfolding v [symmetric] using len by (intro put_get_u16) simp
  moreover have "put_u16 t = gslice 6 8 h" unfolding t using len by (intro put_get_u16) simp
  moreover have "put_u32 (of_nat n) = gslice 8 12 h"
  proof -
    have "of_nat n = get_u32 (gslice 8 12 h)" by (simp add: n)
    then show ?thesis using len by simp
  qed
  ultimately have "frameHeader t n = gslice 0 4 h @ gslice 4 6 h @ gslice 6 8 h @ gslice 8 12 h"
    by (simp add: frameHeader_def m)
  also have "\<dots> = h" using len by (simp add: slice_append_slice slice_whole)
  finally show "h = frameHeader t n" ..
qed

lemma decode_frame_exact: "decodeNamedPipeFrame w = Inr f \<longleftrightarrow> wf_frame f \<and> marshalNamedPipeFrame f = Inr w"
proof
  assume d: "decodeNamedPipeFrame w = Inr f"
  then obtain t n where h: "decodeNamedPipeHeader (gslice 0 12 w) = Inr (t, n)"
    and len: "length w = 12 + n" and f: "f = \<lparr>frType = t, frPayload = drop 12 w\<rparr>"
    by (auto simp: decodeNamedPipeFrame_def namedPipeFrameHeaderSize_def split: if_splits sum.splits)
  note H = decode_header_Inr [OF h]
  have wf: "wf_frame f" using H(1,2) len f by (simp add: wf_frame_def)
  have "w = gslice 0 12 w @ drop 12 w" by (simp add: gslice_def)
  then have "w = frameHeader t n @ drop 12 w" using H(3) by simp
  then show "wf_frame f \<and> marshalNamedPipeFrame f = Inr w"
    using wf f len by (simp add: marshal_iff)
next
  assume a: "wf_frame f \<and> marshalNamedPipeFrame f = Inr w"
  then have w: "w = frameHeader (frType f) (length (frPayload f)) @ frPayload f" by (simp add: marshal_iff)
  show "decodeNamedPipeFrame w = Inr f"
    using a by (simp add: decodeNamedPipeFrame_def w decode_header slice_simps wf_frame_def
        namedPipeFrameHeaderSize_def)
qed

interpretation pipe_frame: canonical_format marshalNamedPipeFrame decodeNamedPipeFrame wf_frame
  by unfold_locales (simp_all add: decode_frame_exact)

section \<open>Streams of frames\<close>

lemma read_frame:
  assumes "marshalNamedPipeFrame f = Inr w"
  shows "readNamedPipeFrame e (w @ rest) = Inr (f, rest)"
proof -
  have wf: "wf_frame f" and w: "w = frameHeader (frType f) (length (frPayload f)) @ frPayload f"
    using assms by (simp_all add: marshal_iff)
  have "ReadFull namedPipeFrameHeaderSize e (w @ rest) =
      Inr (frameHeader (frType f) (length (frPayload f)), frPayload f @ rest)"
    by (simp add: ReadFull_def w namedPipeFrameHeaderSize_def)
  then show ?thesis using wf
    by (cases f) (simp add: readNamedPipeFrame_def decode_header wf_frame_def ReadFull_def)
qed

lemma read_frame_Inr:
  assumes "readNamedPipeFrame e s = Inr (f, rest)"
  obtains w where "marshalNamedPipeFrame f = Inr w" "s = w @ rest"
proof -
  obtain t n where len: "12 \<le> length s" and h: "decodeNamedPipeHeader (take 12 s) = Inr (t, n)"
    using assms by (auto simp: readNamedPipeFrame_def ReadFull_def namedPipeFrameHeaderSize_def
        split: if_splits sum.splits)
  note H = decode_header_Inr [OF h]
  have f: "n \<le> length (drop 12 s)" "f = \<lparr>frType = t, frPayload = take n (drop 12 s)\<rparr>" "rest = drop n (drop 12 s)"
    using assms len h by (auto simp: readNamedPipeFrame_def ReadFull_def namedPipeFrameHeaderSize_def
        split: if_splits)
  have "marshalNamedPipeFrame f = Inr (frameHeader t n @ take n (drop 12 s))"
    using H f(1) by (simp add: marshal_iff f(2) wf_frame_def)
  moreover have "s = (frameHeader t n @ take n (drop 12 s)) @ rest"
    using f(3) H(3) by (metis append.assoc append_take_drop_id)
  ultimately show ?thesis by (rule that)
qed

text \<open>Everything a reader gets out of a stream: the frames, and the error it stops with.\<close>

function readFrames :: "goerr \<Rightarrow> bytes \<Rightarrow> namedPipeFrame list \<times> goerr" where
  "readFrames e s =
     (case readNamedPipeFrame e s of
        Inl err \<Rightarrow> ([], err)
      | Inr (f, s) \<Rightarrow> (case readFrames e s of (fs, err) \<Rightarrow> (f # fs, err)))"
  by pat_completeness auto

termination
  by (relation "measure (\<lambda>(e, s). length s)") (auto dest: readNamedPipeFrame_shorter)

declare readFrames.simps [simp del]

lemma read_frames_concat:
  assumes "map marshalNamedPipeFrame fs = map Inr ws"
  shows "readFrames e (concat ws @ rest) = (let (gs, err) = readFrames e rest in (fs @ gs, err))"
  using assms
proof (induction fs arbitrary: ws)
  case Nil
  then show ?case by (cases "readFrames e rest") simp
next
  case (Cons f fs)
  then obtain w ws' where ws: "ws = w # ws'" and m: "marshalNamedPipeFrame f = Inr w"
    and ms: "map marshalNamedPipeFrame fs = map Inr ws'" by (cases ws) auto
  show ?case
    using Cons.IH [OF ms] read_frame [OF m, of e "concat ws' @ rest"]
    by (subst readFrames.simps) (simp add: ws split: prod.splits)
qed

lemma read_frames_Nil: "readFrames e [] = ([], e)"
  by (subst readFrames.simps) (simp add: readNamedPipeFrame_def ReadFull_def namedPipeFrameHeaderSize_def)

lemma read_frames_only:
  "readFrames e s = (fs, err) \<Longrightarrow>
     \<exists>ws rest. map marshalNamedPipeFrame fs = map Inr ws \<and> s = concat ws @ rest \<and>
       readNamedPipeFrame e rest = Inl err"
proof (induction e s arbitrary: fs err rule: readFrames.induct)
  case (1 e s)
  show ?case
  proof (cases "readNamedPipeFrame e s")
    case (Inl x)
    then have "fs = []" "err = x" using 1(2) by (simp_all add: readFrames.simps [of e s])
    then show ?thesis using Inl by (intro exI [of _ "[]"] exI [of _ s]) simp
  next
    case (Inr y)
    obtain f s' where y: "y = (f, s')" by force
    obtain gs err' where g: "readFrames e s' = (gs, err')" by force
    have fs: "fs = f # gs" "err = err'" using 1(2) Inr y g by (simp_all add: readFrames.simps [of e s])
    obtain w where w: "marshalNamedPipeFrame f = Inr w" "s = w @ s'"
      using read_frame_Inr [OF Inr [unfolded y]] .
    from 1(1) [OF Inr y [symmetric] g] obtain ws rest where "map marshalNamedPipeFrame gs = map Inr ws"
      "s' = concat ws @ rest" "readNamedPipeFrame e rest = Inl err'" by blast
    then show ?thesis using w fs by (intro exI [of _ "w # ws"] exI [of _ rest]) simp
  qed
qed

section \<open>Bodies\<close>

lemma decTake_at:
  "decTake n \<lparr>pdPayload = p, pdOffset = k\<rparr> =
     (if k + n \<le> length p then Inr (take n (drop k p), \<lparr>pdPayload = p, pdOffset = k + n\<rparr>)
      else Inl [ErrNamedPipeProtocol])"
  by (auto simp: decTake_def gslice_def)

lemma decUint64_at:
  "decUint64 \<lparr>pdPayload = p, pdOffset = k\<rparr> =
     (if k + 8 \<le> length p then Inr (get_u64 (take 8 (drop k p)), \<lparr>pdPayload = p, pdOffset = k + 8\<rparr>)
      else Inl [ErrNamedPipeProtocol])"
  by (simp add: decUint64_def decTake_at)

lemma decUint8_at:
  "decUint8 \<lparr>pdPayload = p, pdOffset = k\<rparr> =
     (if k < length p then Inr (p ! k, \<lparr>pdPayload = p, pdOffset = k + 1\<rparr>)
      else Inl [ErrNamedPipeProtocol])"
  by (auto simp: decUint8_def decTake_at)

lemmas dec_at = decTake_at decUint64_at decUint8_at decDone_def

lemma decode_request:
  assumes "rid \<noteq> 0"
  shows "decodeRequest \<lparr>frType = t, frPayload = put_u64 rid @ body\<rparr> =
    Inr (rid, \<lparr>pdPayload = put_u64 rid @ body, pdOffset = 8\<rparr>)"
  using assms by (simp add: decodeRequest_def dec_at)

lemma decode_request_Inr:
  assumes "decodeRequest f = Inr (rid, dec)"
  shows "rid \<noteq> 0" "dec = \<lparr>pdPayload = frPayload f, pdOffset = 8\<rparr>"
    "frPayload f = put_u64 rid @ drop 8 (frPayload f)"
proof -
  have a: "8 \<le> length (frPayload f)" "rid = get_u64 (take 8 (frPayload f))" "rid \<noteq> 0"
    "dec = \<lparr>pdPayload = frPayload f, pdOffset = 8\<rparr>"
    using assms by (auto simp: decodeRequest_def dec_at split: if_splits)
  show "rid \<noteq> 0" "dec = \<lparr>pdPayload = frPayload f, pdOffset = 8\<rparr>" by (fact a(3) a(4))+
  have "put_u64 rid = take 8 (frPayload f)" using a(1) by (simp add: a(2))
  then show "frPayload f = put_u64 rid @ drop 8 (frPayload f)" by simp
qed

text \<open>Endpoints. \<open>Unmap\<close> changes only what the encoder refuses.\<close>

lemma unmap_plain: "\<not> Addr_Is4In6 a \<Longrightarrow> Addr_Unmap a = a"
  by (cases a) (auto simp: Addr_Unmap_def)

definition wf_endpoint :: "AddrPort \<Rightarrow> bool" where
  "wf_endpoint p \<longleftrightarrow> wf_addr (apAddr p) \<and> zoneless (apAddr p)"

lemma append_Inr:
  assumes "appendAddrPort d p fam = Inr w" "wf_endpoint p"
  shows "w = d @ Addr_AsSlice (apAddr p) @ put_u16 (apPort p)" "fam = 4 \<or> fam = 6" "apPort p \<noteq> 0"
    "length (Addr_AsSlice (apAddr p)) = (if fam = 4 then 4 else 16)"
    "Addr_Unmap (addrOfSlice (Addr_AsSlice (apAddr p))) = apAddr p"
proof -
  obtain a q where p: "p = \<lparr>apAddr = a, apPort = q\<rparr>" by (cases p)
  show "w = d @ Addr_AsSlice (apAddr p) @ put_u16 (apPort p)" "fam = 4 \<or> fam = 6" "apPort p \<noteq> 0"
    using assms(1) by (auto simp: appendAddrPort_def split: if_splits)
  show "length (Addr_AsSlice (apAddr p)) = (if fam = 4 then 4 else 16)"
    using assms by (cases a) (auto simp: appendAddrPort_def wf_endpoint_def p split: if_splits)
  have "addrOfSlice (Addr_AsSlice a) = a"
    using assms addr_slice [of a] by (auto simp: appendAddrPort_def wf_endpoint_def p split: if_splits)
  moreover have "\<not> Addr_Is4In6 a"
    using assms(1) by (cases a) (auto simp: appendAddrPort_def p split: if_splits)
  ultimately show "Addr_Unmap (addrOfSlice (Addr_AsSlice (apAddr p))) = apAddr p"
    by (simp add: p unmap_plain)
qed

lemma decode_endpoint:
  assumes "appendAddrPort d p fam = Inr w" "wf_endpoint p" "k = length pre"
    "body = pre @ Addr_AsSlice (apAddr p) @ put_u16 (apPort p) @ rest"
  shows "decodeAddrPort \<lparr>pdPayload = body, pdOffset = k\<rparr> fam =
    Inr (p, \<lparr>pdPayload = body, pdOffset = k + (if fam = 4 then 6 else 18)\<rparr>)"
proof -
  note A = append_Inr [OF assms(1,2)]
  show ?thesis using A(2-5)
    by (cases p) (auto simp: decodeAddrPort_def dec_at assms(3,4))
qed

lemma decode_flow_spec:
  assumes e: "encodePipeFlowSpec rid spec = Inr body" and l: "length (specID spec) = 16"
    and w: "wf_endpoint (specLocal spec)" "wf_endpoint (specRemote spec)"
  shows "body = put_u64 rid @ drop 8 body"
    "decodePipeFlowSpec \<lparr>pdPayload = body, pdOffset = 8\<rparr> = Inr spec"
proof -
  let ?h = "put_u64 rid @ specID spec @ put_u64 (specGeneration spec) @ [specFamily spec]"
  obtain b1 where b1: "appendAddrPort ?h (specLocal spec) (specFamily spec) = Inr b1"
    and b2: "appendAddrPort b1 (specRemote spec) (specFamily spec) = Inr body"
    using e by (auto simp: encodePipeFlowSpec_def Let_def split: sum.splits)
  note A = append_Inr [OF b1 w(1)] and B = append_Inr [OF b2 w(2)]
  let ?l = "Addr_AsSlice (apAddr (specLocal spec)) @ put_u16 (apPort (specLocal spec))"
  let ?r = "Addr_AsSlice (apAddr (specRemote spec)) @ put_u16 (apPort (specRemote spec))"
  have body: "body = ?h @ ?l @ ?r" using A(1) B(1) by simp
  show "body = put_u64 rid @ drop 8 body" by (simp add: body)
  have n: "body ! 32 = specFamily spec" using l by (simp add: body nth_append)
  have len: "length body = 33 + 2 * (if specFamily spec = 4 then 6 else 18)" using A(4) B(4) l by (simp add: body)
  have "decodeAddrPort \<lparr>pdPayload = body, pdOffset = 33\<rparr> (specFamily spec) =
      Inr (specLocal spec, \<lparr>pdPayload = body, pdOffset = 33 + (if specFamily spec = 4 then 6 else 18)\<rparr>)"
    using l by (intro decode_endpoint [OF b1 w(1), of _ ?h _ ?r]) (simp_all add: body)
  moreover have "decodeAddrPort \<lparr>pdPayload = body, pdOffset = 33 + (if specFamily spec = 4 then 6 else 18)\<rparr> (specFamily spec) =
      Inr (specRemote spec, \<lparr>pdPayload = body,
        pdOffset = 33 + (if specFamily spec = 4 then 6 else 18) + (if specFamily spec = 4 then 6 else 18)\<rparr>)"
    using l A(4) by (intro decode_endpoint [OF b2 w(2), of _ "?h @ ?l" _ "[]"]) (simp_all add: body)
  moreover have "take 16 (drop 8 body) = specID spec" "take 8 (drop 24 body) = put_u64 (specGeneration spec)"
    using l by (simp_all add: body)
  ultimately show "decodePipeFlowSpec \<lparr>pdPayload = body, pdOffset = 8\<rparr> = Inr spec"
    using len n by (cases spec) (simp add: decodePipeFlowSpec_def dec_at)
qed

lemma decode_transaction:
  assumes "length (txId t) = 16"
  shows "decodePipeTransaction \<lparr>pdPayload = put_u64 rid @ transactionData t, pdOffset = 8\<rparr> =
    Inr (txGeneration t, txId t)"
  using assms by (simp add: decodePipeTransaction_def transactionData_def dec_at)

lemma decode_datagram:
  assumes "length (dgFlow d) = 16" "length (dgNonce d) = 16"
  shows "decodePipeDatagram \<lparr>pdPayload = put_u64 rid @ dgFlow d @ put_u64 (dgGeneration d) @ dgNonce d @
      put_u64 (dgSequence d) @ dgPayload d, pdOffset = 8\<rparr> = Inr d"
  using assms by (simp add: decodePipeDatagram_def dec_at)

lemma decode_response:
  assumes "rid \<noteq> 0" "messageType_valid t" "t \<noteq> pipeMessageResponse"
  shows "decodePipeResponse (namedPipeResponse rid t st data) = Inr (rid, t, st, data)"
  using assms by (simp add: decodePipeResponse_def namedPipeResponse_def slice_simps Let_def)

text \<open>Milliseconds: the expiry that arrives is the one sent, rounded down.\<close>

lemma milli_roundtrip:
  assumes "- (2 ^ 63) \<le> t div time_Millisecond" "t div time_Millisecond < 2 ^ 63"
  shows "ofUnixMilli (toUnixMilli t) = t - t mod time_Millisecond"
proof -
  have "sint (word_of_int (t div time_Millisecond) :: u64) = t div time_Millisecond"
    using assms by (simp add: sint_sbintrunc' signed_take_bit_int_eq_self)
  then show ?thesis by (simp add: ofUnixMilli_def toUnixMilli_def minus_mod_eq_div_mult)
qed

end
