(* ===== verification/NamedPipe_Serve.thy ===== *)
theory NamedPipe_Serve
  imports NamedPipe_Codec Registry_Props
begin

text \<open>
  What serving a connection does to the registry: every operation is one of the registry's events under
  the capability this connection was given, nothing happens before the peer has shown the token, and
  whatever arrives, the connection ends with the capability revoked.
\<close>

section \<open>Operations as events of the registry\<close>

text \<open>
  The events a connection over attachment \<open>a\<close> may cause when its controller is \<open>cid\<close>: its own
  attachment, its own controller, and releases.
\<close>

fun servedBy :: "pointer \<Rightarrow> bytes option \<Rightarrow> registryEvent \<Rightarrow> bool" where
  "servedBy a cid (EvNewAttachment _ _) = False"
| "servedBy a cid (EvAttach _ b) = (b = a)"
| "servedBy a cid (EvDetach b) = (b = a)"
| "servedBy a cid (EvAuthenticate _ _ b _) = (b = a)"
| "servedBy a cid (EvDisconnect k b) = (cid = Some k \<and> b = a)"
| "servedBy a cid EvCloseRegistry = False"
| "servedBy a cid (EvPrepare _ _ k _) = (cid = Some k)"
| "servedBy a cid (EvCommit _ k _) = (cid = Some k)"
| "servedBy a cid (EvAbort _ k _) = (cid = Some k)"
| "servedBy a cid (EvDisable _ k _) = (cid = Some k)"
| "servedBy a cid (EvOpenFlow _ _ k _) = (cid = Some k)"
| "servedBy a cid (EvCloseFlow _ k _ _ _) = (cid = Some k)"
| "servedBy a cid (EvAccept _ k _) = (cid = Some k)"
| "servedBy a cid (EvReply _ k _) = (cid = Some k)"
| "servedBy a cid (EvRelease _) = True"
| "servedBy a cid (EvReap _) = False"

definition servedFrom :: "pointer \<Rightarrow> bytes option \<Rightarrow> Registry \<Rightarrow> Registry \<Rightarrow> bool" where
  "servedFrom a cid r r' \<longleftrightarrow> (\<exists>evs. r' = run registryStep r evs \<and> list_all (servedBy a cid) evs)"

lemma run_append: "run f s (xs @ ys) = run f (run f s xs) ys"
  by (induction xs arbitrary: s) simp_all

lemma served_refl [simp]: "servedFrom a cid r r"
  by (auto simp: servedFrom_def intro: exI [of _ "[]"])

lemma served_trans: "servedFrom a cid r r' \<Longrightarrow> servedFrom a cid r' r'' \<Longrightarrow> servedFrom a cid r r''"
  unfolding servedFrom_def by (metis list_all_append run_append)

lemma served_step: "servedBy a cid ev \<Longrightarrow> servedFrom a cid r (registryStep r ev)"
  by (auto simp: servedFrom_def intro: exI [of _ "[ev]"])

lemma served_inv: "registry_inv r \<Longrightarrow> servedFrom a cid r r' \<Longrightarrow> registry_inv r'"
  by (auto simp: servedFrom_def registry.invar_run)

lemma servedBy_weaken: "servedBy a None ev \<Longrightarrow> servedBy a cid ev"
  by (cases ev) simp_all

lemma served_weaken: "servedFrom a None r r' \<Longrightarrow> servedFrom a cid r r'"
  unfolding servedFrom_def list_all_iff using servedBy_weaken by blast

text \<open>What holds the transport: untouched by every operation of a controller.\<close>

definition pipeView where
  "pipeView r = (rgClosed r, rgAttachments r, rgAttachment r, rgControllerAlive r, rgController r)"

lemma pipe_updates [simp]:
  "pipeView (r\<lparr>rgStats := st\<rparr>) = pipeView r" "pipeView (r\<lparr>rgFlows := f\<rparr>) = pipeView r"
  "pipeView (r\<lparr>rgPrepared := p\<rparr>) = pipeView r" "pipeView (r\<lparr>rgActiveGeneration := g\<rparr>) = pipeView r"
  "pipeView (r\<lparr>rgLastGeneration := g\<rparr>) = pipeView r" "pipeView (evictFlows b r) = pipeView r"
  by (simp_all add: pipeView_def evict_views)

lemma life_pipe: "regLife r = regLife r' \<Longrightarrow> pipeView r = pipeView r'"
  by (simp add: regLife_def pipeView_def)

lemma flows_pipe: "regLife (r\<lparr>rgFlows := f\<rparr>) = regLife (r'\<lparr>rgFlows := f\<rparr>) \<Longrightarrow> pipeView r = pipeView r'"
  by (simp add: regLife_def pipeView_def)

lemma helper_pipe:
  "consumeData now n r = (e, r') \<Longrightarrow> pipeView r' = pipeView r"
  "findLease now fid g nonce r = (x, r') \<Longrightarrow> pipeView r' = pipeView r"
  "reserveBuffer dir n r = (y, r') \<Longrightarrow> pipeView r' = pipeView r"
  "controlGuard cid now r = (e, r') \<Longrightarrow> pipeView r' = pipeView r"
  using consumeData_views findLease_views reserve_views controlGuard_views life_pipe flows_pipe by metis+

lemma datagram_pipe:
  "pipeView (snd (acceptDatagram now cid d r)) = pipeView r"
  "pipeView (snd (resolveReply now cid t r)) = pipeView r"
  by (auto simp: acceptDatagram_def resolveReply_def Let_def split: option.splits prod.splits sum.splits
      dest!: helper_pipe)

lemma control_pipe:
  assumes "gm_ok (rgFlows r)"
  shows "pipeView (snd (prepareGeneration random now cid g r)) = pipeView r"
    "pipeView (snd (commitGeneration now cid tx r)) = pipeView r"
    "pipeView (snd (abortGeneration now cid tx r)) = pipeView r"
    "pipeView (snd (disableGeneration now cid g r)) = pipeView r"
    "pipeView (snd (closeFlow now cid g fid nonce r)) = pipeView r"
    "pipeView (snd (openFlow random now cid spec r)) = pipeView r"
proof -
  obtain e r1 where c: "controlGuard cid now r = (e, r1)" by force
  note G = helper_pipe(4) [OF c]
  have "gm_ok (rgFlows r1)" using guard_flows [OF c] assms by simp
  then have X: "pipeView (expireFlows now r1) = pipeView r1"
    using flows_pipe [OF expire_views(3) [where f = "[]"]] by blast
  show "pipeView (snd (prepareGeneration random now cid g r)) = pipeView r"
    using G by (cases e) (simp_all add: prepareGeneration_def c split: sum.splits)
  show "pipeView (snd (commitGeneration now cid tx r)) = pipeView r"
    using G by (cases e) (simp_all add: commitGeneration_def c Let_def)
  show "pipeView (snd (abortGeneration now cid tx r)) = pipeView r"
    using G by (cases e) (simp_all add: abortGeneration_def c)
  show "pipeView (snd (disableGeneration now cid g r)) = pipeView r"
    using G by (cases e) (simp_all add: disableGeneration_def c Let_def)
  show "pipeView (snd (closeFlow now cid g fid nonce r)) = pipeView r"
    using G by (cases e) (simp_all add: closeFlow_def c split: option.splits)
  show "pipeView (snd (openFlow random now cid spec r)) = pipeView r"
    using G X by (cases e) (simp_all add: openFlow_def c Let_def split: option.splits sum.splits)
qed

text \<open>The buffer an operation hands out is in the registry's store.\<close>

lemma reserve_buffer:
  "reserveBuffer dir n r = (Inr b, r') \<Longrightarrow> b < length (rgBuffers r')"
  by (auto simp: reserveBuffer_def Let_def split: if_splits)

lemma accepted_buffer: "acceptDatagram now cid d r = (Inr (t, b), r') \<Longrightarrow> b < length (rgBuffers r')"
  by (auto simp: acceptDatagram_def Let_def split: option.splits prod.splits sum.splits if_splits
      dest: reserve_buffer)

lemma resolved_buffer: "resolveReply now cid d r = (Inr (t, b), r') \<Longrightarrow> b < length (rgBuffers r')"
  by (auto simp: resolveReply_def Let_def split: option.splits prod.splits sum.splits if_splits
      dest: reserve_buffer)

text \<open>Releasing it does not panic and is an event of the registry.\<close>

lemma release_served:
  assumes "registry_inv r" "b < length (rgBuffers r)"
  obtains r' where "bufferRelease b r = Some r'" "servedFrom a cid r r'" "pipeView r' = pipeView r"
proof -
  have "buf_inv r" using assms(1) by (simp add: registry_inv_def)
  from release_inv [OF this assms(2)] obtain r' where r: "bufferRelease b r = Some r'" "regLife r' = regLife r"
    by blast
  have "servedFrom a cid r (registryStep r (EvRelease b))" by (rule served_step) simp
  then show ?thesis using that [of r'] r assms(2) life_pipe [OF r(2)] by simp
qed

text \<open>One step that stays within the connection's rights and leaves the transport alone.\<close>

definition opStep :: "pointer \<Rightarrow> bytes \<Rightarrow> Registry \<Rightarrow> Registry \<Rightarrow> bool" where
  "opStep a cid r r' \<longleftrightarrow> servedFrom a (Some cid) r r' \<and> pipeView r' = pipeView r"

lemma opStep_refl [simp]: "opStep a cid r r"
  by (simp add: opStep_def)

lemma opStep_trans: "opStep a cid r r' \<Longrightarrow> opStep a cid r' r'' \<Longrightarrow> opStep a cid r r''"
  unfolding opStep_def using served_trans by metis

lemma opStep_events:
  assumes "registry_inv r"
  shows "opStep a cid r (snd (prepareGeneration random now cid g r))"
    "opStep a cid r (snd (commitGeneration now cid tx r))"
    "opStep a cid r (snd (abortGeneration now cid tx r))"
    "opStep a cid r (snd (disableGeneration now cid g r))"
    "opStep a cid r (snd (closeFlow now cid g fid nonce r))"
    "opStep a cid r (snd (openFlow random now cid spec r))"
    "opStep a cid r (snd (acceptDatagram now cid d r))"
    "opStep a cid r (snd (resolveReply now cid t r))"
proof -
  have ok: "gm_ok (rgFlows r)" using assms by (simp add: registry_inv_def life_ok_def flows_inv_def)
  have ev: "servedFrom a (Some cid) r (registryStep r e)" if "servedBy a (Some cid) e" for e
    by (rule served_step [OF that])
  show "opStep a cid r (snd (prepareGeneration random now cid g r))"
    using ev [of "EvPrepare random now cid g"] control_pipe [OF ok] by (simp add: opStep_def)
  show "opStep a cid r (snd (commitGeneration now cid tx r))"
    using ev [of "EvCommit now cid tx"] control_pipe [OF ok] by (simp add: opStep_def)
  show "opStep a cid r (snd (abortGeneration now cid tx r))"
    using ev [of "EvAbort now cid tx"] control_pipe [OF ok] by (simp add: opStep_def)
  show "opStep a cid r (snd (disableGeneration now cid g r))"
    using ev [of "EvDisable now cid g"] control_pipe [OF ok] by (simp add: opStep_def)
  show "opStep a cid r (snd (closeFlow now cid g fid nonce r))"
    using ev [of "EvCloseFlow now cid g fid nonce"] control_pipe [OF ok] by (simp add: opStep_def)
  show "opStep a cid r (snd (openFlow random now cid spec r))"
    using ev [of "EvOpenFlow random now cid spec"] control_pipe [OF ok] by (simp add: opStep_def)
  show "opStep a cid r (snd (acceptDatagram now cid d r))"
    using ev [of "EvAccept now cid d"] datagram_pipe by (simp add: opStep_def)
  show "opStep a cid r (snd (resolveReply now cid t r))"
    using ev [of "EvReply now cid t"] datagram_pipe by (simp add: opStep_def)
qed

lemma opStep_release:
  assumes "registry_inv r" "opStep a cid r r1" "b < length (rgBuffers r1)"
  obtains r' where "bufferRelease b r1 = Some r'" "opStep a cid r r'"
proof -
  have i: "registry_inv r1" using assms(1,2) served_inv by (auto simp: opStep_def)
  obtain r' where "bufferRelease b r1 = Some r'" "opStep a cid r1 r'"
    using release_served [OF i assms(3), of a "Some cid"] by (metis opStep_def)
  then show ?thesis using that opStep_trans [OF assms(2)] by blast
qed

lemma opReturns_ok:
  assumes "opStep a cid r (snd x)"
  shows "\<exists>res r'. opReturns x = Some (res, r') \<and> opStep a cid r r'"
  using assms by (cases x; cases "fst x") (auto simp: opReturns_def)

lemma operation_step:
  assumes inv: "registry_inv r"
  obtains res r' where "handleNamedPipeOperation env controller t dec r = Some (res, r')"
    "opStep a (ctrlId controller) r r'"
proof -
  let ?cid = "ctrlId controller" and ?now = "oeNow env"
  note E = opStep_events [OF inv, of a ?cid]
  have acc: "\<exists>res r'. (case acceptDatagram ?now ?cid d r of
        (Inl e, r) \<Rightarrow> Some (opFails False [CapError e], r)
      | (Inr (accepted, buffer), r) \<Rightarrow>
          (case bufferRelease buffer r of
             None \<Rightarrow> None
           | Some r \<Rightarrow> Some (\<lparr>orData = [], orTerminal = False, orErr = oeSend env accepted, orSent = [accepted]\<rparr>, r)))
      = Some (res, r') \<and> opStep a ?cid r r'" for d
  proof (cases "acceptDatagram ?now ?cid d r")
    case (Pair x r1)
    have s: "opStep a ?cid r r1" using E(7) [of ?now d] Pair by simp
    show ?thesis
    proof (cases x)
      case (Inl e)
      then show ?thesis using Pair s by simp
    next
      case (Inr y)
      obtain tun b where y: "y = (tun, b)" by force
      obtain r' where "bufferRelease b r1 = Some r'" "opStep a ?cid r r'"
        using opStep_release [OF inv s accepted_buffer] Pair Inr y by blast
      then show ?thesis using Pair Inr y by simp
    qed
  qed
  have prep: "\<exists>res r'. (case prepareGeneration (oeRandom env) ?now ?cid g r of
        (Inl e, r) \<Rightarrow> Some (opFails False [CapError e], r)
      | (Inr transaction, r) \<Rightarrow> Some (opAnswers (transactionData transaction), r)) = Some (res, r') \<and>
      opStep a ?cid r r'" for g
    using E(1) [of "oeRandom env" ?now g] by (auto split: prod.split sum.split)
  have opn: "\<exists>res r'. (case openFlow (oeRandom env) ?now ?cid spec r of
        (Inl e, r) \<Rightarrow> Some (opFails False [CapError e], r)
      | (Inr lease, r) \<Rightarrow> Some (opAnswers (leaseData lease), r)) = Some (res, r') \<and> opStep a ?cid r r'" for spec
    using E(6) [of "oeRandom env" ?now spec] by (auto split: prod.split sum.split)
  have "\<exists>res r'. handleNamedPipeOperation env controller t dec r = Some (res, r') \<and> opStep a ?cid r r'"
    unfolding handleNamedPipeOperation_def Let_def
    using acc prep opn opReturns_ok [OF E(2)] opReturns_ok [OF E(3)] opReturns_ok [OF E(4)] opReturns_ok [OF E(5)]
    by (auto split: sum.split option.split prod.split)
  then show ?thesis using that by blast
qed

section \<open>A connection\<close>

text \<open>
  While a connection over attachment \<open>a\<close> is served: the attachment is the registry's, the controller is
  alive exactly when this connection authenticated it, and the registry came from the one at the start
  by events this connection may cause. \<open>token\<close> is the token until then.
\<close>

definition conn_inv :: "Registry \<Rightarrow> pointer \<Rightarrow> bytes \<Rightarrow> pipeConn \<Rightarrow> bool" where
  "conn_inv r0 a token c \<longleftrightarrow>
     (let r = pcRegistry c in
      registry_inv r \<and> \<not> rgClosed r \<and> rgAttachment r = Some a \<and> attId (rgAttachments r ! a) \<noteq> zeros 32 \<and>
      pcAttachment c = a \<and> pcBound c = pcController c \<and>
      servedFrom a (map_option ctrlId (pcController c)) r0 r \<and>
      (case pcController c of
         None \<Rightarrow> \<not> rgControllerAlive r \<and> rgTokenIssued r \<and> rgToken r = token
       | Some k \<Rightarrow> rgControllerAlive r \<and> rgController r = ctrlId k \<and> ctrlAttachment k = a \<and> \<not> ctrlCloseOnce k))"

lemma conn_inv_op:
  assumes "conn_inv r0 a token c" "pcController c = Some k" "opStep a (ctrlId k) (pcRegistry c) r"
    "pcRegistry c' = r" "pcAttachment c' = pcAttachment c" "pcController c' = pcController c" "pcBound c' = pcBound c"
  shows "conn_inv r0 a token c'"
proof -
  have v: "pipeView r = pipeView (pcRegistry c)" and s: "servedFrom a (Some (ctrlId k)) (pcRegistry c) r"
    using assms(3) by (simp_all add: opStep_def)
  have i: "registry_inv r" using served_inv [OF _ s] assms(1) by (simp add: conn_inv_def Let_def)
  have "servedFrom a (Some (ctrlId k)) r0 r"
    using served_trans [OF _ s] assms(1,2) by (simp add: conn_inv_def Let_def)
  then show ?thesis using assms v i by (simp add: conn_inv_def Let_def pipeView_def)
qed

lemma conn_inv_outer:
  assumes "conn_inv r0 a token c" "pcRegistry c' = pcRegistry c" "pcAttachment c' = pcAttachment c"
    "pcController c' = pcController c" "pcBound c' = pcBound c"
  shows "conn_inv r0 a token c'"
  using assms by (simp add: conn_inv_def Let_def)

lemma write_keeps:
  assumes "sessionWriteFrame outcome f c = (e, c')"
  shows "pcRegistry c' = pcRegistry c" "pcAttachment c' = pcAttachment c" "pcController c' = pcController c"
    "pcBound c' = pcBound c" "pcLast c' = pcLast c" "pcSent c' = pcSent c"
  using assms by (auto simp: sessionWriteFrame_def split: sum.splits writeOutcome.splits if_splits)

lemma write_inv:
  "conn_inv r0 a token c \<Longrightarrow> sessionWriteFrame outcome f c = (e, c') \<Longrightarrow> conn_inv r0 a token c'"
  using conn_inv_outer write_keeps by metis

lemma deliver_ok:
  assumes inv: "conn_inv r0 a token c"
  obtains e c' where "DeliverReply now outcome d c = Some (e, c')" "conn_inv r0 a token c'"
    "pcController c' = pcController c" "pcController c = None \<Longrightarrow> c' = c"
proof (cases "pcController c")
  case None
  then have "pcBound c = None" using inv by (simp add: conn_inv_def Let_def)
  then show ?thesis using that [of "Some [CapError ErrControllerRevoked]" c] inv by (simp add: DeliverReply_def)
next
  case (Some k)
  have b: "pcBound c = Some k" and i: "registry_inv (pcRegistry c)"
    using inv Some by (simp_all add: conn_inv_def Let_def)
  obtain x r1 where r1: "resolveReply now (ctrlId k) d (pcRegistry c) = (x, r1)" by force
  have s: "opStep a (ctrlId k) (pcRegistry c) r1" using opStep_events(8) [OF i, of a "ctrlId k" now d] r1 by simp
  show ?thesis
  proof (cases x)
    case (Inl e)
    have "conn_inv r0 a token (c\<lparr>pcRegistry := r1\<rparr>)" by (rule conn_inv_op [OF inv Some s]) simp_all
    then show ?thesis using that b r1 Inl Some by (simp add: DeliverReply_def)
  next
    case (Inr y)
    obtain dv buf where y: "y = (dv, buf)" by force
    obtain r2 where r2: "bufferRelease buf r1 = Some r2" "opStep a (ctrlId k) (pcRegistry c) r2"
      using opStep_release [OF i s resolved_buffer] r1 Inr y by blast
    obtain e c1 where w: "sessionWriteFrame outcome (deliveryFrame dv) (c\<lparr>pcRegistry := r1\<rparr>) = (e, c1)" by force
    note W = write_keeps [OF w]
    have "conn_inv r0 a token (c1\<lparr>pcRegistry := r2\<rparr>)"
      by (rule conn_inv_op [OF inv Some r2(2)]) (simp_all add: W)
    then show ?thesis
      using that [of e "c1\<lparr>pcRegistry := r2\<rparr>"] b r1 Inr y w W r2(1) Some by (simp add: DeliverReply_def)
  qed
qed

lemma replies_ok:
  "conn_inv r0 a token c \<Longrightarrow>
   \<exists>c'. deliverReplies xs c = Some c' \<and> conn_inv r0 a token c' \<and> pcController c' = pcController c \<and>
     (pcController c = None \<longrightarrow> c' = c)"
proof (induction xs arbitrary: c)
  case (Cons x xs)
  obtain e c1 where d: "DeliverReply (fst x) (fst (snd x)) (snd (snd x)) c = Some (e, c1)"
    "conn_inv r0 a token c1" "pcController c1 = pcController c" "pcController c = None \<Longrightarrow> c1 = c"
    using deliver_ok [OF Cons.prems] by blast
  from Cons.IH [OF d(2)] show ?case using d by auto
qed simp

text \<open>What an authentication leaves.\<close>

lemma authenticate_result:
  assumes inv: "conn_inv r0 a token c" "pcController c = None"
    and x: "Authenticate random now (Some a) t (pcRegistry c) = (x, r)"
  shows "case x of
     Inl e \<Rightarrow> conn_inv r0 a token (c\<lparr>pcRegistry := r\<rparr>)
   | Inr k \<Rightarrow> t = token \<and> conn_inv r0 a token (c\<lparr>pcRegistry := r, pcController := Some k, pcBound := Some k\<rparr>)"
proof -
  let ?r = "pcRegistry c"
  have I: "registry_inv ?r" "\<not> rgClosed ?r" "rgAttachment ?r = Some a" "attId (rgAttachments ?r ! a) \<noteq> zeros 32"
    "pcAttachment c = a" "pcBound c = None" "servedFrom a None r0 ?r" "\<not> rgControllerAlive ?r"
    "rgTokenIssued ?r" "rgToken ?r = token"
    using inv by (simp_all add: conn_inv_def Let_def)
  have len: "a < length (rgAttachments ?r)" using I(1,3) by (simp add: registry_inv_def life_ok_def att_inv_def)
  have "servedFrom a None ?r (registryStep ?r (EvAuthenticate random now a t))" by (rule served_step) simp
  then have s: "servedFrom a None ?r r" using x len by simp
  have i: "registry_inv r" by (rule served_inv [OF I(1) s])
  have s0: "servedFrom a None r0 r" by (rule served_trans [OF I(7) s])
  show ?thesis
  proof (cases x)
    case (Inl e)
    have "r = ?r \<or> r = authFailed ?r"
      using x Inl by (auto simp: Authenticate_def split: option.splits if_splits sum.splits)
    then show ?thesis using Inl I i s0 inv(2) by (auto simp: conn_inv_def Let_def)
  next
    case (Inr k)
    have "t = token" "k = \<lparr>ctrlId = rgController r, ctrlAttachment = a, ctrlCloseOnce = False\<rparr>"
      "rgControllerAlive r" "\<not> rgClosed r" "rgAttachment r = Some a" "rgAttachments r = rgAttachments ?r"
      using x Inr I by (auto simp: Authenticate_def split: option.splits if_splits sum.splits)
    then show ?thesis using Inr I i served_weaken [OF s0, of "Some (ctrlId k)"]
      by (simp add: conn_inv_def Let_def)
  qed
qed

section \<open>The loop\<close>

definition presents :: "bytes \<Rightarrow> messageType \<Rightarrow> pipeDecoder \<Rightarrow> bool" where
  "presents token t dec \<longleftrightarrow> t = pipeMessageAuthenticate \<and>
     (\<exists>dec'. decTake SessionTokenSize dec = Inr (token, dec') \<and> decDone dec' = None)"

lemma presents_at:
  assumes "presents token t \<lparr>pdPayload = p, pdOffset = 8\<rparr>"
  shows "t = pipeMessageAuthenticate" "drop 8 p = token"
  using assms by (auto simp: presents_def dec_at SessionTokenSize_def split: if_splits)

text \<open>
  A turn that was not yet authenticated sends nothing, and leaves a controller only when the frame
  presents the token; then the loop goes on or the write failed.
\<close>

definition gateTurn :: "Registry \<Rightarrow> pointer \<Rightarrow> bytes \<Rightarrow> messageType \<Rightarrow> pipeDecoder \<Rightarrow> pipeConn \<Rightarrow> turnResult \<Rightarrow> bool" where
  "gateTurn r0 a token t dec c res \<longleftrightarrow>
     (case res of
        Panic \<Rightarrow> False
      | Continue c' \<Rightarrow> conn_inv r0 a token c' \<and> pcController c' \<noteq> None \<and> presents token t dec
      | Return e c' \<Rightarrow> conn_inv r0 a token c' \<and> pcSent c' = pcSent c \<and>
          (pcController c' \<noteq> None \<longrightarrow> presents token t dec))"

lemma auth_turn:
  assumes inv: "conn_inv r0 a token c" and none: "pcController c = None"
  shows "gateTurn r0 a token t dec c (serveAuthentication env rid t dec c)"
proof (cases "t = pipeMessageAuthenticate")
  case False
  obtain e c' where w: "sessionWriteFrame (teWrite env) (namedPipeResponse rid t pipeStatusUnauthorized []) c = (e, c')"
    by force
  show ?thesis using False w write_inv [OF inv w] write_keeps [OF w] none
    by (simp add: serveAuthentication_def gateTurn_def)
next
  case True
  define presented where "presented = (case decTake SessionTokenSize dec of
                           Inl e \<Rightarrow> Inl e
                         | Inr (tok, dec) \<Rightarrow> (case decDone dec of Some e \<Rightarrow> Inl e | None \<Rightarrow> Inr tok))"
  define mid where "mid = (case presented of
                Inl e \<Rightarrow> (Some e, c)
              | Inr tok \<Rightarrow>
                  (case Authenticate (oeRandom (teOp env)) (oeNow (teOp env)) (Some (pcAttachment c)) tok (pcRegistry c) of
                     (Inl e, r) \<Rightarrow> (Some [CapError e], c\<lparr>pcRegistry := r\<rparr>)
                   | (Inr controller, r) \<Rightarrow>
                       (None, c\<lparr>pcRegistry := r, pcController := Some controller, pcBound := Some controller\<rparr>)))"
  obtain derr c1 where m: "mid = (derr, c1)" by force
  have att: "pcAttachment c = a" using inv by (simp add: conn_inv_def Let_def)
  have c1: "conn_inv r0 a token c1 \<and> pcSent c1 = pcSent c \<and> (derr = None \<longleftrightarrow> pcController c1 \<noteq> None) \<and>
      (pcController c1 \<noteq> None \<longrightarrow> presented = Inr token)"
  proof (cases presented)
    case (Inl e)
    then show ?thesis using m inv none by (auto simp: mid_def)
  next
    case (Inr tok)
    obtain x r where x: "Authenticate (oeRandom (teOp env)) (oeNow (teOp env)) (Some a) tok (pcRegistry c) = (x, r)"
      by force
    show ?thesis using m authenticate_result [OF inv none x] Inr x none
      by (cases x) (auto simp: mid_def att)
  qed
  have p: "presents token t dec" if "presented = Inr token"
    using that True by (auto simp: presented_def presents_def split: sum.splits option.splits)
  obtain e c' where w: "sessionWriteFrame (teWrite env)
      (namedPipeResponse rid t (statusForError derr) []) c1 = (e, c')" by force
  have "serveAuthentication env rid t dec c = (case (e, c') of
             (Some writeErr, c) \<Rightarrow> Return (Some writeErr) c
           | (None, c) \<Rightarrow> (if derr \<noteq> None then Return derr c else Continue c))"
    using True m w by (simp add: serveAuthentication_def mid_def presented_def Let_def)
  then show ?thesis using c1 p write_inv [OF _ w] write_keeps [OF w]
    by (auto simp: gateTurn_def split: option.split)
qed

text \<open>Any turn keeps the invariant and does not panic; a controller, once there, stays.\<close>

definition turnOK :: "Registry \<Rightarrow> pointer \<Rightarrow> bytes \<Rightarrow> turnResult \<Rightarrow> bool" where
  "turnOK r0 a token res \<longleftrightarrow>
     (case res of
        Panic \<Rightarrow> False
      | Continue c \<Rightarrow> conn_inv r0 a token c \<and> pcController c \<noteq> None
      | Return e c \<Rightarrow> conn_inv r0 a token c)"

lemma frame_turn:
  assumes inv: "conn_inv r0 a token c"
  shows "turnOK r0 a token (serveFrame env f c) \<and>
    (case serveFrame env f c of Return e c' \<Rightarrow> pcController c \<noteq> None \<longrightarrow> pcController c' \<noteq> None | _ \<Rightarrow> True)"
proof (cases "decodeRequest f")
  case (Inl e)
  then show ?thesis using inv by (simp add: serveFrame_def turnOK_def)
next
  case (Inr y)
  obtain rid dec where y: "y = (rid, dec)" by force
  let ?c = "c\<lparr>pcLast := rid\<rparr>"
  have inv': "conn_inv r0 a token ?c" by (rule conn_inv_outer [OF inv]) simp_all
  show ?thesis
  proof (cases "pcController c")
    case None
    have "gateTurn r0 a token (frType f) dec ?c (serveAuthentication env rid (frType f) dec ?c)"
      using auth_turn [OF inv'] None by simp
    then show ?thesis using None Inr y inv
      by (auto simp: serveFrame_def turnOK_def gateTurn_def split: turnResult.splits)
  next
    case (Some k)
    have i: "registry_inv (pcRegistry c)" using inv by (simp add: conn_inv_def Let_def)
    obtain res r where h: "handleNamedPipeOperation (teOp env) k (frType f) dec (pcRegistry c) = Some (res, r)"
      "opStep a (ctrlId k) (pcRegistry c) r" using operation_step [OF i] by blast
    let ?c1 = "?c\<lparr>pcRegistry := r, pcSent := pcSent c @ orSent res\<rparr>"
    have c1: "conn_inv r0 a token ?c1" by (rule conn_inv_op [OF inv Some h(2)]) simp_all
    obtain e c' where w: "sessionWriteFrame (teWrite env) (answerFor rid (frType f) res) ?c1 = (e, c')" by force
    show ?thesis using Some Inr y h(1) w write_inv [OF c1 w] write_keeps [OF w] inv
      by (cases e) (auto simp: serveFrame_def turnOK_def)
  qed
qed

lemma loop_ok:
  "conn_inv r0 a token c \<Longrightarrow>
   \<exists>e c'. serveLoop env idle fin k stream c = Return e c' \<and> conn_inv r0 a token c' \<and>
     (pcController c \<noteq> None \<longrightarrow> pcController c' \<noteq> None)"
proof (induction env idle fin k stream c rule: serveLoop.induct)
  case (1 env idle fin k stream c)
  obtain c1 where d: "deliverReplies (teReplies (env k)) c = Some c1" "conn_inv r0 a token c1"
    "pcController c1 = pcController c" using replies_ok [OF 1(2)] by blast
  show ?case
  proof (cases "readFrameIdle idle fin stream")
    case (Inl e)
    then show ?thesis using d by (subst serveLoop.simps) simp
  next
    case (Inr y)
    obtain f rest where y: "y = (f, rest)" by force
    note T = frame_turn [OF d(2), of "env k" f]
    show ?thesis
    proof (cases "serveFrame (env k) f c1")
      case (Continue c2)
      have "conn_inv r0 a token c2" "pcController c2 \<noteq> None" using T Continue by (simp_all add: turnOK_def)
      moreover from 1(1) [OF d(1) Inr y [symmetric] Continue this(1)] obtain e c' where
        "serveLoop env idle fin (Suc k) rest c2 = Return e c'" "conn_inv r0 a token c'"
        "pcController c2 \<noteq> None \<longrightarrow> pcController c' \<noteq> None" by blast
      ultimately show ?thesis using d Inr y Continue by (subst serveLoop.simps) simp
    next
      case (Return e c2)
      then show ?thesis using T d Inr y by (subst serveLoop.simps) (simp add: turnOK_def)
    next
      case Panic
      then show ?thesis using T by (simp add: turnOK_def)
    qed
  qed
qed

text \<open>The first turn decides: without the token in the first frame there is never a controller.\<close>

lemma loop_gate:
  assumes inv: "conn_inv r0 a token c" and none: "pcController c = None"
    and l: "serveLoop env idle fin k stream c = Return e c'"
  shows "(pcController c' = None \<longrightarrow> pcSent c' = pcSent c) \<and>
    (pcController c' \<noteq> None \<longrightarrow> (\<exists>rid w rest. stream = w @ rest \<and>
      marshalNamedPipeFrame \<lparr>frType = pipeMessageAuthenticate, frPayload = put_u64 rid @ token\<rparr> = Inr w))"
proof -
  have d: "deliverReplies (teReplies (env k)) c = Some c" using replies_ok [OF inv] none by metis
  show ?thesis
  proof (cases "readFrameIdle idle fin stream")
    case (Inl x)
    then show ?thesis using l d none by (simp add: serveLoop.simps [of env idle fin k stream c])
  next
    case (Inr y)
    obtain f rest where y: "y = (f, rest)" by force
    have "readNamedPipeFrame (reError fin) stream = Inr (f, rest)"
      using Inr y by (auto simp: readFrameIdle_def split: sum.splits if_splits)
    then obtain w where w: "marshalNamedPipeFrame f = Inr w" "stream = w @ rest" by (rule read_frame_Inr)
    have l': "(case serveFrame (env k) f c of
                  Continue c \<Rightarrow> serveLoop env idle fin (Suc k) rest c
                | Return e c \<Rightarrow> Return e c
                | Panic \<Rightarrow> Panic) = Return e c'"
      using l d Inr y by (simp add: serveLoop.simps [of env idle fin k stream c])
    have P: "\<exists>rid. f = \<lparr>frType = pipeMessageAuthenticate, frPayload = put_u64 rid @ token\<rparr>"
      if r: "decodeRequest f = Inr (rid, dec)" and p: "presents token (frType f) dec" for rid dec
    proof -
      note R = decode_request_Inr [OF r]
      have "frType f = pipeMessageAuthenticate" "drop 8 (frPayload f) = token"
        using presents_at [of token "frType f" "frPayload f"] p R(2) by simp_all
      then show ?thesis using R(3) by (intro exI [of _ rid]) (cases f; simp)
    qed
    show ?thesis
    proof (cases "decodeRequest f")
      case (Inl x)
      then show ?thesis using l' none by (auto simp: serveFrame_def)
    next
      case (Inr z)
      obtain rid dec where z: "z = (rid, dec)" by force
      show ?thesis
      proof (cases "rid \<le> pcLast c")
        case True
        then show ?thesis using l' none Inr z by (auto simp: serveFrame_def)
      next
        case False
        let ?c = "c\<lparr>pcLast := rid\<rparr>"
        have "conn_inv r0 a token ?c" by (rule conn_inv_outer [OF inv]) simp_all
        from auth_turn [OF this, of "frType f" dec "env k" rid] none
        have g: "gateTurn r0 a token (frType f) dec ?c (serveAuthentication (env k) rid (frType f) dec ?c)" by simp
        have s: "serveFrame (env k) f c = serveAuthentication (env k) rid (frType f) dec ?c"
          using Inr z False none by (simp add: serveFrame_def)
        show ?thesis
        proof (cases "serveAuthentication (env k) rid (frType f) dec ?c")
          case (Continue c2)
          then have C: "conn_inv r0 a token c2" "pcController c2 \<noteq> None" "presents token (frType f) dec"
            using g by (simp_all add: gateTurn_def)
          have "pcController c' \<noteq> None"
            using loop_ok [OF C(1), of env idle fin "Suc k" rest] C(2) l' s Continue by auto
          then show ?thesis using P C(3) Inr z w by blast
        next
          case (Return e2 c2)
          then have "c' = c2" using l' s by simp
          then show ?thesis using g Return P Inr z w by (auto simp: gateTurn_def)
        next
          case Panic
          then show ?thesis using g by (simp add: gateTurn_def)
        qed
      qed
    qed
  qed
qed

section \<open>The end of a connection\<close>

definition revokedAfter :: "pointer \<Rightarrow> Registry \<Rightarrow> bool" where
  "revokedAfter a r \<longleftrightarrow> rgAttachment r = None \<and> \<not> rgControllerAlive r \<and> \<not> rgTokenIssued r \<and> rgFlows r = [] \<and>
     rgActiveGeneration r = 0 \<and> rgPrepared r = None \<and> attState (rgAttachments r ! a) = attachmentDetached"

lemma revoked_state:
  assumes "a < length (rgAttachments r)"
  shows "revokedAfter a (destroyAttachment a attachmentDetached ((revokeController True r)\<lparr>rgAttachment := None\<rparr>))"
  using assms by (simp add: revokedAfter_def destroyAttachment_def revoke_views)

lemma deferred_ok:
  assumes inv: "conn_inv r0 a token c"
  obtains c' where "serveDeferred err c = (err, c')" "revokedAfter a (pcRegistry c')"
    "servedFrom a (map_option ctrlId (pcController c')) r0 (pcRegistry c')" "pcController c' = pcController c"
    "pcSent c' = pcSent c" "pcBound c' = None"
proof -
  let ?r = "pcRegistry c"
  have I: "registry_inv ?r" "\<not> rgClosed ?r" "rgAttachment ?r = Some a" "attId (rgAttachments ?r ! a) \<noteq> zeros 32"
    "pcAttachment c = a" "pcBound c = pcController c" "servedFrom a (map_option ctrlId (pcController c)) r0 ?r"
    using inv by (simp_all add: conn_inv_def Let_def)
  have att: "a < length (rgAttachments ?r)" "attOwn (rgAttachments ?r ! a)"
    "attState (rgAttachments ?r ! a) = attachmentAttached"
    using I(1,3) by (auto simp: registry_inv_def life_ok_def att_inv_def)
  let ?q = "destroyAttachment a attachmentDetached ((revokeController True ?r)\<lparr>rgAttachment := None\<rparr>)"
  have q: "revokedAfter a ?q" by (rule revoked_state [OF att(1)])
  show ?thesis
  proof (cases "pcController c")
    case None
    have d: "detachTransport (Some a) ?r = (None, ?q)" using I att by (simp add: detachTransport_def)
    have "servedFrom a None ?r (registryStep ?r (EvDetach a))" by (rule served_step) simp
    then have "servedFrom a None r0 ?q" using served_trans [OF I(7) [unfolded None option.map]] d att(1) by simp
    then show ?thesis using that [of "c\<lparr>pcRegistry := ?q\<rparr>"] q None d I
      by (simp add: serveDeferred_def errors_Join_def split: option.splits)
  next
    case (Some k)
    have k: "rgControllerAlive ?r" "rgController ?r = ctrlId k" "ctrlAttachment k = a" "\<not> ctrlCloseOnce k"
      using inv Some by (simp_all add: conn_inv_def Let_def)
    have d: "disconnectController (ctrlId k) (Some a) ?r = (None, ?q)"
      using I att k by (simp add: disconnectController_def)
    have "servedFrom a (Some (ctrlId k)) ?r (registryStep ?r (EvDisconnect (ctrlId k) a))" by (rule served_step) simp
    then have "servedFrom a (Some (ctrlId k)) r0 ?q" using served_trans [OF I(7) [unfolded Some option.map]] d att(1) by simp
    then show ?thesis using that [of "c\<lparr>pcBound := None, pcRegistry := ?q\<rparr>"] q Some d I k
      by (simp add: serveDeferred_def controllerClose_def errors_Join_def split: option.splits)
  qed
qed

lemma attach_conn:
  assumes inv: "registry_inv r" and a: "a < length (rgAttachments r)"
    and x: "AttachTransport random (Some a) r = (Inr token, r1)"
  shows "random = Some token"
    "conn_inv r a token \<lparr>pcRegistry = r1, pcAttachment = a, pcController = None, pcBound = None, pcLast = 0,
       pcBroken = False, pcFrames = [], pcSent = []\<rparr>"
proof -
  show "random = Some token" using x
    by (auto simp: AttachTransport_def readRandom_def split: if_splits sum.splits option.splits)
  have "servedFrom a None r (registryStep r (EvAttach random a))" by (rule served_step) simp
  then have s: "servedFrom a None r r1" using x a by simp
  have "\<not> rgClosed r1 \<and> rgAttachment r1 = Some a \<and> attId (rgAttachments r1 ! a) \<noteq> zeros 32 \<and>
      \<not> rgControllerAlive r1 \<and> rgTokenIssued r1 \<and> rgToken r1 = token"
    using x a by (auto simp: AttachTransport_def split: if_splits sum.splits)
  then show "conn_inv r a token \<lparr>pcRegistry = r1, pcAttachment = a, pcController = None, pcBound = None, pcLast = 0,
       pcBroken = False, pcFrames = [], pcSent = []\<rparr>"
    using s served_inv [OF inv s] by (simp add: conn_inv_def)
qed

lemma serve_ok:
  assumes inv: "registry_inv r" and a: "a < length (rgAttachments r)"
    and x: "AttachTransport random (Some a) r = (Inr token, r1)"
  obtains e c where "serveNamedPipeController random helloWrite env idle fin stream a r = Return e c"
    "revokedAfter a (pcRegistry c)" "servedFrom a (map_option ctrlId (pcController c)) r (pcRegistry c)"
    "pcController c = None \<Longrightarrow> pcSent c = []"
    "pcController c \<noteq> None \<Longrightarrow> \<exists>rid w rest. stream = w @ rest \<and>
       marshalNamedPipeFrame \<lparr>frType = pipeMessageAuthenticate, frPayload = put_u64 rid @ token\<rparr> = Inr w"
proof -
  let ?c = "\<lparr>pcRegistry = r1, pcAttachment = a, pcController = None, pcBound = None, pcLast = 0,
       pcBroken = False, pcFrames = [], pcSent = []\<rparr>"
  note A = attach_conn [OF assms]
  obtain h c1 where w: "sessionWriteFrame helloWrite \<lparr>frType = pipeMessageHello, frPayload = token\<rparr> ?c = (h, c1)"
    by force
  note W = write_keeps [OF w] and c1 = write_inv [OF A(2) w]
  define res where "res = (case (h, c1) of (Some e, c) \<Rightarrow> Return (Some e) c
                                          | (None, c) \<Rightarrow> serveLoop env idle fin 0 stream c)"
  obtain e c2 where r2: "res = Return e c2" "conn_inv r a token c2"
    "pcController c2 = None \<longrightarrow> pcSent c2 = []"
    "pcController c2 \<noteq> None \<longrightarrow> (\<exists>rid w rest. stream = w @ rest \<and>
       marshalNamedPipeFrame \<lparr>frType = pipeMessageAuthenticate, frPayload = put_u64 rid @ token\<rparr> = Inr w)"
  proof (cases h)
    case (Some e)
    then show ?thesis using that [of "Some e" c1] c1 W by (simp add: res_def)
  next
    case None
    obtain e c2 where l: "serveLoop env idle fin 0 stream c1 = Return e c2" "conn_inv r a token c2"
      using loop_ok [OF c1] by blast
    show ?thesis using that [of e c2] loop_gate [OF c1 _ l(1)] l W None by (simp add: res_def)
  qed
  obtain c3 where d: "serveDeferred e c2 = (e, c3)" "revokedAfter a (pcRegistry c3)"
    "servedFrom a (map_option ctrlId (pcController c3)) r (pcRegistry c3)" "pcController c3 = pcController c2"
    "pcSent c3 = pcSent c2" using deferred_ok [OF r2(2)] by blast
  have "serveNamedPipeController random helloWrite env idle fin stream a r = Return e c3"
    using x w r2(1) d(1) by (simp add: serveNamedPipeController_def Let_def res_def)
  then show ?thesis using that d(2-5) r2(3,4) by simp
qed

end
