(* ===== verification/NamedPipe_Client.thy ===== *)
theory NamedPipe_Client
  imports NamedPipe_Codec
begin

text \<open>
  The helper's side of the named pipe (\<open>internal/capturedudp/namedpipe_client.go\<close>): the client that
  numbers requests, matches the answers of the core with the callers that wait for them, and connects
  again, with a growing delay, when a connection ends.

  The client's goroutines are the one of \<open>Run\<close>, which also reads, and one per call. They meet under
  its mutexes, so the model is a machine whose steps are the code between taking and giving back a
  mutex; \<open>clPc\<close> is where \<open>Run\<close> stands and \<open>clHolder\<close> the call that holds \<open>requestMu\<close>. A response
  channel holds one message; sending to a full one would block for ever with the mutex held, which is
  the step's value \<open>None\<close>.
\<close>

section \<open>Configuration\<close>

record NamedPipeClientConfig =
  nccName :: string
  ServerSIDs :: "string list"
  MinimumServerIntegrityRID :: u32
  TrustedServerBinary :: string
  TrustedServerSHA256 :: string
  nccOperationTimeout :: duration
  ReconnectMin :: duration
  ReconnectMax :: duration
  nccMaxPending :: int

definition sidDigit :: "char \<Rightarrow> bool" where
  "sidDigit c = (let n = of_char c :: nat in 48 \<le> n \<and> n \<le> 57)"

definition normalizeSIDText :: "string \<Rightarrow> string" where
  "normalizeSIDText value =
     (let value = trimSpace value
      in if \<not> hasPrefix value ''S-1-'' then []
         else if list_all (\<lambda>part. part \<noteq> [] \<and> list_all sidDigit part) (splitOn (CHR ''-'') (drop 4 value))
         then value else [])"

definition sha256Digit :: "char \<Rightarrow> bool" where
  "sha256Digit c = (let n = of_char c :: nat in (48 \<le> n \<and> n \<le> 57) \<or> (97 \<le> n \<and> n \<le> 102) \<or> (65 \<le> n \<and> n \<le> 70))"

definition normalizeSHA256 :: "string \<Rightarrow> string" where
  "normalizeSHA256 value =
     (let value = trimSpace value
      in if length value \<noteq> 64 then [] else if \<not> list_all sha256Digit value then [] else toLower value)"

fun normalizeServerSIDs :: "string list \<Rightarrow> string list \<Rightarrow> pipeLeaf + string list" where
  "normalizeServerSIDs prior [] = Inr []"
| "normalizeServerSIDs prior (sid # sids) =
     (let sid = normalizeSIDText sid
      in if sid = [] then Inl ErrNamedPipeIdentity
         else if sid \<in> set prior then Inl ErrNamedPipeIdentity
         else (case normalizeServerSIDs (sid # prior) sids of
                 Inl e \<Rightarrow> Inl e
               | Inr rest \<Rightarrow> Inr (sid # rest)))"

definition NamedPipeClientConfig_normalized :: "NamedPipeClientConfig \<Rightarrow> pipeLeaf + NamedPipeClientConfig" where
  "NamedPipeClientConfig_normalized config =
     (if \<not> validNamedPipeName (nccName config) then Inl ErrNamedPipeProtocol
      else if ServerSIDs config = [] \<or> length (ServerSIDs config) > 16 then Inl ErrNamedPipeIdentity
      else case normalizeServerSIDs [] (ServerSIDs config) of
        Inl e \<Rightarrow> Inl e
      | Inr sids \<Rightarrow>
          let config = config\<lparr>ServerSIDs := sids,
                MinimumServerIntegrityRID := (if MinimumServerIntegrityRID config = 0 then 0x2000
                                              else MinimumServerIntegrityRID config)\<rparr>
          in if TrustedServerBinary config = [] \<or> TrustedServerSHA256 config = [] then Inl ErrNamedPipeIdentity
             else
               let config = config\<lparr>TrustedServerSHA256 := normalizeSHA256 (TrustedServerSHA256 config)\<rparr>
               in if TrustedServerSHA256 config = [] then Inl ErrNamedPipeIdentity
                  else
                    let config = config\<lparr>nccOperationTimeout := orDefault (nccOperationTimeout config) namedPipeDefaultTimeout\<rparr>
                    in if nccOperationTimeout config > namedPipeMaxTimeout then Inl ErrNamedPipeProtocol
                       else
                         let config = config\<lparr>ReconnectMin := orDefault (ReconnectMin config) (100 * time_Millisecond),
                                             ReconnectMax := orDefault (ReconnectMax config) (5 * time_Second)\<rparr>
                         in if ReconnectMin config > ReconnectMax config \<or> ReconnectMax config > 60 * time_Second
                            then Inl ErrNamedPipeProtocol
                            else
                              let config = config\<lparr>nccMaxPending := orDefault (nccMaxPending config) (int namedPipeWriteQueueSize)\<rparr>
                              in if nccMaxPending config > int namedPipeWriteQueueSize * 4 then Inl ErrNamedPipeProtocol
                                 else Inr config)"

section \<open>State\<close>

record clientResponse =
  crOperation :: messageType
  crStatus :: pipeStatus
  crData :: bytes
  crErr :: "goerr option"

text \<open>
  What the client has put on a connection: a whole frame, or the beginning of one whose write failed.
\<close>

datatype wireItem = Whole namedPipeFrame | Torn namedPipeFrame

text \<open>
  Where \<open>Run\<close> stands: not running, about to open, waiting for the hello frame of a connection, holding
  the token it will answer with, waiting for the answer, reading, or waiting for the timer.
\<close>

datatype runPc =
    PcStopped
  | PcConnecting
  | PcHello nat
  | PcToken nat bytes
  | PcAuthenticating nat u64
  | PcReading nat
  | PcBackoff

record callHolder =
  chCall :: nat
  chRequest :: u64
  chOperation :: messageType
  chBody :: bytes
  chConn :: nat

record namedPipeClient =
  clConfig :: NamedPipeClientConfig
  clConn :: "nat option"
  clConnected :: bool
  clPending :: "(u64, nat) gomap"
  clNextID :: u64
  clReconnect :: u64
  clAttempt :: u64
  clStage :: string
  clLastError :: "goerr option"
  clPipeOpen :: bool
  clRunning :: bool
  clClosed :: bool
  clCancelled :: bool
  clBackoff :: duration
  clPc :: runPc
  clHolder :: "callHolder option"
  clChannels :: "clientResponse option list"
  clWires :: "wireItem list list"
  clWaits :: "duration list"

definition newNamedPipeClient :: "NamedPipeClientConfig \<Rightarrow> pipeLeaf + namedPipeClient" where
  "newNamedPipeClient config =
     (case NamedPipeClientConfig_normalized config of
        Inl e \<Rightarrow> Inl e
      | Inr config \<Rightarrow>
          Inr \<lparr>clConfig = config, clConn = None, clConnected = False, clPending = [], clNextID = 1,
               clReconnect = 0, clAttempt = 0, clStage = ''idle'', clLastError = None,
               clPipeOpen = False, clRunning = False, clClosed = False, clCancelled = False,
               clBackoff = 0, clPc = PcStopped, clHolder = None, clChannels = [], clWires = [],
               clWaits = []\<rparr>)"

section \<open>Requests\<close>

definition allocateRequestID :: "namedPipeClient \<Rightarrow> u64 \<times> namedPipeClient" where
  "allocateRequestID c =
     (let requestID = clNextID c; next = requestID + 1
      in (requestID, c\<lparr>clNextID := (if next = 0 then 1 else next)\<rparr>))"

definition channelSend :: "nat \<Rightarrow> clientResponse \<Rightarrow> namedPipeClient \<Rightarrow> namedPipeClient option" where
  "channelSend k response c =
     (if clChannels c ! k \<noteq> None then None
      else Some (c\<lparr>clChannels := (clChannels c)[k := Some response]\<rparr>))"

definition resolveRequest :: "u64 \<Rightarrow> clientResponse \<Rightarrow> namedPipeClient \<Rightarrow> namedPipeClient option" where
  "resolveRequest requestID response c =
     (case gm_get (clPending c) requestID of
        None \<Rightarrow> Some c
      | Some k \<Rightarrow> channelSend k response (c\<lparr>clPending := gm_del (clPending c) requestID\<rparr>))"

definition removePending :: "u64 \<Rightarrow> namedPipeClient \<Rightarrow> namedPipeClient" where
  "removePending requestID c =
     (case gm_get (clPending c) requestID of
        None \<Rightarrow> c
      | Some k \<Rightarrow> c\<lparr>clPending := gm_del (clPending c) requestID, clChannels := (clChannels c)[k := None]\<rparr>)"

text \<open>The loop over the pending requests, in some order.\<close>

primrec detachLoop :: "goerr option \<Rightarrow> (u64 \<times> nat) list \<Rightarrow> namedPipeClient \<Rightarrow> namedPipeClient option" where
  "detachLoop err [] c = Some c"
| "detachLoop err (x # xs) c =
     (case channelSend (snd x) \<lparr>crOperation = 0, crStatus = 0, crData = [], crErr = err\<rparr>
             (c\<lparr>clPending := gm_del (clPending c) (fst x)\<rparr>) of
        None \<Rightarrow> None
      | Some c \<Rightarrow> detachLoop err xs c)"

definition detachLocked :: "goerr option \<Rightarrow> namedPipeClient \<Rightarrow> namedPipeClient option" where
  "detachLocked err c = detachLoop err (clPending c) (c\<lparr>clConn := None\<rparr>)"

definition namedPipeStatusError :: "pipeStatus \<Rightarrow> messageType \<Rightarrow> goerr option" where
  "namedPipeStatusError status operation =
     (if status = pipeStatusOK then None else Some [ErrNamedPipeRemote operation status])"

text \<open>The first half of \<open>call\<close>: under \<open>requestMu\<close>, the checks, the number and the channel.\<close>

definition callBegin :: "messageType \<Rightarrow> bytes \<Rightarrow> namedPipeClient \<Rightarrow> (goerr + nat) \<times> namedPipeClient" where
  "callBegin operation body c =
     (if clClosed c then (Inl [CapError CapErrClosed], c)
      else case clConn c of
        None \<Rightarrow> (Inl [ErrNamedPipeNotReady], c)
      | Some connection \<Rightarrow>
          if \<not> clConnected c then (Inl [ErrNamedPipeNotReady], c)
          else if int (length (clPending c)) \<ge> nccMaxPending (clConfig c)
          then (Inl [CapError ErrOutstandingBudget], c)
          else
            let (requestID, c) = allocateRequestID c; k = length (clChannels c)
            in (Inr k, c\<lparr>clPending := gm_set (clPending c) requestID k, clChannels := clChannels c @ [None],
                        clHolder := Some \<lparr>chCall = k, chRequest = requestID, chOperation = operation,
                                          chBody = body, chConn = connection\<rparr>\<rparr>))"

text \<open>
  Writing a frame: done, failed with part of it on the pipe, or (in \<open>call\<close>) given up before the write
  because the caller's context has ended.
\<close>

datatype clientWrite = CwDone | CwFault goerr | CwExpired goerr

definition clientWriteFrame :: "clientWrite \<Rightarrow> nat \<Rightarrow> namedPipeFrame \<Rightarrow> namedPipeClient \<Rightarrow>
    goerr option \<times> namedPipeClient" where
  "clientWriteFrame outcome connection frame c =
     (case outcome of
        CwExpired e \<Rightarrow> (Some e, c)
      | _ \<Rightarrow>
          (case marshalNamedPipeFrame frame of
             Inl e \<Rightarrow> (Some e, c)
           | Inr _ \<Rightarrow>
               (case outcome of
                  CwFault e \<Rightarrow>
                    (Some e, c\<lparr>clWires := (clWires c)[connection := clWires c ! connection @ [Torn frame]]\<rparr>)
                | _ \<Rightarrow> (None, c\<lparr>clWires := (clWires c)[connection := clWires c ! connection @ [Whole frame]]\<rparr>))))"

text \<open>The second half: the frame is written and \<open>requestMu\<close> given back. An error is the call's result.\<close>

definition callWrite :: "clientWrite \<Rightarrow> namedPipeClient \<Rightarrow> goerr option \<times> namedPipeClient" where
  "callWrite outcome c =
     (case clHolder c of
        None \<Rightarrow> (None, c)
      | Some h \<Rightarrow>
          (case clientWriteFrame outcome (chConn h)
                  \<lparr>frType = chOperation h, frPayload = put_u64 (chRequest h) @ chBody h\<rparr> c of
             (err, c) \<Rightarrow>
               let c = c\<lparr>clHolder := None\<rparr>
               in if err \<noteq> None then (err, removePending (chRequest h) c) else (None, c)))"

text \<open>What the caller makes of the message in its channel.\<close>

definition callResult :: "messageType \<Rightarrow> clientResponse \<Rightarrow> goerr + bytes" where
  "callResult operation result =
     (case crErr result of
        Some e \<Rightarrow> Inl e
      | None \<Rightarrow>
          if crOperation result \<noteq> operation \<or> crStatus result \<noteq> pipeStatusOK
          then (case namedPipeStatusError (crStatus result) operation of
                  Some e \<Rightarrow> Inl e
                | None \<Rightarrow> Inr [])
          else Inr (crData result))"

text \<open>The last wait of \<open>call\<close>: the message, or the end of the caller's context.\<close>

definition callReceive :: "nat \<Rightarrow> messageType \<Rightarrow> namedPipeClient \<Rightarrow> (goerr + bytes) option \<times> namedPipeClient" where
  "callReceive k operation c =
     (case clChannels c ! k of
        None \<Rightarrow> (None, c)
      | Some result \<Rightarrow> (Some (callResult operation result), c\<lparr>clChannels := (clChannels c)[k := None]\<rparr>))"

definition callExpire :: "nat \<Rightarrow> u64 \<Rightarrow> namedPipeClient \<Rightarrow> namedPipeClient" where
  "callExpire k requestID c =
     (let c = removePending requestID c in c\<lparr>clChannels := (clChannels c)[k := None]\<rparr>)"

section \<open>The operations of the interface\<close>

text \<open>The body each of them sends, and what it reads in the answer.\<close>

definition pingBody :: "bytes \<Rightarrow> goerr + bytes" where
  "pingBody payload = (if length payload > 32 then Inl [ErrNamedPipeProtocol] else Inr payload)"

definition prepareBody :: "u64 \<Rightarrow> bytes" where
  "prepareBody generation = put_u64 generation"

definition prepareResult :: "bytes \<Rightarrow> goerr + Transaction" where
  "prepareResult data =
     (if length data \<noteq> 24 then Inl [ErrNamedPipeProtocol]
      else Inr \<lparr>txId = drop 8 data, txGeneration = get_u64 (gslice 0 8 data)\<rparr>)"

definition transactionBody :: "Transaction \<Rightarrow> bytes" where
  "transactionBody t = put_u64 (txGeneration t) @ txId t"

definition openFlowBody :: "u64 \<Rightarrow> FlowSpec \<Rightarrow> goerr + bytes" where
  "openFlowBody requestID spec =
     (case encodePipeFlowSpec requestID spec of Inl e \<Rightarrow> Inl e | Inr encoded \<Rightarrow> Inr (drop 8 encoded))"

definition openFlowResult :: "bytes \<Rightarrow> goerr + FlowLease" where
  "openFlowResult data =
     (if length data \<noteq> 48 then Inl [ErrNamedPipeProtocol]
      else Inr \<lparr>leaseFlow = gslice 0 16 data, leaseGeneration = get_u64 (gslice 16 24 data),
                leaseNonce = gslice 24 40 data, leaseExpires = ofUnixMilli (get_u64 (gslice 40 48 data))\<rparr>)"

definition bodyForDatagram :: "bytes \<Rightarrow> Datagram \<Rightarrow> bytes" where
  "bodyForDatagram destination d =
     destination @ dgFlow d @ put_u64 (dgGeneration d) @ dgNonce d @ put_u64 (dgSequence d)"

definition sendDatagramBody :: "Datagram \<Rightarrow> bytes" where
  "sendDatagramBody d = bodyForDatagram [] d @ dgPayload d"

definition closeFlowBody :: "u64 \<Rightarrow> bytes \<Rightarrow> bytes \<Rightarrow> bytes" where
  "closeFlowBody generation fid nonce = put_u64 generation @ fid @ nonce"

definition decodeNamedPipeDelivery :: "bytes \<Rightarrow> goerr + Delivery" where
  "decodeNamedPipeDelivery payload =
     (if length payload < 40 then Inl [ErrNamedPipeProtocol]
      else Inr \<lparr>dvFlow = gslice 0 16 payload, dvGeneration = get_u64 (gslice 16 24 payload),
                dvNonce = gslice 24 40 payload, dvPayload = drop 40 payload\<rparr>)"

section \<open>The connection\<close>

text \<open>
  One frame in \<open>readConnection\<close>; \<open>onReply\<close> is the handler of deliveries. The first component is the
  error the function returns with.
\<close>

definition readConnectionFrame :: "(Delivery \<Rightarrow> goerr option) \<Rightarrow> namedPipeFrame \<Rightarrow> namedPipeClient \<Rightarrow>
    (goerr option \<times> namedPipeClient) option" where
  "readConnectionFrame onReply frame c =
     (if frType frame = pipeMessageResponse then
        (case decodePipeResponse frame of
           Inl e \<Rightarrow> Some (Some e, c)
         | Inr (requestID, operation, status, data) \<Rightarrow>
             map_option (Pair None)
               (resolveRequest requestID \<lparr>crOperation = operation, crStatus = status, crData = data, crErr = None\<rparr> c))
      else if frType frame = pipeMessagePong then
        (if length (frPayload frame) < 8 then Some (Some [ErrNamedPipeProtocol], c)
         else map_option (Pair None)
                (resolveRequest (get_u64 (gslice 0 8 (frPayload frame)))
                   \<lparr>crOperation = pipeMessagePing, crStatus = pipeStatusOK, crData = drop 8 (frPayload frame),
                    crErr = None\<rparr> c))
      else if frType frame = pipeMessageDelivery then
        (case decodeNamedPipeDelivery (frPayload frame) of
           Inl e \<Rightarrow> Some (Some e, c)
         | Inr delivery \<Rightarrow> Some (onReply delivery, c))
      else Some (Some [ErrNamedPipeProtocol], c))"

section \<open>Run\<close>

definition nextReconnectBackoff :: "duration \<Rightarrow> duration \<Rightarrow> duration" where
  "nextReconnectBackoff current maximum =
     (if current \<ge> maximum \<or> current > maximum div 2 then maximum else current * 2)"

definition runBegin :: "namedPipeClient \<Rightarrow> goerr option \<times> namedPipeClient" where
  "runBegin c =
     (if clClosed c then (Some [CapError CapErrClosed], c)
      else if clRunning c then (Some [ErrNamedPipeClientRun], c)
      else (None, c\<lparr>clRunning := True, clCancelled := False, clBackoff := ReconnectMin (clConfig c),
                    clPc := PcConnecting, clWaits := []\<rparr>))"

text \<open>The deferred function: \<open>Run\<close> returns.\<close>

definition runEnd :: "namedPipeClient \<Rightarrow> namedPipeClient option" where
  "runEnd c = detachLocked (Some [ErrNamedPipeNotReady])
     (c\<lparr>clRunning := False, clPipeOpen := False, clStage := ''stopped'', clPc := PcStopped\<rparr>)"

definition failedStage :: "string \<Rightarrow> string" where
  "failedStage stage =
     (if stage = ''connecting'' then ''connect_failed''
      else if stage = ''awaiting_hello'' then ''hello_failed''
      else if stage = ''authenticating'' then ''authentication_failed''
      else if stage = ''authenticated'' then ''session_failed''
      else stage)"

text \<open>What follows an attempt that ended with \<open>err\<close>: the timer is set, and the next delay chosen.\<close>

definition runAttemptOver :: "goerr option \<Rightarrow> namedPipeClient \<Rightarrow> namedPipeClient option" where
  "runAttemptOver err c =
     (if clCancelled c then runEnd c
      else case detachLocked err (c\<lparr>clPipeOpen := False\<rparr>) of
        None \<Rightarrow> None
      | Some c \<Rightarrow>
          let c = c\<lparr>clReconnect := clReconnect c + 1\<rparr>;
              c = (if err \<noteq> None then c\<lparr>clStage := failedStage (clStage c), clLastError := err\<rparr> else c)
          in Some (c\<lparr>clPc := PcBackoff, clWaits := clWaits c @ [clBackoff c],
                     clBackoff := (if err = None then ReconnectMin (clConfig c)
                                   else nextReconnectBackoff (clBackoff c) (ReconnectMax (clConfig c)))\<rparr>))"

text \<open>The top of the loop, and the result of opening the pipe.\<close>

definition runOpen :: "goerr option \<Rightarrow> namedPipeClient \<Rightarrow> namedPipeClient option" where
  "runOpen fault c =
     (if clCancelled c then runEnd c
      else
        let c = c\<lparr>clAttempt := clAttempt c + 1, clStage := ''connecting'', clLastError := None\<rparr>
        in case fault of
             Some e \<Rightarrow> runAttemptOver (Some e) c
           | None \<Rightarrow> Some (c\<lparr>clPipeOpen := True, clStage := ''awaiting_hello'',
                            clPc := PcHello (length (clWires c)), clWires := clWires c @ [[]]\<rparr>))"

text \<open>\<open>runConnection\<close>: the hello frame, \<open>incoming\<close> being what the read returned.\<close>

definition connectionHello :: "nat \<Rightarrow> goerr + namedPipeFrame \<Rightarrow> namedPipeClient \<Rightarrow> namedPipeClient option" where
  "connectionHello connection incoming c =
     (case incoming of
        Inl err \<Rightarrow> runAttemptOver (Some err) c
      | Inr hello \<Rightarrow>
          if frType hello \<noteq> pipeMessageHello \<or> length (frPayload hello) \<noteq> SessionTokenSize
          then runAttemptOver (Some [ErrNamedPipeProtocol]) c
          else Some (c\<lparr>clStage := ''authenticating'', clPc := PcToken connection (frPayload hello)\<rparr>))"

text \<open>The authentication request, written under \<open>requestMu\<close>.\<close>

definition connectionAuthenticate :: "nat \<Rightarrow> bytes \<Rightarrow> clientWrite \<Rightarrow> namedPipeClient \<Rightarrow> namedPipeClient option" where
  "connectionAuthenticate connection token outcome c =
     (let (authID, c) = allocateRequestID c
      in case clientWriteFrame outcome connection
                \<lparr>frType = pipeMessageAuthenticate, frPayload = put_u64 authID @ token\<rparr> c of
           (Some err, c) \<Rightarrow> runAttemptOver (Some err) c
         | (None, c) \<Rightarrow> Some (c\<lparr>clPc := PcAuthenticating connection authID\<rparr>))"

definition connectionAuthenticated :: "nat \<Rightarrow> u64 \<Rightarrow> goerr + namedPipeFrame \<Rightarrow> namedPipeClient \<Rightarrow>
    namedPipeClient option" where
  "connectionAuthenticated connection authID incoming c =
     (case incoming of
        Inl err \<Rightarrow> runAttemptOver (Some err) c
      | Inr response \<Rightarrow>
          (case decodePipeResponse response of
             Inl err \<Rightarrow> runAttemptOver (Some err) c
           | Inr (responseID, operation, status, data) \<Rightarrow>
               if responseID \<noteq> authID \<or> operation \<noteq> pipeMessageAuthenticate \<or> status \<noteq> pipeStatusOK
               then runAttemptOver (Some [CapError CapErrAuthentication]) c
               else if clClosed c then runAttemptOver (Some [CapError CapErrClosed]) c
               else Some (c\<lparr>clConn := Some connection, clConnected := True, clStage := ''authenticated'',
                            clLastError := None, clPc := PcReading connection\<rparr>)))"

definition connectionRead :: "(Delivery \<Rightarrow> goerr option) \<Rightarrow> goerr + namedPipeFrame \<Rightarrow> namedPipeClient \<Rightarrow>
    namedPipeClient option" where
  "connectionRead onReply incoming c =
     (case incoming of
        Inl err \<Rightarrow> runAttemptOver (Some err) c
      | Inr frame \<Rightarrow>
          (case readConnectionFrame onReply frame c of
             None \<Rightarrow> None
           | Some (None, c) \<Rightarrow> Some c
           | Some (Some err, c) \<Rightarrow> runAttemptOver (Some err) c))"

section \<open>Close and health\<close>

definition clientClose :: "namedPipeClient \<Rightarrow> namedPipeClient option" where
  "clientClose c =
     (if clClosed c then Some c
      else map_option (\<lambda>c. c\<lparr>clCancelled := True\<rparr>)
             (detachLocked (Some [CapError CapErrClosed]) (c\<lparr>clClosed := True\<rparr>)))"

record NamedPipeClientHealth =
  hlConnected :: bool
  hlAuthenticated :: bool
  hlReconnects :: u64
  hlAttempt :: u64
  hlStage :: string
  hlLastError :: "goerr option"
  hlPendingRequests :: nat

definition clientHealth :: "namedPipeClient \<Rightarrow> NamedPipeClientHealth" where
  "clientHealth c =
     \<lparr>hlConnected = clPipeOpen c, hlAuthenticated = (clConn c \<noteq> None), hlReconnects = clReconnect c,
      hlAttempt = clAttempt c, hlStage = clStage c, hlLastError = clLastError c,
      hlPendingRequests = length (clPending c)\<rparr>"

section \<open>The machine\<close>

text \<open>
  The steps of the client's goroutines: \<open>Run\<close> is called, its context is cancelled, the pipe was
  opened or not, a read returned, the token is sent, the timer fires; a call begins, writes, receives,
  or gives up waiting; the client is closed.
\<close>

datatype clientEvent =
    ClRun
  | ClCancel
  | ClOpen "goerr option"
  | ClRead "Delivery \<Rightarrow> goerr option" "goerr + namedPipeFrame"
  | ClToken clientWrite
  | ClTimer
  | ClCall messageType bytes
  | ClWrite clientWrite
  | ClReceive nat messageType
  | ClExpire nat u64
  | ClClose

text \<open>
  An event that cannot happen where the client stands leaves it. A receive or an expiry is that of a
  call whose write is over, and an expiry names the number its call got.
\<close>

definition holdsMutex :: "nat \<Rightarrow> namedPipeClient \<Rightarrow> bool" where
  "holdsMutex k c = (case clHolder c of None \<Rightarrow> False | Some h \<Rightarrow> chCall h = k)"

fun clientStep :: "namedPipeClient \<Rightarrow> clientEvent \<Rightarrow> namedPipeClient option" where
  "clientStep c ClRun = Some (snd (runBegin c))"
| "clientStep c ClCancel = Some (c\<lparr>clCancelled := True\<rparr>)"
| "clientStep c (ClOpen fault) = (if clPc c = PcConnecting then runOpen fault c else Some c)"
| "clientStep c (ClRead onReply incoming) =
     (case clPc c of
        PcHello connection \<Rightarrow> connectionHello connection incoming c
      | PcAuthenticating connection authID \<Rightarrow> connectionAuthenticated connection authID incoming c
      | PcReading connection \<Rightarrow> connectionRead onReply incoming c
      | _ \<Rightarrow> Some c)"
| "clientStep c (ClToken outcome) =
     (case clPc c of
        PcToken connection token \<Rightarrow>
          (if clHolder c = None then connectionAuthenticate connection token outcome c else Some c)
      | _ \<Rightarrow> Some c)"
| "clientStep c ClTimer =
     (if clPc c = PcBackoff then (if clCancelled c then runEnd c else Some (c\<lparr>clPc := PcConnecting\<rparr>)) else Some c)"
| "clientStep c (ClCall operation body) =
     (if clHolder c = None then Some (snd (callBegin operation body c)) else Some c)"
| "clientStep c (ClWrite outcome) = Some (snd (callWrite outcome c))"
| "clientStep c (ClReceive k operation) =
     (if k < length (clChannels c) \<and> \<not> holdsMutex k c then Some (snd (callReceive k operation c)) else Some c)"
| "clientStep c (ClExpire k requestID) =
     (if k < length (clChannels c) \<and> \<not> holdsMutex k c \<and> gm_get (clPending c) requestID \<in> {None, Some k}
      then Some (callExpire k requestID c) else Some c)"
| "clientStep c ClClose = clientClose c"

primrec clientRun :: "namedPipeClient \<Rightarrow> clientEvent list \<Rightarrow> namedPipeClient option" where
  "clientRun c [] = Some c"
| "clientRun c (e # es) = (case clientStep c e of None \<Rightarrow> None | Some c \<Rightarrow> clientRun c es)"

end
