(* ===== verification/NamedPipe_Props.thy ===== *)
theory NamedPipe_Props
  imports NamedPipe_Serve NamedPipe_Client
begin

text \<open>
  Properties of the named pipe: the token gate, the end of a connection, and operations through the
  pipe compared with the same operations of the registry.
\<close>

section \<open>One exchange\<close>

text \<open>
  A call from the client's frame to the client's result: the request crosses the pipe, the core
  performs it, and the answer crosses back.
\<close>

definition answerResult :: "messageType \<Rightarrow> u64 \<Rightarrow> namedPipeFrame \<Rightarrow> goerr + bytes" where
  "answerResult t rid answer =
     (case decodePipeResponse answer of
        Inl e \<Rightarrow> Inl e
      | Inr (q, operation, status, data) \<Rightarrow>
          if q \<noteq> rid then Inl [ErrNamedPipeNotReady]
          else callResult t \<lparr>crOperation = operation, crStatus = status, crData = data, crErr = None\<rparr>)"

definition pipeCall :: "opEnv \<Rightarrow> Controller \<Rightarrow> messageType \<Rightarrow> u64 \<Rightarrow> bytes \<Rightarrow> Registry \<Rightarrow>
    ((goerr + bytes) \<times> Registry) option" where
  "pipeCall env k t rid body r =
     (case marshalNamedPipeFrame \<lparr>frType = t, frPayload = put_u64 rid @ body\<rparr> of
        Inl e \<Rightarrow> Some (Inl e, r)
      | Inr wire \<Rightarrow>
     (case readNamedPipeFrame [IoEOF] wire of
        Inl e \<Rightarrow> Some (Inl e, r)
      | Inr (frame, _) \<Rightarrow>
     (case decodeRequest frame of
        Inl e \<Rightarrow> Some (Inl e, r)
      | Inr (q, dec) \<Rightarrow>
     (case handleNamedPipeOperation env k (frType frame) dec r of
        None \<Rightarrow> None
      | Some (res, r) \<Rightarrow>
     (case marshalNamedPipeFrame (answerFor q (frType frame) res) of
        Inl e \<Rightarrow> Some (Inl e, r)
      | Inr wire \<Rightarrow>
     (case readNamedPipeFrame [IoEOF] wire of
        Inl e \<Rightarrow> Some (Inl e, r)
      | Inr (answer, _) \<Rightarrow> Some (answerResult t rid answer, r)))))))"

definition clientView :: "messageType \<Rightarrow> opResult \<Rightarrow> goerr + bytes" where
  "clientView t res =
     (case orErr res of None \<Rightarrow> Inr (orData res) | Some e \<Rightarrow> Inl [ErrNamedPipeRemote t (statusForError (Some e))])"

lemma status_not_OK: "statusForError (Some e) \<noteq> pipeStatusOK"
  by (simp add: statusForError_def)

lemma status_OK_iff: "statusForError e = pipeStatusOK \<longleftrightarrow> e = None"
  using status_not_OK by (cases e) (auto simp: statusForError_def)

definition plainRequest :: "messageType \<Rightarrow> bool" where
  "plainRequest t \<longleftrightarrow> messageType_valid t \<and> t \<noteq> pipeMessageResponse \<and> t \<noteq> pipeMessagePing"

lemma answer_view:
  assumes "rid \<noteq> 0" "plainRequest t"
  shows "answerResult t rid (answerFor rid t res) = clientView t res"
proof -
  have a: "answerFor rid t res = namedPipeResponse rid t (statusForError (orErr res)) (orData res)"
    using assms(2) by (simp add: answerFor_def plainRequest_def)
  have d: "decodePipeResponse (answerFor rid t res) = Inr (rid, t, statusForError (orErr res), orData res)"
    unfolding a using assms by (intro decode_response) (simp_all add: plainRequest_def)
  show ?thesis using status_not_OK status_OK_iff
    by (cases "orErr res") (simp_all add: answerResult_def d callResult_def clientView_def namedPipeStatusError_def statusForError_def [of None])
qed

lemma answer_marshals:
  assumes "plainRequest t" "length (orData res) \<le> 65000"
  obtains w where "marshalNamedPipeFrame (answerFor rid t res) = Inr w"
  using assms that by (simp add: marshal_iff answerFor_def plainRequest_def namedPipeResponse_def wf_frame_def
      messageType_valid_def pipe_consts)

lemma pipeCall_eq:
  assumes "rid \<noteq> 0" "plainRequest t" "length body \<le> 65528"
    and h: "handleNamedPipeOperation env k t \<lparr>pdPayload = put_u64 rid @ body, pdOffset = 8\<rparr> r = Some (res, r')"
    and small: "length (orData res) \<le> 65000"
  shows "pipeCall env k t rid body r = Some (clientView t res, r')"
proof -
  let ?f = "\<lparr>frType = t, frPayload = put_u64 rid @ body\<rparr>"
  obtain w where w: "marshalNamedPipeFrame ?f = Inr w"
    using assms(2,3) by (simp add: marshal_iff wf_frame_def plainRequest_def pipe_consts)
  obtain v where v: "marshalNamedPipeFrame (answerFor rid t res) = Inr v"
    using answer_marshals [OF assms(2) small] .
  show ?thesis
    using read_frame [OF w, of "[IoEOF]" "[]"] read_frame [OF v, of "[IoEOF]" "[]"]
      decode_request [OF assms(1), of t body] answer_view [OF assms(1,2)]
    by (simp add: pipeCall_def w h v)
qed

text \<open>What the client is told: the error's status, or the data its parser reads as the value.\<close>

definition toldError :: "messageType \<Rightarrow> goerr \<Rightarrow> goerr" where
  "toldError t e = [ErrNamedPipeRemote t (statusForError (Some e))]"

definition toldUnit :: "messageType \<Rightarrow> cap_error option \<Rightarrow> goerr + bytes \<Rightarrow> bool" where
  "toldUnit t y x \<longleftrightarrow> x = (case y of None \<Rightarrow> Inr [] | Some e \<Rightarrow> Inl (toldError t [CapError e]))"

definition told :: "messageType \<Rightarrow> (bytes \<Rightarrow> goerr + 'v) \<Rightarrow> cap_error + 'v \<Rightarrow> goerr + bytes \<Rightarrow> bool" where
  "told t parse y x \<longleftrightarrow>
     (case y of
        Inl e \<Rightarrow> x = Inl (toldError t [CapError e])
      | Inr v \<Rightarrow> (\<exists>data. x = Inr data \<and> parse data = Inr v))"

lemma returns_call:
  assumes "rid \<noteq> 0" "plainRequest t" "length body \<le> 65528"
    and h: "handleNamedPipeOperation env k t \<lparr>pdPayload = put_u64 rid @ body, pdOffset = 8\<rparr> r = opReturns (y, r')"
  shows "\<exists>x. pipeCall env k t rid body r = Some (x, r') \<and> toldUnit t y x"
proof (cases y)
  case None
  then show ?thesis using pipeCall_eq [OF assms(1-3), of env k r "opAnswers []" r'] h
    by (simp add: opReturns_def clientView_def toldUnit_def)
next
  case (Some e)
  then show ?thesis using pipeCall_eq [OF assms(1-3), of env k r "opFails False [CapError e]" r'] h
    by (simp add: opReturns_def clientView_def toldUnit_def toldError_def)
qed

lemma prepare_result: "length (txId t) = 16 \<Longrightarrow> prepareResult (transactionData t) = Inr t"
  by (cases t) (simp add: prepareResult_def transactionData_def slice_simps)

text \<open>The lease as it arrives: the expiry rounded down to milliseconds.\<close>

definition roundedLease :: "FlowLease \<Rightarrow> FlowLease" where
  "roundedLease l = l\<lparr>leaseExpires := leaseExpires l - leaseExpires l mod time_Millisecond\<rparr>"

definition milliTime :: "gotime \<Rightarrow> bool" where
  "milliTime t \<longleftrightarrow> - (2 ^ 63) \<le> t div time_Millisecond \<and> t div time_Millisecond < 2 ^ 63"

lemma lease_result:
  assumes "length (leaseFlow l) = 16" "length (leaseNonce l) = 16" "milliTime (leaseExpires l)"
  shows "openFlowResult (leaseData l) = Inr (roundedLease l)"
  using assms milli_roundtrip [of "leaseExpires l"]
  by (cases l) (simp add: openFlowResult_def leaseData_def slice_simps roundedLease_def milliTime_def)

lemma prepare_id: "prepareGeneration random now cid g r = (Inr t, r') \<Longrightarrow> random = Some (txId t)"
  by (auto simp: prepareGeneration_def readRandom_def split: prod.splits option.splits if_splits sum.splits)

lemma open_lease:
  "openFlow random now cid spec r = (Inr l, r') \<Longrightarrow>
     leaseFlow l = specID spec \<and> random = Some (leaseNonce l)"
  by (auto simp: openFlow_def readRandom_def Let_def split: prod.splits option.splits if_splits sum.splits)

lemma prepare_call:
  assumes "rid \<noteq> 0" "\<forall>n. oeRandom env = Some n \<longrightarrow> length n = 16"
    and p: "prepareGeneration (oeRandom env) (oeNow env) (ctrlId k) g r = (y, r')"
  shows "\<exists>x. pipeCall env k pipeMessagePrepareGeneration rid (prepareBody g) r = Some (x, r') \<and>
    told pipeMessagePrepareGeneration prepareResult y x"
proof -
  have pl: "plainRequest pipeMessagePrepareGeneration" by (simp add: plainRequest_def messageType_valid_def)
  note C = pipeCall_eq [OF assms(1) pl, of "prepareBody g" env k r]
  show ?thesis
  proof (cases y)
    case (Inl e)
    then show ?thesis using C [of "opFails False [CapError e]" r'] p
      by (simp add: handleNamedPipeOperation_def prepareBody_def dec_at clientView_def told_def toldError_def)
  next
    case (Inr t)
    have l: "length (txId t) = 16" using prepare_id p Inr assms(2) by blast
    then have "length (transactionData t) = 24" by (simp add: transactionData_def)
    then show ?thesis using C [of "opAnswers (transactionData t)" r'] p Inr prepare_result [OF l]
      by (simp add: handleNamedPipeOperation_def prepareBody_def dec_at clientView_def told_def)
  qed
qed

lemma open_call:
  assumes "rid \<noteq> 0" "\<forall>n. oeRandom env = Some n \<longrightarrow> length n = 16"
    and b: "openFlowBody n spec = Inr body" "length (specID spec) = 16" "wf_endpoint (specLocal spec)"
      "wf_endpoint (specRemote spec)"
    and m: "\<forall>l. y = Inr l \<longrightarrow> milliTime (leaseExpires l)"
    and p: "openFlow (oeRandom env) (oeNow env) (ctrlId k) spec r = (y, r')"
  shows "\<exists>x. pipeCall env k pipeMessageOpenFlow rid body r = Some (x, r') \<and>
    told pipeMessageOpenFlow openFlowResult (map_sum id roundedLease y) x"
proof -
  have pl: "plainRequest pipeMessageOpenFlow" by (simp add: plainRequest_def messageType_valid_def)
  obtain enc where enc: "encodePipeFlowSpec n spec = Inr enc" "body = drop 8 enc"
    using b(1) by (auto simp: openFlowBody_def split: sum.splits)
  have swap: "encodePipeFlowSpec rid spec = Inr (put_u64 rid @ body)"
    using enc by (auto simp: encodePipeFlowSpec_def appendAddrPort_def Let_def split: if_splits sum.splits)
  note D = decode_flow_spec(2) [OF swap b(2-4)]
  have len: "length body \<le> 65528"
  proof -
    obtain b1 where 1: "appendAddrPort (put_u64 rid @ specID spec @ put_u64 (specGeneration spec) @ [specFamily spec])
        (specLocal spec) (specFamily spec) = Inr b1"
      and 2: "appendAddrPort b1 (specRemote spec) (specFamily spec) = Inr (put_u64 rid @ body)"
      using swap by (auto simp: encodePipeFlowSpec_def Let_def split: sum.splits)
    have "length b1 \<le> 51" using append_Inr(1,4) [OF 1 b(3)] b(2) by (simp split: if_splits)
    moreover have "length (put_u64 rid @ body) \<le> length b1 + 18"
      unfolding append_Inr(1) [OF 2 b(4)] using append_Inr(4) [OF 2 b(4)] by (simp split: if_splits)
    ultimately have "length (put_u64 rid @ body) \<le> 69" by simp
    then show ?thesis by simp
  qed
  note C = pipeCall_eq [OF assms(1) pl len, of env k r]
  show ?thesis
  proof (cases y)
    case (Inl e)
    then show ?thesis using C [of "opFails False [CapError e]" r'] p D
      by (simp add: handleNamedPipeOperation_def clientView_def told_def toldError_def)
  next
    case (Inr l)
    have l: "leaseFlow l = specID spec" "length (leaseNonce l) = 16" using open_lease p Inr assms(2) by blast+
    have r: "openFlowResult (leaseData l) = Inr (roundedLease l)"
      using lease_result l b(2) m Inr by simp
    have "length (leaseData l) = 48" using l b(2) by (simp add: leaseData_def)
    then show ?thesis using C [of "opAnswers (leaseData l)" r'] p Inr D r
      by (simp add: handleNamedPipeOperation_def clientView_def told_def)
  qed
qed

lemma plain_requests:
  "plainRequest pipeMessageCommitGeneration" "plainRequest pipeMessageAbortGeneration"
  "plainRequest pipeMessageDisableGeneration" "plainRequest pipeMessageCloseFlow"
  "plainRequest pipeMessageDatagram"
  by (simp_all add: plainRequest_def messageType_valid_def)

lemma transaction_call:
  assumes "rid \<noteq> 0" "length (txId t) = 16"
  shows "commitGeneration (oeNow env) (ctrlId k) t r = (y, r') \<Longrightarrow>
      \<exists>x. pipeCall env k pipeMessageCommitGeneration rid (transactionBody t) r = Some (x, r') \<and>
        toldUnit pipeMessageCommitGeneration y x"
    "abortGeneration (oeNow env) (ctrlId k) t r = (y, r') \<Longrightarrow>
      \<exists>x. pipeCall env k pipeMessageAbortGeneration rid (transactionBody t) r = Some (x, r') \<and>
        toldUnit pipeMessageAbortGeneration y x"
proof -
  have d: "decodePipeTransaction \<lparr>pdPayload = put_u64 rid @ transactionBody t, pdOffset = 8\<rparr> = Inr (txGeneration t, txId t)"
    using decode_transaction [OF assms(2)] by (simp add: transactionBody_def transactionData_def)
  have e: "\<lparr>txId = txId t, txGeneration = txGeneration t\<rparr> = t" by (cases t) simp
  have l: "length (transactionBody t) \<le> 65528" using assms(2) by (simp add: transactionBody_def)
  show "commitGeneration (oeNow env) (ctrlId k) t r = (y, r') \<Longrightarrow>
      \<exists>x. pipeCall env k pipeMessageCommitGeneration rid (transactionBody t) r = Some (x, r') \<and>
        toldUnit pipeMessageCommitGeneration y x"
    using returns_call [OF assms(1) plain_requests(1) l, of env k r y r'] d
    by (simp add: handleNamedPipeOperation_def Let_def e)
  show "abortGeneration (oeNow env) (ctrlId k) t r = (y, r') \<Longrightarrow>
      \<exists>x. pipeCall env k pipeMessageAbortGeneration rid (transactionBody t) r = Some (x, r') \<and>
        toldUnit pipeMessageAbortGeneration y x"
    using returns_call [OF assms(1) plain_requests(2) l, of env k r y r'] d
    by (simp add: handleNamedPipeOperation_def Let_def e)
qed

lemma disable_call:
  assumes "rid \<noteq> 0" "disableGeneration (oeNow env) (ctrlId k) g r = (y, r')"
  shows "\<exists>x. pipeCall env k pipeMessageDisableGeneration rid (prepareBody g) r = Some (x, r') \<and>
    toldUnit pipeMessageDisableGeneration y x"
  using returns_call [OF assms(1) plain_requests(3), of "prepareBody g" env k r y r'] assms(2)
  by (simp add: handleNamedPipeOperation_def prepareBody_def dec_at)

lemma close_call:
  assumes "rid \<noteq> 0" "length fid = 16" "length nonce = 16"
    "closeFlow (oeNow env) (ctrlId k) g fid nonce r = (y, r')"
  shows "\<exists>x. pipeCall env k pipeMessageCloseFlow rid (closeFlowBody g fid nonce) r = Some (x, r') \<and>
    toldUnit pipeMessageCloseFlow y x"
  using returns_call [OF assms(1) plain_requests(4), of "closeFlowBody g fid nonce" env k r y r'] assms
  by (simp add: handleNamedPipeOperation_def closeFlowBody_def dec_at)

section \<open>Properties\<close>

text \<open>
  C17. Control operations through the pipe are the registry's. Whatever request number a call got, each
  control operation of the client (prepare, commit, abort and disable a generation, open and close a
  flow), encoded, framed, read back, performed and answered, leaves the registry exactly as the
  operation called directly does, and the client gets exactly its result: the transaction with the same
  identifier, the lease with its expiry rounded down to milliseconds, success, or an error that names
  the operation and the status of the registry's error, never success for a failure. Identifiers and
  random draws have 16 bytes, the endpoints are ones that can be encoded, and the expiry of a lease is
  one that the conversion to milliseconds does not cut.
\<close>

theorem pipe_control_exact:
  assumes rid: "rid \<noteq> 0" and random: "\<forall>n. oeRandom env = Some n \<longrightarrow> length n = 16"
    and t: "length (txId t) = 16" and f: "length fid = 16" "length nonce = 16"
    and spec: "openFlowBody m spec = Inr body" "length (specID spec) = 16" "wf_endpoint (specLocal spec)"
      "wf_endpoint (specRemote spec)"
    and opened: "openFlow (oeRandom env) (oeNow env) (ctrlId k) spec r = (o', ro)"
      "\<forall>l. o' = Inr l \<longrightarrow> milliTime (leaseExpires l)"
  shows "(let (y, r') = prepareGeneration (oeRandom env) (oeNow env) (ctrlId k) g r
      in \<exists>x. pipeCall env k pipeMessagePrepareGeneration rid (prepareBody g) r = Some (x, r') \<and>
           told pipeMessagePrepareGeneration prepareResult y x) \<and>
    (let (y, r') = commitGeneration (oeNow env) (ctrlId k) t r
      in \<exists>x. pipeCall env k pipeMessageCommitGeneration rid (transactionBody t) r = Some (x, r') \<and>
           toldUnit pipeMessageCommitGeneration y x) \<and>
    (let (y, r') = abortGeneration (oeNow env) (ctrlId k) t r
      in \<exists>x. pipeCall env k pipeMessageAbortGeneration rid (transactionBody t) r = Some (x, r') \<and>
           toldUnit pipeMessageAbortGeneration y x) \<and>
    (let (y, r') = disableGeneration (oeNow env) (ctrlId k) g r
      in \<exists>x. pipeCall env k pipeMessageDisableGeneration rid (prepareBody g) r = Some (x, r') \<and>
           toldUnit pipeMessageDisableGeneration y x) \<and>
    (let (y, r') = closeFlow (oeNow env) (ctrlId k) g fid nonce r
      in \<exists>x. pipeCall env k pipeMessageCloseFlow rid (closeFlowBody g fid nonce) r = Some (x, r') \<and>
           toldUnit pipeMessageCloseFlow y x) \<and>
    (\<exists>x. pipeCall env k pipeMessageOpenFlow rid body r = Some (x, ro) \<and>
       told pipeMessageOpenFlow openFlowResult (map_sum id roundedLease o') x)"
  using prepare_call [OF rid random] transaction_call [OF rid t] disable_call [OF rid]
    close_call [OF rid f] open_call [OF rid random spec opened(2,1)]
  by (auto split: prod.split)

text \<open>
  Datagrams through the pipe. A captured datagram the client sends, of a size that fits a frame, is
  offered to the registry unchanged; when the registry accepts it, exactly that datagram with the
  endpoints of its lease goes to the TGP sender once, its buffer is back in the budget before the
  answer leaves, and the client is told of the sender's error if there was one; when the registry
  refuses it, nothing is sent. In the other direction a reply the registry resolved reaches the
  helper's handler unchanged.
\<close>

theorem pipe_datagram_exact:
  assumes inv: "registry_inv r" and rid: "rid \<noteq> 0"
    and d: "length (dgFlow d) = 16" "length (dgNonce d) = 16" "length (dgPayload d) \<le> 65480"
    and dv: "length (dvFlow dv) = 16" "length (dvNonce dv) = 16" "length (dvPayload dv) \<le> 65496"
  shows "(case acceptDatagram (oeNow env) (ctrlId k) d r of
      (Inl e, r') \<Rightarrow> pipeCall env k pipeMessageDatagram rid (sendDatagramBody d) r =
        Some (Inl (toldError pipeMessageDatagram [CapError e]), r')
    | (Inr (tun, b), r') \<Rightarrow>
        (\<exists>r''. bufferRelease b r' = Some r'' \<and>
          pipeCall env k pipeMessageDatagram rid (sendDatagramBody d) r =
            Some (case oeSend env tun of None \<Rightarrow> Inr [] | Some e \<Rightarrow> Inl (toldError pipeMessageDatagram e), r''))) \<and>
    (\<exists>w. marshalNamedPipeFrame (deliveryFrame dv) = Inr w \<and>
       readNamedPipeFrame e (w @ rest) = Inr (deliveryFrame dv, rest) \<and>
       readConnectionFrame onReply (deliveryFrame dv) c = Some (onReply dv, c))"
proof -
  have D: "decodePipeDatagram \<lparr>pdPayload = put_u64 rid @ sendDatagramBody d, pdOffset = 8\<rparr> = Inr d"
    using decode_datagram [OF d(1,2)] by (simp add: sendDatagramBody_def bodyForDatagram_def)
  have len: "length (sendDatagramBody d) \<le> 65528" using d by (simp add: sendDatagramBody_def bodyForDatagram_def)
  note C = pipeCall_eq [OF rid plain_requests(5) len, of env k r]
  have 1: "case acceptDatagram (oeNow env) (ctrlId k) d r of
      (Inl e, r') \<Rightarrow> pipeCall env k pipeMessageDatagram rid (sendDatagramBody d) r =
        Some (Inl (toldError pipeMessageDatagram [CapError e]), r')
    | (Inr (tun, b), r') \<Rightarrow>
        (\<exists>r''. bufferRelease b r' = Some r'' \<and>
          pipeCall env k pipeMessageDatagram rid (sendDatagramBody d) r =
            Some (case oeSend env tun of None \<Rightarrow> Inr [] | Some e \<Rightarrow> Inl (toldError pipeMessageDatagram e), r''))"
  proof (cases "acceptDatagram (oeNow env) (ctrlId k) d r")
    case (Pair y r')
    show ?thesis
    proof (cases y)
      case (Inl x)
      then show ?thesis using Pair D C [of "opFails False [CapError x]" r']
        by (simp add: handleNamedPipeOperation_def clientView_def toldError_def)
    next
      case (Inr z)
      obtain tun b where z: "z = (tun, b)" by force
      have s: "opStep 0 (ctrlId k) r r'" using opStep_events(7) [OF inv, of 0 "ctrlId k" "oeNow env" d] Pair by simp
      obtain r'' where "bufferRelease b r' = Some r''"
        using opStep_release [OF inv s accepted_buffer] Pair Inr z by blast
      then show ?thesis
        using Pair Inr z D C [of "\<lparr>orData = [], orTerminal = False, orErr = oeSend env tun, orSent = [tun]\<rparr>" r'']
        by (simp add: handleNamedPipeOperation_def clientView_def toldError_def split: option.split)
    qed
  qed
  obtain w where w: "marshalNamedPipeFrame (deliveryFrame dv) = Inr w"
    using dv by (simp add: marshal_iff deliveryFrame_def wf_frame_def messageType_valid_def pipe_consts)
  have 2: "decodeNamedPipeDelivery (frPayload (deliveryFrame dv)) = Inr dv"
    using dv by (cases dv) (simp add: decodeNamedPipeDelivery_def deliveryFrame_def slice_simps)
  then have "readConnectionFrame onReply (deliveryFrame dv) c = Some (onReply dv, c)"
    by (simp add: readConnectionFrame_def) (simp add: deliveryFrame_def)
  then show ?thesis using 1 w read_frame [OF w] by blast
qed

text \<open>
  The pipe carries whole frames. From the concatenated encodings of any frames a reader gets exactly
  these frames, in order, before the error the stream ends with; and whatever bytes arrive, the frames
  it gets are an initial part of them, byte for byte, in the encoding of this version: nothing is read
  across a frame's border, and what follows the last whole frame is never taken for one.
\<close>

theorem pipe_stream_exact:
  assumes "map marshalNamedPipeFrame fs = map Inr ws"
  shows "readFrames e (concat ws) = (fs, e) \<and>
    (\<exists>vs rest. map marshalNamedPipeFrame (fst (readFrames e s)) = map Inr vs \<and> s = concat vs @ rest \<and>
       readNamedPipeFrame e rest = Inl (snd (readFrames e s)))"
  using read_frames_concat [OF assms, of e "[]"] read_frames_only [of e s "fst (readFrames e s)" "snd (readFrames e s)"]
  by (simp add: read_frames_Nil)

theorem pipe_stream_exact_witness:
  "\<exists>w. marshalNamedPipeFrame (namedPipeResponse 7 3 0 [1, 2]) = Inr w \<and> readFrames [IoEOF] (w @ w) =
     ([namedPipeResponse 7 3 0 [1, 2], namedPipeResponse 7 3 0 [1, 2]], [IoEOF])"
proof -
  obtain w where w: "marshalNamedPipeFrame (namedPipeResponse 7 3 0 [1, 2]) = Inr w"
    by (simp add: marshal_iff wf_frame_def namedPipeResponse_def messageType_valid_def pipe_consts)
  then show ?thesis
    using pipe_stream_exact [of "[namedPipeResponse 7 3 0 [1, 2], namedPipeResponse 7 3 0 [1, 2]]" "[w, w]" "[IoEOF]"]
    by simp
qed


text \<open>
  C14. A connection ends with its rights. Once the attachment was accepted, serving a finite stream of
  bytes always returns, without a panic, whatever the bytes, the writes, the operations' surroundings
  and the replies delivered meanwhile; and then no transport is attached, no controller alive, no token
  outstanding, no generation active or prepared and no flow open. Everything it did to the registry is
  a sequence of the registry's own events on this attachment under the controller this connection
  authenticated.
\<close>

theorem pipe_connection_ends_revoked:
  assumes "newRegistry l = Inr r0" and "r = run registryStep r0 es" and "a < length (rgAttachments r)"
    and "AttachTransport random (Some a) r = (Inr token, r1)"
  shows "\<exists>e c. serveNamedPipeController random helloWrite env idle fin stream a r = Return e c \<and>
    revokedAfter a (pcRegistry c) \<and> servedFrom a (map_option ctrlId (pcController c)) r (pcRegistry c) \<and>
    registry_inv (pcRegistry c) \<and> requireController cid (pcRegistry c) \<noteq> None"
proof -
  have inv: "registry_inv r" using registry.invar_run [OF new_registry_inv [OF assms(1)]] assms(2) by simp
  obtain e c where s: "serveNamedPipeController random helloWrite env idle fin stream a r = Return e c"
    "revokedAfter a (pcRegistry c)" "servedFrom a (map_option ctrlId (pcController c)) r (pcRegistry c)"
    using serve_ok [OF inv assms(3,4)] by metis
  have "requireController cid (pcRegistry c) \<noteq> None" using s(2) by (simp add: requireController_def revokedAfter_def)
  then show ?thesis using s served_inv [OF inv s(3)] by blast
qed

text \<open>A connection on which only the token arrives.\<close>

definition demo_token :: bytes where "demo_token = replicate 32 2"

definition demo_attached :: Registry where
  "demo_attached = run registryStep demo_registry [EvNewAttachment (Some (replicate 32 1)) True]"

definition demo_turns :: "nat \<Rightarrow> turnEnv" where
  "demo_turns n = \<lparr>teReplies = [], teOp = \<lparr>oeRandom = Some (replicate 16 5), oeNow = 0, oeSend = (\<lambda>_. None)\<rparr>,
     teWrite = Written\<rparr>"

definition demo_end :: readEnd where
  "demo_end = \<lparr>reError = [IoEOF], reOperation = CtxLive, reConnection = CtxLive\<rparr>"

definition demo_auth :: namedPipeFrame where
  "demo_auth = \<lparr>frType = pipeMessageAuthenticate, frPayload = put_u64 1 @ demo_token\<rparr>"

lemma demo_attach:
  obtains r1 where "AttachTransport (Some demo_token) (Some 0) demo_attached = (Inr demo_token, r1)"
    "isl (fst (Authenticate (Some (replicate 16 5)) 0 (Some 0) demo_token r1)) = False"
    "0 < length (rgAttachments demo_attached)"
proof -
  have "fst (AttachTransport (Some demo_token) (Some 0) demo_attached) = Inr demo_token" by code_simp
  moreover have "isl (fst (Authenticate (Some (replicate 16 5)) 0 (Some 0) demo_token
      (snd (AttachTransport (Some demo_token) (Some 0) demo_attached)))) = False" by code_simp
  moreover have "0 < length (rgAttachments demo_attached)" by code_simp
  ultimately show ?thesis using that by (metis prod.collapse)
qed

lemma demo_marshals:
  obtains w where "marshalNamedPipeFrame demo_auth = Inr w"
  using that by (simp add: demo_auth_def marshal_iff wf_frame_def messageType_valid_def pipe_consts demo_token_def)

lemma demo_serves:
  assumes w: "marshalNamedPipeFrame demo_auth = Inr w"
  obtains e c where "serveNamedPipeController (Some demo_token) Written demo_turns 0 demo_end w 0 demo_attached = Return e c"
    "pcController c \<noteq> None"
proof -
  obtain r1 where a: "AttachTransport (Some demo_token) (Some 0) demo_attached = (Inr demo_token, r1)"
    "isl (fst (Authenticate (Some (replicate 16 5)) 0 (Some 0) demo_token r1)) = False" by (rule demo_attach)
  obtain k r2 where k: "Authenticate (Some (replicate 16 5)) 0 (Some 0) demo_token r1 = (Inr k, r2)"
    using a(2) by (cases "Authenticate (Some (replicate 16 5)) 0 (Some 0) demo_token r1"; cases "fst (Authenticate (Some (replicate 16 5)) 0 (Some 0) demo_token r1)") auto
  have [simp]: "length demo_token = 32" by (simp add: demo_token_def)
  have wr: "sessionWriteFrame Written f c = (None, c\<lparr>pcFrames := pcFrames c @ [f]\<rparr>)"
    if "wf_frame f" "\<not> pcBroken c" for f c
    using that marshal_iff [of f] by (auto simp: sessionWriteFrame_def split: sum.split) (simp add: marshalNamedPipeFrame_def wf_frame_def not_less)
  have rd: "readFrameIdle 0 demo_end w = Inr (demo_auth, [])"
    using read_frame [OF w, of "[IoEOF]" "[]"] by (simp add: readFrameIdle_def demo_end_def)
  have re: "readFrameIdle 0 demo_end [] = Inl [IoEOF]"
    by (simp add: readFrameIdle_def readNamedPipeFrame_def ReadFull_def pipe_consts demo_end_def
        normalizeContextError_def)
  have dr: "decodeRequest demo_auth = Inr (1, \<lparr>pdPayload = put_u64 1 @ demo_token, pdOffset = 8\<rparr>)"
    using decode_request [of 1 pipeMessageAuthenticate demo_token] by (simp add: demo_auth_def)
  have wf: "wf_frame \<lparr>frType = pipeMessageHello, frPayload = demo_token\<rparr>" "wf_frame (namedPipeResponse 1 pipeMessageAuthenticate 0 [])"
    by (simp_all add: wf_frame_def messageType_valid_def pipe_consts namedPipeResponse_def)
  let ?c = "\<lparr>pcRegistry = r1, pcAttachment = 0, pcController = None, pcBound = None,
      pcLast = 0, pcBroken = False, pcFrames = [\<lparr>frType = pipeMessageHello, frPayload = demo_token\<rparr>], pcSent = []\<rparr>"
  let ?c1 = "\<lparr>pcRegistry = r2, pcAttachment = 0, pcController = Some k, pcBound = Some k, pcLast = 1, pcBroken = False,
      pcFrames = [\<lparr>frType = pipeMessageHello, frPayload = demo_token\<rparr>, namedPipeResponse 1 pipeMessageAuthenticate 0 []],
      pcSent = []\<rparr>"
  have ft: "frType demo_auth = pipeMessageAuthenticate" by (simp add: demo_auth_def)
  have t: "serveFrame (demo_turns 0) demo_auth ?c = Continue ?c1"
    using wr wf by (simp add: serveFrame_def dr serveAuthentication_def dec_at SessionTokenSize_def k demo_turns_def
        ft statusForError_def)
  have "deliverReplies (teReplies (demo_turns n)) c = Some c" for n c by (simp add: demo_turns_def)
  then have l: "serveLoop demo_turns 0 demo_end 0 w ?c = Return None ?c1"
    using t by (simp add: serveLoop.simps [of demo_turns 0 demo_end 0 w ?c] rd re
        serveLoop.simps [of demo_turns 0 demo_end "Suc 0" "[]" ?c1] isNamedPipeEOF_def errors_Is_def)
  obtain e c where d: "serveDeferred None ?c1 = (e, c)" by force
  have c: "pcController c \<noteq> None" using d by (auto simp: serveDeferred_def Let_def split: prod.splits)
  have "serveNamedPipeController (Some demo_token) Written demo_turns 0 demo_end w 0 demo_attached = Return e c"
    using a(1) l d wr [OF wf(1)] by (simp add: serveNamedPipeController_def)
  then show ?thesis using that c by blast
qed

lemma demo_attached_run: "demo_attached = run registryStep demo_registry [EvNewAttachment (Some (replicate 32 1)) True]"
  by (simp add: demo_attached_def)


theorem pipe_connection_ends_revoked_witness:
  "\<exists>w e c. marshalNamedPipeFrame demo_auth = Inr w \<and>
     serveNamedPipeController (Some demo_token) Written demo_turns 0 demo_end w 0 demo_attached = Return e c \<and>
     pcController c \<noteq> None \<and> revokedAfter 0 (pcRegistry c)"
proof -
  obtain w where w: "marshalNamedPipeFrame demo_auth = Inr w" by (rule demo_marshals)
  obtain e c where s: "serveNamedPipeController (Some demo_token) Written demo_turns 0 demo_end w 0 demo_attached = Return e c"
    "pcController c \<noteq> None" by (rule demo_serves [OF w])
  obtain r1 where "AttachTransport (Some demo_token) (Some 0) demo_attached = (Inr demo_token, r1)"
    "0 < length (rgAttachments demo_attached)" by (rule demo_attach)
  from pipe_connection_ends_revoked [OF demo_registry_new demo_attached_run this(2,1), of Written demo_turns 0 demo_end w]
    s w show ?thesis by auto
qed

theorem pipe_control_exact_witness:
  "\<exists>data body lease ro. openFlowBody 9 (demo_spec 1) = Inr body \<and>
     pipeCall \<lparr>oeRandom = Some (replicate 16 7), oeNow = 0, oeSend = (\<lambda>_. None)\<rparr>
       \<lparr>ctrlId = demo_controller, ctrlAttachment = 0, ctrlCloseOnce = False\<rparr> pipeMessageOpenFlow 5 body
       (run registryStep demo_registry (take 5 demo_opening)) = Some (Inr data, ro) \<and>
     openFlowResult data = Inr (roundedLease lease) \<and> leaseNonce lease = replicate 16 7"
proof -
  let ?env = "\<lparr>oeRandom = Some (replicate 16 7), oeNow = 0, oeSend = (\<lambda>_ :: TunnelDatagram. None :: goerr option)\<rparr>"
  let ?k = "\<lparr>ctrlId = demo_controller, ctrlAttachment = 0, ctrlCloseOnce = False\<rparr>"
  let ?r = "run registryStep demo_registry (take 5 demo_opening)"
  obtain body where b: "openFlowBody 9 (demo_spec 1) = Inr body"
    by (simp add: openFlowBody_def encodePipeFlowSpec_def appendAddrPort_def demo_spec_def Addr_IsValid_def)
  have w: "length (specID (demo_spec 1)) = 16" "wf_endpoint (specLocal (demo_spec 1))" "wf_endpoint (specRemote (demo_spec 1))"
    by (simp_all add: demo_spec_def wf_endpoint_def)
  have "case fst (openFlow (Some (replicate 16 7)) 0 demo_controller (demo_spec 1) ?r) of
      Inr l \<Rightarrow> leaseExpires l = 120000000000 \<and> leaseNonce l = replicate 16 7 | Inl _ \<Rightarrow> False" by code_simp
  then obtain lease ro where o: "openFlow (oeRandom ?env) (oeNow ?env) (ctrlId ?k) (demo_spec 1) ?r = (Inr lease, ro)"
    "leaseExpires lease = 120000000000" "leaseNonce lease = replicate 16 7"
    by (cases "openFlow (Some (replicate 16 7)) 0 demo_controller (demo_spec 1) ?r") (auto split: sum.splits)
  have m: "\<forall>l. Inr lease = (Inr l :: cap_error + FlowLease) \<longrightarrow> milliTime (leaseExpires l)"
    by (simp add: milliTime_def o(2))
  have "(5::u64) \<noteq> 0" "\<forall>n. oeRandom ?env = Some n \<longrightarrow> length n = 16" by simp_all
  note P = pipe_control_exact [OF this, of "\<lparr>txId = zeros 16, txGeneration = 1\<rparr>" "zeros 16" "zeros 16" 9 "demo_spec 1"
      body ?k ?r "Inr lease" ro, OF _ _ _ b w o(1) m]
  have "\<exists>x. pipeCall ?env ?k pipeMessageOpenFlow 5 body ?r = Some (x, ro) \<and>
      told pipeMessageOpenFlow openFlowResult (map_sum id roundedLease (Inr lease)) x"
    by (rule P [THEN conjunct2, THEN conjunct2, THEN conjunct2, THEN conjunct2, THEN conjunct2]) simp_all
  then show ?thesis using b o(3) by (auto simp: told_def)
qed

theorem pipe_datagram_exact_witness:
  "\<exists>b r' r''. acceptDatagram 0 demo_controller (demo_datagram 1 9) (run registryStep demo_registry demo_opening) =
       (Inr b, r') \<and> bufferRelease (snd b) r' = Some r'' \<and>
     pipeCall \<lparr>oeRandom = None, oeNow = 0, oeSend = (\<lambda>_. None)\<rparr>
       \<lparr>ctrlId = demo_controller, ctrlAttachment = 0, ctrlCloseOnce = False\<rparr> pipeMessageDatagram 7
       (sendDatagramBody (demo_datagram 1 9)) (run registryStep demo_registry demo_opening) = Some (Inr [], r'')"
proof -
  let ?r = "run registryStep demo_registry demo_opening"
  let ?env = "\<lparr>oeRandom = None, oeNow = 0, oeSend = (\<lambda>_ :: TunnelDatagram. None :: goerr option)\<rparr>"
  let ?k = "\<lparr>ctrlId = demo_controller, ctrlAttachment = 0, ctrlCloseOnce = False\<rparr>"
  let ?dv = "\<lparr>dvFlow = zeros 16, dvGeneration = 1, dvNonce = zeros 16, dvPayload = []\<rparr>"
  have inv: "registry_inv ?r" by (rule registry.invar_run [OF new_registry_inv [OF demo_registry_new]])
  have "isl (fst (acceptDatagram 0 demo_controller (demo_datagram 1 9) ?r)) = False" by code_simp
  then obtain b r' where a: "acceptDatagram 0 demo_controller (demo_datagram 1 9) ?r = (Inr b, r')"
    by (cases "acceptDatagram 0 demo_controller (demo_datagram 1 9) ?r";
        cases "fst (acceptDatagram 0 demo_controller (demo_datagram 1 9) ?r)") auto
  have l: "length (dgFlow (demo_datagram 1 9)) = 16" "length (dgNonce (demo_datagram 1 9)) = 16"
    "length (dgPayload (demo_datagram 1 9)) \<le> 65480" "length (dvFlow ?dv) = 16" "length (dvNonce ?dv) = 16"
    "length (dvPayload ?dv) \<le> 65496" by (simp_all add: demo_datagram_def)
  have "(7::u64) \<noteq> 0" by simp
  from pipe_datagram_exact [OF inv this l, of ?env ?k] a show ?thesis by (cases b) auto
qed

end
