(* ===== verification/NamedPipe_Writer.thy ===== *)
theory NamedPipe_Writer
  imports NamedPipe_Codec
begin

text \<open>
  The writer of a connection as a machine: every request it takes is answered exactly once, in the
  order it was taken, and its frames reach the pipe in that order.
\<close>

datatype writerEvent =
    WrEnqueue ctxErr nat bytes
  | WrServe ctxErr ctxErr ctxErr "goerr option"
  | WrStop
  | WrClose
  | WrCancel

text \<open>
  The goroutine serves until it has stopped, and it stops when its context is cancelled; when both are
  possible, which of them happens is left open, as in the \<open>select\<close> of the code. The second component
  collects the requests that were taken.
\<close>

fun writerStep :: "pipeWriter \<times> (nat \<times> bytes) list \<Rightarrow> writerEvent \<Rightarrow> pipeWriter \<times> (nat \<times> bytes) list" where
  "writerStep (w, taken) (WrEnqueue ctx k wire) =
     (case writerEnqueue ctx k wire w of (Enqueued, w) \<Rightarrow> (w, taken @ [(k, wire)]) | (_, w) \<Rightarrow> (w, taken))"
| "writerStep (w, taken) (WrServe before after own fault) =
     ((if wrDone w then w else writerServe before after own fault w), taken)"
| "writerStep (w, taken) WrStop = ((if wrCancelled w \<and> \<not> wrDone w then writerStop w else w), taken)"
| "writerStep (w, taken) WrClose = (writerClose w, taken)"
| "writerStep (w, taken) WrCancel = (w\<lparr>wrCancelled := True\<rparr>, taken)"

text \<open>The frames of the requests that were marked as written.\<close>

definition marked :: "(nat \<times> bytes) list \<Rightarrow> bool list \<Rightarrow> bytes list" where
  "marked reqs marks = map (snd \<circ> fst) (filter snd (zip reqs marks))"

lemma marked_append:
  "length reqs = length marks \<Longrightarrow>
   marked (reqs @ [x]) (marks @ [b]) = marked reqs marks @ (if b then [snd x] else [])"
  by (simp add: marked_def)

lemma marked_none:
  "length reqs = length marks \<Longrightarrow> marked (reqs @ xs) (marks @ map (\<lambda>_. False) xs) = marked reqs marks"
  by (induction xs rule: rev_induct) (simp_all add: marked_def zip_append1)

definition writer_inv :: "pipeWriter \<times> (nat \<times> bytes) list \<Rightarrow> bool" where
  "writer_inv s \<longleftrightarrow> (case s of (w, taken) \<Rightarrow>
     length (wrQueue w) \<le> namedPipeWriteQueueSize \<and> (wrDone w \<longrightarrow> wrClosed w \<and> wrQueue w = []) \<and>
     (\<exists>served marks. taken = served @ wrQueue w \<and> map fst served = map fst (wrAnswers w) \<and>
       length marks = length served \<and> wrFrames w = marked served marks \<and>
       (\<forall>i < length served. snd (wrAnswers w ! i) = None \<longrightarrow> marks ! i)))"

lemma served_answers:
  assumes "taken = served @ q" "map fst served = map fst ans" "length marks = length served"
    "frames = marked served marks" "\<forall>i < length served. snd (ans ! i) = None \<longrightarrow> marks ! i"
    and q: "q = x # q'" and m: "e = None \<longrightarrow> b"
  shows "\<exists>served' marks'. taken = served' @ q' \<and> map fst served' = map fst (ans @ [(fst x, e)]) \<and>
    length marks' = length served' \<and> (if b then frames @ [snd x] else frames) = marked served' marks' \<and>
    (\<forall>i < length served'. snd ((ans @ [(fst x, e)]) ! i) = None \<longrightarrow> marks' ! i)"
proof -
  have "length ans = length served" using assms(2) by (metis length_map)
  then show ?thesis using assms
    by (intro exI [of _ "served @ [x]"] exI [of _ "marks @ [b]"]) (auto simp: marked_append nth_append less_Suc_eq)
qed

lemma normalize_None [simp]: "normalizeContextError ctx e = None \<longleftrightarrow> e = None"
  by (cases ctx) (auto simp: normalizeContextError_def split: option.splits)

lemma writer_step_inv: "writer_inv s \<Longrightarrow> writer_inv (writerStep s ev)"
proof -
  assume inv: "writer_inv s"
  obtain w taken where s: "s = (w, taken)" by force
  obtain served marks where I: "taken = served @ wrQueue w" "map fst served = map fst (wrAnswers w)"
      "length marks = length served" "wrFrames w = marked served marks"
      "\<forall>i < length served. snd (wrAnswers w ! i) = None \<longrightarrow> marks ! i"
    and Q: "length (wrQueue w) \<le> namedPipeWriteQueueSize" "wrDone w \<longrightarrow> wrClosed w \<and> wrQueue w = []"
    using inv s by (auto simp: writer_inv_def)
  have same: "writer_inv (w', taken)" if "wrQueue w' = wrQueue w" "wrAnswers w' = wrAnswers w" "wrFrames w' = wrFrames w"
      "wrDone w' = wrDone w" "wrClosed w \<longrightarrow> wrClosed w'" for w'
    using that inv s by (auto simp: writer_inv_def)
  show ?thesis
  proof (cases ev)
    case (WrEnqueue ctx k wire)
    then show ?thesis using I Q inv s
      by (auto simp: writerEnqueue_def writer_inv_def split: option.splits enqueueResult.splits)
  next
    case (WrServe before after own fault)
    show ?thesis
    proof (cases "wrDone w \<or> wrQueue w = []")
      case True
      then show ?thesis using inv s WrServe by (auto simp: writerServe_def)
    next
      case False
      then obtain k wire rest where q: "wrQueue w = (k, wire) # rest" by (cases "wrQueue w") auto
      note A = served_answers [OF I q]
      show ?thesis
      proof (cases "ctxError before")
        case (Some e)
        have "\<exists>served' marks'. taken = served' @ rest \<and>
            map fst served' = map fst (wrAnswers w @ [(k, normalizeContextError before (Some e))]) \<and>
            length marks' = length served' \<and> wrFrames w = marked served' marks' \<and>
            (\<forall>i < length served'. snd ((wrAnswers w @ [(k, normalizeContextError before (Some e))]) ! i) = None \<longrightarrow> marks' ! i)"
          using A [of "normalizeContextError before (Some e)" False] by simp
        then show ?thesis using False Q q s WrServe Some by (auto simp: writerServe_def writer_inv_def)
      next
        case None
        define err where "err = (if ctxError after \<noteq> None
             then normalizeContextError after (errors_Join fault (ctxError after))
             else normalizeContextError own fault)"
        have "err = None \<longrightarrow> fault = None" by (auto simp: err_def errors_Join_def split: option.splits if_splits)
        from A [OF this, unfolded fst_conv snd_conv] obtain served' marks' where M: "taken = served' @ rest"
          "map fst served' = map fst (wrAnswers w @ [(k, err)])" "length marks' = length served'"
          "(if fault = None then wrFrames w @ [wire] else wrFrames w) = marked served' marks'"
          "\<forall>i < length served'. snd ((wrAnswers w @ [(k, err)]) ! i) = None \<longrightarrow> marks' ! i"
          by blast
        have W: "writerServe before after own fault w =
            w\<lparr>wrQueue := rest, wrAnswers := wrAnswers w @ [(k, err)],
              wrFrames := (if fault = None then wrFrames w @ [wire] else wrFrames w),
              wrCancelled := wrCancelled w \<or> err \<noteq> None\<rparr>"
          using q None unfolding writerServe_def Let_def err_def [symmetric] by (simp add: err_def [symmetric])
        show ?thesis unfolding s WrServe writer_inv_def
          using False Q q M by (simp add: W) blast
      qed
    qed
  next
    case WrStop
    show ?thesis
    proof (cases "wrCancelled w \<and> \<not> wrDone w")
      case True
      have l: "length (wrAnswers w) = length served" using I(2) by (metis length_map)
      let ?ans = "wrAnswers w @ map (\<lambda>(k, _). (k, Some [CapError CapErrClosed])) (wrQueue w)"
      let ?served = "served @ wrQueue w" and ?marks = "marks @ map (\<lambda>_. False) (wrQueue w)"
      have "map fst ?served = map fst ?ans" using I(2) by (simp add: case_prod_beta comp_def)
      moreover have "length ?marks = length ?served" using I(3) by simp
      moreover have "wrFrames w = marked ?served ?marks" using I(3,4) by (simp add: marked_none)
      moreover have "\<forall>i < length ?served. snd (?ans ! i) = None \<longrightarrow> ?marks ! i"
        using I(3,5) l by (auto simp: nth_append case_prod_beta)
      ultimately have "\<exists>served marks. taken = served @ [] \<and> map fst served = map fst ?ans \<and> length marks = length served \<and>
          wrFrames w = marked served marks \<and> (\<forall>i < length served. snd (?ans ! i) = None \<longrightarrow> marks ! i)"
        using I(1) by (intro exI [of _ ?served] exI [of _ ?marks] conjI) simp_all
      then have "writer_inv (writerStop w, taken)" unfolding writer_inv_def by (simp add: writerStop_def)
      then show ?thesis using True s WrStop by simp
    qed (use inv s WrStop in auto)
  next
    case WrClose
    then show ?thesis using s same [of "writerClose w"] by (simp add: writerClose_def)
  next
    case WrCancel
    then show ?thesis using s same [of "w\<lparr>wrCancelled := True\<rparr>"] by simp
  qed
qed

interpretation pipe_writer: invariant_machine writerStep writer_inv
  by unfold_locales (rule writer_step_inv)

section \<open>Properties\<close>

text \<open>
  C15. The writer answers every request once, in order. After any events of a connection's writer, the
  requests it took are those it has answered, in that order, followed by those that wait, of which
  there are at most 32; the frames on the pipe are those of some of the answered requests, in the same
  order, among them every one whose caller was told of success; and once the goroutine has stopped
  nothing waits: no caller is left without an answer.
\<close>

theorem pipe_writer_answers:
  assumes "run writerStep (newPipeWriter, []) es = (w, taken)"
  shows "(\<exists>served marks. taken = served @ wrQueue w \<and> map fst served = map fst (wrAnswers w) \<and>
      length marks = length served \<and> wrFrames w = marked served marks \<and>
      (\<forall>i < length served. snd (wrAnswers w ! i) = None \<longrightarrow> marks ! i)) \<and>
    length (wrQueue w) \<le> 32 \<and> (wrDone w \<longrightarrow> wrQueue w = [] \<and> map fst taken = map fst (wrAnswers w))"
proof -
  have "writer_inv (newPipeWriter, [])" by (simp add: writer_inv_def newPipeWriter_def marked_def)
  then have "writer_inv (w, taken)" using pipe_writer.invar_run [of "(newPipeWriter, [])" es] assms by simp
  then show ?thesis by (auto simp: writer_inv_def namedPipeWriteQueueSize_def)
qed

theorem pipe_writer_answers_witness:
  "\<exists>w. run writerStep (newPipeWriter, []) [WrEnqueue CtxLive 1 [7], WrEnqueue CtxLive 2 [8],
       WrServe CtxLive CtxLive CtxLive None, WrClose, WrStop] = (w, [(1, [7]), (2, [8])]) \<and>
     wrFrames w = [[7]] \<and> wrDone w \<and> map fst (wrAnswers w) = [1, 2]"
proof -
  let ?es = "[WrEnqueue CtxLive 1 [7], WrEnqueue CtxLive 2 [8], WrServe CtxLive CtxLive CtxLive None, WrClose, WrStop]"
  obtain w where w: "run writerStep (newPipeWriter, []) ?es = (w, [(1, [7]), (2, [8])])" "wrFrames w = [[7]]" "wrDone w"
    by (simp add: writerEnqueue_def newPipeWriter_def namedPipeWriteQueueSize_def writerServe_def writerClose_def
        writerStop_def normalizeContextError_def)
  from pipe_writer_answers [OF w(1)] w show ?thesis by auto
qed

text \<open>
  After a write that failed, and may have left part of its frame on the pipe, the writer cancels its
  context; but its \<open>select\<close> may still take a request that waits, and when that write succeeds a frame
  follows the torn one.
\<close>

theorem writer_may_follow_torn_frame:
  "\<exists>w. run writerStep (newPipeWriter, []) [WrEnqueue CtxLive 1 [7], WrEnqueue CtxLive 2 [8],
       WrServe CtxLive CtxLive CtxExpired (Some [CtxDeadlineExceeded]), WrServe CtxLive CtxLive CtxCancelled None] =
       (w, [(1, [7]), (2, [8])]) \<and>
     wrCancelled w \<and> wrFrames w = [[8]] \<and>
     wrAnswers w = [(1, Some [ErrNamedPipeTimeout, CtxDeadlineExceeded]), (2, None)]"
  by (simp add: writerEnqueue_def newPipeWriter_def namedPipeWriteQueueSize_def writerServe_def
      normalizeContextError_def)

end
