(* ===== verification/NamedPipe_Client_Inv.thy ===== *)
theory NamedPipe_Client_Inv
  imports NamedPipe_Client
begin

text \<open>
  The invariants of the named pipe's client: the requests that wait and their channels, and the numbers
  on the wire.
\<close>

section \<open>Waiting requests\<close>

text \<open>One entry per number, one per channel, and every channel that is waited on is empty.\<close>

definition pend_inv :: "(u64, nat) gomap \<Rightarrow> clientResponse option list \<Rightarrow> bool" where
  "pend_inv p chs \<longleftrightarrow> gm_ok p \<and> distinct (map snd p) \<and>
     (\<forall>x \<in> set p. snd x < length chs \<and> chs ! snd x = None)"

lemma pend_Nil [simp]: "pend_inv [] chs"
  by (simp add: pend_inv_def)

lemma del_filter: "gm_del p k = filter (\<lambda>x. fst x \<noteq> k) p"
  by (auto simp: gm_del_def AList.delete_eq intro: filter_cong)

lemma pend_del: "pend_inv p chs \<Longrightarrow> pend_inv (gm_del p rid) chs"
  by (auto simp: pend_inv_def) (auto simp: del_filter distinct_map_filter)

lemma pend_value:
  assumes "pend_inv p chs" "gm_get p rid = Some k"
  shows "(rid, k) \<in> set p" "k < length chs" "chs ! k = None" "\<forall>x \<in> set (gm_del p rid). snd x \<noteq> k"
proof -
  show m: "(rid, k) \<in> set p" by (rule map_of_SomeD [OF assms(2)])
  show "k < length chs" "chs ! k = None" using m assms(1) by (auto simp: pend_inv_def)
  show "\<forall>x \<in> set (gm_del p rid). snd x \<noteq> k"
  proof (intro ballI notI)
    fix x assume x: "x \<in> set (gm_del p rid)" "snd x = k"
    then have "x \<in> set p" "fst x \<noteq> rid" by (simp_all add: del_filter)
    then show False using m x(2) assms(1) unfolding pend_inv_def distinct_map
      by (metis fst_conv inj_onD snd_conv)
  qed
qed

lemma pend_settle:
  assumes "pend_inv p chs" "gm_get p rid = Some k"
  shows "pend_inv (gm_del p rid) (chs[k := m])"
  using pend_del [OF assms(1), of rid] pend_value [OF assms] by (auto simp: pend_inv_def nth_list_update)

lemma pend_other: "pend_inv p chs \<Longrightarrow> pend_inv p (chs[k := None])"
  unfolding pend_inv_def by (metis length_list_update nth_list_update_eq nth_list_update_neq)

lemma pend_settle_other: "pend_inv p chs \<Longrightarrow> chs ! k \<noteq> None \<Longrightarrow> pend_inv p (chs[k := m])"
  unfolding pend_inv_def by (metis length_list_update nth_list_update_neq)

lemma set_update_subset: "set (AList.update k v p) \<subseteq> insert (k, v) (set p)"
  by (induction p) auto

lemma update_values:
  "distinct (map snd p) \<Longrightarrow> v \<notin> snd ` set p \<Longrightarrow> distinct (map snd (AList.update k v p))"
proof (induction p)
  case (Cons x p)
  have "snd ` set (AList.update k v p) \<subseteq> insert v (snd ` set p)"
    using set_update_subset [of k v p] by auto
  then show ?case using Cons by (cases x) auto
qed simp

lemma pend_begin: "pend_inv p chs \<Longrightarrow> pend_inv (gm_set p rid (length chs)) (chs @ [None])"
proof -
  assume p: "pend_inv p chs"
  have "length chs \<notin> snd ` set p" using p by (force simp: pend_inv_def)
  then have "distinct (map snd (gm_set p rid (length chs)))"
    using p by (simp add: gm_set_def pend_inv_def update_values)
  moreover have "set (gm_set p rid (length chs)) \<subseteq> insert (rid, length chs) (set p)"
    using set_update_subset by (simp add: gm_set_def)
  ultimately show ?thesis using p by (fastforce simp: pend_inv_def nth_append)
qed

text \<open>Detaching answers every waiting request and never meets a full channel.\<close>

abbreviation detachedWith :: "goerr option \<Rightarrow> clientResponse" where
  "detachedWith err \<equiv> \<lparr>crOperation = 0, crStatus = 0, crData = [], crErr = err\<rparr>"

lemma detach_loop:
  "pend_inv p (clChannels c) \<Longrightarrow> clPending c = p \<Longrightarrow>
   \<exists>chs. detachLoop err p c = Some (c\<lparr>clPending := [], clChannels := chs\<rparr>) \<and> length chs = length (clChannels c) \<and>
     (\<forall>k < length chs. chs ! k = (if k \<in> snd ` set p then Some (detachedWith err) else clChannels c ! k))"
proof (induction p arbitrary: c)
  case Nil
  then show ?case by (intro exI [of _ "clChannels c"]) simp
next
  case (Cons x p)
  obtain rid k where x: "x = (rid, k)" by force
  have g: "gm_get (x # p) rid = Some k" by (simp add: x)
  have d: "gm_del (x # p) rid = p"
    using Cons.prems(1) by (auto simp: pend_inv_def del_filter x gm_ok_def filter_id_conv)
  note V = pend_value [OF Cons.prems(1) g]
  let ?c = "c\<lparr>clPending := p, clChannels := (clChannels c)[k := Some (detachedWith err)]\<rparr>"
  have "pend_inv p (clChannels ?c)" using pend_settle [OF Cons.prems(1) g] d by simp
  from Cons.IH [OF this] obtain chs where h: "detachLoop err p ?c = Some (?c\<lparr>clPending := [], clChannels := chs\<rparr>)"
    "length chs = length (clChannels c)"
    "\<forall>j < length chs. chs ! j = (if j \<in> snd ` set p then Some (detachedWith err) else (clChannels ?c) ! j)" by auto
  have "detachLoop err (x # p) c = Some (c\<lparr>clPending := [], clChannels := chs\<rparr>)"
    using h(1) V Cons.prems(2) d by (simp add: x channelSend_def)
  then show ?case using h(2,3) V by (intro exI [of _ chs]) (auto simp: x nth_list_update)
qed

lemma detach_ok:
  assumes "pend_inv (clPending c) (clChannels c)"
  obtains chs where "detachLocked err c = Some (c\<lparr>clConn := None, clPending := [], clChannels := chs\<rparr>)"
    "length chs = length (clChannels c)"
    "\<forall>k < length chs. chs ! k = (if k \<in> snd ` set (clPending c) then Some (detachedWith err) else clChannels c ! k)"
  using detach_loop [of "clPending c" "c\<lparr>clConn := None\<rparr>" err] assms that by (auto simp: detachLocked_def)

section \<open>The invariant\<close>

text \<open>
  While not connected nothing waits; the number of those that wait is bounded; the call that holds
  \<open>requestMu\<close> has its channel.
\<close>

definition client_inv :: "namedPipeClient \<Rightarrow> bool" where
  "client_inv c \<longleftrightarrow> pend_inv (clPending c) (clChannels c) \<and>
     int (length (clPending c)) \<le> max 0 (nccMaxPending (clConfig c)) \<and>
     (clConn c = None \<longrightarrow> clPending c = []) \<and>
     (case clHolder c of None \<Rightarrow> True | Some h \<Rightarrow> chCall h < length (clChannels c))"

text \<open>Steps that leave the requests alone.\<close>

definition reqView where
  "reqView c = (clPending c, clChannels c, clConn c, clHolder c, clConfig c)"

lemma inv_view: "client_inv c \<Longrightarrow> reqView c' = reqView c \<Longrightarrow> client_inv c'"
  by (auto simp: client_inv_def reqView_def split: option.splits)

lemma inv_detached:
  assumes "client_inv c" "length chs = length (clChannels c)" "clPending c' = []" "clChannels c' = chs"
    "clHolder c' = clHolder c" "clConfig c' = clConfig c"
  shows "client_inv c'"
  using assms by (auto simp: client_inv_def split: option.splits)

lemma inv_pend: "client_inv c \<Longrightarrow> pend_inv (clPending c) (clChannels c)"
  by (simp add: client_inv_def)

text \<open>What a step may do to a waiting request: keep it, or settle it with an error.\<close>

definition kept :: "namedPipeClient \<Rightarrow> namedPipeClient \<Rightarrow> bool" where
  "kept c c' \<longleftrightarrow> (\<forall>x \<in> set (clPending c). x \<in> set (clPending c') \<or>
     (\<exists>m. clChannels c' ! snd x = Some m \<and> crErr m \<noteq> None))"

lemma kept_view: "reqView c' = reqView c \<Longrightarrow> kept c c'"
  by (simp add: kept_def reqView_def)

lemma kept_from: "reqView c1 = reqView c \<Longrightarrow> kept c1 c' \<Longrightarrow> kept c c'"
  by (simp add: kept_def reqView_def)

lemma detached_inv:
  assumes "client_inv c" "err \<noteq> None"
  obtains c' where "detachLocked err c = Some c'" "client_inv c'" "kept c c'"
    "c' = c\<lparr>clConn := None, clPending := [], clChannels := clChannels c'\<rparr>"
proof -
  obtain chs where d: "detachLocked err c = Some (c\<lparr>clConn := None, clPending := [], clChannels := chs\<rparr>)"
    "length chs = length (clChannels c)"
    "\<forall>k < length chs. chs ! k = (if k \<in> snd ` set (clPending c) then Some (detachedWith err) else clChannels c ! k)"
    by (rule detach_ok [OF inv_pend [OF assms(1)]])
  let ?c = "c\<lparr>clConn := None, clPending := [], clChannels := chs\<rparr>"
  have "client_inv ?c" by (rule inv_detached [OF assms(1) d(2)]) simp_all
  moreover have "kept c ?c" using d(2,3) assms(2) inv_pend [OF assms(1)] by (force simp: kept_def pend_inv_def)
  ultimately show ?thesis using that [of ?c] d(1) by simp
qed

text \<open>Steps that succeed, keep the invariant, and keep or settle what waits.\<close>

definition clientStepOK :: "namedPipeClient \<Rightarrow> namedPipeClient option \<Rightarrow> bool" where
  "clientStepOK c x \<longleftrightarrow> (\<exists>c'. x = Some c' \<and> client_inv c' \<and> kept c c')"

lemma step_view: "client_inv c \<Longrightarrow> reqView c' = reqView c \<Longrightarrow> clientStepOK c (Some c')"
  by (simp add: clientStepOK_def inv_view kept_view)

lemma step_from: "reqView c1 = reqView c \<Longrightarrow> clientStepOK c1 x \<Longrightarrow> clientStepOK c x"
  by (auto simp: clientStepOK_def intro: kept_from)

lemma step_detach:
  assumes "client_inv c" "reqView c1 = reqView c" "err \<noteq> None"
    and "\<And>c2. detachLocked err c1 = Some c2 \<Longrightarrow> \<exists>c3. x = Some c3 \<and> reqView c3 = reqView c2"
  shows "clientStepOK c x"
proof -
  have "client_inv c1" by (rule inv_view [OF assms(1,2)])
  then obtain c2 where d: "detachLocked err c1 = Some c2" "client_inv c2" "kept c1 c2"
    using detached_inv assms(3) by metis
  obtain c3 where "x = Some c3" "reqView c3 = reqView c2" using assms(4) [OF d(1)] by blast
  moreover have "kept c c3" using kept_from [OF assms(2)] d(3) calculation(2) by (simp add: kept_def reqView_def)
  ultimately show ?thesis using inv_view [OF d(2)] by (simp add: clientStepOK_def)
qed

lemma end_ok: "client_inv c \<Longrightarrow> clientStepOK c (runEnd c)"
  unfolding runEnd_def
  by (rule step_detach [of c "c\<lparr>clRunning := False, clPipeOpen := False, clStage := ''stopped'', clPc := PcStopped\<rparr>"
        "Some [ErrNamedPipeNotReady]"]) (simp_all add: reqView_def)

lemma attempt_over_ok:
  assumes "client_inv c" "err \<noteq> None"
  shows "clientStepOK c (runAttemptOver err c)"
proof (cases "clCancelled c")
  case True
  then show ?thesis using end_ok [OF assms(1)] by (simp add: runAttemptOver_def)
next
  case False
  show ?thesis
    by (rule step_detach [of c "c\<lparr>clPipeOpen := False\<rparr>" err])
      (use assms False in \<open>auto simp: runAttemptOver_def reqView_def Let_def\<close>)
qed

lemma write_view:
  "clientWriteFrame outcome n f c = (e, c') \<Longrightarrow> reqView c' = reqView c \<and> clNextID c' = clNextID c"
  by (auto simp: clientWriteFrame_def reqView_def split: clientWrite.splits sum.splits)

text \<open>A frame that is read: it may answer one request.\<close>

definition answers :: "namedPipeFrame \<Rightarrow> u64 \<Rightarrow> bool" where
  "answers f rid \<longleftrightarrow>
     (frType f = pipeMessageResponse \<and> (\<exists>y. decodePipeResponse f = Inr (rid, y))) \<or>
     (frType f = pipeMessagePong \<and> 8 \<le> length (frPayload f) \<and> rid = get_u64 (gslice 0 8 (frPayload f)))"

lemma resolve_ok:
  assumes "client_inv c"
  obtains c' where "resolveRequest rid m c = Some c'" "client_inv c'"
    "\<forall>x \<in> set (clPending c). fst x \<noteq> rid \<longrightarrow> x \<in> set (clPending c')"
    "\<forall>x \<in> set (clPending c). fst x = rid \<longrightarrow> clChannels c' ! snd x = Some m"
    "clWires c' = clWires c" "clNextID c' = clNextID c" "clHolder c' = clHolder c"
    "set (clPending c') \<subseteq> set (clPending c)"
proof (cases "gm_get (clPending c) rid")
  case None
  then have "\<forall>x \<in> set (clPending c). fst x \<noteq> rid" by (simp add: map_of_eq_None_iff) blast
  then show ?thesis using that [of c] None assms by (simp add: resolveRequest_def)
next
  case (Some k)
  note P = inv_pend [OF assms]
  note V = pend_value [OF P Some]
  let ?c = "c\<lparr>clPending := gm_del (clPending c) rid, clChannels := (clChannels c)[k := Some m]\<rparr>"
  have r: "resolveRequest rid m c = Some ?c" using Some V by (simp add: resolveRequest_def channelSend_def)
  have "gm_del [] rid = ([] :: (u64, nat) gomap)" by (simp add: del_filter)
  then have "client_inv ?c"
    using assms pend_settle [OF P Some, of "Some m"] gm_len_del_le [of "clPending c" rid]
    by (auto simp: client_inv_def split: option.splits)
  moreover have "\<forall>x \<in> set (clPending c). fst x = rid \<longrightarrow> snd x = k"
    using P V(1) by (auto simp: pend_inv_def gm_ok_def dest: eq_key_imp_eq_value)
  ultimately show ?thesis using that [of ?c] r V by (auto simp: del_filter)
qed

lemma read_frame_ok:
  assumes "client_inv c"
  obtains e c' where "readConnectionFrame onReply f c = Some (e, c')" "client_inv c'"
    "\<forall>x \<in> set (clPending c). x \<in> set (clPending c') \<or> (answers f (fst x) \<and> (\<exists>m. clChannels c' ! snd x = Some m))"
    "clWires c' = clWires c" "clNextID c' = clNextID c" "clHolder c' = clHolder c"
    "set (clPending c') \<subseteq> set (clPending c)"
proof (cases "frType f = pipeMessageResponse")
  case True
  show ?thesis
  proof (cases "decodePipeResponse f")
    case (Inl e)
    then show ?thesis using that [of "Some e" c] True assms by (simp add: readConnectionFrame_def)
  next
    case (Inr y)
    obtain rid op st data where y: "y = (rid, op, st, data)" by (cases y) auto
    obtain c' where r: "resolveRequest rid \<lparr>crOperation = op, crStatus = st, crData = data, crErr = None\<rparr> c = Some c'"
      "client_inv c'" "\<forall>x \<in> set (clPending c). fst x \<noteq> rid \<longrightarrow> x \<in> set (clPending c')"
      "\<forall>x \<in> set (clPending c). fst x = rid \<longrightarrow> clChannels c' ! snd x = Some \<lparr>crOperation = op, crStatus = st, crData = data, crErr = None\<rparr>"
      "clWires c' = clWires c" "clNextID c' = clNextID c" "clHolder c' = clHolder c" "set (clPending c') \<subseteq> set (clPending c)"
      by (rule resolve_ok [OF assms])
    have "answers f rid" using True Inr y by (simp add: answers_def)
    then have "\<forall>x \<in> set (clPending c). x \<in> set (clPending c') \<or> (answers f (fst x) \<and> (\<exists>m. clChannels c' ! snd x = Some m))"
      using r(3,4) by metis
    then show ?thesis using that [of None c'] r True Inr y by (simp add: readConnectionFrame_def)
  qed
next
  case F1: False
  show ?thesis
  proof (cases "frType f = pipeMessagePong \<and> 8 \<le> length (frPayload f)")
    case True
    let ?rid = "get_u64 (gslice 0 8 (frPayload f))"
    let ?m = "\<lparr>crOperation = pipeMessagePing, crStatus = pipeStatusOK, crData = drop 8 (frPayload f), crErr = None\<rparr>"
    obtain c' where r: "resolveRequest ?rid ?m c = Some c'"
      "client_inv c'" "\<forall>x \<in> set (clPending c). fst x \<noteq> ?rid \<longrightarrow> x \<in> set (clPending c')"
      "\<forall>x \<in> set (clPending c). fst x = ?rid \<longrightarrow> clChannels c' ! snd x = Some ?m"
      "clWires c' = clWires c" "clNextID c' = clNextID c" "clHolder c' = clHolder c" "set (clPending c') \<subseteq> set (clPending c)"
      by (rule resolve_ok [OF assms])
    have "answers f ?rid" using True by (simp add: answers_def)
    then have "\<forall>x \<in> set (clPending c). x \<in> set (clPending c') \<or> (answers f (fst x) \<and> (\<exists>m. clChannels c' ! snd x = Some m))"
      using r(3,4) by metis
    then show ?thesis using that [of None c'] r True by (simp add: readConnectionFrame_def not_less)
  next
    case False
    have "\<exists>e. readConnectionFrame onReply f c = Some (e, c)"
      using F1 False by (simp add: readConnectionFrame_def not_le split: sum.split)
    then obtain e where "readConnectionFrame onReply f c = Some (e, c)" by blast
    then show ?thesis using that [of e c] assms by simp
  qed
qed

section \<open>Numbers on the wire\<close>

fun itemFrame :: "wireItem \<Rightarrow> namedPipeFrame" where
  "itemFrame (Whole f) = f"
| "itemFrame (Torn f) = f"

definition itemID :: "wireItem \<Rightarrow> u64" where
  "itemID x = get_u64 (take 8 (frPayload (itemFrame x)))"

text \<open>The next number no frame has yet.\<close>

definition wireBound :: "namedPipeClient \<Rightarrow> u64" where
  "wireBound c = (case clHolder c of None \<Rightarrow> clNextID c | Some h \<Rightarrow> chRequest h)"

definition wire_ok :: "u64 \<Rightarrow> wireItem list \<Rightarrow> bool" where
  "wire_ok b w \<longleftrightarrow> sorted_wrt (<) (map itemID w) \<and> (\<forall>x \<in> set w. 0 < itemID x \<and> itemID x < b)"

definition id_inv :: "namedPipeClient \<Rightarrow> bool" where
  "id_inv c \<longleftrightarrow> (\<forall>x \<in> set (clPending c). fst x < clNextID c) \<and> 0 < wireBound c \<and> wireBound c \<le> clNextID c \<and>
     (clHolder c \<noteq> None \<longrightarrow> wireBound c < clNextID c) \<and> (\<forall>w \<in> set (clWires c). wire_ok (wireBound c) w)"

lemma wire_ok_Nil [simp]: "wire_ok b []"
  by (simp add: wire_ok_def)

lemma wire_ok_mono: "wire_ok b w \<Longrightarrow> b \<le> b' \<Longrightarrow> wire_ok b' w"
  by (force simp: wire_ok_def)

lemma wire_ok_snoc: "wire_ok b w \<Longrightarrow> 0 < b \<Longrightarrow> itemID x = b \<Longrightarrow> b < b' \<Longrightarrow> wire_ok b' (w @ [x])"
  by (force simp: wire_ok_def sorted_wrt_append)

lemma next_id:
  fixes w :: u64
  assumes "unat w + 1 < 2 ^ 64"
  shows "w + 1 \<noteq> 0" "w < w + 1" "unat (w + 1) = unat w + 1"
proof -
  show u: "unat (w + 1) = unat w + 1" using assms by (simp add: unat_word_ariths)
  show "w + 1 \<noteq> 0" using u by (metis add_is_0 unat_0 one_neq_zero)
  show "w < w + 1" using u by (simp add: word_less_nat_alt)
qed

text \<open>Steps that add nothing to a wire and draw no number.\<close>

lemma id_fewer:
  assumes "id_inv c" "clNextID c' = clNextID c" "clHolder c' = clHolder c"
    "set (clWires c') \<subseteq> insert [] (set (clWires c))" "set (clPending c') \<subseteq> set (clPending c)"
  shows "id_inv c'"
  using assms by (auto simp: id_inv_def wireBound_def split: option.splits)

lemma id_write:
  assumes inv: "id_inv c" and b: "wireBound c < clNextID c"
    and w: "clientWriteFrame outcome n f c = (e, c')" and f: "frPayload f = put_u64 (wireBound c) @ body"
  shows "\<forall>w \<in> set (clWires c'). wire_ok (clNextID c) w"
proof -
  have old: "\<forall>w \<in> set (clWires c). wire_ok (wireBound c) w" using inv by (simp add: id_inv_def)
  then have mono: "\<forall>w \<in> set (clWires c). wire_ok (clNextID c) w"
    using wire_ok_mono b by (meson less_imp_le)
  have new: "wire_ok (clNextID c) (clWires c ! n @ [x])" if "itemFrame x = f" "n < length (clWires c)" for x
    using inv old that f b by (intro wire_ok_snoc [of "wireBound c"]) (simp_all add: itemID_def id_inv_def)
  have up: "\<forall>w \<in> set ((clWires c)[n := clWires c ! n @ [x]]). wire_ok (clNextID c) w" if "itemFrame x = f" for x
    using mono new [OF that] set_update_subset_insert [of "clWires c" n "clWires c ! n @ [x]"]
    by (cases "n < length (clWires c)") (auto simp: not_less list_update_beyond)
  show ?thesis using w mono up [of "Whole f"] up [of "Torn f"]
    by (auto simp: clientWriteFrame_def split: clientWrite.splits sum.splits)
qed

lemma detach_ids:
  assumes "detachLocked err c = Some c'"
  shows "clNextID c' = clNextID c" "clHolder c' = clHolder c" "clWires c' = clWires c"
    "set (clPending c') \<subseteq> set (clPending c)" "clBackoff c' = clBackoff c" "clWaits c' = clWaits c" "clConfig c' = clConfig c"
    "clPc c' = clPc c" "clCancelled c' = clCancelled c"
proof -
  have l: "detachLoop err xs d = Some c' \<Longrightarrow> clNextID c' = clNextID d \<and> clHolder c' = clHolder d \<and>
      clWires c' = clWires d \<and> set (clPending c') \<subseteq> set (clPending d) \<and> clBackoff c' = clBackoff d \<and>
      clWaits c' = clWaits d \<and> clConfig c' = clConfig d \<and> clPc c' = clPc d \<and> clCancelled c' = clCancelled d" for xs d
  proof (induction xs arbitrary: d)
    case (Cons x xs)
    then obtain d1 where d1: "channelSend (snd x) (detachedWith err) (d\<lparr>clPending := gm_del (clPending d) (fst x)\<rparr>) = Some d1"
      "detachLoop err xs d1 = Some c'" by (auto split: option.splits)
    then show ?case using Cons.IH [OF d1(2)] by (auto simp: channelSend_def del_filter split: if_splits)
  qed simp
  have "detachLoop err (clPending c) (c\<lparr>clConn := None\<rparr>) = Some c'" using assms by (simp add: detachLocked_def)
  from l [OF this] show "clNextID c' = clNextID c" "clHolder c' = clHolder c" "clWires c' = clWires c"
    "set (clPending c') \<subseteq> set (clPending c)" "clBackoff c' = clBackoff c" "clWaits c' = clWaits c" "clConfig c' = clConfig c"
    "clPc c' = clPc c" "clCancelled c' = clCancelled c" by simp_all
qed

lemma end_ids:
  "runEnd c = Some c' \<Longrightarrow> clNextID c' = clNextID c \<and> clHolder c' = clHolder c \<and> clWires c' = clWires c \<and>
     set (clPending c') \<subseteq> set (clPending c)"
  using detach_ids [of "Some [ErrNamedPipeNotReady]" "c\<lparr>clRunning := False, clPipeOpen := False, clStage := ''stopped'', clPc := PcStopped\<rparr>" c']
  by (simp add: runEnd_def)

lemma over_ids:
  assumes "runAttemptOver err c = Some c'"
  shows "clNextID c' = clNextID c \<and> clHolder c' = clHolder c \<and> clWires c' = clWires c \<and>
     set (clPending c') \<subseteq> set (clPending c)"
proof (cases "clCancelled c")
  case True
  then show ?thesis using assms end_ids by (simp add: runAttemptOver_def)
next
  case False
  then obtain c1 where d: "detachLocked err (c\<lparr>clPipeOpen := False\<rparr>) = Some c1"
    using assms by (auto simp: runAttemptOver_def split: option.splits)
  show ?thesis using assms False detach_ids [OF d] d
    by (cases err) (auto simp: runAttemptOver_def Let_def)
qed

lemma over_id_inv:
  assumes "id_inv c" "runAttemptOver err c = Some c'"
  shows "id_inv c'" "clNextID c' = clNextID c"
  using over_ids [OF assms(2)] id_fewer [OF assms(1), of c'] by (simp_all add: subset_insertI)

section \<open>Every step\<close>

text \<open>
  What can become of a waiting request in a step: it waits on; its channel holds an error, or the answer
  the step read; or its own caller gave up.
\<close>

definition settled :: "clientEvent \<Rightarrow> namedPipeClient \<Rightarrow> namedPipeClient \<Rightarrow> u64 \<times> nat \<Rightarrow> bool" where
  "settled ev c c' x \<longleftrightarrow> x \<in> set (clPending c') \<or>
     (\<exists>m. clChannels c' ! snd x = Some m \<and>
       (crErr m \<noteq> None \<or> (\<exists>onReply f. ev = ClRead onReply (Inr f) \<and> answers f (fst x)))) \<or>
     (\<exists>k. ev = ClExpire k (fst x)) \<or>
     (\<exists>outcome h. ev = ClWrite outcome \<and> clHolder c = Some h \<and> chRequest h = fst x)"

definition goodStep :: "clientEvent \<Rightarrow> namedPipeClient \<Rightarrow> namedPipeClient option \<Rightarrow> bool" where
  "goodStep ev c y \<longleftrightarrow> (\<exists>c'. y = Some c' \<and> client_inv c' \<and> id_inv c' \<and>
     unat (clNextID c') \<le> unat (clNextID c) + 1 \<and> (\<forall>x \<in> set (clPending c). settled ev c c' x))"

lemma kept_settled: "kept c c' \<Longrightarrow> x \<in> set (clPending c) \<Longrightarrow> settled ev c c' x"
  by (auto simp: kept_def settled_def)

lemma good_view:
  assumes "client_inv c" "id_inv c" "reqView c' = reqView c" "clNextID c' = clNextID c"
    "set (clWires c') \<subseteq> insert [] (set (clWires c))"
  shows "goodStep ev c (Some c')"
proof -
  have "id_inv c'" using assms(3) by (intro id_fewer [OF assms(2,4) _ assms(5)]) (simp_all add: reqView_def)
  then show ?thesis using inv_view [OF assms(1,3)] kept_settled [OF kept_view [OF assms(3)]] assms(4)
    by (simp add: goodStep_def)
qed

text \<open>The end of an attempt, after steps that left the requests alone.\<close>

lemma good_over:
  assumes "client_inv c1" "id_inv c1" "reqView c1 = reqView c" "unat (clNextID c1) \<le> unat (clNextID c) + 1" "err \<noteq> None"
  shows "goodStep ev c (runAttemptOver err c1)"
proof -
  obtain c' where o: "runAttemptOver err c1 = Some c'" "client_inv c'" "kept c1 c'"
    using attempt_over_ok [OF assms(1,5)] by (auto simp: clientStepOK_def)
  have "kept c c'" by (rule kept_from [OF assms(3) o(3)])
  then show ?thesis using o over_id_inv [OF assms(2) o(1)] assms(4) kept_settled by (auto simp: goodStep_def)
qed

lemma good_end:
  assumes "client_inv c" "id_inv c"
  shows "goodStep ev c (runEnd c)"
proof -
  obtain c' where o: "runEnd c = Some c'" "client_inv c'" "kept c c'"
    using end_ok [OF assms(1)] by (auto simp: clientStepOK_def)
  have "id_inv c'" using end_ids [OF o(1)] by (intro id_fewer [OF assms(2)]) auto
  then show ?thesis using o end_ids [OF o(1)] kept_settled by (auto simp: goodStep_def)
qed

lemma read_frame_error: "readConnectionFrame onReply f c = Some (Some e, c') \<Longrightarrow> c' = c"
  by (auto simp: readConnectionFrame_def split: if_splits sum.splits)

lemma good_read:
  assumes inv: "client_inv c" and ids: "id_inv c"
  shows "goodStep (ClRead onReply incoming) c (connectionRead onReply incoming c)"
proof (cases incoming)
  case (Inl e)
  then show ?thesis using good_over [OF inv ids refl] by (simp add: connectionRead_def)
next
  case (Inr f)
  obtain e c1 where r: "readConnectionFrame onReply f c = Some (e, c1)" "client_inv c1"
    "\<forall>x \<in> set (clPending c). x \<in> set (clPending c1) \<or> (answers f (fst x) \<and> (\<exists>m. clChannels c1 ! snd x = Some m))"
    "clWires c1 = clWires c" "clNextID c1 = clNextID c" "clHolder c1 = clHolder c" "set (clPending c1) \<subseteq> set (clPending c)"
    by (rule read_frame_ok [OF inv])
  have i1: "id_inv c1" using r(4-7) by (intro id_fewer [OF ids]) auto
  show ?thesis
  proof (cases e)
    case None
    then show ?thesis using r i1 Inr by (auto simp: connectionRead_def goodStep_def settled_def)
  next
    case (Some err)
    then have "c1 = c" using read_frame_error r(1) by blast
    then show ?thesis using good_over [OF inv ids refl] r(1) Inr Some by (simp add: connectionRead_def)
  qed
qed

text \<open>An authentication request draws a number and puts it on the wire; no call is between the two.\<close>

lemma good_token:
  assumes inv: "client_inv c" and ids: "id_inv c" and h: "clHolder c = None" and n: "unat (clNextID c) + 1 < 2 ^ 64"
  shows "goodStep ev c (connectionAuthenticate connection token outcome c)"
proof -
  note N = next_id [OF n]
  let ?f = "\<lparr>frType = pipeMessageAuthenticate, frPayload = put_u64 (clNextID c) @ token\<rparr>"
  let ?c1 = "c\<lparr>clNextID := clNextID c + 1\<rparr>"
  have a: "allocateRequestID c = (clNextID c, ?c1)" using N(1) by (simp add: allocateRequestID_def Let_def)
  obtain e c2 where w: "clientWriteFrame outcome connection ?f ?c1 = (e, c2)" by force
  have v: "reqView c2 = reqView c" "clNextID c2 = clNextID c + 1"
    using write_view [OF w] by (simp_all add: reqView_def)
  have h2: "clHolder c2 = None" using v(1) h by (simp add: reqView_def)
  let ?h = "\<lparr>chCall = 0, chRequest = clNextID c, chOperation = 0, chBody = [], chConn = 0\<rparr>"
  have "id_inv (?c1\<lparr>clHolder := Some ?h\<rparr>)"
    using ids h N(2) by (force simp: id_inv_def wireBound_def)
  moreover obtain c3 where "clientWriteFrame outcome connection ?f (?c1\<lparr>clHolder := Some ?h\<rparr>) = (e, c3)" "clWires c3 = clWires c2"
    using w by (auto simp: clientWriteFrame_def split: clientWrite.splits sum.splits)
  ultimately have wires: "\<forall>u \<in> set (clWires c2). wire_ok (clNextID c + 1) u"
    using id_write [of "?c1\<lparr>clHolder := Some ?h\<rparr>" outcome connection ?f e c3 token] N(2) by (simp add: wireBound_def)
  have "\<forall>x \<in> set (clPending c). fst x < clNextID c + 1" using ids N(2) by (auto simp: id_inv_def)
  moreover have "0 < clNextID c + 1" using N(1) by (simp add: word_neq_0_conv)
  ultimately have i2: "id_inv c2" using v h2 wires by (simp add: id_inv_def wireBound_def reqView_def)
  have inv2: "client_inv c2" by (rule inv_view [OF inv v(1)])
  show ?thesis
  proof (cases e)
    case (Some err)
    then show ?thesis using good_over [OF inv2 i2 v(1), of "Some err"] a w v(2) N(3)
      by (simp add: connectionAuthenticate_def)
  next
    case None
    let ?c3 = "c2\<lparr>clPc := PcAuthenticating connection (clNextID c)\<rparr>"
    have v3: "reqView ?c3 = reqView c" using v(1) by (simp add: reqView_def)
    have "id_inv ?c3" by (rule id_fewer [OF i2]) auto
    then show ?thesis using None a w v(2) N(3) inv_view [OF inv v3] kept_settled [OF kept_view [OF v3]]
      by (simp add: connectionAuthenticate_def goodStep_def)
  qed
qed

lemma good_call:
  assumes inv: "client_inv c" and ids: "id_inv c" and h: "clHolder c = None" and n: "unat (clNextID c) + 1 < 2 ^ 64"
  shows "goodStep ev c (Some (snd (callBegin operation body c)))"
proof (cases "clClosed c \<or> clConn c = None \<or> \<not> clConnected c \<or> int (length (clPending c)) \<ge> nccMaxPending (clConfig c)")
  case True
  then have "snd (callBegin operation body c) = c" by (auto simp: callBegin_def split: option.splits)
  then show ?thesis using good_view [OF inv ids refl refl] by (simp add: subset_insertI)
next
  case False
  then obtain conn where conn: "clConn c = Some conn" by auto
  note N = next_id [OF n]
  let ?k = "length (clChannels c)" and ?rid = "clNextID c"
  let ?c = "c\<lparr>clNextID := ?rid + 1, clPending := gm_set (clPending c) ?rid ?k, clChannels := clChannels c @ [None],
     clHolder := Some \<lparr>chCall = ?k, chRequest = ?rid, chOperation = operation, chBody = body, chConn = conn\<rparr>\<rparr>"
  have e: "snd (callBegin operation body c) = ?c"
    using False conn N(1) by (simp add: callBegin_def allocateRequestID_def Let_def)
  have p: "pend_inv (clPending ?c) (clChannels ?c)" using pend_begin inv by (simp add: client_inv_def)
  have ok: "gm_ok (clPending c)" using inv by (simp add: client_inv_def pend_inv_def)
  have len: "length (clPending ?c) \<le> Suc (length (clPending c))" using gm_len_set [OF ok] by simp
  have inv': "client_inv ?c" using p len False conn by (auto simp: client_inv_def)
  have sub: "set (gm_set (clPending c) ?rid ?k) \<subseteq> insert (?rid, ?k) (set (clPending c))"
    using set_update_subset by (simp add: gm_set_def)
  have ids': "id_inv ?c" using ids sub N(2) h by (force simp: id_inv_def wireBound_def)
  have keep: "x \<in> set (clPending ?c)" if x: "x \<in> set (clPending c)" for x
  proof -
    have "fst x \<noteq> ?rid" using ids x by (auto simp: id_inv_def)
    then have "gm_get (clPending ?c) (fst x) = gm_get (clPending c) (fst x)" by simp
    moreover have "gm_get (clPending c) (fst x) = Some (snd x)" using ok x by (simp add: gm_ok_def)
    ultimately show ?thesis using map_of_SomeD [of "clPending ?c" "fst x" "snd x"] by simp
  qed
  show ?thesis using e inv' ids' N(3) keep by (auto simp: goodStep_def settled_def)
qed

lemma remove_inv:
  assumes "client_inv c"
  shows "client_inv (removePending rid c)" "set (clPending (removePending rid c)) = {x \<in> set (clPending c). fst x \<noteq> rid}"
    "clNextID (removePending rid c) = clNextID c" "clHolder (removePending rid c) = clHolder c"
    "clWires (removePending rid c) = clWires c"
proof -
  note P = inv_pend [OF assms]
  have s: "set (gm_del (clPending c) rid) = {x \<in> set (clPending c). fst x \<noteq> rid}" by (auto simp: del_filter)
  show "clNextID (removePending rid c) = clNextID c" "clHolder (removePending rid c) = clHolder c"
    "clWires (removePending rid c) = clWires c" by (simp_all add: removePending_def split: option.split)
  show "set (clPending (removePending rid c)) = {x \<in> set (clPending c). fst x \<noteq> rid}"
  proof (cases "gm_get (clPending c) rid")
    case None
    then have "\<forall>x \<in> set (clPending c). fst x \<noteq> rid" by (simp add: map_of_eq_None_iff) blast
    then show ?thesis using None by (auto simp: removePending_def)
  qed (simp add: removePending_def s)
  show "client_inv (removePending rid c)"
  proof (cases "gm_get (clPending c) rid")
    case (Some k)
    have "gm_del [] rid = ([] :: (u64, nat) gomap)" by (simp add: del_filter)
    then show ?thesis using Some assms pend_settle [OF P Some, of None] gm_len_del_le [of "clPending c" rid]
      by (auto simp: removePending_def client_inv_def split: option.splits)
  qed (use assms in \<open>simp add: removePending_def\<close>)
qed

lemma good_write:
  assumes inv: "client_inv c" and ids: "id_inv c"
  shows "goodStep (ClWrite outcome) c (Some (snd (callWrite outcome c)))"
proof (cases "clHolder c")
  case None
  then show ?thesis using good_view [OF inv ids refl refl] by (simp add: callWrite_def subset_insertI)
next
  case (Some h)
  let ?f = "\<lparr>frType = chOperation h, frPayload = put_u64 (chRequest h) @ chBody h\<rparr>"
  obtain e c1 where w: "clientWriteFrame outcome (chConn h) ?f c = (e, c1)" by force
  note V = write_view [OF w]
  have b: "wireBound c = chRequest h" "wireBound c < clNextID c" using ids Some by (auto simp: id_inv_def wireBound_def)
  have wires: "\<forall>u \<in> set (clWires c1). wire_ok (clNextID c) u" by (rule id_write [OF ids b(2) w]) (simp add: b(1))
  let ?c2 = "c1\<lparr>clHolder := None\<rparr>"
  have inv2: "client_inv ?c2" using inv V by (simp add: client_inv_def reqView_def)
  have "0 < wireBound c" using ids by (simp add: id_inv_def)
  then have "0 < clNextID c" using b(2) by (rule less_trans)
  then have ids2: "id_inv ?c2" using ids V wires by (simp add: id_inv_def wireBound_def reqView_def)
  have p: "clPending ?c2 = clPending c" using V by (simp add: reqView_def)
  show ?thesis
  proof (cases e)
    case None
    then show ?thesis using inv2 ids2 V p w Some by (auto simp: callWrite_def goodStep_def settled_def)
  next
    case (Some err)
    note R = remove_inv [OF inv2, of "chRequest h"]
    have "id_inv (removePending (chRequest h) ?c2)" using R by (intro id_fewer [OF ids2]) auto
    then show ?thesis using R V p w Some \<open>clHolder c = Some h\<close> by (auto simp: callWrite_def goodStep_def settled_def)
  qed
qed

lemma good_receive:
  assumes inv: "client_inv c" and ids: "id_inv c"
  shows "goodStep ev c (Some (snd (callReceive k operation c)))"
proof (cases "clChannels c ! k")
  case None
  then show ?thesis using good_view [OF inv ids refl refl] by (simp add: callReceive_def subset_insertI)
next
  case (Some m)
  let ?c = "c\<lparr>clChannels := (clChannels c)[k := None]\<rparr>"
  have "client_inv ?c" using inv pend_other [OF inv_pend [OF inv]] by (auto simp: client_inv_def split: option.splits)
  moreover have "id_inv ?c" by (rule id_fewer [OF ids]) auto
  ultimately show ?thesis using Some by (auto simp: callReceive_def goodStep_def settled_def)
qed

lemma good_expire:
  assumes inv: "client_inv c" and ids: "id_inv c"
  shows "goodStep (ClExpire k rid) c (Some (callExpire k rid c))"
proof -
  note R = remove_inv [OF inv, of rid]
  let ?c1 = "removePending rid c"
  let ?c = "?c1\<lparr>clChannels := (clChannels ?c1)[k := None]\<rparr>"
  have "client_inv ?c" using R(1) pend_other [OF inv_pend [OF R(1)]] by (auto simp: client_inv_def split: option.splits)
  moreover have "id_inv ?c" using R by (intro id_fewer [OF ids]) auto
  ultimately show ?thesis using R by (auto simp: callExpire_def goodStep_def settled_def Let_def)
qed

lemma good_close:
  assumes inv: "client_inv c" and ids: "id_inv c"
  shows "goodStep ev c (clientClose c)"
proof (cases "clClosed c")
  case True
  then show ?thesis using good_view [OF inv ids refl refl] by (simp add: clientClose_def subset_insertI)
next
  case False
  let ?c = "c\<lparr>clClosed := True\<rparr>"
  have v: "reqView ?c = reqView c" by (simp add: reqView_def)
  obtain c' where d: "detachLocked (Some [CapError CapErrClosed]) ?c = Some c'" "client_inv c'" "kept ?c c'"
    using detached_inv [OF inv_view [OF inv v]] by blast
  let ?c' = "c'\<lparr>clCancelled := True\<rparr>"
  have v': "reqView ?c' = reqView c'" by (simp add: reqView_def)
  have "kept c ?c'" using kept_from [OF v d(3)] by (simp add: kept_def)
  moreover have "id_inv ?c'" using detach_ids [OF d(1)] by (intro id_fewer [OF ids]) auto
  ultimately show ?thesis using False d(1) detach_ids(1) [OF d(1)] inv_view [OF d(2) v'] kept_settled
    by (auto simp: clientClose_def goodStep_def)
qed

lemma good_run:
  assumes inv: "client_inv c" and ids: "id_inv c"
  shows "goodStep ev c (Some (snd (runBegin c)))"
  by (rule good_view [OF inv ids]) (auto simp: runBegin_def reqView_def)

lemma good_open:
  assumes inv: "client_inv c" and ids: "id_inv c"
  shows "goodStep ev c (runOpen fault c)"
proof (cases "clCancelled c")
  case True
  then show ?thesis using good_end [OF inv ids] by (simp add: runOpen_def)
next
  case F: False
  let ?c = "c\<lparr>clAttempt := clAttempt c + 1, clStage := ''connecting'', clLastError := None\<rparr>"
  have v: "reqView ?c = reqView c" by (simp add: reqView_def)
  have i: "id_inv ?c" by (rule id_fewer [OF ids]) auto
  show ?thesis
  proof (cases fault)
    case (Some e)
    then show ?thesis using good_over [OF inv_view [OF inv v] i v, of "Some e"] F by (simp add: runOpen_def)
  next
    case None
    have "goodStep ev c (Some (?c\<lparr>clPipeOpen := True, clStage := ''awaiting_hello'',
        clPc := PcHello (length (clWires ?c)), clWires := clWires ?c @ [[]]\<rparr>))"
      by (rule good_view [OF inv ids]) (auto simp: reqView_def)
    then show ?thesis using None F by (simp add: runOpen_def)
  qed
qed

lemma good_hello:
  assumes inv: "client_inv c" and ids: "id_inv c"
  shows "goodStep ev c (connectionHello n incoming c)"
proof -
  have "goodStep ev c (Some (c\<lparr>clStage := ''authenticating'', clPc := PcToken n token\<rparr>))" for token
    by (rule good_view [OF inv ids]) (auto simp: reqView_def)
  then show ?thesis using good_over [OF inv ids refl] by (simp add: connectionHello_def split: sum.split)
qed

lemma good_authenticated:
  assumes inv: "client_inv c" and ids: "id_inv c"
  shows "goodStep ev c (connectionAuthenticated n authID incoming c)"
proof -
  let ?c = "c\<lparr>clConn := Some n, clConnected := True, clStage := ''authenticated'', clLastError := None, clPc := PcReading n\<rparr>"
  have "client_inv ?c" using inv by (auto simp: client_inv_def split: option.splits)
  moreover have "id_inv ?c" by (rule id_fewer [OF ids]) auto
  ultimately have "goodStep ev c (Some ?c)" by (auto simp: goodStep_def settled_def)
  then show ?thesis using good_over [OF inv ids refl]
    by (auto simp: connectionAuthenticated_def split: sum.split prod.split)
qed

lemma client_step_good:
  assumes inv: "client_inv c" and ids: "id_inv c" and n: "unat (clNextID c) + 1 < 2 ^ 64"
  shows "goodStep ev c (clientStep c ev)"
proof -
  have same: "goodStep ev c (Some c)" using good_view [OF inv ids refl refl] by (simp add: subset_insertI)
  have flag: "goodStep ev c (Some (c\<lparr>clCancelled := True\<rparr>))" "goodStep ev c (Some (c\<lparr>clPc := PcConnecting\<rparr>))"
    by (rule good_view [OF inv ids]; auto simp: reqView_def)+
  show ?thesis
  proof (cases ev)
    case (ClRead onReply incoming)
    then show ?thesis using same good_hello [OF inv ids] good_authenticated [OF inv ids] good_read [OF inv ids]
      by (auto split: runPc.split)
  next
    case (ClToken outcome)
    then show ?thesis using same good_token [OF inv ids _ n] by (auto split: runPc.split)
  next
    case (ClCall operation body)
    then show ?thesis using same good_call [OF inv ids _ n] by auto
  next
    case (ClExpire k rid)
    then show ?thesis using same good_expire [OF inv ids] by auto
  qed (use same flag good_run [OF inv ids] good_open [OF inv ids] good_end [OF inv ids] good_write [OF inv ids]
      good_receive [OF inv ids] good_close [OF inv ids] in auto)
qed

lemma client_run_good:
  "client_inv c \<Longrightarrow> id_inv c \<Longrightarrow> unat (clNextID c) + length es < 2 ^ 64 \<Longrightarrow>
   \<exists>c'. clientRun c es = Some c' \<and> client_inv c' \<and> id_inv c' \<and> unat (clNextID c') \<le> unat (clNextID c) + length es"
proof (induction es arbitrary: c)
  case (Cons ev es)
  have "goodStep ev c (clientStep c ev)" using Cons.prems by (intro client_step_good) auto
  then obtain c1 where c1: "clientStep c ev = Some c1" "client_inv c1" "id_inv c1" "unat (clNextID c1) \<le> unat (clNextID c) + 1"
    by (auto simp: goodStep_def)
  have "unat (clNextID c1) + length es < 2 ^ 64" using c1(4) Cons.prems(3) by simp
  from Cons.IH [OF c1(2,3) this] show ?case using c1 by auto
qed simp

lemma new_client:
  assumes "newNamedPipeClient config = Inr c"
  shows "client_inv c" "id_inv c" "unat (clNextID c) = 1" "clHolder c = None" "clWires c = []"
    "NamedPipeClientConfig_normalized config = Inr (clConfig c)" "clWaits c = []" "clPc c = PcStopped"
  using assms by (auto simp: newNamedPipeClient_def client_inv_def id_inv_def wireBound_def split: sum.splits)

lemma normalized_refuses: "(if P then Inl e else x) = Inr c \<longleftrightarrow> \<not> P \<and> x = Inr c"
  "(case y of Inl e \<Rightarrow> Inl e | Inr z \<Rightarrow> f z) = Inr c \<longleftrightarrow> (\<exists>z. y = Inr z \<and> f z = Inr c)"
  by (simp, cases y, simp_all)

lemma normalized_limits:
  assumes "NamedPipeClientConfig_normalized config = Inr c"
  shows "0 < nccMaxPending c" "nccMaxPending c \<le> 128" "0 < ReconnectMin c" "ReconnectMin c \<le> ReconnectMax c"
    "ReconnectMax c \<le> 60 * time_Second" "0 < nccOperationTimeout c" "nccOperationTimeout c \<le> namedPipeMaxTimeout"
    "validNamedPipeName (nccName c)" "TrustedServerSHA256 c \<noteq> []"
proof -
  define od where "od x d = orDefault x d" for x d :: int
  have pos: "0 < od x d" if "0 < d" for x d using that by (simp add: od_def)
  have "validNamedPipeName (nccName c) \<and> TrustedServerSHA256 c \<noteq> [] \<and>
    nccOperationTimeout c \<le> namedPipeMaxTimeout \<and> ReconnectMin c \<le> ReconnectMax c \<and>
    ReconnectMax c \<le> 60 * time_Second \<and> nccMaxPending c \<le> 128 \<and>
    nccMaxPending c = od (nccMaxPending config) (int namedPipeWriteQueueSize) \<and>
    ReconnectMin c = od (ReconnectMin config) (100 * time_Millisecond) \<and>
    nccOperationTimeout c = od (nccOperationTimeout config) namedPipeDefaultTimeout"
    using assms unfolding NamedPipeClientConfig_normalized_def Let_def normalized_refuses od_def [symmetric]
    by (clarsimp simp: namedPipeWriteQueueSize_def)
  then show "0 < nccMaxPending c" "nccMaxPending c \<le> 128" "0 < ReconnectMin c" "ReconnectMin c \<le> ReconnectMax c"
    "ReconnectMax c \<le> 60 * time_Second" "0 < nccOperationTimeout c" "nccOperationTimeout c \<le> namedPipeMaxTimeout"
    "validNamedPipeName (nccName c)" "TrustedServerSHA256 c \<noteq> []"
    by (simp_all add: pos namedPipeWriteQueueSize_def namedPipeDefaultTimeout_def)
qed

end
