(* ===== verification/NamedPipe_Client_Props.thy ===== *)
theory NamedPipe_Client_Props
  imports NamedPipe_Client_Inv
begin

text \<open>
  Properties of the named pipe's client: no caller is forgotten, request numbers increase on the wire,
  and the delays between attempts to connect.
\<close>

section \<open>Delays\<close>

lemma next_backoff:
  assumes "0 < b" "b \<le> m"
  shows "b \<le> nextReconnectBackoff b m" "nextReconnectBackoff b m \<le> m"
  using assms by (auto simp: nextReconnectBackoff_def)

text \<open>
  The delays set in this run of \<open>Run\<close> never shrink, and the next one is at least the last: the branch
  that would reset it is never taken, since no connection ends without an error.
\<close>

definition delay_inv :: "namedPipeClient \<Rightarrow> bool" where
  "delay_inv c \<longleftrightarrow> 0 < ReconnectMin (clConfig c) \<and> ReconnectMin (clConfig c) \<le> ReconnectMax (clConfig c) \<and>
     sorted (clWaits c) \<and> (\<forall>d \<in> set (clWaits c). ReconnectMin (clConfig c) \<le> d \<and> d \<le> ReconnectMax (clConfig c)) \<and>
     (clPc c = PcStopped \<or> ReconnectMin (clConfig c) \<le> clBackoff c \<and> clBackoff c \<le> ReconnectMax (clConfig c) \<and>
       (\<forall>d \<in> set (clWaits c). d \<le> clBackoff c))"

definition delayView where "delayView c = (clConfig c, clWaits c, clBackoff c)"

lemma delay_keep:
  "delay_inv c \<Longrightarrow> clPc c \<noteq> PcStopped \<or> clPc c' = PcStopped \<Longrightarrow> delayView c' = delayView c \<Longrightarrow> delay_inv c'"
  by (auto simp: delay_inv_def delayView_def)

lemma detach_delay: "detachLocked err c = Some c' \<Longrightarrow> delayView c' = delayView c \<and> clPc c' = clPc c"
  using detach_ids by (simp add: delayView_def)

lemma delay_end: "delay_inv c \<Longrightarrow> runEnd c = Some c' \<Longrightarrow> delay_inv c'"
proof -
  assume d: "delay_inv c" "runEnd c = Some c'"
  have "delayView c' = delayView c" "clPc c' = PcStopped"
    using detach_delay [of _ "c\<lparr>clRunning := False, clPipeOpen := False, clStage := ''stopped'', clPc := PcStopped\<rparr>" c'] d(2)
    by (auto simp: runEnd_def delayView_def)
  then show ?thesis using delay_keep [OF d(1)] by blast
qed

lemma delay_over:
  assumes d: "delay_inv c" "clPc c \<noteq> PcStopped" and e: "err \<noteq> None" and o: "runAttemptOver err c = Some c'"
  shows "delay_inv c'"
proof (cases "clCancelled c")
  case True
  then show ?thesis using delay_end [OF d(1)] o by (simp add: runAttemptOver_def)
next
  case False
  then obtain c1 where c1: "detachLocked err (c\<lparr>clPipeOpen := False\<rparr>) = Some c1"
    using o by (auto simp: runAttemptOver_def split: option.splits)
  have v: "clConfig c1 = clConfig c" "clWaits c1 = clWaits c" "clBackoff c1 = clBackoff c"
    using detach_delay [OF c1] by (simp_all add: delayView_def)
  let ?b = "nextReconnectBackoff (clBackoff c) (ReconnectMax (clConfig c))"
  have b: "ReconnectMin (clConfig c) \<le> clBackoff c" "clBackoff c \<le> ReconnectMax (clConfig c)" "0 < ReconnectMin (clConfig c)"
    using d by (auto simp: delay_inv_def)
  have n: "clBackoff c \<le> ?b" "?b \<le> ReconnectMax (clConfig c)" using next_backoff b by (simp_all)
  have c': "clConfig c' = clConfig c" "clWaits c' = clWaits c @ [clBackoff c]" "clBackoff c' = ?b"
    using o c1 False e v by (auto simp: runAttemptOver_def Let_def)
  have s: "sorted (clWaits c @ [clBackoff c])" using d by (auto simp: delay_inv_def sorted_append)
  have "\<forall>x \<in> set (clWaits c @ [clBackoff c]). ReconnectMin (clConfig c) \<le> x \<and> x \<le> ReconnectMax (clConfig c) \<and> x \<le> ?b"
    using d b n by (force simp: delay_inv_def)
  then show ?thesis using d(1) s b n by (auto simp: delay_inv_def c')
qed

lemma delay_step:
  assumes d: "delay_inv c" and s: "clientStep c ev = Some c'"
  shows "delay_inv c'"
proof -
  have idle: "delay_inv c'" if "delayView c' = delayView c" "clPc c' = clPc c" for c'
    using delay_keep [OF d _ that(1)] that(2) by (cases "clPc c = PcStopped") auto
  have over: "delay_inv c'" if "runAttemptOver err c1 = Some c'" "delayView c1 = delayView c" "clPc c1 = clPc c"
      "clPc c \<noteq> PcStopped" "err \<noteq> None" for err c1
    using delay_over [OF idle [OF that(2,3)] _ that(5,1)] that(3,4) by simp
  have w: "delayView c1 = delayView c2 \<and> clPc c1 = clPc c2" if "clientWriteFrame out n f c2 = (e, c1)" for out n f e c1 c2
    using that by (auto simp: clientWriteFrame_def delayView_def split: clientWrite.splits sum.splits)
  have rem: "delayView (removePending rid c1) = delayView c1" "clPc (removePending rid c1) = clPc c1" for rid c1
    by (auto simp: removePending_def delayView_def split: option.split)
  have res: "delayView c2 = delayView c1 \<and> clPc c2 = clPc c1" if "readConnectionFrame onReply f c1 = Some (x, c2)" for onReply f c1 c2 x
    using that by (auto simp: readConnectionFrame_def resolveRequest_def channelSend_def delayView_def
        split: if_splits sum.splits option.splits)
  show ?thesis
  proof (cases ev)
    case ClRun
    show ?thesis using d s ClRun by (auto simp: runBegin_def delay_inv_def split: if_splits)
  next
    case ClCancel
    then show ?thesis using s idle by (auto simp: delayView_def)
  next
    case (ClOpen fault)
    show ?thesis
    proof (cases "clPc c = PcConnecting \<and> \<not> clCancelled c")
      case True
      let ?c = "c\<lparr>clAttempt := clAttempt c + 1, clStage := ''connecting'', clLastError := None\<rparr>"
      show ?thesis
      proof (cases fault)
        case (Some e)
        then show ?thesis using over [of "Some e" ?c] s ClOpen True by (simp add: runOpen_def delayView_def)
      next
        case None
        then show ?thesis using delay_keep [OF d, of c'] s ClOpen True by (auto simp: runOpen_def delayView_def)
      qed
    next
      case False
      then show ?thesis using s ClOpen d delay_end [OF d] by (auto simp: runOpen_def split: if_splits)
    qed
  next
    case (ClRead onReply incoming)
    show ?thesis
    proof (cases "clPc c")
      case (PcHello n)
      then show ?thesis using s ClRead over [OF _ refl refl] delay_keep [OF d, of c']
        by (auto simp: connectionHello_def delayView_def split: sum.splits if_splits)
    next
      case (PcAuthenticating n a)
      then show ?thesis using s ClRead over [OF _ refl refl] delay_keep [OF d, of c']
        by (auto simp: connectionAuthenticated_def delayView_def split: sum.splits if_splits prod.splits)
    next
      case (PcReading n)
      show ?thesis
      proof (cases incoming)
        case (Inl e)
        then show ?thesis using s ClRead PcReading over [OF _ refl refl] by (simp add: connectionRead_def)
      next
        case (Inr f)
        obtain x c1 where r: "readConnectionFrame onReply f c = Some (x, c1)"
          using s ClRead PcReading Inr by (auto simp: connectionRead_def split: option.splits)
        show ?thesis using s ClRead PcReading Inr r res [OF r] idle over [of x c1]
          by (cases x) (auto simp: connectionRead_def)
      qed
    qed (use s ClRead d in auto)
  next
    case (ClToken outcome)
    show ?thesis
    proof (cases "\<exists>n t. clPc c = PcToken n t \<and> clHolder c = None")
      case True
      then obtain n t where pc: "clPc c = PcToken n t" "clHolder c = None" by blast
      obtain a c1 where a: "allocateRequestID c = (a, c1)" by force
      obtain e c2 where wr: "clientWriteFrame outcome n \<lparr>frType = pipeMessageAuthenticate, frPayload = put_u64 a @ t\<rparr> c1 = (e, c2)" by force
      have v: "delayView c2 = delayView c" "clPc c2 = clPc c" using w [OF wr] a
        by (auto simp: allocateRequestID_def Let_def delayView_def)
      show ?thesis
      proof (cases e)
        case (Some err)
        then show ?thesis using over [of "Some err" c2] s ClToken pc a wr v by (simp add: connectionAuthenticate_def)
      next
        case None
        then show ?thesis using delay_keep [OF d, of c'] s ClToken pc a wr v
          by (auto simp: connectionAuthenticate_def delayView_def)
      qed
    qed (use s ClToken d in \<open>auto split: runPc.splits if_splits\<close>)
  next
    case ClTimer
    then show ?thesis using s d delay_end [OF d] delay_keep [OF d, of c'] by (auto simp: delayView_def split: if_splits)
  next
    case (ClCall operation body)
    then show ?thesis using s d idle
      by (auto simp: callBegin_def allocateRequestID_def Let_def delayView_def split: if_splits option.splits)
  next
    case (ClWrite outcome)
    show ?thesis
    proof (cases "clHolder c")
      case (Some h)
      obtain e c1 where wr: "clientWriteFrame outcome (chConn h) \<lparr>frType = chOperation h, frPayload = put_u64 (chRequest h) @ chBody h\<rparr> c = (e, c1)"
        by force
      have "delayView c' = delayView c" "clPc c' = clPc c"
        using s ClWrite Some wr w [OF wr] rem by (auto simp: callWrite_def Let_def delayView_def split: if_splits)
      then show ?thesis by (rule idle)
    qed (use s ClWrite d in \<open>simp add: callWrite_def\<close>)
  next
    case (ClReceive k operation)
    then show ?thesis using s d idle by (auto simp: callReceive_def delayView_def split: if_splits option.splits)
  next
    case (ClExpire k rid)
    then show ?thesis using s d rem idle by (auto simp: callExpire_def Let_def delayView_def split: if_splits)
  next
    case ClClose
    show ?thesis
    proof (cases "clClosed c")
      case False
      then obtain c1 where c1: "detachLocked (Some [CapError CapErrClosed]) (c\<lparr>clClosed := True\<rparr>) = Some c1"
        "c' = c1\<lparr>clCancelled := True\<rparr>" using s ClClose by (auto simp: clientClose_def)
      show ?thesis using detach_delay [OF c1(1)] c1(2) idle by (simp add: delayView_def)
    qed (use s ClClose d in \<open>simp add: clientClose_def\<close>)
  qed
qed

lemma delay_run: "delay_inv c \<Longrightarrow> clientRun c es = Some c' \<Longrightarrow> delay_inv c'"
  by (induction es arbitrary: c) (auto split: option.splits dest: delay_step)

lemma new_delay: "newNamedPipeClient config = Inr c \<Longrightarrow> delay_inv c"
  using new_client [of config c] normalized_limits by (simp add: delay_inv_def)

section \<open>Properties\<close>

text \<open>
  C16. No caller of the client is forgotten. From a new client, for any events of its goroutines in any
  order, fewer than \<open>2^64 - 2\<close> of them: no step blocks on a full response channel while it holds the client's mutex; the requests that
  wait are never more than the configured limit, nor than 128, and none while there is no connection;
  and whatever the next event, every request that waits either waits on, or finds in its channel the
  answer just read under its number or an error, or was given up by its own caller. So a connection
  that is lost, closed or shut down leaves nobody waiting.
\<close>

theorem client_no_lost_call:
  assumes "newNamedPipeClient config = Inr c0" and "length es < 2 ^ 64 - 2"
  shows "\<exists>c c'. clientRun c0 es = Some c \<and> clientStep c ev = Some c' \<and>
    int (length (clPending c)) \<le> max 0 (nccMaxPending (clConfig c)) \<and>
    (clConn c = None \<longrightarrow> clPending c = []) \<and> (\<forall>x \<in> set (clPending c). settled ev c c' x)"
proof -
  note N = new_client [OF assms(1)]
  obtain c where c: "clientRun c0 es = Some c" "client_inv c" "id_inv c" "unat (clNextID c) \<le> unat (clNextID c0) + length es"
    using client_run_good [OF N(1,2), of es] assms(2) N(3) by auto
  have "unat (clNextID c) + 1 < 2 ^ 64" using c(4) N(3) assms(2) by simp
  from client_step_good [OF c(2,3) this, of ev] show ?thesis using c(1,2)
    by (auto simp: goodStep_def client_inv_def)
qed

text \<open>
  Request numbers increase on every connection. For any interleaving of calls, answers, timeouts,
  reconnects and failed writes, with fewer than 2^64 - 2 events, the numbers of the requests put on any
  one connection, the authentication first, are positive and strictly increasing: the core's check on
  them, which would end the connection, never refuses an honest client.
\<close>

theorem client_request_numbers_increase:
  assumes "newNamedPipeClient config = Inr c0" and "length es < 2 ^ 64 - 2"
  shows "\<exists>c. clientRun c0 es = Some c \<and> (\<forall>w \<in> set (clWires c). sorted_wrt (<) (0 # map itemID w))"
proof -
  note N = new_client [OF assms(1)]
  obtain c where c: "clientRun c0 es = Some c" "id_inv c"
    using client_run_good [OF N(1,2), of es] assms(2) N(3) by auto
  then show ?thesis by (auto simp: id_inv_def wire_ok_def)
qed

text \<open>
  Delays between attempts. In every run of the client the delays it waits before connecting again
  start at the configured minimum, never shrink and never exceed the configured maximum, itself at most
  a minute. They never shrink even after a connection that was authenticated and served for long: no
  connection ends without an error, so the branch that would go back to the minimum is never taken.
\<close>

theorem client_delays_bounded:
  assumes "newNamedPipeClient config = Inr c0" and "clientRun c0 es = Some c"
  shows "sorted (clWaits c) \<and> (\<forall>d \<in> set (clWaits c). ReconnectMin (clConfig c) \<le> d \<and> d \<le> ReconnectMax (clConfig c)) \<and>
    0 < ReconnectMin (clConfig c)"
  using delay_run [OF new_delay [OF assms(1)] assms(2)] by (simp add: delay_inv_def)

text \<open>A client of the default limits.\<close>

definition demo_client_config :: NamedPipeClientConfig where
  "demo_client_config = \<lparr>nccName = pipeNamePrefix @ ''core'', ServerSIDs = [''S-1-5-18''], MinimumServerIntegrityRID = 0,
     TrustedServerBinary = ''tachyon-core.exe'', TrustedServerSHA256 = replicate 64 (CHR ''a''),
     nccOperationTimeout = 0, ReconnectMin = 0, ReconnectMax = 0, nccMaxPending = 0\<rparr>"

lemma demo_client:
  obtains c0 where "newNamedPipeClient demo_client_config = Inr c0"
proof -
  have "isl (NamedPipeClientConfig_normalized demo_client_config) = False" by code_simp
  then show ?thesis using that
    by (cases "NamedPipeClientConfig_normalized demo_client_config") (auto simp: newNamedPipeClient_def)
qed

definition demo_client_events :: "clientEvent list" where
  "demo_client_events = [ClRun, ClOpen None, ClRead (\<lambda>_. None) (Inr \<lparr>frType = pipeMessageHello, frPayload = replicate 32 2\<rparr>),
     ClToken CwDone, ClRead (\<lambda>_. None) (Inr (namedPipeResponse 1 pipeMessageAuthenticate 0 [])),
     ClCall pipeMessageDisableGeneration (put_u64 1), ClWrite CwDone]"

lemma demo_client_reaches:
  assumes "newNamedPipeClient demo_client_config = Inr c0"
  obtains c where "clientRun c0 demo_client_events = Some c" "clPending c = [(2, 0)]" "clPc c = PcReading 0"
    "length (clWires c) = 1"
proof -
  note N = new_client [OF assms]
  have L: "0 < nccMaxPending (clConfig c0)" using normalized_limits N(6) by blast
  have r: "decodePipeResponse (namedPipeResponse 1 pipeMessageAuthenticate 0 []) = Inr (1, pipeMessageAuthenticate, 0, [])"
    by (rule decode_response) (simp_all add: messageType_valid_def)
  have m: "\<exists>w. marshalNamedPipeFrame \<lparr>frType = t, frPayload = put_u64 x @ b\<rparr> = Inr w" if "messageType_valid t" "length b \<le> 1000" for t x b
    using that by (simp add: marshal_iff wf_frame_def pipe_consts)
  obtain w1 where m1: "marshalNamedPipeFrame \<lparr>frType = pipeMessageAuthenticate, frPayload = put_u64 1 @ replicate 32 2\<rparr> = Inr w1"
    using m [of pipeMessageAuthenticate "replicate 32 2" 1] by (auto simp: messageType_valid_def)
  obtain w2 where m2: "marshalNamedPipeFrame \<lparr>frType = pipeMessageDisableGeneration, frPayload = put_u64 2 @ put_u64 1\<rparr> = Inr w2"
    using m [of pipeMessageDisableGeneration "put_u64 1" 2] by (auto simp: messageType_valid_def)
  have z: "clClosed c0 = False" "clRunning c0 = False" "clNextID c0 = 1" "clPending c0 = []" "clChannels c0 = []" "clConn c0 = None"
    using assms by (auto simp: newNamedPipeClient_def split: sum.splits)
  have "\<exists>c. clientRun c0 demo_client_events = Some c \<and> clPending c = [(2, 0)] \<and> clPc c = PcReading 0 \<and> length (clWires c) = 1"
    using L N(4,5) z
    by (simp add: demo_client_events_def runBegin_def runOpen_def connectionHello_def SessionTokenSize_def
        connectionAuthenticate_def allocateRequestID_def clientWriteFrame_def m1 m2 connectionAuthenticated_def r
        callBegin_def callWrite_def Let_def gm_set_def)
  then show ?thesis using that by blast
qed

theorem client_no_lost_call_witness:
  "\<exists>c0 c c'. newNamedPipeClient demo_client_config = Inr c0 \<and> clientRun c0 demo_client_events = Some c \<and>
     clPending c = [(2, 0)] \<and> clientStep c (ClRead (\<lambda>_. None) (Inl [IoEOF])) = Some c' \<and>
     ((2, 0) \<in> set (clPending c') \<or> (\<exists>m. clChannels c' ! 0 = Some m \<and> crErr m \<noteq> None))"
proof -
  obtain c0 where c0: "newNamedPipeClient demo_client_config = Inr c0" by (rule demo_client)
  obtain c where c: "clientRun c0 demo_client_events = Some c" "clPending c = [(2, 0)]" by (rule demo_client_reaches [OF c0])
  have "length demo_client_events < 2 ^ 64 - 2" by (simp add: demo_client_events_def)
  from client_no_lost_call [OF c0 this, of "ClRead (\<lambda>_. None) (Inl [IoEOF])"] c c0 show ?thesis
    by (auto simp: settled_def)
qed

theorem client_request_numbers_increase_witness:
  "\<exists>c0 c. newNamedPipeClient demo_client_config = Inr c0 \<and> clientRun c0 demo_client_events = Some c \<and>
     length (clWires c) = 1 \<and> sorted_wrt (<) (0 # map itemID (clWires c ! 0))"
proof -
  obtain c0 where c0: "newNamedPipeClient demo_client_config = Inr c0" by (rule demo_client)
  obtain c where c: "clientRun c0 demo_client_events = Some c" "length (clWires c) = 1" by (rule demo_client_reaches [OF c0])
  have "length demo_client_events < 2 ^ 64 - 2" by (simp add: demo_client_events_def)
  from client_request_numbers_increase [OF c0 this] c c0 show ?thesis by force
qed

theorem client_delays_bounded_witness:
  "\<exists>c0 c. newNamedPipeClient demo_client_config = Inr c0 \<and>
     clientRun c0 [ClRun, ClOpen (Some [IoEOF]), ClTimer, ClOpen (Some [IoEOF])] = Some c \<and>
     length (clWaits c) = 2 \<and> clWaits c ! 0 \<le> clWaits c ! 1"
proof -
  obtain c0 where c0: "newNamedPipeClient demo_client_config = Inr c0" by (rule demo_client)
  have z: "clClosed c0 = False" "clRunning c0 = False" "clPending c0 = []" "clCancelled c0 = False"
    using c0 by (auto simp: newNamedPipeClient_def split: sum.splits)
  obtain c where c: "clientRun c0 [ClRun, ClOpen (Some [IoEOF]), ClTimer, ClOpen (Some [IoEOF])] = Some c" "length (clWaits c) = 2"
    using z by (simp add: runBegin_def runOpen_def runAttemptOver_def detachLocked_def Let_def)
  have "sorted (clWaits c)" using client_delays_bounded [OF c0 c(1)] by blast
  then have "clWaits c ! 0 \<le> clWaits c ! 1" using c(2) by (simp add: sorted_nth_mono)
  then show ?thesis using c0 c by blast
qed

section \<open>Where the client trusts too much\<close>

text \<open>
  An answer to another operation is taken for success: when the operation in a response is not the one
  that was called and the status is OK, \<open>namedPipeStatusError\<close> makes no error of it.
\<close>

theorem mismatched_answer_accepted:
  assumes "answered \<noteq> called"
  shows "callResult called \<lparr>crOperation = answered, crStatus = pipeStatusOK, crData = data, crErr = None\<rparr> = Inr []"
  using assms by (simp add: callResult_def namedPipeStatusError_def)

text \<open>
  After a write that failed, perhaps in the middle of its frame, the client keeps the connection: the
  next call writes its frame behind the torn one.
\<close>

theorem failed_write_keeps_connection:
  assumes h: "clHolder c = Some h" and n: "chConn h < length (clWires c)"
    and m: "marshalNamedPipeFrame \<lparr>frType = chOperation h, frPayload = put_u64 (chRequest h) @ chBody h\<rparr> = Inr w"
  shows "let c' = snd (callWrite (CwFault e) c) in clConn c' = clConn c \<and> clPc c' = clPc c \<and>
    clWires c' ! chConn h = clWires c ! chConn h @
      [Torn \<lparr>frType = chOperation h, frPayload = put_u64 (chRequest h) @ chBody h\<rparr>]"
  using assms by (simp add: callWrite_def clientWriteFrame_def Let_def removePending_def split: option.split)

end
