(* ===== verification/Capture.thy ===== *)
theory Capture
  imports NamedPipe
begin

text \<open>
  The contract with the capture driver (\<open>internal/helper/capture.go\<close>): the little-endian messages
  between helper and driver, their validation, and the contract a capture provider has to state exactly
  (\<open>ValidateCaptureProviderContract\<close> of \<open>runtime.go\<close>). A codec writes into a fresh buffer, which is
  the concatenation of its fields here; the limit on a message is a \<open>uint32\<close>, and lengths are converted
  to it with Go's wrap-around.
\<close>

section \<open>Little-endian encodings\<close>

text \<open>\<open>binary.LittleEndian\<close>: the bytes of the big-endian encoding in reverse.\<close>

definition le_bytes :: "nat \<Rightarrow> 'a::len word \<Rightarrow> bytes" where
  "le_bytes n w = rev (be_bytes n w)"

definition le_word :: "bytes \<Rightarrow> 'a::len word" where
  "le_word bs = be_word (rev bs)"

section \<open>Constants\<close>

definition WFPDriverContractVersion :: string where "WFPDriverContractVersion = ''tachyon-wfp-callout-v1''"
definition WFPDriverABIVersion :: u16 where "WFPDriverABIVersion = 1"
definition WFPDriverContractID :: u32 where "WFPDriverContractID = 0x54414348"
definition WFPMaxMessageSize :: u32 where "WFPMaxMessageSize = push_bit 10 64"
definition WFPKindHandshake :: u16 where "WFPKindHandshake = 1"
definition WFPKindFlow :: u16 where "WFPKindFlow = 2"
definition WFPKindDatagram :: u16 where "WFPKindDatagram = 3"

text \<open>The flags count on from the constants above them in the block: \<open>iota\<close> is 8 at the first.\<close>

definition WFPFlagFlowCapture :: u64 where "WFPFlagFlowCapture = push_bit 8 1"
definition WFPFlagDatagramCapture :: u64 where "WFPFlagDatagramCapture = push_bit 9 1"
definition WFPFlagProcessIdentity :: u64 where "WFPFlagProcessIdentity = push_bit 10 1"
definition WFPFlagKernelInjection :: u64 where "WFPFlagKernelInjection = push_bit 11 1"
definition WFPFlagCancelable :: u64 where "WFPFlagCancelable = push_bit 12 1"

definition WFPABIHeaderWireSize :: nat where "WFPABIHeaderWireSize = 16"
definition WFPHandshakeWireSize :: nat where "WFPHandshakeWireSize = 36"
definition WFPFlowIdentityWireSize :: nat where "WFPFlowIdentityWireSize = 84"
definition WFPDatagramHeaderWireSize :: nat where "WFPDatagramHeaderWireSize = 56"

definition WFPRequiredCapabilityMask :: u64 where
  "WFPRequiredCapabilityMask =
     WFPFlagFlowCapture OR WFPFlagDatagramCapture OR WFPFlagProcessIdentity OR WFPFlagKernelInjection OR
     WFPFlagCancelable"

section \<open>Data\<close>

datatype wfp_error =
    WfpContractMismatch | WfpContractIncomplete | WfpDuplicateIOCTL | WfpContractBounds
  | WfpContractCapabilities | WfpHandshakeHeader | WfpHandshakeContract | WfpMessageHeader
  | WfpHandshakeLength | WfpHandshakeSize | WfpDatagramMessage | WfpDatagramLength | WfpDatagramHeader
  | WfpPayloadSize | WfpFlowIdentity | WfpFlowLength | WfpFlowHeader | WfpHeaderLength

record CaptureCapabilities =
  FlowCapture :: bool
  DatagramCapture :: bool
  ProcessIdentity :: bool
  PerFlowMTU :: bool
  Cancelable :: bool
  KernelInjection :: bool
  MultipathMetadata :: bool

record WFPDriverContract =
  wcVersion :: string
  wcABIVersion :: u16
  wcContractID :: u32
  DevicePath :: string
  CaptureIOCTL :: u32
  InjectIOCTL :: u32
  GetCapabilitiesIOCTL :: u32
  CancelIOCTL :: u32
  wcMaxMTU :: u32
  wcMaxMessageSize :: u32
  SupportsCancel :: bool
  DynamicSession :: bool
  StopCleansDynamicState :: bool
  wcCapabilities :: CaptureCapabilities

record WFPABIHeader =
  hdSize :: u32
  hdVersion :: u16
  hdKind :: u16
  hdRequestID :: u64

record WFPDriverHandshake =
  hsHeader :: WFPABIHeader
  hsContractID :: u32
  hsCapabilities :: u64
  hsMaxMTU :: u32
  hsReserved :: u32

record WFPFlowIdentityABI =
  fiHeader :: WFPABIHeader
  fiFlowID :: bytes
  fiGeneration :: u64
  fiPID :: u32
  fiProtocol :: byte
  fiAddressFamily :: byte
  fiReserved :: u16
  fiLocalIP :: bytes
  fiRemoteIP :: bytes
  fiLocalPort :: u16
  fiRemotePort :: u16

record WFPDatagramMessage =
  dmRequestID :: u64
  dmFlowID :: bytes
  dmGeneration :: u64
  dmSequence :: u64
  dmPayload :: bytes

section \<open>Validation\<close>

fun duplicateIOCTL :: "u32 list \<Rightarrow> bool" where
  "duplicateIOCTL [] = False"
| "duplicateIOCTL (ioctl # others) = (list_ex (\<lambda>other. ioctl = other) others \<or> duplicateIOCTL others)"

definition contractValidate :: "WFPDriverContract \<Rightarrow> wfp_error option" where
  "contractValidate c =
     (if wcVersion c \<noteq> WFPDriverContractVersion \<or> wcABIVersion c \<noteq> WFPDriverABIVersion \<or>
         wcContractID c \<noteq> WFPDriverContractID then Some WfpContractMismatch
      else if DevicePath c = [] \<or> CaptureIOCTL c = 0 \<or> InjectIOCTL c = 0 \<or> GetCapabilitiesIOCTL c = 0 \<or>
         CancelIOCTL c = 0 then Some WfpContractIncomplete
      else if duplicateIOCTL [CaptureIOCTL c, InjectIOCTL c, GetCapabilitiesIOCTL c, CancelIOCTL c]
      then Some WfpDuplicateIOCTL
      else if wcMaxMTU c < 576 \<or> wcMaxMTU c > 65535 \<or>
         wcMaxMessageSize c < of_nat WFPDatagramHeaderWireSize \<or> wcMaxMessageSize c > WFPMaxMessageSize
      then Some WfpContractBounds
      else if \<not> SupportsCancel c \<or> \<not> DynamicSession c \<or> \<not> StopCleansDynamicState c \<or>
         \<not> Cancelable (wcCapabilities c) \<or> \<not> FlowCapture (wcCapabilities c) \<or>
         \<not> DatagramCapture (wcCapabilities c) \<or> \<not> ProcessIdentity (wcCapabilities c) \<or>
         \<not> PerFlowMTU (wcCapabilities c) \<or> \<not> KernelInjection (wcCapabilities c)
      then Some WfpContractCapabilities
      else None)"

definition RequiredWFPDriverContract :: WFPDriverContract where
  "RequiredWFPDriverContract =
     \<lparr>wcVersion = WFPDriverContractVersion, wcABIVersion = WFPDriverABIVersion,
      wcContractID = WFPDriverContractID,
      DevicePath = [char_of (92::nat), char_of (92::nat), CHR ''.'', char_of (92::nat)] @ ''TachyonWFP'',
      CaptureIOCTL = 0x00222000, InjectIOCTL = 0x00222004, GetCapabilitiesIOCTL = 0x00222008,
      CancelIOCTL = 0x0022200c, wcMaxMTU = 1500, wcMaxMessageSize = WFPMaxMessageSize,
      SupportsCancel = True, DynamicSession = True, StopCleansDynamicState = True,
      wcCapabilities = \<lparr>FlowCapture = True, DatagramCapture = True, ProcessIdentity = True,
        PerFlowMTU = True, Cancelable = True, KernelInjection = True, MultipathMetadata = False\<rparr>\<rparr>"

text \<open>\<open>ValidateCaptureProviderContract\<close>: the contract of a provider, \<open>None\<close> for a nil provider.\<close>

definition ValidateCaptureProviderContract :: "WFPDriverContract option \<Rightarrow> bool" where
  "ValidateCaptureProviderContract provider =
     (case provider of
        None \<Rightarrow> False
      | Some a \<Rightarrow>
          if contractValidate a \<noteq> None then False
          else
            let e = RequiredWFPDriverContract
            in \<not> (wcVersion a \<noteq> wcVersion e \<or> wcABIVersion a \<noteq> wcABIVersion e \<or>
                  wcContractID a \<noteq> wcContractID e \<or> DevicePath a \<noteq> DevicePath e \<or>
                  CaptureIOCTL a \<noteq> CaptureIOCTL e \<or> InjectIOCTL a \<noteq> InjectIOCTL e \<or>
                  GetCapabilitiesIOCTL a \<noteq> GetCapabilitiesIOCTL e \<or> CancelIOCTL a \<noteq> CancelIOCTL e \<or>
                  wcMaxMTU a \<noteq> wcMaxMTU e \<or> wcMaxMessageSize a \<noteq> wcMaxMessageSize e \<or>
                  SupportsCancel a \<noteq> SupportsCancel e \<or> DynamicSession a \<noteq> DynamicSession e \<or>
                  StopCleansDynamicState a \<noteq> StopCleansDynamicState e \<or>
                  wcCapabilities a \<noteq> wcCapabilities e))"

definition handshakeValidate :: "u32 \<Rightarrow> WFPDriverHandshake \<Rightarrow> wfp_error option" where
  "handshakeValidate maxMessageSize h =
     (if hdKind (hsHeader h) \<noteq> WFPKindHandshake \<or> hdVersion (hsHeader h) \<noteq> WFPDriverABIVersion \<or>
         hdSize (hsHeader h) \<noteq> of_nat WFPHandshakeWireSize \<or> hdSize (hsHeader h) > maxMessageSize \<or>
         hdRequestID (hsHeader h) = 0 then Some WfpHandshakeHeader
      else if hsContractID h \<noteq> WFPDriverContractID \<or>
         hsCapabilities h AND WFPRequiredCapabilityMask \<noteq> WFPRequiredCapabilityMask \<or>
         hsMaxMTU h < 576 \<or> hsMaxMTU h > 65535 then Some WfpHandshakeContract
      else None)"

definition ValidateWFPMessageHeader :: "WFPABIHeader \<Rightarrow> u16 \<Rightarrow> u32 \<Rightarrow> wfp_error option" where
  "ValidateWFPMessageHeader header expectedKind maxMessageSize =
     (if maxMessageSize < of_nat WFPABIHeaderWireSize \<or> maxMessageSize > WFPMaxMessageSize \<or>
         hdSize header < of_nat WFPABIHeaderWireSize \<or> hdSize header > maxMessageSize \<or>
         hdVersion header \<noteq> WFPDriverABIVersion \<or> hdKind header \<noteq> expectedKind \<or> hdRequestID header = 0
      then Some WfpMessageHeader else None)"

section \<open>Messages\<close>

definition encodeWFPABIHeader :: "WFPABIHeader \<Rightarrow> bytes" where
  "encodeWFPABIHeader header =
     le_bytes 4 (hdSize header) @ le_bytes 2 (hdVersion header) @ le_bytes 2 (hdKind header) @
     le_bytes 8 (hdRequestID header)"

definition decodeWFPABIHeader :: "bytes \<Rightarrow> wfp_error + WFPABIHeader" where
  "decodeWFPABIHeader data =
     (if length data \<noteq> WFPABIHeaderWireSize then Inl WfpHeaderLength
      else Inr \<lparr>hdSize = le_word (gslice 0 4 data), hdVersion = le_word (gslice 4 6 data),
                hdKind = le_word (gslice 6 8 data), hdRequestID = le_word (gslice 8 16 data)\<rparr>)"

definition MarshalWFPDriverHandshake :: "u32 \<Rightarrow> WFPDriverHandshake \<Rightarrow> wfp_error + bytes" where
  "MarshalWFPDriverHandshake maxMessageSize h =
     (let h = h\<lparr>hsHeader := (hsHeader h)\<lparr>hdSize := of_nat WFPHandshakeWireSize\<rparr>\<rparr>
      in case handshakeValidate maxMessageSize h of
           Some e \<Rightarrow> Inl e
         | None \<Rightarrow> Inr (encodeWFPABIHeader (hsHeader h) @ le_bytes 4 (hsContractID h) @
             le_bytes 8 (hsCapabilities h) @ le_bytes 4 (hsMaxMTU h) @ le_bytes 4 (hsReserved h)))"

definition UnmarshalWFPDriverHandshake :: "u32 \<Rightarrow> bytes \<Rightarrow> wfp_error + WFPDriverHandshake" where
  "UnmarshalWFPDriverHandshake maxMessageSize data =
     (if length data \<noteq> WFPHandshakeWireSize then Inl WfpHandshakeLength
      else case decodeWFPABIHeader (gslice 0 16 data) of
        Inl e \<Rightarrow> Inl e
      | Inr header \<Rightarrow>
          (case ValidateWFPMessageHeader header WFPKindHandshake maxMessageSize of
             Some e \<Rightarrow> Inl e
           | None \<Rightarrow>
               if hdSize header \<noteq> of_nat WFPHandshakeWireSize then Inl WfpHandshakeSize
               else
                 let h = \<lparr>hsHeader = header, hsContractID = le_word (gslice 16 20 data),
                          hsCapabilities = le_word (gslice 20 28 data), hsMaxMTU = le_word (gslice 28 32 data),
                          hsReserved = le_word (gslice 32 36 data)\<rparr>
                 in case handshakeValidate maxMessageSize h of Some e \<Rightarrow> Inl e | None \<Rightarrow> Inr h))"

definition MarshalWFPDatagram :: "u32 \<Rightarrow> WFPDatagramMessage \<Rightarrow> wfp_error + bytes" where
  "MarshalWFPDatagram maxMessageSize m =
     (if dmRequestID m = 0 \<or> of_nat (WFPDatagramHeaderWireSize + length (dmPayload m)) > maxMessageSize \<or>
         maxMessageSize > WFPMaxMessageSize then Inl WfpDatagramMessage
      else Inr (encodeWFPABIHeader
                  \<lparr>hdSize = of_nat (WFPDatagramHeaderWireSize + length (dmPayload m)),
                   hdVersion = WFPDriverABIVersion, hdKind = WFPKindDatagram, hdRequestID = dmRequestID m\<rparr> @
                dmFlowID m @ le_bytes 8 (dmGeneration m) @ le_bytes 8 (dmSequence m) @
                le_bytes 4 (of_nat (length (dmPayload m)) :: u32) @ zeros 4 @ dmPayload m))"

definition UnmarshalWFPDatagram :: "u32 \<Rightarrow> bytes \<Rightarrow> wfp_error + WFPDatagramMessage" where
  "UnmarshalWFPDatagram maxMessageSize data =
     (if length data < WFPDatagramHeaderWireSize \<or> of_nat (length data) > maxMessageSize
      then Inl WfpDatagramLength
      else case decodeWFPABIHeader (gslice 0 16 data) of
        Inl e \<Rightarrow> Inl e
      | Inr header \<Rightarrow>
          (case ValidateWFPMessageHeader header WFPKindDatagram maxMessageSize of
             Some e \<Rightarrow> Inl e
           | None \<Rightarrow>
               if hdSize header \<noteq> of_nat (length data) then Inl WfpDatagramHeader
               else if (le_word (gslice 48 52 data) :: u32) \<noteq> of_nat (length data - WFPDatagramHeaderWireSize)
               then Inl WfpPayloadSize
               else Inr \<lparr>dmRequestID = hdRequestID header, dmFlowID = gslice 16 32 data,
                         dmGeneration = le_word (gslice 32 40 data), dmSequence = le_word (gslice 40 48 data),
                         dmPayload = drop 56 data\<rparr>))"

definition MarshalWFPFlowIdentity :: "u32 \<Rightarrow> WFPFlowIdentityABI \<Rightarrow> wfp_error + bytes" where
  "MarshalWFPFlowIdentity maxMessageSize i =
     (let i = i\<lparr>fiHeader := (fiHeader i)\<lparr>hdSize := of_nat WFPFlowIdentityWireSize\<rparr>\<rparr>
      in if hdKind (fiHeader i) \<noteq> WFPKindFlow \<or> hdVersion (fiHeader i) \<noteq> WFPDriverABIVersion \<or>
            hdRequestID (fiHeader i) = 0 \<or> of_nat WFPFlowIdentityWireSize > maxMessageSize
         then Inl WfpFlowIdentity
         else Inr (encodeWFPABIHeader (fiHeader i) @ fiFlowID i @ le_bytes 8 (fiGeneration i) @
             le_bytes 4 (fiPID i) @ [fiProtocol i, fiAddressFamily i] @ le_bytes 2 (fiReserved i) @
             fiLocalIP i @ fiRemoteIP i @ le_bytes 2 (fiLocalPort i) @ le_bytes 2 (fiRemotePort i)))"

definition UnmarshalWFPFlowIdentity :: "u32 \<Rightarrow> bytes \<Rightarrow> wfp_error + WFPFlowIdentityABI" where
  "UnmarshalWFPFlowIdentity maxMessageSize data =
     (if length data \<noteq> WFPFlowIdentityWireSize \<or> of_nat (length data) > maxMessageSize then Inl WfpFlowLength
      else case decodeWFPABIHeader (gslice 0 16 data) of
        Inl e \<Rightarrow> Inl e
      | Inr header \<Rightarrow>
          (case ValidateWFPMessageHeader header WFPKindFlow maxMessageSize of
             Some e \<Rightarrow> Inl e
           | None \<Rightarrow>
               if hdSize header \<noteq> of_nat WFPFlowIdentityWireSize then Inl WfpFlowHeader
               else Inr \<lparr>fiHeader = header, fiFlowID = gslice 16 32 data,
                         fiGeneration = le_word (gslice 32 40 data), fiPID = le_word (gslice 40 44 data),
                         fiProtocol = data ! 44, fiAddressFamily = data ! 45,
                         fiReserved = le_word (gslice 46 48 data), fiLocalIP = gslice 48 64 data,
                         fiRemoteIP = gslice 64 80 data, fiLocalPort = le_word (gslice 80 82 data),
                         fiRemotePort = le_word (gslice 82 84 data)\<rparr>))"

end
