(* ===== verification/Capture_Props.thy ===== *)
theory Capture_Props
  imports Capture
begin

text \<open>
  The driver contract's messages: what is encoded is read back and, for the two messages of fixed
  length, nothing else is; and the check of a provider's contract, which leaves out no field.
\<close>

section \<open>Little-endian encodings\<close>

lemma length_le_bytes [simp]: "length (le_bytes n w) = n"
  by (simp add: le_bytes_def)

lemma le_word_le_bytes: "LENGTH('a) \<le> 8 * n \<Longrightarrow> le_word (le_bytes n w) = (w :: 'a::len word)"
  by (simp add: le_bytes_def le_word_def be_word_be_bytes)

lemma le_bytes_le_word: "8 * length bs \<le> LENGTH('a) \<Longrightarrow> n = length bs \<Longrightarrow> le_bytes n (le_word bs :: 'a::len word) = bs"
  using be_bytes_be_word [of "rev bs", where 'a = 'a] by (simp add: le_bytes_def le_word_def)

lemma get_put_le [simp]:
  "le_word (le_bytes 2 (a :: u16)) = a" "le_word (le_bytes 4 (b :: u32)) = b" "le_word (le_bytes 8 (c :: u64)) = c"
  by (simp_all add: le_word_le_bytes)

lemma put_get_le [simp]:
  "length bs = 2 \<Longrightarrow> le_bytes 2 (le_word bs :: u16) = bs"
  "length bs = 4 \<Longrightarrow> le_bytes 4 (le_word bs :: u32) = bs"
  "length bs = 8 \<Longrightarrow> le_bytes 8 (le_word bs :: u64) = bs"
  by (simp_all add: le_bytes_le_word)

section \<open>The header\<close>

lemmas wfp_consts = WFPABIHeaderWireSize_def WFPHandshakeWireSize_def WFPFlowIdentityWireSize_def
  WFPDatagramHeaderWireSize_def WFPMaxMessageSize_def

lemma length_header [simp]: "length (encodeWFPABIHeader h) = 16"
  by (simp add: encodeWFPABIHeader_def)

lemma decode_encode_header [simp]: "decodeWFPABIHeader (encodeWFPABIHeader h) = Inr h"
  by (simp add: decodeWFPABIHeader_def encodeWFPABIHeader_def wfp_consts slice_simps)

lemma decode_header_iff: "decodeWFPABIHeader w = Inr h \<longleftrightarrow> encodeWFPABIHeader h = w"
proof
  assume "decodeWFPABIHeader w = Inr h"
  then have "length w = 16" "h = \<lparr>hdSize = le_word (gslice 0 4 w), hdVersion = le_word (gslice 4 6 w),
      hdKind = le_word (gslice 6 8 w), hdRequestID = le_word (gslice 8 16 w)\<rparr>"
    by (auto simp: decodeWFPABIHeader_def wfp_consts split: if_splits)
  then show "encodeWFPABIHeader h = w"
    by (simp add: encodeWFPABIHeader_def slice_append_slice slice_whole)
qed auto

section \<open>Handshakes\<close>

definition wf_handshake :: "WFPDriverHandshake \<Rightarrow> bool" where
  "wf_handshake h \<longleftrightarrow> hdSize (hsHeader h) = 36"

lemma same_size: "hdSize h = n \<Longrightarrow> h\<lparr>hdSize := n\<rparr> = h"
  by (cases h) simp

lemma wf_handshake_size: "wf_handshake h \<Longrightarrow> (hsHeader h)\<lparr>hdSize := of_nat WFPHandshakeWireSize\<rparr> = hsHeader h"
  by (simp add: same_size wf_handshake_def wfp_consts)

lemma handshake_validates_header:
  "handshakeValidate m h = None \<Longrightarrow> m \<le> WFPMaxMessageSize \<Longrightarrow>
    ValidateWFPMessageHeader (hsHeader h) WFPKindHandshake m = None"
  by (auto simp: handshakeValidate_def ValidateWFPMessageHeader_def wfp_consts not_less split: if_splits
      intro: order_trans [of "16 :: u32" 36])

lemma wfp_handshake_exact:
  assumes "m \<le> WFPMaxMessageSize"
  shows "UnmarshalWFPDriverHandshake m w = Inr h \<longleftrightarrow> wf_handshake h \<and> MarshalWFPDriverHandshake m h = Inr w"
proof
  assume u: "UnmarshalWFPDriverHandshake m w = Inr h"
  then have len: "length w = 36" and d: "decodeWFPABIHeader (gslice 0 16 w) = Inr (hsHeader h)"
    and v: "handshakeValidate m h = None" and wf: "wf_handshake h"
    and f: "hsContractID h = le_word (gslice 16 20 w)" "hsCapabilities h = le_word (gslice 20 28 w)"
      "hsMaxMTU h = le_word (gslice 28 32 w)" "hsReserved h = le_word (gslice 32 36 w)"
    by (auto simp: UnmarshalWFPDriverHandshake_def wfp_consts Let_def wf_handshake_def
        split: if_splits sum.splits option.splits)
  have "encodeWFPABIHeader (hsHeader h) = gslice 0 16 w" using d by (simp add: decode_header_iff)
  then have "MarshalWFPDriverHandshake m h = Inr w"
    using v len by (simp add: MarshalWFPDriverHandshake_def wf_handshake_size [OF wf] f slice_append_slice slice_whole)
  then show "wf_handshake h \<and> MarshalWFPDriverHandshake m h = Inr w" using wf by simp
next
  assume a: "wf_handshake h \<and> MarshalWFPDriverHandshake m h = Inr w"
  then have v: "handshakeValidate m h = None"
    and w: "w = encodeWFPABIHeader (hsHeader h) @ le_bytes 4 (hsContractID h) @ le_bytes 8 (hsCapabilities h) @
      le_bytes 4 (hsMaxMTU h) @ le_bytes 4 (hsReserved h)"
    by (auto simp: MarshalWFPDriverHandshake_def Let_def wf_handshake_size split: option.splits)
  show "UnmarshalWFPDriverHandshake m w = Inr h"
    using a v handshake_validates_header [OF v assms]
    by (cases h) (simp add: UnmarshalWFPDriverHandshake_def w wfp_consts slice_simps wf_handshake_def)
qed

interpretation wfp_handshake: canonical_format "MarshalWFPDriverHandshake WFPMaxMessageSize"
    "UnmarshalWFPDriverHandshake WFPMaxMessageSize" wf_handshake
  by unfold_locales (simp_all add: wfp_handshake_exact)

section \<open>Flow identities\<close>

definition wf_identity :: "WFPFlowIdentityABI \<Rightarrow> bool" where
  "wf_identity i \<longleftrightarrow> hdSize (fiHeader i) = 84 \<and> length (fiFlowID i) = 16 \<and> length (fiLocalIP i) = 16 \<and>
     length (fiRemoteIP i) = 16"

lemma wf_identity_size: "wf_identity i \<Longrightarrow> (fiHeader i)\<lparr>hdSize := of_nat WFPFlowIdentityWireSize\<rparr> = fiHeader i"
  by (simp add: same_size wf_identity_def wfp_consts)

lemma two_bytes: "n + 2 = m \<Longrightarrow> m \<le> length w \<Longrightarrow> [w ! n, w ! Suc n] = gslice n m w"
  by (auto simp: gslice_def intro!: nth_equalityI simp: nth_Cons split: nat.splits)

lemma slice_two: "2 \<le> i \<Longrightarrow> gslice i j (a # b # xs) = gslice (i - 2) (j - 2) xs"
  using slice_append_right [of "[a, b]" i j xs] by (simp add: numeral_2_eq_2)

lemma wfp_identity_exact:
  assumes "m \<le> WFPMaxMessageSize"
  shows "UnmarshalWFPFlowIdentity m w = Inr i \<longleftrightarrow> wf_identity i \<and> MarshalWFPFlowIdentity m i = Inr w"
proof
  assume u: "UnmarshalWFPFlowIdentity m w = Inr i"
  then have len: "length w = 84" "\<not> 84 > m" and d: "decodeWFPABIHeader (gslice 0 16 w) = Inr (fiHeader i)"
    and v: "ValidateWFPMessageHeader (fiHeader i) WFPKindFlow m = None" and sz: "hdSize (fiHeader i) = 84"
    and F: "fiFlowID i = gslice 16 32 w" "fiGeneration i = le_word (gslice 32 40 w)"
      "fiPID i = le_word (gslice 40 44 w)" "fiProtocol i = w ! 44" "fiAddressFamily i = w ! 45"
      "fiReserved i = le_word (gslice 46 48 w)" "fiLocalIP i = gslice 48 64 w" "fiRemoteIP i = gslice 64 80 w"
      "fiLocalPort i = le_word (gslice 80 82 w)" "fiRemotePort i = le_word (gslice 82 84 w)"
    by (auto simp: UnmarshalWFPFlowIdentity_def wfp_consts split: if_splits sum.splits option.splits)
  have wf: "wf_identity i" using len sz by (simp add: wf_identity_def F)
  have e: "encodeWFPABIHeader (fiHeader i) = gslice 0 16 w" using d by (simp add: decode_header_iff)
  have k: "hdKind (fiHeader i) = WFPKindFlow" "hdVersion (fiHeader i) = WFPDriverABIVersion" "hdRequestID (fiHeader i) \<noteq> 0"
    using v by (auto simp: ValidateWFPMessageHeader_def split: if_splits)
  have b: "[w ! 44, w ! 45] = gslice 44 46 w" using two_bytes [of 44 46 w] len by simp
  have "MarshalWFPFlowIdentity m i = Inr (gslice 0 16 w @ gslice 16 32 w @ gslice 32 40 w @ gslice 40 44 w @
      [w ! 44, w ! 45] @ gslice 46 48 w @ gslice 48 64 w @ gslice 64 80 w @ gslice 80 82 w @ gslice 82 84 w)"
    using k len e F sz by (simp add: MarshalWFPFlowIdentity_def same_size wfp_consts)
  also have "\<dots> = Inr w" using len by (simp only: b) (simp add: slice_append_slice slice_whole)
  finally show "wf_identity i \<and> MarshalWFPFlowIdentity m i = Inr w" using wf by simp
next
  assume a: "wf_identity i \<and> MarshalWFPFlowIdentity m i = Inr w"
  then have k: "hdKind (fiHeader i) = WFPKindFlow" "hdVersion (fiHeader i) = WFPDriverABIVersion"
      "hdRequestID (fiHeader i) \<noteq> 0" "\<not> 84 > m"
    and w: "w = encodeWFPABIHeader (fiHeader i) @ fiFlowID i @ le_bytes 8 (fiGeneration i) @
      le_bytes 4 (fiPID i) @ [fiProtocol i, fiAddressFamily i] @ le_bytes 2 (fiReserved i) @
      fiLocalIP i @ fiRemoteIP i @ le_bytes 2 (fiLocalPort i) @ le_bytes 2 (fiRemotePort i)"
    by (auto simp: MarshalWFPFlowIdentity_def Let_def same_size wf_identity_def wfp_consts split: if_splits)
  have v: "ValidateWFPMessageHeader (fiHeader i) WFPKindFlow m = None"
    using a k assms by (auto simp: ValidateWFPMessageHeader_def wf_identity_def wfp_consts not_less
        intro: order_trans [of "16 :: u32" 84])
  have n: "w ! 44 = fiProtocol i" "w ! 45 = fiAddressFamily i"
    using a by (simp_all add: w wf_identity_def nth_append)
  show "UnmarshalWFPFlowIdentity m w = Inr i"
    using a v k n by (simp add: UnmarshalWFPFlowIdentity_def wfp_consts wf_identity_def)
      (simp add: w slice_simps slice_two wfp_consts)
qed


interpretation wfp_identity: canonical_format "MarshalWFPFlowIdentity WFPMaxMessageSize"
    "UnmarshalWFPFlowIdentity WFPMaxMessageSize" wf_identity
  by unfold_locales (simp_all add: wfp_identity_exact)

section \<open>Datagrams\<close>

text \<open>A captured datagram whose lengths the conversions to \<open>uint32\<close> do not cut.\<close>

definition wf_capture :: "WFPDatagramMessage \<Rightarrow> bool" where
  "wf_capture m \<longleftrightarrow> length (dmFlowID m) = 16 \<and> length (dmPayload m) + 56 < 2 ^ 32"

lemma marshal_datagram:
  assumes "MarshalWFPDatagram mx m = Inr w" "wf_capture m"
  shows "UnmarshalWFPDatagram mx w = Inr m" "length w = 56 + length (dmPayload m)"
    "length w \<le> unat mx" "gslice 52 56 w = zeros 4"
proof -
  let ?n = "of_nat (56 + length (dmPayload m)) :: u32"
  have c: "dmRequestID m \<noteq> 0" "?n \<le> mx" "mx \<le> WFPMaxMessageSize"
    and w: "w = encodeWFPABIHeader \<lparr>hdSize = ?n, hdVersion = WFPDriverABIVersion, hdKind = WFPKindDatagram,
        hdRequestID = dmRequestID m\<rparr> @ dmFlowID m @ le_bytes 8 (dmGeneration m) @ le_bytes 8 (dmSequence m) @
        le_bytes 4 (of_nat (length (dmPayload m)) :: u32) @ zeros 4 @ dmPayload m"
    using assms(1) by (auto simp: MarshalWFPDatagram_def wfp_consts not_less split: if_splits)
  show l: "length w = 56 + length (dmPayload m)" using assms(2) by (simp add: w wf_capture_def)
  have n: "unat ?n = 56 + length (dmPayload m)"
    using assms(2) by (simp only: unat_of_nat wf_capture_def) (simp add: take_bit_nat_eq_self)
  show "length w \<le> unat mx" using c(2) n l by (simp add: word_le_nat_alt)
  show "gslice 52 56 w = zeros 4" using assms(2) by (simp add: w wf_capture_def slice_simps)
  have "16 \<le> ?n" using n by (simp add: word_le_nat_alt)
  then have v: "ValidateWFPMessageHeader \<lparr>hdSize = ?n, hdVersion = WFPDriverABIVersion, hdKind = WFPKindDatagram,
      hdRequestID = dmRequestID m\<rparr> WFPKindDatagram mx = None"
    using c by (auto simp: ValidateWFPMessageHeader_def wfp_consts not_less)
  show "UnmarshalWFPDatagram mx w = Inr m"
    using assms(2) c(2) v unfolding UnmarshalWFPDatagram_def l wfp_consts
    by (cases m) (simp add: w slice_simps wf_capture_def wfp_consts not_less)
qed

lemma unmarshal_datagram:
  assumes "UnmarshalWFPDatagram mx w = Inr m" "length w < 2 ^ 32"
  shows "wf_capture m" "gslice 52 56 w = zeros 4 \<Longrightarrow> MarshalWFPDatagram mx m = Inr w"
proof -
  obtain h where len: "56 \<le> length w" "(of_nat (length w) :: u32) \<le> mx"
    and d: "decodeWFPABIHeader (gslice 0 16 w) = Inr h" and v: "ValidateWFPMessageHeader h WFPKindDatagram mx = None"
    and sz: "hdSize h = of_nat (length w)"
    and pl: "(le_word (gslice 48 52 w) :: u32) = of_nat (length w - 56)"
    and m: "m = \<lparr>dmRequestID = hdRequestID h, dmFlowID = gslice 16 32 w,
        dmGeneration = le_word (gslice 32 40 w), dmSequence = le_word (gslice 40 48 w), dmPayload = drop 56 w\<rparr>"
    using assms(1) by (auto simp: UnmarshalWFPDatagram_def wfp_consts not_less split: if_splits sum.splits option.splits)
  show "wf_capture m" using len assms(2) by (simp add: m wf_capture_def)
  assume z: "gslice 52 56 w = zeros 4"
  have k: "hdKind h = WFPKindDatagram" "hdVersion h = WFPDriverABIVersion" "hdRequestID h \<noteq> 0" "mx \<le> WFPMaxMessageSize"
    using v by (auto simp: ValidateWFPMessageHeader_def not_less split: if_splits)
  have h: "\<lparr>hdSize = of_nat (length w), hdVersion = WFPDriverABIVersion, hdKind = WFPKindDatagram,
      hdRequestID = hdRequestID h\<rparr> = h" using sz k by (cases h) simp
  have e: "encodeWFPABIHeader h = gslice 0 16 w" using d by (simp add: decode_header_iff)
  have n: "56 + (length w - 56) = length w" using len by simp
  have p: "le_bytes 4 (of_nat (length w - 56) :: u32) = gslice 48 52 w" using len by (simp flip: pl)
  have "MarshalWFPDatagram mx m = Inr (gslice 0 16 w @ gslice 16 32 w @ gslice 32 40 w @ gslice 40 48 w @
      gslice 48 52 w @ gslice 52 56 w @ drop 56 w)"
    using len k unfolding MarshalWFPDatagram_def m z
    by (simp add: wfp_consts n h e p not_less del: of_nat_diff)
  also have "\<dots> = Inr w" using len by (simp add: slice_append_slice slice_to_drop)
  finally show "MarshalWFPDatagram mx m = Inr w" .
qed

section \<open>Properties\<close>

text \<open>
  C19. The driver's messages are exact. Under any limit up to the largest message, and for messages below
  4 GiB, a handshake and a flow identity are read from exactly the bytes that encode them, if the size in
  their header is the one the encoder writes. A datagram, whose request number is not zero, is read from
  its encoding; whatever is read as a datagram with its reserved bytes zero is the encoding of what was
  read; and what is read as a datagram is within the limit.
\<close>

theorem capture_messages_exact:
  assumes "mx \<le> WFPMaxMessageSize" and "length w < 2 ^ 32"
  shows "(UnmarshalWFPDriverHandshake mx w = Inr h \<longleftrightarrow> hdSize (hsHeader h) = 36 \<and> MarshalWFPDriverHandshake mx h = Inr w) \<and>
    (UnmarshalWFPFlowIdentity mx w = Inr i \<longleftrightarrow> wf_identity i \<and> MarshalWFPFlowIdentity mx i = Inr w) \<and>
    (wf_capture m \<and> MarshalWFPDatagram mx m = Inr w \<longleftrightarrow>
       UnmarshalWFPDatagram mx w = Inr m \<and> gslice 52 56 w = zeros 4) \<and>
    (UnmarshalWFPDatagram mx w = Inr m \<longrightarrow> length w \<le> unat mx)"
proof -
  have "length w \<le> unat mx" if "UnmarshalWFPDatagram mx w = Inr m"
    using that assms(2)
    by (auto simp: UnmarshalWFPDatagram_def wfp_consts not_less word_le_nat_alt unat_of_nat take_bit_nat_eq_self
        split: if_splits)
  moreover have "wf_capture m \<and> MarshalWFPDatagram mx m = Inr w \<longleftrightarrow>
      UnmarshalWFPDatagram mx w = Inr m \<and> gslice 52 56 w = zeros 4"
    using marshal_datagram(1,4) [of mx m w] unmarshal_datagram [of mx w m] assms(2) by blast
  ultimately show ?thesis
    using wfp_handshake_exact [OF assms(1), of w h] wfp_identity_exact [OF assms(1), of w i]
    unfolding wf_handshake_def by blast
qed

definition demo_handshake :: WFPDriverHandshake where
  "demo_handshake =
     \<lparr>hsHeader = \<lparr>hdSize = 36, hdVersion = 1, hdKind = 1, hdRequestID = 7\<rparr>, hsContractID = WFPDriverContractID,
      hsCapabilities = WFPRequiredCapabilityMask, hsMaxMTU = 1500, hsReserved = 0\<rparr>"

theorem capture_messages_exact_witness:
  "\<exists>w. MarshalWFPDriverHandshake WFPMaxMessageSize demo_handshake = Inr w \<and> length w = 36 \<and>
     UnmarshalWFPDriverHandshake WFPMaxMessageSize w = Inr demo_handshake"
proof -
  have "handshakeValidate WFPMaxMessageSize demo_handshake = None"
    by (simp add: handshakeValidate_def demo_handshake_def WFPKindHandshake_def WFPDriverABIVersion_def wfp_consts)
  then obtain w where w: "MarshalWFPDriverHandshake WFPMaxMessageSize demo_handshake = Inr w" "length w = 36"
    by (simp add: MarshalWFPDriverHandshake_def Let_def same_size demo_handshake_def wfp_consts)
  then show ?thesis
    using capture_messages_exact [of WFPMaxMessageSize w demo_handshake] by (auto simp: demo_handshake_def)
qed

text \<open>
  A provider is accepted with the one contract only. The comparison of its fields leaves none out:
  a provider passes if and only if it is there and its contract is the required one.
\<close>

theorem provider_contract_exact:
  "ValidateCaptureProviderContract p \<longleftrightarrow> p = Some RequiredWFPDriverContract"
proof
  assume "p = Some RequiredWFPDriverContract"
  moreover have "contractValidate RequiredWFPDriverContract = None"
    by (simp add: contractValidate_def RequiredWFPDriverContract_def WFPDriverContractID_def wfp_consts)
  ultimately show "ValidateCaptureProviderContract p" by (simp add: ValidateCaptureProviderContract_def)
next
  assume a: "ValidateCaptureProviderContract p"
  then obtain c where p: "p = Some c" by (auto simp: ValidateCaptureProviderContract_def split: option.splits)
  then have "c = RequiredWFPDriverContract"
    using a by (cases c; cases RequiredWFPDriverContract)
      (simp add: ValidateCaptureProviderContract_def Let_def split: if_splits)
  then show "p = Some RequiredWFPDriverContract" using p by simp
qed

text \<open>
  The limit on a datagram is checked after its length was cut to 32 bits: a payload of 4 GiB passes
  every check of a limit of 64 KiB, and is read back as a message of that limit.
\<close>

theorem oversized_datagram_passes:
  assumes "length payload = 2 ^ 32" and "length f = 16"
  shows "\<exists>w. MarshalWFPDatagram WFPMaxMessageSize
      \<lparr>dmRequestID = 1, dmFlowID = f, dmGeneration = 0, dmSequence = 0, dmPayload = payload\<rparr> = Inr w \<and>
    length w = 2 ^ 32 + 56"
proof -
  have "(of_nat (WFPDatagramHeaderWireSize + length payload) :: u32) = 56"
    by (simp add: assms wfp_consts)
  then show ?thesis
    using assms by (simp add: MarshalWFPDatagram_def wfp_consts)
qed

end
