(* ===== verification/Helper.thy ===== *)
theory Helper
  imports Capture
begin

text \<open>
  The runtime of the capture helper (\<open>internal/helper/runtime.go\<close>): \<open>Run\<close>, \<open>Shutdown\<close>, the goroutines
  that stop the provider and close the injector, and the monitor of the diagnostic file, as threads
  that step between their critical sections in any order.

  What the code calls (the provider, the injector, the pipe client, the diagnostic file, the fail
  stop) answers through the input of the step that waits for it; the calls of the provider and of the
  injector are logged. A context that ends is the input \<open>Expires\<close>. Error values are the lists of the
  errors they wrap. The fields of \<open>Health\<close> that copy a health report or the process are left out.
\<close>

section \<open>Data\<close>

datatype herr =
    ErrInvalidCaptureContract
  | ErrRuntimeStopTimeout
  | ErrHelperRunning
  | HelperCtx ctxErr
  | HelperError nat

type_synonym herrs = "herr list"

text \<open>\<open>errors.Join\<close>: nil when all are.\<close>

definition joinErrors :: "herrs option list \<Rightarrow> herrs option" where
  "joinErrors es = (if list_all (\<lambda>e. e = None) es then None
     else Some (concat (map (\<lambda>e. case e of None \<Rightarrow> [] | Some x \<Rightarrow> x) es)))"

record providerShutdown =
  psStarted :: bool
  psCompleted :: bool
  psErr :: "herrs option"

datatype helperCall = CallStart | CallStop | CallClose | CallFailStop

text \<open>What \<open>refreshHealth\<close> writes: readiness, lifecycle, last error, and the stop timeout.\<close>

type_synonym healthSnap = "bool \<times> string \<times> herrs option \<times> bool"

text \<open>The places of \<open>Run\<close> and of its deferred function, which has the result.\<close>

datatype runPlace =
    RunCalled
  | RunChecks
  | RunProvider
  | RunStarting
  | RunClient
  | RunReturns "herrs option"
  | RunStopping "herrs option"
  | RunInjector "herrs option" "herrs option"
  | RunInjecting "herrs option" "herrs option"
  | RunEnds "herrs option"
  | RunCloses "herrs option"

text \<open>The places of \<open>Shutdown\<close>; the first error is that of the provider's stop.\<close>

datatype shutdownPlace =
    ShutdownCalled
  | ShutdownStopping
  | ShutdownRun "herrs option"
  | ShutdownWaits nat "herrs option"
  | ShutdownLate herrs "herrs option" "herrs option"
  | ShutdownLateInjecting herrs "herrs option" "herrs option"
  | ShutdownInjecting "herrs option"
  | ShutdownCloses "herrs option"
  | ShutdownEnds "herrs option"

text \<open>The goroutines that stop the provider and close the injector.\<close>

datatype stopPlace =
    StopBegins
  | StopWaits
  | StopFails herrs "herrs option"
  | StopFinishes "herrs option"
  | StopReports "herrs option"
  | CloseBegins
  | CloseWaits
  | CloseFinishes "herrs option"
  | CloseReports "herrs option"

text \<open>Where \<open>writeDiagnostic\<close> and \<open>refreshHealth\<close> are called from.\<close>

datatype writeSite =
    SiteInvalid herrs
  | SiteRunning
  | SiteClientOver "herrs option"
  | SiteCleanup "herrs option"
  | SiteMonitor nat
  | SiteStopTimeout herrs
  | SiteShutdownTimeout herrs "herrs option"
  | SiteShutdownTimeout2 herrs "herrs option" "herrs option" "herrs option"
  | SiteStopped

datatype refreshSite =
    RefreshRunning
  | RefreshClientOver "herrs option"
  | RefreshCleanup "herrs option"
  | RefreshMonitor nat
  | RefreshHealth
  | RefreshWriting writeSite

datatype helperPc =
    AtRun runPlace
  | AtShutdown shutdownPlace
  | AtStop stopPlace
  | Monitors nat
  | RefreshReads refreshSite
  | RefreshWrites refreshSite healthSnap
  | WriteCalled writeSite
  | WriteLocks writeSite
  | WriteWrites writeSite
  | Returned "herrs option"

record Runtime =
  rhTimeout :: duration
  rhContract :: "WFPDriverContract option"
  rhRunning :: bool
  rhRuns :: nat
  rhEnded :: nat
  rhProviderStop :: providerShutdown
  rhInjectorStop :: providerShutdown
  rhReady :: bool
  rhLifecycle :: string
  rhLastError :: "herrs option"
  rhStopTimedOut :: bool
  rhCleanup :: string
  rhDiagnostic :: bool
  rhDiagnosticMu :: bool
  rhClientClosed :: bool
  rhMonitorOver :: nat
  rhCalls :: "helperCall list"
  rhThreads :: "helperPc list"

definition noShutdown :: providerShutdown where
  "noShutdown = \<lparr>psStarted = False, psCompleted = False, psErr = None\<rparr>"

definition newRuntime :: "duration \<Rightarrow> WFPDriverContract option \<Rightarrow> Runtime" where
  "newRuntime timeout contract =
     \<lparr>rhTimeout = timeout, rhContract = contract, rhRunning = False, rhRuns = 0, rhEnded = 0,
      rhProviderStop = noShutdown, rhInjectorStop = noShutdown, rhReady = False,
      rhLifecycle = ''created'', rhLastError = None, rhStopTimedOut = False, rhCleanup = [],
      rhDiagnostic = True, rhDiagnosticMu = False, rhClientClosed = False, rhMonitorOver = 0,
      rhCalls = [], rhThreads = []\<rparr>"

section \<open>Critical sections\<close>

definition providerStopDeadline :: "duration \<Rightarrow> duration option \<Rightarrow> duration" where
  "providerStopDeadline configured remaining =
     (let timeout = (if configured \<le> 0 \<or> configured > 10 * time_Second then 5 * time_Second else configured)
      in case remaining of
           None \<Rightarrow> timeout
         | Some r \<Rightarrow> if r \<le> 0 then 1 else if r < timeout then r else timeout)"

definition setLifecycle :: "string \<Rightarrow> herrs option \<Rightarrow> Runtime \<Rightarrow> Runtime" where
  "setLifecycle lifecycle e s =
     s\<lparr>rhLifecycle := lifecycle, rhLastError := e, rhStopTimedOut := (lifecycle = ''stop_timeout'')\<rparr>"

definition startProviderStop :: "Runtime \<Rightarrow> Runtime" where
  "startProviderStop s =
     (if psStarted (rhProviderStop s) then s
      else s\<lparr>rhProviderStop := (rhProviderStop s)\<lparr>psStarted := True\<rparr>, rhThreads := rhThreads s @ [AtStop StopBegins]\<rparr>)"

definition startInjectorClose :: "Runtime \<Rightarrow> Runtime" where
  "startInjectorClose s =
     (if psStarted (rhInjectorStop s) then s
      else s\<lparr>rhInjectorStop := (rhInjectorStop s)\<lparr>psStarted := True\<rparr>, rhThreads := rhThreads s @ [AtStop CloseBegins]\<rparr>)"

text \<open>
  The first section of \<open>finishProviderStop\<close> and \<open>finishInjectorClose\<close>; the answer says whether the
  function went on. Closing the channel \<open>done\<close> is \<open>psCompleted\<close>.
\<close>

definition finishShutdown :: "herrs option \<Rightarrow> providerShutdown \<Rightarrow> bool \<times> providerShutdown" where
  "finishShutdown e p =
     (if psCompleted p \<or> \<not> psStarted p then (False, p) else (True, p\<lparr>psCompleted := True, psErr := e\<rparr>))"

definition reportProviderStop :: "herrs option \<Rightarrow> Runtime \<Rightarrow> Runtime" where
  "reportProviderStop e s =
     (let s = s\<lparr>rhCleanup := (if e = None then ''confirmed'' else ''failed'')\<rparr>
      in case e of
           None \<Rightarrow> s
         | Some x \<Rightarrow> setLifecycle (if ErrRuntimeStopTimeout \<in> set x then ''stop_timeout'' else ''failed'') e s)"

text \<open>\<open>refreshHealth\<close>: what the provider and the pipe say is \<open>sees\<close>.\<close>

record healthSees =
  seProviderReady :: bool
  seProviderVerified :: bool
  seConnected :: bool
  seAuthenticated :: bool
  seLastError :: "herrs option"

definition refreshRead :: "healthSees \<Rightarrow> Runtime \<Rightarrow> healthSnap" where
  "refreshRead sees s =
     (let lifecycle = (if rhLifecycle s = [] then ''created'' else rhLifecycle s)
      in (seProviderReady sees \<and> seProviderVerified sees \<and> seConnected sees \<and> seAuthenticated sees,
          lifecycle,
          if lifecycle \<noteq> ''failed'' \<and> lifecycle \<noteq> ''stop_timeout'' then seLastError sees else rhLastError s,
          rhStopTimedOut s))"

fun refreshWrite :: "healthSnap \<Rightarrow> Runtime \<Rightarrow> Runtime" where
  "refreshWrite (ready, lifecycle, lastError, stopTimedOut) s =
     s\<lparr>rhReady := ready, rhLifecycle := lifecycle, rhLastError := lastError, rhStopTimedOut := stopTimedOut\<rparr>"

section \<open>Threads\<close>

text \<open>What the step of a thread is told: an answer, the end of its context, or a health report.\<close>

datatype helperInput =
    Goes
  | Expires ctxErr
  | Answers "herrs option"
  | Sees healthSees

definition timedOut :: "ctxErr \<Rightarrow> herrs" where
  "timedOut c = [ErrRuntimeStopTimeout, HelperCtx c]"

text \<open>
  The waits of \<open>stopProviderWithContext\<close> and \<open>closeInjectorWithContext\<close>: the error they return, once
  the shutdown is complete or the context is over.
\<close>

definition awaits :: "providerShutdown \<Rightarrow> helperInput \<Rightarrow> herrs option option" where
  "awaits p input =
     (case input of
        Goes \<Rightarrow> if psCompleted p then Some (psErr p) else None
      | Expires c \<Rightarrow> Some (Some (timedOut c))
      | _ \<Rightarrow> None)"

definition answered :: "helperInput \<Rightarrow> herrs option option" where
  "answered input = (case input of Answers e \<Rightarrow> Some e | _ \<Rightarrow> None)"

text \<open>
  A step of a thread gives its next place and the state; a step that cannot be taken, or whose input
  does not fit, leaves both. First \<open>Run\<close>.
\<close>

fun runStep :: "runPlace \<Rightarrow> helperInput \<Rightarrow> Runtime \<Rightarrow> helperPc \<times> Runtime" where
  "runStep RunCalled input s =
     (if rhRunning s then (Returned (Some [ErrHelperRunning]), s)
      else (AtRun RunChecks, s\<lparr>rhRunning := True, rhRuns := rhRuns s + 1\<rparr>))"
| "runStep RunChecks input s =
     (let s = setLifecycle ''starting'' None s
      in if \<not> ValidateCaptureProviderContract (rhContract s)
         then (WriteCalled (SiteInvalid [ErrInvalidCaptureContract]),
               setLifecycle ''failed'' (Some [ErrInvalidCaptureContract]) s)
         else (RefreshReads RefreshRunning, setLifecycle ''running'' None s))"
| "runStep RunProvider input s =
     (case input of
        Sees sees \<Rightarrow>
          if seProviderReady sees \<and> seProviderVerified sees
          then (AtRun RunStarting, s\<lparr>rhCalls := rhCalls s @ [CallStart]\<rparr>) else (AtRun RunClient, s)
      | _ \<Rightarrow> (AtRun RunProvider, s))"
| "runStep RunStarting input s =
     (case answered input of
        None \<Rightarrow> (AtRun RunStarting, s)
      | Some None \<Rightarrow> (AtRun RunClient, s)
      | Some (Some e) \<Rightarrow> (AtRun (RunReturns (Some e)), setLifecycle ''failed'' (Some e) s))"
| "runStep RunClient input s =
     (case answered input of
        None \<Rightarrow> (AtRun RunClient, s)
      | Some None \<Rightarrow> (RefreshReads (RefreshClientOver None), s)
      | Some (Some e) \<Rightarrow> (RefreshReads (RefreshClientOver (Some e)),
          if HelperCtx CtxCancelled \<in> set e then s else setLifecycle ''failed'' (Some e) s))"
| "runStep (RunReturns res) input s =
     (AtRun (RunStopping res), startProviderStop (s\<lparr>rhMonitorOver := rhRuns s\<rparr>))"
| "runStep (RunStopping res) input s =
     (case awaits (rhProviderStop s) input of
        None \<Rightarrow> (AtRun (RunStopping res), s)
      | Some perr \<Rightarrow> (AtRun (RunInjector res perr), s))"
| "runStep (RunInjector res perr) input s = (AtRun (RunInjecting res perr), startInjectorClose s)"
| "runStep (RunInjecting res perr) input s =
     (case awaits (rhInjectorStop s) input of
        None \<Rightarrow> (AtRun (RunInjecting res perr), s)
      | Some ierr \<Rightarrow>
          (RefreshReads (RefreshCleanup
             (if res = None \<and> (perr \<noteq> None \<or> ierr \<noteq> None) then joinErrors [perr, ierr] else res)), s))"
| "runStep (RunEnds res) input s = (AtRun (RunCloses res), s\<lparr>rhRunning := False, rhEnded := rhRuns s\<rparr>)"
| "runStep (RunCloses res) input s =
     (if rhDiagnosticMu s then (AtRun (RunCloses res), s) else (Returned res, s\<lparr>rhDiagnostic := False\<rparr>))"

text \<open>\<open>Shutdown\<close>.\<close>

fun shutdownStep :: "shutdownPlace \<Rightarrow> helperInput \<Rightarrow> Runtime \<Rightarrow> helperPc \<times> Runtime" where
  "shutdownStep ShutdownCalled input s =
     (AtShutdown ShutdownStopping, startProviderStop (s\<lparr>rhClientClosed := True\<rparr>))"
| "shutdownStep ShutdownStopping input s =
     (case awaits (rhProviderStop s) input of
        None \<Rightarrow> (AtShutdown ShutdownStopping, s)
      | Some perr \<Rightarrow> (AtShutdown (ShutdownRun perr), s))"
| "shutdownStep (ShutdownRun perr) input s =
     (if rhRunning s then (AtShutdown (ShutdownWaits (rhRuns s) perr), s)
      else (AtShutdown (ShutdownInjecting perr), startInjectorClose s))"
| "shutdownStep (ShutdownWaits n perr) input s =
     (case input of
        Goes \<Rightarrow> if n \<le> rhEnded s then (AtShutdown (ShutdownEnds perr), s) else (AtShutdown (ShutdownWaits n perr), s)
      | Expires c \<Rightarrow> (WriteCalled (SiteShutdownTimeout (timedOut c) perr),
                     setLifecycle ''stop_timeout'' (Some [HelperCtx c]) s)
      | _ \<Rightarrow> (AtShutdown (ShutdownWaits n perr), s))"
| "shutdownStep (ShutdownLate e perr d) input s =
     (AtShutdown (ShutdownLateInjecting e perr d), startInjectorClose s)"
| "shutdownStep (ShutdownLateInjecting e perr d) input s =
     (case awaits (rhInjectorStop s) input of
        None \<Rightarrow> (AtShutdown (ShutdownLateInjecting e perr d), s)
      | Some ierr \<Rightarrow> (WriteCalled (SiteShutdownTimeout2 e d perr ierr),
          if perr \<noteq> None \<or> ierr \<noteq> None then setLifecycle ''failed'' (joinErrors [perr, ierr]) s else s))"
| "shutdownStep (ShutdownInjecting perr) input s =
     (case awaits (rhInjectorStop s) input of
        None \<Rightarrow> (AtShutdown (ShutdownInjecting perr), s)
      | Some ierr \<Rightarrow>
          if perr \<noteq> None \<or> ierr \<noteq> None then (Returned (joinErrors [perr, ierr]), s)
          else (AtShutdown (ShutdownCloses perr), s))"
| "shutdownStep (ShutdownCloses perr) input s =
     (if rhDiagnosticMu s then (AtShutdown (ShutdownCloses perr), s)
      else (AtShutdown (ShutdownEnds perr), s\<lparr>rhDiagnostic := False\<rparr>))"
| "shutdownStep (ShutdownEnds perr) input s =
     (if perr \<noteq> None then (Returned perr, s)
      else if psErr (rhInjectorStop s) \<noteq> None then (Returned (psErr (rhInjectorStop s)), s)
      else (WriteCalled SiteStopped, setLifecycle ''stopped'' None s))"

text \<open>
  The goroutines of \<open>startProviderStop\<close> and \<open>startInjectorClose\<close>. A provider whose stop does not answer
  in time is given up: the fail stop is called, which ends the process in production.
\<close>

fun stopStep :: "stopPlace \<Rightarrow> helperInput \<Rightarrow> Runtime \<Rightarrow> helperPc \<times> Runtime" where
  "stopStep StopBegins input s =
     (AtStop StopWaits, s\<lparr>rhCleanup := ''stopping'', rhCalls := rhCalls s @ [CallStop]\<rparr>)"
| "stopStep StopWaits input s =
     (case input of
        Answers e \<Rightarrow> (AtStop (StopFinishes e), s)
      | Expires c \<Rightarrow> (WriteCalled (SiteStopTimeout (timedOut c)),
                     setLifecycle ''stop_timeout'' (Some [HelperCtx c]) s)
      | _ \<Rightarrow> (AtStop StopWaits, s))"
| "stopStep (StopFails e d) input s =
     (case answered input of
        None \<Rightarrow> (AtStop (StopFails e d), s)
      | Some f \<Rightarrow> (AtStop (StopFinishes (joinErrors [Some e, d, f])), s\<lparr>rhCalls := rhCalls s @ [CallFailStop]\<rparr>))"
| "stopStep (StopFinishes e) input s =
     (let (goes, p) = finishShutdown e (rhProviderStop s)
      in (if goes then AtStop (StopReports e) else Returned None, s\<lparr>rhProviderStop := p\<rparr>))"
| "stopStep (StopReports e) input s = (Returned None, reportProviderStop e s)"
| "stopStep CloseBegins input s = (AtStop CloseWaits, s\<lparr>rhCalls := rhCalls s @ [CallClose]\<rparr>)"
| "stopStep CloseWaits input s =
     (case input of
        Answers e \<Rightarrow> (AtStop (CloseFinishes e), s)
      | Expires c \<Rightarrow> (AtStop (CloseFinishes (Some (timedOut c))), s)
      | _ \<Rightarrow> (AtStop CloseWaits, s))"
| "stopStep (CloseFinishes e) input s =
     (let (goes, p) = finishShutdown e (rhInjectorStop s)
      in (if goes then AtStop (CloseReports e) else Returned None, s\<lparr>rhInjectorStop := p\<rparr>))"
| "stopStep (CloseReports e) input s = (Returned None, if e = None then s else setLifecycle ''failed'' e s)"

text \<open>Where a thread stands after its refresh and after its write. \<open>Run\<close> starts its monitor after the first.\<close>

fun afterRefresh :: "refreshSite \<Rightarrow> Runtime \<Rightarrow> helperPc \<times> Runtime" where
  "afterRefresh RefreshRunning s = (WriteCalled SiteRunning, s\<lparr>rhThreads := rhThreads s @ [Monitors (rhRuns s)]\<rparr>)"
| "afterRefresh (RefreshClientOver res) s = (WriteCalled (SiteClientOver res), s)"
| "afterRefresh (RefreshCleanup res) s = (WriteCalled (SiteCleanup res), s)"
| "afterRefresh (RefreshMonitor n) s = (WriteCalled (SiteMonitor n), s)"
| "afterRefresh RefreshHealth s = (Returned None, s)"
| "afterRefresh (RefreshWriting site) s = (WriteWrites site, s)"

fun afterWrite :: "writeSite \<Rightarrow> herrs option \<Rightarrow> helperPc" where
  "afterWrite (SiteInvalid e) d = AtRun (RunReturns (Some e))"
| "afterWrite SiteRunning d = (if d = None then AtRun RunProvider else AtRun (RunReturns d))"
| "afterWrite (SiteClientOver res) d = AtRun (RunReturns res)"
| "afterWrite (SiteCleanup res) d = AtRun (RunEnds res)"
| "afterWrite (SiteMonitor n) d = Monitors n"
| "afterWrite (SiteStopTimeout e) d = AtStop (StopFails e d)"
| "afterWrite (SiteShutdownTimeout e perr) d = AtShutdown (ShutdownLate e perr d)"
| "afterWrite (SiteShutdownTimeout2 e d perr ierr) d2 = Returned (joinErrors [Some e, d, perr, ierr, d2])"
| "afterWrite SiteStopped d = Returned None"

text \<open>
  One step of a thread; \<open>None\<close> is the panic of a write through the diagnostic file that was set to nil.
  The monitor's ticker may win over its other channels.
\<close>

fun threadStep :: "helperPc \<Rightarrow> helperInput \<Rightarrow> Runtime \<Rightarrow> (helperPc \<times> Runtime) option" where
  "threadStep (AtRun place) input s = Some (runStep place input s)"
| "threadStep (AtShutdown place) input s = Some (shutdownStep place input s)"
| "threadStep (AtStop place) input s = Some (stopStep place input s)"
| "threadStep (Monitors n) input s = Some
     (case input of
        Goes \<Rightarrow> if n \<le> rhMonitorOver s then Returned None else Monitors n
      | Expires c \<Rightarrow> Returned None
      | _ \<Rightarrow> RefreshReads (RefreshMonitor n), s)"
| "threadStep (RefreshReads site) input s = Some
     (case input of Sees sees \<Rightarrow> RefreshWrites site (refreshRead sees s) | _ \<Rightarrow> RefreshReads site, s)"
| "threadStep (RefreshWrites site snap) input s = Some (afterRefresh site (refreshWrite snap s))"
| "threadStep (WriteCalled site) input s = Some (if rhDiagnostic s then WriteLocks site else afterWrite site None, s)"
| "threadStep (WriteLocks site) input s =
     (if rhDiagnosticMu s then Some (WriteLocks site, s)
      else Some (RefreshReads (RefreshWriting site), s\<lparr>rhDiagnosticMu := True\<rparr>))"
| "threadStep (WriteWrites site) input s =
     (if rhDiagnostic s then
        (case answered input of
           None \<Rightarrow> Some (WriteWrites site, s)
         | Some e \<Rightarrow> Some (afterWrite site e, s\<lparr>rhDiagnosticMu := False\<rparr>))
      else None)"
| "threadStep (Returned res) input s = Some (Returned res, s)"

text \<open>Events: somebody calls \<open>Run\<close>, \<open>Shutdown\<close> or \<open>Health\<close>; a thread takes a step.\<close>

datatype helperEvent =
    CallRun
  | CallShutdown
  | CallHealth
  | Steps nat helperInput

definition spawn :: "helperPc \<Rightarrow> Runtime \<Rightarrow> Runtime" where
  "spawn pc s = s\<lparr>rhThreads := rhThreads s @ [pc]\<rparr>"

fun helperStep :: "Runtime \<Rightarrow> helperEvent \<Rightarrow> Runtime option" where
  "helperStep s CallRun = Some (spawn (AtRun RunCalled) s)"
| "helperStep s CallShutdown = Some (spawn (AtShutdown ShutdownCalled) s)"
| "helperStep s CallHealth = Some (spawn (RefreshReads RefreshHealth) s)"
| "helperStep s (Steps i input) =
     (if i < length (rhThreads s) then
        (case threadStep (rhThreads s ! i) input s of
           None \<Rightarrow> None
         | Some (pc, s) \<Rightarrow> Some (s\<lparr>rhThreads := (rhThreads s)[i := pc]\<rparr>))
      else Some s)"

primrec helperRun :: "Runtime \<Rightarrow> helperEvent list \<Rightarrow> Runtime option" where
  "helperRun s [] = Some s"
| "helperRun s (e # es) = (case helperStep s e of None \<Rightarrow> None | Some s \<Rightarrow> helperRun s es)"

end
