(* ===== verification/Threads.thy ===== *)
theory Threads
  imports Main
begin

text \<open>
  Machines of threads. A state holds a list of program places, a step moves one of them and may start
  others. Places have roles (the thread that dials, the holder of a mutex, ...), and the state says how
  many threads of each role there are; a step that keeps this account in balance keeps it right.
\<close>

definition weight :: "('p \<Rightarrow> 'r set) \<Rightarrow> 'r \<Rightarrow> 'p \<Rightarrow> int" where
  "weight roles k pc = (if k \<in> roles pc then 1 else 0)"

definition tally :: "('p \<Rightarrow> 'r set) \<Rightarrow> 'r \<Rightarrow> 'p list \<Rightarrow> int" where
  "tally roles k threads = sum_list (map (weight roles k) threads)"

lemma tally_append: "tally roles k (xs @ ys) = tally roles k xs + tally roles k ys"
  by (simp add: tally_def)

lemma tally_update:
  "i < length xs \<Longrightarrow> tally roles k (xs[i := pc]) = tally roles k xs - weight roles k (xs ! i) + weight roles k pc"
  by (induction xs arbitrary: i) (auto simp: tally_def split: nat.splits)

lemma weight_nonneg: "0 \<le> weight roles k pc"
  by (simp add: weight_def)

lemma tally_nonneg: "0 \<le> tally roles k threads"
  unfolding tally_def by (intro sum_list_nonneg) (auto simp: weight_nonneg)

lemma weight_tally: "i < length xs \<Longrightarrow> weight roles k (xs ! i) \<le> tally roles k xs"
proof (induction xs arbitrary: i)
  case (Cons x xs)
  then show ?case using tally_nonneg [of roles k xs] weight_nonneg [of roles k x]
    by (cases i) (force simp: tally_def)+
qed simp

lemma tally_filter: "tally roles k threads = int (length (filter (\<lambda>pc. k \<in> roles pc) threads))"
  by (induction threads) (simp_all add: tally_def weight_def)

lemma tally_zero: "tally roles k threads = 0 \<longleftrightarrow> (\<forall>pc \<in> set threads. k \<notin> roles pc)"
  by (simp add: tally_filter filter_empty_conv)

lemma tally_pos: "0 < tally roles k threads \<longleftrightarrow> (\<exists>pc \<in> set threads. k \<in> roles pc)"
  using tally_nonneg [of roles k threads] tally_zero [of roles k threads] by force

lemma tally_mono: "(\<And>pc. k \<in> roles pc \<Longrightarrow> l \<in> roles pc) \<Longrightarrow> tally roles k threads \<le> tally roles l threads"
  by (induction threads) (auto simp: tally_def weight_def intro!: add_mono)

locale tallied =
  fixes roles :: "'p \<Rightarrow> 'r set"
    and owed :: "'r \<Rightarrow> 's \<Rightarrow> int"
    and threads :: "'s \<Rightarrow> 'p list"
    and put_threads :: "'p list \<Rightarrow> 's \<Rightarrow> 's"
  assumes threads_put: "threads (put_threads ts s) = ts"
    and owed_put: "owed k (put_threads ts s) = owed k s"
begin

text \<open>The account: the state owes exactly the threads it has.\<close>

definition account :: "'s \<Rightarrow> bool" where
  "account s \<longleftrightarrow> (\<forall>k. tally roles k (threads s) = owed k s)"

lemma account_owes: "account s \<Longrightarrow> pc \<in> set (threads s) \<Longrightarrow> k \<in> roles pc \<Longrightarrow> 1 \<le> owed k s"
  using tally_pos [of roles k "threads s"] by (force simp: account_def)

lemma account_has: "account s \<Longrightarrow> 0 < owed k s \<Longrightarrow> \<exists>pc \<in> set (threads s). k \<in> roles pc"
  using tally_pos [of roles k "threads s"] by (simp add: account_def)

lemma account_none: "account s \<Longrightarrow> owed k s = 0 \<Longrightarrow> pc \<in> set (threads s) \<Longrightarrow> k \<notin> roles pc"
  using tally_zero [of roles k "threads s"] by (simp add: account_def)

text \<open>The place at \<open>i\<close> moves on and \<open>new\<close> threads start.\<close>

lemma account_step:
  assumes "account s" and "i < length (threads s)" and "threads s' = threads s @ new"
    and "\<And>k. owed k s' = owed k s - weight roles k (threads s ! i) + weight roles k pc + tally roles k new"
  shows "account (put_threads ((threads s')[i := pc]) s')"
proof -
  have "tally roles k ((threads s')[i := pc]) = owed k s'" for k
  proof -
    have "tally roles k ((threads s')[i := pc]) =
        tally roles k (threads s) - weight roles k (threads s ! i) + weight roles k pc + tally roles k new"
      using assms(2) by (simp add: assms(3) list_update_append tally_append tally_update)
    also have "\<dots> = owed k s'" using assms(1) assms(4) [of k] by (simp add: account_def)
    finally show ?thesis .
  qed
  then show ?thesis by (simp add: account_def threads_put owed_put)
qed

lemma account_spawn:
  assumes "account s" and "roles pc = {}"
  shows "account (put_threads (threads s @ [pc]) s)"
  using assms by (simp add: account_def threads_put owed_put tally_append) (simp add: tally_def weight_def)

end

end
