(* ===== verification/Helper_Inv.thy ===== *)
theory Helper_Inv
  imports Helper Capture_Props Threads
begin

text \<open>
  The invariant of the helper's runtime: what its threads stand for. Every goroutine, the one \<open>Run\<close> and
  the holder of the diagnostic mutex are threads, and the state says how many of each there are.
\<close>

section \<open>What a thread stands for\<close>

datatype role = StoppingProvider | ClosingInjector | Running | HoldingMutex | StopDue | CloseDue

fun writeRole :: "writeSite \<Rightarrow> role option" where
  "writeRole (SiteInvalid _) = Some Running"
| "writeRole SiteRunning = Some Running"
| "writeRole (SiteClientOver _) = Some Running"
| "writeRole (SiteCleanup _) = Some Running"
| "writeRole (SiteStopTimeout _) = Some StoppingProvider"
| "writeRole _ = None"

fun refreshRole :: "refreshSite \<Rightarrow> role option" where
  "refreshRole RefreshRunning = Some Running"
| "refreshRole (RefreshClientOver _) = Some Running"
| "refreshRole (RefreshCleanup _) = Some Running"
| "refreshRole (RefreshWriting site) = writeRole site"
| "refreshRole _ = None"

fun stopRoles :: "stopPlace \<Rightarrow> role set" where
  "stopRoles StopBegins = {StoppingProvider, StopDue}"
| "stopRoles StopWaits = {StoppingProvider}"
| "stopRoles (StopFails _ _) = {StoppingProvider}"
| "stopRoles (StopFinishes _) = {StoppingProvider}"
| "stopRoles CloseBegins = {ClosingInjector, CloseDue}"
| "stopRoles CloseWaits = {ClosingInjector}"
| "stopRoles (CloseFinishes _) = {ClosingInjector}"
| "stopRoles _ = {}"

fun runRoles :: "runPlace \<Rightarrow> role set" where
  "runRoles RunCalled = {}"
| "runRoles (RunCloses _) = {}"
| "runRoles _ = {Running}"

fun writing :: "refreshSite \<Rightarrow> role set" where
  "writing (RefreshWriting _) = {HoldingMutex}"
| "writing _ = {}"

fun roles :: "helperPc \<Rightarrow> role set" where
  "roles (AtRun place) = runRoles place"
| "roles (AtShutdown _) = {}"
| "roles (AtStop place) = stopRoles place"
| "roles (Monitors _) = {}"
| "roles (RefreshReads site) = set_option (refreshRole site) \<union> writing site"
| "roles (RefreshWrites site _) = set_option (refreshRole site) \<union> writing site"
| "roles (WriteCalled site) = set_option (writeRole site)"
| "roles (WriteLocks site) = set_option (writeRole site)"
| "roles (WriteWrites site) = set_option (writeRole site) \<union> {HoldingMutex}"
| "roles (Returned _) = {}"

text \<open>How many threads of each role the state speaks of.\<close>

definition pendingStop :: "providerShutdown \<Rightarrow> int" where
  "pendingStop p = (if psStarted p \<and> \<not> psCompleted p then 1 else 0)"

fun owed :: "role \<Rightarrow> Runtime \<Rightarrow> int" where
  "owed StoppingProvider s = pendingStop (rhProviderStop s)"
| "owed ClosingInjector s = pendingStop (rhInjectorStop s)"
| "owed Running s = (if rhRunning s then 1 else 0)"
| "owed HoldingMutex s = (if rhDiagnosticMu s then 1 else 0)"
| "owed StopDue s = (if psStarted (rhProviderStop s) then 1 else 0) - int (count_list (rhCalls s) CallStop)"
| "owed CloseDue s = (if psStarted (rhInjectorStop s) then 1 else 0) - int (count_list (rhCalls s) CallClose)"

interpretation helper: tallied roles owed rhThreads "\<lambda>ts s. s\<lparr>rhThreads := ts\<rparr>"
  by unfold_locales (simp, (case_tac k; simp))

text \<open>What a thread at a place relies on: the contract was checked, the shutdowns were started.\<close>

fun runRelies :: "runPlace \<Rightarrow> Runtime \<Rightarrow> bool" where
  "runRelies RunProvider s = (rhContract s = Some RequiredWFPDriverContract)"
| "runRelies RunStarting s = (rhContract s = Some RequiredWFPDriverContract)"
| "runRelies (RunStopping _) s = psStarted (rhProviderStop s)"
| "runRelies (RunInjector _ _) s = psStarted (rhProviderStop s)"
| "runRelies (RunInjecting _ _) s = (psStarted (rhProviderStop s) \<and> psStarted (rhInjectorStop s))"
| "runRelies (RunEnds _) s = (psStarted (rhProviderStop s) \<and> psStarted (rhInjectorStop s))"
| "runRelies _ s = True"

fun writeRelies :: "writeSite \<Rightarrow> Runtime \<Rightarrow> bool" where
  "writeRelies SiteRunning s = (rhContract s = Some RequiredWFPDriverContract)"
| "writeRelies (SiteCleanup _) s = (psStarted (rhProviderStop s) \<and> psStarted (rhInjectorStop s))"
| "writeRelies _ s = True"

fun refreshRelies :: "refreshSite \<Rightarrow> Runtime \<Rightarrow> bool" where
  "refreshRelies RefreshRunning s = (rhContract s = Some RequiredWFPDriverContract)"
| "refreshRelies (RefreshCleanup _) s = (psStarted (rhProviderStop s) \<and> psStarted (rhInjectorStop s))"
| "refreshRelies (RefreshWriting site) s = writeRelies site s"
| "refreshRelies _ s = True"

fun relies :: "helperPc \<Rightarrow> Runtime \<Rightarrow> bool" where
  "relies (AtRun place) s = runRelies place s"
| "relies (RefreshReads site) s = refreshRelies site s"
| "relies (RefreshWrites site _) s = refreshRelies site s"
| "relies (WriteCalled site) s = writeRelies site s"
| "relies (WriteLocks site) s = writeRelies site s"
| "relies (WriteWrites site) s = writeRelies site s"
| "relies _ s = True"

text \<open>What never goes back.\<close>

definition onward :: "Runtime \<Rightarrow> Runtime \<Rightarrow> bool" where
  "onward s s' \<longleftrightarrow> rhContract s' = rhContract s \<and>
     (psStarted (rhProviderStop s) \<longrightarrow> psStarted (rhProviderStop s')) \<and>
     (psStarted (rhInjectorStop s) \<longrightarrow> psStarted (rhInjectorStop s'))"

lemma relies_onward: "relies pc s \<Longrightarrow> onward s s' \<Longrightarrow> relies pc s'"
  by (cases "(pc, s)" rule: relies.cases; (auto simp: onward_def; fail)?)
     (auto simp: onward_def elim!: runRelies.elims refreshRelies.elims writeRelies.elims)

definition steady :: "Runtime \<Rightarrow> bool" where
  "steady s \<longleftrightarrow>
     (psCompleted (rhProviderStop s) \<longrightarrow> psStarted (rhProviderStop s)) \<and>
     (psCompleted (rhInjectorStop s) \<longrightarrow> psStarted (rhInjectorStop s)) \<and>
     rhRuns s = rhEnded s + (if rhRunning s then 1 else 0) \<and>
     (0 < rhEnded s \<longrightarrow> psStarted (rhProviderStop s) \<and> psStarted (rhInjectorStop s)) \<and>
     (CallStart \<in> set (rhCalls s) \<longrightarrow> rhContract s = Some RequiredWFPDriverContract)"

definition helper_inv :: "Runtime \<Rightarrow> bool" where
  "helper_inv s \<longleftrightarrow>
     helper.account s \<and>
     (\<forall>pc \<in> set (rhThreads s). relies pc s) \<and>
     steady s"

section \<open>Steps keep it\<close>

text \<open>What a step of a thread does to the balance: the threads it starts, and what the state then owes.\<close>

definition balanced :: "Runtime \<Rightarrow> helperPc \<Rightarrow> Runtime \<Rightarrow> helperPc \<Rightarrow> bool" where
  "balanced s pc s' pc' \<longleftrightarrow>
     (\<exists>new. rhThreads s' = rhThreads s @ new \<and> (\<forall>t \<in> set new. \<forall>r. relies t r) \<and>
        (\<forall>k. owed k s' = owed k s - weight roles k pc + weight roles k pc' + tally roles k new)) \<and>
     onward s s' \<and> relies pc' s' \<and>
     steady s'"

text \<open>A state whose threads allow a step of \<open>pc\<close>.\<close>

definition ready_for :: "helperPc \<Rightarrow> Runtime \<Rightarrow> bool" where
  "ready_for pc s \<longleftrightarrow> (\<forall>k. weight roles k pc \<le> owed k s) \<and> relies pc s \<and>
     steady s"

lemma all_roles: "(\<forall>k. P k) \<longleftrightarrow> P StoppingProvider \<and> P ClosingInjector \<and> P Running \<and> P HoldingMutex \<and> P StopDue \<and> P CloseDue"
  by (metis role.exhaust)

lemma inv_ready: "helper_inv s \<Longrightarrow> i < length (rhThreads s) \<Longrightarrow> ready_for (rhThreads s ! i) s"
  by (metis helper_inv_def ready_for_def weight_tally nth_mem helper.account_def)

lemma balanced_inv:
  assumes inv: "helper_inv s" and i: "i < length (rhThreads s)" and b: "balanced s (rhThreads s ! i) s' pc'"
  shows "helper_inv (s'\<lparr>rhThreads := (rhThreads s')[i := pc']\<rparr>)"
proof -
  obtain new where n: "rhThreads s' = rhThreads s @ new" "\<forall>t \<in> set new. \<forall>r. relies t r"
    "\<And>k. owed k s' = owed k s - weight roles k (rhThreads s ! i) + weight roles k pc' + tally roles k new"
    and on: "onward s s'" "relies pc' s'"
    using b by (auto simp: balanced_def)
  let ?s = "s'\<lparr>rhThreads := (rhThreads s')[i := pc']\<rparr>"
  have up: "onward s ?s" "onward s' ?s" using on by (auto simp: onward_def)
  have "helper.account ?s"
    using inv by (intro helper.account_step [OF _ i n(1) n(3)]) (simp add: helper_inv_def)
  moreover have "relies pc ?s" if "pc \<in> set (rhThreads ?s)" for pc
  proof -
    have "pc = pc' \<or> pc \<in> set (rhThreads s) \<or> pc \<in> set new"
      using that set_update_subset_insert [of "rhThreads s'" i pc'] n(1) by auto
    then show ?thesis using inv up on(2) n(2) relies_onward by (auto simp: helper_inv_def)
  qed
  moreover have "steady ?s" using b by (simp add: balanced_def steady_def)
  ultimately show ?thesis by (simp add: helper_inv_def)
qed

text \<open>Most steps touch nothing the invariant speaks of.\<close>

definition view :: "Runtime \<Rightarrow> helperPc list \<times> providerShutdown \<times> providerShutdown \<times> bool \<times> nat \<times> nat \<times> bool \<times>
    helperCall list \<times> WFPDriverContract option" where
  "view s = (rhThreads s, rhProviderStop s, rhInjectorStop s, rhRunning s, rhRuns s, rhEnded s, rhDiagnosticMu s,
     rhCalls s, rhContract s)"

lemma view_owed: "view s' = view s \<Longrightarrow> owed k s' = owed k s"
  by (cases k) (simp_all add: view_def)

lemma view_setLifecycle [simp]: "view (setLifecycle l e s) = view s"
  by (simp add: view_def setLifecycle_def)

lemma contract_setLifecycle [simp]: "rhContract (setLifecycle l e s) = rhContract s"
  by (simp add: setLifecycle_def)

lemma view_refreshWrite [simp]: "view (refreshWrite snap s) = view s"
  by (cases snap) (simp add: view_def)

lemma view_reportProviderStop [simp]: "view (reportProviderStop e s) = view s"
  by (cases e) (simp_all add: view_def reportProviderStop_def setLifecycle_def)

lemma view_fields [simp]: "view (s\<lparr>rhDiagnostic := d\<rparr>) = view s"
  by (simp add: view_def)

lemma view_relies: "view s' = view s \<Longrightarrow> relies pc s' = relies pc s"
  using relies_onward [of pc s s'] relies_onward [of pc s' s] by (auto simp: view_def onward_def)

lemma quiet:
  assumes "ready_for pc s" and "view s' = view s" and "roles pc' = roles pc" and "relies pc' s"
  shows "balanced s pc s' pc'"
proof -
  have "weight roles k pc' = weight roles k pc" for k using assms(3) by (simp add: weight_def)
  moreover have "onward s s'" "rhThreads s' = rhThreads s @ []" using assms(2) by (simp_all add: view_def onward_def)
  moreover have "steady s'" using assms(1,2) by (simp add: ready_for_def steady_def view_def)
  ultimately show ?thesis
    using view_owed [OF assms(2)] assms(4) view_relies [OF assms(2)]
    by (auto simp: balanced_def tally_def intro!: exI [of _ "[]"])
qed

lemma balancedI:
  assumes "rhThreads s' = rhThreads s @ new" and "\<And>t r. t \<in> set new \<Longrightarrow> relies t r"
    and "\<And>k. owed k s' = owed k s - weight roles k pc + weight roles k pc' + tally roles k new"
    and "onward s s'" and "relies pc' s'" and "steady s'"
  shows "balanced s pc s' pc'"
  using assms by (auto simp: balanced_def)

lemmas shutdown_simps = startProviderStop_def startInjectorClose_def pendingStop_def weight_def tally_def

lemma start_stop_balanced:
  assumes "ready_for pc s" and "roles pc' = roles pc" and "relies pc' (startProviderStop s)"
  shows "balanced s pc (startProviderStop s) pc'"
proof (cases "psStarted (rhProviderStop s)")
  case True
  then show ?thesis using assms by (intro quiet) (simp_all add: startProviderStop_def)
next
  case False
  have "owed k (startProviderStop s) = owed k s - weight roles k pc + weight roles k pc' + tally roles k [AtStop StopBegins]" for k
    using False assms(1) by (cases k) (simp_all add: assms(2) ready_for_def steady_def shutdown_simps)
  moreover have "rhThreads (startProviderStop s) = rhThreads s @ [AtStop StopBegins]" "steady (startProviderStop s)"
      "onward s (startProviderStop s)"
    using False assms(1) by (simp_all add: startProviderStop_def ready_for_def steady_def onward_def)
  ultimately show ?thesis using assms(3) by (intro balancedI) simp_all
qed

lemma start_close_balanced:
  assumes "ready_for pc s" and "roles pc' = roles pc" and "relies pc' (startInjectorClose s)"
  shows "balanced s pc (startInjectorClose s) pc'"
proof (cases "psStarted (rhInjectorStop s)")
  case True
  then show ?thesis using assms by (intro quiet) (simp_all add: startInjectorClose_def)
next
  case False
  have "owed k (startInjectorClose s) = owed k s - weight roles k pc + weight roles k pc' + tally roles k [AtStop CloseBegins]" for k
    using False assms(1) by (cases k) (simp_all add: assms(2) ready_for_def steady_def shutdown_simps)
  moreover have "rhThreads (startInjectorClose s) = rhThreads s @ [AtStop CloseBegins]" "steady (startInjectorClose s)"
      "onward s (startInjectorClose s)"
    using False assms(1) by (simp_all add: startInjectorClose_def ready_for_def steady_def onward_def)
  ultimately show ?thesis using assms(3) by (intro balancedI) simp_all
qed

text \<open>The steps that start no thread and change something.\<close>

lemma changeI:
  assumes "\<And>k. owed k s' = owed k s - weight roles k pc + weight roles k pc'"
    and "rhThreads s' = rhThreads s" "onward s s'" "relies pc' s'" "steady s'"
  shows "balanced s pc s' pc'"
  using assms by (intro balancedI [where new = "[]"]) (simp_all add: tally_def)

lemma ready_owes: "ready_for pc s \<Longrightarrow> k \<in> roles pc \<Longrightarrow> 1 \<le> owed k s"
  by (force simp: ready_for_def weight_def dest: spec [of _ k])

lemma runStep_balanced:
  assumes r: "ready_for (AtRun place) s" and st: "runStep place input s = (pc', s')"
  shows "balanced s (AtRun place) s' pc'"
proof -
  have steady: "steady s" and rel: "runRelies place s" using r by (simp_all add: ready_for_def)
  note q = quiet [OF r]
  show ?thesis
  proof (cases place)
    case RunCalled
    show ?thesis
    proof (cases "rhRunning s")
      case True
      then show ?thesis using st RunCalled by (intro q) auto
    next
      case False
      then have e: "pc' = AtRun RunChecks" "s' = s\<lparr>rhRunning := True, rhRuns := rhRuns s + 1\<rparr>"
        using st RunCalled by simp_all
      have "owed k s' = owed k s - weight roles k (AtRun place) + weight roles k pc'" for k
        using False by (cases k) (simp_all add: e RunCalled weight_def)
      then show ?thesis using e False steady by (intro changeI) (simp_all add: steady_def onward_def)
    qed
  next
    case RunChecks
    then show ?thesis using st by (intro q) (auto simp: Let_def provider_contract_exact split: if_splits)
  next
    case RunProvider
    have "s' = s \<and> (pc' = AtRun RunProvider \<or> pc' = AtRun RunClient) \<or>
        pc' = AtRun RunStarting \<and> s' = s\<lparr>rhCalls := rhCalls s @ [CallStart]\<rparr>"
      using st RunProvider by (auto split: helperInput.splits if_splits)
    then show ?thesis
    proof
      assume "s' = s \<and> (pc' = AtRun RunProvider \<or> pc' = AtRun RunClient)"
      then show ?thesis using RunProvider rel by (intro q) auto
    next
      assume e: "pc' = AtRun RunStarting \<and> s' = s\<lparr>rhCalls := rhCalls s @ [CallStart]\<rparr>"
      have "owed k s' = owed k s" for k by (cases k) (simp_all add: e)
      then show ?thesis using e RunProvider rel steady
        by (intro changeI) (auto simp: weight_def steady_def onward_def)
    qed
  next
    case RunStarting
    then show ?thesis using st rel by (intro q) (auto split: option.splits)
  next
    case RunClient
    then show ?thesis using st by (intro q) (auto split: option.splits)
  next
    case (RunReturns res)
    have v: "view (s\<lparr>rhMonitorOver := rhRuns s\<rparr>) = view s" by (simp add: view_def)
    have r': "ready_for (AtRun place) (s\<lparr>rhMonitorOver := rhRuns s\<rparr>)"
      using r v view_owed [OF v] by (simp add: ready_for_def steady_def RunReturns)
    have "balanced (s\<lparr>rhMonitorOver := rhRuns s\<rparr>) (AtRun place) s' pc'"
      using st RunReturns start_stop_balanced [OF r'] by (auto simp: startProviderStop_def)
    then show ?thesis using view_owed [OF v] by (simp add: balanced_def onward_def)
  next
    case (RunStopping res)
    then show ?thesis using st rel by (intro q) (auto split: option.splits)
  next
    case (RunInjector res perr)
    then show ?thesis using st rel start_close_balanced [OF r] by (auto simp: startInjectorClose_def)
  next
    case (RunInjecting res perr)
    then show ?thesis using st rel by (intro q) (auto split: option.splits if_splits)
  next
    case (RunEnds res)
    have run: "rhRunning s" using ready_owes [OF r, of Running] RunEnds by (simp split: if_splits)
    have e: "pc' = AtRun (RunCloses res)" "s' = s\<lparr>rhRunning := False, rhEnded := rhRuns s\<rparr>" using st RunEnds by simp_all
    have "owed k s' = owed k s - weight roles k (AtRun place) + weight roles k pc'" for k
      using run by (cases k) (simp_all add: e RunEnds weight_def)
    then show ?thesis using e rel RunEnds steady run
      by (intro changeI) (auto simp: steady_def onward_def)
  next
    case (RunCloses res)
    then show ?thesis using st by (intro q) (auto split: if_splits)
  qed
qed


lemma shutdownStep_balanced:
  assumes r: "ready_for (AtShutdown place) s" and st: "shutdownStep place input s = (pc', s')"
  shows "balanced s (AtShutdown place) s' pc'"
proof -
  note q = quiet [OF r]
  show ?thesis
  proof (cases place)
    case ShutdownCalled
    have v: "view (s\<lparr>rhClientClosed := True\<rparr>) = view s" by (simp add: view_def)
    have r': "ready_for (AtShutdown place) (s\<lparr>rhClientClosed := True\<rparr>)"
      using r v view_owed [OF v] by (simp add: ready_for_def steady_def ShutdownCalled)
    have "balanced (s\<lparr>rhClientClosed := True\<rparr>) (AtShutdown place) s' pc'"
      using st ShutdownCalled start_stop_balanced [OF r'] by auto
    then show ?thesis using view_owed [OF v] by (simp add: balanced_def onward_def)
  next
    case ShutdownStopping
    then show ?thesis using st by (intro q) (auto split: option.splits)
  next
    case (ShutdownRun perr)
    show ?thesis
    proof (cases "rhRunning s")
      case True
      then show ?thesis using st ShutdownRun by (intro q) auto
    next
      case False
      then show ?thesis using st ShutdownRun start_close_balanced [OF r] by auto
    qed
  next
    case (ShutdownWaits n perr)
    then show ?thesis using st by (intro q) (auto split: helperInput.splits if_splits)
  next
    case (ShutdownLate e perr d)
    then show ?thesis using st start_close_balanced [OF r] by auto
  next
    case (ShutdownLateInjecting e perr d)
    then show ?thesis using st by (intro q) (auto split: option.splits if_splits)
  next
    case (ShutdownInjecting perr)
    then show ?thesis using st by (intro q) (auto split: option.splits if_splits)
  next
    case (ShutdownCloses perr)
    then show ?thesis using st by (intro q) (auto split: if_splits)
  next
    case (ShutdownEnds perr)
    then show ?thesis using st by (intro q) (auto split: if_splits)
  qed
qed

lemma stopStep_balanced:
  assumes r: "ready_for (AtStop place) s" and st: "stopStep place input s = (pc', s')"
  shows "balanced s (AtStop place) s' pc'"
proof -
  have steady: "steady s" using r by (simp add: ready_for_def)
  note q = quiet [OF r] and owes = ready_owes [OF r]
  show ?thesis
  proof (cases place)
    case StopBegins
    then have e: "pc' = AtStop StopWaits" "s' = s\<lparr>rhCleanup := ''stopping'', rhCalls := rhCalls s @ [CallStop]\<rparr>"
      using st by simp_all
    have "owed k s' = owed k s - weight roles k (AtStop place) + weight roles k pc'" for k
      by (cases k) (simp_all add: e StopBegins weight_def)
    then show ?thesis using e steady by (intro changeI) (auto simp: steady_def onward_def)
  next
    case StopWaits
    then show ?thesis using st by (intro q) (auto split: helperInput.splits)
  next
    case (StopFails x d)
    show ?thesis
    proof (cases "answered input")
      case None
      then show ?thesis using st StopFails by (intro q) auto
    next
      case (Some f)
      then have e: "pc' = AtStop (StopFinishes (joinErrors [Some x, d, f]))" "s' = s\<lparr>rhCalls := rhCalls s @ [CallFailStop]\<rparr>"
        using st StopFails by simp_all
      have "owed k s' = owed k s - weight roles k (AtStop place) + weight roles k pc'" for k
        by (cases k) (simp_all add: e StopFails weight_def)
      then show ?thesis using e steady by (intro changeI) (auto simp: steady_def onward_def)
    qed
  next
    case (StopFinishes x)
    have p: "psStarted (rhProviderStop s)" "\<not> psCompleted (rhProviderStop s)"
      using owes [of StoppingProvider] StopFinishes by (auto simp: pendingStop_def split: if_splits)
    then have e: "pc' = AtStop (StopReports x)"
        "s' = s\<lparr>rhProviderStop := (rhProviderStop s)\<lparr>psCompleted := True, psErr := x\<rparr>\<rparr>"
      using st StopFinishes by (simp_all add: finishShutdown_def)
    have "owed k s' = owed k s - weight roles k (AtStop place) + weight roles k pc'" for k
      using p by (cases k) (simp_all add: e StopFinishes weight_def pendingStop_def)
    then show ?thesis using e steady p by (intro changeI) (auto simp: steady_def onward_def)
  next
    case (StopReports x)
    then show ?thesis using st by (intro q) auto
  next
    case CloseBegins
    then have e: "pc' = AtStop CloseWaits" "s' = s\<lparr>rhCalls := rhCalls s @ [CallClose]\<rparr>" using st by simp_all
    have "owed k s' = owed k s - weight roles k (AtStop place) + weight roles k pc'" for k
      by (cases k) (simp_all add: e CloseBegins weight_def)
    then show ?thesis using e steady by (intro changeI) (auto simp: steady_def onward_def)
  next
    case CloseWaits
    then show ?thesis using st by (intro q) (auto split: helperInput.splits)
  next
    case (CloseFinishes x)
    have p: "psStarted (rhInjectorStop s)" "\<not> psCompleted (rhInjectorStop s)"
      using owes [of ClosingInjector] CloseFinishes by (auto simp: pendingStop_def split: if_splits)
    then have e: "pc' = AtStop (CloseReports x)"
        "s' = s\<lparr>rhInjectorStop := (rhInjectorStop s)\<lparr>psCompleted := True, psErr := x\<rparr>\<rparr>"
      using st CloseFinishes by (simp_all add: finishShutdown_def)
    have "owed k s' = owed k s - weight roles k (AtStop place) + weight roles k pc'" for k
      using p by (cases k) (simp_all add: e CloseFinishes weight_def pendingStop_def)
    then show ?thesis using e steady p by (intro changeI) (auto simp: steady_def onward_def)
  next
    case (CloseReports x)
    then show ?thesis using st by (intro q) auto
  qed
qed

lemma afterWrite_roles: "roles (afterWrite site d) = set_option (writeRole site)"
  by (cases "(site, d)" rule: afterWrite.cases) auto

lemma afterWrite_relies: "writeRelies site s \<Longrightarrow> relies (afterWrite site d) s"
  by (cases "(site, d)" rule: afterWrite.cases) auto

lemma afterRefresh_balanced:
  assumes r: "ready_for (RefreshWrites site snap) s" and st: "afterRefresh site (refreshWrite snap s) = (pc', s')"
  shows "balanced s (RefreshWrites site snap) s' pc'"
proof (cases "site = RefreshRunning")
  case True
  let ?s = "refreshWrite snap s"
  have v: "view ?s = view s" by simp
  have e: "pc' = WriteCalled SiteRunning" "s' = ?s\<lparr>rhThreads := rhThreads s @ [Monitors (rhRuns s)]\<rparr>"
    using st True v by (simp_all add: view_def)
  have "owed k s' = owed k ?s" for k by (cases k) (simp_all add: e)
  then have o: "owed k s' = owed k s" for k using view_owed [OF v] by simp
  have "onward s s'" "steady s'" "relies pc' s'"
    using v r by (simp_all add: e onward_def view_def ready_for_def steady_def True)
  then show ?thesis
    using o by (intro balancedI [where new = "[Monitors (rhRuns s)]"]) (simp_all add: e tally_def weight_def True)
next
  case False
  then show ?thesis
    using st r by (intro quiet) (cases site; auto simp: ready_for_def)+
qed

lemma threadStep_balanced:
  assumes r: "ready_for pc s" and st: "threadStep pc input s = Some (pc', s')"
  shows "balanced s pc s' pc'"
proof (cases pc)
  case (AtRun place)
  then show ?thesis using runStep_balanced r st by simp
next
  case (AtShutdown place)
  then show ?thesis using shutdownStep_balanced r st by simp
next
  case (AtStop place)
  then show ?thesis using stopStep_balanced r st by simp
next
  case (Monitors n)
  then show ?thesis using st by (intro quiet [OF r]) (auto split: helperInput.splits if_splits)
next
  case (RefreshReads site)
  then show ?thesis using st r by (intro quiet [OF r]) (auto simp: ready_for_def split: helperInput.splits)
next
  case (RefreshWrites site snap)
  then show ?thesis using afterRefresh_balanced r st by simp
next
  case (WriteCalled site)
  then show ?thesis using st r
    by (intro quiet [OF r]) (auto simp: afterWrite_roles afterWrite_relies ready_for_def split: if_splits)
next
  case (WriteLocks site)
  show ?thesis
  proof (cases "rhDiagnosticMu s")
    case True
    then show ?thesis using st WriteLocks r by (intro quiet [OF r]) (auto simp: ready_for_def)
  next
    case False
    then have e: "pc' = RefreshReads (RefreshWriting site)" "s' = s\<lparr>rhDiagnosticMu := True\<rparr>" using st WriteLocks by auto
    have "owed k s' = owed k s - weight roles k pc + weight roles k pc'" for k
      using False by (cases k) (auto simp: e WriteLocks weight_def; cases site; simp)+
    then show ?thesis using e r WriteLocks by (intro changeI) (auto simp: steady_def onward_def ready_for_def view_def
        elim!: writeRelies.elims)
  qed
next
  case (WriteWrites site)
  show ?thesis
  proof (cases "answered input")
    case None
    then show ?thesis using st WriteWrites r by (intro quiet [OF r]) (auto simp: ready_for_def split: if_splits)
  next
    case (Some x)
    have mu: "rhDiagnosticMu s" using ready_owes [OF r, of HoldingMutex] WriteWrites by (simp split: if_splits)
    have e: "pc' = afterWrite site x" "s' = s\<lparr>rhDiagnosticMu := False\<rparr>"
      using st WriteWrites Some by (auto split: if_splits)
    have "owed k s' = owed k s - weight roles k pc + weight roles k pc'" for k
      using mu by (cases k) (auto simp: e WriteWrites weight_def afterWrite_roles; cases site; simp)+
    then show ?thesis using e r WriteWrites by (intro changeI) (auto simp: steady_def onward_def ready_for_def
        intro!: afterWrite_relies elim!: writeRelies.elims)
  qed
next
  case (Returned res)
  then show ?thesis using st r by (intro quiet [OF r]) auto
qed

text \<open>Whatever happens, the invariant holds; a step may also be the panic of \<open>writeDiagnostic\<close>.\<close>

lemma helper_inv_new: "helper_inv (newRuntime timeout contract)"
  by (auto simp: helper_inv_def newRuntime_def noShutdown_def helper.account_def tally_def steady_def
      pendingStop_def all_roles)

lemma spawn_inv: "helper_inv s \<Longrightarrow> roles pc = {} \<Longrightarrow> (\<And>r. relies pc r) \<Longrightarrow> helper_inv (spawn pc s)"
proof -
  assume inv: "helper_inv s" and pc: "roles pc = {}" "\<And>r. relies pc r"
  have o: "onward s (spawn pc s)" by (simp add: onward_def spawn_def)
  have "helper.account (spawn pc s)"
    unfolding spawn_def using inv by (intro helper.account_spawn pc(1)) (simp add: helper_inv_def)
  then show ?thesis using inv pc(2) o by (auto simp: helper_inv_def spawn_def steady_def intro: relies_onward)
qed

lemma helperStep_inv: "helper_inv s \<Longrightarrow> helperStep s e = Some s' \<Longrightarrow> helper_inv s'"
proof (cases e)
  case (Steps i input)
  assume inv: "helper_inv s" and st: "helperStep s e = Some s'"
  then show ?thesis
    using Steps balanced_inv [OF inv] threadStep_balanced [OF inv_ready [OF inv]]
    by (auto split: if_splits option.splits)
qed (auto intro!: spawn_inv)

lemma helperStep_contract: "helper_inv s \<Longrightarrow> helperStep s e = Some s' \<Longrightarrow> rhContract s' = rhContract s"
proof (cases e)
  case (Steps i input)
  assume inv: "helper_inv s" and st: "helperStep s e = Some s'"
  then show ?thesis
    using Steps threadStep_balanced [OF inv_ready [OF inv]]
    by (auto simp: balanced_def onward_def split: if_splits option.splits)
qed (auto simp: spawn_def)

lemma helperRun_inv:
  "helper_inv s \<Longrightarrow> helperRun s es = Some s' \<Longrightarrow> helper_inv s' \<and> rhContract s' = rhContract s"
proof (induction es arbitrary: s)
  case (Cons e es)
  then obtain t where t: "helperStep s e = Some t" "helperRun t es = Some s'" by (auto split: option.splits)
  then show ?case using Cons.IH [of t] helperStep_inv [OF Cons.prems(1)] helperStep_contract [OF Cons.prems(1)] by simp
qed simp

end
