(* ===== verification/Helper_Props.thy ===== *)
theory Helper_Props
  imports Helper_Inv
begin

text \<open>
  What holds in every run of the helper's runtime, and three interleavings in which it goes wrong.
\<close>

section \<open>One stop, one close, one run\<close>

lemma due_implies_stopping:
  "StopDue \<in> roles pc \<Longrightarrow> StoppingProvider \<in> roles pc" "CloseDue \<in> roles pc \<Longrightarrow> ClosingInjector \<in> roles pc"
proof -
  have w: "StopDue \<notin> set_option (writeRole site)" "CloseDue \<notin> set_option (writeRole site)" for site
    by (cases site; simp)+
  have r: "StopDue \<notin> set_option (refreshRole site)" "CloseDue \<notin> set_option (refreshRole site)"
    "StopDue \<notin> writing site" "CloseDue \<notin> writing site" for site
    using w by (cases site; simp)+
  have p: "StopDue \<notin> runRoles place" "CloseDue \<notin> runRoles place" for place by (cases place; simp)+
  have g: "StopDue \<in> stopRoles place \<Longrightarrow> StoppingProvider \<in> stopRoles place"
    "CloseDue \<in> stopRoles place \<Longrightarrow> ClosingInjector \<in> stopRoles place" for place
    by (cases place; simp)+
  show "StopDue \<in> roles pc \<Longrightarrow> StoppingProvider \<in> roles pc" "CloseDue \<in> roles pc \<Longrightarrow> ClosingInjector \<in> roles pc"
    using w r p g by (cases pc; simp)+
qed

text \<open>
  C18. One stop, one close, one run. In every run of the helper, whoever calls what when: the provider is
  told to stop at most once and the injector is closed at most once, although \<open>Run\<close> and every \<open>Shutdown\<close>
  ask for both; a stop that counts as complete was made; at most one \<open>Run\<close> is active; a provider is
  started only if its contract is the required one; and when a \<open>Run\<close> has ended and every goroutine is at
  rest, the provider was told to stop and the injector closed, exactly once each.
\<close>

theorem helper_stops_once:
  assumes "helperRun (newRuntime timeout contract) es = Some s"
  shows "count_list (rhCalls s) CallStop \<le> 1 \<and> count_list (rhCalls s) CallClose \<le> 1 \<and>
    (psCompleted (rhProviderStop s) \<longrightarrow> CallStop \<in> set (rhCalls s)) \<and>
    (psCompleted (rhInjectorStop s) \<longrightarrow> CallClose \<in> set (rhCalls s)) \<and>
    length (filter (\<lambda>pc. Running \<in> roles pc) (rhThreads s)) \<le> 1 \<and>
    (CallStart \<in> set (rhCalls s) \<longrightarrow> contract = Some RequiredWFPDriverContract) \<and>
    (0 < rhEnded s \<and> (\<forall>pc \<in> set (rhThreads s). \<exists>res. pc = Returned res) \<longrightarrow>
       count_list (rhCalls s) CallStop = 1 \<and> count_list (rhCalls s) CallClose = 1)"
proof -
  have inv: "helper_inv s" and c: "rhContract s = contract"
    using helperRun_inv [OF helper_inv_new assms] by (simp_all add: newRuntime_def)
  then have t: "\<And>k. tally roles k (rhThreads s) = owed k s" and st: "steady s" by (simp_all add: helper_inv_def helper.account_def)
  let ?n = "count_list (rhCalls s)"
  have n: "?n CallStop \<le> 1" "?n CallClose \<le> 1"
    using t [of StopDue] t [of CloseDue] tally_nonneg [of roles StopDue "rhThreads s"] tally_nonneg [of roles CloseDue "rhThreads s"]
    by (auto split: if_splits)
  have "?n CallStop = 1" if "psCompleted (rhProviderStop s)"
    using that st t [of StopDue] t [of StoppingProvider] tally_mono [of StopDue roles StoppingProvider "rhThreads s", OF due_implies_stopping(1)] n(1)
    by (auto simp: steady_def pendingStop_def)
  moreover have "?n CallClose = 1" if "psCompleted (rhInjectorStop s)"
    using that st t [of CloseDue] t [of ClosingInjector] tally_mono [of CloseDue roles ClosingInjector "rhThreads s", OF due_implies_stopping(2)] n(2)
    by (auto simp: steady_def pendingStop_def)
  moreover have "?n c = 1 \<Longrightarrow> c \<in> set (rhCalls s)" for c by (metis count_notin zero_neq_one)
  moreover have "length (filter (\<lambda>pc. Running \<in> roles pc) (rhThreads s)) \<le> 1"
    using t [of Running] by (auto simp: tally_filter split: if_splits)
  moreover have "?n CallStop = 1 \<and> ?n CallClose = 1"
    if e: "0 < rhEnded s" and r: "\<forall>pc \<in> set (rhThreads s). \<exists>res. pc = Returned res"
  proof -
    have "filter (\<lambda>pc. k \<in> roles pc) (rhThreads s) = []" for k using r by (auto simp: filter_empty_conv)
    then have "tally roles k (rhThreads s) = 0" for k by (simp only: tally_filter) simp
    then show ?thesis using t [of StopDue] t [of CloseDue] e st by (auto simp: steady_def)
  qed
  ultimately show ?thesis using n st c by (simp add: steady_def)
qed


text \<open>A shutdown of a helper that never ran, and then a run with the required contract.\<close>

definition demo_ready :: healthSees where
  "demo_ready = \<lparr>seProviderReady = True, seProviderVerified = True, seConnected = False, seAuthenticated = False,
     seLastError = None\<rparr>"

definition demo_stopped :: "helperEvent list" where
  "demo_stopped =
     [CallShutdown, Steps 0 Goes, Steps 1 Goes, Steps 1 (Answers None), Steps 1 Goes, Steps 1 Goes,
      Steps 0 Goes, Steps 0 Goes, Steps 2 Goes, Steps 2 (Answers None), Steps 2 Goes, Steps 2 Goes,
      Steps 0 Goes, Steps 0 Goes, Steps 0 Goes, Steps 0 Goes]"

definition demo_late_run :: "helperEvent list" where
  "demo_late_run =
     [CallRun, Steps 3 Goes, Steps 3 Goes, Steps 3 (Sees demo_ready), Steps 3 Goes, Steps 3 Goes,
      Steps 3 (Sees demo_ready), Steps 3 (Answers None), Steps 3 (Answers (Some [HelperError 0])),
      Steps 3 (Sees demo_ready), Steps 3 Goes, Steps 3 Goes, Steps 3 Goes, Steps 3 Goes, Steps 3 Goes, Steps 3 Goes,
      Steps 3 (Sees demo_ready), Steps 3 Goes, Steps 3 Goes, Steps 3 Goes, Steps 3 Goes, Steps 4 Goes]"

lemmas helper_eval = newRuntime_def noShutdown_def spawn_def startProviderStop_def startInjectorClose_def
  finishShutdown_def reportProviderStop_def setLifecycle_def awaits_def answered_def refreshRead_def
  provider_contract_exact Let_def

text \<open>
  A provider can be started after it was stopped, and then nobody stops it: \<open>Shutdown\<close> before \<open>Run\<close> uses
  up the one stop. Every goroutine is at rest and every call has returned.
\<close>

theorem provider_started_after_stop:
  "\<exists>s. helperRun (newRuntime 0 (Some RequiredWFPDriverContract)) (demo_stopped @ demo_late_run) = Some s \<and>
     rhCalls s = [CallStop, CallClose, CallStart] \<and> rhEnded s = 1 \<and>
     (\<forall>pc \<in> set (rhThreads s). \<exists>res. pc = Returned res)"
  by (simp add: helper_eval demo_stopped_def demo_late_run_def demo_ready_def)


theorem helper_stops_once_witness:
  "\<exists>s. helperRun (newRuntime 0 (Some RequiredWFPDriverContract)) demo_stopped = Some s \<and>
     count_list (rhCalls s) CallStop = 1 \<and> count_list (rhCalls s) CallClose \<le> 1 \<and> CallStart \<notin> set (rhCalls s)"
proof -
  let ?r = "helperRun (newRuntime 0 (Some RequiredWFPDriverContract)) demo_stopped"
  obtain s where s: "?r = Some s" and c: "rhCalls s = [CallStop, CallClose]"
    by (simp add: helper_eval demo_stopped_def)
  show ?thesis using helper_stops_once [OF s] s by (auto simp: c)
qed

text \<open>
  The last write of \<open>Shutdown\<close> can meet the end of \<open>Run\<close>: \<open>Run\<close> lets \<open>Shutdown\<close> go on and then closes the
  diagnostic file; a write that found the file open before that writes through nil.
\<close>

definition demo_ending :: "helperEvent list" where
  "demo_ending =
     [CallRun, Steps 0 Goes, Steps 0 Goes, Steps 0 Goes, Steps 0 Goes, Steps 0 (Sees demo_ready), Steps 0 Goes,
      Steps 0 (Answers None), Steps 0 Goes, Steps 1 Goes, Steps 1 (Answers None), Steps 1 Goes, Steps 1 Goes,
      Steps 0 Goes, Steps 0 Goes, Steps 2 Goes, Steps 2 (Answers None), Steps 2 Goes, Steps 2 Goes,
      Steps 0 Goes, Steps 0 (Sees demo_ready), Steps 0 Goes, Steps 0 Goes, Steps 0 Goes, Steps 0 (Sees demo_ready),
      Steps 0 Goes, Steps 0 (Answers None), CallShutdown, Steps 3 Goes, Steps 3 Goes, Steps 3 Goes]"

theorem write_after_close_panics:
  "\<exists>s. helperRun (newRuntime 0 None) demo_ending = Some s \<and> rhRunning s \<and> rhThreads s ! 3 = AtShutdown (ShutdownWaits 1 None) \<and>
     helperRun s [Steps 0 Goes, Steps 3 Goes, Steps 3 Goes, Steps 3 Goes, Steps 0 Goes, Steps 3 Goes,
       Steps 3 (Sees demo_ready), Steps 3 Goes, Steps 3 (Answers None)] = None"
  by (simp add: helper_eval demo_ending_def demo_ready_def)

text \<open>
  A refresh of the health can undo a change of the lifecycle: it reads the lifecycle, the stop times out,
  and it writes back what it read. The health then says that no stop timed out.
\<close>

theorem lifecycle_update_lost:
  "\<exists>s. helperRun (newRuntime 0 None)
       [CallHealth, Steps 0 (Sees demo_ready), CallShutdown, Steps 1 Goes, Steps 2 Goes,
        Steps 2 (Expires CtxExpired)] = Some s \<and> rhStopTimedOut s \<and> rhLifecycle s = ''stop_timeout'' \<and>
     (\<exists>t. helperRun s [Steps 0 Goes] = Some t \<and> \<not> rhStopTimedOut t \<and> rhLifecycle t = ''created'')"
  by (simp add: helper_eval demo_ready_def)

text \<open>The time a shutdown is given: positive, at most ten seconds, and within what remains to the caller.\<close>

lemma providerStopDeadline_bounds:
  "0 < providerStopDeadline configured remaining" "providerStopDeadline configured remaining \<le> 10 * time_Second"
  "remaining = Some r \<Longrightarrow> 0 < r \<Longrightarrow> providerStopDeadline configured remaining \<le> r"
  by (auto simp: providerStopDeadline_def Let_def split: option.splits)

end
