(* ===== verification/ClientManager.thy ===== *)
theory ClientManager
  imports Handshake GoStrings
begin

text \<open>
  The client's session manager (\<open>internal/tgp/client_manager.go\<close>): it dials a session when one is
  needed, one dial at a time, hands it to the senders, starts its read loop, drops it when it fails,
  and closes everything. Senders, read loops and callers of \<open>Close\<close> are threads that step between
  their critical sections in any order.

  Sessions are numbered in the order in which a dial returned them; \<open>cmSessions\<close> says which are closed.
  What a dial, a send and a read return and when contexts end are inputs. The type \<open>'a\<close> is that of
  \<open>net.Addr\<close>. The options that are only passed on to the dial functions (pacing, migration, the
  authentication key) are left out.
\<close>

section \<open>Options\<close>

definition defaultHandshakeTimeout :: duration where "defaultHandshakeTimeout = 5 * time_Second"

datatype cm_error =
    CmOptions tgp_error
  | CmNoRemote
  | CmNilRemote nat
  | CmRemoteRefused
  | CmTimeoutTooLong
  | CmResolve
  | CmDial
  | CmContext
  | CmSend
  | ErrClientManagerClosed

record 'a ClientManagerOptions =
  coRemoteAddr :: string
  coPinnedRemotes :: "'a option list"
  coLocalAddr :: string
  coLocalAddrs :: "string list"
  coFEC :: FECOptions
  coMaxDatagramSize :: int
  coHandshakeTimeout :: duration
  coValidateRemote :: "('a \<Rightarrow> bool) option"
  coOnDatagram :: bool

definition normalizeLocalAddrs :: "string list \<Rightarrow> string \<Rightarrow> string list" where
  "normalizeLocalAddrs addrs fallback =
     (let normalized = filter (\<lambda>v. v \<noteq> []) (map trimSpace addrs)
      in if normalized = [] then [fallback] else normalized)"

text \<open>The loop over the pinned remotes: none is nil, and the policy accepts each.\<close>

fun checkPinned :: "('a \<Rightarrow> bool) option \<Rightarrow> nat \<Rightarrow> 'a option list \<Rightarrow> cm_error + 'a list" where
  "checkPinned validate i [] = Inr []"
| "checkPinned validate i (None # rest) = Inl (CmNilRemote i)"
| "checkPinned validate i (Some a # rest) =
     (if (case validate of None \<Rightarrow> False | Some accepts \<Rightarrow> \<not> accepts a) then Inl CmRemoteRefused
      else case checkPinned validate (i + 1) rest of Inl e \<Rightarrow> Inl e | Inr found \<Rightarrow> Inr (a # found))"

datatype 'a dialCall = DialOne string 'a | DialMany "string list" 'a

text \<open>A thread; \<open>send\<close> says whether \<open>sessionFor\<close> was called to send a packet.\<close>

datatype cmPc =
    Calls bool
  | WaitsDial nat bool
  | Dials nat bool
  | DialDrops nat "nat option"
  | DialOver nat "cm_error"
  | DialStored nat nat bool
  | HasSession nat bool
  | SendFails nat
  | SendCloses nat
  | Reads nat
  | ReadResets nat
  | ReadCloses nat
  | CloseCalled
  | CloseMarks
  | CloseWaits "nat option" "nat option"
  | CloseSession "nat option"
  | CloseReaders
  | CloseJoins
  | CmReturned "cm_error option"

record 'a ClientManager =
  cmRemoteAddr :: string
  cmPinned :: "'a list"
  cmLocalAddr :: string
  cmLocalAddrs :: "string list"
  cmTimeout :: duration
  cmValidate :: "('a \<Rightarrow> bool) option"
  cmReceives :: bool
  cmSession :: "nat option"
  cmCancelled :: bool
  cmClosed :: bool
  cmDialing :: bool
  cmDialDone :: "nat option"
  cmDials :: nat
  cmDialsOver :: "nat set"
  cmOnce :: bool
  cmCloseOver :: bool
  cmSessions :: "bool list"
  cmDialled :: "'a dialCall list"
  cmThreads :: "cmPc list"

definition NewClientManager :: "'a ClientManagerOptions \<Rightarrow> cm_error + 'a ClientManager" where
  "NewClientManager opts =
     (case validateFECOptions (coFEC opts) of
        Some e \<Rightarrow> Inl (CmOptions e)
      | None \<Rightarrow>
          (case normalizeMaxDatagramSize (coMaxDatagramSize opts) of
             Inl e \<Rightarrow> Inl (CmOptions e)
           | Inr _ \<Rightarrow>
               let remote = trimSpace (coRemoteAddr opts)
               in if remote = [] \<and> coPinnedRemotes opts = [] then Inl CmNoRemote
                  else
                    (case checkPinned (coValidateRemote opts) 0 (coPinnedRemotes opts) of
                       Inl e \<Rightarrow> Inl e
                     | Inr pinned \<Rightarrow>
                         let local = trimSpace (coLocalAddr opts);
                             local = (if local = [] then ''0.0.0.0:0'' else local);
                             timeout = (if coHandshakeTimeout opts \<le> 0 then defaultHandshakeTimeout
                                        else coHandshakeTimeout opts)
                         in if timeout > MaxHandshakeTimeout then Inl CmTimeoutTooLong
                            else Inr \<lparr>cmRemoteAddr = remote, cmPinned = pinned, cmLocalAddr = local,
                              cmLocalAddrs = normalizeLocalAddrs (coLocalAddrs opts) local, cmTimeout = timeout,
                              cmValidate = coValidateRemote opts, cmReceives = coOnDatagram opts,
                              cmSession = None, cmCancelled = False, cmClosed = False, cmDialing = False,
                              cmDialDone = None, cmDials = 0, cmDialsOver = {}, cmOnce = False,
                              cmCloseOver = False, cmSessions = [], cmDialled = [], cmThreads = []\<rparr>)))"

text \<open>
  \<open>dialSession\<close>: the first pinned remote, or what the resolver says now; the policy is asked again; and
  more than one local address means a multipath session.
\<close>

definition dialTarget :: "'a option \<Rightarrow> 'a ClientManager \<Rightarrow> cm_error + 'a dialCall" where
  "dialTarget resolved m =
     (case (if cmPinned m \<noteq> [] then Some (hd (cmPinned m)) else resolved) of
        None \<Rightarrow> Inl CmResolve
      | Some remote \<Rightarrow>
          if (case cmValidate m of None \<Rightarrow> False | Some accepts \<Rightarrow> \<not> accepts remote) then Inl CmRemoteRefused
          else if length (cmLocalAddrs m) > 1 then Inr (DialMany (cmLocalAddrs m) remote)
          else Inr (DialOne (if length (cmLocalAddrs m) = 1 then hd (cmLocalAddrs m) else cmLocalAddr m) remote))"

section \<open>Threads\<close>

datatype 'a cmInput =
    CmGoes
  | CmCtxEnds
  | CmDialled "'a option" bool
  | CmSent bool
  | CmReadEnds

definition sessionClosed :: "'a ClientManager \<Rightarrow> nat \<Rightarrow> bool" where
  "sessionClosed m i = (i < length (cmSessions m) \<and> cmSessions m ! i)"

definition closeSession :: "nat \<Rightarrow> 'a ClientManager \<Rightarrow> 'a ClientManager" where
  "closeSession i m = m\<lparr>cmSessions := (cmSessions m)[i := True]\<rparr>"

definition resetSession :: "nat \<Rightarrow> 'a ClientManager \<Rightarrow> 'a ClientManager" where
  "resetSession i m = (if cmSession m = Some i then m\<lparr>cmSession := None\<rparr> else m)"

text \<open>The read loops the wait group counts; the goroutine starts after its session was stored.\<close>

fun reading :: "bool \<Rightarrow> cmPc \<Rightarrow> bool" where
  "reading receives (Reads i) = True"
| "reading receives (ReadResets i) = True"
| "reading receives (ReadCloses i) = True"
| "reading receives (DialStored d i send) = receives"
| "reading receives _ = False"

text \<open>\<open>sessionFor\<close>: the section at the top of its loop, and the one after the dial.\<close>

definition sessionFor :: "bool \<Rightarrow> 'a ClientManager \<Rightarrow> cmPc \<times> 'a ClientManager" where
  "sessionFor send m =
     (if cmClosed m then (CmReturned (Some ErrClientManagerClosed), m)
      else if (case cmSession m of None \<Rightarrow> False | Some i \<Rightarrow> \<not> sessionClosed m i)
      then (HasSession (the (cmSession m)) send, m)
      else if cmDialing m then (WaitsDial (the (cmDialDone m)) send, m)
      else (Dials (cmDials m) send,
            m\<lparr>cmDialing := True, cmDialDone := Some (cmDials m), cmDials := cmDials m + 1\<rparr>))"

definition dialReturned :: "nat \<Rightarrow> bool \<Rightarrow> 'a option \<Rightarrow> bool \<Rightarrow> 'a ClientManager \<Rightarrow> cmPc \<times> 'a ClientManager" where
  "dialReturned d send resolved success m =
     (let target = dialTarget resolved m;
          ok = (success \<and> (case target of Inl _ \<Rightarrow> False | Inr _ \<Rightarrow> True));
          i = length (cmSessions m);
          m = (case target of Inl _ \<Rightarrow> m | Inr call \<Rightarrow> m\<lparr>cmDialled := cmDialled m @ [call]\<rparr>);
          m = (if ok then m\<lparr>cmSessions := cmSessions m @ [False]\<rparr> else m);
          m = m\<lparr>cmDialing := False, cmDialDone := None\<rparr>
      in if cmClosed m then (DialDrops d (if ok then Some i else None), m)
         else if \<not> ok then (DialOver d (case target of Inl e \<Rightarrow> e | Inr _ \<Rightarrow> CmDial), m)
         else (DialStored d i send, m\<lparr>cmSession := Some i\<rparr>))"

text \<open>The section of \<open>Close\<close> under the mutex.\<close>

definition closeMarks :: "'a ClientManager \<Rightarrow> cmPc \<times> 'a ClientManager" where
  "closeMarks m = (CloseWaits (cmDialDone m) (cmSession m), m\<lparr>cmClosed := True, cmSession := None\<rparr>)"

text \<open>One step of a thread. A step that cannot be taken, or whose input does not fit, leaves it.\<close>

fun cmStep :: "cmPc \<Rightarrow> 'a cmInput \<Rightarrow> 'a ClientManager \<Rightarrow> cmPc \<times> 'a ClientManager" where
  "cmStep (Calls send) input m = sessionFor send m"
| "cmStep (WaitsDial d send) input m =
     (case input of
        CmGoes \<Rightarrow> if d \<in> cmDialsOver m then (Calls send, m)
                  else if cmCancelled m then (CmReturned (Some ErrClientManagerClosed), m)
                  else (WaitsDial d send, m)
      | CmCtxEnds \<Rightarrow> (CmReturned (Some CmContext), m)
      | _ \<Rightarrow> (WaitsDial d send, m))"
| "cmStep (Dials d send) input m =
     (case input of
        CmDialled resolved success \<Rightarrow> dialReturned d send resolved success m
      | _ \<Rightarrow> (Dials d send, m))"
| "cmStep (DialDrops d session) input m =
     (DialOver d ErrClientManagerClosed, case session of None \<Rightarrow> m | Some i \<Rightarrow> closeSession i m)"
| "cmStep (DialOver d e) input m = (CmReturned (Some e), m\<lparr>cmDialsOver := insert d (cmDialsOver m)\<rparr>)"
| "cmStep (DialStored d i send) input m =
     (HasSession i send,
      m\<lparr>cmDialsOver := insert d (cmDialsOver m),
        cmThreads := (if cmReceives m then cmThreads m @ [Reads i] else cmThreads m)\<rparr>)"
| "cmStep (HasSession i send) input m =
     (if \<not> send then (CmReturned None, m)
      else case input of
        CmSent success \<Rightarrow> (if success then CmReturned None else SendFails i, m)
      | _ \<Rightarrow> (HasSession i send, m))"
| "cmStep (SendFails i) input m = (SendCloses i, resetSession i m)"
| "cmStep (SendCloses i) input m = (CmReturned (Some CmSend), closeSession i m)"
| "cmStep (Reads i) input m = (case input of CmReadEnds \<Rightarrow> ReadResets i | _ \<Rightarrow> Reads i, m)"
| "cmStep (ReadResets i) input m = (ReadCloses i, resetSession i m)"
| "cmStep (ReadCloses i) input m = (CmReturned None, closeSession i m)"
| "cmStep CloseCalled input m =
     (if cmOnce m then (CloseJoins, m) else (CloseMarks, m\<lparr>cmOnce := True, cmCancelled := True\<rparr>))"
| "cmStep CloseMarks input m = closeMarks m"
| "cmStep (CloseWaits dial session) input m =
     (if (case dial of None \<Rightarrow> True | Some d \<Rightarrow> d \<in> cmDialsOver m) then (CloseSession session, m)
      else (CloseWaits dial session, m))"
| "cmStep (CloseSession session) input m =
     (CloseReaders, case session of None \<Rightarrow> m | Some i \<Rightarrow> closeSession i m)"
| "cmStep CloseReaders input m =
     (if list_ex (reading (cmReceives m)) (cmThreads m) then (CloseReaders, m)
      else (CmReturned None, m\<lparr>cmCloseOver := True\<rparr>))"
| "cmStep CloseJoins input m = (if cmCloseOver m then (CmReturned None, m) else (CloseJoins, m))"
| "cmStep (CmReturned e) input m = (CmReturned e, m)"

text \<open>
  Events: somebody sends a packet, asks for a session or closes the manager; a session closes itself; a
  thread takes a step.
\<close>

datatype 'a cmEvent =
    CmCallSend
  | CmCallEnsure
  | CmCallClose
  | CmSessionDies nat
  | CmSteps nat "'a cmInput"

fun managerStep :: "'a ClientManager \<Rightarrow> 'a cmEvent \<Rightarrow> 'a ClientManager" where
  "managerStep m CmCallSend = m\<lparr>cmThreads := cmThreads m @ [Calls True]\<rparr>"
| "managerStep m CmCallEnsure = m\<lparr>cmThreads := cmThreads m @ [Calls False]\<rparr>"
| "managerStep m CmCallClose = m\<lparr>cmThreads := cmThreads m @ [CloseCalled]\<rparr>"
| "managerStep m (CmSessionDies i) = closeSession i m"
| "managerStep m (CmSteps k input) =
     (if k < length (cmThreads m)
      then (case cmStep (cmThreads m ! k) input m of (pc, m) \<Rightarrow> m\<lparr>cmThreads := (cmThreads m)[k := pc]\<rparr>)
      else m)"

definition ActiveSessions :: "'a ClientManager \<Rightarrow> nat" where
  "ActiveSessions m = (case cmSession m of None \<Rightarrow> 0 | Some i \<Rightarrow> if sessionClosed m i then 0 else 1)"

end
