(* ===== verification/ClientManager_Inv.thy ===== *)
theory ClientManager_Inv
  imports ClientManager Threads
begin

text \<open>
  The invariant of the session manager: every dial has its one thread until it is over, every session
  is closed, current, or held by a thread that will close it, and nothing starts once it is closed.
\<close>

section \<open>What a thread stands for\<close>

datatype cmRole = Dialling nat | Dialer nat | Marking | Closing

fun cmRoles :: "cmPc \<Rightarrow> cmRole set" where
  "cmRoles (Dials d _) = {Dialling d, Dialer d}"
| "cmRoles (DialDrops d _) = {Dialling d}"
| "cmRoles (DialOver d _) = {Dialling d}"
| "cmRoles (DialStored d _ _) = {Dialling d}"
| "cmRoles CloseMarks = {Marking}"
| "cmRoles (CloseWaits _ _) = {Closing}"
| "cmRoles (CloseSession _) = {Closing}"
| "cmRoles CloseReaders = {Closing}"
| "cmRoles _ = {}"

fun cmOwed :: "cmRole \<Rightarrow> 'a ClientManager \<Rightarrow> int" where
  "cmOwed (Dialling d) m = (if d < cmDials m then 1 else 0) - (if d \<in> cmDialsOver m then 1 else 0)"
| "cmOwed (Dialer d) m = (if cmDialing m \<and> cmDialDone m = Some d then 1 else 0)"
| "cmOwed Marking m = (if cmOnce m \<and> \<not> cmClosed m then 1 else 0)"
| "cmOwed Closing m = (if cmClosed m \<and> \<not> cmCloseOver m then 1 else 0)"

interpretation manager: tallied cmRoles cmOwed cmThreads "\<lambda>ts m. m\<lparr>cmThreads := ts\<rparr>"
  by unfold_locales (simp, (case_tac k; simp))

text \<open>The session a thread will close.\<close>

fun willClose :: "cmPc \<Rightarrow> nat \<Rightarrow> bool" where
  "willClose (DialDrops d session) i = (session = Some i)"
| "willClose (SendFails j) i = (j = i)"
| "willClose (SendCloses j) i = (j = i)"
| "willClose (Reads j) i = (j = i)"
| "willClose (ReadResets j) i = (j = i)"
| "willClose (ReadCloses j) i = (j = i)"
| "willClose (CloseWaits d session) i = (session = Some i)"
| "willClose (CloseSession session) i = (session = Some i)"
| "willClose _ i = False"

text \<open>A session that is not forgotten.\<close>

definition cared :: "(nat \<Rightarrow> bool) \<Rightarrow> 'a ClientManager \<Rightarrow> nat \<Rightarrow> bool" where
  "cared held m i \<longleftrightarrow> cmSessions m ! i \<or> cmSession m = Some i \<or> held i"

definition held_by :: "cmPc set \<Rightarrow> nat \<Rightarrow> bool" where
  "held_by pcs i \<longleftrightarrow> (\<exists>pc \<in> pcs. willClose pc i)"

text \<open>The dial that \<open>Close\<close> waits for.\<close>

definition awaited :: "'a ClientManager \<Rightarrow> cmPc \<Rightarrow> bool" where
  "awaited m pc \<longleftrightarrow> (\<exists>session. pc = CloseWaits (cmDialDone m) session)"

definition cm_steady :: "'a ClientManager \<Rightarrow> bool" where
  "cm_steady m \<longleftrightarrow>
     (cmClosed m \<longrightarrow> cmOnce m \<and> cmSession m = None) \<and> (cmCloseOver m \<longrightarrow> cmClosed m) \<and>
     (cmDialing m \<longrightarrow> (\<exists>d. cmDialDone m = Some d)) \<and> (\<not> cmDialing m \<longrightarrow> cmDialDone m = None) \<and>
     (\<forall>i. cmSession m = Some i \<longrightarrow> i < length (cmSessions m) \<and> (cmDialing m \<longrightarrow> cmSessions m ! i))"

definition cm_inv :: "'a ClientManager \<Rightarrow> bool" where
  "cm_inv m \<longleftrightarrow> manager.account m \<and> cm_steady m \<and>
     (\<forall>i < length (cmSessions m). cared (held_by (set (cmThreads m))) m i) \<and>
     (cmClosed m \<and> cmDialing m \<longrightarrow> (\<exists>pc \<in> set (cmThreads m). awaited m pc)) \<and>
     (cmCloseOver m \<longrightarrow> (\<forall>pc \<in> set (cmThreads m). \<not> reading (cmReceives m) pc))"

section \<open>Steps keep it\<close>

text \<open>What a step of a thread keeps for the others, and owes itself.\<close>

definition fair :: "'a ClientManager \<Rightarrow> cmPc \<Rightarrow> 'a ClientManager \<Rightarrow> cmPc \<Rightarrow> cmPc list \<Rightarrow> bool" where
  "fair m pc m' pc' new \<longleftrightarrow>
     cmThreads m' = cmThreads m @ new \<and> cmReceives m' = cmReceives m \<and>
     (\<forall>k. cmOwed k m' = cmOwed k m - weight cmRoles k pc + weight cmRoles k pc' + tally cmRoles k new) \<and>
     cm_steady m' \<and> length (cmSessions m) \<le> length (cmSessions m') \<and>
     (\<forall>i < length (cmSessions m). cmSessions m ! i \<longrightarrow> cmSessions m' ! i) \<and>
     (\<forall>i < length (cmSessions m'). (length (cmSessions m) \<le> i \<or> cmSession m = Some i \<or> willClose pc i) \<longrightarrow>
        cared (\<lambda>i. willClose pc' i \<or> held_by (set new) i) m' i) \<and>
     (cmClosed m' \<and> cmDialing m' \<longrightarrow>
        awaited m' pc' \<or> cmClosed m \<and> cmDialing m \<and> cmDialDone m' = cmDialDone m \<and> \<not> awaited m pc) \<and>
     (cmCloseOver m' \<longrightarrow> \<not> reading (cmReceives m) pc' \<and> (\<forall>t \<in> set new. \<not> reading (cmReceives m) t) \<and>
        (cmCloseOver m \<or> (\<forall>t \<in> set (cmThreads m). \<not> reading (cmReceives m) t)))"

lemma fair_inv:
  assumes inv: "cm_inv m" and k: "k < length (cmThreads m)" and f: "fair m (cmThreads m ! k) m' pc' new"
  shows "cm_inv (m'\<lparr>cmThreads := (cmThreads m')[k := pc']\<rparr>)"
proof -
  let ?m = "m'\<lparr>cmThreads := (cmThreads m')[k := pc']\<rparr>" and ?pc = "cmThreads m ! k"
  have t: "cmThreads m' = cmThreads m @ new" using f by (simp add: fair_def)
  have sub: "set (cmThreads ?m) \<subseteq> insert pc' (set (cmThreads m) \<union> set new)"
    using set_update_subset_insert [of "cmThreads m'" k pc'] by (auto simp: t)
  have new: "pc' \<in> set (cmThreads ?m)" "set new \<subseteq> set (cmThreads ?m)"
    using k by (auto simp: t list_update_append intro: set_update_memI)
  have others: "pc \<in> set (cmThreads ?m)" if "pc \<in> set (cmThreads m)" "pc \<noteq> ?pc" for pc
    using that k by (force simp: t list_update_append in_set_conv_nth nth_list_update)
  have "manager.account ?m"
    using inv f by (intro manager.account_step [OF _ k t]) (simp_all add: cm_inv_def fair_def)
  moreover have "cm_steady ?m" using f by (simp add: fair_def cm_steady_def)
  moreover have "cared (held_by (set (cmThreads ?m))) ?m i" if i: "i < length (cmSessions ?m)" for i
  proof (cases "length (cmSessions m) \<le> i \<or> cmSession m = Some i \<or> willClose ?pc i")
    case True
    have "i < length (cmSessions m')" using i by simp
    then have "cared (\<lambda>i. willClose pc' i \<or> held_by (set new) i) m' i" using True f unfolding fair_def by blast
    then show ?thesis using new by (auto simp: cared_def held_by_def)
  next
    case False
    then have c: "cared (held_by (set (cmThreads m))) m i" and l: "i < length (cmSessions m)"
      using inv by (auto simp: cm_inv_def)
    have "held_by (set (cmThreads ?m)) i" if "held_by (set (cmThreads m)) i"
      using that False others by (auto simp: held_by_def)
    then show ?thesis using c l False f by (auto simp: cared_def fair_def)
  qed
  moreover have "\<exists>pc \<in> set (cmThreads ?m). awaited ?m pc" if a: "cmClosed ?m" "cmDialing ?m"
  proof (cases "awaited m' pc'")
    case True
    then show ?thesis using new(1) by (auto simp: awaited_def)
  next
    case False
    then have c: "cmClosed m" "cmDialing m" "cmDialDone m' = cmDialDone m" "\<not> awaited m ?pc"
      using f a by (auto simp: fair_def)
    then obtain pc where "pc \<in> set (cmThreads m)" "awaited m pc" using inv by (auto simp: cm_inv_def)
    moreover from this c have "pc \<noteq> ?pc" by auto
    ultimately show ?thesis using others [of pc] c by (intro bexI [of _ pc]) (simp_all add: awaited_def)
  qed
  moreover have "\<not> reading (cmReceives ?m) pc" if "cmCloseOver ?m" "pc \<in> set (cmThreads ?m)" for pc
    using that sub inv f by (auto simp: fair_def cm_inv_def)
  ultimately show ?thesis unfolding cm_inv_def by blast
qed


lemma fair_same:
  assumes "cm_steady m" and "cmRoles pc' = cmRoles pc" and "\<And>i. willClose pc i \<Longrightarrow> willClose pc' i"
    and "cmClosed m \<Longrightarrow> cmDialing m \<Longrightarrow> awaited m pc \<Longrightarrow> awaited m pc'"
    and "cmCloseOver m \<Longrightarrow> \<not> reading (cmReceives m) pc'"
  shows "fair m pc m pc' []"
  using assms by (auto simp: fair_def cared_def held_by_def tally_def weight_def)

lemma fair_change:
  assumes "cm_steady m" "cm_steady m'" and "\<And>k. cmOwed k m' = cmOwed k m - weight cmRoles k pc + weight cmRoles k pc'"
    and "cmThreads m' = cmThreads m" "cmReceives m' = cmReceives m" "cmSessions m' = cmSessions m"
    and "\<And>i. i < length (cmSessions m) \<Longrightarrow> cmSession m = Some i \<or> willClose pc i \<Longrightarrow> cared (willClose pc') m' i"
    and "cmClosed m' \<Longrightarrow> cmDialing m' \<Longrightarrow>
        awaited m' pc' \<or> cmClosed m \<and> cmDialing m \<and> cmDialDone m' = cmDialDone m \<and> \<not> awaited m pc"
    and "cmCloseOver m' \<Longrightarrow> cmCloseOver m \<and> \<not> reading (cmReceives m) pc'"
  shows "fair m pc m' pc' []"
  using assms by (auto simp: fair_def tally_def cared_def held_by_def)

lemma reset_owed [simp]: "cmOwed k (resetSession i m) = cmOwed k m"
  by (cases k) (simp_all add: resetSession_def)

lemma close_owed [simp]: "cmOwed k (closeSession i m) = cmOwed k m"
  by (cases k) (simp_all add: closeSession_def)

lemma update_true: "j < length xs \<Longrightarrow> xs[i := True] ! j \<longleftrightarrow> i = j \<or> xs ! j"
  by (cases "i < length xs") (auto simp: nth_list_update)

lemma sessions_owed [simp]:
  "cmOwed k (m\<lparr>cmSessions := x\<rparr>) = cmOwed k m" "cmOwed k (m\<lparr>cmSession := y\<rparr>) = cmOwed k m"
  by (cases k; simp)+

lemma fair_reset:
  assumes "cm_steady m" and "cmRoles pc = {}" "cmRoles pc' = {}" and "willClose pc' i" "\<And>j. willClose pc j \<Longrightarrow> j = i"
    and "\<not> awaited m pc" and "cmCloseOver m \<Longrightarrow> \<not> reading (cmReceives m) pc'"
  shows "fair m pc (resetSession i m) pc' []"
proof (cases "cmSession m = Some i")
  case True
  have "cm_steady (m\<lparr>cmSession := None\<rparr>)" using assms(1) by (simp add: cm_steady_def)
  then show ?thesis
    using assms True
    by (intro fair_change) (auto simp: resetSession_def weight_def cared_def awaited_def)
next
  case False
  then show ?thesis using assms by (simp add: resetSession_def) (intro fair_same; auto)
qed

lemma fair_close:
  assumes "cm_steady m" and "cmRoles pc' = cmRoles pc" and "\<And>j. willClose pc j \<Longrightarrow> j = i"
    and "\<not> awaited m pc" and "cmCloseOver m \<Longrightarrow> \<not> reading (cmReceives m) pc'"
  shows "fair m pc (closeSession i m) pc' []"
proof -
  have "cm_steady (closeSession i m)"
    using assms(1) by (auto simp: cm_steady_def closeSession_def update_true)
  then show ?thesis using assms(2-)
    by (auto simp: fair_def tally_def weight_def closeSession_def cared_def awaited_def update_true)
qed

text \<open>A dial that returned; \<open>ok\<close> when it gave a session.\<close>

lemma fair_dialled:
  assumes steady: "cm_steady m" and d: "cmDialing m" "cmDialDone m = Some d"
    and m': "m' = m\<lparr>cmDialled := calls, cmSessions := cmSessions m @ (if ok then [False] else []), cmDialing := False,
        cmDialDone := None, cmSession := (if ok \<and> \<not> cmClosed m then Some (length (cmSessions m)) else cmSession m)\<rparr>"
    and roles: "cmRoles pc' = {Dialling d}" and read: "reading (cmReceives m) pc' \<Longrightarrow> \<not> cmClosed m"
    and held: "ok \<Longrightarrow> cmClosed m \<Longrightarrow> willClose pc' (length (cmSessions m))"
  shows "fair m (Dials d send) m' pc' []"
proof -
  have "cmOwed r m' = cmOwed r m - weight cmRoles r (Dials d send) + weight cmRoles r pc' + tally cmRoles r []" for r
    using d by (cases r) (auto simp: m' weight_def roles tally_def)
  moreover have "cm_steady m'" using steady d by (auto simp: cm_steady_def m' nth_append)
  moreover have "cared (\<lambda>i. willClose pc' i \<or> held_by (set []) i) m' i"
    if "i < length (cmSessions m')" "length (cmSessions m) \<le> i \<or> cmSession m = Some i" for i
  proof (cases "i < length (cmSessions m)")
    case True
    then have "cmSession m = Some i" "cmSessions m ! i" using that(2) steady d by (auto simp: cm_steady_def)
    then show ?thesis using True by (simp add: cared_def m' nth_append)
  next
    case False
    then have "ok" "i = length (cmSessions m)" using that by (auto simp: m' split: if_splits)
    then show ?thesis using held by (auto simp: cared_def m')
  qed
  ultimately show ?thesis using read steady unfolding fair_def by (auto simp: m' nth_append cm_steady_def)
qed

lemma step_fair:
  assumes inv: "cm_inv m" and k: "k < length (cmThreads m)" and pc: "pc = cmThreads m ! k"
    and st: "cmStep pc input m = (pc', m')"
  shows "\<exists>new. fair m pc m' pc' new"
proof -
  have steady: "cm_steady m" and acc: "manager.account m" using inv by (simp_all add: cm_inv_def)
  have mem: "pc \<in> set (cmThreads m)" using k pc by simp
  have owes: "1 \<le> cmOwed r m" if "r \<in> cmRoles pc" for r by (rule manager.account_owes [OF acc mem that])
  have quietly: "\<not> reading (cmReceives m) pc" if "cmCloseOver m" using that inv mem by (simp add: cm_inv_def)
  note same = fair_same [OF steady] and change = fair_change [OF steady]
  show ?thesis
  proof (cases pc)
    case (Calls send)
    show ?thesis
    proof (cases "cmClosed m \<or> (\<exists>i. cmSession m = Some i \<and> \<not> sessionClosed m i) \<or> cmDialing m")
      case True
      then have "m' = m \<and> cmRoles pc' = {} \<and> \<not> reading (cmReceives m) pc'"
        using st Calls by (auto simp: sessionFor_def split: if_splits option.splits)
      then show ?thesis using Calls by (intro exI [of _ "[]"]) (auto intro!: same simp: awaited_def)
    next
      case False
      then have e: "pc' = Dials (cmDials m) send"
          "m' = m\<lparr>cmDialing := True, cmDialDone := Some (cmDials m), cmDials := cmDials m + 1\<rparr>"
        using st Calls by (auto simp: sessionFor_def split: if_splits option.splits)
      have "cmDials m \<notin> cmDialsOver m"
        using acc tally_nonneg [of cmRoles "Dialling (cmDials m)" "cmThreads m"] by (auto simp: manager.account_def split: if_splits)
      then have "cmOwed r m' = cmOwed r m - weight cmRoles r pc + weight cmRoles r pc'" for r
        using False by (cases r) (auto simp: e Calls weight_def)
      then show ?thesis using False steady e Calls
        by (intro exI [of _ "[]"] change) (auto simp: cm_steady_def sessionClosed_def cared_def)
    qed
  next
    case (WaitsDial d send)
    then have "m' = m \<and> cmRoles pc' = {} \<and> \<not> reading (cmReceives m) pc'"
      using st by (auto split: cmInput.splits if_splits)
    then show ?thesis using WaitsDial by (intro exI [of _ "[]"]) (auto intro!: same simp: awaited_def)
  next
    case (Dials d send)
    have o: "cmDialing m" "cmDialDone m = Some d" using owes [of "Dialer d"] Dials by (auto split: if_splits)
    show ?thesis
    proof (cases "\<exists>resolved success. input = CmDialled resolved success")
      case False
      then have "m' = m" "pc' = pc" using st Dials by (auto split: cmInput.splits)
      then show ?thesis using Dials by (intro exI [of _ "[]"]) (auto intro!: same simp: awaited_def)
    next
      case True
      then obtain resolved success where st: "dialReturned d send resolved success m = (pc', m')" using st Dials by auto
      define target where "target = dialTarget resolved m"
      define ok where "ok \<longleftrightarrow> success \<and> (case target of Inl _ \<Rightarrow> False | Inr _ \<Rightarrow> True)"
      define calls where "calls = (case target of Inl _ \<Rightarrow> cmDialled m | Inr call \<Rightarrow> cmDialled m @ [call])"
      have m': "m' = m\<lparr>cmDialled := calls, cmSessions := cmSessions m @ (if ok then [False] else []), cmDialing := False,
          cmDialDone := None, cmSession := (if ok \<and> \<not> cmClosed m then Some (length (cmSessions m)) else cmSession m)\<rparr>"
        and p: "pc' = (if cmClosed m then DialDrops d (if ok then Some (length (cmSessions m)) else None)
          else if ok then DialStored d (length (cmSessions m)) send
          else DialOver d (case target of Inl e \<Rightarrow> e | Inr _ \<Rightarrow> CmDial))"
        using st unfolding dialReturned_def Let_def target_def [symmetric] ok_def [symmetric] calls_def
        by (auto split: if_splits sum.splits)
      show ?thesis unfolding Dials
        by (intro exI [of _ "[]"] fair_dialled [OF steady o m']) (auto simp: p)
    qed
  next
    case (DialDrops d session)
    show ?thesis
    proof (cases session)
      case None
      then have "m' = m" "pc' = DialOver d ErrClientManagerClosed" using st DialDrops by simp_all
      then show ?thesis using DialDrops None by (intro exI [of _ "[]"]) (simp, rule same; simp add: awaited_def)
    next
      case (Some i)
      then show ?thesis using st DialDrops by (intro exI [of _ "[]"]) (auto intro!: fair_close steady simp: awaited_def)
    qed
  next
    case (DialOver d x)
    have o: "d < cmDials m" "d \<notin> cmDialsOver m" using owes [of "Dialling d"] DialOver by (auto split: if_splits)
    have e: "pc' = CmReturned (Some x)" "m' = m\<lparr>cmDialsOver := insert d (cmDialsOver m)\<rparr>" using st DialOver by simp_all
    have "cmOwed r m' = cmOwed r m - weight cmRoles r pc + weight cmRoles r pc'" for r
      using o by (cases r) (auto simp: e DialOver weight_def)
    then show ?thesis using steady e DialOver
      by (intro exI [of _ "[]"] change) (auto simp: cm_steady_def cared_def awaited_def)
  next
    case (DialStored d i send)
    have o: "d < cmDials m" "d \<notin> cmDialsOver m" using owes [of "Dialling d"] DialStored by (auto split: if_splits)
    let ?new = "if cmReceives m then [Reads i] else []"
    have e: "pc' = HasSession i send"
      "m' = m\<lparr>cmDialsOver := insert d (cmDialsOver m), cmThreads := cmThreads m @ ?new\<rparr>"
      using st DialStored by auto
    have "cmOwed r m' = cmOwed r m - weight cmRoles r pc + weight cmRoles r pc' + tally cmRoles r ?new" for r
      using o by (cases r) (auto simp: e DialStored weight_def tally_def)
    moreover have "cm_steady m'" using steady e by (simp add: cm_steady_def)
    ultimately show ?thesis using e DialStored quietly
      by (intro exI [of _ ?new]) (auto simp: fair_def cared_def awaited_def)
  next
    case (HasSession i send)
    then have "m' = m \<and> cmRoles pc' = {} \<and> \<not> reading (cmReceives m) pc'"
      using st by (auto split: cmInput.splits if_splits)
    then show ?thesis using HasSession by (intro exI [of _ "[]"]) (auto intro!: same simp: awaited_def)
  next
    case (SendFails i)
    then show ?thesis using st by (intro exI [of _ "[]"]) (auto intro!: fair_reset steady simp: awaited_def)
  next
    case (SendCloses i)
    then show ?thesis using st by (intro exI [of _ "[]"]) (auto intro!: fair_close steady simp: awaited_def)
  next
    case (Reads i)
    then have "m' = m \<and> (pc' = Reads i \<or> pc' = ReadResets i)" using st by (auto split: cmInput.splits)
    then show ?thesis using Reads quietly by (intro exI [of _ "[]"]) (auto intro!: same simp: awaited_def)
  next
    case (ReadResets i)
    then show ?thesis using st quietly by (intro exI [of _ "[]"]) (auto intro!: fair_reset steady simp: awaited_def)
  next
    case (ReadCloses i)
    then show ?thesis using st by (intro exI [of _ "[]"]) (auto intro!: fair_close steady simp: awaited_def)
  next
    case CloseCalled
    show ?thesis
    proof (cases "cmOnce m")
      case True
      then have "m' = m \<and> pc' = CloseJoins" using st CloseCalled by simp
      then show ?thesis using CloseCalled by (intro exI [of _ "[]"]) (auto intro!: same simp: awaited_def)
    next
      case False
      then have e: "pc' = CloseMarks" "m' = m\<lparr>cmOnce := True, cmCancelled := True\<rparr>" using st CloseCalled by simp_all
      have "cmOwed r m' = cmOwed r m - weight cmRoles r pc + weight cmRoles r pc'" for r
        using False steady by (cases r) (auto simp: e CloseCalled weight_def cm_steady_def)
      then show ?thesis using steady e CloseCalled False
        by (intro exI [of _ "[]"] change) (auto simp: cm_steady_def cared_def)
    qed
  next
    case CloseMarks
    have o: "cmOnce m" "\<not> cmClosed m" using owes [of Marking] CloseMarks by (auto split: if_splits)
    have e: "pc' = CloseWaits (cmDialDone m) (cmSession m)" "m' = m\<lparr>cmClosed := True, cmSession := None\<rparr>"
      using st CloseMarks by (simp_all add: closeMarks_def)
    have "cmOwed r m' = cmOwed r m - weight cmRoles r pc + weight cmRoles r pc'" for r
      using o steady by (cases r) (auto simp: e CloseMarks weight_def cm_steady_def)
    then show ?thesis using steady e CloseMarks o
      by (intro exI [of _ "[]"] change) (auto simp: cm_steady_def cared_def awaited_def)
  next
    case (CloseWaits dial session)
    have no: "\<not> awaited m pc" if go: "case dial of None \<Rightarrow> True | Some d \<Rightarrow> d \<in> cmDialsOver m" and di: "cmDialing m"
    proof
      assume "awaited m pc"
      then obtain d where d: "cmDialDone m = Some d" "d \<in> cmDialsOver m"
        using go di steady CloseWaits by (auto simp: awaited_def cm_steady_def)
      then obtain t where t: "t \<in> set (cmThreads m)" "Dialer d \<in> cmRoles t"
        using manager.account_has [OF acc, of "Dialer d"] di by auto
      have "Dialling d \<in> cmRoles t" using t(2) by (cases t) auto
      then show False using manager.account_owes [OF acc t(1)] d by (force split: if_splits)
    qed
    have e: "m' = m" using st CloseWaits by (auto split: if_splits)
    show ?thesis unfolding e using st CloseWaits no
      by (intro exI [of _ "[]"] same steady) (auto simp: awaited_def split: if_splits)
  next
    case (CloseSession session)
    show ?thesis
    proof (cases session)
      case None
      then have "m' = m" "pc' = CloseReaders" using st CloseSession by simp_all
      then show ?thesis using CloseSession None by (intro exI [of _ "[]"]) (simp, rule same; simp add: awaited_def)
    next
      case (Some i)
      then show ?thesis using st CloseSession by (intro exI [of _ "[]"]) (auto intro!: fair_close steady simp: awaited_def)
    qed
  next
    case CloseReaders
    show ?thesis
    proof (cases "list_ex (reading (cmReceives m)) (cmThreads m)")
      case True
      then have "m' = m \<and> pc' = pc" using st CloseReaders by simp
      then show ?thesis using CloseReaders by (intro exI [of _ "[]"]) (auto intro!: same simp: awaited_def)
    next
      case False
      have o: "cmClosed m" "\<not> cmCloseOver m" using owes [of Closing] CloseReaders by (auto split: if_splits)
      have e: "pc' = CmReturned None" "m' = m\<lparr>cmCloseOver := True\<rparr>" using st CloseReaders False by simp_all
      have "cmOwed r m' = cmOwed r m - weight cmRoles r pc + weight cmRoles r pc'" for r
        using o by (cases r) (auto simp: e CloseReaders weight_def)
      moreover have "cm_steady m'" using steady o e by (simp add: cm_steady_def)
      ultimately show ?thesis using e CloseReaders False
        by (intro exI [of _ "[]"]) (auto simp: fair_def tally_def cared_def awaited_def list_ex_iff)
    qed
  next
    case CloseJoins
    then have "m' = m \<and> cmRoles pc' = {} \<and> \<not> reading (cmReceives m) pc'" using st by (auto split: if_splits)
    then show ?thesis using CloseJoins by (intro exI [of _ "[]"]) (auto intro!: same simp: awaited_def)
  next
    case (CmReturned x)
    then have "m' = m \<and> pc' = pc" using st by simp
    then show ?thesis using CmReturned by (intro exI [of _ "[]"]) (auto intro!: same simp: awaited_def)
  qed
qed


section \<open>Every run\<close>

lemma new_fresh:
  assumes "NewClientManager opts = Inr m"
  shows "cmThreads m = []" "cmSessions m = []" "cmSession m = None" "\<not> cmClosed m" "\<not> cmOnce m" "\<not> cmCloseOver m"
    "\<not> cmDialing m" "cmDialDone m = None" "cmDials m = 0" "cmDialsOver m = {}" "cmDialled m = []"
  using assms by (auto simp: NewClientManager_def Let_def split: option.splits sum.splits if_splits)

lemma cm_inv_new:
  assumes "NewClientManager opts = Inr m"
  shows "cm_inv m"
proof -
  have "cmOwed k m = 0" for k by (cases k) (simp_all add: new_fresh [OF assms])
  then show ?thesis
    by (simp add: cm_inv_def cm_steady_def manager.account_def tally_def new_fresh [OF assms])
qed

lemma spawn_cm_inv:
  assumes "cm_inv m" and "cmRoles pc = {}" and "\<not> reading (cmReceives m) pc"
  shows "cm_inv (m\<lparr>cmThreads := cmThreads m @ [pc]\<rparr>)"
proof -
  have "manager.account (m\<lparr>cmThreads := cmThreads m @ [pc]\<rparr>)"
    using assms by (intro manager.account_spawn) (simp_all add: cm_inv_def)
  then show ?thesis
    using assms by (auto simp: cm_inv_def cm_steady_def cared_def held_by_def awaited_def)
qed

lemma dies_cm_inv: "cm_inv m \<Longrightarrow> cm_inv (closeSession i m)"
  by (auto simp: cm_inv_def manager.account_def cm_steady_def cared_def awaited_def closeSession_def update_true)

lemma managerStep_inv: "cm_inv m \<Longrightarrow> cm_inv (managerStep m e)"
proof (cases e)
  case (CmSteps k input)
  assume inv: "cm_inv m"
  show ?thesis
  proof (cases "k < length (cmThreads m)")
    case True
    obtain pc' m' where st: "cmStep (cmThreads m ! k) input m = (pc', m')" by fastforce
    then obtain new where "fair m (cmThreads m ! k) m' pc' new" using step_fair [OF inv True refl st] by blast
    then show ?thesis using fair_inv [OF inv True] st CmSteps True by simp
  qed (use inv CmSteps in simp)
qed (auto intro: spawn_cm_inv dies_cm_inv)

interpretation manager_machine: invariant_machine managerStep cm_inv
  by unfold_locales (rule managerStep_inv)

end
