(* ===== verification/Spec2Isabelle.thy ===== *)
theory Spec2Isabelle
  imports Relay_Props Registry_Props Path_Proof ServerRelay_ACL ServerRelay_Pool Routes_Props NamedPipe_Props
    NamedPipe_Writer NamedPipe_Client_Props Capture_Props Helper_Props ClientManager_Props
begin

text \<open>
  Tachyon Core is a game accelerator written in Go. On the client a TUN device captures packets, a
  pipeline decides per packet between the tunnel (TGP), the direct way and dropping, and UDP packets for
  the tunnel become datagrams of an encrypted session with a relay; the relay hands their payloads to the
  targets it allows and returns the answers. A separate helper process can capture UDP by a driver and
  give it to the core over a named pipe. This development models these parts as they are written and
  proves what makes them correct. File names below are under \<open>src/\<close>.

  Conventions. A Go function is a HOL function of the same name; a method takes its receiver as an
  argument and returns it updated. Structs are records, enumerations and errors datatypes, an error
  result is \<open>Inl e\<close> or \<open>Some e\<close>. Fixed-width integers are words (\<open>Prelude\<close>), \<open>int\<close> of Go is an integer with
  the wrap-around written out where it can happen, times and durations are integers of nanoseconds. Maps
  are association lists without double keys (\<open>GoMap\<close>), strings lists of bytes with the functions of
  \<open>strings\<close> and \<open>strconv\<close> that are used (\<open>GoStrings\<close>; letter case and white space are ASCII). Objects
  reached by pointers lie in a heap inside the state of their owner. Code under a mutex is one step.
  Where goroutines meet, the state is run through lists of events (\<open>run step state events\<close>) in any order,
  or each goroutine has a program place and steps by itself (\<open>Threads\<close>, used for the helper and the
  session manager, and the step relations of \<open>Multipath\<close>). What the program gets from outside (times,
  random bytes, results of reads, writes and system calls) is an argument of the step that gets it, so
  properties hold for whatever comes.

  Theories, in the order of the layers:

  \<^item> \<open>Prelude\<close>, \<open>GoMap\<close>, \<open>GoStrings\<close>, \<open>Threads\<close>: the shared layer, with the interfaces \<open>wire_format\<close> and
    \<open>canonical_format\<close> (what is encoded is read back; nothing else is read), \<open>invariant_machine\<close> and
    \<open>bounded_machine\<close>, \<open>first_seen_filter\<close>, \<open>go_map\<close> and \<open>tallied\<close> (threads counted by their roles). Each
    is interpreted on the definitions of the components that provide it.
  \<^item> \<open>Protocol\<close>, \<open>Codec\<close>, \<open>Crypto\<close> (\<open>internal/tgp/protocol.go\<close>, \<open>codec.go\<close>, \<open>crypto.go\<close>): packets, sealing and
    opening, key derivation. The header layouts are canonical formats, and opening returns what was sealed.
  \<^item> \<open>Tunnel\<close> (\<open>tunnel.go\<close>): the datagrams inside a session, as a canonical format.
  \<^item> \<open>FEC\<close>, \<open>FECAdaptive\<close>, \<open>FEC_Receive\<close>, \<open>FEC_Recovery\<close> (\<open>fec.go\<close>, \<open>fec_adaptive.go\<close>): framing, coding, the
    receive buffer with its bounds, recovery of lost payloads.
  \<^item> \<open>Dedup\<close>, \<open>Session\<close> and \<open>Session_*\<close> (\<open>session.go\<close>, \<open>pacer.go\<close>): the replay window; sending, the read loop,
    migration, closing. Nonces are unique, replays have no effect, memory is bounded, payloads arrive.
  \<^item> \<open>PathControl\<close>, \<open>Handshake\<close>, \<open>Handshake_Props\<close> (\<open>path_control.go\<close>, \<open>handshake.go\<close>): the messages, the
    dialler and the acceptor; a handshake ends with two sessions that fit together.
  \<^item> \<open>Relay\<close>, \<open>Relay_Router\<close>, \<open>Relay_Props\<close> (\<open>relay.go\<close>): the demultiplexer of the relay's socket, admission
    and the accept loop; the agreement of its tables, proof of new paths, cookies.
  \<^item> \<open>Multipath\<close>, \<open>Multipath_Props\<close>, \<open>Path_Proof\<close> (\<open>multipath_transport.go\<close>): several paths of a client, the
    result of a write, the end of \<open>Close\<close>, and the path proof of both sides together.
  \<^item> \<open>ClientManager\<close>, \<open>ClientManager_Inv\<close>, \<open>ClientManager_Props\<close> (\<open>client_manager.go\<close>): the one session of a
    client, shared by senders, read loops and \<open>Close\<close>.
  \<^item> \<open>Registry\<close>, \<open>Registry_Inv\<close>, \<open>Registry_Props\<close> (\<open>internal/capturedudp/registry.go\<close>): attachments, the
    controller's capability, policy generations, leases, sequence numbers, buffer budgets.
  \<^item> \<open>NamedPipe\<close>, \<open>NamedPipe_Codec\<close>, \<open>NamedPipe_Writer\<close>, \<open>NamedPipe_Serve\<close>, \<open>NamedPipe_Client\<close>,
    \<open>NamedPipe_Client_Inv\<close>, \<open>NamedPipe_Client_Props\<close>, \<open>NamedPipe_Props\<close> (\<open>namedpipe_protocol.go\<close>,
    \<open>namedpipe_server.go\<close>, \<open>namedpipe_client.go\<close>): frames, the server's writer and loop, the client, and
    the registry's operations through the pipe.
  \<^item> \<open>Capture\<close>, \<open>Capture_Props\<close>, \<open>Helper\<close>, \<open>Helper_Inv\<close>, \<open>Helper_Props\<close> (\<open>internal/helper/capture.go\<close>,
    \<open>runtime.go\<close>): the messages and the contract of the capture driver; running and stopping the helper.
  \<^item> \<open>Packet\<close>, \<open>Packet_Wire\<close>, \<open>Routing\<close>, \<open>Routing_Service\<close>, \<open>Pipeline\<close>, \<open>Pipeline_Props\<close> (\<open>internal/pipeline\<close>,
    \<open>internal/routing\<close>, \<open>internal/pidtrack/tracker.go\<close>, \<open>internal/app/client_handler.go\<close>): parsing and
    building packets, profiles and their service, the decision, the client's handler.
  \<^item> \<open>Config\<close>, \<open>Config_Props\<close> (\<open>internal/config/config.go\<close>, conversions of \<open>internal/app/app.go\<close>): the whole
    validation, and what a validated configuration guarantees and what it does not.
  \<^item> \<open>ServerRelay\<close>, \<open>ServerRelay_ACL\<close>, \<open>ServerRelay_Pool\<close> (\<open>internal/app/server_handler.go\<close>): allowed targets
    and the pool of flows to them.
  \<^item> \<open>Routes\<close>, \<open>Routes_Inv\<close>, \<open>Routes_Table\<close>, \<open>Routes_Plan\<close>, \<open>Routes_Quiet\<close>, \<open>Routes_Props\<close> (\<open>internal/tun/routes.go\<close>,
    \<open>routes_windows.go\<close>, \<open>routes_windows_journal.go\<close>, the relay policy of \<open>app.go\<close>): routes through the TUN
    device, their journal and its recovery after a crash.
  \<^item> This theory: the payload budget of captured UDP, which needs the codec, FEC and the tunnel format.

  Abstract specifications. The profile service refines a finite map (\<open>Routing_Service\<close>), the ring of
  completed FEC groups a bounded queue (\<open>FEC_Receive\<close>), the replay window a filter of first occurrences
  (\<open>Dedup\<close>), the compiled list of targets the rules as configured (\<open>ServerRelay_ACL\<close>), the parser of captured
  packets the packets on the wire (\<open>Packet_Wire\<close>), and operations through the pipe the registry's own
  (\<open>NamedPipe_Props\<close>).

  Parameters and what is assumed of them, always as a named hypothesis: the cipher (\<open>aead\<close>, \<open>aead_laws\<close>),
  key agreement and hashing (\<open>crypto\<close>, \<open>crypto_laws\<close>), Reed-Solomon coding (\<open>rs\<close>, \<open>rs_codes\<close>, \<open>rs_sized\<close>,
  \<open>rs_keeps\<close>), parsing and printing of addresses (\<open>netip\<close>, \<open>netip_laws\<close>), name resolution (\<open>addrs_wf\<close>), and
  for the routes the Windows routing table with failures at will (\<open>routeEnvOK\<close>; \<open>quietEnv\<close> is one without
  failures, which includes that the journal fits into its 1 MiB). Witnesses instantiate all of them.

  Bounds. All loops of the program that are modelled as functions terminate, with no fuel. Uniqueness of
  nonces is stated for \<open>2^40\<close> operations of one session, each of which takes at most \<open>2^22\<close> packet numbers,
  so that 64 bits suffice; the pipe client for fewer than \<open>2^64 - 2\<close> events, so that request numbers do not
  repeat; driver messages for lengths below \<open>2^32\<close>, above which the code cuts lengths. Rates and loss
  ratios, \<open>float64\<close> in the code, are exact rationals.

  Not modelled: the sockets, pipes, devices and consoles themselves (\<open>udp_transport.go\<close>, \<open>namedpipe_windows.go\<close>,
  the TUN devices, socket tables of the platforms, the diagnostic file and service of the helper), whose
  answers are arguments here; the control API, command line, doctor, launcher and telemetry, which print
  or serve the state of other parts; reading configuration and profile files. Go's memory model below
  mutexes and channels is not modelled, nor the aliasing of slices that the code copies or never shares.
  The closing of a flow's socket is put into the critical section that decides it, which no reader of the
  pool can tell apart, since the pool does not look at closed sockets.
\<close>

section \<open>Properties that span components\<close>

text \<open>
  The captured-UDP budget is exact. For a lease-bound datagram and a codec with the same
  datagram limit, the budget that \<open>MaxCapturedUDPV2Payload\<close> announces for its address family is
  the exact boundary: the payload is within the budget if and only if the tunnel encoding can be
  framed as an FEC data shard and sealed into one datagram.
\<close>

theorem captured_payload_budget:
  assumes "wf_tunnel d" and "\<not> Identity_IsZero (Identity d)"
    and "NewCodecWithMaxDatagramSize key limit = Inr c"
    and "MaxCapturedUDPV2Payload limit (LocalIP d) (RemoteIP d) = Inr n"
    and "wf_inner inner" and "s \<le> maxDTLSSequence"
  shows "\<exists>w. MarshalTunnelDatagram d = Inr w \<and>
    (int (length (tunnelPayload d)) \<le> n \<longleftrightarrow>
      (\<exists>f wire. frameFECData w (length w + fecLengthPrefixSize) = Inr f \<and>
         Seal A (Some c) s inner f = Inr wire))"
proof -
  obtain w where w: "MarshalTunnelDatagram d = Inr w" using wf_tunnel_marshals [OF assms(1)] by blast
  obtain lim where lim: "normalizeMaxDatagramSize limit = Inr lim" "maxDatagramSize c = lim"
    using assms(3) by (auto simp: NewCodecWithMaxDatagramSize_def split: sum.splits if_splits)
  have c: "wf_codec c" by (rule NewCodec_wf [OF assms(3)])
  have fam: "Addr_Is4 (LocalIP d) = Addr_Is4 (RemoteIP d)"
    and n: "n = lim - int (if Addr_Is4 (LocalIP d) then 132 else 156)"
    using assms(4) lim(1)
    by (auto simp: MaxCapturedUDPV2Payload_def Let_def CapturedUDPV2IPv4Overhead_def
        CapturedUDPV2IPv6Overhead_def tgp_sizes fecLengthPrefixSize_def split: if_splits)
  have len: "length w = 50 + (if Addr_Is4 (LocalIP d) then 8 else 32) + length (tunnelPayload d)"
    using Marshal_length [OF assms(1) w] assms(1,2) fam by (auto simp: wf_tunnel_def addr_slice_len)
  have le: "lim \<le> 1452" using normalizeMaxDatagramSize_range [OF lim(1)] by (simp add: tgp_sizes)
  have f: "frameFECData w (length w + fecLengthPrefixSize) =
      (if length w \<le> 1378 then Inr (put_u16 (of_nat (length w)) @ w) else Inl ErrFECShardTooLarge)"
    by (simp add: frameFECData_def maxTGPDataPayloadSize_eq fecLengthPrefixSize_def zeros_def)
  have "(\<exists>f wire. frameFECData w (length w + fecLengthPrefixSize) = Inr f \<and>
      Seal A (Some c) s inner f = Inr wire) \<longleftrightarrow> int (length w) + 74 \<le> lim"
    using le Seal_defined_iff [OF c assms(5), of A s "put_u16 (of_nat (length w)) @ w"] assms(6) lim(2)
    by (auto simp: f)
  then show ?thesis using w n len by auto
qed

theorem captured_payload_budget_witness:
  "\<exists>w. MarshalTunnelDatagram
      \<lparr>Identity = \<lparr>FlowID = replicate 16 1, Generation = 1, LeaseNonce = replicate 16 2\<rparr>,
       LocalIP = Addr4 [10, 0, 0, 1], LocalPort = 5000, RemoteIP = Addr4 [1, 1, 1, 1], RemotePort = 53,
       tunnelPayload = replicate 1220 7\<rparr> = Inr w \<and>
    (\<exists>f wire. frameFECData w (length w + fecLengthPrefixSize) = Inr f \<and>
       Seal demo_aead (Some demo_codec) 5
         \<lparr>Magic = TGP_Magic, Flags = 0, SessionID = zeros 16, StreamID = 0, PacketNumber = 5,
          FECGroup = 0, FECIndex = 0, FECTotal = 0, FECDataShards = 0, PayloadLength = 0\<rparr> f = Inr wire)"
proof -
  let ?d = "\<lparr>Identity = \<lparr>FlowID = replicate 16 1, Generation = 1, LeaseNonce = replicate 16 2\<rparr>,
    LocalIP = Addr4 [10, 0, 0, 1], LocalPort = 5000, RemoteIP = Addr4 [1, 1, 1, 1], RemotePort = 53,
    tunnelPayload = replicate 1220 7\<rparr>"
  have d: "wf_tunnel ?d" "\<not> Identity_IsZero (Identity ?d)"
    by (simp_all add: wf_tunnel_def Identity_IsZero_def Identity_valid_def zeroIdentity_def zeros_def
        Addr_IsValid_def eval_nat_numeral)
  have c: "NewCodecWithMaxDatagramSize (zeros 32) 1352 = Inr demo_codec" by code_simp
  have n: "MaxCapturedUDPV2Payload 1352 (LocalIP ?d) (RemoteIP ?d) = Inr 1220" by code_simp
  from captured_payload_budget [OF d c n, of _ 5 demo_aead] show ?thesis
    by (simp add: wf_inner_def maxDTLSSequence_eq)
qed
end
